(* ===== verification/Prelude.thy ===== *)
theory Prelude
  imports Main "HOL-Library.List_Lexorder" "HOL-Library.Char_ord" "HOL-Library.Product_Lexorder"
    "HOL-Library.Sublist"
begin

text \<open>
  The shared vocabulary of the development: Go's 64-bit integers written out on \<open>int\<close>,
  Go's strings as byte strings (\<open>string\<close>, one \<open>char\<close> per byte) with the functions of
  the packages \<open>strings\<close> and \<open>unicode/utf8\<close> that the sources call, instants of the
  package \<open>time\<close> as nanoseconds since Go's zero time, results as sums, and the generic
  lemmas on lists, sums and integers that the component proofs share.
\<close>

named_theorems store_simps "unfolding rules of the store operations"
named_theorems inv_intros "introduction rules for the parts of an invariant"

section \<open>Machine integers\<close>

text \<open>Go's \<open>int64\<close> (and \<open>int\<close> on the supported platforms): two's complement, wrapping.\<close>

definition wrap64 :: "int \<Rightarrow> int" where
  "wrap64 x = (x + 2 ^ 63) mod 2 ^ 64 - 2 ^ 63"

definition max_int64 :: int where
  "max_int64 = 2 ^ 63 - 1"

lemma wrap64_id: "- (2 ^ 63) \<le> x \<Longrightarrow> x < 2 ^ 63 \<Longrightarrow> wrap64 x = x"
  by (simp add: wrap64_def)

lemma wrap64_range: "- (2 ^ 63) \<le> wrap64 x \<and> wrap64 x < 2 ^ 63"
  by (simp add: wrap64_def)

lemma wrap64_max: "wrap64 (max_int64 + 1) = - (2 ^ 63)"
  by (simp add: wrap64_def max_int64_def)

lemma wrap64_Suc: "0 \<le> x \<Longrightarrow> x < max_int64 \<Longrightarrow> wrap64 (x + 1) = x + 1"
  by (simp add: wrap64_def max_int64_def)

section \<open>Byte strings\<close>

type_synonym bytes = string

definition has_suffix :: "string \<Rightarrow> string \<Rightarrow> bool" where
  "has_suffix s t \<longleftrightarrow> length t \<le> length s \<and> drop (length s - length t) s = t"

definition has_prefix :: "string \<Rightarrow> string \<Rightarrow> bool" where
  "has_prefix s t \<longleftrightarrow> take (length t) s = t"

lemma has_suffix_space: "has_suffix s '' '' \<longleftrightarrow> s \<noteq> [] \<and> last s = CHR '' ''"
proof (cases s rule: rev_cases)
  case Nil
  then show ?thesis by (simp add: has_suffix_def)
next
  case (snoc ys y)
  then show ?thesis by (simp add: has_suffix_def)
qed

fun contains_sub :: "string \<Rightarrow> string \<Rightarrow> bool" where
  "contains_sub [] t = (t = [])"
| "contains_sub (c # s) t = (has_prefix (c # s) t \<or> contains_sub s t)"

definition contains_byte :: "string \<Rightarrow> char \<Rightarrow> bool" where
  "contains_byte s c \<longleftrightarrow> c \<in> set s"

definition to_lower_char :: "char \<Rightarrow> char" where
  "to_lower_char c = (if CHR ''A'' \<le> c \<and> c \<le> CHR ''Z'' then char_of (of_char c + 32 :: nat) else c)"

definition to_lower :: "string \<Rightarrow> string" where
  "to_lower s = map to_lower_char s"

text \<open>
  \<open>utf8.ValidString\<close>: the length of the well-formed sequence a lead byte opens, less the
  lead byte itself, or \<open>None\<close> when no well-formed sequence starts here.
\<close>

definition utf8_cont :: "nat \<Rightarrow> bool" where
  "utf8_cont b \<longleftrightarrow> 128 \<le> b \<and> b \<le> 191"

definition utf8_tail :: "nat \<Rightarrow> nat list \<Rightarrow> nat option" where
  "utf8_tail a s =
    (if a < 128 then Some 0
     else if 194 \<le> a \<and> a \<le> 223 then
       (case s of b # _ \<Rightarrow> if utf8_cont b then Some 1 else None | _ \<Rightarrow> None)
     else if 224 \<le> a \<and> a \<le> 239 then
       (case s of b # c # _ \<Rightarrow>
          if (if a = 224 then 160 \<le> b \<and> b \<le> 191 else if a = 237 then 128 \<le> b \<and> b \<le> 159
              else utf8_cont b) \<and> utf8_cont c then Some 2 else None
        | _ \<Rightarrow> None)
     else if 240 \<le> a \<and> a \<le> 244 then
       (case s of b # c # d # _ \<Rightarrow>
          if (if a = 240 then 144 \<le> b \<and> b \<le> 191 else if a = 244 then 128 \<le> b \<and> b \<le> 143
              else utf8_cont b) \<and> utf8_cont c \<and> utf8_cont d then Some 3 else None
        | _ \<Rightarrow> None)
     else None)"

fun utf8_valid_bytes :: "nat list \<Rightarrow> bool" where
  "utf8_valid_bytes [] = True"
| "utf8_valid_bytes (a # s) =
    (case utf8_tail a s of None \<Rightarrow> False | Some n \<Rightarrow> utf8_valid_bytes (drop n s))"

definition utf8_valid :: "string \<Rightarrow> bool" where
  "utf8_valid s = utf8_valid_bytes (map of_char s)"

lemma utf8_valid_ascii: "\<forall>c \<in> set s. of_char c < (128 :: nat) \<Longrightarrow> utf8_valid s"
  unfolding utf8_valid_def by (induction s) (auto simp: utf8_tail_def)

section \<open>Instants and durations\<close>

text \<open>
  A \<open>time.Time\<close> is the number of nanoseconds since Go's zero time (January 1 of year 1,
  UTC), so \<open>IsZero\<close> is equality with 0, \<open>After\<close> is the order and \<open>Add\<close> is addition.
  \<open>UnixNano\<close> counts from 1970 and wraps in 64 bits; a \<open>time.Duration\<close> is a number of
  nanoseconds.
\<close>

type_synonym instant = int
type_synonym duration = int

definition unix_epoch :: instant where
  "unix_epoch = 62135596800 * 1000000000"

definition unix_nano :: "instant \<Rightarrow> int" where
  "unix_nano t = wrap64 (t - unix_epoch)"

definition unix_micro :: "int \<Rightarrow> instant" where
  "unix_micro us = unix_epoch + us * 1000"

text \<open>The instants whose Unix nanoseconds fit in 64 bits (years 1678 to 2262).\<close>

definition nano_range :: "instant \<Rightarrow> bool" where
  "nano_range t \<longleftrightarrow> - (2 ^ 63) \<le> t - unix_epoch \<and> t - unix_epoch < 2 ^ 63"

lemma unix_nano_less:
  "nano_range s \<Longrightarrow> nano_range t \<Longrightarrow> unix_nano s < unix_nano t \<longleftrightarrow> s < t"
  by (simp add: nano_range_def unix_nano_def wrap64_id)

section \<open>Results\<close>

text \<open>A Go result \<open>(value, error)\<close>: \<open>Inl\<close> the error, \<open>Inr\<close> the value.\<close>

definition rbind :: "'e + 'a \<Rightarrow> ('a \<Rightarrow> 'e + 'b) \<Rightarrow> 'e + 'b" where
  "rbind r f = (case r of Inl e \<Rightarrow> Inl e | Inr x \<Rightarrow> f x)"

definition guard_r :: "bool \<Rightarrow> 'e \<Rightarrow> 'e + unit" where
  "guard_r ok e = (if ok then Inr () else Inl e)"

lemma rbind_simps [simp]: "rbind (Inl e) f = Inl e" "rbind (Inr x) f = f x"
  by (simp_all add: rbind_def)

lemma rbind_Inr_iff: "rbind r f = Inr y \<longleftrightarrow> (\<exists>x. r = Inr x \<and> f x = Inr y)"
  by (cases r) auto

lemma rbind_Inl_iff: "rbind r f = Inl e \<longleftrightarrow> r = Inl e \<or> (\<exists>x. r = Inr x \<and> f x = Inl e)"
  by (cases r) auto

lemma guard_r_Inr_iff [simp]: "guard_r ok e = Inr u \<longleftrightarrow> ok"
  by (simp add: guard_r_def)

lemma guard_r_Inl_iff [simp]: "guard_r ok e = Inl e' \<longleftrightarrow> \<not> ok \<and> e' = e"
  by (auto simp: guard_r_def)

section \<open>Lists\<close>

lemma hd_sort_key_least:
  assumes "sort_key f xs = x # ys" and "y \<in> set xs"
  shows "f x \<le> f y"
proof -
  have "sorted (map f (x # ys))" using assms(1) by (metis sorted_sort_key)
  moreover have "y \<in> set (x # ys)" using assms by (metis set_sort)
  ultimately show ?thesis by auto
qed

lemma hd_sort_key_mem:
  assumes "sort_key f xs = x # ys"
  shows "x \<in> set xs"
  using assms by (metis list.set_intros(1) set_sort)

lemma sort_key_Nil_iff [simp]: "sort_key f xs = [] \<longleftrightarrow> xs = []"
  by (metis length_0_conv length_sort)

lemma distinct_map_eq:
  "distinct (map f xs) \<Longrightarrow> x \<in> set xs \<Longrightarrow> y \<in> set xs \<Longrightarrow> f x = f y \<Longrightarrow> x = y"
  by (simp add: distinct_map inj_on_def)

lemma distinct_map_filterI: "distinct (map f xs) \<Longrightarrow> distinct (map f (filter P xs))"
  by (simp add: distinct_map inj_on_def)

lemma distinct_map_sort_key: "distinct (map f (sort_key g xs)) = distinct (map f xs)"
  by (simp add: distinct_map)

lemma distinct_map_take: "distinct (map f xs) \<Longrightarrow> distinct (map f (take n xs))"
  by (metis distinct_take take_map)

lemma in_set_takeD': "x \<in> set (take n xs) \<Longrightarrow> x \<in> set xs"
  by (rule in_set_takeD)

section \<open>Joined strings\<close>

text \<open>\<open>strings.Join\<close>.\<close>

fun join_strings :: "string \<Rightarrow> string list \<Rightarrow> string" where
  "join_strings sep [] = ''''"
| "join_strings sep [x] = x"
| "join_strings sep (x # y # ys) = x @ sep @ join_strings sep (y # ys)"

end
