(* ===== verification/Dbstore_Types.thy ===== *)
theory Dbstore_Types
  imports Prelude
begin

text \<open>
  The data of \<open>stores/dbstore\<close>: the rows of its five tables, the checkpoint and journal
  records the workflow runtime hands in, the errors a call can return, and the validation
  and encoding functions (\<open>dbstore.go\<close>, \<open>operations.go\<close>).

  The types \<open>workflow.CheckpointRecord\<close> and \<open>runlog.Record\<close> belong to the module
  \<open>gopact\<close>, which is not in the repository; the records below have the fields the
  store reads and writes. Their JSON encoding is a parameter, the record \<open>codec\<close>: the
  store sees an encoded record only through its length, its equality and its decoding.
\<close>

section \<open>Limits\<close>

definition maxCheckpointBytes :: int where "maxCheckpointBytes = 4 * 2 ^ 20"
definition maxRunLogBytes :: int where "maxRunLogBytes = 4 * 2 ^ 20"
definition maxIndexedIDBytes :: int where "maxIndexedIDBytes = 191"

section \<open>Checkpoints, journal records and table rows\<close>

datatype ckpt_status =
    CheckpointRunning | CheckpointInterrupted | CheckpointCompleted | CheckpointFailed
  | CheckpointCanceled | CheckpointTerminated | UnknownStatus string

datatype replay_status = ReplayUnknown | ReplaySafe | ReplayUnsafe | UnknownReplay string

record checkpoint =
  cp_id :: string
  cp_session_id :: string
  cp_run_id :: string
  cp_workflow_name :: string
  cp_topology_version :: string
  cp_schema_version :: int
  cp_version :: int
  cp_status :: ckpt_status
  cp_replay_status :: replay_status
  cp_owner_id :: string
  cp_claim_sequence :: int
  cp_lease_expires_at :: instant
  cp_lease_duration :: duration
  cp_confirmed_sequence :: int
  cp_pending_sequence :: int
  cp_payload :: bytes
  cp_created_at :: instant
  cp_updated_at :: instant

record lease =
  ls_run_id :: string
  ls_owner_id :: string
  ls_claim_sequence :: int
  ls_expires_at :: instant
  ls_duration :: duration

record event =
  ev_session_id :: string
  ev_run_id :: string
  ev_sequence :: int
  ev_event_type :: string
  ev_source :: string
  ev_timestamp :: instant
  ev_source_run_id :: string
  ev_source_event_seq :: int
  ev_payload :: bytes

record fence =
  fn_owner_id :: string
  fn_claim_sequence :: int

datatype run_kind = runKindJournal | runKindWorkflow
datatype run_state = runStateActive | runStatePurging | runStatePurged

record 'j checkpointRow =
  ck_run_id :: string
  ck_version :: int
  ck_record_json :: 'j
  ck_payload :: bytes

record 'j runLogRow =
  rl_ordinal :: int
  rl_session_id :: string
  rl_run_id :: string
  rl_sequence :: int
  rl_record_json :: 'j

record runLogRetentionRow =
  rt_ordinal :: int
  rt_run_id :: string
  rt_appended_at :: int

record runRow =
  rn_run_id :: string
  rn_session_id :: string
  rn_status :: ckpt_status
  rn_version :: int
  rn_created_at :: int
  rn_updated_at :: int

record runRegistryRow =
  rg_run_id :: string
  rg_kind :: run_kind
  rg_state :: run_state
  rg_updated_at :: int
  rg_compacted :: int

text \<open>The database: one list of rows per table, and the counter behind the ordinal column.\<close>

record 'j db =
  checkpoints :: "'j checkpointRow list"
  events :: "'j runLogRow list"
  retention :: "runLogRetentionRow list"
  runs :: "runRow list"
  registry :: "runRegistryRow list"
  next_ordinal :: int

definition empty_db :: "'j db" where
  "empty_db = \<lparr>checkpoints = [], events = [], retention = [], runs = [], registry = [],
    next_ordinal = 1\<rparr>"

section \<open>Errors and the call environment\<close>

datatype ctx_error = Canceled | DeadlineExceeded

text \<open>What a database driver reports for a statement it could not run.\<close>

datatype db_fault =
    SqliteCode int | DriverMessage string | SqlState string | MysqlNumber int

text \<open>
  The sentinel errors of the packages \<open>workflow\<close>, \<open>runlog\<close> and \<open>gorm\<close> and of the
  store itself; the string is the detail a wrapping \<open>fmt.Errorf\<close> adds.
\<close>

datatype store_error =
    ErrInvalidCheckpoint string | ErrCheckpointExists | ErrCheckpointNotFound
  | ErrCheckpointConflict | ErrCheckpointMismatch | ErrCheckpointLeaseLost
  | ErrRunLogConflict string | ErrHistoryCompacted int | ErrInvalidRecord string
  | ErrInvalidQuery string | ErrDuplicatedKey | ErrRecordNotFound
  | errRunHeadConflict | errRunKindConflict | errRunRetired
  | ErrContext ctx_error | ErrDriver db_fault | ErrTrigger string | ErrOther string

datatype dialect = Sqlite | Mysql | Postgres

text \<open>
  One call sees: whether the receiver has a database, the context's error before the call
  and after a failed transaction, the driver fault (if any) that makes its transaction
  fail, the database clock in microseconds and the host clock.
\<close>

record env =
  en_dialect :: dialect
  en_open :: bool
  en_ctx :: "ctx_error option"
  en_ctx_after :: "ctx_error option"
  en_fault :: "db_fault option"
  en_db_micro :: int
  en_now_utc :: instant

record 'j codec =
  marshal_checkpoint :: "checkpoint \<Rightarrow> 'j option"
  unmarshal_checkpoint :: "'j \<Rightarrow> checkpoint option"
  marshal_event :: "event \<Rightarrow> 'j option"
  unmarshal_event :: "'j \<Rightarrow> event option"
  json_len :: "'j \<Rightarrow> int"

text \<open>
  What the store relies on in \<open>encoding/json\<close> for these two types: a document that was
  encoded decodes to the record it was encoded from. The lease duration is a parameter of
  a call, which no stored record is asked for, and may be absent from the document.
\<close>

definition codec_ok :: "'j codec \<Rightarrow> bool" where
  "codec_ok cd \<longleftrightarrow>
    (\<forall>r j. marshal_checkpoint cd r = Some j \<longrightarrow>
       (\<exists>d. unmarshal_checkpoint cd j = Some (r\<lparr>cp_lease_duration := d\<rparr>))) \<and>
    (\<forall>e j. marshal_event cd e = Some j \<longrightarrow> unmarshal_event cd j = Some e) \<and>
    (\<forall>j. 0 \<le> json_len cd j)"

section \<open>Encoding\<close>

definition encodeCheckpointMetadata :: "'j codec \<Rightarrow> checkpoint \<Rightarrow> store_error + 'j" where
  "encodeCheckpointMetadata cd r =
    (case marshal_checkpoint cd (r\<lparr>cp_payload := []\<rparr>) of
       None \<Rightarrow> Inl (ErrOther ''dbstore: encode checkpoint'')
     | Some j \<Rightarrow>
         if json_len cd j + int (length (cp_payload r)) > maxCheckpointBytes
         then Inl (ErrInvalidCheckpoint ''encoded checkpoint exceeds limit'')
         else Inr j)"

definition decodeCheckpoint :: "'j codec \<Rightarrow> 'j \<Rightarrow> bytes \<Rightarrow> store_error + checkpoint" where
  "decodeCheckpoint cd j payload =
    (case unmarshal_checkpoint cd j of
       None \<Rightarrow> Inl (ErrOther ''dbstore: decode checkpoint'')
     | Some r \<Rightarrow> Inr (r\<lparr>cp_payload := payload\<rparr>))"

definition runHead :: "checkpoint \<Rightarrow> runRow" where
  "runHead r = \<lparr>rn_run_id = cp_run_id r, rn_session_id = cp_session_id r,
     rn_status = cp_status r, rn_version = cp_version r,
     rn_created_at = unix_nano (cp_created_at r), rn_updated_at = unix_nano (cp_updated_at r)\<rparr>"

section \<open>Validation\<close>

definition validateIndexedID :: "string \<Rightarrow> string \<Rightarrow> string + unit" where
  "validateIndexedID name v =
    (if v = '''' then Inl (name @ '' is required'')
     else if int (length v) > maxIndexedIDBytes then Inl (name @ '' exceeds 191 bytes'')
     else if \<not> utf8_valid v then Inl (name @ '' must be valid UTF-8'')
     else if contains_byte v (CHR 0x00) then Inl (name @ '' must not contain NUL'')
     else if has_suffix v '' '' then Inl (name @ '' must not end with a space'')
     else Inr ())"

definition checkpointTerminal :: "ckpt_status \<Rightarrow> bool" where
  "checkpointTerminal s \<longleftrightarrow>
    s = CheckpointCompleted \<or> s = CheckpointFailed \<or> s = CheckpointCanceled \<or> s = CheckpointTerminated"

definition sameCheckpointIdentity :: "checkpoint \<Rightarrow> checkpoint \<Rightarrow> bool" where
  "sameCheckpointIdentity l r \<longleftrightarrow>
    cp_id l = cp_id r \<and> cp_session_id l = cp_session_id r \<and> cp_run_id l = cp_run_id r \<and>
    cp_workflow_name l = cp_workflow_name r \<and> cp_topology_version l = cp_topology_version r \<and>
    cp_schema_version l = cp_schema_version r"

fun first_error :: "('a \<Rightarrow> 'e + unit) \<Rightarrow> 'a list \<Rightarrow> 'e + unit" where
  "first_error f [] = Inr ()"
| "first_error f (x # xs) = (case f x of Inl e \<Rightarrow> Inl e | Inr _ \<Rightarrow> first_error f xs)"

definition required_field :: "string \<times> string \<Rightarrow> store_error + unit" where
  "required_field f = (if snd f = '''' then Inl (ErrInvalidCheckpoint (fst f @ '' is required'')) else Inr ())"

definition indexed_field :: "(string \<Rightarrow> store_error) \<Rightarrow> string \<times> string \<Rightarrow> store_error + unit" where
  "indexed_field wrap f = (case validateIndexedID (fst f) (snd f) of Inl m \<Rightarrow> Inl (wrap m) | Inr u \<Rightarrow> Inr u)"

definition validateCheckpoint :: "checkpoint \<Rightarrow> store_error + unit" where
  "validateCheckpoint r =
    rbind (first_error required_field
       [(''checkpoint id'', cp_id r), (''session id'', cp_session_id r), (''run id'', cp_run_id r),
        (''workflow name'', cp_workflow_name r), (''topology'', cp_topology_version r)]) (\<lambda>_.
    rbind (first_error (indexed_field ErrInvalidCheckpoint)
       [(''session id'', cp_session_id r), (''run id'', cp_run_id r)]) (\<lambda>_.
    if cp_schema_version r \<le> 0
    then Inl (ErrInvalidCheckpoint ''checkpoint schema version is required'')
    else if cp_lease_duration r < 0
    then Inl (ErrInvalidCheckpoint ''checkpoint lease duration must not be negative'')
    else if cp_confirmed_sequence r < 0 \<or> cp_pending_sequence r < 0 \<or> cp_payload r = [] \<or>
      int (length (cp_payload r)) > maxCheckpointBytes
    then Inl (ErrInvalidCheckpoint ''checkpoint payload or sequence is invalid'')
    else if cp_created_at r = 0 \<or> cp_updated_at r = 0
    then Inl (ErrInvalidCheckpoint ''checkpoint timestamps are required'')
    else case cp_status r of
      UnknownStatus s \<Rightarrow> Inl (ErrInvalidCheckpoint (''checkpoint status '' @ s))
    | _ \<Rightarrow> (case cp_replay_status r of
        UnknownReplay s \<Rightarrow> Inl (ErrInvalidCheckpoint (''replay status '' @ s))
      | _ \<Rightarrow> Inr ())))"

definition validateRunLogRecord :: "event \<Rightarrow> store_error + unit" where
  "validateRunLogRecord r =
    rbind (first_error (indexed_field ErrInvalidRecord)
       [(''session id'', ev_session_id r), (''run id'', ev_run_id r)]) (\<lambda>_.
    if ev_sequence r \<le> 0 then Inl (ErrInvalidRecord ''sequence must be positive'')
    else if ev_event_type r = '''' then Inl (ErrInvalidRecord ''event type is required'')
    else if ev_source r = '''' then Inl (ErrInvalidRecord ''source is required'')
    else if ev_timestamp r = 0 then Inl (ErrInvalidRecord ''timestamp is required'')
    else if (ev_source_run_id r = '''') \<noteq> (ev_source_event_seq r = 0)
    then Inl (ErrInvalidRecord ''fork source run and event sequence must be set together'')
    else if ev_source_event_seq r < 0
    then Inl (ErrInvalidRecord ''source event sequence must not be negative'')
    else Inr ())"

definition encodeRunLogRecord :: "'j codec \<Rightarrow> event \<Rightarrow> store_error + 'j" where
  "encodeRunLogRecord cd r =
    rbind (validateRunLogRecord r) (\<lambda>_.
    case marshal_event cd r of
      None \<Rightarrow> Inl (ErrOther ''dbstore: encode runlog record'')
    | Some j \<Rightarrow> if json_len cd j > maxRunLogBytes
        then Inl (ErrInvalidRecord ''encoded record exceeds limit'') else Inr j)"

section \<open>Lemmas\<close>

lemma runHead_simps [simp]:
  "rn_run_id (runHead r) = cp_run_id r" "rn_session_id (runHead r) = cp_session_id r"
  "rn_status (runHead r) = cp_status r" "rn_version (runHead r) = cp_version r"
  "rn_created_at (runHead r) = unix_nano (cp_created_at r)"
  "rn_updated_at (runHead r) = unix_nano (cp_updated_at r)"
  by (simp_all add: runHead_def)

lemma validateIndexedID_Inr_iff:
  "validateIndexedID name v = Inr u \<longleftrightarrow>
     v \<noteq> '''' \<and> int (length v) \<le> 191 \<and> utf8_valid v \<and> CHR 0x00 \<notin> set v \<and> last v \<noteq> CHR '' ''"
  by (auto simp: validateIndexedID_def maxIndexedIDBytes_def has_suffix_space contains_byte_def)

lemma first_error_Inr_iff: "first_error f xs = Inr u \<longleftrightarrow> (\<forall>x \<in> set xs. f x = Inr ())"
  by (induction xs) (auto split: sum.splits)

lemma indexed_field_Inr_iff [simp]:
  "indexed_field w f = Inr u \<longleftrightarrow> validateIndexedID (fst f) (snd f) = Inr ()"
  by (auto simp: indexed_field_def split: sum.splits)

lemma required_field_Inr_iff [simp]: "required_field f = Inr u \<longleftrightarrow> snd f \<noteq> ''''"
  by (auto simp: required_field_def)

definition known_status :: "ckpt_status \<Rightarrow> bool" where
  "known_status s \<longleftrightarrow> (\<forall>t. s \<noteq> UnknownStatus t)"

lemma validateCheckpoint_Inr_iff:
  "validateCheckpoint r = Inr u \<longleftrightarrow>
     cp_id r \<noteq> '''' \<and> cp_workflow_name r \<noteq> '''' \<and> cp_topology_version r \<noteq> '''' \<and>
     validateIndexedID ''session id'' (cp_session_id r) = Inr () \<and>
     validateIndexedID ''run id'' (cp_run_id r) = Inr () \<and>
     0 < cp_schema_version r \<and> 0 \<le> cp_lease_duration r \<and> 0 \<le> cp_confirmed_sequence r \<and>
     0 \<le> cp_pending_sequence r \<and> cp_payload r \<noteq> [] \<and>
     int (length (cp_payload r)) \<le> maxCheckpointBytes \<and>
     cp_created_at r \<noteq> 0 \<and> cp_updated_at r \<noteq> 0 \<and> known_status (cp_status r) \<and>
     (\<forall>t. cp_replay_status r \<noteq> UnknownReplay t)"
  unfolding validateCheckpoint_def rbind_Inr_iff first_error_Inr_iff known_status_def
  by (auto simp: validateIndexedID_Inr_iff split: if_splits ckpt_status.splits replay_status.splits)

lemma encodeCheckpointMetadata_Inr_iff:
  "encodeCheckpointMetadata cd r = Inr j \<longleftrightarrow>
     marshal_checkpoint cd (r\<lparr>cp_payload := []\<rparr>) = Some j \<and>
     json_len cd j + int (length (cp_payload r)) \<le> maxCheckpointBytes"
  by (auto simp: encodeCheckpointMetadata_def split: option.splits)

lemma decode_encode:
  assumes "codec_ok cd" and "encodeCheckpointMetadata cd r = Inr j"
  shows "\<exists>d. decodeCheckpoint cd j (cp_payload r) = Inr (r\<lparr>cp_lease_duration := d\<rparr>)"
proof -
  from assms obtain d where
    "unmarshal_checkpoint cd j = Some (r\<lparr>cp_payload := [], cp_lease_duration := d\<rparr>)"
    unfolding encodeCheckpointMetadata_Inr_iff codec_ok_def by fastforce
  then show ?thesis by (auto simp: decodeCheckpoint_def intro: exI [of _ d])
qed

lemma encodeRunLogRecord_Inr_iff:
  "encodeRunLogRecord cd r = Inr j \<longleftrightarrow>
     validateRunLogRecord r = Inr () \<and> marshal_event cd r = Some j \<and> json_len cd j \<le> maxRunLogBytes"
  by (auto simp: encodeRunLogRecord_def rbind_Inr_iff split: option.splits)

lemma validateRunLogRecord_pos: "validateRunLogRecord r = Inr u \<Longrightarrow> 0 < ev_sequence r"
  by (auto simp: validateRunLogRecord_def rbind_Inr_iff split: if_splits)

end
