(* ===== verification/Tables.thy ===== *)
theory Tables
  imports Dbstore_Types
begin

text \<open>
  A table is the list of its rows. The statements the store issues are an \<open>INSERT\<close> that
  reports a duplicate key, an \<open>INSERT ... ON CONFLICT DO NOTHING\<close>, an \<open>UPDATE\<close> and a
  \<open>DELETE\<close> with a predicate (the number of rows they touch is \<open>count_rows\<close>), and
  \<open>SELECT\<close>s with a filter, an order and a limit. The locale \<open>keyed_table\<close> is the contract
  of a table with a unique key; it is interpreted for each table of the store below.
\<close>

section \<open>Statements\<close>

definition ins_row :: "('r \<Rightarrow> 'k) \<Rightarrow> 'r \<Rightarrow> 'r list \<Rightarrow> store_error + 'r list" where
  "ins_row key r t = (if key r \<in> key ` set t then Inl ErrDuplicatedKey else Inr (t @ [r]))"

definition ins_ignore :: "('r \<Rightarrow> 'k) \<Rightarrow> 'r \<Rightarrow> 'r list \<Rightarrow> 'r list" where
  "ins_ignore key r t = (if key r \<in> key ` set t then t else t @ [r])"

definition upd_rows :: "('r \<Rightarrow> bool) \<Rightarrow> ('r \<Rightarrow> 'r) \<Rightarrow> 'r list \<Rightarrow> 'r list" where
  "upd_rows P f t = map (\<lambda>r. if P r then f r else r) t"

definition del_rows :: "('r \<Rightarrow> bool) \<Rightarrow> 'r list \<Rightarrow> 'r list" where
  "del_rows P t = filter (\<lambda>r. \<not> P r) t"

definition count_rows :: "('r \<Rightarrow> bool) \<Rightarrow> 'r list \<Rightarrow> int" where
  "count_rows P t = int (length (filter P t))"

definition select_rows :: "('r \<Rightarrow> bool) \<Rightarrow> ('r \<Rightarrow> 'o::linorder) \<Rightarrow> 'r list \<Rightarrow> 'r list" where
  "select_rows P key t = sort_key key (filter P t)"

definition limit_rows :: "int \<Rightarrow> 'r list \<Rightarrow> 'r list" where
  "limit_rows n t = take (nat n) t"

definition first_row :: "'r list \<Rightarrow> 'r option" where
  "first_row t = (case t of [] \<Rightarrow> None | r # _ \<Rightarrow> Some r)"

definition has_row :: "('r \<Rightarrow> bool) \<Rightarrow> 'r list \<Rightarrow> bool" where
  "has_row P t \<longleftrightarrow> (\<exists>r \<in> set t. P r)"

section \<open>The contract of a table with a unique key\<close>

locale keyed_table =
  fixes key :: "'r \<Rightarrow> 'k"
    and lookup :: "'k \<Rightarrow> 'r list \<Rightarrow> 'r option"
    and insert_new :: "'r \<Rightarrow> 'r list \<Rightarrow> store_error + 'r list"
    and insert_ignore :: "'r \<Rightarrow> 'r list \<Rightarrow> 'r list"
    and update :: "('r \<Rightarrow> bool) \<Rightarrow> ('r \<Rightarrow> 'r) \<Rightarrow> 'r list \<Rightarrow> 'r list"
    and delete :: "('r \<Rightarrow> bool) \<Rightarrow> 'r list \<Rightarrow> 'r list"
    and unique :: "'r list \<Rightarrow> bool"
  assumes lookup_sound: "lookup k t = Some r \<Longrightarrow> r \<in> set t \<and> key r = k"
    and lookup_none: "lookup k t = None \<longleftrightarrow> (\<forall>r \<in> set t. key r \<noteq> k)"
    and unique_row: "unique t \<Longrightarrow> r \<in> set t \<Longrightarrow> r' \<in> set t \<Longrightarrow> key r = key r' \<Longrightarrow> r = r'"
    and insert_new_dup: "insert_new r t = Inl e \<longleftrightarrow> e = ErrDuplicatedKey \<and> lookup (key r) t \<noteq> None"
    and insert_new_ok: "insert_new r t = Inr t' \<Longrightarrow> set t' = insert r (set t) \<and> lookup (key r) t = None"
    and insert_ignore_eq: "insert_ignore r t = (case insert_new r t of Inl _ \<Rightarrow> t | Inr t' \<Rightarrow> t')"
    and insert_unique: "unique t \<Longrightarrow> insert_new r t = Inr t' \<Longrightarrow> unique t'"
    and update_set: "set (update P f t) = (\<lambda>r. if P r then f r else r) ` set t"
    and update_unique: "unique t \<Longrightarrow> (\<And>r. key (f r) = key r) \<Longrightarrow> unique (update P f t)"
    and delete_set: "set (delete P t) = {r \<in> set t. \<not> P r}"
    and delete_unique: "unique t \<Longrightarrow> unique (delete P t)"
begin

lemma lookup_iff: "unique t \<Longrightarrow> lookup k t = Some r \<longleftrightarrow> r \<in> set t \<and> key r = k"
  by (metis lookup_none lookup_sound not_Some_eq unique_row)

lemma lookup_insert_new:
  assumes "unique t" and "insert_new r t = Inr t'"
  shows "lookup k t' = (if k = key r then Some r else lookup k t)"
proof -
  have u: "unique t'" and m: "set t' = insert r (set t)" and n: "lookup (key r) t = None"
    using assms insert_unique insert_new_ok by blast+
  show ?thesis
  proof (cases "k = key r")
    case True
    with u m show ?thesis by (simp add: lookup_iff)
  next
    case False
    with m have "lookup k t' = Some x \<longleftrightarrow> lookup k t = Some x" for x
      using u assms(1) by (auto simp: lookup_iff)
    with False show ?thesis by (cases "lookup k t"; cases "lookup k t'") auto
  qed
qed

lemma insert_ignore_unique: "unique t \<Longrightarrow> unique (insert_ignore r t)"
  by (auto simp: insert_ignore_eq insert_unique split: sum.splits)

lemma lookup_insert_ignore:
  assumes "unique t"
  shows "lookup k (insert_ignore r t) =
    (if k = key r \<and> lookup k t = None then Some r else lookup k t)"
proof (cases "insert_new r t")
  case (Inl e)
  then have "lookup (key r) t \<noteq> None" using insert_new_dup by blast
  with Inl show ?thesis by (auto simp: insert_ignore_eq)
next
  case (Inr t')
  with assms show ?thesis
    using insert_new_ok [OF Inr] by (simp add: insert_ignore_eq lookup_insert_new)
qed

lemma lookup_update:
  assumes "unique t" and "\<And>r. key (f r) = key r"
  shows "lookup k (update P f t) =
    (case lookup k t of None \<Rightarrow> None | Some r \<Rightarrow> Some (if P r then f r else r))"
proof (cases "lookup k t")
  case None
  then have "\<forall>r \<in> set (update P f t). key r \<noteq> k"
    using assms(2) by (auto simp: update_set lookup_none)
  then have "lookup k (update P f t) = None" using lookup_none by blast
  with None show ?thesis by simp
next
  case (Some r)
  then have "r \<in> set t" and "key r = k" using lookup_sound by auto
  moreover have "key (if P r then f r else r) = key r" using assms(2) by simp
  moreover have "(if P r then f r else r) \<in> set (update P f t)"
    using \<open>r \<in> set t\<close> unfolding update_set by (rule imageI)
  ultimately show ?thesis
    using Some update_unique [OF assms] by (simp add: lookup_iff)
qed

lemma lookup_delete:
  assumes "unique t"
  shows "lookup k (delete P t) =
    (case lookup k t of None \<Rightarrow> None | Some r \<Rightarrow> if P r then None else Some r)"
proof (cases "lookup k t")
  case None
  then have "lookup k (delete P t) = None" using lookup_none by (metis (lifting) delete_set mem_Collect_eq)
  with None show ?thesis by simp
next
  case (Some r)
  then have r: "r \<in> set t" "key r = k" using lookup_sound by auto
  show ?thesis
  proof (cases "P r")
    case True
    then have "\<forall>x \<in> set (delete P t). key x \<noteq> k"
      using r assms unique_row by (auto simp: delete_set)
    then have "lookup k (delete P t) = None" using lookup_none by blast
    with Some True show ?thesis by simp
  next
    case False
    with r Some show ?thesis
      using delete_unique [OF assms] by (simp add: lookup_iff delete_set)
  qed
qed

end

section \<open>Lists of rows meet the contract\<close>

lemma find_Some_iff': "find P t = Some r \<Longrightarrow> r \<in> set t \<and> P r"
  by (metis find_Some_iff nth_mem)

lemma find_None_iff': "find P t = None \<longleftrightarrow> (\<forall>r \<in> set t. \<not> P r)"
  by (auto simp: find_None_iff)

lemma list_keyed_table:
  "keyed_table key (\<lambda>k. find (\<lambda>r. key r = k)) (ins_row key) (ins_ignore key) upd_rows del_rows
    (\<lambda>t. distinct (map key t))"
proof
  show "\<And>k t r. find (\<lambda>r. key r = k) t = Some r \<Longrightarrow> r \<in> set t \<and> key r = k"
    by (drule find_Some_iff') simp
  show "\<And>k t. (find (\<lambda>r. key r = k) t = None) = (\<forall>r \<in> set t. key r \<noteq> k)"
    by (simp add: find_None_iff')
  show "\<And>t r r'. distinct (map key t) \<Longrightarrow> r \<in> set t \<Longrightarrow> r' \<in> set t \<Longrightarrow> key r = key r' \<Longrightarrow> r = r'"
    by (rule distinct_map_eq)
  show "\<And>r t e. (ins_row key r t = Inl e) =
      (e = ErrDuplicatedKey \<and> find (\<lambda>x. key x = key r) t \<noteq> None)"
    by (auto simp: ins_row_def find_None_iff' image_iff)
  show "\<And>r t t'. ins_row key r t = Inr t' \<Longrightarrow>
      set t' = insert r (set t) \<and> find (\<lambda>x. key x = key r) t = None"
    by (auto simp: ins_row_def find_None_iff' image_iff split: if_splits)
  show "\<And>r t. ins_ignore key r t = (case ins_row key r t of Inl _ \<Rightarrow> t | Inr t' \<Rightarrow> t')"
    by (simp add: ins_row_def ins_ignore_def)
  show "\<And>t r t'. distinct (map key t) \<Longrightarrow> ins_row key r t = Inr t' \<Longrightarrow> distinct (map key t')"
    by (auto simp: ins_row_def split: if_splits)
  show "\<And>P f t. set (upd_rows P f t) = (\<lambda>r. if P r then f r else r) ` set t"
    by (simp add: upd_rows_def)
  show "\<And>t f P. distinct (map key t) \<Longrightarrow> (\<And>r. key (f r) = key r) \<Longrightarrow>
      distinct (map key (upd_rows P f t))"
    by (simp add: upd_rows_def o_def if_distrib cong: if_cong)
  show "\<And>P t. set (del_rows P t) = {r \<in> set t. \<not> P r}"
    by (simp add: del_rows_def)
  show "\<And>t P. distinct (map key t) \<Longrightarrow> distinct (map key (del_rows P t))"
    by (simp add: del_rows_def distinct_map_filterI)
qed

definition ckpt_key :: "'j checkpointRow \<Rightarrow> string \<times> int" where
  "ckpt_key r = (ck_run_id r, ck_version r)"

definition event_key :: "'j runLogRow \<Rightarrow> string \<times> int" where
  "event_key r = (rl_run_id r, rl_sequence r)"

interpretation ckpts: keyed_table ckpt_key "\<lambda>k. find (\<lambda>r. ckpt_key r = k)" "ins_row ckpt_key"
    "ins_ignore ckpt_key" upd_rows del_rows "\<lambda>t. distinct (map ckpt_key t)"
  by (rule list_keyed_table)

interpretation evs: keyed_table event_key "\<lambda>k. find (\<lambda>r. event_key r = k)" "ins_row event_key"
    "ins_ignore event_key" upd_rows del_rows "\<lambda>t. distinct (map event_key t)"
  by (rule list_keyed_table)

interpretation rets: keyed_table rt_ordinal "\<lambda>k. find (\<lambda>r. rt_ordinal r = k)" "ins_row rt_ordinal"
    "ins_ignore rt_ordinal" upd_rows del_rows "\<lambda>t. distinct (map rt_ordinal t)"
  by (rule list_keyed_table)

interpretation heads: keyed_table rn_run_id "\<lambda>k. find (\<lambda>r. rn_run_id r = k)" "ins_row rn_run_id"
    "ins_ignore rn_run_id" upd_rows del_rows "\<lambda>t. distinct (map rn_run_id t)"
  by (rule list_keyed_table)

interpretation regs: keyed_table rg_run_id "\<lambda>k. find (\<lambda>r. rg_run_id r = k)" "ins_row rg_run_id"
    "ins_ignore rg_run_id" upd_rows del_rows "\<lambda>t. distinct (map rg_run_id t)"
  by (rule list_keyed_table)

section \<open>Counting and selecting\<close>

lemma count_rows_0_iff: "count_rows P t = 0 \<longleftrightarrow> (\<forall>r \<in> set t. \<not> P r)"
  by (simp add: count_rows_def filter_empty_conv)

lemma distinct_key_filter_single:
  assumes "distinct (map key t)" and "r \<in> set t" and "P r"
    and "\<And>x. x \<in> set t \<Longrightarrow> P x \<Longrightarrow> key x = key r"
  shows "filter P t = [r]"
proof -
  have "set (filter P t) = {r}"
    using assms distinct_map_eq [OF assms(1)] by auto
  moreover have "distinct (filter P t)" using assms(1) by (simp add: distinct_map)
  ultimately show ?thesis
    by (metis distinct_card distinct_length_2_or_more insert_not_empty list.exhaust list.set_intros(1,2)
        empty_iff empty_set insert_iff)
qed

lemma count_rows_key:
  assumes "distinct (map key t)"
  shows "count_rows (\<lambda>r. key r = k) t = (if \<exists>r \<in> set t. key r = k then 1 else 0)"
proof (cases "\<exists>r \<in> set t. key r = k")
  case True
  then obtain r where r: "r \<in> set t" "key r = k" by blast
  have "filter (\<lambda>r. key r = k) t = [r]"
    using assms r by (intro distinct_key_filter_single [where key = key]) auto
  with True show ?thesis by (simp add: count_rows_def)
next
  case False
  then show ?thesis by (simp add: count_rows_0_iff)
qed

lemma count_rows_one:
  assumes "count_rows P t = 1"
  shows "\<exists>r \<in> set t. P r"
  using assms count_rows_0_iff [of P t] by fastforce

lemma set_select_rows [simp]: "set (select_rows P key t) = {r \<in> set t. P r}"
  by (simp add: select_rows_def)

lemma sorted_select_rows: "sorted (map key (select_rows P key t))"
  by (simp add: select_rows_def)

lemma select_rows_Nil_iff: "select_rows P key t = [] \<longleftrightarrow> (\<forall>r \<in> set t. \<not> P r)"
  by (simp add: select_rows_def filter_empty_conv)

lemma first_select_rows:
  assumes "first_row (select_rows P key t) = Some r"
  shows "r \<in> set t \<and> P r \<and> (\<forall>x \<in> set t. P x \<longrightarrow> key r \<le> key x)"
proof -
  from assms obtain rest where s: "sort_key key (filter P t) = r # rest"
    by (auto simp: first_row_def select_rows_def split: list.splits)
  from hd_sort_key_mem [OF s] hd_sort_key_least [OF s] show ?thesis by auto
qed

lemma first_select_rows_None:
  "first_row (select_rows P key t) = None \<longleftrightarrow> (\<forall>r \<in> set t. \<not> P r)"
  by (metis first_row_def list.case(1,2) list.exhaust option.distinct(1) select_rows_Nil_iff)

lemma set_limit_rows: "set (limit_rows n t) \<subseteq> set t"
  by (simp add: limit_rows_def set_take_subset)

lemma length_limit_rows: "0 \<le> n \<Longrightarrow> int (length (limit_rows n t)) \<le> n"
  by (simp add: limit_rows_def)

end
