(* ===== verification/Dbstore_Core.thy ===== *)
theory Dbstore_Core
  imports Tables
begin

unbundle bit_operations_syntax

text \<open>
  The pieces every operation of the store is made of: the transaction, the database clock
  (\<open>clock.go\<close>), the run registry (\<open>registry.go\<close>), the locked run head, the latest
  checkpoint, the version step and the journal insert (\<open>operations.go\<close>), the triggers a
  SQLite database runs on inserts (\<open>migrations.go\<close>), and the classification of driver
  errors. A body run inside a transaction takes the database to an error or to a value
  and the new database; a failed body, or a driver fault, leaves the database as it was.
\<close>

section \<open>Calls and transactions\<close>

definition ready :: "env \<Rightarrow> store_error + unit" where
  "ready en =
    (if \<not> en_open en then Inl (ErrOther ''dbstore: store is nil'')
     else case en_ctx en of Some c \<Rightarrow> Inl (ErrContext c) | None \<Rightarrow> Inr ())"

definition transaction :: "env \<Rightarrow> ('s \<Rightarrow> store_error + ('a \<times> 's)) \<Rightarrow> 's \<Rightarrow> (store_error + 'a) \<times> 's" where
  "transaction en body s =
    (case en_fault en of
       Some f \<Rightarrow> (Inl (ErrDriver f), s)
     | None \<Rightarrow> (case body s of Inl e \<Rightarrow> (Inl e, s) | Inr (x, s') \<Rightarrow> (Inr x, s')))"

text \<open>A statement outside a transaction only reads.\<close>

definition query :: "env \<Rightarrow> (store_error + 'a) \<Rightarrow> store_error + 'a" where
  "query en r = (case en_fault en of Some f \<Rightarrow> Inl (ErrDriver f) | None \<Rightarrow> r)"

definition contextOrError :: "env \<Rightarrow> store_error \<Rightarrow> store_error" where
  "contextOrError en e = (case en_ctx_after en of Some c \<Rightarrow> ErrContext c | None \<Rightarrow> e)"

text \<open>What the store itself writes into the text of an error, and a driver's own text.\<close>

definition err_text :: "store_error \<Rightarrow> string" where
  "err_text e = (case e of
      ErrRunLogConflict d \<Rightarrow> d
    | ErrDriver (DriverMessage m) \<Rightarrow> m
    | ErrTrigger m \<Rightarrow> m
    | _ \<Rightarrow> '''')"

definition concurrencyError :: "env \<Rightarrow> store_error \<Rightarrow> bool" where
  "concurrencyError en e =
    (if en_dialect en = Sqlite then
       (case e of
          ErrDriver (SqliteCode c) \<Rightarrow> c AND 255 = 5 \<or> c AND 255 = 6
        | _ \<Rightarrow> (let message = to_lower (err_text e) in
            contains_sub message ''database is locked'' \<or>
            contains_sub message ''database table is locked''))
     else (case e of
          ErrDriver (SqlState st) \<Rightarrow> st = ''40001'' \<or> st = ''40P01'' \<or> st = ''55P03''
        | ErrDriver (MysqlNumber n) \<Rightarrow> n = 1205 \<or> n = 1213 \<or> n = 3572
        | _ \<Rightarrow> False))"

section \<open>The database clock\<close>

definition databaseNow :: "env \<Rightarrow> store_error + instant" where
  "databaseNow en =
    (if en_db_micro en \<le> 0 then Inl (ErrOther ''dbstore: database clock'')
     else Inr (unix_micro (en_db_micro en)))"

definition resolveLeaseExpiry :: "instant \<Rightarrow> instant \<Rightarrow> duration \<Rightarrow> string + instant" where
  "resolveLeaseExpiry now supplied d =
    (if d < 0 then Inl ''lease duration must not be negative''
     else if d > 0 then Inr (now + d)
     else Inr supplied)"

section \<open>The run registry\<close>

definition find_registry :: "'j db \<Rightarrow> string \<Rightarrow> runRegistryRow option" where
  "find_registry s rid = find (\<lambda>r. rg_run_id r = rid) (registry s)"

definition lockRunRegistry :: "env \<Rightarrow> 'j db \<Rightarrow> string \<Rightarrow> runRegistryRow option" where
  "lockRunRegistry en s rid =
    (if en_dialect en = Sqlite then
       (if count_rows (\<lambda>r. rg_run_id r = rid) (registry s) \<noteq> 1 then None
        else find_registry s rid)
     else find_registry s rid)"

definition ensureRunRegistry ::
  "env \<Rightarrow> string \<Rightarrow> run_kind \<Rightarrow> 'j db \<Rightarrow> store_error + (runRegistryRow \<times> 'j db)" where
  "ensureRunRegistry en rid kind s =
    (let row = \<lparr>rg_run_id = rid, rg_kind = kind, rg_state = runStateActive,
                rg_updated_at = unix_nano (en_now_utc en), rg_compacted = 0\<rparr>;
         s' = s\<lparr>registry := ins_ignore rg_run_id row (registry s)\<rparr>
     in case lockRunRegistry en s' rid of
          None \<Rightarrow> Inl (ErrOther ''dbstore: run registry row disappeared'')
        | Some current \<Rightarrow>
            if rg_state current \<noteq> runStateActive then Inl errRunRetired
            else if rg_kind current \<noteq> kind \<and>
              \<not> (kind = runKindJournal \<and> rg_kind current = runKindWorkflow)
            then Inl errRunKindConflict
            else Inr (current, s'))"

section \<open>Triggers of a SQLite database\<close>

text \<open>
  \<open>gopact_workflow_run_kind_guard\<close> and \<open>gopact_workflow_run_state_guard\<close> run before an
  insert into the run heads, \<open>gopact_workflow_run_v2_registry\<close> after it.
\<close>

definition run_insert_guard :: "env \<Rightarrow> string \<Rightarrow> 'j db \<Rightarrow> store_error + unit" where
  "run_insert_guard en rid s =
    (if en_dialect en \<noteq> Sqlite then Inr ()
     else if has_row (\<lambda>r. rg_run_id r = rid \<and> rg_kind r \<noteq> runKindWorkflow) (registry s)
     then Inl (ErrTrigger ''gopact run kind conflict'')
     else if has_row (\<lambda>r. rg_run_id r = rid \<and> rg_state r \<noteq> runStateActive) (registry s)
     then Inl (ErrTrigger ''gopact run is retired'')
     else Inr ())"

definition trigger_nano :: "env \<Rightarrow> int" where
  "trigger_nano en = en_db_micro en * 1000"

definition run_insert_after :: "env \<Rightarrow> string \<Rightarrow> 'j db \<Rightarrow> 'j db" where
  "run_insert_after en rid s =
    (if en_dialect en \<noteq> Sqlite then s
     else s\<lparr>registry := ins_ignore rg_run_id
            \<lparr>rg_run_id = rid, rg_kind = runKindWorkflow, rg_state = runStateActive,
             rg_updated_at = trigger_nano en, rg_compacted = 0\<rparr> (registry s)\<rparr>)"

definition insert_run_row :: "env \<Rightarrow> runRow \<Rightarrow> 'j db \<Rightarrow> store_error + 'j db" where
  "insert_run_row en row s =
    rbind (run_insert_guard en (rn_run_id row) s) (\<lambda>_.
    rbind (ins_row rn_run_id row (runs s)) (\<lambda>t.
    Inr (run_insert_after en (rn_run_id row) (s\<lparr>runs := t\<rparr>))))"

text \<open>
  \<open>gopact_runlog_compacted_guard\<close> and \<open>gopact_runlog_retired_guard\<close> run before an insert
  into the journal, \<open>gopact_runlog_v2_metadata\<close> after it.
\<close>

definition event_insert_guard :: "env \<Rightarrow> string \<Rightarrow> int \<Rightarrow> 'j db \<Rightarrow> store_error + unit" where
  "event_insert_guard en rid sq s =
    (if en_dialect en \<noteq> Sqlite then Inr ()
     else if has_row (\<lambda>r. rg_run_id r = rid \<and> rg_compacted r \<ge> sq) (registry s)
     then Inl (ErrTrigger ''gopact run history was compacted'')
     else if has_row (\<lambda>r. rg_run_id r = rid \<and> rg_state r \<noteq> runStateActive) (registry s)
     then Inl (ErrTrigger ''gopact run is retired'')
     else Inr ())"

definition event_insert_after :: "env \<Rightarrow> int \<Rightarrow> string \<Rightarrow> 'j db \<Rightarrow> 'j db" where
  "event_insert_after en ord rid s =
    (if en_dialect en \<noteq> Sqlite then s
     else s\<lparr>registry := ins_ignore rg_run_id
              \<lparr>rg_run_id = rid,
               rg_kind = (if has_row (\<lambda>r. rn_run_id r = rid) (runs s)
                          then runKindWorkflow else runKindJournal),
               rg_state = runStateActive, rg_updated_at = trigger_nano en, rg_compacted = 0\<rparr>
              (registry s),
            retention := ins_ignore rt_ordinal
              \<lparr>rt_ordinal = ord, rt_run_id = rid, rt_appended_at = trigger_nano en\<rparr>
              (retention s)\<rparr>)"

text \<open>
  \<open>INSERT ... ON CONFLICT DO NOTHING\<close> into the journal: the ordinal is the table's
  counter, which no later row takes again, and the pair (run, sequence) is unique.
\<close>

definition insert_event :: "env \<Rightarrow> string \<Rightarrow> string \<Rightarrow> int \<Rightarrow> 'j \<Rightarrow> 'j db \<Rightarrow> store_error + 'j db" where
  "insert_event en sid rid sq j s =
    rbind (event_insert_guard en rid sq s) (\<lambda>_.
    let row = \<lparr>rl_ordinal = next_ordinal s, rl_session_id = sid, rl_run_id = rid,
               rl_sequence = sq, rl_record_json = j\<rparr>
    in if event_key row \<in> event_key ` set (events s) then Inr s
       else Inr (event_insert_after en (next_ordinal s) rid
              (s\<lparr>events := events s @ [row], next_ordinal := next_ordinal s + 1\<rparr>)))"

section \<open>Run heads and checkpoints\<close>

definition find_head :: "'j db \<Rightarrow> string \<Rightarrow> runRow option" where
  "find_head s rid = find (\<lambda>r. rn_run_id r = rid) (runs s)"

definition lockRunHead :: "env \<Rightarrow> 'j db \<Rightarrow> string \<Rightarrow> bool" where
  "lockRunHead en s rid =
    (if en_dialect en = Sqlite then count_rows (\<lambda>r. rn_run_id r = rid) (runs s) = 1
     else find_head s rid \<noteq> None)"

definition latest_checkpoint_row :: "'j db \<Rightarrow> string \<Rightarrow> 'j checkpointRow option" where
  "latest_checkpoint_row s rid =
    first_row (select_rows (\<lambda>r. ck_run_id r = rid) (\<lambda>r. - ck_version r) (checkpoints s))"

definition loadCheckpoint :: "'j codec \<Rightarrow> 'j db \<Rightarrow> string \<Rightarrow> store_error + checkpoint" where
  "loadCheckpoint cd s rid =
    (case latest_checkpoint_row s rid of
       None \<Rightarrow> Inl ErrCheckpointNotFound
     | Some row \<Rightarrow> decodeCheckpoint cd (ck_record_json row) (ck_payload row))"

definition advance_head :: "checkpoint \<Rightarrow> runRow \<Rightarrow> runRow" where
  "advance_head r row = row\<lparr>rn_session_id := rn_session_id (runHead r),
     rn_status := rn_status (runHead r), rn_version := rn_version (runHead r),
     rn_created_at := rn_created_at (runHead r), rn_updated_at := rn_updated_at (runHead r)\<rparr>"

definition advanceCheckpoint ::
  "'j codec \<Rightarrow> checkpoint \<Rightarrow> int \<Rightarrow> 'j db \<Rightarrow> store_error + (unit \<times> 'j db)" where
  "advanceCheckpoint cd r prior s =
    rbind (encodeCheckpointMetadata cd r) (\<lambda>j.
    rbind (ins_row ckpt_key \<lparr>ck_run_id = cp_run_id r, ck_version = cp_version r,
             ck_record_json = j, ck_payload = cp_payload r\<rparr> (checkpoints s)) (\<lambda>t.
    let P = (\<lambda>row. rn_run_id row = cp_run_id r \<and> rn_version row = prior)
    in if count_rows P (runs s) \<noteq> 1 then Inl errRunHeadConflict
       else Inr ((), s\<lparr>checkpoints := t, runs := upd_rows P (advance_head r) (runs s)\<rparr>)))"

section \<open>The journal\<close>

definition find_event :: "'j db \<Rightarrow> string \<Rightarrow> int \<Rightarrow> 'j runLogRow option" where
  "find_event s rid sq = find (\<lambda>r. event_key r = (rid, sq)) (events s)"

definition appendRunLog :: "env \<Rightarrow> event \<Rightarrow> 'j \<Rightarrow> 'j db \<Rightarrow> store_error + (unit \<times> 'j db)" where
  "appendRunLog en r j s =
    rbind (insert_event en (ev_session_id r) (ev_run_id r) (ev_sequence r) j s) (\<lambda>s1.
    case find_event s1 (ev_run_id r) (ev_sequence r) of
      None \<Rightarrow> Inl ErrRecordNotFound
    | Some existing \<Rightarrow>
        if rl_record_json existing = j then
          rbind (databaseNow en) (\<lambda>now.
          Inr ((), s1\<lparr>retention := ins_ignore rt_ordinal
            \<lparr>rt_ordinal = rl_ordinal existing, rt_run_id = ev_run_id r,
             rt_appended_at = unix_nano now\<rparr> (retention s1)\<rparr>))
        else Inl (ErrRunLogConflict (ev_run_id r)))"

section \<open>Lemmas\<close>

lemma ready_Inr_iff: "ready en = Inr u \<longleftrightarrow> en_open en \<and> en_ctx en = None"
  by (auto simp: ready_def split: option.splits)

lemma transaction_Inr_iff:
  "transaction en body s = (Inr x, s') \<longleftrightarrow> en_fault en = None \<and> body s = Inr (x, s')"
  by (auto simp: transaction_def split: option.splits sum.splits)

lemma transaction_Inl: "transaction en body s = (Inl e, s') \<Longrightarrow> s' = s"
  by (auto simp: transaction_def split: option.splits sum.splits)

lemma transaction_no_fault:
  "en_fault en = None \<Longrightarrow> transaction en body s =
    (case body s of Inl e \<Rightarrow> (Inl e, s) | Inr (x, s') \<Rightarrow> (Inr x, s'))"
  by (simp add: transaction_def)

lemma lockRunRegistry_eq:
  "distinct (map rg_run_id (registry s)) \<Longrightarrow> lockRunRegistry en s rid = find_registry s rid"
  using find_None_iff' [of "\<lambda>r. rg_run_id r = rid" "registry s"]
  by (auto simp: lockRunRegistry_def count_rows_key find_registry_def simp del: find_None_iff find_None_iff2)

lemma lockRunHead_eq:
  "distinct (map rn_run_id (runs s)) \<Longrightarrow> lockRunHead en s rid \<longleftrightarrow> find_head s rid \<noteq> None"
  using find_None_iff' [of "\<lambda>r. rn_run_id r = rid" "runs s"]
  by (auto simp: lockRunHead_def count_rows_key find_head_def)

lemma databaseNow_Inr_iff:
  "databaseNow en = Inr t \<longleftrightarrow> 0 < en_db_micro en \<and> t = unix_micro (en_db_micro en)"
  by (auto simp: databaseNow_def)

lemma latest_checkpoint_rowD:
  assumes "latest_checkpoint_row s rid = Some row"
  shows "row \<in> set (checkpoints s) \<and> ck_run_id row = rid \<and>
    (\<forall>x \<in> set (checkpoints s). ck_run_id x = rid \<longrightarrow> ck_version x \<le> ck_version row)"
  using first_select_rows [OF assms [unfolded latest_checkpoint_row_def]] by auto

lemma latest_checkpoint_row_None:
  "latest_checkpoint_row s rid = None \<longleftrightarrow> (\<forall>x \<in> set (checkpoints s). ck_run_id x \<noteq> rid)"
  by (simp add: latest_checkpoint_row_def first_select_rows_None)

text \<open>With unique keys, the row of the highest version is the latest one.\<close>

lemma latest_checkpoint_rowI:
  assumes "distinct (map ckpt_key (checkpoints s))"
    and "row \<in> set (checkpoints s)" and "ck_run_id row = rid"
    and "\<And>x. x \<in> set (checkpoints s) \<Longrightarrow> ck_run_id x = rid \<Longrightarrow> ck_version x \<le> ck_version row"
  shows "latest_checkpoint_row s rid = Some row"
proof (cases "latest_checkpoint_row s rid")
  case None
  with assms(2,3) show ?thesis by (auto simp: latest_checkpoint_row_None)
next
  case (Some r)
  from latest_checkpoint_rowD [OF Some] assms(2,3)
  have r: "r \<in> set (checkpoints s)" "ck_run_id r = rid" "ck_version row \<le> ck_version r" by auto
  with assms(4) have "ck_version r = ck_version row" by fastforce
  with r assms(1-3) have "r = row"
    using ckpts.unique_row [of "checkpoints s" r row] by (simp add: ckpt_key_def)
  with Some show ?thesis by simp
qed

end
