(* ===== verification/Dbstore_Ops.thy ===== *)
theory Dbstore_Ops
  imports Dbstore_Core
begin

text \<open>
  The checkpoint and journal operations of the store (\<open>dbstore.go\<close>, \<open>operations.go\<close>):
  \<open>Create\<close>, \<open>Load\<close>, \<open>Claim\<close>, \<open>RenewLease\<close>, \<open>Save\<close>, \<open>Finish\<close>, \<open>ListCheckpoints\<close>,
  \<open>Append\<close>, \<open>AppendFenced\<close> and \<open>List\<close>. The body of each transaction is a definition of
  its own (\<open>..._tx\<close>); the operation around it has the checks before the transaction and
  the translation of its error. The lemmas of the last section say what a call that
  succeeded has checked and changed, which is all the later theories use.
\<close>

section \<open>Create and Load\<close>

definition create_lease :: "env \<Rightarrow> checkpoint \<Rightarrow> store_error + checkpoint" where
  "create_lease en r =
    (if cp_lease_duration r = 0 then Inr r
     else rbind (databaseNow en) (\<lambda>now.
       case resolveLeaseExpiry now (cp_lease_expires_at r) (cp_lease_duration r) of
         Inl _ \<Rightarrow> Inl (ErrInvalidCheckpoint ''new checkpoint lease must be in the future'')
       | Inr t \<Rightarrow>
           if \<not> t > now then Inl (ErrInvalidCheckpoint ''new checkpoint lease must be in the future'')
           else Inr (r\<lparr>cp_lease_expires_at := t\<rparr>)))"

definition create_tx :: "env \<Rightarrow> 'j codec \<Rightarrow> checkpoint \<Rightarrow> 'j db \<Rightarrow> store_error + (unit \<times> 'j db)" where
  "create_tx en cd r0 s =
    rbind (ensureRunRegistry en (cp_run_id r0) runKindWorkflow s) (\<lambda>(_, s1).
    rbind (create_lease en r0) (\<lambda>r.
    rbind (encodeCheckpointMetadata cd r) (\<lambda>j.
    rbind (ins_row ckpt_key \<lparr>ck_run_id = cp_run_id r, ck_version = cp_version r,
             ck_record_json = j, ck_payload = cp_payload r\<rparr> (checkpoints s1)) (\<lambda>t.
    rbind (insert_run_row en (runHead r) (s1\<lparr>checkpoints := t\<rparr>)) (\<lambda>s2. Inr ((), s2))))))"

definition create_error :: "env \<Rightarrow> store_error \<Rightarrow> store_error" where
  "create_error en e =
    (if e = ErrDuplicatedKey \<or> e = errRunKindConflict \<or> e = errRunRetired then ErrCheckpointExists
     else contextOrError en e)"

definition Create :: "env \<Rightarrow> 'j codec \<Rightarrow> checkpoint \<Rightarrow> 'j db \<Rightarrow> (store_error + unit) \<times> 'j db" where
  "Create en cd r s =
    (case ready en of Inl e \<Rightarrow> (Inl e, s)
     | Inr _ \<Rightarrow>
       if cp_version r \<noteq> 1 \<or> cp_status r \<noteq> CheckpointRunning
       then (Inl (ErrInvalidCheckpoint ''new checkpoint must be running at version one''), s)
       else case validateCheckpoint r of Inl e \<Rightarrow> (Inl e, s)
       | Inr _ \<Rightarrow> (case transaction en (create_tx en cd r) s of
           (Inl e, s') \<Rightarrow> (Inl (create_error en e), s')
         | (Inr _, s') \<Rightarrow> (Inr (), s')))"

text \<open>The join of \<open>activeCheckpointRows\<close>: the checkpoints of an active workflow run.\<close>

definition activeCheckpointRows :: "string \<Rightarrow> 'j db \<Rightarrow> 'j checkpointRow list" where
  "activeCheckpointRows rid s =
    filter (\<lambda>r. ck_run_id r = rid \<and>
      has_row (\<lambda>g. rg_run_id g = ck_run_id r \<and> rg_kind g = runKindWorkflow \<and>
                 rg_state g = runStateActive) (registry s)) (checkpoints s)"

definition Load :: "env \<Rightarrow> 'j codec \<Rightarrow> string \<Rightarrow> 'j db \<Rightarrow> store_error + checkpoint" where
  "Load en cd rid s =
    rbind (ready en) (\<lambda>_.
    case validateIndexedID ''run id'' rid of
      Inl m \<Rightarrow> Inl (ErrInvalidCheckpoint m)
    | Inr _ \<Rightarrow>
        rbind (query en (Inr (first_row
          (select_rows (\<lambda>_. True) (\<lambda>r. - ck_version r) (activeCheckpointRows rid s))))) (\<lambda>found.
        case found of
          None \<Rightarrow> Inl ErrCheckpointNotFound
        | Some row \<Rightarrow> decodeCheckpoint cd (ck_record_json row) (ck_payload row)))"

section \<open>Claim\<close>

definition claim_lease :: "instant \<Rightarrow> checkpoint \<Rightarrow> store_error + checkpoint" where
  "claim_lease now c =
    (case resolveLeaseExpiry now (cp_lease_expires_at c) (cp_lease_duration c) of
       Inl _ \<Rightarrow> Inl (ErrInvalidCheckpoint ''checkpoint claim lease must be in the future'')
     | Inr t \<Rightarrow>
         if \<not> t > now then Inl (ErrInvalidCheckpoint ''checkpoint claim lease must be in the future'')
         else Inr (c\<lparr>cp_lease_expires_at := t\<rparr>))"

definition claim_tx ::
  "env \<Rightarrow> 'j codec \<Rightarrow> checkpoint \<Rightarrow> int \<Rightarrow> 'j db \<Rightarrow> store_error + (unit \<times> 'j db)" where
  "claim_tx en cd c0 version s =
    (if \<not> lockRunHead en s (cp_run_id c0) then Inl ErrCheckpointNotFound
     else rbind (loadCheckpoint cd s (cp_run_id c0)) (\<lambda>current.
     rbind (databaseNow en) (\<lambda>now.
     rbind (claim_lease now c0) (\<lambda>c.
     if cp_version current \<noteq> version \<or>
       (cp_status current \<noteq> CheckpointRunning \<and> cp_status current \<noteq> CheckpointInterrupted)
     then Inl ErrCheckpointConflict
     else if \<not> sameCheckpointIdentity current c then Inl ErrCheckpointMismatch
     else if cp_lease_expires_at current > now \<or>
       cp_claim_sequence c \<noteq> wrap64 (cp_claim_sequence current + 1)
     then Inl ErrCheckpointConflict
     else advanceCheckpoint cd (c\<lparr>cp_version := wrap64 (cp_version c + 1)\<rparr>) version s))))"

definition cas_error :: "env \<Rightarrow> store_error \<Rightarrow> store_error" where
  "cas_error en e =
    (if e = ErrDuplicatedKey \<or> e = errRunHeadConflict \<or> concurrencyError en e
     then ErrCheckpointConflict else contextOrError en e)"

definition Claim ::
  "env \<Rightarrow> 'j codec \<Rightarrow> checkpoint \<Rightarrow> int \<Rightarrow> 'j db \<Rightarrow> (store_error + unit) \<times> 'j db" where
  "Claim en cd c version s =
    (case ready en of Inl e \<Rightarrow> (Inl e, s)
     | Inr _ \<Rightarrow>
       if version \<le> 0 \<or> cp_version c \<noteq> version \<or> cp_status c \<noteq> CheckpointRunning \<or>
         cp_owner_id c = '''' \<or> cp_claim_sequence c \<le> 0 \<or>
         (cp_lease_expires_at c = 0 \<and> cp_lease_duration c \<le> 0)
       then (Inl (ErrInvalidCheckpoint ''invalid checkpoint claim''), s)
       else case validateCheckpoint c of Inl e \<Rightarrow> (Inl e, s)
       | Inr _ \<Rightarrow> (case transaction en (claim_tx en cd c version) s of
           (Inl e, s') \<Rightarrow> (Inl (cas_error en e), s')
         | (Inr _, s') \<Rightarrow> (Inr (), s')))"

section \<open>RenewLease\<close>

text \<open>The body returns before the update when the lease would not become longer.\<close>

definition renew_tx :: "env \<Rightarrow> 'j codec \<Rightarrow> lease \<Rightarrow> 'j db \<Rightarrow> store_error + (unit \<times> 'j db)" where
  "renew_tx en cd l s =
    (if \<not> lockRunHead en s (ls_run_id l) then Inl ErrCheckpointLeaseLost
     else case loadCheckpoint cd s (ls_run_id l) of
       Inl e \<Rightarrow> Inl (if e = ErrCheckpointNotFound then ErrCheckpointLeaseLost else e)
     | Inr current \<Rightarrow>
       rbind (databaseNow en) (\<lambda>now.
       if cp_status current \<noteq> CheckpointRunning \<or> cp_owner_id current \<noteq> ls_owner_id l \<or>
         cp_claim_sequence current \<noteq> ls_claim_sequence l \<or> \<not> cp_lease_expires_at current > now
       then Inl ErrCheckpointLeaseLost
       else case resolveLeaseExpiry now (ls_expires_at l) (ls_duration l) of
         Inl _ \<Rightarrow> Inl (ErrInvalidCheckpoint ''renewed lease must expire in the future'')
       | Inr expiresAt \<Rightarrow>
         if \<not> expiresAt > now
         then Inl (ErrInvalidCheckpoint ''renewed lease must expire in the future'')
         else if \<not> expiresAt > cp_lease_expires_at current then Inr ((), s)
         else rbind (encodeCheckpointMetadata cd (current\<lparr>cp_lease_expires_at := expiresAt\<rparr>)) (\<lambda>j.
           let P = (\<lambda>row. ck_run_id row = ls_run_id l \<and> ck_version row = cp_version current)
           in if count_rows P (checkpoints s) \<noteq> 1 then Inl ErrCheckpointLeaseLost
              else Inr ((), s\<lparr>checkpoints :=
                upd_rows P (\<lambda>row. row\<lparr>ck_record_json := j\<rparr>) (checkpoints s)\<rparr>))))"

definition RenewLease :: "env \<Rightarrow> 'j codec \<Rightarrow> lease \<Rightarrow> 'j db \<Rightarrow> (store_error + unit) \<times> 'j db" where
  "RenewLease en cd l s =
    (case ready en of Inl e \<Rightarrow> (Inl e, s)
     | Inr _ \<Rightarrow>
       if validateIndexedID ''run id'' (ls_run_id l) \<noteq> Inr () \<or> ls_owner_id l = '''' \<or>
         ls_claim_sequence l \<le> 0 \<or> (ls_expires_at l = 0 \<and> ls_duration l \<le> 0)
       then (Inl (ErrInvalidCheckpoint ''invalid checkpoint lease''), s)
       else (case transaction en (renew_tx en cd l) s of
           (Inl e, s') \<Rightarrow> (Inl (if concurrencyError en e then ErrCheckpointLeaseLost
                              else contextOrError en e), s')
         | (Inr _, s') \<Rightarrow> (Inr (), s')))"

section \<open>Save and Finish\<close>

definition prepareCheckpointWriteLease ::
  "env \<Rightarrow> checkpoint \<Rightarrow> checkpoint \<Rightarrow> store_error + checkpoint" where
  "prepareCheckpointWriteLease en current r =
    (let claimMismatch = cp_claim_sequence r \<noteq> cp_claim_sequence current;
         ownerMismatch = cp_owner_id r \<noteq> '''' \<and> cp_owner_id r \<noteq> cp_owner_id current
     in if claimMismatch \<or> ownerMismatch then Inl ErrCheckpointLeaseLost
        else if cp_owner_id current = '''' then Inr r
        else rbind (databaseNow en) (\<lambda>now.
          if \<not> cp_lease_expires_at current > now then Inl ErrCheckpointLeaseLost
          else if cp_owner_id r = '''' then Inr r
          else case resolveLeaseExpiry now (cp_lease_expires_at current) (cp_lease_duration r) of
            Inl _ \<Rightarrow> Inl (ErrInvalidCheckpoint ''invalid checkpoint lease duration'')
          | Inr t \<Rightarrow> Inr (r\<lparr>cp_lease_expires_at := t\<rparr>)))"

definition keep_longer_lease :: "checkpoint \<Rightarrow> checkpoint \<Rightarrow> checkpoint" where
  "keep_longer_lease current r =
    (if cp_owner_id r = cp_owner_id current \<and> cp_lease_expires_at current > cp_lease_expires_at r
     then r\<lparr>cp_lease_expires_at := cp_lease_expires_at current\<rparr> else r)"

definition write_tx ::
  "env \<Rightarrow> 'j codec \<Rightarrow> checkpoint \<Rightarrow> int \<Rightarrow> 'j db \<Rightarrow> store_error + (unit \<times> 'j db)" where
  "write_tx en cd r0 version s =
    (if \<not> lockRunHead en s (cp_run_id r0) then Inl ErrCheckpointNotFound
     else rbind (loadCheckpoint cd s (cp_run_id r0)) (\<lambda>current.
     if \<not> sameCheckpointIdentity current r0 then Inl ErrCheckpointMismatch
     else rbind (prepareCheckpointWriteLease en current r0) (\<lambda>r1.
     if cp_version current \<noteq> version \<or> checkpointTerminal (cp_status current)
     then Inl ErrCheckpointConflict
     else let r2 = keep_longer_lease current r1
       in advanceCheckpoint cd (r2\<lparr>cp_version := wrap64 (cp_version r2 + 1)\<rparr>) version s)))"

definition write_checkpoint ::
  "env \<Rightarrow> 'j codec \<Rightarrow> checkpoint \<Rightarrow> int \<Rightarrow> bool \<Rightarrow> 'j db \<Rightarrow> (store_error + unit) \<times> 'j db" where
  "write_checkpoint en cd r version terminal s =
    (case ready en of Inl e \<Rightarrow> (Inl e, s)
     | Inr _ \<Rightarrow>
       if version \<le> 0 \<or> cp_version r \<noteq> version then (Inl ErrCheckpointConflict, s)
       else if terminal \<noteq> checkpointTerminal (cp_status r)
       then (Inl (ErrInvalidCheckpoint ''status does not match write operation''), s)
       else case validateCheckpoint r of Inl e \<Rightarrow> (Inl e, s)
       | Inr _ \<Rightarrow> (case transaction en (write_tx en cd r version) s of
           (Inl e, s') \<Rightarrow> (Inl (cas_error en e), s')
         | (Inr _, s') \<Rightarrow> (Inr (), s')))"

definition Save ::
  "env \<Rightarrow> 'j codec \<Rightarrow> checkpoint \<Rightarrow> int \<Rightarrow> 'j db \<Rightarrow> (store_error + unit) \<times> 'j db" where
  "Save en cd r version s = write_checkpoint en cd r version False s"

definition Finish ::
  "env \<Rightarrow> 'j codec \<Rightarrow> checkpoint \<Rightarrow> int \<Rightarrow> 'j db \<Rightarrow> (store_error + unit) \<times> 'j db" where
  "Finish en cd r version s = write_checkpoint en cd r version True s"

section \<open>ListCheckpoints\<close>

fun map_result :: "('a \<Rightarrow> 'e + 'b) \<Rightarrow> 'a list \<Rightarrow> 'e + 'b list" where
  "map_result f [] = Inr []"
| "map_result f (x # xs) =
    (case f x of Inl e \<Rightarrow> Inl e
     | Inr y \<Rightarrow> (case map_result f xs of Inl e \<Rightarrow> Inl e | Inr ys \<Rightarrow> Inr (y # ys)))"

definition ListCheckpoints ::
  "env \<Rightarrow> 'j codec \<Rightarrow> string \<Rightarrow> int \<Rightarrow> int \<Rightarrow> 'j db \<Rightarrow> store_error + checkpoint list" where
  "ListCheckpoints en cd rid after lim s =
    rbind (ready en) (\<lambda>_.
    if validateIndexedID ''run id'' rid \<noteq> Inr () \<or> after < 0 \<or> lim < 0
    then Inl (ErrInvalidCheckpoint ''invalid checkpoint history request'')
    else rbind (query en (Inr
        (let ordered = select_rows (\<lambda>r. ck_version r > after) ck_version (activeCheckpointRows rid s)
         in if lim > 0 then limit_rows lim ordered else ordered))) (\<lambda>rows.
      if rows = [] \<and> activeCheckpointRows rid s = [] then Inl ErrCheckpointNotFound
      else map_result (\<lambda>row. decodeCheckpoint cd (ck_record_json row) (ck_payload row)) rows))"

section \<open>Append and AppendFenced\<close>

definition append_tx :: "env \<Rightarrow> event \<Rightarrow> 'j \<Rightarrow> 'j db \<Rightarrow> store_error + (unit \<times> 'j db)" where
  "append_tx en r j s =
    rbind (ensureRunRegistry en (ev_run_id r) runKindJournal s) (\<lambda>(reg, s1).
    if ev_sequence r \<le> rg_compacted reg then Inl (ErrHistoryCompacted (rg_compacted reg))
    else appendRunLog en r j s1)"

definition Append :: "env \<Rightarrow> 'j codec \<Rightarrow> event \<Rightarrow> 'j db \<Rightarrow> (store_error + unit) \<times> 'j db" where
  "Append en cd r s =
    (case ready en of Inl e \<Rightarrow> (Inl e, s)
     | Inr _ \<Rightarrow> (case encodeRunLogRecord cd r of Inl e \<Rightarrow> (Inl e, s)
       | Inr j \<Rightarrow> (case transaction en (append_tx en r j) s of
           (Inl e, s') \<Rightarrow> (Inl (if e = errRunRetired \<or> e = errRunKindConflict
                              then ErrRunLogConflict (ev_run_id r) else contextOrError en e), s')
         | (Inr _, s') \<Rightarrow> (Inr (), s'))))"

definition append_fenced_tx ::
  "env \<Rightarrow> 'j codec \<Rightarrow> event \<Rightarrow> fence \<Rightarrow> 'j \<Rightarrow> 'j db \<Rightarrow> store_error + (unit \<times> 'j db)" where
  "append_fenced_tx en cd r f j s =
    rbind (ensureRunRegistry en (ev_run_id r) runKindWorkflow s) (\<lambda>(reg, s1).
    if ev_sequence r \<le> rg_compacted reg then Inl (ErrHistoryCompacted (rg_compacted reg))
    else if \<not> lockRunHead en s1 (ev_run_id r) then Inl ErrCheckpointLeaseLost
    else case loadCheckpoint cd s1 (ev_run_id r) of
      Inl e \<Rightarrow> Inl (if e = ErrCheckpointNotFound then ErrCheckpointLeaseLost else e)
    | Inr current \<Rightarrow>
        rbind (databaseNow en) (\<lambda>now.
        if cp_status current \<noteq> CheckpointRunning \<or> cp_owner_id current \<noteq> fn_owner_id f \<or>
          cp_claim_sequence current \<noteq> fn_claim_sequence f \<or> \<not> cp_lease_expires_at current > now
        then Inl ErrCheckpointLeaseLost
        else appendRunLog en r j s1))"

definition AppendFenced ::
  "env \<Rightarrow> 'j codec \<Rightarrow> event \<Rightarrow> fence \<Rightarrow> 'j db \<Rightarrow> (store_error + unit) \<times> 'j db" where
  "AppendFenced en cd r f s =
    (case ready en of Inl e \<Rightarrow> (Inl e, s)
     | Inr _ \<Rightarrow>
       if fn_owner_id f = '''' \<or> fn_claim_sequence f \<le> 0
       then (Inl (ErrInvalidCheckpoint ''invalid journal fence''), s)
       else (case encodeRunLogRecord cd r of Inl e \<Rightarrow> (Inl e, s)
       | Inr j \<Rightarrow> (case transaction en (append_fenced_tx en cd r f j) s of
           (Inl e, s') \<Rightarrow>
             (Inl (if e = errRunRetired \<or> e = errRunKindConflict \<or> concurrencyError en e
                   then ErrCheckpointLeaseLost else contextOrError en e), s')
         | (Inr _, s') \<Rightarrow> (Inr (), s'))))"

section \<open>List\<close>

record log_query =
  lq_session_id :: string
  lq_run_id :: string
  lq_after :: int
  lq_limit :: int

definition findRunLogRows :: "log_query \<Rightarrow> 'j db \<Rightarrow> 'j runLogRow list" where
  "findRunLogRows q s =
    (let ordered = select_rows (\<lambda>e.
        has_row (\<lambda>g. rg_run_id g = rl_run_id e \<and> rg_state g = runStateActive) (registry s) \<and>
        (lq_session_id q = '''' \<or> rl_session_id e = lq_session_id q) \<and>
        (lq_run_id q = '''' \<or> rl_run_id e = lq_run_id q) \<and>
        rl_sequence e > lq_after q) rl_ordinal (events s)
     in if lq_limit q > 0 then limit_rows (lq_limit q) ordered else ordered)"

definition list_tx :: "env \<Rightarrow> log_query \<Rightarrow> 'j db \<Rightarrow> store_error + ('j runLogRow list \<times> 'j db)" where
  "list_tx en q s =
    (case lockRunRegistry en s (lq_run_id q) of
       Some reg \<Rightarrow>
         if rg_kind reg = runKindWorkflow \<and> lq_after q < rg_compacted reg
         then Inl (ErrHistoryCompacted (rg_compacted reg)) else Inr (findRunLogRows q s, s)
     | None \<Rightarrow> Inr (findRunLogRows q s, s))"

definition optional_id :: "string \<Rightarrow> string \<Rightarrow> store_error + unit" where
  "optional_id name v = (if v = '''' then Inr () else indexed_field ErrInvalidQuery (name, v))"

definition decode_event :: "'j codec \<Rightarrow> 'j runLogRow \<Rightarrow> store_error + event" where
  "decode_event cd row =
    (case unmarshal_event cd (rl_record_json row) of
       None \<Rightarrow> Inl (ErrOther ''dbstore: decode runlog'') | Some e \<Rightarrow> Inr e)"

definition List_runlog :: "env \<Rightarrow> 'j codec \<Rightarrow> log_query \<Rightarrow> 'j db \<Rightarrow> store_error + event list" where
  "List_runlog en cd q s =
    rbind (ready en) (\<lambda>_.
    if lq_after q < 0 \<or> lq_limit q < 0
    then Inl (ErrInvalidQuery ''after and limit must not be negative'')
    else rbind (optional_id ''session id'' (lq_session_id q)) (\<lambda>_.
    rbind (optional_id ''run id'' (lq_run_id q)) (\<lambda>_.
    if lq_session_id q \<noteq> '''' \<and> lq_run_id q = '''' \<and> lq_after q \<noteq> 0
    then Inl (ErrInvalidQuery ''after requires a run id for session queries'')
    else rbind (if lq_run_id q \<noteq> '''' then
                  (case fst (transaction en (list_tx en q) s) of
                     Inl e \<Rightarrow> Inl (contextOrError en e) | Inr rows \<Rightarrow> Inr rows)
                else query en (Inr (findRunLogRows q s))) (\<lambda>rows.
      map_result (decode_event cd) rows))))"

end
