(* ===== verification/Dbstore_Retention.thy ===== *)
theory Dbstore_Retention
  imports Dbstore_Ops
begin

text \<open>
  Retention (\<open>retention.go\<close>): the purge of terminal workflow runs in bounded transactions,
  the purge of standalone journals, and the compaction of a confirmed journal prefix of an
  active run. An operation made of several statements and transactions takes a stream of
  call environments, one for each statement or transaction in the order the code runs
  them, so that any of them may fail and each reads its own clock.
\<close>

section \<open>Requests, results and limits\<close>

definition defaultPurgeLimit :: int where "defaultPurgeLimit = 100"
definition maxPurgeLimit :: int where "maxPurgeLimit = 1000"
definition defaultPurgeRowLimit :: int where "defaultPurgeRowLimit = 1000"
definition maxPurgeRowLimit :: int where "maxPurgeRowLimit = 10000"
definition defaultPurgeByteLimit :: int where "defaultPurgeByteLimit = 64 * 2 ^ 20"
definition maxPurgeByteLimit :: int where "maxPurgeByteLimit = 2 ^ 30"

record purge_request =
  pr_before :: instant
  pr_limit :: int
  pr_row_limit :: int
  pr_byte_limit :: int

record purge_result =
  pu_runs :: int
  pu_checkpoints :: int
  pu_events :: int
  pu_pending :: int

record purge_budget =
  pb_rows :: int
  pb_bytes :: int

record history_deletion =
  hd_events :: int
  hd_checkpoints :: int
  hd_bytes :: int
  hd_complete :: bool

record deletion_candidate =
  dc_id :: int
  dc_byte_size :: int

section \<open>Candidates within a budget\<close>

definition runLogDeletionCandidates ::
  "'j codec \<Rightarrow> string \<Rightarrow> int \<Rightarrow> 'j db \<Rightarrow> deletion_candidate list" where
  "runLogDeletionCandidates cd rid lim s =
    map (\<lambda>e. \<lparr>dc_id = rl_ordinal e, dc_byte_size = json_len cd (rl_record_json e)\<rparr>)
      (limit_rows lim (select_rows (\<lambda>e. rl_run_id e = rid) rl_sequence (events s)))"

definition checkpointDeletionCandidates ::
  "'j codec \<Rightarrow> string \<Rightarrow> int \<Rightarrow> 'j db \<Rightarrow> deletion_candidate list" where
  "checkpointDeletionCandidates cd rid lim s =
    map (\<lambda>r. \<lparr>dc_id = ck_version r,
              dc_byte_size = json_len cd (ck_record_json r) + int (length (ck_payload r))\<rparr>)
      (limit_rows lim (select_rows (\<lambda>r. ck_run_id r = rid) ck_version (checkpoints s)))"

fun deletion_loop :: "int \<Rightarrow> int \<Rightarrow> deletion_candidate list \<Rightarrow> int list \<times> int" where
  "deletion_loop byteLimit bytes [] = ([], bytes)"
| "deletion_loop byteLimit bytes (c # cs) =
    (if bytes + dc_byte_size c > byteLimit then ([], bytes)
     else let bytes' = bytes + dc_byte_size c in
       if bytes' \<ge> byteLimit then ([dc_id c], bytes')
       else (case deletion_loop byteLimit bytes' cs of (ids, used) \<Rightarrow> (dc_id c # ids, used)))"

definition deletionIDsWithinBudget :: "deletion_candidate list \<Rightarrow> int \<Rightarrow> int list \<times> int" where
  "deletionIDsWithinBudget cs byteLimit = deletion_loop byteLimit 0 cs"

definition hasRunEvents :: "string \<Rightarrow> 'j db \<Rightarrow> bool" where
  "hasRunEvents rid s = has_row (\<lambda>e. rl_run_id e = rid) (events s)"

definition hasRunCheckpoints :: "string \<Rightarrow> 'j db \<Rightarrow> bool" where
  "hasRunCheckpoints rid s = has_row (\<lambda>r. ck_run_id r = rid) (checkpoints s)"

section \<open>Enrolling a terminal run\<close>

definition loadCheckpointMetadata :: "'j codec \<Rightarrow> 'j db \<Rightarrow> string \<Rightarrow> store_error + checkpoint" where
  "loadCheckpointMetadata cd s rid =
    (case latest_checkpoint_row s rid of
       None \<Rightarrow> Inl ErrRecordNotFound
     | Some row \<Rightarrow> (case unmarshal_checkpoint cd (ck_record_json row) of
         None \<Rightarrow> Inl (ErrOther ''decode terminal checkpoint'')
       | Some r \<Rightarrow> Inr r))"

definition runHeadMatchesCheckpoint :: "runRow \<Rightarrow> checkpoint \<Rightarrow> bool" where
  "runHeadMatchesCheckpoint h r \<longleftrightarrow>
    rn_run_id h = cp_run_id r \<and> rn_session_id h = cp_session_id r \<and>
    rn_status h = cp_status r \<and> rn_version h = cp_version r \<and>
    rn_created_at h = unix_nano (cp_created_at r) \<and> rn_updated_at h = unix_nano (cp_updated_at r)"

definition purgingRunIDs :: "int \<Rightarrow> 'j db \<Rightarrow> string list" where
  "purgingRunIDs lim s = map rg_run_id (limit_rows lim
    (select_rows (\<lambda>g. rg_kind g = runKindWorkflow \<and> rg_state g = runStatePurging)
      (\<lambda>g. (rg_updated_at g, rg_run_id g)) (registry s)))"

definition terminalRunIDs :: "instant \<Rightarrow> int \<Rightarrow> 'j db \<Rightarrow> string list" where
  "terminalRunIDs before lim s = map rn_run_id (limit_rows lim
    (select_rows (\<lambda>h.
       has_row (\<lambda>g. rg_run_id g = rn_run_id h \<and> rg_kind g = runKindWorkflow \<and>
                  rg_state g = runStateActive) (registry s) \<and>
       rn_status h \<in> {CheckpointCompleted, CheckpointFailed, CheckpointCanceled, CheckpointTerminated} \<and>
       rn_updated_at h < unix_nano before \<and>
       \<not> has_row (\<lambda>c. ck_run_id c = rn_run_id h \<and> ck_version c > rn_version h) (checkpoints s))
      (\<lambda>h. (rn_updated_at h, rn_run_id h)) (runs s)))"

definition firstHistoryRowFits :: "'j codec \<Rightarrow> string \<Rightarrow> purge_budget \<Rightarrow> 'j db \<Rightarrow> bool" where
  "firstHistoryRowFits cd rid budget s =
    (if pb_rows budget \<le> 0 \<or> pb_bytes budget \<le> 0 then False
     else let evs = runLogDeletionCandidates cd rid 1 s;
              cs = (if evs = [] then checkpointDeletionCandidates cd rid 1 s else evs)
          in case cs of [] \<Rightarrow> True | c # _ \<Rightarrow> dc_byte_size c \<le> pb_bytes budget)"

definition enroll_tx ::
  "env \<Rightarrow> 'j codec \<Rightarrow> string \<Rightarrow> instant \<Rightarrow> 'j db \<Rightarrow> store_error + (bool \<times> 'j db)" where
  "enroll_tx en cd rid before s =
    (case lockRunRegistry en s rid of
       None \<Rightarrow> Inl (ErrOther ''dbstore: workflow run has no workflow registry'')
     | Some reg \<Rightarrow>
       if rg_kind reg \<noteq> runKindWorkflow
       then Inl (ErrOther ''dbstore: workflow run has no workflow registry'')
       else if rg_state reg \<noteq> runStateActive then Inr (False, s)
       else if \<not> lockRunHead en s rid then Inr (False, s)
       else case find_head s rid of None \<Rightarrow> Inl ErrRecordNotFound
       | Some head \<Rightarrow>
         rbind (loadCheckpointMetadata cd s rid) (\<lambda>checkpoint.
         if rn_version head \<noteq> cp_version checkpoint then Inr (False, s)
         else if \<not> runHeadMatchesCheckpoint head checkpoint
         then Inl (ErrOther ''dbstore: terminal run head does not match its latest checkpoint'')
         else if \<not> checkpointTerminal (cp_status checkpoint) \<or>
           rn_updated_at head \<ge> unix_nano before
         then Inr (False, s)
         else let P = (\<lambda>g. rg_run_id g = rid \<and> rg_state g = runStateActive);
                  Q = (\<lambda>h. rn_run_id h = rid \<and> rn_version h = rn_version head)
           in if count_rows P (registry s) \<noteq> 1 then Inr (False, s)
              else if count_rows Q (runs s) \<noteq> 1
              then Inl (ErrOther ''dbstore: terminal run head changed while enrolling purge'')
              else Inr (True, s\<lparr>registry := upd_rows P (\<lambda>g. g\<lparr>rg_state := runStatePurging,
                                  rg_updated_at := unix_nano (en_now_utc en)\<rparr>) (registry s),
                                runs := del_rows Q (runs s)\<rparr>)))"

definition enrollTerminalRun ::
  "env \<Rightarrow> 'j codec \<Rightarrow> string \<Rightarrow> instant \<Rightarrow> 'j db \<Rightarrow> (store_error + bool) \<times> 'j db" where
  "enrollTerminalRun en cd rid before s = transaction en (enroll_tx en cd rid before) s"

text \<open>The loop stops at the first run whose first history row does not fit the budget.\<close>

fun enrollTerminalRuns ::
  "(nat \<Rightarrow> env) \<Rightarrow> nat \<Rightarrow> 'j codec \<Rightarrow> string list \<Rightarrow> instant \<Rightarrow> purge_budget \<Rightarrow> 'j db \<Rightarrow>
   (store_error + nat) \<times> 'j db" where
  "enrollTerminalRuns ens n cd [] before budget s = (Inr n, s)"
| "enrollTerminalRuns ens n cd (rid # rids) before budget s =
    (case query (ens n) (Inr (firstHistoryRowFits cd rid budget s)) of
       Inl e \<Rightarrow> (Inl e, s)
     | Inr fits \<Rightarrow>
       if \<not> fits then (Inr (n + 1), s)
       else (case enrollTerminalRun (ens (n + 1)) cd rid before s of
           (Inl e, s') \<Rightarrow> (Inl e, s')
         | (Inr _, s') \<Rightarrow> enrollTerminalRuns ens (n + 2) cd rids before budget s'))"

section \<open>Deleting the history of a purging run\<close>

definition deleteRunLogs ::
  "'j codec \<Rightarrow> string \<Rightarrow> purge_budget \<Rightarrow> 'j db \<Rightarrow> (int \<times> int) \<times> 'j db" where
  "deleteRunLogs cd rid budget s =
    (if pb_rows budget \<le> 0 \<or> pb_bytes budget \<le> 0 then ((0, 0), s)
     else let (ordinals, selectedBytes) = deletionIDsWithinBudget
                (runLogDeletionCandidates cd rid (pb_rows budget) s) (pb_bytes budget)
       in if ordinals = [] then ((0, 0), s)
          else let P = (\<lambda>e. rl_run_id e = rid \<and> rl_ordinal e \<in> set ordinals)
            in ((count_rows P (events s), selectedBytes),
                s\<lparr>retention := del_rows (\<lambda>t. rt_ordinal t \<in> set ordinals) (retention s),
                  events := del_rows P (events s)\<rparr>))"

definition deleteCheckpoints ::
  "'j codec \<Rightarrow> string \<Rightarrow> purge_budget \<Rightarrow> 'j db \<Rightarrow> (int \<times> int) \<times> 'j db" where
  "deleteCheckpoints cd rid budget s =
    (if pb_rows budget \<le> 0 \<or> pb_bytes budget \<le> 0 then ((0, 0), s)
     else let (versions, selectedBytes) = deletionIDsWithinBudget
                (checkpointDeletionCandidates cd rid (pb_rows budget) s) (pb_bytes budget)
       in if versions = [] then ((0, 0), s)
          else let P = (\<lambda>r. ck_run_id r = rid \<and> ck_version r \<in> set versions)
            in ((count_rows P (checkpoints s), selectedBytes),
                s\<lparr>checkpoints := del_rows P (checkpoints s)\<rparr>))"

definition no_deletion :: history_deletion where
  "no_deletion = \<lparr>hd_events = 0, hd_checkpoints = 0, hd_bytes = 0, hd_complete = False\<rparr>"

definition delete_history_tx ::
  "env \<Rightarrow> 'j codec \<Rightarrow> string \<Rightarrow> purge_budget \<Rightarrow> 'j db \<Rightarrow> store_error + (history_deletion \<times> 'j db)" where
  "delete_history_tx en cd rid budget s =
    (case lockRunRegistry en s rid of None \<Rightarrow> Inr (no_deletion, s)
     | Some reg \<Rightarrow>
       if rg_kind reg \<noteq> runKindWorkflow \<or> rg_state reg \<noteq> runStatePurging then Inr (no_deletion, s)
       else let ((evRows, evBytes), s1) = deleteRunLogs cd rid budget s;
                budget' = \<lparr>pb_rows = pb_rows budget - evRows, pb_bytes = pb_bytes budget - evBytes\<rparr>;
                ((ckRows, ckBytes), s2) = deleteCheckpoints cd rid budget' s1;
                deleted = \<lparr>hd_events = evRows, hd_checkpoints = ckRows,
                           hd_bytes = evBytes + ckBytes, hd_complete = False\<rparr>
         in if hasRunEvents rid s2 \<or> hasRunCheckpoints rid s2 then Inr (deleted, s2)
            else let P = (\<lambda>g. rg_run_id g = rid \<and> rg_state g = runStatePurging)
              in Inr (deleted\<lparr>hd_complete := count_rows P (registry s2) = 1\<rparr>,
                   s2\<lparr>registry := upd_rows P (\<lambda>g. g\<lparr>rg_state := runStatePurged,
                     rg_updated_at := unix_nano (en_now_utc en)\<rparr>) (registry s2)\<rparr>))"

definition deletePurgingHistory ::
  "env \<Rightarrow> 'j codec \<Rightarrow> string \<Rightarrow> purge_budget \<Rightarrow> 'j db \<Rightarrow> (store_error + history_deletion) \<times> 'j db" where
  "deletePurgingHistory en cd rid budget s = transaction en (delete_history_tx en cd rid budget) s"

section \<open>PurgeTerminalRuns\<close>

definition no_purge :: purge_result where
  "no_purge = \<lparr>pu_runs = 0, pu_checkpoints = 0, pu_events = 0, pu_pending = 0\<rparr>"

definition add_deletion :: "purge_result \<Rightarrow> history_deletion \<Rightarrow> purge_result" where
  "add_deletion res d = res\<lparr>pu_events := pu_events res + hd_events d,
     pu_checkpoints := pu_checkpoints res + hd_checkpoints d,
     pu_runs := pu_runs res + (if hd_complete d then 1 else 0)\<rparr>"

fun purge_loop ::
  "(nat \<Rightarrow> env) \<Rightarrow> nat \<Rightarrow> 'j codec \<Rightarrow> string list \<Rightarrow> purge_budget \<Rightarrow> purge_result \<Rightarrow> 'j db \<Rightarrow>
   (purge_result \<times> store_error option \<times> nat) \<times> 'j db" where
  "purge_loop ens n cd [] remaining res s = ((res, None, n), s)"
| "purge_loop ens n cd (rid # rids) remaining res s =
    (case deletePurgingHistory (ens n) cd rid remaining s of
       (Inl e, s') \<Rightarrow> ((res, Some (contextOrError (ens n) e), n + 1), s')
     | (Inr d, s') \<Rightarrow>
       let res' = add_deletion res d;
           remaining' = \<lparr>pb_rows = pb_rows remaining - (hd_events d + hd_checkpoints d),
                         pb_bytes = pb_bytes remaining - hd_bytes d\<rparr>
       in if pb_rows remaining' \<le> 0 \<or> pb_bytes remaining' \<le> 0 then ((res', None, n + 1), s')
          else purge_loop ens (n + 1) cd rids remaining' res' s')"

definition with_default :: "int \<Rightarrow> int \<Rightarrow> int" where
  "with_default d x = (if x = 0 then d else x)"

text \<open>The checks of the request, and the limits it resolves to.\<close>

definition purge_limits :: "purge_request \<Rightarrow> store_error + (int \<times> purge_budget)" where
  "purge_limits req =
    (if pr_before req = 0 then Inl (ErrOther ''dbstore: purge before time is required'')
     else if pr_limit req < 0 \<or> pr_limit req > maxPurgeLimit
     then Inl (ErrOther ''dbstore: purge limit must be between 0 and 1000'')
     else if pr_row_limit req < 0 \<or> pr_row_limit req > maxPurgeRowLimit
     then Inl (ErrOther ''dbstore: purge row limit must be between 0 and 10000'')
     else if pr_byte_limit req < 0 \<or> pr_byte_limit req > maxPurgeByteLimit
     then Inl (ErrOther ''dbstore: purge byte limit must be between 0 and 1073741824'')
     else Inr (with_default defaultPurgeLimit (pr_limit req),
       \<lparr>pb_rows = with_default defaultPurgeRowLimit (pr_row_limit req),
        pb_bytes = with_default defaultPurgeByteLimit (pr_byte_limit req)\<rparr>))"

definition purge_enroll ::
  "(nat \<Rightarrow> env) \<Rightarrow> 'j codec \<Rightarrow> instant \<Rightarrow> int \<Rightarrow> purge_budget \<Rightarrow> 'j db \<Rightarrow> (store_error + nat) \<times> 'j db" where
  "purge_enroll ens cd before lim budget s =
    (case query (ens 0) (Inr (purgingRunIDs lim s)) of Inl e \<Rightarrow> (Inl e, s)
     | Inr pending \<Rightarrow>
       let capacity = lim - int (length pending) in
       if \<not> capacity > 0 then (Inr 1, s)
       else (case query (ens 1) (Inr (terminalRunIDs before capacity s)) of
           Inl e \<Rightarrow> (Inl e, s)
         | Inr candidates \<Rightarrow> enrollTerminalRuns ens 2 cd candidates before budget s))"

definition PurgeTerminalRuns ::
  "(nat \<Rightarrow> env) \<Rightarrow> 'j codec \<Rightarrow> purge_request \<Rightarrow> 'j db \<Rightarrow>
   (purge_result \<times> store_error option) \<times> 'j db" where
  "PurgeTerminalRuns ens cd req s =
    (case rbind (ready (ens 0)) (\<lambda>_. purge_limits req) of
       Inl e \<Rightarrow> ((no_purge, Some e), s)
     | Inr (lim, budget) \<Rightarrow>
       (case purge_enroll ens cd (pr_before req) lim budget s of
          (Inl e, s1) \<Rightarrow> ((no_purge, Some e), s1)
        | (Inr n, s1) \<Rightarrow>
          (case query (ens n) (Inr (purgingRunIDs lim s1)) of
             Inl e \<Rightarrow> ((no_purge, Some e), s1)
           | Inr pending \<Rightarrow>
             (case purge_loop ens (n + 1) cd pending budget no_purge s1 of
                ((res, Some e, m), s2) \<Rightarrow> ((res, Some e), s2)
              | ((res, None, m), s2) \<Rightarrow>
                (case query (ens m) (Inr (count_rows (\<lambda>g. rg_kind g = runKindWorkflow \<and>
                        rg_state g = runStatePurging) (registry s2))) of
                   Inl e \<Rightarrow> ((res, Some e), s2)
                 | Inr pending' \<Rightarrow> ((res\<lparr>pu_pending := pending'\<rparr>, None), s2))))))"

section \<open>PurgeRunLog\<close>

record runlog_purge_request =
  lp_before :: instant
  lp_limit :: int
  lp_byte_limit :: int
  lp_allow_replay_loss :: bool

record journal_candidate =
  jc_ordinal :: int
  jc_run_id :: string
  jc_byte_size :: int

text \<open>The join of retention metadata, registry and journal, oldest append first.\<close>

definition journalPurgeCandidates ::
  "'j codec \<Rightarrow> instant \<Rightarrow> int \<Rightarrow> 'j db \<Rightarrow> journal_candidate list" where
  "journalPurgeCandidates cd before lim s = limit_rows lim
    (concat (map (\<lambda>t. map (\<lambda>e. \<lparr>jc_ordinal = rt_ordinal t, jc_run_id = rt_run_id t,
                                  jc_byte_size = json_len cd (rl_record_json e)\<rparr>)
                         (filter (\<lambda>e. rl_ordinal e = rt_ordinal t) (events s)))
       (select_rows (\<lambda>t. has_row (\<lambda>g. rg_run_id g = rt_run_id t \<and> rg_kind g = runKindJournal \<and>
                                     rg_state g = runStateActive) (registry s) \<and>
                        rt_appended_at t < unix_nano before)
          (\<lambda>t. (rt_appended_at t, rt_ordinal t)) (retention s))))"

fun bounded_journal :: "int \<Rightarrow> int \<Rightarrow> journal_candidate list \<Rightarrow> journal_candidate list" where
  "bounded_journal byteLimit selectedBytes [] = []"
| "bounded_journal byteLimit selectedBytes (c # cs) =
    (if selectedBytes + jc_byte_size c > byteLimit then []
     else let selectedBytes' = selectedBytes + jc_byte_size c in
       if selectedBytes' \<ge> byteLimit then [c]
       else c # bounded_journal byteLimit selectedBytes' cs)"

text \<open>The runs of the candidates in the order of their first candidate, and the ordinals of each.\<close>

fun run_order :: "string list \<Rightarrow> journal_candidate list \<Rightarrow> string list" where
  "run_order seen [] = []"
| "run_order seen (c # cs) =
    (if jc_run_id c \<in> set seen then run_order seen cs
     else jc_run_id c # run_order (jc_run_id c # seen) cs)"

definition ordinals_of_run :: "string \<Rightarrow> journal_candidate list \<Rightarrow> int list" where
  "ordinals_of_run rid cs = map jc_ordinal (filter (\<lambda>c. jc_run_id c = rid) cs)"

definition purge_journal_tx ::
  "env \<Rightarrow> string \<Rightarrow> int list \<Rightarrow> instant \<Rightarrow> 'j db \<Rightarrow> store_error + (int \<times> 'j db)" where
  "purge_journal_tx en rid ordinals before s =
    (case lockRunRegistry en s rid of None \<Rightarrow> Inr (0, s)
     | Some reg \<Rightarrow>
       if rg_kind reg \<noteq> runKindJournal \<or> rg_state reg \<noteq> runStateActive then Inr (0, s)
       else let eligible = map rt_ordinal (filter (\<lambda>t. rt_run_id t = rid \<and>
                  rt_ordinal t \<in> set ordinals \<and> rt_appended_at t < unix_nano before) (retention s))
         in if eligible = [] then Inr (0, s)
            else let P = (\<lambda>e. rl_run_id e = rid \<and> rl_ordinal e \<in> set eligible);
                     s1 = s\<lparr>retention := del_rows (\<lambda>t. rt_ordinal t \<in> set eligible) (retention s),
                            events := del_rows P (events s)\<rparr>
              in Inr (count_rows P (events s),
                   if hasRunEvents rid s1 then s1
                   else s1\<lparr>registry := del_rows (\<lambda>g. rg_run_id g = rid \<and>
                     rg_kind g = runKindJournal \<and> rg_state g = runStateActive) (registry s1)\<rparr>))"

definition runLogPurgeError :: "env \<Rightarrow> store_error \<Rightarrow> store_error" where
  "runLogPurgeError en e = contextOrError en e"

fun purge_journal_loop ::
  "(nat \<Rightarrow> env) \<Rightarrow> nat \<Rightarrow> journal_candidate list \<Rightarrow> string list \<Rightarrow> instant \<Rightarrow> int \<Rightarrow> 'j db \<Rightarrow>
   (int \<times> store_error option) \<times> 'j db" where
  "purge_journal_loop ens n cs [] before done_events s = ((done_events, None), s)"
| "purge_journal_loop ens n cs (rid # rids) before done_events s =
    (case transaction (ens n) (purge_journal_tx (ens n) rid (ordinals_of_run rid cs) before) s of
       (Inl e, s') \<Rightarrow> ((done_events, Some (runLogPurgeError (ens n) e)), s')
     | (Inr k, s') \<Rightarrow> purge_journal_loop ens (n + 1) cs rids before (done_events + k) s')"

definition runlog_purge_limits :: "runlog_purge_request \<Rightarrow> store_error + (int \<times> int)" where
  "runlog_purge_limits req =
    (if lp_before req = 0 then Inl (ErrOther ''dbstore: RunLog purge before time is required'')
     else if \<not> lp_allow_replay_loss req
     then Inl (ErrOther ''dbstore: RunLog purge requires AllowReplayLoss'')
     else if lp_limit req < 0 \<or> lp_limit req > maxPurgeRowLimit
     then Inl (ErrOther ''dbstore: RunLog purge limit must be between 0 and 10000'')
     else if lp_byte_limit req < 0 \<or> lp_byte_limit req > maxPurgeByteLimit
     then Inl (ErrOther ''dbstore: RunLog purge byte limit must be between 0 and 1073741824'')
     else Inr (with_default defaultPurgeRowLimit (lp_limit req),
               with_default defaultPurgeByteLimit (lp_byte_limit req)))"

definition PurgeRunLog ::
  "(nat \<Rightarrow> env) \<Rightarrow> 'j codec \<Rightarrow> runlog_purge_request \<Rightarrow> 'j db \<Rightarrow> (int \<times> store_error option) \<times> 'j db" where
  "PurgeRunLog ens cd req s =
    (case rbind (ready (ens 0)) (\<lambda>_. runlog_purge_limits req) of
       Inl e \<Rightarrow> ((0, Some e), s)
     | Inr (lim, byteLimit) \<Rightarrow>
       (case query (ens 0) (Inr (journalPurgeCandidates cd (lp_before req) lim s)) of
          Inl e \<Rightarrow> ((0, Some e), s)
        | Inr found \<Rightarrow>
          let candidates = bounded_journal byteLimit 0 found
          in purge_journal_loop ens 1 candidates (run_order [] candidates) (lp_before req) 0 s))"

section \<open>PurgeConfirmedRunLog\<close>

record confirmed_purge_request =
  cf_run_id :: string
  cf_before :: instant
  cf_limit :: int
  cf_byte_limit :: int
  cf_allow_history_loss :: bool

record confirmed_purge_result =
  cr_events :: int
  cr_compacted :: int

record confirmed_candidate =
  cc_ordinal :: int
  cc_sequence :: int
  cc_byte_size :: int
  cc_appended_at :: int

definition confirmedRunLogCandidates ::
  "'j codec \<Rightarrow> string \<Rightarrow> int \<Rightarrow> int \<Rightarrow> int \<Rightarrow> 'j db \<Rightarrow> confirmed_candidate list" where
  "confirmedRunLogCandidates cd rid floor confirmed lim s = limit_rows lim
    (concat (map (\<lambda>e. map (\<lambda>t. \<lparr>cc_ordinal = rl_ordinal e, cc_sequence = rl_sequence e,
                                 cc_byte_size = json_len cd (rl_record_json e),
                                 cc_appended_at = rt_appended_at t\<rparr>)
                        (filter (\<lambda>t. rt_ordinal t = rl_ordinal e \<and> rt_run_id t = rl_run_id e) (retention s)))
       (select_rows (\<lambda>e. rl_run_id e = rid \<and> rl_sequence e > floor \<and> rl_sequence e \<le> confirmed)
          rl_sequence (events s))))"

fun confirmed_loop ::
  "int \<Rightarrow> int \<Rightarrow> int \<Rightarrow> int \<Rightarrow> confirmed_candidate list \<Rightarrow> store_error + confirmed_candidate list" where
  "confirmed_loop beforeNano byteLimit expected selectedBytes [] = Inr []"
| "confirmed_loop beforeNano byteLimit expected selectedBytes (c # cs) =
    (if cc_sequence c \<noteq> expected
     then Inl (ErrOther ''dbstore: confirmed RunLog has a sequence gap'')
     else if cc_appended_at c \<ge> beforeNano then Inr []
     else if selectedBytes + cc_byte_size c > byteLimit then Inr []
     else let selectedBytes' = selectedBytes + cc_byte_size c in
       if selectedBytes' \<ge> byteLimit then Inr [c]
       else rbind (confirmed_loop beforeNano byteLimit (expected + 1) selectedBytes' cs)
              (\<lambda>rest. Inr (c # rest)))"

definition contiguousConfirmedCandidates ::
  "confirmed_candidate list \<Rightarrow> int \<Rightarrow> int \<Rightarrow> int \<Rightarrow> store_error + confirmed_candidate list" where
  "contiguousConfirmedCandidates cs floor beforeNano byteLimit =
    confirmed_loop beforeNano byteLimit (floor + 1) 0 cs"

definition compact_rows ::
  "string \<Rightarrow> runRegistryRow \<Rightarrow> confirmed_candidate list \<Rightarrow> 'j db \<Rightarrow>
   store_error + (confirmed_purge_result \<times> 'j db)" where
  "compact_rows rid reg selected s =
    (let ordinals = map cc_ordinal selected;
         R = (\<lambda>t. rt_run_id t = rid \<and> rt_ordinal t \<in> set ordinals);
         E = (\<lambda>e. rl_run_id e = rid \<and> rl_ordinal e \<in> set ordinals);
         floor = cc_sequence (last selected);
         G = (\<lambda>g. rg_run_id g = rid \<and> rg_kind g = runKindWorkflow \<and>
                rg_state g = runStateActive \<and> rg_compacted g = rg_compacted reg)
     in if count_rows R (retention s) \<noteq> int (length ordinals)
        then Inl (ErrOther ''dbstore: confirmed RunLog retention changed while compacting'')
        else if count_rows E (events s) \<noteq> int (length ordinals)
        then Inl (ErrOther ''dbstore: confirmed RunLog changed while compacting'')
        else if count_rows G (registry s) \<noteq> 1
        then Inl (ErrOther ''dbstore: confirmed RunLog floor changed while compacting'')
        else Inr (\<lparr>cr_events = count_rows E (events s), cr_compacted = floor\<rparr>,
          s\<lparr>retention := del_rows R (retention s), events := del_rows E (events s),
            registry := upd_rows G (\<lambda>g. g\<lparr>rg_compacted := floor\<rparr>) (registry s)\<rparr>))"

definition confirmed_tx ::
  "env \<Rightarrow> 'j codec \<Rightarrow> confirmed_purge_request \<Rightarrow> int \<Rightarrow> int \<Rightarrow> 'j db \<Rightarrow>
   store_error + (confirmed_purge_result \<times> 'j db)" where
  "confirmed_tx en cd req lim byteLimit s =
    (let rid = cf_run_id req in
     case lockRunRegistry en s rid of
       None \<Rightarrow> Inl (ErrOther ''dbstore: run is not an active workflow'')
     | Some reg \<Rightarrow>
       if rg_kind reg \<noteq> runKindWorkflow \<or> rg_state reg \<noteq> runStateActive
       then Inl (ErrOther ''dbstore: run is not an active workflow'')
       else let unchanged = Inr (\<lparr>cr_events = 0, cr_compacted = rg_compacted reg\<rparr>, s) in
       if \<not> lockRunHead en s rid
       then Inl (ErrOther ''dbstore: active workflow run has no run head'')
       else case find_head s rid of None \<Rightarrow> Inl ErrRecordNotFound
       | Some head \<Rightarrow>
         rbind (loadCheckpointMetadata cd s rid) (\<lambda>checkpoint.
         if \<not> runHeadMatchesCheckpoint head checkpoint
         then Inl (ErrOther ''dbstore: workflow run head does not match its latest checkpoint'')
         else if cp_status checkpoint \<noteq> CheckpointRunning \<and> cp_status checkpoint \<noteq> CheckpointInterrupted
         then Inl (ErrOther ''dbstore: workflow run is terminal and cannot be prefix-compacted'')
         else if cp_pending_sequence checkpoint \<noteq> 0
         then Inl (ErrOther ''dbstore: workflow run has a pending event and cannot be compacted'')
         else if cp_confirmed_sequence checkpoint \<le> rg_compacted reg then unchanged
         else let candidates = confirmedRunLogCandidates cd rid (rg_compacted reg)
                  (cp_confirmed_sequence checkpoint) lim s
           in if candidates = []
              then Inl (ErrOther ''dbstore: confirmed RunLog is missing a sequence'')
              else rbind (contiguousConfirmedCandidates candidates (rg_compacted reg)
                            (unix_nano (cf_before req)) byteLimit) (\<lambda>selected.
                if selected = [] then unchanged else compact_rows rid reg selected s)))"

definition confirmed_purge_limits :: "confirmed_purge_request \<Rightarrow> store_error + (int \<times> int)" where
  "confirmed_purge_limits req =
    (if validateIndexedID ''run id'' (cf_run_id req) \<noteq> Inr ()
     then Inl (ErrOther ''dbstore: invalid confirmed RunLog purge'')
     else if cf_before req = 0
     then Inl (ErrOther ''dbstore: confirmed RunLog purge before time is required'')
     else if \<not> cf_allow_history_loss req
     then Inl (ErrOther ''dbstore: confirmed RunLog purge requires AllowHistoryLoss'')
     else if cf_limit req < 0 \<or> cf_limit req > maxPurgeRowLimit
     then Inl (ErrOther ''dbstore: confirmed RunLog purge limit must be between 0 and 10000'')
     else if cf_byte_limit req < 0 \<or> cf_byte_limit req > maxPurgeByteLimit
     then Inl (ErrOther ''dbstore: confirmed RunLog purge byte limit must be between 0 and 1073741824'')
     else Inr (with_default defaultPurgeRowLimit (cf_limit req),
               with_default defaultPurgeByteLimit (cf_byte_limit req)))"

definition PurgeConfirmedRunLog ::
  "env \<Rightarrow> 'j codec \<Rightarrow> confirmed_purge_request \<Rightarrow> 'j db \<Rightarrow> (store_error + confirmed_purge_result) \<times> 'j db" where
  "PurgeConfirmedRunLog en cd req s =
    (case rbind (ready en) (\<lambda>_. confirmed_purge_limits req) of
       Inl e \<Rightarrow> (Inl e, s)
     | Inr (lim, byteLimit) \<Rightarrow>
       (case transaction en (confirmed_tx en cd req lim byteLimit) s of
          (Inl e, s') \<Rightarrow> (Inl (contextOrError en e), s')
        | (Inr res, s') \<Rightarrow> (Inr res, s')))"

end
