(* ===== verification/Dbstore_Inv.thy ===== *)
theory Dbstore_Inv
  imports Dbstore_Retention
begin

text \<open>
  The invariant of the store: what the tables of every reachable database agree on. Its
  four parts are the unique keys, the journal (every event has its retention row and its
  registry row, above the compaction floor), the registry (an active workflow has exactly
  one run head, a journal domain and a tombstone have no checkpoint), and the history
  (every stored checkpoint decodes to its own run and version, the versions of a run are
  1 up to its head's version, and the head repeats the latest checkpoint).
\<close>

section \<open>The invariant\<close>

definition decode_row :: "'j codec \<Rightarrow> 'j checkpointRow \<Rightarrow> store_error + checkpoint" where
  "decode_row cd r = decodeCheckpoint cd (ck_record_json r) (ck_payload r)"

definition versions_of :: "'j db \<Rightarrow> string \<Rightarrow> int set" where
  "versions_of s rid = ck_version ` {r \<in> set (checkpoints s). ck_run_id r = rid}"

definition keys_ok :: "'j db \<Rightarrow> bool" where
  "keys_ok s \<longleftrightarrow>
    distinct (map ckpt_key (checkpoints s)) \<and> distinct (map event_key (events s)) \<and>
    distinct (map rl_ordinal (events s)) \<and> distinct (map rt_ordinal (retention s)) \<and>
    distinct (map rn_run_id (runs s)) \<and> distinct (map rg_run_id (registry s))"

definition event_ok :: "'j db \<Rightarrow> 'j runLogRow \<Rightarrow> bool" where
  "event_ok s e \<longleftrightarrow> rl_ordinal e < next_ordinal s \<and> 0 < rl_sequence e \<and>
    (\<exists>t \<in> set (retention s). rt_ordinal t = rl_ordinal e \<and> rt_run_id t = rl_run_id e) \<and>
    (\<exists>g \<in> set (registry s). rg_run_id g = rl_run_id e \<and> rg_state g \<noteq> runStatePurged \<and>
       rg_compacted g < rl_sequence e)"

definition journal_ok :: "'j db \<Rightarrow> bool" where
  "journal_ok s \<longleftrightarrow> (\<forall>e \<in> set (events s). event_ok s e) \<and>
    (\<forall>t \<in> set (retention s). \<exists>e \<in> set (events s).
       rl_ordinal e = rt_ordinal t \<and> rl_run_id e = rt_run_id t)"

definition has_head :: "'j db \<Rightarrow> string \<Rightarrow> bool" where
  "has_head s rid \<longleftrightarrow> rid \<in> rn_run_id ` set (runs s)"

definition registry_row_ok :: "'j db \<Rightarrow> runRegistryRow \<Rightarrow> bool" where
  "registry_row_ok s g \<longleftrightarrow> 0 \<le> rg_compacted g \<and>
    (rg_kind g = runKindJournal \<longrightarrow> rg_state g = runStateActive \<and> rg_compacted g = 0) \<and>
    (has_head s (rg_run_id g) \<longleftrightarrow> rg_kind g = runKindWorkflow \<and> rg_state g = runStateActive) \<and>
    (rg_kind g = runKindJournal \<or> rg_state g = runStatePurged \<longrightarrow> versions_of s (rg_run_id g) = {})"

definition registry_ok :: "'j db \<Rightarrow> bool" where
  "registry_ok s \<longleftrightarrow> (\<forall>g \<in> set (registry s). registry_row_ok s g) \<and>
    rn_run_id ` set (runs s) \<subseteq> rg_run_id ` set (registry s) \<and>
    ck_run_id ` set (checkpoints s) \<subseteq> rg_run_id ` set (registry s)"

definition checkpoint_row_ok :: "'j codec \<Rightarrow> 'j checkpointRow \<Rightarrow> bool" where
  "checkpoint_row_ok cd r \<longleftrightarrow> 1 \<le> ck_version r \<and>
    (\<exists>c. decode_row cd r = Inr c \<and> cp_run_id c = ck_run_id r \<and> cp_version c = ck_version r)"

definition head_ok :: "'j codec \<Rightarrow> 'j db \<Rightarrow> runRow \<Rightarrow> bool" where
  "head_ok cd s h \<longleftrightarrow> 1 \<le> rn_version h \<and> versions_of s (rn_run_id h) = {1..rn_version h} \<and>
    (\<forall>r \<in> set (checkpoints s). ck_run_id r = rn_run_id h \<and> ck_version r = rn_version h \<longrightarrow>
       (\<exists>c. decode_row cd r = Inr c \<and> runHead c = h))"

definition history_ok :: "'j codec \<Rightarrow> 'j db \<Rightarrow> bool" where
  "history_ok cd s \<longleftrightarrow> (\<forall>r \<in> set (checkpoints s). checkpoint_row_ok cd r) \<and>
    (\<forall>h \<in> set (runs s). head_ok cd s h)"

definition store_inv :: "'j codec \<Rightarrow> 'j db \<Rightarrow> bool" where
  "store_inv cd s \<longleftrightarrow> keys_ok s \<and> journal_ok s \<and> registry_ok s \<and> history_ok cd s"

lemma store_inv_empty: "store_inv cd empty_db"
  by (simp add: store_inv_def keys_ok_def journal_ok_def registry_ok_def history_ok_def empty_db_def)

lemma store_invI:
  "keys_ok s \<Longrightarrow> journal_ok s \<Longrightarrow> registry_ok s \<Longrightarrow> history_ok cd s \<Longrightarrow> store_inv cd s"
  by (simp add: store_inv_def)

lemma store_invD:
  assumes "store_inv cd s"
  shows "keys_ok s" "journal_ok s" "registry_ok s" "history_ok cd s"
  using assms by (simp_all add: store_inv_def)

section \<open>Frame rules\<close>

text \<open>Each part of the invariant reads only some tables.\<close>

lemma versions_of_cong: "checkpoints s' = checkpoints s \<Longrightarrow> versions_of s' rid = versions_of s rid"
  by (simp add: versions_of_def)

lemma journal_ok_cong:
  "events s' = events s \<Longrightarrow> retention s' = retention s \<Longrightarrow> registry s' = registry s \<Longrightarrow>
   next_ordinal s' = next_ordinal s \<Longrightarrow> journal_ok s' = journal_ok s"
  by (simp add: journal_ok_def event_ok_def)

lemma registry_ok_cong:
  "registry s' = registry s \<Longrightarrow> map rn_run_id (runs s') = map rn_run_id (runs s) \<Longrightarrow>
   ck_run_id ` set (checkpoints s') = ck_run_id ` set (checkpoints s) \<Longrightarrow> registry_ok s' = registry_ok s"
proof -
  assume g: "registry s' = registry s" and m: "map rn_run_id (runs s') = map rn_run_id (runs s)"
    and c: "ck_run_id ` set (checkpoints s') = ck_run_id ` set (checkpoints s)"
  from m have i: "rn_run_id ` set (runs s') = rn_run_id ` set (runs s)" by (metis set_map)
  have "(versions_of s' rid = {}) = (versions_of s rid = {})" for rid
    using c unfolding versions_of_def by (simp add: image_iff set_eq_iff) metis
  then show ?thesis by (simp add: registry_ok_def registry_row_ok_def has_head_def g i c)
qed

section \<open>Rows found by key\<close>

lemma find_registry_iff:
  "keys_ok s \<Longrightarrow> find_registry s rid = Some g \<longleftrightarrow> g \<in> set (registry s) \<and> rg_run_id g = rid"
  by (simp add: find_registry_def regs.lookup_iff keys_ok_def)

lemma find_registry_None: "find_registry s rid = None \<longleftrightarrow> (\<forall>g \<in> set (registry s). rg_run_id g \<noteq> rid)"
  by (simp add: find_registry_def regs.lookup_none)

lemma find_head_iff:
  "keys_ok s \<Longrightarrow> find_head s rid = Some h \<longleftrightarrow> h \<in> set (runs s) \<and> rn_run_id h = rid"
  by (simp add: find_head_def heads.lookup_iff keys_ok_def)

lemma find_head_None: "find_head s rid = None \<longleftrightarrow> \<not> has_head s rid"
  by (auto simp: find_head_def heads.lookup_none has_head_def)

lemma find_event_iff:
  "keys_ok s \<Longrightarrow> find_event s rid sq = Some e \<longleftrightarrow>
     e \<in> set (events s) \<and> rl_run_id e = rid \<and> rl_sequence e = sq"
  unfolding find_event_def keys_ok_def
  using evs.lookup_iff [of "events s" "(rid, sq)" e] by (auto simp: event_key_def)

lemma lockRunRegistry_find: "keys_ok s \<Longrightarrow> lockRunRegistry en s rid = find_registry s rid"
  by (simp add: lockRunRegistry_eq keys_ok_def)

lemma lockRunHead_find: "keys_ok s \<Longrightarrow> lockRunHead en s rid \<longleftrightarrow> find_head s rid \<noteq> None"
  by (simp add: lockRunHead_eq keys_ok_def)

text \<open>The head of a run names its latest checkpoint.\<close>

lemma head_latest:
  assumes "store_inv cd s" and "find_head s rid = Some h"
  obtains row c where "latest_checkpoint_row s rid = Some row" "row \<in> set (checkpoints s)"
    "ck_run_id row = rid" "ck_version row = rn_version h" "decode_row cd row = Inr c"
    "runHead c = h" "loadCheckpoint cd s rid = Inr c"
proof -
  have k: "keys_ok s" and hist: "history_ok cd s" using assms(1) store_invD by blast+
  have h: "h \<in> set (runs s)" "rn_run_id h = rid" using assms(2) k by (auto simp: find_head_iff)
  have ho: "head_ok cd s h" using hist h by (simp add: history_ok_def)
  then have v: "versions_of s rid = {1..rn_version h}" and "1 \<le> rn_version h"
    using h by (auto simp: head_ok_def)
  then have "rn_version h \<in> versions_of s rid" by simp
  then obtain row where row: "row \<in> set (checkpoints s)" "ck_run_id row = rid"
    "ck_version row = rn_version h" by (auto simp: versions_of_def)
  have "ck_version x \<le> rn_version h" if "x \<in> set (checkpoints s)" "ck_run_id x = rid" for x
    using that v by (auto simp: versions_of_def set_eq_iff)
  then have l: "latest_checkpoint_row s rid = Some row"
    using row k by (intro latest_checkpoint_rowI) (auto simp: keys_ok_def)
  from ho row h obtain c where c: "decode_row cd row = Inr c" "runHead c = h"
    by (auto simp: head_ok_def)
  moreover have "loadCheckpoint cd s rid = Inr c"
    using l c by (simp add: loadCheckpoint_def decode_row_def)
  ultimately show ?thesis using l row c that by blast
qed

lemma runHead_eqD:
  assumes "runHead c = h"
  shows "cp_run_id c = rn_run_id h" "cp_version c = rn_version h" "cp_status c = rn_status h"
    "cp_session_id c = rn_session_id h"
  using assms by (auto simp: runHead_def)

lemma decode_row_encoded:
  assumes "codec_ok cd" and "encodeCheckpointMetadata cd c = Inr j"
  obtains d where "decode_row cd \<lparr>ck_run_id = rid, ck_version = v, ck_record_json = j,
      ck_payload = cp_payload c\<rparr> = Inr (c\<lparr>cp_lease_duration := d\<rparr>)"
  using decode_encode [OF assms] by (auto simp: decode_row_def)

end
