(* ===== verification/Dbstore_Preserve.thy ===== *)
theory Dbstore_Preserve
  imports Dbstore_Inv
begin

text \<open>
  The shapes of change an operation makes to the tables, and that each keeps the
  invariant. The operations themselves follow in the next theory.
\<close>

section \<open>A fresh run\<close>

lemma fresh_run:
  assumes "store_inv cd s" and "find_registry s rid = None"
  shows "rid \<notin> rg_run_id ` set (registry s)" "versions_of s rid = {}" "\<not> has_head s rid"
    "\<forall>r \<in> set (checkpoints s). ck_run_id r \<noteq> rid" "\<forall>e \<in> set (events s). rl_run_id e \<noteq> rid"
    "\<forall>g \<in> set (registry s). rg_run_id g \<noteq> rid"
proof -
  show "\<forall>g \<in> set (registry s). rg_run_id g \<noteq> rid" using assms(2) by (simp add: find_registry_None)
  show n: "rid \<notin> rg_run_id ` set (registry s)" using assms(2) by (auto simp: find_registry_None)
  have r: "registry_ok s" and j: "journal_ok s" using assms(1) store_invD by blast+
  show c: "\<forall>r \<in> set (checkpoints s). ck_run_id r \<noteq> rid" using n r by (auto simp: registry_ok_def)
  then show "versions_of s rid = {}" by (auto simp: versions_of_def)
  show "\<not> has_head s rid" using n r by (auto simp: registry_ok_def has_head_def)
  show "\<forall>e \<in> set (events s). rl_run_id e \<noteq> rid"
  proof
    fix e assume "e \<in> set (events s)"
    then obtain g where "g \<in> set (registry s)" "rg_run_id g = rl_run_id e"
      using j by (auto simp: journal_ok_def event_ok_def)
    with n show "rl_run_id e \<noteq> rid" by (metis image_eqI)
  qed
qed

lemma has_headI: "h \<in> set (runs s) \<Longrightarrow> has_head s (rn_run_id h)"
  by (simp add: has_head_def)

lemma event_ok_mono:
  assumes "event_ok s e" and "next_ordinal s \<le> next_ordinal s'"
    and "set (retention s) \<subseteq> set (retention s')" and "set (registry s) \<subseteq> set (registry s')"
  shows "event_ok s' e"
  using assms unfolding event_ok_def by (meson order_less_le_trans subsetD)

lemma versions_of_keys: "versions_of s rid = {v. (rid, v) \<in> ckpt_key ` set (checkpoints s)}"
  by (auto simp: versions_of_def ckpt_key_def image_iff)

lemma ck_run_ids_keys: "ck_run_id ` set (checkpoints s) = fst ` ckpt_key ` set (checkpoints s)"
  by (simp add: image_image ckpt_key_def)

lemma inv_add_journal_domain:
  assumes "store_inv cd s" and "find_registry s rid = None"
    and g: "rg_run_id g = rid" "rg_kind g = runKindJournal" "rg_state g = runStateActive" "rg_compacted g = 0"
  shows "store_inv cd (s\<lparr>registry := registry s @ [g]\<rparr>)"
proof (rule store_invI)
  note f = fresh_run [OF assms(1,2)]
  note i = store_invD [OF assms(1)]
  let ?s = "s\<lparr>registry := registry s @ [g]\<rparr>"
  have v: "versions_of ?s = versions_of s" and hh: "has_head ?s = has_head s"
    by (auto simp: versions_of_def has_head_def fun_eq_iff)
  show "keys_ok ?s" using i(1) f(1) g(1) by (auto simp: keys_ok_def)
  show "journal_ok ?s" using i(2) event_ok_mono [of s _ ?s] by (auto simp: journal_ok_def)
  show "registry_ok ?s" using i(3) f g by (auto simp: registry_ok_def registry_row_ok_def v hh)
  show "history_ok cd ?s" using i(4) by (simp add: history_ok_def head_ok_def v)
qed

lemma versions_of_append:
  "versions_of (s\<lparr>checkpoints := checkpoints s @ [k]\<rparr>) rid =
    (if ck_run_id k = rid then insert (ck_version k) (versions_of s rid) else versions_of s rid)"
  by (auto simp: versions_of_def)

lemma inv_create:
  assumes inv: "store_inv cd s" and cd: "codec_ok cd" and fresh: "find_registry s (cp_run_id c) = None"
    and g: "rg_run_id g = cp_run_id c" "rg_kind g = runKindWorkflow" "rg_state g = runStateActive" "rg_compacted g = 0"
    and enc: "encodeCheckpointMetadata cd c = Inr j" and v1: "cp_version c = 1"
    and k: "k = \<lparr>ck_run_id = cp_run_id c, ck_version = cp_version c, ck_record_json = j, ck_payload = cp_payload c\<rparr>"
  shows "store_inv cd (s\<lparr>registry := registry s @ [g], checkpoints := checkpoints s @ [k],
    runs := runs s @ [runHead c]\<rparr>)"
proof (rule store_invI)
  note f = fresh_run [OF inv fresh]
  note i = store_invD [OF inv]
  let ?s = "s\<lparr>registry := registry s @ [g], checkpoints := checkpoints s @ [k], runs := runs s @ [runHead c]\<rparr>"
  have kk: "ck_run_id k = cp_run_id c" "ck_version k = 1" using v1 by (simp_all add: k)
  obtain d where d: "decode_row cd k = Inr (c\<lparr>cp_lease_duration := d\<rparr>)"
    unfolding k using decode_row_encoded [OF cd enc] by metis
  have hd: "runHead (c\<lparr>cp_lease_duration := d\<rparr>) = runHead c" by (simp add: runHead_def)
  have v: "versions_of ?s rid = (if rid = cp_run_id c then {1} else versions_of s rid)" for rid
  proof -
    have "versions_of ?s rid = versions_of (s\<lparr>checkpoints := checkpoints s @ [k]\<rparr>) rid"
      by (simp add: versions_of_def)
    then show ?thesis using f(2) v1 by (auto simp: versions_of_append kk)
  qed
  have hh: "has_head ?s rid \<longleftrightarrow> rid = cp_run_id c \<or> has_head s rid" for rid
    by (auto simp: has_head_def)
  show "keys_ok ?s" using i(1) f g
    by (auto simp: keys_ok_def ckpt_key_def kk has_head_def)
  show "journal_ok ?s" using i(2) event_ok_mono [of s _ ?s] by (auto simp: journal_ok_def)
  show "registry_ok ?s" using i(3) f(2-) g
    by (auto simp: registry_ok_def registry_row_ok_def v hh kk)
  show "history_ok cd ?s"
  proof -
    have "checkpoint_row_ok cd k" using d v1 by (simp add: checkpoint_row_ok_def kk)
    moreover have "head_ok cd ?s (runHead c)"
      using f(4) d hd v1 by (auto simp: head_ok_def v kk)
    moreover have "head_ok cd ?s h" if "h \<in> set (runs s)" for h
    proof -
      have "rn_run_id h \<noteq> cp_run_id c" using that f(3) by (metis has_headI)
      with that i(4) show ?thesis by (auto simp: history_ok_def head_ok_def v kk)
    qed
    ultimately show ?thesis using i(4) by (auto simp: history_ok_def)
  qed
qed

section \<open>The next version, a longer lease\<close>

lemma upd_rows_key:
  "(\<And>r. P r \<Longrightarrow> key (f r) = key r) \<Longrightarrow> map key (upd_rows P f t) = map key t"
  by (simp add: upd_rows_def)

lemma set_upd_rows: "set (upd_rows P f t) = (\<lambda>r. if P r then f r else r) ` set t"
  by (simp add: upd_rows_def)

lemma set_del_rows: "set (del_rows P t) = {r \<in> set t. \<not> P r}"
  by (simp add: del_rows_def)

lemma inv_advance:
  assumes inv: "store_inv cd s" and cd: "codec_ok cd"
    and h: "find_head s (cp_run_id c) = Some h" and ver: "cp_version c = rn_version h + 1"
    and enc: "encodeCheckpointMetadata cd c = Inr j"
    and k: "k = \<lparr>ck_run_id = cp_run_id c, ck_version = cp_version c, ck_record_json = j, ck_payload = cp_payload c\<rparr>"
    and P: "P = (\<lambda>row. rn_run_id row = cp_run_id c \<and> rn_version row = rn_version h)"
  shows "store_inv cd (s\<lparr>checkpoints := checkpoints s @ [k], runs := upd_rows P (advance_head c) (runs s)\<rparr>)"
proof (rule store_invI)
  note i = store_invD [OF inv]
  let ?s = "s\<lparr>checkpoints := checkpoints s @ [k], runs := upd_rows P (advance_head c) (runs s)\<rparr>"
  have hm: "h \<in> set (runs s)" "rn_run_id h = cp_run_id c" using h i(1) by (auto simp: find_head_iff)
  have kk: "ck_run_id k = cp_run_id c" "ck_version k = rn_version h + 1" using ver by (simp_all add: k)
  obtain d where d: "decode_row cd k = Inr (c\<lparr>cp_lease_duration := d\<rparr>)"
    unfolding k using decode_row_encoded [OF cd enc] by metis
  have hd: "runHead (c\<lparr>cp_lease_duration := d\<rparr>) = runHead c" by (simp add: runHead_def)
  have ho: "head_ok cd s h" using i(4) hm by (simp add: history_ok_def)
  have vh: "versions_of s (cp_run_id c) = {1..rn_version h}" and h1: "1 \<le> rn_version h"
    using ho hm by (auto simp: head_ok_def)
  have only: "x = h" if "x \<in> set (runs s)" "rn_run_id x = cp_run_id c" for x
    using that hm i(1) heads.unique_row [of "runs s" x h] by (simp add: keys_ok_def)
  have ah: "advance_head c h = runHead c"
    using hm(2) by (cases h) (simp add: advance_head_def runHead_def)
  have Ph: "P x \<longleftrightarrow> x = h" if "x \<in> set (runs s)" for x
    unfolding P using that hm only by blast
  have new: "set (upd_rows P (advance_head c) (runs s)) =
      insert (runHead c) {x \<in> set (runs s). rn_run_id x \<noteq> cp_run_id c}"
  proof -
    have "(\<lambda>x. if P x then advance_head c x else x) ` set (runs s) =
        (\<lambda>x. if x = h then runHead c else x) ` set (runs s)"
      using Ph ah by (intro image_cong) auto
    also have "\<dots> = insert (runHead c) (set (runs s) - {h})" using hm(1) by auto
    also have "set (runs s) - {h} = {x \<in> set (runs s). rn_run_id x \<noteq> cp_run_id c}" using only hm by blast
    finally show ?thesis by (simp add: set_upd_rows)
  qed
  have mp: "map rn_run_id (upd_rows P (advance_head c) (runs s)) = map rn_run_id (runs s)"
    by (rule upd_rows_key) (simp add: advance_head_def)
  have no: "ck_version r \<le> rn_version h" if "r \<in> set (checkpoints s)" "ck_run_id r = cp_run_id c" for r
    using that vh by (auto simp: versions_of_def set_eq_iff)
  have v: "versions_of ?s rid = (if rid = cp_run_id c then {1..rn_version h + 1} else versions_of s rid)" for rid
  proof -
    have "insert (rn_version h + 1) {1..rn_version h} = {1..rn_version h + 1}" using h1 by auto
    moreover have "versions_of ?s rid = versions_of (s\<lparr>checkpoints := checkpoints s @ [k]\<rparr>) rid"
      by (simp add: versions_of_def)
    ultimately show ?thesis using vh by (simp add: versions_of_append kk)
  qed
  show "keys_ok ?s"
  proof -
    have "ckpt_key k \<notin> ckpt_key ` set (checkpoints s)"
      using no ver by (fastforce simp: ckpt_key_def kk)
    with i(1) mp show ?thesis by (simp add: keys_ok_def)
  qed
  show "journal_ok ?s" using i(2) by (simp add: journal_ok_def event_ok_def)
  have sub: "cp_run_id c \<in> ck_run_id ` set (checkpoints s)"
  proof -
    have "1 \<in> versions_of s (cp_run_id c)" using vh h1 by simp
    then show ?thesis unfolding versions_of_def by (force intro: rev_image_eqI)
  qed
  show "registry_ok ?s"
    using i(3) mp sub by (subst registry_ok_cong [of _ s]) (auto simp: kk)
  show "history_ok cd ?s"
  proof -
    have "checkpoint_row_ok cd k" using d ver h1 by (simp add: checkpoint_row_ok_def kk)
    moreover have "head_ok cd ?s (runHead c)"
      using d hd ver h1 by (auto simp: head_ok_def v kk dest: no)
    moreover have "head_ok cd ?s x" if "x \<in> set (runs s)" "rn_run_id x \<noteq> cp_run_id c" for x
      using that i(4) by (auto simp: history_ok_def head_ok_def v kk)
    ultimately show ?thesis using i(4) by (auto simp: history_ok_def new)
  qed
qed

lemma inv_rewrite_row:
  assumes inv: "store_inv cd s" and row: "row \<in> set (checkpoints s)"
    and c0: "decode_row cd row = Inr c0" and c1: "decodeCheckpoint cd j (ck_payload row) = Inr c1"
    and same: "runHead c1 = runHead c0"
    and P: "P = (\<lambda>r. ck_run_id r = ck_run_id row \<and> ck_version r = ck_version row)"
  shows "store_inv cd (s\<lparr>checkpoints := upd_rows P (\<lambda>r. r\<lparr>ck_record_json := j\<rparr>) (checkpoints s)\<rparr>)"
proof (rule store_invI)
  note i = store_invD [OF inv]
  let ?f = "\<lambda>r. r\<lparr>ck_record_json := j\<rparr>"
  let ?s = "s\<lparr>checkpoints := upd_rows P ?f (checkpoints s)\<rparr>"
  have mk: "map ckpt_key (upd_rows P ?f (checkpoints s)) = map ckpt_key (checkpoints s)"
    by (rule upd_rows_key) (simp add: ckpt_key_def)
  have v: "versions_of ?s rid = versions_of s rid" for rid
    using mk by (simp add: versions_of_keys flip: set_map)
  have st: "set (upd_rows P ?f (checkpoints s)) = insert (?f row) {r \<in> set (checkpoints s). \<not> P r}"
  proof -
    have "r = row" if "r \<in> set (checkpoints s)" "P r" for r
      using that row i(1) ckpts.unique_row [of "checkpoints s" r row] by (simp add: keys_ok_def P ckpt_key_def)
    with row show ?thesis by (auto simp: set_upd_rows P image_iff)
  qed
  have d1: "decode_row cd (?f row) = Inr c1" using c1 by (simp add: decode_row_def)
  show "keys_ok ?s" using i(1) mk by (simp add: keys_ok_def)
  show "journal_ok ?s" using i(2) by (simp add: journal_ok_def event_ok_def)
  have "ck_run_id ` set (upd_rows P ?f (checkpoints s)) = ck_run_id ` set (checkpoints s)"
    using arg_cong [OF mk, of "\<lambda>l. fst ` set l"] by (simp add: image_image ckpt_key_def)
  then show "registry_ok ?s" using i(3) by (subst registry_ok_cong [of _ s]) auto
  have "checkpoint_row_ok cd (?f row)"
    using i(4) row c0 d1 same by (auto simp: history_ok_def checkpoint_row_ok_def runHead_def)
  moreover have "head_ok cd ?s h" if "h \<in> set (runs s)" for h
  proof -
    have ho: "head_ok cd s h" using that i(4) by (simp add: history_ok_def)
    then have "runHead c0 = h" if "ck_run_id row = rn_run_id h" "ck_version row = rn_version h"
      using that row c0 by (fastforce simp: head_ok_def)
    with ho d1 same show ?thesis by (auto simp: head_ok_def v st)
  qed
  ultimately show "history_ok cd ?s" using i(4) by (auto simp: history_ok_def st)
qed

section \<open>The journal grows\<close>

lemma keys_ok_cong:
  "map ckpt_key (checkpoints s') = map ckpt_key (checkpoints s) \<Longrightarrow> events s' = events s \<Longrightarrow>
   retention s' = retention s \<Longrightarrow> map rn_run_id (runs s') = map rn_run_id (runs s) \<Longrightarrow>
   map rg_run_id (registry s') = map rg_run_id (registry s) \<Longrightarrow> keys_ok s' = keys_ok s"
  by (simp add: keys_ok_def)

lemma history_ok_cong:
  "checkpoints s' = checkpoints s \<Longrightarrow> runs s' = runs s \<Longrightarrow> history_ok cd s' = history_ok cd s"
proof -
  assume c: "checkpoints s' = checkpoints s" and r: "runs s' = runs s"
  have "versions_of s' rid = versions_of s rid" for rid using c by (rule versions_of_cong)
  then show ?thesis by (simp add: history_ok_def head_ok_def c r)
qed

lemma registry_ok_same:
  "registry s' = registry s \<Longrightarrow> runs s' = runs s \<Longrightarrow> checkpoints s' = checkpoints s \<Longrightarrow>
   registry_ok s' = registry_ok s"
  by (rule registry_ok_cong) simp_all

text \<open>No retention row is ahead of the ordinal counter.\<close>

lemma retention_ordinal_less:
  assumes "journal_ok s" and "t \<in> set (retention s)"
  shows "rt_ordinal t < next_ordinal s"
proof -
  from assms obtain e where "e \<in> set (events s)" "rl_ordinal e = rt_ordinal t"
    unfolding journal_ok_def by blast
  with assms(1) show ?thesis by (auto simp: journal_ok_def event_ok_def)
qed

lemma inv_append_event:
  assumes inv: "store_inv cd s" and fresh: "event_key e \<notin> event_key ` set (events s)"
    and ord: "rl_ordinal e = next_ordinal s" and pos: "0 < rl_sequence e"
    and t: "rt_ordinal t = rl_ordinal e" "rt_run_id t = rl_run_id e"
    and g: "g \<in> set (registry s)" "rg_run_id g = rl_run_id e" "rg_state g \<noteq> runStatePurged"
      "rg_compacted g < rl_sequence e"
  shows "store_inv cd (s\<lparr>events := events s @ [e], next_ordinal := next_ordinal s + 1,
    retention := retention s @ [t]\<rparr>)"
proof (rule store_invI)
  note i = store_invD [OF inv]
  let ?s = "s\<lparr>events := events s @ [e], next_ordinal := next_ordinal s + 1, retention := retention s @ [t]\<rparr>"
  have lt: "rl_ordinal x < next_ordinal s" if "x \<in> set (events s)" for x
    using that i(2) by (simp add: journal_ok_def event_ok_def)
  have rt: "rt_ordinal x < next_ordinal s" if "x \<in> set (retention s)" for x
    using that i(2) retention_ordinal_less by blast
  show "keys_ok ?s"
    using i(1) fresh lt rt ord t by (fastforce simp: keys_ok_def)
  have "event_ok ?s x" if "x \<in> set (events s)" for x
    using that i(2) event_ok_mono [of s x ?s] by (auto simp: journal_ok_def)
  moreover have "event_ok ?s e" using ord pos t g by (auto simp: event_ok_def)
  ultimately show "journal_ok ?s" using i(2) t by (fastforce simp: journal_ok_def)
  show "registry_ok ?s" using i(3) by (subst registry_ok_same [of _ s]) simp_all
  show "history_ok cd ?s" using i(4) by (subst history_ok_cong [of _ s]) simp_all
qed

section \<open>Journal and checkpoint rows go\<close>

text \<open>Events and their retention rows are deleted together.\<close>

lemma inv_delete_events:
  assumes inv: "store_inv cd s"
    and PR: "\<And>e t. e \<in> set (events s) \<Longrightarrow> t \<in> set (retention s) \<Longrightarrow> rl_ordinal e = rt_ordinal t \<Longrightarrow>
      rl_run_id e = rt_run_id t \<Longrightarrow> P e = R t"
  shows "store_inv cd (s\<lparr>retention := del_rows R (retention s), events := del_rows P (events s)\<rparr>)"
proof (rule store_invI)
  note i = store_invD [OF inv]
  let ?s = "s\<lparr>retention := del_rows R (retention s), events := del_rows P (events s)\<rparr>"
  show "keys_ok ?s" using i(1) by (simp add: keys_ok_def del_rows_def distinct_map_filterI)
  have "event_ok ?s e" if "e \<in> set (events s)" "\<not> P e" for e
  proof -
    from that i(2) obtain t where t: "t \<in> set (retention s)" "rt_ordinal t = rl_ordinal e"
      "rt_run_id t = rl_run_id e" and eo: "event_ok s e" by (auto simp: journal_ok_def event_ok_def)
    with that PR [of e t] have "t \<in> set (retention ?s)" by (simp add: set_del_rows)
    with t eo show ?thesis by (auto simp: event_ok_def)
  qed
  moreover have "\<exists>e \<in> set (events ?s). rl_ordinal e = rt_ordinal t \<and> rl_run_id e = rt_run_id t"
    if "t \<in> set (retention s)" "\<not> R t" for t
  proof -
    from that i(2) obtain e where e: "e \<in> set (events s)" "rl_ordinal e = rt_ordinal t"
      "rl_run_id e = rt_run_id t" unfolding journal_ok_def by blast
    with that PR [of e t] have "e \<in> set (events ?s)" by (simp add: set_del_rows)
    with e show ?thesis by blast
  qed
  ultimately show "journal_ok ?s" by (simp add: journal_ok_def set_del_rows)
  show "registry_ok ?s" using i(3) by (subst registry_ok_same [of _ s]) simp_all
  show "history_ok cd ?s" using i(4) by (subst history_ok_cong [of _ s]) simp_all
qed

lemma inv_delete_checkpoints:
  assumes inv: "store_inv cd s" and P: "\<And>r. r \<in> set (checkpoints s) \<Longrightarrow> P r \<Longrightarrow> ck_run_id r = rid"
    and noh: "\<not> has_head s rid"
  shows "store_inv cd (s\<lparr>checkpoints := del_rows P (checkpoints s)\<rparr>)"
proof (rule store_invI)
  note i = store_invD [OF inv]
  let ?s = "s\<lparr>checkpoints := del_rows P (checkpoints s)\<rparr>"
  have sub: "versions_of ?s x \<subseteq> versions_of s x" for x by (auto simp: versions_of_def set_del_rows)
  have same: "versions_of ?s x = versions_of s x" if "x \<noteq> rid" for x
    using that P by (auto simp: versions_of_def set_del_rows)
  show "keys_ok ?s" using i(1) by (simp add: keys_ok_def del_rows_def distinct_map_filterI)
  show "journal_ok ?s" using i(2) by (simp add: journal_ok_def event_ok_def)
  have hh: "has_head ?s = has_head s" by (simp add: has_head_def fun_eq_iff)
  have "registry_row_ok ?s g" if "registry_row_ok s g" for g
    using that sub [of "rg_run_id g"] by (auto simp: registry_row_ok_def hh)
  then show "registry_ok ?s"
    using i(3) by (auto simp: registry_ok_def set_del_rows)
  have "head_ok cd ?s h" if "h \<in> set (runs s)" for h
  proof -
    have "rn_run_id h \<noteq> rid" using that noh by (metis has_headI)
    with that i(4) show ?thesis by (simp add: history_ok_def head_ok_def same set_del_rows)
  qed
  then show "history_ok cd ?s" using i(4) by (simp add: history_ok_def set_del_rows)
qed

section \<open>The registry row changes\<close>

lemma inv_update_registry:
  assumes inv: "store_inv cd s" and key: "\<And>g. rg_run_id (f g) = rg_run_id g"
    and row: "\<And>g. g \<in> set (registry s) \<Longrightarrow> P g \<Longrightarrow> registry_row_ok s (f g)"
    and ev: "\<And>g e. g \<in> set (registry s) \<Longrightarrow> P g \<Longrightarrow> e \<in> set (events s) \<Longrightarrow> rl_run_id e = rg_run_id g \<Longrightarrow>
      rg_state (f g) \<noteq> runStatePurged \<and> rg_compacted (f g) < rl_sequence e"
  shows "store_inv cd (s\<lparr>registry := upd_rows P f (registry s)\<rparr>)"
proof (rule store_invI)
  note i = store_invD [OF inv]
  let ?s = "s\<lparr>registry := upd_rows P f (registry s)\<rparr>"
  have mk: "map rg_run_id (upd_rows P f (registry s)) = map rg_run_id (registry s)"
    by (rule upd_rows_key) (simp add: key)
  have ids: "rg_run_id ` set (upd_rows P f (registry s)) = rg_run_id ` set (registry s)"
    using arg_cong [OF mk, of set] by simp
  show "keys_ok ?s" using i(1) mk by (subst keys_ok_cong [of _ s]) simp_all
  have "event_ok ?s e" if e: "e \<in> set (events s)" for e
  proof -
    from e i(2) obtain g where g: "g \<in> set (registry s)" "rg_run_id g = rl_run_id e"
      "rg_state g \<noteq> runStatePurged" "rg_compacted g < rl_sequence e" and eo: "event_ok s e"
      by (auto simp: journal_ok_def event_ok_def)
    let ?g = "if P g then f g else g"
    have "?g \<in> set (registry ?s)" using g(1) by (simp add: set_upd_rows)
    moreover have "rg_run_id ?g = rl_run_id e \<and> rg_state ?g \<noteq> runStatePurged \<and> rg_compacted ?g < rl_sequence e"
      using g e ev [of g e] by (simp add: key)
    ultimately have "\<exists>g \<in> set (registry ?s). rg_run_id g = rl_run_id e \<and>
      rg_state g \<noteq> runStatePurged \<and> rg_compacted g < rl_sequence e" by blast
    with eo show ?thesis by (simp add: event_ok_def)
  qed
  then show "journal_ok ?s" using i(2) by (simp add: journal_ok_def)
  have hh: "has_head ?s = has_head s" and vv: "versions_of ?s = versions_of s"
    by (simp_all add: has_head_def versions_of_def fun_eq_iff)
  have rr: "registry_row_ok ?s g = registry_row_ok s g" for g by (simp add: registry_row_ok_def hh vv)
  show "registry_ok ?s" using i(3) row ids by (auto simp: registry_ok_def rr set_upd_rows)
  show "history_ok cd ?s" using i(4) by (subst history_ok_cong [of _ s]) simp_all
qed

lemma inv_retire:
  assumes inv: "store_inv cd s" and g: "find_registry s rid = Some g"
    and f: "\<And>x. rg_run_id (f x) = rg_run_id x" "\<And>x. rg_kind (f x) = rg_kind x"
      "\<And>x. rg_state (f x) = runStatePurging" "\<And>x. rg_compacted (f x) = rg_compacted x"
    and h: "find_head s rid = Some h"
    and P: "P = (\<lambda>x. rg_run_id x = rid \<and> rg_state x = runStateActive)"
    and Q: "Q = (\<lambda>x. rn_run_id x = rid \<and> rn_version x = rn_version h)"
  shows "store_inv cd (s\<lparr>registry := upd_rows P f (registry s), runs := del_rows Q (runs s)\<rparr>)"
proof (rule store_invI)
  note i = store_invD [OF inv]
  let ?s = "s\<lparr>registry := upd_rows P f (registry s), runs := del_rows Q (runs s)\<rparr>"
  have hm: "h \<in> set (runs s)" "rn_run_id h = rid" using h i(1) by (auto simp: find_head_iff)
  have only: "x = h" if "x \<in> set (runs s)" "rn_run_id x = rid" for x
    using that hm i(1) heads.unique_row [of "runs s" x h] by (simp add: keys_ok_def)
  have Qh: "Q x \<longleftrightarrow> rn_run_id x = rid" if "x \<in> set (runs s)" for x
    using that only unfolding Q by blast
  have hs: "set (del_rows Q (runs s)) = {x \<in> set (runs s). rn_run_id x \<noteq> rid}"
    using Qh by (auto simp: set_del_rows)
  have hh: "has_head ?s x \<longleftrightarrow> x \<noteq> rid \<and> has_head s x" for x
    by (auto simp: has_head_def hs)
  have vv: "versions_of ?s = versions_of s" by (simp add: versions_of_def fun_eq_iff)
  have mk: "map rg_run_id (upd_rows P f (registry s)) = map rg_run_id (registry s)"
    by (rule upd_rows_key) (simp add: f)
  have ids: "rg_run_id ` set (upd_rows P f (registry s)) = rg_run_id ` set (registry s)"
    using arg_cong [OF mk, of set] by simp
  show "keys_ok ?s" using i(1) mk by (simp add: keys_ok_def del_rows_def distinct_map_filterI)
  have "event_ok ?s e" if e: "e \<in> set (events s)" for e
  proof -
    from e i(2) obtain x where x: "x \<in> set (registry s)" "rg_run_id x = rl_run_id e"
      "rg_state x \<noteq> runStatePurged" "rg_compacted x < rl_sequence e" and eo: "event_ok s e"
      by (auto simp: journal_ok_def event_ok_def)
    have "(if P x then f x else x) \<in> set (registry ?s)" using x(1) by (simp add: set_upd_rows)
    then have "\<exists>g \<in> set (registry ?s). rg_run_id g = rl_run_id e \<and>
      rg_state g \<noteq> runStatePurged \<and> rg_compacted g < rl_sequence e"
      using x f by (metis run_state.distinct(6))
    with eo show ?thesis by (simp add: event_ok_def)
  qed
  then show "journal_ok ?s" using i(2) by (simp add: journal_ok_def)
  have rr: "registry_row_ok ?s (if P x then f x else x)" if "x \<in> set (registry s)" for x
  proof -
    have ro: "registry_row_ok s x" using that i(3) by (simp add: registry_ok_def)
    show ?thesis
    proof (cases "rg_run_id x = rid")
      case True
      have "has_head s rid" using hm has_headI by blast
      with ro True have "rg_kind x = runKindWorkflow" "rg_state x = runStateActive"
        by (auto simp: registry_row_ok_def)
      with True have "P x" by (simp add: P)
      with ro True \<open>rg_kind x = runKindWorkflow\<close> show ?thesis
        by (simp add: registry_row_ok_def hh vv f)
    next
      case False
      then have "\<not> P x" by (simp add: P)
      with ro False show ?thesis by (simp add: registry_row_ok_def hh vv)
    qed
  qed
  have "\<forall>x \<in> set (registry ?s). registry_row_ok ?s x"
  proof
    fix x assume "x \<in> set (registry ?s)"
    then obtain y where y: "y \<in> set (registry s)" and x: "x = (if P y then f y else y)"
      by (auto simp: upd_rows_def image_iff simp del: if_image_distrib split del: if_split)
    show "registry_row_ok ?s x" unfolding x using y by (rule rr)
  qed
  moreover have "rn_run_id ` set (runs ?s) \<subseteq> rn_run_id ` set (runs s)" by (auto simp: hs)
  ultimately show "registry_ok ?s" using i(3) ids
    unfolding registry_ok_def by (simp, meson order_trans)
  show "history_ok cd ?s" using i(4) by (auto simp: history_ok_def head_ok_def vv hs)
qed

lemma inv_drop_journal:
  assumes inv: "store_inv cd s" and P: "\<And>g. P g \<Longrightarrow> rg_run_id g = rid \<and> rg_kind g = runKindJournal"
    and ev: "\<forall>e \<in> set (events s). rl_run_id e \<noteq> rid"
  shows "store_inv cd (s\<lparr>registry := del_rows P (registry s)\<rparr>)"
proof (rule store_invI)
  note i = store_invD [OF inv]
  let ?s = "s\<lparr>registry := del_rows P (registry s)\<rparr>"
  have hh: "has_head ?s = has_head s" and vv: "versions_of ?s = versions_of s"
    by (simp_all add: has_head_def versions_of_def fun_eq_iff)
  have rr: "registry_row_ok ?s g = registry_row_ok s g" for g by (simp add: registry_row_ok_def hh vv)
  show "keys_ok ?s" using i(1) by (simp add: keys_ok_def del_rows_def distinct_map_filterI)
  have "event_ok ?s e" if e: "e \<in> set (events s)" for e
  proof -
    from e i(2) obtain x where x: "x \<in> set (registry s)" "rg_run_id x = rl_run_id e"
      "rg_state x \<noteq> runStatePurged" "rg_compacted x < rl_sequence e" and eo: "event_ok s e"
      by (auto simp: journal_ok_def event_ok_def)
    have "x \<in> set (registry ?s)" using x ev e P by (auto simp: set_del_rows)
    with x eo show ?thesis by (auto simp: event_ok_def)
  qed
  then show "journal_ok ?s" using i(2) by (simp add: journal_ok_def)
  have keep: "x \<in> rg_run_id ` set (registry ?s)"
    if "x \<in> rg_run_id ` set (registry s)" "has_head s x \<or> versions_of s x \<noteq> {}" for x
  proof -
    from that(1) obtain g where g: "g \<in> set (registry s)" "rg_run_id g = x" by auto
    with that(2) i(3) have "rg_kind g = runKindWorkflow"
      by (cases "rg_kind g") (auto simp: registry_ok_def registry_row_ok_def)
    with g P have "g \<in> set (registry ?s)" by (auto simp: set_del_rows)
    with g show ?thesis by blast
  qed
  have "rn_run_id ` set (runs s) \<subseteq> rg_run_id ` set (registry ?s)"
  proof
    fix x assume x: "x \<in> rn_run_id ` set (runs s)"
    then have "has_head s x" by (simp add: has_head_def)
    with x i(3) show "x \<in> rg_run_id ` set (registry ?s)" by (intro keep) (auto simp: registry_ok_def)
  qed
  moreover have "ck_run_id ` set (checkpoints s) \<subseteq> rg_run_id ` set (registry ?s)"
  proof
    fix x assume x: "x \<in> ck_run_id ` set (checkpoints s)"
    then have "versions_of s x \<noteq> {}" by (auto simp: versions_of_def)
    with x i(3) show "x \<in> rg_run_id ` set (registry ?s)" by (intro keep) (auto simp: registry_ok_def)
  qed
  ultimately show "registry_ok ?s" using i(3) by (simp add: registry_ok_def rr set_del_rows)
  show "history_ok cd ?s" using i(4) by (subst history_ok_cong [of _ s]) simp_all
qed

end
