(* ===== verification/Dbstore_Safety.thy ===== *)
theory Dbstore_Safety
  imports Dbstore_Preserve
begin

text \<open>
  What the transaction bodies of the journal and checkpoint operations have checked and
  changed when they succeed on a database that has the invariant.
\<close>

section \<open>Bodies that succeed\<close>

lemma ensureRunRegistry_cases:
  assumes inv: "store_inv cd s" and ok: "ensureRunRegistry en rid kind s = Inr (reg, s1)"
  obtains (found) "find_registry s rid = Some reg" "s1 = s" "rg_state reg = runStateActive"
      "rg_kind reg = kind \<or> (kind = runKindJournal \<and> rg_kind reg = runKindWorkflow)"
    | (fresh) "find_registry s rid = None" "s1 = s\<lparr>registry := registry s @ [reg]\<rparr>"
      "rg_run_id reg = rid" "rg_kind reg = kind" "rg_state reg = runStateActive" "rg_compacted reg = 0"
proof -
  have k: "keys_ok s" using inv store_invD by blast
  let ?row = "\<lparr>rg_run_id = rid, rg_kind = kind, rg_state = runStateActive,
    rg_updated_at = unix_nano (en_now_utc en), rg_compacted = 0\<rparr>"
  let ?s = "s\<lparr>registry := ins_ignore rg_run_id ?row (registry s)\<rparr>"
  have dk: "distinct (map rg_run_id (registry s))" using k by (simp add: keys_ok_def)
  have "distinct (map rg_run_id (ins_ignore rg_run_id ?row (registry s)))"
    using dk by (rule regs.insert_ignore_unique)
  then have "lockRunRegistry en ?s rid = find_registry ?s rid" by (simp add: lockRunRegistry_eq)
  moreover have "find_registry ?s rid = (if find_registry s rid = None then Some ?row else find_registry s rid)"
    using dk by (simp add: find_registry_def regs.lookup_insert_ignore)
  ultimately have l: "lockRunRegistry en ?s rid =
      (if find_registry s rid = None then Some ?row else find_registry s rid)" by simp
  show thesis
  proof (cases "find_registry s rid")
    case None
    then have "rid \<notin> rg_run_id ` set (registry s)" by (auto simp: find_registry_None)
    then have "?s = s\<lparr>registry := registry s @ [?row]\<rparr>" by (simp add: ins_ignore_def)
    with None ok l show thesis by (intro fresh) (auto simp: ensureRunRegistry_def Let_def split: if_splits)
  next
    case (Some g)
    then have "rid \<in> rg_run_id ` set (registry s)" using k by (force simp: find_registry_iff)
    then have "?s = s" by (simp add: ins_ignore_def)
    with Some ok l show thesis by (intro found) (auto simp: ensureRunRegistry_def Let_def split: if_splits)
  qed
qed

lemma has_row_registry:
  assumes "keys_ok s" and "find_registry s rid = Some g"
  shows "has_row (\<lambda>r. rg_run_id r = rid \<and> Q r) (registry s) \<longleftrightarrow> Q g"
proof -
  have "g \<in> set (registry s)" "rg_run_id g = rid" using assms by (auto simp: find_registry_iff)
  moreover have "r = g" if "r \<in> set (registry s)" "rg_run_id r = rid" for r
    using that assms by (metis find_registry_iff option.inject)
  ultimately show ?thesis unfolding has_row_def by blast
qed

lemma appendRunLog_cases:
  assumes inv: "store_inv cd s" and g: "find_registry s (ev_run_id r) = Some g"
    and act: "rg_state g = runStateActive" and low: "rg_compacted g < ev_sequence r"
    and ok: "appendRunLog en r j s = Inr (u, s')"
  obtains (same) e where "find_event s (ev_run_id r) (ev_sequence r) = Some e" "rl_record_json e = j" "s' = s"
    | (new) e t where "find_event s (ev_run_id r) (ev_sequence r) = None"
      "e = \<lparr>rl_ordinal = next_ordinal s, rl_session_id = ev_session_id r, rl_run_id = ev_run_id r,
            rl_sequence = ev_sequence r, rl_record_json = j\<rparr>"
      "rt_ordinal t = next_ordinal s" "rt_run_id t = ev_run_id r"
      "s' = s\<lparr>events := events s @ [e], next_ordinal := next_ordinal s + 1, retention := retention s @ [t]\<rparr>"
proof -
  note i = store_invD [OF inv]
  let ?rid = "ev_run_id r" and ?sq = "ev_sequence r"
  let ?e = "\<lparr>rl_ordinal = next_ordinal s, rl_session_id = ev_session_id r, rl_run_id = ?rid,
            rl_sequence = ?sq, rl_record_json = j\<rparr>"
  have guard: "event_insert_guard en ?rid ?sq s = Inr ()"
    using has_row_registry [OF i(1) g] act low by (simp add: event_insert_guard_def)
  have gm: "g \<in> set (registry s)" "rg_run_id g = ?rid" using g i(1) by (auto simp: find_registry_iff)
  show thesis
  proof (cases "find_event s ?rid ?sq")
    case (Some e)
    then have e: "e \<in> set (events s)" "rl_run_id e = ?rid" "rl_sequence e = ?sq"
      using i(1) by (auto simp: find_event_iff)
    then have "event_key ?e \<in> event_key ` set (events s)" by (force simp: event_key_def)
    then have ins: "insert_event en (ev_session_id r) ?rid ?sq j s = Inr s"
      by (simp add: insert_event_def guard Let_def)
    from e i(2) have "rl_ordinal e \<in> rt_ordinal ` set (retention s)"
      by (auto simp: journal_ok_def event_ok_def) (metis imageI)
    with Some ok ins show thesis
      by (intro same) (auto simp: appendRunLog_def rbind_Inr_iff ins_ignore_def split: if_splits)
  next
    case None
    then have fk: "event_key ?e \<notin> event_key ` set (events s)"
      using evs.lookup_none [of "(?rid, ?sq)" "events s"] by (auto simp: find_event_def event_key_def)
    let ?s0 = "s\<lparr>events := events s @ [?e], next_ordinal := next_ordinal s + 1\<rparr>"
    let ?s1 = "event_insert_after en (next_ordinal s) ?rid ?s0"
    have ins: "insert_event en (ev_session_id r) ?rid ?sq j s = Inr ?s1"
      using fk by (simp add: insert_event_def guard Let_def)
    have ev1: "events ?s1 = events s @ [?e]" by (simp add: event_insert_after_def)
    have fe: "find_event ?s1 ?rid ?sq = Some ?e"
    proof -
      have "distinct (map event_key (events s @ [?e]))" using fk i(1) by (simp add: keys_ok_def)
      then show ?thesis by (simp add: find_event_def ev1 evs.lookup_iff) (simp add: event_key_def)
    qed
    have nr: "next_ordinal s \<notin> rt_ordinal ` set (retention s)"
      using retention_ordinal_less [OF i(2)] by force
    have rg: "?rid \<in> rg_run_id ` set (registry s)" using gm by force
    show thesis
    proof (cases "en_dialect en = Sqlite")
      case True
      let ?t = "\<lparr>rt_ordinal = next_ordinal s, rt_run_id = ?rid, rt_appended_at = trigger_nano en\<rparr>"
      have s1: "?s1 = s\<lparr>events := events s @ [?e], next_ordinal := next_ordinal s + 1, retention := retention s @ [?t]\<rparr>"
        using True nr rg by (simp add: event_insert_after_def ins_ignore_def)
      then have "s' = ?s1"
        using ok ins fe by (auto simp: appendRunLog_def rbind_Inr_iff ins_ignore_def)
      with None s1 show thesis by (intro new [of ?e ?t]) simp_all
    next
      case False
      then have s1: "?s1 = ?s0" by (simp add: event_insert_after_def)
      from ok ins fe obtain now where
        "s' = ?s1\<lparr>retention := ins_ignore rt_ordinal \<lparr>rt_ordinal = next_ordinal s, rt_run_id = ?rid,
           rt_appended_at = unix_nano now\<rparr> (retention ?s1)\<rparr>"
        by (auto simp: appendRunLog_def rbind_Inr_iff)
      with s1 nr have "s' = s\<lparr>events := events s @ [?e], next_ordinal := next_ordinal s + 1,
          retention := retention s @ [\<lparr>rt_ordinal = next_ordinal s, rt_run_id = ?rid, rt_appended_at = unix_nano now\<rparr>]\<rparr>"
        by (simp add: ins_ignore_def)
      with None show thesis by (intro new) simp_all
    qed
  qed
qed

section \<open>Leases and the locked head\<close>

text \<open>The lease computations change nothing but the expiry.\<close>

lemma create_lease_frame: "create_lease en c0 = Inr c \<Longrightarrow> \<exists>t. c = c0\<lparr>cp_lease_expires_at := t\<rparr>"
  by (cases "databaseNow en")
    (auto simp: create_lease_def split: if_split_asm sum.split_asm intro: exI [of _ "cp_lease_expires_at c0"])

lemma claim_lease_frame:
  "claim_lease now c0 = Inr c \<Longrightarrow> \<exists>t > now. c = c0\<lparr>cp_lease_expires_at := t\<rparr>"
  by (auto simp: claim_lease_def split: if_split_asm sum.split_asm)

lemma prepare_frame:
  "prepareCheckpointWriteLease en current c0 = Inr c \<Longrightarrow> \<exists>t. c = c0\<lparr>cp_lease_expires_at := t\<rparr>"
  by (cases "databaseNow en") (auto simp: prepareCheckpointWriteLease_def Let_def
      split: if_split_asm sum.split_asm intro: exI [of _ "cp_lease_expires_at c0"])

text \<open>What a transaction knows once it holds the run head and has loaded the checkpoint.\<close>

lemma locked_head:
  assumes "store_inv cd s" and "lockRunHead en s rid" and "loadCheckpoint cd s rid = Inr c"
  obtains h where "find_head s rid = Some h" "runHead c = h" "cp_version c = rn_version h"
    "cp_run_id c = rid"
proof -
  from assms(1,2) obtain h where h: "find_head s rid = Some h"
    using lockRunHead_find store_invD(1) by blast
  then show ?thesis
    using head_latest [OF assms(1) h] assms(3) that store_invD(1) [OF assms(1)]
    by (metis find_head_iff runHead_simps(1,4) sum.inject(2))
qed

section \<open>The fence\<close>

lemma append_fenced_tx_cases:
  assumes inv: "store_inv cd s" and ok: "append_fenced_tx en cd r f j s = Inr (u, s')"
  obtains reg current where "find_registry s (ev_run_id r) = Some reg" "rg_state reg = runStateActive"
    "rg_kind reg = runKindWorkflow" "rg_compacted reg < ev_sequence r"
    "lockRunHead en s (ev_run_id r)" "loadCheckpoint cd s (ev_run_id r) = Inr current" "0 < en_db_micro en"
    "cp_status current = CheckpointRunning" "cp_owner_id current = fn_owner_id f"
    "cp_claim_sequence current = fn_claim_sequence f"
    "unix_micro (en_db_micro en) < cp_lease_expires_at current" "appendRunLog en r j s = Inr (u, s')"
proof -
  from ok obtain reg s1 current where e: "ensureRunRegistry en (ev_run_id r) runKindWorkflow s = Inr (reg, s1)"
    and p: "rg_compacted reg < ev_sequence r" "lockRunHead en s1 (ev_run_id r)"
      "loadCheckpoint cd s1 (ev_run_id r) = Inr current" "0 < en_db_micro en"
      "cp_status current = CheckpointRunning" "cp_owner_id current = fn_owner_id f"
      "cp_claim_sequence current = fn_claim_sequence f"
      "unix_micro (en_db_micro en) < cp_lease_expires_at current" "appendRunLog en r j s1 = Inr (u, s')"
    by (auto simp: append_fenced_tx_def rbind_Inr_iff databaseNow_Inr_iff split: if_split_asm sum.split_asm)
  from inv e show ?thesis
  proof (cases rule: ensureRunRegistry_cases)
    case found
    with p that show ?thesis by auto
  next
    case fresh
    then have "\<not> has_head s (ev_run_id r)" using fresh_run [OF inv] by blast
    moreover have "lockRunHead en s1 (ev_run_id r) = lockRunHead en s (ev_run_id r)"
      using fresh by (simp add: lockRunHead_def find_head_def)
    ultimately show ?thesis
      using p(2) store_invD(1) [OF inv] by (simp add: lockRunHead_find find_head_None)
  qed
qed

end
