(* ===== verification/Budget.thy ===== *)
theory Budget
  imports Dbstore_Retention "HOL-Library.Multiset"
begin

text \<open>
  The three loops of \<open>retention.go\<close> that select rows for deletion walk an ordered list of
  candidates and add up their sizes. What they have in common is the locale
  \<open>budgeted_prefix\<close>: a selection is a prefix of the candidates whose sizes fit the limit.
  The two loops that stop for no other reason are also greedy.
\<close>

section \<open>Prefixes within a budget\<close>

locale budgeted_prefix =
  fixes size :: "'c \<Rightarrow> int"
    and pick :: "'st \<Rightarrow> int \<Rightarrow> int \<Rightarrow> 'c list \<Rightarrow> 'c list"
    and next_st :: "'st \<Rightarrow> 'st"
  assumes pick_Nil: "pick st lim b [] = []"
    and pick_Cons: "pick st lim b (c # cs) = [] \<or> b + size c \<le> lim \<and>
      (pick st lim b (c # cs) = [c] \<or>
       pick st lim b (c # cs) = c # pick (next_st st) lim (b + size c) cs)"
begin

lemma pick_prefix: "\<exists>n. pick st lim b cs = take n cs"
proof (induction cs arbitrary: st b)
  case Nil
  show ?case by (simp add: pick_Nil)
next
  case (Cons c cs)
  then obtain n where "pick (next_st st) lim (b + size c) cs = take n cs" by blast
  with pick_Cons [of st lim b c cs] show ?case
    by (metis take0 take_Suc_Cons)
qed

lemma pick_take: "pick st lim b cs = take (length (pick st lim b cs)) cs"
  by (metis append_eq_conv_conj append_take_drop_id pick_prefix)

lemma pick_subset: "set (pick st lim b cs) \<subseteq> set cs"
  by (metis pick_prefix set_take_subset)

lemma pick_budget:
  "pick st lim b cs \<noteq> [] \<Longrightarrow> b + sum_list (map size (pick st lim b cs)) \<le> lim"
proof (induction cs arbitrary: st b)
  case Nil
  then show ?case by (simp add: pick_Nil)
next
  case (Cons c cs)
  with pick_Cons [of st lim b c cs] have fits: "b + size c \<le> lim"
    and "pick st lim b (c # cs) = [c] \<or> pick st lim b (c # cs) = c # pick (next_st st) lim (b + size c) cs"
    by auto
  then consider "pick st lim b (c # cs) = [c]"
    | "pick st lim b (c # cs) = c # pick (next_st st) lim (b + size c) cs"
      "pick (next_st st) lim (b + size c) cs \<noteq> []"
    by (cases "pick (next_st st) lim (b + size c) cs") auto
  then show ?case
  proof cases
    case 1
    with fits show ?thesis by simp
  next
    case 2
    with Cons.IH [OF 2(2)] show ?thesis by (simp add: algebra_simps)
  qed
qed

lemma pick_too_big: "lim < b + size c \<Longrightarrow> pick st lim b (c # cs) = []"
  using pick_Cons [of st lim b c cs] by auto

end

locale greedy_prefix = budgeted_prefix +
  assumes pick_fits: "b + size c < lim \<Longrightarrow>
      pick st lim b (c # cs) = c # pick (next_st st) lim (b + size c) cs"
    and pick_exact: "b + size c = lim \<Longrightarrow> pick st lim b (c # cs) = [c]"
begin

lemma pick_nonempty: "b + size c \<le> lim \<Longrightarrow> pick st lim b (c # cs) \<noteq> []"
  using pick_fits pick_exact by (cases "b + size c = lim") auto

text \<open>A selection that leaves a candidate out is full, or the next one does not fit.\<close>

lemma pick_maximal:
  "length (pick st lim b cs) < length cs \<Longrightarrow>
   lim \<le> b + sum_list (map size (pick st lim b cs)) \<or>
   lim < b + sum_list (map size (pick st lim b cs)) + size (cs ! length (pick st lim b cs))"
proof (induction cs arbitrary: st b)
  case Nil
  then show ?case by simp
next
  case (Cons c cs)
  consider "b + size c < lim" | "b + size c = lim" | "lim < b + size c" by linarith
  then show ?case
  proof cases
    case 1
    with pick_fits have p: "pick st lim b (c # cs) = c # pick (next_st st) lim (b + size c) cs" by blast
    with Cons.prems Cons.IH [of "next_st st" "b + size c"] show ?thesis by (simp add: p algebra_simps)
  next
    case 2
    with pick_exact [of b c lim st cs] show ?thesis by simp
  next
    case 3
    with pick_too_big [of lim b c st cs] show ?thesis by simp
  qed
qed

end

section \<open>The three loops\<close>

definition deletion_selected ::
  "unit \<Rightarrow> int \<Rightarrow> int \<Rightarrow> deletion_candidate list \<Rightarrow> deletion_candidate list" where
  "deletion_selected st lim b cs = take (length (fst (deletion_loop lim b cs))) cs"

lemma deletion_loop_Cons:
  "deletion_selected st lim b (c # cs) =
    (if b + dc_byte_size c > lim then []
     else if b + dc_byte_size c \<ge> lim then [c]
     else c # deletion_selected st lim (b + dc_byte_size c) cs)"
  by (auto simp: deletion_selected_def Let_def split: prod.splits)

interpretation dels: greedy_prefix dc_byte_size deletion_selected "\<lambda>u. u"
  by unfold_locales (auto simp: deletion_loop_Cons, simp add: deletion_selected_def)

interpretation jrn: greedy_prefix jc_byte_size "\<lambda>_ :: unit. bounded_journal" "\<lambda>u. u"
  by unfold_locales (auto simp: Let_def)

definition confirmed_selected ::
  "int \<times> int \<Rightarrow> int \<Rightarrow> int \<Rightarrow> confirmed_candidate list \<Rightarrow> confirmed_candidate list" where
  "confirmed_selected st lim b cs =
    (case confirmed_loop (fst st) lim (snd st) b cs of Inl _ \<Rightarrow> [] | Inr xs \<Rightarrow> xs)"

interpretation conf: budgeted_prefix cc_byte_size confirmed_selected "\<lambda>st. (fst st, snd st + 1)"
proof
  show "\<And>st lim b. confirmed_selected st lim b [] = []" by (simp add: confirmed_selected_def)
  fix st :: "int \<times> int" and lim b :: int and c cs
  show "confirmed_selected st lim b (c # cs) = [] \<or> b + cc_byte_size c \<le> lim \<and>
      (confirmed_selected st lim b (c # cs) = [c] \<or>
       confirmed_selected st lim b (c # cs) =
         c # confirmed_selected (fst st, snd st + 1) lim (b + cc_byte_size c) cs)"
    by (cases "confirmed_loop (fst st) lim (snd st + 1) (b + cc_byte_size c) cs")
      (auto simp: confirmed_selected_def Let_def)
qed

lemma deletion_loop_ids: "fst (deletion_loop lim b cs) = map dc_id (deletion_selected () lim b cs)"
proof (induction cs arbitrary: b)
  case Nil
  show ?case by (simp add: deletion_selected_def)
next
  case (Cons c cs)
  then show ?case by (simp add: deletion_loop_Cons Let_def split: prod.splits) (metis fst_conv)
qed

lemma deletion_loop_bytes:
  "snd (deletion_loop lim b cs) = b + sum_list (map dc_byte_size (deletion_selected () lim b cs))"
proof (induction cs arbitrary: b)
  case Nil
  show ?case by (simp add: deletion_selected_def)
next
  case (Cons c cs)
  from Cons [of "b + dc_byte_size c"] show ?case
    by (cases "deletion_loop lim (b + dc_byte_size c) cs") (auto simp: deletion_loop_Cons Let_def)
qed

text \<open>A confirmed selection is contiguous from the floor and older than the cutoff.\<close>

lemma confirmed_loop_contiguous:
  assumes "confirmed_loop before lim expected b cs = Inr sel"
  shows "map cc_sequence sel = map (\<lambda>i. expected + int i) [0..<length sel] \<and>
    (\<forall>c \<in> set sel. cc_appended_at c < before)"
  using assms
proof (induction cs arbitrary: expected b sel)
  case Nil
  then show ?case by simp
next
  case (Cons c cs)
  show ?case
  proof (cases sel)
    case Nil
    then show ?thesis by simp
  next
    case (Cons d rest)
    with Cons.prems have d: "d = c" "cc_sequence c = expected" "cc_appended_at c < before"
      and rest: "rest = [] \<or> confirmed_loop before lim (expected + 1) (b + cc_byte_size c) cs = Inr rest"
      by (auto simp: Let_def rbind_Inr_iff split: if_splits)
    from rest have r: "map cc_sequence rest = map (\<lambda>i. (expected + 1) + int i) [0..<length rest] \<and>
        (\<forall>x \<in> set rest. cc_appended_at x < before)"
      using Cons.IH by auto
    have "map (\<lambda>i. expected + int i) [0..<Suc (length rest)] =
        expected # map (\<lambda>i. expected + 1 + int i) [0..<length rest]"
      by (simp add: upt_conv_Cons map_Suc_upt [symmetric] o_def algebra_simps del: upt_Suc)
    with d r show ?thesis by (simp add: Cons del: upt_Suc)
  qed
qed

section \<open>Selected rows and the rows a deletion touches\<close>

lemma selected_rows:
  assumes d: "distinct (map kf (filter Q xs))" and ys: "ys = take n (select_rows Q so xs)"
  shows "mset (filter (\<lambda>x. Q x \<and> kf x \<in> kf ` set ys) xs) = mset ys"
proof -
  have sub: "set ys \<subseteq> {x \<in> set xs. Q x}" unfolding ys
    using set_take_subset [of n "select_rows Q so xs"] by auto
  have "distinct (filter Q xs)" using d by (simp add: distinct_map)
  then have dy: "distinct ys" unfolding ys by (simp add: select_rows_def)
  have eq: "filter (\<lambda>x. Q x \<and> kf x \<in> kf ` set ys) xs = filter (\<lambda>x. x \<in> set ys) (filter Q xs)"
  proof -
    have "kf x \<in> kf ` set ys \<longleftrightarrow> x \<in> set ys" if "x \<in> set xs" "Q x" for x
    proof
      assume "kf x \<in> kf ` set ys"
      then obtain y where "y \<in> set ys" "kf x = kf y" by auto
      moreover from this sub have "y \<in> set (filter Q xs)" by auto
      ultimately show "x \<in> set ys" using d that distinct_map_eq [of kf "filter Q xs" x y] by simp
    qed simp
    then show ?thesis by (auto intro!: filter_cong)
  qed
  have "distinct (filter (\<lambda>x. x \<in> set ys) (filter Q xs))"
    using \<open>distinct (filter Q xs)\<close> by (rule distinct_filter)
  moreover have "set (filter (\<lambda>x. x \<in> set ys) (filter Q xs)) = set ys" using sub by auto
  ultimately show ?thesis using dy eq by (metis set_eq_iff_mset_eq_distinct)
qed

lemma mset_sum: "mset xs = mset ys \<Longrightarrow> sum_list (map f xs) = (sum_list (map f ys) :: int)"
  by (metis mset_map sum_mset_sum_list)

lemma mset_count: "mset (filter P xs) = mset ys \<Longrightarrow> count_rows P xs = int (length ys)"
  by (metis count_rows_def size_mset)

text \<open>Sizes before and after a deletion.\<close>

lemma sum_del_rows:
  "sum_list (map f xs) = sum_list (map f (filter P xs)) + (sum_list (map f (del_rows P xs)) :: int)"
  by (induction xs) (auto simp: del_rows_def)

lemma length_del_rows: "int (length (del_rows P xs)) = int (length xs) - count_rows P xs"
  unfolding del_rows_def count_rows_def by (induction xs) auto

end
