(* ===== verification/Dbstore_Purge.thy ===== *)
theory Dbstore_Purge
  imports Dbstore_Safety Budget
begin

text \<open>
  The purges keep the invariant of the store, and a purge of terminal runs stays within
  its row and byte budgets: the budget is measured on the tables before and after.
\<close>

section \<open>Sizes\<close>

definition event_bytes :: "'j codec \<Rightarrow> 'j runLogRow \<Rightarrow> int" where
  "event_bytes cd e = json_len cd (rl_record_json e)"

definition ckpt_bytes :: "'j codec \<Rightarrow> 'j checkpointRow \<Rightarrow> int" where
  "ckpt_bytes cd r = json_len cd (ck_record_json r) + int (length (ck_payload r))"

definition db_rows :: "'j db \<Rightarrow> int" where
  "db_rows s = int (length (events s)) + int (length (checkpoints s))"

definition db_bytes :: "'j codec \<Rightarrow> 'j db \<Rightarrow> int" where
  "db_bytes cd s = sum_list (map (event_bytes cd) (events s)) + sum_list (map (ckpt_bytes cd) (checkpoints s))"

lemma sum_list_nonneg': "(\<And>x. 0 \<le> f x) \<Longrightarrow> 0 \<le> sum_list (map f xs :: int list)"
  by (induction xs) auto

section \<open>Deleting history rows\<close>

lemma deleteRunLogs_effect:
  assumes k: "keys_ok s" and d: "deleteRunLogs cd rid bud s = ((n, sz), s1)"
  obtains (none) "n = 0" "sz = 0" "s1 = s"
    | (some) P R where "s1 = s\<lparr>retention := del_rows R (retention s), events := del_rows P (events s)\<rparr>"
      "\<And>e. P e \<Longrightarrow> rl_run_id e = rid"
      "\<And>e t. e \<in> set (events s) \<Longrightarrow> rl_ordinal e = rt_ordinal t \<Longrightarrow> P e = R t"
      "n = count_rows P (events s)" "sz = sum_list (map (event_bytes cd) (filter P (events s)))"
      "0 < n" "n \<le> pb_rows bud" "sz \<le> pb_bytes bud"
proof -
  let ?lim = "pb_rows bud" and ?b = "pb_bytes bud"
  let ?sel = "select_rows (\<lambda>e. rl_run_id e = rid) rl_sequence (events s)"
  let ?mk = "\<lambda>e. \<lparr>dc_id = rl_ordinal e, dc_byte_size = json_len cd (rl_record_json e)\<rparr>"
  let ?cs = "runLogDeletionCandidates cd rid ?lim s"
  let ?picked = "deletion_selected () ?b 0 ?cs"
  show thesis
  proof (cases "?lim \<le> 0 \<or> ?b \<le> 0 \<or> ?picked = []")
    case True
    with d none deletion_loop_ids [of ?b 0 ?cs] show thesis
      by (auto simp: deleteRunLogs_def deletionIDsWithinBudget_def Let_def split: prod.splits if_splits)
  next
    case False
    then have pos: "0 < ?lim" "0 < ?b" and ne: "?picked \<noteq> []" by auto
    define ys where "ys = take (min (length ?picked) (nat ?lim)) ?sel"
    have cs: "?cs = map ?mk (take (nat ?lim) ?sel)" by (simp add: runLogDeletionCandidates_def limit_rows_def)
    have "?picked = take (length ?picked) ?cs" by (rule dels.pick_take)
    then have py: "?picked = map ?mk ys"
      unfolding cs ys_def by (metis take_map take_take)
    have ids: "fst (deletion_loop ?b 0 ?cs) = map rl_ordinal ys"
      unfolding deletion_loop_ids py by simp
    have bytes: "snd (deletion_loop ?b 0 ?cs) = sum_list (map (event_bytes cd) ys)"
      unfolding deletion_loop_bytes py by (simp add: o_def event_bytes_def [abs_def])
    let ?P = "\<lambda>e. rl_run_id e = rid \<and> rl_ordinal e \<in> rl_ordinal ` set ys"
    let ?R = "\<lambda>t. rt_ordinal t \<in> rl_ordinal ` set ys"
    have ysne: "ys \<noteq> []" using ne py by simp
    have m: "mset (filter ?P (events s)) = mset ys"
      using k by (intro selected_rows [OF _ ys_def]) (simp add: keys_ok_def distinct_map_filterI)
    have ysub: "set ys \<subseteq> {e \<in> set (events s). rl_run_id e = rid}"
      unfolding ys_def using set_take_subset [of _ ?sel] by auto
    have out: "n = count_rows ?P (events s)" "sz = sum_list (map (event_bytes cd) ys)"
      "s1 = s\<lparr>retention := del_rows ?R (retention s), events := del_rows ?P (events s)\<rparr>"
      using d pos ysne ids bytes
      by (auto simp: deleteRunLogs_def deletionIDsWithinBudget_def Let_def split: prod.splits if_splits)
    show thesis
    proof (rule some [of ?P ?R])
      show "n \<le> pb_rows bud"
      proof -
        have "length ys \<le> nat ?lim" by (simp add: ys_def)
        with out(1) mset_count [OF m] pos show ?thesis by linarith
      qed
      show "0 < n" using out(1) mset_count [OF m] ysne by simp
      have "0 + sum_list (map dc_byte_size ?picked) \<le> ?b" by (rule dels.pick_budget [OF ne])
      then show "sz \<le> pb_bytes bud" using out(2) by (simp add: py o_def event_bytes_def [abs_def])
      show "sz = sum_list (map (event_bytes cd) (filter ?P (events s)))"
        using out(2) mset_sum [OF m] by metis
      fix e :: "'a runLogRow" and t
      assume e: "e \<in> set (events s)" "rl_ordinal e = rt_ordinal t"
      have "rl_run_id e = rid" if "rl_ordinal e \<in> rl_ordinal ` set ys"
      proof -
        from that obtain y where y: "y \<in> set ys" "rl_ordinal e = rl_ordinal y" by auto
        with ysub e k have "e = y" using distinct_map_eq [of rl_ordinal "events s" e y] by (auto simp: keys_ok_def)
        with y ysub show ?thesis by auto
      qed
      with e(2) show "?P e = ?R t" by auto
    qed (use out in auto)
  qed
qed

lemma deleteCheckpoints_effect:
  assumes k: "keys_ok s" and d: "deleteCheckpoints cd rid bud s = ((n, sz), s1)"
  obtains (none) "n = 0" "sz = 0" "s1 = s"
    | (some) P where "s1 = s\<lparr>checkpoints := del_rows P (checkpoints s)\<rparr>"
      "\<And>r. P r \<Longrightarrow> ck_run_id r = rid"
      "n = count_rows P (checkpoints s)" "sz = sum_list (map (ckpt_bytes cd) (filter P (checkpoints s)))"
      "0 < n" "n \<le> pb_rows bud" "sz \<le> pb_bytes bud"
proof -
  let ?lim = "pb_rows bud" and ?b = "pb_bytes bud"
  let ?sel = "select_rows (\<lambda>r. ck_run_id r = rid) ck_version (checkpoints s)"
  let ?mk = "\<lambda>r. \<lparr>dc_id = ck_version r,
    dc_byte_size = json_len cd (ck_record_json r) + int (length (ck_payload r))\<rparr>"
  let ?cs = "checkpointDeletionCandidates cd rid ?lim s"
  let ?picked = "deletion_selected () ?b 0 ?cs"
  show thesis
  proof (cases "?lim \<le> 0 \<or> ?b \<le> 0 \<or> ?picked = []")
    case True
    with d none deletion_loop_ids [of ?b 0 ?cs] show thesis
      by (auto simp: deleteCheckpoints_def deletionIDsWithinBudget_def Let_def split: prod.splits if_splits)
  next
    case False
    then have pos: "0 < ?lim" "0 < ?b" and ne: "?picked \<noteq> []" by auto
    define ys where "ys = take (min (length ?picked) (nat ?lim)) ?sel"
    have cs: "?cs = map ?mk (take (nat ?lim) ?sel)" by (simp add: checkpointDeletionCandidates_def limit_rows_def)
    have "?picked = take (length ?picked) ?cs" by (rule dels.pick_take)
    then have py: "?picked = map ?mk ys"
      unfolding cs ys_def by (metis take_map take_take)
    have ids: "fst (deletion_loop ?b 0 ?cs) = map ck_version ys"
      unfolding deletion_loop_ids py by simp
    have bytes: "snd (deletion_loop ?b 0 ?cs) = sum_list (map (ckpt_bytes cd) ys)"
      unfolding deletion_loop_bytes py by (simp add: o_def ckpt_bytes_def [abs_def])
    let ?P = "\<lambda>r. ck_run_id r = rid \<and> ck_version r \<in> ck_version ` set ys"
    have ysne: "ys \<noteq> []" using ne py by simp
    have "distinct (map ck_version (filter (\<lambda>r. ck_run_id r = rid) (checkpoints s)))"
      using k by (auto simp: keys_ok_def ckpt_key_def distinct_map inj_on_def)
    then have m: "mset (filter ?P (checkpoints s)) = mset ys"
      by (rule selected_rows [OF _ ys_def])
    have out: "n = count_rows ?P (checkpoints s)" "sz = sum_list (map (ckpt_bytes cd) ys)"
      "s1 = s\<lparr>checkpoints := del_rows ?P (checkpoints s)\<rparr>"
      using d pos ysne ids bytes
      by (auto simp: deleteCheckpoints_def deletionIDsWithinBudget_def Let_def split: prod.splits if_splits)
    show thesis
    proof (rule some [of ?P])
      show "n \<le> pb_rows bud"
      proof -
        have "length ys \<le> nat ?lim" by (simp add: ys_def)
        with out(1) mset_count [OF m] pos show ?thesis by linarith
      qed
      show "0 < n" using out(1) mset_count [OF m] ysne by simp
      have "0 + sum_list (map dc_byte_size ?picked) \<le> ?b" by (rule dels.pick_budget [OF ne])
      then show "sz \<le> pb_bytes bud" using out(2) by (simp add: py o_def ckpt_bytes_def [abs_def])
      show "sz = sum_list (map (ckpt_bytes cd) (filter ?P (checkpoints s)))"
        using out(2) mset_sum [OF m] by metis
    qed (use out in auto)
  qed
qed

text \<open>Both deletions as one statement: what they remove, and the tables they leave alone.\<close>

lemma deleteRunLogs_spec:
  assumes inv: "store_inv cd s" and cd: "codec_ok cd" and d: "deleteRunLogs cd rid bud s = ((n, sz), s1)"
  shows "store_inv cd s1 \<and> registry s1 = registry s \<and> runs s1 = runs s \<and> checkpoints s1 = checkpoints s \<and>
    db_rows s1 = db_rows s - n \<and> db_bytes cd s1 = db_bytes cd s - sz \<and>
    0 \<le> n \<and> 0 \<le> sz \<and> n \<le> max 0 (pb_rows bud) \<and> sz \<le> max 0 (pb_bytes bud) \<and>
    set (events s1) \<subseteq> set (events s) \<and>
    (\<forall>e \<in> set (events s). rl_run_id e \<noteq> rid \<longrightarrow> e \<in> set (events s1)) \<and>
    int (length (events s1)) = int (length (events s)) - n"
  using store_invD(1) [OF inv] d
proof (cases rule: deleteRunLogs_effect)
  case none
  with inv show ?thesis by simp
next
  case (some P R)
  have "store_inv cd s1" unfolding some(1) by (rule inv_delete_events [OF inv some(3)])
  moreover have "0 \<le> sz" unfolding some(5)
    using cd by (intro sum_list_nonneg') (simp add: event_bytes_def codec_ok_def)
  moreover have "db_bytes cd s1 = db_bytes cd s - sz"
    using sum_del_rows [of "event_bytes cd" "events s" P] some(1,5) by (simp add: db_bytes_def)
  moreover have len: "int (length (events s1)) = int (length (events s)) - n"
    using some(1,4) length_del_rows [of P "events s"] by simp
  moreover have "db_rows s1 = db_rows s - n" using len some(1) by (simp add: db_rows_def)
  moreover have "set (events s1) \<subseteq> set (events s)" using some(1) by (auto simp: set_del_rows)
  moreover have "\<forall>e \<in> set (events s). rl_run_id e \<noteq> rid \<longrightarrow> e \<in> set (events s1)"
    using some(1,2) by (auto simp: set_del_rows)
  ultimately show ?thesis using some(1,6-) by simp
qed

lemma deleteCheckpoints_spec:
  assumes inv: "store_inv cd s" and cd: "codec_ok cd" and noh: "\<not> has_head s rid"
    and d: "deleteCheckpoints cd rid bud s = ((n, sz), s1)"
  shows "store_inv cd s1 \<and> registry s1 = registry s \<and> runs s1 = runs s \<and> events s1 = events s \<and>
    retention s1 = retention s \<and>
    db_rows s1 = db_rows s - n \<and> db_bytes cd s1 = db_bytes cd s - sz \<and>
    0 \<le> n \<and> 0 \<le> sz \<and> n \<le> max 0 (pb_rows bud) \<and> sz \<le> max 0 (pb_bytes bud) \<and>
    set (checkpoints s1) \<subseteq> set (checkpoints s) \<and>
    (\<forall>r \<in> set (checkpoints s). ck_run_id r \<noteq> rid \<longrightarrow> r \<in> set (checkpoints s1)) \<and>
    int (length (checkpoints s1)) = int (length (checkpoints s)) - n"
  using store_invD(1) [OF inv] d
proof (cases rule: deleteCheckpoints_effect)
  case none
  with inv show ?thesis by simp
next
  case (some P)
  have "store_inv cd s1" unfolding some(1) by (rule inv_delete_checkpoints [OF inv some(2) noh])
  moreover have "0 \<le> sz" unfolding some(4)
    using cd by (intro sum_list_nonneg') (simp add: ckpt_bytes_def codec_ok_def)
  moreover have "db_bytes cd s1 = db_bytes cd s - sz"
    using sum_del_rows [of "ckpt_bytes cd" "checkpoints s" P] some(1,4) by (simp add: db_bytes_def)
  moreover have len: "int (length (checkpoints s1)) = int (length (checkpoints s)) - n"
    using some(1,3) length_del_rows [of P "checkpoints s"] by simp
  moreover have "db_rows s1 = db_rows s - n" using len some(1) by (simp add: db_rows_def)
  moreover have "set (checkpoints s1) \<subseteq> set (checkpoints s)" using some(1) by (auto simp: set_del_rows)
  moreover have "\<forall>r \<in> set (checkpoints s). ck_run_id r \<noteq> rid \<longrightarrow> r \<in> set (checkpoints s1)"
    using some(1,2) by (auto simp: set_del_rows)
  ultimately show ?thesis using some(1,5-) by simp
qed

section \<open>One purging run\<close>

text \<open>What a transaction on a purging run removes, and what it never touches.\<close>

definition deletes_only :: "'j codec \<Rightarrow> string \<Rightarrow> purge_budget \<Rightarrow> 'j db \<Rightarrow> history_deletion \<Rightarrow> 'j db \<Rightarrow> bool" where
  "deletes_only cd rid bud s d s' \<longleftrightarrow>
    runs s' = runs s \<and>
    int (length (events s')) = int (length (events s)) - hd_events d \<and>
    int (length (checkpoints s')) = int (length (checkpoints s)) - hd_checkpoints d \<and>
    db_bytes cd s' = db_bytes cd s - hd_bytes d \<and>
    0 \<le> hd_events d \<and> 0 \<le> hd_checkpoints d \<and> 0 \<le> hd_bytes d \<and>
    hd_events d + hd_checkpoints d \<le> max 0 (pb_rows bud) \<and> hd_bytes d \<le> max 0 (pb_bytes bud) \<and>
    (\<forall>e \<in> set (events s). rl_run_id e \<noteq> rid \<longrightarrow> e \<in> set (events s')) \<and>
    (\<forall>r \<in> set (checkpoints s). ck_run_id r \<noteq> rid \<longrightarrow> r \<in> set (checkpoints s')) \<and>
    (\<forall>g \<in> set (registry s). rg_state g \<noteq> runStatePurging \<longrightarrow> g \<in> set (registry s'))"

lemma delete_history_tx_spec:
  assumes inv: "store_inv cd s" and cd: "codec_ok cd"
    and ok: "delete_history_tx en cd rid bud s = Inr (d, s')"
  shows "store_inv cd s' \<and> deletes_only cd rid bud s d s'"
proof -
  note i = store_invD [OF inv]
  have lk: "lockRunRegistry en s rid = find_registry s rid" using i(1) by (rule lockRunRegistry_find)
  consider (idle) "d = no_deletion" "s' = s"
    | (purging) reg where "find_registry s rid = Some reg" "rg_kind reg = runKindWorkflow"
        "rg_state reg = runStatePurging"
    using ok by (auto simp: delete_history_tx_def lk split: option.splits if_splits)
  then show ?thesis
  proof cases
    case idle
    with inv show ?thesis by (simp add: deletes_only_def no_deletion_def)
  next
    case (purging reg)
    obtain n1 z1 s1 where d1: "deleteRunLogs cd rid bud s = ((n1, z1), s1)" by (metis surj_pair)
    let ?bud = "\<lparr>pb_rows = pb_rows bud - n1, pb_bytes = pb_bytes bud - z1\<rparr>"
    obtain n2 z2 s2 where d2: "deleteCheckpoints cd rid ?bud s1 = ((n2, z2), s2)" by (metis surj_pair)
    have regm: "reg \<in> set (registry s)" "rg_run_id reg = rid" using purging i(1) by (auto simp: find_registry_iff)
    then have noh: "\<not> has_head s rid" using purging i(3) by (auto simp: registry_ok_def registry_row_ok_def)
    note A = deleteRunLogs_spec [OF inv cd d1]
    then have noh1: "\<not> has_head s1 rid" using noh by (simp add: has_head_def)
    from A have "store_inv cd s1" by simp
    note B = deleteCheckpoints_spec [OF this cd noh1 d2]
    let ?d = "\<lparr>hd_events = n1, hd_checkpoints = n2, hd_bytes = z1 + z2, hd_complete = False\<rparr>"
    have rows: "n1 + n2 \<le> max 0 (pb_rows bud)" and bytes: "z1 + z2 \<le> max 0 (pb_bytes bud)"
      using A B by auto
    have inv2: "store_inv cd s2" and tabs: "runs s2 = runs s" "registry s2 = registry s"
        "events s2 = events s1" "checkpoints s1 = checkpoints s"
      and nonneg: "0 \<le> n1" "0 \<le> n2" "0 \<le> z1 + z2"
      and sums: "int (length (events s2)) = int (length (events s)) - n1"
        "int (length (checkpoints s2)) = int (length (checkpoints s)) - n2" "db_bytes cd s2 = db_bytes cd s - (z1 + z2)"
      using A B by simp_all
    have kept: "\<forall>e \<in> set (events s). rl_run_id e \<noteq> rid \<longrightarrow> e \<in> set (events s1)"
        "\<forall>r \<in> set (checkpoints s). ck_run_id r \<noteq> rid \<longrightarrow> r \<in> set (checkpoints s2)"
      subgoal using A by blast
      subgoal using B tabs(4) by metis
      done
    have base: "store_inv cd s2" "deletes_only cd rid bud s ?d s2"
      unfolding deletes_only_def using inv2 tabs nonneg sums kept rows bytes by simp_all
    let ?P = "\<lambda>g. rg_run_id g = rid \<and> rg_state g = runStatePurging"
    let ?f = "\<lambda>g. g\<lparr>rg_state := runStatePurged, rg_updated_at := unix_nano (en_now_utc en)\<rparr>"
    have tx: "delete_history_tx en cd rid bud s =
        (if hasRunEvents rid s2 \<or> hasRunCheckpoints rid s2 then Inr (?d, s2)
         else Inr (?d\<lparr>hd_complete := count_rows ?P (registry s2) = 1\<rparr>,
           s2\<lparr>registry := upd_rows ?P ?f (registry s2)\<rparr>))"
      unfolding delete_history_tx_def lk by (simp add: purging d1 d2) (simp add: Let_def)
    consider (more) "d = ?d" "s' = s2"
      | (finished) x where "\<not> hasRunEvents rid s2" "\<not> hasRunCheckpoints rid s2" "d = ?d\<lparr>hd_complete := x\<rparr>"
        "s' = s2\<lparr>registry := upd_rows ?P ?f (registry s2)\<rparr>"
    proof (cases "hasRunEvents rid s2 \<or> hasRunCheckpoints rid s2")
      case True
      with ok tx have "d = ?d" "s' = s2" by simp_all
      then show ?thesis by (rule that(1))
    next
      case False
      with ok tx have "d = ?d\<lparr>hd_complete := count_rows ?P (registry s2) = 1\<rparr>"
        "s' = s2\<lparr>registry := upd_rows ?P ?f (registry s2)\<rparr>" by simp_all
      with False show ?thesis by (intro that(2)) simp_all
    qed
    then show ?thesis
    proof cases
      case more
      with base show ?thesis by simp
    next
      case (finished x)
      have "versions_of s2 rid = {}" using finished(2)
        by (auto simp: versions_of_def hasRunCheckpoints_def has_row_def)
      moreover have "\<not> has_head s2 rid" using noh tabs by (simp add: has_head_def)
      moreover have "g = reg" if "g \<in> set (registry s2)" "rg_run_id g = rid" for g
        using that regm i(1) tabs regs.unique_row [of "registry s" g reg] by (simp add: keys_ok_def)
      moreover have "registry_row_ok s2 g" if "g \<in> set (registry s2)" for g
        using that store_invD(3) [OF base(1)] by (simp add: registry_ok_def)
      ultimately have "store_inv cd s'" unfolding finished(4) using base(1) finished(1) purging(2)
        by (intro inv_update_registry) (auto simp: registry_row_ok_def hasRunEvents_def has_row_def)
      moreover have "deletes_only cd rid bud s d s'"
        using base(2) tabs(2) by (auto simp: deletes_only_def finished(3,4) db_rows_def db_bytes_def set_upd_rows)
      ultimately show ?thesis ..
    qed
  qed
qed

end
