(* ===== verification/Dbstore_Confirm.thy ===== *)
theory Dbstore_Confirm
  imports Dbstore_Compact
begin

text \<open>
  The purges as whole calls: the purge of terminal runs, the purge of standalone journals
  and the compaction of a confirmed prefix keep the invariant, and each only deletes what
  its contract allows.
\<close>

section \<open>The whole purge of terminal runs\<close>

lemma purge_enroll_inv:
  assumes "store_inv cd s" and "purge_enroll ens cd before lim bud s = (r, s')"
  shows "store_inv cd s'"
  using assms enrollTerminalRuns_inv [OF assms(1)]
  by (auto simp: purge_enroll_def Let_def split: sum.split_asm if_split_asm)

lemma purge_limits_pos:
  "purge_limits req = Inr (lim, bud) \<Longrightarrow> 0 < lim \<and> 0 < pb_rows bud \<and> 0 < pb_bytes bud"
  by (auto simp: purge_limits_def with_default_def defaultPurgeLimit_def defaultPurgeRowLimit_def
      defaultPurgeByteLimit_def split: if_split_asm)

text \<open>
  What the purge leaves: either it stopped before any deletion, or the deletions of its
  loop took the tables from those after the enrolment to the final ones.
\<close>

lemma PurgeTerminalRuns_cases:
  assumes "PurgeTerminalRuns ens cd req s = ((res, err), s')"
  obtains (early) e where "res = no_purge" "err = Some e"
      "s' = s \<or> (\<exists>lim bud x. purge_limits req = Inr (lim, bud) \<and>
         purge_enroll ens cd (pr_before req) lim bud s = (x, s'))"
    | (loop) lim bud n s1 pending res' err' m where "purge_limits req = Inr (lim, bud)"
      "purge_enroll ens cd (pr_before req) lim bud s = (Inr n, s1)"
      "purge_loop ens (n + 1) cd pending bud no_purge s1 = ((res', err', m), s')"
      "pu_events res = pu_events res'" "pu_checkpoints res = pu_checkpoints res'" "pu_runs res = pu_runs res'"
proof (cases "rbind (ready (ens 0)) (\<lambda>_. purge_limits req)")
  case (Inl e)
  with assms early show thesis by (auto simp: PurgeTerminalRuns_def)
next
  case (Inr lb)
  obtain lim bud where lb: "lb = (lim, bud)" by fastforce
  with Inr have lims: "purge_limits req = Inr (lim, bud)" by (simp add: rbind_Inr_iff)
  obtain x s1 where en: "purge_enroll ens cd (pr_before req) lim bud s = (x, s1)" by fastforce
  show thesis
  proof (cases x)
    case (Inl e)
    with assms Inr lb lims en early show thesis by (simp add: PurgeTerminalRuns_def) blast
  next
    case (Inr n)
    show thesis
    proof (cases "query (ens n) (Inr (purgingRunIDs lim s1))")
      case (Inl e)
      with assms \<open>rbind _ _ = _\<close> Inr lb lims en early show thesis by (simp add: PurgeTerminalRuns_def) blast
    next
      case (Inr pending)
      obtain res' err' m s2 where lp: "purge_loop ens (n + 1) cd pending bud no_purge s1 = ((res', err', m), s2)"
        by (metis surj_pair)
      have "s' = s2 \<and> pu_events res = pu_events res' \<and> pu_checkpoints res = pu_checkpoints res' \<and> pu_runs res = pu_runs res'"
        using assms \<open>rbind _ _ = _\<close> \<open>x = _\<close> Inr lb lims en lp
        by (cases err') (auto simp: PurgeTerminalRuns_def split: sum.split_asm)
      with lims en \<open>x = _\<close> lp loop show thesis by simp
    qed
  qed
qed

lemma PurgeTerminalRuns_inv:
  assumes inv: "store_inv cd s" and cd: "codec_ok cd" and p: "PurgeTerminalRuns ens cd req s = ((res, err), s')"
  shows "store_inv cd s'"
  using p
proof (cases rule: PurgeTerminalRuns_cases)
  case (early e)
  with inv purge_enroll_inv [OF inv] show ?thesis by blast
next
  case (loop lim bud n s1 pending res' err' m)
  note pos = purge_limits_pos [OF loop(1)]
  from purge_loop_spec [OF purge_enroll_inv [OF inv loop(2)] cd loop(3)] pos show ?thesis by simp
qed

text \<open>Enrolment deletes no history row.\<close>

lemma enroll_tx_history:
  assumes k: "keys_ok s" and ok: "enroll_tx en cd rid before s = Inr (b, s')"
  shows "events s' = events s \<and> checkpoints s' = checkpoints s \<and> retention s' = retention s"
  using k ok by (cases rule: enroll_tx_cases) auto

lemma enrollTerminalRuns_history:
  "store_inv cd s \<Longrightarrow> enrollTerminalRuns ens n cd rids before bud s = (r, s') \<Longrightarrow>
   events s' = events s \<and> checkpoints s' = checkpoints s \<and> retention s' = retention s"
proof (induction ens n cd rids before bud s rule: enrollTerminalRuns.induct)
  case (1 ens n cd before bud s)
  then show ?case by simp
next
  case (2 ens n cd rid rids before bud s)
  show ?case
  proof (cases "query (ens n) (Inr (firstHistoryRowFits cd rid bud s))")
    case (Inl e)
    with "2.prems" show ?thesis by simp
  next
    case (Inr fits)
    obtain res s1 where t: "enrollTerminalRun (ens (n + 1)) cd rid before s = (res, s1)" by fastforce
    have inv1: "store_inv cd s1"
      using transaction_inv [OF "2.prems"(1) _ t [unfolded enrollTerminalRun_def]] enroll_tx_inv "2.prems"(1) by blast
    have "events s1 = events s \<and> checkpoints s1 = checkpoints s \<and> retention s1 = retention s"
      using t enroll_tx_history [OF store_invD(1) [OF "2.prems"(1)]]
      by (auto simp: enrollTerminalRun_def transaction_def split: option.split_asm sum.split_asm prod.split_asm)
    with "2.prems" Inr t inv1 "2.IH" [OF Inr] show ?thesis
      by (cases res) (auto split: if_split_asm)
  qed
qed

section \<open>The purge of standalone journals\<close>

text \<open>What a purge of journals leaves alone: everything a workflow run has.\<close>

definition spares_workflows :: "'j db \<Rightarrow> 'j db \<Rightarrow> bool" where
  "spares_workflows s s' \<longleftrightarrow> checkpoints s' = checkpoints s \<and> runs s' = runs s \<and>
    set (events s') \<subseteq> set (events s) \<and>
    (\<forall>g \<in> set (registry s). rg_kind g = runKindWorkflow \<longrightarrow> g \<in> set (registry s') \<and>
       (\<forall>e \<in> set (events s). rl_run_id e = rg_run_id g \<longrightarrow> e \<in> set (events s')))"

lemma spares_workflows_refl [intro, simp]: "spares_workflows s s"
  by (simp add: spares_workflows_def)

lemma spares_workflows_trans:
  "spares_workflows s s1 \<Longrightarrow> spares_workflows s1 s2 \<Longrightarrow> spares_workflows s s2"
  unfolding spares_workflows_def by (metis subset_trans)

lemma purge_journal_tx_cases:
  assumes inv: "store_inv cd s" and ok: "purge_journal_tx en rid ords before s = Inr (k, s')"
  obtains (idle) "k = 0" "s' = s"
    | (del) reg P R G s1 where "find_registry s rid = Some reg" "rg_kind reg = runKindJournal"
      "\<And>e. P e \<Longrightarrow> rl_run_id e = rid"
      "\<And>e t. e \<in> set (events s) \<Longrightarrow> t \<in> set (retention s) \<Longrightarrow> rl_ordinal e = rt_ordinal t \<Longrightarrow>
         rl_run_id e = rt_run_id t \<Longrightarrow> P e = R t"
      "\<And>g. G g \<Longrightarrow> rg_run_id g = rid \<and> rg_kind g = runKindJournal"
      "s1 = s\<lparr>retention := del_rows R (retention s), events := del_rows P (events s)\<rparr>"
      "k = count_rows P (events s)"
      "s' = (if hasRunEvents rid s1 then s1 else s1\<lparr>registry := del_rows G (registry s1)\<rparr>)"
proof -
  note i = store_invD [OF inv]
  have lk: "lockRunRegistry en s rid = find_registry s rid" using i(1) by (rule lockRunRegistry_find)
  let ?elig = "map rt_ordinal (filter (\<lambda>t. rt_run_id t = rid \<and>
                  rt_ordinal t \<in> set ords \<and> rt_appended_at t < unix_nano before) (retention s))"
  consider (idle') "k = 0" "s' = s"
    | (del') reg where "find_registry s rid = Some reg" "rg_kind reg = runKindJournal"
        "rg_state reg = runStateActive" "?elig \<noteq> []"
    using ok lk by (auto simp: purge_journal_tx_def Let_def split: option.split_asm if_split_asm)
  then show thesis
  proof cases
    case idle'
    then show thesis by (rule idle)
  next
    case (del' reg)
    define P :: "'a runLogRow \<Rightarrow> bool" where "P = (\<lambda>e. rl_run_id e = rid \<and> rl_ordinal e \<in> set ?elig)"
    define R :: "runLogRetentionRow \<Rightarrow> bool" where "R = (\<lambda>t. rt_ordinal t \<in> set ?elig)"
    define G :: "runRegistryRow \<Rightarrow> bool" where "G = (\<lambda>g. rg_run_id g = rid \<and> rg_kind g = runKindJournal \<and> rg_state g = runStateActive)"
    define s1 where "s1 = s\<lparr>retention := del_rows R (retention s), events := del_rows P (events s)\<rparr>"
    have "purge_journal_tx en rid ords before s = Inr (count_rows P (events s),
        if hasRunEvents rid s1 then s1 else s1\<lparr>registry := del_rows G (registry s1)\<rparr>)"
      unfolding purge_journal_tx_def lk del'(1) option.case Let_def P_def R_def G_def s1_def
      using del'(2-4) by (simp del: set_map)
    with ok have kk: "k = count_rows P (events s)"
      and s': "s' = (if hasRunEvents rid s1 then s1 else s1\<lparr>registry := del_rows G (registry s1)\<rparr>)"
      by simp_all
    have PR: "P e = R t" if et: "e \<in> set (events s)" "t \<in> set (retention s)" "rl_ordinal e = rt_ordinal t"
      "rl_run_id e = rt_run_id t" for e t
    proof -
      have "rt_run_id t = rid" if "rt_ordinal t \<in> set ?elig"
      proof -
        from that obtain t' where t': "t' \<in> set (retention s)" "rt_run_id t' = rid" "rt_ordinal t' = rt_ordinal t" by auto
        with et(2) i(1) have "t' = t" using distinct_map_eq [of rt_ordinal "retention s" t' t] by (simp add: keys_ok_def)
        with t' show ?thesis by simp
      qed
      with et(3,4) show ?thesis by (auto simp: P_def R_def)
    qed
    show thesis by (rule del [OF del'(1,2) _ PR _ s1_def kk s']) (simp_all add: P_def G_def)
  qed
qed

lemma purge_journal_tx_spec:
  assumes inv: "store_inv cd s" and ok: "purge_journal_tx en rid ords before s = Inr (k, s')"
  shows "store_inv cd s' \<and> spares_workflows s s' \<and>
    k = int (length (events s)) - int (length (events s')) \<and> 0 \<le> k"
  using inv ok
proof (cases rule: purge_journal_tx_cases)
  case idle
  with inv show ?thesis by simp
next
  case (del reg P R G s1)
  have inv1: "store_inv cd s1" unfolding del(6) by (rule inv_delete_events [OF inv del(4)])
  have len: "int (length (events s1)) = int (length (events s)) - k"
    by (simp add: del(6,7) length_del_rows)
  have other: "rid \<noteq> rg_run_id g" if "g \<in> set (registry s)" "rg_kind g = runKindWorkflow" for g
  proof
    assume "rid = rg_run_id g"
    with that del(1) store_invD(1) [OF inv] have "g = reg" by (metis find_registry_iff option.inject)
    with that(2) del(2) show False by simp
  qed
  have sp: "spares_workflows s s1" using other del(3)
    by (auto simp: spares_workflows_def del(6) set_del_rows)
  show ?thesis
  proof (cases "hasRunEvents rid s1")
    case True
    with inv1 sp len del(7,8) show ?thesis by (simp add: count_rows_def)
  next
    case False
    have "store_inv cd s'" using False del(5,8) inv1
      by (auto intro!: inv_drop_journal simp: hasRunEvents_def has_row_def)
    moreover have "spares_workflows s s'" using sp False del(5,8)
      by (auto simp: spares_workflows_def set_del_rows)
    ultimately show ?thesis using len False del(7,8) by (simp add: count_rows_def)
  qed
qed

lemma purge_journal_loop_spec:
  "store_inv cd s \<Longrightarrow> purge_journal_loop ens n cs rids before k s = ((k', err), s') \<Longrightarrow>
   store_inv cd s' \<and> spares_workflows s s' \<and> k' - k = int (length (events s)) - int (length (events s'))"
proof (induction ens n cs rids before k s rule: purge_journal_loop.induct)
  case (1 ens n cs before k s)
  then show ?case by auto
next
  case (2 ens n cs rid rids before k s)
  obtain r s1 where t: "transaction (ens n) (purge_journal_tx (ens n) rid (ordinals_of_run rid cs) before) s = (r, s1)"
    by fastforce
  show ?case
  proof (cases r)
    case (Inl e)
    have "s1 = s" by (rule transaction_Inl [OF t [unfolded Inl]])
    with Inl t "2.prems" show ?thesis by auto
  next
    case (Inr d)
    with t have "purge_journal_tx (ens n) rid (ordinals_of_run rid cs) before s = Inr (d, s1)"
      by (simp add: transaction_Inr_iff)
    note spec = purge_journal_tx_spec [OF "2.prems"(1) this]
    from "2.prems"(2) t Inr have "purge_journal_loop ens (n + 1) cs rids before (k + d) s1 = ((k', err), s')" by simp
    from "2.IH" [OF t [symmetric] Inr _ this] spec show ?thesis
      using spares_workflows_trans [of s s1 s'] by auto
  qed
qed

lemma PurgeRunLog_spec:
  assumes "store_inv cd s" and "PurgeRunLog ens cd req s = ((k, err), s')"
  shows "store_inv cd s' \<and> spares_workflows s s' \<and> k = int (length (events s)) - int (length (events s'))"
proof (cases "rbind (ready (ens 0)) (\<lambda>_. runlog_purge_limits req)")
  case (Inl e)
  with assms(2) have "k = 0" "s' = s" by (simp_all add: PurgeRunLog_def)
  with assms(1) show ?thesis by simp
next
  case (Inr lb)
  obtain lim byteLimit where lb: "lb = (lim, byteLimit)" by fastforce
  show ?thesis
  proof (cases "query (ens 0) (Inr (journalPurgeCandidates cd (lp_before req) lim s)) :: store_error + _")
    case (Inl e)
    with assms(2) Inr lb have "k = 0" "s' = s" by (simp_all add: PurgeRunLog_def)
    with assms(1) show ?thesis by simp
  next
    case found: (Inr found)
    with assms(2) Inr lb have "purge_journal_loop ens 1 (bounded_journal byteLimit 0 found)
        (run_order [] (bounded_journal byteLimit 0 found)) (lp_before req) 0 s = ((k, err), s')"
      by (simp add: PurgeRunLog_def Let_def)
    from purge_journal_loop_spec [OF assms(1) this] show ?thesis by simp
  qed
qed

end
