(* ===== verification/Dbstore_Floor.thy ===== *)
theory Dbstore_Floor
  imports Dbstore_Confirm
begin

text \<open>
  The compaction of a confirmed prefix of an active run (\<open>PurgeConfirmedRunLog\<close>): it
  removes exactly the events up to the new floor, which it raises by their number.
\<close>

section \<open>Candidates\<close>

text \<open>Under the invariant the join of an event with its retention row has one row.\<close>

lemma one_retention_row:
  assumes "store_inv cd s" and "e \<in> set (events s)"
  obtains t where "filter (\<lambda>t. rt_ordinal t = rl_ordinal e \<and> rt_run_id t = rl_run_id e) (retention s) = [t]"
proof -
  note i = store_invD [OF assms(1)]
  from i(2) assms(2) obtain t where t: "t \<in> set (retention s)" "rt_ordinal t = rl_ordinal e" "rt_run_id t = rl_run_id e"
    by (auto simp: journal_ok_def event_ok_def)
  from i(1) have "distinct (map rt_ordinal (retention s))" by (simp add: keys_ok_def)
  from distinct_key_filter_single [OF this t(1), of "\<lambda>t. rt_ordinal t = rl_ordinal e \<and> rt_run_id t = rl_run_id e"]
    t that show thesis by simp
qed

definition candidate_of :: "'j codec \<Rightarrow> 'j db \<Rightarrow> 'j runLogRow \<Rightarrow> confirmed_candidate" where
  "candidate_of cd s e = \<lparr>cc_ordinal = rl_ordinal e, cc_sequence = rl_sequence e,
     cc_byte_size = json_len cd (rl_record_json e),
     cc_appended_at = rt_appended_at (hd (filter (\<lambda>t. rt_ordinal t = rl_ordinal e \<and>
       rt_run_id t = rl_run_id e) (retention s)))\<rparr>"

lemma confirmed_candidates_eq:
  assumes inv: "store_inv cd s"
  shows "confirmedRunLogCandidates cd rid floor confirmed lim s =
    map (candidate_of cd s) (take (nat lim) (select_rows (\<lambda>e. rl_run_id e = rid \<and> rl_sequence e > floor \<and>
      rl_sequence e \<le> confirmed) rl_sequence (events s)))"
proof -
  let ?f = "\<lambda>e. map (\<lambda>t. \<lparr>cc_ordinal = rl_ordinal e, cc_sequence = rl_sequence e,
      cc_byte_size = json_len cd (rl_record_json e), cc_appended_at = rt_appended_at t\<rparr>)
    (filter (\<lambda>t. rt_ordinal t = rl_ordinal e \<and> rt_run_id t = rl_run_id e) (retention s))"
  have one: "?f e = [candidate_of cd s e]" if "e \<in> set (events s)" for e
  proof -
    note e = that
    obtain t where "filter (\<lambda>t. rt_ordinal t = rl_ordinal e \<and> rt_run_id t = rl_run_id e) (retention s) = [t]"
      by (rule one_retention_row [OF inv e])
    then show ?thesis by (simp add: candidate_of_def)
  qed
  have "concat (map ?f xs) = map (candidate_of cd s) xs" if "set xs \<subseteq> set (events s)" for xs
  proof -
    have "map ?f xs = map (\<lambda>e. [candidate_of cd s e]) xs"
      using that one by (intro map_cong refl) blast
    then show ?thesis by (simp only: concat_map_singleton)
  qed
  from this [of "select_rows (\<lambda>e. rl_run_id e = rid \<and> rl_sequence e > floor \<and>
      rl_sequence e \<le> confirmed) rl_sequence (events s)"]
  have "concat (map ?f (select_rows (\<lambda>e. rl_run_id e = rid \<and> rl_sequence e > floor \<and>
      rl_sequence e \<le> confirmed) rl_sequence (events s))) = map (candidate_of cd s) (select_rows
      (\<lambda>e. rl_run_id e = rid \<and> rl_sequence e > floor \<and> rl_sequence e \<le> confirmed) rl_sequence (events s))"
    by fastforce
  then show ?thesis by (simp only: confirmedRunLogCandidates_def limit_rows_def take_map)
qed

lemma confirmed_loop_take:
  assumes "confirmed_loop before lim expected b cs = Inr sel"
  shows "sel = take (length sel) cs" "sel \<noteq> [] \<Longrightarrow> b + sum_list (map cc_byte_size sel) \<le> lim"
proof -
  have s: "confirmed_selected (before, expected) lim b cs = sel" using assms by (simp add: confirmed_selected_def)
  show "sel = take (length sel) cs" using conf.pick_take [of "(before, expected)" lim b cs] by (simp add: s)
  show "b + sum_list (map cc_byte_size sel) \<le> lim" if "sel \<noteq> []"
    using conf.pick_budget [of "(before, expected)" lim b cs] that by (simp add: s)
qed

section \<open>The rows of a selection\<close>

text \<open>
  A contiguous selection above the floor is exactly the events of the run up to the new
  floor, and deleting it counts its length.
\<close>

lemma selected_events:
  assumes inv: "store_inv cd s" and g: "find_registry s rid = Some reg"
    and ys: "ys = take n (select_rows (\<lambda>e. rl_run_id e = rid \<and> rl_sequence e > rg_compacted reg \<and>
      rl_sequence e \<le> confirmed) rl_sequence (events s))"
    and seqs: "map rl_sequence ys = map (\<lambda>i. rg_compacted reg + 1 + int i) [0..<length ys]"
    and e: "e \<in> set (events s)"
  shows "rl_run_id e = rid \<and> rl_ordinal e \<in> rl_ordinal ` set ys \<longleftrightarrow>
    rl_run_id e = rid \<and> rl_sequence e \<le> rg_compacted reg + int (length ys)"
proof -
  note i = store_invD [OF inv]
  let ?Q = "\<lambda>e. rl_run_id e = rid \<and> rl_sequence e > rg_compacted reg \<and> rl_sequence e \<le> confirmed"
  have sub: "set ys \<subseteq> {e \<in> set (events s). ?Q e}" unfolding ys
    using set_take_subset [of n "select_rows ?Q rl_sequence (events s)"] by auto
  have sset: "rl_sequence ` set ys = {rg_compacted reg + 1 .. rg_compacted reg + int (length ys)}"
  proof -
    have "rl_sequence ` set ys = set (map (\<lambda>i. rg_compacted reg + 1 + int i) [0..<length ys])"
      using seqs by (metis set_map)
    also have "\<dots> = {rg_compacted reg + 1 .. rg_compacted reg + int (length ys)}"
    proof (auto simp: image_iff)
      fix x assume "rg_compacted reg + 1 \<le> x" "x \<le> rg_compacted reg + int (length ys)"
      then show "\<exists>i \<in> {0..<length ys}. x = rg_compacted reg + 1 + int i"
        by (intro bexI [of _ "nat (x - rg_compacted reg - 1)"]) auto
    qed
    finally show ?thesis .
  qed
  show ?thesis
  proof
    assume a: "rl_run_id e = rid \<and> rl_ordinal e \<in> rl_ordinal ` set ys"
    then obtain y where y: "y \<in> set ys" "rl_ordinal e = rl_ordinal y" by auto
    with sub e i(1) have "e = y" using distinct_map_eq [of rl_ordinal "events s" e y] by (auto simp: keys_ok_def)
    with y sset have "rl_sequence e \<in> {rg_compacted reg + 1 .. rg_compacted reg + int (length ys)}" by blast
    with a show "rl_run_id e = rid \<and> rl_sequence e \<le> rg_compacted reg + int (length ys)" by simp
  next
    assume a: "rl_run_id e = rid \<and> rl_sequence e \<le> rg_compacted reg + int (length ys)"
    from i(2) e obtain g' where g': "g' \<in> set (registry s)" "rg_run_id g' = rid" "rg_compacted g' < rl_sequence e"
      using a by (auto simp: journal_ok_def event_ok_def)
    with g i(1) have "g' = reg" by (metis find_registry_iff option.inject)
    with g' a sset have "rl_sequence e \<in> rl_sequence ` set ys" by simp
    then obtain y where y: "y \<in> set ys" "rl_sequence e = rl_sequence y" by auto
    with sub a have "event_key e = event_key y" "y \<in> set (events s)" by (auto simp: event_key_def)
    with e i(1) have "e = y" using distinct_map_eq [of event_key "events s" e y] by (simp add: keys_ok_def)
    with a y show "rl_run_id e = rid \<and> rl_ordinal e \<in> rl_ordinal ` set ys" by auto
  qed
qed

section \<open>The transaction\<close>

text \<open>
  What a compaction does to the tables: the floor rises by the number of events deleted,
  and exactly the events of the run up to the new floor are gone.
\<close>

definition compacted :: "string \<Rightarrow> runRegistryRow \<Rightarrow> confirmed_purge_result \<Rightarrow> 'j db \<Rightarrow> 'j db \<Rightarrow> bool" where
  "compacted rid reg res s s' \<longleftrightarrow>
    0 \<le> cr_events res \<and> cr_compacted res = rg_compacted reg + cr_events res \<and>
    cr_events res = int (length (events s)) - int (length (events s')) \<and>
    events s' = filter (\<lambda>e. rl_run_id e \<noteq> rid \<or> cr_compacted res < rl_sequence e) (events s) \<and>
    find_registry s' rid = Some (reg\<lparr>rg_compacted := cr_compacted res\<rparr>) \<and>
    checkpoints s' = checkpoints s \<and> runs s' = runs s"

lemma above_floor:
  assumes "store_inv cd s" and "find_registry s rid = Some reg" and "e \<in> set (events s)" and "rl_run_id e = rid"
  shows "rg_compacted reg < rl_sequence e"
proof -
  note i = store_invD [OF assms(1)]
  from i(2) assms(3,4) obtain g where "g \<in> set (registry s)" "rg_run_id g = rid" "rg_compacted g < rl_sequence e"
    by (auto simp: journal_ok_def event_ok_def)
  with assms(2) i(1) show ?thesis by (metis find_registry_iff option.inject)
qed

lemma compacted_unchanged:
  assumes "store_inv cd s" and "find_registry s rid = Some reg"
  shows "compacted rid reg \<lparr>cr_events = 0, cr_compacted = rg_compacted reg\<rparr> s s"
proof -
  have "filter (\<lambda>e. rl_run_id e \<noteq> rid \<or> rg_compacted reg < rl_sequence e) (events s) = events s"
    using above_floor [OF assms] by (auto simp: filter_id_conv)
  with assms(2) show ?thesis by (simp add: compacted_def)
qed

lemma compact_rows_cases:
  assumes inv: "store_inv cd s" and g: "find_registry s rid = Some reg"
    and sel: "contiguousConfirmedCandidates (confirmedRunLogCandidates cd rid (rg_compacted reg) confirmed lim s)
      (rg_compacted reg) before byteLimit = Inr selected" and ne: "selected \<noteq> []"
    and ok: "compact_rows rid reg selected s = Inr (res, s')"
  obtains floor E R G where "floor = rg_compacted reg + count_rows E (events s)" "floor \<le> confirmed"
    "\<And>e. e \<in> set (events s) \<Longrightarrow> E e \<longleftrightarrow> rl_run_id e = rid \<and> rl_sequence e \<le> floor"
    "\<And>e t. rl_ordinal e = rt_ordinal t \<Longrightarrow> rl_run_id e = rt_run_id t \<Longrightarrow> E e = R t"
    "G = (\<lambda>g. rg_run_id g = rid \<and> rg_kind g = runKindWorkflow \<and> rg_state g = runStateActive \<and>
      rg_compacted g = rg_compacted reg)"
    "res = \<lparr>cr_events = count_rows E (events s), cr_compacted = floor\<rparr>"
    "s' = s\<lparr>retention := del_rows R (retention s), events := del_rows E (events s),
       registry := upd_rows G (\<lambda>g. g\<lparr>rg_compacted := floor\<rparr>) (registry s)\<rparr>"
proof -
  let ?Q = "\<lambda>e. rl_run_id e = rid \<and> rl_sequence e > rg_compacted reg \<and> rl_sequence e \<le> confirmed"
  let ?sel = "select_rows ?Q rl_sequence (events s)"
  note loop = sel [unfolded contiguousConfirmedCandidates_def confirmed_candidates_eq [OF inv]]
  define ys where "ys = take (min (length selected) (nat lim)) ?sel"
  have "selected = take (length selected) (map (candidate_of cd s) (take (nat lim) ?sel))"
    by (rule confirmed_loop_take(1) [OF loop])
  then have sy: "selected = map (candidate_of cd s) ys"
    unfolding ys_def by (metis take_map take_take)
  have ords: "set (map cc_ordinal selected) = rl_ordinal ` set ys"
    by (simp add: sy candidate_of_def image_image)
  have seqs: "map rl_sequence ys = map (\<lambda>i. rg_compacted reg + 1 + int i) [0..<length ys]"
    using confirmed_loop_contiguous [OF loop] by (simp add: sy candidate_of_def o_def)
  define floor where "floor = rg_compacted reg + int (length ys)"
  have yne: "ys \<noteq> []" using ne sy by simp
  have last: "cc_sequence (last selected) = floor"
  proof -
    have "cc_sequence (last selected) = last (map rl_sequence ys)"
      using yne by (simp add: sy last_map candidate_of_def)
    with seqs yne show ?thesis by (simp add: last_map floor_def of_nat_diff Suc_le_eq)
  qed
  define E :: "'a runLogRow \<Rightarrow> bool" where "E = (\<lambda>e. rl_run_id e = rid \<and> rl_ordinal e \<in> set (map cc_ordinal selected))"
  define R :: "runLogRetentionRow \<Rightarrow> bool" where "R = (\<lambda>t. rt_run_id t = rid \<and> rt_ordinal t \<in> set (map cc_ordinal selected))"
  define G :: "runRegistryRow \<Rightarrow> bool" where "G = (\<lambda>g. rg_run_id g = rid \<and> rg_kind g = runKindWorkflow \<and>
    rg_state g = runStateActive \<and> rg_compacted g = rg_compacted reg)"
  have E: "E e \<longleftrightarrow> rl_run_id e = rid \<and> rl_sequence e \<le> floor" if "e \<in> set (events s)" for e
    unfolding E_def ords floor_def by (rule selected_events [OF inv g ys_def seqs that])
  from ok last have cnt: "count_rows E (events s) = int (length selected)"
    and res: "res = \<lparr>cr_events = count_rows E (events s), cr_compacted = floor\<rparr>"
    and s': "s' = s\<lparr>retention := del_rows R (retention s), events := del_rows E (events s),
       registry := upd_rows G (\<lambda>g. g\<lparr>rg_compacted := floor\<rparr>) (registry s)\<rparr>"
    by (auto simp: compact_rows_def Let_def E_def R_def G_def split: if_split_asm)
  have "floor \<le> confirmed"
  proof -
    have "last ys \<in> set ys" using yne by simp
    then have "last ys \<in> set ?sel" unfolding ys_def by (rule in_set_takeD)
    then have "rl_sequence (last ys) \<le> confirmed" by simp
    with last yne show ?thesis by (simp add: sy last_map candidate_of_def)
  qed
  with E cnt res s' that [of floor E R G] show thesis
    by (simp add: G_def E_def R_def floor_def sy)
qed

lemma compact_rows_spec:
  assumes inv: "store_inv cd s" and g: "find_registry s rid = Some reg"
    and k: "rg_kind reg = runKindWorkflow" "rg_state reg = runStateActive"
    and sel: "contiguousConfirmedCandidates (confirmedRunLogCandidates cd rid (rg_compacted reg) confirmed lim s)
      (rg_compacted reg) before byteLimit = Inr selected" and ne: "selected \<noteq> []"
    and ok: "compact_rows rid reg selected s = Inr (res, s')"
  shows "compacted rid reg res s s' \<and> cr_compacted res \<le> confirmed"
  using inv g sel ne ok
proof (cases rule: compact_rows_cases)
  case (1 floor E R G)
  have "reg \<in> set (registry s)" "rg_run_id reg = rid"
    using g store_invD(1) [OF inv] by (auto simp: find_registry_iff)
  then have "find_registry s' rid = Some (reg\<lparr>rg_compacted := floor\<rparr>)"
    using g k regs.lookup_update [of "registry s" "\<lambda>g. g\<lparr>rg_compacted := floor\<rparr>" rid G] store_invD(1) [OF inv]
    by (simp add: 1(5,7) find_registry_def keys_ok_def)
  moreover have "events s' = filter (\<lambda>e. rl_run_id e \<noteq> rid \<or> floor < rl_sequence e) (events s)"
    using 1(3) by (auto simp: 1(7) del_rows_def not_le intro!: filter_cong)
  moreover have "int (length (events s')) = int (length (events s)) - count_rows E (events s)"
    by (simp add: 1(7) length_del_rows)
  ultimately show ?thesis using 1(1,2,6) by (simp add: compacted_def 1(7)) (simp add: count_rows_def)
qed

lemma confirmed_tx_cases:
  assumes inv: "store_inv cd s" and ok: "confirmed_tx en cd req lim byteLimit s = Inr (res, s')"
  obtains reg c where "find_registry s (cf_run_id req) = Some reg" "rg_kind reg = runKindWorkflow"
    "rg_state reg = runStateActive" "loadCheckpoint cd s (cf_run_id req) = Inr c"
    "cp_status c = CheckpointRunning \<or> cp_status c = CheckpointInterrupted" "cp_pending_sequence c = 0"
    "(res = \<lparr>cr_events = 0, cr_compacted = rg_compacted reg\<rparr> \<and> s' = s) \<or>
      (\<exists>selected. contiguousConfirmedCandidates (confirmedRunLogCandidates cd (cf_run_id req) (rg_compacted reg)
         (cp_confirmed_sequence c) lim s) (rg_compacted reg) (unix_nano (cf_before req)) byteLimit = Inr selected \<and>
         selected \<noteq> [] \<and> compact_rows (cf_run_id req) reg selected s = Inr (res, s'))"
proof -
  let ?rid = "cf_run_id req"
  have lk: "lockRunRegistry en s ?rid = find_registry s ?rid" using store_invD(1) [OF inv] by (rule lockRunRegistry_find)
  from ok lk obtain reg head c where
    r: "find_registry s ?rid = Some reg" "rg_kind reg = runKindWorkflow" "rg_state reg = runStateActive"
    and h: "find_head s ?rid = Some head" and c: "loadCheckpointMetadata cd s ?rid = Inr c"
    and st: "cp_status c = CheckpointRunning \<or> cp_status c = CheckpointInterrupted" "cp_pending_sequence c = 0"
    and rest: "(res = \<lparr>cr_events = 0, cr_compacted = rg_compacted reg\<rparr> \<and> s' = s) \<or>
      (\<exists>selected. contiguousConfirmedCandidates (confirmedRunLogCandidates cd ?rid (rg_compacted reg)
         (cp_confirmed_sequence c) lim s) (rg_compacted reg) (unix_nano (cf_before req)) byteLimit = Inr selected \<and>
         selected \<noteq> [] \<and> compact_rows ?rid reg selected s = Inr (res, s'))"
    by (auto simp: confirmed_tx_def Let_def rbind_Inr_iff split: option.split_asm if_split_asm)
  from metadata_head [OF inv h c] obtain full where full: "loadCheckpoint cd s ?rid = Inr full"
    "cp_confirmed_sequence full = cp_confirmed_sequence c" "cp_pending_sequence full = cp_pending_sequence c" by blast
  have "cp_status full = cp_status c"
    using metadata_head(1) [OF inv h c] head_latest [OF inv h] full(1)
    by (metis runHead_simps(3) sum.inject(2))
  with that [OF r full(1)] st full rest show thesis by simp
qed

lemma confirmed_tx_spec:
  assumes inv: "store_inv cd s" and ok: "confirmed_tx en cd req lim byteLimit s = Inr (res, s')"
  obtains reg c where "find_registry s (cf_run_id req) = Some reg" "rg_kind reg = runKindWorkflow"
    "rg_state reg = runStateActive" "loadCheckpoint cd s (cf_run_id req) = Inr c"
    "cp_status c = CheckpointRunning \<or> cp_status c = CheckpointInterrupted" "cp_pending_sequence c = 0"
    "compacted (cf_run_id req) reg res s s'"
    "cr_compacted res \<le> max (rg_compacted reg) (cp_confirmed_sequence c)"
  using inv ok
proof (cases rule: confirmed_tx_cases)
  case (1 reg c)
  from 1(7) have "compacted (cf_run_id req) reg res s s' \<and>
      cr_compacted res \<le> max (rg_compacted reg) (cp_confirmed_sequence c)"
  proof
    assume "res = \<lparr>cr_events = 0, cr_compacted = rg_compacted reg\<rparr> \<and> s' = s"
    with compacted_unchanged [OF inv 1(1)] show ?thesis by simp
  next
    assume "\<exists>selected. contiguousConfirmedCandidates (confirmedRunLogCandidates cd (cf_run_id req) (rg_compacted reg)
         (cp_confirmed_sequence c) lim s) (rg_compacted reg) (unix_nano (cf_before req)) byteLimit = Inr selected \<and>
         selected \<noteq> [] \<and> compact_rows (cf_run_id req) reg selected s = Inr (res, s')"
    then obtain selected where "contiguousConfirmedCandidates (confirmedRunLogCandidates cd (cf_run_id req) (rg_compacted reg)
         (cp_confirmed_sequence c) lim s) (rg_compacted reg) (unix_nano (cf_before req)) byteLimit = Inr selected"
      "selected \<noteq> []" "compact_rows (cf_run_id req) reg selected s = Inr (res, s')" by blast
    from compact_rows_spec [OF inv 1(1-3) this] show ?thesis by (simp add: le_max_iff_disj)
  qed
  with that [OF 1(1-6)] show thesis by blast
qed

end
