(* ===== verification/Dbstore_Abstract.thy ===== *)
theory Dbstore_Abstract
  imports Dbstore_Floor
begin

text \<open>
  The abstract specification of the store: the changes its tables may undergo, as a step
  relation without environments, clocks, errors or SQL. Every change keeps the invariant;
  the next theory shows that every operation is a sequence of changes.
\<close>

section \<open>Changes\<close>

text \<open>A row may be removed when its run is being purged, or is a standalone journal.\<close>

definition removable :: "'j db \<Rightarrow> string \<Rightarrow> bool" where
  "removable s rid \<longleftrightarrow> (\<exists>g. find_registry s rid = Some g \<and>
     (rg_kind g = runKindJournal \<or> rg_state g = runStatePurging))"

text \<open>Rewriting the lease of a row keeps everything but the expiry, which moves later.\<close>

definition lease_rewrite :: "'j codec \<Rightarrow> 'j checkpointRow \<Rightarrow> 'j checkpointRow \<Rightarrow> bool" where
  "lease_rewrite cd r r' \<longleftrightarrow> ck_run_id r' = ck_run_id r \<and> ck_version r' = ck_version r \<and>
    ck_payload r' = ck_payload r \<and>
    (\<forall>c. decode_row cd r = Inr c \<longrightarrow> (\<exists>t d. cp_lease_expires_at c \<le> t \<and>
       decode_row cd r' = Inr (c\<lparr>cp_lease_expires_at := t, cp_lease_duration := d\<rparr>)))"

inductive change :: "'j codec \<Rightarrow> 'j db \<Rightarrow> 'j db \<Rightarrow> bool" for cd where
  ch_domain: "find_registry s (rg_run_id g) = None \<Longrightarrow> rg_kind g = runKindJournal \<Longrightarrow>
     rg_state g = runStateActive \<Longrightarrow> rg_compacted g = 0 \<Longrightarrow>
     change cd s (s\<lparr>registry := registry s @ [g]\<rparr>)"
| ch_event: "event_key e \<notin> event_key ` set (events s) \<Longrightarrow> rl_ordinal e = next_ordinal s \<Longrightarrow>
     0 < rl_sequence e \<Longrightarrow> rt_ordinal t = rl_ordinal e \<Longrightarrow> rt_run_id t = rl_run_id e \<Longrightarrow>
     find_registry s (rl_run_id e) = Some g \<Longrightarrow> rg_state g = runStateActive \<Longrightarrow>
     rg_compacted g < rl_sequence e \<Longrightarrow>
     change cd s (s\<lparr>events := events s @ [e], next_ordinal := next_ordinal s + 1,
       retention := retention s @ [t]\<rparr>)"
| ch_create: "find_registry s (cp_run_id c) = None \<Longrightarrow> rg_run_id g = cp_run_id c \<Longrightarrow>
     rg_kind g = runKindWorkflow \<Longrightarrow> rg_state g = runStateActive \<Longrightarrow> rg_compacted g = 0 \<Longrightarrow>
     encodeCheckpointMetadata cd c = Inr j \<Longrightarrow> cp_version c = 1 \<Longrightarrow> cp_status c = CheckpointRunning \<Longrightarrow>
     k = \<lparr>ck_run_id = cp_run_id c, ck_version = cp_version c, ck_record_json = j, ck_payload = cp_payload c\<rparr> \<Longrightarrow>
     change cd s (s\<lparr>registry := registry s @ [g], checkpoints := checkpoints s @ [k],
       runs := runs s @ [runHead c]\<rparr>)"
| ch_advance: "find_head s (cp_run_id c) = Some h \<Longrightarrow> \<not> checkpointTerminal (rn_status h) \<Longrightarrow>
     cp_version c = rn_version h + 1 \<Longrightarrow> encodeCheckpointMetadata cd c = Inr j \<Longrightarrow>
     k = \<lparr>ck_run_id = cp_run_id c, ck_version = cp_version c, ck_record_json = j, ck_payload = cp_payload c\<rparr> \<Longrightarrow>
     P = (\<lambda>row. rn_run_id row = cp_run_id c \<and> rn_version row = rn_version h) \<Longrightarrow>
     change cd s (s\<lparr>checkpoints := checkpoints s @ [k], runs := upd_rows P (advance_head c) (runs s)\<rparr>)"
| ch_lease: "row \<in> set (checkpoints s) \<Longrightarrow> find_head s (ck_run_id row) = Some h \<Longrightarrow>
     ck_version row = rn_version h \<Longrightarrow> decode_row cd row = Inr c0 \<Longrightarrow>
     cp_lease_expires_at c0 \<le> t \<Longrightarrow>
     decodeCheckpoint cd j (ck_payload row) = Inr (c0\<lparr>cp_lease_expires_at := t, cp_lease_duration := d\<rparr>) \<Longrightarrow>
     P = (\<lambda>r. ck_run_id r = ck_run_id row \<and> ck_version r = ck_version row) \<Longrightarrow>
     \<not> checkpointTerminal (rn_status h) \<Longrightarrow>
     change cd s (s\<lparr>checkpoints := upd_rows P (\<lambda>r. r\<lparr>ck_record_json := j\<rparr>) (checkpoints s)\<rparr>)"
| ch_retire: "find_registry s rid = Some g \<Longrightarrow> find_head s rid = Some h \<Longrightarrow>
     checkpointTerminal (rn_status h) \<Longrightarrow>
     P = (\<lambda>x. rg_run_id x = rid \<and> rg_state x = runStateActive) \<Longrightarrow>
     Q = (\<lambda>x. rn_run_id x = rid \<and> rn_version x = rn_version h) \<Longrightarrow>
     change cd s (s\<lparr>registry := upd_rows P (\<lambda>x. x\<lparr>rg_state := runStatePurging, rg_updated_at := now\<rparr>)
       (registry s), runs := del_rows Q (runs s)\<rparr>)"
| ch_drop_events: "(\<And>e. e \<in> set (events s) \<Longrightarrow> P e \<Longrightarrow> removable s (rl_run_id e)) \<Longrightarrow>
     (\<And>e t. e \<in> set (events s) \<Longrightarrow> t \<in> set (retention s) \<Longrightarrow> rl_ordinal e = rt_ordinal t \<Longrightarrow>
       rl_run_id e = rt_run_id t \<Longrightarrow> P e = R t) \<Longrightarrow>
     change cd s (s\<lparr>retention := del_rows R (retention s), events := del_rows P (events s)\<rparr>)"
| ch_drop_checkpoints: "(\<And>r. r \<in> set (checkpoints s) \<Longrightarrow> P r \<Longrightarrow> ck_run_id r = rid) \<Longrightarrow>
     find_registry s rid = Some g \<Longrightarrow> rg_state g = runStatePurging \<Longrightarrow>
     change cd s (s\<lparr>checkpoints := del_rows P (checkpoints s)\<rparr>)"
| ch_purged: "find_registry s rid = Some g \<Longrightarrow> rg_kind g = runKindWorkflow \<Longrightarrow>
     rg_state g = runStatePurging \<Longrightarrow> \<forall>e \<in> set (events s). rl_run_id e \<noteq> rid \<Longrightarrow>
     \<forall>r \<in> set (checkpoints s). ck_run_id r \<noteq> rid \<Longrightarrow>
     P = (\<lambda>x. rg_run_id x = rid \<and> rg_state x = runStatePurging) \<Longrightarrow>
     change cd s (s\<lparr>registry := upd_rows P (\<lambda>x. x\<lparr>rg_state := runStatePurged, rg_updated_at := now\<rparr>)
       (registry s)\<rparr>)"
| ch_drop_domain: "\<forall>e \<in> set (events s). rl_run_id e \<noteq> rid \<Longrightarrow>
     (\<And>g. P g \<Longrightarrow> rg_run_id g = rid \<and> rg_kind g = runKindJournal) \<Longrightarrow>
     change cd s (s\<lparr>registry := del_rows P (registry s)\<rparr>)"
| ch_compact: "find_registry s rid = Some g \<Longrightarrow> rg_kind g = runKindWorkflow \<Longrightarrow>
     rg_state g = runStateActive \<Longrightarrow> rg_compacted g \<le> floor \<Longrightarrow>
     (\<And>e. e \<in> set (events s) \<Longrightarrow> P e \<longleftrightarrow> rl_run_id e = rid \<and> rl_sequence e \<le> floor) \<Longrightarrow>
     (\<And>e t. e \<in> set (events s) \<Longrightarrow> t \<in> set (retention s) \<Longrightarrow> rl_ordinal e = rt_ordinal t \<Longrightarrow>
       rl_run_id e = rt_run_id t \<Longrightarrow> P e = R t) \<Longrightarrow>
     G = (\<lambda>x. rg_run_id x = rid \<and> rg_kind x = runKindWorkflow \<and> rg_state x = runStateActive \<and>
       rg_compacted x = rg_compacted g) \<Longrightarrow>
     change cd s (s\<lparr>retention := del_rows R (retention s), events := del_rows P (events s),
       registry := upd_rows G (\<lambda>x. x\<lparr>rg_compacted := floor\<rparr>) (registry s)\<rparr>)"

inductive_cases changeE: "change cd s s'"

section \<open>Every change keeps the invariant\<close>

lemma registry_unique:
  "store_inv cd s \<Longrightarrow> find_registry s rid = Some g \<Longrightarrow> g' \<in> set (registry s) \<Longrightarrow> rg_run_id g' = rid \<Longrightarrow> g' = g"
  using store_invD(1) by (metis find_registry_iff option.inject)

lemma registry_row:
  assumes "store_inv cd s" and "find_registry s rid = Some g"
  shows "g \<in> set (registry s)" "rg_run_id g = rid" "registry_row_ok s g"
  using assms store_invD(1,3) [OF assms(1)] by (auto simp: find_registry_iff registry_ok_def)

lemma change_inv:
  assumes cd: "codec_ok cd" and inv: "store_inv cd s" and ch: "change cd s s'"
  shows "store_inv cd s'"
  using ch
proof cases
  case (ch_domain g)
  show ?thesis unfolding ch_domain(1) by (rule inv_add_journal_domain [OF inv ch_domain(2) refl ch_domain(3-5)])
next
  case (ch_event e t g)
  show ?thesis unfolding ch_event(1)
    using registry_row [OF inv ch_event(7)] ch_event(8,9)
    by (intro inv_append_event [OF inv ch_event(2-6)]) auto
next
  case (ch_create c g j k)
  show ?thesis unfolding ch_create(1)
    by (rule inv_create [OF inv cd ch_create(2-8,10)])
next
  case (ch_advance c h j k P)
  show ?thesis unfolding ch_advance(1) by (rule inv_advance [OF inv cd ch_advance(2,4-7)])
next
  case (ch_lease row h c0 t j d P)
  show ?thesis unfolding ch_lease(1)
    by (rule inv_rewrite_row [OF inv ch_lease(2,5,7) _ ch_lease(8)]) (simp add: runHead_def)
next
  case (ch_retire rid g h P Q now)
  show ?thesis unfolding ch_retire(1)
    by (rule inv_retire [OF inv ch_retire(2) _ _ _ _ ch_retire(3,5,6)]) simp_all
next
  case (ch_drop_events P R)
  show ?thesis unfolding ch_drop_events(1) by (rule inv_delete_events [OF inv ch_drop_events(3)])
next
  case (ch_drop_checkpoints P rid g)
  have noh: "\<not> has_head s rid"
    using registry_row [OF inv ch_drop_checkpoints(3)] ch_drop_checkpoints(4) by (auto simp: registry_row_ok_def)
  show ?thesis unfolding ch_drop_checkpoints(1)
    by (rule inv_delete_checkpoints [OF inv ch_drop_checkpoints(2) noh])
next
  case (ch_purged rid g P now)
  have "versions_of s rid = {}" using ch_purged(6) by (auto simp: versions_of_def)
  moreover have "\<not> has_head s rid"
    using registry_row [OF inv ch_purged(2)] ch_purged(4) by (auto simp: registry_row_ok_def)
  moreover have "x = g" if "x \<in> set (registry s)" "rg_run_id x = rid" for x
    using registry_unique [OF inv ch_purged(2) that] .
  ultimately show ?thesis unfolding ch_purged(1,7)
    using registry_row(3) [OF inv ch_purged(2)] ch_purged(3,5)
    by (intro inv_update_registry [OF inv]) (auto simp: registry_row_ok_def)
next
  case (ch_drop_domain rid P)
  show ?thesis unfolding ch_drop_domain(1) by (rule inv_drop_journal [OF inv ch_drop_domain(3,2)])
next
  case (ch_compact rid g floor P R G)
  let ?s1 = "s\<lparr>retention := del_rows R (retention s), events := del_rows P (events s)\<rparr>"
  have inv1: "store_inv cd ?s1" by (rule inv_delete_events [OF inv ch_compact(7)])
  have only: "x = g" if "x \<in> set (registry s)" "rg_run_id x = rid" for x
    using registry_unique [OF inv ch_compact(2) that] .
  have r0: "registry_row_ok ?s1 g" 
    using registry_row(1) [OF inv ch_compact(2)] store_invD(3) [OF inv1] by (simp add: registry_ok_def)
  have "store_inv cd (?s1\<lparr>registry := upd_rows G (\<lambda>x. x\<lparr>rg_compacted := floor\<rparr>) (registry ?s1)\<rparr>)"
  proof (rule inv_update_registry [OF inv1])
    show "rg_run_id (x\<lparr>rg_compacted := floor\<rparr>) = rg_run_id x" for x :: runRegistryRow by simp
    fix x assume x: "x \<in> set (registry ?s1)" "G x"
    then have xg: "x = g" "rg_run_id x = rid" using only by (simp_all add: ch_compact(8))
    with r0 ch_compact(3-5) show "registry_row_ok ?s1 (x\<lparr>rg_compacted := floor\<rparr>)"
      by (simp add: registry_row_ok_def)
    fix e assume "e \<in> set (events ?s1)" "rl_run_id e = rg_run_id x"
    with ch_compact(4,6) xg show "rg_state (x\<lparr>rg_compacted := floor\<rparr>) \<noteq> runStatePurged \<and>
        rg_compacted (x\<lparr>rg_compacted := floor\<rparr>) < rl_sequence e"
      by (auto simp: set_del_rows)
  qed
  then show ?thesis unfolding ch_compact(1) by simp
qed

section \<open>What survives a change\<close>

text \<open>
  \<open>evolves\<close> is the promise of the store about the past. A workflow run keeps its
  registry row: its state only moves from active to purging to purged, and its floor only
  rises. While a run is active its checkpoints stay, only the lease of the latest one may
  be extended, and its events above the floor stay. A run head only moves forward, and the
  head of a terminal run does not move.
\<close>

fun state_rank :: "run_state \<Rightarrow> nat" where
  "state_rank runStateActive = 0"
| "state_rank runStatePurging = 1"
| "state_rank runStatePurged = 2"

definition registry_evolves :: "'j db \<Rightarrow> 'j db \<Rightarrow> bool" where
  "registry_evolves s s' \<longleftrightarrow> (\<forall>rid g. find_registry s rid = Some g \<and> rg_kind g = runKindWorkflow \<longrightarrow>
     (\<exists>g'. find_registry s' rid = Some g' \<and> rg_kind g' = runKindWorkflow \<and>
       state_rank (rg_state g) \<le> state_rank (rg_state g') \<and> rg_compacted g \<le> rg_compacted g'))"

definition active :: "'j db \<Rightarrow> string \<Rightarrow> bool" where
  "active s rid \<longleftrightarrow> (\<exists>g. find_registry s rid = Some g \<and> rg_kind g = runKindWorkflow \<and>
     rg_state g = runStateActive)"

definition head_evolves :: "'j db \<Rightarrow> 'j db \<Rightarrow> bool" where
  "head_evolves s s' \<longleftrightarrow> (\<forall>rid h. find_head s rid = Some h \<and> active s' rid \<longrightarrow>
     (\<exists>h'. find_head s' rid = Some h' \<and> rn_version h \<le> rn_version h' \<and>
       (rn_version h = rn_version h' \<or> checkpointTerminal (rn_status h) \<longrightarrow> h' = h)))"

definition history_evolves :: "'j codec \<Rightarrow> 'j db \<Rightarrow> 'j db \<Rightarrow> bool" where
  "history_evolves cd s s' \<longleftrightarrow> (\<forall>r \<in> set (checkpoints s). active s' (ck_run_id r) \<longrightarrow>
     (\<exists>r' \<in> set (checkpoints s'). r' = r \<or> lease_rewrite cd r r' \<and>
       (\<exists>h. find_head s (ck_run_id r) = Some h \<and> ck_version r = rn_version h)))"

definition journal_evolves :: "'j db \<Rightarrow> 'j db \<Rightarrow> bool" where
  "journal_evolves s s' \<longleftrightarrow> (\<forall>e \<in> set (events s). \<forall>g'. find_registry s' (rl_run_id e) = Some g' \<and>
     rg_kind g' = runKindWorkflow \<and> rg_state g' = runStateActive \<and> rg_compacted g' < rl_sequence e \<and>
     active s (rl_run_id e) \<longrightarrow> e \<in> set (events s'))"

definition evolves :: "'j codec \<Rightarrow> 'j db \<Rightarrow> 'j db \<Rightarrow> bool" where
  "evolves cd s s' \<longleftrightarrow> registry_evolves s s' \<and> head_evolves s s' \<and> history_evolves cd s s' \<and>
    journal_evolves s s'"

lemma registry_evolvesD:
  assumes "registry_evolves s s'" and "find_registry s rid = Some g" and "rg_kind g = runKindWorkflow"
    and "find_registry s' rid = Some g'"
  shows "state_rank (rg_state g) \<le> state_rank (rg_state g')" "rg_compacted g \<le> rg_compacted g'"
  using assms unfolding registry_evolves_def by fastforce+

lemma lease_rewrite_trans:
  assumes ab: "lease_rewrite cd a b" and bc: "lease_rewrite cd b c"
  shows "lease_rewrite cd a c"
proof -
  have "\<exists>t d. cp_lease_expires_at c0 \<le> t \<and>
      decode_row cd c = Inr (c0\<lparr>cp_lease_expires_at := t, cp_lease_duration := d\<rparr>)" if "decode_row cd a = Inr c0" for c0
  proof -
    from ab that obtain t d where 1: "cp_lease_expires_at c0 \<le> t"
      "decode_row cd b = Inr (c0\<lparr>cp_lease_expires_at := t, cp_lease_duration := d\<rparr>)"
      unfolding lease_rewrite_def by blast
    with bc obtain t' d' where 2: "t \<le> t'"
      "decode_row cd c = Inr (c0\<lparr>cp_lease_expires_at := t', cp_lease_duration := d'\<rparr>)"
      unfolding lease_rewrite_def by fastforce
    show ?thesis by (rule exI [of _ t'], rule exI [of _ d']) (use 1 2 in simp)
  qed
  with ab bc show ?thesis unfolding lease_rewrite_def by simp
qed

lemma evolves_refl: "evolves cd s s"
  by (auto simp: evolves_def registry_evolves_def head_evolves_def history_evolves_def journal_evolves_def)

text \<open>Under the invariant an active workflow of a later state was active before.\<close>

lemma active_back:
  assumes "registry_evolves s s'" and "active s' rid" and "find_registry s rid = Some g"
    and "rg_kind g = runKindWorkflow"
  shows "active s rid"
proof -
  from assms(1,3,4) obtain g' where "find_registry s' rid = Some g'"
    "state_rank (rg_state g) \<le> state_rank (rg_state g')" by (auto simp: registry_evolves_def)
  with assms(2) have "state_rank (rg_state g) = 0" by (auto simp: active_def)
  with assms(3,4) show ?thesis by (cases "rg_state g") (auto simp: active_def)
qed

lemma head_active:
  assumes inv: "store_inv cd s" and h: "find_head s rid = Some h"
  shows "active s rid"
proof -
  note i = store_invD [OF inv]
  have hh: "has_head s rid" using h by (metis find_head_None option.distinct(1))
  with i(3) obtain g where g: "g \<in> set (registry s)" "rg_run_id g = rid"
    by (auto simp: registry_ok_def has_head_def image_iff)
  with i(1,3) hh show ?thesis
    by (auto simp: active_def find_registry_iff registry_ok_def registry_row_ok_def)
qed

lemma checkpoint_registry:
  assumes inv: "store_inv cd s" and r: "r \<in> set (checkpoints s)"
  obtains g where "find_registry s (ck_run_id r) = Some g" "rg_kind g = runKindWorkflow"
proof -
  note i = store_invD [OF inv]
  from i(3) r have "ck_run_id r \<in> rg_run_id ` set (registry s)" by (auto simp: registry_ok_def)
  then obtain g where g: "g \<in> set (registry s)" "rg_run_id g = ck_run_id r" by auto
  have "versions_of s (ck_run_id r) \<noteq> {}" using r by (auto simp: versions_of_def)
  with g i(3) have "rg_kind g = runKindWorkflow"
    by (metis registry_ok_def registry_row_ok_def run_kind.exhaust)
  with g i(1) that show thesis by (simp add: find_registry_iff)
qed

lemma evolves_trans:
  assumes i0: "store_inv cd s" and i1: "store_inv cd s1"
    and a: "evolves cd s s1" and b: "evolves cd s1 s2"
  shows "evolves cd s s2"
proof -
  note A = a [unfolded evolves_def] and B = b [unfolded evolves_def]
  have reg: "registry_evolves s s2"
    unfolding registry_evolves_def
  proof (intro allI impI, elim conjE)
    fix rid g assume "find_registry s rid = Some g" "rg_kind g = runKindWorkflow"
    with A obtain g1 where g1: "find_registry s1 rid = Some g1" "rg_kind g1 = runKindWorkflow"
      "state_rank (rg_state g) \<le> state_rank (rg_state g1)" "rg_compacted g \<le> rg_compacted g1"
      unfolding registry_evolves_def by blast
    with B obtain g2 where "find_registry s2 rid = Some g2" "rg_kind g2 = runKindWorkflow"
      "state_rank (rg_state g1) \<le> state_rank (rg_state g2)" "rg_compacted g1 \<le> rg_compacted g2"
      unfolding registry_evolves_def by blast
    with g1 show "\<exists>g'. find_registry s2 rid = Some g' \<and> rg_kind g' = runKindWorkflow \<and>
       state_rank (rg_state g) \<le> state_rank (rg_state g') \<and> rg_compacted g \<le> rg_compacted g'"
      by (intro exI [of _ g2]) simp
  qed
  have actb: "active s1 rid" if "active s2 rid" "find_registry s1 rid = Some g" "rg_kind g = runKindWorkflow" for rid g
    using active_back [OF _ that] B by simp
  have reg1: "\<exists>g'. find_registry s1 rid = Some g' \<and> rg_kind g' = runKindWorkflow"
    if "find_registry s rid = Some g" "rg_kind g = runKindWorkflow" for rid g
    using A that by (auto simp: registry_evolves_def)
  have head: "head_evolves s s2"
    unfolding head_evolves_def
  proof (intro allI impI, elim conjE)
    fix rid h assume h: "find_head s rid = Some h" and act: "active s2 rid"
    from head_active [OF i0 h] obtain g where "find_registry s rid = Some g" "rg_kind g = runKindWorkflow"
      by (auto simp: active_def)
    with reg1 actb act have "active s1 rid" by blast
    with A h obtain h1 where h1: "find_head s1 rid = Some h1" "rn_version h \<le> rn_version h1"
      "rn_version h = rn_version h1 \<or> checkpointTerminal (rn_status h) \<longrightarrow> h1 = h" by (auto simp: head_evolves_def)
    with B act obtain h2 where h2: "find_head s2 rid = Some h2" "rn_version h1 \<le> rn_version h2"
      "rn_version h1 = rn_version h2 \<or> checkpointTerminal (rn_status h1) \<longrightarrow> h2 = h1" by (auto simp: head_evolves_def)
    show "\<exists>h'. find_head s2 rid = Some h' \<and> rn_version h \<le> rn_version h' \<and>
       (rn_version h = rn_version h' \<or> checkpointTerminal (rn_status h) \<longrightarrow> h' = h)"
    proof (intro exI [of _ h2] conjI impI)
      show "h2 = h" if "rn_version h = rn_version h2 \<or> checkpointTerminal (rn_status h)"
      proof -
        from that h1(2) h2(2) have "h1 = h" using h1(3) by force
        with that h2(3) show ?thesis by auto
      qed
    qed (use h1 h2 in auto)
  qed
  have hist: "history_evolves cd s s2"
    unfolding history_evolves_def
  proof (intro ballI impI)
    fix r assume r: "r \<in> set (checkpoints s)" and act: "active s2 (ck_run_id r)"
    obtain g where g: "find_registry s (ck_run_id r) = Some g" "rg_kind g = runKindWorkflow"
      by (rule checkpoint_registry [OF i0 r])
    with reg1 actb act have act1: "active s1 (ck_run_id r)" by blast
    with A r obtain r1 where r1: "r1 \<in> set (checkpoints s1)" "r1 = r \<or> lease_rewrite cd r r1 \<and>
       (\<exists>h. find_head s (ck_run_id r) = Some h \<and> ck_version r = rn_version h)"
      by (auto simp: history_evolves_def)
    then have key: "ck_run_id r1 = ck_run_id r" "ck_version r1 = ck_version r" by (auto simp: lease_rewrite_def)
    from B r1(1) act key obtain r2 where r2: "r2 \<in> set (checkpoints s2)" "r2 = r1 \<or> lease_rewrite cd r1 r2 \<and>
       (\<exists>h. find_head s1 (ck_run_id r) = Some h \<and> ck_version r = rn_version h)"
      by (auto simp: history_evolves_def)
    have latest: "\<exists>h. find_head s (ck_run_id r) = Some h \<and> ck_version r = rn_version h"
      if "find_head s1 (ck_run_id r) = Some h1" "ck_version r = rn_version h1" for h1
    proof -
      have "active s (ck_run_id r)" using active_back [OF _ act1 g] A by simp
      then have "has_head s (ck_run_id r)"
        using store_invD(3) [OF i0] registry_row(3) [OF i0] g by (auto simp: active_def registry_row_ok_def)
          (metis find_registry_iff store_invD(1) i0)
      then obtain h where h: "find_head s (ck_run_id r) = Some h" by (metis find_head_None option.exhaust)
      have "head_evolves s s1" using A by simp
      with h act1 that(1) have "rn_version h \<le> rn_version h1" unfolding head_evolves_def by fastforce
      moreover have "ck_version r \<le> rn_version h"
      proof -
        have "h \<in> set (runs s)" "rn_run_id h = ck_run_id r" using h store_invD(1) [OF i0] by (auto simp: find_head_iff)
        then have "versions_of s (ck_run_id r) = {1..rn_version h}"
          using store_invD(4) [OF i0] by (auto simp: history_ok_def head_ok_def)
        moreover have "ck_version r \<in> versions_of s (ck_run_id r)" using r by (auto simp: versions_of_def)
        ultimately show ?thesis by simp
      qed
      ultimately show ?thesis using h that(2) by auto
    qed
    show "\<exists>r' \<in> set (checkpoints s2). r' = r \<or> lease_rewrite cd r r' \<and>
       (\<exists>h. find_head s (ck_run_id r) = Some h \<and> ck_version r = rn_version h)"
      using r1(2) r2 latest lease_rewrite_trans [of cd r r1 r2] by (intro bexI [OF _ r2(1)]) auto
  qed
  have jour: "journal_evolves s s2"
    unfolding journal_evolves_def
  proof (intro ballI allI impI, elim conjE)
    fix e g2 assume e: "e \<in> set (events s)" and g2: "find_registry s2 (rl_run_id e) = Some g2"
      "rg_kind g2 = runKindWorkflow" "rg_state g2 = runStateActive" "rg_compacted g2 < rl_sequence e"
      and act: "active s (rl_run_id e)"
    from act reg1 obtain g1 where g1: "find_registry s1 (rl_run_id e) = Some g1" "rg_kind g1 = runKindWorkflow"
      by (auto simp: active_def)
    with B g2(1) have "state_rank (rg_state g1) \<le> state_rank (rg_state g2)" "rg_compacted g1 \<le> rg_compacted g2"
      using registry_evolvesD by blast+
    with g2 have a1: "rg_state g1 = runStateActive" "rg_compacted g1 < rl_sequence e" by (cases "rg_state g1", auto)
    with A e g1 act have "e \<in> set (events s1)" by (auto simp: journal_evolves_def)
    with B g2 g1 a1 show "e \<in> set (events s2)" by (auto simp: journal_evolves_def active_def)
  qed
  show ?thesis using reg head hist jour by (simp add: evolves_def)
qed

section \<open>Every change evolves\<close>

lemma find_upd_rows:
  assumes "\<And>x. key (f x) = key x"
  shows "find (\<lambda>r. key r = k) (upd_rows P f t) =
    map_option (\<lambda>g. if P g then f g else g) (find (\<lambda>r. key r = k) t)"
  unfolding upd_rows_def using assms by (induction t) auto

lemma find_append_row:
  "find P (t @ [r]) = (case find P t of None \<Rightarrow> if P r then Some r else None | Some x \<Rightarrow> Some x)"
  by (induction t) auto

text \<open>
  Each part of \<open>evolves\<close> from what the tables have in common; a change leaves the
  tables of the other parts alone.
\<close>

lemma registry_evolves_same: "registry s' = registry s \<Longrightarrow> registry_evolves s s'"
  by (auto simp: registry_evolves_def find_registry_def)

lemma head_evolves_same: "runs s' = runs s \<Longrightarrow> head_evolves s s'"
  by (auto simp: head_evolves_def find_head_def)

lemma history_evolves_subset: "set (checkpoints s) \<subseteq> set (checkpoints s') \<Longrightarrow> history_evolves cd s s'"
  by (auto simp: history_evolves_def)

lemma journal_evolves_subset: "set (events s) \<subseteq> set (events s') \<Longrightarrow> journal_evolves s s'"
  by (auto simp: journal_evolves_def)

lemmas evolves_parts = registry_evolves_same head_evolves_same history_evolves_subset journal_evolves_subset

lemma change_evolves:
  assumes cd: "codec_ok cd" and inv: "store_inv cd s" and ch: "change cd s s'"
  shows "evolves cd s s'"
  using ch
proof cases
  case (ch_domain g)
  have "registry_evolves s s'"
    unfolding registry_evolves_def ch_domain(1) by (auto simp: find_registry_def find_append_row)
  then show ?thesis by (simp add: evolves_def ch_domain(1) evolves_parts)
next
  case (ch_event e t g)
  show ?thesis by (simp add: evolves_def ch_event(1) evolves_parts subset_insertI)
next
  case (ch_create c g j k)
  have "registry_evolves s s'"
    unfolding registry_evolves_def ch_create(1) by (auto simp: find_registry_def find_append_row)
  moreover have "head_evolves s s'"
    unfolding head_evolves_def ch_create(1) by (auto simp: find_head_def find_append_row)
  ultimately show ?thesis
    by (simp add: evolves_def ch_create(1) history_evolves_subset journal_evolves_subset subset_insertI)
next
  case (ch_advance c h j k P)
  have "find_head s' rid = map_option (\<lambda>x. if P x then advance_head c x else x) (find_head s rid)" for rid
    unfolding ch_advance(1) find_head_def by (simp add: find_upd_rows advance_head_def)
  moreover have "rn_version (advance_head c x) = rn_version h + 1" for x
    using ch_advance(4) by (simp add: advance_head_def)
  moreover have "x = h" if "find_head s rid = Some x" "P x" for rid x
  proof -
    from that(1) have "rn_run_id x = rid" using store_invD(1) [OF inv] by (simp add: find_head_iff)
    with that ch_advance(2,7) show ?thesis by simp
  qed
  ultimately have "head_evolves s s'"
    unfolding head_evolves_def using ch_advance(3) by fastforce
  then show ?thesis
    by (simp add: evolves_def ch_advance(1) registry_evolves_same history_evolves_subset journal_evolves_subset subset_insertI)
next
  case (ch_lease row h c0 t j d P)
  have "history_evolves cd s s'"
    unfolding history_evolves_def
  proof (intro ballI impI)
    fix r assume r: "r \<in> set (checkpoints s)"
    show "\<exists>r' \<in> set (checkpoints s'). r' = r \<or> lease_rewrite cd r r' \<and>
       (\<exists>h. find_head s (ck_run_id r) = Some h \<and> ck_version r = rn_version h)"
    proof (cases "P r")
      case True
      then have "r = row" using r ch_lease(2,8) store_invD(1) [OF inv]
          ckpts.unique_row [of "checkpoints s" r row] by (simp add: keys_ok_def ckpt_key_def)
      moreover have "row\<lparr>ck_record_json := j\<rparr> \<in> set (checkpoints s')"
        using ch_lease(1,2,8) by (force simp: set_upd_rows)
      moreover have "lease_rewrite cd row (row\<lparr>ck_record_json := j\<rparr>)"
        using ch_lease(5-7) by (auto simp: lease_rewrite_def decode_row_def)
      ultimately show ?thesis using ch_lease(3,4) by blast
    next
      case False
      with r have "r \<in> set (checkpoints s')" by (force simp: ch_lease(1) set_upd_rows)
      then show ?thesis by blast
    qed
  qed
  then show ?thesis by (simp add: evolves_def ch_lease(1) registry_evolves_same head_evolves_same journal_evolves_subset)
next
  case (ch_retire rid g h P Q now)
  have fr: "find_registry s' x = map_option (\<lambda>g. if P g then g\<lparr>rg_state := runStatePurging, rg_updated_at := now\<rparr> else g)
      (find_registry s x)" for x
    unfolding ch_retire(1) find_registry_def by (simp add: find_upd_rows)
  have "registry_evolves s s'" unfolding registry_evolves_def fr using ch_retire(5) by auto
  moreover have "head_evolves s s'"
    unfolding head_evolves_def
  proof (intro allI impI, elim conjE)
    fix x hx assume hx: "find_head s x = Some hx" and act: "active s' x"
    have "rg_state (if P g then g\<lparr>rg_state := runStatePurging, rg_updated_at := now\<rparr> else g) \<noteq> runStateActive"
      using registry_row(2) [OF inv ch_retire(2)] ch_retire(5) by simp
    then have "\<not> active s' rid" using ch_retire(2) by (simp only: active_def fr) auto
    with act have "x \<noteq> rid" by blast
    with hx have "find_head s' x = Some hx"
      using heads.lookup_delete [of "runs s" x Q] store_invD(1) [OF inv] ch_retire(6)
      by (auto simp: ch_retire(1) find_head_def keys_ok_def dest: find_Some_iff')
    then show "\<exists>h'. find_head s' x = Some h' \<and> rn_version hx \<le> rn_version h' \<and>
       (rn_version hx = rn_version h' \<or> checkpointTerminal (rn_status hx) \<longrightarrow> h' = hx)" by simp
  qed
  ultimately show ?thesis by (simp add: evolves_def ch_retire(1) history_evolves_subset journal_evolves_subset)
next
  case (ch_drop_events P R)
  have "journal_evolves s s'"
    unfolding journal_evolves_def
  proof (intro ballI allI impI, elim conjE)
    fix e g' assume e: "e \<in> set (events s)" and act: "active s (rl_run_id e)"
    have "\<not> P e" using ch_drop_events(2) [OF e] act by (auto simp: active_def removable_def)
    with e show "e \<in> set (events s')" by (simp add: ch_drop_events(1) set_del_rows)
  qed
  then show ?thesis
    by (simp add: evolves_def ch_drop_events(1) registry_evolves_same head_evolves_same history_evolves_subset)
next
  case (ch_drop_checkpoints P rid g)
  have "history_evolves cd s s'"
    unfolding history_evolves_def ch_drop_checkpoints(1) using ch_drop_checkpoints(2-4)
    by (auto simp: set_del_rows active_def find_registry_def)
  then show ?thesis
    by (simp add: evolves_def ch_drop_checkpoints(1) registry_evolves_same head_evolves_same journal_evolves_subset)
next
  case (ch_purged rid g P now)
  have "registry_evolves s s'"
    unfolding registry_evolves_def ch_purged(1) find_registry_def using ch_purged(7) by (auto simp: find_upd_rows)
  then show ?thesis
    by (simp add: evolves_def ch_purged(1) head_evolves_same history_evolves_subset journal_evolves_subset)
next
  case (ch_drop_domain rid P)
  have "find_registry s' x = Some g" if "find_registry s x = Some g" "rg_kind g = runKindWorkflow" for x g
  proof -
    have "\<not> P g" using ch_drop_domain(3) that(2) by force
    with that(1) show ?thesis
      using regs.lookup_delete [of "registry s" x P] store_invD(1) [OF inv]
      by (auto simp: ch_drop_domain(1) find_registry_def keys_ok_def)
  qed
  then have "registry_evolves s s'" by (auto simp: registry_evolves_def)
  then show ?thesis
    by (simp add: evolves_def ch_drop_domain(1) head_evolves_same history_evolves_subset journal_evolves_subset)
next
  case (ch_compact rid g floor P R G)
  have fr: "find_registry s' x = map_option (\<lambda>g. if G g then g\<lparr>rg_compacted := floor\<rparr> else g) (find_registry s x)" for x
    unfolding ch_compact(1) find_registry_def by (simp add: find_upd_rows)
  have gr: "rg_run_id g = rid" by (rule registry_row(2) [OF inv ch_compact(2)])
  have "registry_evolves s s'" unfolding registry_evolves_def fr using ch_compact(5,8) by auto
  moreover have "journal_evolves s s'"
    unfolding journal_evolves_def fr
  proof (intro ballI allI impI, elim conjE)
    fix e g' assume e: "e \<in> set (events s)"
      and g': "map_option (\<lambda>g. if G g then g\<lparr>rg_compacted := floor\<rparr> else g) (find_registry s (rl_run_id e)) = Some g'"
      and low: "rg_compacted g' < rl_sequence e"
    have "\<not> P e"
    proof
      assume "P e"
      with ch_compact(6) e have "rl_run_id e = rid" "rl_sequence e \<le> floor" by auto
      moreover from this g' ch_compact(2-4,8) gr have "rg_compacted g' = floor" by auto
      ultimately show False using low by simp
    qed
    with e show "e \<in> set (events s')" by (simp add: ch_compact(1) set_del_rows)
  qed
  ultimately show ?thesis by (simp add: evolves_def ch_compact(1) head_evolves_same history_evolves_subset)
qed

section \<open>Settled runs\<close>

text \<open>
  A run is settled on a row when the row is the checkpoint of its terminal head, as long as
  the run is not retired. No change unsettles it.
\<close>

definition settled :: "'j db \<Rightarrow> string \<Rightarrow> 'j checkpointRow \<Rightarrow> bool" where
  "settled s rid row \<longleftrightarrow> (\<exists>g. find_registry s rid = Some g \<and> rg_kind g = runKindWorkflow) \<and>
     (active s rid \<longrightarrow> row \<in> set (checkpoints s) \<and> ck_run_id row = rid \<and>
       (\<exists>h. find_head s rid = Some h \<and> checkpointTerminal (rn_status h) \<and> ck_version row = rn_version h))"

lemma change_settled:
  assumes cd: "codec_ok cd" and inv: "store_inv cd s" and ch: "change cd s s'" and st: "settled s rid row"
  shows "settled s' rid row"
proof -
  from change_evolves [OF cd inv ch] have ev: "registry_evolves s s'" "head_evolves s s'" by (simp_all add: evolves_def)
  from st obtain g where g: "find_registry s rid = Some g" "rg_kind g = runKindWorkflow" by (auto simp: settled_def)
  with ev(1) have reg: "\<exists>g'. find_registry s' rid = Some g' \<and> rg_kind g' = runKindWorkflow"
    by (auto simp: registry_evolves_def)
  have "row \<in> set (checkpoints s') \<and> ck_run_id row = rid \<and>
      (\<exists>h. find_head s' rid = Some h \<and> checkpointTerminal (rn_status h) \<and> ck_version row = rn_version h)"
    if act: "active s' rid"
  proof -
    have act0: "active s rid" by (rule active_back [OF ev(1) act g])
    with st obtain h where row: "row \<in> set (checkpoints s)" "ck_run_id row = rid"
      and h: "find_head s rid = Some h" "checkpointTerminal (rn_status h)" "ck_version row = rn_version h"
      by (auto simp: settled_def)
    have "find_head s' rid = Some h" using ev(2) h(1,2) act unfolding head_evolves_def by blast
    moreover have "row \<in> set (checkpoints s')" using ch
    proof cases
      case (ch_lease r h' c0 t j d P)
      have "ck_run_id r \<noteq> rid" using ch_lease(3,9) h(1,2) by auto
      with row ch_lease(8) show ?thesis by (force simp: ch_lease(1) set_upd_rows)
    next
      case (ch_drop_checkpoints P r g')
      have "r \<noteq> rid" using ch_drop_checkpoints(3,4) act0 by (auto simp: active_def)
      with row ch_drop_checkpoints(2) show ?thesis by (auto simp: ch_drop_checkpoints(1) set_del_rows)
    qed (use row in simp_all)
    ultimately show ?thesis using row h by blast
  qed
  with reg show ?thesis by (simp add: settled_def)
qed

end
