(* ===== verification/Transitions.thy ===== *)
theory Transitions
  imports Prelude
begin

text \<open>
  Runs of a step relation, and the contract between a system and the proof of its
  invariant: a client shows that the initial states have the invariant and that a step
  keeps it, for as many steps as the system's counters allow, and obtains it for every
  reachable state. A system whose steps also respect a relation to the past obtains that
  relation between any two states of a run.
\<close>

inductive reaches :: "('s \<Rightarrow> 's \<Rightarrow> bool) \<Rightarrow> nat \<Rightarrow> 's \<Rightarrow> 's \<Rightarrow> bool" for step where
  reaches_refl: "reaches step 0 s s"
| reaches_step: "reaches step n s t \<Longrightarrow> step t u \<Longrightarrow> reaches step (Suc n) s u"

inductive_cases reaches_0E: "reaches step 0 s t"
inductive_cases reaches_SucE: "reaches step (Suc n) s t"

lemma reaches_trans: "reaches step m t u \<Longrightarrow> reaches step n s t \<Longrightarrow> reaches step (n + m) s u"
  by (induction rule: reaches.induct) (auto intro: reaches.intros)

locale counted_system =
  fixes init :: "'s \<Rightarrow> bool"
    and step :: "'s \<Rightarrow> 's \<Rightarrow> bool"
    and inv :: "nat \<Rightarrow> 's \<Rightarrow> bool"
    and bound :: nat
  assumes init_inv: "init s \<Longrightarrow> inv 0 s"
    and step_inv: "inv n s \<Longrightarrow> n < bound \<Longrightarrow> step s s' \<Longrightarrow> inv (Suc n) s'"
begin

lemma inv_continues: "reaches step n s t \<Longrightarrow> inv m s \<Longrightarrow> m + n \<le> bound \<Longrightarrow> inv (m + n) t"
  by (induction rule: reaches.induct) (auto intro: step_inv)

lemma inv_reachable: "init s \<Longrightarrow> reaches step n s t \<Longrightarrow> n \<le> bound \<Longrightarrow> inv n t"
  using inv_continues [of n s t 0] init_inv by simp

end

locale evolving_system = counted_system +
  fixes evolve :: "'s \<Rightarrow> 's \<Rightarrow> bool"
  assumes evolve_refl: "evolve s s"
    and evolve_trans: "inv m s \<Longrightarrow> inv n t \<Longrightarrow> evolve s t \<Longrightarrow> evolve t u \<Longrightarrow> evolve s u"
    and step_evolve: "inv n s \<Longrightarrow> n < bound \<Longrightarrow> step s s' \<Longrightarrow> evolve s s'"
begin

lemma evolve_continues: "reaches step n s t \<Longrightarrow> inv m s \<Longrightarrow> m + n \<le> bound \<Longrightarrow> evolve s t"
proof (induction rule: reaches.induct)
  case (reaches_refl s)
  show ?case by (rule evolve_refl)
next
  case (reaches_step n s t u)
  have i: "inv (m + n) t" using reaches_step by (intro inv_continues) auto
  moreover have "evolve t u" using i reaches_step by (intro step_evolve [OF i]) auto
  moreover have "evolve s t" using reaches_step by auto
  ultimately show ?case using reaches_step(4) evolve_trans [of m s "m + n" t u] by blast
qed

lemma evolve_reachable:
  "init s \<Longrightarrow> reaches step n s t \<Longrightarrow> reaches step k t u \<Longrightarrow> n + k \<le> bound \<Longrightarrow> evolve t u"
  by (rule evolve_continues [of k t u n]) (auto intro: inv_reachable)

end

end
