(* ===== verification/Dbstore_System.thy ===== *)
theory Dbstore_System
  imports Dbstore_Abstract Transitions
begin

text \<open>
  The refinement: under the invariant every transaction of the store that succeeds is a
  sequence of changes of the abstract specification.
\<close>

abbreviation changes :: "'j codec \<Rightarrow> 'j db \<Rightarrow> 'j db \<Rightarrow> bool" where
  "changes cd \<equiv> (change cd)\<^sup>*\<^sup>*"

section \<open>Journal\<close>

lemma appendRunLog_changes:
  assumes inv: "store_inv cd s" and g: "find_registry s (ev_run_id r) = Some g"
    and act: "rg_state g = runStateActive" and low: "rg_compacted g < ev_sequence r" and pos: "0 < ev_sequence r"
    and ok: "appendRunLog en r j s = Inr (u, s')"
  shows "changes cd s s'"
  using inv g act low ok
proof (cases rule: appendRunLog_cases)
  case (same e)
  then show ?thesis by simp
next
  case (new e t)
  have "event_key e \<notin> event_key ` set (events s)"
    using new evs.lookup_none [of "(ev_run_id r, ev_sequence r)" "events s"]
    by (auto simp: find_event_def event_key_def)
  with new g act low pos have "change cd s s'"
    unfolding new(5) by (intro ch_event [where g = g]) simp_all
  then show ?thesis by blast
qed

lemma append_tx_changes:
  assumes cd: "codec_ok cd" and inv: "store_inv cd s" and pos: "0 < ev_sequence r"
    and ok: "append_tx en r j s = Inr (u, s')"
  shows "changes cd s s'"
proof -
  from ok obtain reg s1 where e: "ensureRunRegistry en (ev_run_id r) runKindJournal s = Inr (reg, s1)"
    and low: "rg_compacted reg < ev_sequence r" and a: "appendRunLog en r j s1 = Inr (u, s')"
    by (auto simp: append_tx_def rbind_Inr_iff split: if_splits)
  from inv e show ?thesis
  proof (cases rule: ensureRunRegistry_cases)
    case found
    show ?thesis using a unfolding found(2) by (rule appendRunLog_changes [OF inv found(1,3) low pos])
  next
    case fresh
    have c1: "change cd s s1" unfolding fresh(2) using fresh by (intro ch_domain) simp_all
    have inv1: "store_inv cd s1" by (rule change_inv [OF cd inv c1])
    have "find_registry s1 (ev_run_id r) = Some reg"
      using fresh(2,3) store_invD(1) [OF inv1] by (simp add: find_registry_iff)
    from appendRunLog_changes [OF inv1 this fresh(5) low pos a] c1 show ?thesis
      by (rule converse_rtranclp_into_rtranclp [rotated])
  qed
qed

lemma append_fenced_tx_changes:
  assumes inv: "store_inv cd s" and pos: "0 < ev_sequence r"
    and ok: "append_fenced_tx en cd r f j s = Inr (u, s')"
  shows "changes cd s s'"
  using inv ok
proof (cases rule: append_fenced_tx_cases)
  case (1 reg current)
  show ?thesis by (rule appendRunLog_changes [OF inv 1(1,2,4) pos 1(12)])
qed

section \<open>Checkpoints\<close>

lemma create_tx_change:
  assumes inv: "store_inv cd s" and v1: "cp_version c0 = 1" and st: "cp_status c0 = CheckpointRunning"
    and ok: "create_tx en cd c0 s = Inr (u, s')"
  shows "change cd s s' \<and> find_registry s (cp_run_id c0) = None"
proof -
  note i = store_invD [OF inv]
  from ok obtain reg s1 c j t s2 where
    e: "ensureRunRegistry en (cp_run_id c0) runKindWorkflow s = Inr (reg, s1)"
    and c: "create_lease en c0 = Inr c" and j: "encodeCheckpointMetadata cd c = Inr j"
    and t: "ins_row ckpt_key \<lparr>ck_run_id = cp_run_id c, ck_version = cp_version c,
             ck_record_json = j, ck_payload = cp_payload c\<rparr> (checkpoints s1) = Inr t"
    and h: "insert_run_row en (runHead c) (s1\<lparr>checkpoints := t\<rparr>) = Inr s'"
    by (auto simp: create_tx_def rbind_Inr_iff)
  have cc: "cp_run_id c = cp_run_id c0" "cp_version c = 1" "cp_status c = CheckpointRunning"
    using create_lease_frame [OF c] v1 st by auto
  from inv e show ?thesis
  proof (cases rule: ensureRunRegistry_cases)
    case found
    then have "has_head s (cp_run_id c0)"
      using i(1,3) by (auto simp: find_registry_iff registry_ok_def registry_row_ok_def)
    then have "insert_run_row en (runHead c) (s1\<lparr>checkpoints := t\<rparr>) \<noteq> Inr s'"
      using found cc by (auto simp: insert_run_row_def rbind_Inr_iff ins_row_def has_head_def split: if_splits)
    with h show ?thesis by simp
  next
    case fresh
    then have "rg_run_id reg \<in> rg_run_id ` set (registry s1)" by simp
    with h t fresh cc have s': "s' = s\<lparr>registry := registry s @ [reg],
        checkpoints := checkpoints s @ [\<lparr>ck_run_id = cp_run_id c, ck_version = cp_version c,
             ck_record_json = j, ck_payload = cp_payload c\<rparr>], runs := runs s @ [runHead c]\<rparr>"
      by (auto simp: insert_run_row_def rbind_Inr_iff ins_row_def run_insert_after_def ins_ignore_def split: if_splits)
    show ?thesis using fresh cc j unfolding s' by (intro conjI ch_create) simp_all
  qed
qed

text \<open>A successful version step writes the given checkpoint at the next version.\<close>

definition advances_to :: "'j codec \<Rightarrow> checkpoint \<Rightarrow> 'j db \<Rightarrow> 'j db \<Rightarrow> bool" where
  "advances_to cd c s s' \<longleftrightarrow> (\<exists>h j. find_head s (cp_run_id c) = Some h \<and>
     \<not> checkpointTerminal (rn_status h) \<and> cp_version c = rn_version h + 1 \<and>
     encodeCheckpointMetadata cd c = Inr j \<and>
     s' = s\<lparr>checkpoints := checkpoints s @ [\<lparr>ck_run_id = cp_run_id c, ck_version = cp_version c,
        ck_record_json = j, ck_payload = cp_payload c\<rparr>],
      runs := upd_rows (\<lambda>row. rn_run_id row = cp_run_id c \<and> rn_version row = rn_version h)
        (advance_head c) (runs s)\<rparr>)"

lemma advances_to_change: "advances_to cd c s s' \<Longrightarrow> change cd s s'"
  unfolding advances_to_def by (auto intro: ch_advance)

lemma advanceCheckpoint_to:
  assumes inv: "store_inv cd s" and l: "lockRunHead en s (cp_run_id c)"
    and cur: "loadCheckpoint cd s (cp_run_id c) = Inr current" "cp_version current = version"
    and nt: "\<not> checkpointTerminal (cp_status current)"
    and v: "version < max_int64" "cp_version c = wrap64 (version + 1)"
    and ok: "advanceCheckpoint cd c version s = Inr (u, s')"
  shows "advances_to cd c s s'"
proof -
  from inv l cur(1) obtain h where h: "find_head s (cp_run_id c) = Some h" "runHead current = h"
      "cp_version current = rn_version h" by (rule locked_head)
  have "1 \<le> rn_version h"
    using h(1) store_invD [OF inv] by (auto simp: find_head_iff history_ok_def head_ok_def)
  with v cur(2) h(3) have "cp_version c = rn_version h + 1" by (simp add: wrap64_Suc)
  moreover have "\<not> checkpointTerminal (rn_status h)" using nt runHead_eqD(3) [OF h(2)] by simp
  ultimately show ?thesis using h ok cur(2)
    by (auto simp: advances_to_def advanceCheckpoint_def rbind_Inr_iff ins_row_def Let_def split: if_split_asm)
qed

lemma claim_tx_cases:
  assumes inv: "store_inv cd s" and v: "version < max_int64" and cv: "cp_version c0 = version"
    and ok: "claim_tx en cd c0 version s = Inr (u, s')"
  obtains current t where "loadCheckpoint cd s (cp_run_id c0) = Inr current" "cp_version current = version"
    "cp_status current = CheckpointRunning \<or> cp_status current = CheckpointInterrupted"
    "sameCheckpointIdentity current c0" "0 < en_db_micro en"
    "cp_lease_expires_at current \<le> unix_micro (en_db_micro en)"
    "cp_claim_sequence c0 = wrap64 (cp_claim_sequence current + 1)" "unix_micro (en_db_micro en) < t"
    "advances_to cd (c0\<lparr>cp_lease_expires_at := t, cp_version := wrap64 (version + 1)\<rparr>) s s'"
proof -
  from ok obtain current c where l: "lockRunHead en s (cp_run_id c0)"
    and cur: "loadCheckpoint cd s (cp_run_id c0) = Inr current" "cp_version current = version"
    and st: "cp_status current = CheckpointRunning \<or> cp_status current = CheckpointInterrupted"
    and now: "0 < en_db_micro en" and c: "claim_lease (unix_micro (en_db_micro en)) c0 = Inr c"
    and same: "sameCheckpointIdentity current c" and lease: "cp_lease_expires_at current \<le> unix_micro (en_db_micro en)"
    and sq: "cp_claim_sequence c = wrap64 (cp_claim_sequence current + 1)"
    and a: "advanceCheckpoint cd (c\<lparr>cp_version := wrap64 (cp_version c + 1)\<rparr>) version s = Inr (u, s')"
    by (auto simp: claim_tx_def rbind_Inr_iff databaseNow_Inr_iff not_less split: if_splits)
  from claim_lease_frame [OF c] obtain t where t: "unix_micro (en_db_micro en) < t"
    "c = c0\<lparr>cp_lease_expires_at := t\<rparr>" by blast
  have "advances_to cd (c\<lparr>cp_version := wrap64 (cp_version c + 1)\<rparr>) s s'"
    using t cv cur st by (intro advanceCheckpoint_to [OF inv _ _ _ _ v _ a, where en = en and current = current])
      (auto simp: l checkpointTerminal_def)
  with that [OF cur st _ now lease _ t(1)] same sq t cv show thesis
    by (simp add: sameCheckpointIdentity_def)
qed

lemma write_tx_cases:
  assumes inv: "store_inv cd s" and v: "version < max_int64" and cv: "cp_version c0 = version"
    and ok: "write_tx en cd c0 version s = Inr (u, s')"
  obtains current t where "loadCheckpoint cd s (cp_run_id c0) = Inr current" "cp_version current = version"
    "\<not> checkpointTerminal (cp_status current)" "sameCheckpointIdentity current c0"
    "cp_claim_sequence c0 = cp_claim_sequence current"
    "cp_owner_id c0 = '''' \<or> cp_owner_id c0 = cp_owner_id current"
    "cp_owner_id current \<noteq> '''' \<Longrightarrow> unix_micro (en_db_micro en) < cp_lease_expires_at current"
    "cp_owner_id c0 = cp_owner_id current \<Longrightarrow> cp_lease_expires_at current \<le> t"
    "advances_to cd (c0\<lparr>cp_lease_expires_at := t, cp_version := wrap64 (version + 1)\<rparr>) s s'"
proof -
  from ok obtain current c where l: "lockRunHead en s (cp_run_id c0)"
    and cur: "loadCheckpoint cd s (cp_run_id c0) = Inr current" "cp_version current = version"
    and nt: "\<not> checkpointTerminal (cp_status current)" and same: "sameCheckpointIdentity current c0"
    and c: "prepareCheckpointWriteLease en current c0 = Inr c"
    and a: "advanceCheckpoint cd ((keep_longer_lease current c)\<lparr>cp_version :=
      wrap64 (cp_version (keep_longer_lease current c) + 1)\<rparr>) version s = Inr (u, s')"
    by (auto simp: write_tx_def rbind_Inr_iff Let_def split: if_splits)
  from prepare_frame [OF c] obtain t0 where t0: "c = c0\<lparr>cp_lease_expires_at := t0\<rparr>" by blast
  have "\<exists>t. keep_longer_lease current c = c0\<lparr>cp_lease_expires_at := t\<rparr> \<and>
      (cp_owner_id c0 = cp_owner_id current \<longrightarrow> cp_lease_expires_at current \<le> t)"
  proof (cases "cp_owner_id c0 = cp_owner_id current \<and> t0 < cp_lease_expires_at current")
    case True
    then show ?thesis by (intro exI [of _ "cp_lease_expires_at current"]) (simp add: keep_longer_lease_def t0)
  next
    case False
    then show ?thesis by (intro exI [of _ t0]) (auto simp: keep_longer_lease_def t0)
  qed
  then obtain t where t: "keep_longer_lease current c = c0\<lparr>cp_lease_expires_at := t\<rparr>"
    "cp_owner_id c0 = cp_owner_id current \<Longrightarrow> cp_lease_expires_at current \<le> t" by blast
  have own: "cp_claim_sequence c0 = cp_claim_sequence current"
    "cp_owner_id c0 = '''' \<or> cp_owner_id c0 = cp_owner_id current"
    "cp_owner_id current \<noteq> '''' \<Longrightarrow> unix_micro (en_db_micro en) < cp_lease_expires_at current"
    using c by (auto simp: prepareCheckpointWriteLease_def Let_def rbind_Inr_iff databaseNow_Inr_iff split: if_splits)
  have "advances_to cd (c0\<lparr>cp_lease_expires_at := t, cp_version := wrap64 (version + 1)\<rparr>) s s'"
    using a unfolding t(1)
    by (intro advanceCheckpoint_to [OF inv _ _ _ nt v, where en = en]) (use l cur cv in simp_all)
  from that [OF cur nt same own t(2) this] show thesis .
qed

text \<open>A renewal that succeeds was asked for by the current owner before its lease ran out.\<close>

lemma renew_tx_cases:
  assumes inv: "store_inv cd s" and cd: "codec_ok cd" and ok: "renew_tx en cd l s = Inr (u, s')"
  obtains current where "loadCheckpoint cd s (ls_run_id l) = Inr current" "cp_status current = CheckpointRunning"
    "cp_owner_id current = ls_owner_id l" "cp_claim_sequence current = ls_claim_sequence l"
    "unix_micro (en_db_micro en) < cp_lease_expires_at current" "s' = s \<or> change cd s s'"
proof -
  from ok obtain current t where l: "lockRunHead en s (ls_run_id l)"
    and cur: "loadCheckpoint cd s (ls_run_id l) = Inr current" "cp_status current = CheckpointRunning"
      "cp_owner_id current = ls_owner_id l" "cp_claim_sequence current = ls_claim_sequence l"
      "unix_micro (en_db_micro en) < cp_lease_expires_at current"
    and rest: "s' = s \<or> (cp_lease_expires_at current < t \<and> (\<exists>j.
      encodeCheckpointMetadata cd (current\<lparr>cp_lease_expires_at := t\<rparr>) = Inr j \<and>
      s' = s\<lparr>checkpoints := upd_rows (\<lambda>row. ck_run_id row = ls_run_id l \<and> ck_version row = cp_version current)
         (\<lambda>row. row\<lparr>ck_record_json := j\<rparr>) (checkpoints s)\<rparr>))"
    by (auto simp: renew_tx_def rbind_Inr_iff databaseNow_Inr_iff Let_def split: if_split_asm sum.split_asm)
  from rest have "s' = s \<or> change cd s s'"
  proof
    assume "cp_lease_expires_at current < t \<and> (\<exists>j.
      encodeCheckpointMetadata cd (current\<lparr>cp_lease_expires_at := t\<rparr>) = Inr j \<and>
      s' = s\<lparr>checkpoints := upd_rows (\<lambda>row. ck_run_id row = ls_run_id l \<and> ck_version row = cp_version current)
         (\<lambda>row. row\<lparr>ck_record_json := j\<rparr>) (checkpoints s)\<rparr>)"
    then obtain j where j: "cp_lease_expires_at current < t"
      "encodeCheckpointMetadata cd (current\<lparr>cp_lease_expires_at := t\<rparr>) = Inr j"
      "s' = s\<lparr>checkpoints := upd_rows (\<lambda>row. ck_run_id row = ls_run_id l \<and> ck_version row = cp_version current)
         (\<lambda>row. row\<lparr>ck_record_json := j\<rparr>) (checkpoints s)\<rparr>" by blast
    from store_invD(1) [OF inv] l obtain h where h: "find_head s (ls_run_id l) = Some h"
      by (auto simp: lockRunHead_find)
    from head_latest [OF inv h] cur(1) obtain row where row: "row \<in> set (checkpoints s)"
      "ck_run_id row = ls_run_id l" "ck_version row = rn_version h" "decode_row cd row = Inr current"
      "runHead current = h" by (metis sum.inject(2))
    have cv: "cp_version current = ck_version row" using row(3,5) by auto
    have "cp_payload current = ck_payload row"
      using row(4) by (auto simp: decode_row_def decodeCheckpoint_def split: option.splits)
    with decode_encode [OF cd j(2)] obtain d where
      d: "decodeCheckpoint cd j (ck_payload row) = Inr (current\<lparr>cp_lease_expires_at := t, cp_lease_duration := d\<rparr>)"
      by auto
    have "change cd s s'" unfolding j(3) cv row(2) [symmetric]
      using ch_lease [OF row(1) _ row(3,4) less_imp_le [OF j(1)] d refl] row(2,5) h cur(2)
      by (auto simp: checkpointTerminal_def)
    then show ?thesis ..
  qed simp
  with that [OF cur] show thesis .
qed

section \<open>Retention\<close>

lemma enroll_tx_changes:
  assumes inv: "store_inv cd s" and ok: "enroll_tx en cd rid before s = Inr (b, s')"
  shows "changes cd s s'"
  using store_invD(1) [OF inv] ok
proof (cases rule: enroll_tx_cases)
  case skip
  then show ?thesis by simp
next
  case (enrolled reg head c)
  have "checkpointTerminal (rn_status head)"
    using enrolled(6) runHead_eqD(3) [OF metadata_head(1) [OF inv enrolled(4,5)]] by simp
  then have "change cd s s'" unfolding enrolled(9)
    by (intro ch_retire [OF enrolled(1,4)]) simp_all
  then show ?thesis by blast
qed

lemma deleteRunLogs_changes:
  assumes inv: "store_inv cd s" and g: "find_registry s rid = Some g" "rg_state g = runStatePurging"
    and d: "deleteRunLogs cd rid bud s = ((n, sz), s1)"
  shows "changes cd s s1"
  using store_invD(1) [OF inv] d
proof (cases rule: deleteRunLogs_effect)
  case none
  then show ?thesis by simp
next
  case (some P R)
  have "change cd s s1" unfolding some(1)
  proof (rule ch_drop_events)
    show "removable s (rl_run_id e)" if "P e" for e using some(2) [OF that] g by (simp add: removable_def)
  qed (use some(3) in blast)
  then show ?thesis by blast
qed

lemma deleteCheckpoints_changes:
  assumes inv: "store_inv cd s" and g: "find_registry s rid = Some g" "rg_state g = runStatePurging"
    and d: "deleteCheckpoints cd rid bud s = ((n, sz), s1)"
  shows "changes cd s s1"
  using store_invD(1) [OF inv] d
proof (cases rule: deleteCheckpoints_effect)
  case none
  then show ?thesis by simp
next
  case (some P)
  have "change cd s s1" unfolding some(1) by (rule ch_drop_checkpoints [OF some(2) g])
  then show ?thesis by blast
qed

lemma find_registry_same: "registry s' = registry s \<Longrightarrow> find_registry s' rid = find_registry s rid"
  by (simp add: find_registry_def)

lemma delete_history_tx_changes:
  assumes inv: "store_inv cd s" and cd: "codec_ok cd"
    and ok: "delete_history_tx en cd rid bud s = Inr (d, s')"
  shows "changes cd s s'"
proof -
  have lk: "lockRunRegistry en s rid = find_registry s rid" using store_invD(1) [OF inv] by (rule lockRunRegistry_find)
  consider (idle) "s' = s"
    | (purging) reg where "find_registry s rid = Some reg" "rg_kind reg = runKindWorkflow"
        "rg_state reg = runStatePurging"
    using ok by (auto simp: delete_history_tx_def lk split: option.splits if_splits)
  then show ?thesis
  proof cases
    case idle
    then show ?thesis by simp
  next
    case (purging reg)
    obtain n1 z1 s1 where d1: "deleteRunLogs cd rid bud s = ((n1, z1), s1)" by (metis surj_pair)
    let ?bud = "\<lparr>pb_rows = pb_rows bud - n1, pb_bytes = pb_bytes bud - z1\<rparr>"
    obtain n2 z2 s2 where d2: "deleteCheckpoints cd rid ?bud s1 = ((n2, z2), s2)" by (metis surj_pair)
    note A = deleteRunLogs_spec [OF inv cd d1]
    then have inv1: "store_inv cd s1" and r1: "registry s1 = registry s" "runs s1 = runs s" by simp_all
    have noh: "\<not> has_head s1 rid"
      using registry_row(3) [OF inv purging(1)] registry_row(2) [OF inv purging(1)] purging(3) r1
      by (auto simp: registry_row_ok_def has_head_def)
    have g1: "find_registry s1 rid = Some reg" using purging(1) by (simp add: find_registry_same [OF r1(1)])
    note B = deleteCheckpoints_spec [OF inv1 cd noh d2]
    then have r2: "registry s2 = registry s1" by simp
    have g2: "find_registry s2 rid = Some reg" using g1 by (simp add: find_registry_same [OF r2])
    have c12: "changes cd s s2"
      using deleteRunLogs_changes [OF inv purging(1,3) d1] deleteCheckpoints_changes [OF inv1 g1 purging(3) d2]
      by (rule rtranclp_trans)
    let ?P = "\<lambda>g. rg_run_id g = rid \<and> rg_state g = runStatePurging"
    let ?f = "\<lambda>g. g\<lparr>rg_state := runStatePurged, rg_updated_at := unix_nano (en_now_utc en)\<rparr>"
    have tx: "snd (projr (delete_history_tx en cd rid bud s)) =
        (if hasRunEvents rid s2 \<or> hasRunCheckpoints rid s2 then s2
         else s2\<lparr>registry := upd_rows ?P ?f (registry s2)\<rparr>)"
      unfolding delete_history_tx_def lk by (simp add: purging d1 d2) (simp add: Let_def)
    show ?thesis
    proof (cases "hasRunEvents rid s2 \<or> hasRunCheckpoints rid s2")
      case True
      with tx ok c12 show ?thesis by simp
    next
      case False
      with tx ok have s': "s' = s2\<lparr>registry := upd_rows ?P ?f (registry s2)\<rparr>" by simp
      have "change cd s2 s'" unfolding s' using False
        by (intro ch_purged [OF g2 purging(2,3)]) (auto simp: hasRunEvents_def hasRunCheckpoints_def has_row_def)
      with c12 show ?thesis by (rule rtranclp.rtrancl_into_rtrancl)
    qed
  qed
qed

lemma purge_journal_tx_changes:
  assumes inv: "store_inv cd s" and ok: "purge_journal_tx en rid ords before s = Inr (k, s')"
  shows "changes cd s s'"
  using inv ok
proof (cases rule: purge_journal_tx_cases)
  case idle
  then show ?thesis by simp
next
  case (del reg P R G s1)
  have c1: "change cd s s1" unfolding del(6)
  proof (rule ch_drop_events [OF _ del(4)])
    show "removable s (rl_run_id e)" if "P e" for e using del(3) [OF that] del(1,2) by (simp add: removable_def)
  qed
  show ?thesis
  proof (cases "hasRunEvents rid s1")
    case True
    with c1 del(8) show ?thesis by auto
  next
    case False
    have "change cd s1 (s1\<lparr>registry := del_rows G (registry s1)\<rparr>)"
      using False by (intro ch_drop_domain [OF _ del(5)]) (auto simp: hasRunEvents_def has_row_def)
    with c1 del(8) False show ?thesis by (simp add: rtranclp.rtrancl_into_rtrancl [OF r_into_rtranclp])
  qed
qed

lemma confirmed_tx_changes:
  assumes inv: "store_inv cd s" and ok: "confirmed_tx en cd req lim byteLimit s = Inr (res, s')"
  shows "changes cd s s'"
  using inv ok
proof (cases rule: confirmed_tx_cases)
  case act: (1 reg c)
  from act(7) show ?thesis
  proof
    assume "res = \<lparr>cr_events = 0, cr_compacted = rg_compacted reg\<rparr> \<and> s' = s"
    then show ?thesis by simp
  next
    assume "\<exists>selected. contiguousConfirmedCandidates (confirmedRunLogCandidates cd (cf_run_id req) (rg_compacted reg)
         (cp_confirmed_sequence c) lim s) (rg_compacted reg) (unix_nano (cf_before req)) byteLimit = Inr selected \<and>
         selected \<noteq> [] \<and> compact_rows (cf_run_id req) reg selected s = Inr (res, s')"
    then obtain selected where "contiguousConfirmedCandidates (confirmedRunLogCandidates cd (cf_run_id req) (rg_compacted reg)
         (cp_confirmed_sequence c) lim s) (rg_compacted reg) (unix_nano (cf_before req)) byteLimit = Inr selected"
      "selected \<noteq> []" "compact_rows (cf_run_id req) reg selected s = Inr (res, s')" by blast
    with inv act(1) show ?thesis
    proof (cases rule: compact_rows_cases)
      case (1 floor E R G)
      have "rg_compacted reg \<le> floor" using 1(1) by (simp add: count_rows_def)
      then have "change cd s s'" unfolding 1(7)
        by (rule ch_compact [OF act(1-3) _ 1(3) _ 1(5)]) (assumption, rule 1(4))
      then show ?thesis by blast
    qed
  qed
qed

section \<open>The operations as a step relation\<close>

text \<open>
  One step is one transaction: an operation of the store, or one of the transactions a
  purge is made of. Purges are not one step, so calls of other writers interleave with
  their transactions freely.
\<close>

inductive store_step :: "'j codec \<Rightarrow> 'j db \<Rightarrow> 'j db \<Rightarrow> bool" for cd where
  st_create: "Create en cd c s = (r, s') \<Longrightarrow> store_step cd s s'"
| st_claim: "Claim en cd c v s = (r, s') \<Longrightarrow> store_step cd s s'"
| st_renew: "RenewLease en cd l s = (r, s') \<Longrightarrow> store_step cd s s'"
| st_save: "Save en cd c v s = (r, s') \<Longrightarrow> store_step cd s s'"
| st_finish: "Finish en cd c v s = (r, s') \<Longrightarrow> store_step cd s s'"
| st_append: "Append en cd e s = (r, s') \<Longrightarrow> store_step cd s s'"
| st_append_fenced: "AppendFenced en cd e f s = (r, s') \<Longrightarrow> store_step cd s s'"
| st_enroll: "enrollTerminalRun en cd rid before s = (r', s') \<Longrightarrow> store_step cd s s'"
| st_delete: "deletePurgingHistory en cd rid bud s = (r'', s') \<Longrightarrow> store_step cd s s'"
| st_purge_journal: "transaction en (purge_journal_tx en rid ords before) s = (rj, s') \<Longrightarrow> store_step cd s s'"
| st_compact: "PurgeConfirmedRunLog en cd req s = (rc, s') \<Longrightarrow> store_step cd s s'"

lemma transaction_changes:
  assumes "\<And>x t. body s = Inr (x, t) \<Longrightarrow> changes cd s t" and "transaction en body s = (r, s')"
  shows "changes cd s s'"
  using assms by (auto simp: transaction_def split: option.split_asm sum.split_asm prod.split_asm)

text \<open>
  The store counts versions in \<open>int64\<close>: as long as no run has reached the last version,
  a step refines the abstract specification.
\<close>

definition versions_below :: "int \<Rightarrow> 'j db \<Rightarrow> bool" where
  "versions_below n s \<longleftrightarrow> (\<forall>h \<in> set (runs s). rn_version h \<le> n)"

lemma head_below:
  "store_inv cd s \<Longrightarrow> versions_below n s \<Longrightarrow> lockRunHead en s rid \<Longrightarrow>
   loadCheckpoint cd s rid = Inr c \<Longrightarrow> cp_version c \<le> n"
  by (metis find_head_iff locked_head store_invD(1) versions_below_def)

lemma claim_tx_changes:
  assumes inv: "store_inv cd s" and vb: "versions_below n s" "n < max_int64" and cv: "cp_version c0 = version"
    and ok: "claim_tx en cd c0 version s = Inr (u, s')"
  shows "changes cd s s'"
proof -
  from ok obtain current where "lockRunHead en s (cp_run_id c0)" "loadCheckpoint cd s (cp_run_id c0) = Inr current"
    "cp_version current = version" by (auto simp: claim_tx_def rbind_Inr_iff split: if_splits)
  with head_below [OF inv vb(1)] vb(2) have "version < max_int64" by fastforce
  from inv this cv ok show ?thesis
    by (cases rule: claim_tx_cases) (blast dest: advances_to_change)
qed

lemma write_tx_changes:
  assumes inv: "store_inv cd s" and vb: "versions_below n s" "n < max_int64" and cv: "cp_version c0 = version"
    and ok: "write_tx en cd c0 version s = Inr (u, s')"
  shows "changes cd s s'"
proof -
  from ok obtain current where "lockRunHead en s (cp_run_id c0)" "loadCheckpoint cd s (cp_run_id c0) = Inr current"
    "cp_version current = version" by (auto simp: write_tx_def rbind_Inr_iff Let_def split: if_splits)
  with head_below [OF inv vb(1)] vb(2) have "version < max_int64" by fastforce
  from inv this cv ok show ?thesis
    by (cases rule: write_tx_cases) (blast dest: advances_to_change)
qed

lemma write_checkpoint_changes:
  assumes inv: "store_inv cd s" and vb: "versions_below n s" "n < max_int64"
    and ok: "write_checkpoint en cd c v terminal s = (r, s')"
  shows "changes cd s s'"
proof (cases "s' = s")
  case False
  with ok obtain x where "transaction en (write_tx en cd c v) s = (x, s')" and v: "cp_version c = v"
    by (auto simp: write_checkpoint_def split: sum.split_asm if_split_asm prod.split_asm)
  then show ?thesis using transaction_changes write_tx_changes [OF inv vb v] by (metis old.unit.exhaust)
qed simp

lemma store_step_changes:
  assumes cd: "codec_ok cd" and inv: "store_inv cd s" and vb: "versions_below n s" "n < max_int64"
    and st: "store_step cd s s'"
  shows "changes cd s s'"
  using st
proof cases
  case (st_create en c r)
  show ?thesis
  proof (cases "s' = s")
    case False
    with st_create obtain x where "transaction en (create_tx en cd c) s = (x, s')"
      and c: "cp_version c = 1" "cp_status c = CheckpointRunning"
      by (auto simp: Create_def split: sum.split_asm if_split_asm prod.split_asm)
    then show ?thesis
      by (elim transaction_changes [rotated]) (use create_tx_change [OF inv c] in blast)
  qed simp
next
  case (st_claim en c v r)
  show ?thesis
  proof (cases "s' = s")
    case False
    with st_claim obtain x where "transaction en (claim_tx en cd c v) s = (x, s')" and v: "cp_version c = v"
      by (auto simp: Claim_def split: sum.split_asm if_split_asm prod.split_asm)
    then show ?thesis by (elim transaction_changes [rotated]) (rule claim_tx_changes [OF inv vb v])
  qed simp
next
  case (st_renew en l r)
  show ?thesis
  proof (cases "s' = s")
    case False
    with st_renew obtain x where "transaction en (renew_tx en cd l) s = (x, s')"
      by (auto simp: RenewLease_def split: sum.split_asm if_split_asm prod.split_asm)
    moreover have "changes cd s t" if "renew_tx en cd l s = Inr (u, t)" for u t
      using inv cd that by (cases rule: renew_tx_cases) auto
    ultimately show ?thesis by (elim transaction_changes [rotated])
  qed simp
next
  case (st_save en c v r)
  then show ?thesis unfolding Save_def by (rule write_checkpoint_changes [OF inv vb])
next
  case (st_finish en c v r)
  then show ?thesis unfolding Finish_def by (rule write_checkpoint_changes [OF inv vb])
next
  case (st_append en e r)
  show ?thesis
  proof (cases "s' = s")
    case False
    with st_append obtain x j where "transaction en (append_tx en e j) s = (x, s')"
      and "encodeRunLogRecord cd e = Inr j"
      by (auto simp: Append_def split: sum.split_asm prod.split_asm)
    moreover from this(2) have "0 < ev_sequence e"
      using validateRunLogRecord_pos by (auto simp: encodeRunLogRecord_Inr_iff)
    ultimately show ?thesis by (elim transaction_changes [rotated]) (rule append_tx_changes [OF cd inv])
  qed simp
next
  case (st_append_fenced en e f r)
  show ?thesis
  proof (cases "s' = s")
    case False
    with st_append_fenced obtain x j where "transaction en (append_fenced_tx en cd e f j) s = (x, s')"
      and "encodeRunLogRecord cd e = Inr j"
      by (auto simp: AppendFenced_def split: sum.split_asm prod.split_asm if_split_asm)
    moreover from this(2) have "0 < ev_sequence e"
      using validateRunLogRecord_pos by (auto simp: encodeRunLogRecord_Inr_iff)
    ultimately show ?thesis by (elim transaction_changes [rotated]) (rule append_fenced_tx_changes [OF inv])
  qed simp
next
  case (st_enroll en rid before r')
  then show ?thesis unfolding enrollTerminalRun_def
    by (elim transaction_changes [rotated]) (rule enroll_tx_changes [OF inv])
next
  case (st_delete en rid bud r')
  then show ?thesis unfolding deletePurgingHistory_def
    by (elim transaction_changes [rotated]) (rule delete_history_tx_changes [OF inv cd])
next
  case (st_purge_journal en rid ords before r)
  then show ?thesis by (elim transaction_changes [rotated]) (rule purge_journal_tx_changes [OF inv])
next
  case (st_compact en req r)
  show ?thesis
  proof (cases "s' = s")
    case False
    with st_compact obtain x lim bl where "transaction en (confirmed_tx en cd req lim bl) s = (x, s')"
      by (auto simp: PurgeConfirmedRunLog_def split: sum.split_asm prod.split_asm)
    then show ?thesis by (elim transaction_changes [rotated]) (rule confirmed_tx_changes [OF inv])
  qed simp
qed

section \<open>Versions grow by at most one per step\<close>

lemma versions_below_mono:
  "versions_below n s \<Longrightarrow> set (runs s') \<subseteq> set (runs s) \<Longrightarrow> n \<le> m \<Longrightarrow> versions_below m s'"
  unfolding versions_below_def by (meson order_trans subsetD)

lemma ensureRunRegistry_runs: "ensureRunRegistry en rid kind s = Inr (reg, s') \<Longrightarrow> runs s' = runs s"
  by (auto simp: ensureRunRegistry_def Let_def split: option.split_asm if_split_asm)

lemma appendRunLog_runs: "appendRunLog en r j s = Inr (u, s') \<Longrightarrow> runs s' = runs s"
  by (auto simp: appendRunLog_def insert_event_def event_insert_after_def rbind_Inr_iff Let_def
      split: option.split_asm if_split_asm)

lemma append_tx_runs:
  assumes "append_tx en r j s = Inr (u, s')"
  shows "runs s' = runs s"
proof -
  from assms obtain reg s1 where "ensureRunRegistry en (ev_run_id r) runKindJournal s = Inr (reg, s1)"
    "appendRunLog en r j s1 = Inr (u, s')" by (auto simp: append_tx_def rbind_Inr_iff split: if_split_asm)
  then show ?thesis using ensureRunRegistry_runs appendRunLog_runs by metis
qed

lemma append_fenced_tx_runs:
  assumes "append_fenced_tx en cd r f j s = Inr (u, s')"
  shows "runs s' = runs s"
proof -
  from assms obtain reg s1 where "ensureRunRegistry en (ev_run_id r) runKindWorkflow s = Inr (reg, s1)"
    "appendRunLog en r j s1 = Inr (u, s')"
    by (auto simp: append_fenced_tx_def rbind_Inr_iff split: if_split_asm sum.split_asm)
  then show ?thesis using ensureRunRegistry_runs appendRunLog_runs by metis
qed

lemma renew_tx_runs: "renew_tx en cd l s = Inr (u, s') \<Longrightarrow> runs s' = runs s"
  by (auto simp: renew_tx_def rbind_Inr_iff Let_def split: if_split_asm sum.split_asm)

lemma transaction_runs:
  assumes "transaction en body s = (r, s')" and "\<And>x t. body s = Inr (x, t) \<Longrightarrow> versions_below m t"
    and "versions_below m s"
  shows "versions_below m s'"
  using assms by (auto simp: transaction_def split: option.split_asm sum.split_asm prod.split_asm)

lemma advances_below:
  assumes "advances_to cd c s s'" and vb: "versions_below n s"
  shows "versions_below (n + 1) s'"
proof -
  from assms(1) obtain h where h: "find_head s (cp_run_id c) = Some h" "cp_version c = rn_version h + 1"
    and r: "runs s' = upd_rows (\<lambda>row. rn_run_id row = cp_run_id c \<and> rn_version row = rn_version h) (advance_head c) (runs s)"
    by (auto simp: advances_to_def)
  from h(1) have "h \<in> set (runs s)" unfolding find_head_def by (rule find_Some_iff' [THEN conjunct1])
  with h(2) vb have "cp_version c \<le> n + 1" by (auto simp: versions_below_def)
  with vb show ?thesis by (auto simp: versions_below_def r set_upd_rows advance_head_def)
qed

lemma claim_tx_below:
  assumes inv: "store_inv cd s" and vb: "versions_below n s" "n < max_int64" and cv: "cp_version c0 = version"
    and ok: "claim_tx en cd c0 version s = Inr (u, s')"
  shows "versions_below (n + 1) s'"
proof -
  from ok obtain current where "lockRunHead en s (cp_run_id c0)" "loadCheckpoint cd s (cp_run_id c0) = Inr current"
    "cp_version current = version" by (auto simp: claim_tx_def rbind_Inr_iff split: if_splits)
  with head_below [OF inv vb(1)] vb(2) have "version < max_int64" by fastforce
  from inv this cv ok show ?thesis
    by (cases rule: claim_tx_cases) (rule advances_below [OF _ vb(1)])
qed

lemma write_tx_below:
  assumes inv: "store_inv cd s" and vb: "versions_below n s" "n < max_int64" and cv: "cp_version c0 = version"
    and ok: "write_tx en cd c0 version s = Inr (u, s')"
  shows "versions_below (n + 1) s'"
proof -
  from ok obtain current where "lockRunHead en s (cp_run_id c0)" "loadCheckpoint cd s (cp_run_id c0) = Inr current"
    "cp_version current = version" by (auto simp: write_tx_def rbind_Inr_iff Let_def split: if_splits)
  with head_below [OF inv vb(1)] vb(2) have "version < max_int64" by fastforce
  from inv this cv ok show ?thesis
    by (cases rule: write_tx_cases) (rule advances_below [OF _ vb(1)])
qed

lemma write_checkpoint_below:
  assumes inv: "store_inv cd s" and vb: "versions_below n s" "n < max_int64"
    and ok: "write_checkpoint en cd c v terminal s = (r, s')"
  shows "versions_below (n + 1) s'"
proof (cases "s' = s")
  case True
  with versions_below_mono [OF vb(1), of s] show ?thesis by simp
next
  case False
  with ok obtain x where tx: "transaction en (write_tx en cd c v) s = (x, s')" and v: "cp_version c = v"
    by (auto simp: write_checkpoint_def split: sum.split_asm if_split_asm prod.split_asm)
  from False tx have "write_tx en cd c v s = Inr ((), s')"
    by (auto simp: transaction_def split: option.split_asm sum.split_asm prod.split_asm)
  with v show ?thesis by (rule write_tx_below [OF inv vb])
qed

lemma create_tx_below:
  assumes "create_tx en cd c s = Inr (u, s')" and "cp_version c = 1" and "versions_below n s" and "0 \<le> n"
  shows "versions_below (n + 1) s'"
proof -
  from assms(1) obtain reg s1 c' t where "ensureRunRegistry en (cp_run_id c) runKindWorkflow s = Inr (reg, s1)"
    and c': "create_lease en c = Inr c'" and i: "insert_run_row en (runHead c') (s1\<lparr>checkpoints := t\<rparr>) = Inr s'"
    by (auto simp: create_tx_def rbind_Inr_iff)
  then have "runs s1 = runs s" using ensureRunRegistry_runs by blast
  with i have "runs s' = runs s @ [runHead c']"
    by (auto simp: insert_run_row_def run_insert_after_def rbind_Inr_iff ins_row_def split: if_split_asm)
  moreover have "cp_version c' = 1" using create_lease_frame [OF c'] assms(2) by auto
  ultimately show ?thesis using assms(3,4) by (auto simp: versions_below_def)
qed

lemma store_step_below:
  assumes cd: "codec_ok cd" and inv: "store_inv cd s" and vb: "versions_below n s" "n < max_int64" and n: "0 \<le> n"
    and st: "store_step cd s s'"
  shows "versions_below (n + 1) s'"
proof -
  have vb1: "versions_below (n + 1) s" using versions_below_mono [OF vb(1), of s] by simp
  have same: "versions_below (n + 1) t" if "runs t = runs s" for t
    using versions_below_mono [OF vb(1), of t] that by simp
  note tx = transaction_runs [OF _ _ vb1]
  show ?thesis using st
  proof cases
    case (st_create en c r)
    show ?thesis
    proof (cases "s' = s")
      case False
      with st_create obtain x where "transaction en (create_tx en cd c) s = (x, s')" and c: "cp_version c = 1"
        by (auto simp: Create_def split: sum.split_asm if_split_asm prod.split_asm)
      then show ?thesis by (elim tx) (rule create_tx_below [OF _ c vb(1) n])
    qed (simp add: vb1)
  next
    case (st_claim en c v r)
    show ?thesis
    proof (cases "s' = s")
      case False
      with st_claim obtain x where "transaction en (claim_tx en cd c v) s = (x, s')" and v: "cp_version c = v"
        by (auto simp: Claim_def split: sum.split_asm if_split_asm prod.split_asm)
      then show ?thesis by (elim tx) (rule claim_tx_below [OF inv vb v])
    qed (simp add: vb1)
  next
    case (st_renew en l r)
    show ?thesis
    proof (cases "s' = s")
      case False
      with st_renew obtain x where "transaction en (renew_tx en cd l) s = (x, s')"
        by (auto simp: RenewLease_def split: sum.split_asm if_split_asm prod.split_asm)
      then show ?thesis by (elim tx) (rule same [OF renew_tx_runs])
    qed (simp add: vb1)
  next
    case (st_save en c v r)
    then show ?thesis unfolding Save_def by (rule write_checkpoint_below [OF inv vb])
  next
    case (st_finish en c v r)
    then show ?thesis unfolding Finish_def by (rule write_checkpoint_below [OF inv vb])
  next
    case (st_append en e r)
    show ?thesis
    proof (cases "s' = s")
      case False
      with st_append obtain x j where "transaction en (append_tx en e j) s = (x, s')"
        by (auto simp: Append_def split: sum.split_asm prod.split_asm)
      then show ?thesis by (elim tx) (rule same [OF append_tx_runs])
    qed (simp add: vb1)
  next
    case (st_append_fenced en e f r)
    show ?thesis
    proof (cases "s' = s")
      case False
      with st_append_fenced obtain x j where "transaction en (append_fenced_tx en cd e f j) s = (x, s')"
        by (auto simp: AppendFenced_def split: sum.split_asm prod.split_asm if_split_asm)
      then show ?thesis by (elim tx) (rule same [OF append_fenced_tx_runs])
    qed (simp add: vb1)
  next
    case (st_enroll en rid before r')
    have "versions_below (n + 1) t" if "enroll_tx en cd rid before s = Inr (b, t)" for b t
      using store_invD(1) [OF inv] that
      by (cases rule: enroll_tx_cases) (auto intro: versions_below_mono [OF vb(1)] simp: vb1 set_del_rows)
    with st_enroll show ?thesis unfolding enrollTerminalRun_def by (elim tx)
  next
    case (st_delete en rid bud r')
    have "versions_below (n + 1) t" if "delete_history_tx en cd rid bud s = Inr (d, t)" for d t
      using delete_history_tx_spec [OF inv cd that] by (intro same) (simp add: deletes_only_def)
    with st_delete show ?thesis unfolding deletePurgingHistory_def by (elim tx)
  next
    case (st_purge_journal en rid ords before r)
    have "versions_below (n + 1) t" if "purge_journal_tx en rid ords before s = Inr (d, t)" for d t
      using purge_journal_tx_spec [OF inv that] by (intro same) (simp add: spares_workflows_def)
    with st_purge_journal show ?thesis by (elim tx)
  next
    case (st_compact en req r)
    have c: "versions_below (n + 1) t" if "confirmed_tx en cd req lim bl s = Inr (d, t)" for lim bl d t
      using inv that
    proof (cases rule: confirmed_tx_spec)
      case (1 reg c)
      from 1(7) have "runs t = runs s" unfolding compacted_def by blast
      then show ?thesis by (rule same)
    qed
    show ?thesis
    proof (cases "s' = s")
      case False
      with st_compact obtain x lim bl where "transaction en (confirmed_tx en cd req lim bl) s = (x, s')"
        by (auto simp: PurgeConfirmedRunLog_def split: sum.split_asm prod.split_asm)
      then show ?thesis by (elim tx) (rule c)
    qed (simp add: vb1)
  qed
qed

section \<open>The store as an evolving system\<close>

lemma changes_inv: "changes cd s s' \<Longrightarrow> codec_ok cd \<Longrightarrow> store_inv cd s \<Longrightarrow> store_inv cd s'"
  by (induction rule: rtranclp_induct) (auto intro: change_inv)

lemma changes_evolves: "changes cd s s' \<Longrightarrow> codec_ok cd \<Longrightarrow> store_inv cd s \<Longrightarrow> evolves cd s s'"
proof (induction rule: rtranclp_induct)
  case base
  show ?case by (rule evolves_refl)
next
  case (step t u)
  have i: "store_inv cd t" by (rule changes_inv [OF step(1,4,5)])
  show ?case by (rule evolves_trans [OF step(5) i step(3) [OF step(4,5)] change_evolves [OF step(4) i step(2)]])
qed

definition counted_inv :: "'j codec \<Rightarrow> nat \<Rightarrow> 'j db \<Rightarrow> bool" where
  "counted_inv cd n s \<longleftrightarrow> codec_ok cd \<and> store_inv cd s \<and> versions_below (int n) s"

interpretation store: evolving_system "\<lambda>s. codec_ok cd \<and> s = empty_db" "store_step cd" "counted_inv cd"
    "nat max_int64" "evolves cd" for cd :: "'j codec"
proof
  fix s :: "'j db"
  show "codec_ok cd \<and> s = empty_db \<Longrightarrow> counted_inv cd 0 s"
    by (simp add: counted_inv_def store_inv_empty) (simp add: versions_below_def empty_db_def)
next
  fix n and s s' :: "'j db"
  assume i: "counted_inv cd n s" and n: "n < nat max_int64" and st: "store_step cd s s'"
  then have a: "codec_ok cd" "store_inv cd s" "versions_below (int n) s" "int n < max_int64"
    by (simp_all add: counted_inv_def zless_nat_eq_int_zless)
  note ch = store_step_changes [OF a st]
  show "counted_inv cd (Suc n) s'"
    using changes_inv [OF ch a(1,2)] store_step_below [OF a _ st] a(1) by (simp add: counted_inv_def algebra_simps)
  show "evolves cd s s'" by (rule changes_evolves [OF ch a(1,2)])
next
  show "evolves cd s s" for s :: "'j db" by (rule evolves_refl)
next
  fix m n and s t u :: "'j db"
  assume "counted_inv cd m s" "counted_inv cd n t" "evolves cd s t" "evolves cd t u"
  then show "evolves cd s u" unfolding counted_inv_def by (blast intro: evolves_trans)
qed

text \<open>The same contract for another relation to the past: a settled run stays settled.\<close>

lemma changes_settled:
  "changes cd s s' \<Longrightarrow> codec_ok cd \<Longrightarrow> store_inv cd s \<Longrightarrow> settled s rid row \<Longrightarrow> settled s' rid row"
proof (induction rule: rtranclp_induct)
  case (step t u)
  have i: "store_inv cd t" by (rule changes_inv [OF step(1) step(4,5)])
  show ?case by (rule change_settled [OF step(4) i step(2) step(3) [OF step(4-6)]])
qed

interpretation settling: evolving_system "\<lambda>s. codec_ok cd \<and> s = empty_db" "store_step cd" "counted_inv cd"
    "nat max_int64" "\<lambda>s t. \<forall>rid row. settled s rid row \<longrightarrow> settled t rid row" for cd :: "'j codec"
proof
  fix n and s s' :: "'j db"
  assume "counted_inv cd n s" and "n < nat max_int64" and st: "store_step cd s s'"
  then have a: "codec_ok cd" "store_inv cd s" "versions_below (int n) s" "int n < max_int64"
    by (simp_all add: counted_inv_def zless_nat_eq_int_zless)
  show "\<forall>rid row. settled s rid row \<longrightarrow> settled s' rid row"
    using changes_settled [OF store_step_changes [OF a st] a(1,2)] by blast
qed blast+

lemmas store_reachable_inv = store.inv_reachable [unfolded counted_inv_def]

section \<open>A purge is a sequence of steps\<close>

lemma enrollTerminalRuns_steps:
  "enrollTerminalRuns ens n cd rids before bud s = (r, s') \<Longrightarrow> (store_step cd)\<^sup>*\<^sup>* s s'"
proof (induction ens n cd rids before bud s rule: enrollTerminalRuns.induct)
  case (1 ens n cd before bud s)
  then show ?case by simp
next
  case (2 ens n cd rid rids before bud s)
  show ?case
  proof (cases "query (ens n) (Inr (firstHistoryRowFits cd rid bud s))")
    case (Inl e)
    with "2.prems" show ?thesis by simp
  next
    case (Inr fits)
    obtain res s1 where t: "enrollTerminalRun (ens (n + 1)) cd rid before s = (res, s1)" by fastforce
    have "store_step cd s s1" using t by (rule st_enroll)
    with "2.prems" Inr t "2.IH" [OF Inr] show ?thesis
      by (cases res) (auto split: if_split_asm intro: converse_rtranclp_into_rtranclp)
  qed
qed

lemma purge_loop_steps:
  "purge_loop ens n cd rids bud res s = (r, s') \<Longrightarrow> (store_step cd)\<^sup>*\<^sup>* s s'"
proof (induction ens n cd rids bud res s rule: purge_loop.induct)
  case (1 ens n cd bud res s)
  then show ?case by simp
next
  case (2 ens n cd rid rids bud res s)
  obtain x s1 where t: "deletePurgingHistory (ens n) cd rid bud s = (x, s1)" by fastforce
  have st: "store_step cd s s1" using t by (rule st_delete)
  show ?case
  proof (cases x)
    case (Inl e)
    with "2.prems" t st show ?thesis by auto
  next
    case (Inr d)
    note ih = "2.IH" [OF t [symmetric] Inr refl refl]
    show ?thesis
    proof (cases "pb_rows bud - (hd_events d + hd_checkpoints d) \<le> 0 \<or> pb_bytes bud - hd_bytes d \<le> 0")
      case True
      with "2.prems" t Inr st show ?thesis by (auto simp: Let_def)
    next
      case False
      with "2.prems" t Inr ih have "(store_step cd)\<^sup>*\<^sup>* s1 s'" by (auto simp: Let_def)
      with st show ?thesis by (rule converse_rtranclp_into_rtranclp)
    qed
  qed
qed

lemma purge_journal_loop_steps:
  "purge_journal_loop ens n cs rids before k s = (r, s') \<Longrightarrow> (store_step cd)\<^sup>*\<^sup>* s s'"
proof (induction ens n cs rids before k s rule: purge_journal_loop.induct)
  case (1 ens n cs before k s)
  then show ?case by simp
next
  case (2 ens n cs rid rids before k s)
  obtain x s1 where t: "transaction (ens n) (purge_journal_tx (ens n) rid (ordinals_of_run rid cs) before) s = (x, s1)"
    by fastforce
  have "store_step cd s s1" using t by (rule st_purge_journal)
  with "2.prems" t "2.IH" [OF t [symmetric]] show ?case
    by (cases x) (auto intro: converse_rtranclp_into_rtranclp)
qed

lemma PurgeTerminalRuns_steps:
  assumes "PurgeTerminalRuns ens cd req s = ((res, err), s')"
  shows "(store_step cd)\<^sup>*\<^sup>* s s'"
proof -
  have en: "(store_step cd)\<^sup>*\<^sup>* s t" if "purge_enroll ens cd before lim bud s = (x, t)" for before lim bud x t
    using that by (auto simp: purge_enroll_def Let_def split: sum.split_asm if_split_asm intro: enrollTerminalRuns_steps)
  show ?thesis using assms
  proof (cases rule: PurgeTerminalRuns_cases)
    case (early e)
    with en show ?thesis by blast
  next
    case (loop lim bud n s1 pending res' err' m)
    show ?thesis by (rule rtranclp_trans [OF en [OF loop(2)] purge_loop_steps [OF loop(3)]])
  qed
qed

lemma PurgeRunLog_steps:
  assumes "PurgeRunLog ens cd req s = (r, s')"
  shows "(store_step cd)\<^sup>*\<^sup>* s s'"
proof (cases "s' = s")
  case False
  with assms obtain cs before where "purge_journal_loop ens 1 cs (run_order [] cs) before 0 s = (r, s')"
    by (auto simp: PurgeRunLog_def Let_def split: sum.split_asm prod.split_asm)
  then show ?thesis by (rule purge_journal_loop_steps)
qed simp

end
