(* ===== verification/Dbstore_Examples.thy ===== *)
theory Dbstore_Examples
  imports Dbstore_System
begin

text \<open>
  Concrete inputs for the witnesses of the store: a codec that keeps a record as it is, a
  call environment without faults, and a small run with two checkpoints and two events.
\<close>

definition ex_codec :: "(checkpoint + event) codec" where
  "ex_codec = \<lparr>marshal_checkpoint = (\<lambda>r. Some (Inl r)),
     unmarshal_checkpoint = (\<lambda>j. case j of Inl r \<Rightarrow> Some r | Inr _ \<Rightarrow> None),
     marshal_event = (\<lambda>e. Some (Inr e)),
     unmarshal_event = (\<lambda>j. case j of Inr e \<Rightarrow> Some e | Inl _ \<Rightarrow> None),
     json_len = (\<lambda>_. 100)\<rparr>"

lemma ex_codec_ok: "codec_ok ex_codec"
proof -
  have "\<exists>d. r = r\<lparr>cp_lease_duration := d\<rparr>" for r :: checkpoint
    by (rule exI [of _ "cp_lease_duration r"]) simp
  then show ?thesis by (simp add: codec_ok_def ex_codec_def)
qed

definition ex_env :: "dialect \<Rightarrow> int \<Rightarrow> env" where
  "ex_env d t = \<lparr>en_dialect = d, en_open = True, en_ctx = None, en_ctx_after = None,
     en_fault = None, en_db_micro = t, en_now_utc = unix_micro t\<rparr>"

definition ex_ckpt :: checkpoint where
  "ex_ckpt = \<lparr>cp_id = ''c1'', cp_session_id = ''s'', cp_run_id = ''r'', cp_workflow_name = ''w'',
     cp_topology_version = ''t'', cp_schema_version = 1, cp_version = 1, cp_status = CheckpointRunning,
     cp_replay_status = ReplaySafe, cp_owner_id = ''o'', cp_claim_sequence = 1,
     cp_lease_expires_at = 0, cp_lease_duration = 1000000000, cp_confirmed_sequence = 0,
     cp_pending_sequence = 0, cp_payload = ''p'', cp_created_at = unix_micro 5,
     cp_updated_at = unix_micro 5\<rparr>"

definition ex_event :: "int \<Rightarrow> event" where
  "ex_event n = \<lparr>ev_session_id = ''s'', ev_run_id = ''r'', ev_sequence = n, ev_event_type = ''e'',
     ev_source = ''x'', ev_timestamp = unix_micro 6, ev_source_run_id = '''', ev_source_event_seq = 0,
     ev_payload = ''q''\<rparr>"

definition ex_fence :: fence where
  "ex_fence = \<lparr>fn_owner_id = ''o'', fn_claim_sequence = 1\<rparr>"

definition ex_save :: checkpoint where
  "ex_save = ex_ckpt\<lparr>cp_confirmed_sequence := 2, cp_payload := ''p2''\<rparr>"

definition ex_finish :: checkpoint where
  "ex_finish = ex_save\<lparr>cp_version := 2, cp_status := CheckpointCompleted\<rparr>"

definition ex_claim :: checkpoint where
  "ex_claim = ex_ckpt\<lparr>cp_owner_id := ''o2'', cp_claim_sequence := 2\<rparr>"

text \<open>
  A run of the store: the run is created, two events are appended, the checkpoint is saved,
  then finished; the lease of the first owner lasts one second.
\<close>

definition ex_created :: "(checkpoint + event) db" where
  "ex_created = snd (Create (ex_env Sqlite 10) ex_codec ex_ckpt empty_db)"

definition ex_logged :: "(checkpoint + event) db" where
  "ex_logged = snd (AppendFenced (ex_env Sqlite 11) ex_codec (ex_event 1) ex_fence ex_created)"

definition ex_logged2 :: "(checkpoint + event) db" where
  "ex_logged2 = snd (AppendFenced (ex_env Sqlite 12) ex_codec (ex_event 2) ex_fence ex_logged)"

definition ex_saved :: "(checkpoint + event) db" where
  "ex_saved = snd (Save (ex_env Sqlite 13) ex_codec ex_save 1 ex_logged2)"

definition ex_finished :: "(checkpoint + event) db" where
  "ex_finished = snd (Finish (ex_env Sqlite 14) ex_codec ex_finish 2 ex_saved)"

definition ex_request :: purge_request where
  "ex_request = \<lparr>pr_before = unix_micro 100, pr_limit = 0, pr_row_limit = 3, pr_byte_limit = 0\<rparr>"

definition ex_purged :: "(checkpoint + event) db" where
  "ex_purged = snd (PurgeTerminalRuns (\<lambda>_. ex_env Sqlite 20) ex_codec ex_request ex_finished)"

definition ex_confirmed_request :: confirmed_purge_request where
  "ex_confirmed_request = \<lparr>cf_run_id = ''r'', cf_before = unix_micro 100, cf_limit = 1,
     cf_byte_limit = 0, cf_allow_history_loss = True\<rparr>"

definition ex_compacted :: "(checkpoint + event) db" where
  "ex_compacted = snd (PurgeConfirmedRunLog (ex_env Sqlite 15) ex_codec ex_confirmed_request ex_saved)"

definition ex_journal :: "(checkpoint + event) db" where
  "ex_journal = snd (Append (ex_env Postgres 16) ex_codec ((ex_event 1)\<lparr>ev_run_id := ''j''\<rparr>) ex_saved)"

definition ex_journal_request :: runlog_purge_request where
  "ex_journal_request = \<lparr>lp_before = unix_micro 100, lp_limit = 0, lp_byte_limit = 0,
     lp_allow_replay_loss = True\<rparr>"

section \<open>The steps of the run\<close>

lemma ex_created_step: "store_step ex_codec empty_db ex_created"
  unfolding ex_created_def by (rule st_create [OF surjective_pairing])

lemma ex_logged2_steps: "reaches (store_step ex_codec) 2 ex_created ex_logged2"
proof -
  have "store_step ex_codec ex_created ex_logged" unfolding ex_logged_def
    by (rule st_append_fenced [OF surjective_pairing])
  moreover have "store_step ex_codec ex_logged ex_logged2" unfolding ex_logged2_def
    by (rule st_append_fenced [OF surjective_pairing])
  ultimately show ?thesis by (auto intro: reaches.intros simp: numeral_2_eq_2)
qed

lemma ex_saved_steps: "reaches (store_step ex_codec) 3 ex_created ex_saved"
proof -
  have "store_step ex_codec ex_logged2 ex_saved" unfolding ex_saved_def
    by (rule st_save [OF surjective_pairing])
  with ex_logged2_steps show ?thesis by (auto intro: reaches.intros simp: numeral_3_eq_3 numeral_2_eq_2)
qed

lemma ex_created_reach: "reaches (store_step ex_codec) 1 empty_db ex_created"
  using ex_created_step by (auto intro: reaches.intros)

lemma ex_saved_reach: "reaches (store_step ex_codec) 4 empty_db ex_saved"
  using reaches_trans [OF ex_saved_steps ex_created_reach] by simp

lemma ex_logged2_reach: "reaches (store_step ex_codec) 3 empty_db ex_logged2"
  using reaches_trans [OF ex_logged2_steps ex_created_reach] by (simp add: numeral_3_eq_3)

lemma ex_finished_reach: "reaches (store_step ex_codec) 5 empty_db ex_finished"
  using reaches_step [OF ex_saved_reach, of ex_finished]
  by (simp add: ex_finished_def st_finish [OF surjective_pairing])

lemma ex_compacted_reach: "reaches (store_step ex_codec) 5 empty_db ex_compacted"
  using reaches_step [OF ex_saved_reach, of ex_compacted]
  by (simp add: ex_compacted_def st_compact [OF surjective_pairing])

lemma ex_journal_reach: "reaches (store_step ex_codec) 5 empty_db ex_journal"
  using reaches_step [OF ex_saved_reach, of ex_journal]
  by (simp add: ex_journal_def st_append [OF surjective_pairing])

lemma ex_reach_inv: "reaches (store_step ex_codec) n empty_db s \<Longrightarrow> n \<le> 5 \<Longrightarrow> store_inv ex_codec s"
  using store.inv_reachable [of ex_codec empty_db n s] ex_codec_ok
  by (simp add: counted_inv_def max_int64_def)

lemma ex_invs: "store_inv ex_codec ex_created" "store_inv ex_codec ex_saved" "store_inv ex_codec ex_finished"
  "store_inv ex_codec ex_compacted" "store_inv ex_codec ex_journal" "store_inv ex_codec ex_logged2"
  using ex_reach_inv [OF ex_created_reach] ex_reach_inv [OF ex_saved_reach] ex_reach_inv [OF ex_finished_reach]
    ex_reach_inv [OF ex_compacted_reach] ex_reach_inv [OF ex_journal_reach] ex_reach_inv [OF ex_logged2_reach]
  by simp_all

section \<open>The results of the run\<close>

lemma ex_create: "fst (Create (ex_env Sqlite 10) ex_codec ex_ckpt empty_db) = Inr ()"
  by code_simp

lemma ex_appended: "fst (AppendFenced (ex_env Sqlite 11) ex_codec (ex_event 1) ex_fence ex_created) = Inr ()"
  by code_simp

lemma ex_save_ok: "fst (Save (ex_env Sqlite 13) ex_codec ex_save 1 ex_logged2) = Inr ()"
  by code_simp

lemma ex_finish_ok: "fst (Finish (ex_env Sqlite 14) ex_codec ex_finish 2 ex_saved) = Inr ()"
  by code_simp

lemma ex_compact_ok: "fst (PurgeConfirmedRunLog (ex_env Sqlite 15) ex_codec ex_confirmed_request ex_saved) =
    Inr \<lparr>cr_events = 1, cr_compacted = 1\<rparr>"
  by code_simp

lemma ex_purge_ok: "fst (PurgeTerminalRuns (\<lambda>_. ex_env Sqlite 20) ex_codec ex_request ex_finished) =
    (\<lparr>pu_runs = 0, pu_checkpoints = 1, pu_events = 2, pu_pending = 1\<rparr>, None)"
  by code_simp

lemma ex_journal_ok: "fst (Append (ex_env Postgres 16) ex_codec ((ex_event 1)\<lparr>ev_run_id := ''j''\<rparr>) ex_saved) = Inr ()"
  by code_simp

end
