(* ===== verification/Dbstore_Claims.thy ===== *)
theory Dbstore_Claims
  imports Dbstore_Examples
begin

text \<open>
  The properties of the store: the invariant and what survives on every run, the lease and
  version discipline of the checkpoint operations, and the journal.
\<close>

section \<open>Runs of the store\<close>

text \<open>
  C1. Every database that any interleaving of the store's transactions reaches from the
  empty one, in fewer than 2^63 - 1 steps, has the invariant: unique keys, a journal that
  agrees with its retention metadata and its registry, exactly one head for each active
  workflow run, and a history whose versions are 1 up to the head's version.
\<close>

theorem reachable_invariant:
  assumes "codec_ok cd" and "reaches (store_step cd) n empty_db s" and "int n \<le> max_int64"
  shows "store_inv cd s"
  using store.inv_reachable [of cd empty_db n s] assms by (simp add: counted_inv_def le_nat_iff)

theorem reachable_invariant_witness:
  "reaches (store_step ex_codec) 4 empty_db ex_saved \<and> store_inv ex_codec ex_saved"
  using reachable_invariant [OF ex_codec_ok ex_saved_reach] ex_saved_reach by (simp add: max_int64_def)

text \<open>
  C2. What a later state keeps of an earlier one, whatever happens in between: a workflow
  run keeps its registry row, whose state only moves from active to purging to purged and
  whose compaction floor only rises; while the run is active every checkpoint stays as it
  was written, except that the lease of the latest one may be extended, every event above
  the floor stays, the head only moves to higher versions, and a terminal head not at all.
\<close>

theorem the_past_is_kept:
  assumes "codec_ok cd" and "reaches (store_step cd) n empty_db s" and "reaches (store_step cd) k s t"
    and "int (n + k) \<le> max_int64"
  shows "registry_evolves s t \<and> head_evolves s t \<and> history_evolves cd s t \<and> journal_evolves s t"
  using store.evolve_reachable [of cd empty_db n s k t] assms by (simp add: evolves_def le_nat_iff)

theorem the_past_is_kept_witness:
  "reaches (store_step ex_codec) 3 ex_created ex_saved \<and> history_evolves ex_codec ex_created ex_saved"
proof -
  have "reaches (store_step ex_codec) 3 ex_created ex_saved"
    using reaches_trans [OF ex_saved_steps reaches_refl] by simp
  with the_past_is_kept [OF ex_codec_ok ex_created_reach this] show ?thesis by (simp add: max_int64_def)
qed

text \<open>
  C7. Every transaction that succeeds is a sequence of changes of the abstract
  specification, which knows nothing of clocks, dialects, drivers or statements.
\<close>

theorem store_refines_changes:
  assumes "codec_ok cd" and "store_inv cd s" and "versions_below n s" and "n < max_int64"
    and "store_step cd s s'"
  shows "(change cd)\<^sup>*\<^sup>* s s'"
  using assms by (rule store_step_changes)

theorem store_refines_changes_witness:
  "store_step ex_codec empty_db ex_created \<and> (change ex_codec)\<^sup>*\<^sup>* empty_db ex_created"
  using store_refines_changes [OF ex_codec_ok store_inv_empty, of 0 ex_created] ex_created_step
  by (simp add: versions_below_def empty_db_def max_int64_def)

text \<open>
  Purges are made of the store's transactions and of nothing else: the whole of
  \<open>PurgeTerminalRuns\<close> and of \<open>PurgeRunLog\<close> is a sequence of steps, whatever faults occur
  between them.
\<close>

theorem purges_are_steps:
  "(store_step cd)\<^sup>*\<^sup>* s (snd (PurgeTerminalRuns ens cd req s)) \<and>
   (store_step cd)\<^sup>*\<^sup>* s (snd (PurgeRunLog ens cd lreq s))"
  using PurgeTerminalRuns_steps [of ens cd req s] PurgeRunLog_steps [of ens cd lreq s]
  by (metis surj_pair snd_conv)

section \<open>Failed calls\<close>

lemma Create_failed: "fst (Create en cd c s) \<noteq> Inr () \<Longrightarrow> snd (Create en cd c s) = s"
  by (auto simp: Create_def transaction_def split: sum.splits option.splits prod.splits)

lemma Claim_failed: "fst (Claim en cd c v s) \<noteq> Inr () \<Longrightarrow> snd (Claim en cd c v s) = s"
  by (auto simp: Claim_def transaction_def split: sum.splits option.splits prod.splits)

lemma RenewLease_failed: "fst (RenewLease en cd l s) \<noteq> Inr () \<Longrightarrow> snd (RenewLease en cd l s) = s"
  by (auto simp: RenewLease_def transaction_def split: sum.splits option.splits prod.splits)

lemma write_failed:
  "fst (write_checkpoint en cd c v terminal s) \<noteq> Inr () \<Longrightarrow> snd (write_checkpoint en cd c v terminal s) = s"
  by (auto simp: write_checkpoint_def transaction_def split: sum.splits option.splits prod.splits)

lemma Append_failed: "fst (Append en cd e s) \<noteq> Inr () \<Longrightarrow> snd (Append en cd e s) = s"
  by (auto simp: Append_def transaction_def split: sum.splits option.splits prod.splits)

lemma AppendFenced_failed: "fst (AppendFenced en cd e f s) \<noteq> Inr () \<Longrightarrow> snd (AppendFenced en cd e f s) = s"
  by (auto simp: AppendFenced_def transaction_def split: sum.splits option.splits prod.splits)

lemma PurgeConfirmedRunLog_failed:
  "fst (PurgeConfirmedRunLog en cd req s) = Inl x \<Longrightarrow> snd (PurgeConfirmedRunLog en cd req s) = s"
  by (auto simp: PurgeConfirmedRunLog_def transaction_def split: sum.splits option.splits prod.splits)

text \<open>
  A call that returns an error has changed nothing: each single-transaction operation
  is atomic.
\<close>

theorem failed_calls_change_nothing:
  "(fst (Create en cd c s) = Inr () \<or> snd (Create en cd c s) = s) \<and>
   (fst (Claim en cd c v s) = Inr () \<or> snd (Claim en cd c v s) = s) \<and>
   (fst (RenewLease en cd l s) = Inr () \<or> snd (RenewLease en cd l s) = s) \<and>
   (fst (Save en cd c v s) = Inr () \<or> snd (Save en cd c v s) = s) \<and>
   (fst (Finish en cd c v s) = Inr () \<or> snd (Finish en cd c v s) = s) \<and>
   (fst (Append en cd e s) = Inr () \<or> snd (Append en cd e s) = s) \<and>
   (fst (AppendFenced en cd e f s) = Inr () \<or> snd (AppendFenced en cd e f s) = s) \<and>
   ((\<exists>x. fst (PurgeConfirmedRunLog en cd req s) = Inr x) \<or> snd (PurgeConfirmedRunLog en cd req s) = s)"
proof -
  have "(\<exists>x. fst (PurgeConfirmedRunLog en cd req s) = Inr x) \<or> snd (PurgeConfirmedRunLog en cd req s) = s"
    by (cases "fst (PurgeConfirmedRunLog en cd req s)") (simp_all add: PurgeConfirmedRunLog_failed)
  then show ?thesis
    by (simp add: disj_imp Save_def Finish_def Create_failed Claim_failed RenewLease_failed write_failed
        Append_failed AppendFenced_failed)
qed

end
