(* ===== verification/Dbstore_Checkpoint_Claims.thy ===== *)
theory Dbstore_Checkpoint_Claims
  imports Dbstore_Examples
begin

text \<open>
  The properties of the checkpoint operations: what \<open>Load\<close> returns after each of them,
  the compare-and-swap on versions, leases and claims, and that a finished run stays
  finished.
\<close>

section \<open>Successful calls\<close>

lemma write_ok:
  "write_checkpoint en cd c v terminal s = (Inr (), s') \<Longrightarrow>
   write_tx en cd c v s = Inr ((), s') \<and> cp_version c = v \<and> terminal = checkpointTerminal (cp_status c)"
  by (auto simp: write_checkpoint_def transaction_def split: sum.split_asm if_split_asm option.split_asm prod.split_asm)

lemma claim_ok:
  "Claim en cd c v s = (Inr (), s') \<Longrightarrow> claim_tx en cd c v s = Inr ((), s') \<and> cp_version c = v \<and>
   cp_status c = CheckpointRunning \<and> cp_owner_id c \<noteq> ''''"
  by (auto simp: Claim_def transaction_def split: sum.split_asm if_split_asm option.split_asm prod.split_asm)

lemma renew_ok: "RenewLease en cd l s = (Inr (), s') \<Longrightarrow> renew_tx en cd l s = Inr ((), s')"
  by (auto simp: RenewLease_def transaction_def split: sum.split_asm if_split_asm option.split_asm prod.split_asm)

lemma create_ok:
  "Create en cd c s = (Inr (), s') \<Longrightarrow> create_tx en cd c s = Inr ((), s') \<and> cp_version c = 1 \<and>
   cp_status c = CheckpointRunning"
  by (auto simp: Create_def transaction_def split: sum.split_asm if_split_asm option.split_asm prod.split_asm)

lemma append_fenced_ok:
  assumes "AppendFenced en cd r f s = (Inr (), s')"
  shows "\<exists>j. encodeRunLogRecord cd r = Inr j \<and> append_fenced_tx en cd r f j s = Inr ((), s')"
proof (cases "encodeRunLogRecord cd r")
  case (Inl e)
  with assms show ?thesis by (auto simp: AppendFenced_def split: sum.split_asm if_split_asm)
next
  case (Inr j)
  with assms have "transaction en (append_fenced_tx en cd r f j) s = (Inr (), s')"
    by (auto simp: AppendFenced_def split: sum.split_asm if_split_asm prod.split_asm)
  with Inr show ?thesis by (simp add: transaction_Inr_iff)
qed

section \<open>The latest checkpoint\<close>

lemma head_of_active:
  assumes inv: "store_inv cd s" and act: "active s rid"
  shows "\<exists>h. find_head s rid = Some h"
proof -
  from act obtain g where g: "find_registry s rid = Some g" "rg_kind g = runKindWorkflow"
    "rg_state g = runStateActive" by (auto simp: active_def)
  with registry_row(2,3) [OF inv g(1)] have "has_head s rid" by (simp add: registry_row_ok_def)
  then show ?thesis by (cases "find_head s rid") (simp_all add: find_head_None)
qed

lemma load_after_head:
  assumes inv: "store_inv cd s" and h: "find_head s rid = Some h"
    and k: "k \<in> set (checkpoints s)" "ck_run_id k = rid" "ck_version k = rn_version h" and d: "decode_row cd k = Inr c"
  shows "loadCheckpoint cd s rid = Inr c"
proof -
  from head_latest [OF inv h] obtain row c' where row: "row \<in> set (checkpoints s)" "ck_run_id row = rid"
    "ck_version row = rn_version h" "decode_row cd row = Inr c'" "loadCheckpoint cd s rid = Inr c'" by metis
  with k have "row = k" using store_invD(1) [OF inv] ckpts.unique_row [of "checkpoints s" row k]
    by (simp add: keys_ok_def ckpt_key_def)
  with row d show ?thesis by simp
qed

lemma advances_load:
  assumes cd: "codec_ok cd" and inv: "store_inv cd s" and a: "advances_to cd c s s'"
  shows "\<exists>d. loadCheckpoint cd s' (cp_run_id c) = Inr (c\<lparr>cp_lease_duration := d\<rparr>)"
    and "find_head s' (cp_run_id c) = Some (runHead c)" and "store_inv cd s'"
proof -
  show inv': "store_inv cd s'" by (rule change_inv [OF cd inv advances_to_change [OF a]])
  from a obtain h j where h: "find_head s (cp_run_id c) = Some h" and enc: "encodeCheckpointMetadata cd c = Inr j"
    and s': "s' = s\<lparr>checkpoints := checkpoints s @ [\<lparr>ck_run_id = cp_run_id c, ck_version = cp_version c,
        ck_record_json = j, ck_payload = cp_payload c\<rparr>],
      runs := upd_rows (\<lambda>row. rn_run_id row = cp_run_id c \<and> rn_version row = rn_version h)
        (advance_head c) (runs s)\<rparr>" by (auto simp: advances_to_def)
  have hr: "rn_run_id h = cp_run_id c" using h store_invD(1) [OF inv] by (simp add: find_head_iff)
  then have "advance_head c h = runHead c" by (simp add: advance_head_def runHead_def)
  then show hd: "find_head s' (cp_run_id c) = Some (runHead c)"
    using h hr unfolding s' find_head_def by (simp add: find_upd_rows advance_head_def)
  from decode_row_encoded [OF cd enc] obtain d where "decode_row cd \<lparr>ck_run_id = cp_run_id c,
      ck_version = cp_version c, ck_record_json = j, ck_payload = cp_payload c\<rparr> = Inr (c\<lparr>cp_lease_duration := d\<rparr>)"
    by metis
  then have "loadCheckpoint cd s' (cp_run_id c) = Inr (c\<lparr>cp_lease_duration := d\<rparr>)"
    by (intro load_after_head [OF inv' hd]) (auto simp: s')
  then show "\<exists>d. loadCheckpoint cd s' (cp_run_id c) = Inr (c\<lparr>cp_lease_duration := d\<rparr>)" ..
qed

text \<open>\<open>Load\<close> reads the latest checkpoint of an active workflow.\<close>

lemma active_rows:
  assumes inv: "store_inv cd s"
  shows "activeCheckpointRows rid s = (if active s rid then filter (\<lambda>r. ck_run_id r = rid) (checkpoints s) else [])"
proof -
  have "has_row (\<lambda>g. rg_run_id g = rid \<and> rg_kind g = runKindWorkflow \<and> rg_state g = runStateActive) (registry s) \<longleftrightarrow> active s rid"
  proof (cases "find_registry s rid")
    case None
    then have "\<not> active s rid" by (simp add: active_def)
    with None show ?thesis by (auto simp: has_row_def find_registry_None)
  next
    case (Some g)
    with has_row_registry [OF store_invD(1) [OF inv] Some] show ?thesis by (simp add: active_def)
  qed
  then show ?thesis unfolding activeCheckpointRows_def by (auto simp: filter_empty_conv intro!: filter_cong)
qed

lemma Load_eq:
  assumes inv: "store_inv cd s" and r: "ready en = Inr ()" "en_fault en = None"
    and v: "validateIndexedID ''run id'' rid = Inr ()"
  shows "Load en cd rid s = (if active s rid then loadCheckpoint cd s rid else Inl ErrCheckpointNotFound)"
  using r v by (auto simp: Load_def query_def active_rows [OF inv] select_rows_def loadCheckpoint_def
      latest_checkpoint_row_def first_row_def)

lemma load_of_active: "store_inv cd s \<Longrightarrow> find_head s rid = Some h \<Longrightarrow> ready en = Inr () \<Longrightarrow> en_fault en = None \<Longrightarrow>
  validateIndexedID ''run id'' rid = Inr () \<Longrightarrow> Load en cd rid s = loadCheckpoint cd s rid"
  by (simp add: Load_eq head_active)

text \<open>
  \<open>Load\<close> returns the checkpoint of the highest version of an active workflow run, and
  reports that a run is not found when it is unknown, a standalone journal, or retired.
\<close>

theorem load_returns_latest:
  assumes "store_inv cd s" and "ready en = Inr ()" and "en_fault en = None"
    and "validateIndexedID ''run id'' rid = Inr ()"
  shows "(active s rid \<longrightarrow> (\<exists>row c. row \<in> set (checkpoints s) \<and> ck_run_id row = rid \<and>
      (\<forall>x \<in> set (checkpoints s). ck_run_id x = rid \<longrightarrow> ck_version x \<le> ck_version row) \<and>
      decodeCheckpoint cd (ck_record_json row) (ck_payload row) = Inr c \<and>
      cp_run_id c = rid \<and> cp_version c = ck_version row \<and> Load en cd rid s = Inr c)) \<and>
    (\<not> active s rid \<longrightarrow> Load en cd rid s = Inl ErrCheckpointNotFound)"
proof (intro conjI impI)
  assume act: "active s rid"
  then obtain h where h: "find_head s rid = Some h" using head_of_active [OF assms(1)] by blast
  from head_latest [OF assms(1) h] obtain row c where row: "latest_checkpoint_row s rid = Some row"
    "decode_row cd row = Inr c" "runHead c = h" "ck_version row = rn_version h" "loadCheckpoint cd s rid = Inr c" by metis
  have "rn_run_id h = rid" using h store_invD(1) [OF assms(1)] by (simp add: find_head_iff)
  then have c: "cp_run_id c = rid" "cp_version c = ck_version row"
    using runHead_eqD [OF row(3)] row(4) by simp_all
  have l: "Load en cd rid s = Inr c" using act row(5) by (simp add: Load_eq [OF assms])
  show "\<exists>row c. row \<in> set (checkpoints s) \<and> ck_run_id row = rid \<and>
      (\<forall>x \<in> set (checkpoints s). ck_run_id x = rid \<longrightarrow> ck_version x \<le> ck_version row) \<and>
      decodeCheckpoint cd (ck_record_json row) (ck_payload row) = Inr c \<and>
      cp_run_id c = rid \<and> cp_version c = ck_version row \<and> Load en cd rid s = Inr c"
    using latest_checkpoint_rowD [OF row(1)] row(2) c l unfolding decode_row_def by blast
qed (simp add: Load_eq [OF assms])

theorem load_returns_latest_witness:
  "Load (ex_env Mysql 17) ex_codec ''r'' ex_saved =
     Inr (ex_save\<lparr>cp_version := 2, cp_lease_expires_at := unix_micro 13 + 1000000000\<rparr>) \<and> active ex_saved ''r'' \<and>
   Load (ex_env Mysql 17) ex_codec ''zz'' ex_saved = Inl ErrCheckpointNotFound"
proof -
  have e: "ready (ex_env Mysql 17) = Inr ()" "en_fault (ex_env Mysql 17) = None"
    "validateIndexedID ''run id'' ''r'' = Inr ()" "validateIndexedID ''run id'' ''zz'' = Inr ()" by code_simp+
  have "\<not> active ex_saved ''zz''"
  proof -
    have "find_registry ex_saved ''zz'' = None" by code_simp
    then show ?thesis by (simp add: active_def)
  qed
  moreover have l: "Load (ex_env Mysql 17) ex_codec ''r'' ex_saved =
      Inr (ex_save\<lparr>cp_version := 2, cp_lease_expires_at := unix_micro 13 + 1000000000\<rparr>)" by code_simp
  ultimately show ?thesis
    using load_returns_latest [OF ex_invs(2) e(1,2,3)] load_returns_latest [OF ex_invs(2) e(1,2,4)] by auto
qed

section \<open>Compare and swap\<close>

text \<open>What a successful write or claim has found and left: the parts the claims below share.\<close>

lemma write_effect:
  assumes cd: "codec_ok cd" and inv: "store_inv cd s" and v: "v < max_int64"
    and ok: "write_checkpoint en cd c v terminal s = (Inr (), s')"
  obtains current t d where "loadCheckpoint cd s (cp_run_id c) = Inr current" "cp_version current = v"
    "\<not> checkpointTerminal (cp_status current)" "sameCheckpointIdentity current c"
    "cp_claim_sequence c = cp_claim_sequence current"
    "cp_owner_id c = '''' \<or> cp_owner_id c = cp_owner_id current"
    "cp_owner_id current \<noteq> '''' \<Longrightarrow> unix_micro (en_db_micro en) < cp_lease_expires_at current"
    "cp_owner_id c = cp_owner_id current \<Longrightarrow> cp_lease_expires_at current \<le> t"
    "loadCheckpoint cd s' (cp_run_id c) =
       Inr (c\<lparr>cp_lease_expires_at := t, cp_version := wrap64 (v + 1), cp_lease_duration := d\<rparr>)"
    "find_head s' (cp_run_id c) = Some (runHead (c\<lparr>cp_version := wrap64 (v + 1)\<rparr>))" "store_inv cd s'"
proof -
  from write_ok [OF ok] have tx: "write_tx en cd c v s = Inr ((), s')" and cv: "cp_version c = v" by simp_all
  from inv v cv tx show thesis
  proof (cases rule: write_tx_cases)
    case (1 current t)
    note l = advances_load [OF cd inv 1(9)]
    from l(1) obtain d where ld: "loadCheckpoint cd s' (cp_run_id c) =
       Inr (c\<lparr>cp_lease_expires_at := t, cp_version := wrap64 (v + 1), cp_lease_duration := d\<rparr>)" by auto
    have "find_head s' (cp_run_id c) = Some (runHead (c\<lparr>cp_version := wrap64 (v + 1)\<rparr>))"
      using l(2) by (simp add: runHead_def)
    from that [OF 1(1-8) ld this l(3)] show thesis by blast
  qed
qed

lemma claim_effect:
  assumes cd: "codec_ok cd" and inv: "store_inv cd s" and v: "v < max_int64"
    and ok: "Claim en cd c v s = (Inr (), s')"
  obtains current t d where "loadCheckpoint cd s (cp_run_id c) = Inr current" "cp_version current = v"
    "cp_status current = CheckpointRunning \<or> cp_status current = CheckpointInterrupted"
    "sameCheckpointIdentity current c" "cp_lease_expires_at current \<le> unix_micro (en_db_micro en)"
    "cp_claim_sequence c = wrap64 (cp_claim_sequence current + 1)" "unix_micro (en_db_micro en) < t"
    "loadCheckpoint cd s' (cp_run_id c) =
       Inr (c\<lparr>cp_lease_expires_at := t, cp_version := wrap64 (v + 1), cp_lease_duration := d\<rparr>)"
    "find_head s' (cp_run_id c) = Some (runHead (c\<lparr>cp_version := wrap64 (v + 1)\<rparr>))" "store_inv cd s'"
proof -
  from claim_ok [OF ok] have tx: "claim_tx en cd c v s = Inr ((), s')" and cv: "cp_version c = v" by simp_all
  from inv v cv tx show thesis
  proof (cases rule: claim_tx_cases)
    case (1 current t)
    note l = advances_load [OF cd inv 1(9)]
    from l(1) obtain d where ld: "loadCheckpoint cd s' (cp_run_id c) =
       Inr (c\<lparr>cp_lease_expires_at := t, cp_version := wrap64 (v + 1), cp_lease_duration := d\<rparr>)" by auto
    have "find_head s' (cp_run_id c) = Some (runHead (c\<lparr>cp_version := wrap64 (v + 1)\<rparr>))"
      using l(2) by (simp add: runHead_def)
    from that [OF 1(1-4,6-8) ld this l(3)] show thesis by blast
  qed
qed

text \<open>
  A write or claim at a version other than the stored one, or on a terminal checkpoint,
  does not succeed.
\<close>

lemma stale_write_fails:
  assumes "loadCheckpoint cd s (cp_run_id c) = Inr current"
    and "cp_version current \<noteq> v \<or> checkpointTerminal (cp_status current)"
  shows "fst (write_checkpoint en cd c v terminal s) \<noteq> Inr ()"
proof
  assume "fst (write_checkpoint en cd c v terminal s) = Inr ()"
  then have "write_tx en cd c v s = Inr ((), snd (write_checkpoint en cd c v terminal s))"
    by (metis prod.collapse write_ok)
  with assms show False by (auto simp: write_tx_def rbind_Inr_iff Let_def split: if_split_asm)
qed

lemma stale_claim_fails:
  assumes "loadCheckpoint cd s (cp_run_id c) = Inr current"
    and "cp_version current \<noteq> v \<or> checkpointTerminal (cp_status current)"
  shows "fst (Claim en cd c v s) \<noteq> Inr ()"
proof
  assume "fst (Claim en cd c v s) = Inr ()"
  then have "claim_tx en cd c v s = Inr ((), snd (Claim en cd c v s))"
    by (metis prod.collapse claim_ok)
  with assms show False
    by (auto simp: claim_tx_def rbind_Inr_iff checkpointTerminal_def split: if_split_asm)
qed

text \<open>
  C5. A successful \<open>Save\<close> or \<open>Finish\<close> compared and swapped: the stored checkpoint had the
  expected version, was not terminal, had the same identity and claim sequence, no other
  owner, and, when it was owned, its lease had not expired by the database's clock; afterwards the run's
  latest checkpoint is the record of the call at the next version, under a lease that is
  not shorter when the owner kept it.
\<close>

theorem write_compares_and_swaps:
  assumes "codec_ok cd" and "store_inv cd s" and "v < max_int64"
    and "Save en cd c v s = (Inr (), s') \<or> Finish en cd c v s = (Inr (), s')"
  shows "\<exists>current t d. loadCheckpoint cd s (cp_run_id c) = Inr current \<and> cp_version current = v \<and>
    \<not> checkpointTerminal (cp_status current) \<and> sameCheckpointIdentity current c \<and>
    cp_claim_sequence c = cp_claim_sequence current \<and>
    (cp_owner_id c = '''' \<or> cp_owner_id c = cp_owner_id current) \<and>
    (cp_owner_id current \<noteq> '''' \<longrightarrow> unix_micro (en_db_micro en) < cp_lease_expires_at current) \<and>
    (cp_owner_id c = cp_owner_id current \<longrightarrow> cp_lease_expires_at current \<le> t) \<and>
    loadCheckpoint cd s' (cp_run_id c) =
      Inr (c\<lparr>cp_version := v + 1, cp_lease_expires_at := t, cp_lease_duration := d\<rparr>)"
proof -
  from assms(4) obtain terminal where ok: "write_checkpoint en cd c v terminal s = (Inr (), s')"
    by (auto simp: Save_def Finish_def)
  then have "0 < v" by (auto simp: write_checkpoint_def split: sum.split_asm if_split_asm)
  then have w: "wrap64 (v + 1) = v + 1" using assms(3) by (simp add: wrap64_Suc)
  from assms(1-3) ok show ?thesis
  proof (cases rule: write_effect)
    case (1 current t d)
    then show ?thesis
      by (intro exI [of _ current] exI [of _ t] exI [of _ d]) (simp add: w)
  qed
qed

theorem write_compares_and_swaps_witness:
  "fst (Save (ex_env Sqlite 13) ex_codec ex_save 1 ex_logged2) = Inr () \<and>
   (\<exists>t d. loadCheckpoint ex_codec ex_saved ''r'' =
      Inr (ex_save\<lparr>cp_version := 2, cp_lease_expires_at := t, cp_lease_duration := d\<rparr>))"
proof -
  have ok: "Save (ex_env Sqlite 13) ex_codec ex_save 1 ex_logged2 = (Inr (), ex_saved)"
    using ex_save_ok by (simp add: ex_saved_def prod_eq_iff)
  have r: "cp_run_id ex_save = ''r''" by (simp add: ex_save_def ex_ckpt_def)
  have "(1::int) < max_int64" by (simp add: max_int64_def)
  from write_compares_and_swaps [OF ex_codec_ok ex_invs(6) this disjI1 [OF ok]] ok r show ?thesis by auto
qed

text \<open>
  C6. One winner per version: after a \<open>Save\<close>, \<open>Finish\<close> or \<open>Claim\<close> succeeded at a
  version, no \<open>Save\<close>, \<open>Finish\<close> or \<open>Claim\<close> of the same run succeeds at that version.
\<close>

theorem one_winner_per_version:
  assumes "codec_ok cd" and "store_inv cd s" and "v < max_int64" and "cp_run_id c' = cp_run_id c"
    and "Save en cd c v s = (Inr (), s') \<or> Finish en cd c v s = (Inr (), s') \<or> Claim en cd c v s = (Inr (), s')"
  shows "fst (Save en' cd c' v s') \<noteq> Inr () \<and> fst (Finish en' cd c' v s') \<noteq> Inr () \<and>
    fst (Claim en' cd c' v s') \<noteq> Inr ()"
proof -
  obtain x where "loadCheckpoint cd s' (cp_run_id c) = Inr x" "cp_version x = wrap64 (v + 1)"
  proof -
    from assms(5) consider terminal where "write_checkpoint en cd c v terminal s = (Inr (), s')"
      | "Claim en cd c v s = (Inr (), s')" by (auto simp: Save_def Finish_def)
    then show thesis
    proof cases
      case (1 terminal)
      show thesis by (rule write_effect [OF assms(1-3) 1]) (rule that, assumption, simp)
    next
      case 2
      show thesis by (rule claim_effect [OF assms(1-3) 2]) (rule that, assumption, simp)
    qed
  qed
  moreover have "wrap64 (v + 1) \<noteq> v"
  proof
    assume w: "wrap64 (v + 1) = v"
    from wrap64_range [of "v + 1"] w have "- (2 ^ 63) \<le> v" by simp
    with assms(3) have "wrap64 (v + 1) = v + 1" by (intro wrap64_id) (auto simp: max_int64_def)
    with w show False by simp
  qed
  ultimately show ?thesis
    using stale_write_fails [of cd s' c' x v] stale_claim_fails [of cd s' c' x v] assms(4)
    by (simp add: Save_def Finish_def)
qed

theorem one_winner_per_version_witness:
  "fst (Save (ex_env Sqlite 13) ex_codec ex_save 1 ex_logged2) = Inr () \<and>
   fst (Save (ex_env Sqlite 13) ex_codec ex_save 1 ex_saved) \<noteq> Inr ()"
proof -
  have ok: "Save (ex_env Sqlite 13) ex_codec ex_save 1 ex_logged2 = (Inr (), ex_saved)"
    using ex_save_ok by (simp add: ex_saved_def prod_eq_iff)
  have "(1::int) < max_int64" by (simp add: max_int64_def)
  from one_winner_per_version [OF ex_codec_ok ex_invs(6) this refl disjI1 [OF ok]] ok show ?thesis by simp
qed

section \<open>Leases\<close>

text \<open>
  C8. A successful \<open>Claim\<close> takes over only a run nobody holds: it was running or
  interrupted, its lease had expired by the database's clock, the claim sequence is the
  next one; afterwards the claimant's record is the latest checkpoint, at the next version,
  under a lease that ends in the future.
\<close>

theorem claim_takes_over_expired:
  assumes "codec_ok cd" and "store_inv cd s" and "v < max_int64"
    and "Claim en cd c v s = (Inr (), s')"
  shows "\<exists>current t d. loadCheckpoint cd s (cp_run_id c) = Inr current \<and> cp_version current = v \<and>
    (cp_status current = CheckpointRunning \<or> cp_status current = CheckpointInterrupted) \<and>
    sameCheckpointIdentity current c \<and> cp_lease_expires_at current \<le> unix_micro (en_db_micro en) \<and>
    cp_claim_sequence c = wrap64 (cp_claim_sequence current + 1) \<and>
    unix_micro (en_db_micro en) < t \<and> cp_owner_id c \<noteq> '''' \<and>
    loadCheckpoint cd s' (cp_run_id c) =
      Inr (c\<lparr>cp_version := wrap64 (v + 1), cp_lease_expires_at := t, cp_lease_duration := d\<rparr>)"
  using assms
proof (cases rule: claim_effect)
  case (1 current t d)
  then show ?thesis using claim_ok [OF assms(4)]
    by (intro exI [of _ current] exI [of _ t] exI [of _ d]) simp
qed

theorem claim_takes_over_expired_witness:
  "fst (Claim (ex_env Sqlite 2000010) ex_codec ex_claim 1 ex_created) = Inr () \<and>
   (\<exists>current. loadCheckpoint ex_codec ex_created ''r'' = Inr current \<and>
      cp_lease_expires_at current \<le> unix_micro 2000010)"
proof -
  have "fst (Claim (ex_env Sqlite 2000010) ex_codec ex_claim 1 ex_created) = Inr ()" by code_simp
  then obtain s' where ok: "Claim (ex_env Sqlite 2000010) ex_codec ex_claim 1 ex_created = (Inr (), s')"
    by (metis prod.collapse)
  have r: "cp_run_id ex_claim = ''r''" by (simp add: ex_claim_def ex_ckpt_def)
  have n: "en_db_micro (ex_env Sqlite 2000010) = 2000010" by (simp add: ex_env_def)
  have "(1::int) < max_int64" by (simp add: max_int64_def)
  from claim_takes_over_expired [OF ex_codec_ok ex_invs(1) this ok] ok r n show ?thesis by auto
qed

text \<open>
  C9. \<open>RenewLease\<close> succeeds only for the current owner and claim of a running run whose
  lease has not expired, changes nothing of the run but the lease, and never shortens it.
\<close>

theorem renew_extends_own_lease:
  assumes cd: "codec_ok cd" and inv: "store_inv cd s" and ok: "RenewLease en cd l s = (Inr (), s')"
  shows "\<exists>current t d. loadCheckpoint cd s (ls_run_id l) = Inr current \<and>
    cp_status current = CheckpointRunning \<and> cp_owner_id current = ls_owner_id l \<and>
    cp_claim_sequence current = ls_claim_sequence l \<and>
    unix_micro (en_db_micro en) < cp_lease_expires_at current \<and> cp_lease_expires_at current \<le> t \<and>
    loadCheckpoint cd s' (ls_run_id l) =
      Inr (current\<lparr>cp_lease_expires_at := t, cp_lease_duration := d\<rparr>) \<and>
    runs s' = runs s \<and> events s' = events s \<and> registry s' = registry s"
  using inv cd renew_ok [OF ok]
proof (cases rule: renew_tx_cases)
  case (1 current)
  let ?rid = "ls_run_id l"
  have frame: "runs s' = runs s \<and> events s' = events s \<and> registry s' = registry s"
    using renew_ok [OF ok] by (auto simp: renew_tx_def rbind_Inr_iff Let_def split: if_split_asm sum.split_asm)
  have "lockRunHead en s ?rid" using renew_ok [OF ok] by (auto simp: renew_tx_def split: if_split_asm)
  with store_invD(1) [OF inv] obtain h where h: "find_head s ?rid = Some h" by (auto simp: lockRunHead_find)
  from head_latest [OF inv h] 1(1) obtain row where row: "row \<in> set (checkpoints s)" "ck_run_id row = ?rid"
    "ck_version row = rn_version h" "decode_row cd row = Inr current" by (metis sum.inject(2))
  from 1(6) have ev: "evolves cd s s'" using evolves_refl change_evolves [OF cd inv] by metis
  from 1(6) have inv': "store_inv cd s'" using inv change_inv [OF cd inv] by metis
  have act: "active s' ?rid" using head_active [OF inv h] frame by (simp add: active_def find_registry_def)
  with ev row obtain row' where row': "row' \<in> set (checkpoints s')" "row' = row \<or> lease_rewrite cd row row'"
    by (auto simp: evolves_def history_evolves_def)
  have h': "find_head s' ?rid = Some h" using h frame by (simp add: find_head_def)
  have "\<exists>t d. cp_lease_expires_at current \<le> t \<and>
      decode_row cd row' = Inr (current\<lparr>cp_lease_expires_at := t, cp_lease_duration := d\<rparr>)"
    using row'(2) row(4) unfolding lease_rewrite_def
    by (metis checkpoint.surjective checkpoint.update_convs(12,13) order_refl)
  then obtain t d where td: "cp_lease_expires_at current \<le> t"
      "decode_row cd row' = Inr (current\<lparr>cp_lease_expires_at := t, cp_lease_duration := d\<rparr>)" by blast
  have "ck_run_id row' = ?rid" "ck_version row' = rn_version h"
    using row'(2) row(2,3) by (auto simp: lease_rewrite_def)
  from load_after_head [OF inv' h' row'(1) this td(2)] 1(1-5) td(1) frame show ?thesis
    by (intro exI [of _ current] exI [of _ t] exI [of _ d]) simp
qed

theorem renew_extends_own_lease_witness:
  "fst (RenewLease (ex_env Sqlite 500000) ex_codec \<lparr>ls_run_id = ''r'', ls_owner_id = ''o'',
      ls_claim_sequence = 1, ls_expires_at = 0, ls_duration = 1000000000\<rparr> ex_created) = Inr () \<and>
   (\<exists>current. loadCheckpoint ex_codec ex_created ''r'' = Inr current \<and> cp_owner_id current = ''o'')"
proof -
  let ?l = "\<lparr>ls_run_id = ''r'', ls_owner_id = ''o'', ls_claim_sequence = 1, ls_expires_at = 0,
    ls_duration = 1000000000\<rparr>"
  have "fst (RenewLease (ex_env Sqlite 500000) ex_codec ?l ex_created) = Inr ()" by code_simp
  then obtain s' where ok: "RenewLease (ex_env Sqlite 500000) ex_codec ?l ex_created = (Inr (), s')"
    by (metis prod.collapse)
  from renew_extends_own_lease [OF ex_codec_ok ex_invs(1) ok] ok show ?thesis by auto
qed

section \<open>Finished runs\<close>

lemma finish_settles:
  assumes "codec_ok cd" and "store_inv cd s" and "v < max_int64" and ok: "Finish en cd c v s = (Inr (), s')"
  obtains row x where "settled s' (cp_run_id c) row" "decode_row cd row = Inr x" "cp_status x = cp_status c"
    "checkpointTerminal (cp_status c)" "loadCheckpoint cd s' (cp_run_id c) = Inr x"
proof -
  note w = ok [unfolded Finish_def]
  have trm: "checkpointTerminal (cp_status c)" using write_ok [OF w] by simp
  from assms(1-3) w show thesis
  proof (cases rule: write_effect)
    case (1 current t d)
    note inv' = 1(11)
    from head_latest [OF inv' 1(10)] obtain row x where row: "row \<in> set (checkpoints s')" "ck_run_id row = cp_run_id c"
      "ck_version row = rn_version (runHead (c\<lparr>cp_version := wrap64 (v + 1)\<rparr>))" "decode_row cd row = Inr x"
      "loadCheckpoint cd s' (cp_run_id c) = Inr x" by metis
    have "settled s' (cp_run_id c) row"
      using head_active [OF inv' 1(10)] 1(10) row(1-3) trm by (auto simp: settled_def active_def runHead_def)
    with row 1(9) trm show thesis by (intro that [of row x]) auto
  qed
qed

text \<open>
  What a caller needs to write to a run is a head and a latest checkpoint that is not
  terminal; a settled run has no such checkpoint, and a retired one no head.
\<close>

lemma settled_load:
  assumes inv: "store_inv cd t" and st: "settled t rid row" and d: "decode_row cd row = Inr x" and act: "active t rid"
  shows "loadCheckpoint cd t rid = Inr x"
  using st act d by (auto simp: settled_def intro: load_after_head [OF inv])

lemma settled_refuses:
  assumes cd: "codec_ok cd" and inv: "store_inv cd t" and st: "settled t rid row"
    and d: "decode_row cd row = Inr x" and trm: "checkpointTerminal (cp_status x)"
  shows "cp_run_id c = rid \<Longrightarrow> fst (Create en cd c t) \<noteq> Inr ()"
    and "cp_run_id c = rid \<Longrightarrow> fst (write_checkpoint en cd c v b t) \<noteq> Inr ()"
    and "cp_run_id c = rid \<Longrightarrow> fst (Claim en cd c v t) \<noteq> Inr ()"
    and "ls_run_id l = rid \<Longrightarrow> fst (RenewLease en cd l t) \<noteq> Inr ()"
    and "ev_run_id e = rid \<Longrightarrow> fst (AppendFenced en cd e f t) \<noteq> Inr ()"
proof -
  have locked: "loadCheckpoint cd t rid = Inr x" if "lockRunHead en t rid"
    using that settled_load [OF inv st d] head_active [OF inv] store_invD(1) [OF inv] by (auto simp: lockRunHead_find)
  have nr: "cp_status x \<noteq> CheckpointRunning" using trm by (auto simp: checkpointTerminal_def)
  show "fst (Create en cd c t) \<noteq> Inr ()" if "cp_run_id c = rid"
  proof
    assume "fst (Create en cd c t) = Inr ()"
    then have tx: "create_tx en cd c t = Inr ((), snd (Create en cd c t))" and one: "cp_version c = 1"
      "cp_status c = CheckpointRunning" using create_ok [of en cd c t] by (metis prod.collapse)+
    from create_tx_change [OF inv one tx] that have "find_registry t rid = None" by simp
    with st show False by (auto simp: settled_def)
  qed
  show "fst (write_checkpoint en cd c v b t) \<noteq> Inr ()" if "cp_run_id c = rid"
  proof
    assume ok: "fst (write_checkpoint en cd c v b t) = Inr ()"
    then have "write_tx en cd c v t = Inr ((), snd (write_checkpoint en cd c v b t))" by (metis prod.collapse write_ok)
    then have "lockRunHead en t rid" using that by (auto simp: write_tx_def split: if_split_asm)
    with locked that ok trm stale_write_fails [of cd t c x v] show False by simp
  qed
  show "fst (Claim en cd c v t) \<noteq> Inr ()" if "cp_run_id c = rid"
  proof
    assume ok: "fst (Claim en cd c v t) = Inr ()"
    then have "claim_tx en cd c v t = Inr ((), snd (Claim en cd c v t))" by (metis prod.collapse claim_ok)
    then have "lockRunHead en t rid" using that by (auto simp: claim_tx_def split: if_split_asm)
    with locked that ok trm stale_claim_fails [of cd t c x v] show False by simp
  qed
  show "fst (RenewLease en cd l t) \<noteq> Inr ()" if "ls_run_id l = rid"
  proof
    assume "fst (RenewLease en cd l t) = Inr ()"
    then have tx: "renew_tx en cd l t = Inr ((), snd (RenewLease en cd l t))" by (metis prod.collapse renew_ok)
    then have lk: "lockRunHead en t rid" using that by (auto simp: renew_tx_def split: if_split_asm)
    from inv cd tx show False by (cases rule: renew_tx_cases) (use locked [OF lk] that nr in auto)
  qed
  show "fst (AppendFenced en cd e f t) \<noteq> Inr ()" if "ev_run_id e = rid"
  proof
    assume "fst (AppendFenced en cd e f t) = Inr ()"
    then obtain j where "append_fenced_tx en cd e f j t = Inr ((), snd (AppendFenced en cd e f t))"
      by (metis append_fenced_ok prod.collapse)
    with inv show False by (cases rule: append_fenced_tx_cases) (use locked that nr in auto)
  qed
qed

text \<open>
  C10. Finished is final: in every state that follows a successful \<open>Finish\<close>, after any number of
  transactions of any callers, no \<open>Create\<close>, \<open>Save\<close>, \<open>Finish\<close>, \<open>Claim\<close>, \<open>RenewLease\<close> or
  \<open>AppendFenced\<close> of that run succeeds, and until the run is retired its latest checkpoint is
  exactly the one \<open>Finish\<close> left. A plain \<open>Append\<close> is not among them: it asks for no
  checkpoint and still journals events of the run.
\<close>

theorem finish_is_final:
  assumes "codec_ok cd" and "reaches (store_step cd) n empty_db s"
    and "Finish en cd c v s = (Inr (), s')" and "reaches (store_step cd) k s' t" and "int (n + k) < max_int64"
    and "cp_run_id c' = cp_run_id c" and "ls_run_id l = cp_run_id c" and "ev_run_id e = cp_run_id c"
  shows "fst (Create en' cd c' t) \<noteq> Inr () \<and> fst (Save en' cd c' v' t) \<noteq> Inr () \<and>
    fst (Finish en' cd c' v' t) \<noteq> Inr () \<and> fst (Claim en' cd c' v' t) \<noteq> Inr () \<and>
    fst (RenewLease en' cd l t) \<noteq> Inr () \<and> fst (AppendFenced en' cd e f t) \<noteq> Inr () \<and>
    (active t (cp_run_id c) \<longrightarrow> (\<exists>x. loadCheckpoint cd s' (cp_run_id c) = Inr x \<and>
      cp_status x = cp_status c \<and> checkpointTerminal (cp_status x) \<and> loadCheckpoint cd t (cp_run_id c) = Inr x))"
proof -
  have i: "counted_inv cd n s" using store.inv_reachable [of cd empty_db n s] assms by simp
  have s1: "reaches (store_step cd) (Suc n) empty_db s'" by (rule reaches_step [OF assms(2) st_finish [OF assms(3)]])
  have n: "Suc n + k \<le> nat max_int64" using assms(5) by simp
  have i1: "counted_inv cd (Suc n) s'" using store.inv_reachable [of cd empty_db "Suc n" s'] s1 assms(1) n by simp
  have it: "store_inv cd t" using store.inv_continues [OF assms(4) i1] n by (simp add: counted_inv_def)
  have inv: "store_inv cd s" "versions_below (int n) s" using i by (simp_all add: counted_inv_def)
  have "v < max_int64"
  proof -
    from write_ok [OF assms(3) [unfolded Finish_def]] obtain y where "lockRunHead en s (cp_run_id c)"
      "loadCheckpoint cd s (cp_run_id c) = Inr y" "cp_version y = v"
      by (auto simp: write_tx_def rbind_Inr_iff Let_def split: if_split_asm)
    with head_below [OF inv] assms(5) show ?thesis by fastforce
  qed
  from finish_settles [OF assms(1) inv(1) this assms(3)] obtain row x where x: "settled s' (cp_run_id c) row"
    "decode_row cd row = Inr x" "cp_status x = cp_status c" "checkpointTerminal (cp_status c)"
    "loadCheckpoint cd s' (cp_run_id c) = Inr x" by metis
  have st: "settled t (cp_run_id c) row" using settling.evolve_continues [OF assms(4) i1 n] x(1) by blast
  have "checkpointTerminal (cp_status x)" using x(3,4) by simp
  note no = settled_refuses [OF assms(1) it st x(2) this]
  show ?thesis
    using no(1,2,3) [OF assms(6)] no(4) [OF assms(7)] no(5) [OF assms(8)] settled_load [OF it st x(2)] x
    by (simp add: Save_def Finish_def)
qed

theorem finish_is_final_witness:
  "fst (Append (ex_env Sqlite 15) ex_codec (ex_event 3) ex_finished) = Inr () \<and>
   fst (AppendFenced (ex_env Sqlite 16) ex_codec (ex_event 4) ex_fence
     (snd (Append (ex_env Sqlite 15) ex_codec (ex_event 3) ex_finished))) \<noteq> Inr ()"
proof -
  let ?t = "snd (Append (ex_env Sqlite 15) ex_codec (ex_event 3) ex_finished)"
  have ok: "Finish (ex_env Sqlite 14) ex_codec ex_finish 2 ex_saved = (Inr (), ex_finished)"
    using ex_finish_ok by (simp add: ex_finished_def prod_eq_iff)
  have "store_step ex_codec ex_finished ?t" by (rule st_append [OF surjective_pairing])
  then have t: "reaches (store_step ex_codec) (Suc 0) ex_finished ?t" by (rule reaches_step [OF reaches_refl])
  have r: "ls_run_id \<lparr>ls_run_id = ''r'', ls_owner_id = ''o'', ls_claim_sequence = 1, ls_expires_at = 0,
      ls_duration = 1\<rparr> = cp_run_id ex_finish" "ev_run_id (ex_event 4) = cp_run_id ex_finish"
    by (simp_all add: ex_finish_def ex_save_def ex_ckpt_def ex_event_def)
  have m: "int (4 + Suc 0) < max_int64" by (simp add: max_int64_def)
  have "fst (Append (ex_env Sqlite 15) ex_codec (ex_event 3) ex_finished) = Inr ()" by code_simp
  with finish_is_final [OF ex_codec_ok ex_saved_reach ok t m refl r] show ?thesis by blast
qed

section \<open>New runs and their history\<close>

text \<open>
  C11. A run is created once: \<open>Create\<close> succeeds only when the run id is unused, neither
  as a workflow nor as a journal nor as a tombstone; afterwards the run is active and its
  latest checkpoint is the record of the call, whose lease, when a duration was given,
  ends that long after the database's clock.
\<close>

theorem create_then_load:
  assumes cd: "codec_ok cd" and inv: "store_inv cd s" and ok: "Create en cd c s = (Inr (), s')"
  shows "find_registry s (cp_run_id c) = None \<and> active s' (cp_run_id c) \<and>
    (\<exists>t d. loadCheckpoint cd s' (cp_run_id c) = Inr (c\<lparr>cp_lease_expires_at := t, cp_lease_duration := d\<rparr>) \<and>
      (cp_lease_duration c \<noteq> 0 \<longrightarrow> t = unix_micro (en_db_micro en) + cp_lease_duration c))"
proof -
  from create_ok [OF ok] have tx: "create_tx en cd c s = Inr ((), s')"
    and c1: "cp_version c = 1" "cp_status c = CheckpointRunning" by simp_all
  from create_tx_change [OF inv c1 tx] have ch: "change cd s s'" and fresh: "find_registry s (cp_run_id c) = None"
    by simp_all
  have inv': "store_inv cd s'" by (rule change_inv [OF cd inv ch])
  from tx obtain reg s1 c' j t where e: "ensureRunRegistry en (cp_run_id c) runKindWorkflow s = Inr (reg, s1)"
    and c': "create_lease en c = Inr c'" and j: "encodeCheckpointMetadata cd c' = Inr j"
    and t: "ins_row ckpt_key \<lparr>ck_run_id = cp_run_id c', ck_version = cp_version c',
             ck_record_json = j, ck_payload = cp_payload c'\<rparr> (checkpoints s1) = Inr t"
    and h: "insert_run_row en (runHead c') (s1\<lparr>checkpoints := t\<rparr>) = Inr s'"
    by (auto simp: create_tx_def rbind_Inr_iff)
  from create_lease_frame [OF c'] obtain tl where tl: "c' = c\<lparr>cp_lease_expires_at := tl\<rparr>" by blast
  have lease: "cp_lease_duration c \<noteq> 0 \<longrightarrow> tl = unix_micro (en_db_micro en) + cp_lease_duration c"
    using c' tl by (auto simp: create_lease_def rbind_Inr_iff databaseNow_Inr_iff resolveLeaseExpiry_def
        dest: arg_cong [where f = cp_lease_expires_at] split: if_split_asm sum.split_asm)
  from h t have rows: "checkpoints s' = checkpoints s1 @ [\<lparr>ck_run_id = cp_run_id c', ck_version = cp_version c',
             ck_record_json = j, ck_payload = cp_payload c'\<rparr>]" "runHead c' \<in> set (runs s')"
    by (auto simp: insert_run_row_def rbind_Inr_iff ins_row_def run_insert_after_def split: if_split_asm)
  have hd: "find_head s' (cp_run_id c) = Some (runHead c')"
    using rows(2) store_invD(1) [OF inv'] by (simp add: find_head_iff tl)
  from decode_row_encoded [OF cd j] obtain d where "decode_row cd \<lparr>ck_run_id = cp_run_id c',
      ck_version = cp_version c', ck_record_json = j, ck_payload = cp_payload c'\<rparr> = Inr (c'\<lparr>cp_lease_duration := d\<rparr>)"
    by metis
  then have "loadCheckpoint cd s' (cp_run_id c) = Inr (c'\<lparr>cp_lease_duration := d\<rparr>)"
    using rows(1) by (intro load_after_head [OF inv' hd]) (auto simp: tl)
  with fresh head_active [OF inv' hd] lease show ?thesis by (auto simp: tl)
qed

theorem create_then_load_witness:
  "fst (Create (ex_env Sqlite 10) ex_codec ex_ckpt empty_db) = Inr () \<and> active ex_created ''r''"
proof -
  have ok: "Create (ex_env Sqlite 10) ex_codec ex_ckpt empty_db = (Inr (), ex_created)"
    using ex_create by (simp add: ex_created_def prod_eq_iff)
  from create_then_load [OF ex_codec_ok store_inv_empty ok] ok show ?thesis
    by (simp add: ex_ckpt_def)
qed

text \<open>
  Creating a run whose id is in use, by a workflow, a journal or a tombstone, returns
  \<open>ErrCheckpointExists\<close> and changes nothing.
\<close>

theorem create_existing_run:
  assumes inv: "store_inv cd s" and g: "find_registry s (cp_run_id c) = Some g"
    and r: "ready en = Inr ()" "en_fault en = None" and v: "validateCheckpoint c = Inr ()"
    and c: "cp_version c = 1" "cp_status c = CheckpointRunning"
    and l: "create_lease en c = Inr c'" "encodeCheckpointMetadata cd c' = Inr j"
  shows "Create en cd c s = (Inl ErrCheckpointExists, s)"
proof -
  let ?rid = "cp_run_id c"
  have k: "keys_ok s" using inv store_invD(1) by blast
  have same: "s\<lparr>registry := ins_ignore rg_run_id row (registry s)\<rparr> = s" if "rg_run_id row = ?rid" for row
    using registry_row(1,2) [OF inv g] that by (simp add: ins_ignore_def) (metis image_eqI)
  have en: "ensureRunRegistry en ?rid runKindWorkflow s =
      (if rg_state g \<noteq> runStateActive then Inl errRunRetired
       else if rg_kind g \<noteq> runKindWorkflow then Inl errRunKindConflict else Inr (g, s))"
    unfolding ensureRunRegistry_def Let_def by (simp add: same lockRunRegistry_find [OF k] g)
  from create_lease_frame [OF l(1)] obtain t where t: "c' = c\<lparr>cp_lease_expires_at := t\<rparr>" by blast
  have "\<exists>e. create_tx en cd c s = Inl e \<and> e \<in> {ErrDuplicatedKey, errRunKindConflict, errRunRetired}"
  proof (cases "rg_state g = runStateActive \<and> rg_kind g = runKindWorkflow")
    case False
    then show ?thesis by (auto simp: create_tx_def en)
  next
    case True
    with g have "active s ?rid" by (simp add: active_def)
    with head_of_active [OF inv] obtain h where h: "find_head s ?rid = Some h" by blast
    then have "versions_of s ?rid = {1..rn_version h}" "1 \<le> rn_version h"
      using store_invD(1,4) [OF inv] by (auto simp: find_head_iff history_ok_def head_ok_def)
    then have "1 \<in> versions_of s ?rid" by simp
    then have "(?rid, 1) \<in> ckpt_key ` set (checkpoints s)" by (auto simp: versions_of_keys)
    then show ?thesis using True l c(1) by (simp add: create_tx_def en ins_row_def ckpt_key_def [abs_def] t)
  qed
  then show ?thesis using r v c by (auto simp: Create_def transaction_def create_error_def)
qed

theorem create_existing_run_witness:
  "find_registry ex_created ''r'' \<noteq> None \<and>
   Create (ex_env Postgres 30) ex_codec ex_ckpt ex_created = (Inl ErrCheckpointExists, ex_created)"
proof -
  have "find_registry ex_created (cp_run_id ex_ckpt) \<noteq> None" by code_simp
  then obtain g where g: "find_registry ex_created (cp_run_id ex_ckpt) = Some g" by blast
  have e: "ready (ex_env Postgres 30) = Inr ()" "en_fault (ex_env Postgres 30) = None"
    "validateCheckpoint ex_ckpt = Inr ()" "cp_version ex_ckpt = 1" "cp_status ex_ckpt = CheckpointRunning" by code_simp+
  have l: "create_lease (ex_env Postgres 30) ex_ckpt = Inr (ex_ckpt\<lparr>cp_lease_expires_at := unix_micro 30 + 1000000000\<rparr>)"
    by code_simp
  have j: "encodeCheckpointMetadata ex_codec (ex_ckpt\<lparr>cp_lease_expires_at := unix_micro 30 + 1000000000\<rparr>) =
      Inr (Inl (ex_ckpt\<lparr>cp_lease_expires_at := unix_micro 30 + 1000000000, cp_payload := []\<rparr>))" by code_simp
  from create_existing_run [OF ex_invs(1) g e l j] g show ?thesis by (simp add: ex_ckpt_def)
qed

lemma map_result_all:
  "(\<And>x. x \<in> set xs \<Longrightarrow> \<exists>y. f x = Inr y \<and> P x y) \<Longrightarrow> \<exists>ys. map_result f xs = Inr ys \<and> list_all2 P xs ys"
proof (induction xs)
  case (Cons x xs)
  then obtain ys where "map_result f xs = Inr ys" "list_all2 P xs ys" by auto
  moreover from Cons.prems [of x] obtain y where "f x = Inr y" "P x y" by auto
  ultimately show ?case by auto
qed simp

lemma sorted_versions:
  assumes inv: "store_inv cd s" and h: "find_head s rid = Some h" and a: "0 \<le> after_v"
  shows "map ck_version (select_rows (\<lambda>r. ck_version r > after_v) ck_version (filter (\<lambda>r. ck_run_id r = rid) (checkpoints s)))
    = [after_v + 1..rn_version h]"
proof -
  let ?rows = "filter (\<lambda>r. ck_version r > after_v) (filter (\<lambda>r. ck_run_id r = rid) (checkpoints s))"
  have v: "versions_of s rid = {1..rn_version h}"
    using h store_invD(1,4) [OF inv] by (auto simp: find_head_iff history_ok_def head_ok_def)
  have "ck_version ` set ?rows = {x \<in> versions_of s rid. x > after_v}" by (auto simp: versions_of_def)
  with v a have st: "set (map ck_version ?rows) = set [after_v + 1..rn_version h]" by auto
  have "distinct (map ck_version ?rows)"
    using store_invD(1) [OF inv] by (auto simp: keys_ok_def ckpt_key_def distinct_map inj_on_def)
  then have "distinct (map ck_version (sort_key ck_version ?rows))" by (simp add: distinct_map)
  moreover have "set (map ck_version (sort_key ck_version ?rows)) = set [after_v + 1..rn_version h]" using st by simp
  ultimately have "map ck_version (sort_key ck_version ?rows) = [after_v + 1..rn_version h]"
    by (intro sorted_distinct_set_unique) simp_all
  then show ?thesis by (simp add: select_rows_def)
qed

text \<open>
  C12. \<open>ListCheckpoints\<close> returns the history of an active run without gaps: the versions
  after the given one in ascending order up to the head's version, cut at the limit.
\<close>

theorem history_is_contiguous:
  assumes inv: "store_inv cd s" and h: "find_head s rid = Some h"
    and r: "ready en = Inr ()" "en_fault en = None" "validateIndexedID ''run id'' rid = Inr ()"
    and a: "0 \<le> after_v" "0 \<le> lim"
  shows "\<exists>cs. ListCheckpoints en cd rid after_v lim s = Inr cs \<and> (\<forall>c \<in> set cs. cp_run_id c = rid) \<and>
    map cp_version cs = (if lim > 0 then take (nat lim) [after_v + 1..rn_version h] else [after_v + 1..rn_version h])"
proof -
  let ?act = "filter (\<lambda>r. ck_run_id r = rid) (checkpoints s)"
  let ?sel = "select_rows (\<lambda>r. ck_version r > after_v) ck_version ?act"
  let ?rows = "if lim > 0 then limit_rows lim ?sel else ?sel"
  have rows: "activeCheckpointRows rid s = ?act" by (simp add: active_rows [OF inv] head_active [OF inv h])
  from head_latest [OF inv h] obtain row where "row \<in> set (checkpoints s)" "ck_run_id row = rid" by metis
  then have ne: "?act \<noteq> []" by (auto simp: filter_empty_conv)
  have vs: "map ck_version ?rows = (if lim > 0 then take (nat lim) [after_v + 1..rn_version h] else [after_v + 1..rn_version h])"
    using sorted_versions [OF inv h a(1)] by (simp add: limit_rows_def take_map [symmetric])
  have "\<exists>y. decodeCheckpoint cd (ck_record_json x) (ck_payload x) = Inr y \<and> cp_run_id y = rid \<and> cp_version y = ck_version x"
    if "x \<in> set ?rows" for x
  proof -
    from that have "x \<in> set (checkpoints s)" "ck_run_id x = rid"
      using set_limit_rows [of lim ?sel] by (auto split: if_split_asm)
    then show ?thesis using store_invD(4) [OF inv]
      by (auto simp: history_ok_def checkpoint_row_ok_def decode_row_def)
  qed
  then obtain cs where cs: "map_result (\<lambda>row. decodeCheckpoint cd (ck_record_json row) (ck_payload row)) ?rows = Inr cs"
    "list_all2 (\<lambda>x y. cp_run_id y = rid \<and> cp_version y = ck_version x) ?rows cs"
    using map_result_all [of ?rows "\<lambda>row. decodeCheckpoint cd (ck_record_json row) (ck_payload row)"
        "\<lambda>x y. cp_run_id y = rid \<and> cp_version y = ck_version x"] by blast
  have "map cp_version cs = map ck_version ?rows"
    using cs(2) by (induction rule: list_all2_induct) auto
  moreover have "\<forall>c \<in> set cs. cp_run_id c = rid"
    using cs(2) by (induction rule: list_all2_induct) auto
  moreover have "ListCheckpoints en cd rid after_v lim s = Inr cs"
    using r a ne cs(1) unfolding ListCheckpoints_def rows by (simp add: query_def Let_def)
  ultimately show ?thesis using vs by simp
qed

theorem history_is_contiguous_witness:
  "find_head ex_saved ''r'' \<noteq> None \<and>
   (\<exists>cs. ListCheckpoints (ex_env Mysql 17) ex_codec ''r'' 0 0 ex_saved = Inr cs \<and> map cp_version cs = [1, 2])"
proof -
  have e: "ready (ex_env Mysql 17) = Inr ()" "en_fault (ex_env Mysql 17) = None"
    "validateIndexedID ''run id'' ''r'' = Inr ()" by code_simp+
  have h: "find_head ex_saved ''r'' = Some (runHead (ex_save\<lparr>cp_version := 2\<rparr>))" by code_simp
  have "rn_version (runHead (ex_save\<lparr>cp_version := 2\<rparr>)) = 2" by (simp add: runHead_def)
  with history_is_contiguous [OF ex_invs(2) h e order_refl order_refl] h show ?thesis
    by (auto simp: upto.simps)
qed

end
