(* ===== verification/Dbstore_Journal_Claims.thy ===== *)
theory Dbstore_Journal_Claims
  imports Dbstore_Checkpoint_Claims
begin

text \<open>
  The properties of the journal: fenced appends, idempotence and conflicts, tombstones, and
  the floor of a compacted run.
\<close>

section \<open>Fencing\<close>

text \<open>
  C4. A fenced append that succeeds was made by the current owner: the latest checkpoint
  of the run is running, carries the owner and claim sequence of the fence, and its lease
  has not expired at the time the database reports; the run is an active workflow and the
  event lies above the compaction floor.
\<close>

theorem append_fenced_is_fenced:
  assumes inv: "store_inv cd s" and ok: "AppendFenced en cd r f s = (Inr (), s')"
  shows "\<exists>reg current. find_registry s (ev_run_id r) = Some reg \<and> rg_kind reg = runKindWorkflow \<and>
    rg_state reg = runStateActive \<and> rg_compacted reg < ev_sequence r \<and>
    loadCheckpoint cd s (ev_run_id r) = Inr current \<and> cp_status current = CheckpointRunning \<and>
    cp_owner_id current = fn_owner_id f \<and> cp_claim_sequence current = fn_claim_sequence f \<and>
    unix_micro (en_db_micro en) < cp_lease_expires_at current"
proof -
  from append_fenced_ok [OF ok] obtain j where "append_fenced_tx en cd r f j s = Inr ((), s')" by blast
  with inv show ?thesis by (cases rule: append_fenced_tx_cases) auto
qed

theorem append_fenced_is_fenced_witness:
  "fst (AppendFenced (ex_env Sqlite 11) ex_codec (ex_event 1) ex_fence ex_created) = Inr () \<and>
   (\<exists>current. loadCheckpoint ex_codec ex_created ''r'' = Inr current \<and> cp_owner_id current = ''o'')"
proof -
  have ok: "AppendFenced (ex_env Sqlite 11) ex_codec (ex_event 1) ex_fence ex_created = (Inr (), ex_logged)"
    using ex_appended by (simp add: ex_logged_def prod_eq_iff)
  from append_fenced_is_fenced [OF ex_invs(1) ok] ok show ?thesis
    by (auto simp: ex_event_def ex_fence_def)
qed

section \<open>Appends\<close>

lemma append_ok:
  assumes "Append en cd r s = (Inr (), s')"
  shows "\<exists>j. encodeRunLogRecord cd r = Inr j \<and> append_tx en r j s = Inr ((), s')"
proof (cases "encodeRunLogRecord cd r")
  case (Inl e)
  with assms show ?thesis by (auto simp: Append_def split: sum.split_asm)
next
  case (Inr j)
  with assms have "transaction en (append_tx en r j) s = (Inr (), s')"
    by (auto simp: Append_def split: sum.split_asm prod.split_asm)
  with Inr show ?thesis by (simp add: transaction_Inr_iff)
qed

text \<open>The journal after an append on a run whose registry row is known.\<close>

lemma appendRunLog_effect:
  assumes inv: "store_inv cd s" and cd: "codec_ok cd" and g: "find_registry s (ev_run_id r) = Some g"
    and act: "rg_state g = runStateActive" and low: "rg_compacted g < ev_sequence r" and pos: "0 < ev_sequence r"
    and ok: "appendRunLog en r j s = Inr (u, s')"
  shows "store_inv cd s'" "find_registry s' (ev_run_id r) = Some g"
    "\<exists>row. find_event s' (ev_run_id r) (ev_sequence r) = Some row \<and> rl_record_json row = j"
    "set (events s) \<subseteq> set (events s')"
proof -
  show inv': "store_inv cd s'" by (rule changes_inv [OF appendRunLog_changes [OF inv g act low pos ok] cd inv])
  from inv g act low ok have "find_registry s' (ev_run_id r) = Some g \<and>
    (\<exists>row. find_event s' (ev_run_id r) (ev_sequence r) = Some row \<and> rl_record_json row = j) \<and>
    set (events s) \<subseteq> set (events s')"
  proof (cases rule: appendRunLog_cases)
    case (same e)
    with g show ?thesis by auto
  next
    case (new e t)
    have "e \<in> set (events s')" by (simp add: new(5))
    then have "find_event s' (ev_run_id r) (ev_sequence r) = Some e"
      using store_invD(1) [OF inv'] by (simp add: find_event_iff new(2))
    with g new(2,5) show ?thesis by (auto simp: find_registry_def)
  qed
  then show "find_registry s' (ev_run_id r) = Some g"
    "\<exists>row. find_event s' (ev_run_id r) (ev_sequence r) = Some row \<and> rl_record_json row = j"
    "set (events s) \<subseteq> set (events s')" by simp_all
qed

lemma append_effect:
  assumes inv: "store_inv cd s" and cd: "codec_ok cd" and pos: "0 < ev_sequence r"
    and ok: "append_tx en r j s = Inr (u, s')"
  obtains g row where "store_inv cd s'" "find_registry s' (ev_run_id r) = Some g" "rg_state g = runStateActive"
    "rg_compacted g < ev_sequence r" "find_event s' (ev_run_id r) (ev_sequence r) = Some row"
    "rl_record_json row = j" "set (events s) \<subseteq> set (events s')"
proof -
  from ok obtain reg s1 where e: "ensureRunRegistry en (ev_run_id r) runKindJournal s = Inr (reg, s1)"
    and low: "rg_compacted reg < ev_sequence r" and a: "appendRunLog en r j s1 = Inr (u, s')"
    by (auto simp: append_tx_def rbind_Inr_iff split: if_splits)
  from inv e have "store_inv cd s1 \<and> find_registry s1 (ev_run_id r) = Some reg \<and> rg_state reg = runStateActive \<and>
    events s1 = events s"
  proof (cases rule: ensureRunRegistry_cases)
    case found
    with inv show ?thesis by simp
  next
    case fresh
    have i1: "store_inv cd s1" unfolding fresh(2) by (rule inv_add_journal_domain [OF inv fresh(1) fresh(3-6)])
    moreover have "find_registry s1 (ev_run_id r) = Some reg"
      using fresh(2,3) store_invD(1) [OF i1] by (simp add: find_registry_iff)
    ultimately show ?thesis using fresh(2,5) by simp
  qed
  then have s1: "store_inv cd s1" "find_registry s1 (ev_run_id r) = Some reg" "rg_state reg = runStateActive"
    "events s1 = events s" by simp_all
  from appendRunLog_effect [OF s1(1) cd s1(2,3) low pos a] s1(3,4) low that show thesis by auto
qed

text \<open>An append under a key that is taken: the same bytes succeed, other bytes conflict.\<close>

lemma append_again:
  assumes inv: "store_inv cd s" and g: "find_registry s (ev_run_id r) = Some g" "rg_state g = runStateActive"
    "rg_compacted g < ev_sequence r" and row: "find_event s (ev_run_id r) (ev_sequence r) = Some row"
    and j: "encodeRunLogRecord cd r = Inr j"
    and en: "ready en = Inr ()" "en_fault en = None" "en_ctx_after en = None" "0 < en_db_micro en"
  shows "Append en cd r s =
    ((if rl_record_json row = j then Inr () else Inl (ErrRunLogConflict (ev_run_id r))), s)"
proof -
  note i = store_invD [OF inv]
  have same: "s\<lparr>registry := ins_ignore rg_run_id x (registry s)\<rparr> = s" if "rg_run_id x = ev_run_id r" for x
    using registry_row(1,2) [OF inv g(1)] that by (simp add: ins_ignore_def) (metis image_eqI)
  have e: "ensureRunRegistry en (ev_run_id r) runKindJournal s = Inr (g, s)"
    unfolding ensureRunRegistry_def Let_def
    by (cases "rg_kind g") (simp_all add: same lockRunRegistry_find [OF i(1)] g)
  have m: "row \<in> set (events s)" "rl_run_id row = ev_run_id r" "rl_sequence row = ev_sequence r"
    using row i(1) by (auto simp: find_event_iff)
  then have key: "(ev_run_id r, ev_sequence r) \<in> event_key ` set (events s)" by (force simp: event_key_def)
  have guard: "event_insert_guard en (ev_run_id r) (ev_sequence r) s = Inr ()"
    using has_row_registry [OF i(1) g(1)] g by (simp add: event_insert_guard_def)
  have ins: "insert_event en (ev_session_id r) (ev_run_id r) (ev_sequence r) j s = Inr s"
    using key by (simp add: insert_event_def guard Let_def event_key_def [abs_def])
  have "rl_ordinal row \<in> rt_ordinal ` set (retention s)"
    using i(2) m(1) by (auto simp: journal_ok_def event_ok_def) (metis imageI)
  then have ret: "s\<lparr>retention := ins_ignore rt_ordinal \<lparr>rt_ordinal = rl_ordinal row, rt_run_id = x, rt_appended_at = y\<rparr>
      (retention s)\<rparr> = s" for x y by (simp add: ins_ignore_def)
  have "append_tx en r j s = (if rl_record_json row = j then Inr ((), s) else Inl (ErrRunLogConflict (ev_run_id r)))"
    using g(3) en(4) by (simp add: append_tx_def e appendRunLog_def ins row databaseNow_def ret)
  then show ?thesis using j en(1-3) by (simp add: Append_def transaction_def contextOrError_def)
qed

text \<open>
  C13. An append that succeeded has stored the event under its run and sequence and has
  removed none; repeating it, on any connection, succeeds and changes nothing, and an
  event with other contents under the same run and sequence is a conflict.
\<close>

theorem append_is_idempotent:
  assumes cd: "codec_ok cd" and inv: "store_inv cd s" and ok: "Append en cd r s = (Inr (), s')"
    and en: "ready en' = Inr ()" "en_fault en' = None" "en_ctx_after en' = None" "0 < en_db_micro en'"
    and r': "ev_run_id r' = ev_run_id r" "ev_sequence r' = ev_sequence r" "encodeRunLogRecord cd r' = Inr j'"
    "encodeRunLogRecord cd r \<noteq> Inr j'"
  shows "(\<exists>row. find_event s' (ev_run_id r) (ev_sequence r) = Some row \<and> decode_event cd row = Inr r) \<and>
    set (events s) \<subseteq> set (events s') \<and> Append en' cd r s' = (Inr (), s') \<and>
    Append en' cd r' s' = (Inl (ErrRunLogConflict (ev_run_id r)), s')"
proof -
  from append_ok [OF ok] obtain j where j: "encodeRunLogRecord cd r = Inr j" "append_tx en r j s = Inr ((), s')" by blast
  then have pos: "0 < ev_sequence r" and mj: "marshal_event cd r = Some j"
    using validateRunLogRecord_pos by (auto simp: encodeRunLogRecord_Inr_iff)
  from inv cd pos j(2) show ?thesis
  proof (cases rule: append_effect)
    case (1 g row)
    have "decode_event cd row = Inr r" using cd mj 1(6) by (simp add: decode_event_def codec_ok_def)
    moreover have "Append en' cd r s' = (Inr (), s')"
      using append_again [OF 1(1-5) j(1) en] 1(6) by simp
    moreover have "Append en' cd r' s' = (Inl (ErrRunLogConflict (ev_run_id r)), s')"
      using append_again [OF 1(1), of r' g row j' en'] 1 r' en j(1) by auto
    ultimately show ?thesis using 1(5,7) by blast
  qed
qed

theorem append_is_idempotent_witness:
  "fst (Append (ex_env Postgres 16) ex_codec ((ex_event 1)\<lparr>ev_run_id := ''j''\<rparr>) ex_saved) = Inr () \<and>
   Append (ex_env Sqlite 17) ex_codec ((ex_event 1)\<lparr>ev_run_id := ''j'', ev_payload := ''other''\<rparr>) ex_journal =
     (Inl (ErrRunLogConflict ''j''), ex_journal)"
proof -
  let ?e = "(ex_event 1)\<lparr>ev_run_id := ''j''\<rparr>" and ?e' = "(ex_event 1)\<lparr>ev_run_id := ''j'', ev_payload := ''other''\<rparr>"
  have ok: "Append (ex_env Postgres 16) ex_codec ?e ex_saved = (Inr (), ex_journal)"
    using ex_journal_ok by (simp add: ex_journal_def prod_eq_iff)
  have e: "ready (ex_env Sqlite 17) = Inr ()" "en_fault (ex_env Sqlite 17) = None"
    "en_ctx_after (ex_env Sqlite 17) = None" "0 < en_db_micro (ex_env Sqlite 17)" by code_simp+
  have j: "encodeRunLogRecord ex_codec ?e' = Inr (Inr ?e')" "encodeRunLogRecord ex_codec ?e = Inr (Inr ?e)" by code_simp+
  have ne: "?e \<noteq> ?e'" by (simp add: ex_event_def)
  have n: "encodeRunLogRecord ex_codec ?e \<noteq> Inr (Inr ?e')" using j(2) ne by simp
  have r: "ev_run_id ?e' = ev_run_id ?e" "ev_sequence ?e' = ev_sequence ?e" "ev_run_id ?e = ''j''" by simp_all
  from append_is_idempotent [OF ex_codec_ok ex_invs(2) ok e r(1,2) j(1) n] ok show ?thesis by simp
qed

section \<open>Tombstones\<close>

lemma ex_purged_inv: "store_inv ex_codec ex_purged"
proof -
  obtain res err s' where p: "PurgeTerminalRuns (\<lambda>_. ex_env Sqlite 20) ex_codec ex_request ex_finished = ((res, err), s')"
    by (metis surj_pair)
  from PurgeTerminalRuns_inv [OF ex_invs(3) ex_codec_ok p] p show ?thesis by (simp add: ex_purged_def)
qed

lemma ensure_known:
  assumes inv: "store_inv cd s" and g: "find_registry s rid = Some g"
  shows "ensureRunRegistry en rid kind s =
    (if rg_state g \<noteq> runStateActive then Inl errRunRetired
     else if rg_kind g \<noteq> kind \<and> \<not> (kind = runKindJournal \<and> rg_kind g = runKindWorkflow)
     then Inl errRunKindConflict else Inr (g, s))"
proof -
  have same: "s\<lparr>registry := ins_ignore rg_run_id x (registry s)\<rparr> = s" if "rg_run_id x = rid" for x
    using registry_row(1,2) [OF inv g] that by (simp add: ins_ignore_def) (metis image_eqI)
  show ?thesis
    unfolding ensureRunRegistry_def Let_def by (simp add: same lockRunRegistry_find [OF store_invD(1) [OF inv]] g)
qed

lemma no_head_write_fails:
  assumes inv: "store_inv cd s" and noh: "\<not> has_head s (cp_run_id c)"
  shows "fst (write_checkpoint en cd c v terminal s) \<noteq> Inr ()" "fst (Claim en cd c v s) \<noteq> Inr ()"
proof -
  have l: "\<not> lockRunHead en s (cp_run_id c)"
    using noh by (simp add: lockRunHead_find [OF store_invD(1) [OF inv]] find_head_None)
  show "fst (write_checkpoint en cd c v terminal s) \<noteq> Inr ()"
  proof
    assume "fst (write_checkpoint en cd c v terminal s) = Inr ()"
    then have "write_tx en cd c v s = Inr ((), snd (write_checkpoint en cd c v terminal s))"
      by (metis prod.collapse write_ok)
    with l show False by (simp add: write_tx_def)
  qed
  show "fst (Claim en cd c v s) \<noteq> Inr ()"
  proof
    assume "fst (Claim en cd c v s) = Inr ()"
    then have "claim_tx en cd c v s = Inr ((), snd (Claim en cd c v s))" by (metis prod.collapse claim_ok)
    with l show False by (simp add: claim_tx_def)
  qed
qed

text \<open>
  A retired run is sealed: appends to it are conflicts, fenced appends have lost
  their lease, it cannot be loaded, and no claim, save or finish of it succeeds; none of
  these calls changes the database.
\<close>

theorem retired_run_is_sealed:
  assumes inv: "store_inv cd s" and g: "find_registry s rid = Some g" "rg_state g \<noteq> runStateActive"
    and en: "ready en = Inr ()" "en_fault en = None" "en_ctx_after en = None"
    and r: "ev_run_id r = rid" "encodeRunLogRecord cd r = Inr j"
    and f: "fn_owner_id f \<noteq> ''''" "0 < fn_claim_sequence f" and c: "cp_run_id c = rid"
    and v: "validateIndexedID ''run id'' rid = Inr ()"
  shows "Append en cd r s = (Inl (ErrRunLogConflict rid), s) \<and>
    AppendFenced en cd r f s = (Inl ErrCheckpointLeaseLost, s) \<and>
    Load en cd rid s = Inl ErrCheckpointNotFound \<and> fst (Claim en cd c n s) \<noteq> Inr () \<and>
    fst (Save en cd c n s) \<noteq> Inr () \<and> fst (Finish en cd c n s) \<noteq> Inr ()"
proof -
  have noh: "\<not> has_head s (cp_run_id c)"
    using registry_row(2,3) [OF inv g(1)] g(2) c by (simp add: registry_row_ok_def)
  have "Append en cd r s = (Inl (ErrRunLogConflict rid), s)"
    using en g(2) r by (simp add: Append_def append_tx_def ensure_known [OF inv g(1)] transaction_def)
  moreover have "AppendFenced en cd r f s = (Inl ErrCheckpointLeaseLost, s)"
    using en g(2) r f by (simp add: AppendFenced_def append_fenced_tx_def ensure_known [OF inv g(1)] transaction_def)
  moreover have "\<not> active s rid" using g by (simp add: active_def)
  then have "Load en cd rid s = Inl ErrCheckpointNotFound" by (simp add: Load_eq [OF inv en(1,2) v])
  ultimately show ?thesis using no_head_write_fails [OF inv noh] by (simp add: Save_def Finish_def)
qed

theorem retired_run_is_sealed_witness:
  "find_registry ex_purged ''r'' \<noteq> None \<and>
   AppendFenced (ex_env Sqlite 21) ex_codec (ex_event 3) ex_fence ex_purged = (Inl ErrCheckpointLeaseLost, ex_purged)"
proof -
  let ?en = "ex_env Sqlite 21"
  have "find_registry ex_purged ''r'' \<noteq> None \<and>
      map_option rg_state (find_registry ex_purged ''r'') \<noteq> Some runStateActive" by code_simp
  then obtain g where g: "find_registry ex_purged ''r'' = Some g" "rg_state g \<noteq> runStateActive" by auto
  have e: "ready ?en = Inr ()" "en_fault ?en = None" "en_ctx_after ?en = None"
    "ev_run_id (ex_event 3) = ''r''" "encodeRunLogRecord ex_codec (ex_event 3) = Inr (Inr (ex_event 3))"
    "fn_owner_id ex_fence \<noteq> ''''" "0 < fn_claim_sequence ex_fence" "cp_run_id ex_ckpt = ''r''"
    "validateIndexedID ''run id'' ''r'' = Inr ()" by code_simp+
  from retired_run_is_sealed [OF ex_purged_inv g e] g show ?thesis by simp
qed

section \<open>The floor of a compacted run\<close>

text \<open>
  C14. Deleted history stays deleted: an append at or below the floor of an active
  workflow run reports the floor and changes nothing, fenced or not, and a listing of the
  run that starts below the floor is refused rather than answered with a gap.
\<close>

theorem below_the_floor:
  assumes inv: "store_inv cd s" and g: "find_registry s rid = Some g" "rg_state g = runStateActive"
    "rg_kind g = runKindWorkflow"
    and en: "ready en = Inr ()" "en_fault en = None" "en_ctx_after en = None"
    and r: "ev_run_id r = rid" "encodeRunLogRecord cd r = Inr j" "ev_sequence r \<le> rg_compacted g"
    and f: "fn_owner_id f \<noteq> ''''" "0 < fn_claim_sequence f"
    and q: "lq_run_id q = rid" "lq_session_id q = ''''" "0 \<le> lq_after q" "0 \<le> lq_limit q"
      "lq_after q < rg_compacted g" and v: "validateIndexedID ''run id'' rid = Inr ()"
  shows "Append en cd r s = (Inl (ErrHistoryCompacted (rg_compacted g)), s) \<and>
    AppendFenced en cd r f s = (Inl (ErrHistoryCompacted (rg_compacted g)), s) \<and>
    List_runlog en cd q s = Inl (ErrHistoryCompacted (rg_compacted g))"
proof -
  have ce: "\<not> concurrencyError en (ErrHistoryCompacted n)" for n
    by (simp add: concurrencyError_def err_text_def to_lower_def has_prefix_def)
  have "Append en cd r s = (Inl (ErrHistoryCompacted (rg_compacted g)), s)"
    using en g(2,3) r by (simp add: Append_def append_tx_def ensure_known [OF inv g(1)] transaction_def contextOrError_def)
  moreover have "AppendFenced en cd r f s = (Inl (ErrHistoryCompacted (rg_compacted g)), s)"
    using en g(2,3) r f ce
    by (simp add: AppendFenced_def append_fenced_tx_def ensure_known [OF inv g(1)] transaction_def contextOrError_def)
  moreover have "rid \<noteq> ''''" using v by (auto simp: validateIndexedID_Inr_iff)
  then have "List_runlog en cd q s = Inl (ErrHistoryCompacted (rg_compacted g))"
    using en g q v by (simp add: List_runlog_def optional_id_def indexed_field_def transaction_def list_tx_def
        lockRunRegistry_find [OF store_invD(1) [OF inv]] contextOrError_def)
  ultimately show ?thesis by blast
qed

theorem below_the_floor_witness:
  "map_option rg_compacted (find_registry ex_compacted ''r'') = Some 1 \<and>
   AppendFenced (ex_env Sqlite 16) ex_codec (ex_event 1) ex_fence ex_compacted = (Inl (ErrHistoryCompacted 1), ex_compacted)"
proof -
  let ?en = "ex_env Sqlite 16" and ?q = "\<lparr>lq_session_id = '''', lq_run_id = ''r'', lq_after = 0, lq_limit = 0\<rparr>"
  have "find_registry ex_compacted ''r'' \<noteq> None \<and>
      map_option rg_state (find_registry ex_compacted ''r'') = Some runStateActive \<and>
      map_option rg_kind (find_registry ex_compacted ''r'') = Some runKindWorkflow \<and>
      map_option rg_compacted (find_registry ex_compacted ''r'') = Some 1" by code_simp
  then obtain g where g: "find_registry ex_compacted ''r'' = Some g" "rg_state g = runStateActive"
    "rg_kind g = runKindWorkflow" and c: "rg_compacted g = 1" by auto
  have e: "ready ?en = Inr ()" "en_fault ?en = None" "en_ctx_after ?en = None"
    "ev_run_id (ex_event 1) = ''r''" "encodeRunLogRecord ex_codec (ex_event 1) = Inr (Inr (ex_event 1))" by code_simp+
  have f: "fn_owner_id ex_fence \<noteq> ''''" "0 < fn_claim_sequence ex_fence" by code_simp+
  have v: "validateIndexedID ''run id'' ''r'' = Inr ()" by code_simp
  have sq: "ev_sequence (ex_event 1) \<le> rg_compacted g" by (simp add: c ex_event_def)
  have q: "lq_run_id ?q = ''r''" "lq_session_id ?q = ''''" "0 \<le> lq_after ?q" "0 \<le> lq_limit ?q"
    "lq_after ?q < rg_compacted g" by (simp_all add: c)
  from below_the_floor [OF ex_invs(4) g e sq f q v] g c show ?thesis by simp
qed

section \<open>The classification of errors\<close>

definition ex_locked :: "string \<Rightarrow> (store_error + unit)" where
  "ex_locked rid = fst (AppendFenced (ex_env Sqlite 12) ex_codec
     ((ex_event 1)\<lparr>ev_run_id := rid, ev_payload := ''other''\<rparr>) ex_fence
     (snd (AppendFenced (ex_env Sqlite 11) ex_codec ((ex_event 1)\<lparr>ev_run_id := rid\<rparr>) ex_fence
       (snd (Create (ex_env Sqlite 10) ex_codec (ex_ckpt\<lparr>cp_run_id := rid\<rparr>) empty_db)))))"

text \<open>
  On SQLite an error that carries no result code is classified by its text, and the
  text of a conflict contains the caller's run id: the owner of the run that is named
  \<open>database is locked\<close> is told that its lease is lost when its append conflicts with the
  stored event, and the owner of any other run is told of the conflict.
\<close>

theorem conflict_taken_for_lock:
  "ex_locked ''database is locked'' = Inl ErrCheckpointLeaseLost \<and>
   ex_locked ''r'' = Inl (ErrRunLogConflict ''r'')"
  by code_simp

end
