(* ===== verification/Dbstore_Retention_Claims.thy ===== *)
theory Dbstore_Retention_Claims
  imports Dbstore_Examples
begin

text \<open>
  The properties of retention: the purges delete within their budgets, count what they
  delete, and delete only what their contracts allow.
\<close>

lemma purge_enroll_history:
  assumes "store_inv cd s" and "purge_enroll ens cd before lim bud s = (r, s')"
  shows "events s' = events s \<and> checkpoints s' = checkpoints s"
  using assms enrollTerminalRuns_history [OF assms(1)]
  by (auto simp: purge_enroll_def Let_def split: sum.split_asm if_split_asm)

text \<open>
  A purge of terminal runs stays within its budget and reports the truth: over all its
  transactions, whatever fails between them, it deletes no more checkpoints and events than
  its row limit, and it counts exactly the events and exactly the checkpoints it deleted;
  without a limit the defaults hold. The code holds the byte limit strictly too: a row that
  is larger than the limit is never deleted, although the documentation of the stores
  promises that a single oversized row is deleted alone.
\<close>

theorem purge_within_budget:
  assumes inv: "store_inv cd s" and cd: "codec_ok cd" and lims: "purge_limits req = Inr (lim, bud)"
    and p: "PurgeTerminalRuns ens cd req s = ((res, err), s')"
  shows "pu_events res = int (length (events s)) - int (length (events s')) \<and>
    pu_checkpoints res = int (length (checkpoints s)) - int (length (checkpoints s')) \<and>
    0 \<le> db_rows s - db_rows s' \<and> db_rows s - db_rows s' \<le> pb_rows bud \<and>
    0 \<le> db_bytes cd s - db_bytes cd s' \<and> db_bytes cd s - db_bytes cd s' \<le> pb_bytes bud \<and>
    pb_rows bud \<le> maxPurgeRowLimit \<and> pb_bytes bud \<le> maxPurgeByteLimit"
proof -
  note pos = purge_limits_pos [OF lims]
  have most: "pb_rows bud \<le> maxPurgeRowLimit" "pb_bytes bud \<le> maxPurgeByteLimit"
    using lims by (auto simp: purge_limits_def with_default_def maxPurgeRowLimit_def maxPurgeByteLimit_def
        defaultPurgeRowLimit_def defaultPurgeByteLimit_def split: if_split_asm)
  from p show ?thesis
  proof (cases rule: PurgeTerminalRuns_cases)
    case (early e)
    then have "events s' = events s \<and> checkpoints s' = checkpoints s" using purge_enroll_history [OF inv] by blast
    with early(1) pos most show ?thesis by (simp add: no_purge_def db_rows_def db_bytes_def)
  next
    case (loop lim' bud' n s1 pending res' err' m)
    with lims have bud: "bud' = bud" by simp
    note same = purge_enroll_history [OF inv loop(2)]
    from purge_loop_spec [OF purge_enroll_inv [OF inv loop(2)] cd loop(3)] pos bud
    have "pu_events res' - pu_events no_purge = int (length (events s1)) - int (length (events s')) \<and>
      pu_checkpoints res' - pu_checkpoints no_purge = int (length (checkpoints s1)) - int (length (checkpoints s')) \<and>
      0 \<le> db_rows s1 - db_rows s' \<and> db_rows s1 - db_rows s' \<le> pb_rows bud \<and>
      0 \<le> db_bytes cd s1 - db_bytes cd s' \<and> db_bytes cd s1 - db_bytes cd s' \<le> pb_bytes bud" by simp
    with same most loop(4,5) show ?thesis by (simp add: no_purge_def db_rows_def db_bytes_def)
  qed
qed

theorem purge_within_budget_witness:
  "int (length (events ex_finished)) - int (length (events ex_purged)) = 2 \<and>
   int (length (checkpoints ex_finished)) - int (length (checkpoints ex_purged)) = 1 \<and> purge_limits ex_request = Inr (100, \<lparr>pb_rows = 3, pb_bytes = 67108864\<rparr>)"
proof -
  have l: "purge_limits ex_request = Inr (100, \<lparr>pb_rows = 3, pb_bytes = 67108864\<rparr>)" by code_simp
  have p: "PurgeTerminalRuns (\<lambda>_. ex_env Sqlite 20) ex_codec ex_request ex_finished =
      ((\<lparr>pu_runs = 0, pu_checkpoints = 1, pu_events = 2, pu_pending = 1\<rparr>, None), ex_purged)"
    using ex_purge_ok by (simp add: ex_purged_def prod_eq_iff)
  from purge_within_budget [OF ex_invs(3) ex_codec_ok l p] l show ?thesis by simp
qed

text \<open>
  The purge of journals touches journals only: every workflow run keeps its registry
  row, its checkpoints, its head and all its events, whatever fails on the way, and the
  purge reports the number of events it deleted.
\<close>

theorem journal_purge_spares_workflows:
  assumes "store_inv cd s" and "PurgeRunLog ens cd req s = ((k, err), s')"
  shows "checkpoints s' = checkpoints s \<and> runs s' = runs s \<and> set (events s') \<subseteq> set (events s) \<and>
    (\<forall>g \<in> set (registry s). rg_kind g = runKindWorkflow \<longrightarrow> g \<in> set (registry s') \<and>
       (\<forall>e \<in> set (events s). rl_run_id e = rg_run_id g \<longrightarrow> e \<in> set (events s'))) \<and>
    k = int (length (events s)) - int (length (events s'))"
  using PurgeRunLog_spec [OF assms] by (simp add: spares_workflows_def)

definition ex_journal_request :: runlog_purge_request where
  "ex_journal_request = \<lparr>lp_before = unix_micro 100, lp_limit = 0, lp_byte_limit = 0, lp_allow_replay_loss = True\<rparr>"

theorem journal_purge_spares_workflows_witness:
  "\<exists>s'. PurgeRunLog (\<lambda>_. ex_env Sqlite 20) ex_codec ex_journal_request ex_journal = ((1, None), s') \<and>
     length (events s') + 1 = length (events ex_journal) \<and> runs s' = runs ex_journal"
proof -
  have "fst (PurgeRunLog (\<lambda>_. ex_env Sqlite 20) ex_codec ex_journal_request ex_journal) = (1, None)" by code_simp
  then obtain s' where p: "PurgeRunLog (\<lambda>_. ex_env Sqlite 20) ex_codec ex_journal_request ex_journal = ((1, None), s')"
    by (metis prod.collapse)
  from journal_purge_spares_workflows [OF ex_invs(5) p] p show ?thesis by auto
qed

text \<open>
  C39. Compaction cuts a prefix that nobody needs: it succeeds only on an active workflow
  run that is running or interrupted and has no event pending; the floor moves from the old
  one by the number of deleted events, not beyond the sequence that the checkpoint confirms;
  exactly the events of the run up to the floor are gone, and checkpoints and heads stay.
\<close>

theorem compaction_cuts_confirmed_prefix:
  assumes inv: "store_inv cd s" and ok: "PurgeConfirmedRunLog en cd req s = (Inr res, s')"
  shows "\<exists>reg c. find_registry s (cf_run_id req) = Some reg \<and> rg_kind reg = runKindWorkflow \<and>
    rg_state reg = runStateActive \<and> loadCheckpoint cd s (cf_run_id req) = Inr c \<and>
    (cp_status c = CheckpointRunning \<or> cp_status c = CheckpointInterrupted) \<and> cp_pending_sequence c = 0 \<and>
    cr_compacted res = rg_compacted reg + cr_events res \<and> 0 \<le> cr_events res \<and>
    cr_compacted res \<le> max (rg_compacted reg) (cp_confirmed_sequence c) \<and>
    events s' = filter (\<lambda>e. rl_run_id e \<noteq> cf_run_id req \<or> cr_compacted res < rl_sequence e) (events s) \<and>
    find_registry s' (cf_run_id req) = Some (reg\<lparr>rg_compacted := cr_compacted res\<rparr>) \<and>
    checkpoints s' = checkpoints s \<and> runs s' = runs s"
proof -
  from ok obtain lim byteLimit where "confirmed_tx en cd req lim byteLimit s = Inr (res, s')"
    by (auto simp: PurgeConfirmedRunLog_def transaction_Inr_iff split: sum.split_asm prod.split_asm)
  with inv show ?thesis
  proof (cases rule: confirmed_tx_spec)
    case (1 reg c)
    then show ?thesis unfolding compacted_def by blast
  qed
qed

theorem compaction_cuts_confirmed_prefix_witness:
  "map_option rg_compacted (find_registry ex_saved ''r'') = Some 0 \<and>
   events ex_compacted = filter (\<lambda>e. rl_run_id e \<noteq> ''r'' \<or> 1 < rl_sequence e) (events ex_saved)"
proof -
  have ok: "PurgeConfirmedRunLog (ex_env Sqlite 15) ex_codec ex_confirmed_request ex_saved =
      (Inr \<lparr>cr_events = 1, cr_compacted = 1\<rparr>, ex_compacted)"
    using ex_compact_ok by (simp add: ex_compacted_def prod_eq_iff)
  from compaction_cuts_confirmed_prefix [OF ex_invs(2) ok] show ?thesis
    by (auto simp: ex_confirmed_request_def)
qed

end
