(* ===== verification/Migrations.thy ===== *)
theory Migrations
  imports Dbstore_Inv
begin

text \<open>
  The data part of a migration (\<open>migrations.go\<close> and the end of \<open>retention.go\<close>): run heads
  built from the checkpoints of a version 1 database, and the metadata of version 2, the
  retention rows and the run registry, filled in batch by batch, promoted, and checked for
  gaps. Statements outside a transaction commit one by one, so a run takes an environment
  for each statement and a failure leaves what was done before it.

  A row of a table that a migration has only just created is a row of the database record
  already; before the migration the table is empty. A record of the journal without a
  session column has the empty session, the default of the column that is added.
\<close>

definition backfillBatchSize :: nat where "backfillBatchSize = 256"
definition metadataReconcileAttempts :: nat where "metadataReconcileAttempts = 2"

section \<open>Run heads\<close>

definition latest_version :: "'j db \<Rightarrow> 'j checkpointRow \<Rightarrow> bool" where
  "latest_version s c \<longleftrightarrow>
    \<not> has_row (\<lambda>x. ck_run_id x = ck_run_id c \<and> ck_version x > ck_version c) (checkpoints s)"

definition head_candidates :: "string \<Rightarrow> 'j db \<Rightarrow> 'j checkpointRow list" where
  "head_candidates after s = take backfillBatchSize
    (select_rows (\<lambda>c. ck_run_id c > after \<and> latest_version s c \<and>
       (\<not> has_row (\<lambda>h. rn_run_id h = ck_run_id c) (runs s) \<or>
        has_row (\<lambda>h. rn_run_id h = ck_run_id c \<and> rn_version h < ck_version c) (runs s)))
      ck_run_id (checkpoints s))"

definition decode_head :: "'j codec \<Rightarrow> 'j checkpointRow \<Rightarrow> store_error + checkpoint" where
  "decode_head cd c =
    (case unmarshal_checkpoint cd (ck_record_json c) of
       None \<Rightarrow> Inl (ErrOther ''dbstore: decode run head for backfill'')
     | Some r \<Rightarrow>
         if cp_run_id r \<noteq> ck_run_id c \<or> cp_version r \<noteq> ck_version c
         then Inl (ErrOther ''dbstore: checkpoint metadata does not match run head source'')
         else Inr r)"

fun decode_heads :: "'j codec \<Rightarrow> 'j checkpointRow list \<Rightarrow> store_error + checkpoint list" where
  "decode_heads cd [] = Inr []"
| "decode_heads cd (c # cs) =
    rbind (decode_head cd c) (\<lambda>r. rbind (decode_heads cd cs) (\<lambda>rs. Inr (r # rs)))"

definition loadRunHeadBackfillBatch ::
  "env \<Rightarrow> 'j codec \<Rightarrow> string \<Rightarrow> 'j db \<Rightarrow> store_error + checkpoint list" where
  "loadRunHeadBackfillBatch en cd after s =
    rbind (query en (Inr (head_candidates after s))) (decode_heads cd)"

text \<open>A head is written only while the checkpoint it comes from is still the latest one.\<close>

definition backfillRunHead :: "checkpoint \<Rightarrow> 'j db \<Rightarrow> 'j db" where
  "backfillRunHead r s =
    (if \<not> has_row (\<lambda>c. ck_run_id c = cp_run_id r \<and> ck_version c = cp_version r \<and>
            latest_version s c) (checkpoints s)
     then s
     else let created = ins_ignore rn_run_id (runHead r) (runs s)
       in s\<lparr>runs := upd_rows (\<lambda>h. rn_run_id h = cp_run_id r \<and> rn_version h < cp_version r)
            (advance_head r) created\<rparr>)"

definition backfill_heads_tx :: "checkpoint list \<Rightarrow> 'j db \<Rightarrow> store_error + (unit \<times> 'j db)" where
  "backfill_heads_tx rs = (\<lambda>s. Inr ((), fold backfillRunHead rs s))"

lemma backfillRunHead_frame:
  "checkpoints (backfillRunHead r s) = checkpoints s \<and> events (backfillRunHead r s) = events s \<and>
   retention (backfillRunHead r s) = retention s \<and> registry (backfillRunHead r s) = registry s \<and>
   next_ordinal (backfillRunHead r s) = next_ordinal s"
  by (simp add: backfillRunHead_def Let_def)

lemma fold_backfillRunHead_frame:
  "checkpoints (fold backfillRunHead rs s) = checkpoints s \<and> events (fold backfillRunHead rs s) = events s \<and>
   retention (fold backfillRunHead rs s) = retention s \<and> registry (fold backfillRunHead rs s) = registry s \<and>
   next_ordinal (fold backfillRunHead rs s) = next_ordinal s"
  by (induction rs arbitrary: s) (auto simp: backfillRunHead_frame)

lemma decode_heads_ids:
  "decode_heads cd cs = Inr rs \<Longrightarrow> map cp_run_id rs = map ck_run_id cs \<and> map cp_version rs = map ck_version cs"
  by (induction cs arbitrary: rs)
    (auto simp: rbind_Inr_iff decode_head_def split: option.split_asm if_split_asm)

lemma head_candidates_after: "c \<in> set (head_candidates after s) \<Longrightarrow> after < ck_run_id c \<and> c \<in> set (checkpoints s)"
  by (auto simp: head_candidates_def dest!: in_set_takeD)

lemma loaded_last_after:
  assumes "loadRunHeadBackfillBatch en cd after s = Inr rs" and "rs \<noteq> []"
  shows "after < cp_run_id (last rs) \<and> cp_run_id (last rs) \<in> ck_run_id ` set (checkpoints s)"
proof -
  from assms(1) have d: "decode_heads cd (head_candidates after s) = Inr rs"
    by (auto simp: loadRunHeadBackfillBatch_def query_def rbind_Inr_iff split: option.split_asm)
  then have m: "map cp_run_id rs = map ck_run_id (head_candidates after s)" by (simp add: decode_heads_ids)
  with assms(2) have ne: "head_candidates after s \<noteq> []" by auto
  have "cp_run_id (last rs) = ck_run_id (last (head_candidates after s))"
    using m assms(2) ne by (metis last_map)
  with head_candidates_after [OF last_in_set [OF ne]] show ?thesis by auto
qed

text \<open>
  A loop over batches ends because the rows after the last key of a batch are fewer than
  those after the key before it.
\<close>

definition keys_after :: "'k::linorder \<Rightarrow> 'k list \<Rightarrow> nat" where
  "keys_after k ks = length (filter ((<) k) ks)"

lemma fewer_after:
  assumes "after < k" and "k \<in> set ks"
  shows "keys_after k ks < keys_after after ks"
proof -
  have "filter ((<) k) ks = filter ((<) k) (filter ((<) after) ks)"
    using assms(1) by (auto intro: filter_cong)
  moreover have "k \<in> set (filter ((<) after) ks)" using assms by simp
  ultimately show ?thesis
    unfolding keys_after_def using length_filter_less [of k "filter ((<) after) ks" "(<) k"] by simp
qed

lemma transaction_simple:
  "(Inr u, s') = transaction en (\<lambda>s. Inr ((), f s)) s \<Longrightarrow> s' = f s"
  by (auto simp: transaction_def split: option.split_asm)

function backfillRunHeads ::
  "(nat \<Rightarrow> env) \<Rightarrow> nat \<Rightarrow> 'j codec \<Rightarrow> string \<Rightarrow> 'j db \<Rightarrow> (store_error + nat) \<times> 'j db" where
  "backfillRunHeads ens n cd after s =
    (case loadRunHeadBackfillBatch (ens n) cd after s of
       Inl e \<Rightarrow> (Inl e, s)
     | Inr rs \<Rightarrow>
       if rs = [] then (Inr (n + 1), s)
       else (case transaction (ens (n + 1)) (backfill_heads_tx rs) s of
           (Inl e, s') \<Rightarrow> (Inl e, s')
         | (Inr _, s') \<Rightarrow>
             if length rs < backfillBatchSize then (Inr (n + 2), s')
             else backfillRunHeads ens (n + 2) cd (cp_run_id (last rs)) s'))"
  by pat_completeness auto

termination
  by (relation "measure (\<lambda>(ens, n, cd, after, s). keys_after after (map ck_run_id (checkpoints s)))")
    (auto simp: fold_backfillRunHead_frame backfill_heads_tx_def
       dest!: transaction_simple loaded_last_after intro!: fewer_after)

declare backfillRunHeads.simps [simp del]

section \<open>Retention metadata\<close>

definition retention_candidates :: "int \<Rightarrow> 'j db \<Rightarrow> 'j runLogRow list" where
  "retention_candidates after s = take backfillBatchSize
    (select_rows (\<lambda>e. rl_ordinal e > after \<and>
       \<not> has_row (\<lambda>t. rt_ordinal t = rl_ordinal e) (retention s)) rl_ordinal (events s))"

definition retention_row :: "int \<Rightarrow> 'j runLogRow \<Rightarrow> runLogRetentionRow" where
  "retention_row appended e =
    \<lparr>rt_ordinal = rl_ordinal e, rt_run_id = rl_run_id e, rt_appended_at = appended\<rparr>"

definition insert_retention :: "runLogRetentionRow list \<Rightarrow> 'j db \<Rightarrow> 'j db" where
  "insert_retention rows s = s\<lparr>retention := fold (ins_ignore rt_ordinal) rows (retention s)\<rparr>"

lemma retention_candidates_after:
  "e \<in> set (retention_candidates after s) \<Longrightarrow> after < rl_ordinal e \<and> e \<in> set (events s)"
  by (auto simp: retention_candidates_def dest!: in_set_takeD)

lemma retention_last_after:
  "retention_candidates after s \<noteq> [] \<Longrightarrow> after < rl_ordinal (last (retention_candidates after s)) \<and>
    rl_ordinal (last (retention_candidates after s)) \<in> rl_ordinal ` set (events s)"
  using retention_candidates_after [OF last_in_set] by blast

lemma insert_retention_frame:
  "checkpoints (insert_retention rows s) = checkpoints s \<and> events (insert_retention rows s) = events s \<and>
   runs (insert_retention rows s) = runs s \<and> registry (insert_retention rows s) = registry s \<and>
   next_ordinal (insert_retention rows s) = next_ordinal s"
  by (simp add: insert_retention_def)

lemma query_InrD: "query en (Inr x) = Inr y \<Longrightarrow> y = x"
  by (auto simp: query_def split: option.split_asm)

function retention_loop ::
  "(nat \<Rightarrow> env) \<Rightarrow> nat \<Rightarrow> int \<Rightarrow> int \<Rightarrow> 'j db \<Rightarrow> (store_error + nat) \<times> 'j db" where
  "retention_loop ens n appended after s =
    (case query (ens n) (Inr (retention_candidates after s)) of
       Inl e \<Rightarrow> (Inl e, s)
     | Inr cs \<Rightarrow>
       if cs = [] then (Inr (n + 1), s)
       else (case transaction (ens (n + 1))
               (\<lambda>s. Inr ((), insert_retention (map (retention_row appended) cs) s)) s of
           (Inl e, s') \<Rightarrow> (Inl e, s')
         | (Inr _, s') \<Rightarrow>
             if length cs < backfillBatchSize then (Inr (n + 2), s')
             else retention_loop ens (n + 2) appended (rl_ordinal (last cs)) s'))"
  by pat_completeness auto

termination
  by (relation "measure (\<lambda>(ens, n, appended, after, s). keys_after after (map rl_ordinal (events s)))")
    (auto simp: insert_retention_frame dest!: transaction_simple query_InrD retention_last_after intro!: fewer_after)

declare retention_loop.simps [simp del]

definition backfillRunLogRetention :: "(nat \<Rightarrow> env) \<Rightarrow> nat \<Rightarrow> 'j db \<Rightarrow> (store_error + nat) \<times> 'j db" where
  "backfillRunLogRetention ens n s = retention_loop ens n (unix_nano (en_now_utc (ens n))) 0 s"

section \<open>The run registry\<close>

definition workflowRunIDBatch :: "string \<Rightarrow> 'j db \<Rightarrow> string list" where
  "workflowRunIDBatch after s = take backfillBatchSize (sort (filter ((<) after) (map rn_run_id (runs s))))"

definition journalRunIDBatch :: "string \<Rightarrow> 'j db \<Rightarrow> string list" where
  "journalRunIDBatch after s =
    take backfillBatchSize (sort (filter ((<) after) (remdups (map rl_run_id (events s)))))"

definition load_batch :: "run_kind \<Rightarrow> string \<Rightarrow> 'j db \<Rightarrow> string list" where
  "load_batch kind = (if kind = runKindWorkflow then workflowRunIDBatch else journalRunIDBatch)"

definition registry_row :: "run_kind \<Rightarrow> string \<Rightarrow> runRegistryRow" where
  "registry_row kind rid = \<lparr>rg_run_id = rid, rg_kind = kind, rg_state = runStateActive,
     rg_updated_at = 0, rg_compacted = 0\<rparr>"

definition insert_registry :: "runRegistryRow list \<Rightarrow> 'j db \<Rightarrow> 'j db" where
  "insert_registry rows s = s\<lparr>registry := fold (ins_ignore rg_run_id) rows (registry s)\<rparr>"

definition batch_ids :: "run_kind \<Rightarrow> 'j db \<Rightarrow> string list" where
  "batch_ids kind s = (if kind = runKindWorkflow then map rn_run_id (runs s) else map rl_run_id (events s))"

lemma load_batch_after: "rid \<in> set (load_batch kind after s) \<Longrightarrow> after < rid \<and> rid \<in> set (batch_ids kind s)"
  by (auto simp: load_batch_def workflowRunIDBatch_def journalRunIDBatch_def batch_ids_def
      dest!: in_set_takeD split: if_split_asm)

lemma load_batch_last:
  "load_batch kind after s \<noteq> [] \<Longrightarrow> after < last (load_batch kind after s) \<and>
    last (load_batch kind after s) \<in> set (batch_ids kind s)"
  using load_batch_after [OF last_in_set] by blast

lemma insert_registry_frame:
  "checkpoints (insert_registry rows s) = checkpoints s \<and> events (insert_registry rows s) = events s \<and>
   runs (insert_registry rows s) = runs s \<and> retention (insert_registry rows s) = retention s \<and>
   next_ordinal (insert_registry rows s) = next_ordinal s"
  by (simp add: insert_registry_def)

lemma batch_ids_registry: "batch_ids kind (insert_registry rows s) = batch_ids kind s"
  by (simp add: batch_ids_def insert_registry_frame)

function registry_loop ::
  "(nat \<Rightarrow> env) \<Rightarrow> nat \<Rightarrow> run_kind \<Rightarrow> string \<Rightarrow> 'j db \<Rightarrow> (store_error + nat) \<times> 'j db" where
  "registry_loop ens n kind after s =
    (case query (ens n) (Inr (load_batch kind after s)) of
       Inl e \<Rightarrow> (Inl e, s)
     | Inr rids \<Rightarrow>
       if rids = [] then (Inr (n + 1), s)
       else (case transaction (ens (n + 1))
               (\<lambda>s. Inr ((), insert_registry (map (registry_row kind) rids) s)) s of
           (Inl e, s') \<Rightarrow> (Inl e, s')
         | (Inr _, s') \<Rightarrow>
             if length rids < backfillBatchSize then (Inr (n + 2), s')
             else registry_loop ens (n + 2) kind (last rids) s'))"
  by pat_completeness auto

termination
  by (relation "measure (\<lambda>(ens, n, kind, after, s). keys_after after (batch_ids kind s))")
    (auto simp: batch_ids_registry dest!: transaction_simple query_InrD load_batch_last intro!: fewer_after)

declare registry_loop.simps [simp del]

definition backfillRegistryKind ::
  "(nat \<Rightarrow> env) \<Rightarrow> nat \<Rightarrow> run_kind \<Rightarrow> 'j db \<Rightarrow> (store_error + nat) \<times> 'j db" where
  "backfillRegistryKind ens n kind s = registry_loop ens n kind '''' s"

text \<open>A step that goes on where another one stopped, unless that one failed.\<close>

definition and_then :: "(store_error + nat) \<times> 's \<Rightarrow>
    (nat \<Rightarrow> 's \<Rightarrow> (store_error + 'a) \<times> 's) \<Rightarrow> (store_error + 'a) \<times> 's" where
  "and_then r f = (case r of (Inl e, s) \<Rightarrow> (Inl e, s) | (Inr n, s) \<Rightarrow> f n s)"

definition backfillRunRegistry :: "(nat \<Rightarrow> env) \<Rightarrow> nat \<Rightarrow> 'j db \<Rightarrow> (store_error + nat) \<times> 'j db" where
  "backfillRunRegistry ens n s =
    and_then (backfillRegistryKind ens n runKindWorkflow s) (\<lambda>n. backfillRegistryKind ens n runKindJournal)"

definition promoted :: "env \<Rightarrow> 'j db \<Rightarrow> 'j db" where
  "promoted en s = s\<lparr>registry := upd_rows
     (\<lambda>g. rg_kind g = runKindJournal \<and> rg_state g = runStateActive \<and>
        has_row (\<lambda>h. rn_run_id h = rg_run_id g) (runs s))
     (\<lambda>g. g\<lparr>rg_kind := runKindWorkflow, rg_updated_at := unix_nano (en_now_utc en)\<rparr>) (registry s)\<rparr>"

definition promoteWorkflowRegistries :: "(nat \<Rightarrow> env) \<Rightarrow> nat \<Rightarrow> 'j db \<Rightarrow> (store_error + nat) \<times> 'j db" where
  "promoteWorkflowRegistries ens n s = transaction (ens n) (\<lambda>s. Inr (n + 1, promoted (ens n) s)) s"

section \<open>Gaps\<close>

definition registry_of :: "'j db \<Rightarrow> string \<Rightarrow> (runRegistryRow \<Rightarrow> bool) \<Rightarrow> bool" where
  "registry_of s rid P = has_row (\<lambda>g. rg_run_id g = rid \<and> P g) (registry s)"

definition retention_gap :: "'j db \<Rightarrow> bool" where
  "retention_gap s = has_row (\<lambda>e. \<not> has_row (\<lambda>t. rt_ordinal t = rl_ordinal e) (retention s)) (events s)"

definition workflow_gap :: "'j db \<Rightarrow> bool" where
  "workflow_gap s = has_row (\<lambda>h. \<not> registry_of s (rn_run_id h) (\<lambda>_. True) \<or>
     registry_of s (rn_run_id h) (\<lambda>g. rg_kind g \<noteq> runKindWorkflow \<or> rg_state g \<noteq> runStateActive)) (runs s)"

definition journal_gap :: "'j db \<Rightarrow> bool" where
  "journal_gap s = has_row (\<lambda>e.
     let run_exists = has_row (\<lambda>h. rn_run_id h = rl_run_id e) (runs s) in
     \<not> registry_of s (rl_run_id e) (\<lambda>_. True) \<or>
     (run_exists \<and> registry_of s (rl_run_id e) (\<lambda>g. rg_kind g \<noteq> runKindWorkflow \<or> rg_state g \<noteq> runStateActive)) \<or>
     (\<not> run_exists \<and> registry_of s (rl_run_id e) (\<lambda>g. rg_state g = runStateActive \<and> rg_kind g \<noteq> runKindJournal)) \<or>
     (\<not> run_exists \<and> registry_of s (rl_run_id e) (\<lambda>g. rg_kind g = runKindJournal \<and> rg_state g \<noteq> runStateActive)))
    (events s)"

definition floor_gap :: "'j db \<Rightarrow> bool" where
  "floor_gap s = has_row (\<lambda>g. rg_compacted g < 0 \<or> (rg_kind g = runKindJournal \<and> rg_compacted g \<noteq> 0) \<or>
     has_row (\<lambda>e. rl_run_id e = rg_run_id g \<and> rl_sequence e \<le> rg_compacted g) (events s)) (registry s)"

definition gap_checks :: "(string \<times> ('j db \<Rightarrow> bool)) list" where
  "gap_checks = [(''RunLog retention metadata'', retention_gap), (''workflow run registry'', workflow_gap),
     (''RunLog run registry'', journal_gap), (''RunLog compaction floor'', floor_gap)]"

fun first_gap :: "(nat \<Rightarrow> env) \<Rightarrow> nat \<Rightarrow> (string \<times> ('j db \<Rightarrow> bool)) list \<Rightarrow> 'j db \<Rightarrow> store_error + (string \<times> nat)" where
  "first_gap ens n [] s = Inr ('''', n)"
| "first_gap ens n ((name, gap) # rest) s =
    (case query (ens n) (Inr (gap s)) of
       Inl e \<Rightarrow> Inl e
     | Inr found \<Rightarrow> if found then Inr (name, n + 1) else first_gap ens (n + 1) rest s)"

definition v2MetadataGap :: "(nat \<Rightarrow> env) \<Rightarrow> nat \<Rightarrow> 'j db \<Rightarrow> store_error + (string \<times> nat)" where
  "v2MetadataGap ens n s = first_gap ens n gap_checks s"

text \<open>Fill, promote and check, twice at most.\<close>

definition fill_metadata :: "(nat \<Rightarrow> env) \<Rightarrow> nat \<Rightarrow> 'j db \<Rightarrow> (store_error + nat) \<times> 'j db" where
  "fill_metadata ens n s =
    and_then (and_then (backfillRunLogRetention ens n s) (backfillRunRegistry ens)) (promoteWorkflowRegistries ens)"

primrec reconcile_attempts ::
  "nat \<Rightarrow> (nat \<Rightarrow> env) \<Rightarrow> nat \<Rightarrow> 'j db \<Rightarrow> (store_error + nat) \<times> 'j db" where
  "reconcile_attempts 0 ens n s = (Inl (ErrOther ''dbstore: schema v2 metadata remains incomplete''), s)"
| "reconcile_attempts (Suc k) ens n s = and_then (fill_metadata ens n s) (\<lambda>n s.
    case v2MetadataGap ens n s of
      Inl e \<Rightarrow> (Inl e, s)
    | Inr (gap, n) \<Rightarrow> if gap = '''' then (Inr n, s) else reconcile_attempts k ens n s)"

definition reconcileV2Metadata :: "(nat \<Rightarrow> env) \<Rightarrow> nat \<Rightarrow> 'j db \<Rightarrow> (store_error + nat) \<times> 'j db" where
  "reconcileV2Metadata = reconcile_attempts metadataReconcileAttempts"

end
