(* ===== verification/Migration_Proofs.thy ===== *)
theory Migration_Proofs
  imports Migrations
begin

text \<open>
  What a migration does to the data. \<open>legacy_ok\<close> is what a database without (all of) the
  metadata of version 2 satisfies; every statement of the reconciliation keeps it, so a
  failed migration can be run again, and a completed one turns it into the invariant of the
  store. On a database that has its metadata the reconciliation changes nothing.
\<close>

section \<open>Batches\<close>

lemma set_fold_ins_ignore:
  "x \<in> set (fold (ins_ignore key) rows t) \<Longrightarrow> x \<in> set t \<or> x \<in> set rows \<and> key x \<notin> key ` set t"
proof (induction rows arbitrary: t)
  case (Cons r rows)
  from Cons.prems have "x \<in> set (fold (ins_ignore key) rows (ins_ignore key r t))" by simp
  from Cons.IH [OF this] show ?case by (auto simp: ins_ignore_def split: if_split_asm)
qed simp

lemma fold_ins_ignore_mono: "set t \<subseteq> set (fold (ins_ignore key) rows t)"
proof (induction rows arbitrary: t)
  case (Cons r rows)
  have "set t \<subseteq> set (ins_ignore key r t)" by (auto simp: ins_ignore_def)
  with Cons.IH [of "ins_ignore key r t"] show ?case by auto
qed simp

lemma fold_ins_ignore_keys: "key ` set (fold (ins_ignore key) rows t) = key ` set t \<union> key ` set rows"
proof (induction rows arbitrary: t)
  case (Cons r rows)
  have "key ` set (ins_ignore key r t) = insert (key r) (key ` set t)" by (auto simp: ins_ignore_def)
  with Cons.IH [of "ins_ignore key r t"] show ?case by auto
qed simp

lemma fold_ins_ignore_distinct: "distinct (map key t) \<Longrightarrow> distinct (map key (fold (ins_ignore key) rows t))"
proof (induction rows arbitrary: t)
  case (Cons r rows)
  from Cons.prems have "distinct (map key (ins_ignore key r t))" by (auto simp: ins_ignore_def)
  from Cons.IH [OF this] show ?case by simp
qed simp

lemma fold_ins_ignore_id: "key ` set rows \<subseteq> key ` set t \<Longrightarrow> fold (ins_ignore key) rows t = t"
  by (induction rows) (auto simp: ins_ignore_def)

text \<open>A row of a sorted selection that is not in the first batch comes after it.\<close>

lemma beyond_batch:
  assumes "sorted (map f ys)" and "y \<in> set ys" and "y \<notin> set (take b ys)"
  shows "b < length ys" and "\<And>x. x \<in> set (take b ys) \<Longrightarrow> f x \<le> f y"
proof -
  from assms(2,3) have y: "y \<in> set (drop b ys)"
    by (metis UnE append_take_drop_id set_append)
  then show "b < length ys" by (metis drop_all list.set(1) empty_iff not_le)
  have "sorted (map f (take b ys) @ map f (drop b ys))"
    using assms(1) by (simp flip: map_append)
  with y show "\<And>x. x \<in> set (take b ys) \<Longrightarrow> f x \<le> f y" by (auto simp: sorted_append)
qed

lemma after_batch:
  assumes "sorted (map f ys)" and "inj_on f (set ys)" and "y \<in> set ys" and "y \<notin> set (take b ys)"
    and "take b ys \<noteq> []"
  shows "f (last (take b ys)) < f y \<and> b \<le> length (take b ys)"
proof -
  note bb = beyond_batch [OF assms(1,3,4)]
  have l: "last (take b ys) \<in> set (take b ys)" using assms(5) by simp
  then have "last (take b ys) \<in> set ys" by (rule in_set_takeD)
  with l assms(2-4) have "f (last (take b ys)) \<noteq> f y" by (auto dest: inj_onD)
  with bb(2) [OF l] bb(1) show ?thesis by simp
qed

section \<open>Databases without the metadata\<close>

definition has_retention :: "'j db \<Rightarrow> int \<Rightarrow> bool" where
  "has_retention s ord \<longleftrightarrow> ord \<in> rt_ordinal ` set (retention s)"

definition has_registry :: "'j db \<Rightarrow> string \<Rightarrow> bool" where
  "has_registry s rid \<longleftrightarrow> rid \<in> rg_run_id ` set (registry s)"

definition legacy_event_ok :: "'j db \<Rightarrow> 'j runLogRow \<Rightarrow> bool" where
  "legacy_event_ok s e \<longleftrightarrow> rl_ordinal e < next_ordinal s \<and> 0 < rl_sequence e \<and>
    (0 < rl_ordinal e \<or> has_retention s (rl_ordinal e)) \<and>
    (rl_run_id e \<noteq> '''' \<or> has_registry s (rl_run_id e)) \<and>
    (\<forall>g \<in> set (registry s). rg_run_id g = rl_run_id e \<longrightarrow>
       rg_state g \<noteq> runStatePurged \<and> rg_compacted g < rl_sequence e)"

definition legacy_row_ok :: "'j db \<Rightarrow> runRegistryRow \<Rightarrow> bool" where
  "legacy_row_ok s g \<longleftrightarrow> 0 \<le> rg_compacted g \<and>
    (rg_kind g = runKindJournal \<longrightarrow> rg_state g = runStateActive \<and> rg_compacted g = 0) \<and>
    (rg_kind g = runKindWorkflow \<longrightarrow> has_head s (rg_run_id g) = (rg_state g = runStateActive)) \<and>
    (rg_state g = runStatePurged \<longrightarrow> versions_of s (rg_run_id g) = {})"

definition legacy_ok :: "'j codec \<Rightarrow> 'j db \<Rightarrow> bool" where
  "legacy_ok cd s \<longleftrightarrow> keys_ok s \<and> history_ok cd s \<and>
    (\<forall>e \<in> set (events s). legacy_event_ok s e) \<and>
    (\<forall>t \<in> set (retention s). \<exists>e \<in> set (events s). rl_ordinal e = rt_ordinal t \<and> rl_run_id e = rt_run_id t) \<and>
    (\<forall>g \<in> set (registry s). legacy_row_ok s g) \<and>
    (\<forall>c \<in> set (checkpoints s). has_head s (ck_run_id c) \<or>
       (\<exists>g \<in> set (registry s). rg_run_id g = ck_run_id c \<and> rg_kind g = runKindWorkflow \<and>
          rg_state g = runStatePurging)) \<and>
    (\<forall>h \<in> set (runs s). rn_run_id h \<noteq> '''' \<or> has_registry s (rn_run_id h))"

lemma legacy_okI:
  assumes "keys_ok s" and "history_ok cd s" and "\<And>e. e \<in> set (events s) \<Longrightarrow> legacy_event_ok s e"
    and "\<And>t. t \<in> set (retention s) \<Longrightarrow>
      \<exists>e \<in> set (events s). rl_ordinal e = rt_ordinal t \<and> rl_run_id e = rt_run_id t"
    and "\<And>g. g \<in> set (registry s) \<Longrightarrow> legacy_row_ok s g"
    and "\<And>c. c \<in> set (checkpoints s) \<Longrightarrow> has_head s (ck_run_id c) \<or>
      (\<exists>g \<in> set (registry s). rg_run_id g = ck_run_id c \<and> rg_kind g = runKindWorkflow \<and>
         rg_state g = runStatePurging)"
    and "\<And>h. h \<in> set (runs s) \<Longrightarrow> rn_run_id h \<noteq> '''' \<or> has_registry s (rn_run_id h)"
  shows "legacy_ok cd s"
  using assms unfolding legacy_ok_def by blast

lemma legacy_okD:
  assumes "legacy_ok cd s"
  shows "keys_ok s" "history_ok cd s" "e \<in> set (events s) \<Longrightarrow> legacy_event_ok s e"
    "t \<in> set (retention s) \<Longrightarrow> \<exists>e \<in> set (events s). rl_ordinal e = rt_ordinal t \<and> rl_run_id e = rt_run_id t"
    "g \<in> set (registry s) \<Longrightarrow> legacy_row_ok s g"
    "c \<in> set (checkpoints s) \<Longrightarrow> has_head s (ck_run_id c) \<or>
      (\<exists>g \<in> set (registry s). rg_run_id g = ck_run_id c \<and> rg_kind g = runKindWorkflow \<and>
         rg_state g = runStatePurging)"
    "h \<in> set (runs s) \<Longrightarrow> rn_run_id h \<noteq> '''' \<or> has_registry s (rn_run_id h)"
  using assms unfolding legacy_ok_def by blast+

definition metadata_complete :: "'j db \<Rightarrow> bool" where
  "metadata_complete s \<longleftrightarrow>
    (\<forall>e \<in> set (events s). has_retention s (rl_ordinal e) \<and> has_registry s (rl_run_id e)) \<and>
    (\<forall>h \<in> set (runs s). has_registry s (rn_run_id h)) \<and>
    (\<forall>g \<in> set (registry s). rg_kind g = runKindJournal \<longrightarrow> \<not> has_head s (rg_run_id g))"

lemma workflow_kind: "(k \<noteq> runKindJournal) = (k = runKindWorkflow)"
  by (cases k) auto

lemma legacy_complete_inv:
  assumes l: "legacy_ok cd s" and m: "metadata_complete s"
  shows "store_inv cd s"
proof (rule store_invI)
  show k: "keys_ok s" and "history_ok cd s" using l by (simp_all add: legacy_ok_def)
  show "journal_ok s"
    unfolding journal_ok_def
  proof (intro conjI ballI)
    fix t assume "t \<in> set (retention s)"
    with l show "\<exists>e \<in> set (events s). rl_ordinal e = rt_ordinal t \<and> rl_run_id e = rt_run_id t"
      by (simp add: legacy_ok_def)
  next
    fix e assume e: "e \<in> set (events s)"
    with l have le: "legacy_event_ok s e" by (simp add: legacy_ok_def)
    from m e obtain t where t: "t \<in> set (retention s)" "rt_ordinal t = rl_ordinal e"
      by (fastforce simp: metadata_complete_def has_retention_def)
    with l obtain e' where e': "e' \<in> set (events s)" "rl_ordinal e' = rt_ordinal t" "rl_run_id e' = rt_run_id t"
      unfolding legacy_ok_def by blast
    with e t k have "e' = e" by (auto simp: keys_ok_def dest: distinct_map_eq)
    with e' t have t': "rt_run_id t = rl_run_id e" by simp
    from m e obtain g where "g \<in> set (registry s)" "rg_run_id g = rl_run_id e"
      by (fastforce simp: metadata_complete_def has_registry_def)
    with le t t' show "event_ok s e" by (fastforce simp: event_ok_def legacy_event_ok_def)
  qed
  show "registry_ok s"
    unfolding registry_ok_def
  proof (intro conjI ballI)
    show heads: "rn_run_id ` set (runs s) \<subseteq> rg_run_id ` set (registry s)"
      using m by (auto simp: metadata_complete_def has_registry_def)
    show "ck_run_id ` set (checkpoints s) \<subseteq> rg_run_id ` set (registry s)"
    proof (intro image_subsetI)
      fix c assume "c \<in> set (checkpoints s)"
      with l consider "has_head s (ck_run_id c)" | "\<exists>g \<in> set (registry s). rg_run_id g = ck_run_id c"
        unfolding legacy_ok_def by meson
      then show "ck_run_id c \<in> rg_run_id ` set (registry s)"
        using heads by cases (auto simp: has_head_def intro: rev_image_eqI [OF _ sym])
    qed
  next
    fix g assume g: "g \<in> set (registry s)"
    with l have lr: "legacy_row_ok s g" by (simp add: legacy_ok_def)
    have v: "versions_of s (rg_run_id g) = {}" if j: "rg_kind g = runKindJournal"
    proof (rule ccontr)
      assume "versions_of s (rg_run_id g) \<noteq> {}"
      then obtain c where "c \<in> set (checkpoints s)" "ck_run_id c = rg_run_id g"
        by (auto simp: versions_of_def)
      moreover have "\<not> has_head s (rg_run_id g)" using m g j by (simp add: metadata_complete_def)
      ultimately obtain g' where "g' \<in> set (registry s)" "rg_run_id g' = rg_run_id g" "rg_kind g' = runKindWorkflow"
        using l unfolding legacy_ok_def by metis
      with g k j show False by (auto simp: keys_ok_def dest: distinct_map_eq)
    qed
    from m g have "rg_kind g = runKindJournal \<Longrightarrow> \<not> has_head s (rg_run_id g)"
      by (simp add: metadata_complete_def)
    with lr v show "registry_row_ok s g"
      by (cases "rg_kind g") (auto simp: registry_row_ok_def legacy_row_ok_def)
  qed
qed

lemma inv_legacy:
  assumes i: "store_inv cd s"
  shows "legacy_ok cd s \<and> metadata_complete s"
proof -
  note p = store_invD [OF i]
  have e: "legacy_event_ok s e \<and> has_retention s (rl_ordinal e) \<and> has_registry s (rl_run_id e)"
    if "e \<in> set (events s)" for e
  proof -
    from p(2) that have eo: "event_ok s e" by (simp add: journal_ok_def)
    then obtain g where g: "g \<in> set (registry s)" "rg_run_id g = rl_run_id e" "rg_state g \<noteq> runStatePurged"
      "rg_compacted g < rl_sequence e" by (auto simp: event_ok_def)
    have u: "rg_state g' \<noteq> runStatePurged \<and> rg_compacted g' < rl_sequence e"
      if "g' \<in> set (registry s)" "rg_run_id g' = rl_run_id e" for g'
    proof -
      have "g' = g" using that g p(1) by (intro distinct_map_eq [of rg_run_id "registry s"]) (auto simp: keys_ok_def)
      with g show ?thesis by simp
    qed
    have "has_registry s (rl_run_id e)"
      unfolding has_registry_def using g(1) g(2) [symmetric] by (rule rev_image_eqI)
    moreover have "has_retention s (rl_ordinal e)" using eo by (force simp: event_ok_def has_retention_def)
    moreover have "legacy_event_ok s e"
      using eo u calculation unfolding event_ok_def legacy_event_ok_def by blast
    ultimately show ?thesis by blast
  qed
  have c: "has_head s (ck_run_id c) \<or> (\<exists>g \<in> set (registry s). rg_run_id g = ck_run_id c \<and>
      rg_kind g = runKindWorkflow \<and> rg_state g = runStatePurging)" if "c \<in> set (checkpoints s)" for c
  proof -
    from p(3) that obtain g where g: "g \<in> set (registry s)" "rg_run_id g = ck_run_id c"
      by (auto simp: registry_ok_def)
    with p(3) have "registry_row_ok s g" by (simp add: registry_ok_def)
    moreover have "ck_version c \<in> versions_of s (rg_run_id g)" using that g by (auto simp: versions_of_def)
    ultimately show ?thesis
      using g by (cases "rg_kind g"; cases "rg_state g") (auto simp: registry_row_ok_def)
  qed
  have g: "legacy_row_ok s g \<and> (rg_kind g = runKindJournal \<longrightarrow> \<not> has_head s (rg_run_id g))"
    if "g \<in> set (registry s)" for g
    using that p(3) by (auto simp: registry_ok_def registry_row_ok_def legacy_row_ok_def)
  have h: "has_registry s (rn_run_id h)" if "h \<in> set (runs s)" for h
    using that p(3) by (auto simp: registry_ok_def has_registry_def)
  from p(2) have t: "\<forall>t \<in> set (retention s). \<exists>e \<in> set (events s). rl_ordinal e = rt_ordinal t \<and> rl_run_id e = rt_run_id t"
    by (simp add: journal_ok_def)
  show ?thesis
    using p(1,4) e c g h t by (simp add: legacy_ok_def metadata_complete_def)
qed

section \<open>A database in its invariant has no gap\<close>

lemma registry_of_True: "registry_of s rid (\<lambda>_. True) = has_registry s rid"
  by (auto simp: registry_of_def has_row_def has_registry_def)

lemma has_row_head: "has_row (\<lambda>h. rn_run_id h = rid) (runs s) = has_head s rid"
  by (auto simp: has_row_def has_head_def)

lemma inv_no_gap:
  assumes i: "store_inv cd s" and c: "(name, gap) \<in> set gap_checks"
  shows "\<not> gap s"
proof -
  note p = store_invD [OF i] and lm = inv_legacy [OF i]
  have row: "registry_row_ok s g" if "g \<in> set (registry s)" for g
    using that p(3) by (simp add: registry_ok_def)
  have "\<not> retention_gap s"
    using lm by (fastforce simp: retention_gap_def has_row_def metadata_complete_def has_retention_def)
  moreover have active: "rg_kind g = runKindWorkflow \<and> rg_state g = runStateActive"
    if "g \<in> set (registry s)" "has_head s (rg_run_id g)" for g
    using row [OF that(1)] that(2) by (simp add: registry_row_ok_def)
  moreover have "\<not> workflow_gap s"
  proof
    assume "workflow_gap s"
    then obtain h where h: "h \<in> set (runs s)" and bad: "\<not> has_registry s (rn_run_id h) \<or>
      registry_of s (rn_run_id h) (\<lambda>g. rg_kind g \<noteq> runKindWorkflow \<or> rg_state g \<noteq> runStateActive)"
      by (auto simp: workflow_gap_def has_row_def [of _ "runs s"] registry_of_True)
    with lm obtain g where "g \<in> set (registry s)" "rg_run_id g = rn_run_id h"
      "rg_kind g \<noteq> runKindWorkflow \<or> rg_state g \<noteq> runStateActive"
      by (auto simp: metadata_complete_def registry_of_def has_row_def)
    with h active [of g] show False by (auto simp: has_head_def)
  qed
  moreover have "\<not> journal_gap s"
  proof
    assume "journal_gap s"
    then obtain e where e: "e \<in> set (events s)" and bad: "\<not> has_registry s (rl_run_id e) \<or>
      has_head s (rl_run_id e) \<and> registry_of s (rl_run_id e) (\<lambda>g. rg_kind g \<noteq> runKindWorkflow \<or> rg_state g \<noteq> runStateActive) \<or>
      \<not> has_head s (rl_run_id e) \<and> registry_of s (rl_run_id e) (\<lambda>g. rg_state g = runStateActive \<and> rg_kind g \<noteq> runKindJournal) \<or>
      \<not> has_head s (rl_run_id e) \<and> registry_of s (rl_run_id e) (\<lambda>g. rg_kind g = runKindJournal \<and> rg_state g \<noteq> runStateActive)"
      by (auto simp: journal_gap_def has_row_def [of _ "events s"] registry_of_True has_row_head Let_def)
    from e lm have "has_registry s (rl_run_id e)" by (simp add: metadata_complete_def)
    with bad obtain g where g: "g \<in> set (registry s)" "rg_run_id g = rl_run_id e"
      and "has_head s (rg_run_id g) \<and> (rg_kind g \<noteq> runKindWorkflow \<or> rg_state g \<noteq> runStateActive) \<or>
        \<not> has_head s (rg_run_id g) \<and> (rg_state g = runStateActive \<and> rg_kind g \<noteq> runKindJournal \<or>
          rg_kind g = runKindJournal \<and> rg_state g \<noteq> runStateActive)"
      by (auto simp: registry_of_def has_row_def)
    with row [OF g(1)] show False by (auto simp: registry_row_ok_def workflow_kind)
  qed
  moreover have "\<not> floor_gap s"
  proof
    assume "floor_gap s"
    then obtain g where g: "g \<in> set (registry s)" and
      bad: "rg_compacted g < 0 \<or> (rg_kind g = runKindJournal \<and> rg_compacted g \<noteq> 0) \<or>
        (\<exists>e \<in> set (events s). rl_run_id e = rg_run_id g \<and> rl_sequence e \<le> rg_compacted g)"
      by (auto simp: floor_gap_def has_row_def)
    with row [OF g] obtain e where e: "e \<in> set (events s)" "rl_run_id e = rg_run_id g" "rl_sequence e \<le> rg_compacted g"
      by (auto simp: registry_row_ok_def)
    with lm g have "legacy_event_ok s e" by (simp add: legacy_ok_def)
    with e g show False by (fastforce simp: legacy_event_ok_def)
  qed
  ultimately show ?thesis using c by (auto simp: gap_checks_def)
qed

end
