(* ===== verification/Migration_Steps.thy ===== *)
theory Migration_Steps
  imports Migration_Proofs
begin

text \<open>
  The statements of the reconciliation one by one: each keeps \<open>legacy_ok\<close>, the loops add
  the missing rows of every batch, and the promotion leaves no journal row of a workflow.
\<close>

section \<open>Single statements\<close>

lemma has_head_cong: "runs s' = runs s \<Longrightarrow> has_head s' = has_head s"
  by (simp add: has_head_def fun_eq_iff)

lemma history_ok_same: "checkpoints s' = checkpoints s \<Longrightarrow> runs s' = runs s \<Longrightarrow> history_ok cd s' = history_ok cd s"
  by (simp add: history_ok_def head_ok_def versions_of_def)

lemma insert_retention_legacy:
  assumes l: "legacy_ok cd s" and cs: "set cs \<subseteq> set (events s)"
  shows "legacy_ok cd (insert_retention (map (retention_row a) cs) s)"
proof -
  let ?s = "insert_retention (map (retention_row a) cs) s"
  note fr = insert_retention_frame [of "map (retention_row a) cs" s] and d = legacy_okD [OF l]
  have hr: "has_registry ?s = has_registry s" using fr by (simp add: has_registry_def fun_eq_iff)
  have hh: "has_head ?s = has_head s" using fr by (intro has_head_cong) simp
  have ret: "has_retention s ord \<Longrightarrow> has_retention ?s ord" for ord
    by (simp add: has_retention_def insert_retention_def fold_ins_ignore_keys)
  have t: "\<exists>e \<in> set (events s). rl_ordinal e = rt_ordinal t \<and> rl_run_id e = rt_run_id t"
    if "t \<in> set (retention ?s)" for t
  proof -
    from that consider "t \<in> set (retention s)" | "t \<in> set (map (retention_row a) cs)"
      by (auto simp: insert_retention_def dest: set_fold_ins_ignore)
    then show ?thesis
      using l cs by cases (auto simp: legacy_ok_def retention_row_def)
  qed
  have "distinct (map rt_ordinal (retention s)) \<Longrightarrow> distinct (map rt_ordinal (retention ?s))"
    by (simp add: insert_retention_def fold_ins_ignore_distinct)
  then have k: "keys_ok ?s" using l fr by (simp add: legacy_ok_def keys_ok_def)
  have e: "legacy_event_ok ?s e" if "legacy_event_ok s e" for e
    using that ret fr hr by (auto simp: legacy_event_ok_def)
  have g: "legacy_row_ok ?s g = legacy_row_ok s g" for g
    using fr hh by (simp add: legacy_row_ok_def versions_of_def)
  from fr have "history_ok cd ?s = history_ok cd s" by (intro history_ok_same) simp_all
  with d(2) have h: "history_ok cd ?s" by simp
  show ?thesis
    using k h fr d t e g by (intro legacy_okI) (simp_all only: hh hr)
qed

lemma set_insert_registry:
  "g \<in> set (registry (insert_registry rows s)) \<Longrightarrow> g \<in> set (registry s) \<or> g \<in> set rows"
  using set_fold_ins_ignore [of g rg_run_id rows "registry s"] by (auto simp: insert_registry_def)

lemma insert_registry_legacy:
  assumes l: "legacy_ok cd s" and ids: "set rids \<subseteq> set (batch_ids kind s)"
  shows "legacy_ok cd (insert_registry (map (registry_row kind) rids) s)"
proof -
  let ?s = "insert_registry (map (registry_row kind) rids) s"
  note fr = insert_registry_frame [of "map (registry_row kind) rids" s] and d = legacy_okD [OF l]
  have hh: "has_head ?s = has_head s" using fr by (intro has_head_cong) simp
  have reg: "has_registry s rid \<Longrightarrow> has_registry ?s rid" for rid
    by (simp add: has_registry_def insert_registry_def fold_ins_ignore_keys)
  have old: "set (registry s) \<subseteq> set (registry ?s)" by (simp add: insert_registry_def fold_ins_ignore_mono)
  have new: "g \<in> set (registry s) \<or> (\<exists>rid \<in> set rids. g = registry_row kind rid)"
    if "g \<in> set (registry ?s)" for g
    using set_insert_registry [OF that] by auto
  have "distinct (map rg_run_id (registry s)) \<Longrightarrow> distinct (map rg_run_id (registry ?s))"
    by (simp add: insert_registry_def fold_ins_ignore_distinct)
  then have k: "keys_ok ?s" using l fr by (simp add: legacy_ok_def keys_ok_def)
  have e: "legacy_event_ok ?s e" if le: "legacy_event_ok s e" for e
  proof -
    have "rg_state g \<noteq> runStatePurged \<and> rg_compacted g < rl_sequence e"
      if "g \<in> set (registry ?s)" "rg_run_id g = rl_run_id e" for g
      using new [OF that(1)] that(2) le by (auto simp: legacy_event_ok_def registry_row_def)
    with le reg fr show ?thesis by (simp add: legacy_event_ok_def has_retention_def)
  qed
  have g: "legacy_row_ok ?s g" if "g \<in> set (registry ?s)" for g
  proof -
    have "legacy_row_ok ?s x = legacy_row_ok s x" for x
      using fr hh by (simp add: legacy_row_ok_def versions_of_def)
    moreover have "legacy_row_ok s (registry_row kind rid)" if "rid \<in> set rids" for rid
      using that ids by (cases kind) (auto simp: legacy_row_ok_def registry_row_def batch_ids_def has_head_def)
    ultimately show ?thesis using new [OF that] l by (auto simp: legacy_ok_def)
  qed
  have c: "has_head s (ck_run_id c) \<or> (\<exists>g \<in> set (registry ?s). rg_run_id g = ck_run_id c \<and>
      rg_kind g = runKindWorkflow \<and> rg_state g = runStatePurging)" if "c \<in> set (checkpoints s)" for c
    using d(6) [OF that] old by blast
  from fr have "history_ok cd ?s = history_ok cd s" by (intro history_ok_same) simp_all
  with d(2) have h: "history_ok cd ?s" by simp
  have r: "rn_run_id h \<noteq> '''' \<or> has_registry ?s (rn_run_id h)" if "h \<in> set (runs s)" for h
    using d(7) [OF that] reg by blast
  show ?thesis
    using k h fr d(3,4) e g c r by (intro legacy_okI) (simp_all only: hh)
qed

lemma set_promoted: "g \<in> set (registry (promoted en s)) \<Longrightarrow>
  \<exists>x \<in> set (registry s). rg_run_id g = rg_run_id x \<and> rg_state g = rg_state x \<and> rg_compacted g = rg_compacted x \<and>
    rg_kind g = (if rg_kind x = runKindJournal \<and> rg_state x = runStateActive \<and> has_head s (rg_run_id x)
      then runKindWorkflow else rg_kind x)"
  by (auto simp: promoted_def upd_rows_def has_row_head split: if_split_asm)

lemma promoted_frame:
  "checkpoints (promoted en s) = checkpoints s \<and> events (promoted en s) = events s \<and>
   retention (promoted en s) = retention s \<and> runs (promoted en s) = runs s \<and>
   next_ordinal (promoted en s) = next_ordinal s \<and>
   map rg_run_id (registry (promoted en s)) = map rg_run_id (registry s)"
  by (simp add: promoted_def upd_rows_def o_def if_distrib cong: if_cong)

lemma promoted_legacy:
  assumes l: "legacy_ok cd s"
  shows "legacy_ok cd (promoted en s)"
proof -
  let ?s = "promoted en s"
  note fr = promoted_frame [of en s] and d = legacy_okD [OF l]
  have hh: "has_head ?s = has_head s" using fr by (intro has_head_cong) simp
  from fr have ids: "rg_run_id ` set (registry ?s) = rg_run_id ` set (registry s)" by (metis set_map)
  then have hr: "has_registry ?s = has_registry s" by (simp add: has_registry_def fun_eq_iff)
  have k: "keys_ok ?s" using l fr by (simp add: legacy_ok_def keys_ok_def)
  have e: "legacy_event_ok ?s e" if le: "legacy_event_ok s e" for e
  proof -
    have "rg_state g \<noteq> runStatePurged \<and> rg_compacted g < rl_sequence e"
      if "g \<in> set (registry ?s)" "rg_run_id g = rl_run_id e" for g
      using set_promoted [OF that(1)] that(2) le by (auto simp: legacy_event_ok_def)
    with le fr show ?thesis by (simp add: legacy_event_ok_def has_retention_def hr)
  qed
  have g: "legacy_row_ok ?s g" if g: "g \<in> set (registry ?s)" for g
  proof -
    from set_promoted [OF g] obtain x where x: "x \<in> set (registry s)" "rg_run_id g = rg_run_id x" "rg_state g = rg_state x"
      "rg_compacted g = rg_compacted x"
      "rg_kind g = (if rg_kind x = runKindJournal \<and> rg_state x = runStateActive \<and> has_head s (rg_run_id x)
        then runKindWorkflow else rg_kind x)" by blast
    from l x(1) have "legacy_row_ok s x" by (simp add: legacy_ok_def)
    with x(2-5) hh fr show ?thesis
      by (auto simp: legacy_row_ok_def versions_of_def split: if_split_asm)
  qed
  have c: "\<exists>g \<in> set (registry ?s). rg_run_id g = rid \<and> rg_kind g = runKindWorkflow \<and> rg_state g = runStatePurging"
    if "\<exists>g \<in> set (registry s). rg_run_id g = rid \<and> rg_kind g = runKindWorkflow \<and> rg_state g = runStatePurging" for rid
  proof -
    from that obtain g where "g \<in> set (registry s)" "rg_run_id g = rid" "rg_kind g = runKindWorkflow" "rg_state g = runStatePurging"
      by blast
    then show ?thesis by (intro bexI [of _ g]) (force simp: promoted_def upd_rows_def)+
  qed
  from fr have "history_ok cd ?s = history_ok cd s" by (intro history_ok_same) simp_all
  with d(2) have h: "history_ok cd ?s" by simp
  have c': "has_head s (ck_run_id c) \<or> (\<exists>g \<in> set (registry ?s). rg_run_id g = ck_run_id c \<and>
      rg_kind g = runKindWorkflow \<and> rg_state g = runStatePurging)" if "c \<in> set (checkpoints s)" for c
    using d(6) [OF that] c by blast
  show ?thesis
    using k h fr d(3,4,7) e g c' by (intro legacy_okI) (simp_all only: hh hr)
qed

section \<open>Loops\<close>

text \<open>A statement of the loops either fails and changes nothing, or is done.\<close>

lemma transaction_step_cases:
  assumes "transaction en (\<lambda>s. Inr (x, f s)) s = (r, s')"
  obtains e where "r = Inl e" "s' = s" "en_fault en \<noteq> None" | "r = Inr x" "s' = f s"
  using assms by (auto simp: transaction_def split: option.split_asm)

text \<open>
  The loops of a migration, as a locale: an order of keys, the batch of keys that follow a
  key, the statement that treats a batch, and an invariant. A batch that is not full is the
  last one; a key after the starting point that no batch has is done already.
\<close>

locale batch_loop =
  fixes run :: "(nat \<Rightarrow> env) \<Rightarrow> nat \<Rightarrow> 'k::linorder \<Rightarrow> 'j db \<Rightarrow> (store_error + nat) \<times> 'j db"
    and batch :: "'k \<Rightarrow> 'j db \<Rightarrow> 'k list"
    and step :: "'k \<Rightarrow> 'j db \<Rightarrow> 'j db"
    and keys :: "'j db \<Rightarrow> 'k set"
    and is_done :: "'j db \<Rightarrow> 'k \<Rightarrow> bool"
    and ok :: "'j db \<Rightarrow> bool"
  assumes unfold: "ok s \<Longrightarrow> run ens n after s =
      (case query (ens n) (Inr (batch after s)) of
         Inl e \<Rightarrow> (Inl e, s)
       | Inr ks \<Rightarrow> if ks = [] then (Inr (n + 1), s)
         else (case transaction (ens (n + 1)) (\<lambda>s. Inr ((), step after s)) s of
             (Inl e, s') \<Rightarrow> (Inl e, s')
           | (Inr _, s') \<Rightarrow> if length ks < backfillBatchSize then (Inr (n + 2), s')
               else run ens (n + 2) (last ks) s'))"
    and after_last: "batch after s \<noteq> [] \<Longrightarrow> after < last (batch after s) \<and> last (batch after s) \<in> keys s"
    and keys_step: "keys (step after s) = keys s"
    and finite_keys: "finite (keys s)"
    and ok_step: "ok s \<Longrightarrow> ok (step after s)"
    and done_step: "ok s \<Longrightarrow> is_done s k \<Longrightarrow> is_done (step after s) k"
    and batch_done: "ok s \<Longrightarrow> k \<in> set (batch after s) \<Longrightarrow> is_done (step after s) k"
    and batch_all: "ok s \<Longrightarrow> k \<in> keys s \<Longrightarrow> after < k \<Longrightarrow> k \<notin> set (batch after s) \<Longrightarrow> \<not> is_done s k \<Longrightarrow>
      batch after s \<noteq> [] \<and> last (batch after s) < k \<and> backfillBatchSize \<le> length (batch after s)"
begin

lemma run_spec:
  assumes "ok s" and "run ens n after s = (r, s')"
  shows "ok s' \<and> keys s' = keys s \<and> (\<forall>k. is_done s k \<longrightarrow> is_done s' k) \<and>
    ((\<exists>m. r = Inr m) \<longrightarrow> (\<forall>k \<in> keys s. after < k \<longrightarrow> is_done s' k)) \<and>
    ((\<forall>i. en_fault (ens i) = None) \<longrightarrow> (\<exists>m. r = Inr m))"
  using assms
proof (induction "card {k \<in> keys s. after < k}" arbitrary: n after s r s' rule: less_induct)
  case less
  note ok = less.prems(1) and r = less.prems(2) [unfolded unfold [OF less.prems(1)]]
  show ?case
  proof (cases "query (ens n) (Inr (batch after s))")
    case (Inl e)
    with ok r show ?thesis by (auto simp: query_def split: option.split_asm)
  next
    case (Inr ks)
    then have ks: "ks = batch after s" by (rule query_InrD)
    show ?thesis
    proof (cases "ks = []")
      case True
      with ok r Inr ks have "s' = s" and "is_done s k" if "k \<in> keys s" "after < k" for k
        using that batch_all [OF ok that] by auto
      moreover have "s' = s" "\<exists>m. r = Inr m" using r Inr True by auto
      ultimately show ?thesis using ok by auto
    next
      case False
      obtain t1 s1 where t: "transaction (ens (n + 1)) (\<lambda>s. Inr ((), step after s)) s = (t1, s1)" by fastforce
      from t show ?thesis
      proof (cases rule: transaction_step_cases)
        case (1 e)
        with ok r Inr False t show ?thesis by auto
      next
        case 2
        note ok1 = ok_step [OF ok, of after] and d1 = done_step [OF ok, of _ after]
        show ?thesis
        proof (cases "length ks < backfillBatchSize")
          case True
          with r Inr False t 2 have s': "s' = step after s" "\<exists>m. r = Inr m" by auto
          have "is_done (step after s) k" if "k \<in> keys s" "after < k" for k
            using batch_all [OF ok that] batch_done [OF ok, of k after] d1 [of k] True ks by fastforce
          with s' ok1 d1 show ?thesis by (auto simp: keys_step)
        next
          case full: False
          let ?s = "step after s" and ?l = "last ks"
          from after_last [of after s] False ks have l: "after < ?l" "?l \<in> keys s" by auto
          have "{k \<in> keys ?s. ?l < k} \<subset> {k \<in> keys s. after < k}"
            using l by (auto simp: keys_step)
          then have c: "card {k \<in> keys ?s. ?l < k} < card {k \<in> keys s. after < k}"
            by (intro psubset_card_mono) (simp_all add: finite_keys)
          from r Inr False t 2 full have "run ens (n + 2) ?l ?s = (r, s')" by simp
          note IH = less.hyps [OF c ok1 this]
          have "is_done s' k" if k: "k \<in> keys s" "after < k" "\<exists>m. r = Inr m" for k
          proof (cases "k \<in> set ks \<or> is_done s k")
            case True
            with IH batch_done [OF ok] d1 ks show ?thesis by blast
          next
            case False
            with batch_all [OF ok k(1,2)] ks have "?l < k" by blast
            with IH k show ?thesis by (auto simp: keys_step)
          qed
          with IH d1 show ?thesis by (auto simp: keys_step)
        qed
      qed
    qed
  qed
qed

end

section \<open>The loops over retention rows and registry rows\<close>

text \<open>
  What the reconciliation keeps of the database it starts from: checkpoints, events and
  heads, and everything when the metadata is there already.
\<close>

definition grown :: "'j codec \<Rightarrow> 'j db \<Rightarrow> 'j db \<Rightarrow> bool" where
  "grown cd s0 s \<longleftrightarrow> legacy_ok cd s \<and> checkpoints s = checkpoints s0 \<and> events s = events s0 \<and>
    runs s = runs s0 \<and> (store_inv cd s0 \<longrightarrow> s = s0)"

lemma grown_refl: "legacy_ok cd s \<Longrightarrow> grown cd s s"
  by (simp add: grown_def)

lemma grown_legacy: "grown cd s0 s \<Longrightarrow> legacy_ok cd s"
  by (simp add: grown_def)

lemma insert_retention_grown:
  assumes g: "grown cd s0 s" and cs: "set cs \<subseteq> set (events s)"
  shows "grown cd s0 (insert_retention (map (retention_row a) cs) s)"
proof -
  have "insert_retention (map (retention_row a) cs) s = s" if "store_inv cd s0"
  proof -
    from g that have s: "store_inv cd s" by (simp add: grown_def)
    have "rt_ordinal ` set (map (retention_row a) cs) \<subseteq> rt_ordinal ` set (retention s)"
      using inv_legacy [OF s] cs by (auto simp: metadata_complete_def has_retention_def retention_row_def)
    from fold_ins_ignore_id [OF this] show ?thesis by (simp add: insert_retention_def del: fold_map)
  qed
  with g insert_retention_legacy [OF grown_legacy [OF g] cs] show ?thesis
    by (simp add: grown_def insert_retention_frame)
qed

lemma insert_registry_grown:
  assumes g: "grown cd s0 s" and ids: "set rids \<subseteq> set (batch_ids kind s)"
  shows "grown cd s0 (insert_registry (map (registry_row kind) rids) s)"
proof -
  have "insert_registry (map (registry_row kind) rids) s = s" if "store_inv cd s0"
  proof -
    from g that have s: "store_inv cd s" by (simp add: grown_def)
    have "set (batch_ids kind s) \<subseteq> rg_run_id ` set (registry s)"
      using inv_legacy [OF s] by (cases kind) (auto simp: metadata_complete_def has_registry_def batch_ids_def)
    with ids have "rg_run_id ` set (map (registry_row kind) rids) \<subseteq> rg_run_id ` set (registry s)"
      by (auto simp: registry_row_def)
    from fold_ins_ignore_id [OF this] show ?thesis by (simp add: insert_registry_def del: fold_map)
  qed
  with g insert_registry_legacy [OF grown_legacy [OF g] ids] show ?thesis
    by (simp add: grown_def insert_registry_frame)
qed

lemma promoted_grown:
  assumes g: "grown cd s0 s"
  shows "grown cd s0 (promoted en s)"
proof -
  have "promoted en s = s" if "store_inv cd s0"
  proof -
    from g that have s: "store_inv cd s" by (simp add: grown_def)
    have "upd_rows (\<lambda>g. rg_kind g = runKindJournal \<and> rg_state g = runStateActive \<and> has_head s (rg_run_id g)) f
        (registry s) = registry s" for f
      using inv_legacy [OF s] by (intro map_idI [of _ "\<lambda>r. if _ r then _ r else r", folded upd_rows_def])
        (auto simp: metadata_complete_def)
    then show ?thesis by (simp add: promoted_def has_row_head)
  qed
  with g promoted_legacy [OF grown_legacy [OF g]] show ?thesis by (simp add: grown_def promoted_frame)
qed

lemma not_in_batch_last:
  assumes "sorted (map f ys)" and "inj_on f (set ys)" and "y \<in> set ys" and "f y \<notin> f ` set (take b ys)"
    and "0 < b"
  shows "map f (take b ys) \<noteq> [] \<and> last (map f (take b ys)) < f y \<and> b \<le> length (map f (take b ys))"
proof -
  from assms(4) have y: "y \<notin> set (take b ys)" by blast
  have ne: "take b ys \<noteq> []" using assms(3,5) by auto
  with after_batch [OF assms(1-3) y ne] show ?thesis by (auto simp: last_map)
qed

lemma batch_size_pos: "0 < backfillBatchSize"
  by (simp add: backfillBatchSize_def)

interpretation retention_batches: batch_loop "\<lambda>ens n. retention_loop ens n a"
    "\<lambda>after s. map rl_ordinal (retention_candidates after s)"
    "\<lambda>after s. insert_retention (map (retention_row a) (retention_candidates after s)) s"
    "\<lambda>s. rl_ordinal ` set (events s)" has_retention "grown cd s0" for a s0 and cd :: "'j codec"
proof
  fix ens n after and s :: "'j db"
  show "retention_loop ens n a after s =
      (case query (ens n) (Inr (map rl_ordinal (retention_candidates after s))) of
         Inl e \<Rightarrow> (Inl e, s)
       | Inr ks \<Rightarrow> if ks = [] then (Inr (n + 1), s)
         else (case transaction (ens (n + 1))
                 (\<lambda>s. Inr ((), insert_retention (map (retention_row a) (retention_candidates after s)) s)) s of
             (Inl e, s') \<Rightarrow> (Inl e, s')
           | (Inr _, s') \<Rightarrow> if length ks < backfillBatchSize then (Inr (n + 2), s')
               else retention_loop ens (n + 2) a (last ks) s'))"
    by (subst retention_loop.simps)
      (auto simp: query_def transaction_def last_map split: option.split sum.split prod.split)
  show "finite (rl_ordinal ` set (events s))" by simp
  show "rl_ordinal ` set (events (insert_retention (map (retention_row a) (retention_candidates after s)) s)) =
      rl_ordinal ` set (events s)" by (simp add: insert_retention_frame)
  show "map rl_ordinal (retention_candidates after s) \<noteq> [] \<Longrightarrow>
      after < last (map rl_ordinal (retention_candidates after s)) \<and>
      last (map rl_ordinal (retention_candidates after s)) \<in> rl_ordinal ` set (events s)"
    using retention_last_after [of after s] by (simp add: last_map)
  show "grown cd s0 s \<Longrightarrow>
      grown cd s0 (insert_retention (map (retention_row a) (retention_candidates after s)) s)"
    using retention_candidates_after by (intro insert_retention_grown) blast+
  fix k
  have keys: "rt_ordinal ` set (retention (insert_retention (map (retention_row a) (retention_candidates after s)) s)) =
      rt_ordinal ` set (retention s) \<union> rl_ordinal ` set (retention_candidates after s)"
    unfolding insert_retention_def by (simp add: fold_ins_ignore_keys image_image retention_row_def del: fold_map)
  show "has_retention s k \<Longrightarrow>
      has_retention (insert_retention (map (retention_row a) (retention_candidates after s)) s) k"
    unfolding has_retention_def keys by blast
  show "k \<in> set (map rl_ordinal (retention_candidates after s)) \<Longrightarrow>
      has_retention (insert_retention (map (retention_row a) (retention_candidates after s)) s) k"
    unfolding has_retention_def keys by simp
  assume ok: "grown cd s0 s" and k: "k \<in> rl_ordinal ` set (events s)" "after < k" and
    out: "k \<notin> set (map rl_ordinal (retention_candidates after s))" and nd: "\<not> has_retention s k"
  from k(1) obtain e where e: "e \<in> set (events s)" "k = rl_ordinal e" by blast
  let ?ys = "select_rows (\<lambda>e. rl_ordinal e > after \<and> \<not> has_row (\<lambda>t. rt_ordinal t = rl_ordinal e) (retention s))
    rl_ordinal (events s)"
  have c: "retention_candidates after s = take backfillBatchSize ?ys" by (simp add: retention_candidates_def)
  have "\<not> has_row (\<lambda>t. rt_ordinal t = rl_ordinal e) (retention s)"
    unfolding has_row_def using nd e(2) by (metis has_retention_def imageI)
  then have "e \<in> set ?ys" using e k by simp
  moreover have "inj_on rl_ordinal (set ?ys)"
    using legacy_okD(1) [OF grown_legacy [OF ok]] by (auto simp: keys_ok_def distinct_map intro: inj_on_subset)
  ultimately show "map rl_ordinal (retention_candidates after s) \<noteq> [] \<and>
      last (map rl_ordinal (retention_candidates after s)) < k \<and>
      backfillBatchSize \<le> length (map rl_ordinal (retention_candidates after s))"
    unfolding c e(2) using out e c sorted_select_rows [of rl_ordinal _ "events s"]
    by (intro not_in_batch_last batch_size_pos) simp_all
qed

interpretation registry_batches: batch_loop "\<lambda>ens n. registry_loop ens n kind" "load_batch kind"
    "\<lambda>after s. insert_registry (map (registry_row kind) (load_batch kind after s)) s"
    "\<lambda>s. set (batch_ids kind s)" has_registry "\<lambda>s. grown cd s0 s \<and> retention s = rs" for kind s0 rs and cd :: "'j codec"
proof
  fix ens n after and s :: "'j db"
  show "registry_loop ens n kind after s =
      (case query (ens n) (Inr (load_batch kind after s)) of
         Inl e \<Rightarrow> (Inl e, s)
       | Inr ks \<Rightarrow> if ks = [] then (Inr (n + 1), s)
         else (case transaction (ens (n + 1))
                 (\<lambda>s. Inr ((), insert_registry (map (registry_row kind) (load_batch kind after s)) s)) s of
             (Inl e, s') \<Rightarrow> (Inl e, s')
           | (Inr _, s') \<Rightarrow> if length ks < backfillBatchSize then (Inr (n + 2), s')
               else registry_loop ens (n + 2) kind (last ks) s'))"
    by (subst registry_loop.simps)
      (auto simp: query_def transaction_def split: option.split sum.split prod.split)
  show "finite (set (batch_ids kind s))" by simp
  show "set (batch_ids kind (insert_registry (map (registry_row kind) (load_batch kind after s)) s)) =
      set (batch_ids kind s)" by (simp add: batch_ids_registry)
  show "load_batch kind after s \<noteq> [] \<Longrightarrow>
      after < last (load_batch kind after s) \<and> last (load_batch kind after s) \<in> set (batch_ids kind s)"
    by (rule load_batch_last)
  show "grown cd s0 s \<and> retention s = rs \<Longrightarrow>
      grown cd s0 (insert_registry (map (registry_row kind) (load_batch kind after s)) s) \<and>
      retention (insert_registry (map (registry_row kind) (load_batch kind after s)) s) = rs"
    using load_batch_after by (intro conjI insert_registry_grown) (blast | simp add: insert_registry_frame)+
  fix k
  have keys: "rg_run_id ` set (registry (insert_registry (map (registry_row kind) (load_batch kind after s)) s)) =
      rg_run_id ` set (registry s) \<union> set (load_batch kind after s)"
    unfolding insert_registry_def by (simp add: fold_ins_ignore_keys image_image registry_row_def del: fold_map)
  show "has_registry s k \<Longrightarrow>
      has_registry (insert_registry (map (registry_row kind) (load_batch kind after s)) s) k"
    unfolding has_registry_def keys by blast
  show "k \<in> set (load_batch kind after s) \<Longrightarrow>
      has_registry (insert_registry (map (registry_row kind) (load_batch kind after s)) s) k"
    unfolding has_registry_def keys by simp
  assume ok: "grown cd s0 s \<and> retention s = rs" and k: "k \<in> set (batch_ids kind s)" "after < k" and
    out: "k \<notin> set (load_batch kind after s)"
  let ?ys = "sort (filter ((<) after) (remdups (batch_ids kind s)))"
  have "distinct (map rn_run_id (runs s))"
    using legacy_okD(1) [OF grown_legacy [OF conjunct1 [OF ok]]] by (simp add: keys_ok_def)
  then have c: "load_batch kind after s = take backfillBatchSize ?ys"
    by (cases kind) (auto simp: load_batch_def workflowRunIDBatch_def journalRunIDBatch_def batch_ids_def distinct_remdups_id)
  have "k \<in> set ?ys" using k by simp
  then show "load_batch kind after s \<noteq> [] \<and> last (load_batch kind after s) < k \<and>
      backfillBatchSize \<le> length (load_batch kind after s)"
    using not_in_batch_last [of "\<lambda>x. x" ?ys k backfillBatchSize] out by (simp add: c batch_size_pos)
qed

section \<open>The reconciliation\<close>

lemma string_pos: "('''' :: string) < rid \<longleftrightarrow> rid \<noteq> ''''"
  by (cases rid) auto

lemma and_then_cases:
  assumes "and_then r f = (x, s')"
  obtains e where "r = (Inl e, s')" "x = Inl e" | n s where "r = (Inr n, s)" "f n s = (x, s')"
  using assms by (auto simp: and_then_def split: prod.split_asm sum.split_asm)

definition fault_free :: "(nat \<Rightarrow> env) \<Rightarrow> bool" where
  "fault_free ens \<longleftrightarrow> (\<forall>i. en_fault (ens i) = None)"

text \<open>
  What a step promises: an invariant in any case, a fact when it does not fail, and not to
  fail without a fault. Steps that follow each other compose.
\<close>

definition promises :: "(nat \<Rightarrow> env) \<Rightarrow> ('s \<Rightarrow> bool) \<Rightarrow> ('s \<Rightarrow> bool) \<Rightarrow> (store_error + 'a) \<times> 's \<Rightarrow> bool" where
  "promises ens I Q r \<longleftrightarrow> I (snd r) \<and> ((\<exists>m. fst r = Inr m) \<longrightarrow> Q (snd r)) \<and> (fault_free ens \<longrightarrow> (\<exists>m. fst r = Inr m))"

lemma promises_and_then:
  assumes "promises ens I Q r" and "\<And>n s. I s \<Longrightarrow> Q s \<Longrightarrow> promises ens I Q' (f n s)"
  shows "promises ens I Q' (and_then r f)"
  using assms by (auto simp: promises_def and_then_def split: prod.split sum.split)

definition events_retained :: "'j db \<Rightarrow> bool" where
  "events_retained s \<longleftrightarrow> (\<forall>e \<in> set (events s). has_retention s (rl_ordinal e))"

definition registered :: "run_kind \<Rightarrow> 'j db \<Rightarrow> bool" where
  "registered kind s \<longleftrightarrow> (\<forall>rid \<in> set (batch_ids kind s). has_registry s rid)"

lemma backfillRunLogRetention_spec:
  assumes g: "grown cd s0 s"
  shows "promises ens (grown cd s0) events_retained (backfillRunLogRetention ens n s)"
proof -
  obtain r s' where r: "backfillRunLogRetention ens n s = (r, s')" by fastforce
  from retention_batches.run_spec [OF g r [unfolded backfillRunLogRetention_def]]
  have g': "grown cd s0 s'" and d: "\<And>k. has_retention s k \<Longrightarrow> has_retention s' k"
    and all: "\<And>m k. r = Inr m \<Longrightarrow> k \<in> rl_ordinal ` set (events s) \<Longrightarrow> 0 < k \<Longrightarrow> has_retention s' k"
    and ff: "fault_free ens \<longrightarrow> (\<exists>m. r = Inr m)" by (auto simp: fault_free_def)
  have "has_retention s' (rl_ordinal e)" if "r = Inr m" and "e \<in> set (events s')" for e m
  proof -
    from that(2) g g' have e: "e \<in> set (events s)" by (simp add: grown_def)
    with legacy_okD(3) [OF grown_legacy [OF g]] have "0 < rl_ordinal e \<or> has_retention s (rl_ordinal e)"
      by (simp add: legacy_event_ok_def)
    with all [OF that(1)] e d show ?thesis by blast
  qed
  with g' ff r show ?thesis by (auto simp: promises_def events_retained_def)
qed

lemma empty_id_registered:
  assumes l: "legacy_ok cd s" and "'''' \<in> set (batch_ids kind s)"
  shows "has_registry s ''''"
proof (cases kind)
  case runKindJournal
  with assms(2) obtain e where "e \<in> set (events s)" "rl_run_id e = ''''" by (auto simp: batch_ids_def)
  with legacy_okD(3) [OF l, of e] show ?thesis by (simp add: legacy_event_ok_def)
next
  case runKindWorkflow
  with assms(2) obtain h where "h \<in> set (runs s)" "rn_run_id h = ''''" by (auto simp: batch_ids_def)
  with legacy_okD(7) [OF l, of h] show ?thesis by simp
qed

lemma backfillRegistryKind_spec:
  assumes g: "grown cd s0 s" and t: "events_retained s" and k: "kind = runKindJournal \<Longrightarrow> registered runKindWorkflow s"
  shows "promises ens (grown cd s0)
    (\<lambda>s. events_retained s \<and> registered kind s \<and> (kind = runKindJournal \<longrightarrow> registered runKindWorkflow s))
    (backfillRegistryKind ens n kind s)"
proof -
  obtain r s' where r: "backfillRegistryKind ens n kind s = (r, s')" by fastforce
  have ok: "grown cd s0 s \<and> retention s = retention s" using g by simp
  from registry_batches.run_spec [OF ok r [unfolded backfillRegistryKind_def]]
  have g': "grown cd s0 s'" and rt: "retention s' = retention s" and d: "\<And>k. has_registry s k \<Longrightarrow> has_registry s' k"
    and all: "\<And>m k. r = Inr m \<Longrightarrow> k \<in> set (batch_ids kind s) \<Longrightarrow> k \<noteq> '''' \<Longrightarrow> has_registry s' k"
    and ff: "fault_free ens \<longrightarrow> (\<exists>m. r = Inr m)" by (auto simp: fault_free_def string_pos)
  from g g' have same: "batch_ids kd s' = batch_ids kd s" "events s' = events s" for kd
    by (auto simp: grown_def batch_ids_def)
  from t rt have "events_retained s'" by (simp add: events_retained_def same has_retention_def)
  moreover have "registered kind s'" if "r = Inr m" for m
    using all [OF that] d empty_id_registered [OF grown_legacy [OF g], of kind]
    by (metis registered_def same(1))
  moreover have "kind = runKindJournal \<longrightarrow> registered runKindWorkflow s'"
    using k d by (auto simp: registered_def same)
  ultimately show ?thesis using g' ff r by (auto simp: promises_def)
qed

lemma promoted_complete:
  assumes l: "legacy_ok cd s" and e: "events_retained s" "registered runKindJournal s" "registered runKindWorkflow s"
  shows "metadata_complete (promoted en s)"
proof -
  note fr = promoted_frame [of en s]
  have hh: "has_head (promoted en s) = has_head s" using fr by (intro has_head_cong) simp
  from fr have "rg_run_id ` set (registry (promoted en s)) = rg_run_id ` set (registry s)" by (metis set_map)
  then have hr: "has_registry (promoted en s) = has_registry s" by (simp add: has_registry_def fun_eq_iff)
  have "\<not> has_head s (rg_run_id g)" if g: "g \<in> set (registry (promoted en s))" "rg_kind g = runKindJournal" for g
  proof -
    from set_promoted [OF g(1)] obtain x where x: "x \<in> set (registry s)" "rg_run_id g = rg_run_id x"
      "rg_kind g = (if rg_kind x = runKindJournal \<and> rg_state x = runStateActive \<and> has_head s (rg_run_id x)
        then runKindWorkflow else rg_kind x)" by blast
    with g(2) legacy_okD(5) [OF l x(1)] show ?thesis by (auto simp: legacy_row_ok_def split: if_split_asm)
  qed
  with e fr show ?thesis
    by (auto simp: metadata_complete_def has_retention_def events_retained_def registered_def batch_ids_def hh hr)
qed

lemma promoteWorkflowRegistries_spec:
  assumes g: "grown cd s0 s" and e: "events_retained s" "registered runKindJournal s" "registered runKindWorkflow s"
  shows "promises ens (grown cd s0) (store_inv cd) (promoteWorkflowRegistries ens n s)"
  using g promoted_grown [OF g, of "ens n"] legacy_complete_inv [OF _ promoted_complete [OF grown_legacy [OF g] e]]
  by (auto simp: promises_def promoteWorkflowRegistries_def transaction_def fault_free_def grown_legacy split: option.split)

lemma fill_metadata_spec:
  assumes g: "grown cd s0 s"
  shows "promises ens (grown cd s0) (store_inv cd) (fill_metadata ens n s)"
  unfolding fill_metadata_def
proof (rule promises_and_then [OF promises_and_then [OF backfillRunLogRetention_spec [OF g]]])
  fix n s
  show "grown cd s0 s \<Longrightarrow> events_retained s \<Longrightarrow>
      promises ens (grown cd s0) (\<lambda>s. events_retained s \<and> registered runKindJournal s \<and>
        (runKindJournal = runKindJournal \<longrightarrow> registered runKindWorkflow s)) (backfillRunRegistry ens n s)"
    unfolding backfillRunRegistry_def
    by (rule promises_and_then [OF backfillRegistryKind_spec]) (auto intro: backfillRegistryKind_spec [where kind = runKindJournal, simplified])
  show "grown cd s0 s \<Longrightarrow> events_retained s \<and> registered runKindJournal s \<and>
        (runKindJournal = runKindJournal \<longrightarrow> registered runKindWorkflow s) \<Longrightarrow>
      promises ens (grown cd s0) (store_inv cd) (promoteWorkflowRegistries ens n s)"
    by (intro promoteWorkflowRegistries_spec) auto
qed

lemma first_gap_inv:
  assumes i: "store_inv cd s" and "set checks \<subseteq> set gap_checks"
  shows "case first_gap ens n checks s of Inl e \<Rightarrow> \<not> fault_free ens | Inr (name, m) \<Rightarrow> name = ''''"
  using assms(2)
proof (induction checks arbitrary: n)
  case (Cons c checks)
  obtain name gap where c: "c = (name, gap)" by fastforce
  with Cons.prems have "\<not> gap s" by (intro inv_no_gap [OF i, of name]) simp
  with Cons c show ?case by (auto simp: query_def fault_free_def split: option.split)
qed simp

lemma reconcileV2Metadata_spec:
  assumes g: "grown cd s0 s"
  shows "promises ens (grown cd s0) (store_inv cd) (reconcileV2Metadata ens n s)"
  unfolding reconcileV2Metadata_def metadataReconcileAttempts_def numeral_2_eq_2
proof (subst reconcile_attempts.simps(2), rule promises_and_then [OF fill_metadata_spec [OF g]])
  fix n s assume g: "grown cd s0 s" and i: "store_inv cd s"
  from first_gap_inv [OF i order_refl, of ens n] g i
  show "promises ens (grown cd s0) (store_inv cd) (case v2MetadataGap ens n s of
      Inl e \<Rightarrow> (Inl e, s)
    | Inr (gap, n) \<Rightarrow> if gap = '''' then (Inr n, s) else reconcile_attempts (Suc 0) ens n s)"
    by (auto simp: promises_def v2MetadataGap_def split: sum.split prod.split)
qed

end
