(* ===== verification/Migration_Heads.thy ===== *)
theory Migration_Heads
  imports Migration_Steps
begin

text \<open>
  The heads of a version 1 migration. \<open>unheaded_ok\<close> is what a database that was written
  without run heads, or with heads of an older time, satisfies; the backfill takes it, batch
  by batch, to a database in which every run that has a checkpoint has the head of its
  latest one, which satisfies \<open>legacy_ok\<close>.
\<close>

definition unheaded_event_ok :: "'j db \<Rightarrow> 'j runLogRow \<Rightarrow> bool" where
  "unheaded_event_ok s e \<longleftrightarrow> 0 < rl_ordinal e \<and> rl_ordinal e < next_ordinal s \<and> 0 < rl_sequence e \<and> rl_run_id e \<noteq> ''''"

definition source_ok :: "'j codec \<Rightarrow> 'j db \<Rightarrow> 'j checkpointRow \<Rightarrow> bool" where
  "source_ok cd s c \<longleftrightarrow> checkpoint_row_ok cd c \<and> ck_run_id c \<noteq> '''' \<and> (\<exists>n. versions_of s (ck_run_id c) = {1..n})"

definition old_head_ok :: "'j codec \<Rightarrow> 'j db \<Rightarrow> runRow \<Rightarrow> bool" where
  "old_head_ok cd s h \<longleftrightarrow> rn_version h \<in> versions_of s (rn_run_id h) \<and>
    (\<forall>r \<in> set (checkpoints s). ck_run_id r = rn_run_id h \<and> ck_version r = rn_version h \<and> latest_version s r \<longrightarrow>
       (\<exists>c. decode_row cd r = Inr c \<and> runHead c = h))"

definition unheaded_ok :: "'j codec \<Rightarrow> 'j db \<Rightarrow> bool" where
  "unheaded_ok cd s \<longleftrightarrow> keys_ok s \<and> registry s = [] \<and> retention s = [] \<and>
    (\<forall>e \<in> set (events s). unheaded_event_ok s e) \<and> (\<forall>c \<in> set (checkpoints s). source_ok cd s c) \<and>
    (\<forall>h \<in> set (runs s). old_head_ok cd s h)"

definition up_to_date :: "'j db \<Rightarrow> string \<Rightarrow> bool" where
  "up_to_date s rid \<longleftrightarrow> (\<exists>h \<in> set (runs s). rn_run_id h = rid \<and>
     (\<forall>c \<in> set (checkpoints s). ck_run_id c = rid \<longrightarrow> ck_version c \<le> rn_version h))"

section \<open>One head\<close>

lemma runHead_payload: "runHead (r\<lparr>cp_payload := p\<rparr>) = runHead r"
  by (simp add: runHead_def)

lemma decode_head_row:
  assumes "decode_head cd c = Inr r"
  shows "cp_run_id r = ck_run_id c \<and> cp_version r = ck_version c \<and>
    (\<exists>x. decode_row cd c = Inr x \<and> runHead x = runHead r)"
  using assms by (auto simp: decode_head_def decode_row_def decodeCheckpoint_def runHead_payload
      split: option.split_asm if_split_asm)

lemma decode_heads_total:
  "\<forall>c \<in> set cs. checkpoint_row_ok cd c \<Longrightarrow>
    \<exists>rs. decode_heads cd cs = Inr rs \<and> length rs = length cs \<and> (\<forall>r \<in> set rs. \<exists>c \<in> set cs. decode_head cd c = Inr r)"
proof (induction cs)
  case (Cons c cs)
  then obtain rs where rs: "decode_heads cd cs = Inr rs" "length rs = length cs"
    "\<forall>r \<in> set rs. \<exists>c \<in> set cs. decode_head cd c = Inr r" by auto
  from Cons.prems have "checkpoint_row_ok cd c" by simp
  then obtain r where "decode_head cd c = Inr r"
    by (auto simp: checkpoint_row_ok_def decode_head_def decode_row_def decodeCheckpoint_def split: option.split_asm)
  with rs show ?case by auto
qed simp

lemma advance_head_runHead: "rn_run_id h = cp_run_id r \<Longrightarrow> advance_head r h = runHead r"
  by (simp add: advance_head_def runHead_def)

definition from_source :: "'j codec \<Rightarrow> 'j db \<Rightarrow> checkpoint \<Rightarrow> bool" where
  "from_source cd s r \<longleftrightarrow> (\<exists>c \<in> set (checkpoints s). latest_version s c \<and> decode_head cd c = Inr r)"

lemma latest_version_cong: "checkpoints s' = checkpoints s \<Longrightarrow> latest_version s' = latest_version s"
  by (simp add: latest_version_def fun_eq_iff)

lemma from_sourceD:
  assumes "from_source cd s r"
  obtains c where "c \<in> set (checkpoints s)" "latest_version s c" "ck_run_id c = cp_run_id r" "ck_version c = cp_version r"
    "\<And>x. x \<in> set (checkpoints s) \<Longrightarrow> ck_run_id x = cp_run_id r \<Longrightarrow> ck_version x \<le> cp_version r"
    "\<exists>x. decode_row cd c = Inr x \<and> runHead x = runHead r"
proof -
  from assms obtain c where c: "c \<in> set (checkpoints s)" "latest_version s c" "decode_head cd c = Inr r"
    by (auto simp: from_source_def)
  with decode_head_row [OF c(3)] that show ?thesis by (force simp: latest_version_def has_row_def)
qed

lemma backfillRunHead_runs:
  assumes "from_source cd s r"
  shows "runs (backfillRunHead r s) = upd_rows (\<lambda>h. rn_run_id h = cp_run_id r \<and> rn_version h < cp_version r)
    (\<lambda>_. runHead r) (ins_ignore rn_run_id (runHead r) (runs s))"
proof -
  from assms have "has_row (\<lambda>c. ck_run_id c = cp_run_id r \<and> ck_version c = cp_version r \<and> latest_version s c) (checkpoints s)"
    by (elim from_sourceD) (auto simp: has_row_def)
  then show ?thesis
    by (simp add: backfillRunHead_def Let_def upd_rows_def advance_head_runHead)
qed

lemma runHead_ids [simp]: "rn_run_id (runHead r) = cp_run_id r" "rn_version (runHead r) = cp_version r"
  by (simp_all add: runHead_def)

lemma backfillRunHead_up_to_date:
  assumes "from_source cd s r"
  shows "up_to_date (backfillRunHead r s) (cp_run_id r) \<and>
    (\<forall>rid. up_to_date s rid \<longrightarrow> up_to_date (backfillRunHead r s) rid)"
proof -
  let ?s = "backfillRunHead r s"
  note fr = backfillRunHead_frame [of r s] and rows = backfillRunHead_runs [OF assms]
  from assms obtain c where max: "\<And>x. x \<in> set (checkpoints s) \<Longrightarrow> ck_run_id x = cp_run_id r \<Longrightarrow> ck_version x \<le> cp_version r"
    by (elim from_sourceD) blast
  have "cp_run_id r \<in> rn_run_id ` set (ins_ignore rn_run_id (runHead r) (runs s))"
    by (simp add: ins_ignore_def)
  then obtain h where h: "h \<in> set (ins_ignore rn_run_id (runHead r) (runs s))" "rn_run_id h = cp_run_id r" by auto
  let ?h = "if rn_version h < cp_version r then runHead r else h"
  have "?h \<in> set (runs ?s)" using h by (auto simp: rows upd_rows_def)
  moreover have "ck_version x \<le> rn_version ?h" if "x \<in> set (checkpoints ?s)" "ck_run_id x = cp_run_id r" for x
    using max [of x] that fr by auto
  ultimately have "up_to_date ?s (cp_run_id r)" using h(2) by (auto simp: up_to_date_def intro!: bexI [of _ ?h])
  moreover have "up_to_date ?s rid" if u: "up_to_date s rid" "rid \<noteq> cp_run_id r" for rid
  proof -
    from u obtain h where "h \<in> set (runs s)" "rn_run_id h = rid"
      "\<forall>c \<in> set (checkpoints s). ck_run_id c = rid \<longrightarrow> ck_version c \<le> rn_version h" by (auto simp: up_to_date_def)
    moreover from this u(2) have "h \<in> set (runs ?s)" by (force simp: rows upd_rows_def ins_ignore_def)
    ultimately show ?thesis using fr by (auto simp: up_to_date_def)
  qed
  ultimately show ?thesis by metis
qed

lemma backfillRunHead_unheaded:
  assumes u: "unheaded_ok cd s" and src: "from_source cd s r"
  shows "unheaded_ok cd (backfillRunHead r s)"
proof -
  let ?s = "backfillRunHead r s"
  note fr = backfillRunHead_frame [of r s] and rows = backfillRunHead_runs [OF src]
  have v: "versions_of ?s = versions_of s" using fr by (simp add: versions_of_def fun_eq_iff)
  have lv: "latest_version ?s = latest_version s" using fr by (intro latest_version_cong) simp
  have "distinct (map rn_run_id (ins_ignore rn_run_id (runHead r) (runs s)))"
    using u by (simp add: unheaded_ok_def keys_ok_def heads.insert_ignore_unique)
  moreover have "map rn_run_id (runs ?s) = map rn_run_id (ins_ignore rn_run_id (runHead r) (runs s))"
    by (auto simp: rows upd_rows_def)
  ultimately have "distinct (map rn_run_id (runs ?s))" by simp
  then have k: "keys_ok ?s" using u fr by (simp add: unheaded_ok_def keys_ok_def)
  have new: "old_head_ok cd s (runHead r)"
  proof -
    from src obtain c where c: "c \<in> set (checkpoints s)" "ck_run_id c = cp_run_id r" "ck_version c = cp_version r"
      "\<exists>x. decode_row cd c = Inr x \<and> runHead x = runHead r" by (elim from_sourceD) blast
    have "x = c" if "x \<in> set (checkpoints s)" "ck_run_id x = cp_run_id r" "ck_version x = cp_version r" for x
    proof (rule ckpts.unique_row [of "checkpoints s"])
      show "distinct (map ckpt_key (checkpoints s))" using u by (simp add: unheaded_ok_def keys_ok_def)
      show "x \<in> set (checkpoints s)" "c \<in> set (checkpoints s)" "ckpt_key x = ckpt_key c"
        using that c(1-3) by (simp_all add: ckpt_key_def)
    qed
    moreover have "cp_version r \<in> versions_of s (cp_run_id r)"
      unfolding versions_of_def c(2,3) [symmetric] using c(1) by blast
    ultimately show ?thesis using c(4) unfolding old_head_ok_def runHead_ids by metis
  qed
  have "old_head_ok cd ?s h" if "h \<in> set (runs ?s)" for h
  proof -
    from that have "h \<in> set (runs s) \<or> h = runHead r"
      by (auto simp: rows upd_rows_def ins_ignore_def split: if_split_asm)
    with u new have "old_head_ok cd s h" by (auto simp: unheaded_ok_def)
    then show ?thesis using fr by (simp add: old_head_ok_def v lv)
  qed
  with k u fr show ?thesis
    by (simp add: unheaded_ok_def unheaded_event_ok_def source_ok_def v)
qed

section \<open>The backfill\<close>

lemma fold_backfillRunHead_spec:
  assumes "unheaded_ok cd s" and "\<forall>r \<in> set rs. from_source cd s r"
  shows "unheaded_ok cd (fold backfillRunHead rs s) \<and>
    (\<forall>rid. up_to_date s rid \<or> rid \<in> cp_run_id ` set rs \<longrightarrow> up_to_date (fold backfillRunHead rs s) rid)"
  using assms
proof (induction rs arbitrary: s)
  case (Cons r rs)
  let ?s = "backfillRunHead r s"
  from Cons.prems have src: "from_source cd s r" by simp
  have "latest_version ?s = latest_version s" by (intro latest_version_cong) (simp add: backfillRunHead_frame)
  then have "\<forall>x \<in> set rs. from_source cd ?s x"
    using Cons.prems(2) by (simp add: from_source_def backfillRunHead_frame)
  from Cons.IH [OF backfillRunHead_unheaded [OF Cons.prems(1) src] this] backfillRunHead_up_to_date [OF src]
  show ?case by auto
qed simp

definition heads_of :: "'j codec \<Rightarrow> string \<Rightarrow> 'j db \<Rightarrow> 'j db" where
  "heads_of cd after s =
    (case decode_heads cd (head_candidates after s) of Inl e \<Rightarrow> s | Inr rs \<Rightarrow> fold backfillRunHead rs s)"

lemma heads_of_frame:
  "checkpoints (heads_of cd after s) = checkpoints s \<and> events (heads_of cd after s) = events s \<and>
   retention (heads_of cd after s) = retention s \<and> registry (heads_of cd after s) = registry s \<and>
   next_ordinal (heads_of cd after s) = next_ordinal s"
  by (simp add: heads_of_def fold_backfillRunHead_frame split: sum.split)

lemma head_candidates_mem:
  "c \<in> set (head_candidates after s) \<Longrightarrow> c \<in> set (checkpoints s) \<and> latest_version s c"
  by (auto simp: head_candidates_def dest!: in_set_takeD)

lemma candidates_decode:
  assumes u: "unheaded_ok cd s"
  obtains rs where "decode_heads cd (head_candidates after s) = Inr rs" "heads_of cd after s = fold backfillRunHead rs s"
    "map cp_run_id rs = map ck_run_id (head_candidates after s)" "\<forall>r \<in> set rs. from_source cd s r"
proof -
  have "\<forall>c \<in> set (head_candidates after s). checkpoint_row_ok cd c"
    using u head_candidates_mem [of _ after s] by (auto simp: unheaded_ok_def source_ok_def)
  from decode_heads_total [OF this] obtain rs where rs: "decode_heads cd (head_candidates after s) = Inr rs"
    "\<forall>r \<in> set rs. \<exists>c \<in> set (head_candidates after s). decode_head cd c = Inr r" by blast
  then have "\<forall>r \<in> set rs. from_source cd s r"
    using head_candidates_mem [of _ after s] by (fastforce simp: from_source_def)
  with rs decode_heads_ids [OF rs(1)] that show ?thesis by (simp add: heads_of_def)
qed

lemma heads_of_spec:
  assumes u: "unheaded_ok cd s"
  shows "unheaded_ok cd (heads_of cd after s) \<and>
    (\<forall>rid. up_to_date s rid \<or> rid \<in> ck_run_id ` set (head_candidates after s) \<longrightarrow> up_to_date (heads_of cd after s) rid)"
proof -
  from candidates_decode [OF u, of after] obtain rs where rs: "heads_of cd after s = fold backfillRunHead rs s"
    "map cp_run_id rs = map ck_run_id (head_candidates after s)" "\<forall>r \<in> set rs. from_source cd s r" by metis
  from rs(2) have "cp_run_id ` set rs = ck_run_id ` set (head_candidates after s)" by (metis set_map)
  with fold_backfillRunHead_spec [OF u rs(3)] rs(1) show ?thesis by simp
qed

lemma latest_of_run:
  assumes "source_ok cd s c" and "c \<in> set (checkpoints s)"
  obtains m where "m \<in> set (checkpoints s)" "ck_run_id m = ck_run_id c" "latest_version s m"
    "\<And>x. x \<in> set (checkpoints s) \<Longrightarrow> ck_run_id x = ck_run_id c \<Longrightarrow> ck_version x \<le> ck_version m"
proof -
  from assms(1) obtain n where n: "versions_of s (ck_run_id c) = {1..n}" by (auto simp: source_ok_def)
  from assms(2) have "ck_version c \<in> versions_of s (ck_run_id c)" by (auto simp: versions_of_def)
  with n have "n \<in> versions_of s (ck_run_id c)" by simp
  then obtain m where m: "m \<in> set (checkpoints s)" "ck_run_id m = ck_run_id c" "ck_version m = n"
    by (auto simp: versions_of_def)
  have "ck_version x \<le> n" if "x \<in> set (checkpoints s)" "ck_run_id x = ck_run_id c" for x
    using that n by (auto simp: versions_of_def set_eq_iff)
  with m that show ?thesis by (force simp: latest_version_def has_row_def)
qed

interpretation head_batches: batch_loop "\<lambda>ens n. backfillRunHeads ens n cd"
    "\<lambda>after s. map ck_run_id (head_candidates after s)" "heads_of cd" "\<lambda>s. ck_run_id ` set (checkpoints s)"
    up_to_date "\<lambda>s. unheaded_ok cd s \<and> checkpoints s = checkpoints s0 \<and> events s = events s0"
    for s0 :: "'j db" and cd :: "'j codec"
proof
  fix ens n after and s :: "'j db"
  show "finite (ck_run_id ` set (checkpoints s))" by simp
  show "ck_run_id ` set (checkpoints (heads_of cd after s)) = ck_run_id ` set (checkpoints s)"
    by (simp add: heads_of_frame)
  show "map ck_run_id (head_candidates after s) \<noteq> [] \<Longrightarrow> after < last (map ck_run_id (head_candidates after s)) \<and>
      last (map ck_run_id (head_candidates after s)) \<in> ck_run_id ` set (checkpoints s)"
    using head_candidates_after [of "last (head_candidates after s)" after s] by (simp add: last_map)
  assume "unheaded_ok cd s \<and> checkpoints s = checkpoints s0 \<and> events s = events s0"
  then have ok: "unheaded_ok cd s" "checkpoints s = checkpoints s0 \<and> events s = events s0" by simp_all
  show "unheaded_ok cd (heads_of cd after s) \<and> checkpoints (heads_of cd after s) = checkpoints s0 \<and>
      events (heads_of cd after s) = events s0"
    using heads_of_spec [OF ok(1)] ok(2) by (simp add: heads_of_frame)
  from candidates_decode [OF ok(1), of after] obtain rs where
    rs: "decode_heads cd (head_candidates after s) = Inr rs" "heads_of cd after s = fold backfillRunHead rs s"
    "map cp_run_id rs = map ck_run_id (head_candidates after s)" by metis
  then have "(rs = []) = (head_candidates after s = [])" "length rs = length (head_candidates after s)"
    by (auto dest: map_eq_imp_length_eq)
  moreover from this rs(3) have "rs \<noteq> [] \<Longrightarrow> cp_run_id (last rs) = ck_run_id (last (head_candidates after s))"
    by (metis last_map)
  ultimately show "backfillRunHeads ens n cd after s =
      (case query (ens n) (Inr (map ck_run_id (head_candidates after s))) of
         Inl e \<Rightarrow> (Inl e, s)
       | Inr ks \<Rightarrow> if ks = [] then (Inr (n + 1), s)
         else (case transaction (ens (n + 1)) (\<lambda>s. Inr ((), heads_of cd after s)) s of
             (Inl e, s') \<Rightarrow> (Inl e, s')
           | (Inr _, s') \<Rightarrow> if length ks < backfillBatchSize then (Inr (n + 2), s')
               else backfillRunHeads ens (n + 2) cd (last ks) s'))"
    using rs(1,2) by (subst backfillRunHeads.simps)
      (auto simp: loadRunHeadBackfillBatch_def query_def transaction_def backfill_heads_tx_def last_map
        split: option.split sum.split prod.split)
  fix k
  show "up_to_date s k \<Longrightarrow> up_to_date (heads_of cd after s) k"
    and "k \<in> set (map ck_run_id (head_candidates after s)) \<Longrightarrow> up_to_date (heads_of cd after s) k"
    using heads_of_spec [OF ok(1), of after] by auto
  assume k: "k \<in> ck_run_id ` set (checkpoints s)" "after < k" and
    out: "k \<notin> set (map ck_run_id (head_candidates after s))" and nd: "\<not> up_to_date s k"
  from k(1) ok(1) obtain c where c: "c \<in> set (checkpoints s)" "k = ck_run_id c" "source_ok cd s c"
    by (auto simp: unheaded_ok_def)
  from c obtain m where m: "m \<in> set (checkpoints s)" "ck_run_id m = k" "latest_version s m"
    "\<And>x. x \<in> set (checkpoints s) \<Longrightarrow> ck_run_id x = k \<Longrightarrow> ck_version x \<le> ck_version m"
    using latest_of_run [OF c(3,1)] by metis
  let ?P = "\<lambda>c. ck_run_id c > after \<and> latest_version s c \<and>
       (\<not> has_row (\<lambda>h. rn_run_id h = ck_run_id c) (runs s) \<or>
        has_row (\<lambda>h. rn_run_id h = ck_run_id c \<and> rn_version h < ck_version c) (runs s))"
  let ?ys = "select_rows ?P ck_run_id (checkpoints s)"
  have cs: "head_candidates after s = take backfillBatchSize ?ys" by (simp add: head_candidates_def)
  have "?P m" using m k nd by (force simp: has_row_def up_to_date_def)
  then have "m \<in> set ?ys" using m by simp
  moreover have "inj_on ck_run_id (set ?ys)"
  proof (rule inj_onI)
    fix x y assume xy: "x \<in> set ?ys" "y \<in> set ?ys" "ck_run_id x = ck_run_id y"
    then have "ck_version x = ck_version y" by (force simp: latest_version_def has_row_def)
    with xy ok(1) show "x = y"
      by (intro ckpts.unique_row [of "checkpoints s"]) (auto simp: unheaded_ok_def keys_ok_def ckpt_key_def)
  qed
  ultimately show "map ck_run_id (head_candidates after s) \<noteq> [] \<and>
      last (map ck_run_id (head_candidates after s)) < k \<and>
      backfillBatchSize \<le> length (map ck_run_id (head_candidates after s))"
    unfolding cs m(2) [symmetric] using out m(2) cs sorted_select_rows [of ck_run_id ?P "checkpoints s"]
    by (intro not_in_batch_last batch_size_pos) simp_all
qed

lemma headed_legacy:
  assumes u: "unheaded_ok cd s" and h: "\<And>c. c \<in> set (checkpoints s) \<Longrightarrow> up_to_date s (ck_run_id c)"
  shows "legacy_ok cd s"
proof (rule legacy_okI)
  show k: "keys_ok s" using u by (simp add: unheaded_ok_def)
  have head: "head_ok cd s x \<and> rn_run_id x \<noteq> ''''" if x: "x \<in> set (runs s)" for x
  proof -
    from u x have old: "old_head_ok cd s x" by (simp add: unheaded_ok_def)
    then obtain c where c: "c \<in> set (checkpoints s)" "ck_run_id c = rn_run_id x" "ck_version c = rn_version x"
      by (auto simp: old_head_ok_def versions_of_def)
    from u c(1) have src: "source_ok cd s c" by (simp add: unheaded_ok_def)
    from h [OF c(1)] obtain y where y: "y \<in> set (runs s)" "rn_run_id y = ck_run_id c"
      "\<forall>z \<in> set (checkpoints s). ck_run_id z = ck_run_id c \<longrightarrow> ck_version z \<le> rn_version y" by (auto simp: up_to_date_def)
    with x k c have "y = x" by (intro distinct_map_eq [of rn_run_id "runs s"]) (auto simp: keys_ok_def)
    with y c have max: "\<forall>z \<in> set (checkpoints s). ck_run_id z = rn_run_id x \<longrightarrow> ck_version z \<le> rn_version x" by simp
    from src c obtain n where n: "versions_of s (rn_run_id x) = {1..n}" by (auto simp: source_ok_def)
    moreover have "rn_version x \<in> versions_of s (rn_run_id x)" using old by (simp add: old_head_ok_def)
    moreover have "n \<le> rn_version x" if "n \<in> versions_of s (rn_run_id x)" using that max by (auto simp: versions_of_def)
    ultimately have "n = rn_version x" "1 \<le> rn_version x" by auto
    moreover have "latest_version s z" if "z \<in> set (checkpoints s)" "ck_run_id z = rn_run_id x" "ck_version z = rn_version x" for z
      using that max by (force simp: latest_version_def has_row_def)
    ultimately show ?thesis using old n src c by (auto simp: head_ok_def old_head_ok_def source_ok_def)
  qed
  show "history_ok cd s" using u head by (auto simp: history_ok_def unheaded_ok_def source_ok_def)
  show "legacy_event_ok s e" if "e \<in> set (events s)" for e
    using u that by (auto simp: unheaded_ok_def unheaded_event_ok_def legacy_event_ok_def)
  show "has_head s (ck_run_id c) \<or> (\<exists>g \<in> set (registry s). rg_run_id g = ck_run_id c \<and>
      rg_kind g = runKindWorkflow \<and> rg_state g = runStatePurging)" if "c \<in> set (checkpoints s)" for c
    using h [OF that] by (auto simp: up_to_date_def has_head_def intro: rev_image_eqI [OF _ sym])
  show "rn_run_id x \<noteq> '''' \<or> has_registry s (rn_run_id x)" if "x \<in> set (runs s)" for x using head [OF that] by blast
qed (use u in \<open>auto simp: unheaded_ok_def\<close>)

lemma backfillRunHeads_spec:
  assumes u: "unheaded_ok cd s" and r: "backfillRunHeads ens n cd '''' s = (r, s')"
  shows "unheaded_ok cd s' \<and> checkpoints s' = checkpoints s \<and> events s' = events s \<and>
    ((\<exists>m. r = Inr m) \<longrightarrow> legacy_ok cd s') \<and> (fault_free ens \<longrightarrow> (\<exists>m. r = Inr m))"
proof -
  have "unheaded_ok cd s \<and> checkpoints s = checkpoints s \<and> events s = events s" using u by simp
  from head_batches.run_spec [OF this r]
  have sp: "unheaded_ok cd s' \<and> checkpoints s' = checkpoints s \<and> events s' = events s"
    and all: "\<exists>m. r = Inr m \<Longrightarrow> c \<in> set (checkpoints s) \<Longrightarrow> ck_run_id c \<noteq> '''' \<Longrightarrow> up_to_date s' (ck_run_id c)"
    and ff: "fault_free ens \<longrightarrow> (\<exists>m. r = Inr m)" for c by (auto simp: fault_free_def string_pos)
  have "legacy_ok cd s'" if "\<exists>m. r = Inr m"
    using sp all [OF that] u by (intro headed_legacy) (auto simp: unheaded_ok_def source_ok_def)
  with sp ff show ?thesis by blast
qed

end
