(* ===== verification/Schema.thy ===== *)
theory Schema
  imports Migrations
begin

text \<open>
  The schema check of \<open>dbstore.go\<close>: what the columns, keys and indexes of the tables must be
  before a store is handed out. What the database answers when its catalog is inspected is
  the record \<open>report\<close>: for every question an answer or the error of the statement.
\<close>

section \<open>Requirements\<close>

definition checkpointTable :: string where "checkpointTable = ''gopact_workflow_checkpoints''"
definition eventTable :: string where "eventTable = ''gopact_runlog''"
definition eventRetentionTable :: string where "eventRetentionTable = ''gopact_runlog_retention''"
definition runTable :: string where "runTable = ''gopact_workflow_runs''"
definition registryTable :: string where "registryTable = ''gopact_run_registry''"
definition migrationTable :: string where "migrationTable = ''gopact_schema_migrations''"
definition maxRunStatusBytes :: int where "maxRunStatusBytes = 32"
definition maxRegistryTagBytes :: int where "maxRegistryTagBytes = 16"
definition schemaVersion :: int where "schemaVersion = 2"

datatype column_kind = schemaColumnString | schemaColumnInteger | schemaColumnBytes

record column_requirement =
  rq_name :: string
  rq_kind :: column_kind
  rq_length :: int
  rq_binary_id :: bool

record schema_requirement =
  sr_table :: string
  sr_primary_key :: "string list"
  sr_auto_increment :: string
  sr_columns :: "column_requirement list"

definition id_column :: "string \<Rightarrow> column_requirement" where
  "id_column name = \<lparr>rq_name = name, rq_kind = schemaColumnString, rq_length = maxIndexedIDBytes, rq_binary_id = True\<rparr>"

definition text_column :: "string \<Rightarrow> int \<Rightarrow> column_requirement" where
  "text_column name len = \<lparr>rq_name = name, rq_kind = schemaColumnString, rq_length = len, rq_binary_id = False\<rparr>"

definition int_column :: "string \<Rightarrow> column_requirement" where
  "int_column name = \<lparr>rq_name = name, rq_kind = schemaColumnInteger, rq_length = 0, rq_binary_id = False\<rparr>"

definition blob_column :: "string \<Rightarrow> column_requirement" where
  "blob_column name = \<lparr>rq_name = name, rq_kind = schemaColumnBytes, rq_length = 0, rq_binary_id = False\<rparr>"

definition schema_requirements :: "schema_requirement list" where
  "schema_requirements =
    [\<lparr>sr_table = checkpointTable, sr_primary_key = [''run_id'', ''version''], sr_auto_increment = '''',
      sr_columns = [id_column ''run_id'', int_column ''version'', blob_column ''record_json'', blob_column ''payload'']\<rparr>,
     \<lparr>sr_table = eventTable, sr_primary_key = [''ordinal''], sr_auto_increment = ''ordinal'',
      sr_columns = [int_column ''ordinal'', id_column ''session_id'', id_column ''run_id'', int_column ''sequence'',
        blob_column ''record_json'']\<rparr>,
     \<lparr>sr_table = eventRetentionTable, sr_primary_key = [''ordinal''], sr_auto_increment = '''',
      sr_columns = [int_column ''ordinal'', id_column ''run_id'', int_column ''appended_at_unix_nano'']\<rparr>,
     \<lparr>sr_table = runTable, sr_primary_key = [''run_id''], sr_auto_increment = '''',
      sr_columns = [id_column ''run_id'', id_column ''session_id'', text_column ''status'' maxRunStatusBytes,
        int_column ''version'', int_column ''created_at_unix_nano'', int_column ''updated_at_unix_nano'']\<rparr>,
     \<lparr>sr_table = registryTable, sr_primary_key = [''run_id''], sr_auto_increment = '''',
      sr_columns = [id_column ''run_id'', text_column ''kind'' maxRegistryTagBytes, text_column ''state'' maxRegistryTagBytes,
        int_column ''updated_at_unix_nano'', int_column ''compacted_through_sequence'']\<rparr>,
     \<lparr>sr_table = migrationTable, sr_primary_key = [''version''], sr_auto_increment = '''',
      sr_columns = [int_column ''version'', int_column ''applied_at_unix_nano'']\<rparr>]"

definition schema_indexes :: "(string \<times> string) list" where
  "schema_indexes =
    [(eventTable, ''gopact_runlog_run_sequence''), (eventTable, ''gopact_runlog_session_ordinal''),
     (eventRetentionTable, ''gopact_runlog_retention_time''), (eventRetentionTable, ''gopact_runlog_retention_run''),
     (runTable, ''gopact_workflow_runs_retention''), (registryTable, ''gopact_run_registry_retention'')]"

section \<open>What the database reports\<close>

record column_type =
  ct_name :: string
  ct_database_type :: string
  ct_length :: "int option"
  ct_nullable :: "bool option"
  ct_auto_increment :: "bool option"

record identity_index =
  ix_unique :: bool
  ix_valid :: bool
  ix_columns :: "string list"

record table_options =
  to_table :: string
  to_engine :: string
  to_collation :: string

record report =
  rp_has_table :: "string \<Rightarrow> bool"
  rp_columns :: "string \<Rightarrow> store_error + column_type list"
  rp_primary_key :: "string \<Rightarrow> store_error + string list"
  rp_ddl :: "string \<Rightarrow> store_error + string"
  rp_has_index :: "string \<Rightarrow> string \<Rightarrow> bool"
  rp_identity_index :: "store_error + identity_index option"
  rp_collation :: "string \<Rightarrow> string \<Rightarrow> store_error + string option"
  rp_tables :: "store_error + table_options list"

section \<open>The check\<close>

definition to_upper_char :: "char \<Rightarrow> char" where
  "to_upper_char c = (if CHR ''a'' \<le> c \<and> c \<le> CHR ''z'' then char_of (of_char c - 32 :: nat) else c)"

definition to_upper :: "string \<Rightarrow> string" where
  "to_upper s = map to_upper_char s"

definition schema_error :: "string \<Rightarrow> store_error" where
  "schema_error m = ErrOther (''dbstore: '' @ m)"

definition validSchemaColumnType :: "dialect \<Rightarrow> column_kind \<Rightarrow> string \<Rightarrow> bool" where
  "validSchemaColumnType d kind actual0 = (let actual = to_lower actual0 in case d of
      Sqlite \<Rightarrow> (case kind of schemaColumnString \<Rightarrow> actual = ''text'' | schemaColumnInteger \<Rightarrow> actual = ''integer''
        | schemaColumnBytes \<Rightarrow> actual = ''blob'')
    | Mysql \<Rightarrow> (case kind of schemaColumnString \<Rightarrow> actual = ''varchar'' | schemaColumnInteger \<Rightarrow> actual = ''bigint''
        | schemaColumnBytes \<Rightarrow> actual = ''longblob'')
    | Postgres \<Rightarrow> (case kind of schemaColumnString \<Rightarrow> actual = ''varchar''
        | schemaColumnInteger \<Rightarrow> actual = ''int8'' \<or> actual = ''bigint''
        | schemaColumnBytes \<Rightarrow> actual = ''bytea''))"

definition verifySchemaColumnLength :: "dialect \<Rightarrow> column_requirement \<Rightarrow> column_type \<Rightarrow> store_error + unit" where
  "verifySchemaColumnLength d c ct =
    (if rq_length c = 0 \<or> d = Sqlite then Inr ()
     else if ct_length ct \<noteq> Some (rq_length c) then Inl (schema_error ''schema column has a wrong length'')
     else Inr ())"

definition verifySchemaAutoIncrement ::
  "dialect \<Rightarrow> schema_requirement \<Rightarrow> column_requirement \<Rightarrow> column_type \<Rightarrow> store_error + unit" where
  "verifySchemaAutoIncrement d r c ct =
    (if d = Sqlite then Inr ()
     else if (ct_auto_increment ct = Some True) = (rq_name c = sr_auto_increment r) then Inr ()
     else Inl (schema_error ''schema column has the wrong auto-increment setting''))"

definition verifyMySQLIDColumnCollation :: "report \<Rightarrow> string \<Rightarrow> string \<Rightarrow> store_error + unit" where
  "verifyMySQLIDColumnCollation rp table column =
    rbind (rp_collation rp table column) (\<lambda>collation.
    case collation of
      Some c \<Rightarrow> if to_lower c = ''utf8mb4_bin'' then Inr ()
        else Inl (schema_error ''schema column must use utf8mb4_bin collation'')
    | None \<Rightarrow> Inl (schema_error ''schema column must use utf8mb4_bin collation''))"

definition verifySchemaColumn ::
  "dialect \<Rightarrow> report \<Rightarrow> schema_requirement \<Rightarrow> column_requirement \<Rightarrow> column_type option \<Rightarrow> store_error + unit" where
  "verifySchemaColumn d rp r c found =
    (case found of
       None \<Rightarrow> Inl (schema_error ''schema version is missing a column; repair the schema and rerun Migrate'')
     | Some ct \<Rightarrow>
       if \<not> validSchemaColumnType d (rq_kind c) (ct_database_type ct)
       then Inl (schema_error ''schema column has a wrong type; repair the schema and rerun Migrate'')
       else rbind (verifySchemaColumnLength d c ct) (\<lambda>_.
         if ct_nullable ct = None \<or>
           (ct_nullable ct = Some True \<and> \<not> (d = Sqlite \<and> rq_name c = sr_auto_increment r))
         then Inl (schema_error ''schema column must be NOT NULL; repair the schema and rerun Migrate'')
         else rbind (verifySchemaAutoIncrement d r c ct) (\<lambda>_.
           if d \<noteq> Mysql \<or> \<not> rq_binary_id c then Inr ()
           else verifyMySQLIDColumnCollation rp (sr_table r) (rq_name c))))"

definition verifyPrimaryKey :: "report \<Rightarrow> schema_requirement \<Rightarrow> store_error + unit" where
  "verifyPrimaryKey rp r =
    rbind (rp_primary_key rp (sr_table r)) (\<lambda>columns.
    if join_strings '','' columns \<noteq> join_strings '','' (sr_primary_key r)
    then Inl (schema_error ''schema table has the wrong primary key'') else Inr ())"

definition verifySQLiteAutoIncrement :: "report \<Rightarrow> schema_requirement \<Rightarrow> store_error + unit" where
  "verifySQLiteAutoIncrement rp r =
    rbind (rp_ddl rp (sr_table r)) (\<lambda>ddl.
    if contains_sub (to_upper ddl) ''AUTOINCREMENT'' \<noteq> (sr_auto_increment r \<noteq> '''')
    then Inl (schema_error ''schema table has the wrong auto-increment setting'') else Inr ())"

text \<open>The columns by name: of two columns with one name the later one counts.\<close>

definition column_by_name :: "column_type list \<Rightarrow> string \<Rightarrow> column_type option" where
  "column_by_name cts name = find (\<lambda>ct. to_lower (ct_name ct) = name) (rev cts)"

definition verifySchemaRequirement :: "dialect \<Rightarrow> report \<Rightarrow> schema_requirement \<Rightarrow> store_error + unit" where
  "verifySchemaRequirement d rp r =
    (if \<not> rp_has_table rp (sr_table r) then Inl (schema_error ''schema version is incomplete; run Migrate'')
     else rbind (rp_columns rp (sr_table r)) (\<lambda>cts.
       rbind (first_error (\<lambda>c. verifySchemaColumn d rp r c (column_by_name cts (rq_name c))) (sr_columns r)) (\<lambda>_.
       rbind (verifyPrimaryKey rp r) (\<lambda>_.
       if d \<noteq> Sqlite then Inr () else verifySQLiteAutoIncrement rp r))))"

definition verify_index :: "report \<Rightarrow> string \<times> string \<Rightarrow> store_error + unit" where
  "verify_index rp ix =
    (if rp_has_index rp (fst ix) (snd ix) then Inr ()
     else Inl (schema_error ''schema version is missing an index; repair the schema and rerun Migrate''))"

definition verifyRunLogIdentityIndex :: "dialect \<Rightarrow> report \<Rightarrow> store_error + unit" where
  "verifyRunLogIdentityIndex d rp =
    rbind (rp_identity_index rp) (\<lambda>found.
    let valid = (case found of None \<Rightarrow> False
      | Some ix \<Rightarrow> ix_unique ix \<and>
          (if d = Postgres then ix_valid ix \<and> ix_columns ix = [''run_id'', ''sequence'']
           else join_strings '','' (ix_columns ix) = ''run_id,sequence''))
    in if valid then Inr ()
       else Inl (schema_error ''RunLog identity index must uniquely cover (run_id, sequence)''))"

definition store_tables :: "string list" where
  "store_tables = [checkpointTable, eventTable, eventRetentionTable, runTable, registryTable, migrationTable]"

definition verifyMySQLTableOptions :: "dialect \<Rightarrow> report \<Rightarrow> store_error + unit" where
  "verifyMySQLTableOptions d rp =
    (if d \<noteq> Mysql then Inr ()
     else rbind (rp_tables rp) (\<lambda>tables.
       let valid = filter (\<lambda>t. to_table t \<in> set store_tables \<and> to_upper (to_engine t) = ''INNODB'' \<and>
         to_lower (to_collation t) = ''utf8mb4_bin'') tables
       in if length valid \<noteq> length store_tables
          then Inl (schema_error ''every Store table must use InnoDB and utf8mb4_bin'') else Inr ()))"

text \<open>The version row with the highest number, if there is one.\<close>

definition last_version :: "int list \<Rightarrow> int option" where
  "last_version vs = first_row (select_rows (\<lambda>_. True) (\<lambda>v. - v) vs)"

definition not_initialized :: store_error where
  "not_initialized = schema_error ''schema is not initialized; run Migrate before Connect''"

definition verify_version :: "env \<Rightarrow> report \<Rightarrow> int list \<Rightarrow> store_error + unit" where
  "verify_version en rp versions =
    (if \<not> rp_has_table rp migrationTable then Inl not_initialized
     else rbind (query en (Inr (last_version versions))) (\<lambda>v.
       case v of None \<Rightarrow> Inl not_initialized
       | Some v \<Rightarrow> if v \<noteq> schemaVersion then Inl (schema_error ''schema version does not match; run Migrate'')
         else Inr ()))"

definition verifySchema ::
  "dialect \<Rightarrow> (nat \<Rightarrow> env) \<Rightarrow> nat \<Rightarrow> report \<Rightarrow> int list \<Rightarrow> 'j db \<Rightarrow> store_error + nat" where
  "verifySchema d ens n rp versions s =
    rbind (verify_version (ens n) rp versions) (\<lambda>_.
    rbind (first_error (verifySchemaRequirement d rp) schema_requirements) (\<lambda>_.
    rbind (first_error (verify_index rp) schema_indexes) (\<lambda>_.
    rbind (verifyRunLogIdentityIndex d rp) (\<lambda>_.
    rbind (verifyMySQLTableOptions d rp) (\<lambda>_.
    rbind (v2MetadataGap ens (n + 1) s) (\<lambda>(gap, m).
    if gap \<noteq> '''' then Inl (schema_error (''schema v2 metadata is incomplete ('' @ gap @ ''); run Migrate''))
    else Inr m))))))"

section \<open>When the check passes\<close>

definition column_fits :: "dialect \<Rightarrow> report \<Rightarrow> schema_requirement \<Rightarrow> column_requirement \<Rightarrow> column_type \<Rightarrow> bool" where
  "column_fits d rp r c ct \<longleftrightarrow> validSchemaColumnType d (rq_kind c) (ct_database_type ct) \<and>
    (rq_length c \<noteq> 0 \<and> d \<noteq> Sqlite \<longrightarrow> ct_length ct = Some (rq_length c)) \<and>
    (ct_nullable ct = Some False \<or> ct_nullable ct = Some True \<and> d = Sqlite \<and> rq_name c = sr_auto_increment r) \<and>
    (d \<noteq> Sqlite \<longrightarrow> (ct_auto_increment ct = Some True) = (rq_name c = sr_auto_increment r)) \<and>
    (d = Mysql \<and> rq_binary_id c \<longrightarrow>
       (\<exists>l. rp_collation rp (sr_table r) (rq_name c) = Inr (Some l) \<and> to_lower l = ''utf8mb4_bin''))"

lemma column_length_iff:
  "verifySchemaColumnLength d c ct = Inr u \<longleftrightarrow> (rq_length c \<noteq> 0 \<and> d \<noteq> Sqlite \<longrightarrow> ct_length ct = Some (rq_length c))"
  by (simp add: verifySchemaColumnLength_def)

lemma auto_increment_iff:
  "verifySchemaAutoIncrement d r c ct = Inr u \<longleftrightarrow>
    (d \<noteq> Sqlite \<longrightarrow> (ct_auto_increment ct = Some True) = (rq_name c = sr_auto_increment r))"
  by (simp add: verifySchemaAutoIncrement_def)

lemma collation_iff:
  "verifyMySQLIDColumnCollation rp table column = Inr u \<longleftrightarrow>
    (\<exists>l. rp_collation rp table column = Inr (Some l) \<and> to_lower l = ''utf8mb4_bin'')"
  by (cases "rp_collation rp table column") (auto simp: verifyMySQLIDColumnCollation_def split: option.split)

lemma verifySchemaColumn_iff:
  "verifySchemaColumn d rp r c found = Inr u \<longleftrightarrow> (\<exists>ct. found = Some ct \<and> column_fits d rp r c ct)"
proof (cases found)
  case (Some ct)
  show ?thesis
  proof (cases "validSchemaColumnType d (rq_kind c) (ct_database_type ct)")
    case True
    define A where "A = verifySchemaColumnLength d c ct"
    define B where "B = verifySchemaAutoIncrement d r c ct"
    define C where "C = verifyMySQLIDColumnCollation rp (sr_table r) (rq_name c)"
    have "verifySchemaColumn d rp r c (Some ct) = rbind A (\<lambda>_.
      if ct_nullable ct = None \<or> (ct_nullable ct = Some True \<and> \<not> (d = Sqlite \<and> rq_name c = sr_auto_increment r))
      then Inl (schema_error ''schema column must be NOT NULL; repair the schema and rerun Migrate'')
      else rbind B (\<lambda>_. if d \<noteq> Mysql \<or> \<not> rq_binary_id c then Inr () else C))"
      by (simp only: verifySchemaColumn_def A_def B_def C_def option.case True not_True_eq_False if_False)
    then have "verifySchemaColumn d rp r c (Some ct) = Inr u \<longleftrightarrow> A = Inr () \<and>
      (ct_nullable ct = Some False \<or> ct_nullable ct = Some True \<and> d = Sqlite \<and> rq_name c = sr_auto_increment r) \<and>
      B = Inr () \<and> (d = Mysql \<and> rq_binary_id c \<longrightarrow> C = Inr ())"
      by (cases "ct_nullable ct"; cases A; cases B) auto
    then show ?thesis
      by (simp add: A_def B_def C_def Some True column_length_iff auto_increment_iff collation_iff column_fits_def)
  qed (simp add: Some verifySchemaColumn_def column_fits_def)
qed (simp add: verifySchemaColumn_def)

definition requirement_met :: "dialect \<Rightarrow> report \<Rightarrow> schema_requirement \<Rightarrow> bool" where
  "requirement_met d rp r \<longleftrightarrow> rp_has_table rp (sr_table r) \<and>
    (\<exists>cts. rp_columns rp (sr_table r) = Inr cts \<and>
       (\<forall>c \<in> set (sr_columns r). \<exists>ct. column_by_name cts (rq_name c) = Some ct \<and> column_fits d rp r c ct)) \<and>
    (\<exists>pk. rp_primary_key rp (sr_table r) = Inr pk \<and> join_strings '','' pk = join_strings '','' (sr_primary_key r)) \<and>
    (d = Sqlite \<longrightarrow> (\<exists>ddl. rp_ddl rp (sr_table r) = Inr ddl \<and>
       contains_sub (to_upper ddl) ''AUTOINCREMENT'' = (sr_auto_increment r \<noteq> '''')))"

lemma verifySchemaRequirement_iff: "verifySchemaRequirement d rp r = Inr u \<longleftrightarrow> requirement_met d rp r"
proof -
  have pk: "verifyPrimaryKey rp r = Inr u \<longleftrightarrow>
      (\<exists>pk. rp_primary_key rp (sr_table r) = Inr pk \<and> join_strings '','' pk = join_strings '','' (sr_primary_key r))" for u
    by (auto simp: verifyPrimaryKey_def rbind_Inr_iff)
  have ai: "verifySQLiteAutoIncrement rp r = Inr u \<longleftrightarrow> (\<exists>ddl. rp_ddl rp (sr_table r) = Inr ddl \<and>
      contains_sub (to_upper ddl) ''AUTOINCREMENT'' = (sr_auto_increment r \<noteq> ''''))" for u
    by (auto simp: verifySQLiteAutoIncrement_def rbind_Inr_iff)
  show ?thesis
    by (simp add: verifySchemaRequirement_def rbind_Inr_iff first_error_Inr_iff verifySchemaColumn_iff requirement_met_def pk ai) blast
qed

lemma first_gap_none:
  "first_gap ens n checks s = Inr ('''', m) \<Longrightarrow> \<forall>(name, gap) \<in> set checks. name \<noteq> '''' \<Longrightarrow>
    \<forall>(name, gap) \<in> set checks. \<not> gap s"
proof (induction checks arbitrary: n)
  case (Cons c checks)
  obtain name gap where c: "c = (name, gap)" by fastforce
  with Cons show ?case by (auto simp: query_def split: option.split_asm if_split_asm)
qed simp

lemma v2MetadataGap_none:
  assumes "v2MetadataGap ens n s = Inr ('''', m)"
  shows "\<not> retention_gap s \<and> \<not> workflow_gap s \<and> \<not> journal_gap s \<and> \<not> floor_gap s"
  using first_gap_none [OF assms [unfolded v2MetadataGap_def]] by (simp add: gap_checks_def)

lemma verifySchemaD:
  assumes "verifySchema d ens n rp versions s = Inr m"
  shows "rp_has_table rp migrationTable \<and> last_version versions = Some schemaVersion \<and>
    (\<forall>r \<in> set schema_requirements. requirement_met d rp r) \<and>
    (\<forall>(t, ix) \<in> set schema_indexes. rp_has_index rp t ix) \<and>
    verifyRunLogIdentityIndex d rp = Inr () \<and> verifyMySQLTableOptions d rp = Inr () \<and>
    v2MetadataGap ens (n + 1) s = Inr ('''', m)"
  using assms
  by (auto simp: verifySchema_def rbind_Inr_iff first_error_Inr_iff verifySchemaRequirement_iff verify_version_def
      verify_index_def query_def split: if_split_asm option.split_asm)

end
