(* ===== verification/Opening.thy ===== *)
theory Opening
  imports Schema
begin

text \<open>
  Opening and migrating a database (\<open>dbstore.go\<close>, \<open>migrations.go\<close>): the migration lock, the
  versions of the schema and the steps between them, the repair of a current schema, the
  compatibility triggers of SQLite, the validation of the ids of an old database, and the
  calls Open, Connect and Migrate around them.

  The schema itself is changed by code outside the repository, gorm's \<open>AutoMigrate\<close> and the
  data definition statements of the database; the record \<open>schema_engine\<close> stands for it. It
  takes what the catalog reports to the error, if any, and to what it reports afterwards,
  and leaves the rows alone.
\<close>

section \<open>The state of a migration\<close>

record 'j store_state =
  st_data :: "'j db"
  st_report :: report
  st_versions :: "int list"
  st_triggers :: "string list"

record schema_engine =
  auto_migrate :: "string list \<Rightarrow> report \<Rightarrow> store_error option \<times> report"
  exec_ddl :: "string \<Rightarrow> report \<Rightarrow> store_error option \<times> report"
  has_column :: "report \<Rightarrow> string \<Rightarrow> string \<Rightarrow> bool"

definition AutoMigrate ::
  "schema_engine \<Rightarrow> string list \<Rightarrow> nat \<Rightarrow> 'j store_state \<Rightarrow> (store_error + nat) \<times> 'j store_state" where
  "AutoMigrate eng tables n st = (case auto_migrate eng tables (st_report st) of
     (None, rp) \<Rightarrow> (Inr n, st\<lparr>st_report := rp\<rparr>)
   | (Some e, rp) \<Rightarrow> (Inl e, st\<lparr>st_report := rp\<rparr>))"

definition ExecDDL ::
  "schema_engine \<Rightarrow> string \<Rightarrow> nat \<Rightarrow> 'j store_state \<Rightarrow> (store_error + nat) \<times> 'j store_state" where
  "ExecDDL eng sql n st = (case exec_ddl eng sql (st_report st) of
     (None, rp) \<Rightarrow> (Inr n, st\<lparr>st_report := rp\<rparr>)
   | (Some e, rp) \<Rightarrow> (Inl e, st\<lparr>st_report := rp\<rparr>))"

text \<open>A step on the rows, as a step on the whole state.\<close>

definition on_data ::
  "(nat \<Rightarrow> 'j db \<Rightarrow> (store_error + nat) \<times> 'j db) \<Rightarrow> nat \<Rightarrow> 'j store_state \<Rightarrow> (store_error + nat) \<times> 'j store_state" where
  "on_data f n st = (case f n (st_data st) of (r, s) \<Rightarrow> (r, st\<lparr>st_data := s\<rparr>))"

section \<open>Triggers\<close>

datatype trigger_statement = DropIfExists string | CreateTrigger string | CreateIfNotExists string

definition trigger_statements :: "trigger_statement list" where
  "trigger_statements =
    [DropIfExists ''gopact_runlog_v2_metadata'', DropIfExists ''gopact_runlog_compacted_guard'',
     CreateTrigger ''gopact_runlog_compacted_guard'', CreateIfNotExists ''gopact_runlog_retired_guard'',
     CreateTrigger ''gopact_runlog_v2_metadata'', CreateIfNotExists ''gopact_workflow_run_kind_guard'',
     CreateIfNotExists ''gopact_workflow_run_state_guard'', CreateIfNotExists ''gopact_workflow_run_v2_registry'']"

definition exec_trigger :: "trigger_statement \<Rightarrow> string list \<Rightarrow> store_error + string list" where
  "exec_trigger x ts = (case x of
     DropIfExists t \<Rightarrow> Inr (removeAll t ts)
   | CreateTrigger t \<Rightarrow> if t \<in> set ts then Inl (ErrTrigger t) else Inr (ts @ [t])
   | CreateIfNotExists t \<Rightarrow> if t \<in> set ts then Inr ts else Inr (ts @ [t]))"

fun exec_triggers :: "trigger_statement list \<Rightarrow> string list \<Rightarrow> store_error + string list" where
  "exec_triggers [] ts = Inr ts"
| "exec_triggers (x # xs) ts = rbind (exec_trigger x ts) (exec_triggers xs)"

definition initializeSQLiteCompatibilityTriggers ::
  "dialect \<Rightarrow> (nat \<Rightarrow> env) \<Rightarrow> nat \<Rightarrow> 'j store_state \<Rightarrow> (store_error + nat) \<times> 'j store_state" where
  "initializeSQLiteCompatibilityTriggers d ens n st =
    (if d \<noteq> Sqlite then (Inr n, st)
     else transaction (ens n) (\<lambda>st. rbind (exec_triggers trigger_statements (st_triggers st)) (\<lambda>ts.
       Inr (n + 1, st\<lparr>st_triggers := ts\<rparr>))) st)"

section \<open>Versions\<close>

definition inspectSchemaVersion :: "env \<Rightarrow> 'j store_state \<Rightarrow> store_error + int" where
  "inspectSchemaVersion en st =
    (if \<not> rp_has_table (st_report st) migrationTable then Inr 0
     else rbind (query en (Inr (last_version (st_versions st)))) (\<lambda>v.
       Inr (case v of None \<Rightarrow> 0 | Some v \<Rightarrow> v)))"

definition recordSchemaVersion ::
  "(nat \<Rightarrow> env) \<Rightarrow> int \<Rightarrow> nat \<Rightarrow> 'j store_state \<Rightarrow> (store_error + nat) \<times> 'j store_state" where
  "recordSchemaVersion ens v n st =
    transaction (ens n) (\<lambda>st. Inr (n + 1, st\<lparr>st_versions := ins_ignore (\<lambda>v. v) v (st_versions st)\<rparr>)) st"

definition migrateV1Schema ::
  "schema_engine \<Rightarrow> dialect \<Rightarrow> nat \<Rightarrow> 'j store_state \<Rightarrow> (store_error + nat) \<times> 'j store_state" where
  "migrateV1Schema eng d n st =
    (if d \<noteq> Sqlite \<or> \<not> rp_has_table (st_report st) eventTable
     then AutoMigrate eng [checkpointTable, eventTable, runTable] n st
     else and_then (AutoMigrate eng [checkpointTable, runTable] n st) (\<lambda>n st.
       and_then (if \<not> has_column eng (st_report st) eventTable ''session_id''
           then ExecDDL eng (''ALTER TABLE gopact_runlog ADD COLUMN session_id TEXT NOT NULL DEFAULT '' @ [CHR 0x27, CHR 0x27]) n st
           else (Inr n, st)) (\<lambda>n st.
       and_then (ExecDDL eng ''CREATE UNIQUE INDEX IF NOT EXISTS gopact_runlog_run_sequence ON gopact_runlog (run_id, sequence)'' n st)
         (ExecDDL eng ''CREATE INDEX IF NOT EXISTS gopact_runlog_session_ordinal ON gopact_runlog (session_id, ordinal)''))))"

section \<open>The ids of an old database\<close>

text \<open>
  The query for a bad id, and the scan of the ids that it does not see through. On MySQL the
  columns have a collation that pads with spaces, so the empty string equals a space.
\<close>

definition ends_with_space :: "dialect \<Rightarrow> string \<Rightarrow> bool" where
  "ends_with_space d v \<longleftrightarrow> has_suffix v '' '' \<or> (d = Mysql \<and> v = '''')"

definition bad_legacy_id :: "dialect \<Rightarrow> bool \<Rightarrow> string \<Rightarrow> bool" where
  "bad_legacy_id d allow_empty v \<longleftrightarrow> int (length v) > maxIndexedIDBytes \<or> ends_with_space d v \<or>
    (\<not> allow_empty \<and> v = '''')"

definition incompatible :: "string \<Rightarrow> store_error" where
  "incompatible m = ErrOther (''dbstore: incompatible legacy data: '' @ m)"

definition validateLegacyIDRow :: "string \<Rightarrow> store_error + unit" where
  "validateLegacyIDRow v =
    (if v \<noteq> '''' \<and> (\<not> utf8_valid v \<or> contains_byte v (CHR 0x00))
     then Inl (incompatible ''invalid UTF-8 or NUL'') else Inr ())"

record legacy_column =
  lc_table :: string
  lc_column :: string
  lc_values :: "string list"
  lc_allow_empty :: bool

definition legacy_columns :: "'j db \<Rightarrow> legacy_column list" where
  "legacy_columns s =
    [\<lparr>lc_table = checkpointTable, lc_column = ''run_id'', lc_values = map ck_run_id (checkpoints s), lc_allow_empty = False\<rparr>,
     \<lparr>lc_table = eventTable, lc_column = ''run_id'', lc_values = map rl_run_id (events s), lc_allow_empty = False\<rparr>,
     \<lparr>lc_table = eventTable, lc_column = ''session_id'', lc_values = map rl_session_id (events s), lc_allow_empty = True\<rparr>,
     \<lparr>lc_table = runTable, lc_column = ''run_id'', lc_values = map rn_run_id (runs s), lc_allow_empty = False\<rparr>,
     \<lparr>lc_table = runTable, lc_column = ''session_id'', lc_values = map rn_session_id (runs s), lc_allow_empty = False\<rparr>,
     \<lparr>lc_table = registryTable, lc_column = ''run_id'', lc_values = map rg_run_id (registry s), lc_allow_empty = False\<rparr>]"

definition validate_legacy_column :: "dialect \<Rightarrow> schema_engine \<Rightarrow> report \<Rightarrow> env \<Rightarrow> legacy_column \<Rightarrow> store_error + unit" where
  "validate_legacy_column d eng rp en c =
    (if \<not> rp_has_table rp (lc_table c) \<or> \<not> has_column eng rp (lc_table c) (lc_column c) then Inr ()
     else rbind (query en (Inr (has_row (bad_legacy_id d (lc_allow_empty c)) (lc_values c)))) (\<lambda>found.
       if found then Inl (incompatible ''an empty, overlong, or trailing-space ID'')
       else first_error validateLegacyIDRow (lc_values c)))"

text \<open>What the record of a checkpoint or event says of itself, as far as it is read here.\<close>

record 'j legacy_reader =
  lg_utf8 :: "'j \<Rightarrow> bool"
  lg_identity :: "'j \<Rightarrow> (string \<times> string) option"

definition validateLegacyJSONID :: "string \<Rightarrow> bool \<Rightarrow> store_error + unit" where
  "validateLegacyJSONID v allow_empty =
    (if v = '''' \<and> allow_empty then Inr ()
     else if v = '''' \<or> int (length v) > maxIndexedIDBytes \<or> has_suffix v '' '' \<or> \<not> utf8_valid v \<or>
       contains_byte v (CHR 0x00)
     then Inl (incompatible ''the shared ID contract'') else Inr ())"

definition validate_legacy_json :: "'j legacy_reader \<Rightarrow> bool \<Rightarrow> 'j \<Rightarrow> store_error + unit" where
  "validate_legacy_json lg has_payload j =
    (if \<not> lg_utf8 lg j then Inl (incompatible ''non-UTF-8 record JSON'')
     else case lg_identity lg j of
       None \<Rightarrow> Inl (incompatible ''invalid record JSON'')
     | Some (rid, sid) \<Rightarrow> rbind (validateLegacyJSONID rid False) (\<lambda>_. validateLegacyJSONID sid (\<not> has_payload)))"

definition validateLegacyJSONTable ::
  "schema_engine \<Rightarrow> report \<Rightarrow> env \<Rightarrow> 'j legacy_reader \<Rightarrow> string \<Rightarrow> (int \<times> 'j) list \<Rightarrow> int \<Rightarrow> bool \<Rightarrow> store_error + unit" where
  "validateLegacyJSONTable eng rp en lg table rows limit has_payload =
    (if \<not> rp_has_table rp table \<or> \<not> has_column eng rp table ''record_json'' then Inr ()
     else rbind (query en (Inr (has_row (\<lambda>r. fst r > limit) rows))) (\<lambda>oversized.
       if oversized then Inl (incompatible ''an oversized record'')
       else first_error (\<lambda>r. validate_legacy_json lg has_payload (snd r)) rows))"

definition checkpoint_json :: "'j codec \<Rightarrow> schema_engine \<Rightarrow> report \<Rightarrow> 'j db \<Rightarrow> (int \<times> 'j) list" where
  "checkpoint_json cd eng rp s = map (\<lambda>c. (json_len cd (ck_record_json c) +
      (if has_column eng rp checkpointTable ''payload'' then int (length (ck_payload c)) else 0), ck_record_json c))
    (select_rows (\<lambda>_. True) ckpt_key (checkpoints s))"

definition event_json :: "'j codec \<Rightarrow> 'j db \<Rightarrow> (int \<times> 'j) list" where
  "event_json cd s = map (\<lambda>e. (json_len cd (rl_record_json e), rl_record_json e))
    (select_rows (\<lambda>_. True) rl_ordinal (events s))"

definition validateLegacyIndexedIDs ::
  "dialect \<Rightarrow> schema_engine \<Rightarrow> 'j codec \<Rightarrow> 'j legacy_reader \<Rightarrow> env \<Rightarrow> 'j store_state \<Rightarrow> store_error + unit" where
  "validateLegacyIndexedIDs d eng cd lg en st =
    rbind (first_error (validate_legacy_column d eng (st_report st) en) (legacy_columns (st_data st))) (\<lambda>_.
    rbind (validateLegacyJSONTable eng (st_report st) en lg checkpointTable
      (checkpoint_json cd eng (st_report st) (st_data st)) maxCheckpointBytes True) (\<lambda>_.
    validateLegacyJSONTable eng (st_report st) en lg eventTable (event_json cd (st_data st)) maxRunLogBytes False))"

section \<open>The steps between the versions\<close>

definition then_verify ::
  "dialect \<Rightarrow> (nat \<Rightarrow> env) \<Rightarrow> nat \<Rightarrow> 'j store_state \<Rightarrow> (store_error + nat) \<times> 'j store_state" where
  "then_verify d ens n st = (verifySchema d ens n (st_report st) (st_versions st) (st_data st), st)"

definition repairCurrentSchema ::
  "schema_engine \<Rightarrow> dialect \<Rightarrow> (nat \<Rightarrow> env) \<Rightarrow> nat \<Rightarrow> 'j store_state \<Rightarrow> (store_error + nat) \<times> 'j store_state" where
  "repairCurrentSchema eng d ens n st =
    and_then (AutoMigrate eng [eventRetentionTable, registryTable] n st) (\<lambda>n st.
    and_then (initializeSQLiteCompatibilityTriggers d ens n st) (\<lambda>n st.
    and_then (on_data (reconcileV2Metadata ens) n st) (then_verify d ens)))"

definition initializeCurrentSchema ::
  "schema_engine \<Rightarrow> dialect \<Rightarrow> (nat \<Rightarrow> env) \<Rightarrow> bool \<Rightarrow> nat \<Rightarrow> 'j store_state \<Rightarrow> (store_error + nat) \<times> 'j store_state" where
  "initializeCurrentSchema eng d ens repair n st =
    (if repair then repairCurrentSchema eng d ens n st
     else and_then (initializeSQLiteCompatibilityTriggers d ens n st) (then_verify d ens))"

definition to_version_1 ::
  "schema_engine \<Rightarrow> dialect \<Rightarrow> 'j codec \<Rightarrow> (nat \<Rightarrow> env) \<Rightarrow> nat \<Rightarrow> 'j store_state \<Rightarrow> (store_error + nat) \<times> 'j store_state" where
  "to_version_1 eng d cd ens n st =
    and_then (migrateV1Schema eng d n st) (\<lambda>n st.
    and_then (on_data (\<lambda>n. backfillRunHeads ens n cd '''') n st) (recordSchemaVersion ens 1))"

definition to_version_2 ::
  "schema_engine \<Rightarrow> dialect \<Rightarrow> (nat \<Rightarrow> env) \<Rightarrow> nat \<Rightarrow> 'j store_state \<Rightarrow> (store_error + nat) \<times> 'j store_state" where
  "to_version_2 eng d ens n st =
    and_then (AutoMigrate eng [eventRetentionTable, registryTable] n st) (\<lambda>n st.
    and_then (initializeSQLiteCompatibilityTriggers d ens n st) (\<lambda>n st.
    and_then (on_data (reconcileV2Metadata ens) n st) (recordSchemaVersion ens schemaVersion)))"

definition initializeWithRepair ::
  "schema_engine \<Rightarrow> dialect \<Rightarrow> 'j codec \<Rightarrow> 'j legacy_reader \<Rightarrow> (nat \<Rightarrow> env) \<Rightarrow> bool \<Rightarrow> 'j store_state \<Rightarrow>
   (store_error + nat) \<times> 'j store_state" where
  "initializeWithRepair eng d cd lg ens repair st =
    (case inspectSchemaVersion (ens 0) st of
       Inl e \<Rightarrow> (Inl e, st)
     | Inr version \<Rightarrow>
       if version > schemaVersion then (Inl (schema_error ''schema version is newer than supported''), st)
       else if version = schemaVersion then initializeCurrentSchema eng d ens repair 1 st
       else case validateLegacyIndexedIDs d eng cd lg (ens 1) st of
         Inl e \<Rightarrow> (Inl e, st)
       | Inr _ \<Rightarrow>
         and_then (AutoMigrate eng [migrationTable] 2 st) (\<lambda>n st.
         and_then (if version < 1 then to_version_1 eng d cd ens n st else (Inr n, st)) (\<lambda>n st.
         and_then (to_version_2 eng d ens n st) (then_verify d ens))))"

definition initialize ::
  "schema_engine \<Rightarrow> dialect \<Rightarrow> 'j codec \<Rightarrow> 'j legacy_reader \<Rightarrow> (nat \<Rightarrow> env) \<Rightarrow> 'j store_state \<Rightarrow>
   (store_error + nat) \<times> 'j store_state" where
  "initialize eng d cd lg ens st = initializeWithRepair eng d cd lg ens True st"

section \<open>The migration lock\<close>

definition migrationLockWait :: duration where "migrationLockWait = 30 * 1000000000"
definition migrationLockPoll :: duration where "migrationLockPoll = 100 * 1000000"

text \<open>
  The answers to the statements of the lock: \<open>GET_LOCK\<close>, or one \<open>pg_try_advisory_lock\<close> per
  poll with the clock after it and the context while waiting for the next one; and the answer
  to the release.
\<close>

record lock_env =
  lk_get_lock :: "store_error + int option"
  lk_try :: "nat \<Rightarrow> store_error + bool"
  lk_start :: instant
  lk_clock :: "nat \<Rightarrow> instant"
  lk_wait :: "nat \<Rightarrow> ctx_error option"
  lk_release_mysql :: "store_error + int option"
  lk_release_postgres :: "store_error + bool"

definition acquireMySQLMigrationLock :: "lock_env \<Rightarrow> store_error + bool" where
  "acquireMySQLMigrationLock lk = rbind (lk_get_lock lk) (\<lambda>acquired. Inr (acquired = Some 1))"

definition waitForMigrationLockRetry :: "lock_env \<Rightarrow> nat \<Rightarrow> store_error + unit" where
  "waitForMigrationLockRetry lk i = (case lk_wait lk i of Some c \<Rightarrow> Inl (ErrContext c) | None \<Rightarrow> Inr ())"

partial_function (option) poll_lock :: "lock_env \<Rightarrow> instant \<Rightarrow> nat \<Rightarrow> (store_error + bool) option" where
  "poll_lock lk deadline i =
    (case lk_try lk i of
       Inl e \<Rightarrow> Some (Inl e)
     | Inr acquired \<Rightarrow>
       if acquired then Some (Inr True)
       else if lk_clock lk i > deadline then Some (Inr False)
       else (case waitForMigrationLockRetry lk i of
           Inl e \<Rightarrow> Some (Inl e)
         | Inr _ \<Rightarrow> poll_lock lk deadline (i + 1)))"

definition acquirePostgreSQLMigrationLock :: "lock_env \<Rightarrow> (store_error + bool) option" where
  "acquirePostgreSQLMigrationLock lk = poll_lock lk (lk_start lk + migrationLockWait) 0"

definition acquireMigrationLock :: "dialect \<Rightarrow> lock_env \<Rightarrow> (store_error + bool) option" where
  "acquireMigrationLock d lk = (case d of
     Mysql \<Rightarrow> Some (acquireMySQLMigrationLock lk)
   | Postgres \<Rightarrow> acquirePostgreSQLMigrationLock lk
   | Sqlite \<Rightarrow> Some (Inl (schema_error ''migration lock is unsupported'')))"

definition releaseMySQLMigrationLock :: "lock_env \<Rightarrow> store_error + unit" where
  "releaseMySQLMigrationLock lk = rbind (lk_release_mysql lk) (\<lambda>released.
    if released = Some 1 then Inr () else Inl (schema_error ''MySQL migration lock was not held while releasing it''))"

definition releasePostgreSQLMigrationLock :: "lock_env \<Rightarrow> store_error + unit" where
  "releasePostgreSQLMigrationLock lk = rbind (lk_release_postgres lk) (\<lambda>released.
    if released then Inr () else Inl (schema_error ''PostgreSQL migration lock was not held while releasing it''))"

definition releaseMigrationLock :: "dialect \<Rightarrow> lock_env \<Rightarrow> store_error + unit" where
  "releaseMigrationLock d lk = (case d of
     Mysql \<Rightarrow> releaseMySQLMigrationLock lk
   | Postgres \<Rightarrow> releasePostgreSQLMigrationLock lk
   | Sqlite \<Rightarrow> Inr ())"

text \<open>The errors of a result, and of two results joined.\<close>

definition errors_of :: "store_error + 'a \<Rightarrow> store_error list" where
  "errors_of r = (case r of Inl e \<Rightarrow> [e] | Inr _ \<Rightarrow> [])"

definition withMigrationLock ::
  "dialect \<Rightarrow> lock_env \<Rightarrow> ('s \<Rightarrow> (store_error + 'a) \<times> 's) \<Rightarrow> 's \<Rightarrow> (store_error list \<times> 's) option" where
  "withMigrationLock d lk migrate s =
    (case acquireMigrationLock d lk of
       None \<Rightarrow> None
     | Some (Inl e) \<Rightarrow> Some ([e], s)
     | Some (Inr locked) \<Rightarrow>
       if \<not> locked then Some ([schema_error ''timed out waiting for the schema migration lock''], s)
       else (case migrate s of (r, s') \<Rightarrow>
         Some (errors_of r @ errors_of (releaseMigrationLock d lk), s')))"

section \<open>Connections\<close>

text \<open>
  What is left of a connection: none was made, it is open with a limit of its pool (if one
  was set), or it is closed.
\<close>

datatype connection = NoConnection | Connected "int option" | Closed

record open_env =
  oe_ctx :: "ctx_error option"
  oe_dialector :: "string option"
  oe_gorm :: "store_error option"
  oe_access :: "store_error option"
  oe_ping :: "store_error option"
  oe_busy_timeout :: "store_error option"

definition dialect_of_name :: "string \<Rightarrow> dialect option" where
  "dialect_of_name name =
    (if name = ''sqlite'' then Some Sqlite else if name = ''mysql'' then Some Mysql
     else if name = ''postgres'' then Some Postgres else None)"

definition openConnection :: "open_env \<Rightarrow> (store_error + dialect) \<times> connection" where
  "openConnection oe =
    (case oe_ctx oe of Some c \<Rightarrow> (Inl (ErrContext c), NoConnection) | None \<Rightarrow>
     case oe_dialector oe of None \<Rightarrow> (Inl (schema_error ''dialector is required''), NoConnection) | Some name \<Rightarrow>
     case dialect_of_name name of None \<Rightarrow> (Inl (schema_error ''unsupported dialect''), NoConnection) | Some d \<Rightarrow>
     case oe_gorm oe of Some e \<Rightarrow> (Inl e, NoConnection) | None \<Rightarrow>
     case oe_access oe of Some e \<Rightarrow> (Inl e, NoConnection) | None \<Rightarrow>
     case oe_ping oe of Some e \<Rightarrow> (Inl e, Closed) | None \<Rightarrow>
     if d = Sqlite then (case oe_busy_timeout oe of Some e \<Rightarrow> (Inl e, Closed) | None \<Rightarrow> (Inr d, Connected None))
     else (Inr d, Connected None))"

definition configurePool :: "dialect \<Rightarrow> connection \<Rightarrow> connection" where
  "configurePool d c = (if d = Sqlite then Connected (Some 1) else c)"

definition finish_open :: "dialect \<Rightarrow> connection \<Rightarrow> (store_error + nat) \<times> 'j store_state \<Rightarrow>
    (store_error + dialect) \<times> connection \<times> 'j store_state" where
  "finish_open d c r = (case r of
     (Inl e, st) \<Rightarrow> (Inl e, Closed, st)
   | (Inr _, st) \<Rightarrow> (Inr d, configurePool d c, st))"

definition OpenContext ::
  "schema_engine \<Rightarrow> 'j codec \<Rightarrow> 'j legacy_reader \<Rightarrow> open_env \<Rightarrow> (nat \<Rightarrow> env) \<Rightarrow> 'j store_state \<Rightarrow>
   (store_error + dialect) \<times> connection \<times> 'j store_state" where
  "OpenContext eng cd lg oe ens st =
    (if oe_dialector oe \<noteq> None \<and> oe_dialector oe \<noteq> Some ''sqlite''
     then (Inl (schema_error ''server databases require Migrate followed by Connect''), NoConnection, st)
     else case openConnection oe of
       (Inl e, c) \<Rightarrow> (Inl e, c, st)
     | (Inr d, c) \<Rightarrow> finish_open d c (initialize eng d cd lg ens st))"

definition ConnectContext ::
  "open_env \<Rightarrow> (nat \<Rightarrow> env) \<Rightarrow> 'j store_state \<Rightarrow> (store_error + dialect) \<times> connection \<times> 'j store_state" where
  "ConnectContext oe ens st =
    (case openConnection oe of
       (Inl e, c) \<Rightarrow> (Inl e, c, st)
     | (Inr d, c) \<Rightarrow> finish_open d c (then_verify d ens 0 st))"

definition MigrateContext ::
  "schema_engine \<Rightarrow> 'j codec \<Rightarrow> 'j legacy_reader \<Rightarrow> open_env \<Rightarrow> lock_env \<Rightarrow> (nat \<Rightarrow> env) \<Rightarrow> 'j store_state \<Rightarrow>
   (store_error list \<times> connection \<times> 'j store_state) option" where
  "MigrateContext eng cd lg oe lk ens st =
    (case openConnection oe of
       (Inl e, c) \<Rightarrow> Some ([e], c, st)
     | (Inr d, c) \<Rightarrow>
       if d = Sqlite then (case initializeWithRepair eng d cd lg ens True st of
           (r, st') \<Rightarrow> Some (errors_of r, Closed, st'))
       else map_option (\<lambda>(es, st'). (es, Closed, st'))
         (withMigrationLock d lk (initializeWithRepair eng d cd lg ens True) st))"

end
