(* ===== verification/Migration_Examples.thy ===== *)
theory Migration_Examples
  imports Migration_Heads Opening Dbstore_Examples
begin

text \<open>
  The concrete databases of the witnesses: a SQLite database of version 0, with the
  checkpoints and events of a run that was saved once, and an engine that creates the tables
  it is asked for.
\<close>

definition ex_engine :: schema_engine where
  "ex_engine = \<lparr>
     auto_migrate = (\<lambda>ts rp. (None, rp\<lparr>rp_has_table := (\<lambda>t. rp_has_table rp t \<or> t \<in> set ts)\<rparr>)),
     exec_ddl = (\<lambda>sql rp. (None, rp)), has_column = (\<lambda>rp t c. True)\<rparr>"

definition ex_column :: "column_requirement \<Rightarrow> column_type" where
  "ex_column c = \<lparr>ct_name = rq_name c,
     ct_database_type = (case rq_kind c of schemaColumnString \<Rightarrow> ''TEXT'' | schemaColumnInteger \<Rightarrow> ''integer''
       | schemaColumnBytes \<Rightarrow> ''BLOB''),
     ct_length = None, ct_nullable = Some False, ct_auto_increment = None\<rparr>"

definition ex_requirement :: "string \<Rightarrow> schema_requirement" where
  "ex_requirement t = the (find (\<lambda>r. sr_table r = t) schema_requirements)"

definition ex_report :: "(string \<Rightarrow> bool) \<Rightarrow> report" where
  "ex_report tables = \<lparr>rp_has_table = tables,
     rp_columns = (\<lambda>t. Inr (map ex_column (sr_columns (ex_requirement t)))),
     rp_primary_key = (\<lambda>t. Inr (sr_primary_key (ex_requirement t))),
     rp_ddl = (\<lambda>t. Inr (if t = eventTable then ''create table (ordinal integer primary key autoincrement)'' else '''')),
     rp_has_index = (\<lambda>t ix. True),
     rp_identity_index = Inr (Some \<lparr>ix_unique = True, ix_valid = True, ix_columns = [''run_id'', ''sequence'']\<rparr>),
     rp_collation = (\<lambda>t c. Inr None), rp_tables = Inr []\<rparr>"

definition ex_old_data :: "(checkpoint + event) db" where
  "ex_old_data = ex_saved\<lparr>runs := [], registry := [], retention := []\<rparr>"

definition ex_old :: "(checkpoint + event) store_state" where
  "ex_old = \<lparr>st_data = ex_old_data, st_report = ex_report (\<lambda>t. t = checkpointTable \<or> t = eventTable),
     st_versions = [], st_triggers = []\<rparr>"

definition ex_reader :: "(checkpoint + event) legacy_reader" where
  "ex_reader = \<lparr>lg_utf8 = (\<lambda>_. True), lg_identity = (\<lambda>j. case j of Inl r \<Rightarrow> Some (cp_run_id r, cp_session_id r) | Inr e \<Rightarrow> Some (ev_run_id e, ev_session_id e))\<rparr>"

definition ex_current :: "(checkpoint + event) store_state" where
  "ex_current = \<lparr>st_data = ex_saved, st_report = ex_report (\<lambda>_. True), st_versions = [1, 2], st_triggers = []\<rparr>"

lemma ex_schema: "verifySchema Sqlite (\<lambda>_. ex_env Sqlite 20) 0 (st_report ex_current) (st_versions ex_current) (st_data ex_current) = Inr 5"
  by code_simp

lemma ex_migrated: "fst (initializeWithRepair ex_engine Sqlite ex_codec ex_reader (\<lambda>_. ex_env Sqlite 20) True ex_old) = Inr 23"
  by code_simp

end
