(* ===== verification/Migration_Claims.thy ===== *)
theory Migration_Claims
  imports Migration_Examples
begin

text \<open>
  The properties of opening and migration: what a migration makes of an old database, what
  a connection accepts, the wait for the lock, and the connections that are closed.
\<close>

section \<open>The states of a migration\<close>

text \<open>
  The rows a migration may meet: from version 1 on there are heads and possibly gaps in the
  metadata, below that there may be no heads.
\<close>

definition schema_version :: "'j store_state \<Rightarrow> int" where
  "schema_version st = (case last_version (st_versions st) of None \<Rightarrow> 0 | Some v \<Rightarrow> v)"

definition versions_readable :: "'j store_state \<Rightarrow> bool" where
  "versions_readable st \<longleftrightarrow> st_versions st = [] \<or> rp_has_table (st_report st) migrationTable"

definition migratable :: "'j codec \<Rightarrow> 'j store_state \<Rightarrow> bool" where
  "migratable cd st \<longleftrightarrow> versions_readable st \<and>
    (if schema_version st < 1 then unheaded_ok cd (st_data st) else legacy_ok cd (st_data st))"

definition same_past :: "'j db \<Rightarrow> 'j db \<Rightarrow> bool" where
  "same_past s s' \<longleftrightarrow> checkpoints s' = checkpoints s \<and> events s' = events s"

text \<open>
  What is relied on in \<open>AutoMigrate\<close> and in the data definition statements: tables are
  created, and none is dropped.
\<close>

definition keeps_tables :: "schema_engine \<Rightarrow> bool" where
  "keeps_tables eng \<longleftrightarrow>
    (\<forall>ts rp t. rp_has_table rp t \<longrightarrow> rp_has_table (snd (auto_migrate eng ts rp)) t) \<and>
    (\<forall>ts rp t. fst (auto_migrate eng ts rp) = None \<longrightarrow> t \<in> set ts \<longrightarrow> rp_has_table (snd (auto_migrate eng ts rp)) t) \<and>
    (\<forall>sql rp t. rp_has_table rp t \<longrightarrow> rp_has_table (snd (exec_ddl eng sql rp)) t)"

definition table_known :: "'j store_state \<Rightarrow> bool" where
  "table_known st \<longleftrightarrow> rp_has_table (st_report st) migrationTable"

text \<open>Steps on the schema leave rows and versions alone.\<close>

definition schema_step :: "('j store_state \<Rightarrow> (store_error + nat) \<times> 'j store_state) \<Rightarrow> bool" where
  "schema_step f \<longleftrightarrow> (\<forall>st. st_data (snd (f st)) = st_data st \<and> st_versions (snd (f st)) = st_versions st \<and>
    (table_known st \<longrightarrow> table_known (snd (f st))))"

lemma AutoMigrate_step: "keeps_tables eng \<Longrightarrow> schema_step (AutoMigrate eng ts n)"
  by (auto simp: schema_step_def AutoMigrate_def table_known_def keeps_tables_def split: prod.split option.split)
    (metis snd_conv)+

lemma ExecDDL_step: "keeps_tables eng \<Longrightarrow> schema_step (ExecDDL eng sql n)"
  by (auto simp: schema_step_def ExecDDL_def table_known_def keeps_tables_def split: prod.split option.split)
    (metis snd_conv)+

lemma triggers_step: "schema_step (initializeSQLiteCompatibilityTriggers d ens n)"
  by (auto simp: schema_step_def initializeSQLiteCompatibilityTriggers_def transaction_def rbind_def table_known_def
      split: option.split sum.split)

lemma and_then_step:
  "schema_step f \<Longrightarrow> (\<And>n. schema_step (g n)) \<Longrightarrow> schema_step (\<lambda>st. and_then (f st) g)"
  by (simp add: schema_step_def and_then_def split: prod.split sum.split) (metis snd_conv)

lemma Inr_step: "schema_step (\<lambda>st. (Inr n, st))"
  by (simp add: schema_step_def)

lemma if_step: "schema_step f \<Longrightarrow> schema_step g \<Longrightarrow> schema_step (\<lambda>st. if P st then f st else g st)"
  by (simp add: schema_step_def)

lemma migrateV1Schema_step: "keeps_tables eng \<Longrightarrow> schema_step (migrateV1Schema eng d n)"
  unfolding migrateV1Schema_def
  by (intro if_step and_then_step AutoMigrate_step ExecDDL_step Inr_step)

lemma promises_step:
  assumes "schema_step f" and "I st" and
    "\<And>st'. st_data st' = st_data st \<Longrightarrow> st_versions st' = st_versions st \<Longrightarrow> (table_known st \<longrightarrow> table_known st') \<Longrightarrow> I st'"
  shows "I (snd (f st))"
  using assms by (simp add: schema_step_def)

text \<open>A step that keeps an invariant and, when it does not fail, gives a fact.\<close>

definition step_ok :: "('s \<Rightarrow> bool) \<Rightarrow> ('s \<Rightarrow> bool) \<Rightarrow> (store_error + 'a) \<times> 's \<Rightarrow> bool" where
  "step_ok I Q r \<longleftrightarrow> I (snd r) \<and> ((\<exists>m. fst r = Inr m) \<longrightarrow> Q (snd r))"

lemma step_ok_and_then:
  "step_ok I Q r \<Longrightarrow> (\<And>n st. I st \<Longrightarrow> Q st \<Longrightarrow> step_ok I Q' (f n st)) \<Longrightarrow> step_ok I Q' (and_then r f)"
  by (auto simp: step_ok_def and_then_def split: prod.split sum.split)

lemma step_ok_schema:
  assumes "schema_step f" and "I st"
    and "\<And>st'. st_data st' = st_data st \<Longrightarrow> st_versions st' = st_versions st \<Longrightarrow> (table_known st \<longrightarrow> table_known st') \<Longrightarrow> I st'"
  shows "step_ok I I (f st)"
  using assms by (simp add: step_ok_def schema_step_def)

lemma last_version_ins:
  assumes "\<forall>x \<in> set vs. x \<le> v"
  shows "last_version (ins_ignore (\<lambda>v. v) v vs) = Some v"
proof -
  let ?vs = "ins_ignore (\<lambda>v. v) v vs"
  have v: "v \<in> set ?vs" "\<forall>x \<in> set ?vs. x \<le> v" using assms by (auto simp: ins_ignore_def)
  then obtain y where y: "last_version ?vs = Some y"
    by (cases "last_version ?vs") (auto simp: last_version_def first_select_rows_None)
  with first_select_rows [OF y [unfolded last_version_def]] v show ?thesis by force
qed

lemma last_version_max:
  "last_version vs = Some v \<Longrightarrow> v \<in> set vs \<and> (\<forall>x \<in> set vs. x \<le> v)"
  using first_select_rows [of "\<lambda>_. True" "\<lambda>v. - v" vs v] by (simp add: last_version_def)

lemma versions_below: "schema_version st < v \<Longrightarrow> 0 < v \<Longrightarrow> \<forall>x \<in> set (st_versions st). x < v"
  by (cases "last_version (st_versions st)")
    (auto simp: schema_version_def first_select_rows_None last_version_def dest!: last_version_max [unfolded last_version_def])

section \<open>From version 1 on\<close>

definition upgrading :: "'j codec \<Rightarrow> 'j db \<Rightarrow> 'j store_state \<Rightarrow> bool" where
  "upgrading cd s0 st \<longleftrightarrow> grown cd s0 (st_data st) \<and> 1 \<le> schema_version st \<and> schema_version st \<le> schemaVersion \<and>
    table_known st"

lemma upgrading_schema:
  assumes "schema_step f" and "upgrading cd s0 st"
  shows "step_ok (upgrading cd s0) (upgrading cd s0) (f st)"
  using assms by (intro step_ok_schema) (auto simp: upgrading_def schema_version_def)

lemma reconcile_upgrading:
  assumes u: "upgrading cd s0 st"
  shows "step_ok (upgrading cd s0) (\<lambda>st. store_inv cd (st_data st)) (on_data (reconcileV2Metadata ens) n st)"
proof -
  from u have "grown cd s0 (st_data st)" by (simp add: upgrading_def)
  from reconcileV2Metadata_spec [OF this, of ens n] u show ?thesis
    by (auto simp: step_ok_def on_data_def promises_def upgrading_def schema_version_def table_known_def split: prod.split)
qed

lemma then_verify_upgrading:
  assumes "upgrading cd s0 st" and "store_inv cd (st_data st)"
  shows "step_ok (upgrading cd s0) (\<lambda>st. store_inv cd (st_data st) \<and> schema_version st = schemaVersion) (then_verify d ens n st)"
  using assms by (auto simp: step_ok_def then_verify_def schema_version_def dest: verifySchemaD)

lemma record_upgrading:
  assumes u: "upgrading cd s0 st" and i: "store_inv cd (st_data st)"
  shows "step_ok (upgrading cd s0) (\<lambda>st. store_inv cd (st_data st)) (recordSchemaVersion ens schemaVersion n st)"
proof -
  have "\<forall>x \<in> set (st_versions st). x \<le> schemaVersion"
    using u versions_below [of st "schemaVersion + 1"] by (auto simp: upgrading_def schemaVersion_def)
  note v = last_version_ins [OF this]
  show ?thesis
  proof (cases "en_fault (ens n)")
    case None
    with v assms show ?thesis
      by (auto simp: step_ok_def recordSchemaVersion_def transaction_def upgrading_def schema_version_def
          table_known_def schemaVersion_def)
  next
    case (Some f)
    with assms show ?thesis by (simp add: step_ok_def recordSchemaVersion_def transaction_def)
  qed
qed

lemma repair_upgrading:
  assumes eng: "keeps_tables eng" and u: "upgrading cd s0 st"
  shows "step_ok (upgrading cd s0) (\<lambda>st. store_inv cd (st_data st) \<and> schema_version st = schemaVersion)
    (repairCurrentSchema eng d ens n st)"
  unfolding repairCurrentSchema_def
  by (rule step_ok_and_then [OF upgrading_schema [OF AutoMigrate_step [OF eng] u]],
      rule step_ok_and_then [OF upgrading_schema [OF triggers_step]], assumption,
      rule step_ok_and_then [OF reconcile_upgrading], assumption, rule then_verify_upgrading)

lemma to_version_2_upgrading:
  assumes eng: "keeps_tables eng" and u: "upgrading cd s0 st"
  shows "step_ok (upgrading cd s0) (\<lambda>st. store_inv cd (st_data st)) (to_version_2 eng d ens n st)"
  unfolding to_version_2_def
  by (rule step_ok_and_then [OF upgrading_schema [OF AutoMigrate_step [OF eng] u]],
      rule step_ok_and_then [OF upgrading_schema [OF triggers_step]], assumption,
      rule step_ok_and_then [OF reconcile_upgrading], assumption, rule record_upgrading)

section \<open>Below version 1\<close>

definition starting :: "'j codec \<Rightarrow> 'j db \<Rightarrow> 'j store_state \<Rightarrow> bool" where
  "starting cd s0 st \<longleftrightarrow> unheaded_ok cd (st_data st) \<and> same_past s0 (st_data st) \<and> schema_version st < 1 \<and> versions_readable st"

definition started :: "'j codec \<Rightarrow> 'j db \<Rightarrow> 'j store_state \<Rightarrow> bool" where
  "started cd s0 st \<longleftrightarrow> starting cd s0 st \<or>
    legacy_ok cd (st_data st) \<and> same_past s0 (st_data st) \<and> schema_version st = 1 \<and> table_known st"

lemma starting_schema:
  assumes f: "schema_step f" and s: "starting cd s0 st" and t: "table_known st"
  shows "starting cd s0 (snd (f st)) \<and> table_known (snd (f st))"
  using assms by (auto simp: starting_def schema_step_def schema_version_def versions_readable_def table_known_def)

lemma to_version_1_started:
  assumes eng: "keeps_tables eng" and s: "starting cd s0 st" and t: "table_known st"
  shows "step_ok (started cd s0) (\<lambda>st. legacy_ok cd (st_data st) \<and> same_past s0 (st_data st) \<and> schema_version st = 1 \<and> table_known st)
    (to_version_1 eng d cd ens n st)"
proof -
  let ?I = "\<lambda>st. starting cd s0 st \<and> table_known st"
  have heads: "step_ok ?I (\<lambda>st. legacy_ok cd (st_data st)) (on_data (\<lambda>n. backfillRunHeads ens n cd '''') n st)"
    if "?I st" for n st
  proof -
    obtain r s' where r: "backfillRunHeads ens n cd '''' (st_data st) = (r, s')" by fastforce
    from that have "unheaded_ok cd (st_data st)" by (simp add: starting_def)
    from backfillRunHeads_spec [OF this r] that r show ?thesis
      by (auto simp: step_ok_def on_data_def starting_def same_past_def schema_version_def versions_readable_def table_known_def)
  qed
  have rec: "step_ok (started cd s0)
      (\<lambda>st. legacy_ok cd (st_data st) \<and> same_past s0 (st_data st) \<and> schema_version st = 1 \<and> table_known st)
      (recordSchemaVersion ens 1 n st)" if st: "?I st" and l: "legacy_ok cd (st_data st)" for n st
  proof -
    from st versions_below [of st 1] have "\<forall>x \<in> set (st_versions st). x \<le> 1" by (auto simp: starting_def)
    from last_version_ins [OF this] st l show ?thesis
      by (auto simp: step_ok_def recordSchemaVersion_def transaction_def started_def starting_def schema_version_def
          table_known_def same_past_def split: option.split)
  qed
  let ?m = "migrateV1Schema eng d n st"
  from starting_schema [OF migrateV1Schema_step [OF eng] s t] have m: "?I (snd ?m)" .
  show ?thesis
  proof (cases ?m)
    case (Pair r st1)
    with m have st1: "?I st1" by simp
    show ?thesis
    proof (cases r)
      case (Inl e)
      with Pair st1 show ?thesis by (simp add: to_version_1_def and_then_def step_ok_def started_def)
    next
      case (Inr k)
      obtain r2 st2 where h: "on_data (\<lambda>n. backfillRunHeads ens n cd '''') k st1 = (r2, st2)" by fastforce
      with heads [OF st1, of k] have st2: "?I st2" "(\<exists>m. r2 = Inr m) \<longrightarrow> legacy_ok cd (st_data st2)" by (auto simp: step_ok_def)
      with h Pair Inr rec [OF st2(1)] show ?thesis
        by (cases r2) (auto simp: to_version_1_def and_then_def step_ok_def started_def)
    qed
  qed
qed

section \<open>Properties\<close>

lemma upgrading_migratable:
  "upgrading cd s0 st \<Longrightarrow> migratable cd st \<and> same_past s0 (st_data st) \<and> (store_inv cd s0 \<longrightarrow> st_data st = s0)"
  by (simp add: upgrading_def migratable_def versions_readable_def table_known_def grown_def same_past_def)

lemma started_migratable: "started cd s0 st \<Longrightarrow> migratable cd st \<and> same_past s0 (st_data st)"
  by (auto simp: started_def starting_def migratable_def versions_readable_def table_known_def)

lemma same_past_trans: "same_past a b \<Longrightarrow> same_past b c \<Longrightarrow> same_past a c"
  by (simp add: same_past_def)

lemma inspect_version:
  assumes "versions_readable st" and "inspectSchemaVersion en st = Inr v"
  shows "v = schema_version st"
  using assms by (auto simp: inspectSchemaVersion_def schema_version_def versions_readable_def last_version_def
      first_row_def select_rows_def rbind_Inr_iff query_def split: if_split_asm option.split_asm)

lemma upgrade_from_1:
  assumes eng: "keeps_tables eng" and u: "upgrading cd s0 st"
  shows "step_ok (upgrading cd s0) (\<lambda>st. store_inv cd (st_data st) \<and> schema_version st = schemaVersion)
    (and_then (to_version_2 eng d ens n st) (then_verify d ens))"
  by (rule step_ok_and_then [OF to_version_2_upgrading [OF eng u]], rule then_verify_upgrading)

lemma upgrade_spec:
  fixes d ens
  assumes eng: "keeps_tables eng" and m: "migratable cd st" and v: "schema_version st < schemaVersion"
  defines "x \<equiv> and_then (AutoMigrate eng [migrationTable] 2 st) (\<lambda>n st'.
      and_then (if schema_version st < 1 then to_version_1 eng d cd ens n st' else (Inr n, st')) (\<lambda>n st.
      and_then (to_version_2 eng d ens n st) (then_verify d ens)))"
  shows "migratable cd (snd x) \<and> same_past (st_data st) (st_data (snd x)) \<and>
    ((\<exists>n. fst x = Inr n) \<longrightarrow> store_inv cd (st_data (snd x)) \<and> schema_version (snd x) = schemaVersion) \<and>
    (1 \<le> schema_version st \<and> store_inv cd (st_data st) \<longrightarrow> st_data (snd x) = st_data st)"
proof -
  obtain r1 st1 where a: "AutoMigrate eng [migrationTable] 2 st = (r1, st1)" by fastforce
  have known1: "table_known st1" if "r1 = Inr n" for n
    using a that eng by (auto simp: AutoMigrate_def table_known_def keeps_tables_def split: prod.split_asm option.split_asm)
      (metis fst_conv list.set_intros(1) snd_conv)
  have a1: "st_data st1 = st_data st" "st_versions st1 = st_versions st" "table_known st \<Longrightarrow> table_known st1"
    using AutoMigrate_step [OF eng, of "[migrationTable]" 2, unfolded schema_step_def, rule_format, of st] a by auto
  have sv: "schema_version st1 = schema_version st" by (simp add: schema_version_def a1)
  show ?thesis
  proof (cases "schema_version st < 1")
    case True
    with m a1 sv have s1: "starting cd (st_data st) st1"
      by (auto simp: starting_def migratable_def same_past_def versions_readable_def table_known_def)
    show ?thesis
    proof (cases r1)
      case (Inl e)
      with a s1 True started_migratable [of cd "st_data st" st1] show ?thesis
        by (simp add: x_def and_then_def started_def)
    next
      case (Inr n)
      obtain r2 st2 where b: "to_version_1 eng d cd ens n st1 = (r2, st2)" by fastforce
      from to_version_1_started [OF eng s1 known1 [OF Inr], of d ens n] b
      have s2: "started cd (st_data st) st2" and ok: "\<And>k. r2 = Inr k \<Longrightarrow> legacy_ok cd (st_data st2) \<and>
          same_past (st_data st) (st_data st2) \<and> schema_version st2 = 1 \<and> table_known st2"
        by (auto simp: step_ok_def)
      show ?thesis
      proof (cases r2)
        case (Inl e)
        with a b Inr True started_migratable [OF s2] show ?thesis by (simp add: x_def and_then_def)
      next
        case (Inr k)
        have x: "x = and_then (to_version_2 eng d ens k st2) (then_verify d ens)"
          using a b \<open>r1 = Inr n\<close> Inr True by (simp add: x_def and_then_def [of "(Inr _, _)"])
        from ok [OF Inr] have "upgrading cd (st_data st2) st2" by (simp add: upgrading_def grown_refl schemaVersion_def)
        from upgrade_from_1 [OF eng this, of d ens k] upgrading_migratable [of cd "st_data st2" "snd x"] ok [OF Inr] True x
        show ?thesis by (auto simp: step_ok_def intro: same_past_trans)
      qed
    qed
  next
    case False
    with m have "st_versions st \<noteq> []" by (auto simp: schema_version_def last_version_def first_row_def select_rows_def)
    with m False v have u: "upgrading cd (st_data st) st"
      by (simp add: upgrading_def migratable_def grown_refl versions_readable_def table_known_def)
    have "step_ok (upgrading cd (st_data st)) (\<lambda>st. store_inv cd (st_data st) \<and> schema_version st = schemaVersion) x"
      unfolding x_def
    proof (rule step_ok_and_then [OF upgrading_schema [OF AutoMigrate_step [OF eng] u]])
      fix n st' assume u': "upgrading cd (st_data st) st'"
      show "step_ok (upgrading cd (st_data st)) (\<lambda>st. store_inv cd (st_data st) \<and> schema_version st = schemaVersion)
        (and_then (if schema_version st < 1 then to_version_1 eng d cd ens n st' else (Inr n, st'))
          (\<lambda>n st. and_then (to_version_2 eng d ens n st) (then_verify d ens)))"
        using upgrade_from_1 [OF eng u', of d ens n] False by (simp add: and_then_def [of "(Inr _, _)"])
    qed
    with upgrading_migratable [of cd "st_data st" "snd x"] show ?thesis by (auto simp: step_ok_def)
  qed
qed

text \<open>
  C3. A migration turns an old database into a store: whatever fails on the way, it keeps
  all checkpoints and events and leaves a database that can be migrated again, and when it
  succeeds the database satisfies the invariant of the store at the current version. A
  database that satisfies it already is not changed.
\<close>

theorem migration_establishes_invariant:
  assumes eng: "keeps_tables eng" and m: "migratable cd st"
    and r: "initializeWithRepair eng d cd lg ens True st = (r, st')"
  shows "migratable cd st' \<and> same_past (st_data st) (st_data st') \<and>
    ((\<exists>n. r = Inr n) \<longrightarrow> store_inv cd (st_data st') \<and> schema_version st' = schemaVersion) \<and>
    (1 \<le> schema_version st \<and> store_inv cd (st_data st) \<longrightarrow> st_data st' = st_data st)"
proof -
  let ?s0 = "st_data st"
  let ?goal = "\<lambda>x. migratable cd (snd x) \<and> same_past ?s0 (st_data (snd x)) \<and>
    ((\<exists>n. fst x = Inr n) \<longrightarrow> store_inv cd (st_data (snd x)) \<and> schema_version (snd x) = schemaVersion) \<and>
    (1 \<le> schema_version st \<and> store_inv cd ?s0 \<longrightarrow> st_data (snd x) = ?s0)"
  have same: "?goal (Inl e, st)" for e using m by (simp add: same_past_def)
  have up: "?goal x" if "step_ok (upgrading cd ?s0) (\<lambda>st. store_inv cd (st_data st) \<and> schema_version st = schemaVersion) x" for x
    using that upgrading_migratable [of cd ?s0 "snd x"] by (auto simp: step_ok_def)
  show ?thesis
  proof (cases "inspectSchemaVersion (ens 0) st")
    case (Inl e)
    with r same show ?thesis by (auto simp: initializeWithRepair_def)
  next
    case (Inr v)
    from m have rd: "versions_readable st" by (simp add: migratable_def)
    from inspect_version [OF rd Inr] have v: "v = schema_version st" .
    have known: "table_known st" if "0 < v"
      using that rd unfolding v schema_version_def versions_readable_def table_known_def
      by (auto simp: last_version_def first_row_def select_rows_def)
    have u: "upgrading cd ?s0 st" if "0 < v" "v \<le> schemaVersion"
      using m that known by (simp add: migratable_def upgrading_def grown_refl v)
    consider "v > schemaVersion" | "v = schemaVersion" | e where "v < schemaVersion" "validateLegacyIndexedIDs d eng cd lg (ens 1) st = Inl e"
      | "v < schemaVersion" "validateLegacyIndexedIDs d eng cd lg (ens 1) st = Inr ()"
      by (metis linorder_less_linear old.unit.exhaust sum.exhaust)
    then show ?thesis
    proof cases
      case 1
      with r Inr same show ?thesis by (auto simp: initializeWithRepair_def)
    next
      case 2
      with r Inr have x: "repairCurrentSchema eng d ens 1 st = (r, st')"
        by (simp add: initializeWithRepair_def initializeCurrentSchema_def)
      from 2 have "upgrading cd ?s0 st" by (intro u) (simp_all add: schemaVersion_def)
      from up [OF repair_upgrading [OF eng this, of d ens 1]] x show ?thesis by simp
    next
      case 3
      with r Inr same show ?thesis by (auto simp: initializeWithRepair_def)
    next
      case 4
      then have x: "(r, st') = and_then (AutoMigrate eng [migrationTable] 2 st) (\<lambda>n st.
          and_then (if v < 1 then to_version_1 eng d cd ens n st else (Inr n, st)) (\<lambda>n st.
          and_then (to_version_2 eng d ens n st) (then_verify d ens)))"
        using r Inr by (simp add: initializeWithRepair_def)
      from upgrade_spec [OF eng m 4(1) [unfolded v], of d ens] show ?thesis
        unfolding x [unfolded v, symmetric] by simp
    qed
  qed
qed

lemma ex_engine_keeps: "keeps_tables ex_engine"
  by (simp add: keeps_tables_def ex_engine_def)

text \<open>A store whose runs all have heads, without its metadata, is a database of version 0.\<close>

lemma forget_unheaded:
  assumes i: "store_inv cd s" and h: "\<And>c. c \<in> set (checkpoints s) \<Longrightarrow> has_head s (ck_run_id c) \<and> ck_run_id c \<noteq> ''''"
    and e: "\<And>e. e \<in> set (events s) \<Longrightarrow> 0 < rl_ordinal e \<and> rl_run_id e \<noteq> ''''"
  shows "unheaded_ok cd (s\<lparr>runs := [], registry := [], retention := []\<rparr>)"
proof -
  let ?s = "s\<lparr>runs := [], registry := [], retention := []\<rparr>"
  note p = store_invD [OF i]
  have "source_ok cd ?s c" if c: "c \<in> set (checkpoints s)" for c
  proof -
    from h [OF c] obtain x where x: "x \<in> set (runs s)" "rn_run_id x = ck_run_id c" by (auto simp: has_head_def)
    with p(4) have "head_ok cd s x" by (simp add: history_ok_def)
    with x h [OF c] c p(4) show ?thesis by (auto simp: source_ok_def head_ok_def history_ok_def versions_of_def)
  qed
  moreover have "unheaded_event_ok ?s e" if "e \<in> set (events s)" for e
    using that e p(2) by (auto simp: unheaded_event_ok_def journal_ok_def event_ok_def)
  ultimately show ?thesis using p(1) by (simp add: unheaded_ok_def keys_ok_def)
qed

lemma ex_old_migratable: "migratable ex_codec ex_old"
proof -
  have "\<forall>c \<in> set (checkpoints ex_saved). has_row (\<lambda>h. rn_run_id h = ck_run_id c) (runs ex_saved) \<and> ck_run_id c \<noteq> ''''"
    by code_simp
  then have h: "\<forall>c \<in> set (checkpoints ex_saved). has_head ex_saved (ck_run_id c) \<and> ck_run_id c \<noteq> ''''"
    by (simp add: has_row_head)
  moreover have "\<forall>e \<in> set (events ex_saved). 0 < rl_ordinal e \<and> rl_run_id e \<noteq> ''''" by code_simp
  ultimately have "unheaded_ok ex_codec ex_old_data"
    unfolding ex_old_data_def using ex_invs(2) by (intro forget_unheaded) blast+
  then show ?thesis
    by (simp add: migratable_def ex_old_def versions_readable_def schema_version_def last_version_def first_row_def select_rows_def)
qed

theorem migration_establishes_invariant_witness:
  "\<exists>st'. initializeWithRepair ex_engine Sqlite ex_codec ex_reader (\<lambda>_. ex_env Sqlite 20) True ex_old = (Inr 23, st') \<and>
     store_inv ex_codec (st_data st') \<and> checkpoints (st_data st') = checkpoints ex_saved"
proof -
  obtain st' where r: "initializeWithRepair ex_engine Sqlite ex_codec ex_reader (\<lambda>_. ex_env Sqlite 20) True ex_old = (Inr 23, st')"
    using ex_migrated by (metis prod.collapse)
  have "same_past (st_data ex_old) (st_data st') \<Longrightarrow> checkpoints (st_data st') = checkpoints ex_saved"
    by (simp add: same_past_def ex_old_def ex_old_data_def)
  with migration_establishes_invariant [OF ex_engine_keeps ex_old_migratable r] r show ?thesis by auto
qed

text \<open>What the schema of a store has to be, apart from its rows.\<close>

definition schema_fits :: "dialect \<Rightarrow> report \<Rightarrow> int list \<Rightarrow> bool" where
  "schema_fits d rp versions \<longleftrightarrow> rp_has_table rp migrationTable \<and> last_version versions = Some schemaVersion \<and>
    (\<forall>r \<in> set schema_requirements. requirement_met d rp r) \<and>
    (\<forall>(t, ix) \<in> set schema_indexes. rp_has_index rp t ix) \<and>
    verifyRunLogIdentityIndex d rp = Inr () \<and> verifyMySQLTableOptions d rp = Inr ()"

lemma verifySchema_inv:
  assumes i: "store_inv cd s" and ff: "fault_free ens"
  shows "(\<exists>m. verifySchema d ens n rp versions s = Inr m) \<longleftrightarrow> schema_fits d rp versions"
proof
  assume "\<exists>m. verifySchema d ens n rp versions s = Inr m"
  then show "schema_fits d rp versions" by (auto simp: schema_fits_def dest!: verifySchemaD)
next
  assume f: "schema_fits d rp versions"
  from first_gap_inv [OF i order_refl, of ens "n + 1"] ff obtain m where "v2MetadataGap ens (n + 1) s = Inr ('''', m)"
    by (auto simp: v2MetadataGap_def split: sum.split_asm)
  moreover have "en_fault (ens n) = None" using ff by (simp add: fault_free_def)
  moreover have "first_error (verifySchemaRequirement d rp) schema_requirements = Inr ()"
    "first_error (verify_index rp) schema_indexes = Inr ()"
    using f by (auto simp: first_error_Inr_iff verifySchemaRequirement_iff schema_fits_def verify_index_def)
  ultimately have "verifySchema d ens n rp versions s = Inr m"
    using f by (simp add: verifySchema_def verify_version_def schema_fits_def query_def)
  then show "\<exists>m. verifySchema d ens n rp versions s = Inr m" by blast
qed

text \<open>
  A store can always be opened again: with no fault of the database, Connect accepts a
  database that the operations of the store have left, exactly if its schema fits, and
  otherwise closes the connection; a SQLite store is handed out with a pool of one connection.
\<close>

theorem connect_accepts_the_store:
  assumes i: "store_inv cd (st_data st)" and ff: "fault_free ens" and c: "openConnection oe = (Inr d, c)"
  shows "if schema_fits d (st_report st) (st_versions st)
    then ConnectContext oe ens st = (Inr d, configurePool d c, st)
    else \<exists>e. ConnectContext oe ens st = (Inl e, Closed, st)"
proof -
  from verifySchema_inv [OF i ff, of d 0 "st_report st" "st_versions st"] c show ?thesis
    by (cases "verifySchema d ens 0 (st_report st) (st_versions st) (st_data st)")
      (auto simp: ConnectContext_def finish_open_def then_verify_def)
qed

definition ex_open :: open_env where
  "ex_open = \<lparr>oe_ctx = None, oe_dialector = Some ''sqlite'', oe_gorm = None, oe_access = None, oe_ping = None,
     oe_busy_timeout = None\<rparr>"

theorem connect_accepts_the_store_witness:
  "ConnectContext ex_open (\<lambda>_. ex_env Sqlite 20) ex_current = (Inr Sqlite, Connected (Some 1), ex_current)"
proof -
  have i: "store_inv ex_codec (st_data ex_current)" using ex_invs(2) by (simp add: ex_current_def)
  have ff: "fault_free (\<lambda>_. ex_env Sqlite 20)" by (simp add: fault_free_def ex_env_def)
  have c: "openConnection ex_open = (Inr Sqlite, Connected None)" by (simp add: openConnection_def ex_open_def dialect_of_name_def)
  from verifySchema_inv [OF i ff, of Sqlite 0 "st_report ex_current" "st_versions ex_current"] ex_schema
  have "schema_fits Sqlite (st_report ex_current) (st_versions ex_current)" by blast
  with connect_accepts_the_store [OF i ff c] show ?thesis by (simp add: configurePool_def)
qed

text \<open>
  The wait for the migration lock of PostgreSQL ends: if the clock moves on by a poll
  interval with every wait, some poll decides, at the latest after the deadline.
\<close>

theorem lock_wait_ends:
  assumes clock: "\<And>i. lk_start lk + int i * migrationLockPoll \<le> lk_clock lk i"
  shows "\<exists>r. acquirePostgreSQLMigrationLock lk = Some r"
proof -
  have "\<exists>r. poll_lock lk (lk_start lk + migrationLockWait) i = Some r" if "i \<le> 301" for i
    using that
  proof (induction rule: inc_induct)
    case base
    from clock [of 301] show ?case
      by (subst poll_lock.simps) (auto simp: migrationLockWait_def migrationLockPoll_def split: sum.split)
  next
    case (step i)
    then show ?case by (subst poll_lock.simps) (auto split: sum.split)
  qed
  from this [of 0] show ?thesis by (simp add: acquirePostgreSQLMigrationLock_def)
qed

definition ex_lock :: lock_env where
  "ex_lock = \<lparr>lk_get_lock = Inr None, lk_try = (\<lambda>i. Inr False), lk_start = 0,
     lk_clock = (\<lambda>i. int i * migrationLockPoll), lk_wait = (\<lambda>i. None), lk_release_mysql = Inr None,
     lk_release_postgres = Inr False\<rparr>"

theorem lock_wait_ends_witness: "\<exists>r. acquirePostgreSQLMigrationLock ex_lock = Some r"
  by (rule lock_wait_ends) (simp add: ex_lock_def)

section \<open>Locks, triggers and ids\<close>

text \<open>Nothing is migrated without the lock, and a migration without errors has given it back.\<close>

lemma withMigrationLock_spec:
  assumes "withMigrationLock d lk migrate s = Some (es, s')"
  shows "s' = s \<and> es \<noteq> [] \<or> acquireMigrationLock d lk = Some (Inr True) \<and> s' = snd (migrate s) \<and>
    (es = [] \<longleftrightarrow> (\<exists>x. fst (migrate s) = Inr x) \<and> releaseMigrationLock d lk = Inr ())"
  using assms by (auto simp: withMigrationLock_def errors_of_def split: option.split_asm sum.split_asm if_split_asm prod.split_asm)

text \<open>The triggers are installed whatever triggers there were, the two that changed anew.\<close>

lemma triggers_installed:
  "\<exists>ts'. exec_triggers trigger_statements ts = Inr ts' \<and>
    set ts' = set ts \<union> {''gopact_runlog_compacted_guard'', ''gopact_runlog_retired_guard'', ''gopact_runlog_v2_metadata'',
      ''gopact_workflow_run_kind_guard'', ''gopact_workflow_run_state_guard'', ''gopact_workflow_run_v2_registry''}"
  by (auto simp: trigger_statements_def exec_trigger_def)

text \<open>
  An id of an old SQLite or PostgreSQL database passes exactly if the operations accept it;
  on MySQL the empty session of an event, which the column allows, is refused.
\<close>

lemma legacy_id_contract:
  assumes "d \<noteq> Mysql"
  shows "(\<not> bad_legacy_id d False v \<and> validateLegacyIDRow v = Inr ()) = (validateIndexedID name v = Inr ())"
  using assms by (auto simp: bad_legacy_id_def ends_with_space_def validateLegacyIDRow_def validateIndexedID_def has_suffix_def)

lemma empty_session_refused: "bad_legacy_id d True '''' \<longleftrightarrow> d = Mysql"
  by (simp add: bad_legacy_id_def ends_with_space_def has_suffix_def maxIndexedIDBytes_def)

end
