(* ===== verification/Agent_Types.thy ===== *)
theory Agent_Types
  imports Transitions
begin

text \<open>
  What the agents under \<open>src/agents\<close> share: the values of the packages \<open>gopact\<close> and \<open>agent\<close>
  with the fields that the agents read, errors as trees of the format and arguments that
  build them, the validator of \<open>internal/contract\<close>, and the contract of a system whose runs
  are bounded by a measure.

  Values are immutable here, so \<open>Clone\<close> and the \<open>clone*\<close> helpers of the sources are the
  identity and do not appear.
\<close>

section \<open>Messages, requests and responses\<close>

record artifact_ref =
  ref_uri :: string
  ref_kind :: string

datatype part_type = PartText | PartArtifact | PartOther string

record part =
  pt_type :: part_type
  pt_text :: string
  pt_ref :: "artifact_ref option"

record tool_call =
  tc_id :: string
  tc_name :: string
  tc_arguments :: bytes

datatype role = RoleUnset | RoleSystem | RoleUser | RoleAssistant | RoleTool | RoleOther string

record message =
  msg_role :: role
  msg_parts :: "part list"
  msg_tool_calls :: "tool_call list"
  msg_tool_call_id :: string

type_synonym metadata = "(string \<times> string) list"

record request =
  rq_messages :: "message list"
  rq_artifacts :: "artifact_ref list"
  rq_metadata :: metadata

record response =
  rs_message :: message
  rs_artifacts :: "artifact_ref list"
  rs_metadata :: metadata

record identity =
  id_name :: string
  id_description :: string
  id_version :: string

text \<open>The zero identity that \<open>Identity\<close> returns for a nil agent.\<close>

definition no_identity :: identity where
  "no_identity = \<lparr>id_name = '''', id_description = '''', id_version = ''''\<rparr>"

section \<open>Errors\<close>

text \<open>
  The text of an error is the format and the arguments that build it; \<open>Wrapped\<close> is a
  format with one \<open>%w\<close>, \<open>Joined\<close> the result of \<open>errors.Join\<close>, and \<open>External\<close> an error that
  a child, a model, a tool or the workflow engine returns.
\<close>

datatype fmt_arg = Str string | Num int | Sprintf string "fmt_arg list"

datatype agent_error =
    Errorf string "fmt_arg list"
  | Wrapped string "fmt_arg list" agent_error
  | Joined "agent_error list"
  | ErrInvalidIdentity
  | External nat

text \<open>\<open>errors.Join\<close> of errors that may be nil.\<close>

definition join_errors :: "agent_error option list \<Rightarrow> agent_error option" where
  "join_errors es = (let xs = [e. Some e \<leftarrow> es] in if xs = [] then None else Some (Joined xs))"

lemma join_errors_None: "join_errors es = None \<longleftrightarrow> (\<forall>e \<in> set es. e = None)"
  by (induction es) (auto simp: join_errors_def Let_def split: option.splits)

section \<open>The validator\<close>

text \<open>
  \<open>seen\<close> is the list of the pairs of a namespace and a value that \<open>Unique\<close> has met.
\<close>

record validator =
  vd_scope :: string
  vd_problems :: "agent_error list"
  vd_seen :: "(string \<times> string) list"

definition new_validator :: "string \<Rightarrow> validator" where
  "new_validator scope = \<lparr>vd_scope = scope, vd_problems = [], vd_seen = []\<rparr>"

definition add_problem :: "agent_error \<Rightarrow> validator \<Rightarrow> validator" where
  "add_problem problem v =
    v\<lparr>vd_problems := vd_problems v @
        [if vd_scope v \<noteq> '''' then Wrapped ''%s: %w'' [Str (vd_scope v)] problem else problem]\<rparr>"

definition Check :: "bool \<Rightarrow> agent_error \<Rightarrow> validator \<Rightarrow> validator" where
  "Check valid problem v = (if valid then v else add_problem problem v)"

definition Identity :: "string \<Rightarrow> identity \<Rightarrow> validator \<Rightarrow> validator" where
  "Identity subject i =
    Check (id_name i \<noteq> '''' \<and> id_description i \<noteq> '''' \<and> id_version i \<noteq> '''')
      (Wrapped ''%w: %s name, description, and version are required'' [Str subject] ErrInvalidIdentity)"

text \<open>A value that an interface holds is an option: \<open>IsNil\<close> is equality with \<open>None\<close>.\<close>

definition IsNil :: "'a option \<Rightarrow> bool" where
  "IsNil v = (case v of None \<Rightarrow> True | Some _ \<Rightarrow> False)"

definition Present :: "fmt_arg \<Rightarrow> 'a option \<Rightarrow> validator \<Rightarrow> validator" where
  "Present name v = Check (\<not> IsNil v) (Errorf ''%s is nil'' [name])"

definition Required :: "fmt_arg \<Rightarrow> string \<Rightarrow> validator \<Rightarrow> validator" where
  "Required name v = Check (v \<noteq> '''') (Errorf ''%s is required'' [name])"

definition NonEmpty :: "fmt_arg \<Rightarrow> nat \<Rightarrow> validator \<Rightarrow> validator" where
  "NonEmpty name n = Check (n > 0) (Errorf ''%s must not be empty'' [name])"

definition Positive :: "fmt_arg \<Rightarrow> int \<Rightarrow> validator \<Rightarrow> validator" where
  "Positive name n = Check (n > 0) (Errorf ''%s must be positive'' [name])"

text \<open>\<open>json.Valid\<close> is the parameter \<open>json\<close>.\<close>

definition OptionalJSON :: "(bytes \<Rightarrow> bool) \<Rightarrow> fmt_arg \<Rightarrow> bytes \<Rightarrow> validator \<Rightarrow> validator" where
  "OptionalJSON json name v = Check (v = [] \<or> json v) (Errorf ''%s contains invalid JSON'' [name])"

definition Unique :: "string \<Rightarrow> string \<Rightarrow> validator \<Rightarrow> validator" where
  "Unique name x v =
    (if x = '''' then v
     else if (name, x) \<in> set (vd_seen v)
     then add_problem (Errorf ''duplicate %s %q'' [Str name, Str x]) v
     else v\<lparr>vd_seen := (name, x) # vd_seen v\<rparr>)"

definition Err :: "validator \<Rightarrow> agent_error option" where
  "Err v = join_errors (map Some (vd_problems v))"

text \<open>The calls of a chain, the first one first.\<close>

definition chain :: "(validator \<Rightarrow> validator) list \<Rightarrow> validator \<Rightarrow> validator" where
  "chain checks v = fold (\<lambda>check. check) checks v"

lemma chain_simps [simp]:
  "chain [] v = v" "chain (f # fs) v = chain fs (f v)" "chain (fs @ gs) v = chain gs (chain fs v)"
  by (simp_all add: chain_def)

subsection \<open>When a chain of checks passes\<close>

definition passes :: "validator \<Rightarrow> bool" where
  "passes v \<longleftrightarrow> vd_problems v = []"

named_theorems check_simps "when the checks of a validator pass"

lemma Err_None [check_simps]: "Err v = None \<longleftrightarrow> passes v"
  by (auto simp: Err_def join_errors_None passes_def)

lemma Err_Some [check_simps]: "Err v = Some e \<longleftrightarrow> \<not> passes v \<and> e = Joined (vd_problems v)"
proof -
  have "[e. Some e \<leftarrow> map Some xs] = xs" for xs :: "agent_error list" by (induction xs) auto
  then show ?thesis by (auto simp: Err_def join_errors_def passes_def Let_def)
qed

lemma not_IsNil [simp]: "\<not> IsNil v \<longleftrightarrow> (\<exists>x. v = Some x)"
  by (simp add: IsNil_def split: option.split)

lemma passes_checks [check_simps]:
  "passes (new_validator scope)"
  "passes (add_problem p v) \<longleftrightarrow> False"
  "passes (Check b p v) \<longleftrightarrow> b \<and> passes v"
  "passes (Identity s i v) \<longleftrightarrow> id_name i \<noteq> '''' \<and> id_description i \<noteq> '''' \<and> id_version i \<noteq> '''' \<and> passes v"
  "passes (Present n x v) \<longleftrightarrow> (\<exists>y. x = Some y) \<and> passes v"
  "passes (Required n t v) \<longleftrightarrow> t \<noteq> '''' \<and> passes v"
  "passes (NonEmpty n k v) \<longleftrightarrow> k > 0 \<and> passes v"
  "passes (Positive n i' v) \<longleftrightarrow> i' > 0 \<and> passes v"
  "passes (OptionalJSON json n w v) \<longleftrightarrow> (w = [] \<or> json w) \<and> passes v"
  "passes (Unique ns t v) \<longleftrightarrow> (t = '''' \<or> (ns, t) \<notin> set (vd_seen v)) \<and> passes v"
  by (auto simp: passes_def new_validator_def add_problem_def Check_def Identity_def Present_def
      Required_def NonEmpty_def Positive_def OptionalJSON_def Unique_def)

lemma seen_checks [check_simps]:
  "vd_seen (new_validator scope) = []"
  "vd_seen (add_problem p v) = vd_seen v"
  "vd_seen (Check b p v) = vd_seen v"
  "vd_seen (Identity s i v) = vd_seen v"
  "vd_seen (Present n x v) = vd_seen v"
  "vd_seen (Required n t v) = vd_seen v"
  "vd_seen (NonEmpty n k v) = vd_seen v"
  "vd_seen (Positive n i' v) = vd_seen v"
  "vd_seen (OptionalJSON json n w v) = vd_seen v"
  "set (vd_seen (Unique ns t v)) = (if t = '''' then {} else {(ns, t)}) \<union> set (vd_seen v)"
  by (auto simp: new_validator_def add_problem_def Check_def Identity_def Present_def
      Required_def NonEmpty_def Positive_def OptionalJSON_def Unique_def)

section \<open>Directories and children\<close>

text \<open>
  An \<open>agent.Directory\<close> is an immutable snapshot: \<open>Lookup\<close> finds an agent, possibly nil, by
  its name, and \<open>List\<close> gives the identities. A child agent is what its \<open>Invoke\<close> returns; the
  answers of children, models and tools to a call are given by the environment of the step.
\<close>

record directory =
  dir_lookup :: "string \<Rightarrow> identity option option"
  dir_list :: "identity list"

definition has_child :: "directory \<Rightarrow> string \<Rightarrow> bool" where
  "has_child d name = (case dir_lookup d name of Some (Some _) \<Rightarrow> True | _ \<Rightarrow> False)"

definition requestFromResponse :: "response \<Rightarrow> request" where
  "requestFromResponse r =
    \<lparr>rq_messages = [rs_message r], rq_artifacts = rs_artifacts r, rq_metadata = rs_metadata r\<rparr>"

section \<open>Systems with bounded runs\<close>

locale bounded_system =
  fixes step :: "'s \<Rightarrow> 's \<Rightarrow> bool"
    and inv :: "'s \<Rightarrow> bool"
    and weight :: "'s \<Rightarrow> nat"
    and final :: "'s \<Rightarrow> bool"
  assumes step_inv: "inv s \<Longrightarrow> step s t \<Longrightarrow> inv t"
    and step_weight: "inv s \<Longrightarrow> step s t \<Longrightarrow> weight t < weight s"
    and progress: "inv s \<Longrightarrow> \<not> final s \<Longrightarrow> \<exists>t. step s t"
begin

lemma run_inv: "reaches step n s t \<Longrightarrow> inv s \<Longrightarrow> inv t"
  by (induction rule: reaches.induct) (auto intro: step_inv)

lemma run_bound: "reaches step n s t \<Longrightarrow> inv s \<Longrightarrow> n + weight t \<le> weight s"
proof (induction rule: reaches.induct)
  case (reaches_refl s)
  show ?case by simp
next
  case (reaches_step n s t u)
  have "weight u < weight t" using reaches_step run_inv by (blast intro: step_weight)
  then show ?case using reaches_step by simp
qed

lemma run_finishes: "inv s \<Longrightarrow> \<exists>n t. reaches step n s t \<and> final t"
proof (induction "weight s" arbitrary: s rule: less_induct)
  case less
  show ?case
  proof (cases "final s")
    case True
    then show ?thesis by (blast intro: reaches_refl)
  next
    case False
    then obtain t where t: "step s t" using less.prems progress by blast
    then obtain n u where "reaches step n t u" "final u"
      using less step_weight step_inv by blast
    moreover have "reaches step (Suc 0) s t" using reaches_refl t by (rule reaches_step)
    ultimately show ?thesis by (blast intro: reaches_trans)
  qed
qed

lemma stuck_final: "inv s \<Longrightarrow> \<nexists>t. step s t \<Longrightarrow> final s"
  using progress by blast

end

end
