(* ===== verification/React.thy ===== *)
theory React
  imports Agent_Types
begin

text \<open>
  The ReAct agent of \<open>src/agents/react/react.go\<close>: the nodes of its workflow as functions of
  the run's state, the routes between them, and the run as a step function over the node
  that is due. The answers of the model, of the tools and of the workflow engine are given
  by the environment of each step, so that a run meets any of them.
\<close>

section \<open>State, limits and intents\<close>

text \<open>What \<open>agent.ObserveToolOutcome\<close> and \<open>agent.ObserveRepairRequest\<close> return.\<close>

record observation =
  ob_message :: message

type_synonym repair_request = string
type_synonym refusal = string

record react_state =
  Turn :: int
  ToolCalls :: int
  Messages :: "message list"
  PendingObservations :: "observation list"
  RemainingToolCalls :: "tool_call list"
  Artifacts :: "artifact_ref list"
  Metadata :: metadata

record limits =
  MaxTurns :: int
  MaxToolCalls :: int
  MaxParallelTools :: int

definition DefaultLimits :: limits where
  "DefaultLimits = \<lparr>MaxTurns = 32, MaxToolCalls = 64, MaxParallelTools = 8\<rparr>"

text \<open>The validation that \<open>WithLimits\<close> adds.\<close>

definition WithLimits :: "limits \<Rightarrow> validator \<Rightarrow> validator" where
  "WithLimits l = chain
    [Positive (Str ''max turns'') (MaxTurns l),
     Positive (Str ''max tool calls'') (MaxToolCalls l),
     Positive (Str ''max parallel tools'') (MaxParallelTools l)]"

text \<open>An intent is a value or a pointer, which may be nil, or of a type the agent does not know.\<close>

datatype intent =
    FinalIntent | FinalPointer "unit option"
  | ToolCallIntent | ToolCallPointer "unit option"
  | RepairIntent repair_request | RepairPointer "repair_request option"
  | RefusalIntent refusal | RefusalPointer "refusal option"
  | OtherIntent string

record model_response =
  mrs_message :: message
  mrs_intent :: "intent option"

text \<open>The turn kinds: \<open>turnFinal\<close>, \<open>turnTools\<close>, \<open>turnRepair\<close>.\<close>

type_synonym turn_kind = int

definition turnFinal :: turn_kind where "turnFinal = 1"
definition turnTools :: turn_kind where "turnTools = 2"
definition turnRepair :: turn_kind where "turnRepair = 3"

record turn_result =
  tu_kind :: turn_kind
  tu_message :: message

definition no_message :: message where
  "no_message = \<lparr>msg_role = RoleUnset, msg_parts = [], msg_tool_calls = [], msg_tool_call_id = ''''\<rparr>"

section \<open>Tools and their outcomes\<close>

record tool_spec =
  ts_name :: string
  ts_schema :: bytes

text \<open>A tool is executable when it is an \<open>InvokableTool\<close> or a \<open>DirectTool\<close>.\<close>

record tool =
  tl_spec :: tool_spec
  tl_invokable :: bool
  tl_direct :: bool

type_synonym registry = "string \<Rightarrow> tool option"

text \<open>The types of \<open>gopact.ToolOutcome\<close> the agent knows, with the references they carry.\<close>

datatype outcome =
    ToolResultOutcome (out_id: string) (out_name: string) "artifact_ref list" "artifact_ref list"
  | ToolRejectedOutcome (out_id: string) (out_name: string) string string bool string
  | ToolErrorOutcome (out_id: string) (out_name: string) "artifact_ref list"
  | ToolInterruptOutcome (out_id: string) (out_name: string)

text \<open>A tool may return a value, a pointer that may be nil, or a type of its own.\<close>

datatype boxed_outcome = Value outcome | Pointer "outcome option" | OtherOutcome string string

fun ToolCallID :: "boxed_outcome \<Rightarrow> string" where
  "ToolCallID (Value v) = out_id v"
| "ToolCallID (Pointer p) = (case p of Some v \<Rightarrow> out_id v | None \<Rightarrow> '''')"
| "ToolCallID (OtherOutcome i _) = i"

fun ToolName :: "boxed_outcome \<Rightarrow> string" where
  "ToolName (Value v) = out_name v"
| "ToolName (Pointer p) = (case p of Some v \<Rightarrow> out_name v | None \<Rightarrow> '''')"
| "ToolName (OtherOutcome _ n) = n"

fun normalizeToolOutcome :: "boxed_outcome option \<Rightarrow> boxed_outcome option" where
  "normalizeToolOutcome (Some (Pointer (Some v))) = Some (Value v)"
| "normalizeToolOutcome (Some (Pointer None)) = None"
| "normalizeToolOutcome x = x"

definition unknownToolOutcome :: "tool_call \<Rightarrow> boxed_outcome" where
  "unknownToolOutcome call = Value (ToolRejectedOutcome (tc_id call) (tc_name call)
     ''unknown_tool'' (''unknown tool: '' @ tc_name call) True ''choose one of the advertised tools'')"

fun asToolInterrupt :: "boxed_outcome \<Rightarrow> outcome option" where
  "asToolInterrupt (Value (ToolInterruptOutcome i n)) = Some (ToolInterruptOutcome i n)"
| "asToolInterrupt (Pointer (Some (ToolInterruptOutcome i n))) = Some (ToolInterruptOutcome i n)"
| "asToolInterrupt _ = None"

fun outcome_refs :: "outcome \<Rightarrow> artifact_ref list" where
  "outcome_refs (ToolResultOutcome _ _ artifacts effects) = artifacts @ effects"
| "outcome_refs (ToolErrorOutcome _ _ partial) = partial"
| "outcome_refs _ = []"

fun toolOutcomeRefs :: "boxed_outcome \<Rightarrow> artifact_ref list" where
  "toolOutcomeRefs (Value v) = outcome_refs v"
| "toolOutcomeRefs (Pointer (Some v)) = outcome_refs v"
| "toolOutcomeRefs _ = []"

section \<open>The dispatcher of tool calls\<close>

text \<open>What the tool answers, and whether the events before and after the call are accepted.\<close>

record tool_env =
  te_started :: "agent_error option"
  te_answer :: "agent_error + boxed_outcome option"
  te_finished :: "agent_error option"

definition execute_tool ::
  "registry \<Rightarrow> tool_call \<Rightarrow> agent_error + boxed_outcome option \<Rightarrow> agent_error + boxed_outcome" where
  "execute_tool registry call answer =
    (case registry (tc_name call) of
       None \<Rightarrow> Inr (unknownToolOutcome call)
     | Some t \<Rightarrow>
         if \<not> tl_invokable t \<and> \<not> tl_direct t
         then Inl (Errorf ''react: tool %q is not executable'' [Str (tc_name call)])
         else (case answer of
             Inl e \<Rightarrow> Inl (Wrapped ''react: execute tool %q: %w'' [Str (tc_name call)] e)
           | Inr out \<Rightarrow> (case normalizeToolOutcome out of
                 None \<Rightarrow> Inl (Errorf ''react: tool %q returned mismatched outcome identity'' [Str (tc_name call)])
               | Some v \<Rightarrow>
                   if ToolCallID v \<noteq> tc_id call \<or> ToolName v \<noteq> tc_name call
                   then Inl (Errorf ''react: tool %q returned mismatched outcome identity'' [Str (tc_name call)])
                   else if asToolInterrupt v \<noteq> None
                   then Inl (Errorf ''react: tool %q returned an interrupt without a Workflow continuation''
                          [Str (tc_name call)])
                   else Inr v)))"

text \<open>The deferred finish event joins its error to the one of the call.\<close>

definition dispatch_tool :: "registry \<Rightarrow> tool_env \<Rightarrow> tool_call \<Rightarrow> agent_error + boxed_outcome" where
  "dispatch_tool registry te call =
    (case te_started te of
       Some e \<Rightarrow> Inl e
     | None \<Rightarrow>
         let r = execute_tool registry call (te_answer te)
         in (case te_finished te of
               None \<Rightarrow> r
             | Some eventErr \<Rightarrow> (case join_errors [case r of Inl e \<Rightarrow> Some e | Inr _ \<Rightarrow> None, Some eventErr] of
                   Some e \<Rightarrow> Inl e
                 | None \<Rightarrow> r)))"

section \<open>Validation\<close>

definition check_tool_call :: "(bytes \<Rightarrow> bool) \<Rightarrow> nat \<times> tool_call \<Rightarrow> validator \<Rightarrow> validator" where
  "check_tool_call json = (\<lambda>(i, call). chain
    [Required (Sprintf ''tool call %d id'' [Num (int i)]) (tc_id call),
     Required (Sprintf ''tool call %d name'' [Num (int i)]) (tc_name call),
     OptionalJSON json (Sprintf ''tool call %q arguments'' [Str (tc_id call)]) (tc_arguments call),
     Unique ''tool call id'' (tc_id call)])"

definition validateToolCalls :: "(bytes \<Rightarrow> bool) \<Rightarrow> tool_call list \<Rightarrow> agent_error option" where
  "validateToolCalls json calls =
    Err (fold (check_tool_call json) (enumerate 0 calls)
      (NonEmpty (Str ''tool calls'') (length calls) (new_validator ''react'')))"

definition check_tool :: "(bytes \<Rightarrow> bool) \<Rightarrow> nat \<times> tool option \<Rightarrow> validator \<Rightarrow> validator" where
  "check_tool json = (\<lambda>(i, t) v.
    let v1 = Present (Sprintf ''tool %d'' [Num (int i)]) t v
    in case t of None \<Rightarrow> v1
     | Some t \<Rightarrow> chain
        [Required (Sprintf ''tool %d name'' [Num (int i)]) (ts_name (tl_spec t)),
         OptionalJSON json (Sprintf ''tool %q schema'' [Str (ts_name (tl_spec t))]) (ts_schema (tl_spec t)),
         Unique ''tool'' (ts_name (tl_spec t)),
         Check (tl_direct t \<or> tl_invokable t)
           (Errorf ''tool %q is not executable'' [Str (ts_name (tl_spec t))])] v1)"

definition indexTools ::
  "(bytes \<Rightarrow> bool) \<Rightarrow> tool option list \<Rightarrow> agent_error + (tool_spec list \<times> registry)" where
  "indexTools json tools =
    (case Err (fold (check_tool json) (enumerate 0 tools) (new_validator ''react'')) of
       Some e \<Rightarrow> Inl e
     | None \<Rightarrow>
         let indexed = [t. Some t \<leftarrow> tools]
         in Inr (map tl_spec indexed,
                 fold (\<lambda>t registry. registry(ts_name (tl_spec t) \<mapsto> t)) indexed Map.empty))"

section \<open>Normalizing a model turn\<close>

text \<open>
  The texts of errors leave out the role and the Go type that they print.
\<close>

text \<open>
  The configuration of an agent: its limits and tools, and what the packages it calls
  provide, \<open>json.Valid\<close>, \<open>Model.NewRequest\<close> with the tools filled in, and the observers of
  the package \<open>agent\<close>.
\<close>

record react_config =
  rc_instruction :: string
  rc_limits :: limits
  rc_registry :: registry
  rc_json :: "bytes \<Rightarrow> bool"
  rc_observe_outcome :: "boxed_outcome \<Rightarrow> agent_error + observation"
  rc_observe_repair :: "int \<Rightarrow> repair_request \<Rightarrow> agent_error + observation"

definition isToolCallIntent :: "intent option \<Rightarrow> bool" where
  "isToolCallIntent i = (case i of Some ToolCallIntent \<Rightarrow> True | Some (ToolCallPointer _) \<Rightarrow> True | _ \<Rightarrow> False)"

definition refusalError :: "refusal \<Rightarrow> agent_error" where
  "refusalError reason =
    Errorf ''react: model refusal: %s'' [Str (if reason = '''' then ''model refused'' else reason)]"

definition normalizeToolTurn ::
  "react_config \<Rightarrow> message \<Rightarrow> react_state \<Rightarrow> agent_error + (turn_result \<times> react_state)" where
  "normalizeToolTurn cfg m st =
    (let calls = msg_tool_calls m in
     if calls = [] then Inl (Errorf ''react: tool-call intent has no calls'' [])
     else if msg_role m \<noteq> RoleAssistant
     then Inl (Errorf ''react: tool-call message role %q is not assistant'' [])
     else (case validateToolCalls (rc_json cfg) calls of
         Some e \<Rightarrow> Inl e
       | None \<Rightarrow>
           if int (length calls) > MaxToolCalls (rc_limits cfg) - ToolCalls st
           then Inl (Errorf ''react: max tool calls %d reached'' [Num (MaxToolCalls (rc_limits cfg))])
           else Inr (\<lparr>tu_kind = turnTools, tu_message = no_message\<rparr>,
                st\<lparr>ToolCalls := ToolCalls st + int (length calls), RemainingToolCalls := calls\<rparr>)))"

definition normalizeRepairTurn ::
  "react_config \<Rightarrow> repair_request \<Rightarrow> react_state \<Rightarrow> agent_error + (turn_result \<times> react_state)" where
  "normalizeRepairTurn cfg repair st =
    (case rc_observe_repair cfg (Turn st) repair of
       Inl e \<Rightarrow> Inl (Wrapped ''react: observe repair request: %w'' [] e)
     | Inr ob \<Rightarrow> Inr (\<lparr>tu_kind = turnRepair, tu_message = no_message\<rparr>,
         st\<lparr>PendingObservations := PendingObservations st @ [ob]\<rparr>))"

definition normalizeTurn ::
  "react_config \<Rightarrow> model_response \<Rightarrow> react_state \<Rightarrow> agent_error + (turn_result \<times> react_state)" where
  "normalizeTurn cfg resp st =
    (let m = mrs_message resp; final = Inr (\<lparr>tu_kind = turnFinal, tu_message = m\<rparr>, st)
     in if msg_tool_calls m \<noteq> [] \<and> \<not> isToolCallIntent (mrs_intent resp)
        then Inl (Errorf ''react: %T intent has assistant tool calls'' [])
        else (case mrs_intent resp of
            Some FinalIntent \<Rightarrow> final
          | Some (FinalPointer None) \<Rightarrow> Inl (Errorf ''react: nil final intent'' [])
          | Some (FinalPointer (Some _)) \<Rightarrow> final
          | Some ToolCallIntent \<Rightarrow> normalizeToolTurn cfg m st
          | Some (ToolCallPointer None) \<Rightarrow> Inl (Errorf ''react: nil tool-call intent'' [])
          | Some (ToolCallPointer (Some _)) \<Rightarrow> normalizeToolTurn cfg m st
          | Some (RepairIntent r) \<Rightarrow> normalizeRepairTurn cfg r st
          | Some (RepairPointer None) \<Rightarrow> Inl (Errorf ''react: nil repair intent'' [])
          | Some (RepairPointer (Some r)) \<Rightarrow> normalizeRepairTurn cfg r st
          | Some (RefusalIntent r) \<Rightarrow> Inl (refusalError r)
          | Some (RefusalPointer None) \<Rightarrow> Inl (Errorf ''react: nil refusal intent'' [])
          | Some (RefusalPointer (Some r)) \<Rightarrow> Inl (refusalError r)
          | None \<Rightarrow> Inl (Errorf ''react: model response has no intent'' [])
          | Some (OtherIntent t) \<Rightarrow> Inl (Errorf ''react: unsupported model intent %T'' [Str t])))"

section \<open>Tool batches\<close>

definition invokable :: "registry \<Rightarrow> tool_call \<Rightarrow> bool" where
  "invokable registry call = (case registry (tc_name call) of Some t \<Rightarrow> tl_invokable t | None \<Rightarrow> False)"

text \<open>The loop over \<open>end\<close>, with the calls that are left as its argument.\<close>

fun batch_loop :: "registry \<Rightarrow> nat \<Rightarrow> tool_call list \<Rightarrow> nat" where
  "batch_loop registry n [] = n"
| "batch_loop registry n (call # calls) =
    (if invokable registry call then n else batch_loop registry (Suc n) calls)"

definition toolBatchEnd :: "registry \<Rightarrow> tool_call list \<Rightarrow> nat" where
  "toolBatchEnd registry calls =
    (if invokable registry (hd calls) then 1 else batch_loop registry 1 (tl calls))"

section \<open>The nodes\<close>

text \<open>
  The environment of a step: whether the engine's context can be read and written and its
  events are accepted, what the model answers, and what each tool does.
\<close>

record react_env =
  re_get :: "agent_error option"
  re_set :: "agent_error option"
  re_call_started :: "agent_error option"
  re_invoke :: "message list \<Rightarrow> agent_error + model_response"
  re_call_finished :: "agent_error option"
  re_tool :: "tool_call \<Rightarrow> tool_env"

definition state_get :: "agent_error option \<Rightarrow> 's \<Rightarrow> agent_error + 's" where
  "state_get fault st = (case fault of Some e \<Rightarrow> Inl e | None \<Rightarrow> Inr st)"

definition state_set :: "agent_error option \<Rightarrow> 'r \<Rightarrow> 's \<Rightarrow> agent_error + ('r \<times> 's)" where
  "state_set fault r st = (case fault of Some e \<Rightarrow> Inl e | None \<Rightarrow> Inr (r, st))"

text \<open>The state a request starts a run with.\<close>

definition instruction_message :: "string \<Rightarrow> message" where
  "instruction_message text =
    \<lparr>msg_role = RoleSystem, msg_parts = [\<lparr>pt_type = PartText, pt_text = text, pt_ref = None\<rparr>],
     msg_tool_calls = [], msg_tool_call_id = ''''\<rparr>"

definition react_init :: "react_config \<Rightarrow> request \<Rightarrow> react_state" where
  "react_init cfg rq =
    \<lparr>Turn = 0, ToolCalls = 0,
     Messages = (if rc_instruction cfg \<noteq> '''' then [instruction_message (rc_instruction cfg)] else [])
       @ rq_messages rq,
     PendingObservations = [], RemainingToolCalls = [],
     Artifacts = rq_artifacts rq, Metadata = rq_metadata rq\<rparr>"

definition prepare :: "react_config \<Rightarrow> react_env \<Rightarrow> react_state \<Rightarrow> agent_error + (message list \<times> react_state)" where
  "prepare cfg en st0 =
    rbind (state_get (re_get en) st0) (\<lambda>st.
    if Turn st \<ge> MaxTurns (rc_limits cfg)
    then Inl (Errorf ''react: max turns %d reached'' [Num (MaxTurns (rc_limits cfg))])
    else let st' = st\<lparr>Turn := Turn st + 1,
                Messages := Messages st @ map ob_message (PendingObservations st),
                PendingObservations := []\<rparr>
      in state_set (re_set en) (Messages st') st')"

definition model_node ::
  "react_config \<Rightarrow> react_env \<Rightarrow> message list \<Rightarrow> react_state \<Rightarrow> agent_error + (turn_result \<times> react_state)" where
  "model_node cfg en rq st0 =
    (case re_call_started en of Some e \<Rightarrow> Inl e | None \<Rightarrow>
     let answer = re_invoke en rq;
         invokeErr = (case answer of Inl e \<Rightarrow> Some e | Inr _ \<Rightarrow> None)
     in (case re_call_finished en of
           Some e \<Rightarrow> Inl (case join_errors [invokeErr, Some e] of Some j \<Rightarrow> j | None \<Rightarrow> e)
         | None \<Rightarrow> (case answer of
             Inl e \<Rightarrow> Inl (Wrapped ''react: invoke model: %w'' [] e)
           | Inr resp \<Rightarrow>
               rbind (state_get (re_get en) st0) (\<lambda>st.
               let m = mrs_message resp;
                   st1 = (if msg_parts m \<noteq> [] \<or> msg_role m \<noteq> RoleUnset
                          then st\<lparr>Messages := Messages st @ [m]\<rparr> else st)
               in rbind (normalizeTurn cfg resp st1) (\<lambda>(result, st2).
                  state_set (re_set en) result st2)))))"

definition dispatch_tools ::
  "react_config \<Rightarrow> react_env \<Rightarrow> react_state \<Rightarrow> agent_error + (tool_call list \<times> react_state)" where
  "dispatch_tools cfg en st0 =
    rbind (state_get (re_get en) st0) (\<lambda>st.
    if RemainingToolCalls st = [] then Inl (Errorf ''react: no pending tool calls'' [])
    else let n = toolBatchEnd (rc_registry cfg) (RemainingToolCalls st)
      in state_set (re_set en) (take n (RemainingToolCalls st))
           (st\<lparr>RemainingToolCalls := drop n (RemainingToolCalls st)\<rparr>))"

definition recordToolOutcome ::
  "react_config \<Rightarrow> boxed_outcome \<Rightarrow> react_state \<Rightarrow> agent_error + react_state" where
  "recordToolOutcome cfg out st =
    rbind (rc_observe_outcome cfg out) (\<lambda>ob.
    Inr (st\<lparr>PendingObservations := PendingObservations st @ [ob],
            Artifacts := Artifacts st @ toolOutcomeRefs out\<rparr>))"

fun record_outcomes ::
  "react_config \<Rightarrow> boxed_outcome list \<Rightarrow> react_state \<Rightarrow> agent_error + react_state" where
  "record_outcomes cfg [] st = Inr st"
| "record_outcomes cfg (out # outs) st =
    (case recordToolOutcome cfg out st of
       Inl e \<Rightarrow> Inl (Wrapped ''react: observe tool outcome: %w'' [] e)
     | Inr st' \<Rightarrow> record_outcomes cfg outs st')"

definition observe_tools ::
  "react_config \<Rightarrow> react_env \<Rightarrow> boxed_outcome list \<Rightarrow> react_state \<Rightarrow> agent_error + (bool \<times> react_state)" where
  "observe_tools cfg en outs st0 =
    rbind (state_get (re_get en) st0) (\<lambda>st.
    rbind (record_outcomes cfg outs st) (\<lambda>st'.
    state_set (re_set en) (RemainingToolCalls st' \<noteq> []) st'))"

definition finish :: "react_env \<Rightarrow> message \<Rightarrow> react_state \<Rightarrow> agent_error + response" where
  "finish en m st0 =
    (if msg_parts m = [] then Inl (Errorf ''react: final intent has no message'' [])
     else rbind (state_get (re_get en) st0) (\<lambda>st.
       Inr \<lparr>rs_message = m, rs_artifacts = Artifacts st, rs_metadata = Metadata st\<rparr>))"

text \<open>The merge \<open>continue\<close> sees the turn of the model node or the progress of the observer.\<close>

definition continue_node :: "turn_result + bool \<Rightarrow> bool" where
  "continue_node input = (case input of Inl turn \<Rightarrow> tu_kind turn = turnTools | Inr progress \<Rightarrow> progress)"

section \<open>The run\<close>

text \<open>
  The node that is due, with its input. A node that fails ends the run, with the errors
  of its activations; a failed tool of a batch fails the run after the batch has settled.
\<close>

datatype react_phase =
    AtPrepare
  | AtModel "message list"
  | AtContinue "turn_result + bool"
  | AtDispatch
  | AtTools "tool_call list"
  | AtObserve "boxed_outcome list"
  | AtFinish message
  | Finished response
  | Failed "agent_error list"

record react_run =
  rr_phase :: react_phase
  rr_state :: react_state

definition route_model :: "turn_result \<Rightarrow> agent_error + react_phase" where
  "route_model result =
    (if tu_kind result = turnFinal then Inr (AtFinish (tu_message result))
     else if tu_kind result = turnTools \<or> tu_kind result = turnRepair then Inr (AtContinue (Inl result))
     else Inl (Errorf ''react: unsupported turn kind %d'' [Num (tu_kind result)]))"

definition route_continue :: "bool \<Rightarrow> react_phase" where
  "route_continue tools = (if tools then AtDispatch else AtPrepare)"

text \<open>A node with its route: the next phase, with the node's new state.\<close>

definition settle :: "react_run \<Rightarrow> agent_error + ('r \<times> react_state) \<Rightarrow> ('r \<Rightarrow> react_phase) \<Rightarrow> react_run" where
  "settle c result route =
    (case result of
       Inl e \<Rightarrow> c\<lparr>rr_phase := Failed [e]\<rparr>
     | Inr (r, st) \<Rightarrow> \<lparr>rr_phase = route r, rr_state = st\<rparr>)"

definition tool_results :: "react_config \<Rightarrow> react_env \<Rightarrow> tool_call list \<Rightarrow> (agent_error + boxed_outcome) list" where
  "tool_results cfg en calls = map (\<lambda>call. dispatch_tool (rc_registry cfg) (re_tool en call) call) calls"

definition react_next :: "react_config \<Rightarrow> react_env \<Rightarrow> react_run \<Rightarrow> react_run" where
  "react_next cfg en c =
    (case rr_phase c of
       AtPrepare \<Rightarrow> settle c (prepare cfg en (rr_state c)) AtModel
     | AtModel rq \<Rightarrow> settle c (model_node cfg en rq (rr_state c))
         (\<lambda>result. case route_model result of Inl e \<Rightarrow> Failed [e] | Inr p \<Rightarrow> p)
     | AtContinue input \<Rightarrow> c\<lparr>rr_phase := route_continue (continue_node input)\<rparr>
     | AtDispatch \<Rightarrow> settle c (dispatch_tools cfg en (rr_state c)) AtTools
     | AtTools calls \<Rightarrow>
         let results = tool_results cfg en calls; errors = [e. Inl e \<leftarrow> results]
         in c\<lparr>rr_phase := (if errors \<noteq> [] then Failed errors else AtObserve [v. Inr v \<leftarrow> results])\<rparr>
     | AtObserve outs \<Rightarrow> settle c (observe_tools cfg en outs (rr_state c)) (\<lambda>progress. AtContinue (Inr progress))
     | AtFinish m \<Rightarrow> c\<lparr>rr_phase := (case finish en m (rr_state c) of Inl e \<Rightarrow> Failed [e] | Inr r \<Rightarrow> Finished r)\<rparr>
     | Finished _ \<Rightarrow> c
     | Failed _ \<Rightarrow> c)"

definition run_ended :: "react_run \<Rightarrow> bool" where
  "run_ended c = (case rr_phase c of Finished _ \<Rightarrow> True | Failed _ \<Rightarrow> True | _ \<Rightarrow> False)"

definition react_start :: "react_config \<Rightarrow> request \<Rightarrow> react_run" where
  "react_start cfg rq = \<lparr>rr_phase = AtPrepare, rr_state = react_init cfg rq\<rparr>"

inductive react_step :: "react_config \<Rightarrow> react_run \<Rightarrow> react_run \<Rightarrow> bool" for cfg where
  react_stepI: "\<not> run_ended c \<Longrightarrow> react_step cfg c (react_next cfg en c)"

inductive_cases react_stepE: "react_step cfg c c'"

section \<open>Construction\<close>

text \<open>
  \<open>New\<close> up to the building of the workflow: the identity and the model, the limits that the
  options \<open>WithLimits\<close> gave, all of them validated and the last one kept, and the tools.
\<close>

definition new_react ::
  "identity \<Rightarrow> 'm option \<Rightarrow> limits list \<Rightarrow> string \<Rightarrow> tool option list \<Rightarrow> (bytes \<Rightarrow> bool) \<Rightarrow>
   (boxed_outcome \<Rightarrow> agent_error + observation) \<Rightarrow> (int \<Rightarrow> repair_request \<Rightarrow> agent_error + observation) \<Rightarrow>
   agent_error + react_config" where
  "new_react i model given instruction tools json observe_outcome observe_repair =
    (case Err (chain [Identity ''agent'' i, Present (Str ''model'') model] (new_validator ''react'')) of
       Some e \<Rightarrow> Inl e
     | None \<Rightarrow>
    let l = last (DefaultLimits # given);
        validation = fold WithLimits given (new_validator ''react'')
    in (case Err validation of
       Some e \<Rightarrow> Inl e
     | None \<Rightarrow>
    rbind (indexTools json tools) (\<lambda>(specs, registry).
    Inr \<lparr>rc_instruction = instruction, rc_limits = l, rc_registry = registry, rc_json = json,
      rc_observe_outcome = observe_outcome, rc_observe_repair = observe_repair\<rparr>)))"

end
