(* ===== verification/React_Proofs.thy ===== *)
theory React_Proofs
  imports React
begin

text \<open>
  The invariant of a ReAct run, its bounds and its termination: every request that reaches
  the model shows a complete transcript, in which the tool calls of each assistant message
  are answered in order, and the calls of all messages together stay within the limit.
\<close>

section \<open>Validation\<close>

lemma check_tool_call_passes:
  "passes (check_tool_call json (i, call) v) \<longleftrightarrow>
    tc_id call \<noteq> '''' \<and> tc_name call \<noteq> '''' \<and> (tc_arguments call = [] \<or> json (tc_arguments call)) \<and>
    (''tool call id'', tc_id call) \<notin> set (vd_seen v) \<and> passes v"
  by (auto simp: check_tool_call_def check_simps)

lemma check_tool_call_seen:
  "tc_id call \<noteq> '''' \<Longrightarrow>
    set (vd_seen (check_tool_call json (i, call) v)) = insert (''tool call id'', tc_id call) (set (vd_seen v))"
  by (simp add: check_tool_call_def check_simps)

lemma check_tool_calls_pass:
  "passes (fold (check_tool_call json) (enumerate i calls) v) \<longleftrightarrow>
    passes v \<and> (\<forall>c \<in> set calls. tc_id c \<noteq> '''' \<and> tc_name c \<noteq> '''' \<and> (tc_arguments c = [] \<or> json (tc_arguments c))) \<and>
    distinct (map tc_id calls) \<and> (\<forall>c \<in> set calls. (''tool call id'', tc_id c) \<notin> set (vd_seen v))"
proof (induction calls arbitrary: i v)
  case Nil
  then show ?case by simp
next
  case (Cons c calls)
  show ?case
  proof (cases "tc_id c = ''''")
    case True
    then show ?thesis by (simp add: Cons check_tool_call_passes)
  next
    case False
    then show ?thesis
      by (auto simp: Cons check_tool_call_passes check_tool_call_seen image_iff)
  qed
qed

lemma validateToolCalls_None:
  "validateToolCalls json calls = None \<longleftrightarrow>
    calls \<noteq> [] \<and> distinct (map tc_id calls) \<and>
    (\<forall>c \<in> set calls. tc_id c \<noteq> '''' \<and> tc_name c \<noteq> '''' \<and> (tc_arguments c = [] \<or> json (tc_arguments c)))"
  by (auto simp: validateToolCalls_def check_tool_calls_pass check_simps)

section \<open>Batches\<close>

lemma batch_loop_eq:
  "batch_loop registry n calls = n + length (takeWhile (\<lambda>c. \<not> invokable registry c) calls)"
  by (induction calls arbitrary: n) auto

lemma toolBatchEnd_bounds: "calls \<noteq> [] \<Longrightarrow> 1 \<le> toolBatchEnd registry calls \<and> toolBatchEnd registry calls \<le> length calls"
  by (cases calls) (auto simp: toolBatchEnd_def batch_loop_eq length_takeWhile_le)

lemma toolBatch_take:
  "calls \<noteq> [] \<Longrightarrow> take (toolBatchEnd registry calls) calls =
    (if invokable registry (hd calls) then [hd calls]
     else takeWhile (\<lambda>c. \<not> invokable registry c) calls)"
  by (cases calls) (auto simp: toolBatchEnd_def batch_loop_eq takeWhile_eq_take [symmetric])

section \<open>The dispatcher\<close>

lemma dispatch_tool_outcome:
  assumes "dispatch_tool registry te call = Inr out"
  shows "ToolCallID out = tc_id call" "ToolName out = tc_name call" "asToolInterrupt out = None"
  using assms
  by (auto simp: dispatch_tool_def execute_tool_def unknownToolOutcome_def join_errors_def Let_def
      split: option.split_asm sum.split_asm if_split_asm)

section \<open>Transcripts\<close>

text \<open>The observations that answer a list of calls, in order.\<close>

definition answers :: "react_config \<Rightarrow> tool_call list \<Rightarrow> observation list \<Rightarrow> bool" where
  "answers cfg calls obs \<longleftrightarrow> list_all2 (\<lambda>c ob. \<exists>out. ToolCallID out = tc_id c \<and> ToolName out = tc_name c \<and>
     rc_observe_outcome cfg out = Inr ob) calls obs"

lemma answers_append: "answers cfg cs os \<Longrightarrow> answers cfg ds ps \<Longrightarrow> answers cfg (cs @ ds) (os @ ps)"
  by (simp add: answers_def list_all2_appendI)

text \<open>
  The messages of a run that began with the given ones, with the number of turns and of
  tool calls they hold.
\<close>

inductive transcript :: "react_config \<Rightarrow> message list \<Rightarrow> nat \<Rightarrow> nat \<Rightarrow> message list \<Rightarrow> bool" for cfg init where
  transcript_start: "transcript cfg init 0 0 init"
| transcript_tools: "transcript cfg init t k ms \<Longrightarrow> msg_role m = RoleAssistant \<Longrightarrow> msg_tool_calls m \<noteq> [] \<Longrightarrow>
    distinct (map tc_id (msg_tool_calls m)) \<Longrightarrow> answers cfg (msg_tool_calls m) obs \<Longrightarrow>
    transcript cfg init (Suc t) (k + length (msg_tool_calls m)) (ms @ [m] @ map ob_message obs)"
| transcript_repair: "transcript cfg init t k ms \<Longrightarrow> (\<forall>m \<in> set said. msg_tool_calls m = []) \<Longrightarrow> length said \<le> 1 \<Longrightarrow>
    rc_observe_repair cfg n r = Inr ob \<Longrightarrow> transcript cfg init (Suc t) k (ms @ said @ [ob_message ob])"

section \<open>The invariant\<close>

definition within_limits :: "react_config \<Rightarrow> react_state \<Rightarrow> bool" where
  "within_limits cfg st \<longleftrightarrow> 0 \<le> Turn st \<and> (Turn st \<le> MaxTurns (rc_limits cfg) \<or> Turn st = 0) \<and>
     0 \<le> ToolCalls st \<and> (ToolCalls st \<le> MaxToolCalls (rc_limits cfg) \<or> ToolCalls st = 0)"

text \<open>Between two turns: the messages and the observations that wait make a transcript.\<close>

definition between_turns :: "react_config \<Rightarrow> message list \<Rightarrow> react_state \<Rightarrow> bool" where
  "between_turns cfg init st \<longleftrightarrow> RemainingToolCalls st = [] \<and>
     (\<exists>t k. transcript cfg init t k (Messages st @ map ob_message (PendingObservations st)) \<and>
       int t \<le> Turn st \<and> int k = ToolCalls st)"

text \<open>Within a tool turn: the calls are those answered, those running and those remaining.\<close>

definition within_turn :: "react_config \<Rightarrow> message list \<Rightarrow> tool_call list \<Rightarrow> react_state \<Rightarrow> bool" where
  "within_turn cfg init running st \<longleftrightarrow>
     (\<exists>t k ms m answered. Messages st = ms @ [m] \<and> transcript cfg init t k ms \<and> int t < Turn st \<and>
        msg_role m = RoleAssistant \<and> distinct (map tc_id (msg_tool_calls m)) \<and> msg_tool_calls m \<noteq> [] \<and>
        msg_tool_calls m = answered @ running @ RemainingToolCalls st \<and>
        answers cfg answered (PendingObservations st) \<and>
        ToolCalls st = int (k + length (msg_tool_calls m)))"

text \<open>The message of a response is recorded unless it is empty.\<close>

definition said :: "message \<Rightarrow> message list" where
  "said m = (if msg_parts m \<noteq> [] \<or> msg_role m \<noteq> RoleUnset then [m] else [])"

text \<open>A final message without tool calls follows a complete transcript.\<close>

definition concludes :: "react_config \<Rightarrow> message list \<Rightarrow> message \<Rightarrow> react_state \<Rightarrow> bool" where
  "concludes cfg init m st \<longleftrightarrow> msg_tool_calls m = [] \<and>
     (\<exists>t k ms. Messages st = ms @ said m \<and> transcript cfg init t k ms \<and> int t < Turn st \<and> int k = ToolCalls st)"

definition phase_inv :: "react_config \<Rightarrow> message list \<Rightarrow> react_phase \<Rightarrow> react_state \<Rightarrow> bool" where
  "phase_inv cfg init p st \<longleftrightarrow> (case p of
     AtPrepare \<Rightarrow> between_turns cfg init st
   | AtModel rq \<Rightarrow> rq = Messages st \<and> PendingObservations st = [] \<and> RemainingToolCalls st = [] \<and>
       (\<exists>t k. transcript cfg init t k (Messages st) \<and> int t < Turn st \<and> int k = ToolCalls st)
   | AtContinue (Inl turn) \<Rightarrow>
       if tu_kind turn = turnTools then within_turn cfg init [] st \<and> RemainingToolCalls st \<noteq> []
       else between_turns cfg init st
   | AtContinue (Inr progress) \<Rightarrow> within_turn cfg init [] st \<and> (progress \<longleftrightarrow> RemainingToolCalls st \<noteq> [])
   | AtDispatch \<Rightarrow> within_turn cfg init [] st \<and> RemainingToolCalls st \<noteq> []
   | AtTools calls \<Rightarrow> within_turn cfg init calls st \<and> calls \<noteq> []
   | AtObserve outs \<Rightarrow> (\<exists>calls. within_turn cfg init calls st \<and> calls \<noteq> [] \<and>
       list_all2 (\<lambda>call out. ToolCallID out = tc_id call \<and> ToolName out = tc_name call) calls outs)
   | AtFinish m \<Rightarrow> concludes cfg init m st
   | Finished r \<Rightarrow> concludes cfg init (rs_message r) st \<and> msg_parts (rs_message r) \<noteq> [] \<and>
       rs_artifacts r = Artifacts st \<and> rs_metadata r = Metadata st
   | Failed _ \<Rightarrow> True)"

definition react_inv :: "react_config \<Rightarrow> message list \<Rightarrow> react_run \<Rightarrow> bool" where
  "react_inv cfg init c \<longleftrightarrow>
     within_limits cfg (rr_state c) \<and> phase_inv cfg init (rr_phase c) (rr_state c)"

lemma react_start_inv: "react_inv cfg (Messages (react_init cfg rq)) (react_start cfg rq)"
  by (auto simp: react_inv_def phase_inv_def react_start_def between_turns_def within_limits_def react_init_def
      intro: transcript_start)

lemma state_set_Inr [simp]: "state_set f r st = Inr (r', st') \<longleftrightarrow> f = None \<and> r' = r \<and> st' = st"
  by (auto simp: state_set_def split: option.split)

lemma state_get_Inr [simp]: "state_get f st = Inr st' \<longleftrightarrow> f = None \<and> st' = st"
  by (auto simp: state_get_def split: option.split)

lemma prepare_inv:
  assumes "between_turns cfg init st" "within_limits cfg st" "prepare cfg en st = Inr (rq, st')"
  shows "within_limits cfg st'" "phase_inv cfg init (AtModel rq) st'" "Turn st' = Turn st + 1"
    "ToolCalls st' = ToolCalls st" "Turn st < MaxTurns (rc_limits cfg)"
  using assms
  by (auto simp: prepare_def rbind_Inr_iff Let_def between_turns_def within_limits_def phase_inv_def
      split: if_split_asm)

lemma normalizeToolTurn_Inr:
  "normalizeToolTurn cfg m st = Inr (result, st') \<longleftrightarrow>
    msg_tool_calls m \<noteq> [] \<and> msg_role m = RoleAssistant \<and> validateToolCalls (rc_json cfg) (msg_tool_calls m) = None \<and>
    int (length (msg_tool_calls m)) \<le> MaxToolCalls (rc_limits cfg) - ToolCalls st \<and>
    result = \<lparr>tu_kind = turnTools, tu_message = no_message\<rparr> \<and>
    st' = st\<lparr>ToolCalls := ToolCalls st + int (length (msg_tool_calls m)), RemainingToolCalls := msg_tool_calls m\<rparr>"
  by (auto simp: normalizeToolTurn_def Let_def split: option.splits)

lemma normalizeTurn_cases:
  assumes "normalizeTurn cfg resp st = Inr (result, st')"
  obtains
    (final) "result = \<lparr>tu_kind = turnFinal, tu_message = mrs_message resp\<rparr>" "st' = st"
      "msg_tool_calls (mrs_message resp) = []" "mrs_intent resp = Some FinalIntent \<or> mrs_intent resp = Some (FinalPointer (Some ()))"
  | (tools) "normalizeToolTurn cfg (mrs_message resp) st = Inr (result, st')" "isToolCallIntent (mrs_intent resp)"
  | (repair) r ob where "result = \<lparr>tu_kind = turnRepair, tu_message = no_message\<rparr>"
      "st' = st\<lparr>PendingObservations := PendingObservations st @ [ob]\<rparr>"
      "rc_observe_repair cfg (Turn st) r = Inr ob" "msg_tool_calls (mrs_message resp) = []"
proof -
  have repair_Inr: "normalizeRepairTurn cfg r st = Inr (result, st') \<Longrightarrow> \<exists>ob. rc_observe_repair cfg (Turn st) r = Inr ob \<and>
      result = \<lparr>tu_kind = turnRepair, tu_message = no_message\<rparr> \<and>
      st' = st\<lparr>PendingObservations := PendingObservations st @ [ob]\<rparr>" for r
    by (auto simp: normalizeRepairTurn_def split: sum.split_asm)
  from assms show thesis
    by (auto simp: normalizeTurn_def Let_def isToolCallIntent_def split: if_split_asm option.split_asm intent.split_asm
        dest!: repair_Inr intro: final tools repair)
qed

lemma model_node_Inr:
  assumes "model_node cfg en rq st = Inr (result, st')"
  obtains resp where "re_invoke en rq = Inr resp"
    "normalizeTurn cfg resp (st\<lparr>Messages := Messages st @ said (mrs_message resp)\<rparr>) = Inr (result, st')"
proof -
  from assms obtain resp where r: "re_invoke en rq = Inr resp"
    by (auto simp: model_node_def Let_def split: option.split_asm sum.split_asm)
  moreover have "normalizeTurn cfg resp (st\<lparr>Messages := Messages st @ said (mrs_message resp)\<rparr>) = Inr (result, st')"
    using assms r by (auto simp: model_node_def Let_def said_def rbind_Inr_iff split: option.split_asm if_split_asm)
  ultimately show thesis by (rule that)
qed

lemma model_inv:
  assumes p: "phase_inv cfg init (AtModel rq) st" and l: "within_limits cfg st"
    and ok: "model_node cfg en rq st = Inr (result, st')"
  shows "within_limits cfg st' \<and> (\<exists>q. route_model result = Inr q \<and> phase_inv cfg init q st') \<and> Turn st' = Turn st \<and>
    ToolCalls st \<le> ToolCalls st' \<and>
    int (length (RemainingToolCalls st')) = ToolCalls st' - ToolCalls st"
proof -
  from p obtain t k where tr: "transcript cfg init t k (Messages st)" "int t < Turn st" "int k = ToolCalls st"
    and st: "PendingObservations st = []" "RemainingToolCalls st = []"
    by (auto simp: phase_inv_def)
  from ok obtain resp where n:
    "normalizeTurn cfg resp (st\<lparr>Messages := Messages st @ said (mrs_message resp)\<rparr>) = Inr (result, st')"
    by (rule model_node_Inr)
  then show ?thesis
  proof (cases rule: normalizeTurn_cases)
    case final
    have "concludes cfg init (mrs_message resp) st'" using final(2,3) tr unfolding concludes_def
      by (intro conjI exI [of _ t] exI [of _ k] exI [of _ "Messages st"]) simp_all
    then show ?thesis using l st final(1,2) by (auto simp: route_model_def phase_inv_def within_limits_def turnFinal_def)
  next
    case tools
    let ?m = "mrs_message resp"
    from tools have m: "msg_tool_calls ?m \<noteq> []" "msg_role ?m = RoleAssistant" "distinct (map tc_id (msg_tool_calls ?m))"
      "int (length (msg_tool_calls ?m)) \<le> MaxToolCalls (rc_limits cfg) - ToolCalls st"
      "result = \<lparr>tu_kind = turnTools, tu_message = no_message\<rparr>"
      and st': "st' = st\<lparr>Messages := Messages st @ [?m], ToolCalls := ToolCalls st + int (length (msg_tool_calls ?m)),
        RemainingToolCalls := msg_tool_calls ?m\<rparr>"
      by (auto simp: normalizeToolTurn_Inr validateToolCalls_None said_def)
    have "within_turn cfg init [] st'"
      unfolding within_turn_def using tr st m(1-3)
      by (intro exI [of _ t] exI [of _ k] exI [of _ "Messages st"] exI [of _ ?m] exI [of _ "[]"])
        (auto simp: st' answers_def)
    then show ?thesis using m(1,4,5) st' l
      by (auto simp: route_model_def phase_inv_def within_limits_def turnFinal_def turnTools_def turnRepair_def)
  next
    case (repair r ob)
    have "transcript cfg init (Suc t) k (Messages st @ said (mrs_message resp) @ [ob_message ob])"
      using tr(1) by (rule transcript_repair) (use repair(3,4) in \<open>auto simp: said_def\<close>)
    then have "between_turns cfg init st'"
      unfolding between_turns_def using tr(2,3) st
      by (intro conjI exI [of _ "Suc t"] exI [of _ k]) (simp_all add: repair(2))
    then show ?thesis using repair(1,2) l st
      by (auto simp: route_model_def phase_inv_def within_limits_def turnFinal_def turnTools_def turnRepair_def)
  qed
qed

lemma dispatch_inv:
  assumes w: "within_turn cfg init [] st" and l: "within_limits cfg st"
    and ok: "dispatch_tools cfg en st = Inr (calls, st')"
  shows "within_limits cfg st'" "within_turn cfg init calls st'" "calls \<noteq> []" "Turn st' = Turn st"
    "ToolCalls st' = ToolCalls st" "RemainingToolCalls st = calls @ RemainingToolCalls st'"
    "calls = take (toolBatchEnd (rc_registry cfg) (RemainingToolCalls st)) (RemainingToolCalls st)"
proof -
  from ok have r: "RemainingToolCalls st \<noteq> []"
    and c: "calls = take (toolBatchEnd (rc_registry cfg) (RemainingToolCalls st)) (RemainingToolCalls st)"
    and st': "st' = st\<lparr>RemainingToolCalls := drop (toolBatchEnd (rc_registry cfg) (RemainingToolCalls st))
      (RemainingToolCalls st)\<rparr>"
    by (auto simp: dispatch_tools_def rbind_Inr_iff Let_def split: if_split_asm)
  show "calls = take (toolBatchEnd (rc_registry cfg) (RemainingToolCalls st)) (RemainingToolCalls st)" by (rule c)
  show "calls \<noteq> []" using toolBatchEnd_bounds [OF r, of "rc_registry cfg"] r c by auto
  show split: "RemainingToolCalls st = calls @ RemainingToolCalls st'" using c st' by simp
  show "Turn st' = Turn st" "ToolCalls st' = ToolCalls st" by (simp_all add: st')
  show "within_limits cfg st'" using l by (simp add: st' within_limits_def)
  have same: "Messages st' = Messages st" "PendingObservations st' = PendingObservations st"
    "Turn st' = Turn st" "ToolCalls st' = ToolCalls st" by (simp_all add: st')
  show "within_turn cfg init calls st'"
    using w unfolding within_turn_def same split by simp
qed

lemma record_outcomes_Inr:
  "record_outcomes cfg outs st = Inr st' \<Longrightarrow>
    \<exists>obs. list_all2 (\<lambda>out ob. rc_observe_outcome cfg out = Inr ob) outs obs \<and>
      st' = st\<lparr>PendingObservations := PendingObservations st @ obs,
               Artifacts := Artifacts st @ concat (map toolOutcomeRefs outs)\<rparr>"
proof (induction outs arbitrary: st)
  case Nil
  then show ?case by simp
next
  case (Cons out outs)
  from Cons.prems obtain ob where ob: "rc_observe_outcome cfg out = Inr ob"
    and rest: "record_outcomes cfg outs (st\<lparr>PendingObservations := PendingObservations st @ [ob],
      Artifacts := Artifacts st @ toolOutcomeRefs out\<rparr>) = Inr st'"
    by (auto simp: recordToolOutcome_def rbind_Inr_iff split: sum.split_asm)
  from Cons.IH [OF rest] obtain obs where "list_all2 (\<lambda>out ob. rc_observe_outcome cfg out = Inr ob) outs obs"
    "st' = st\<lparr>PendingObservations := PendingObservations st @ ob # obs,
       Artifacts := Artifacts st @ concat (map toolOutcomeRefs (out # outs))\<rparr>" by auto
  with ob show ?case by (intro exI [of _ "ob # obs"]) simp
qed

lemma observe_inv:
  assumes w: "within_turn cfg init calls st" and l: "within_limits cfg st"
    and outs: "list_all2 (\<lambda>call out. ToolCallID out = tc_id call \<and> ToolName out = tc_name call) calls outs"
    and ok: "observe_tools cfg en outs st = Inr (progress, st')"
  shows "within_limits cfg st'" "within_turn cfg init [] st'" "progress \<longleftrightarrow> RemainingToolCalls st' \<noteq> []"
    "Turn st' = Turn st" "ToolCalls st' = ToolCalls st" "RemainingToolCalls st' = RemainingToolCalls st"
proof -
  from ok obtain st1 where r: "record_outcomes cfg outs st = Inr st1" and st': "st' = st1"
    "progress \<longleftrightarrow> RemainingToolCalls st1 \<noteq> []"
    by (auto simp: observe_tools_def rbind_Inr_iff)
  from record_outcomes_Inr [OF r] obtain obs where obs: "list_all2 (\<lambda>out ob. rc_observe_outcome cfg out = Inr ob) outs obs"
    and st1: "st1 = st\<lparr>PendingObservations := PendingObservations st @ obs,
       Artifacts := Artifacts st @ concat (map toolOutcomeRefs outs)\<rparr>" by blast
  have "answers cfg calls obs" unfolding answers_def
    by (rule list_all2_trans [OF _ outs obs]) blast
  then show "within_turn cfg init [] st'"
    using w unfolding within_turn_def st' st1
    by clarsimp (metis answers_append append.assoc)
  show "within_limits cfg st'" "progress \<longleftrightarrow> RemainingToolCalls st' \<noteq> []"
    "Turn st' = Turn st" "ToolCalls st' = ToolCalls st" "RemainingToolCalls st' = RemainingToolCalls st"
    using l by (simp_all add: st' st1 within_limits_def)
qed

text \<open>A tool turn whose calls are all answered is a complete turn.\<close>

lemma within_turn_complete:
  assumes w: "within_turn cfg init [] st" and r: "RemainingToolCalls st = []"
  shows "between_turns cfg init st"
proof -
  from w r obtain t k ms m where m: "Messages st = ms @ [m]" "transcript cfg init t k ms" "int t < Turn st"
    "msg_role m = RoleAssistant" "distinct (map tc_id (msg_tool_calls m))" "msg_tool_calls m \<noteq> []"
    "answers cfg (msg_tool_calls m) (PendingObservations st)" "ToolCalls st = int (k + length (msg_tool_calls m))"
    unfolding within_turn_def by auto
  have "transcript cfg init (Suc t) (k + length (msg_tool_calls m))
    (ms @ [m] @ map ob_message (PendingObservations st))"
    using m by (intro transcript_tools) auto
  then show ?thesis using m(1,3,8) r unfolding between_turns_def
    by (intro conjI exI [of _ "Suc t"] exI [of _ "k + length (msg_tool_calls m)"]) auto
qed

lemma tool_results_outcomes:
  assumes "[e. Inl e \<leftarrow> tool_results cfg en calls] = []"
  shows "list_all2 (\<lambda>call out. ToolCallID out = tc_id call \<and> ToolName out = tc_name call) calls
    [v. Inr v \<leftarrow> tool_results cfg en calls]"
  using assms unfolding tool_results_def
  by (induction calls) (auto simp: dispatch_tool_outcome split: sum.split_asm sum.split)

section \<open>Every step keeps the invariant and uses up a bounded amount of work\<close>

definition react_weight :: "react_config \<Rightarrow> react_run \<Rightarrow> nat" where
  "react_weight cfg c =
    (let st = rr_state c;
         left = 3 * nat (MaxTurns (rc_limits cfg) - Turn st) + 4 * nat (MaxToolCalls (rc_limits cfg) - ToolCalls st);
         calls = 4 * length (RemainingToolCalls st)
     in case rr_phase c of
       AtPrepare \<Rightarrow> left + 1
     | AtModel _ \<Rightarrow> left + 3
     | AtContinue _ \<Rightarrow> left + calls + 2
     | AtDispatch \<Rightarrow> left + calls + 1
     | AtTools _ \<Rightarrow> left + calls + 4
     | AtObserve _ \<Rightarrow> left + calls + 3
     | AtFinish _ \<Rightarrow> left + 1
     | Finished _ \<Rightarrow> 0
     | Failed _ \<Rightarrow> 0)"

definition good_step :: "react_config \<Rightarrow> message list \<Rightarrow> react_run \<Rightarrow> react_run \<Rightarrow> bool" where
  "good_step cfg init c c' \<longleftrightarrow> react_inv cfg init c' \<and> react_weight cfg c' < react_weight cfg c"

lemma failed_step:
  "react_inv cfg init c \<Longrightarrow> \<not> run_ended c \<Longrightarrow> good_step cfg init c (c\<lparr>rr_phase := Failed es\<rparr>)"
  by (auto simp: good_step_def react_inv_def phase_inv_def react_weight_def run_ended_def Let_def
      split: react_phase.splits)

lemma settle_step:
  assumes "react_inv cfg init c" "\<not> run_ended c"
    and "\<And>r st. result = Inr (r, st) \<Longrightarrow> good_step cfg init c \<lparr>rr_phase = route r, rr_state = st\<rparr>"
  shows "good_step cfg init c (settle c result route)"
  using assms by (auto simp: settle_def failed_step split: sum.split)

lemma prepare_step:
  assumes i: "react_inv cfg init c" and p: "rr_phase c = AtPrepare"
  shows "good_step cfg init c (settle c (prepare cfg en (rr_state c)) AtModel)"
proof (rule settle_step [OF i])
  show "\<not> run_ended c" by (simp add: run_ended_def p)
  fix rq st assume ok: "prepare cfg en (rr_state c) = Inr (rq, st)"
  from i p have "between_turns cfg init (rr_state c)" "within_limits cfg (rr_state c)"
    by (simp_all add: react_inv_def phase_inv_def)
  from prepare_inv [OF this ok] show "good_step cfg init c \<lparr>rr_phase = AtModel rq, rr_state = st\<rparr>"
    by (simp add: good_step_def react_inv_def react_weight_def Let_def p)
qed

lemma model_step:
  assumes i: "react_inv cfg init c" and p: "rr_phase c = AtModel rq"
  shows "good_step cfg init c (settle c (model_node cfg en rq (rr_state c))
    (\<lambda>result. case route_model result of Inl e \<Rightarrow> Failed [e] | Inr q \<Rightarrow> q))"
proof (rule settle_step [OF i])
  show "\<not> run_ended c" by (simp add: run_ended_def p)
  fix result st assume ok: "model_node cfg en rq (rr_state c) = Inr (result, st)"
  from i p have "phase_inv cfg init (AtModel rq) (rr_state c)" "within_limits cfg (rr_state c)"
    by (simp_all add: react_inv_def)
  from model_inv [OF this ok] obtain q where q: "route_model result = Inr q" "phase_inv cfg init q st"
    and l: "within_limits cfg st" "Turn st = Turn (rr_state c)" "ToolCalls (rr_state c) \<le> ToolCalls st"
    "int (length (RemainingToolCalls st)) = ToolCalls st - ToolCalls (rr_state c)" by blast
  from q(1) consider m where "q = AtFinish m" | "q = AtContinue (Inl result)"
    by (auto simp: route_model_def split: if_split_asm)
  then have "react_weight cfg \<lparr>rr_phase = q, rr_state = st\<rparr> < react_weight cfg c"
  proof cases
    case 1
    then show ?thesis using l(2,3) by (simp add: react_weight_def Let_def p)
  next
    case 2
    have "4 * nat (MaxToolCalls (rc_limits cfg) - ToolCalls st) + 4 * length (RemainingToolCalls st)
      \<le> 4 * nat (MaxToolCalls (rc_limits cfg) - ToolCalls (rr_state c))"
      using l(1,3,4) i by (auto simp: within_limits_def react_inv_def)
    then show ?thesis using 2 l(2) by (simp add: react_weight_def Let_def p)
  qed
  with q l(1) show "good_step cfg init c
    \<lparr>rr_phase = (case route_model result of Inl e \<Rightarrow> Failed [e] | Inr q \<Rightarrow> q), rr_state = st\<rparr>"
    by (simp add: good_step_def react_inv_def)
qed

lemma continue_step:
  assumes i: "react_inv cfg init c" and p: "rr_phase c = AtContinue input"
  shows "good_step cfg init c (c\<lparr>rr_phase := route_continue (continue_node input)\<rparr>)"
  using i p within_turn_complete [of cfg init "rr_state c"]
  by (auto simp: good_step_def react_inv_def phase_inv_def route_continue_def continue_node_def react_weight_def Let_def
      split: sum.splits if_splits)

lemma dispatch_step:
  assumes i: "react_inv cfg init c" and p: "rr_phase c = AtDispatch"
  shows "good_step cfg init c (settle c (dispatch_tools cfg en (rr_state c)) AtTools)"
proof (rule settle_step [OF i])
  show "\<not> run_ended c" by (simp add: run_ended_def p)
  fix calls st assume ok: "dispatch_tools cfg en (rr_state c) = Inr (calls, st)"
  from i p have w: "within_turn cfg init [] (rr_state c)" "within_limits cfg (rr_state c)"
    by (simp_all add: react_inv_def phase_inv_def)
  note d = dispatch_inv [OF w ok]
  from d(3) have "3 < 4 * length calls" by (cases calls) simp_all
  then show "good_step cfg init c \<lparr>rr_phase = AtTools calls, rr_state = st\<rparr>"
    using d(1-6) by (simp add: good_step_def react_inv_def phase_inv_def react_weight_def Let_def p)
qed

lemma tools_step:
  assumes i: "react_inv cfg init c" and p: "rr_phase c = AtTools calls"
  shows "good_step cfg init c (react_next cfg en c)"
proof (cases "[e. Inl e \<leftarrow> tool_results cfg en calls] = []")
  case True
  from i p have "within_turn cfg init calls (rr_state c)" "calls \<noteq> []" "within_limits cfg (rr_state c)"
    by (simp_all add: react_inv_def phase_inv_def)
  then show ?thesis using tool_results_outcomes [OF True] True
    by (auto simp: react_next_def p Let_def good_step_def react_inv_def phase_inv_def react_weight_def)
next
  case False
  then have "react_next cfg en c = c\<lparr>rr_phase := Failed [e. Inl e \<leftarrow> tool_results cfg en calls]\<rparr>"
    by (simp add: react_next_def p Let_def)
  then show ?thesis using failed_step [OF i] by (simp add: run_ended_def p)
qed

lemma observe_step:
  assumes i: "react_inv cfg init c" and p: "rr_phase c = AtObserve outs"
  shows "good_step cfg init c (settle c (observe_tools cfg en outs (rr_state c)) (\<lambda>progress. AtContinue (Inr progress)))"
proof (rule settle_step [OF i])
  show "\<not> run_ended c" by (simp add: run_ended_def p)
  fix progress st assume ok: "observe_tools cfg en outs (rr_state c) = Inr (progress, st)"
  from i p obtain calls where w: "within_turn cfg init calls (rr_state c)" "within_limits cfg (rr_state c)"
    "list_all2 (\<lambda>call out. ToolCallID out = tc_id call \<and> ToolName out = tc_name call) calls outs"
    by (auto simp: react_inv_def phase_inv_def)
  from observe_inv [OF w ok] show "good_step cfg init c \<lparr>rr_phase = AtContinue (Inr progress), rr_state = st\<rparr>"
    by (simp add: good_step_def react_inv_def phase_inv_def react_weight_def Let_def p)
qed

lemma react_step_good: "react_inv cfg init c \<Longrightarrow> react_step cfg c c' \<Longrightarrow> good_step cfg init c c'"
proof (elim react_stepE)
  fix en assume i: "react_inv cfg init c" and c': "c' = react_next cfg en c" and e: "\<not> run_ended c"
  show ?thesis
  proof (cases "rr_phase c")
    case AtPrepare
    then show ?thesis using prepare_step [OF i] by (simp add: c' react_next_def)
  next
    case (AtModel rq)
    then show ?thesis using model_step [OF i] by (simp add: c' react_next_def)
  next
    case (AtContinue input)
    then show ?thesis using continue_step [OF i] by (simp add: c' react_next_def)
  next
    case AtDispatch
    then show ?thesis using dispatch_step [OF i] by (simp add: c' react_next_def)
  next
    case (AtTools calls)
    then show ?thesis using tools_step [OF i] by (simp add: c')
  next
    case (AtObserve outs)
    then show ?thesis using observe_step [OF i] by (simp add: c' react_next_def)
  next
    case (AtFinish m)
    then show ?thesis using i
      by (auto simp: c' react_next_def good_step_def react_inv_def phase_inv_def react_weight_def Let_def finish_def
          rbind_Inr_iff split: sum.split if_split_asm)
  qed (use e in \<open>simp_all add: run_ended_def\<close>)
qed

interpretation react: bounded_system "react_step cfg" "react_inv cfg init" "react_weight cfg" run_ended
  for cfg init
  by unfold_locales (auto dest: react_step_good simp: good_step_def intro: react_stepI)

end
