(* ===== verification/Agent_Tool.thy ===== *)
theory Agent_Tool
  imports React
begin

text \<open>
  An agent as a tool, of \<open>src/agents/agenttool/agenttool.go\<close>: a call is validated, mapped to
  a request of the child, and the child's response to the result of the call.
\<close>

record tool_result =
  tr_artifacts :: "artifact_ref list"
  tr_effects :: "artifact_ref list"

text \<open>
  An adapter: the pair of functions \<open>AdapterFuncs\<close>, either of which may be nil, or another
  implementation, which answers by itself and is not validated.
\<close>

datatype adapter =
    AdapterFuncs "(tool_call \<Rightarrow> agent_error + request) option" "(response \<Rightarrow> agent_error + tool_result) option"
  | OtherAdapter "tool_call \<Rightarrow> agent_error + request" "response \<Rightarrow> agent_error + tool_result"

fun validate_adapter :: "adapter \<Rightarrow> agent_error option" where
  "validate_adapter (AdapterFuncs inp out) =
    Err (chain [Present (Str ''input adapter'') inp, Present (Str ''output adapter'') out] (new_validator ''agenttool''))"
| "validate_adapter (OtherAdapter _ _) = None"

fun adapter_input :: "adapter \<Rightarrow> tool_call \<Rightarrow> agent_error + request" where
  "adapter_input (AdapterFuncs inp _) call =
    (case inp of None \<Rightarrow> Inl (Errorf ''agenttool: input adapter is nil'' []) | Some f \<Rightarrow> f call)"
| "adapter_input (OtherAdapter f _) call = f call"

fun adapter_output :: "adapter \<Rightarrow> response \<Rightarrow> agent_error + tool_result" where
  "adapter_output (AdapterFuncs _ out) r =
    (case out of None \<Rightarrow> Inl (Errorf ''agenttool: output adapter is nil'' []) | Some f \<Rightarrow> f r)"
| "adapter_output (OtherAdapter _ f) r = f r"

record agent_tool =
  at_spec :: tool_spec
  at_child :: identity
  at_adapter :: adapter

definition new_agent_tool ::
  "(bytes \<Rightarrow> bool) \<Rightarrow> tool_spec \<Rightarrow> identity option \<Rightarrow> adapter option \<Rightarrow> agent_error + agent_tool" where
  "new_agent_tool json spec child adapter =
    (case Err (chain [Required (Str ''tool name'') (ts_name spec), OptionalJSON json (Str ''tool schema'') (ts_schema spec),
        Present (Str ''child'') child, Present (Str ''adapter'') adapter] (new_validator ''agenttool'')) of
       Some e \<Rightarrow> Inl e
     | None \<Rightarrow>
    (case (child, adapter) of
       (Some c, Some a) \<Rightarrow> (case validate_adapter a of Some e \<Rightarrow> Inl e
         | None \<Rightarrow> (case Err (Identity ''child'' c (new_validator ''agenttool'')) of Some e \<Rightarrow> Inl e
           | None \<Rightarrow> Inr \<lparr>at_spec = spec, at_child = c, at_adapter = a\<rparr>))
     | _ \<Rightarrow> Inl (External 0)))"

definition validateCall :: "(bytes \<Rightarrow> bool) \<Rightarrow> agent_tool \<Rightarrow> tool_call \<Rightarrow> agent_error option" where
  "validateCall json t call =
    (case Err (chain [Required (Str ''tool call id'') (tc_id call), Required (Str ''tool call name'') (tc_name call),
        OptionalJSON json (Str ''tool call arguments'') (tc_arguments call)] (new_validator ''agenttool'')) of
       Some e \<Rightarrow> Some e
     | None \<Rightarrow>
         if tc_name call \<noteq> ts_name (at_spec t)
         then Some (Errorf ''agenttool: call name %q does not match tool %q''
                [Str (tc_name call), Str (ts_name (at_spec t))])
         else None)"

definition invoke_agent_tool ::
  "(bytes \<Rightarrow> bool) \<Rightarrow> (request \<Rightarrow> agent_error + response) \<Rightarrow> agent_tool option \<Rightarrow> tool_call \<Rightarrow> agent_error + outcome" where
  "invoke_agent_tool json child tool_ref call =
    (case tool_ref of None \<Rightarrow> Inl (Errorf ''agenttool: tool is nil'' []) | Some t \<Rightarrow>
    (case validateCall json t call of Some e \<Rightarrow> Inl e | None \<Rightarrow>
    (case adapter_input (at_adapter t) call of
       Inl e \<Rightarrow> Inl (Wrapped ''agenttool: adapt input: %w'' [] e)
     | Inr rq \<Rightarrow>
    (case child rq of
       Inl e \<Rightarrow> Inl (Wrapped ''agenttool: invoke child: %w'' [] e)
     | Inr r \<Rightarrow>
    (case adapter_output (at_adapter t) r of
       Inl e \<Rightarrow> Inl (Wrapped ''agenttool: adapt output: %w'' [] e)
     | Inr result \<Rightarrow>
         Inr (ToolResultOutcome (tc_id call) (tc_name call) (tr_artifacts result) (tr_effects result)))))))"

lemma validateCall_None:
  "validateCall json t call = None \<longleftrightarrow> tc_id call \<noteq> '''' \<and> tc_name call \<noteq> '''' \<and>
    (tc_arguments call = [] \<or> json (tc_arguments call)) \<and> tc_name call = ts_name (at_spec t)"
  by (auto simp: validateCall_def check_simps split: option.split)

text \<open>
  An agent tool that answers gives an outcome the ReAct dispatcher accepts: under the call's
  own id and name, and never an interrupt.
\<close>

lemma invoke_agent_tool_Inr:
  "invoke_agent_tool json child (Some t) call = Inr out \<longleftrightarrow>
    (\<exists>rq r result. validateCall json t call = None \<and> adapter_input (at_adapter t) call = Inr rq \<and>
      child rq = Inr r \<and> adapter_output (at_adapter t) r = Inr result \<and>
      out = ToolResultOutcome (tc_id call) (tc_name call) (tr_artifacts result) (tr_effects result))"
  by (auto simp: invoke_agent_tool_def split: option.splits sum.splits)

end
