(* ===== verification/React_Claims.thy ===== *)
theory React_Claims
  imports React_Proofs Agent_Tool
begin

text \<open>
  The properties of the ReAct agent and of agents that serve it as tools.
\<close>

section \<open>A run to witness them\<close>

definition ex_call :: tool_call where
  "ex_call = \<lparr>tc_id = ''c1'', tc_name = ''lookup'', tc_arguments = []\<rparr>"

definition ex_spec :: tool_spec where
  "ex_spec = \<lparr>ts_name = ''lookup'', ts_schema = []\<rparr>"

definition text_message :: "role \<Rightarrow> string \<Rightarrow> message" where
  "text_message r t = \<lparr>msg_role = r, msg_parts = [\<lparr>pt_type = PartText, pt_text = t, pt_ref = None\<rparr>],
     msg_tool_calls = [], msg_tool_call_id = ''''\<rparr>"

definition ex_react :: react_config where
  "ex_react = \<lparr>rc_instruction = ''be brief'', rc_limits = \<lparr>MaxTurns = 2, MaxToolCalls = 1, MaxParallelTools = 1\<rparr>,
     rc_registry = [''lookup'' \<mapsto> \<lparr>tl_spec = ex_spec, tl_invokable = False, tl_direct = True\<rparr>],
     rc_json = (\<lambda>_. True),
     rc_observe_outcome = (\<lambda>out. Inr \<lparr>ob_message = (text_message RoleTool ''seen'')\<lparr>msg_tool_call_id := ToolCallID out\<rparr>\<rparr>),
     rc_observe_repair = (\<lambda>_ r. Inr \<lparr>ob_message = text_message RoleUser r\<rparr>)\<rparr>"

text \<open>The model asks for the tool once, and answers when it has seen the outcome.\<close>

definition ex_asks :: message where
  "ex_asks = \<lparr>msg_role = RoleAssistant, msg_parts = [], msg_tool_calls = [ex_call], msg_tool_call_id = ''''\<rparr>"

definition ex_model :: "message list \<Rightarrow> agent_error + model_response" where
  "ex_model ms = Inr (if length ms < 4 then \<lparr>mrs_message = ex_asks, mrs_intent = Some ToolCallIntent\<rparr>
     else \<lparr>mrs_message = text_message RoleAssistant ''done'', mrs_intent = Some FinalIntent\<rparr>)"

definition ex_react_env :: react_env where
  "ex_react_env = \<lparr>re_get = None, re_set = None, re_call_started = None, re_invoke = ex_model, re_call_finished = None,
     re_tool = (\<lambda>call. \<lparr>te_started = None,
       te_answer = Inr (Some (Value (ToolResultOutcome (tc_id call) (tc_name call) [] []))), te_finished = None\<rparr>)\<rparr>"

definition ex_request :: request where
  "ex_request = \<lparr>rq_messages = [text_message RoleUser ''work''], rq_artifacts = [], rq_metadata = []\<rparr>"

definition ex_at ::
  "react_phase \<Rightarrow> int \<Rightarrow> int \<Rightarrow> message list \<Rightarrow> observation list \<Rightarrow> tool_call list \<Rightarrow> react_run" where
  "ex_at p turn calls ms obs remaining = \<lparr>rr_phase = p, rr_state = \<lparr>Turn = turn, ToolCalls = calls, Messages = ms,
     PendingObservations = obs, RemainingToolCalls = remaining, Artifacts = [], Metadata = []\<rparr>\<rparr>"

definition ex_asked :: "message list" where
  "ex_asked = [instruction_message ''be brief'', text_message RoleUser ''work'']"

definition ex_seen :: message where
  "ex_seen = (text_message RoleTool ''seen'')\<lparr>msg_tool_call_id := ''c1''\<rparr>"

definition ex_states :: "react_run list" where
  "ex_states =
    (let m2 = ex_asked @ [ex_asks]; m3 = m2 @ [ex_seen]; seen = \<lparr>ob_message = ex_seen\<rparr>;
         final = text_message RoleAssistant ''done''
     in [ex_at AtPrepare 0 0 ex_asked [] [],
         ex_at (AtModel ex_asked) 1 0 ex_asked [] [],
         ex_at (AtContinue (Inl \<lparr>tu_kind = turnTools, tu_message = no_message\<rparr>)) 1 1 m2 [] [ex_call],
         ex_at AtDispatch 1 1 m2 [] [ex_call],
         ex_at (AtTools [ex_call]) 1 1 m2 [] [],
         ex_at (AtObserve [Value (ToolResultOutcome ''c1'' ''lookup'' [] [])]) 1 1 m2 [] [],
         ex_at (AtContinue (Inr False)) 1 1 m2 [seen] [],
         ex_at AtPrepare 1 1 m2 [seen] [],
         ex_at (AtModel m3) 2 1 m3 [] [],
         ex_at (AtFinish final) 2 1 (m3 @ [final]) [] [],
         ex_at (Finished \<lparr>rs_message = final, rs_artifacts = [], rs_metadata = []\<rparr>) 2 1 (m3 @ [final]) [] []])"

lemma ex_state_steps:
  "react_next ex_react ex_react_env (ex_states ! 0) = ex_states ! 1"
  "react_next ex_react ex_react_env (ex_states ! 1) = ex_states ! 2"
  "react_next ex_react ex_react_env (ex_states ! 2) = ex_states ! 3"
  "react_next ex_react ex_react_env (ex_states ! 3) = ex_states ! 4"
  "react_next ex_react ex_react_env (ex_states ! 4) = ex_states ! 5"
  "react_next ex_react ex_react_env (ex_states ! 5) = ex_states ! 6"
  "react_next ex_react ex_react_env (ex_states ! 6) = ex_states ! 7"
  "react_next ex_react ex_react_env (ex_states ! 7) = ex_states ! 8"
  "react_next ex_react ex_react_env (ex_states ! 8) = ex_states ! 9"
  "react_next ex_react ex_react_env (ex_states ! 9) = ex_states ! 10"
  by code_simp+

lemma ex_state_runs: "k < 10 \<Longrightarrow> \<not> run_ended (ex_states ! k)"
proof -
  have "list_all (\<lambda>k. \<not> run_ended (ex_states ! k)) [0..<10]" by code_simp
  then show "k < 10 \<Longrightarrow> \<not> run_ended (ex_states ! k)" by (simp add: list_all_iff)
qed

lemma ex_start: "react_start ex_react ex_request = ex_states ! 0"
  by code_simp

lemma ex_reach: "k \<le> 10 \<Longrightarrow> reaches (react_step ex_react) k (react_start ex_react ex_request) (ex_states ! k)"
proof (induction k)
  case 0
  show ?case unfolding ex_start by (rule reaches_refl)
next
  case (Suc k)
  from Suc.prems have k: "k = 0 \<or> k = 1 \<or> k = 2 \<or> k = 3 \<or> k = 4 \<or> k = 5 \<or> k = 6 \<or> k = 7 \<or> k = 8 \<or> k = 9" by presburger
  then have "react_next ex_react ex_react_env (ex_states ! k) = ex_states ! Suc k"
    using ex_state_steps by (elim disjE) (simp_all add: eval_nat_numeral)
  moreover have "\<not> run_ended (ex_states ! k)" using Suc.prems by (intro ex_state_runs) simp
  ultimately have "react_step ex_react (ex_states ! k) (ex_states ! Suc k)" by (metis react_stepI)
  with Suc show ?case by (auto intro: reaches_step)
qed

lemma react_run_inv: "reaches (react_step cfg) n (react_start cfg rq) c \<Longrightarrow> react_inv cfg (Messages (react_init cfg rq)) c"
  using react.run_inv react_start_inv by blast

section \<open>Transcripts\<close>

text \<open>
  C15. The model never sees a tool call without its answer: whatever the model, the tools and
  the engine answer, the messages of every model request are the messages of the run's
  request followed by complete turns, in which an assistant message with tool calls is
  followed by one observation for each call, of an outcome under the call's id and name and
  in the order of the calls; the turns and the tool calls they hold are within the limits.
\<close>

theorem react_transcript:
  assumes "reaches (react_step cfg) n (react_start cfg rq) c" and "rr_phase c = AtModel ms"
    and "0 < MaxTurns (rc_limits cfg)" and "0 < MaxToolCalls (rc_limits cfg)"
  shows "\<exists>t k. transcript cfg (Messages (react_init cfg rq)) t k ms \<and>
    int t < MaxTurns (rc_limits cfg) \<and> int k \<le> MaxToolCalls (rc_limits cfg)"
proof -
  from react_run_inv [OF assms(1)] assms(2) obtain t k where
    "transcript cfg (Messages (react_init cfg rq)) t k ms" "int t < Turn (rr_state c)" "int k = ToolCalls (rr_state c)"
    and "within_limits cfg (rr_state c)" by (auto simp: react_inv_def phase_inv_def)
  with assms(3,4) show ?thesis
    by (intro exI [of _ t] exI [of _ k]) (auto simp: within_limits_def)
qed

theorem react_transcript_witness:
  "\<exists>ms t k. rr_phase (ex_states ! 8) = AtModel ms \<and> length ms = 4 \<and>
    transcript ex_react (Messages (react_init ex_react ex_request)) t k ms"
proof -
  have "(case rr_phase (ex_states ! 8) of AtModel ms \<Rightarrow> length ms = 4 | _ \<Rightarrow> False)" by code_simp
  then obtain ms where ms: "rr_phase (ex_states ! 8) = AtModel ms" "length ms = 4"
    by (auto split: react_phase.split_asm)
  have "reaches (react_step ex_react) 8 (react_start ex_react ex_request) (ex_states ! 8)" by (rule ex_reach) simp
  from react_transcript [OF this ms(1)] ms show ?thesis by (auto simp: ex_react_def)
qed

section \<open>Bounds and termination\<close>

lemma limits_of_run:
  assumes "reaches (react_step cfg) n (react_start cfg rq) c" "0 < MaxTurns (rc_limits cfg)" "0 < MaxToolCalls (rc_limits cfg)"
  shows "Turn (rr_state c) \<le> MaxTurns (rc_limits cfg)" "ToolCalls (rr_state c) \<le> MaxToolCalls (rc_limits cfg)"
  using react_run_inv [OF assms(1)] assms(2,3) by (auto simp: react_inv_def within_limits_def)

text \<open>
  C16. A run ends: it takes at most three steps for each allowed turn and four for each
  allowed tool call, and one more; its turns and tool calls stay within the limits; and from
  every state it reaches a response or an error, whatever its environment answers.
\<close>

theorem react_terminates:
  assumes run: "reaches (react_step cfg) n (react_start cfg rq) c"
    and "0 < MaxTurns (rc_limits cfg)" and "0 < MaxToolCalls (rc_limits cfg)"
  shows "n \<le> 3 * nat (MaxTurns (rc_limits cfg)) + 4 * nat (MaxToolCalls (rc_limits cfg)) + 1 \<and>
    Turn (rr_state c) \<le> MaxTurns (rc_limits cfg) \<and> ToolCalls (rr_state c) \<le> MaxToolCalls (rc_limits cfg) \<and>
    (\<exists>m d. reaches (react_step cfg) m c d \<and> run_ended d)"
proof -
  have "n + react_weight cfg c \<le> react_weight cfg (react_start cfg rq)"
    by (rule react.run_bound [OF run react_start_inv])
  moreover have "react_weight cfg (react_start cfg rq) =
      3 * nat (MaxTurns (rc_limits cfg)) + 4 * nat (MaxToolCalls (rc_limits cfg)) + 1"
    by (simp add: react_weight_def react_start_def react_init_def Let_def)
  ultimately show ?thesis using limits_of_run [OF assms] react.run_finishes [OF react_run_inv [OF run]] by simp
qed

theorem react_terminates_witness:
  "reaches (react_step ex_react) 10 (react_start ex_react ex_request) (ex_states ! 10) \<and>
   Turn (rr_state (ex_states ! 10)) \<le> 2"
proof -
  have r: "reaches (react_step ex_react) 10 (react_start ex_react ex_request) (ex_states ! 10)" by (rule ex_reach) simp
  from react_terminates [OF r] r show ?thesis by (simp add: ex_react_def)
qed

text \<open>
  A run that returns a response returns the model's last message: it has parts, asks for
  no tools, and follows a transcript in which every tool call is answered; the artifacts
  and metadata of the response are those the run has collected.
\<close>

theorem react_final_answer:
  assumes "reaches (react_step cfg) n (react_start cfg rq) c" and "rr_phase c = Finished r"
  shows "msg_parts (rs_message r) \<noteq> [] \<and> msg_tool_calls (rs_message r) = [] \<and>
    rs_artifacts r = Artifacts (rr_state c) \<and> rs_metadata r = Metadata (rr_state c) \<and>
    (\<exists>t k ms. Messages (rr_state c) = ms @ [rs_message r] \<and>
      transcript cfg (Messages (react_init cfg rq)) t k ms)"
  using react_run_inv [OF assms(1)] assms(2)
  by (auto simp: react_inv_def phase_inv_def concludes_def said_def) blast

theorem react_final_answer_witness:
  "\<exists>r. rr_phase (ex_states ! 10) = Finished r \<and> msg_tool_calls (rs_message r) = []"
proof -
  have "(case rr_phase (ex_states ! 10) of Finished r \<Rightarrow> True | _ \<Rightarrow> False)" by code_simp
  then obtain r where r: "rr_phase (ex_states ! 10) = Finished r" by (auto split: react_phase.split_asm)
  have "reaches (react_step ex_react) 10 (react_start ex_react ex_request) (ex_states ! 10)" by (rule ex_reach) simp
  from react_final_answer [OF this r] r show ?thesis by blast
qed

section \<open>Tools\<close>

text \<open>
  The calls of a turn run in batches that keep their order: a batch is the next call
  alone when its tool is invokable, and otherwise the longest run of calls before the next
  invokable tool, so that invokable tools run alone and nothing is dropped or repeated.
\<close>

theorem tool_batches:
  assumes "RemainingToolCalls st \<noteq> []" and "re_get en = None" and "re_set en = None"
  shows "\<exists>calls rest. dispatch_tools cfg en st = Inr (calls, st\<lparr>RemainingToolCalls := rest\<rparr>) \<and>
    calls \<noteq> [] \<and> calls @ rest = RemainingToolCalls st \<and>
    ((\<exists>call. calls = [call] \<and> invokable (rc_registry cfg) call) \<or>
     (\<forall>call \<in> set calls. \<not> invokable (rc_registry cfg) call) \<and>
     (rest = [] \<or> invokable (rc_registry cfg) (hd rest)))"
proof -
  let ?r = "RemainingToolCalls st" and ?n = "toolBatchEnd (rc_registry cfg) (RemainingToolCalls st)"
  have d: "dispatch_tools cfg en st = Inr (take ?n ?r, st\<lparr>RemainingToolCalls := drop ?n ?r\<rparr>)"
    using assms by (simp add: dispatch_tools_def state_get_def state_set_def Let_def)
  have ne: "take ?n ?r \<noteq> []" using toolBatchEnd_bounds [OF assms(1), of "rc_registry cfg"] assms(1) by auto
  show ?thesis
  proof (cases "invokable (rc_registry cfg) (hd ?r)")
    case True
    then have "take ?n ?r = [hd ?r]" using assms(1) by (simp add: toolBatch_take)
    with True d ne show ?thesis by (metis append_take_drop_id)
  next
    case False
    let ?P = "\<lambda>c. \<not> invokable (rc_registry cfg) c"
    have t: "take ?n ?r = takeWhile ?P ?r" using False assms(1) by (simp add: toolBatch_take)
    have w: "drop ?n ?r = dropWhile ?P ?r"
    proof -
      have "?n = length (takeWhile ?P ?r)"
        using arg_cong [OF t, of length] toolBatchEnd_bounds [OF assms(1), of "rc_registry cfg"] by simp
      then show ?thesis by (simp add: dropWhile_eq_drop)
    qed
    have "\<forall>call \<in> set (take ?n ?r). ?P call" unfolding t by (auto dest: set_takeWhileD)
    moreover have "drop ?n ?r = [] \<or> invokable (rc_registry cfg) (hd (drop ?n ?r))"
      unfolding w using hd_dropWhile [of ?P ?r] by blast
    ultimately show ?thesis using d ne by (metis append_take_drop_id)
  qed
qed

theorem tool_batches_witness:
  "\<exists>calls rest. dispatch_tools ex_react ex_react_env (rr_state (ex_states ! 3)) =
     Inr (calls, (rr_state (ex_states ! 3))\<lparr>RemainingToolCalls := rest\<rparr>) \<and> calls @ rest = [ex_call]"
proof -
  have r: "RemainingToolCalls (rr_state (ex_states ! 3)) = [ex_call]" "re_get ex_react_env = None"
    "re_set ex_react_env = None" by code_simp+
  from tool_batches [of "rr_state (ex_states ! 3)" ex_react_env ex_react] r show ?thesis by auto
qed

text \<open>
  What the observer sees of a call belongs to the call: an outcome that the dispatcher
  lets through carries the call's id and name and is not an interrupt; and a call of a tool
  that is not registered is not an error of the run but a rejection that the model may
  answer.
\<close>

theorem dispatched_outcomes:
  "(case dispatch_tool registry te call of
      Inr out \<Rightarrow> ToolCallID out = tc_id call \<and> ToolName out = tc_name call \<and> asToolInterrupt out = None
    | Inl e \<Rightarrow> True) \<and>
   (case (registry (tc_name call), te_started te, te_finished te) of
      (None, None, None) \<Rightarrow> dispatch_tool registry te call = Inr (unknownToolOutcome call)
    | _ \<Rightarrow> True)"
  using dispatch_tool_outcome [of registry te call]
  by (auto simp: dispatch_tool_def execute_tool_def Let_def split: sum.split option.split)

text \<open>
  A turn that breaks the protocol is an error, never silently repaired: tool calls
  under another intent, a tool intent without calls, with a message that is not the
  assistant's, with a call that lacks an id or a name or repeats an id, or beyond the limit,
  a refusal and a missing intent.
\<close>

theorem bad_turns_fail:
  assumes bad: "(msg_tool_calls (mrs_message resp) \<noteq> [] \<and> \<not> isToolCallIntent (mrs_intent resp)) \<or>
    (isToolCallIntent (mrs_intent resp) \<and>
      (msg_tool_calls (mrs_message resp) = [] \<or> msg_role (mrs_message resp) \<noteq> RoleAssistant \<or>
       \<not> distinct (map tc_id (msg_tool_calls (mrs_message resp))) \<or>
       (\<exists>c \<in> set (msg_tool_calls (mrs_message resp)). tc_id c = '''' \<or> tc_name c = '''') \<or>
       MaxToolCalls (rc_limits cfg) < ToolCalls st + int (length (msg_tool_calls (mrs_message resp))))) \<or>
    (\<exists>r. mrs_intent resp = Some (RefusalIntent r) \<or> mrs_intent resp = Some (RefusalPointer (Some r))) \<or>
    mrs_intent resp = None"
  shows "\<exists>e. normalizeTurn cfg resp st = Inl e"
proof (cases "normalizeTurn cfg resp st")
  case (Inr x)
  then obtain result st' where "normalizeTurn cfg resp st = Inr (result, st')" by (metis surj_pair)
  then have False
  proof (cases rule: normalizeTurn_cases)
    case final
    then show ?thesis using bad by (auto simp: isToolCallIntent_def)
  next
    case tools
    then show ?thesis using bad by (auto simp: normalizeToolTurn_Inr validateToolCalls_None isToolCallIntent_def)
  next
    case (repair r ob)
    then have "\<not> isToolCallIntent (mrs_intent resp)" "mrs_intent resp \<noteq> None"
      "mrs_intent resp \<noteq> Some (RefusalIntent q)" "mrs_intent resp \<noteq> Some (RefusalPointer (Some q))" for q
      using Inr
      by (auto simp: normalizeTurn_def isToolCallIntent_def normalizeToolTurn_def Let_def turnTools_def turnRepair_def
          turnFinal_def split: if_split_asm option.split_asm intent.split_asm)
    then show ?thesis using bad repair(4) by auto
  qed
  then show ?thesis ..
qed simp

theorem bad_turns_fail_witness:
  "\<exists>e. normalizeTurn ex_react \<lparr>mrs_message = ex_asks, mrs_intent = Some FinalIntent\<rparr> (react_init ex_react ex_request) = Inl e"
  by (rule bad_turns_fail) (simp add: ex_asks_def isToolCallIntent_def)

section \<open>Construction\<close>

lemma check_tool_passes:
  "passes (check_tool json (i, t) v) \<longleftrightarrow> passes v \<and>
    (\<exists>x. t = Some x \<and> ts_name (tl_spec x) \<noteq> '''' \<and> (ts_schema (tl_spec x) = [] \<or> json (ts_schema (tl_spec x))) \<and>
      (''tool'', ts_name (tl_spec x)) \<notin> set (vd_seen v) \<and> (tl_direct x \<or> tl_invokable x))"
  by (cases t) (auto simp: check_tool_def check_simps Let_def)

lemma check_tool_seen:
  "ts_name (tl_spec x) \<noteq> '''' \<Longrightarrow>
    set (vd_seen (check_tool json (i, Some x) v)) = insert (''tool'', ts_name (tl_spec x)) (set (vd_seen v))"
  by (simp add: check_tool_def check_simps Let_def)

lemma check_tools_pass:
  "passes (fold (check_tool json) (enumerate i (map Some ts)) v) \<longleftrightarrow> passes v \<and>
    (\<forall>t \<in> set ts. ts_name (tl_spec t) \<noteq> '''' \<and> (ts_schema (tl_spec t) = [] \<or> json (ts_schema (tl_spec t))) \<and>
      (tl_direct t \<or> tl_invokable t)) \<and> distinct (map (ts_name \<circ> tl_spec) ts) \<and>
    (\<forall>t \<in> set ts. (''tool'', ts_name (tl_spec t)) \<notin> set (vd_seen v))"
proof (induction ts arbitrary: i v)
  case Nil
  then show ?case by simp
next
  case (Cons t ts)
  show ?case
  proof (cases "ts_name (tl_spec t) = ''''")
    case True
    then show ?thesis by (simp add: Cons check_tool_passes)
  next
    case False
    then show ?thesis by (auto simp: Cons check_tool_passes check_tool_seen image_iff)
  qed
qed

lemma check_tools_present:
  "passes (fold (check_tool json) (enumerate i tools) v) \<Longrightarrow> passes v \<and> (\<exists>ts. tools = map Some ts)"
proof (induction tools arbitrary: i v)
  case Nil
  then show ?case by simp
next
  case (Cons t tools)
  from Cons.prems have "passes (fold (check_tool json) (enumerate (Suc i) tools) (check_tool json (i, t) v))" by simp
  from Cons.IH [OF this] obtain ts where p: "passes (check_tool json (i, t) v)" "tools = map Some ts" by blast
  then obtain x where "t = Some x" "passes v" by (auto simp: check_tool_passes)
  with p(2) have "t # tools = map Some (x # ts)" by simp
  with \<open>passes v\<close> show ?case by (intro conjI exI [of _ "x # ts"])
qed

lemma registry_other:
  "n \<notin> (ts_name \<circ> tl_spec) ` set ts \<Longrightarrow> fold (\<lambda>t registry. registry(ts_name (tl_spec t) \<mapsto> t)) ts m n = m n"
  by (induction ts arbitrary: m) auto

lemma registry_of_tools:
  "distinct (map (ts_name \<circ> tl_spec) ts) \<Longrightarrow> t \<in> set ts \<Longrightarrow>
    fold (\<lambda>t registry. registry(ts_name (tl_spec t) \<mapsto> t)) ts m (ts_name (tl_spec t)) = Some t"
proof (induction ts arbitrary: m)
  case Nil
  then show ?case by simp
next
  case (Cons u ts)
  show ?case
  proof (cases "t = u")
    case True
    then have "ts_name (tl_spec t) \<notin> (ts_name \<circ> tl_spec) ` set ts" using Cons.prems by simp
    from registry_other [OF this, of "m(ts_name (tl_spec u) \<mapsto> u)"] True
    show ?thesis by (simp add: fun_upd_def [symmetric])
  next
    case False
    then show ?thesis using Cons by simp
  qed
qed

lemma limits_pass:
  "passes (fold WithLimits ls v) \<longleftrightarrow>
    passes v \<and> (\<forall>l \<in> set ls. 0 < MaxTurns l \<and> 0 < MaxToolCalls l \<and> 0 < MaxParallelTools l)"
  by (induction ls arbitrary: v) (auto simp: WithLimits_def check_simps)

text \<open>
  C17. An agent is built only from sound parts: a complete identity, a model, positive
  limits, and tools that exist, are executable, have names and valid schemas; every tool is
  registered under its own name, which no other tool has.
\<close>

theorem new_react_sound:
  assumes "new_react i model given instruction tools json oo orp = Inr cfg"
  shows "id_name i \<noteq> '''' \<and> id_description i \<noteq> '''' \<and> id_version i \<noteq> '''' \<and> model \<noteq> None \<and>
    0 < MaxTurns (rc_limits cfg) \<and> 0 < MaxToolCalls (rc_limits cfg) \<and> 0 < MaxParallelTools (rc_limits cfg) \<and>
    (\<exists>ts. tools = map Some ts \<and> distinct (map (ts_name \<circ> tl_spec) ts) \<and>
      (\<forall>t \<in> set ts. ts_name (tl_spec t) \<noteq> '''' \<and> (tl_direct t \<or> tl_invokable t) \<and>
        rc_registry cfg (ts_name (tl_spec t)) = Some t))"
proof -
  from assms obtain specs registry where a: "Err (chain [Identity ''agent'' i, Present (Str ''model'') model] (new_validator ''react'')) = None"
    and l: "rc_limits cfg = last (DefaultLimits # given)"
    and v: "Err (fold WithLimits given (new_validator ''react'')) = None"
    and t: "indexTools json tools = Inr (specs, registry)" and r: "rc_registry cfg = registry"
    by (auto simp: new_react_def Let_def rbind_Inr_iff split: option.split_asm)
  from t have p: "passes (fold (check_tool json) (enumerate 0 tools) (new_validator ''react''))"
    by (auto simp: indexTools_def Let_def check_simps split: option.split_asm)
  then obtain ts where ts: "tools = map Some ts" using check_tools_present by blast
  have "[t. Some t \<leftarrow> map Some ts] = ts" for ts :: "tool list" by (induction ts) auto
  then have reg: "registry = fold (\<lambda>t registry. registry(ts_name (tl_spec t) \<mapsto> t)) ts Map.empty"
    using t by (auto simp: indexTools_def Let_def ts split: option.split_asm)
  from p have d: "distinct (map (ts_name \<circ> tl_spec) ts)"
    "\<forall>t \<in> set ts. ts_name (tl_spec t) \<noteq> '''' \<and> (tl_direct t \<or> tl_invokable t)"
    by (auto simp: ts check_tools_pass)
  have "registry (ts_name (tl_spec t)) = Some t" if "t \<in> set ts" for t
    unfolding reg by (rule registry_of_tools [OF d(1) that])
  with d ts r have "\<exists>ts. tools = map Some ts \<and> distinct (map (ts_name \<circ> tl_spec) ts) \<and>
      (\<forall>t \<in> set ts. ts_name (tl_spec t) \<noteq> '''' \<and> (tl_direct t \<or> tl_invokable t) \<and>
        rc_registry cfg (ts_name (tl_spec t)) = Some t)" by blast
  moreover have "0 < MaxTurns (rc_limits cfg) \<and> 0 < MaxToolCalls (rc_limits cfg) \<and> 0 < MaxParallelTools (rc_limits cfg)"
  proof (cases "given = []")
    case True
    then show ?thesis by (simp add: l DefaultLimits_def)
  next
    case False
    then have "rc_limits cfg \<in> set given" by (simp add: l)
    then show ?thesis using v by (auto simp: check_simps limits_pass)
  qed
  ultimately show ?thesis using a by (auto simp: check_simps)
qed

definition ex_tool :: tool where
  "ex_tool = \<lparr>tl_spec = ex_spec, tl_invokable = False, tl_direct = True\<rparr>"

theorem new_react_sound_witness:
  "\<exists>cfg. new_react \<lparr>id_name = ''a'', id_description = ''d'', id_version = ''1''\<rparr> (Some ()) [] ''be brief'' [Some ex_tool]
     (\<lambda>_. True) (rc_observe_outcome ex_react) (rc_observe_repair ex_react) = Inr cfg \<and>
   rc_registry cfg ''lookup'' = Some ex_tool"
proof -
  let ?n = "new_react \<lparr>id_name = ''a'', id_description = ''d'', id_version = ''1''\<rparr> (Some ()) [] ''be brief''
    [Some ex_tool] (\<lambda>_. True) (rc_observe_outcome ex_react) (rc_observe_repair ex_react)"
  have "(case ?n of Inr _ \<Rightarrow> True | Inl _ \<Rightarrow> False)" by code_simp
  then obtain cfg where n: "?n = Inr cfg" by (auto split: sum.split_asm)
  have "ts_name (tl_spec ex_tool) = ''lookup''" by (simp add: ex_tool_def ex_spec_def)
  with new_react_sound [OF n] n show ?thesis by (auto simp: map_eq_Cons_conv)
qed

section \<open>Agents as tools\<close>

text \<open>
  An agent that serves another as a tool fits its dispatcher: whatever its child and
  its adapter return, the dispatcher lets the tool's outcome through, and every error of the
  tool fails the call.
\<close>

theorem agent_tool_dispatches:
  assumes "registry (tc_name call) = Some entry" and "tl_invokable entry"
    and "te_started te = None" and "te_finished te = None"
    and "te_answer te = map_sum id (Some \<circ> Value) (invoke_agent_tool json child (Some t) call)"
  shows "dispatch_tool registry te call =
    (case invoke_agent_tool json child (Some t) call of
       Inl e \<Rightarrow> Inl (Wrapped ''react: execute tool %q: %w'' [Str (tc_name call)] e)
     | Inr out \<Rightarrow> Inr (Value out))"
proof (cases "invoke_agent_tool json child (Some t) call")
  case (Inl e)
  then show ?thesis using assms by (simp add: dispatch_tool_def execute_tool_def Let_def)
next
  case (Inr out)
  then have "out_id out = tc_id call" "out_name out = tc_name call" "asToolInterrupt (Value out) = None"
    by (auto simp: invoke_agent_tool_Inr)
  then show ?thesis using assms Inr by (simp add: dispatch_tool_def execute_tool_def Let_def)
qed

theorem agent_tool_dispatches_witness:
  "dispatch_tool [''lookup'' \<mapsto> \<lparr>tl_spec = ex_spec, tl_invokable = True, tl_direct = False\<rparr>]
     \<lparr>te_started = None, te_answer = map_sum id (Some \<circ> Value) (Inr (ToolResultOutcome ''c1'' ''lookup'' [] [])), te_finished = None\<rparr>
     ex_call = Inr (Value (ToolResultOutcome ''c1'' ''lookup'' [] []))"
proof -
  let ?child = "\<lambda>_. Inr \<lparr>rs_message = ex_seen, rs_artifacts = [], rs_metadata = []\<rparr>"
  let ?t = "\<lparr>at_spec = ex_spec, at_child = no_identity,
    at_adapter = OtherAdapter (\<lambda>_. Inr ex_request) (\<lambda>_. Inr \<lparr>tr_artifacts = [], tr_effects = []\<rparr>)\<rparr>"
  have i: "invoke_agent_tool (\<lambda>_. True) ?child (Some ?t) ex_call = Inr (ToolResultOutcome ''c1'' ''lookup'' [] [])"
    by code_simp
  show ?thesis
    by (subst agent_tool_dispatches [where entry = "\<lparr>tl_spec = ex_spec, tl_invokable = True, tl_direct = False\<rparr>"
          and json = "\<lambda>_. True" and child = ?child and t = ?t]) (simp_all only: i, simp_all add: ex_call_def)
qed

end
