(* ===== verification/Loop_Agent.thy ===== *)
theory Loop_Agent
  imports Agent_Types
begin

text \<open>
  The loop agent of \<open>src/agents/loop/loop.go\<close>: a child and a condition that alternate until
  the condition stops or the limit of iterations is reached, and the recursive function that
  such a run computes.
\<close>

section \<open>Nodes\<close>

type_synonym loop_decision = int

definition DecisionUnknown :: loop_decision where "DecisionUnknown = 0"
definition DecisionContinue :: loop_decision where "DecisionContinue = 1"
definition DecisionStop :: loop_decision where "DecisionStop = 2"

record iteration =
  it_number :: int
  it_request :: request
  it_response :: response

record loop_context =
  lp_iteration :: int
  lp_request :: request

definition ErrMaxIterations :: agent_error where
  "ErrMaxIterations = Errorf ''loop: max iterations reached'' []"

record loop_env =
  le_get :: "agent_error option"
  le_set :: "agent_error option"
  le_child :: "request \<Rightarrow> agent_error + response"
  le_condition :: "iteration \<Rightarrow> agent_error + loop_decision"

definition child_node ::
  "int \<Rightarrow> loop_env \<Rightarrow> request \<Rightarrow> loop_context \<Rightarrow> agent_error + (response \<times> loop_context)" where
  "child_node limit en rq st =
    (case le_get en of Some e \<Rightarrow> Inl e | None \<Rightarrow>
     if lp_iteration st \<ge> limit then Inl ErrMaxIterations
     else rbind (le_child en rq) (\<lambda>r.
       case le_set en of Some e \<Rightarrow> Inl e
       | None \<Rightarrow> Inr (r, st\<lparr>lp_iteration := lp_iteration st + 1, lp_request := rq\<rparr>)))"

record condition_result =
  cr_decision :: loop_decision
  cr_response :: response
  cr_next :: request

definition condition_node ::
  "int \<Rightarrow> loop_env \<Rightarrow> response \<Rightarrow> loop_context \<Rightarrow> agent_error + condition_result" where
  "condition_node limit en r st =
    (case le_get en of Some e \<Rightarrow> Inl e | None \<Rightarrow>
     case le_condition en \<lparr>it_number = lp_iteration st, it_request = lp_request st, it_response = r\<rparr> of
       Inl e \<Rightarrow> Inl (Wrapped ''loop: evaluate condition: %w'' [] e)
     | Inr d \<Rightarrow>
         if d \<noteq> DecisionStop \<and> d \<noteq> DecisionContinue
         then Inl (Errorf ''loop: unsupported condition decision %d'' [Num d])
         else if d = DecisionContinue \<and> lp_iteration st \<ge> limit then Inl ErrMaxIterations
         else Inr \<lparr>cr_decision = d, cr_response = r, cr_next = requestFromResponse r\<rparr>)"

section \<open>The run\<close>

datatype loop_phase =
    AtChild request
  | AtCondition response
  | AtLoopEnd response
  | LoopDone response
  | LoopFailed agent_error

record loop_run =
  lr_phase :: loop_phase
  lr_state :: loop_context

definition route_condition :: "condition_result \<Rightarrow> loop_phase" where
  "route_condition result =
    (if cr_decision result = DecisionContinue then AtChild (cr_next result) else AtLoopEnd (cr_response result))"

definition loop_next :: "int \<Rightarrow> loop_env \<Rightarrow> loop_run \<Rightarrow> loop_run" where
  "loop_next limit en c =
    (case lr_phase c of
       AtChild rq \<Rightarrow> (case child_node limit en rq (lr_state c) of
           Inl e \<Rightarrow> c\<lparr>lr_phase := LoopFailed e\<rparr>
         | Inr (r, st) \<Rightarrow> \<lparr>lr_phase = AtCondition r, lr_state = st\<rparr>)
     | AtCondition r \<Rightarrow> c\<lparr>lr_phase := (case condition_node limit en r (lr_state c) of
           Inl e \<Rightarrow> LoopFailed e
         | Inr result \<Rightarrow> route_condition result)\<rparr>
     | AtLoopEnd r \<Rightarrow> c\<lparr>lr_phase := LoopDone r\<rparr>
     | LoopDone _ \<Rightarrow> c
     | LoopFailed _ \<Rightarrow> c)"

definition loop_start :: "request \<Rightarrow> loop_run" where
  "loop_start rq = \<lparr>lr_phase = AtChild rq, lr_state = \<lparr>lp_iteration = 0, lp_request = rq\<rparr>\<rparr>"

definition loop_ended :: "loop_run \<Rightarrow> bool" where
  "loop_ended c = (case lr_phase c of LoopDone _ \<Rightarrow> True | LoopFailed _ \<Rightarrow> True | _ \<Rightarrow> False)"

inductive loop_step :: "int \<Rightarrow> loop_run \<Rightarrow> loop_run \<Rightarrow> bool" for limit where
  loop_stepI: "\<not> loop_ended c \<Longrightarrow> loop_step limit c (loop_next limit en c)"

inductive_cases loop_stepE: "loop_step limit c c'"

text \<open>
  \<open>New\<close> up to the building of the workflow; the result is the limit. Of the limits that the
  options give, here and in the other agents, every one is validated and the last one kept.
\<close>

definition new_loop ::
  "identity \<Rightarrow> identity option \<Rightarrow> 'c option \<Rightarrow> int list \<Rightarrow> agent_error + int" where
  "new_loop i child condition given =
    (case Err (chain [Identity ''agent'' i, Present (Str ''child'') child, Present (Str ''condition'') condition]
        (new_validator ''loop'')) of
       Some e \<Rightarrow> Inl e
     | None \<Rightarrow>
    (case Err (Identity ''child'' (case child of Some ci \<Rightarrow> ci | None \<Rightarrow> no_identity) (new_validator ''loop'')) of
       Some e \<Rightarrow> Inl e
     | None \<Rightarrow>
    (case Err (fold (Positive (Str ''max iterations'')) given (new_validator ''loop'')) of
       Some e \<Rightarrow> Inl e
     | None \<Rightarrow> Inr (last (32 # given)))))"

section \<open>Bounds\<close>

definition loop_inv :: "int \<Rightarrow> loop_run \<Rightarrow> bool" where
  "loop_inv limit c \<longleftrightarrow> 0 \<le> lp_iteration (lr_state c) \<and>
     (lp_iteration (lr_state c) \<le> limit \<or> lp_iteration (lr_state c) = 0)"

definition loop_weight :: "int \<Rightarrow> loop_run \<Rightarrow> nat" where
  "loop_weight limit c =
    (let left = 2 * nat (limit - lp_iteration (lr_state c))
     in case lr_phase c of
       AtChild _ \<Rightarrow> left + 1 | AtCondition _ \<Rightarrow> left + 2 | AtLoopEnd _ \<Rightarrow> 1 | LoopDone _ \<Rightarrow> 0 | LoopFailed _ \<Rightarrow> 0)"

lemma loop_step_good:
  assumes "loop_inv limit c" "loop_step limit c c'"
  shows "loop_inv limit c' \<and> loop_weight limit c' < loop_weight limit c"
  using assms(2,1)
  by (cases rule: loop_step.cases)
    (auto simp: loop_next_def loop_ended_def loop_inv_def loop_weight_def child_node_def route_condition_def
      rbind_Inr_iff Let_def split: loop_phase.splits option.splits if_splits sum.splits)

interpretation loop: bounded_system "loop_step limit" "loop_inv limit" "loop_weight limit" loop_ended for limit
  by unfold_locales (auto dest: loop_step_good intro: loop_stepI)

section \<open>The function that a run computes\<close>

text \<open>
  The reference: \<open>left\<close> iterations may still be made, \<open>n\<close> have been, the child is \<open>f\<close> and
  the condition \<open>g\<close>.
\<close>

fun loop_result ::
  "(request \<Rightarrow> agent_error + response) \<Rightarrow> (iteration \<Rightarrow> agent_error + loop_decision) \<Rightarrow> nat \<Rightarrow> int \<Rightarrow> request \<Rightarrow>
   agent_error + response" where
  "loop_result f g 0 n rq = Inl ErrMaxIterations"
| "loop_result f g (Suc left) n rq =
    rbind (f rq) (\<lambda>r.
    case g \<lparr>it_number = n + 1, it_request = rq, it_response = r\<rparr> of
      Inl e \<Rightarrow> Inl (Wrapped ''loop: evaluate condition: %w'' [] e)
    | Inr d \<Rightarrow>
        if d = DecisionStop then Inr r
        else if d = DecisionContinue then loop_result f g left (n + 1) (requestFromResponse r)
        else Inl (Errorf ''loop: unsupported condition decision %d'' [Num d]))"

definition steady_env ::
  "(request \<Rightarrow> agent_error + response) \<Rightarrow> (iteration \<Rightarrow> agent_error + loop_decision) \<Rightarrow> loop_env" where
  "steady_env f g = \<lparr>le_get = None, le_set = None, le_child = f, le_condition = g\<rparr>"

definition loop_outcome :: "agent_error + response \<Rightarrow> loop_phase" where
  "loop_outcome r = (case r of Inl e \<Rightarrow> LoopFailed e | Inr v \<Rightarrow> LoopDone v)"

lemma ended_stays: "loop_ended c \<Longrightarrow> (loop_next limit en ^^ k) c = c"
  by (induction k) (auto simp: loop_ended_def loop_next_def split: loop_phase.splits)

lemma run_computes:
  assumes "lr_phase c = AtChild rq" "lp_iteration (lr_state c) = n" "limit = n + int left"
  shows "lr_phase ((loop_next limit (steady_env f g) ^^ (2 * left + 1)) c) = loop_outcome (loop_result f g left n rq)"
  using assms
proof (induction left arbitrary: c n rq)
  case 0
  then show ?case by (simp add: loop_next_def child_node_def steady_env_def loop_outcome_def)
next
  case (Suc left)
  let ?run = "loop_next limit (steady_env f g)"
  have steps: "(?run ^^ (2 * Suc left + 1)) c = (?run ^^ (2 * left + 1)) (?run (?run c))"
    by (simp add: funpow_swap1 numeral_2_eq_2)
  have one: "(?run ^^ (2 * left + 1)) d = (?run ^^ (2 * left)) (?run d)" for d by (simp add: funpow_swap1)
  have fails: "lr_phase ((?run ^^ k) d) = LoopFailed e" if "lr_phase d = LoopFailed e" for k d e
    using that by (simp add: ended_stays loop_ended_def)
  show ?case
  proof (cases "f rq")
    case (Inl e)
    then have "lr_phase (?run (?run c)) = LoopFailed e"
      using Suc.prems by (simp add: loop_next_def child_node_def steady_env_def)
    then show ?thesis using Inl unfolding steps by (simp add: fails loop_outcome_def del: funpow.simps)
  next
    case (Inr r)
    let ?it = "\<lparr>it_number = n + 1, it_request = rq, it_response = r\<rparr>"
    let ?d = "\<lparr>lr_phase = AtCondition r, lr_state = (lr_state c)\<lparr>lp_iteration := n + 1, lp_request := rq\<rparr>\<rparr>"
    have d: "?run c = ?d"
      using Suc.prems Inr by (simp add: loop_next_def child_node_def steady_env_def)
    show ?thesis
    proof (cases "g ?it")
      case (Inl e)
      then have "lr_phase (?run ?d) = LoopFailed (Wrapped ''loop: evaluate condition: %w'' [] e)"
        by (simp add: loop_next_def condition_node_def steady_env_def)
      then show ?thesis using Inl \<open>f rq = Inr r\<close> unfolding steps d by (simp add: fails loop_outcome_def del: funpow.simps)
    next
      case g: (Inr a)
      consider (stop) "a = DecisionStop" | (last) "a = DecisionContinue" "left = 0"
        | (again) "a = DecisionContinue" "left > 0" | (bad) "a \<noteq> DecisionStop" "a \<noteq> DecisionContinue" by blast
      then show ?thesis
      proof cases
        case stop
        then have "?run ?d = ?d\<lparr>lr_phase := AtLoopEnd r\<rparr>"
          using g by (simp add: loop_next_def condition_node_def steady_env_def route_condition_def DecisionStop_def
              DecisionContinue_def)
        moreover have "?run (?d\<lparr>lr_phase := AtLoopEnd r\<rparr>) = ?d\<lparr>lr_phase := LoopDone r\<rparr>" by (simp add: loop_next_def)
        moreover have "loop_ended (?d\<lparr>lr_phase := LoopDone r\<rparr>)" by (simp add: loop_ended_def)
        ultimately show ?thesis using g Inr stop unfolding steps d one
          by (simp add: ended_stays loop_outcome_def)
      next
        case last
        then have "lr_phase (?run ?d) = LoopFailed ErrMaxIterations"
          using g Suc.prems by (simp add: loop_next_def condition_node_def steady_env_def DecisionStop_def DecisionContinue_def)
        then show ?thesis using g Inr last unfolding steps d
          by (simp add: fails loop_outcome_def DecisionStop_def DecisionContinue_def del: funpow.simps)
      next
        case again
        then have "?run ?d = ?d\<lparr>lr_phase := AtChild (requestFromResponse r)\<rparr>"
          using g Suc.prems by (simp add: loop_next_def condition_node_def steady_env_def route_condition_def
              DecisionStop_def DecisionContinue_def)
        then show ?thesis using g Inr again Suc.prems unfolding steps d
          by (subst Suc.IH [of _ "requestFromResponse r" "n + 1"])
            (simp_all add: DecisionStop_def DecisionContinue_def)
      next
        case bad
        then have "lr_phase (?run ?d) = LoopFailed (Errorf ''loop: unsupported condition decision %d'' [Num a])"
          using g by (simp add: loop_next_def condition_node_def steady_env_def)
        then show ?thesis using g Inr bad unfolding steps d by (simp add: fails loop_outcome_def del: funpow.simps)
      qed
    qed
  qed
qed

end
