(* ===== verification/Supervisor.thy ===== *)
theory Supervisor
  imports Agent_Types
begin

text \<open>
  The supervisor of \<open>src/agents/supervisor/supervisor.go\<close>: a decider that delegates to
  children of a directory, one at a time, and finally answers.
\<close>

section \<open>Decisions\<close>

definition DecisionDelegate :: string where "DecisionDelegate = ''delegate''"
definition DecisionFinal :: string where "DecisionFinal = ''final''"

record decision =
  de_kind :: string
  de_child :: string
  de_request :: request
  de_response :: "response option"
  de_reason :: string

record delegation_result =
  dr_child :: string
  dr_request :: request
  dr_response :: response

record decision_input =
  di_request :: request
  di_round :: int
  di_results :: "delegation_result list"

record supervisor_state =
  sv_request :: request
  sv_round :: int
  sv_results :: "delegation_result list"

definition ErrRoundLimit :: agent_error where
  "ErrRoundLimit = Errorf ''supervisor: round limit reached'' []"

definition validate_decision :: "decision \<Rightarrow> agent_error option" where
  "validate_decision d =
    Err ((if de_kind d = DecisionDelegate then chain
            [Required (Str ''delegate child'') (de_child d),
             Check (de_response d = None) (Errorf ''delegate decision cannot carry response'' [])]
          else if de_kind d = DecisionFinal then chain
            [Present (Str ''final response'') (de_response d),
             Check (de_child d = '''') (Errorf ''final decision cannot carry child'' [])]
          else Check False (Errorf ''unknown decision kind %q'' [Str (de_kind d)]))
         (new_validator ''supervisor''))"

definition validateDecision :: "directory \<Rightarrow> int \<Rightarrow> int \<Rightarrow> decision \<Rightarrow> agent_error option" where
  "validateDecision dir round maxRounds d =
    (case validate_decision d of Some e \<Rightarrow> Some e
     | None \<Rightarrow>
       if de_kind d \<noteq> DecisionDelegate then None
       else if round \<ge> maxRounds then Some ErrRoundLimit
       else if \<not> has_child dir (de_child d)
       then Some (Errorf ''supervisor: child %q is not in the directory'' [Str (de_child d)])
       else None)"

lemma validate_decision_None:
  "validate_decision d = None \<longleftrightarrow>
    (de_kind d = DecisionDelegate \<and> de_child d \<noteq> '''' \<and> de_response d = None) \<or>
    (de_kind d = DecisionFinal \<and> de_child d = '''' \<and> (\<exists>r. de_response d = Some r))"
  unfolding validate_decision_def by (auto simp: check_simps DecisionDelegate_def DecisionFinal_def)

lemma validateDecision_None:
  "validateDecision dir round maxRounds d = None \<longleftrightarrow>
    (de_kind d = DecisionDelegate \<and> de_child d \<noteq> '''' \<and> de_response d = None \<and> round < maxRounds \<and>
      has_child dir (de_child d)) \<or>
    (de_kind d = DecisionFinal \<and> de_child d = '''' \<and> (\<exists>r. de_response d = Some r))"
  using validate_decision_None [of d]
  by (cases "validate_decision d") (auto simp: validateDecision_def DecisionDelegate_def DecisionFinal_def)

section \<open>Nodes\<close>

text \<open>What the decider and the children answer, and whether the context can be used.\<close>

record supervisor_env =
  se_get :: "agent_error option"
  se_set :: "agent_error option"
  se_decide :: "decision_input \<Rightarrow> agent_error + decision"
  se_child :: "string \<Rightarrow> request \<Rightarrow> agent_error + response"

definition decide_node ::
  "directory \<Rightarrow> int \<Rightarrow> supervisor_env \<Rightarrow> supervisor_state \<Rightarrow> agent_error + decision" where
  "decide_node dir maxRounds en st =
    (case se_get en of Some e \<Rightarrow> Inl e | None \<Rightarrow>
     case se_decide en \<lparr>di_request = sv_request st, di_round = sv_round st + 1, di_results = sv_results st\<rparr> of
       Inl e \<Rightarrow> Inl (Wrapped ''supervisor: decide: %w'' [] e)
     | Inr d \<Rightarrow> (case validateDecision dir (sv_round st) maxRounds d of Some e \<Rightarrow> Inl e | None \<Rightarrow> Inr d))"

definition delegate_node ::
  "directory \<Rightarrow> supervisor_env \<Rightarrow> string \<Rightarrow> request \<Rightarrow> agent_error + delegation_result" where
  "delegate_node dir en child rq =
    (if \<not> has_child dir child
     then Inl (Errorf ''supervisor: child %q is not in the directory'' [Str child])
     else (case se_child en child rq of
         Inl e \<Rightarrow> Inl (Wrapped ''supervisor: delegate %q: %w'' [Str child] e)
       | Inr r \<Rightarrow> Inr \<lparr>dr_child = child, dr_request = rq, dr_response = r\<rparr>))"

definition record_node ::
  "supervisor_env \<Rightarrow> delegation_result \<Rightarrow> supervisor_state \<Rightarrow> agent_error + supervisor_state" where
  "record_node en result st =
    (case se_get en of Some e \<Rightarrow> Inl e | None \<Rightarrow>
     case se_set en of Some e \<Rightarrow> Inl e | None \<Rightarrow>
     Inr (st\<lparr>sv_results := sv_results st @ [result], sv_round := sv_round st + 1\<rparr>))"

section \<open>The run\<close>

text \<open>\<open>SupPanic\<close> is the dereference of a final decision that carries no response.\<close>

datatype supervisor_phase =
    AtStart
  | AtDecide
  | AtDelegate string request
  | AtRecord delegation_result
  | AtSupEnd response
  | SupDone response
  | SupFailed agent_error
  | SupPanic

record supervisor_run =
  sr_phase :: supervisor_phase
  sr_state :: supervisor_state

definition route_decision :: "decision \<Rightarrow> supervisor_phase" where
  "route_decision d =
    (if de_kind d = DecisionDelegate then AtDelegate (de_child d) (de_request d)
     else (case de_response d of Some r \<Rightarrow> AtSupEnd r | None \<Rightarrow> SupPanic))"

definition supervisor_next :: "directory \<Rightarrow> int \<Rightarrow> supervisor_env \<Rightarrow> supervisor_run \<Rightarrow> supervisor_run" where
  "supervisor_next dir maxRounds en c =
    (case sr_phase c of
       AtStart \<Rightarrow> c\<lparr>sr_phase := AtDecide\<rparr>
     | AtDecide \<Rightarrow> c\<lparr>sr_phase := (case decide_node dir maxRounds en (sr_state c) of
           Inl e \<Rightarrow> SupFailed e | Inr d \<Rightarrow> route_decision d)\<rparr>
     | AtDelegate child rq \<Rightarrow> c\<lparr>sr_phase := (case delegate_node dir en child rq of
           Inl e \<Rightarrow> SupFailed e | Inr result \<Rightarrow> AtRecord result)\<rparr>
     | AtRecord result \<Rightarrow> (case record_node en result (sr_state c) of
           Inl e \<Rightarrow> c\<lparr>sr_phase := SupFailed e\<rparr>
         | Inr st \<Rightarrow> \<lparr>sr_phase = AtDecide, sr_state = st\<rparr>)
     | AtSupEnd r \<Rightarrow> c\<lparr>sr_phase := SupDone r\<rparr>
     | SupDone _ \<Rightarrow> c
     | SupFailed _ \<Rightarrow> c
     | SupPanic \<Rightarrow> c)"

definition supervisor_start :: "request \<Rightarrow> supervisor_run" where
  "supervisor_start rq =
    \<lparr>sr_phase = AtStart, sr_state = \<lparr>sv_request = rq, sv_round = 0, sv_results = []\<rparr>\<rparr>"

definition supervisor_ended :: "supervisor_run \<Rightarrow> bool" where
  "supervisor_ended c =
    (case sr_phase c of SupDone _ \<Rightarrow> True | SupFailed _ \<Rightarrow> True | SupPanic \<Rightarrow> True | _ \<Rightarrow> False)"

inductive supervisor_step :: "directory \<Rightarrow> int \<Rightarrow> supervisor_run \<Rightarrow> supervisor_run \<Rightarrow> bool" for dir maxRounds where
  supervisor_stepI: "\<not> supervisor_ended c \<Longrightarrow> supervisor_step dir maxRounds c (supervisor_next dir maxRounds en c)"

inductive_cases supervisor_stepE: "supervisor_step dir maxRounds c c'"

text \<open>\<open>New\<close> up to the building of the workflow; the result is the limit of rounds.\<close>

definition new_supervisor ::
  "identity \<Rightarrow> directory option \<Rightarrow> 'd option \<Rightarrow> int list \<Rightarrow> agent_error + int" where
  "new_supervisor i dir decider given =
    (case Err (chain [Identity ''agent'' i, Present (Str ''directory'') dir, Present (Str ''decider'') decider]
        (new_validator ''supervisor'')) of
       Some e \<Rightarrow> Inl e
     | None \<Rightarrow>
    (case Err (fold (Positive (Str ''max rounds'')) given (new_validator ''supervisor'')) of
       Some e \<Rightarrow> Inl e
     | None \<Rightarrow> Inr (last (32 # given))))"

section \<open>Invariant and bounds\<close>

definition supervisor_inv :: "directory \<Rightarrow> int \<Rightarrow> request \<Rightarrow> supervisor_run \<Rightarrow> bool" where
  "supervisor_inv dir maxRounds rq c \<longleftrightarrow>
    (let st = sr_state c in
     sv_request st = rq \<and> sv_round st = int (length (sv_results st)) \<and>
     (sv_round st \<le> maxRounds \<or> sv_round st = 0) \<and>
     (\<forall>result \<in> set (sv_results st). has_child dir (dr_child result)) \<and>
     (case sr_phase c of
        AtDelegate child _ \<Rightarrow> has_child dir child \<and> sv_round st < maxRounds
      | AtRecord result \<Rightarrow> has_child dir (dr_child result) \<and> sv_round st < maxRounds
      | SupPanic \<Rightarrow> False
      | _ \<Rightarrow> True))"

definition supervisor_weight :: "int \<Rightarrow> supervisor_run \<Rightarrow> nat" where
  "supervisor_weight maxRounds c =
    (let left = 3 * nat (maxRounds - sv_round (sr_state c))
     in case sr_phase c of
       AtStart \<Rightarrow> left + 3 | AtDecide \<Rightarrow> left + 2 | AtDelegate _ _ \<Rightarrow> left + 1 | AtRecord _ \<Rightarrow> left
     | AtSupEnd _ \<Rightarrow> 1 | _ \<Rightarrow> 0)"

lemma decide_step_good:
  assumes "supervisor_inv dir maxRounds rq c" "sr_phase c = AtDecide"
  shows "supervisor_inv dir maxRounds rq (supervisor_next dir maxRounds en c) \<and>
    supervisor_weight maxRounds (supervisor_next dir maxRounds en c) < supervisor_weight maxRounds c"
  using assms
  by (auto simp: supervisor_next_def supervisor_inv_def supervisor_weight_def decide_node_def route_decision_def
      validateDecision_None DecisionDelegate_def DecisionFinal_def Let_def
      split: option.splits sum.splits if_splits)

lemma supervisor_step_good:
  assumes i: "supervisor_inv dir maxRounds rq c" and s: "supervisor_step dir maxRounds c c'"
  shows "supervisor_inv dir maxRounds rq c' \<and> supervisor_weight maxRounds c' < supervisor_weight maxRounds c"
proof -
  from s obtain en where c': "c' = supervisor_next dir maxRounds en c" and e: "\<not> supervisor_ended c"
    by (auto elim: supervisor_stepE)
  show ?thesis
  proof (cases "sr_phase c")
    case AtDecide
    then show ?thesis using decide_step_good [OF i] c' by simp
  next
    case (AtRecord result)
    then show ?thesis using i
      by (auto simp: c' supervisor_next_def supervisor_inv_def supervisor_weight_def record_node_def Let_def
          split: option.splits)
  next
    case (AtDelegate child r)
    then show ?thesis using i
      by (auto simp: c' supervisor_next_def supervisor_inv_def supervisor_weight_def delegate_node_def Let_def
          split: sum.splits)
  qed (use i e in \<open>auto simp: c' supervisor_next_def supervisor_inv_def supervisor_weight_def supervisor_ended_def Let_def\<close>)
qed

interpretation supervisor: bounded_system "supervisor_step dir maxRounds" "supervisor_inv dir maxRounds rq"
  "supervisor_weight maxRounds" supervisor_ended for dir maxRounds rq
  by unfold_locales (auto dest: supervisor_step_good intro: supervisor_stepI)

end
