(* ===== verification/Planexec.thy ===== *)
theory Planexec
  imports Agent_Types
begin

text \<open>
  The plan-execute agent of \<open>src/agents/planexec/planexec.go\<close>: a plan is accepted, its steps
  are executed one by one by children of the directory, and after each step the replanner
  continues, replaces the plan or ends the run, which the reporter then answers.
\<close>

section \<open>Plans\<close>

definition StepPending :: string where "StepPending = ''pending''"
definition StepCompleted :: string where "StepCompleted = ''completed''"

record plan_step =
  st_id :: string
  st_description :: string
  st_agent_name :: string
  st_status :: string

record plan =
  pl_id :: string
  pl_version :: int
  pl_steps :: "plan_step list"

record step_result =
  sr_step :: plan_step
  sr_response :: response

record plan_input =
  pi_request :: request
  pi_plan :: plan
  pi_results :: "step_result list"

record replan_decision =
  rd_done :: bool
  rd_plan :: "plan option"
  rd_reason :: string

record plan_state =
  ps_request :: request
  ps_plan :: plan
  ps_next :: nat
  ps_transitions :: int
  ps_results :: "step_result list"
  ps_ready :: bool

definition no_plan :: plan where
  "no_plan = \<lparr>pl_id = '''', pl_version = 0, pl_steps = []\<rparr>"

definition ErrPlanExhausted :: agent_error where
  "ErrPlanExhausted = Errorf ''planexec: plan exhausted without completion'' []"

definition ErrTransitionLimit :: agent_error where
  "ErrTransitionLimit = Errorf ''transition limit reached'' []"

definition check_step :: "nat \<times> plan_step \<Rightarrow> validator \<Rightarrow> validator" where
  "check_step = (\<lambda>(i, s). chain
    [Required (Sprintf ''step %d id'' [Num (int i)]) (st_id s),
     Required (Sprintf ''step %d description'' [Num (int i)]) (st_description s),
     Required (Sprintf ''step %d agent'' [Num (int i)]) (st_agent_name s),
     Check (st_status s = '''' \<or> st_status s = StepPending)
       (Errorf ''step %d status %q is owned by the runtime'' [Num (int i), Str (st_status s)]),
     Unique ''step'' (st_id s)])"

definition validate_plan :: "plan \<Rightarrow> agent_error option" where
  "validate_plan p =
    Err (fold check_step (enumerate 0 (pl_steps p))
      (chain [Required (Str ''plan id'') (pl_id p), Positive (Str ''plan version'') (pl_version p),
              NonEmpty (Str ''plan steps'') (length (pl_steps p))] (new_validator ''planexec'')))"

definition check_child :: "directory \<Rightarrow> nat \<times> plan_step \<Rightarrow> validator \<Rightarrow> validator" where
  "check_child dir = (\<lambda>(i, s). Check (has_child dir (st_agent_name s))
    (Errorf ''step %d child %q is not in the directory'' [Num (int i), Str (st_agent_name s)]))"

definition acceptPlan :: "directory \<Rightarrow> plan \<Rightarrow> int \<Rightarrow> agent_error + plan" where
  "acceptPlan dir p previous =
    (let structureErr = validate_plan p;
         v = fold (check_child dir) (enumerate 0 (pl_steps p))
           (Check (previous = 0 \<or> pl_version p > previous)
             (Errorf ''plan version %d must be greater than %d'' [Num (pl_version p), Num previous])
             (new_validator ''planexec''))
     in case join_errors [structureErr, Err v] of
          Some e \<Rightarrow> Inl e
        | None \<Rightarrow> Inr (p\<lparr>pl_steps := map (\<lambda>s. s\<lparr>st_status := StepPending\<rparr>) (pl_steps p)\<rparr>))"

lemma check_step_seen:
  "st_id s \<noteq> '''' \<Longrightarrow> set (vd_seen (check_step (i, s) v)) = insert (''step'', st_id s) (set (vd_seen v))"
  by (simp add: check_step_def check_simps)

lemma check_step_passes:
  "passes (check_step (i, s) v) \<longleftrightarrow>
    st_id s \<noteq> '''' \<and> st_description s \<noteq> '''' \<and> st_agent_name s \<noteq> '''' \<and>
    (st_status s = '''' \<or> st_status s = StepPending) \<and> (''step'', st_id s) \<notin> set (vd_seen v) \<and> passes v"
  by (auto simp: check_step_def check_simps)

definition step_ok :: "plan_step \<Rightarrow> bool" where
  "step_ok s \<longleftrightarrow> st_id s \<noteq> '''' \<and> st_description s \<noteq> '''' \<and> st_agent_name s \<noteq> '''' \<and>
     (st_status s = '''' \<or> st_status s = StepPending)"

lemma check_steps_pass:
  "passes (fold check_step (enumerate i steps) v) \<longleftrightarrow>
    passes v \<and> (\<forall>s \<in> set steps. step_ok s) \<and> distinct (map st_id steps) \<and>
    (\<forall>s \<in> set steps. (''step'', st_id s) \<notin> set (vd_seen v))"
proof (induction steps arbitrary: i v)
  case Nil
  then show ?case by simp
next
  case (Cons s steps)
  show ?case
  proof (cases "st_id s = ''''")
    case True
    then show ?thesis by (simp add: Cons check_step_passes step_ok_def)
  next
    case False
    then show ?thesis by (auto simp: Cons check_step_passes check_step_seen step_ok_def image_iff)
  qed
qed

lemma validate_plan_None:
  "validate_plan p = None \<longleftrightarrow> pl_id p \<noteq> '''' \<and> 0 < pl_version p \<and> pl_steps p \<noteq> [] \<and>
    (\<forall>s \<in> set (pl_steps p). step_ok s) \<and> distinct (map st_id (pl_steps p))"
  by (auto simp: validate_plan_def check_steps_pass check_simps)

lemma check_children_pass:
  "passes (fold (check_child dir) (enumerate i steps) v) \<longleftrightarrow>
    passes v \<and> (\<forall>s \<in> set steps. has_child dir (st_agent_name s))"
  by (induction steps arbitrary: i v) (auto simp: check_child_def check_simps)

lemma acceptPlan_Inr:
  "acceptPlan dir p previous = Inr q \<longleftrightarrow>
    validate_plan p = None \<and> (previous = 0 \<or> previous < pl_version p) \<and>
    (\<forall>s \<in> set (pl_steps p). has_child dir (st_agent_name s)) \<and>
    q = p\<lparr>pl_steps := map (\<lambda>s. s\<lparr>st_status := StepPending\<rparr>) (pl_steps p)\<rparr>"
proof -
  let ?v = "fold (check_child dir) (enumerate 0 (pl_steps p))
    (Check (previous = 0 \<or> pl_version p > previous)
      (Errorf ''plan version %d must be greater than %d'' [Num (pl_version p), Num previous])
      (new_validator ''planexec''))"
  have "join_errors [validate_plan p, Err ?v] = None \<longleftrightarrow>
      validate_plan p = None \<and> (previous = 0 \<or> previous < pl_version p) \<and>
      (\<forall>s \<in> set (pl_steps p). has_child dir (st_agent_name s))"
    by (auto simp: join_errors_None check_children_pass check_simps)
  then show ?thesis
    by (cases "join_errors [validate_plan p, Err ?v]") (auto simp: acceptPlan_def Let_def)
qed

section \<open>Nodes\<close>

text \<open>
  What the planner, the replanner, the reporter and the children answer, and whether the
  context can be used.
\<close>

record plan_env =
  pe_get :: "agent_error option"
  pe_set :: "agent_error option"
  pe_plan :: "request \<Rightarrow> agent_error + plan"
  pe_replan :: "plan_input \<Rightarrow> agent_error + replan_decision"
  pe_report :: "plan_input \<Rightarrow> agent_error + response"
  pe_child :: "string \<Rightarrow> request \<Rightarrow> agent_error + response"

definition plan_get :: "plan_env \<Rightarrow> plan_state \<Rightarrow> agent_error + plan_state" where
  "plan_get en st = (case pe_get en of Some e \<Rightarrow> Inl e | None \<Rightarrow> Inr st)"

definition plan_set :: "plan_env \<Rightarrow> plan_state \<Rightarrow> agent_error + plan_state" where
  "plan_set en st = (case pe_set en of Some e \<Rightarrow> Inl e | None \<Rightarrow> Inr st)"

definition planner_node :: "plan_env \<Rightarrow> request \<Rightarrow> agent_error + plan" where
  "planner_node en rq =
    (case pe_plan en rq of Inl e \<Rightarrow> Inl (Wrapped ''planexec: create plan: %w'' [] e) | Inr p \<Rightarrow> Inr p)"

definition accept_node :: "directory \<Rightarrow> plan_env \<Rightarrow> plan \<Rightarrow> plan_state \<Rightarrow> agent_error + plan_state" where
  "accept_node dir en p st0 =
    rbind (plan_get en st0) (\<lambda>st.
    rbind (acceptPlan dir p (pl_version (ps_plan st))) (\<lambda>accepted.
    plan_set en (st\<lparr>ps_plan := accepted, ps_next := 0\<rparr>)))"

definition dispatch_step_node :: "plan_env \<Rightarrow> plan_state \<Rightarrow> agent_error + plan_step \<times> request" where
  "dispatch_step_node en st0 =
    rbind (plan_get en st0) (\<lambda>st.
    if ps_next st \<ge> length (pl_steps (ps_plan st)) then Inl ErrPlanExhausted
    else Inr (pl_steps (ps_plan st) ! ps_next st, ps_request st))"

definition execute_step :: "directory \<Rightarrow> plan_env \<Rightarrow> plan_step \<Rightarrow> request \<Rightarrow> agent_error + step_result" where
  "execute_step dir en s rq =
    (if \<not> has_child dir (st_agent_name s)
     then Inl (Errorf ''planexec: step %q child %q is not in the directory'' [Str (st_id s), Str (st_agent_name s)])
     else (case pe_child en (st_agent_name s) rq of
         Inl e \<Rightarrow> Inl (Wrapped ''planexec: execute step %q: %w'' [Str (st_id s)] e)
       | Inr r \<Rightarrow> Inr \<lparr>sr_step = s\<lparr>st_status := StepCompleted\<rparr>, sr_response = r\<rparr>))"

definition plan_view :: "plan_state \<Rightarrow> plan_input" where
  "plan_view st = \<lparr>pi_request = ps_request st, pi_plan = ps_plan st, pi_results = ps_results st\<rparr>"

definition record_step :: "plan_env \<Rightarrow> step_result \<Rightarrow> plan_state \<Rightarrow> agent_error + plan_state" where
  "record_step en result st0 =
    rbind (plan_get en st0) (\<lambda>st.
    let p = ps_plan st; n = ps_next st in
    if n \<ge> length (pl_steps p) \<or> st_id (pl_steps p ! n) \<noteq> st_id (sr_step result)
    then Inl (Errorf ''planexec: completed step does not match plan cursor'' [])
    else plan_set en (st\<lparr>ps_plan := p\<lparr>pl_steps := (pl_steps p)[n := sr_step result]\<rparr>,
           ps_results := ps_results st @ [result], ps_next := n + 1\<rparr>))"

definition replan_node ::
  "int \<Rightarrow> plan_env \<Rightarrow> plan_input \<Rightarrow> plan_state \<Rightarrow> agent_error + (plan option \<times> plan_state)" where
  "replan_node limit en input st0 =
    rbind (plan_get en st0) (\<lambda>st.
    if ps_transitions st \<ge> limit then Inl (Wrapped ''planexec: %w'' [] ErrTransitionLimit)
    else (case pe_replan en input of
        Inl e \<Rightarrow> Inl (Wrapped ''planexec: replan: %w'' [] e)
      | Inr d \<Rightarrow>
          if rd_done d \<and> rd_plan d \<noteq> None
          then Inl (Errorf ''planexec: replan cannot be done and replace plan'' [])
          else if \<not> rd_done d \<and> rd_plan d = None \<and> ps_next st \<ge> length (pl_steps (ps_plan st))
          then Inl ErrPlanExhausted
          else rbind (plan_set en (st\<lparr>ps_transitions := ps_transitions st + 1, ps_ready := rd_done d\<rparr>))
                 (\<lambda>st'. Inr (rd_plan d, st'))))"

definition next_node :: "plan_env \<Rightarrow> plan_state \<Rightarrow> agent_error + bool" where
  "next_node en st0 =
    rbind (plan_get en st0) (\<lambda>st.
    if \<not> ps_ready st \<and> ps_next st \<ge> length (pl_steps (ps_plan st)) then Inl ErrPlanExhausted
    else Inr (ps_ready st))"

definition report_node :: "plan_env \<Rightarrow> plan_state \<Rightarrow> agent_error + response" where
  "report_node en st0 =
    rbind (plan_get en st0) (\<lambda>st.
    case pe_report en (plan_view st) of
      Inl e \<Rightarrow> Inl (Wrapped ''planexec: report: %w'' [] e) | Inr r \<Rightarrow> Inr r)"

section \<open>The run\<close>

datatype plan_phase =
    AtPlan request
  | AtAccept plan
  | AtNext
  | AtDispatchStep
  | AtExecute plan_step request
  | AtRecordStep step_result
  | AtReplan plan_input
  | AtReport
  | PlanDone response
  | PlanFailed agent_error

record plan_run =
  pr_phase :: plan_phase
  pr_state :: plan_state

text \<open>A node that only computes its successor, and a node that also writes the state.\<close>

definition plan_move :: "plan_run \<Rightarrow> agent_error + 'a \<Rightarrow> ('a \<Rightarrow> plan_phase) \<Rightarrow> plan_run" where
  "plan_move c result route = c\<lparr>pr_phase := (case result of Inl e \<Rightarrow> PlanFailed e | Inr x \<Rightarrow> route x)\<rparr>"

definition plan_write :: "plan_run \<Rightarrow> agent_error + plan_state \<Rightarrow> (plan_state \<Rightarrow> plan_phase) \<Rightarrow> plan_run" where
  "plan_write c result route =
    (case result of Inl e \<Rightarrow> c\<lparr>pr_phase := PlanFailed e\<rparr> | Inr st \<Rightarrow> \<lparr>pr_phase = route st, pr_state = st\<rparr>)"

definition route_replan :: "plan option \<Rightarrow> plan_phase" where
  "route_replan p = (case p of Some q \<Rightarrow> AtAccept q | None \<Rightarrow> AtNext)"

definition plan_next :: "directory \<Rightarrow> int \<Rightarrow> plan_env \<Rightarrow> plan_run \<Rightarrow> plan_run" where
  "plan_next dir limit en c =
    (case pr_phase c of
       AtPlan rq \<Rightarrow> plan_move c (planner_node en rq) AtAccept
     | AtAccept p \<Rightarrow> plan_write c (accept_node dir en p (pr_state c)) (\<lambda>_. AtNext)
     | AtNext \<Rightarrow> plan_move c (next_node en (pr_state c)) (\<lambda>report. if report then AtReport else AtDispatchStep)
     | AtDispatchStep \<Rightarrow> plan_move c (dispatch_step_node en (pr_state c)) (\<lambda>(s, rq). AtExecute s rq)
     | AtExecute s rq \<Rightarrow> plan_move c (execute_step dir en s rq) AtRecordStep
     | AtRecordStep result \<Rightarrow> plan_write c (record_step en result (pr_state c)) (\<lambda>st. AtReplan (plan_view st))
     | AtReplan input \<Rightarrow> (case replan_node limit en input (pr_state c) of
           Inl e \<Rightarrow> c\<lparr>pr_phase := PlanFailed e\<rparr>
         | Inr (p, st) \<Rightarrow> \<lparr>pr_phase = route_replan p, pr_state = st\<rparr>)
     | AtReport \<Rightarrow> plan_move c (report_node en (pr_state c)) PlanDone
     | PlanDone _ \<Rightarrow> c
     | PlanFailed _ \<Rightarrow> c)"

definition plan_start :: "request \<Rightarrow> plan_run" where
  "plan_start rq = \<lparr>pr_phase = AtPlan rq, pr_state = \<lparr>ps_request = rq, ps_plan = no_plan, ps_next = 0,
     ps_transitions = 0, ps_results = [], ps_ready = False\<rparr>\<rparr>"

definition plan_ended :: "plan_run \<Rightarrow> bool" where
  "plan_ended c = (case pr_phase c of PlanDone _ \<Rightarrow> True | PlanFailed _ \<Rightarrow> True | _ \<Rightarrow> False)"

inductive plan_run_step :: "directory \<Rightarrow> int \<Rightarrow> plan_run \<Rightarrow> plan_run \<Rightarrow> bool" for dir limit where
  plan_run_stepI: "\<not> plan_ended c \<Longrightarrow> plan_run_step dir limit c (plan_next dir limit en c)"

inductive_cases plan_run_stepE: "plan_run_step dir limit c c'"

text \<open>\<open>New\<close> up to the building of the workflow; the result is the limit of transitions.\<close>

definition new_planexec ::
  "identity \<Rightarrow> directory option \<Rightarrow> 'p option \<Rightarrow> 'q option \<Rightarrow> 'r option \<Rightarrow> int list \<Rightarrow> agent_error + int" where
  "new_planexec i dir planner replanner reporter given =
    (let validation = fold (Positive (Str ''max transitions'')) given (Identity ''agent'' i (new_validator ''planexec''))
     in case Err (chain [Present (Str ''directory'') dir, Present (Str ''planner'') planner,
            Present (Str ''replanner'') replanner, Present (Str ''reporter'') reporter] validation) of
          Some e \<Rightarrow> Inl e
        | None \<Rightarrow> Inr (last (32 # given)))"

end
