(* ===== verification/Planexec_Proofs.thy ===== *)
theory Planexec_Proofs
  imports Planexec
begin

text \<open>
  The invariant of a plan-execute run and its termination: the steps before the cursor are
  completed and recorded, in the order of the plan, and every cycle uses up a transition.
\<close>

definition plan_accepted :: "directory \<Rightarrow> plan_state \<Rightarrow> bool" where
  "plan_accepted dir st \<longleftrightarrow>
    (let p = ps_plan st in
     pl_id p \<noteq> '''' \<and> 0 < pl_version p \<and> pl_steps p \<noteq> [] \<and> distinct (map st_id (pl_steps p)) \<and>
     (\<forall>s \<in> set (pl_steps p). has_child dir (st_agent_name s)) \<and>
     ps_next st \<le> length (pl_steps p) \<and>
     (\<forall>s \<in> set (take (ps_next st) (pl_steps p)). st_status s = StepCompleted) \<and>
     (\<forall>s \<in> set (drop (ps_next st) (pl_steps p)). st_status s = StepPending) \<and>
     (\<exists>earlier. map sr_step (ps_results st) = earlier @ take (ps_next st) (pl_steps p)))"

definition plan_counts :: "int \<Rightarrow> plan_state \<Rightarrow> bool \<Rightarrow> bool" where
  "plan_counts limit st executed \<longleftrightarrow>
    0 \<le> ps_transitions st \<and> (ps_transitions st \<le> limit \<or> ps_transitions st = 0) \<and>
    int (length (ps_results st)) = ps_transitions st + (if executed then 1 else 0)"

definition plan_inv :: "directory \<Rightarrow> int \<Rightarrow> request \<Rightarrow> plan_run \<Rightarrow> bool" where
  "plan_inv dir limit rq c \<longleftrightarrow>
    (let st = pr_state c in
     ps_request st = rq \<and>
     (case pr_phase c of
        AtPlan r \<Rightarrow> plan_counts limit st False \<and> ps_results st = [] \<and> ps_plan st = no_plan \<and> ps_next st = 0
      | AtAccept _ \<Rightarrow> plan_counts limit st False
      | AtNext \<Rightarrow> plan_counts limit st False \<and> plan_accepted dir st
      | AtDispatchStep \<Rightarrow> plan_counts limit st False \<and> plan_accepted dir st
      | AtExecute s _ \<Rightarrow> plan_counts limit st False \<and> plan_accepted dir st \<and>
          ps_next st < length (pl_steps (ps_plan st)) \<and> s = pl_steps (ps_plan st) ! ps_next st
      | AtRecordStep result \<Rightarrow> plan_counts limit st False \<and> plan_accepted dir st \<and>
          ps_next st < length (pl_steps (ps_plan st)) \<and>
          sr_step result = (pl_steps (ps_plan st) ! ps_next st)\<lparr>st_status := StepCompleted\<rparr>
      | AtReplan input \<Rightarrow> plan_counts limit st True \<and> plan_accepted dir st \<and> input = plan_view st
      | AtReport \<Rightarrow> plan_counts limit st False \<and> plan_accepted dir st \<and> ps_ready st
      | PlanDone _ \<Rightarrow> plan_counts limit st False \<and> plan_accepted dir st \<and> ps_ready st
      | PlanFailed _ \<Rightarrow> True))"

definition plan_weight :: "int \<Rightarrow> plan_run \<Rightarrow> nat" where
  "plan_weight limit c =
    (let left = 6 * nat (limit - ps_transitions (pr_state c))
     in case pr_phase c of
       AtPlan _ \<Rightarrow> left + 8 | AtAccept _ \<Rightarrow> left + 7 | AtNext \<Rightarrow> left + 6 | AtDispatchStep \<Rightarrow> left + 5
     | AtExecute _ _ \<Rightarrow> left + 4 | AtRecordStep _ \<Rightarrow> left + 3 | AtReplan _ \<Rightarrow> left + 2 | AtReport \<Rightarrow> 1
     | PlanDone _ \<Rightarrow> 0 | PlanFailed _ \<Rightarrow> 0)"

definition plan_good :: "directory \<Rightarrow> int \<Rightarrow> request \<Rightarrow> plan_run \<Rightarrow> plan_run \<Rightarrow> bool" where
  "plan_good dir limit rq c c' \<longleftrightarrow> plan_inv dir limit rq c' \<and> plan_weight limit c' < plan_weight limit c"

lemmas plan_simps = plan_good_def plan_inv_def plan_weight_def Let_def

lemma plan_get_Inr [simp]: "plan_get en st = Inr st' \<longleftrightarrow> pe_get en = None \<and> st' = st"
  by (auto simp: plan_get_def split: option.split)

lemma plan_set_Inr [simp]: "plan_set en st = Inr st' \<longleftrightarrow> pe_set en = None \<and> st' = st"
  by (auto simp: plan_set_def split: option.split)

lemma plan_fails:
  "plan_inv dir limit rq c \<Longrightarrow> \<not> plan_ended c \<Longrightarrow> plan_good dir limit rq c (c\<lparr>pr_phase := PlanFailed e\<rparr>)"
  by (auto simp: plan_good_def plan_inv_def plan_weight_def plan_ended_def Let_def split: plan_phase.splits)

lemma plan_move_good:
  assumes "plan_inv dir limit rq c" "\<not> plan_ended c"
    and "\<And>x. result = Inr x \<Longrightarrow> plan_good dir limit rq c (c\<lparr>pr_phase := route x\<rparr>)"
  shows "plan_good dir limit rq c (plan_move c result route)"
  using assms by (auto simp: plan_move_def plan_fails split: sum.split)

lemma plan_write_good:
  assumes "plan_inv dir limit rq c" "\<not> plan_ended c"
    and "\<And>st. result = Inr st \<Longrightarrow> plan_good dir limit rq c \<lparr>pr_phase = route st, pr_state = st\<rparr>"
  shows "plan_good dir limit rq c (plan_write c result route)"
  using assms by (auto simp: plan_write_def plan_fails split: sum.split)

lemma accept_good:
  assumes i: "plan_inv dir limit rq c" and p: "pr_phase c = AtAccept q"
  shows "plan_good dir limit rq c (plan_write c (accept_node dir en q (pr_state c)) (\<lambda>_. AtNext))"
proof (rule plan_write_good [OF i])
  show "\<not> plan_ended c" by (simp add: plan_ended_def p)
  fix st assume "accept_node dir en q (pr_state c) = Inr st"
  then obtain accepted where a: "acceptPlan dir q (pl_version (ps_plan (pr_state c))) = Inr accepted"
    and st: "st = (pr_state c)\<lparr>ps_plan := accepted, ps_next := 0\<rparr>"
    by (auto simp: accept_node_def rbind_Inr_iff)
  have "map st_id (map (\<lambda>s. s\<lparr>st_status := x\<rparr>) steps) = map st_id steps" for x steps by simp
  with a have "plan_accepted dir st"
    by (auto simp: plan_accepted_def acceptPlan_Inr validate_plan_None st Let_def comp_def)
  then show "plan_good dir limit rq c \<lparr>pr_phase = AtNext, pr_state = st\<rparr>"
    using i by (simp add: plan_good_def plan_inv_def plan_weight_def p st plan_counts_def Let_def)
qed

lemma record_good:
  assumes i: "plan_inv dir limit rq c" and p: "pr_phase c = AtRecordStep result"
  shows "plan_good dir limit rq c
    (plan_write c (record_step en result (pr_state c)) (\<lambda>st. AtReplan (plan_view st)))"
proof (rule plan_write_good [OF i])
  show "\<not> plan_ended c" by (simp add: plan_ended_def p)
  let ?s = "pr_state c"
  let ?steps = "pl_steps (ps_plan ?s)" and ?n = "ps_next ?s"
  fix st assume "record_step en result ?s = Inr st"
  then have st: "st = ?s\<lparr>ps_plan := (ps_plan ?s)\<lparr>pl_steps := ?steps[?n := sr_step result]\<rparr>,
      ps_results := ps_results ?s @ [result], ps_next := ?n + 1\<rparr>"
    by (auto simp: record_step_def rbind_Inr_iff Let_def split: if_split_asm)
  from i p have a: "plan_accepted dir ?s" and n: "?n < length ?steps"
    and r: "sr_step result = (?steps ! ?n)\<lparr>st_status := StepCompleted\<rparr>"
    by (simp_all add: plan_inv_def Let_def)
  have ids: "map st_id (?steps[?n := sr_step result]) = map st_id ?steps"
    using n r by (simp add: map_update list_update_same_conv)
  have take: "take (?n + 1) (?steps[?n := sr_step result]) = take ?n ?steps @ [sr_step result]"
    using n by (simp add: take_Suc_conv_app_nth)
  have drop: "drop (?n + 1) (?steps[?n := sr_step result]) = drop (?n + 1) ?steps" by simp
  have sub: "set (drop (?n + 1) ?steps) \<subseteq> set (drop ?n ?steps)" by (rule set_drop_subset_set_drop) simp
  have child: "has_child dir (st_agent_name s)" if "s \<in> set (?steps[?n := sr_step result])" for s
    using set_update_subset_insert [of ?steps ?n "sr_step result"] that a r nth_mem [OF n]
    by (auto simp: plan_accepted_def Let_def)
  have "plan_accepted dir st"
    using a n take drop sub child ids r
    by (auto simp: plan_accepted_def Let_def st simp del: take_update_cancel drop_update_cancel)
  then show "plan_good dir limit rq c \<lparr>pr_phase = AtReplan (plan_view st), pr_state = st\<rparr>"
    using i by (simp add: plan_good_def plan_inv_def plan_weight_def p st plan_counts_def Let_def)
qed

lemma replan_good:
  assumes i: "plan_inv dir limit rq c" and p: "pr_phase c = AtReplan input"
  shows "plan_good dir limit rq c (plan_next dir limit en c)"
proof (cases "replan_node limit en input (pr_state c)")
  case (Inl e)
  then have "plan_next dir limit en c = c\<lparr>pr_phase := PlanFailed e\<rparr>" by (simp add: plan_next_def p)
  then show ?thesis using plan_fails [OF i, of e] by (simp add: plan_ended_def p)
next
  case (Inr x)
  then obtain q st where x: "x = (q, st)" by force
  with Inr have t: "ps_transitions (pr_state c) < limit"
    and st: "\<exists>ready. st = (pr_state c)\<lparr>ps_transitions := ps_transitions (pr_state c) + 1, ps_ready := ready\<rparr>"
    by (auto simp: replan_node_def rbind_Inr_iff split: if_split_asm sum.split_asm)
  have n: "plan_next dir limit en c = \<lparr>pr_phase = route_replan q, pr_state = st\<rparr>"
    using Inr x by (simp add: plan_next_def p)
  from st obtain ready where
    st': "st = (pr_state c)\<lparr>ps_transitions := ps_transitions (pr_state c) + 1, ps_ready := ready\<rparr>" by blast
  have "plan_accepted dir st" using i p by (simp add: plan_inv_def plan_accepted_def Let_def st')
  then show ?thesis using i t
    by (auto simp: n plan_good_def plan_inv_def plan_weight_def p st' plan_counts_def Let_def route_replan_def
        split: option.split)
qed

lemma move_phase_good:
  assumes i: "plan_inv dir limit rq c" and e: "\<not> plan_ended c"
    and p: "\<exists>r. pr_phase c = AtPlan r \<or> pr_phase c = AtNext \<or> pr_phase c = AtDispatchStep \<or>
      (\<exists>s. pr_phase c = AtExecute s r) \<or> pr_phase c = AtReport"
  shows "plan_good dir limit rq c (plan_next dir limit en c)"
proof -
  from p obtain r s where "pr_phase c = AtPlan r \<or> pr_phase c = AtNext \<or> pr_phase c = AtDispatchStep \<or>
      pr_phase c = AtExecute s r \<or> pr_phase c = AtReport" by blast
  then consider "pr_phase c = AtPlan r" | "pr_phase c = AtNext" | "pr_phase c = AtDispatchStep"
    | "pr_phase c = AtExecute s r" | "pr_phase c = AtReport" by blast
  then show ?thesis
  proof cases
    case 1
    show ?thesis unfolding plan_next_def 1 plan_phase.case
      by (rule plan_move_good [OF i e]) (use i 1 in \<open>auto simp: plan_simps\<close>)
  next
    case 2
    show ?thesis unfolding plan_next_def 2 plan_phase.case
      by (rule plan_move_good [OF i e]) (use i 2 in \<open>auto simp: plan_simps next_node_def rbind_Inr_iff split: if_split_asm\<close>)
  next
    case 3
    show ?thesis unfolding plan_next_def 3 plan_phase.case
      by (rule plan_move_good [OF i e]) (use i 3 in \<open>auto simp: plan_simps dispatch_step_node_def rbind_Inr_iff split: if_split_asm\<close>)
  next
    case 4
    show ?thesis unfolding plan_next_def 4 plan_phase.case
      by (rule plan_move_good [OF i e]) (use i 4 in \<open>auto simp: plan_simps execute_step_def split: if_split_asm sum.split_asm\<close>)
  next
    case 5
    show ?thesis unfolding plan_next_def 5 plan_phase.case
      by (rule plan_move_good [OF i e]) (use i 5 in \<open>auto simp: plan_simps\<close>)
  qed
qed

lemma plan_step_good:
  assumes i: "plan_inv dir limit rq c" and s: "plan_run_step dir limit c c'"
  shows "plan_good dir limit rq c c'"
proof -
  from s obtain en where c': "c' = plan_next dir limit en c" and e: "\<not> plan_ended c" by (auto elim: plan_run_stepE)
  show ?thesis
  proof (cases "pr_phase c")
    case (AtAccept p)
    then show ?thesis using accept_good [OF i, of p en] by (simp add: c' plan_next_def)
  next
    case (AtRecordStep result)
    then show ?thesis using record_good [OF i, of result en] by (simp add: c' plan_next_def)
  next
    case (AtReplan input)
    then show ?thesis using replan_good [OF i] c' by simp
  qed (use e c' move_phase_good [OF i e, of en] in \<open>auto simp: plan_ended_def\<close>)
qed

interpretation planexec: bounded_system "plan_run_step dir limit" "plan_inv dir limit rq" "plan_weight limit" plan_ended
  for dir limit rq
  by unfold_locales (auto dest: plan_step_good simp: plan_good_def intro: plan_run_stepI)

text \<open>A run never goes back to an older plan.\<close>

lemma plan_version_step:
  assumes i: "plan_inv dir limit rq c" and s: "plan_run_step dir limit c c'"
  shows "pl_version (ps_plan (pr_state c)) \<le> pl_version (ps_plan (pr_state c')) \<or>
    pl_version (ps_plan (pr_state c)) = 0"
proof -
  from s obtain en where c': "c' = plan_next dir limit en c" by (auto elim: plan_run_stepE)
  show ?thesis
  proof (cases "pr_phase c")
    case (AtAccept p)
    then show ?thesis
      by (auto simp: c' plan_next_def plan_write_def accept_node_def rbind_Inr_iff acceptPlan_Inr split: sum.split)
  next
    case (AtRecordStep result)
    then show ?thesis
      by (auto simp: c' plan_next_def plan_write_def record_step_def rbind_Inr_iff Let_def split: sum.split if_split_asm)
  next
    case (AtReplan input)
    then show ?thesis
      by (auto simp: c' plan_next_def replan_node_def rbind_Inr_iff split: sum.split sum.split_asm if_split_asm)
  qed (simp_all add: c' plan_next_def plan_move_def)
qed

end
