(* ===== verification/Compose.thy ===== *)
theory Compose
  imports Agent_Types
begin

text \<open>
  The agents that compose a fixed set of children: \<open>sequential\<close>, \<open>parallel\<close> and \<open>router\<close>
  under \<open>src/agents\<close>. A child is given by its position and answers a request with a
  response or an error.
\<close>

section \<open>Children of a directory\<close>

text \<open>The loop of \<open>New\<close> that looks the children up; \<open>scope\<close> is the package of the error.\<close>

fun lookup_children :: "string \<Rightarrow> directory \<Rightarrow> string list \<Rightarrow> agent_error + identity list" where
  "lookup_children scope dir [] = Inr []"
| "lookup_children scope dir (name # names) =
    (case dir_lookup dir name of
       Some (Some i) \<Rightarrow> (case lookup_children scope dir names of Inl e \<Rightarrow> Inl e | Inr is \<Rightarrow> Inr (i # is))
     | _ \<Rightarrow> Inl (Errorf (scope @ '': child %q is not in the directory'') [Str name]))"

lemma lookup_children_Inr:
  "lookup_children scope dir names = Inr is \<longleftrightarrow> list_all2 (\<lambda>name i. dir_lookup dir name = Some (Some i)) names is"
proof (induction names arbitrary: "is")
  case Nil
  then show ?case by auto
next
  case (Cons name names)
  show ?case by (cases "is") (auto simp flip: Cons.IH split: option.splits sum.splits)
qed

section \<open>The sequential agent\<close>

definition check_name :: "nat \<times> string \<Rightarrow> validator \<Rightarrow> validator" where
  "check_name = (\<lambda>(i, name). Required (Sprintf ''child %d name'' [Num (int i)]) name)"

definition new_sequential :: "identity \<Rightarrow> directory option \<Rightarrow> string list \<Rightarrow> agent_error + identity list" where
  "new_sequential i dir names =
    (case Err (fold check_name (enumerate 0 names)
        (chain [Identity ''agent'' i, Present (Str ''directory'') dir, NonEmpty (Str ''children'') (length names)]
          (new_validator ''sequential''))) of
       Some e \<Rightarrow> Inl e
     | None \<Rightarrow> (case dir of None \<Rightarrow> Inr [] | Some d \<Rightarrow> lookup_children ''sequential'' d names))"

text \<open>Node \<open>i\<close> and the nodes that its route leads to.\<close>

fun run_sequential ::
  "(nat \<Rightarrow> request \<Rightarrow> agent_error + response) \<Rightarrow> nat \<Rightarrow> identity list \<Rightarrow> request \<Rightarrow> agent_error + response" where
  "run_sequential child i [] rq = Inl (Errorf ''workflow without nodes'' [])"
| "run_sequential child i [c] rq = child i rq"
| "run_sequential child i (c # d # cs) rq =
    rbind (child i rq) (\<lambda>r. run_sequential child (Suc i) (d # cs) (requestFromResponse r))"

text \<open>The requests and responses of a run that reached its end: a chain of answers.\<close>

fun answer_chain ::
  "(nat \<Rightarrow> request \<Rightarrow> agent_error + response) \<Rightarrow> nat \<Rightarrow> request \<Rightarrow> response list \<Rightarrow> bool" where
  "answer_chain child i rq [] = True"
| "answer_chain child i rq (r # rs) \<longleftrightarrow> child i rq = Inr r \<and> answer_chain child (Suc i) (requestFromResponse r) rs"

lemma run_sequential_Inr:
  "cs \<noteq> [] \<Longrightarrow> run_sequential child i cs rq = Inr r \<longleftrightarrow>
    (\<exists>rs. length rs = length cs \<and> answer_chain child i rq rs \<and> last rs = r)"
proof (induction child i cs rq rule: run_sequential.induct)
  case (1 child i rq)
  then show ?case by simp
next
  case (2 child i c rq)
  show ?case by (auto simp: length_Suc_conv intro!: exI [of _ "[r]"])
next
  case (3 child i c d cs rq)
  have "run_sequential child i (c # d # cs) rq = Inr r \<longleftrightarrow>
      (\<exists>x. child i rq = Inr x \<and> (\<exists>rs. length rs = length (d # cs) \<and>
         answer_chain child (Suc i) (requestFromResponse x) rs \<and> last rs = r))"
    using 3 by (auto simp: rbind_Inr_iff)
  also have "\<dots> \<longleftrightarrow> (\<exists>x rs. length (x # rs) = length (c # d # cs) \<and> answer_chain child i rq (x # rs) \<and> last (x # rs) = r)"
  proof (rule ex_cong1)
    fix x
    have "last (x # rs) = last rs" if "length rs = length (d # cs)" for rs :: "response list" using that by auto
    then show "child i rq = Inr x \<and> (\<exists>rs. length rs = length (d # cs) \<and>
         answer_chain child (Suc i) (requestFromResponse x) rs \<and> last rs = r) \<longleftrightarrow>
      (\<exists>rs. length (x # rs) = length (c # d # cs) \<and> answer_chain child i rq (x # rs) \<and> last (x # rs) = r)"
      unfolding answer_chain.simps list.size(4) add_Suc_right add_0_right nat.inject by metis
  qed
  also have "\<dots> \<longleftrightarrow> (\<exists>rs. length rs = length (c # d # cs) \<and> answer_chain child i rq rs \<and> last rs = r)"
  proof -
    have "(\<exists>rs. length rs = Suc n \<and> P rs) \<longleftrightarrow> (\<exists>x rs. length (x # rs) = Suc n \<and> P (x # rs))" for n and P :: "response list \<Rightarrow> bool"
      by (auto simp: length_Suc_conv)
    then show ?thesis by simp
  qed
  finally show ?case .
qed

text \<open>A run that fails has failed at a child all of whose predecessors answered.\<close>

lemma run_sequential_Inl:
  "cs \<noteq> [] \<Longrightarrow> run_sequential child i cs rq = Inl e \<Longrightarrow>
    \<exists>rs rq'. length rs < length cs \<and> answer_chain child i rq rs \<and>
      rq' = (if rs = [] then rq else requestFromResponse (last rs)) \<and> child (i + length rs) rq' = Inl e"
proof (induction child i cs rq rule: run_sequential.induct)
  case (1 child i rq)
  then show ?case by simp
next
  case (2 child i c rq)
  then show ?case by (intro exI [of _ "[]"]) simp
next
  case (3 child i c d cs rq)
  show ?case
  proof (cases "child i rq")
    case (Inl e')
    then show ?thesis using 3 by (intro exI [of _ "[]"]) simp
  next
    case (Inr r)
    with 3 obtain rs where "length rs < length (d # cs)" "answer_chain child (Suc i) (requestFromResponse r) rs"
      "child (Suc i + length rs) (if rs = [] then requestFromResponse r else requestFromResponse (last rs)) = Inl e"
      by auto
    then show ?thesis using Inr by (intro exI [of _ "r # rs"]) auto
  qed
qed

section \<open>The parallel agent\<close>

record branch_result =
  br_name :: string
  br_response :: response

definition check_branch :: "nat \<times> string \<Rightarrow> validator \<Rightarrow> validator" where
  "check_branch = (\<lambda>(i, name). chain
    [Required (Sprintf ''child %d name'' [Num (int i)]) name, Unique ''child'' name])"

text \<open>The result is the children and the parallelism that the workflow is built with.\<close>

definition new_parallel ::
  "identity \<Rightarrow> directory option \<Rightarrow> string list \<Rightarrow> 'r option \<Rightarrow> int list \<Rightarrow> agent_error + (identity list \<times> int)" where
  "new_parallel i dir names reducer given =
    (case Err (fold check_branch (enumerate 0 names)
        (chain [Identity ''agent'' i, Present (Str ''directory'') dir, Present (Str ''reducer'') reducer,
                NonEmpty (Str ''children'') (length names)] (new_validator ''parallel''))) of
       Some e \<Rightarrow> Inl e
     | None \<Rightarrow>
    (case Err (fold (Positive (Str ''max parallelism'')) given (new_validator ''parallel'')) of
       Some e \<Rightarrow> Inl e
     | None \<Rightarrow>
    (case dir of None \<Rightarrow> Inr ([], 0) | Some d \<Rightarrow>
     rbind (lookup_children ''parallel'' d names) (\<lambda>children.
     let parallelism = last (0 # given)
     in Inr (children, if parallelism = 0 then int (length children) else parallelism)))))"

text \<open>
  The merge: \<open>one\<close> is \<open>inputs.One\<close>, the single input that arrived from a node. The branches
  arrive as they complete, in any order.
\<close>

fun branch_results ::
  "(nat \<Rightarrow> agent_error + response) \<Rightarrow> nat \<Rightarrow> identity list \<Rightarrow> agent_error + branch_result list" where
  "branch_results one n [] = Inr []"
| "branch_results one n (c # cs) =
    rbind (one n) (\<lambda>r. rbind (branch_results one (Suc n) cs) (\<lambda>results.
    Inr (\<lparr>br_name = id_name c, br_response = r\<rparr> # results)))"

definition merge_branches ::
  "(branch_result list \<Rightarrow> agent_error + response) \<Rightarrow> (nat \<Rightarrow> agent_error + response) \<Rightarrow> identity list \<Rightarrow>
   agent_error + response" where
  "merge_branches reduce one children =
    rbind (branch_results one 0 children) (\<lambda>results.
    case reduce results of
      Inl e \<Rightarrow> Inl (Wrapped ''parallel: reduce branches: %w'' [] e) | Inr r \<Rightarrow> Inr r)"

definition one_input :: "(nat \<times> response) list \<Rightarrow> nat \<Rightarrow> agent_error + response" where
  "one_input arrived n = (case map_of arrived n of Some r \<Rightarrow> Inr r | None \<Rightarrow> Inl (External n))"

text \<open>
  The run for the branches completing in the order \<open>order\<close>: every branch is given the
  request, all of them settle, and only when none failed the merge runs. The workflow engine,
  which is outside the repository, joins the errors of the branches; here they are a list in
  the order in which they were met. Its limit on parallelism only restricts the orders.
\<close>

definition run_parallel ::
  "(nat \<Rightarrow> request \<Rightarrow> agent_error + response) \<Rightarrow> (branch_result list \<Rightarrow> agent_error + response) \<Rightarrow>
   identity list \<Rightarrow> nat list \<Rightarrow> request \<Rightarrow> agent_error list + response" where
  "run_parallel child reduce children order rq =
    (let errors = [e. n \<leftarrow> order, Inl e \<leftarrow> [child n rq]]; arrived = [(n, r). n \<leftarrow> order, Inr r \<leftarrow> [child n rq]]
     in if errors \<noteq> [] then Inl errors
        else (case merge_branches reduce (one_input arrived) children of Inl e \<Rightarrow> Inl [e] | Inr r \<Rightarrow> Inr r))"

lemma branch_results_Inr:
  assumes "\<forall>i < length cs. one (n + i) = Inr (rs ! i)" "length rs = length cs"
  shows "branch_results one n cs = Inr (map2 (\<lambda>c r. \<lparr>br_name = id_name c, br_response = r\<rparr>) cs rs)"
  using assms
proof (induction cs arbitrary: n rs)
  case Nil
  then show ?case by simp
next
  case (Cons c cs)
  from Cons.prems(2) obtain r rs' where rs: "rs = r # rs'" "length rs' = length cs" by (cases rs) auto
  have "one n = Inr r" using Cons.prems(1) rs by (metis add_0_right length_Cons nth_Cons_0 zero_less_Suc)
  moreover have "\<forall>i < length cs. one (Suc n + i) = Inr (rs' ! i)"
    using Cons.prems(1) rs by (metis Suc_less_eq add_Suc_shift length_Cons nth_Cons_Suc)
  ultimately show ?case using Cons.IH [of "Suc n" rs'] rs by simp
qed

lemma arrived_inputs:
  assumes "distinct order" "\<forall>n \<in> set order. child n rq = Inr (f n)"
  shows "[(n, r). n \<leftarrow> order, Inr r \<leftarrow> [child n rq]] = map (\<lambda>n. (n, f n)) order"
    "[e. n \<leftarrow> order, Inl e \<leftarrow> [child n rq]] = []"
  using assms by (induction order) auto

text \<open>
  What a parallel run returns, for any order in which the branches complete: the reducer is
  given the responses in the order of the declaration.
\<close>

lemma run_parallel_ok:
  assumes order: "distinct order" "set order = {..<length cs}"
    and ok: "\<forall>n < length cs. child n rq = Inr (rs ! n)" "length rs = length cs"
  shows "run_parallel child reduce cs order rq =
    (case reduce (map2 (\<lambda>c r. \<lparr>br_name = id_name c, br_response = r\<rparr>) cs rs) of
       Inl e \<Rightarrow> Inl [Wrapped ''parallel: reduce branches: %w'' [] e] | Inr r \<Rightarrow> Inr r)"
proof -
  note a = arrived_inputs [OF order(1), of child rq "(!) rs"]
  have "\<forall>n \<in> set order. child n rq = Inr (rs ! n)" using order(2) ok by auto
  note a = a [OF this]
  have "map_of (map (\<lambda>n. (n, rs ! n)) order) n = Some (rs ! n)" if "n < length cs" for n
    using that order by (simp add: map_of_map_restrict restrict_map_def comp_def)
  then have "branch_results (one_input (map (\<lambda>n. (n, rs ! n)) order)) 0 cs =
      Inr (map2 (\<lambda>c r. \<lparr>br_name = id_name c, br_response = r\<rparr>) cs rs)"
    using ok(2) by (intro branch_results_Inr) (auto simp: one_input_def)
  then show ?thesis unfolding run_parallel_def a Let_def
    by (simp add: merge_branches_def split: sum.split)
qed

lemma run_parallel_failed:
  assumes "n \<in> set order" "child n rq = Inl e"
  shows "\<exists>errors. run_parallel child reduce cs order rq = Inl errors \<and> e \<in> set errors \<and>
    (\<forall>x \<in> set errors. \<exists>m \<in> set order. child m rq = Inl x)"
proof -
  let ?errors = "[e. n \<leftarrow> order, Inl e \<leftarrow> [child n rq]]"
  have s: "set ?errors = {x. \<exists>m \<in> set order. child m rq = Inl x}"
    by (induction order) (auto split: sum.splits)
  with assms have e: "e \<in> set ?errors" "\<forall>x \<in> set ?errors. \<exists>m \<in> set order. child m rq = Inl x"
    by blast+
  have "xs \<noteq> []" if "x \<in> set xs" for x :: agent_error and xs using that by auto
  from this [OF e(1)] have "?errors \<noteq> []" .
  then have "run_parallel child reduce cs order rq = Inl ?errors" unfolding run_parallel_def Let_def by (simp only: if_True not_False_eq_True)
  with e show ?thesis by blast
qed

section \<open>The router\<close>

record selection =
  sl_child :: string
  sl_reason :: string

record router_env =
  ro_select :: "request \<Rightarrow> identity list \<Rightarrow> agent_error + selection"
  ro_child :: "string \<Rightarrow> request \<Rightarrow> agent_error + response"

definition new_router :: "identity \<Rightarrow> directory option \<Rightarrow> 's option \<Rightarrow> agent_error option" where
  "new_router i dir selector =
    Err (chain [Identity ''agent'' i, Present (Str ''directory'') dir, Present (Str ''selector'') selector]
      (new_validator ''router''))"

definition select_node :: "directory \<Rightarrow> router_env \<Rightarrow> request \<Rightarrow> agent_error + selection" where
  "select_node dir en rq =
    (case ro_select en rq (dir_list dir) of
       Inl e \<Rightarrow> Inl (Wrapped ''router: select child: %w'' [] e)
     | Inr s \<Rightarrow>
         if sl_child s = '''' then Inl (Errorf ''router: selector returned an empty child'' [])
         else if \<not> has_child dir (sl_child s)
         then Inl (Errorf ''router: selected child %q is not in the directory'' [Str (sl_child s)])
         else Inr s)"

text \<open>
  The route to the node of the selected child: the nodes are those of the candidates that
  the directory lists, so a child that it finds without listing it has no node.
\<close>

datatype router_outcome = Routed "agent_error + response" | NoNode

definition run_router :: "directory \<Rightarrow> router_env \<Rightarrow> request \<Rightarrow> router_outcome" where
  "run_router dir en rq =
    (case select_node dir en rq of
       Inl e \<Rightarrow> Routed (Inl e)
     | Inr s \<Rightarrow>
         if sl_child s \<in> id_name ` set (dir_list dir) then Routed (ro_child en (sl_child s) rq)
         else NoNode)"

end
