(* ===== verification/Acp.thy ===== *)
theory Acp
  imports Agent_Types
begin

text \<open>
  The client of a remote agent of \<open>src/agents/acp/acp.go\<close>: the conversion of a request into
  prompt content, the turns in which the updates of a session are collected, and the
  interleaving of invocations and update handlers over one connection. A turn is a pointer
  in the source, shared by the map of active turns, the invocation and the handlers that
  have looked it up, so turns live in a store under a number.
\<close>

section \<open>Prompt content\<close>

datatype block_type = BlockText | BlockResourceLink | BlockOther string

record content_block =
  cb_type :: block_type
  cb_text :: string
  cb_name :: string
  cb_uri :: "string option"

definition TextContentBlock :: "string \<Rightarrow> content_block" where
  "TextContentBlock t = \<lparr>cb_type = BlockText, cb_text = t, cb_name = '''', cb_uri = None\<rparr>"

definition ResourceLinkContentBlock :: "string \<Rightarrow> string \<Rightarrow> content_block" where
  "ResourceLinkContentBlock name uri =
    \<lparr>cb_type = BlockResourceLink, cb_text = '''', cb_name = name, cb_uri = Some uri\<rparr>"

definition artifactContent :: "artifact_ref \<Rightarrow> agent_error + content_block" where
  "artifactContent a =
    (if ref_uri a = '''' then Inl (Errorf ''artifact URI is required'' [])
     else Inr (ResourceLinkContentBlock (if ref_kind a = '''' then ref_uri a else ref_kind a) (ref_uri a)))"

definition messagePartContent :: "part \<Rightarrow> agent_error + (content_block \<times> artifact_ref list)" where
  "messagePartContent p =
    (if pt_type p = PartText \<and> pt_ref p = None then Inr (TextContentBlock (pt_text p), [])
     else (case pt_ref p of
         Some ref \<Rightarrow>
           if pt_type p = PartArtifact
           then rbind (artifactContent ref) (\<lambda>block. Inr (block, [ref]))
           else Inl (Errorf ''unsupported message part %q'' [])
       | None \<Rightarrow> Inl (Errorf ''unsupported message part %q'' [])))"

fun parts_content :: "part list \<Rightarrow> agent_error + (content_block list \<times> artifact_ref list)" where
  "parts_content [] = Inr ([], [])"
| "parts_content (p # ps) =
    rbind (messagePartContent p) (\<lambda>(block, ref).
    rbind (parts_content ps) (\<lambda>(blocks, refs). Inr (block # blocks, ref @ refs)))"

definition messageContent :: "message \<Rightarrow> agent_error + (content_block list \<times> artifact_ref list)" where
  "messageContent m =
    (if msg_tool_calls m \<noteq> [] \<or> msg_tool_call_id m \<noteq> '''' then Inl (Errorf ''tool messages are unsupported'' [])
     else parts_content (msg_parts m))"

fun messages_content ::
  "nat \<Rightarrow> message list \<Rightarrow> agent_error + (content_block list \<times> artifact_ref list)" where
  "messages_content i [] = Inr ([], [])"
| "messages_content i (m # ms) =
    (case messageContent m of
       Inl e \<Rightarrow> Inl (Wrapped ''acp: request message %d: %w'' [Num (int i)] e)
     | Inr (blocks, refs) \<Rightarrow>
         rbind (messages_content (Suc i) ms) (\<lambda>(blocks', refs'). Inr (blocks @ blocks', refs @ refs')))"

text \<open>The artifacts of the request that no message has shown.\<close>

fun artifacts_content :: "artifact_ref list \<Rightarrow> artifact_ref list \<Rightarrow> agent_error + content_block list" where
  "artifacts_content seen [] = Inr []"
| "artifacts_content seen (a # as) =
    (if a \<in> set seen then artifacts_content seen as
     else rbind (artifactContent a) (\<lambda>block. rbind (artifacts_content seen as) (\<lambda>blocks. Inr (block # blocks))))"

definition promptContent :: "request \<Rightarrow> agent_error + content_block list" where
  "promptContent rq =
    rbind (messages_content 0 (rq_messages rq)) (\<lambda>(blocks, seen).
    rbind (artifacts_content seen (rq_artifacts rq)) (\<lambda>more_blocks. Inr (blocks @ more_blocks)))"

section \<open>Turns\<close>

record session_update =
  su_message_chunk :: bool
  su_content :: "content_block option"

record turn =
  tn_parts :: "part list"
  tn_artifacts :: "artifact_ref list"
  tn_err :: "agent_error option"

definition empty_turn :: turn where
  "empty_turn = \<lparr>tn_parts = [], tn_artifacts = [], tn_err = None\<rparr>"

definition addResourceLink :: "content_block \<Rightarrow> turn \<Rightarrow> agent_error option \<times> turn" where
  "addResourceLink content active =
    (case cb_uri content of
       None \<Rightarrow> (let e = Errorf ''acp: resource link URI is required'' [] in (Some e, active\<lparr>tn_err := Some e\<rparr>))
     | Some uri \<Rightarrow>
         let ref = \<lparr>ref_uri = uri, ref_kind = cb_name content\<rparr>
         in (None, active\<lparr>tn_parts := tn_parts active @ [\<lparr>pt_type = PartArtifact, pt_text = '''', pt_ref = Some ref\<rparr>],
               tn_artifacts := tn_artifacts active @ [ref]\<rparr>))"

definition add_update :: "session_update \<Rightarrow> turn \<Rightarrow> agent_error option \<times> turn" where
  "add_update u active =
    (if \<not> su_message_chunk u then (None, active)
     else case su_content u of
       None \<Rightarrow> (Some (Errorf ''acp: agent message update has invalid content'' []), active)
     | Some content \<Rightarrow>
         if tn_err active \<noteq> None then (None, active)
         else (case cb_type content of
             BlockText \<Rightarrow> (tn_err active, active\<lparr>tn_parts := tn_parts active @
               [\<lparr>pt_type = PartText, pt_text = cb_text content, pt_ref = None\<rparr>]\<rparr>)
           | BlockResourceLink \<Rightarrow> addResourceLink content active
           | BlockOther t \<Rightarrow>
               let e = Errorf ''acp: unsupported response content %q'' [Str t]
               in (Some e, active\<lparr>tn_err := Some e\<rparr>)))"

definition turn_response :: "turn \<Rightarrow> agent_error + response" where
  "turn_response active =
    (case tn_err active of
       Some e \<Rightarrow> Inl e
     | None \<Rightarrow> Inr \<lparr>rs_message = \<lparr>msg_role = RoleAssistant, msg_parts = tn_parts active, msg_tool_calls = [],
           msg_tool_call_id = ''''\<rparr>,
         rs_artifacts = tn_artifacts active, rs_metadata = []\<rparr>)"

section \<open>The agent\<close>

record acp_agent =
  ac_turns :: "string \<Rightarrow> nat option"
  ac_store :: "nat \<Rightarrow> turn"
  ac_fresh :: nat

definition new_acp_agent :: acp_agent where
  "new_acp_agent = \<lparr>ac_turns = Map.empty, ac_store = (\<lambda>_. empty_turn), ac_fresh = 0\<rparr>"

definition startTurn :: "string \<Rightarrow> acp_agent \<Rightarrow> agent_error + (nat \<times> acp_agent)" where
  "startTurn sid s =
    (if ac_turns s sid \<noteq> None then Inl (Errorf ''acp: session prompt already active'' [])
     else let active = ac_fresh s
       in Inr (active, s\<lparr>ac_turns := (ac_turns s)(sid \<mapsto> active),
            ac_store := (ac_store s)(active := empty_turn), ac_fresh := active + 1\<rparr>))"

definition finishTurn :: "string \<Rightarrow> nat \<Rightarrow> acp_agent \<Rightarrow> acp_agent" where
  "finishTurn sid active s =
    (if ac_turns s sid = Some active then s\<lparr>ac_turns := (ac_turns s)(sid := None)\<rparr> else s)"

text \<open>\<open>Update\<close> in its two critical sections: the lookup of the turn and the addition to it.\<close>

definition update_lookup :: "string \<Rightarrow> acp_agent \<Rightarrow> agent_error + nat" where
  "update_lookup sid s =
    (case ac_turns s sid of None \<Rightarrow> Inl (Errorf ''acp: update has no active prompt'' []) | Some active \<Rightarrow> Inr active)"

definition update_add :: "nat \<Rightarrow> session_update \<Rightarrow> acp_agent \<Rightarrow> agent_error option \<times> acp_agent" where
  "update_add active u s =
    (let (e, t) = add_update u (ac_store s active) in (e, s\<lparr>ac_store := (ac_store s)(active := t)\<rparr>))"

text \<open>
  What the context, the options and the remote agent answer to one invocation; the
  environment's \<open>StopReasonEndTurn\<close> is \<open>EndTurn\<close>.
\<close>

datatype stop_reason = EndTurn | Canceled | OtherReason string

record acp_env =
  ae_context :: "agent_error option"
  ae_options :: "agent_error option"
  ae_session :: "agent_error + string"
  ae_prompt :: "agent_error + stop_reason"
  ae_context_after :: "agent_error option"

definition context_canceled :: agent_error where
  "context_canceled = Errorf ''context canceled'' []"

definition invoke_begin ::
  "acp_env \<Rightarrow> request \<Rightarrow> acp_agent \<Rightarrow> agent_error + (string \<times> nat \<times> content_block list \<times> acp_agent)" where
  "invoke_begin en rq s =
    (case ae_context en of Some e \<Rightarrow> Inl e | None \<Rightarrow>
    (case ae_options en of Some e \<Rightarrow> Inl e | None \<Rightarrow>
     rbind (promptContent rq) (\<lambda>content.
     case ae_session en of
       Inl e \<Rightarrow> Inl (Wrapped ''acp: create session: %w'' [] e)
     | Inr sid \<Rightarrow> rbind (startTurn sid s) (\<lambda>(active, s'). Inr (sid, active, content, s')))))"

definition invoke_result :: "acp_env \<Rightarrow> turn \<Rightarrow> agent_error + response" where
  "invoke_result en active =
    (case ae_prompt en of
       Inl e \<Rightarrow> Inl (case ae_context_after en of Some c \<Rightarrow> c | None \<Rightarrow> Wrapped ''acp: prompt: %w'' [] e)
     | Inr reason \<Rightarrow>
         if reason = Canceled then Inl context_canceled
         else rbind (turn_response active) (\<lambda>r.
           if msg_parts (rs_message r) = [] then Inl (Errorf ''acp: prompt returned no agent message'' [])
           else Inr (case reason of
               OtherReason t \<Rightarrow> r\<lparr>rs_metadata := [(''acp.stop_reason'', t)]\<rparr>
             | _ \<Rightarrow> r)))"

definition invoke_end ::
  "acp_env \<Rightarrow> string \<Rightarrow> nat \<Rightarrow> acp_agent \<Rightarrow> (agent_error + response) \<times> acp_agent" where
  "invoke_end en sid active s = (invoke_result en (ac_store s active), finishTurn sid active s)"

text \<open>
  \<open>New\<close>: what it is given, possibly nil, and what the protocol library and the remote agent
  answer; the connection that was opened is closed when the initialization fails.
\<close>

record acp_remote =
  am_client :: "agent_error option"
  am_initialize :: "agent_error + int"
  am_ProtocolVersionV1 :: int

datatype acp_new = NotOpened agent_error | Closed agent_error | Opened acp_agent

definition new_acp ::
  "unit option \<Rightarrow> identity \<Rightarrow> unit option \<Rightarrow> unit option \<Rightarrow> string option list \<Rightarrow> acp_remote \<Rightarrow> acp_new" where
  "new_acp ctx i inp out options remote =
    (if IsNil ctx then NotOpened (Errorf ''acp: context is nil'' [])
     else if id_name i = '''' \<or> id_description i = '''' \<or> id_version i = ''''
     then NotOpened (Errorf ''acp: agent identity is incomplete'' [])
     else if IsNil inp \<or> IsNil out then NotOpened (Errorf ''acp: input and output are required'' [])
     else if list_ex IsNil options then NotOpened (Errorf ''acp: option is nil'' [])
     else case am_client remote of
       Some e \<Rightarrow> NotOpened e
     | None \<Rightarrow> (case am_initialize remote of
         Inl e \<Rightarrow> Closed (Wrapped ''acp: initialize: %w'' [] e)
       | Inr version \<Rightarrow>
           if version \<noteq> am_ProtocolVersionV1 remote
           then Closed (Errorf ''acp: unsupported protocol version %d'' [Num version])
           else Opened new_acp_agent))"

end
