(* ===== verification/Acp_Proofs.thy ===== *)
theory Acp_Proofs
  imports Acp
begin

text \<open>
  Turns are isolated: whatever invocations and update handlers interleave, the turn of an
  invocation holds what the updates of its own session have added, in their order.
\<close>

section \<open>What updates add\<close>

text \<open>The parts that the source's rules give to one update.\<close>

definition update_parts :: "session_update \<Rightarrow> part list" where
  "update_parts u =
    (case su_content u of
       Some c \<Rightarrow> if \<not> su_message_chunk u then []
         else (case cb_type c of
             BlockText \<Rightarrow> [\<lparr>pt_type = PartText, pt_text = cb_text c, pt_ref = None\<rparr>]
           | BlockResourceLink \<Rightarrow> (case cb_uri c of
               Some uri \<Rightarrow> [\<lparr>pt_type = PartArtifact, pt_text = '''', pt_ref = Some \<lparr>ref_uri = uri, ref_kind = cb_name c\<rparr>\<rparr>]
             | None \<Rightarrow> [])
           | BlockOther _ \<Rightarrow> [])
     | None \<Rightarrow> [])"

definition update_fails :: "session_update \<Rightarrow> bool" where
  "update_fails u \<longleftrightarrow> su_message_chunk u \<and>
    (case su_content u of
       Some c \<Rightarrow> (case cb_type c of BlockText \<Rightarrow> False | BlockResourceLink \<Rightarrow> cb_uri c = None | BlockOther _ \<Rightarrow> True)
     | None \<Rightarrow> False)"

definition collected :: "session_update list \<Rightarrow> turn" where
  "collected us = fold (\<lambda>u t. snd (add_update u t)) us empty_turn"

lemma collected_snoc: "collected (us @ [u]) = snd (add_update u (collected us))"
  by (simp add: collected_def)

lemma add_update_error: "tn_err t \<noteq> None \<Longrightarrow> snd (add_update u t) = t"
  by (auto simp: add_update_def split: option.split)

lemma add_update_ok:
  "tn_err t = None \<Longrightarrow> \<not> update_fails u \<Longrightarrow>
    tn_err (snd (add_update u t)) = None \<and> tn_parts (snd (add_update u t)) = tn_parts t @ update_parts u \<and>
    tn_artifacts (snd (add_update u t)) = tn_artifacts t @ [r. p \<leftarrow> update_parts u, Some r \<leftarrow> [pt_ref p]]"
  by (auto simp: add_update_def update_fails_def update_parts_def addResourceLink_def Let_def
      split: option.splits block_type.splits)

lemma add_update_fails: "tn_err t = None \<Longrightarrow> update_fails u \<Longrightarrow> tn_err (snd (add_update u t)) \<noteq> None"
  by (auto simp: add_update_def update_fails_def addResourceLink_def Let_def
      split: option.splits block_type.splits)

lemma collected_ok:
  "tn_err (collected us) = None \<longleftrightarrow> (\<forall>u \<in> set us. \<not> update_fails u)"
  "tn_err (collected us) = None \<Longrightarrow> tn_parts (collected us) = concat (map update_parts us)"
  "tn_err (collected us) = None \<Longrightarrow>
    tn_artifacts (collected us) = [r. p \<leftarrow> concat (map update_parts us), Some r \<leftarrow> [pt_ref p]]"
proof (induction us rule: rev_induct)
  case Nil
  case 1 show ?case by (simp add: collected_def empty_turn_def)
  case 2 show ?case by (simp add: collected_def empty_turn_def)
  case 3 show ?case by (simp add: collected_def empty_turn_def)
next
  case (snoc u us)
  have err: "tn_err (collected (us @ [u])) = None \<longleftrightarrow> tn_err (collected us) = None \<and> \<not> update_fails u"
    using add_update_error [of "collected us" u] add_update_ok [of "collected us" u]
      add_update_fails [of "collected us" u]
    by (cases "tn_err (collected us) = None") (auto simp: collected_snoc)
  case 1 show ?case using snoc(1) err by auto
  case 2 then show ?case using snoc(2) err add_update_ok [of "collected us" u] by (auto simp: collected_snoc)
  case 3 then show ?case using snoc(3) err add_update_ok [of "collected us" u] by (auto simp: collected_snoc)
qed

section \<open>Interleavings\<close>

text \<open>
  Besides the agent, the invocations in progress and the handlers between their two critical
  sections. \<open>as_session\<close> and \<open>as_log\<close> record, for the proof, the session a turn was started
  for and the updates that were added to it with the session they name.
\<close>

record acp_system =
  as_agent :: acp_agent
  as_live :: "(string \<times> nat) list"
  as_handlers :: "(string \<times> nat \<times> session_update) list"
  as_session :: "nat \<Rightarrow> string"
  as_log :: "nat \<Rightarrow> (string \<times> session_update) list"

definition acp_idle :: acp_system where
  "acp_idle = \<lparr>as_agent = new_acp_agent, as_live = [], as_handlers = [], as_session = (\<lambda>_. ''''), as_log = (\<lambda>_. [])\<rparr>"

inductive acp_step :: "acp_system \<Rightarrow> acp_system \<Rightarrow> bool" where
  acp_begin: "startTurn sid (as_agent s) = Inr (active, agent') \<Longrightarrow>
    acp_step s (s\<lparr>as_agent := agent', as_live := (sid, active) # as_live s,
      as_session := (as_session s)(active := sid)\<rparr>)"
| acp_lookup: "update_lookup sid (as_agent s) = Inr active \<Longrightarrow>
    acp_step s (s\<lparr>as_handlers := (sid, active, u) # as_handlers s\<rparr>)"
| acp_add: "(sid, active, u) \<in> set (as_handlers s) \<Longrightarrow>
    acp_step s (s\<lparr>as_agent := snd (update_add active u (as_agent s)),
      as_handlers := remove1 (sid, active, u) (as_handlers s),
      as_log := (as_log s)(active := as_log s active @ [(sid, u)])\<rparr>)"
| acp_end: "(sid, active) \<in> set (as_live s) \<Longrightarrow>
    acp_step s (s\<lparr>as_agent := finishTurn sid active (as_agent s), as_live := remove1 (sid, active) (as_live s)\<rparr>)"

inductive_cases acp_stepE: "acp_step s s'"

definition acp_inv :: "acp_system \<Rightarrow> bool" where
  "acp_inv s \<longleftrightarrow>
    (\<forall>sid active. ac_turns (as_agent s) sid = Some active \<longleftrightarrow> (sid, active) \<in> set (as_live s)) \<and>
    distinct (as_live s) \<and>
    (\<forall>sid active. (sid, active) \<in> set (as_live s) \<longrightarrow>
       active < ac_fresh (as_agent s) \<and> as_session s active = sid) \<and>
    (\<forall>sid active u. (sid, active, u) \<in> set (as_handlers s) \<longrightarrow>
       active < ac_fresh (as_agent s) \<and> as_session s active = sid) \<and>
    (\<forall>active. ac_store (as_agent s) active = collected (map snd (as_log s active))) \<and>
    (\<forall>active. ac_fresh (as_agent s) \<le> active \<longrightarrow> as_log s active = []) \<and>
    (\<forall>active sid u. (sid, u) \<in> set (as_log s active) \<longrightarrow> as_session s active = sid)"

lemma acp_invD:
  assumes "acp_inv s"
  shows "ac_turns (as_agent s) sid = Some active \<longleftrightarrow> (sid, active) \<in> set (as_live s)"
    "distinct (as_live s)"
    "(sid, active) \<in> set (as_live s) \<Longrightarrow> active < ac_fresh (as_agent s) \<and> as_session s active = sid"
    "(sid, active, u) \<in> set (as_handlers s) \<Longrightarrow> active < ac_fresh (as_agent s) \<and> as_session s active = sid"
    "ac_store (as_agent s) active = collected (map snd (as_log s active))"
    "ac_fresh (as_agent s) \<le> active \<Longrightarrow> as_log s active = []"
    "(sid, u) \<in> set (as_log s active) \<Longrightarrow> as_session s active = sid"
  using assms unfolding acp_inv_def by blast+

lemma acp_invI:
  assumes "\<And>sid active. ac_turns (as_agent s) sid = Some active \<longleftrightarrow> (sid, active) \<in> set (as_live s)"
    and "distinct (as_live s)"
    and "\<And>sid active. (sid, active) \<in> set (as_live s) \<Longrightarrow> active < ac_fresh (as_agent s) \<and> as_session s active = sid"
    and "\<And>sid active u. (sid, active, u) \<in> set (as_handlers s) \<Longrightarrow>
      active < ac_fresh (as_agent s) \<and> as_session s active = sid"
    and "\<And>active. ac_store (as_agent s) active = collected (map snd (as_log s active))"
    and "\<And>active. ac_fresh (as_agent s) \<le> active \<Longrightarrow> as_log s active = []"
    and "\<And>active sid u. (sid, u) \<in> set (as_log s active) \<Longrightarrow> as_session s active = sid"
  shows "acp_inv s"
  using assms unfolding acp_inv_def by blast

lemma collected_Nil: "collected [] = empty_turn"
  by (simp add: collected_def)

lemma acp_idle_inv: "acp_inv acp_idle"
  by (simp add: acp_inv_def acp_idle_def new_acp_agent_def collected_Nil)

lemma acp_begin_inv:
  assumes i: "acp_inv s" and b: "startTurn sid (as_agent s) = Inr (active, agent')"
  shows "acp_inv (s\<lparr>as_agent := agent', as_live := (sid, active) # as_live s,
      as_session := (as_session s)(active := sid)\<rparr>)"
proof -
  note d = acp_invD [OF i]
  from b have n: "ac_turns (as_agent s) sid = None" and a: "active = ac_fresh (as_agent s)"
    and agent': "agent' = (as_agent s)\<lparr>ac_turns := (ac_turns (as_agent s))(sid \<mapsto> active),
      ac_store := (ac_store (as_agent s))(active := empty_turn), ac_fresh := active + 1\<rparr>"
    by (auto simp: startTurn_def Let_def split: if_split_asm)
  have live: "(sid, x) \<notin> set (as_live s)" for x using d(1) [of sid x] n by simp
  have log: "as_log s active = []" using d(6) a by simp
  show ?thesis
  proof (rule acp_invI, goal_cases)
    case (1 sid' x)
    show ?case using live by (auto simp: agent' d(1))
  next
    case 2
    show ?case using live d(2) by simp
  next
    case (3 sid' x)
    then show ?case using d(3) [of sid' x] a by (auto simp: agent')
  next
    case (4 sid' x u)
    then show ?case using d(4) [of sid' x u] a by (auto simp: agent')
  next
    case (5 x)
    show ?case using log by (simp add: agent' d(5) collected_Nil)
  next
    case (6 x)
    then show ?case using d(6) [of x] by (simp add: agent' a)
  next
    case (7 x sid' u)
    then show ?case using d(7) [of sid' u x] log by (auto simp: agent')
  qed
qed

lemma acp_lookup_inv:
  assumes i: "acp_inv s" and l: "update_lookup sid (as_agent s) = Inr active"
  shows "acp_inv (s\<lparr>as_handlers := (sid, active, u) # as_handlers s\<rparr>)"
proof -
  note d = acp_invD [OF i]
  have "(sid, active) \<in> set (as_live s)"
    using l d(1) [of sid active] by (auto simp: update_lookup_def split: option.split_asm)
  then have "active < ac_fresh (as_agent s) \<and> as_session s active = sid" by (rule d(3))
  then show ?thesis
    by (intro acp_invI) (auto simp: d(1,2,5) d(6) dest: d(3,4,7))
qed

lemma acp_add_inv:
  assumes i: "acp_inv s" and h: "(sid, active, u) \<in> set (as_handlers s)"
  shows "acp_inv (s\<lparr>as_agent := snd (update_add active u (as_agent s)),
      as_handlers := remove1 (sid, active, u) (as_handlers s),
      as_log := (as_log s)(active := as_log s active @ [(sid, u)])\<rparr>)"
proof -
  note d = acp_invD [OF i]
  have h': "active < ac_fresh (as_agent s)" "as_session s active = sid" using d(4) [OF h] by simp_all
  have sub: "x \<in> set (as_handlers s)" if "x \<in> set (remove1 (sid, active, u) (as_handlers s))" for x
    using that by (rule subsetD [OF set_remove1_subset])
  have agent: "ac_turns (snd (update_add active u (as_agent s))) = ac_turns (as_agent s)"
    "ac_fresh (snd (update_add active u (as_agent s))) = ac_fresh (as_agent s)"
    "ac_store (snd (update_add active u (as_agent s))) =
      (ac_store (as_agent s))(active := snd (add_update u (ac_store (as_agent s) active)))"
    by (simp_all add: update_add_def split: prod.split)
  show ?thesis
  proof (rule acp_invI, goal_cases)
    case (4 sid' x v)
    then have "(sid', x, v) \<in> set (as_handlers s)" by (auto dest: sub)
    then show ?case using d(4) by (simp add: agent)
  next
    case (5 x)
    show ?case by (simp add: agent d(5) collected_snoc)
  next
    case (7 x sid' v)
    then show ?case using d(7) [of sid' v x] h' by (auto split: if_split_asm)
  qed (use h' d(1,2,3,6) in \<open>auto simp: agent\<close>)
qed

lemma acp_end_inv:
  assumes i: "acp_inv s" and l: "(sid, active) \<in> set (as_live s)"
  shows "acp_inv (s\<lparr>as_agent := finishTurn sid active (as_agent s), as_live := remove1 (sid, active) (as_live s)\<rparr>)"
proof -
  note d = acp_invD [OF i]
  have t: "ac_turns (as_agent s) sid = Some active" using l d(1) by simp
  have live: "set (remove1 (sid, active) (as_live s)) = set (as_live s) - {(sid, active)}"
    by (rule set_remove1_eq [OF d(2)])
  have other: "x = active" if "(sid, x) \<in> set (as_live s)" for x using that d(1) [of sid x] t by simp
  show ?thesis
  proof (rule acp_invI, goal_cases)
    case (1 sid' x)
    show ?case using other t by (auto simp: finishTurn_def live simp flip: d(1))
  next
    case (3 sid' x)
    then show ?case using d(3) [of sid' x] by (auto simp: finishTurn_def live)
  next
    case (4 sid' x u)
    then show ?case using d(4) [of sid' x u] by (simp add: finishTurn_def)
  qed (use d(2,5,6,7) in \<open>auto simp: finishTurn_def t\<close>)
qed

lemma acp_step_inv: "acp_step s s' \<Longrightarrow> acp_inv s \<Longrightarrow> acp_inv s'"
  by (cases rule: acp_step.cases) (auto intro: acp_begin_inv acp_lookup_inv acp_add_inv acp_end_inv)

interpretation acp: counted_system "\<lambda>s. s = acp_idle" acp_step "\<lambda>_. acp_inv" bound for bound
  by unfold_locales (auto intro: acp_idle_inv acp_step_inv)

end
