(* ===== verification/Agent_Claims.thy ===== *)
theory Agent_Claims
  imports Loop_Agent Supervisor Planexec_Proofs Compose Acp_Proofs
begin

text \<open>
  The properties of the agents that loop, delegate, plan, compose fixed children and speak
  the agent client protocol.
\<close>

definition ag_text :: "string \<Rightarrow> message" where
  "ag_text t = \<lparr>msg_role = RoleUser, msg_parts = [\<lparr>pt_type = PartText, pt_text = t, pt_ref = None\<rparr>],
     msg_tool_calls = [], msg_tool_call_id = ''''\<rparr>"

definition ag_request :: request where
  "ag_request = \<lparr>rq_messages = [ag_text ''go''], rq_artifacts = [], rq_metadata = []\<rparr>"

definition ag_response :: "string \<Rightarrow> response" where
  "ag_response t = \<lparr>rs_message = ag_text t, rs_artifacts = [], rs_metadata = []\<rparr>"

definition ag_directory :: directory where
  "ag_directory = \<lparr>dir_lookup = (\<lambda>n. if n = ''a'' then Some (Some \<lparr>id_name = ''a'', id_description = ''d'', id_version = ''1''\<rparr>) else None),
     dir_list = [\<lparr>id_name = ''a'', id_description = ''d'', id_version = ''1''\<rparr>]\<rparr>"

lemma reaches_two: "step s t \<Longrightarrow> step t u \<Longrightarrow> reaches step (Suc (Suc 0)) s u"
  by (rule reaches_step, rule reaches_step, rule reaches_refl)

section \<open>The loop\<close>

text \<open>
  C34. The workflow of the loop agent computes the recursive function \<open>loop_result\<close>: for a
  child and a condition that are functions of their input, the run ends after at most
  2 * limit + 1 steps, in the response the condition stopped at or in the error of the
  child, of the condition or of the limit.
\<close>

theorem loop_computes:
  assumes "0 \<le> limit"
  shows "lr_phase ((loop_next limit (steady_env f g) ^^ (2 * nat limit + 1)) (loop_start rq)) =
    loop_outcome (loop_result f g (nat limit) 0 rq)"
  by (rule run_computes) (simp_all add: loop_start_def assms)

theorem loop_computes_witness:
  "lr_phase ((loop_next 2 (steady_env (\<lambda>_. Inr (ag_response ''x'')) (\<lambda>it. Inr (it_number it))) ^^ (2 * nat 2 + 1))
     (loop_start ag_request)) = LoopDone (ag_response ''x'')"
proof -
  have "loop_result (\<lambda>_. Inr (ag_response ''x'')) (\<lambda>it. Inr (it_number it)) (nat 2) 0 ag_request =
    Inr (ag_response ''x'')" by code_simp
  with loop_computes [of 2] show ?thesis by (simp only: loop_outcome_def) simp
qed

text \<open>
  The bounds of the loop hold in any environment: a run of a loop with a positive limit
  takes at most 2 * limit + 1 steps, never invokes the child more often than the limit, and
  ends.
\<close>

theorem loop_terminates:
  assumes "0 < limit" and "reaches (loop_step limit) n (loop_start rq) c"
  shows "n \<le> 2 * nat limit + 1 \<and> lp_iteration (lr_state c) \<le> limit \<and>
    (\<exists>m d. reaches (loop_step limit) m c d \<and> loop_ended d)"
proof -
  have i: "loop_inv limit (loop_start rq)" by (simp add: loop_inv_def loop_start_def)
  note inv = loop.run_inv [OF assms(2) i]
  have "n + loop_weight limit c \<le> loop_weight limit (loop_start rq)" by (rule loop.run_bound [OF assms(2) i])
  then have "n \<le> 2 * nat limit + 1" by (simp add: loop_weight_def loop_start_def Let_def)
  moreover have "lp_iteration (lr_state c) \<le> limit" using inv assms(1) by (auto simp: loop_inv_def)
  ultimately show ?thesis using loop.run_finishes [OF inv] by simp
qed

theorem loop_terminates_witness:
  "reaches (loop_step 3) 0 (loop_start ag_request) (loop_start ag_request) \<and>
   (\<exists>m d. reaches (loop_step 3) m (loop_start ag_request) d \<and> loop_ended d)"
  using loop_terminates [of 3 0 ag_request "loop_start ag_request"] by (simp add: reaches_refl)

section \<open>The supervisor\<close>

text \<open>
  C35. A supervisor delegates only within its rounds and only to children of its directory,
  keeps the results of all delegations, never dereferences a missing response, and ends:
  its runs take at most three steps for each allowed round and three more.
\<close>

theorem supervisor_delegates_safely:
  assumes "0 < maxRounds" and "reaches (supervisor_step dir maxRounds) n (supervisor_start rq) c"
  shows "sv_round (sr_state c) \<le> maxRounds \<and> sv_round (sr_state c) = int (length (sv_results (sr_state c))) \<and>
    list_all (\<lambda>result. has_child dir (dr_child result)) (sv_results (sr_state c)) \<and>
    (case sr_phase c of AtDelegate child _ \<Rightarrow> has_child dir child | SupPanic \<Rightarrow> False | _ \<Rightarrow> True) \<and>
    n \<le> 3 * nat maxRounds + 3 \<and> (\<exists>m d. reaches (supervisor_step dir maxRounds) m c d \<and> supervisor_ended d)"
proof -
  have i: "supervisor_inv dir maxRounds rq (supervisor_start rq)"
    by (simp add: supervisor_inv_def supervisor_start_def)
  note inv = supervisor.run_inv [OF assms(2) i]
  have "n + supervisor_weight maxRounds c \<le> supervisor_weight maxRounds (supervisor_start rq)"
    by (rule supervisor.run_bound [OF assms(2) i])
  then have "n \<le> 3 * nat maxRounds + 3" by (simp add: supervisor_weight_def supervisor_start_def Let_def)
  moreover have "sv_round (sr_state c) \<le> maxRounds \<and> sv_round (sr_state c) = int (length (sv_results (sr_state c))) \<and>
    list_all (\<lambda>result. has_child dir (dr_child result)) (sv_results (sr_state c)) \<and>
    (case sr_phase c of AtDelegate child _ \<Rightarrow> has_child dir child | SupPanic \<Rightarrow> False | _ \<Rightarrow> True)"
    using inv assms(1) by (auto simp: supervisor_inv_def Let_def list_all_iff split: supervisor_phase.splits)
  ultimately show ?thesis using supervisor.run_finishes [OF inv] by simp
qed

definition ag_delegate :: supervisor_env where
  "ag_delegate = \<lparr>se_get = None, se_set = None,
     se_decide = (\<lambda>_. Inr \<lparr>de_kind = ''delegate'', de_child = ''a'', de_request = ag_request, de_response = None, de_reason = ''''\<rparr>),
     se_child = (\<lambda>_ _. Inr (ag_response ''ok''))\<rparr>"

definition ag_supervised :: "supervisor_run" where
  "ag_supervised = \<lparr>sr_phase = AtDelegate ''a'' ag_request, sr_state = \<lparr>sv_request = ag_request, sv_round = 0, sv_results = []\<rparr>\<rparr>"

lemma ag_supervised_reach:
  "reaches (supervisor_step ag_directory 2) (Suc (Suc 0)) (supervisor_start ag_request) ag_supervised"
proof -
  let ?s = "supervisor_start ag_request"
  have 1: "\<not> supervisor_ended ?s" "\<not> supervisor_ended (supervisor_next ag_directory 2 ag_delegate ?s)" by code_simp+
  have 2: "supervisor_next ag_directory 2 ag_delegate (supervisor_next ag_directory 2 ag_delegate ?s) = ag_supervised"
    by code_simp
  show ?thesis
  proof (rule reaches_two)
    show "supervisor_step ag_directory 2 ?s (supervisor_next ag_directory 2 ag_delegate ?s)"
      by (rule supervisor_stepI [OF 1(1)])
    show "supervisor_step ag_directory 2 (supervisor_next ag_directory 2 ag_delegate ?s) ag_supervised"
      unfolding 2 [symmetric] by (rule supervisor_stepI [OF 1(2)])
  qed
qed

theorem supervisor_delegates_safely_witness:
  "sr_phase ag_supervised = AtDelegate ''a'' ag_request \<and> has_child ag_directory ''a''"
  using supervisor_delegates_safely [OF _ ag_supervised_reach] by (simp add: ag_supervised_def)

section \<open>Plans\<close>

text \<open>
  A plan is accepted exactly when it has an id, a positive version that is newer than
  the plan's it replaces, and steps with distinct ids, descriptions and children of the
  directory that the runtime has not touched; the accepted plan is the same with every
  step pending.
\<close>

theorem accepted_plans:
  "acceptPlan dir p previous = Inr q \<longleftrightarrow>
    pl_id p \<noteq> '''' \<and> 0 < pl_version p \<and> pl_steps p \<noteq> [] \<and> (previous = 0 \<or> previous < pl_version p) \<and>
    list_all (\<lambda>s. st_id s \<noteq> '''' \<and> st_description s \<noteq> '''' \<and> st_agent_name s \<noteq> '''' \<and>
      (st_status s = '''' \<or> st_status s = ''pending'') \<and> has_child dir (st_agent_name s)) (pl_steps p) \<and>
    distinct (map st_id (pl_steps p)) \<and>
    q = p\<lparr>pl_steps := map (\<lambda>s. s\<lparr>st_status := ''pending''\<rparr>) (pl_steps p)\<rparr>"
  by (auto simp: acceptPlan_Inr validate_plan_None step_ok_def list_all_iff StepPending_def)

lemma plan_start_inv: "plan_inv dir limit rq (plan_start rq)"
  by (simp add: plan_inv_def plan_start_def plan_counts_def)

text \<open>
  C36. The plan is followed: in every state of a run the children that have been executed
  are, after those of replaced plans, the steps of the current plan up to the cursor, in
  the order of the plan and marked completed, the others are pending, the step that is
  executed is the one at the cursor, and the transitions stay within the limit; the run
  ends, after at most six steps for each allowed transition and eight more.
\<close>

theorem plan_is_followed:
  assumes "0 < limit" and "reaches (plan_run_step dir limit) n (plan_start rq) c"
  shows "(case pr_phase c of
      AtExecute s r \<Rightarrow> ps_next (pr_state c) < length (pl_steps (ps_plan (pr_state c))) \<and>
        s = pl_steps (ps_plan (pr_state c)) ! ps_next (pr_state c) \<and> st_status s = StepPending \<and>
        has_child dir (st_agent_name s) \<and> plan_accepted dir (pr_state c)
    | AtReplan input \<Rightarrow> input = plan_view (pr_state c) \<and> plan_accepted dir (pr_state c) \<and>
        int (length (ps_results (pr_state c))) \<le> limit + 1
    | PlanDone r \<Rightarrow> ps_ready (pr_state c) \<and> plan_accepted dir (pr_state c) \<and>
        int (length (ps_results (pr_state c))) \<le> limit
    | _ \<Rightarrow> True) \<and>
   n \<le> 6 * nat limit + 8 \<and> (\<exists>m d. reaches (plan_run_step dir limit) m c d \<and> plan_ended d)"
proof -
  note inv = planexec.run_inv [OF assms(2) plan_start_inv]
  have "n + plan_weight limit c \<le> plan_weight limit (plan_start rq)" by (rule planexec.run_bound [OF assms(2) plan_start_inv])
  then have n: "n \<le> 6 * nat limit + 8" by (simp add: plan_weight_def plan_start_def Let_def)
  have pending: "st_status (pl_steps (ps_plan st) ! ps_next st) = StepPending \<and>
      has_child dir (st_agent_name (pl_steps (ps_plan st) ! ps_next st))"
    if "plan_accepted dir st" "ps_next st < length (pl_steps (ps_plan st))" for st
    using that by (auto simp: plan_accepted_def Let_def simp flip: Cons_nth_drop_Suc)
  have "case pr_phase c of
      AtExecute s r \<Rightarrow> ps_next (pr_state c) < length (pl_steps (ps_plan (pr_state c))) \<and>
        s = pl_steps (ps_plan (pr_state c)) ! ps_next (pr_state c) \<and> st_status s = StepPending \<and>
        has_child dir (st_agent_name s) \<and> plan_accepted dir (pr_state c)
    | AtReplan input \<Rightarrow> input = plan_view (pr_state c) \<and> plan_accepted dir (pr_state c) \<and>
        int (length (ps_results (pr_state c))) \<le> limit + 1
    | PlanDone r \<Rightarrow> ps_ready (pr_state c) \<and> plan_accepted dir (pr_state c) \<and>
        int (length (ps_results (pr_state c))) \<le> limit
    | _ \<Rightarrow> True"
    using inv assms(1) pending [of "pr_state c"]
    by (auto simp: plan_inv_def plan_counts_def Let_def split: plan_phase.splits)
  with n planexec.run_finishes [OF inv] show ?thesis by blast
qed

definition ag_plan :: plan where
  "ag_plan = \<lparr>pl_id = ''p'', pl_version = 1,
     pl_steps = [\<lparr>st_id = ''s'', st_description = ''d'', st_agent_name = ''a'', st_status = ''''\<rparr>]\<rparr>"

definition ag_planner :: plan_env where
  "ag_planner = \<lparr>pe_get = None, pe_set = None, pe_plan = (\<lambda>_. Inr ag_plan),
     pe_replan = (\<lambda>_. Inr \<lparr>rd_done = True, rd_plan = None, rd_reason = ''''\<rparr>),
     pe_report = (\<lambda>_. Inr (ag_response ''report'')), pe_child = (\<lambda>_ _. Inr (ag_response ''ok''))\<rparr>"

fun ag_plan_run :: "nat \<Rightarrow> plan_run" where
  "ag_plan_run 0 = plan_start ag_request"
| "ag_plan_run (Suc n) = plan_next ag_directory 1 ag_planner (ag_plan_run n)"

lemma ag_plan_reach:
  "list_all (\<lambda>k. \<not> plan_ended (ag_plan_run k)) [0..<n] \<Longrightarrow>
    reaches (plan_run_step ag_directory 1) n (plan_start ag_request) (ag_plan_run n)"
proof (induction n)
  case 0
  show ?case by (simp add: reaches_refl)
next
  case (Suc n)
  then have "plan_run_step ag_directory 1 (ag_plan_run n) (ag_plan_run (Suc n))"
    by (simp add: plan_run_stepI)
  with Suc show ?case by (auto intro: reaches_step)
qed

theorem plan_is_followed_witness:
  "(case pr_phase (ag_plan_run 6) of AtReplan input \<Rightarrow> length (pi_results input) = 1 | _ \<Rightarrow> False) \<and>
   plan_accepted ag_directory (pr_state (ag_plan_run 6))"
proof -
  have r: "reaches (plan_run_step ag_directory 1) 6 (plan_start ag_request) (ag_plan_run 6)"
    by (rule ag_plan_reach) code_simp
  have p: "case pr_phase (ag_plan_run 6) of AtReplan input \<Rightarrow> length (pi_results input) = 1 | _ \<Rightarrow> False" by code_simp
  from plan_is_followed [OF _ r] p show ?thesis by (auto split: plan_phase.split_asm)
qed

section \<open>Fixed children\<close>

text \<open>
  A sequential agent is the composition of its children: a response comes from a chain
  of answers, one per child in the declared order, each child asked with the response of
  the one before it; an error comes from a child whose predecessors have all answered, and
  the children after it are not asked.
\<close>

theorem sequential_is_composition:
  assumes "new_sequential i (Some dir) names = Inr children"
  shows "list_all2 (\<lambda>name c. dir_lookup dir name = Some (Some c)) names children \<and> children \<noteq> [] \<and>
    (case run_sequential child 0 children rq of
       Inr r \<Rightarrow> \<exists>rs. length rs = length children \<and> answer_chain child 0 rq rs \<and> last rs = r
     | Inl e \<Rightarrow> \<exists>rs. length rs < length children \<and> answer_chain child 0 rq rs \<and>
         child (length rs) (if rs = [] then rq else requestFromResponse (last rs)) = Inl e)"
proof -
  have names: "passes (fold check_name (enumerate k xs) v) \<Longrightarrow> passes v" for k xs v
  proof (induction xs arbitrary: k v)
    case (Cons a xs)
    then have "passes (check_name (k, a) v)" by simp
    then show ?case by (simp add: check_name_def check_simps)
  qed simp
  from assms have l: "lookup_children ''sequential'' dir names = Inr children"
    and p: "Err (fold check_name (enumerate 0 names)
        (chain [Identity ''agent'' i, Present (Str ''directory'') (Some dir), NonEmpty (Str ''children'') (length names)]
          (new_validator ''sequential''))) = None"
    by (auto simp: new_sequential_def split: option.split_asm)
  have "names \<noteq> []" using names [OF p [unfolded Err_None]] by (simp add: check_simps)
  moreover from l have c: "list_all2 (\<lambda>name c. dir_lookup dir name = Some (Some c)) names children"
    by (simp add: lookup_children_Inr)
  ultimately have ne: "children \<noteq> []" by auto
  show ?thesis
  proof (cases "run_sequential child 0 children rq")
    case (Inl e)
    have "\<exists>rs. length rs < length children \<and> answer_chain child 0 rq rs \<and>
        child (length rs) (if rs = [] then rq else requestFromResponse (last rs)) = Inl e"
      using run_sequential_Inl [OF ne Inl] by simp
    with c ne show ?thesis unfolding Inl sum.case by (intro conjI)
  next
    case (Inr r)
    then show ?thesis using run_sequential_Inr [OF ne, of child 0 rq r] c ne by simp
  qed
qed

theorem sequential_is_composition_witness:
  "\<exists>children. new_sequential \<lparr>id_name = ''s'', id_description = ''d'', id_version = ''1''\<rparr> (Some ag_directory) [''a'', ''a''] =
     Inr children \<and> length children = 2"
proof -
  let ?n = "new_sequential \<lparr>id_name = ''s'', id_description = ''d'', id_version = ''1''\<rparr> (Some ag_directory) [''a'', ''a'']"
  have "(case ?n of Inr _ \<Rightarrow> True | Inl _ \<Rightarrow> False)" by code_simp
  then obtain children where n: "?n = Inr children" by (auto split: sum.split_asm)
  from sequential_is_composition [OF n] have "length [''a'', ''a''] = length children" by (blast dest: list_all2_lengthD)
  with n show ?thesis by simp
qed

text \<open>
  C37. A parallel run does not depend on the order in which its branches complete: when all
  succeed, the reducer is given their responses in the order of the declaration, under the
  children's names, and when one fails the run fails with the errors of branches that
  failed, among them every one that did.
\<close>

theorem parallel_in_declared_order:
  assumes "distinct order" and "set order = {..<length cs}"
  shows "(case map (\<lambda>n. child n rq) [0..<length cs] of answers \<Rightarrow>
     if list_all (\<lambda>a. \<not> isl a) answers
     then run_parallel child reduce cs order rq =
       (case reduce (map2 (\<lambda>c a. \<lparr>br_name = id_name c, br_response = projr a\<rparr>) cs answers) of
          Inl e \<Rightarrow> Inl [Wrapped ''parallel: reduce branches: %w'' [] e] | Inr r \<Rightarrow> Inr r)
     else (\<exists>errors. run_parallel child reduce cs order rq = Inl errors \<and>
       Inl ` set errors = set answers \<inter> range Inl))"
proof -
  let ?answers = "map (\<lambda>n. child n rq) [0..<length cs]"
  show ?thesis
  proof (cases "list_all (\<lambda>a. \<not> isl a) ?answers")
    case True
    let ?rs = "map projr ?answers"
    have ok: "\<forall>n < length cs. child n rq = Inr (?rs ! n)"
      using True by (auto simp: list_all_length)
    have z: "map2 (\<lambda>c r. \<lparr>br_name = id_name c, br_response = r\<rparr>) cs (map projr as) =
      map2 (\<lambda>c a. \<lparr>br_name = id_name c, br_response = projr a\<rparr>) cs as" for as :: "(agent_error + response) list"
      by (simp add: zip_map2 comp_def split_def)
    have "length ?rs = length cs" by simp
    from run_parallel_ok [of order cs child rq ?rs reduce, OF assms ok this] show ?thesis
      using True unfolding z by simp
  next
    case False
    then obtain n e where n: "n < length cs" "child n rq = Inl e"
      by (auto simp: list_all_length) (metis sum.collapse(1))
    then have "n \<in> set order" using assms(2) by simp
    from run_parallel_failed [of n order child rq e reduce cs, OF this n(2)] obtain errors where
      e: "run_parallel child reduce cs order rq = Inl errors" by blast
    have "x \<in> set errors" if "m \<in> set order" "child m rq = Inl x" for m x
      using run_parallel_failed [of m order child rq x reduce cs, OF that] e by auto
    moreover have "\<exists>m \<in> set order. child m rq = Inl x" if "x \<in> set errors" for x
      using run_parallel_failed [of n order child rq e reduce cs, OF \<open>n \<in> set order\<close> n(2)] \<open>run_parallel child reduce cs order rq = Inl errors\<close> that by auto
    ultimately have "Inl ` set errors = set ?answers \<inter> range Inl" using assms(2) by force
    with e False show ?thesis by simp
  qed
qed

theorem parallel_in_declared_order_witness:
  "run_parallel (\<lambda>n _. Inr (ag_response (if n = 0 then ''x'' else ''y''))) (\<lambda>bs. Inr (br_response (hd bs)))
     [no_identity, no_identity] [1, 0] ag_request = Inr (ag_response ''x'')"
proof -
  have o: "distinct [1, 0::nat]" "set [1, 0::nat] = {..<length [no_identity, no_identity]}" by auto
  from parallel_in_declared_order [OF o, of "\<lambda>n _. Inr (ag_response (if n = 0 then ''x'' else ''y''))" ag_request
      "\<lambda>bs. Inr (br_response (hd bs))"] show ?thesis by simp
qed

text \<open>
  A router asks one child, the selected one, with the unchanged request, and only when
  the directory has it: for a directory that lists what it finds, the answer is that of the
  selected child or the error of an invalid selection.
\<close>

theorem router_asks_the_selected:
  assumes "\<And>name. has_child dir name \<Longrightarrow> name \<in> id_name ` set (dir_list dir)"
  shows "(case ro_select en rq (dir_list dir) of
     Inr s \<Rightarrow> if has_child dir (sl_child s) \<and> sl_child s \<noteq> '''' then run_router dir en rq = Routed (ro_child en (sl_child s) rq)
       else (\<exists>e. run_router dir en rq = Routed (Inl e))
   | Inl e \<Rightarrow> run_router dir en rq = Routed (Inl (Wrapped ''router: select child: %w'' [] e)))"
  using assms by (auto simp: run_router_def select_node_def split: sum.split)

theorem router_asks_the_selected_witness:
  "run_router ag_directory \<lparr>ro_select = (\<lambda>_ _. Inr \<lparr>sl_child = ''a'', sl_reason = ''''\<rparr>), ro_child = (\<lambda>_ _. Inr (ag_response ''ok''))\<rparr>
     ag_request = Routed (Inr (ag_response ''ok''))"
proof -
  have l: "name \<in> id_name ` set (dir_list ag_directory)" if "has_child ag_directory name" for name
    using that by (auto simp: ag_directory_def has_child_def split: if_split_asm)
  from router_asks_the_selected [OF l, of "\<lparr>ro_select = (\<lambda>_ _. Inr \<lparr>sl_child = ''a'', sl_reason = ''''\<rparr>),
      ro_child = (\<lambda>_ _. Inr (ag_response ''ok''))\<rparr>" ag_request]
  show ?thesis by (simp add: has_child_def ag_directory_def)
qed

section \<open>The agent client\<close>

lemma filter_single: "distinct xs \<Longrightarrow> x \<in> set xs \<Longrightarrow> filter (\<lambda>y. y = x) xs = [x]"
  by (induction xs) (auto simp: filter_empty_conv)

text \<open>
  C38. Concurrent invocations over one connection do not mix: in every interleaving of
  invocations and update handlers, the turn of an invocation is the active turn of its
  session, and it holds exactly what the updates that named this session have added to it,
  in their order; no other invocation in progress shares the session or the turn.
\<close>

theorem turns_are_isolated:
  assumes "reaches acp_step n acp_idle s" and "(sid, active) \<in> set (as_live s)"
  shows "ac_turns (as_agent s) sid = Some active \<and>
    (\<exists>us. ac_store (as_agent s) active = collected us \<and> as_log s active = map (Pair sid) us) \<and>
    filter (\<lambda>(sid', active'). sid' = sid \<or> active' = active) (as_live s) = [(sid, active)]"
proof -
  have i: "acp_inv s" using acp.inv_reachable [of acp_idle n s n] assms(1) by simp
  note d = acp_invD [OF i]
  have own: "as_session s active = sid" using d(3) [OF assms(2)] by simp
  have "(sid, snd x) = x" if "x \<in> set (as_log s active)" for x
    using d(7) [of "fst x" "snd x" active] own that by (simp add: prod_eq_iff)
  then have "map (Pair sid) (map snd (as_log s active)) = as_log s active" by (simp add: comp_def map_idI)
  moreover have "ac_turns (as_agent s) sid = Some active" using d(1) assms(2) by simp
  moreover have "filter (\<lambda>(sid', active'). sid' = sid \<or> active' = active) (as_live s) = [(sid, active)]"
  proof -
    have "x = (sid, active)" if "x \<in> set (as_live s)" "fst x = sid \<or> snd x = active" for x
    proof -
      obtain sid' active' where x: "x = (sid', active')" by force
      have "sid' = sid" using that x d(3) own by auto
      moreover have "active' = active" using that x d(1) [of sid active'] d(1) [of sid active] assms(2) calculation by simp
      ultimately show ?thesis using x by simp
    qed
    then have "filter (\<lambda>(sid', active'). sid' = sid \<or> active' = active) (as_live s) =
        filter (\<lambda>x. x = (sid, active)) (as_live s)"
      by (intro filter_cong) (auto simp: split_def)
    also have "\<dots> = [(sid, active)]" by (rule filter_single [OF d(2) assms(2)])
    finally show ?thesis .
  qed
  ultimately show ?thesis using d(5) [of active] by metis
qed

definition ag_session :: acp_system where
  "ag_session = acp_idle\<lparr>as_agent := snd (projr (startTurn ''s'' new_acp_agent)), as_live := [(''s'', 0)],
     as_session := (as_session acp_idle)(0 := ''s'')\<rparr>"

theorem turns_are_isolated_witness:
  "reaches acp_step 1 acp_idle ag_session \<and> ac_turns (as_agent ag_session) ''s'' = Some 0"
proof -
  have "startTurn ''s'' (as_agent acp_idle) = Inr (0, snd (projr (startTurn ''s'' new_acp_agent)))"
    by (simp add: acp_idle_def startTurn_def new_acp_agent_def Let_def)
  from acp_begin [OF this] have "acp_step acp_idle ag_session" by (simp add: ag_session_def acp_idle_def)
  then have r: "reaches acp_step (Suc 0) acp_idle ag_session" by (intro reaches_step [OF reaches_refl])
  have "(''s'', 0) \<in> set (as_live ag_session)" by (simp add: ag_session_def)
  from turns_are_isolated [OF r this] r show ?thesis by simp
qed

text \<open>The block of a part, and the artifacts that the messages of a request show.\<close>

definition part_block :: "part \<Rightarrow> content_block" where
  "part_block p = (case pt_ref p of
     None \<Rightarrow> TextContentBlock (pt_text p)
   | Some ref \<Rightarrow> ResourceLinkContentBlock (if ref_kind ref = '''' then ref_uri ref else ref_kind ref) (ref_uri ref))"

definition part_sent :: "part \<Rightarrow> bool" where
  "part_sent p \<longleftrightarrow> (case pt_ref p of None \<Rightarrow> pt_type p = PartText | Some ref \<Rightarrow> pt_type p = PartArtifact \<and> ref_uri ref \<noteq> '''')"

definition shown_refs :: "part list \<Rightarrow> artifact_ref list" where
  "shown_refs ps = [ref. p \<leftarrow> ps, Some ref \<leftarrow> [pt_ref p]]"

lemma messagePartContent_Inr:
  "messagePartContent p = Inr (block, refs) \<longleftrightarrow> part_sent p \<and> block = part_block p \<and> refs = shown_refs [p]"
  by (auto simp: messagePartContent_def part_sent_def part_block_def shown_refs_def artifactContent_def rbind_Inr_iff
      split: option.split if_splits)

lemma shown_refs_append: "shown_refs (ps @ qs) = shown_refs ps @ shown_refs qs"
  by (simp add: shown_refs_def)

lemma parts_content_Inr:
  "parts_content ps = Inr (blocks, refs) \<longleftrightarrow> list_all part_sent ps \<and> blocks = map part_block ps \<and> refs = shown_refs ps"
proof (induction ps arbitrary: blocks refs)
  case Nil
  show ?case by (auto simp: shown_refs_def)
next
  case (Cons p ps)
  show ?case
    using shown_refs_append [of "[p]" ps] by (auto simp: rbind_Inr_iff messagePartContent_Inr Cons)
qed

lemma messages_content_Inr:
  "messages_content n ms = Inr (blocks, refs) \<longleftrightarrow>
    list_all (\<lambda>m. msg_tool_calls m = [] \<and> msg_tool_call_id m = '''' \<and> list_all part_sent (msg_parts m)) ms \<and>
    blocks = map part_block (concat (map msg_parts ms)) \<and> refs = shown_refs (concat (map msg_parts ms))"
proof (induction ms arbitrary: n blocks refs)
  case Nil
  show ?case by (auto simp: shown_refs_def)
next
  case (Cons m ms)
  have m: "messageContent m = Inr (bs, rs) \<longleftrightarrow> msg_tool_calls m = [] \<and> msg_tool_call_id m = '''' \<and>
      list_all part_sent (msg_parts m) \<and> bs = map part_block (msg_parts m) \<and> rs = shown_refs (msg_parts m)" for bs rs
    by (auto simp: messageContent_def parts_content_Inr)
  show ?case
  proof (cases "messageContent m")
    case (Inl e)
    then show ?thesis using m by fastforce
  next
    case (Inr x)
    then show ?thesis using m [of "fst x" "snd x"]
      by (cases x) (auto simp: rbind_Inr_iff Cons shown_refs_append)
  qed
qed

lemma artifacts_content_Inr:
  "artifacts_content seen as = Inr blocks \<longleftrightarrow>
    list_all (\<lambda>a. a \<in> set seen \<or> ref_uri a \<noteq> '''') as \<and>
    blocks = map (\<lambda>a. ResourceLinkContentBlock (if ref_kind a = '''' then ref_uri a else ref_kind a) (ref_uri a))
      (filter (\<lambda>a. a \<notin> set seen) as)"
  by (induction as arbitrary: blocks) (auto simp: rbind_Inr_iff artifactContent_def)

text \<open>
  A prompt is the request: it is built exactly when no message belongs to a tool
  exchange and every part is a text or an artifact with a URI, and consists of the blocks of
  all parts in order, followed by those artifacts of the request that no part has shown.
\<close>

theorem prompt_is_the_request:
  "promptContent rq = Inr blocks \<longleftrightarrow>
    list_all (\<lambda>m. msg_tool_calls m = [] \<and> msg_tool_call_id m = '''' \<and> list_all part_sent (msg_parts m)) (rq_messages rq) \<and>
    (let ps = concat (map msg_parts (rq_messages rq));
         others = filter (\<lambda>a. a \<notin> set (shown_refs ps)) (rq_artifacts rq)
     in list_all (\<lambda>a. ref_uri a \<noteq> '''') others \<and>
        blocks = map part_block ps @
          map (\<lambda>a. ResourceLinkContentBlock (if ref_kind a = '''' then ref_uri a else ref_kind a) (ref_uri a)) others)"
  by (auto simp: promptContent_def rbind_Inr_iff messages_content_Inr artifacts_content_Inr Let_def list_all_iff)

end
