(* ===== verification/Json.thy ===== *)
theory Json
  imports Prelude
begin

text \<open>
  What the sources use of \<open>encoding/json\<close>, on byte strings: the scanner (\<open>json.Valid\<close>), the
  values a text denotes, with the texts of its strings and numbers as they are written,
  \<open>json.Compact\<close> with and without the escaping of HTML characters, the quoting and unquoting
  of strings, and the lookup of the members of an object as the decoder of a struct does it.
\<close>

section \<open>Tokens\<close>

text \<open>A string token holds what is between the quotes, a number token its digits.\<close>

datatype token =
    TLBrace | TRBrace | TLBracket | TRBracket | TColon | TComma
  | TString bytes | TNumber bytes | TTrue | TFalse | TNull

definition is_space :: "char \<Rightarrow> bool" where
  "is_space c \<longleftrightarrow> c = CHR '' '' \<or> c = CHR 0x09 \<or> c = CHR 0x0A \<or> c = CHR 0x0D"

definition is_digit :: "char \<Rightarrow> bool" where
  "is_digit c \<longleftrightarrow> CHR ''0'' \<le> c \<and> c \<le> CHR ''9''"

definition is_hex :: "char \<Rightarrow> bool" where
  "is_hex c \<longleftrightarrow> is_digit c \<or> (CHR ''a'' \<le> c \<and> c \<le> CHR ''f'') \<or> (CHR ''A'' \<le> c \<and> c \<le> CHR ''F'')"

definition simple_escape :: "char \<Rightarrow> bool" where
  "simple_escape c \<longleftrightarrow> c \<in> set ''bfnrt/'' \<or> c = CHR 0x5C \<or> c = CHR 0x22"

definition prepend :: "string \<Rightarrow> (string \<times> string) option \<Rightarrow> (string \<times> string) option" where
  "prepend p = map_option (\<lambda>(r, s). (p @ r, s))"

lemma prepend_simps [simp]: "prepend p None = None" "prepend p (Some (r, s)) = Some (p @ r, s)"
  by (simp_all add: prepend_def)

lemma prepend_Some_iff: "prepend p x = Some (r, s) \<longleftrightarrow> (\<exists>r'. x = Some (r', s) \<and> r = p @ r')"
  by (cases x) auto

text \<open>The rest of a string after its opening quote.\<close>

fun scan_string :: "string \<Rightarrow> (string \<times> string) option" where
  "scan_string [] = None"
| "scan_string (c # s) =
    (if c = CHR 0x22 then Some ([], s)
     else if c = CHR 0x5C then
       (case s of
          d # s1 \<Rightarrow>
            if simple_escape d then prepend [c, d] (scan_string s1)
            else if d = CHR ''u'' then
              (case s1 of
                 h1 # h2 # h3 # h4 # s2 \<Rightarrow>
                   if is_hex h1 \<and> is_hex h2 \<and> is_hex h3 \<and> is_hex h4
                   then prepend [c, d, h1, h2, h3, h4] (scan_string s2) else None
               | _ \<Rightarrow> None)
            else None
        | [] \<Rightarrow> None)
     else if c < CHR 0x20 then None
     else prepend [c] (scan_string s))"

definition digits :: "string \<Rightarrow> string" where
  "digits s = takeWhile is_digit s"

text \<open>At least one digit, or none at all when the part is absent.\<close>

definition scan_fraction :: "string \<Rightarrow> (string \<times> string) option" where
  "scan_fraction s = (case s of
     c # s1 \<Rightarrow> if c = CHR ''.'' then
        (if digits s1 = [] then None else Some (c # digits s1, drop (length (digits s1)) s1))
      else Some ([], s)
   | [] \<Rightarrow> Some ([], []))"

definition scan_sign :: "string \<Rightarrow> string" where
  "scan_sign s = (case s of c # _ \<Rightarrow> if c = CHR ''+'' \<or> c = CHR ''-'' then [c] else [] | [] \<Rightarrow> [])"

definition scan_exponent :: "string \<Rightarrow> (string \<times> string) option" where
  "scan_exponent s = (case s of
     c # s1 \<Rightarrow> if c = CHR ''e'' \<or> c = CHR ''E'' then
        (let sign = scan_sign s1; s2 = drop (length sign) s1
         in if digits s2 = [] then None else Some (c # sign @ digits s2, drop (length (digits s2)) s2))
      else Some ([], s)
   | [] \<Rightarrow> Some ([], []))"

definition scan_int :: "string \<Rightarrow> (string \<times> string) option" where
  "scan_int s = (case s of
     c # s1 \<Rightarrow> if c = CHR ''0'' then Some ([c], s1)
      else if is_digit c then Some (digits s, drop (length (digits s)) s) else None
   | [] \<Rightarrow> None)"

definition scan_number :: "string \<Rightarrow> (string \<times> string) option" where
  "scan_number s =
    (let minus = (case s of c # _ \<Rightarrow> if c = CHR ''-'' then [c] else [] | [] \<Rightarrow> [])
     in case scan_int (drop (length minus) s) of
       None \<Rightarrow> None
     | Some (i, s1) \<Rightarrow> (case scan_fraction s1 of
         None \<Rightarrow> None
       | Some (f, s2) \<Rightarrow> (case scan_exponent s2 of
           None \<Rightarrow> None
         | Some (e, s3) \<Rightarrow> Some (minus @ i @ f @ e, s3))))"

lemma scan_string_length: "scan_string s = Some (r, s') \<Longrightarrow> length s' < length s"
proof (induction s arbitrary: r rule: length_induct)
  case (1 s)
  then have IH: "scan_string t = Some (q, s') \<Longrightarrow> length t < length s \<Longrightarrow> length s' < length t" for t q by blast
  from 1(2) show ?case
    by (cases s) (auto simp: prepend_Some_iff split: if_split_asm list.split_asm dest!: IH)
qed

lemma scan_parts_length:
  "scan_fraction s = Some (r, s') \<Longrightarrow> length s' \<le> length s"
  "scan_exponent s = Some (r, s') \<Longrightarrow> length s' \<le> length s"
  "scan_int s = Some (r, s') \<Longrightarrow> length s' < length s"
  by (auto simp: scan_fraction_def scan_exponent_def scan_int_def digits_def Let_def split: list.split_asm if_split_asm)

lemma scan_number_length: "scan_number s = Some (r, s') \<Longrightarrow> length s' < length s"
proof -
  assume a: "scan_number s = Some (r, s')"
  let ?t = "drop (length (case s of [] \<Rightarrow> [] | c # _ \<Rightarrow> if c = CHR ''-'' then [c] else [])) s"
  from a obtain i s1 f s2 e where "scan_int ?t = Some (i, s1)" "scan_fraction s1 = Some (f, s2)"
    "scan_exponent s2 = Some (e, s')"
    by (auto simp: scan_number_def Let_def split: option.split_asm prod.split_asm)
  from scan_parts_length(3) [OF this(1)] scan_parts_length(1) [OF this(2)] scan_parts_length(2) [OF this(3)]
  show ?thesis by (auto split: list.split_asm if_split_asm)
qed

text \<open>A token at the head of a string that does not start with a space.\<close>

definition scan_literal :: "string \<Rightarrow> token \<Rightarrow> string \<Rightarrow> (token \<times> string) option" where
  "scan_literal word t s = (if has_prefix s word then Some (t, drop (length word) s) else None)"

definition scan_token :: "char \<Rightarrow> string \<Rightarrow> (token \<times> string) option" where
  "scan_token c s =
    (if c = CHR ''{'' then Some (TLBrace, s)
     else if c = CHR ''}'' then Some (TRBrace, s)
     else if c = CHR ''['' then Some (TLBracket, s)
     else if c = CHR '']'' then Some (TRBracket, s)
     else if c = CHR '':'' then Some (TColon, s)
     else if c = CHR '','' then Some (TComma, s)
     else if c = CHR 0x22 then map_option (\<lambda>(r, s). (TString r, s)) (scan_string s)
     else if c = CHR ''-'' \<or> is_digit c then map_option (\<lambda>(r, s). (TNumber r, s)) (scan_number (c # s))
     else if c = CHR ''t'' then scan_literal ''rue'' TTrue s
     else if c = CHR ''f'' then scan_literal ''alse'' TFalse s
     else if c = CHR ''n'' then scan_literal ''ull'' TNull s
     else None)"

lemma scan_token_length: "scan_token c s = Some (t, s') \<Longrightarrow> length s' \<le> length s"
proof -
  assume a: "scan_token c s = Some (t, s')"
  have "scan_number (c # s) = Some (r, s') \<Longrightarrow> length s' \<le> length s" for r
    using scan_number_length [of "c # s" r s'] by simp
  moreover have "scan_string s = Some (r, s') \<Longrightarrow> length s' \<le> length s" for r
    using scan_string_length [of s r s'] by simp
  moreover have "scan_literal w x s = Some (t, s') \<Longrightarrow> length s' \<le> length s" for w x
    by (auto simp: scan_literal_def split: if_split_asm)
  ultimately show ?thesis
    using a unfolding scan_token_def by (simp split: if_split_asm) (blast | force)+
qed

function lex :: "string \<Rightarrow> token list option" where
  "lex [] = Some []"
| "lex (c # s) = (if is_space c then lex s
     else case scan_token c s of None \<Rightarrow> None
       | Some (t, s') \<Rightarrow> map_option ((#) t) (lex s'))"
  by pat_completeness auto

termination
  by (relation "measure length") (auto dest!: scan_token_length)

section \<open>Values\<close>

datatype json =
    JNull | JBool bool | JNumber bytes | JString bytes
  | JArray "json list" | JObject "(bytes \<times> json) list"

text \<open>
  The parser is the scanner's automaton: what is expected next, and the arrays and objects
  that are open around it.
\<close>

datatype frame = InArray "json list" | InObject "(bytes \<times> json) list" bytes

datatype mode =
    WantValue | WantValueOrEnd | WantKeyOrEnd | WantKey "(bytes \<times> json) list"
  | WantColon "(bytes \<times> json) list" bytes | After json

definition maxNestingDepth :: nat where "maxNestingDepth = 10000"

definition begin_value :: "frame list \<Rightarrow> token \<Rightarrow> (mode \<times> frame list) option" where
  "begin_value st t = (case t of
      TLBrace \<Rightarrow> if Suc (length st) \<le> maxNestingDepth then Some (WantKeyOrEnd, st) else None
    | TLBracket \<Rightarrow> if Suc (length st) \<le> maxNestingDepth then Some (WantValueOrEnd, st) else None
    | TString r \<Rightarrow> Some (After (JString r), st)
    | TNumber r \<Rightarrow> Some (After (JNumber r), st)
    | TTrue \<Rightarrow> Some (After (JBool True), st)
    | TFalse \<Rightarrow> Some (After (JBool False), st)
    | TNull \<Rightarrow> Some (After JNull, st)
    | _ \<Rightarrow> None)"

fun json_step :: "token \<Rightarrow> mode \<times> frame list \<Rightarrow> (mode \<times> frame list) option" where
  "json_step t (WantValue, st) = begin_value st t"
| "json_step t (WantValueOrEnd, st) =
    (if t = TRBracket then Some (After (JArray []), st) else begin_value (InArray [] # st) t)"
| "json_step t (WantKeyOrEnd, st) = (case t of TRBrace \<Rightarrow> Some (After (JObject []), st)
     | TString k \<Rightarrow> Some (WantColon [] k, st) | _ \<Rightarrow> None)"
| "json_step t (WantKey kvs, st) = (case t of TString k \<Rightarrow> Some (WantColon kvs k, st) | _ \<Rightarrow> None)"
| "json_step t (WantColon kvs k, st) = (if t = TColon then Some (WantValue, InObject kvs k # st) else None)"
| "json_step t (After v, []) = None"
| "json_step t (After v, InArray vs # st) = (case t of TComma \<Rightarrow> Some (WantValue, InArray (vs @ [v]) # st)
     | TRBracket \<Rightarrow> Some (After (JArray (vs @ [v])), st) | _ \<Rightarrow> None)"
| "json_step t (After v, InObject kvs k # st) = (case t of TComma \<Rightarrow> Some (WantKey (kvs @ [(k, v)]), st)
     | TRBrace \<Rightarrow> Some (After (JObject (kvs @ [(k, v)])), st) | _ \<Rightarrow> None)"

fun json_run :: "token list \<Rightarrow> mode \<times> frame list \<Rightarrow> (mode \<times> frame list) option" where
  "json_run [] c = Some c"
| "json_run (t # ts) c = (case json_step t c of None \<Rightarrow> None | Some c' \<Rightarrow> json_run ts c')"

definition parse_tokens :: "token list \<Rightarrow> json option" where
  "parse_tokens ts = (case json_run ts (WantValue, []) of Some (After v, []) \<Rightarrow> Some v | _ \<Rightarrow> None)"

definition parse_json :: "string \<Rightarrow> json option" where
  "parse_json s = (case lex s of None \<Rightarrow> None | Some ts \<Rightarrow> parse_tokens ts)"

definition json_valid :: "string \<Rightarrow> bool" where
  "json_valid s \<longleftrightarrow> parse_json s \<noteq> None"

section \<open>Texts\<close>

fun token_text :: "token \<Rightarrow> string" where
  "token_text TLBrace = ''{''" | "token_text TRBrace = ''}''"
| "token_text TLBracket = ''[''" | "token_text TRBracket = '']''"
| "token_text TColon = '':''" | "token_text TComma = '',''"
| "token_text (TString r) = CHR 0x22 # r @ [CHR 0x22]" | "token_text (TNumber r) = r"
| "token_text TTrue = ''true''" | "token_text TFalse = ''false''" | "token_text TNull = ''null''"

definition tokens_text :: "token list \<Rightarrow> string" where
  "tokens_text ts = concat (map token_text ts)"

text \<open>\<open>json.Compact\<close>: the text without the spaces between its tokens.\<close>

definition compact :: "string \<Rightarrow> string option" where
  "compact s = (if json_valid s then map_option tokens_text (lex s) else None)"

fun sep_by :: "token \<Rightarrow> token list list \<Rightarrow> token list" where
  "sep_by c [] = []"
| "sep_by c [ts] = ts"
| "sep_by c (ts # us # rest) = ts @ c # sep_by c (us # rest)"

fun json_tokens :: "json \<Rightarrow> token list" where
  "json_tokens JNull = [TNull]"
| "json_tokens (JBool b) = [if b then TTrue else TFalse]"
| "json_tokens (JNumber r) = [TNumber r]"
| "json_tokens (JString r) = [TString r]"
| "json_tokens (JArray vs) = TLBracket # sep_by TComma (map json_tokens vs) @ [TRBracket]"
| "json_tokens (JObject kvs) =
    TLBrace # sep_by TComma (map (\<lambda>(k, v). TString k # TColon # json_tokens v) kvs) @ [TRBrace]"

definition print_json :: "json \<Rightarrow> string" where
  "print_json v = tokens_text (json_tokens v)"

section \<open>Parsing what was printed\<close>

fun json_depth :: "json \<Rightarrow> nat" where
  "json_depth (JArray vs) = Suc (Max (insert 0 (set (map json_depth vs))))"
| "json_depth (JObject kvs) = Suc (Max (insert 0 (set (map (\<lambda>(k, v). json_depth v) kvs))))"
| "json_depth _ = 0"

lemma json_run_append: "json_run (ts @ us) c = (case json_run ts c of None \<Rightarrow> None | Some c' \<Rightarrow> json_run us c')"
  by (induction ts arbitrary: c) (auto split: option.split)

lemma sep_by_Cons: "xs \<noteq> [] \<Longrightarrow> sep_by c (x # xs) = x @ c # sep_by c xs"
  by (cases xs) simp_all

lemma json_run_elems:
  assumes "\<And>v st. v \<in> set vs \<Longrightarrow> length st + json_depth v \<le> maxNestingDepth \<Longrightarrow>
      json_run (json_tokens v) (WantValue, st) = Some (After v, st)"
    and "\<forall>v \<in> set vs. Suc (length st) + json_depth v \<le> maxNestingDepth" and "vs \<noteq> []"
  shows "json_run (sep_by TComma (map json_tokens vs)) (WantValue, InArray ws # st) =
    Some (After (last vs), InArray (ws @ butlast vs) # st)"
  using assms
proof (induction vs arbitrary: ws)
  case (Cons v vs)
  have v: "json_run (json_tokens v) (WantValue, InArray ws # st) = Some (After v, InArray ws # st)"
    using Cons.prems(2) by (intro Cons.prems(1)) simp_all
  show ?case
  proof (cases vs)
    case Nil
    with v show ?thesis by simp
  next
    case (Cons u us)
    with Cons.IH [of "ws @ [v]"] Cons.prems v show ?thesis by (simp add: json_run_append)
  qed
qed simp

lemma json_run_members:
  assumes "\<And>k v st. (k, v) \<in> set kvs \<Longrightarrow> length st + json_depth v \<le> maxNestingDepth \<Longrightarrow>
      json_run (json_tokens v) (WantValue, st) = Some (After v, st)"
    and "\<forall>(k, v) \<in> set kvs. Suc (length st) + json_depth v \<le> maxNestingDepth" and "kvs \<noteq> []"
  shows "json_run (sep_by TComma (map (\<lambda>(k, v). TString k # TColon # json_tokens v) kvs)) (WantKey ls, st) =
    Some (After (snd (last kvs)), InObject (ls @ butlast kvs) (fst (last kvs)) # st)"
  using assms
proof (induction kvs arbitrary: ls)
  case (Cons kv kvs)
  obtain k v where kv: "kv = (k, v)" by fastforce
  have v: "json_run (json_tokens v) (WantValue, InObject ls k # st) = Some (After v, InObject ls k # st)"
    using Cons.prems(2) kv by (intro Cons.prems(1) [of k]) simp_all
  show ?case
  proof (cases kvs)
    case Nil
    with v kv show ?thesis by simp
  next
    case (Cons u us)
    with Cons.prems have "json_run (sep_by TComma (map (\<lambda>(k, v). TString k # TColon # json_tokens v) kvs)) (WantKey (ls @ [kv]), st) =
      Some (After (snd (last kvs)), InObject ((ls @ [kv]) @ butlast kvs) (fst (last kvs)) # st)"
      by (intro Cons.IH) auto
    with v kv Cons show ?thesis by (simp add: json_run_append sep_by_Cons del: sep_by.simps(3))
  qed
qed simp

lemma depth_elem: "v \<in> set vs \<Longrightarrow> json_depth v < json_depth (JArray vs)"
  by (simp add: less_Suc_eq_le)

lemma depth_member: "(k, v) \<in> set kvs \<Longrightarrow> json_depth v < json_depth (JObject kvs)"
  by (simp add: less_Suc_eq_le) (intro Max_ge, auto intro!: image_eqI [of _ _ "(k, v)"])

lemma json_run_value:
  "length st + json_depth v \<le> maxNestingDepth \<Longrightarrow> json_run (json_tokens v) (WantValue, st) = Some (After v, st)"
proof (induction v arbitrary: st)
  case (JArray vs)
  show ?case
  proof (cases vs)
    case (Cons u us)
    from JArray.prems have d: "Suc (length st) \<le> maxNestingDepth" by simp
    have "\<forall>v \<in> set vs. Suc (length st) + json_depth v \<le> maxNestingDepth"
      using JArray.prems depth_elem by fastforce
    from json_run_elems [OF JArray.IH this, of "[]"] Cons
    have run: "json_run (sep_by TComma (map json_tokens vs)) (WantValue, InArray [] # st) =
      Some (After (last vs), InArray (butlast vs) # st)" by simp
    obtain t ts where ts: "sep_by TComma (map json_tokens vs) = t # ts" and "t \<noteq> TRBracket"
      using Cons by (cases u; cases us) auto
    with run have "json_run (sep_by TComma (map json_tokens vs)) (WantValueOrEnd, st) =
      Some (After (last vs), InArray (butlast vs) # st)" by simp
    moreover have "butlast vs @ [last vs] = vs" using Cons by simp
    ultimately have "json_run (sep_by TComma (map json_tokens vs) @ [TRBracket]) (WantValueOrEnd, st) = Some (After (JArray vs), st)"
      by (simp add: json_run_append)
    then show ?thesis using d by (simp add: begin_value_def)
  qed (use JArray.prems in \<open>simp add: begin_value_def\<close>)
next
  case (JObject kvs)
  have ih: "length st + json_depth v \<le> maxNestingDepth \<Longrightarrow> json_run (json_tokens v) (WantValue, st) = Some (After v, st)"
    if "(k, v) \<in> set kvs" for k v st
    using JObject.IH that by force
  show ?case
  proof (cases kvs)
    case (Cons u us)
    from JObject.prems have d: "Suc (length st) \<le> maxNestingDepth" by simp
    have "\<forall>(k, v) \<in> set kvs. Suc (length st) + json_depth v \<le> maxNestingDepth"
      using JObject.prems depth_member by fastforce
    from json_run_members [OF ih this, where ls = "[]"] Cons
    have run: "json_run (sep_by TComma (map (\<lambda>(k, v). TString k # TColon # json_tokens v) kvs)) (WantKey [], st) =
      Some (After (snd (last kvs)), InObject (butlast kvs) (fst (last kvs)) # st)" by simp
    obtain k ts where "sep_by TComma (map (\<lambda>(k, v). TString k # TColon # json_tokens v) kvs) = TString k # ts"
      using Cons by (cases u; cases us) auto
    with run have "json_run (sep_by TComma (map (\<lambda>(k, v). TString k # TColon # json_tokens v) kvs)) (WantKeyOrEnd, st) =
      Some (After (snd (last kvs)), InObject (butlast kvs) (fst (last kvs)) # st)" by simp
    moreover have "butlast kvs @ [(fst (last kvs), snd (last kvs))] = kvs" using Cons by simp
    ultimately have "json_run (sep_by TComma (map (\<lambda>(k, v). TString k # TColon # json_tokens v) kvs) @ [TRBrace]) (WantKeyOrEnd, st) =
      Some (After (JObject kvs), st)" by (simp add: json_run_append)
    then show ?thesis using d by (simp add: begin_value_def)
  qed (use JObject.prems in \<open>simp add: begin_value_def\<close>)
qed (auto simp: begin_value_def)

section \<open>The tokens of a parsed text\<close>

text \<open>The tokens that lead to a configuration of the parser are determined by it.\<close>

definition elems_tokens :: "json list \<Rightarrow> token list" where
  "elems_tokens vs = concat (map (\<lambda>v. json_tokens v @ [TComma]) vs)"

definition members_tokens :: "(bytes \<times> json) list \<Rightarrow> token list" where
  "members_tokens kvs = concat (map (\<lambda>(k, v). TString k # TColon # json_tokens v @ [TComma]) kvs)"

fun frame_tokens :: "frame \<Rightarrow> token list" where
  "frame_tokens (InArray vs) = TLBracket # elems_tokens vs"
| "frame_tokens (InObject kvs k) = TLBrace # members_tokens kvs @ [TString k, TColon]"

fun mode_tokens :: "mode \<Rightarrow> token list" where
  "mode_tokens WantValue = []"
| "mode_tokens WantValueOrEnd = [TLBracket]"
| "mode_tokens WantKeyOrEnd = [TLBrace]"
| "mode_tokens (WantKey kvs) = TLBrace # members_tokens kvs"
| "mode_tokens (WantColon kvs k) = TLBrace # members_tokens kvs @ [TString k]"
| "mode_tokens (After v) = json_tokens v"

definition conf_tokens :: "mode \<times> frame list \<Rightarrow> token list" where
  "conf_tokens c = concat (map frame_tokens (rev (snd c))) @ mode_tokens (fst c)"

lemma sep_by_snoc: "sep_by c (xs @ [x]) = concat (map (\<lambda>y. y @ [c]) xs) @ x"
  by (induction xs) (auto simp: sep_by_Cons)

lemma json_tokens_array: "json_tokens (JArray (vs @ [v])) = TLBracket # elems_tokens vs @ json_tokens v @ [TRBracket]"
  by (simp add: sep_by_snoc elems_tokens_def o_def)

lemma json_tokens_object:
  "json_tokens (JObject (kvs @ [(k, v)])) = TLBrace # members_tokens kvs @ TString k # TColon # json_tokens v @ [TRBrace]"
  by (simp add: sep_by_snoc members_tokens_def o_def split_def)

lemma json_tokens_empty: "json_tokens (JArray []) = [TLBracket, TRBracket]" "json_tokens (JObject []) = [TLBrace, TRBrace]"
  by simp_all

lemma begin_value_tokens: "begin_value st t = Some c \<Longrightarrow> conf_tokens c = concat (map frame_tokens (rev st)) @ [t]"
  by (auto simp: begin_value_def conf_tokens_def split: token.split_asm if_split_asm)

lemma json_step_tokens: "json_step t c = Some c' \<Longrightarrow> conf_tokens c' = conf_tokens c @ [t]"
  by (induction t c rule: json_step.induct)
    (auto simp: conf_tokens_def elems_tokens_def members_tokens_def json_tokens_array json_tokens_object json_tokens_empty
      simp del: json_tokens.simps(5,6) dest: begin_value_tokens split: token.split_asm if_split_asm)

lemma json_run_tokens: "json_run ts c = Some c' \<Longrightarrow> conf_tokens c' = conf_tokens c @ ts"
  by (induction ts arbitrary: c) (auto dest: json_step_tokens split: option.split_asm)

lemma parse_tokens_inv: "parse_tokens ts = Some v \<Longrightarrow> ts = json_tokens v"
  by (auto simp: parse_tokens_def conf_tokens_def dest!: json_run_tokens split: option.split_asm prod.split_asm mode.split_asm list.split_asm)

lemma compact_print: "compact s = map_option print_json (parse_json s)"
proof (cases "parse_json s")
  case (Some v)
  then obtain ts where "lex s = Some ts" "parse_tokens ts = Some v" by (auto simp: parse_json_def split: option.split_asm)
  with Some parse_tokens_inv show ?thesis by (simp add: compact_def json_valid_def print_json_def)
qed (simp add: compact_def json_valid_def)

section \<open>Scanning what was written\<close>

definition string_ok :: "bytes \<Rightarrow> bool" where
  "string_ok r \<longleftrightarrow> scan_string (r @ [CHR 0x22]) = Some (r, [])"

definition number_ok :: "bytes \<Rightarrow> bool" where
  "number_ok r \<longleftrightarrow> scan_number r = Some (r, [])"

fun token_ok :: "token \<Rightarrow> bool" where
  "token_ok (TString r) = string_ok r"
| "token_ok (TNumber r) = number_ok r"
| "token_ok _ = True"

lemma scan_string_spec:
  "scan_string s = Some (r, s') \<Longrightarrow> s = r @ CHR 0x22 # s' \<and> (\<forall>u. scan_string (r @ CHR 0x22 # u) = Some (r, u))"
proof (induction s arbitrary: r rule: length_induct)
  case (1 s)
  then have IH: "scan_string t = Some (q, s') \<Longrightarrow> length t < length s \<Longrightarrow>
      t = q @ CHR 0x22 # s' \<and> (\<forall>u. scan_string (q @ CHR 0x22 # u) = Some (q, u))" for t q by blast
  from 1(2) show ?case
    by (cases s) (auto simp: prepend_Some_iff split: if_split_asm list.split_asm dest!: IH)
qed

lemma string_ok_scanned: "scan_string s = Some (r, s') \<Longrightarrow> string_ok r"
  using scan_string_spec by (auto simp: string_ok_def)

lemma string_ok_scan: "string_ok r \<Longrightarrow> scan_string (r @ CHR 0x22 # u) = Some (r, u)"
  using scan_string_spec [of "r @ [CHR 0x22]" r "[]"] by (simp add: string_ok_def)

lemma not_digits [simp]: "\<not> is_digit (CHR ''e'')" "\<not> is_digit (CHR ''E'')" "\<not> is_digit (CHR ''.'')" "\<not> is_digit (CHR ''-'')"
    "\<not> is_digit (CHR ''+'')" "is_digit (CHR ''0'')"
  by code_simp+

text \<open>A number ends where no character of a number follows.\<close>

definition stops :: "string \<Rightarrow> bool" where
  "stops s \<longleftrightarrow> (case s of [] \<Rightarrow> True | c # _ \<Rightarrow> \<not> is_digit c \<and> c \<noteq> CHR ''.'' \<and> c \<noteq> CHR ''e'' \<and> c \<noteq> CHR ''E'')"

definition no_digit :: "string \<Rightarrow> bool" where
  "no_digit s \<longleftrightarrow> (case s of [] \<Rightarrow> True | c # _ \<Rightarrow> \<not> is_digit c)"

lemma digits_append: "no_digit u \<Longrightarrow> digits (a @ u) = (if (\<forall>c \<in> set a. is_digit c) then a else digits a)"
  by (cases u) (auto simp: digits_def no_digit_def takeWhile_append)

lemma digits_all: "(\<forall>c \<in> set (digits s). is_digit c) \<and> digits s @ drop (length (digits s)) s = s \<and> no_digit (drop (length (digits s)) s)"
proof -
  have "drop (length (digits s)) s = dropWhile is_digit s" by (simp add: digits_def dropWhile_eq_drop)
  moreover have "no_digit (dropWhile is_digit s)"
  proof (cases "dropWhile is_digit s")
    case (Cons c u)
    then have "\<not> is_digit c" using hd_dropWhile [of is_digit s] by simp
    with Cons show ?thesis by (simp add: no_digit_def)
  next
    case Nil
    then show ?thesis by (simp only: no_digit_def list.case)
  qed
  moreover have "digits s @ dropWhile is_digit s = s" by (simp add: digits_def)
  ultimately show ?thesis using set_takeWhileD [of _ is_digit s] by (auto simp: digits_def)
qed

lemma digits_digits: "no_digit u \<Longrightarrow> digits (digits s @ u) = digits s"
  using digits_all [of s] by (simp add: digits_append)

lemma scan_int_spec:
  assumes "scan_int s = Some (r, s')"
  shows "s = r @ s' \<and> (no_digit u \<longrightarrow> scan_int (r @ u) = Some (r, u)) \<and> r \<noteq> [] \<and> (is_digit (hd r))"
proof (cases s)
  case (Cons c s1)
  show ?thesis
  proof (cases "c = CHR ''0''")
    case True
    with assms Cons show ?thesis by (auto simp: scan_int_def)
  next
    case False
    with assms Cons have d: "is_digit c" "r = digits s" "s' = drop (length (digits s)) s"
      by (auto simp: scan_int_def split: if_split_asm)
    then obtain r' where r: "digits s = c # r'" using Cons by (simp add: digits_def)
    with d False digits_all [of s] digits_digits [of u s] show ?thesis by (auto simp: scan_int_def)
  qed
qed (use assms in \<open>simp add: scan_int_def\<close>)

lemma scan_fraction_spec:
  assumes "scan_fraction s = Some (r, s')"
  shows "s = r @ s' \<and> (no_digit u \<and> (u = [] \<or> hd u \<noteq> CHR ''.'') \<longrightarrow> scan_fraction (r @ u) = Some (r, u)) \<and>
    (r = [] \<or> hd r = CHR ''.'')"
proof (cases s)
  case Nil
  with assms show ?thesis by (cases u) (auto simp: scan_fraction_def)
next
  case (Cons c s1)
  show ?thesis
  proof (cases "c = CHR ''.''")
    case True
    with assms Cons have "digits s1 \<noteq> []" "r = c # digits s1" "s' = drop (length (digits s1)) s1"
      by (auto simp: scan_fraction_def split: if_split_asm)
    with True Cons digits_all [of s1] digits_digits [of u s1] show ?thesis by (auto simp: scan_fraction_def)
  next
    case False
    with assms Cons show ?thesis by (cases u) (auto simp: scan_fraction_def)
  qed
qed

lemma scan_sign_digits: "digits s \<noteq> [] \<Longrightarrow> scan_sign s = []"
  by (cases s) (auto simp: scan_sign_def digits_def split: if_split_asm)

lemma scan_exponent_spec:
  assumes "scan_exponent s = Some (r, s')"
  shows "s = r @ s' \<and> (stops u \<longrightarrow> scan_exponent (r @ u) = Some (r, u)) \<and>
    (r = [] \<or> hd r = CHR ''e'' \<or> hd r = CHR ''E'')"
proof (cases s)
  case Nil
  with assms show ?thesis by (cases u) (auto simp: scan_exponent_def stops_def)
next
  case (Cons c s1)
  show ?thesis
  proof (cases "c = CHR ''e'' \<or> c = CHR ''E''")
    case True
    let ?s2 = "drop (length (scan_sign s1)) s1"
    from assms Cons True have d: "digits ?s2 \<noteq> []" and r: "r = c # scan_sign s1 @ digits ?s2"
      and s': "s' = drop (length (digits ?s2)) ?s2"
      by (auto simp: scan_exponent_def Let_def split: if_split_asm)
    have s1: "scan_sign s1 @ ?s2 = s1" by (auto simp: scan_sign_def split: list.split)
    have sg: "scan_sign (scan_sign s1 @ digits ?s2 @ u) = scan_sign s1"
    proof (cases "scan_sign s1")
      case Nil
      with d show ?thesis by (simp add: scan_sign_def digits_def split: list.split_asm if_split_asm)
    next
      case (Cons x xs)
      then show ?thesis by (auto simp: scan_sign_def split: list.split_asm if_split_asm)
    qed
    have "stops u \<Longrightarrow> scan_exponent (r @ u) = Some (r, u)"
      using True d sg digits_digits [of u ?s2] by (simp add: scan_exponent_def r stops_def no_digit_def Let_def split: list.split_asm)
    moreover have "s = r @ s'" using Cons s1 digits_all [of ?s2] r s' by (metis append.assoc append_Cons)
    ultimately show ?thesis using True r by auto
  next
    case False
    with assms Cons show ?thesis by (cases u) (auto simp: scan_exponent_def stops_def)
  qed
qed

lemma scan_number_spec:
  assumes "scan_number s = Some (r, s')"
  shows "s = r @ s' \<and> (\<forall>u. stops u \<longrightarrow> scan_number (r @ u) = Some (r, u)) \<and> r \<noteq> [] \<and> (hd r = CHR ''-'' \<or> is_digit (hd r))"
proof -
  define minus where "minus = (case s of c # _ \<Rightarrow> if c = CHR ''-'' then [c] else [] | [] \<Rightarrow> [])"
  from assms obtain i s1 f s2 e where p: "scan_int (drop (length minus) s) = Some (i, s1)" "scan_fraction s1 = Some (f, s2)"
    "scan_exponent s2 = Some (e, s')" and r: "r = minus @ i @ f @ e"
    by (auto simp: scan_number_def minus_def Let_def split: option.split_asm prod.split_asm)
  have s: "minus @ drop (length minus) s = s" by (auto simp: minus_def split: list.split)
  have si: "drop (length minus) s = i @ s1" "i \<noteq> []" "is_digit (hd i)" and sf: "s1 = f @ s2" "f = [] \<or> hd f = CHR ''.''"
    and se: "s2 = e @ s'" "e = [] \<or> hd e = CHR ''e'' \<or> hd e = CHR ''E''"
    using scan_int_spec [OF p(1)] scan_fraction_spec [OF p(2)] scan_exponent_spec [OF p(3)] by blast+
  have "scan_number (r @ u) = Some (r, u)" if u: "stops u" for u
  proof -
    have eu: "no_digit (e @ u) \<and> (e @ u = [] \<or> hd (e @ u) \<noteq> CHR ''.'')"
      using se u by (cases e) (auto simp: stops_def no_digit_def split: list.split_asm)
    then have fu: "no_digit (f @ e @ u)" using sf by (cases f) (auto simp: no_digit_def)
    have m: "(case r @ u of c # _ \<Rightarrow> if c = CHR ''-'' then [c] else [] | [] \<Rightarrow> []) = minus"
    proof (cases minus)
      case Nil
      with si r show ?thesis by (cases i) (auto simp:)
    next
      case (Cons x xs)
      then show ?thesis using r by (auto simp: minus_def split: list.split_asm if_split_asm)
    qed
    have "scan_int (i @ f @ e @ u) = Some (i, f @ e @ u)" using scan_int_spec [OF p(1), of "f @ e @ u"] fu by blast
    moreover have "scan_fraction (f @ e @ u) = Some (f, e @ u)" using scan_fraction_spec [OF p(2), of "e @ u"] eu by blast
    moreover have "scan_exponent (e @ u) = Some (e, u)" using scan_exponent_spec [OF p(3), of u] u by blast
    ultimately show ?thesis unfolding scan_number_def m by (simp add: r Let_def)
  qed
  moreover have "s = r @ s'" using s si sf se r by (metis append.assoc)
  moreover have "r \<noteq> [] \<and> (hd r = CHR ''-'' \<or> is_digit (hd r))"
    using si r by (cases minus) (auto simp: minus_def split: list.split_asm if_split_asm)
  ultimately show ?thesis by blast
qed

lemma number_ok_scanned: "scan_number s = Some (r, s') \<Longrightarrow> number_ok r"
  using scan_number_spec [of s r s'] by (auto simp: number_ok_def stops_def dest: spec [of _ "[]"])

lemma number_ok_scan: "number_ok r \<Longrightarrow> stops u \<Longrightarrow> scan_number (r @ u) = Some (r, u)"
  using scan_number_spec [of r r "[]"] by (simp add: number_ok_def)

section \<open>Lexing what was written\<close>

lemma is_space_simps [simp]: "\<not> is_space (CHR ''{'')" "\<not> is_space (CHR ''}'')" "\<not> is_space (CHR ''['')" "\<not> is_space (CHR '']'')"
    "\<not> is_space (CHR '':'')" "\<not> is_space (CHR '','')" "\<not> is_space (CHR 0x22)" "\<not> is_space (CHR ''-'')"
    "\<not> is_space (CHR ''t'')" "\<not> is_space (CHR ''f'')" "\<not> is_space (CHR ''n'')"
  by (simp_all add: is_space_def)

lemma not_digits_punctuation [simp]: "\<not> is_digit (CHR ''{'')" "\<not> is_digit (CHR ''}'')" "\<not> is_digit (CHR ''['')"
    "\<not> is_digit (CHR '']'')" "\<not> is_digit (CHR '':'')" "\<not> is_digit (CHR '','')" "\<not> is_digit (CHR 0x22)"
    "\<not> is_digit (CHR '' '')" "\<not> is_digit (CHR 0x09)" "\<not> is_digit (CHR 0x0A)" "\<not> is_digit (CHR 0x0D)"
  by code_simp+

lemma number_head:
  assumes "c = CHR ''-'' \<or> is_digit c"
  shows "\<not> is_space c" "scan_token c s = map_option (\<lambda>(r, s). (TNumber r, s)) (scan_number (c # s))"
proof -
  have ne: "c \<noteq> d" if "is_digit c" "\<not> is_digit d" for d using that by blast
  show "\<not> is_space c"
    using assms by (cases "is_digit c") (simp_all add: is_space_def ne)
  show "scan_token c s = map_option (\<lambda>(r, s). (TNumber r, s)) (scan_number (c # s))"
    using assms by (cases "is_digit c") (simp_all add: scan_token_def ne)
qed

lemma scan_token_text:
  assumes ok: "token_ok t" and st: "(\<exists>r. t = TNumber r) \<Longrightarrow> stops s"
  obtains c r where "token_text t = c # r" "\<not> is_space c" "scan_token c (r @ s) = Some (t, s)"
proof (cases t)
  case (TString r)
  with ok string_ok_scan [of r s] that show ?thesis by (simp add: scan_token_def)
next
  case (TNumber r)
  with ok have r: "number_ok r" by simp
  then have n: "scan_number (r @ s) = Some (r, s)" using st TNumber by (intro number_ok_scan) auto
  from r scan_number_spec [of r r "[]"] have h: "r \<noteq> []" "hd r = CHR ''-'' \<or> is_digit (hd r)" by (simp_all add: number_ok_def)
  then obtain c r' where c: "r = c # r'" by (cases r) auto
  with h have "c = CHR ''-'' \<or> is_digit c" by simp
  from number_head(1) [OF this] number_head(2) [OF this, of "r' @ s"] n TNumber c that show ?thesis by simp
qed (use that in \<open>simp_all add: scan_token_def scan_literal_def has_prefix_def is_digit_def\<close>)

lemma lex_token:
  assumes "token_ok t" and "(\<exists>r. t = TNumber r) \<Longrightarrow> stops s"
  shows "lex (token_text t @ s) = map_option ((#) t) (lex s)"
  using scan_token_text [OF assms] by force

text \<open>Lists of tokens in which a number is followed by a token that ends it.\<close>

fun separated :: "token list \<Rightarrow> bool" where
  "separated (TNumber r # u # ts) = (stops (token_text u) \<and> token_text u \<noteq> [] \<and> separated (u # ts))"
| "separated (t # ts) = separated ts"
| "separated [] = True"

lemma lex_tokens: "\<forall>t \<in> set ts. token_ok t \<Longrightarrow> separated ts \<Longrightarrow> lex (tokens_text ts) = Some ts"
proof (induction ts)
  case (Cons t ts)
  have sep: "separated ts" and st: "(\<exists>r. t = TNumber r) \<Longrightarrow> stops (tokens_text ts)"
    using Cons.prems(2) by (cases t; cases ts; force simp: tokens_text_def stops_def split: list.split_asm)+
  from Cons.IH sep Cons.prems(1) have "lex (tokens_text ts) = Some ts" by simp
  with lex_token [of t "tokens_text ts"] Cons.prems(1) st show ?case by (simp add: tokens_text_def)
qed (simp add: tokens_text_def)

lemma scan_token_ok: "scan_token c s = Some (t, s') \<Longrightarrow> token_ok t"
proof -
  assume a: "scan_token c s = Some (t, s')"
  have "scan_number (c # s) = Some (r, s') \<Longrightarrow> token_ok (TNumber r)" for r
    by (simp add: number_ok_scanned)
  moreover have "scan_string s = Some (r, s') \<Longrightarrow> token_ok (TString r)" for r
    by (simp add: string_ok_scanned)
  moreover have "scan_literal w x s = Some (t, s') \<Longrightarrow> t = x" for w x
    by (auto simp: scan_literal_def split: if_split_asm)
  ultimately show ?thesis
    using a unfolding scan_token_def by (simp split: if_split_asm) (metis token_ok.simps | force)+
qed

lemma lex_ok: "lex s = Some ts \<Longrightarrow> \<forall>t \<in> set ts. token_ok t"
proof (induction s arbitrary: ts rule: lex.induct)
  case (2 c s)
  then show ?case by (fastforce dest: scan_token_ok split: if_split_asm option.split_asm)
qed simp

definition ends_number :: "token \<Rightarrow> bool" where
  "ends_number t \<longleftrightarrow> stops (token_text t) \<and> token_text t \<noteq> []"

lemma ends_number [simp]: "ends_number TComma" "ends_number TRBracket" "ends_number TRBrace"
  by (simp_all add: ends_number_def stops_def)

lemma separated_append: "separated ts \<Longrightarrow> separated (u # us) \<Longrightarrow> ends_number u \<Longrightarrow> separated (ts @ u # us)"
proof (induction ts)
  case (Cons t ts)
  then show ?case by (cases t; cases ts) (simp_all add: ends_number_def)
qed simp

lemma separated_Cons: "(\<And>r. t \<noteq> TNumber r) \<Longrightarrow> separated (t # ts) = separated ts"
  by (cases t) auto

lemma separated_sep_by:
  assumes "\<forall>ts \<in> set tss. separated ts" and "separated (u # us)" and "ends_number u"
  shows "separated (sep_by TComma tss @ u # us)"
  using assms by (induction TComma tss rule: sep_by.induct) (simp_all add: separated_append separated_Cons)

lemma separated_tokens: "separated (json_tokens v)"
proof (induction v rule: json_tokens.induct)
  case (5 vs)
  then show ?case by (simp add: separated_Cons) (intro separated_sep_by; simp)
next
  case (6 kvs)
  then have "\<forall>ts \<in> set (map (\<lambda>(k, v). TString k # TColon # json_tokens v) kvs). separated ts" by fastforce
  then show ?case by (simp add: separated_Cons) (intro separated_sep_by; simp)
qed simp_all

section \<open>Nesting\<close>

fun within :: "nat \<Rightarrow> json list \<Rightarrow> bool" where
  "within n vs = (\<forall>v \<in> set vs. n + json_depth v \<le> maxNestingDepth)"

fun frame_values :: "frame \<Rightarrow> json list" where
  "frame_values (InArray vs) = vs" | "frame_values (InObject kvs k) = map snd kvs"

fun stack_ok :: "frame list \<Rightarrow> bool" where
  "stack_ok [] = True"
| "stack_ok (f # st) = (Suc (length st) \<le> maxNestingDepth \<and> within (Suc (length st)) (frame_values f) \<and> stack_ok st)"

fun mode_ok :: "nat \<Rightarrow> mode \<Rightarrow> bool" where
  "mode_ok n WantValue = True"
| "mode_ok n WantValueOrEnd = (Suc n \<le> maxNestingDepth)"
| "mode_ok n WantKeyOrEnd = (Suc n \<le> maxNestingDepth)"
| "mode_ok n (WantKey kvs) = (Suc n \<le> maxNestingDepth \<and> within (Suc n) (map snd kvs))"
| "mode_ok n (WantColon kvs k) = (Suc n \<le> maxNestingDepth \<and> within (Suc n) (map snd kvs))"
| "mode_ok n (After v) = (n + json_depth v \<le> maxNestingDepth)"

definition conf_ok :: "mode \<times> frame list \<Rightarrow> bool" where
  "conf_ok c \<longleftrightarrow> stack_ok (snd c) \<and> mode_ok (length (snd c)) (fst c)"

lemma depth_array: "Suc n \<le> maxNestingDepth \<Longrightarrow> within (Suc n) vs \<Longrightarrow> n + json_depth (JArray vs) \<le> maxNestingDepth"
proof -
  assume a: "Suc n \<le> maxNestingDepth" "within (Suc n) vs"
  define M where "M = Max (insert 0 (set (map json_depth vs)))"
  from a have "M \<le> maxNestingDepth - Suc n" unfolding M_def by force
  moreover have "json_depth (JArray vs) = Suc M" by (simp add: M_def)
  ultimately show ?thesis using a(1) by linarith
qed

lemma depth_object: "Suc n \<le> maxNestingDepth \<Longrightarrow> within (Suc n) (map snd kvs) \<Longrightarrow> n + json_depth (JObject kvs) \<le> maxNestingDepth"
proof -
  assume a: "Suc n \<le> maxNestingDepth" "within (Suc n) (map snd kvs)"
  have "json_depth (JObject kvs) = json_depth (JArray (map snd kvs))" by (simp add: split_def image_image)
  with depth_array [OF a] show ?thesis by (simp only:)
qed

lemma begin_value_ok: "begin_value st t = Some c \<Longrightarrow> stack_ok st \<Longrightarrow> length st \<le> maxNestingDepth \<Longrightarrow> conf_ok c"
  unfolding conf_ok_def by (auto simp: begin_value_def conf_ok_def split: token.split_asm if_split_asm)

lemma stack_length: "stack_ok st \<Longrightarrow> length st \<le> maxNestingDepth"
  by (cases st) auto

lemma json_step_ok: "json_step t c = Some c' \<Longrightarrow> conf_ok c \<Longrightarrow> conf_ok c'"
proof (induction t c rule: json_step.induct)
  case (1 t st)
  then have "stack_ok st" by (simp add: conf_ok_def)
  with 1(1) show ?case by (auto intro: begin_value_ok stack_length)
next
  case (2 t st)
  show ?case
  proof (cases "t = TRBracket")
    case True
    with 2 show ?thesis by (auto simp: conf_ok_def)
  next
    case False
    have "stack_ok (InArray [] # st)" using 2(2) by (simp add: conf_ok_def)
    with False 2(1) show ?thesis using begin_value_ok stack_length by auto
  qed
next
  case (7 t v vs st)
  have w: "within (Suc (length st)) (vs @ [v])" "Suc (length st) \<le> maxNestingDepth" "stack_ok st"
    using 7(2) by (auto simp: conf_ok_def)
  with 7(1) depth_array [OF w(2,1)] show ?case by (auto simp: conf_ok_def split: token.split_asm)
next
  case (8 t v kvs k st)
  have w: "within (Suc (length st)) (map snd (kvs @ [(k, v)]))" "Suc (length st) \<le> maxNestingDepth" "stack_ok st"
    using 8(2) by (auto simp: conf_ok_def)
  with 8(1) depth_object [OF w(2,1)] show ?case by (auto simp: conf_ok_def split: token.split_asm)
qed (auto simp: conf_ok_def split: token.split_asm if_split_asm)

lemma json_run_ok: "json_run ts c = Some c' \<Longrightarrow> conf_ok c \<Longrightarrow> conf_ok c'"
  by (induction ts arbitrary: c) (auto dest: json_step_ok split: option.split_asm)

lemma parse_tokens_depth: "parse_tokens ts = Some v \<Longrightarrow> json_depth v \<le> maxNestingDepth"
  by (auto simp: parse_tokens_def conf_ok_def dest!: json_run_ok split: option.split_asm prod.split_asm mode.split_asm list.split_asm)

section \<open>The round trip\<close>

definition json_ok :: "json \<Rightarrow> bool" where
  "json_ok v \<longleftrightarrow> (\<forall>t \<in> set (json_tokens v). token_ok t) \<and> json_depth v \<le> maxNestingDepth"

lemma parse_json_ok: "parse_json s = Some v \<Longrightarrow> json_ok v"
  using lex_ok parse_tokens_inv parse_tokens_depth
  by (fastforce simp: parse_json_def json_ok_def split: option.split_asm)

lemma parse_print: "json_ok v \<Longrightarrow> parse_json (print_json v) = Some v"
  using lex_tokens [of "json_tokens v"] separated_tokens json_run_value [of "[]" v]
  by (simp add: json_ok_def print_json_def parse_json_def parse_tokens_def)

lemma compact_parse: "compact s = Some t \<Longrightarrow> parse_json t = parse_json s \<and> compact t = Some t"
  using parse_print parse_json_ok by (auto simp: compact_print)

end
