(* ===== verification/Json_Text.thy ===== *)
theory Json_Text
  imports Json
begin

text \<open>
  The strings, numbers and members of a JSON text as \<open>encoding/json\<close> decodes and writes them:
  escapes and surrogate pairs, invalid UTF-8 replaced by U+FFFD, the escaping of HTML
  characters, the members of an object matched with the fields of a struct regardless of case
  (a later member overrides an earlier one, \<open>null\<close> leaves a value as it is), \<open>int64\<close> literals.
\<close>

section \<open>Runes\<close>

definition byte_at :: "nat \<Rightarrow> char" where
  "byte_at n = char_of n"

text \<open>\<open>utf8.AppendRune\<close>.\<close>

definition replacement :: string where
  "replacement = [CHR 0xEF, CHR 0xBF, CHR 0xBD]"

definition is_surrogate :: "nat \<Rightarrow> bool" where
  "is_surrogate r \<longleftrightarrow> 0xD800 \<le> r \<and> r < 0xE000"

definition encode_rune :: "nat \<Rightarrow> string" where
  "encode_rune r =
    (if r < 0x80 then [byte_at r]
     else if r < 0x800 then [byte_at (0xC0 + r div 64), byte_at (0x80 + r mod 64)]
     else if is_surrogate r \<or> r > 0x10FFFF then replacement
     else if r < 0x10000 then [byte_at (0xE0 + r div 4096), byte_at (0x80 + r div 64 mod 64), byte_at (0x80 + r mod 64)]
     else [byte_at (0xF0 + r div 262144), byte_at (0x80 + r div 4096 mod 64), byte_at (0x80 + r div 64 mod 64),
       byte_at (0x80 + r mod 64)])"

definition hex_value :: "char \<Rightarrow> nat" where
  "hex_value c = (if is_digit c then of_char c - 48 else if CHR ''a'' \<le> c then of_char c - 87 else of_char c - 55)"

definition hex4 :: "char \<Rightarrow> char \<Rightarrow> char \<Rightarrow> char \<Rightarrow> nat" where
  "hex4 a b c d = ((hex_value a * 16 + hex_value b) * 16 + hex_value c) * 16 + hex_value d"

text \<open>\<open>getu4\<close> on what follows the first half of a surrogate pair, and \<open>utf16.DecodeRune\<close>.\<close>

definition low_half :: "nat \<Rightarrow> string \<Rightarrow> nat option" where
  "low_half r s = (case s of
     b # u # h1 # h2 # h3 # h4 # _ \<Rightarrow>
       (let r1 = hex4 h1 h2 h3 h4 in
        if b = CHR 0x5C \<and> u = CHR ''u'' \<and> is_hex h1 \<and> is_hex h2 \<and> is_hex h3 \<and> is_hex h4 \<and>
           r < 0xDC00 \<and> 0xDC00 \<le> r1 \<and> r1 < 0xE000
        then Some ((r - 0xD800) * 1024 + (r1 - 0xDC00) + 0x10000) else None)
   | _ \<Rightarrow> None)"

section \<open>Strings\<close>

text \<open>The string that the text between two quotes denotes (\<open>unquote\<close>).\<close>

definition escape_char :: "char \<Rightarrow> char" where
  "escape_char d = (if d = CHR ''b'' then CHR 0x08 else if d = CHR ''f'' then CHR 0x0C
     else if d = CHR ''n'' then CHR 0x0A else if d = CHR ''r'' then CHR 0x0D
     else if d = CHR ''t'' then CHR 0x09 else d)"

text \<open>The well-formed sequence that a byte of 128 or more opens, less the byte.\<close>

definition rune_tail :: "char \<Rightarrow> string \<Rightarrow> nat option" where
  "rune_tail c s = utf8_tail (of_char c) (map of_char s)"

fun unquote :: "bytes \<Rightarrow> string" where
  "unquote [] = []"
| "unquote (c # s) =
    (if c = CHR 0x5C then
       (case s of
          d # s1 \<Rightarrow>
            if d = CHR ''u'' then
              (case s1 of
                 h1 # h2 # h3 # h4 # s2 \<Rightarrow>
                   (let r = hex4 h1 h2 h3 h4 in
                    if is_surrogate r then
                      (case low_half r s2 of
                         Some r2 \<Rightarrow> encode_rune r2 @ unquote (drop 6 s2)
                       | None \<Rightarrow> replacement @ unquote s2)
                    else encode_rune r @ unquote s2)
               | _ \<Rightarrow> [])
            else escape_char d # unquote s1
        | [] \<Rightarrow> [])
     else case rune_tail c s of
         Some n \<Rightarrow> c # take n s @ unquote (drop n s)
       | None \<Rightarrow> replacement @ unquote s)"

text \<open>The text of a string between its quotes (\<open>appendString\<close> with the escaping of HTML).\<close>

definition hex_digit :: "nat \<Rightarrow> char" where
  "hex_digit n = (if n < 10 then byte_at (48 + n) else byte_at (87 + n))"

definition u_escape :: "char \<Rightarrow> string" where
  "u_escape c = [CHR 0x5C, CHR ''u'', CHR ''0'', CHR ''0'', hex_digit (of_char c div 16), hex_digit (of_char c mod 16)]"

definition u_line :: "char \<Rightarrow> string" where
  "u_line c = [CHR 0x5C, CHR ''u'', CHR ''2'', CHR ''0'', CHR ''2'', hex_digit (of_char c mod 16)]"

definition html_char :: "char \<Rightarrow> bool" where
  "html_char c \<longleftrightarrow> c = CHR ''<'' \<or> c = CHR ''>'' \<or> c = CHR ''&''"

definition quote_ascii :: "char \<Rightarrow> string" where
  "quote_ascii c =
    (if c = CHR 0x5C \<or> c = CHR 0x22 then [CHR 0x5C, c]
     else if c = CHR 0x08 then [CHR 0x5C, CHR ''b''] else if c = CHR 0x0C then [CHR 0x5C, CHR ''f'']
     else if c = CHR 0x0A then [CHR 0x5C, CHR ''n''] else if c = CHR 0x0D then [CHR 0x5C, CHR ''r'']
     else if c = CHR 0x09 then [CHR 0x5C, CHR ''t'']
     else if c < CHR 0x20 \<or> html_char c then u_escape c else [c])"

text \<open>U+2028 and U+2029 are \<open>E2 80 A8\<close> and \<open>E2 80 A9\<close>.\<close>

definition line_separator :: "char \<Rightarrow> string \<Rightarrow> bool" where
  "line_separator c s \<longleftrightarrow> c = CHR 0xE2 \<and>
    (case s of b # d # _ \<Rightarrow> b = CHR 0x80 \<and> (d = CHR 0xA8 \<or> d = CHR 0xA9) | _ \<Rightarrow> False)"

fun quote_text :: "string \<Rightarrow> bytes" where
  "quote_text [] = []"
| "quote_text (c # s) =
    (if of_char c < (128 :: nat) then quote_ascii c @ quote_text s
     else if line_separator c s then u_line (s ! 1) @ quote_text (drop 2 s)
     else case rune_tail c s of
         Some n \<Rightarrow> c # take n s @ quote_text (drop n s)
       | None \<Rightarrow> [CHR 0x5C, CHR ''u'', CHR ''f'', CHR ''f'', CHR ''f'', CHR ''d''] @ quote_text s)"

text \<open>What \<open>Compact\<close> with the escaping of HTML makes of the text of a string.\<close>

fun html_escape :: "bytes \<Rightarrow> bytes" where
  "html_escape [] = []"
| "html_escape (c # s) =
    (if html_char c then u_escape c @ html_escape s
     else if line_separator c s then u_line (s ! 1) @ html_escape (drop 2 s)
     else c # html_escape s)"

fun html_json :: "json \<Rightarrow> json" where
  "html_json (JString r) = JString (html_escape r)"
| "html_json (JArray vs) = JArray (map html_json vs)"
| "html_json (JObject kvs) = JObject (map (\<lambda>(k, v). (html_escape k, html_json v)) kvs)"
| "html_json v = v"

text \<open>The string \<open>s\<close> as a value.\<close>

definition json_of_string :: "string \<Rightarrow> json" where
  "json_of_string s = JString (quote_text s)"

section \<open>Numbers\<close>

definition digits_value :: "string \<Rightarrow> nat" where
  "digits_value s = foldl (\<lambda>n c. 10 * n + (of_char c - 48)) 0 s"

fun decimal :: "nat \<Rightarrow> string" where
  "decimal n = (if n < 10 then [byte_at (48 + n)] else decimal (n div 10) @ [byte_at (48 + n mod 10)])"

declare decimal.simps [simp del]

definition itoa :: "int \<Rightarrow> string" where
  "itoa i = (if i < 0 then CHR ''-'' # decimal (nat (- i)) else decimal (nat i))"

text \<open>\<open>strconv.ParseInt\<close> of a number literal in 64 bits.\<close>

definition parse_int64 :: "bytes \<Rightarrow> int option" where
  "parse_int64 r =
    (let neg = has_prefix r ''-''; ds = (if neg then drop 1 r else r);
         n = (if neg then - int (digits_value ds) else int (digits_value ds))
     in if ds \<noteq> [] \<and> (\<forall>c \<in> set ds. is_digit c) \<and> - (2 ^ 63) \<le> n \<and> n < 2 ^ 63 then Some n else None)"

text \<open>
  Whether \<open>strconv.ParseFloat\<close> finds the literal in the range of a \<open>float64\<close>: a value of at
  least half a unit in the last place above the largest float is out of range. An exponent of
  ten thousand or more takes no further digit.
\<close>

definition exponent_value :: "string \<Rightarrow> int" where
  "exponent_value s =
    (let sign = scan_sign s;
         e = foldl (\<lambda>e c. if e < 10000 then 10 * e + (of_char c - 48) else e) (0 :: nat) (drop (length sign) s)
     in if sign = ''-'' then - int e else int e)"

definition float_in_range :: "bytes \<Rightarrow> bool" where
  "float_in_range r =
    (let u = (if has_prefix r ''-'' then drop 1 r else r);
         whole = digits u; u1 = drop (length whole) u;
         fraction = (if has_prefix u1 ''.'' then digits (drop 1 u1) else []);
         u2 = (if has_prefix u1 ''.'' then drop (Suc (length fraction)) u1 else u1);
         n = digits_value (whole @ fraction);
         e = (if u2 = [] then 0 else exponent_value (drop 1 u2)) - int (length fraction)
     in n = 0 \<or>
        (if 0 \<le> e then n * 10 ^ nat e < 2 ^ 1024 - 2 ^ 970
         else n < (2 ^ 1024 - 2 ^ 970) * 10 ^ nat (- e)))"

text \<open>The values that fit \<open>any\<close>.\<close>

fun fits_any :: "json \<Rightarrow> bool" where
  "fits_any (JNumber r) = float_in_range r"
| "fits_any (JArray vs) = (\<forall>v \<in> set vs. fits_any v)"
| "fits_any (JObject kvs) = (\<forall>(k, v) \<in> set kvs. fits_any v)"
| "fits_any _ = True"

section \<open>The fields of a struct\<close>

text \<open>
  \<open>foldName\<close>: upper case, with the Kelvin sign and the long s folded to the letters K and S.
  The names of the fields of a struct of the sources differ when folded, so that a member
  belongs to the field whose folded name is its own.
\<close>

definition fold_ascii :: "char \<Rightarrow> char" where
  "fold_ascii c = (if CHR ''a'' \<le> c \<and> c \<le> CHR ''z'' then char_of (of_char c - 32 :: nat) else c)"

fun fold_name :: "string \<Rightarrow> string" where
  "fold_name [] = []"
| "fold_name (c # s) =
    (if c = CHR 0xE2 \<and> has_prefix s [CHR 0x84, CHR 0xAA] then CHR ''K'' # fold_name (drop 2 s)
     else if c = CHR 0xC5 \<and> has_prefix s [CHR 0xBF] then CHR ''S'' # fold_name (drop 1 s)
     else fold_ascii c # fold_name s)"

type_synonym 's setter = "json \<Rightarrow> 's \<Rightarrow> 's option"
type_synonym 's fields = "(string \<times> 's setter) list"

definition field_of :: "'s fields \<Rightarrow> bytes \<Rightarrow> 's setter option" where
  "field_of fields k = map_option snd (find (\<lambda>(n, _). fold_name n = fold_name (unquote k)) fields)"

fun decode_members :: "'s fields \<Rightarrow> (bytes \<times> json) list \<Rightarrow> 's \<Rightarrow> 's option" where
  "decode_members fields [] z = Some z"
| "decode_members fields ((k, v) # kvs) z =
    (case field_of fields k of
       None \<Rightarrow> decode_members fields kvs z
     | Some f \<Rightarrow> (case f v z of None \<Rightarrow> None | Some z' \<Rightarrow> decode_members fields kvs z'))"

text \<open>A value decoded into a struct.\<close>

definition decode_struct :: "'s fields \<Rightarrow> 's setter" where
  "decode_struct fields v z = (case v of
     JNull \<Rightarrow> Some z | JObject kvs \<Rightarrow> decode_members fields kvs z | _ \<Rightarrow> None)"

definition unmarshal :: "'s fields \<Rightarrow> string \<Rightarrow> 's \<Rightarrow> 's option" where
  "unmarshal fields text z = (case parse_json text of None \<Rightarrow> None | Some v \<Rightarrow> decode_struct fields v z)"

definition string_field :: "((string \<Rightarrow> string) \<Rightarrow> 's \<Rightarrow> 's) \<Rightarrow> 's setter" where
  "string_field upd v z = (case v of
     JNull \<Rightarrow> Some z | JString r \<Rightarrow> Some (upd (\<lambda>_. unquote r) z) | _ \<Rightarrow> None)"

definition int64_field :: "((int \<Rightarrow> int) \<Rightarrow> 's \<Rightarrow> 's) \<Rightarrow> 's setter" where
  "int64_field upd v z = (case v of
     JNull \<Rightarrow> Some z | JNumber r \<Rightarrow> map_option (\<lambda>i. upd (\<lambda>_. i) z) (parse_int64 r) | _ \<Rightarrow> None)"

definition struct_field :: "('s \<Rightarrow> 't) \<Rightarrow> (('t \<Rightarrow> 't) \<Rightarrow> 's \<Rightarrow> 's) \<Rightarrow> 't fields \<Rightarrow> 's setter" where
  "struct_field get upd fields v z = map_option (\<lambda>t. upd (\<lambda>_. t) z) (decode_struct fields v (get z))"

text \<open>A pointer to a struct: \<open>null\<close> is nil, an object goes into the struct that is there.\<close>

definition pointer_field ::
    "('s \<Rightarrow> 't option) \<Rightarrow> (('t option \<Rightarrow> 't option) \<Rightarrow> 's \<Rightarrow> 's) \<Rightarrow> 't \<Rightarrow> 't fields \<Rightarrow> 's setter" where
  "pointer_field get upd zero fields v z = (case v of
     JNull \<Rightarrow> Some (upd (\<lambda>_. None) z)
   | JObject kvs \<Rightarrow> map_option (\<lambda>t. upd (\<lambda>_. Some t) z)
       (decode_members fields kvs (case get z of None \<Rightarrow> zero | Some t \<Rightarrow> t))
   | _ \<Rightarrow> None)"

definition bool_pointer_field :: "((bool option \<Rightarrow> bool option) \<Rightarrow> 's \<Rightarrow> 's) \<Rightarrow> 's setter" where
  "bool_pointer_field upd v z = (case v of
     JNull \<Rightarrow> Some (upd (\<lambda>_. None) z) | JBool b \<Rightarrow> Some (upd (\<lambda>_. Some b) z) | _ \<Rightarrow> None)"

fun decode_list :: "'t fields \<Rightarrow> 't \<Rightarrow> json list \<Rightarrow> 't list option" where
  "decode_list fields zero [] = Some []"
| "decode_list fields zero (v # vs) = (case decode_struct fields v zero of None \<Rightarrow> None
     | Some t \<Rightarrow> map_option ((#) t) (decode_list fields zero vs))"

text \<open>A slice of structs: its length is reset to zero and each element appended.\<close>

definition slice_field :: "(('t list \<Rightarrow> 't list) \<Rightarrow> 's \<Rightarrow> 's) \<Rightarrow> 't \<Rightarrow> 't fields \<Rightarrow> 's setter" where
  "slice_field upd zero fields v z = (case v of
     JNull \<Rightarrow> Some (upd (\<lambda>_. []) z)
   | JArray vs \<Rightarrow> map_option (\<lambda>ts. upd (\<lambda>_. ts) z) (decode_list fields zero vs)
   | _ \<Rightarrow> None)"

section \<open>Raw messages\<close>

text \<open>
  The text of each token with the spaces before it; the text of a member is that of its
  tokens, and a field of the type \<open>json.RawMessage\<close> holds the last one that is its own.
\<close>

function lex_texts :: "string \<Rightarrow> string list" where
  "lex_texts [] = []"
| "lex_texts (c # s) =
    (if is_space c then (case lex_texts s of [] \<Rightarrow> [] | x # xs \<Rightarrow> (c # x) # xs)
     else case scan_token c s of None \<Rightarrow> []
       | Some (t, s') \<Rightarrow> take (Suc (length s) - length s') (c # s) # lex_texts s')"
  by pat_completeness auto

termination
  by (relation "measure length") (auto dest!: scan_token_length)

fun raw_members :: "(bytes \<times> json) list \<Rightarrow> string list \<Rightarrow> (bytes \<times> string) list" where
  "raw_members [] ts = []"
| "raw_members ((k, v) # kvs) ts =
    (let n = length (json_tokens v)
     in (k, dropWhile is_space (concat (take n (drop 2 ts)))) # raw_members kvs (drop (3 + n) ts))"

definition raw_field :: "string \<Rightarrow> string \<Rightarrow> string" where
  "raw_field name text = (case parse_json text of
     Some (JObject kvs) \<Rightarrow>
       fold (\<lambda>(k, raw) old. if fold_name (unquote k) = fold_name name then raw else old)
         (raw_members kvs (drop 1 (lex_texts text))) []
   | _ \<Rightarrow> [])"

declare unquote.simps(2) [simp del] html_escape.simps(2) [simp del] fold_name.simps [simp del]

end
