(* ===== verification/Codex_Request.thy ===== *)
theory Codex_Request
  imports Json_Text Agent_Types "HOL-Library.AList"
begin

text \<open>
  \<open>src/models/openai/codex/request.go\<close>: the validation of a model request, the encoding of a
  conversation as the input items of the Responses API, and the request body. Errors are the
  formats of the source with their arguments; the error of a call of \<open>encoding/json\<close> is
  \<open>json_error\<close>. Values are immutable, so the \<open>clone*\<close> helpers are the identity.
\<close>

section \<open>Model requests\<close>

text \<open>A \<open>gopact.ToolCall\<close> with the fields that this provider reads and writes.\<close>

record call =
  cl_id :: string
  cl_name :: string
  cl_arguments :: bytes
  cl_arguments_ref :: string
  cl_source_ref :: string

record chat_message =
  cm_role :: role
  cm_parts :: "part list"
  cm_tool_calls :: "call list"
  cm_tool_call_id :: string

record chat_tool =
  ct_name :: string
  ct_description :: string
  ct_schema :: bytes

datatype choice_mode = ChoiceUnset | ChoiceAuto | ChoiceNone | ChoiceRequired | ChoiceNamed | ChoiceOther string

record tool_choice =
  ch_mode :: choice_mode
  ch_name :: string

text \<open>Of the sampling parameters only their presence is read.\<close>

record model_request =
  mr_model :: string
  mr_messages :: "chat_message list"
  mr_tools :: "chat_tool list"
  mr_tool_choice :: tool_choice
  mr_max_output_tokens :: int
  mr_temperature :: "bytes option"
  mr_top_p :: "bytes option"
  mr_stop :: "string list"
  mr_seed :: "int option"
  mr_modalities :: "string list"
  mr_output_protocols :: "string list"
  mr_schema_uri :: string
  mr_schema_value :: bytes
  mr_effort :: string
  mr_metadata :: metadata
  mr_extensions :: "string list"

definition maxStreamFrameBytes :: nat where "maxStreamFrameBytes = 4194304"
definition maxStreamBytes :: nat where "maxStreamBytes = 33554432"
definition maxOutputBytes :: nat where "maxOutputBytes = 16777216"
definition maxEventSummary :: nat where "maxEventSummary = 4096"
definition maxRequestBytes :: nat where "maxRequestBytes = 16777216"

definition json_error :: agent_error where "json_error = Errorf ''encoding/json'' []"

abbreviation response_item :: part_type where
  "response_item \<equiv> PartOther ''openai.codex.response_item''"

abbreviation developer :: role where
  "developer \<equiv> RoleOther ''developer''"

fun role_text :: "role \<Rightarrow> string" where
  "role_text RoleUnset = ''''" | "role_text RoleSystem = ''system''" | "role_text RoleUser = ''user''"
| "role_text RoleAssistant = ''assistant''" | "role_text RoleTool = ''tool''" | "role_text (RoleOther s) = s"

fun part_type_text :: "part_type \<Rightarrow> string" where
  "part_type_text PartText = ''text''" | "part_type_text PartArtifact = ''artifact''" | "part_type_text (PartOther s) = s"

section \<open>Input items\<close>

record content =
  co_type :: string
  co_text :: string

record input_item =
  in_type :: string
  in_id :: string
  in_role :: string
  in_content :: "content list"
  in_name :: string
  in_arguments :: string
  in_call_id :: string
  in_output :: string
  in_raw :: bytes

definition no_item :: input_item where
  "no_item = \<lparr>in_type = '''', in_id = '''', in_role = '''', in_content = [], in_name = '''',
    in_arguments = '''', in_call_id = '''', in_output = '''', in_raw = []\<rparr>"

section \<open>Response state\<close>

definition equalJSON :: "bytes \<Rightarrow> bytes \<Rightarrow> bool" where
  "equalJSON left right = (case (compact left, compact right) of
     (Some l, Some r) \<Rightarrow> l = r | _ \<Rightarrow> False)"

record response_state =
  st_type :: string
  st_call_id :: string
  st_name :: string
  st_arguments :: string

definition no_state :: response_state where
  "no_state = \<lparr>st_type = '''', st_call_id = '''', st_name = '''', st_arguments = ''''\<rparr>"

definition state_fields :: "response_state fields" where
  "state_fields = [(''type'', string_field st_type_update), (''call_id'', string_field st_call_id_update),
     (''name'', string_field st_name_update), (''arguments'', string_field st_arguments_update)]"

text \<open>
  A \<open>map[string]json.RawMessage\<close> decoded from an object, the later of two equal keys winning,
  and its text: the members in the order of their keys, compacted with HTML escaped.
\<close>

definition object_map :: "(bytes \<times> json) list \<Rightarrow> (string \<times> json) list" where
  "object_map kvs = fold (\<lambda>(k, v). AList.update (unquote k) v) kvs []"

definition marshal_map :: "(string \<times> json) list \<Rightarrow> bytes" where
  "marshal_map m = print_json (JObject (map (\<lambda>(k, v). (quote_text k, html_json v)) (sort_key fst m)))"

definition canonicalResponseState :: "bytes \<Rightarrow> agent_error + bytes" where
  "canonicalResponseState encoded = (case parse_json encoded of
     Some (JObject kvs) \<Rightarrow>
       Inr (marshal_map (AList.delete ''status'' (AList.delete ''id'' (object_map kvs))))
   | Some JNull \<Rightarrow> Inl (Errorf ''codex: response state must be an object'' [])
   | _ \<Rightarrow> Inl (Wrapped ''codex: decode response state object: %w'' [] json_error))"

definition check_state :: "response_state \<Rightarrow> agent_error + unit" where
  "check_state s =
    (if st_type s = ''reasoning'' then Inr ()
     else if st_type s = ''function_call'' then
       (if st_call_id s = '''' \<or> st_name s = '''' then Inl (Errorf ''codex: function call state is incomplete'' [])
        else guard_r (json_valid (st_arguments s))
          (Errorf ''codex: function call %q has invalid arguments'' [Str (st_name s)]))
     else Inl (Errorf ''codex: unsupported response state type %q'' [Str (st_type s)]))"

definition decodeResponseState :: "string \<Rightarrow> agent_error + (input_item \<times> response_state)" where
  "decodeResponseState value =
    (if value = [] \<or> \<not> json_valid value then Inl (Errorf ''codex: response state is invalid JSON'' [])
     else if length value > maxStreamFrameBytes
     then Inl (Errorf ''codex: response state exceeds %d bytes'' [Num (int maxStreamFrameBytes)])
     else case unmarshal state_fields value no_state of
         None \<Rightarrow> Inl (Wrapped ''codex: decode response state: %w'' [] json_error)
       | Some s \<Rightarrow>
           rbind (check_state s) (\<lambda>_.
           rbind (canonicalResponseState value) (\<lambda>canonical.
           Inr (no_item\<lparr>in_type := st_type s, in_name := st_name s, in_arguments := st_arguments s,
                  in_call_id := st_call_id s, in_raw := canonical\<rparr>, s))))"

section \<open>The encoder of messages\<close>

text \<open>The sets of the encoder are lists without duplicates.\<close>

record encoder =
  en_instructions :: "string list"
  en_input :: "input_item list"
  en_pending :: "string list"
  en_completed :: "string list"
  en_seen :: "string list"

record encoded_part =
  ep_content :: "content option"
  ep_state :: "input_item option"
  ep_call :: "call option"

record message_run =
  ru_role :: role
  ru_content :: "content list"
  ru_calls :: "call list"

definition new_encoder :: encoder where
  "new_encoder = \<lparr>en_instructions = [], en_input = [], en_pending = [], en_completed = [], en_seen = []\<rparr>"

definition validateMessageRole :: "role \<Rightarrow> agent_error + unit" where
  "validateMessageRole r =
    guard_r (r = RoleSystem \<or> r = developer \<or> r = RoleUser \<or> r = RoleAssistant \<or> r = RoleTool)
      (Errorf ''codex: unsupported message role %q'' [Str (role_text r)])"

fun plain_parts :: "part list \<Rightarrow> agent_error + string" where
  "plain_parts [] = Inr ''''"
| "plain_parts (p # ps) =
    (if pt_type p \<noteq> PartText \<or> pt_ref p \<noteq> None
     then Inl (Errorf ''unsupported message part %q'' [Str (part_type_text (pt_type p))])
     else rbind (plain_parts ps) (\<lambda>rest. Inr (pt_text p @ rest)))"

definition plainMessageText :: "chat_message \<Rightarrow> agent_error + string" where
  "plainMessageText m = plain_parts (cm_parts m)"

text \<open>An error of a callee, wrapped by its caller.\<close>

definition wrap_error :: "(agent_error \<Rightarrow> agent_error) \<Rightarrow> agent_error + 'a \<Rightarrow> agent_error + 'a" where
  "wrap_error f r = (case r of Inl e \<Rightarrow> Inl (f e) | Inr x \<Rightarrow> Inr x)"

definition addInstruction :: "nat \<Rightarrow> chat_message \<Rightarrow> encoder \<Rightarrow> agent_error + encoder" where
  "addInstruction index m en =
    rbind (wrap_error (Wrapped ''codex: system message %d: %w'' [Num (int index)]) (plainMessageText m)) (\<lambda>value.
    Inr (if value \<noteq> '''' then en\<lparr>en_instructions := en_instructions en @ [value]\<rparr> else en))"

definition addToolOutput :: "nat \<Rightarrow> chat_message \<Rightarrow> encoder \<Rightarrow> agent_error + encoder" where
  "addToolOutput index m en =
    (let id = cm_tool_call_id m in
     if id = '''' then Inl (Errorf ''codex: tool message %d requires a tool call id'' [Num (int index)])
     else if id \<in> set (en_completed en)
     then Inl (Errorf ''codex: tool message %d has duplicate tool output for %q'' [Num (int index), Str id])
     else if id \<notin> set (en_pending en)
     then Inl (Errorf ''codex: tool message %d references unknown function call %q'' [Num (int index), Str id])
     else
       rbind (wrap_error (Wrapped ''codex: tool message %d: %w'' [Num (int index)]) (plainMessageText m)) (\<lambda>value.
       Inr (en\<lparr>en_input := en_input en @ [no_item\<lparr>in_type := ''function_call_output'', in_call_id := id, in_output := value\<rparr>],
              en_pending := remove1 id (en_pending en),
              en_completed := List.insert id (en_completed en)\<rparr>)))"

subsection \<open>The parts of a message\<close>

definition textPart :: "string \<Rightarrow> string \<Rightarrow> encoded_part" where
  "textPart contentType value =
    \<lparr>ep_content = Some \<lparr>co_type = contentType, co_text = value\<rparr>, ep_state = None, ep_call = None\<rparr>"

definition statePart :: "nat \<Rightarrow> nat \<Rightarrow> role \<Rightarrow> string \<Rightarrow> agent_error + encoded_part" where
  "statePart msgIndex partIndex r value =
    (if r \<noteq> RoleAssistant then Inl (Errorf ''codex: response state is only valid on assistant messages'' [])
     else rbind (wrap_error (Wrapped ''codex: message %d part %d: %w'' [Num (int msgIndex), Num (int partIndex)])
         (decodeResponseState value)) (\<lambda>(item, s).
       Inr \<lparr>ep_content = None, ep_state = Some item,
         ep_call = (if st_type s = ''function_call''
           then Some \<lparr>cl_id = st_call_id s, cl_name = st_name s, cl_arguments = st_arguments s,
             cl_arguments_ref = '''', cl_source_ref = ''''\<rparr>
           else None)\<rparr>))"

definition encodePart :: "nat \<Rightarrow> nat \<Rightarrow> role \<Rightarrow> string \<Rightarrow> part \<Rightarrow> agent_error + encoded_part" where
  "encodePart msgIndex partIndex r contentType p =
    (if pt_ref p \<noteq> None
     then Inl (Errorf ''codex: message %d part %d has an unsupported reference'' [Num (int msgIndex), Num (int partIndex)])
     else if pt_type p = PartText then Inr (textPart contentType (pt_text p))
     else if pt_type p = response_item then statePart msgIndex partIndex r (pt_text p)
     else Inl (Errorf ''codex: unsupported message part %q'' [Str (part_type_text (pt_type p))]))"

definition run_flush :: "message_run \<times> encoder \<Rightarrow> message_run \<times> encoder" where
  "run_flush s = (case s of (run, en) \<Rightarrow>
    if ru_content run = [] then (run, en)
    else (run\<lparr>ru_content := []\<rparr>,
      en\<lparr>en_input := en_input en @ [no_item\<lparr>in_type := ''message'', in_role := role_text (ru_role run), in_content := ru_content run\<rparr>]\<rparr>))"

definition run_add :: "encoded_part \<Rightarrow> message_run \<times> encoder \<Rightarrow> message_run \<times> encoder" where
  "run_add p s = (case ep_content p of
     Some c \<Rightarrow> (let (run, en) = s in (run\<lparr>ru_content := ru_content run @ [c]\<rparr>, en))
   | None \<Rightarrow>
       (let (run, en) = run_flush s;
            en1 = (case ep_state p of None \<Rightarrow> en | Some item \<Rightarrow> en\<lparr>en_input := en_input en @ [item]\<rparr>);
            run1 = (case ep_call p of None \<Rightarrow> run | Some c \<Rightarrow> run\<lparr>ru_calls := ru_calls run @ [c]\<rparr>)
        in (run1, en1)))"

fun add_parts :: "nat \<Rightarrow> nat \<Rightarrow> role \<Rightarrow> string \<Rightarrow> part list \<Rightarrow> message_run \<times> encoder \<Rightarrow> agent_error + (message_run \<times> encoder)" where
  "add_parts index partIndex r contentType [] s = Inr s"
| "add_parts index partIndex r contentType (p # ps) s =
    rbind (encodePart index partIndex r contentType p) (\<lambda>encoded.
    add_parts index (Suc partIndex) r contentType ps (run_add encoded s))"

subsection \<open>Tool calls\<close>

fun index_opaque :: "call list \<Rightarrow> (string \<times> call) list \<Rightarrow> agent_error + (string \<times> call) list" where
  "index_opaque [] indexed = Inr indexed"
| "index_opaque (c # cs) indexed =
    (if map_of indexed (cl_id c) \<noteq> None
     then Inl (Errorf ''codex: duplicate opaque function call id %q'' [Str (cl_id c)])
     else index_opaque cs (AList.update (cl_id c) c indexed))"

definition indexOpaqueCalls :: "call list \<Rightarrow> agent_error + (string \<times> call) list" where
  "indexOpaqueCalls calls = index_opaque calls []"

definition validateToolCall :: "nat \<Rightarrow> call \<Rightarrow> encoder \<Rightarrow> agent_error + string" where
  "validateToolCall index c en =
    (if cl_id c = '''' \<or> cl_name c = ''''
     then Inl (Errorf ''codex: assistant message %d tool call id and name are required'' [Num (int index)])
     else if cl_id c \<in> set (en_seen en) then Inl (Errorf ''codex: duplicate function call id %q'' [Str (cl_id c)])
     else if cl_arguments_ref c \<noteq> ''''
     then Inl (Errorf ''codex: tool call %q arguments ref is not supported'' [Str (cl_id c)])
     else if cl_arguments c = [] then Inr ''{}''
     else if \<not> json_valid (cl_arguments c)
     then Inl (Errorf ''codex: tool call %q has invalid arguments'' [Str (cl_id c)])
     else Inr (cl_arguments c))"

definition addToolCall :: "nat \<Rightarrow> call \<Rightarrow> (string \<times> call) list \<Rightarrow> encoder \<Rightarrow> agent_error + encoder" where
  "addToolCall index c opaque en =
    rbind (validateToolCall index c en) (\<lambda>arguments.
    rbind (case map_of opaque (cl_id c) of
        Some state \<Rightarrow>
          if cl_name state \<noteq> cl_name c \<or> \<not> equalJSON (cl_arguments state) arguments
          then Inl (Errorf ''codex: opaque function call %q conflicts with canonical tool call'' [Str (cl_id c)])
          else Inr en
      | None \<Rightarrow> Inr (en\<lparr>en_input := en_input en @ [no_item\<lparr>in_type := ''function_call'', in_name := cl_name c,
          in_arguments := arguments, in_call_id := cl_id c\<rparr>]\<rparr>)) (\<lambda>en1.
    Inr (en1\<lparr>en_seen := List.insert (cl_id c) (en_seen en1), en_pending := List.insert (cl_id c) (en_pending en1)\<rparr>)))"

fun add_calls :: "nat \<Rightarrow> call list \<Rightarrow> (string \<times> call) list \<Rightarrow> encoder \<Rightarrow> agent_error + ((string \<times> call) list \<times> encoder)" where
  "add_calls index [] opaque en = Inr (opaque, en)"
| "add_calls index (c # cs) opaque en =
    rbind (addToolCall index c opaque en) (\<lambda>en1. add_calls index cs (AList.delete (cl_id c) opaque) en1)"

definition addToolCalls :: "nat \<Rightarrow> call list \<Rightarrow> call list \<Rightarrow> encoder \<Rightarrow> agent_error + encoder" where
  "addToolCalls index calls opaque en =
    rbind (indexOpaqueCalls opaque) (\<lambda>opaqueByID.
    rbind (add_calls index calls opaqueByID en) (\<lambda>(rest, en1).
    case rest of
      [] \<Rightarrow> Inr en1
    | (call_id, _) # _ \<Rightarrow> Inl (Errorf ''codex: opaque function call %q has no canonical tool call'' [Str call_id])))"

definition addModelMessage :: "nat \<Rightarrow> chat_message \<Rightarrow> encoder \<Rightarrow> agent_error + encoder" where
  "addModelMessage index m en =
    (let contentType = (if cm_role m = RoleAssistant then ''output_text'' else ''input_text'') in
     rbind (add_parts index 0 (cm_role m) contentType (cm_parts m)
       (\<lparr>ru_role = cm_role m, ru_content = [], ru_calls = []\<rparr>, en)) (\<lambda>s.
     let (run, en1) = run_flush s in addToolCalls index (cm_tool_calls m) (ru_calls run) en1))"

definition addMessage :: "nat \<Rightarrow> chat_message \<Rightarrow> encoder \<Rightarrow> agent_error + encoder" where
  "addMessage index m en =
    rbind (validateMessageRole (cm_role m)) (\<lambda>_.
    if cm_tool_calls m \<noteq> [] \<and> cm_role m \<noteq> RoleAssistant
    then Inl (Errorf ''codex: message %d tool calls are only valid on assistant messages'' [Num (int index)])
    else if cm_tool_call_id m \<noteq> '''' \<and> cm_role m \<noteq> RoleTool
    then Inl (Errorf ''codex: message %d tool call id is only valid on tool messages'' [Num (int index)])
    else if cm_role m \<noteq> RoleTool \<and> en_pending en \<noteq> []
    then Inl (Errorf ''codex: %d function call(s) before message %d have no tool output''
      [Num (int (length (en_pending en))), Num (int index)])
    else if cm_role m = RoleSystem then addInstruction index m en
    else if cm_role m = RoleTool then addToolOutput index m en
    else addModelMessage index m en)"

fun add_messages :: "nat \<Rightarrow> chat_message list \<Rightarrow> encoder \<Rightarrow> agent_error + encoder" where
  "add_messages index [] en = Inr en"
| "add_messages index (m # ms) en = rbind (addMessage index m en) (\<lambda>en1. add_messages (Suc index) ms en1)"

definition encodeMessages :: "chat_message list \<Rightarrow> agent_error + (string \<times> input_item list)" where
  "encodeMessages ms =
    rbind (add_messages 0 ms new_encoder) (\<lambda>en.
    if en_pending en \<noteq> []
    then Inl (Errorf ''codex: %d function call(s) have no tool output'' [Num (int (length (en_pending en)))])
    else Inr (join_strings [CHR 0x0A, CHR 0x0A] (en_instructions en), en_input en))"

section \<open>Validation\<close>

definition validateJSONObject :: "bytes \<Rightarrow> agent_error + unit" where
  "validateJSONObject encoded = (case parse_json encoded of
     Some JNull \<Rightarrow> Inl (Errorf ''must be a JSON object'' [])
   | Some (JObject kvs) \<Rightarrow> guard_r (fits_any (JObject kvs)) (Wrapped ''invalid JSON: %w'' [] json_error)
   | _ \<Rightarrow> Inl (Wrapped ''invalid JSON: %w'' [] json_error))"

definition validateResponseSchema :: "bytes \<Rightarrow> agent_error + unit" where
  "validateResponseSchema schema =
    (if schema = [] then Inr ()
     else wrap_error (Wrapped ''codex: response schema: %w'' []) (validateJSONObject schema))"

definition validateTool :: "chat_tool \<Rightarrow> string list \<Rightarrow> agent_error + unit" where
  "validateTool t seen =
    (if ct_name t = '''' then Inl (Errorf ''codex: tool name is required'' [])
     else if ct_name t \<in> set seen then Inl (Errorf ''codex: duplicate tool %q'' [Str (ct_name t)])
     else if ct_schema t = [] then Inr ()
     else wrap_error (Wrapped ''codex: tool %q schema: %w'' [Str (ct_name t)]) (validateJSONObject (ct_schema t)))"

fun validate_tools :: "chat_tool list \<Rightarrow> string list \<Rightarrow> agent_error + unit" where
  "validate_tools [] seen = Inr ()"
| "validate_tools (t # ts) seen = rbind (validateTool t seen) (\<lambda>_. validate_tools ts (ct_name t # seen))"

definition validateTools :: "chat_tool list \<Rightarrow> agent_error + unit" where
  "validateTools tools = validate_tools tools []"

definition validateRequiredToolChoice :: "chat_tool list \<Rightarrow> agent_error + unit" where
  "validateRequiredToolChoice tools =
    guard_r (tools \<noteq> []) (Errorf ''codex: required tool choice has no tools'' [])"

definition validateNamedToolChoice :: "string \<Rightarrow> chat_tool list \<Rightarrow> agent_error + unit" where
  "validateNamedToolChoice name tools =
    (if name = '''' then Inl (Errorf ''codex: named tool choice requires a name'' [])
     else guard_r (\<exists>t \<in> set tools. ct_name t = name)
       (Errorf ''codex: named tool choice %q is not advertised'' [Str name]))"

definition validateToolChoice :: "tool_choice \<Rightarrow> chat_tool list \<Rightarrow> agent_error + unit" where
  "validateToolChoice choice tools = (case ch_mode choice of
     ChoiceUnset \<Rightarrow> Inr () | ChoiceAuto \<Rightarrow> Inr () | ChoiceNone \<Rightarrow> Inr ()
   | ChoiceRequired \<Rightarrow> validateRequiredToolChoice tools
   | ChoiceNamed \<Rightarrow> validateNamedToolChoice (ch_name choice) tools
   | ChoiceOther mode \<Rightarrow> Inl (Errorf ''codex: unknown tool choice mode %q'' [Str mode]))"

text \<open>The list of the extensions gives the order in which the loop meets their keys.\<close>

definition validateModelRequest :: "model_request \<Rightarrow> bool \<Rightarrow> agent_error + unit" where
  "validateModelRequest rq required =
    rbind (guard_r (\<not> (required \<and> mr_model rq = '''')) (Errorf ''codex: request model is required'' [])) (\<lambda>_.
    rbind (guard_r (\<not> (required \<and> mr_messages rq = [])) (Errorf ''codex: request has no messages'' [])) (\<lambda>_.
    rbind (guard_r (\<not> mr_max_output_tokens rq < 0) (Errorf ''codex: max output tokens must not be negative'' [])) (\<lambda>_.
    rbind (guard_r (mr_temperature rq = None) (Errorf ''codex: temperature is not supported'' [])) (\<lambda>_.
    rbind (guard_r (mr_top_p rq = None) (Errorf ''codex: top p is not supported'' [])) (\<lambda>_.
    rbind (guard_r (mr_stop rq = []) (Errorf ''codex: stop sequences are not supported'' [])) (\<lambda>_.
    rbind (guard_r (mr_seed rq = None) (Errorf ''codex: seed is not supported'' [])) (\<lambda>_.
    rbind (guard_r (mr_modalities rq = []) (Errorf ''codex: modalities are not supported'' [])) (\<lambda>_.
    rbind (guard_r (mr_output_protocols rq = []) (Errorf ''codex: output protocols are not supported'' [])) (\<lambda>_.
    rbind (guard_r (mr_schema_uri rq = '''') (Errorf ''codex: response schema URI is not supported'' [])) (\<lambda>_.
    rbind (validateResponseSchema (mr_schema_value rq)) (\<lambda>_.
    rbind (validateTools (mr_tools rq)) (\<lambda>_.
    rbind (validateToolChoice (mr_tool_choice rq) (mr_tools rq)) (\<lambda>_.
    rbind (case mr_extensions rq of [] \<Rightarrow> Inr ()
      | key # _ \<Rightarrow> Inl (Errorf ''codex: unknown request extension %q'' [Str key])) (\<lambda>_.
    if mr_messages rq \<noteq> [] then rbind (encodeMessages (mr_messages rq)) (\<lambda>_. Inr ()) else Inr ()))))))))))))))"

section \<open>The request body\<close>

record response_tool =
  to_name :: string
  to_description :: string
  to_parameters :: bytes

datatype encoded_choice = ChoiceText string | ChoiceFunction string

definition encodeToolChoice :: "tool_choice \<Rightarrow> encoded_choice" where
  "encodeToolChoice choice = (case ch_mode choice of
     ChoiceNone \<Rightarrow> ChoiceText ''none'' | ChoiceRequired \<Rightarrow> ChoiceText ''required''
   | ChoiceNamed \<Rightarrow> ChoiceFunction (ch_name choice)
   | _ \<Rightarrow> ChoiceText ''auto'')"

text \<open>\<open>rr_reasoning\<close> is the effort, \<open>rr_text\<close> the schema of the text format, when they are set.\<close>

record responses_request =
  rr_model :: string
  rr_instructions :: string
  rr_input :: "input_item list"
  rr_tools :: "response_tool list"
  rr_tool_choice :: encoded_choice
  rr_parallel :: bool
  rr_reasoning :: "string option"
  rr_max_output_tokens :: int
  rr_text :: "bytes option"
  rr_metadata :: metadata

definition newResponsesRequest :: "model_request \<Rightarrow> agent_error + responses_request" where
  "newResponsesRequest rq =
    rbind (validateModelRequest rq True) (\<lambda>_.
    rbind (encodeMessages (mr_messages rq)) (\<lambda>(instructions, input).
    if input = [] then Inl (Errorf ''codex: request has no model input'' [])
    else Inr \<lparr>rr_model = mr_model rq, rr_instructions = instructions, rr_input = input,
      rr_tools = map (\<lambda>t. \<lparr>to_name = ct_name t, to_description = ct_description t,
        to_parameters = (if ct_schema t = [] then [CHR ''{''] @ [CHR 0x22] @ ''type'' @ [CHR 0x22] @ '':'' @ [CHR 0x22] @ ''object'' @ [CHR 0x22] @ ''}'' else ct_schema t)\<rparr>) (mr_tools rq),
      rr_tool_choice = encodeToolChoice (mr_tool_choice rq),
      rr_parallel = (mr_tools rq \<noteq> []),
      rr_reasoning = (if mr_effort rq \<noteq> '''' then Some (mr_effort rq) else None),
      rr_max_output_tokens = mr_max_output_tokens rq,
      rr_text = (if mr_schema_value rq \<noteq> [] then Some (mr_schema_value rq) else None),
      rr_metadata = mr_metadata rq\<rparr>))"

subsection \<open>Its text\<close>

abbreviation jstr :: "string \<Rightarrow> json" where
  "jstr \<equiv> json_of_string"

definition jnum :: "int \<Rightarrow> json" where
  "jnum i = JNumber (itoa i)"

text \<open>A member, and a member that is left out when its value is the zero value.\<close>

definition jfield :: "string \<Rightarrow> json \<Rightarrow> (bytes \<times> json) list" where
  "jfield name v = [(name, v)]"

definition omitempty :: "bool \<Rightarrow> string \<Rightarrow> json \<Rightarrow> (bytes \<times> json) list" where
  "omitempty absent name v = (if absent then [] else [(name, v)])"

definition jopt :: "string \<Rightarrow> string \<Rightarrow> (bytes \<times> json) list" where
  "jopt name s = omitempty (s = '''') name (jstr s)"

text \<open>A \<open>json.RawMessage\<close>: its text must be JSON.\<close>

definition raw_json :: "bytes \<Rightarrow> json option" where
  "raw_json text = map_option html_json (parse_json text)"

definition content_json :: "content \<Rightarrow> json" where
  "content_json c = JObject (jfield ''type'' (jstr (co_type c)) @ jfield ''text'' (jstr (co_text c)))"

definition item_json :: "input_item \<Rightarrow> json option" where
  "item_json item =
    (if in_raw item \<noteq> [] then raw_json (in_raw item)
     else Some (JObject (jfield ''type'' (jstr (in_type item)) @ jopt ''id'' (in_id item) @ jopt ''role'' (in_role item) @
       omitempty (in_content item = []) ''content'' (JArray (map content_json (in_content item))) @
       jopt ''name'' (in_name item) @ jopt ''arguments'' (in_arguments item) @ jopt ''call_id'' (in_call_id item) @
       (if in_type item = ''function_call_output'' then jfield ''output'' (jstr (in_output item))
        else jopt ''output'' (in_output item)))))"

definition tool_json :: "response_tool \<Rightarrow> json option" where
  "tool_json t = map_option (\<lambda>schema.
     JObject (jfield ''type'' (jstr ''function'') @ jfield ''name'' (jstr (to_name t)) @
       jopt ''description'' (to_description t) @ jfield ''parameters'' schema @ jfield ''strict'' (JBool False)))
     (raw_json (to_parameters t))"

definition choice_json :: "encoded_choice \<Rightarrow> json" where
  "choice_json c = (case c of ChoiceText s \<Rightarrow> jstr s
     | ChoiceFunction name \<Rightarrow> JObject (jfield ''name'' (jstr name) @ jfield ''type'' (jstr ''function'')))"

definition format_json :: "bytes \<Rightarrow> json option" where
  "format_json schema = map_option (\<lambda>s.
     JObject (jfield ''format'' (JObject (jfield ''type'' (jstr ''json_schema'') @ jfield ''name'' (jstr ''response'') @
       jfield ''strict'' (JBool True) @ jfield ''schema'' s)))) (raw_json schema)"

definition metadata_json :: "metadata \<Rightarrow> json" where
  "metadata_json m = JObject (map (\<lambda>(k, v). (quote_text k, jstr v)) (sort_key fst m))"

fun all_some :: "'a option list \<Rightarrow> 'a list option" where
  "all_some [] = Some []"
| "all_some (x # xs) = (case x of None \<Rightarrow> None | Some y \<Rightarrow> map_option ((#) y) (all_some xs))"

definition request_json :: "responses_request \<Rightarrow> json option" where
  "request_json r =
    (case (all_some (map item_json (rr_input r)), all_some (map tool_json (rr_tools r)),
       case rr_text r of None \<Rightarrow> Some [] | Some schema \<Rightarrow> map_option (jfield ''text'') (format_json schema)) of
       (Some items, Some tools, Some text) \<Rightarrow>
         Some (JObject (jfield ''model'' (jstr (rr_model r)) @ jopt ''instructions'' (rr_instructions r) @
           jfield ''input'' (JArray items) @ omitempty (tools = []) ''tools'' (JArray tools) @
           jfield ''tool_choice'' (choice_json (rr_tool_choice r)) @
           jfield ''parallel_tool_calls'' (JBool (rr_parallel r)) @
           (case rr_reasoning r of None \<Rightarrow> []
            | Some effort \<Rightarrow> jfield ''reasoning'' (JObject (jopt ''effort'' effort @ jopt ''summary'' ''auto''))) @
           jfield ''store'' (JBool False) @ jfield ''stream'' (JBool True) @
           jfield ''include'' (JArray [jstr ''reasoning.encrypted_content'']) @
           omitempty (rr_max_output_tokens r = 0) ''max_output_tokens'' (jnum (rr_max_output_tokens r)) @ text @
           omitempty (rr_metadata r = []) ''metadata'' (metadata_json (rr_metadata r))))
     | _ \<Rightarrow> None)"

definition responsesPayload :: "model_request \<Rightarrow> agent_error + bytes" where
  "responsesPayload rq =
    rbind (newResponsesRequest rq) (\<lambda>body.
    case request_json body of
      None \<Rightarrow> Inl (Wrapped ''codex: encode request: %w'' [] json_error)
    | Some v \<Rightarrow>
        (let payload = print_json v in
         if length payload > maxRequestBytes
         then Inl (Errorf ''codex: request exceeds %d bytes'' [Num (int maxRequestBytes)])
         else Inr payload))"

end
