(* ===== verification/Codex_Stream.thy ===== *)
theory Codex_Stream
  imports Codex_Request
begin

text \<open>
  \<open>src/models/openai/codex/stream.go\<close>: the decoder of server-sent events over the lines of a
  \<open>bufio.Scanner\<close>, the handlers of the events of a response, and the response they add up to.
  What the sinks and the consumer of the text have received is a log that the handlers extend;
  the answers of a sink and of the consumer are functions of that log.
\<close>

section \<open>Tokens and their redaction\<close>

record tokens =
  tk_access :: string
  tk_id :: string
  tk_refresh :: string
  tk_account :: string

text \<open>\<open>strings.ReplaceAll\<close> of a non-empty string.\<close>

function replace_all :: "string \<Rightarrow> string \<Rightarrow> string \<Rightarrow> string" where
  "replace_all [] old new = []"
| "replace_all (c # s) old new =
    (if old \<noteq> [] \<and> has_prefix (c # s) old then new @ replace_all (drop (length old) (c # s)) old new
     else c # replace_all s old new)"
  by pat_completeness auto

termination
  by (relation "measure (\<lambda>(s, _, _). length s)") (auto simp: neq_Nil_conv)

definition redactTokens :: "string \<Rightarrow> tokens \<Rightarrow> string" where
  "redactTokens value t =
    fold (\<lambda>secret v. if secret \<noteq> '''' then replace_all v secret ''[redacted]'' else v)
      [tk_access t, tk_id t, tk_refresh t] value"

section \<open>Events, sinks and effects\<close>

datatype event_type = MessageDelta | ReasoningDelta | ToolCallDelta | RefusalEvent | UsageEvent | FinishEvent

record model_event =
  me_type :: event_type
  me_source :: string
  me_bytes :: bytes
  me_summary :: string
  me_payload :: bytes

datatype delivery = Emitted nat model_event | Yielded string

type_synonym sink = "delivery list \<Rightarrow> model_event \<Rightarrow> agent_error option"

record consumer =
  cs_tokens :: tokens
  cs_sinks :: "sink option list"
  cs_yield :: "(delivery list \<Rightarrow> string \<Rightarrow> agent_error option) option"

type_synonym 'a effect = "delivery list \<Rightarrow> delivery list \<times> (agent_error + 'a)"

definition pure_r :: "agent_error + 'a \<Rightarrow> 'a effect" where
  "pure_r r = (\<lambda>out. (out, r))"

definition eff_bind :: "'a effect \<Rightarrow> ('a \<Rightarrow> 'b effect) \<Rightarrow> 'b effect" where
  "eff_bind m f = (\<lambda>out. case m out of (out1, Inl e) \<Rightarrow> (out1, Inl e) | (out1, Inr x) \<Rightarrow> f x out1)"

fun emit_from :: "nat \<Rightarrow> sink option list \<Rightarrow> model_event \<Rightarrow> unit effect" where
  "emit_from i [] ev out = (out, Inr ())"
| "emit_from i (None # sinks) ev out = emit_from (Suc i) sinks ev out"
| "emit_from i (Some sink # sinks) ev out =
    (case sink out ev of
       Some e \<Rightarrow> (out @ [Emitted i ev], Inl e)
     | None \<Rightarrow> emit_from (Suc i) sinks ev (out @ [Emitted i ev]))"

definition emitEvent :: "sink option list \<Rightarrow> model_event \<Rightarrow> unit effect" where
  "emitEvent sinks ev = emit_from 0 sinks ev"

definition yield_text :: "consumer \<Rightarrow> string \<Rightarrow> unit effect" where
  "yield_text cs value = (case cs_yield cs of
     None \<Rightarrow> (\<lambda>out. (out, Inr ()))
   | Some f \<Rightarrow> (\<lambda>out. (out @ [Yielded value], case f out value of None \<Rightarrow> Inr () | Some e \<Rightarrow> Inl e)))"

definition providerName :: string where "providerName = ''openai.codex''"

definition model_event_of :: "event_type \<Rightarrow> bytes \<Rightarrow> string \<Rightarrow> bytes \<Rightarrow> model_event" where
  "model_event_of t b summary payload =
    \<lparr>me_type = t, me_source = providerName, me_bytes = b, me_summary = summary, me_payload = payload\<rparr>"

definition bounded :: "string \<Rightarrow> string" where
  "bounded value = (if length value \<le> maxEventSummary then value else take maxEventSummary value)"

section \<open>The state of a response\<close>

record usage =
  us_input :: int
  us_output :: int
  us_total :: int

record stream_result =
  sr_text :: string
  sr_state_parts :: "part list"
  sr_calls :: "call list"
  sr_seen_call_ids :: "string list"
  sr_tool_delta_ids :: "string list"
  sr_refusal :: string
  sr_usage :: usage
  sr_response_id :: string
  sr_model :: string
  sr_completed :: bool
  sr_saw_text_delta :: bool
  sr_saw_refusal :: bool
  sr_text_started :: bool
  sr_text_state_at :: nat
  sr_state_bytes :: nat

definition new_result :: "string \<Rightarrow> stream_result" where
  "new_result model = \<lparr>sr_text = '''', sr_state_parts = [], sr_calls = [], sr_seen_call_ids = [],
    sr_tool_delta_ids = [], sr_refusal = '''', sr_usage = \<lparr>us_input = 0, us_output = 0, us_total = 0\<rparr>,
    sr_response_id = '''', sr_model = model, sr_completed = False, sr_saw_text_delta = False,
    sr_saw_refusal = False, sr_text_started = False, sr_text_state_at = 0, sr_state_bytes = 0\<rparr>"

record stream_event =
  se_type :: string
  se_delta :: string
  se_text :: string
  se_item_id :: string
  se_call_id :: string
  se_item :: bytes
  se_response :: bytes
  se_code :: string
  se_message :: string

definition no_event :: stream_event where
  "no_event = \<lparr>se_type = '''', se_delta = '''', se_text = '''', se_item_id = '''', se_call_id = '''',
    se_item = [], se_response = [], se_code = '''', se_message = ''''\<rparr>"

text \<open>The fields of the type \<open>json.RawMessage\<close> take any value and are read from the text.\<close>

definition event_fields :: "stream_event fields" where
  "event_fields = [(''type'', string_field se_type_update), (''delta'', string_field se_delta_update),
     (''text'', string_field se_text_update), (''item_id'', string_field se_item_id_update),
     (''call_id'', string_field se_call_id_update), (''code'', string_field se_code_update),
     (''message'', string_field se_message_update)]"

definition decodeStreamEvent :: "string \<Rightarrow> agent_error + stream_event" where
  "decodeStreamEvent data = (case unmarshal event_fields data no_event of
     None \<Rightarrow> Inl (Wrapped ''codex: decode response event: %w'' [] json_error)
   | Some ev \<Rightarrow> Inr (ev\<lparr>se_item := raw_field ''item'' data, se_response := raw_field ''response'' data\<rparr>))"

record output_content =
  oc_type :: string
  oc_text :: string
  oc_refusal :: string

record output_item =
  oi_id :: string
  oi_type :: string
  oi_name :: string
  oi_arguments :: string
  oi_call_id :: string
  oi_content :: "output_content list"

definition no_output_content :: output_content where
  "no_output_content = \<lparr>oc_type = '''', oc_text = '''', oc_refusal = ''''\<rparr>"

definition content_fields :: "output_content fields" where
  "content_fields = [(''type'', string_field oc_type_update), (''text'', string_field oc_text_update),
     (''refusal'', string_field oc_refusal_update)]"

definition no_output_item :: output_item where
  "no_output_item = \<lparr>oi_id = '''', oi_type = '''', oi_name = '''', oi_arguments = '''', oi_call_id = '''', oi_content = []\<rparr>"

definition output_item_fields :: "output_item fields" where
  "output_item_fields = [(''id'', string_field oi_id_update), (''type'', string_field oi_type_update),
     (''name'', string_field oi_name_update), (''arguments'', string_field oi_arguments_update),
     (''call_id'', string_field oi_call_id_update),
     (''content'', slice_field oi_content_update no_output_content content_fields)]"

section \<open>Text, refusals and deltas\<close>

definition appendText :: "string \<Rightarrow> stream_result \<Rightarrow> agent_error + stream_result" where
  "appendText value r =
    (if length (sr_text r) + length value > maxOutputBytes
     then Inl (Errorf ''codex: response text exceeds %d bytes'' [Num (int maxOutputBytes)])
     else
       (let r1 = (if \<not> sr_text_started r
          then r\<lparr>sr_text_started := True, sr_text_state_at := length (sr_state_parts r)\<rparr> else r)
        in Inr (r1\<lparr>sr_text := sr_text r1 @ value\<rparr>)))"

definition deliver_text :: "consumer \<Rightarrow> string \<Rightarrow> stream_result \<Rightarrow> stream_result effect" where
  "deliver_text cs value r =
    eff_bind (pure_r (appendText value r)) (\<lambda>r1.
    eff_bind (emitEvent (cs_sinks cs) (model_event_of MessageDelta [] (bounded value) [])) (\<lambda>_.
    eff_bind (yield_text cs value) (\<lambda>_. pure_r (Inr r1))))"

definition handleTextDelta :: "consumer \<Rightarrow> string \<Rightarrow> stream_result \<Rightarrow> stream_result effect" where
  "handleTextDelta cs value r =
    (if value = '''' then pure_r (Inr r) else deliver_text cs value (r\<lparr>sr_saw_text_delta := True\<rparr>))"

definition handleReasoningDelta :: "consumer \<Rightarrow> string \<Rightarrow> stream_result \<Rightarrow> stream_result effect" where
  "handleReasoningDelta cs value r =
    (if value = '''' then pure_r (Inr r)
     else eff_bind (emitEvent (cs_sinks cs) (model_event_of ReasoningDelta value (bounded value) [])) (\<lambda>_. pure_r (Inr r)))"

definition recordToolDelta :: "string \<Rightarrow> stream_result \<Rightarrow> stream_result" where
  "recordToolDelta identifier r =
    (if identifier = '''' then r else r\<lparr>sr_tool_delta_ids := List.insert identifier (sr_tool_delta_ids r)\<rparr>)"

definition handleToolDelta :: "consumer \<Rightarrow> stream_event \<Rightarrow> stream_result \<Rightarrow> stream_result effect" where
  "handleToolDelta cs ev r =
    (if se_delta ev = '''' then pure_r (Inr r)
     else
       (let r1 = recordToolDelta (se_call_id ev) (recordToolDelta (se_item_id ev) r);
            identifier = (if se_call_id ev = '''' then se_item_id ev else se_call_id ev)
        in eff_bind (emitEvent (cs_sinks cs) (model_event_of ToolCallDelta (se_delta ev) (bounded identifier) []))
             (\<lambda>_. pure_r (Inr r1))))"

definition deliver_refusal :: "consumer \<Rightarrow> string \<Rightarrow> stream_result \<Rightarrow> stream_result effect" where
  "deliver_refusal cs value r =
    eff_bind (emitEvent (cs_sinks cs) (model_event_of RefusalEvent [] (bounded value) []))
      (\<lambda>_. pure_r (Inr (r\<lparr>sr_refusal := sr_refusal r @ value\<rparr>)))"

definition handleRefusalDelta :: "consumer \<Rightarrow> string \<Rightarrow> stream_result \<Rightarrow> stream_result effect" where
  "handleRefusalDelta cs value r =
    (if value = '''' then pure_r (Inr r) else deliver_refusal cs value (r\<lparr>sr_saw_refusal := True\<rparr>))"

section \<open>Output items\<close>

definition addStatePart :: "bytes \<Rightarrow> stream_result \<Rightarrow> agent_error + stream_result" where
  "addStatePart encoded r =
    rbind (canonicalResponseState encoded) (\<lambda>canonical.
    let r1 = r\<lparr>sr_state_bytes := sr_state_bytes r + length canonical\<rparr> in
    if sr_state_bytes r1 > maxOutputBytes
    then Inl (Errorf ''codex: response state exceeds %d bytes'' [Num (int maxOutputBytes)])
    else Inr (r1\<lparr>sr_state_parts := sr_state_parts r1 @ [\<lparr>pt_type = response_item, pt_text = canonical, pt_ref = None\<rparr>]\<rparr>))"

definition hasToolDelta :: "output_item \<Rightarrow> stream_result \<Rightarrow> bool" where
  "hasToolDelta item r \<longleftrightarrow>
    oi_id item \<in> set (sr_tool_delta_ids r) \<or> oi_call_id item \<in> set (sr_tool_delta_ids r)"

definition addFunctionCall :: "consumer \<Rightarrow> output_item \<Rightarrow> bytes \<Rightarrow> stream_result \<Rightarrow> stream_result effect" where
  "addFunctionCall cs item encoded r =
    (if oi_call_id item = '''' \<or> oi_name item = '''' then pure_r (Inl (Errorf ''codex: function call is incomplete'' []))
     else if \<not> json_valid (oi_arguments item)
     then pure_r (Inl (Errorf ''codex: function call %q has invalid arguments'' [Str (oi_name item)]))
     else if oi_call_id item \<in> set (sr_seen_call_ids r)
     then pure_r (Inl (Errorf ''codex: duplicate function call id %q'' [Str (oi_call_id item)]))
     else
       (let r1 = r\<lparr>sr_seen_call_ids := List.insert (oi_call_id item) (sr_seen_call_ids r),
              sr_calls := sr_calls r @ [\<lparr>cl_id = oi_call_id item, cl_name = oi_name item,
                cl_arguments = oi_arguments item, cl_arguments_ref = '''', cl_source_ref = providerName\<rparr>]\<rparr>
        in eff_bind (pure_r (addStatePart encoded r1)) (\<lambda>r2.
           if hasToolDelta item r2 then pure_r (Inr r2)
           else eff_bind (emitEvent (cs_sinks cs)
               (model_event_of ToolCallDelta (oi_arguments item) (bounded (oi_call_id item)) []))
             (\<lambda>_. pure_r (Inr r2)))))"

definition addCompletedText :: "consumer \<Rightarrow> string \<Rightarrow> stream_result \<Rightarrow> stream_result effect" where
  "addCompletedText cs value r =
    (if sr_saw_text_delta r \<or> value = '''' then pure_r (Inr r) else deliver_text cs value r)"

definition addCompletedRefusal :: "consumer \<Rightarrow> string \<Rightarrow> stream_result \<Rightarrow> stream_result effect" where
  "addCompletedRefusal cs value r =
    (if sr_saw_refusal r \<or> value = '''' then pure_r (Inr r) else deliver_refusal cs value r)"

definition addMessageContent :: "consumer \<Rightarrow> output_content \<Rightarrow> stream_result \<Rightarrow> stream_result effect" where
  "addMessageContent cs c r =
    (if oc_type c = ''output_text'' then addCompletedText cs (oc_text c) r
     else if oc_type c = ''refusal'' then addCompletedRefusal cs (oc_refusal c) r
     else pure_r (Inr r))"

fun addMessageItem :: "consumer \<Rightarrow> output_content list \<Rightarrow> stream_result \<Rightarrow> stream_result effect" where
  "addMessageItem cs [] r = pure_r (Inr r)"
| "addMessageItem cs (c # contents) r = eff_bind (addMessageContent cs c r) (addMessageItem cs contents)"

definition addOutputItem :: "consumer \<Rightarrow> bytes \<Rightarrow> stream_result \<Rightarrow> stream_result effect" where
  "addOutputItem cs encoded r =
    (if encoded = [] then pure_r (Inl (Errorf ''codex: output_item.done has no item'' []))
     else if length encoded > maxStreamFrameBytes
     then pure_r (Inl (Errorf ''codex: response item exceeds %d bytes'' [Num (int maxStreamFrameBytes)]))
     else case unmarshal output_item_fields encoded no_output_item of
         None \<Rightarrow> pure_r (Inl (Wrapped ''codex: decode response item: %w'' [] json_error))
       | Some item \<Rightarrow>
           if oi_type item = ''reasoning'' then pure_r (addStatePart encoded r)
           else if oi_type item = ''function_call'' then addFunctionCall cs item encoded r
           else if oi_type item = ''message'' then addMessageItem cs (oi_content item) r
           else pure_r (Inl (Errorf ''codex: unsupported output item type %q'' [Str (oi_type item)])))"

section \<open>Completion and failure\<close>

record completed_response =
  cr_id :: string
  cr_model :: string
  cr_usage :: "usage option"
  cr_end_turn :: "bool option"

definition usage_fields :: "usage fields" where
  "usage_fields = [(''input_tokens'', int64_field us_input_update), (''output_tokens'', int64_field us_output_update),
     (''total_tokens'', int64_field us_total_update)]"

definition no_usage :: usage where
  "no_usage = \<lparr>us_input = 0, us_output = 0, us_total = 0\<rparr>"

definition completed_fields :: "completed_response fields" where
  "completed_fields = [(''id'', string_field cr_id_update), (''model'', string_field cr_model_update),
     (''usage'', pointer_field cr_usage cr_usage_update no_usage usage_fields),
     (''end_turn'', bool_pointer_field cr_end_turn_update)]"

text \<open>An \<open>int\<close> has the 64 bits of an \<open>int64\<close>.\<close>

definition tokenCount :: "int \<Rightarrow> agent_error + int" where
  "tokenCount value =
    (let converted = wrap64 value in
     if value < 0 \<or> converted \<noteq> value then Inl (Errorf ''value is out of range'' []) else Inr converted)"

definition toGopact :: "usage \<Rightarrow> agent_error + usage" where
  "toGopact u =
    rbind (wrap_error (Wrapped ''codex: input tokens: %w'' []) (tokenCount (us_input u))) (\<lambda>input.
    rbind (wrap_error (Wrapped ''codex: output tokens: %w'' []) (tokenCount (us_output u))) (\<lambda>output.
    rbind (wrap_error (Wrapped ''codex: total tokens: %w'' []) (tokenCount (us_total u))) (\<lambda>total.
    Inr \<lparr>us_input = input, us_output = output, us_total = total\<rparr>)))"

definition usage_payload :: "usage \<Rightarrow> bytes" where
  "usage_payload u = print_json (JObject (jfield ''input_tokens'' (jnum (us_input u)) @
     jfield ''output_tokens'' (jnum (us_output u)) @ jfield ''total_tokens'' (jnum (us_total u))))"

definition finishReason :: "stream_result \<Rightarrow> string" where
  "finishReason r = (if sr_calls r \<noteq> [] then ''tool_calls'' else if sr_refusal r \<noteq> '''' then ''refusal'' else ''stop'')"

definition complete :: "sink option list \<Rightarrow> bytes \<Rightarrow> stream_result \<Rightarrow> stream_result effect" where
  "complete sinks encoded r =
    (if encoded = [] then pure_r (Inl (Errorf ''codex: response.completed has no response'' []))
     else case unmarshal completed_fields encoded \<lparr>cr_id = '''', cr_model = '''', cr_usage = None, cr_end_turn = None\<rparr> of
         None \<Rightarrow> pure_r (Inl (Wrapped ''codex: decode completed response: %w'' [] json_error))
       | Some response \<Rightarrow>
           if cr_id response = '''' then pure_r (Inl (Errorf ''codex: completed response has no id'' []))
           else
             (let r1 = r\<lparr>sr_response_id := cr_id response\<rparr>;
                  r2 = (if cr_model response \<noteq> '''' then r1\<lparr>sr_model := cr_model response\<rparr> else r1)
              in eff_bind (case cr_usage response of
                     None \<Rightarrow> pure_r (Inr r2)
                   | Some u \<Rightarrow>
                       eff_bind (pure_r (toGopact u)) (\<lambda>us.
                       eff_bind (emitEvent sinks (model_event_of UsageEvent [] '''' (usage_payload us))) (\<lambda>_.
                       pure_r (Inr (r2\<lparr>sr_usage := us\<rparr>))))) (\<lambda>r3.
                 let r4 = r3\<lparr>sr_completed := True\<rparr> in
                 eff_bind (emitEvent sinks (model_event_of FinishEvent [] (finishReason r4) [])) (\<lambda>_. pure_r (Inr r4)))))"

record failure_error =
  fe_code :: string
  fe_message :: string

record incomplete_details =
  id_reason :: string

record failed_response =
  fr_error :: failure_error
  fr_incomplete :: incomplete_details

definition failure_fields :: "failed_response fields" where
  "failure_fields =
    [(''error'', struct_field fr_error fr_error_update
        [(''code'', string_field fe_code_update), (''message'', string_field fe_message_update)]),
     (''incomplete_details'', struct_field fr_incomplete fr_incomplete_update
        [(''reason'', string_field id_reason_update)])]"

definition no_failure :: failed_response where
  "no_failure = \<lparr>fr_error = \<lparr>fe_code = '''', fe_message = ''''\<rparr>, fr_incomplete = \<lparr>id_reason = ''''\<rparr>\<rparr>"

definition responseFailure :: "string \<Rightarrow> bytes \<Rightarrow> tokens \<Rightarrow> agent_error" where
  "responseFailure kind encoded t =
    (case (if encoded = [] then Some no_failure else unmarshal failure_fields encoded no_failure) of
       None \<Rightarrow> Wrapped ''codex: decode %s response: %w'' [Str kind] json_error
     | Some response \<Rightarrow>
         (let code = fe_code (fr_error response);
              message = redactTokens (if kind = ''incomplete'' \<and> fe_message (fr_error response) = ''''
                then id_reason (fr_incomplete response) else fe_message (fr_error response)) t
          in if code \<noteq> '''' \<and> message \<noteq> '''' then Errorf ''codex: response %s: %s: %s'' [Str kind, Str code, Str message]
             else if code \<noteq> '''' then Errorf ''codex: response %s: %s'' [Str kind, Str code]
             else if message \<noteq> '''' then Errorf ''codex: response %s: %s'' [Str kind, Str message]
             else Errorf ''codex: response %s'' [Str kind]))"

definition responseEventError :: "stream_event \<Rightarrow> tokens \<Rightarrow> agent_error" where
  "responseEventError ev t =
    (let message = redactTokens (se_message ev) t in
     if se_code ev = '''' then Errorf ''codex: response error: %s'' [Str message]
     else Errorf ''codex: response error: %s: %s'' [Str (se_code ev), Str message])"

text \<open>The pair of the source's \<open>(bool, error)\<close> with the new state: whether the event is the last.\<close>

definition handleEvent :: "consumer \<Rightarrow> stream_event \<Rightarrow> stream_result \<Rightarrow> (bool \<times> stream_result) effect" where
  "handleEvent cs ev r =
    (let continue = (\<lambda>m. eff_bind m (\<lambda>r1. pure_r (Inr (False, r1)))); t = se_type ev in
     if t = ''response.output_text.delta'' then continue (handleTextDelta cs (se_delta ev) r)
     else if t = ''response.reasoning_summary_text.delta'' \<or> t = ''response.reasoning_text.delta''
     then continue (handleReasoningDelta cs (se_delta ev) r)
     else if t = ''response.function_call_arguments.delta'' \<or> t = ''response.custom_tool_call_input.delta''
     then continue (handleToolDelta cs ev r)
     else if t = ''response.refusal.delta'' then continue (handleRefusalDelta cs (se_delta ev) r)
     else if t = ''response.output_item.done'' then continue (addOutputItem cs (se_item ev) r)
     else if t = ''response.completed''
     then eff_bind (complete (cs_sinks cs) (se_response ev) r) (\<lambda>r1. pure_r (Inr (True, r1)))
     else if t = ''response.failed'' then pure_r (Inl (responseFailure ''failed'' (se_response ev) (cs_tokens cs)))
     else if t = ''response.incomplete'' then pure_r (Inl (responseFailure ''incomplete'' (se_response ev) (cs_tokens cs)))
     else if t = ''error'' then pure_r (Inl (responseEventError ev (cs_tokens cs)))
     else pure_r (Inr (False, r)))"

section \<open>Server-sent events\<close>

text \<open>
  The reader gives its bytes and then the end of file, or the error \<open>sd_read_err\<close>. A line that
  does not fit the buffer of \<open>maxStreamFrameBytes\<close> with its end stops the scanner.
\<close>

record sse =
  sd_rest :: bytes
  sd_read_err :: "agent_error option"
  sd_scan_err :: "agent_error option"
  sd_data :: string
  sd_total :: nat
  sd_eof :: bool

definition newSSEDecoder :: "bytes \<Rightarrow> agent_error option \<Rightarrow> sse" where
  "newSSEDecoder body err =
    \<lparr>sd_rest = body, sd_read_err = err, sd_scan_err = None, sd_data = '''', sd_total = 0, sd_eof = False\<rparr>"

definition ErrEOF :: agent_error where "ErrEOF = Errorf ''EOF'' []"
definition ErrUnexpectedEOF :: agent_error where "ErrUnexpectedEOF = Errorf ''unexpected EOF'' []"
definition ErrTooLong :: agent_error where "ErrTooLong = Errorf ''bufio.Scanner: token too long'' []"

definition newline :: char where "newline = CHR 0x0A"

text \<open>One trailing carriage return is removed (by \<open>ScanLines\<close>, and again by the decoder).\<close>

definition drop_cr :: "string \<Rightarrow> string" where
  "drop_cr s = (if has_suffix s [CHR 0x0D] then butlast s else s)"

definition scan_line :: "sse \<Rightarrow> string option \<times> sse" where
  "scan_line d =
    (let line = takeWhile (\<lambda>c. c \<noteq> newline) (sd_rest d) in
     if sd_scan_err d \<noteq> None then (None, d)
     else if length line \<ge> maxStreamFrameBytes then (None, d\<lparr>sd_scan_err := Some ErrTooLong\<rparr>)
     else if length line < length (sd_rest d)
     then (Some (drop_cr line), d\<lparr>sd_rest := drop (Suc (length line)) (sd_rest d)\<rparr>)
     else if sd_rest d = [] then (None, d\<lparr>sd_scan_err := sd_read_err d\<rparr>)
     else (Some (drop_cr line), d\<lparr>sd_rest := []\<rparr>))"

definition takeData :: "sse \<Rightarrow> string \<times> sse" where
  "takeData d = (sd_data d, d\<lparr>sd_data := ''''\<rparr>)"

definition endEvent :: "sse \<Rightarrow> (agent_error + string option) \<times> sse" where
  "endEvent d = (if sd_data d = '''' then (Inr None, d) else (let (v, d1) = takeData d in (Inr (Some v), d1)))"

definition acceptLine :: "string \<Rightarrow> sse \<Rightarrow> (agent_error + string option) \<times> sse" where
  "acceptLine line d0 =
    (let d = d0\<lparr>sd_total := sd_total d0 + length line + 1\<rparr> in
     if sd_total d > maxStreamBytes then (Inl (Errorf ''stream exceeds %d bytes'' [Num (int maxStreamBytes)]), d)
     else if line = '''' then endEvent d
     else if has_prefix line '':'' then (Inr None, d)
     else
       (let field = takeWhile (\<lambda>c. c \<noteq> CHR '':'') line; found = (CHR '':'' \<in> set line);
            value0 = drop (Suc (length field)) line;
            value = (if has_prefix value0 '' '' then drop 1 value0 else value0) in
        if \<not> found \<or> field \<noteq> ''data'' then (Inr None, d)
        else
          (let d1 = (if sd_data d \<noteq> '''' then d\<lparr>sd_data := sd_data d @ [newline]\<rparr> else d) in
           if length (sd_data d1) + length value > maxStreamFrameBytes
           then (Inl (Errorf ''event exceeds %d bytes'' [Num (int maxStreamFrameBytes)]), d1)
           else (Inr None, d1\<lparr>sd_data := sd_data d1 @ value\<rparr>))))"

definition sse_finish :: "sse \<Rightarrow> (agent_error + string) \<times> sse" where
  "sse_finish d = (case sd_scan_err d of
     Some e \<Rightarrow> (Inl e, d)
   | None \<Rightarrow>
       (let d1 = d\<lparr>sd_eof := True\<rparr> in
        if sd_data d1 \<noteq> '''' then (let (v, d2) = takeData d1 in (Inr v, d2)) else (Inl ErrEOF, d1)))"

lemma scan_line_rest: "scan_line d = (Some line, d') \<Longrightarrow> length (sd_rest d') < length (sd_rest d) \<and> sd_eof d' = sd_eof d"
  by (auto simp: scan_line_def Let_def split: if_split_asm)

lemma acceptLine_rest: "acceptLine line d = (r, d') \<Longrightarrow> sd_rest d' = sd_rest d \<and> sd_eof d' = sd_eof d"
  by (auto simp: acceptLine_def endEvent_def takeData_def Let_def split: if_split_asm)

function sse_next :: "sse \<Rightarrow> (agent_error + string) \<times> sse" where
  "sse_next d =
    (if sd_eof d then (Inl ErrEOF, d)
     else case scan_line d of
         (None, d1) \<Rightarrow> sse_finish d1
       | (Some line, d1) \<Rightarrow>
           (case acceptLine (drop_cr line) d1 of
              (Inl e, d2) \<Rightarrow> (Inl e, d2)
            | (Inr (Some value), d2) \<Rightarrow> (Inr value, d2)
            | (Inr None, d2) \<Rightarrow> sse_next d2))"
  by pat_completeness auto

termination
  by (relation "measure (\<lambda>d. length (sd_rest d))") (auto dest!: scan_line_rest [OF sym] acceptLine_rest [OF sym])

declare sse_next.simps [simp del]

definition scan_eof :: "sse \<Rightarrow> nat" where
  "scan_eof d = (if sd_eof d then 0 else Suc (length (sd_rest d)))"

lemma sse_next_progress: "sse_next d = (Inr v, d') \<Longrightarrow> scan_eof d' < scan_eof d"
proof (induction d rule: sse_next.induct)
  case (1 d)
  from 1(2) have ne: "\<not> sd_eof d" by (auto simp: sse_next.simps [of d])
  show ?case
  proof (cases "scan_line d")
    case (Pair l d1)
    show ?thesis
    proof (cases l)
      case None
      with 1(2) Pair ne show ?thesis
        by (auto simp: sse_next.simps [of d] sse_finish_def takeData_def Let_def scan_eof_def split: option.split_asm if_split_asm)
    next
      case (Some line)
      obtain a d2 where a: "acceptLine (drop_cr line) d1 = (a, d2)" by force
      with Pair Some have less: "scan_eof d2 < scan_eof d"
        using scan_line_rest [of d line d1] acceptLine_rest [OF a] ne by (auto simp: scan_eof_def)
      have eq: "sse_next d = (case (a, d2) of (Inl e, d2) \<Rightarrow> (Inl e, d2)
            | (Inr (Some value), d2) \<Rightarrow> (Inr value, d2) | (Inr None, d2) \<Rightarrow> sse_next d2)"
        using Pair Some ne a by (subst sse_next.simps) simp
      show ?thesis
      proof (cases "a = Inr None")
        case True
        with eq 1(2) have "sse_next d2 = (Inr v, d')" by simp
        with 1(1) [OF ne Pair [symmetric]] Some a True have "scan_eof d' < scan_eof d2" by auto
        with less show ?thesis by simp
      next
        case False
        with eq 1(2) less show ?thesis by (auto split: sum.split_asm option.split_asm)
      qed
    qed
  qed
qed

section \<open>The stream\<close>

fun is_eof :: "agent_error \<Rightarrow> bool" where
  "is_eof (Wrapped f args e) = is_eof e"
| "is_eof (Joined es) = (\<exists>e \<in> set es. is_eof e)"
| "is_eof e = (e = ErrEOF)"

definition streamReadError :: "agent_error \<Rightarrow> agent_error" where
  "streamReadError e =
    (if is_eof e then Wrapped ''codex: response stream closed before response.completed: %w'' [] ErrUnexpectedEOF
     else Wrapped ''codex: read response stream: %w'' [] e)"

definition streamDoneError :: "stream_result \<Rightarrow> agent_error + stream_result" where
  "streamDoneError r =
    (if sr_completed r then Inr r
     else Inl (Wrapped ''codex: response stream ended before response.completed: %w'' [] ErrUnexpectedEOF))"

function consumeStream :: "consumer \<Rightarrow> sse \<Rightarrow> stream_result \<Rightarrow> stream_result effect" where
  "consumeStream cs d r out =
    (case sse_next d of
       (Inl e, d1) \<Rightarrow> (out, Inl (streamReadError e))
     | (Inr data, d1) \<Rightarrow>
         if data = ''[DONE]'' then (out, streamDoneError r)
         else case decodeStreamEvent data of
             Inl e \<Rightarrow> (out, Inl e)
           | Inr ev \<Rightarrow>
               (case handleEvent cs ev r out of
                  (out1, Inl e) \<Rightarrow> (out1, Inl e)
                | (out1, Inr (terminal, r1)) \<Rightarrow>
                    if terminal then (out1, Inr r1) else consumeStream cs d1 r1 out1))"
  by pat_completeness auto

termination
  by (relation "measure (\<lambda>(cs, d, r, out). scan_eof d)") (auto dest!: sse_next_progress [OF sym])

declare consumeStream.simps [simp del]

section \<open>The response\<close>

datatype model_intent = ToolCallIntent | RefusalIntent string chat_message string | FinalIntent

record model_answer =
  ma_message :: chat_message
  ma_intent :: model_intent
  ma_usage :: usage
  ma_finish_reason :: string
  ma_metadata :: metadata

definition text_part :: "string \<Rightarrow> part" where
  "text_part value = \<lparr>pt_type = PartText, pt_text = value, pt_ref = None\<rparr>"

definition messageParts :: "stream_result \<Rightarrow> part list" where
  "messageParts r =
    (if sr_text r = '''' then sr_state_parts r
     else
       (let split = min (sr_text_state_at r) (length (sr_state_parts r)) in
        take split (sr_state_parts r) @ [text_part (sr_text r)] @ drop split (sr_state_parts r)))"

definition assistant_message :: "part list \<Rightarrow> chat_message" where
  "assistant_message parts = \<lparr>cm_role = RoleAssistant, cm_parts = parts, cm_tool_calls = [], cm_tool_call_id = ''''\<rparr>"

definition refusalIntent :: "stream_result \<Rightarrow> chat_message \<Rightarrow> model_intent \<times> chat_message" where
  "refusalIntent r message =
    (let refusal = assistant_message [text_part (sr_refusal r)]
     in (RefusalIntent ''provider_refusal'' refusal (sr_response_id r),
         if cm_parts message = [] then refusal else message))"

definition responseIntent :: "stream_result \<Rightarrow> chat_message \<Rightarrow> agent_error + (model_intent \<times> chat_message)" where
  "responseIntent r message =
    (if sr_calls r \<noteq> [] \<and> sr_refusal r \<noteq> ''''
     then Inl (Errorf ''codex: response contains both tool calls and a refusal'' [])
     else if sr_calls r \<noteq> [] then Inr (ToolCallIntent, message\<lparr>cm_tool_calls := sr_calls r\<rparr>)
     else if sr_refusal r \<noteq> '''' then Inr (refusalIntent r message)
     else Inr (FinalIntent, message))"

definition stream_response :: "stream_result \<Rightarrow> agent_error + model_answer" where
  "stream_response r =
    (if \<not> sr_completed r then Inl (Errorf ''codex: response is incomplete'' [])
     else rbind (responseIntent r (assistant_message (messageParts r))) (\<lambda>(intent, message).
       Inr \<lparr>ma_message = message, ma_intent = intent, ma_usage = sr_usage r, ma_finish_reason = finishReason r,
         ma_metadata = [(''id'', sr_response_id r), (''model'', sr_model r), (''provider'', providerName)]\<rparr>))"

end
