(* ===== verification/Json_Strings.thy ===== *)
theory Json_Strings
  imports Json_Text
begin

text \<open>
  The texts of strings: the shape of what the scanner accepts between two quotes, that quoting a
  string and escaping HTML produce such texts, and that they are read back as the same string.
\<close>

declare unquote.simps(2) [simp] html_escape.simps(2) [simp]

section \<open>The shape of a text\<close>

inductive string_text :: "bytes \<Rightarrow> bool" where
  string_empty: "string_text []"
| string_char: "\<lbrakk>\<not> c < CHR 0x20; c \<noteq> CHR 0x22; c \<noteq> CHR 0x5C; string_text r\<rbrakk> \<Longrightarrow> string_text (c # r)"
| string_escape: "\<lbrakk>simple_escape d; string_text r\<rbrakk> \<Longrightarrow> string_text (CHR 0x5C # d # r)"
| string_unicode: "\<lbrakk>is_hex h1; is_hex h2; is_hex h3; is_hex h4; string_text r\<rbrakk> \<Longrightarrow>
    string_text (CHR 0x5C # CHR ''u'' # h1 # h2 # h3 # h4 # r)"

lemma not_simple_u [simp]: "\<not> simple_escape (CHR ''u'')"
  by (simp add: simple_escape_def)

lemma string_text_scan: "string_text r \<Longrightarrow> scan_string (r @ CHR 0x22 # u) = Some (r, u)"
  by (induction rule: string_text.induct) simp_all

lemma scan_string_text: "scan_string s = Some (r, s') \<Longrightarrow> string_text r"
proof (induction s arbitrary: r rule: length_induct)
  case (1 s)
  then have IH: "scan_string t = Some (q, s') \<Longrightarrow> length t < length s \<Longrightarrow> string_text q" for t q by blast
  from 1(2) show ?case
    by (cases s) (auto simp: prepend_Some_iff split: if_split_asm list.split_asm intro: string_text.intros dest!: IH)
qed

lemma string_ok_iff: "string_ok r \<longleftrightarrow> string_text r"
  using scan_string_text string_text_scan [of r "[]"] by (auto simp: string_ok_def)

lemma string_text_append: "string_text r \<Longrightarrow> string_text s \<Longrightarrow> string_text (r @ s)"
  by (induction rule: string_text.induct) (auto intro: string_text.intros)

section \<open>Characters\<close>

lemma not_html [simp]: "\<not> html_char (CHR 0x5C)" "\<not> html_char (CHR ''u'')" "\<not> html_char (CHR 0xE2)"
  by (simp_all add: html_char_def)

lemma not_hex [simp]: "\<not> is_hex (CHR ''<'')" "\<not> is_hex (CHR ''>'')" "\<not> is_hex (CHR ''&'')" "\<not> is_hex (CHR 0xE2)"
  by code_simp+

lemma hex_plain: "is_hex h \<Longrightarrow> \<not> html_char h \<and> h \<noteq> CHR 0xE2"
  by (auto simp: html_char_def)

lemma escape_plain: "simple_escape d \<Longrightarrow> \<not> html_char d \<and> d \<noteq> CHR 0xE2"
  by (auto simp: simple_escape_def html_char_def)

lemma html_plain [simp]: "\<not> html_char c \<Longrightarrow> c \<noteq> CHR 0xE2 \<Longrightarrow> html_escape (c # s) = c # html_escape s"
  by (simp add: line_separator_def)

lemma hex_digit_hex: "n < 16 \<Longrightarrow> is_hex (hex_digit n)"
proof -
  have "\<forall>n \<in> set [0..<16]. is_hex (hex_digit n)" by code_simp
  then show "n < 16 \<Longrightarrow> is_hex (hex_digit n)" by simp
qed

lemma hex_digit_value: "n < 16 \<Longrightarrow> hex_value (hex_digit n) = n"
proof -
  have "\<forall>n \<in> set [0..<16]. hex_value (hex_digit n) = n" by code_simp
  then show "n < 16 \<Longrightarrow> hex_value (hex_digit n) = n" by simp
qed

lemma zero_hex [simp]: "is_hex (CHR ''0'')" "is_hex (CHR ''2'')" "is_hex (CHR ''f'')" "is_hex (CHR ''d'')"
  "hex_value (CHR ''0'') = 0" "hex_value (CHR ''2'') = 2" "hex_value (CHR ''f'') = 15" "hex_value (CHR ''d'') = 13"
  by code_simp+

lemma char_halves: "of_char c div 16 < (16 :: nat)" "of_char c mod 16 < (16 :: nat)"
proof -
  have "of_char c < (256 :: nat)" by simp
  then show "of_char c div 16 < (16 :: nat)" by linarith
qed simp

lemma u_escape_text: "string_text r \<Longrightarrow> string_text (u_escape c @ r)"
  by (auto simp: u_escape_def intro!: string_unicode hex_digit_hex char_halves)

lemma u_line_text: "string_text r \<Longrightarrow> string_text (u_line c @ r)"
  by (auto simp: u_line_def intro!: string_unicode hex_digit_hex)

lemma byte_literals: "byte_at 226 = CHR 0xE2" "byte_at 128 = CHR 0x80" "byte_at 168 = CHR 0xA8" "byte_at 169 = CHR 0xA9"
  by code_simp+

lemma not_control [simp]: "\<not> CHR 0x80 < CHR 0x20" "\<not> CHR 0xA8 < CHR 0x20" "\<not> CHR 0xA9 < CHR 0x20" "\<not> CHR 0xE2 < CHR 0x20"
  by code_simp+

text \<open>What the escapes denote.\<close>

lemma u_escape_unquote:
  assumes "of_char c < (128 :: nat)"
  shows "unquote (u_escape c @ r) = c # unquote r"
proof -
  have "hex4 (CHR ''0'') (CHR ''0'') (hex_digit (of_char c div 16)) (hex_digit (of_char c mod 16)) = of_char c"
    by (simp add: hex4_def hex_digit_value char_halves)
  with assms show ?thesis by (simp add: u_escape_def Let_def is_surrogate_def encode_rune_def byte_at_def)
qed

lemma u_line_unquote:
  assumes "c = CHR 0xA8 \<or> c = CHR 0xA9"
  shows "unquote (u_line c @ r) = CHR 0xE2 # CHR 0x80 # c # unquote r"
proof -
  have step: "unquote (u_line d @ r) = CHR 0xE2 # CHR 0x80 # d # unquote r"
    if "hex4 (CHR ''2'') (CHR ''0'') (CHR ''2'') (hex_digit (of_char d mod 16)) = k" "encode_rune k = [CHR 0xE2, CHR 0x80, d]"
      "\<not> is_surrogate k" for k d
    using that by (simp add: u_line_def)
  have rune: "encode_rune 8232 = [CHR 0xE2, CHR 0x80, CHR 0xA8]" "encode_rune 8233 = [CHR 0xE2, CHR 0x80, CHR 0xA9]"
    by (simp_all add: encode_rune_def is_surrogate_def byte_literals)
  have "unquote (u_line (CHR 0xA8) @ r) = CHR 0xE2 # CHR 0x80 # CHR 0xA8 # unquote r"
    by (rule step [OF _ rune(1)]) (simp_all add: hex4_def hex_digit_value is_surrogate_def)
  moreover have "unquote (u_line (CHR 0xA9) @ r) = CHR 0xE2 # CHR 0x80 # CHR 0xA9 # unquote r"
    by (rule step [OF _ rune(2)]) (simp_all add: hex4_def hex_digit_value is_surrogate_def)
  ultimately show ?thesis using assms by blast
qed

section \<open>Escaping HTML\<close>

lemma line_separator_shape:
  "line_separator c s \<longleftrightarrow> c = CHR 0xE2 \<and> (\<exists>d t. s = CHR 0x80 # d # t \<and> (d = CHR 0xA8 \<or> d = CHR 0xA9))"
  by (auto simp: line_separator_def split: list.split)

lemma string_text_tail: "string_text (c # t) \<Longrightarrow> c \<noteq> CHR 0x5C \<Longrightarrow> string_text t"
  by (erule string_text.cases) simp_all

lemma html_cases:
  assumes "string_text r"
  obtains (nil) "r = []"
  | (html) c s where "r = c # s" "html_char c" "string_text s"
  | (line) d s where "r = CHR 0xE2 # CHR 0x80 # d # s" "d = CHR 0xA8 \<or> d = CHR 0xA9" "string_text s"
  | (plain) c s where "r = c # s" "\<not> html_char c" "\<not> line_separator c s" "\<not> c < CHR 0x20" "c \<noteq> CHR 0x22"
      "c \<noteq> CHR 0x5C" "string_text s"
  | (escape) d s where "r = CHR 0x5C # d # s" "simple_escape d" "string_text s"
  | (unicode) h1 h2 h3 h4 s where "r = CHR 0x5C # CHR ''u'' # h1 # h2 # h3 # h4 # s"
      "is_hex h1" "is_hex h2" "is_hex h3" "is_hex h4" "string_text s"
proof (cases rule: string_text.cases [OF assms])
  case (2 c s)
  show ?thesis
  proof (cases "line_separator c s")
    case True
    then obtain d t where s: "c = CHR 0xE2" "s = CHR 0x80 # d # t" "d = CHR 0xA8 \<or> d = CHR 0xA9"
      by (auto simp: line_separator_shape)
    have "string_text (d # t)" using string_text_tail [of "CHR 0x80" "d # t"] 2(5) s(2) by simp
    moreover have "\<not> d < CHR 0x20 \<and> d \<noteq> CHR 0x5C" using s(3) by (elim disjE) simp_all
    ultimately have "string_text t" using string_text_tail [of d t] by simp
    with 2(1) s show ?thesis using line [of d t] by simp
  next
    case False
    with 2 show ?thesis by (cases "html_char c") (auto intro: html plain)
  qed
qed (auto intro: nil escape unicode)

lemma html_steps [simp]:
  "html_escape (CHR 0xE2 # CHR 0x80 # CHR 0xA8 # s) = u_line (CHR 0xA8) @ html_escape s"
  "html_escape (CHR 0xE2 # CHR 0x80 # CHR 0xA9 # s) = u_line (CHR 0xA9) @ html_escape s"
  by (simp_all add: line_separator_def)

lemma html_simple [simp]:
  "html_char c \<Longrightarrow> html_escape (c # s) = u_escape c @ html_escape s"
  "\<not> html_char c \<Longrightarrow> \<not> line_separator c s \<Longrightarrow> html_escape (c # s) = c # html_escape s"
  by simp_all

declare html_escape.simps(2) [simp del]

lemma html_escape_steps [simp]:
  "simple_escape d \<Longrightarrow> html_escape (CHR 0x5C # d # s) = CHR 0x5C # d # html_escape s"
  "is_hex h1 \<Longrightarrow> is_hex h2 \<Longrightarrow> is_hex h3 \<Longrightarrow> is_hex h4 \<Longrightarrow>
    html_escape (CHR 0x5C # CHR ''u'' # h1 # h2 # h3 # h4 # s) = CHR 0x5C # CHR ''u'' # h1 # h2 # h3 # h4 # html_escape s"
  by (simp_all add: escape_plain hex_plain)

lemma html_escape_text: "string_text r \<Longrightarrow> string_text (html_escape r)"
proof (induction r rule: length_induct)
  case (1 r)
  then have IH: "string_text t \<Longrightarrow> length t < length r \<Longrightarrow> string_text (html_escape t)" for t by blast
  from 1(2) show ?case
  proof (cases rule: html_cases)
    case (plain c s)
    with IH [of s] show ?thesis by (simp add: string_char)
  next
    case (html c s)
    with IH [of s] show ?thesis by (simp add: u_escape_text)
  next
    case (line d s)
    with IH [of s] show ?thesis by (auto simp: u_line_text)
  next
    case (escape d s)
    with IH [of s] show ?thesis by (simp add: string_escape escape_plain)
  next
    case (unicode h1 h2 h3 h4 s)
    with IH [of s] show ?thesis by (simp add: string_unicode hex_plain)
  qed (simp add: string_empty)
qed

section \<open>Sequences of UTF-8\<close>

definition cont_char :: "char \<Rightarrow> bool" where
  "cont_char c \<longleftrightarrow> utf8_cont (of_char c)"

lemma utf8_tail_cases:
  assumes "utf8_tail a s = Some n"
  shows "n \<le> length s \<and> (\<forall>b \<in> set (take n s). utf8_cont b) \<and> utf8_tail a (take n s @ u) = Some n \<and> (n = 0 \<longleftrightarrow> a < 128)"
  using assms
  by (auto simp: utf8_tail_def utf8_cont_def split: if_split_asm list.split_asm)

lemma utf8_tail_cong:
  assumes "takeWhile utf8_cont s = takeWhile utf8_cont t"
  shows "utf8_tail a s = utf8_tail a t"
proof -
  have tail: "utf8_tail a s = utf8_tail a (takeWhile utf8_cont s)" for s
  proof (cases s)
    case (Cons b s1)
    show ?thesis
    proof (cases s1)
      case Nil
      with Cons show ?thesis by (auto simp: utf8_tail_def utf8_cont_def)
    next
      case (Cons c s2)
      with \<open>s = b # s1\<close> show ?thesis by (cases s2) (auto simp: utf8_tail_def utf8_cont_def)
    qed
  qed simp
  from tail [of s] tail [of t] assms show ?thesis by simp
qed

lemma takeWhile_bytes: "takeWhile utf8_cont (map of_char s) = map of_char (takeWhile cont_char s)"
  by (induction s) (simp_all add: cont_char_def)

lemma rune_tail_cong: "takeWhile cont_char s = takeWhile cont_char t \<Longrightarrow> rune_tail c s = rune_tail c t"
  by (simp add: rune_tail_def takeWhile_bytes utf8_tail_cong)

lemma rune_tail_Some:
  assumes "rune_tail c s = Some n"
  shows "n \<le> length s \<and> (\<forall>b \<in> set (take n s). cont_char b) \<and> rune_tail c (take n s @ u) = Some n \<and>
    (n = 0 \<longleftrightarrow> of_char c < (128 :: nat))"
  using utf8_tail_cases [OF assms [unfolded rune_tail_def], of "map of_char u"]
  by (simp add: rune_tail_def take_map cont_char_def)

lemma rune_tail_ascii: "of_char c < (128 :: nat) \<Longrightarrow> rune_tail c s = Some 0"
  by (simp add: rune_tail_def utf8_tail_def)

lemma cont_plain: "cont_char c \<Longrightarrow> \<not> html_char c \<and> c \<noteq> CHR 0xE2 \<and> c \<noteq> CHR 0x5C \<and> c \<noteq> CHR 0x22 \<and> \<not> c < CHR 0x20"
  by (auto simp: cont_char_def utf8_cont_def html_char_def less_char_def)

lemma html_cont: "\<forall>b \<in> set a. cont_char b \<Longrightarrow> html_escape (a @ s) = a @ html_escape s"
  by (induction a) (simp_all add: cont_plain)

lemma text_cont: "\<forall>b \<in> set a. cont_char b \<Longrightarrow> string_text (a @ s) \<longleftrightarrow> string_text s"
proof (induction a)
  case (Cons b a)
  then have "string_text (b # a @ s) \<longleftrightarrow> string_text (a @ s)"
    using cont_plain [of b] string_text_tail [of b "a @ s"] by (auto intro: string_char)
  with Cons show ?case by simp
qed simp

lemma not_cont [simp]: "\<not> cont_char (CHR 0x5C)"
  using cont_plain by blast

lemma takeWhile_html: "takeWhile cont_char (html_escape s) = takeWhile cont_char s"
proof (induction s)
  case (Cons c s)
  show ?case
  proof (cases "cont_char c")
    case True
    with Cons show ?thesis by (simp add: cont_plain)
  next
    case False
    then have "takeWhile cont_char (html_escape (c # s)) = []"
      by (simp add: html_escape.simps(2) u_escape_def u_line_def)
    with False show ?thesis by simp
  qed
qed simp

lemma unquote_ascii: "of_char c < (128 :: nat) \<Longrightarrow> c \<noteq> CHR 0x5C \<Longrightarrow> unquote (c # s) = c # unquote s"
  by (simp add: rune_tail_ascii)

lemma html_ascii: "html_char c \<Longrightarrow> of_char c < (128 :: nat) \<and> c \<noteq> CHR 0x5C"
  by (auto simp: html_char_def)

lemma line_rune: "d = CHR 0xA8 \<or> d = CHR 0xA9 \<Longrightarrow> rune_tail (CHR 0xE2) (CHR 0x80 # d # s) = Some 2"
  by (auto simp: rune_tail_def utf8_tail_def utf8_cont_def)

lemma unquote_line: "d = CHR 0xA8 \<or> d = CHR 0xA9 \<Longrightarrow> unquote (CHR 0xE2 # CHR 0x80 # d # s) = CHR 0xE2 # CHR 0x80 # d # unquote s"
  by (simp add: line_rune)

declare unquote.simps(2) [simp del]

lemma unquote_escape: "simple_escape d \<Longrightarrow> unquote (CHR 0x5C # d # s) = escape_char d # unquote s"
  by (auto simp: unquote.simps(2))

lemma unquote_unicode:
  "unquote (CHR 0x5C # CHR ''u'' # h1 # h2 # h3 # h4 # s) =
    (let r = hex4 h1 h2 h3 h4 in
     if is_surrogate r then
       (case low_half r s of Some r2 \<Rightarrow> encode_rune r2 @ unquote (drop 6 s) | None \<Rightarrow> replacement @ unquote s)
     else encode_rune r @ unquote s)"
  by (simp add: unquote.simps(2))

lemma low_half_Some:
  "low_half r s = Some r2 \<longleftrightarrow> (\<exists>h1 h2 h3 h4 t. s = CHR 0x5C # CHR ''u'' # h1 # h2 # h3 # h4 # t \<and>
    is_hex h1 \<and> is_hex h2 \<and> is_hex h3 \<and> is_hex h4 \<and> r < 0xDC00 \<and> 0xDC00 \<le> hex4 h1 h2 h3 h4 \<and> hex4 h1 h2 h3 h4 < 0xE000 \<and>
    r2 = (r - 0xD800) * 1024 + (hex4 h1 h2 h3 h4 - 0xDC00) + 0x10000)"
  by (auto simp: low_half_def Let_def split: list.split_asm if_split_asm)

lemma low_half_html:
  assumes "string_text s"
  shows "(\<exists>r2. low_half r (html_escape s) = Some r2) \<longrightarrow> (\<exists>r2. low_half r s = Some r2)"
  using assms
proof (cases rule: html_cases)
  case (html c t)
  have "hex4 (CHR ''0'') (CHR ''0'') (hex_digit (of_char c div 16)) (hex_digit (of_char c mod 16)) < 256"
    by (simp add: hex4_def hex_digit_value char_halves)
  with html show ?thesis by (auto simp: low_half_Some u_escape_def)
next
  case (line d t)
  then show ?thesis by (auto simp: low_half_Some u_line_def hex4_def hex_digit_value)
next
  case (plain c t)
  then show ?thesis by (auto simp: low_half_Some)
next
  case (escape d t)
  then show ?thesis by (auto simp: low_half_Some escape_plain)
next
  case (unicode h1 h2 h3 h4 t)
  then show ?thesis by (auto simp: low_half_Some hex_plain)
qed (simp add: low_half_def)

lemma unquote_html: "string_text r \<Longrightarrow> unquote (html_escape r) = unquote r"
proof (induction r rule: length_induct)
  case (1 r)
  then have IH: "string_text t \<Longrightarrow> length t < length r \<Longrightarrow> unquote (html_escape t) = unquote t" for t by blast
  from 1(2) show ?case
  proof (cases rule: html_cases)
    case (html c s)
    with IH [of s] html_ascii [of c] show ?thesis by (simp add: u_escape_unquote unquote_ascii)
  next
    case (line d s)
    with IH [of s] u_line_unquote [of d "html_escape s"] unquote_line [of d s] show ?thesis by auto
  next
    case (escape d s)
    with IH [of s] show ?thesis by (simp add: unquote_escape escape_plain)
  next
    case (unicode h1 h2 h3 h4 s)
    then have esc: "html_escape r = CHR 0x5C # CHR ''u'' # h1 # h2 # h3 # h4 # html_escape s" by (simp add: hex_plain)
    have s: "unquote (html_escape s) = unquote s" using unicode IH by simp
    show ?thesis
    proof (cases "low_half (hex4 h1 h2 h3 h4) s")
      case None
      moreover from this have "low_half (hex4 h1 h2 h3 h4) (html_escape s) = None"
        using low_half_html [OF unicode(6)] by (metis not_None_eq)
      ultimately show ?thesis using s unfolding esc unfolding unicode(1) unquote_unicode by (simp add: Let_def)
    next
      case (Some r2)
      then obtain k1 k2 k3 k4 t where t: "s = CHR 0x5C # CHR ''u'' # k1 # k2 # k3 # k4 # t"
        "is_hex k1" "is_hex k2" "is_hex k3" "is_hex k4" by (auto simp: low_half_Some)
      from unicode(6) t(1) have "string_text t" by (auto elim: string_text.cases)
      with IH [of t] unicode(1) t(1) have u: "unquote (html_escape t) = unquote t" by simp
      have e: "html_escape s = CHR 0x5C # CHR ''u'' # k1 # k2 # k3 # k4 # html_escape t" using t by (simp add: hex_plain)
      have "low_half (hex4 h1 h2 h3 h4) (html_escape s) = Some r2"
        using Some unfolding e unfolding t(1) low_half_Some by simp
      moreover have "unquote (drop 6 (html_escape s)) = unquote (drop 6 s)" using u by (simp add: e) (simp add: t(1))
      ultimately show ?thesis using Some s unfolding esc unfolding unicode(1) unquote_unicode by (simp add: Let_def)
    qed
  next
    case (plain c s)
    have eq: "html_escape r = c # html_escape s" using plain by simp
    show ?thesis
    proof (cases "rune_tail c s")
      case None
      then have "rune_tail c (html_escape s) = None" using rune_tail_cong [OF takeWhile_html] by simp
      with None plain IH [of s] show ?thesis by (simp add: eq unquote.simps(2))
    next
      case (Some n)
      then have h: "rune_tail c (html_escape s) = Some n" using rune_tail_cong [OF takeWhile_html] by simp
      from rune_tail_Some [OF Some] have cont: "\<forall>b \<in> set (take n s). cont_char b" and len: "n \<le> length s" by simp_all
      have "html_escape s = take n s @ html_escape (drop n s)" using html_cont [OF cont, of "drop n s"] by simp
      with len have split: "take n (html_escape s) = take n s" "drop n (html_escape s) = html_escape (drop n s)" by simp_all
      have "string_text (drop n s)" using text_cont [OF cont, of "drop n s"] plain by simp
      with IH [of "drop n s"] plain(1) have "unquote (html_escape (drop n s)) = unquote (drop n s)" by simp
      with Some h plain split show ?thesis by (simp add: eq unquote.simps(2))
    qed
  qed simp
qed

section \<open>Quoting\<close>

lemma valid_Nil [simp]: "utf8_valid []"
  by (simp add: utf8_valid_def)

lemma valid_Cons: "utf8_valid (c # s) \<longleftrightarrow> (\<exists>n. rune_tail c s = Some n \<and> utf8_valid (drop n s))"
  by (auto simp: utf8_valid_def rune_tail_def drop_map split: option.split)

lemma quote_ascii_text: "of_char c < (128 :: nat) \<Longrightarrow> string_text r \<Longrightarrow> string_text (quote_ascii c @ r)"
  by (simp add: quote_ascii_def simple_escape_def string_char string_escape u_escape_text)

lemma quote_ascii_unquote: "of_char c < (128 :: nat) \<Longrightarrow> unquote (quote_ascii c @ r) = c # unquote r"
proof -
  assume c: "of_char c < (128 :: nat)"
  have esc: "unquote (CHR 0x5C # d # r) = escape_char d # unquote r" if "simple_escape d" for d
    using that by (rule unquote_escape)
  show ?thesis
    using c by (auto simp: quote_ascii_def esc simple_escape_def escape_char_def u_escape_unquote unquote_ascii)
qed

lemma quote_rune:
  assumes "rune_tail c s = Some n" and "\<not> of_char c < (128 :: nat)"
  shows "string_text r \<Longrightarrow> string_text (c # take n s @ r)" "unquote (c # take n s @ r) = c # take n s @ unquote r"
proof -
  from rune_tail_Some [OF assms(1)] have n: "n \<le> length s" "\<forall>b \<in> set (take n s). cont_char b"
    and t: "rune_tail c (take n s @ r) = Some n" for r by simp_all
  from assms(2) have c: "\<not> c < CHR 0x20" "c \<noteq> CHR 0x22" "c \<noteq> CHR 0x5C" by (auto simp: less_char_def)
  show "string_text r \<Longrightarrow> string_text (c # take n s @ r)" using c n(2) by (simp add: string_char text_cont)
  show "unquote (c # take n s @ r) = c # take n s @ unquote r" using c n(1) t by (simp add: unquote.simps(2))
qed

lemma quote_text_text: "string_text (quote_text s)"
proof (induction s rule: quote_text.induct)
  case (2 c s)
  show ?case
  proof (cases "of_char c < (128 :: nat)")
    case True
    with 2(1) show ?thesis by (simp add: quote_ascii_text)
  next
    case False
    have u: "string_text (CHR 0x5C # CHR ''u'' # CHR ''f'' # CHR ''f'' # CHR ''f'' # CHR ''d'' # r)" if "string_text r" for r
      using that by (intro string_unicode) simp_all
    from False 2(2,3,4) quote_rune(1) [OF _ False] u show ?thesis
      by (auto simp: u_line_text split: option.split)
  qed
qed (simp add: string_empty)

lemma unquote_quote: "utf8_valid s \<Longrightarrow> unquote (quote_text s) = s"
proof (induction s rule: quote_text.induct)
  case (2 c s)
  show ?case
  proof (cases "of_char c < (128 :: nat)")
    case True
    with 2 show ?thesis by (auto simp: quote_ascii_unquote valid_Cons rune_tail_ascii)
  next
    case False
    from 2(5) obtain n where n: "rune_tail c s = Some n" "utf8_valid (drop n s)" by (auto simp: valid_Cons)
    show ?thesis
    proof (cases "line_separator c s")
      case True
      then obtain d t where t: "c = CHR 0xE2" "s = CHR 0x80 # d # t" "d = CHR 0xA8 \<or> d = CHR 0xA9"
        by (auto simp: line_separator_shape)
      with n line_rune [of d t] have "utf8_valid t" by auto
      with 2(2) [OF False True] t True u_line_unquote [OF t(3)] show ?thesis by simp
    next
      case line: False
      with False n 2(4) [OF False line n(1)] quote_rune(2) [OF n(1) False] show ?thesis by simp
    qed
  qed
qed simp

section \<open>What a text denotes is well-formed\<close>

lemma valid_append: "utf8_valid a \<Longrightarrow> utf8_valid b \<Longrightarrow> utf8_valid (a @ b)"
proof (induction a rule: length_induct)
  case (1 a)
  show ?case
  proof (cases a)
    case (Cons c s)
    with 1(2) obtain n where n: "rune_tail c s = Some n" "utf8_valid (drop n s)" by (auto simp: valid_Cons)
    from rune_tail_Some [OF n(1), of "drop n s @ b"] have t: "n \<le> length s" "rune_tail c (s @ b) = Some n"
      by (simp_all del: append_assoc add: append_assoc [symmetric])
    have "utf8_valid (drop n s @ b)" using 1 n Cons by simp
    with Cons t show ?thesis by (auto simp: valid_Cons)
  qed (use 1 in simp)
qed

lemma valid_rune: "rune_tail c s = Some n \<Longrightarrow> utf8_valid (c # take n s)"
  using rune_tail_Some [of c s n "[]"] by (auto simp: valid_Cons)

lemma of_char_byte: "n < 256 \<Longrightarrow> of_char (byte_at n) = n"
  by (simp add: byte_at_def)

lemma valid_three:
  "a < 16 \<Longrightarrow> b < 64 \<Longrightarrow> c < 64 \<Longrightarrow> (a = 0 \<Longrightarrow> 32 \<le> b) \<Longrightarrow> (a = 13 \<Longrightarrow> b \<le> 31) \<Longrightarrow>
    utf8_valid [byte_at (0xE0 + a), byte_at (0x80 + b), byte_at (0x80 + c)]"
  by (simp add: utf8_valid_def utf8_tail_def utf8_cont_def of_char_byte)

lemma valid_four:
  "a < 5 \<Longrightarrow> b < 64 \<Longrightarrow> c < 64 \<Longrightarrow> d < 64 \<Longrightarrow> (a = 0 \<Longrightarrow> 16 \<le> b) \<Longrightarrow> (a = 4 \<Longrightarrow> b \<le> 15) \<Longrightarrow>
    utf8_valid [byte_at (0xF0 + a), byte_at (0x80 + b), byte_at (0x80 + c), byte_at (0x80 + d)]"
  by (simp add: utf8_valid_def utf8_tail_def utf8_cont_def of_char_byte)

lemma valid_encode: "utf8_valid (encode_rune r)"
proof -
  have small: "k mod 64 < 64" for k :: nat by simp
  have rep: "utf8_valid replacement" by code_simp
  consider "r < 0x80" | "0x80 \<le> r" "r < 0x800" | "0x800 \<le> r" "is_surrogate r \<or> r > 0x10FFFF"
    | "0x800 \<le> r" "r < 0x10000" "\<not> is_surrogate r" | "0x10000 \<le> r" "r \<le> 0x10FFFF" by linarith
  then show ?thesis
  proof cases
    case 1
    then show ?thesis by (simp add: encode_rune_def utf8_valid_def utf8_tail_def of_char_byte)
  next
    case 2
    then have "r div 64 < 32" "2 \<le> r div 64" by linarith+
    with 2 small [of r] show ?thesis
      by (simp add: encode_rune_def utf8_valid_def utf8_tail_def utf8_cont_def of_char_byte)
  next
    case 3
    with rep show ?thesis by (auto simp: encode_rune_def is_surrogate_def)
  next
    case 4
    let ?a = "r div 4096" let ?b = "r div 64 mod 64"
    from 4 have a: "?a < 16" by linarith
    have "?a = r div 64 div 64" by (simp flip: div_mult2_eq)
    then have r: "r div 64 = ?a * 64 + ?b" using div_mult_mod_eq [of "r div 64" 64] by simp
    have low: "32 \<le> ?b" if "?a = 0" using 4(1) r that by linarith
    have high: "?b \<le> 31" if "?a = 13" using 4(3) r that by (auto simp: is_surrogate_def)
    have "utf8_valid [byte_at (0xE0 + ?a), byte_at (0x80 + ?b), byte_at (0x80 + r mod 64)]"
      using a low high by (intro valid_three) simp_all
    with 4 show ?thesis by (simp add: encode_rune_def)
  next
    case 5
    let ?a = "r div 262144" let ?b = "r div 4096 mod 64"
    from 5 have a: "?a < 5" by linarith
    have "?a = r div 4096 div 64" by (simp flip: div_mult2_eq)
    then have r: "r div 4096 = ?a * 64 + ?b" using div_mult_mod_eq [of "r div 4096" 64] by simp
    have "16 \<le> r div 4096" using div_le_mono [OF 5(1), of 4096] by simp
    moreover have "r div 4096 \<le> 271" using div_le_mono [OF 5(2), of 4096] by simp
    ultimately have low: "?a = 0 \<Longrightarrow> 16 \<le> ?b" and high: "?a = 4 \<Longrightarrow> ?b \<le> 15" using r by simp_all
    have "utf8_valid [byte_at (0xF0 + ?a), byte_at (0x80 + ?b), byte_at (0x80 + r div 64 mod 64), byte_at (0x80 + r mod 64)]"
      using a low high by (intro valid_four) simp_all
    moreover have "\<not> r < 0x80" "\<not> r < 0x800" "\<not> (is_surrogate r \<or> r > 0x10FFFF)" "\<not> r < 0x10000"
      using 5 by (simp_all add: is_surrogate_def)
    ultimately show ?thesis by (simp only: encode_rune_def if_False)
  qed
qed

lemma valid_escape: "simple_escape d \<Longrightarrow> utf8_valid s \<Longrightarrow> utf8_valid (escape_char d # s)"
proof -
  assume "simple_escape d" "utf8_valid s"
  have "\<forall>d \<in> set (''bfnrt/'' @ [CHR 0x5C, CHR 0x22]). of_char (escape_char d) < (128 :: nat)" by code_simp
  with \<open>simple_escape d\<close> have "of_char (escape_char d) < (128 :: nat)" by (auto simp: simple_escape_def)
  with \<open>utf8_valid s\<close> show ?thesis by (simp add: valid_Cons [of "escape_char d"] rune_tail_ascii)
qed

lemma unquote_valid: "string_text r \<Longrightarrow> utf8_valid (unquote r)"
proof (induction r rule: length_induct)
  case (1 r)
  then have IH: "string_text t \<Longrightarrow> length t < length r \<Longrightarrow> utf8_valid (unquote t)" for t by blast
  have rep: "utf8_valid replacement" by code_simp
  from 1(2) show ?case
  proof (cases rule: string_text.cases)
    case (string_char c s)
    show ?thesis
    proof (cases "rune_tail c s")
      case None
      with string_char IH [of s] rep show ?thesis by (simp add: unquote.simps(2) valid_append)
    next
      case (Some n)
      from rune_tail_Some [OF Some] have "\<forall>b \<in> set (take n s). cont_char b" by simp
      then have "string_text (drop n s)" using text_cont [of "take n s" "drop n s"] string_char by simp
      with string_char IH have "utf8_valid (unquote (drop n s))" by simp
      with valid_append [OF valid_rune [OF Some]] string_char Some show ?thesis by (simp add: unquote.simps(2))
    qed
  next
    case (string_escape d s)
    with IH [of s] show ?thesis by (simp add: unquote_escape valid_escape)
  next
    case (string_unicode h1 h2 h3 h4 s)
    have s: "utf8_valid (unquote s)" using string_unicode IH by simp
    have "utf8_valid (unquote (drop 6 s))" if "low_half (hex4 h1 h2 h3 h4) s = Some r2" for r2
    proof -
      from that obtain k1 k2 k3 k4 t where t: "s = CHR 0x5C # CHR ''u'' # k1 # k2 # k3 # k4 # t" by (auto simp: low_half_Some)
      with string_unicode(6) have "string_text t" by (auto elim: string_text.cases)
      with IH [of t] t string_unicode(1) show ?thesis by simp
    qed
    with s rep show ?thesis
      unfolding string_unicode(1) unquote_unicode
      by (auto simp: Let_def intro!: valid_append valid_encode split: option.split)
  qed simp
qed

lemma unquote_quote_unquote: "string_text r \<Longrightarrow> unquote (quote_text (unquote r)) = unquote r"
  by (simp add: unquote_quote unquote_valid)

section \<open>Values\<close>

lemma html_depth: "json_depth (html_json v) = json_depth v"
proof (induction v rule: html_json.induct)
  case (2 vs)
  then have "(\<lambda>v. json_depth (html_json v)) ` set vs = json_depth ` set vs" by (intro image_cong) simp_all
  then show ?case by (simp add: image_image)
next
  case (3 kvs)
  then have "(\<lambda>(k, v). json_depth (html_json v)) ` set kvs = (\<lambda>(k, v). json_depth v) ` set kvs"
    by (intro image_cong) auto
  then show ?case by (simp add: image_image split_def)
qed simp_all

lemma set_sep_by: "set (sep_by c tss) \<subseteq> insert c (\<Union> (set ` set tss))"
  by (induction c tss rule: sep_by.induct) auto

lemma set_sep_by_elem: "ts \<in> set tss \<Longrightarrow> set ts \<subseteq> set (sep_by c tss)"
  by (induction c tss rule: sep_by.induct) auto

definition tokens_ok :: "json \<Rightarrow> bool" where
  "tokens_ok v \<longleftrightarrow> (\<forall>t \<in> set (json_tokens v). token_ok t)"

lemma tokens_ok_simps [simp]:
  "tokens_ok JNull" "tokens_ok (JBool b)" "tokens_ok (JNumber r) \<longleftrightarrow> number_ok r" "tokens_ok (JString r) \<longleftrightarrow> string_text r"
  "tokens_ok (JArray vs) \<longleftrightarrow> (\<forall>v \<in> set vs. tokens_ok v)"
  "tokens_ok (JObject kvs) \<longleftrightarrow> (\<forall>(k, v) \<in> set kvs. string_text k \<and> tokens_ok v)"
proof -
  show "tokens_ok (JArray vs) \<longleftrightarrow> (\<forall>v \<in> set vs. tokens_ok v)"
    using set_sep_by [of TComma "map json_tokens vs"] set_sep_by_elem [of _ "map json_tokens vs" TComma]
    by (fastforce simp: tokens_ok_def)
  let ?m = "\<lambda>(k, v). TString k # TColon # json_tokens v"
  have "tokens_ok (JObject kvs) \<longleftrightarrow> (\<forall>ts \<in> set (map ?m kvs). \<forall>t \<in> set ts. token_ok t)"
    using set_sep_by [of TComma "map ?m kvs"] set_sep_by_elem [of _ "map ?m kvs" TComma]
    by (fastforce simp: tokens_ok_def)
  also have "\<dots> \<longleftrightarrow> (\<forall>(k, v) \<in> set kvs. string_text k \<and> tokens_ok v)"
    by (auto simp: tokens_ok_def string_ok_iff split_def)
  finally show "tokens_ok (JObject kvs) \<longleftrightarrow> (\<forall>(k, v) \<in> set kvs. string_text k \<and> tokens_ok v)" .
qed (simp_all add: tokens_ok_def string_ok_iff)

lemma json_ok_iff: "json_ok v \<longleftrightarrow> tokens_ok v \<and> json_depth v \<le> maxNestingDepth"
  by (simp add: json_ok_def tokens_ok_def)

lemma html_tokens: "tokens_ok v \<Longrightarrow> tokens_ok (html_json v)"
  by (induction v rule: html_json.induct) (auto simp: html_escape_text)

lemma html_ok: "json_ok v \<Longrightarrow> json_ok (html_json v)"
  by (simp add: json_ok_iff html_depth html_tokens)

section \<open>Raw messages\<close>

lemma lex_texts_token:
  assumes "token_ok t" and "(\<exists>r. t = TNumber r) \<Longrightarrow> stops s"
  shows "lex_texts (token_text t @ s) = token_text t # lex_texts s"
proof -
  obtain c r where c: "token_text t = c # r" "\<not> is_space c" "scan_token c (r @ s) = Some (t, s)"
    using scan_token_text [OF assms] by blast
  then show ?thesis by simp
qed

lemma lex_texts_tokens: "\<forall>t \<in> set ts. token_ok t \<Longrightarrow> separated ts \<Longrightarrow> lex_texts (tokens_text ts) = map token_text ts"
proof (induction ts)
  case (Cons t ts)
  have sep: "separated ts" and st: "(\<exists>r. t = TNumber r) \<Longrightarrow> stops (tokens_text ts)"
    using Cons.prems(2) by (cases t; cases ts; force simp: tokens_text_def stops_def split: list.split_asm)+
  from Cons.IH sep Cons.prems(1) have "lex_texts (tokens_text ts) = map token_text ts" by simp
  with lex_texts_token [of t "tokens_text ts"] Cons.prems(1) st show ?case by (simp add: tokens_text_def)
qed (simp add: tokens_text_def)

lemma print_head: "tokens_ok v \<Longrightarrow> \<exists>c s. print_json v = c # s \<and> \<not> is_space c"
proof -
  assume ok: "tokens_ok v"
  obtain t ts where t: "json_tokens v = t # ts" by (cases v) auto
  with ok have "token_ok t" by (simp add: tokens_ok_def)
  moreover have "stops []" by (simp add: stops_def)
  ultimately obtain c r where "token_text t = c # r" "\<not> is_space c" using scan_token_text [of t "[]"] by blast
  with t show ?thesis by (simp add: print_json_def tokens_text_def)
qed

definition member_tokens :: "bytes \<times> json \<Rightarrow> token list" where
  "member_tokens = (\<lambda>(k, v). TString k # TColon # json_tokens v)"

lemma raw_members_printed:
  assumes "\<forall>(k, v) \<in> set kvs. tokens_ok v"
  shows "raw_members kvs (map token_text (sep_by TComma (map member_tokens kvs) @ ts)) = map (\<lambda>(k, v). (k, print_json v)) kvs"
  using assms
proof (induction kvs)
  case (Cons kv kvs)
  obtain k v where kv: "kv = (k, v)" by force
  let ?n = "length (json_tokens v)"
  from Cons.prems kv print_head [of v] have raw: "dropWhile is_space (print_json v) = print_json v" by auto
  have printed: "concat (map token_text (json_tokens v)) = print_json v" by (simp add: print_json_def tokens_text_def)
  show ?case
  proof (cases kvs)
    case Nil
    with kv raw printed show ?thesis by (simp add: member_tokens_def)
  next
    case (Cons kv' kvs')
    have "sep_by TComma (map member_tokens (kv # kvs)) @ ts =
        TString k # TColon # json_tokens v @ TComma # sep_by TComma (map member_tokens kvs) @ ts"
      by (simp add: kv Cons member_tokens_def)
    with Cons.IH Cons.prems kv raw printed show ?thesis by (simp add: kv numeral_3_eq_3)
  qed
qed simp

lemma raw_printed:
  assumes "json_ok (JObject kvs)"
  shows "raw_field name (print_json (JObject kvs)) =
    fold (\<lambda>(k, v) old. if fold_name (unquote k) = fold_name name then print_json v else old) kvs []"
proof -
  have ok: "tokens_ok (JObject kvs)" using assms by (simp add: json_ok_iff)
  have texts: "lex_texts (print_json (JObject kvs)) = map token_text (json_tokens (JObject kvs))"
    using ok separated_tokens [of "JObject kvs"] unfolding print_json_def by (intro lex_texts_tokens) (simp_all only: tokens_ok_def)
  have "json_tokens (JObject kvs) = TLBrace # sep_by TComma (map member_tokens kvs) @ [TRBrace]" by (simp add: member_tokens_def)
  then have "drop 1 (lex_texts (print_json (JObject kvs))) = map token_text (sep_by TComma (map member_tokens kvs) @ [TRBrace])"
    by (simp add: texts del: json_tokens.simps)
  moreover have "\<forall>(k, v) \<in> set kvs. tokens_ok v" using ok by auto
  ultimately have "raw_members kvs (drop 1 (lex_texts (print_json (JObject kvs)))) = map (\<lambda>(k, v). (k, print_json v)) kvs"
    using raw_members_printed [of kvs "[TRBrace]"] by (simp only:)
  then show ?thesis
    by (simp add: raw_field_def parse_print [OF assms] fold_map o_def split_def del: fold_map)
      (simp add: fold_map o_def split_def)
qed

end
