(* ===== verification/Codex_Decode.thy ===== *)
theory Codex_Decode
  imports Codex_Stream Json_Strings
begin

text \<open>
  How the decoders of the Codex structs read the members of an object, and that the canonical
  text of a response item is read as the item was, when no two names of the item differ in case
  only. The contract of a string field of a struct is the locale \<open>string_member\<close>.
\<close>

section \<open>A string field of a struct\<close>

definition string_value :: "string \<Rightarrow> (bytes \<times> json) list \<Rightarrow> string \<Rightarrow> string" where
  "string_value name kvs old =
    fold (\<lambda>(k, v) old. if fold_name (unquote k) = fold_name name
      then (case v of JString r \<Rightarrow> unquote r | _ \<Rightarrow> old) else old) kvs old"

lemma string_value_simps [simp]:
  "string_value n [] old = old"
  "string_value n ((k, v) # kvs) old = string_value n kvs
    (if fold_name (unquote k) = fold_name n then (case v of JString r \<Rightarrow> unquote r | _ \<Rightarrow> old) else old)"
  by (simp_all add: string_value_def)

definition stringlike :: "json \<Rightarrow> bool" where
  "stringlike v \<longleftrightarrow> v = JNull \<or> (\<exists>r. v = JString r)"

lemma string_field_Some: "string_field upd v z = Some z' \<Longrightarrow> stringlike v"
  by (cases v) (auto simp: string_field_def stringlike_def)

lemma stringlike_field: "stringlike v \<Longrightarrow> \<exists>z'. string_field upd v z = Some z'"
  by (auto simp: string_field_def stringlike_def)

locale string_member =
  fixes fields :: "'s fields" and name :: string and upd :: "(string \<Rightarrow> string) \<Rightarrow> 's \<Rightarrow> 's" and get :: "'s \<Rightarrow> string"
  assumes own: "fold_name (unquote k) = fold_name name \<Longrightarrow> field_of fields k = Some (string_field upd)"
    and others: "field_of fields k = Some f \<Longrightarrow> fold_name (unquote k) \<noteq> fold_name name \<Longrightarrow> f v z = Some z' \<Longrightarrow> get z' = get z"
    and get_upd: "get (upd (\<lambda>_. x) z) = x"
begin

lemma decoded: "decode_members fields kvs z = Some z' \<Longrightarrow> get z' = string_value name kvs (get z)"
proof (induction kvs arbitrary: z)
  case (Cons kv kvs)
  obtain k v where kv: "kv = (k, v)" by force
  show ?case
  proof (cases "fold_name (unquote k) = fold_name name")
    case True
    with Cons kv own [of k] show ?thesis
      by (cases v) (auto simp: string_field_def get_upd split: option.split_asm)
  next
    case False
    with Cons kv others [of k] show ?thesis by (fastforce split: option.split_asm)
  qed
qed simp

lemma fits: "decode_members fields kvs z = Some z' \<Longrightarrow> (k, v) \<in> set kvs \<Longrightarrow> fold_name (unquote k) = fold_name name \<Longrightarrow> stringlike v"
proof (induction kvs arbitrary: z)
  case (Cons kv kvs)
  obtain k1 v1 where kv: "kv = (k1, v1)" by force
  with Cons.prems(1) obtain z1 where rest: "decode_members fields kvs z1 = Some z'"
    and one: "fold_name (unquote k1) = fold_name name \<Longrightarrow> stringlike v1"
    using own [of k1] by (fastforce split: option.split_asm dest: string_field_Some)
  from Cons.prems(2,3) Cons.IH [OF rest] one kv show ?case by auto
qed simp

end

lemma fold_names [simp]:
  "fold_name ''type'' = ''TYPE''" "fold_name ''call_id'' = ''CALL_ID''" "fold_name ''name'' = ''NAME''"
  "fold_name ''arguments'' = ''ARGUMENTS''" "fold_name ''id'' = ''ID''" "fold_name ''content'' = ''CONTENT''"
  "fold_name ''status'' = ''STATUS''"
  by code_simp+

lemma state_field_of:
  "field_of state_fields k =
    (let n = fold_name (unquote k) in
     if n = ''TYPE'' then Some (string_field st_type_update) else if n = ''CALL_ID'' then Some (string_field st_call_id_update)
     else if n = ''NAME'' then Some (string_field st_name_update)
     else if n = ''ARGUMENTS'' then Some (string_field st_arguments_update) else None)"
  by (auto simp: field_of_def state_fields_def Let_def)

lemma item_field_of:
  "field_of output_item_fields k =
    (let n = fold_name (unquote k) in
     if n = ''ID'' then Some (string_field oi_id_update) else if n = ''TYPE'' then Some (string_field oi_type_update)
     else if n = ''NAME'' then Some (string_field oi_name_update)
     else if n = ''ARGUMENTS'' then Some (string_field oi_arguments_update)
     else if n = ''CALL_ID'' then Some (string_field oi_call_id_update)
     else if n = ''CONTENT'' then Some (slice_field oi_content_update no_output_content content_fields) else None)"
  by (auto simp: field_of_def output_item_fields_def Let_def)

lemma string_field_frame:
  "string_field upd v z = Some z' \<Longrightarrow> (\<And>x. get (upd (\<lambda>_. x) z) = get z) \<Longrightarrow> get z' = get z"
  by (cases v) (auto simp: string_field_def)

lemma slice_field_frame:
  "slice_field upd zero fs v z = Some z' \<Longrightarrow> (\<And>x. get (upd (\<lambda>_. x) z) = get z) \<Longrightarrow> get z' = get z"
  by (cases v) (auto simp: slice_field_def)

lemmas frames = string_field_frame slice_field_frame

interpretation state_type: string_member state_fields "''type''" st_type_update st_type
  by unfold_locales (auto simp: state_field_of Let_def split: if_split_asm elim!: string_field_frame)

interpretation state_call_id: string_member state_fields "''call_id''" st_call_id_update st_call_id
  by unfold_locales (auto simp: state_field_of Let_def split: if_split_asm elim!: string_field_frame)

interpretation state_name: string_member state_fields "''name''" st_name_update st_name
  by unfold_locales (auto simp: state_field_of Let_def split: if_split_asm elim!: string_field_frame)

interpretation state_arguments: string_member state_fields "''arguments''" st_arguments_update st_arguments
  by unfold_locales (auto simp: state_field_of Let_def split: if_split_asm elim!: string_field_frame)

interpretation item_type: string_member output_item_fields "''type''" oi_type_update oi_type
  by unfold_locales (auto simp: item_field_of Let_def split: if_split_asm elim!: frames)

interpretation item_call_id: string_member output_item_fields "''call_id''" oi_call_id_update oi_call_id
  by unfold_locales (auto simp: item_field_of Let_def split: if_split_asm elim!: frames)

interpretation item_name: string_member output_item_fields "''name''" oi_name_update oi_name
  by unfold_locales (auto simp: item_field_of Let_def split: if_split_asm elim!: frames)

interpretation item_arguments: string_member output_item_fields "''arguments''" oi_arguments_update oi_arguments
  by unfold_locales (auto simp: item_field_of Let_def split: if_split_asm elim!: frames)

lemma decode_members_Some:
  "\<forall>(k, v) \<in> set kvs. \<forall>f z. field_of fs k = Some f \<longrightarrow> (\<exists>z'. f v z = Some z') \<Longrightarrow>
    \<exists>z'. decode_members fs kvs z = Some z'"
proof (induction kvs arbitrary: z)
  case (Cons kv kvs)
  obtain k v where kv: "kv = (k, v)" by force
  have IH: "\<exists>z'. decode_members fs kvs z = Some z'" for z using Cons by simp
  show ?case
  proof (cases "field_of fs k")
    case (Some f)
    with Cons.prems kv obtain z1 where "f v z = Some z1" by fastforce
    with Some kv IH show ?thesis by simp
  qed (simp add: kv IH)
qed simp

text \<open>The members that a state reads are \<open>null\<close> or strings.\<close>

definition state_names :: "string set" where
  "state_names = {''TYPE'', ''CALL_ID'', ''NAME'', ''ARGUMENTS''}"

lemma state_decodes:
  assumes "\<forall>(k, v) \<in> set kvs. fold_name (unquote k) \<in> state_names \<longrightarrow> stringlike v"
  shows "\<exists>s. decode_members state_fields kvs z = Some s"
  using assms
  by (intro decode_members_Some) (auto simp: state_field_of Let_def state_names_def split: if_split_asm dest!: bspec intro: stringlike_field)

lemma item_decoded_fits:
  assumes "decode_members output_item_fields kvs z = Some item"
  shows "\<forall>(k, v) \<in> set kvs. fold_name (unquote k) \<in> state_names \<longrightarrow> stringlike v"
  using item_type.fits [OF assms] item_call_id.fits [OF assms] item_name.fits [OF assms] item_arguments.fits [OF assms]
  by (auto simp: state_names_def)

section \<open>The canonical text of an item\<close>

definition folded :: "(bytes \<times> json) list \<Rightarrow> string list" where
  "folded kvs = map (\<lambda>(k, v). fold_name (unquote k)) kvs"

text \<open>No two names of an object differ in case only.\<close>

definition unambiguous :: "(bytes \<times> json) list \<Rightarrow> bool" where
  "unambiguous kvs \<longleftrightarrow> distinct (folded kvs)"

lemma string_value_absent: "fold_name n \<notin> set (folded kvs) \<Longrightarrow> string_value n kvs old = old"
  by (induction kvs arbitrary: old) (auto simp: folded_def)

lemma string_value_unique:
  "unambiguous kvs \<Longrightarrow> (k, v) \<in> set kvs \<Longrightarrow> fold_name (unquote k) = fold_name n \<Longrightarrow>
    string_value n kvs old = (case v of JString r \<Rightarrow> unquote r | _ \<Rightarrow> old)"
proof (induction kvs arbitrary: old)
  case (Cons kv kvs)
  obtain k1 v1 where kv: "kv = (k1, v1)" by force
  show ?case
  proof (cases "(k, v) \<in> set kvs")
    case True
    then have "fold_name (unquote k) \<in> set (folded kvs)" by (force simp: folded_def)
    with Cons kv True show ?thesis by (auto simp: unambiguous_def folded_def)
  next
    case False
    with Cons.prems kv have eq: "k1 = k" "v1 = v" by auto
    have "fold_name n \<notin> set (folded kvs)" using Cons.prems kv eq by (auto simp: unambiguous_def folded_def)
    with Cons.prems kv eq show ?thesis by (simp add: string_value_absent)
  qed
qed simp

text \<open>The members that a canonical text has.\<close>

definition canonical_members :: "(bytes \<times> json) list \<Rightarrow> (bytes \<times> json) list" where
  "canonical_members kvs = map (\<lambda>(k, v). (quote_text k, html_json v))
    (sort_key fst (AList.delete ''status'' (AList.delete ''id'' (object_map kvs))))"

lemma canonical_text:
  "parse_json t = Some (JObject kvs) \<Longrightarrow> canonicalResponseState t = Inr (print_json (JObject (canonical_members kvs)))"
  by (simp add: canonicalResponseState_def marshal_map_def canonical_members_def)

lemma canonical_Inr:
  assumes "canonicalResponseState t = Inr c"
  obtains kvs where "parse_json t = Some (JObject kvs)" "c = print_json (JObject (canonical_members kvs))"
  using assms canonical_text [of t]
  by (auto simp: canonicalResponseState_def split: option.split_asm json.split_asm)

lemma object_map_set: "set (map snd (object_map kvs)) \<subseteq> snd ` set kvs"
proof -
  have "set (map snd (fold (\<lambda>(k, v). AList.update (unquote k) v) kvs m)) \<subseteq> snd ` set kvs \<union> snd ` set m" for m
  proof (induction kvs arbitrary: m)
    case (Cons kv kvs)
    obtain k v where kv: "kv = (k, v)" by force
    have "snd ` set (AList.update (unquote k) v m) \<subseteq> insert v (snd ` set m)"
      by (induction m) auto
    with Cons [of "AList.update (unquote k) v m"] kv show ?case by auto
  qed simp
  from this [of "[]"] show ?thesis by (simp add: object_map_def)
qed

lemma object_depth: "json_depth (JObject kvs) \<le> n \<longleftrightarrow> 0 < n \<and> (\<forall>v \<in> snd ` set kvs. Suc (json_depth v) \<le> n)"
proof -
  have "finite ((\<lambda>(k, v). json_depth v) ` set kvs)" by simp
  then have "Max (insert 0 ((\<lambda>(k, v). json_depth v) ` set kvs)) \<le> m \<longleftrightarrow> (\<forall>v \<in> snd ` set kvs. json_depth v \<le> m)" for m
    by (auto simp: split_def)
  then show ?thesis by (cases n) auto
qed

lemma canonical_ok:
  assumes "json_ok (JObject kvs)"
  shows "json_ok (JObject (canonical_members kvs))"
proof -
  let ?m = "AList.delete ''status'' (AList.delete ''id'' (object_map kvs))"
  have sub: "snd ` set ?m \<subseteq> snd ` set kvs" using object_map_set [of kvs] by (force simp: AList.delete_eq)
  from assms have t: "tokens_ok (JObject kvs)" and d: "json_depth (JObject kvs) \<le> maxNestingDepth"
    by (simp_all only: json_ok_iff)
  have "tokens_ok v \<and> Suc (json_depth v) \<le> maxNestingDepth" if "v \<in> snd ` set ?m" for v
  proof -
    from that sub have "v \<in> snd ` set kvs" by blast
    with t d show ?thesis unfolding object_depth by fastforce
  qed
  then have m: "tokens_ok v \<and> Suc (json_depth v) \<le> maxNestingDepth" if "(k, v) \<in> set ?m" for k v using that by force
  have "tokens_ok (JObject (canonical_members kvs))"
    using m by (auto simp: canonical_members_def quote_text_text html_tokens)
  moreover have "\<forall>v \<in> snd ` set (canonical_members kvs). Suc (json_depth v) \<le> maxNestingDepth"
    using m by (auto simp: canonical_members_def html_depth)
  ultimately show ?thesis unfolding json_ok_iff object_depth by (simp add: maxNestingDepth_def)
qed

lemma canonical_parse:
  "parse_json t = Some (JObject kvs) \<Longrightarrow>
    parse_json (print_json (JObject (canonical_members kvs))) = Some (JObject (canonical_members kvs))"
  by (intro parse_print canonical_ok parse_json_ok)

lemma update_fresh_key: "k \<notin> set (map fst xs) \<Longrightarrow> AList.update k v xs = xs @ [(k, v)]"
  by (induction xs) auto

lemma object_map_distinct:
  assumes "distinct (map (\<lambda>(k, v). unquote k) kvs)"
  shows "object_map kvs = map (\<lambda>(k, v). (unquote k, v)) kvs"
proof -
  have "distinct (map fst m @ map (\<lambda>(k, v). unquote k) kvs) \<Longrightarrow>
      fold (\<lambda>(k, v). AList.update (unquote k) v) kvs m = m @ map (\<lambda>(k, v). (unquote k, v)) kvs" for m
  proof (induction kvs arbitrary: m)
    case (Cons kv kvs)
    obtain k v where kv: "kv = (k, v)" by force
    with Cons.prems have "AList.update (unquote k) v m = m @ [(unquote k, v)]"
      by (intro update_fresh_key) auto
    with Cons.IH [of "m @ [(unquote k, v)]"] Cons.prems kv show ?case by auto
  qed simp
  from this [of "[]"] assms show ?thesis by (simp add: object_map_def)
qed

lemma folded_names_distinct:
  assumes "unambiguous kvs"
  shows "distinct (map (\<lambda>(k, v). unquote k) kvs)"
proof -
  have "folded kvs = map fold_name (map (\<lambda>(k, v). unquote k) kvs)" by (simp add: folded_def split_def o_def)
  with assms show ?thesis unfolding unambiguous_def by (metis distinct_map)
qed

lemma canonical_unambiguous:
  assumes un: "unambiguous kvs" and tok: "tokens_ok (JObject kvs)"
  shows "set (canonical_members kvs) =
      (\<lambda>(k, v). (quote_text (unquote k), html_json v)) ` {(k, v) \<in> set kvs. unquote k \<noteq> ''id'' \<and> unquote k \<noteq> ''status''}"
    and "unambiguous (canonical_members kvs)"
proof -
  let ?u = "map (\<lambda>(k, v). (unquote k, v)) kvs"
  have om: "object_map kvs = ?u" by (rule object_map_distinct [OF folded_names_distinct [OF un]])
  show "set (canonical_members kvs) =
      (\<lambda>(k, v). (quote_text (unquote k), html_json v)) ` {(k, v) \<in> set kvs. unquote k \<noteq> ''id'' \<and> unquote k \<noteq> ''status''}"
    by (force simp: canonical_members_def om AList.delete_eq)
  have keys: "unquote (quote_text k) = k" if "k \<in> fst ` set ?u" for k
    using that tok by (auto simp: unquote_quote_unquote)
  let ?d = "AList.delete ''status'' (AList.delete ''id'' ?u)"
  have "folded (canonical_members kvs) = map (\<lambda>(k, v). fold_name k) (sort_key fst ?d)"
    using keys by (auto simp: folded_def canonical_members_def om AList.delete_eq split_def)
  moreover have "distinct (map (\<lambda>(k, v). fold_name k) ?u)"
    using un by (simp add: unambiguous_def folded_def split_def o_def)
  then have "distinct (map (\<lambda>(k, v). fold_name k) ?d)"
    by (simp add: AList.delete_eq distinct_map_filterI)
  ultimately show "unambiguous (canonical_members kvs)" by (simp add: unambiguous_def distinct_map_sort_key)
qed

lemma canonical_value:
  assumes un: "unambiguous kvs" and tok: "tokens_ok (JObject kvs)"
    and n: "fold_name n \<noteq> ''ID''" "fold_name n \<noteq> ''STATUS''"
  shows "string_value n (canonical_members kvs) old = string_value n kvs old"
proof (cases "fold_name n \<in> set (folded kvs)")
  case True
  then obtain k v where kv: "(k, v) \<in> set kvs" "fold_name (unquote k) = fold_name n" by (auto simp: folded_def)
  with n have "unquote k \<noteq> ''id''" "unquote k \<noteq> ''status''" by auto
  with kv have "(quote_text (unquote k), html_json v) \<in> set (canonical_members kvs)"
    unfolding canonical_unambiguous(1) [OF un tok] by force
  moreover have key: "string_text k" and v: "tokens_ok v" using kv(1) tok by fastforce+
  from v have "(case html_json v of JString r \<Rightarrow> unquote r | _ \<Rightarrow> old) = (case v of JString r \<Rightarrow> unquote r | _ \<Rightarrow> old)"
    by (cases v) (simp_all add: unquote_html)
  ultimately show ?thesis
    using string_value_unique [OF un kv(1,2)] string_value_unique [OF canonical_unambiguous(2) [OF un tok]] kv(2) key
    by (simp add: unquote_quote_unquote)
next
  case False
  have "fold_name n \<notin> set (folded (canonical_members kvs))"
  proof
    assume "fold_name n \<in> set (folded (canonical_members kvs))"
    then obtain k' v' where "(k', v') \<in> set (canonical_members kvs)" "fold_name (unquote k') = fold_name n" by (auto simp: folded_def)
    then obtain k v where k: "(k, v) \<in> set kvs" "k' = quote_text (unquote k)" unfolding canonical_unambiguous(1) [OF un tok] by auto
    moreover have "string_text k" using k(1) tok by fastforce
    ultimately have "fold_name (unquote k) = fold_name n" using \<open>fold_name (unquote k') = fold_name n\<close> by (simp add: unquote_quote_unquote)
    with k(1) have "fold_name n \<in> set (folded kvs)" by (force simp: folded_def)
    with False show False ..
  qed
  with False show ?thesis by (simp add: string_value_absent)
qed

section \<open>Reading the canonical text back\<close>

definition state_of :: "output_item \<Rightarrow> response_state" where
  "state_of item = \<lparr>st_type = oi_type item, st_call_id = oi_call_id item, st_name = oi_name item, st_arguments = oi_arguments item\<rparr>"

lemma canonical_state:
  assumes p: "parse_json t = Some (JObject kvs)" and un: "unambiguous kvs"
    and item: "unmarshal output_item_fields t no_output_item = Some item"
    and c: "canonicalResponseState t = Inr c"
  shows "unmarshal state_fields c no_state = Some (state_of item) \<and> json_valid c \<and> c \<noteq> [] \<and>
    canonicalResponseState c = Inr (print_json (JObject (canonical_members (canonical_members kvs))))"
proof -
  let ?ms = "canonical_members kvs"
  from c canonical_text [OF p] have eq: "c = print_json (JObject ?ms)" by simp
  have pc: "parse_json c = Some (JObject ?ms)" using canonical_parse [OF p] eq by simp
  have tok: "tokens_ok (JObject kvs)" using parse_json_ok [OF p] by (simp add: json_ok_iff)
  from item p have dec: "decode_members output_item_fields kvs no_output_item = Some item"
    by (simp add: unmarshal_def decode_struct_def)
  have "\<forall>(k, v) \<in> set ?ms. fold_name (unquote k) \<in> state_names \<longrightarrow> stringlike v"
  proof clarify
    fix k' v' assume m: "(k', v') \<in> set ?ms" and n: "fold_name (unquote k') \<in> state_names"
    then obtain k v where kv: "(k, v) \<in> set kvs" "k' = quote_text (unquote k)" "v' = html_json v"
      unfolding canonical_unambiguous(1) [OF un tok] by auto
    have "string_text k" using kv(1) tok by fastforce
    with n kv(2) have "fold_name (unquote k) \<in> state_names" by (simp add: unquote_quote_unquote)
    with item_decoded_fits [OF dec] kv(1) have "stringlike v" by fastforce
    with kv(3) show "stringlike v'" by (auto simp: stringlike_def)
  qed
  from state_decodes [OF this] obtain s where s: "decode_members state_fields ?ms no_state = Some s" by blast
  note val_eq = canonical_value [OF un tok]
  have "s = state_of item"
    using state_type.decoded [OF s] state_call_id.decoded [OF s] state_name.decoded [OF s] state_arguments.decoded [OF s]
      item_type.decoded [OF dec] item_call_id.decoded [OF dec] item_name.decoded [OF dec] item_arguments.decoded [OF dec]
    by (simp add: val_eq state_of_def no_state_def no_output_item_def)
  with s pc show ?thesis
    by (simp add: unmarshal_def decode_struct_def json_valid_def canonical_text eq [symmetric])
      (simp add: eq print_json_def tokens_text_def)
qed

end
