(* ===== verification/Codex_Stream_Proofs.thy ===== *)
theory Codex_Stream_Proofs
  imports Codex_Decode
begin

text \<open>
  What the handlers of a stream build: the invariant of the state of a response, with the items
  it was built from, its preservation by every handler, and the text that its consumer has been
  given. Then the decoder of server-sent events: it gives back the events that were written.
\<close>

section \<open>Effects\<close>

lemma eff_bind_Inr:
  "eff_bind m f out = (out', Inr y) \<longleftrightarrow> (\<exists>out1 x. m out = (out1, Inr x) \<and> f x out1 = (out', Inr y))"
  by (auto simp: eff_bind_def split: prod.splits sum.splits)

lemma pure_r_Inr [simp]: "pure_r r out = (out', Inr y) \<longleftrightarrow> out' = out \<and> r = Inr y"
  by (auto simp: pure_r_def)

text \<open>The text that the consumer has been given.\<close>

definition yielded :: "delivery list \<Rightarrow> string" where
  "yielded out = concat (map (\<lambda>d. case d of Yielded s \<Rightarrow> s | Emitted _ _ \<Rightarrow> '''') out)"

lemma yielded_simps [simp]:
  "yielded [] = ''''" "yielded (out @ out') = yielded out @ yielded out'"
  "yielded [Yielded s] = s" "yielded [Emitted i ev] = ''''"
  by (simp_all add: yielded_def)

lemma emit_from_yielded: "emit_from i sinks ev out = (out', r) \<Longrightarrow> yielded out' = yielded out"
  by (induction i sinks ev out rule: emit_from.induct) (auto split: option.split_asm)

lemma emitEvent_yielded: "emitEvent sinks ev out = (out', r) \<Longrightarrow> yielded out' = yielded out"
  by (simp add: emitEvent_def emit_from_yielded)

section \<open>The items of a response\<close>

definition item_of :: "bytes \<Rightarrow> output_item" where
  "item_of t = (case unmarshal output_item_fields t no_output_item of Some item \<Rightarrow> item | None \<Rightarrow> no_output_item)"

definition canonical_of :: "bytes \<Rightarrow> bytes" where
  "canonical_of t = (case canonicalResponseState t of Inr c \<Rightarrow> c | Inl _ \<Rightarrow> [])"

definition state_part :: "bytes \<Rightarrow> part" where
  "state_part t = \<lparr>pt_type = response_item, pt_text = canonical_of t, pt_ref = None\<rparr>"

definition item_ok :: "bytes \<Rightarrow> bool" where
  "item_ok t \<longleftrightarrow> unmarshal output_item_fields t no_output_item = Some (item_of t) \<and>
    canonicalResponseState t = Inr (canonical_of t) \<and>
    (oi_type (item_of t) = ''reasoning'' \<or>
     oi_type (item_of t) = ''function_call'' \<and> oi_call_id (item_of t) \<noteq> '''' \<and> oi_name (item_of t) \<noteq> '''' \<and>
       json_valid (oi_arguments (item_of t)))"

definition item_call :: "bytes \<Rightarrow> call option" where
  "item_call t = (if oi_type (item_of t) = ''function_call''
    then Some \<lparr>cl_id = oi_call_id (item_of t), cl_name = oi_name (item_of t), cl_arguments = oi_arguments (item_of t),
      cl_arguments_ref = '''', cl_source_ref = providerName\<rparr>
    else None)"

definition stream_inv :: "bytes list \<Rightarrow> stream_result \<Rightarrow> bool" where
  "stream_inv items r \<longleftrightarrow> (\<forall>t \<in> set items. item_ok t) \<and> sr_state_parts r = map state_part items \<and>
    sr_calls r = List.map_filter item_call items \<and> distinct (map cl_id (sr_calls r)) \<and>
    set (sr_seen_call_ids r) = cl_id ` set (sr_calls r) \<and>
    sr_state_bytes r = sum_list (map (\<lambda>p. length (pt_text p)) (sr_state_parts r)) \<and> sr_state_bytes r \<le> maxOutputBytes \<and>
    length (sr_text r) \<le> maxOutputBytes \<and> (sr_text r \<noteq> '''' \<longrightarrow> sr_text_started r) \<and>
    sr_text_state_at r \<le> length (sr_state_parts r)"

lemma stream_inv_new: "stream_inv [] (new_result model)"
  by (simp add: stream_inv_def new_result_def List.map_filter_def)

text \<open>The fields that the other handlers change are none of the invariant's.\<close>

definition same_core :: "stream_result \<Rightarrow> stream_result \<Rightarrow> bool" where
  "same_core r r' \<longleftrightarrow> sr_state_parts r' = sr_state_parts r \<and> sr_calls r' = sr_calls r \<and>
    sr_seen_call_ids r' = sr_seen_call_ids r \<and> sr_state_bytes r' = sr_state_bytes r \<and> sr_text r' = sr_text r \<and>
    sr_text_started r' = sr_text_started r \<and> sr_text_state_at r' = sr_text_state_at r"

lemma same_core_inv: "same_core r r' \<Longrightarrow> stream_inv items r \<Longrightarrow> stream_inv items r'"
  by (auto simp: same_core_def stream_inv_def)

text \<open>
  One handler: the invariant is kept, with the item of the event added or not, and what is added
  to the text is what the consumer is given, when there is one.
\<close>

definition keeps :: "consumer \<Rightarrow> bytes set \<Rightarrow> stream_result \<Rightarrow> delivery list \<Rightarrow> stream_result \<Rightarrow> delivery list \<Rightarrow> bool" where
  "keeps cs new r out r' out' \<longleftrightarrow>
    (\<forall>items. stream_inv items r \<longrightarrow> (\<exists>more. stream_inv (items @ more) r' \<and> set more \<subseteq> new)) \<and>
    (\<exists>added. sr_text r' = sr_text r @ added \<and> (cs_yield cs \<noteq> None \<longrightarrow> yielded out' = yielded out @ added))"

lemma keepsI_core: "same_core r r' \<Longrightarrow> yielded out' = yielded out \<Longrightarrow> keeps cs new r out r' out'"
  using same_core_inv [of r r'] by (auto simp: keeps_def same_core_def intro!: exI [of _ "[]"])

lemma keeps_trans:
  "keeps cs new r out r1 out1 \<Longrightarrow> keeps cs new r1 out1 r2 out2 \<Longrightarrow> keeps cs new r out r2 out2"
  unfolding keeps_def
  by (elim conjE exE, intro conjI allI impI) (metis (no_types, opaque_lifting) append.assoc le_sup_iff set_append, force)

lemma keeps_mono: "keeps cs new r out r' out' \<Longrightarrow> new \<subseteq> new' \<Longrightarrow> keeps cs new' r out r' out'"
  unfolding keeps_def by blast

lemma keeps_refl: "keeps cs new r out r out"
  by (rule keepsI_core) (simp_all add: same_core_def)

subsection \<open>Text\<close>

lemma appendText_Inr:
  assumes "appendText value r = Inr r'"
  shows "sr_text r' = sr_text r @ value \<and> sr_saw_refusal r' = sr_saw_refusal r \<and> sr_completed r' = sr_completed r \<and>
    (stream_inv items r \<longrightarrow> stream_inv items r')"
  using assms by (auto simp: appendText_def Let_def stream_inv_def split: if_split_asm)

lemma yield_text_Inr:
  "yield_text cs value out = (out', Inr u) \<Longrightarrow>
    (cs_yield cs \<noteq> None \<longrightarrow> yielded out' = yielded out @ value)"
  by (auto simp: yield_text_def split: option.split_asm)

lemma deliver_text_keeps:
  assumes "deliver_text cs value r out = (out', Inr r')"
  shows "keeps cs new r out r' out' \<and> sr_completed r' = sr_completed r"
proof -
  from assms obtain out1 where a: "appendText value r = Inr r'"
    and e: "emitEvent (cs_sinks cs) (model_event_of MessageDelta [] (bounded value) []) out = (out1, Inr ())"
    and y: "yield_text cs value out1 = (out', Inr ())"
    by (auto simp: deliver_text_def eff_bind_Inr)
  from appendText_Inr [OF a] emitEvent_yielded [OF e] yield_text_Inr [OF y]
  show ?thesis unfolding keeps_def by (auto intro!: exI [of _ "[]"])
qed

lemma handleTextDelta_keeps:
  assumes "handleTextDelta cs value r out = (out', Inr r')"
  shows "keeps cs new r out r' out' \<and> sr_completed r' = sr_completed r"
proof (cases "value = ''''")
  case True
  with assms keeps_refl show ?thesis by (simp add: handleTextDelta_def)
next
  case False
  let ?r = "r\<lparr>sr_saw_text_delta := True\<rparr>"
  from False assms have d: "deliver_text cs value ?r out = (out', Inr r')" by (simp add: handleTextDelta_def)
  have "keeps cs new r out ?r out" by (rule keepsI_core) (simp_all add: same_core_def)
  with deliver_text_keeps [OF d, of new] keeps_trans show ?thesis by fastforce
qed

lemma deliver_refusal_keeps:
  assumes "deliver_refusal cs value r out = (out', Inr r')"
  shows "keeps cs new r out r' out' \<and> sr_completed r' = sr_completed r"
  using assms by (auto simp: deliver_refusal_def eff_bind_Inr same_core_def dest!: emitEvent_yielded intro!: keepsI_core)

lemma other_deltas_keep:
  "handleReasoningDelta cs value r out = (out', Inr r') \<Longrightarrow> keeps cs new r out r' out' \<and> sr_completed r' = sr_completed r"
  "handleToolDelta cs ev r out = (out', Inr r') \<Longrightarrow> keeps cs new r out r' out' \<and> sr_completed r' = sr_completed r"
  "handleRefusalDelta cs value r out = (out', Inr r') \<Longrightarrow> keeps cs new r out r' out' \<and> sr_completed r' = sr_completed r"
proof -
  show "handleReasoningDelta cs value r out = (out', Inr r') \<Longrightarrow> keeps cs new r out r' out' \<and> sr_completed r' = sr_completed r"
    by (auto simp: handleReasoningDelta_def eff_bind_Inr same_core_def dest!: emitEvent_yielded intro!: keepsI_core split: if_split_asm)
  show "handleToolDelta cs ev r out = (out', Inr r') \<Longrightarrow> keeps cs new r out r' out' \<and> sr_completed r' = sr_completed r"
    by (auto simp: handleToolDelta_def eff_bind_Inr same_core_def Let_def recordToolDelta_def dest!: emitEvent_yielded
      intro!: keepsI_core split: if_split_asm)
  show "handleRefusalDelta cs value r out = (out', Inr r') \<Longrightarrow> keeps cs new r out r' out' \<and> sr_completed r' = sr_completed r"
    by (auto simp: handleRefusalDelta_def deliver_refusal_def eff_bind_Inr same_core_def dest!: emitEvent_yielded
      intro!: keepsI_core split: if_split_asm)
qed

subsection \<open>Items\<close>

lemma addMessageItem_keeps:
  "addMessageItem cs contents r out = (out', Inr r') \<Longrightarrow> keeps cs new r out r' out' \<and> sr_completed r' = sr_completed r"
proof (induction contents arbitrary: r out)
  case Nil
  then show ?case by (simp add: keeps_refl)
next
  case (Cons c contents)
  then obtain r1 out1 where one: "addMessageContent cs c r out = (out1, Inr r1)"
    and rest: "addMessageItem cs contents r1 out1 = (out', Inr r')" by (auto simp: eff_bind_Inr)
  have "keeps cs new r out r1 out1 \<and> sr_completed r1 = sr_completed r"
    using one by (auto simp: addMessageContent_def addCompletedText_def addCompletedRefusal_def keeps_refl
      dest: deliver_text_keeps deliver_refusal_keeps split: if_split_asm)
  with Cons.IH [OF rest] keeps_trans show ?case by fastforce
qed

lemma addStatePart_Inr:
  assumes "addStatePart t r = Inr r'"
  shows "canonicalResponseState t = Inr (canonical_of t)" "r' = r\<lparr>sr_state_bytes := sr_state_bytes r + length (canonical_of t),
      sr_state_parts := sr_state_parts r @ [state_part t]\<rparr>" "sr_state_bytes r + length (canonical_of t) \<le> maxOutputBytes"
  using assms by (auto simp: addStatePart_def rbind_Inr_iff canonical_of_def state_part_def Let_def split: if_split_asm)

lemma map_filter_snoc: "List.map_filter f (xs @ [x]) = List.map_filter f xs @ (case f x of None \<Rightarrow> [] | Some y \<Rightarrow> [y])"
  by (simp add: List.map_filter_def split: option.split)

lemma addOutputItem_keeps:
  assumes "addOutputItem cs t r out = (out', Inr r')"
  shows "keeps cs {t} r out r' out' \<and> sr_completed r' = sr_completed r"
proof -
  from assms have item: "unmarshal output_item_fields t no_output_item = Some (item_of t)"
    by (auto simp: addOutputItem_def item_of_def split: if_split_asm option.split_asm)
  consider (reasoning) "oi_type (item_of t) = ''reasoning''" | (call) "oi_type (item_of t) = ''function_call''"
    | (message) "oi_type (item_of t) = ''message''"
    using assms item by (auto simp: addOutputItem_def split: if_split_asm)
  then show ?thesis
  proof cases
    case reasoning
    with assms item have a: "addStatePart t r = Inr r'" and o: "out' = out"
      by (auto simp: addOutputItem_def split: if_split_asm)
    note p = addStatePart_Inr [OF a]
    have "stream_inv (items @ [t]) r'" if "stream_inv items r" for items
      using that p item reasoning by (auto simp: stream_inv_def item_ok_def map_filter_snoc item_call_def state_part_def)
    then show ?thesis using o p(2) by (force simp: keeps_def)
  next
    case message
    with assms item have "addMessageItem cs (oi_content (item_of t)) r out = (out', Inr r')"
      by (auto simp: addOutputItem_def split: if_split_asm)
    then show ?thesis by (rule addMessageItem_keeps)
  next
    case call
    let ?i = "item_of t"
    let ?r1 = "r\<lparr>sr_seen_call_ids := List.insert (oi_call_id ?i) (sr_seen_call_ids r),
              sr_calls := sr_calls r @ [\<lparr>cl_id = oi_call_id ?i, cl_name = oi_name ?i,
                cl_arguments = oi_arguments ?i, cl_arguments_ref = '''', cl_source_ref = providerName\<rparr>]\<rparr>"
    from call assms item have f: "addFunctionCall cs ?i t r out = (out', Inr r')"
      by (auto simp: addOutputItem_def split: if_split_asm)
    then have ok: "oi_call_id ?i \<noteq> ''''" "oi_name ?i \<noteq> ''''" "json_valid (oi_arguments ?i)" "oi_call_id ?i \<notin> set (sr_seen_call_ids r)"
      by (auto simp: addFunctionCall_def split: if_split_asm)
    with f have a: "addStatePart t ?r1 = Inr r'" and y: "yielded out' = yielded out"
      by (auto simp: addFunctionCall_def eff_bind_Inr dest!: emitEvent_yielded split: if_split_asm)
    note p = addStatePart_Inr [OF a]
    have "stream_inv (items @ [t]) r'" if "stream_inv items r" for items
      using that p item call ok by (auto simp: stream_inv_def item_ok_def map_filter_snoc item_call_def state_part_def)
    then show ?thesis using y p(2) by (force simp: keeps_def)
  qed
qed

lemma complete_keeps:
  assumes "complete sinks encoded r out = (out', Inr r')"
  shows "keeps cs new r out r' out' \<and> sr_completed r'"
  using assms
  by (auto simp: complete_def eff_bind_Inr Let_def same_core_def dest!: emitEvent_yielded intro!: keepsI_core
    split: if_split_asm option.split_asm)

lemma handleEvent_keeps:
  assumes "handleEvent cs ev r out = (out', Inr (terminal, r'))"
  shows "keeps cs {se_item ev} r out r' out' \<and> (if terminal then sr_completed r' else sr_completed r' = sr_completed r)"
  using assms unfolding handleEvent_def Let_def
  by (auto simp: eff_bind_Inr keeps_refl split: if_split_asm
    dest: handleTextDelta_keeps other_deltas_keep addOutputItem_keeps complete_keeps)

section \<open>The whole stream\<close>

text \<open>The events of a stream up to its end or its first error, and that end.\<close>

function sse_events :: "sse \<Rightarrow> string list \<times> agent_error" where
  "sse_events d = (case sse_next d of
     (Inl e, _) \<Rightarrow> ([], e)
   | (Inr v, d1) \<Rightarrow> (let (vs, e) = sse_events d1 in (v # vs, e)))"
  by pat_completeness auto

termination
  by (relation "measure scan_eof") (auto dest!: sse_next_progress [OF sym])

declare sse_events.simps [simp del]

definition event_item :: "string \<Rightarrow> bytes" where
  "event_item data = raw_field ''item'' data"

lemma decoded_item: "decodeStreamEvent data = Inr ev \<Longrightarrow> se_item ev = event_item data"
  by (auto simp: decodeStreamEvent_def event_item_def split: option.split_asm)

lemma consumeStream_keeps:
  "consumeStream cs d r out = (out', Inr r') \<Longrightarrow>
    keeps cs (event_item ` set (fst (sse_events d))) r out r' out' \<and> sr_completed r'"
proof (induction cs d r out rule: consumeStream.induct)
  case (1 cs d r out)
  obtain res d1 where n: "sse_next d = (res, d1)" by force
  show ?case
  proof (cases res)
    case (Inl e)
    with 1(2) n show ?thesis by (simp add: consumeStream.simps [of cs d])
  next
    case (Inr data)
    have events: "fst (sse_events d) = data # fst (sse_events d1)"
      using n Inr by (simp add: sse_events.simps [of d] split: prod.split)
    show ?thesis
    proof (cases "data = ''[DONE]''")
      case True
      with 1(2) n Inr keeps_refl show ?thesis
        by (auto simp: consumeStream.simps [of cs d] streamDoneError_def split: if_split_asm)
    next
      case False
      with 1(2) n Inr obtain ev out1 terminal r1 where ev: "decodeStreamEvent data = Inr ev"
        and h: "handleEvent cs ev r out = (out1, Inr (terminal, r1))"
        and k: "(if terminal then (out1, Inr r1) else consumeStream cs d1 r1 out1) = (out', Inr r')"
        by (auto simp: consumeStream.simps [of cs d] split: sum.split_asm prod.split_asm)
      from handleEvent_keeps [OF h] decoded_item [OF ev]
      have one: "keeps cs {event_item data} r out r1 out1" and c: "terminal \<Longrightarrow> sr_completed r1" by auto
      have sub: "{event_item data} \<subseteq> event_item ` set (fst (sse_events d))" by (simp add: events)
      show ?thesis
      proof (cases terminal)
        case True
        with k c keeps_mono [OF one sub] show ?thesis by simp
      next
        case go: False
        with k have rest: "consumeStream cs d1 r1 out1 = (out', Inr r')" by simp
        from 1(1) [OF n [symmetric] Inr False ev h [symmetric] refl refl go rest]
        have "keeps cs (event_item ` set (fst (sse_events d1))) r1 out1 r' out'" "sr_completed r'" by simp_all
        moreover have "event_item ` set (fst (sse_events d1)) \<subseteq> event_item ` set (fst (sse_events d))"
          by (auto simp: events)
        ultimately show ?thesis using keeps_trans [OF keeps_mono [OF one sub] keeps_mono] by blast
      qed
    qed
  qed
qed

lemma consumeStream_inv:
  assumes "consumeStream cs d (new_result model) [] = (out, Inr r)"
  obtains items where "stream_inv items r" "set items \<subseteq> event_item ` set (fst (sse_events d))" "sr_completed r"
    "cs_yield cs \<noteq> None \<Longrightarrow> yielded out = sr_text r"
proof -
  from consumeStream_keeps [OF assms] have k: "keeps cs (event_item ` set (fst (sse_events d))) (new_result model) [] r out" "sr_completed r"
    by simp_all
  then obtain more where "stream_inv ([] @ more) r" "set more \<subseteq> event_item ` set (fst (sse_events d))"
    using stream_inv_new unfolding keeps_def by blast
  moreover from k(1) have "cs_yield cs \<noteq> None \<Longrightarrow> yielded out = sr_text r" by (auto simp: keeps_def new_result_def)
  ultimately show thesis using k(2) that by simp
qed

section \<open>Server-sent events\<close>

text \<open>An event as the server writes it: a field for each line of its data, and a blank line.\<close>

fun split_lines :: "string \<Rightarrow> string list" where
  "split_lines [] = [[]]"
| "split_lines (c # s) = (if c = newline then [] # split_lines s
     else (case split_lines s of [] \<Rightarrow> [[c]] | l # ls \<Rightarrow> (c # l) # ls))"

definition data_line :: "string \<Rightarrow> string" where
  "data_line l = ''data: '' @ l @ [newline]"

definition sse_event :: "string \<Rightarrow> string" where
  "sse_event v = concat (map data_line (split_lines v)) @ [newline]"

text \<open>The data that survive: not blank, not starting with a blank line, without carriage returns.\<close>

definition sendable :: "string \<Rightarrow> bool" where
  "sendable v \<longleftrightarrow> v \<noteq> '''' \<and> hd v \<noteq> newline \<and> CHR 0x0D \<notin> set v \<and> length v + 6 < maxStreamFrameBytes"

fun join_lines :: "string list \<Rightarrow> string" where
  "join_lines [] = ''''"
| "join_lines [l] = l"
| "join_lines (l # m # ls) = l @ newline # join_lines (m # ls)"

lemma split_lines_ne: "split_lines s \<noteq> []"
  by (cases s) (auto split: list.split)

lemma join_split: "join_lines (split_lines s) = s"
proof (induction s)
  case (Cons c s)
  then obtain l ls where l: "split_lines s = l # ls" using split_lines_ne by (cases "split_lines s") auto
  with Cons show ?case by (cases ls) auto
qed simp

lemma split_lines_line: "l \<in> set (split_lines s) \<Longrightarrow> newline \<notin> set l \<and> set l \<subseteq> set s \<and> length l \<le> length s"
proof (induction s arbitrary: l)
  case (Cons c s)
  then obtain m ms where m: "split_lines s = m # ms" using split_lines_ne by (cases "split_lines s") auto
  with Cons.IH [of m] have "newline \<notin> set m \<and> set m \<subseteq> set s \<and> length m \<le> length s" by simp
  with Cons m show ?case by (fastforce split: if_split_asm)
qed simp

lemma hd_split: "s \<noteq> '''' \<Longrightarrow> hd s \<noteq> newline \<Longrightarrow> hd (split_lines s) \<noteq> ''''"
  by (cases s) (auto split: list.split)

definition line_ok :: "string \<Rightarrow> bool" where
  "line_ok l \<longleftrightarrow> newline \<notin> set l \<and> CHR 0x0D \<notin> set l \<and> length l < maxStreamFrameBytes"

lemma drop_cr_id: "CHR 0x0D \<notin> set l \<Longrightarrow> drop_cr l = l"
proof -
  assume a: "CHR 0x0D \<notin> set l"
  have "\<not> has_suffix l [CHR 0x0D]"
    using a by (auto simp: has_suffix_def) (metis in_set_dropD list.set_intros(1))
  then show ?thesis by (simp add: drop_cr_def)
qed

lemma takeWhile_line: "newline \<notin> set l \<Longrightarrow> takeWhile (\<lambda>c. c \<noteq> newline) (l @ newline # s) = l"
  by (induction l) auto

lemma scan_line_line:
  assumes "line_ok l" and "sd_scan_err d = None" and "sd_rest d = l @ newline # s"
  shows "scan_line d = (Some l, d\<lparr>sd_rest := s\<rparr>)"
  using assms by (simp add: scan_line_def Let_def takeWhile_line line_ok_def drop_cr_id)

text \<open>A state between two lines, with what has been read of an event.\<close>

definition reading :: "sse \<Rightarrow> string \<Rightarrow> string \<Rightarrow> nat \<Rightarrow> bool" where
  "reading d rest data count \<longleftrightarrow> sd_scan_err d = None \<and> sd_read_err d = None \<and> \<not> sd_eof d \<and>
    sd_rest d = rest \<and> sd_data d = data \<and> sd_total d = count"

lemma next_line:
  assumes "reading d (l @ newline # s) data n" and "line_ok l" and "acceptLine l (d\<lparr>sd_rest := s\<rparr>) = (Inr v, d2)"
  shows "sse_next d = (case v of Some x \<Rightarrow> (Inr x, d2) | None \<Rightarrow> sse_next d2)"
proof -
  from assms have s: "scan_line d = (Some l, d\<lparr>sd_rest := s\<rparr>)" by (intro scan_line_line) (simp_all add: reading_def)
  from assms(2) have "drop_cr l = l" by (simp add: line_ok_def drop_cr_id)
  with assms s show ?thesis by (subst sse_next.simps) (auto simp: reading_def split: option.split)
qed

lemma data_line_ok: "newline \<notin> set l \<Longrightarrow> CHR 0x0D \<notin> set l \<Longrightarrow> length l + 6 < maxStreamFrameBytes \<Longrightarrow> line_ok (''data: '' @ l)"
  by (simp add: line_ok_def newline_def)

lemma next_data_line:
  assumes d: "reading d (data_line l @ s) data n" and l: "newline \<notin> set l" "CHR 0x0D \<notin> set l" "length l + 6 < maxStreamFrameBytes"
    and size: "length data + Suc (length l) \<le> maxStreamFrameBytes" and total: "n + length (data_line l) \<le> maxStreamBytes"
  obtains d2 where "reading d2 s (if data = '''' then l else data @ newline # l) (n + length (data_line l))" "sse_next d = sse_next d2"
proof -
  let ?line = "''data: '' @ l"
  let ?d = "d\<lparr>sd_rest := s, sd_total := n + length (data_line l)\<rparr>"
  let ?d2 = "?d\<lparr>sd_data := (if data = '''' then l else data @ newline # l)\<rparr>"
  have "takeWhile (\<lambda>c. c \<noteq> CHR '':'') ?line = ''data''" by simp
  then have "acceptLine ?line (d\<lparr>sd_rest := s\<rparr>) = (Inr None, ?d2)"
    using d size total by (auto simp: acceptLine_def Let_def reading_def has_prefix_def data_line_def numeral_eq_Suc)
  then have "sse_next d = sse_next ?d2"
    using next_line [of d ?line s data n] d data_line_ok [OF l] by (auto simp: data_line_def)
  moreover have "reading ?d2 s (if data = '''' then l else data @ newline # l) (n + length (data_line l))"
    using d by (simp add: reading_def)
  ultimately show thesis by (rule that [rotated])
qed

definition more_lines :: "string list \<Rightarrow> string" where
  "more_lines ls = concat (map (\<lambda>l. newline # l) ls)"

lemma join_more: "join_lines (l # ls) = l @ more_lines ls"
  by (induction ls arbitrary: l) (simp_all add: more_lines_def)

definition field_ok :: "string \<Rightarrow> bool" where
  "field_ok l \<longleftrightarrow> newline \<notin> set l \<and> CHR 0x0D \<notin> set l \<and> length l + 6 < maxStreamFrameBytes"

lemma next_data_lines:
  "reading d (concat (map data_line ls) @ s) data n \<Longrightarrow> data \<noteq> '''' \<Longrightarrow> \<forall>l \<in> set ls. field_ok l \<Longrightarrow>
    length data + length (more_lines ls) \<le> maxStreamFrameBytes \<Longrightarrow> n + length (concat (map data_line ls)) \<le> maxStreamBytes \<Longrightarrow>
    \<exists>d2. reading d2 s (data @ more_lines ls) (n + length (concat (map data_line ls))) \<and> sse_next d = sse_next d2"
proof (induction ls arbitrary: d data n)
  case (Cons l ls)
  have d: "reading d (data_line l @ concat (map data_line ls) @ s) data n" using Cons.prems(1) by simp
  from Cons.prems(3-5) obtain d1 where d1: "reading d1 (concat (map data_line ls) @ s) (data @ newline # l) (n + length (data_line l))"
    "sse_next d = sse_next d1"
    using next_data_line [OF d] Cons.prems(2) by (auto simp: field_ok_def more_lines_def)
  have "\<exists>d2. reading d2 s ((data @ newline # l) @ more_lines ls) (n + length (data_line l) + length (concat (map data_line ls))) \<and>
      sse_next d1 = sse_next d2"
    using Cons.prems(3-5) by (intro Cons.IH [OF d1(1)]) (simp_all add: more_lines_def)
  with d1(2) show ?case by (simp add: more_lines_def add.assoc)
qed (auto simp: more_lines_def)

lemma next_blank:
  assumes "reading d (newline # s) data n" and "data \<noteq> ''''" and "n < maxStreamBytes"
  obtains d2 where "reading d2 s '''' (Suc n)" "sse_next d = (Inr data, d2)"
proof -
  let ?d2 = "d\<lparr>sd_rest := s, sd_total := Suc n, sd_data := ''''\<rparr>"
  have "acceptLine '''' (d\<lparr>sd_rest := s\<rparr>) = (Inr (Some data), ?d2)"
    using assms by (simp add: acceptLine_def endEvent_def takeData_def Let_def reading_def)
  moreover have "line_ok ''''" by (simp add: line_ok_def maxStreamFrameBytes_def)
  ultimately have "sse_next d = (Inr data, ?d2)" using next_line [of d "''''" s data n] assms(1) by simp
  moreover have "reading ?d2 s '''' (Suc n)" using assms(1) by (simp add: reading_def)
  ultimately show thesis by (rule that [rotated])
qed

lemma next_event:
  assumes v: "sendable v" and d: "reading d (sse_event v @ s) '''' n" and total: "n + length (sse_event v) \<le> maxStreamBytes"
  obtains d2 where "reading d2 s '''' (n + length (sse_event v))" "sse_next d = (Inr v, d2)"
proof -
  obtain l ls where ls: "split_lines v = l # ls" using split_lines_ne by (cases "split_lines v") auto
  from v have "l \<noteq> ''''" using hd_split [of v] ls by (simp add: sendable_def)
  have ok: "\<forall>m \<in> set (l # ls). field_ok m"
    using split_lines_line [of _ v] v ls by (fastforce simp: field_ok_def sendable_def)
  have j: "v = l @ more_lines ls" using join_split [of v] ls by (simp add: join_more)
  have len: "length l + length (more_lines ls) + 6 < maxStreamFrameBytes" using v j by (simp add: sendable_def)
  have ev: "sse_event v = data_line l @ concat (map data_line ls) @ [newline]" by (simp add: sse_event_def ls)
  from d have d': "reading d (data_line l @ concat (map data_line ls) @ newline # s) '''' n" by (simp add: ev)
  obtain d1 where d1: "reading d1 (concat (map data_line ls) @ newline # s) l (n + length (data_line l))" "sse_next d = sse_next d1"
    using next_data_line [OF d'] ok len total by (auto simp: field_ok_def ev)
  have "\<exists>d2. reading d2 (newline # s) (l @ more_lines ls) (n + length (data_line l) + length (concat (map data_line ls))) \<and>
      sse_next d1 = sse_next d2"
    using ok len total \<open>l \<noteq> ''''\<close> by (intro next_data_lines [OF d1(1)]) (simp_all add: ev)
  then obtain d2 where d2: "reading d2 (newline # s) v (n + length (data_line l) + length (concat (map data_line ls)))"
    "sse_next d1 = sse_next d2" using j by auto
  from v have "v \<noteq> ''''" by (simp add: sendable_def)
  then obtain d3 where "reading d3 s '''' (Suc (n + length (data_line l) + length (concat (map data_line ls))))" "sse_next d2 = (Inr v, d3)"
    using next_blank [OF d2(1)] total by (auto simp: ev)
  with d1(2) d2(2) show thesis using that by (simp add: ev add.assoc)
qed

lemma next_end: "reading d '''' '''' n \<Longrightarrow> fst (sse_next d) = Inl ErrEOF"
  by (subst sse_next.simps) (simp add: reading_def scan_line_def sse_finish_def maxStreamFrameBytes_def Let_def)

lemma events_of_reading:
  "\<forall>v \<in> set vs. sendable v \<Longrightarrow> reading d (concat (map sse_event vs)) '''' n \<Longrightarrow>
    n + length (concat (map sse_event vs)) \<le> maxStreamBytes \<Longrightarrow> sse_events d = (vs, ErrEOF)"
proof (induction vs arbitrary: d n)
  case Nil
  then have "fst (sse_next d) = Inl ErrEOF" by (intro next_end) simp
  then show ?case by (subst sse_events.simps) (auto split: prod.split)
next
  case (Cons v vs)
  have d: "reading d (sse_event v @ concat (map sse_event vs)) '''' n" using Cons.prems(2) by simp
  obtain d2 where d2: "reading d2 (concat (map sse_event vs)) '''' (n + length (sse_event v))" "sse_next d = (Inr v, d2)"
    using next_event [OF _ d] Cons.prems(1,3) by auto
  have "sse_events d2 = (vs, ErrEOF)" using Cons.prems(1,3) by (intro Cons.IH [OF _ d2(1)]) simp_all
  with d2(2) show ?case by (subst sse_events.simps) simp
qed

lemma sse_events_written:
  "\<forall>v \<in> set vs. sendable v \<Longrightarrow> length (concat (map sse_event vs)) \<le> maxStreamBytes \<Longrightarrow>
    sse_events (newSSEDecoder (concat (map sse_event vs)) None) = (vs, ErrEOF)"
  by (rule events_of_reading [of _ _ 0]) (simp_all add: reading_def newSSEDecoder_def)

section \<open>The stream as the list of its events\<close>

fun consume_events :: "consumer \<Rightarrow> string list \<Rightarrow> agent_error \<Rightarrow> stream_result \<Rightarrow> stream_result effect" where
  "consume_events cs [] e r out = (out, Inl (streamReadError e))"
| "consume_events cs (data # vs) e r out =
    (if data = ''[DONE]'' then (out, streamDoneError r)
     else eff_bind (pure_r (decodeStreamEvent data)) (\<lambda>ev.
       eff_bind (handleEvent cs ev r) (\<lambda>(terminal, r1).
         if terminal then pure_r (Inr r1) else consume_events cs vs e r1)) out)"

lemma consumeStream_events:
  "consumeStream cs d r out = consume_events cs (fst (sse_events d)) (snd (sse_events d)) r out"
proof (induction cs d r out rule: consumeStream.induct)
  case (1 cs d r out)
  obtain res d1 where n: "sse_next d = (res, d1)" by force
  show ?case
  proof (cases res)
    case (Inl e)
    with n show ?thesis by (simp add: consumeStream.simps [of cs d] sse_events.simps [of d])
  next
    case (Inr data)
    have events: "sse_events d = (data # fst (sse_events d1), snd (sse_events d1))"
      using n Inr by (simp add: sse_events.simps [of d] split: prod.split)
    show ?thesis
    proof (cases "data = ''[DONE]''")
      case True
      with n Inr events show ?thesis by (simp add: consumeStream.simps [of cs d])
    next
      case False
      show ?thesis
      proof (cases "decodeStreamEvent data")
        case (Inl e)
        with n Inr events False show ?thesis by (simp add: consumeStream.simps [of cs d] eff_bind_def pure_r_def)
      next
        case ev: (Inr ev)
        obtain out1 h where h: "handleEvent cs ev r out = (out1, h)" by force
        show ?thesis
        proof (cases h)
          case (Inl e)
          with n Inr events False ev h show ?thesis by (simp add: consumeStream.simps [of cs d] eff_bind_def pure_r_def)
        next
          case res2: (Inr p)
          obtain terminal r1 where p: "p = (terminal, r1)" by force
          have "\<not> terminal \<Longrightarrow> consumeStream cs d1 r1 out1 = consume_events cs (fst (sse_events d1)) (snd (sse_events d1)) r1 out1"
            using 1 [OF n [symmetric] Inr False ev h [symmetric] res2] p by simp
          with n Inr events False ev h res2 p show ?thesis
            by (simp add: consumeStream.simps [of cs d] eff_bind_def pure_r_def)
        qed
      qed
    qed
  qed
qed

end
