(* ===== verification/Codex_Transcript.thy ===== *)
theory Codex_Transcript
  imports Codex_Request "HOL-Library.Multiset"
begin

text \<open>
  Which conversations the encoder of messages accepts, stated without its sets: a message of a
  system, a developer, a user or an assistant, then, when it calls tools, one answer for each of
  its calls in any order before the next such message. \<open>encodes_iff\<close> shows that the encoder
  accepts exactly these; \<open>add_messages_items\<close> accounts for the calls and outputs among the items.
\<close>

section \<open>Conversations\<close>

definition plain :: "chat_message \<Rightarrow> bool" where
  "plain m \<longleftrightarrow> (\<forall>p \<in> set (cm_parts m). pt_type p = PartText \<and> pt_ref p = None)"

definition part_ok :: "role \<Rightarrow> part \<Rightarrow> bool" where
  "part_ok r p \<longleftrightarrow> pt_ref p = None \<and>
    (pt_type p = PartText \<or>
     pt_type p = response_item \<and> r = RoleAssistant \<and> (case decodeResponseState (pt_text p) of Inl _ \<Rightarrow> False | Inr _ \<Rightarrow> True))"

text \<open>The call that an opaque item of a message holds.\<close>

definition opaque_call :: "part \<Rightarrow> call option" where
  "opaque_call p =
    (if pt_type p = response_item then
       (case decodeResponseState (pt_text p) of
          Inr (item, s) \<Rightarrow>
            if st_type s = ''function_call''
            then Some \<lparr>cl_id = st_call_id s, cl_name = st_name s, cl_arguments = st_arguments s,
              cl_arguments_ref = '''', cl_source_ref = ''''\<rparr>
            else None
        | Inl _ \<Rightarrow> None)
     else None)"

definition opaque_calls :: "chat_message \<Rightarrow> call list" where
  "opaque_calls m = List.map_filter opaque_call (cm_parts m)"

definition call_arguments :: "call \<Rightarrow> bytes" where
  "call_arguments c = (if cl_arguments c = [] then ''{}'' else cl_arguments c)"

definition call_ok :: "string set \<Rightarrow> call \<Rightarrow> bool" where
  "call_ok seen c \<longleftrightarrow> cl_id c \<noteq> '''' \<and> cl_name c \<noteq> '''' \<and> cl_id c \<notin> seen \<and> cl_arguments_ref c = '''' \<and>
    (cl_arguments c = [] \<or> json_valid (cl_arguments c))"

definition same_call :: "call \<Rightarrow> call \<Rightarrow> bool" where
  "same_call state c \<longleftrightarrow> cl_id c = cl_id state \<and> cl_name state = cl_name c \<and>
    equalJSON (cl_arguments state) (call_arguments c)"

definition calls_ok :: "string set \<Rightarrow> call list \<Rightarrow> call list \<Rightarrow> bool" where
  "calls_ok seen calls opaque \<longleftrightarrow> (\<forall>c \<in> set calls. call_ok seen c) \<and> distinct (map cl_id calls) \<and>
    distinct (map cl_id opaque) \<and> (\<forall>state \<in> set opaque. \<exists>c \<in> set calls. same_call state c)"

definition call_ids :: "chat_message \<Rightarrow> string list" where
  "call_ids m = map cl_id (cm_tool_calls m)"

definition message_ok :: "string set \<Rightarrow> chat_message \<Rightarrow> bool" where
  "message_ok seen m \<longleftrightarrow> cm_tool_call_id m = '''' \<and>
    (if cm_role m = RoleSystem then cm_tool_calls m = [] \<and> plain m
     else (cm_role m = developer \<or> cm_role m = RoleUser \<or> cm_role m = RoleAssistant) \<and>
       (cm_tool_calls m \<noteq> [] \<longrightarrow> cm_role m = RoleAssistant) \<and>
       (\<forall>p \<in> set (cm_parts m). part_ok (cm_role m) p) \<and> calls_ok seen (cm_tool_calls m) (opaque_calls m))"

definition answer_ok :: "chat_message \<Rightarrow> bool" where
  "answer_ok m \<longleftrightarrow> cm_role m = RoleTool \<and> cm_tool_calls m = [] \<and> plain m"

function conversation :: "string set \<Rightarrow> chat_message list \<Rightarrow> bool" where
  "conversation seen [] = True"
| "conversation seen (m # ms) =
    (let answers = take (length (call_ids m)) ms in
     message_ok seen m \<and> mset (map cm_tool_call_id answers) = mset (call_ids m) \<and> (\<forall>a \<in> set answers. answer_ok a) \<and>
     conversation (seen \<union> set (call_ids m)) (drop (length (call_ids m)) ms))"
  by pat_completeness auto

termination
  by (relation "measure (\<lambda>(_, ms). length ms)") auto

text \<open>The same, one message at a time, with the calls that wait for an answer.\<close>

fun answered :: "string list \<Rightarrow> string set \<Rightarrow> chat_message list \<Rightarrow> bool" where
  "answered pending seen [] = (pending = [])"
| "answered pending seen (m # ms) =
    (if pending = [] then message_ok seen m \<and> answered (call_ids m) (seen \<union> set (call_ids m)) ms
     else answer_ok m \<and> cm_tool_call_id m \<in> set pending \<and> answered (remove1 (cm_tool_call_id m) pending) seen ms)"

lemma answered_answers:
  "answered pending seen ms \<longleftrightarrow>
    (let answers = take (length pending) ms in
     mset (map cm_tool_call_id answers) = mset pending \<and> (\<forall>a \<in> set answers. answer_ok a) \<and>
     answered [] seen (drop (length pending) ms))"
proof (induction ms arbitrary: pending)
  case (Cons m ms)
  show ?case
  proof (cases "pending = []")
    case False
    let ?id = "cm_tool_call_id m"
    from False obtain n where n: "length pending = Suc n" by (cases pending) auto
    show ?thesis
    proof (cases "?id \<in> set pending")
      case True
      then have len: "length (remove1 ?id pending) = n" using n by (simp add: length_remove1)
      have "add_mset ?id M = mset pending \<longleftrightarrow> M = mset (remove1 ?id pending)" for M
        using True by (metis add_mset_remove_trivial insert_DiffM mset_remove1 set_mset_mset)
      with Cons [of "remove1 ?id pending"] True False n len show ?thesis by (auto simp: Let_def)
    next
      case mem: False
      have "add_mset ?id M \<noteq> mset pending" for M
        using mem by (metis set_mset_mset union_single_eq_member)
      with mem False n show ?thesis by (simp add: Let_def)
    qed
  qed simp
qed auto

lemma conversation_answered: "conversation seen ms = answered [] seen ms"
proof (induction seen ms rule: conversation.induct)
  case (2 seen m ms)
  then show ?case using answered_answers [of "call_ids m" "seen \<union> set (call_ids m)" ms] by (auto simp: Let_def)
qed simp

section \<open>The parts of a message\<close>

lemma wrap_error_Inr [simp]: "wrap_error f r = Inr x \<longleftrightarrow> r = Inr x"
  by (simp add: wrap_error_def split: sum.split)

lemma plain_parts_Inr: "(\<exists>v. plain_parts ps = Inr v) \<longleftrightarrow> (\<forall>p \<in> set ps. pt_type p = PartText \<and> pt_ref p = None)"
  by (induction ps) (auto simp: rbind_Inr_iff)

lemma plain_Inr: "(\<exists>v. plainMessageText m = Inr v) \<longleftrightarrow> plain m"
  by (simp add: plainMessageText_def plain_def plain_parts_Inr)

lemma encodePart_Inr: "(\<exists>e. encodePart i k r ct p = Inr e) \<longleftrightarrow> part_ok r p"
  by (auto simp: encodePart_def statePart_def part_ok_def rbind_Inr_iff split: sum.split)

text \<open>What an item says of calls and of their outputs.\<close>

definition item_calls :: "input_item list \<Rightarrow> string list" where
  "item_calls items = map in_call_id (filter (\<lambda>i. in_type i = ''function_call'') items)"

definition item_outputs :: "input_item list \<Rightarrow> string list" where
  "item_outputs items = map in_call_id (filter (\<lambda>i. in_type i = ''function_call_output'') items)"

lemma item_lists [simp]:
  "item_calls [] = []" "item_outputs [] = []"
  "item_calls (xs @ ys) = item_calls xs @ item_calls ys" "item_outputs (xs @ ys) = item_outputs xs @ item_outputs ys"
  "item_calls [i] = (if in_type i = ''function_call'' then [in_call_id i] else [])"
  "item_outputs [i] = (if in_type i = ''function_call_output'' then [in_call_id i] else [])"
  by (simp_all add: item_calls_def item_outputs_def)

text \<open>The sets and the instructions of an encoder.\<close>

definition sets_of :: "encoder \<Rightarrow> string list \<times> string list \<times> string list \<times> string list" where
  "sets_of en = (en_instructions en, en_pending en, en_completed en, en_seen en)"

lemma run_flush_frame:
  assumes "run_flush (run, en) = (run', en')"
  shows "ru_calls run' = ru_calls run \<and> sets_of en' = sets_of en \<and>
    item_calls (en_input en') = item_calls (en_input en) \<and> item_outputs (en_input en') = item_outputs (en_input en)"
  using assms by (auto simp: run_flush_def sets_of_def no_item_def split: if_split_asm)

lemma decoded_state:
  assumes "decodeResponseState v = Inr (item, s)"
  shows "in_type item = st_type s \<and> in_call_id item = st_call_id s \<and> (st_type s = ''reasoning'' \<or> st_type s = ''function_call'')"
  using assms
  by (auto simp: decodeResponseState_def check_state_def rbind_Inr_iff split: if_split_asm option.split_asm)

lemma encodePart_call:
  assumes "encodePart i k r ct p = Inr e"
  shows "(if ep_content e = None then ep_call e else None) = opaque_call p \<and>
    (ep_content e = None \<longrightarrow> (\<exists>item. ep_state e = Some item \<and> in_type item \<noteq> ''function_call_output'' \<and>
       (in_type item = ''function_call'' \<longleftrightarrow> ep_call e \<noteq> None) \<and> (\<forall>c. ep_call e = Some c \<longrightarrow> in_call_id item = cl_id c)))"
  using assms
  by (auto simp: encodePart_def statePart_def textPart_def opaque_call_def rbind_Inr_iff dest: decoded_state split: if_split_asm)

lemma run_add_frame:
  assumes "encodePart i k r ct p = Inr e" and "run_add e (run, en) = (run', en')"
  shows "ru_calls run' = ru_calls run @ List.map_filter opaque_call [p] \<and> sets_of en' = sets_of en \<and>
    item_calls (en_input en') = item_calls (en_input en) @ map cl_id (List.map_filter opaque_call [p]) \<and>
    item_outputs (en_input en') = item_outputs (en_input en)"
proof (cases "ep_content e")
  case (Some c)
  with assms encodePart_call [OF assms(1)] show ?thesis by (auto simp: run_add_def sets_of_def List.map_filter_def)
next
  case None
  obtain run1 en1 where f: "run_flush (run, en) = (run1, en1)" by force
  from encodePart_call [OF assms(1)] None have call: "ep_call e = opaque_call p" by simp
  from encodePart_call [OF assms(1)] None obtain item where item: "ep_state e = Some item"
    "in_type item \<noteq> ''function_call_output''" "in_type item = ''function_call'' \<longleftrightarrow> ep_call e \<noteq> None"
    "\<forall>c. ep_call e = Some c \<longrightarrow> in_call_id item = cl_id c" by blast
  with assms(2) None f call run_flush_frame [OF f] show ?thesis
    by (cases "opaque_call p") (auto simp: run_add_def sets_of_def List.map_filter_def)
qed

lemma add_parts_frame:
  "add_parts i k r ct ps (run, en) = Inr (run', en') \<Longrightarrow>
    ru_calls run' = ru_calls run @ List.map_filter opaque_call ps \<and> sets_of en' = sets_of en \<and>
    item_calls (en_input en') = item_calls (en_input en) @ map cl_id (List.map_filter opaque_call ps) \<and>
    item_outputs (en_input en') = item_outputs (en_input en)"
proof (induction ps arbitrary: k run en)
  case (Cons p ps)
  from Cons.prems obtain e where e: "encodePart i k r ct p = Inr e"
    and rest: "add_parts i (Suc k) r ct ps (run_add e (run, en)) = Inr (run', en')" by (auto simp: rbind_Inr_iff)
  obtain run1 en1 where a: "run_add e (run, en) = (run1, en1)" by force
  from Cons.IH [of "Suc k" run1 en1] rest a run_add_frame [OF e a] show ?case
    by (simp add: List.map_filter_def)
qed (simp add: List.map_filter_def)

lemma add_parts_Inr: "(\<exists>s. add_parts i k r ct ps s0 = Inr s) \<longleftrightarrow> (\<forall>p \<in> set ps. part_ok r p)"
proof (induction ps arbitrary: k s0)
  case (Cons p ps)
  have "(\<exists>s. add_parts i k r ct (p # ps) s0 = Inr s) \<longleftrightarrow>
      (\<exists>e. encodePart i k r ct p = Inr e \<and> (\<exists>s. add_parts i (Suc k) r ct ps (run_add e s0) = Inr s))"
    by (auto simp: rbind_Inr_iff)
  also have "\<dots> \<longleftrightarrow> (\<exists>e. encodePart i k r ct p = Inr e) \<and> (\<forall>p \<in> set ps. part_ok r p)" using Cons.IH by auto
  finally show ?case by (simp add: encodePart_Inr)
qed simp

section \<open>The calls of a message\<close>

definition by_id :: "call list \<Rightarrow> (string \<times> call) list" where
  "by_id cs = map (\<lambda>c. (cl_id c, c)) cs"

lemma update_fresh: "k \<notin> fst ` set xs \<Longrightarrow> AList.update k v xs = xs @ [(k, v)]"
  by (induction xs) auto

lemma index_opaque_Inr:
  "distinct (map fst ix) \<Longrightarrow>
    index_opaque cs ix = Inr ix' \<longleftrightarrow> distinct (map fst ix @ map cl_id cs) \<and> ix' = ix @ by_id cs"
proof (induction cs arbitrary: ix)
  case (Cons c cs)
  have none: "map_of ix (cl_id c) = None \<longleftrightarrow> cl_id c \<notin> fst ` set ix" by (simp add: map_of_eq_None_iff)
  show ?case
  proof (cases "cl_id c \<in> fst ` set ix")
    case True
    with none show ?thesis by auto
  next
    case False
    with Cons.IH [of "ix @ [(cl_id c, c)]"] Cons.prems none show ?thesis
      by (auto simp: update_fresh by_id_def)
  qed
qed (auto simp: by_id_def)

lemma indexOpaqueCalls_Inr: "indexOpaqueCalls cs = Inr ix \<longleftrightarrow> distinct (map cl_id cs) \<and> ix = by_id cs"
  by (simp add: indexOpaqueCalls_def index_opaque_Inr)

lemma delete_by_id: "AList.delete k (by_id cs) = by_id (filter (\<lambda>c. cl_id c \<noteq> k) cs)"
  by (induction cs) (auto simp: by_id_def AList.delete_eq)

lemma map_of_by_id: "map_of (by_id cs) k = find (\<lambda>c. cl_id c = k) cs"
  by (induction cs) (auto simp: by_id_def)

lemma validateToolCall_Inr:
  "validateToolCall i c en = Inr a \<longleftrightarrow> call_ok (set (en_seen en)) c \<and> a = call_arguments c"
  by (auto simp: validateToolCall_def call_ok_def call_arguments_def)

lemma find_distinct:
  "distinct (map cl_id os) \<Longrightarrow> find (\<lambda>c. cl_id c = k) os = Some s \<longleftrightarrow> s \<in> set os \<and> cl_id s = k"
  by (induction os) auto

lemma find_none: "find (\<lambda>c. cl_id c = k) os = None \<longleftrightarrow> k \<notin> cl_id ` set os"
  by (auto simp: find_None_iff)

lemma addToolCall_Inr:
  assumes "distinct (map cl_id os)"
  shows "(\<exists>en1. addToolCall i c (by_id os) en = Inr en1) \<longleftrightarrow>
    call_ok (set (en_seen en)) c \<and> (\<forall>s \<in> set os. cl_id s = cl_id c \<longrightarrow> same_call s c)"
proof (cases "find (\<lambda>s. cl_id s = cl_id c) os")
  case None
  then have "\<forall>s \<in> set os. cl_id s \<noteq> cl_id c" by (metis find_none imageI)
  with None show ?thesis by (auto simp: addToolCall_def map_of_by_id rbind_Inr_iff validateToolCall_Inr)
next
  case (Some s)
  with assms have "s \<in> set os" "cl_id s = cl_id c" "\<forall>t \<in> set os. cl_id t = cl_id c \<longrightarrow> t = s"
    by (auto simp: find_distinct dest: distinct_map_eq)
  then have "(\<forall>s \<in> set os. cl_id s = cl_id c \<longrightarrow> same_call s c) \<longleftrightarrow> same_call s c" by blast
  with Some \<open>cl_id s = cl_id c\<close> show ?thesis
    by (auto simp: addToolCall_def map_of_by_id rbind_Inr_iff validateToolCall_Inr same_call_def)
qed

lemma addToolCall_frame:
  assumes "addToolCall i c (by_id os) en = Inr en1"
  shows "en_pending en1 = List.insert (cl_id c) (en_pending en) \<and> en_seen en1 = List.insert (cl_id c) (en_seen en) \<and>
    en_completed en1 = en_completed en \<and> en_instructions en1 = en_instructions en \<and>
    item_outputs (en_input en1) = item_outputs (en_input en) \<and>
    item_calls (en_input en1) = item_calls (en_input en) @ (if cl_id c \<in> cl_id ` set os then [] else [cl_id c])"
proof (cases "find (\<lambda>s. cl_id s = cl_id c) os")
  case None
  with assms show ?thesis
    by (auto simp: addToolCall_def map_of_by_id rbind_Inr_iff no_item_def find_none)
next
  case (Some s)
  then have "cl_id c \<in> cl_id ` set os" using find_none [of "cl_id c" os] by auto
  with assms Some show ?thesis
    by (auto simp: addToolCall_def map_of_by_id rbind_Inr_iff split: if_split_asm)
qed

lemma calls_ok_Cons:
  assumes "distinct (map cl_id os)"
  shows "calls_ok seen (c # cs) os \<longleftrightarrow> call_ok seen c \<and> (\<forall>s \<in> set os. cl_id s = cl_id c \<longrightarrow> same_call s c) \<and>
    calls_ok (insert (cl_id c) seen) cs (filter (\<lambda>s. cl_id s \<noteq> cl_id c) os)"
proof -
  have seen: "(\<forall>d \<in> set cs. call_ok (insert (cl_id c) seen) d) \<longleftrightarrow>
      (\<forall>d \<in> set cs. call_ok seen d) \<and> cl_id c \<notin> cl_id ` set cs"
    by (auto simp: call_ok_def) (metis imageI)
  have match: "(\<forall>s \<in> set os. \<exists>d \<in> set (c # cs). same_call s d) \<longleftrightarrow>
      (\<forall>s \<in> set os. cl_id s = cl_id c \<longrightarrow> same_call s c) \<and>
      (\<forall>s \<in> set os. cl_id s \<noteq> cl_id c \<longrightarrow> (\<exists>d \<in> set cs. same_call s d))"
    if new: "cl_id c \<notin> cl_id ` set cs"
  proof -
    have id: "same_call s d \<Longrightarrow> cl_id d = cl_id s" for s d by (simp add: same_call_def)
    have "(\<exists>d \<in> set (c # cs). same_call s d) \<longleftrightarrow>
        (if cl_id s = cl_id c then same_call s c else \<exists>d \<in> set cs. same_call s d)" for s
      using new id by (metis imageI set_ConsD list.set_intros)
    then show ?thesis by (simp add: if_split) blast
  qed
  have "calls_ok seen (c # cs) os \<longleftrightarrow> call_ok seen c \<and> (\<forall>d \<in> set cs. call_ok seen d) \<and> cl_id c \<notin> cl_id ` set cs \<and>
      distinct (map cl_id cs) \<and> (\<forall>s \<in> set os. \<exists>d \<in> set (c # cs). same_call s d)"
    using assms by (auto simp: calls_ok_def)
  also have "\<dots> \<longleftrightarrow> call_ok seen c \<and> (\<forall>d \<in> set cs. call_ok seen d) \<and> cl_id c \<notin> cl_id ` set cs \<and>
      distinct (map cl_id cs) \<and> (\<forall>s \<in> set os. cl_id s = cl_id c \<longrightarrow> same_call s c) \<and>
      (\<forall>s \<in> set os. cl_id s \<noteq> cl_id c \<longrightarrow> (\<exists>d \<in> set cs. same_call s d))"
    using match by blast
  also have "\<dots> \<longleftrightarrow> call_ok seen c \<and> (\<forall>s \<in> set os. cl_id s = cl_id c \<longrightarrow> same_call s c) \<and>
      calls_ok (insert (cl_id c) seen) cs (filter (\<lambda>s. cl_id s \<noteq> cl_id c) os)"
    using seen distinct_map_filterI [OF assms] by (simp add: calls_ok_def) blast
  finally show ?thesis .
qed

lemma distinct_filter_id: "distinct (map cl_id os) \<Longrightarrow> distinct (map cl_id (filter P os))"
  by (rule distinct_map_filterI)

lemma add_calls_Inr:
  "distinct (map cl_id os) \<Longrightarrow>
    (\<exists>en'. add_calls i cs (by_id os) en = Inr ([], en')) \<longleftrightarrow> calls_ok (set (en_seen en)) cs os"
proof (induction cs arbitrary: os en)
  case Nil
  then show ?case by (cases os) (auto simp: calls_ok_def by_id_def)
next
  case (Cons c cs)
  let ?os = "filter (\<lambda>s. cl_id s \<noteq> cl_id c) os"
  have "(\<exists>en'. add_calls i (c # cs) (by_id os) en = Inr ([], en')) \<longleftrightarrow>
      (\<exists>en1. addToolCall i c (by_id os) en = Inr en1 \<and> (\<exists>en'. add_calls i cs (by_id ?os) en1 = Inr ([], en')))"
    by (auto simp: rbind_Inr_iff delete_by_id)
  also have "\<dots> \<longleftrightarrow> (\<exists>en1. addToolCall i c (by_id os) en = Inr en1) \<and> calls_ok (insert (cl_id c) (set (en_seen en))) cs ?os"
  proof -
    have "(\<exists>en'. add_calls i cs (by_id ?os) en1 = Inr ([], en')) \<longleftrightarrow> calls_ok (insert (cl_id c) (set (en_seen en))) cs ?os"
      if "addToolCall i c (by_id os) en = Inr en1" for en1
      using Cons.IH [OF distinct_filter_id [OF Cons.prems], of _ en1] addToolCall_frame [OF that] by simp
    then show ?thesis by blast
  qed
  finally show ?case using addToolCall_Inr [OF Cons.prems] calls_ok_Cons [OF Cons.prems] by auto
qed

lemma add_calls_frame:
  "add_calls i cs (by_id os) en = Inr (rest, en') \<Longrightarrow>
    set (en_pending en') = set (en_pending en) \<union> set (map cl_id cs) \<and>
    (distinct (en_pending en) \<longrightarrow> distinct (en_pending en')) \<and>
    set (en_seen en') = set (en_seen en) \<union> set (map cl_id cs) \<and>
    en_completed en' = en_completed en \<and> en_instructions en' = en_instructions en \<and>
    item_outputs (en_input en') = item_outputs (en_input en) \<and>
    (distinct (map cl_id cs) \<longrightarrow>
       item_calls (en_input en') = item_calls (en_input en) @ filter (\<lambda>k. k \<notin> cl_id ` set os) (map cl_id cs))"
proof (induction cs arbitrary: os en)
  case (Cons c cs)
  let ?os = "filter (\<lambda>s. cl_id s \<noteq> cl_id c) os"
  from Cons.prems obtain en1 where a: "addToolCall i c (by_id os) en = Inr en1"
    and r: "add_calls i cs (by_id ?os) en1 = Inr (rest, en')"
    by (auto simp: rbind_Inr_iff delete_by_id)
  have f: "filter (\<lambda>k. k \<notin> cl_id ` set ?os) ks = filter (\<lambda>k. k \<notin> cl_id ` set os) ks" if "cl_id c \<notin> set ks" for ks
    using that by (intro filter_cong) auto
  show ?case using Cons.IH [OF r] addToolCall_frame [OF a] f [of "map cl_id cs"] by auto
qed simp

lemma no_rest: "(case rest of [] \<Rightarrow> Inr x | (k, _) # _ \<Rightarrow> Inl (e k)) = Inr y \<longleftrightarrow> rest = [] \<and> y = x"
  by (cases rest) auto

lemma addToolCalls_Inr:
  "(\<exists>en'. addToolCalls i cs os en = Inr en') \<longleftrightarrow> calls_ok (set (en_seen en)) cs os"
proof (cases "distinct (map cl_id os)")
  case True
  then have "(\<exists>en'. addToolCalls i cs os en = Inr en') \<longleftrightarrow> (\<exists>en'. add_calls i cs (by_id os) en = Inr ([], en'))"
    by (auto simp: addToolCalls_def rbind_Inr_iff indexOpaqueCalls_Inr no_rest)
  with add_calls_Inr [OF True] show ?thesis by simp
next
  case False
  then show ?thesis by (simp add: addToolCalls_def rbind_Inr_iff indexOpaqueCalls_Inr calls_ok_def)
qed

lemma matched_ids:
  assumes "calls_ok seen cs os"
  shows "mset (map cl_id os) + mset (filter (\<lambda>k. k \<notin> cl_id ` set os) (map cl_id cs)) = mset (map cl_id cs)"
proof -
  from assms have d: "distinct (map cl_id cs)" "distinct (map cl_id os)" by (simp_all add: calls_ok_def)
  from assms have sub: "cl_id ` set os \<subseteq> cl_id ` set cs"
    by (auto simp: calls_ok_def same_call_def) (metis imageI)
  let ?in = "filter (\<lambda>k. k \<in> cl_id ` set os) (map cl_id cs)"
  have "set ?in = set (map cl_id os)" using sub by auto
  then have "mset ?in = mset (map cl_id os)" using d by (metis distinct_filter set_eq_iff_mset_eq_distinct)
  then show ?thesis by (metis mset_filter multiset_partition)
qed

lemma addToolCalls_frame:
  assumes "addToolCalls i cs os en = Inr en'"
  shows "set (en_pending en') = set (en_pending en) \<union> set (map cl_id cs) \<and>
    (distinct (en_pending en) \<longrightarrow> distinct (en_pending en')) \<and>
    set (en_seen en') = set (en_seen en) \<union> set (map cl_id cs) \<and>
    en_completed en' = en_completed en \<and> en_instructions en' = en_instructions en \<and>
    item_outputs (en_input en') = item_outputs (en_input en) \<and>
    mset (item_calls (en_input en')) + mset (map cl_id os) = mset (item_calls (en_input en)) + mset (map cl_id cs)"
proof -
  have ok: "calls_ok (set (en_seen en)) cs os" using assms addToolCalls_Inr by blast
  from assms have a: "add_calls i cs (by_id os) en = Inr ([], en')"
    by (auto simp: addToolCalls_def rbind_Inr_iff indexOpaqueCalls_Inr no_rest)
  from ok have "distinct (map cl_id cs)" by (simp add: calls_ok_def)
  with add_calls_frame [OF a] matched_ids [OF ok] show ?thesis by (simp add: union_commute union_assoc)
qed

section \<open>Messages\<close>

lemma no_opaque_calls: "r \<noteq> RoleAssistant \<Longrightarrow> \<forall>p \<in> set (cm_parts m). part_ok r p \<Longrightarrow> opaque_calls m = []"
proof -
  assume "r \<noteq> RoleAssistant" "\<forall>p \<in> set (cm_parts m). part_ok r p"
  then have "\<forall>p \<in> set (cm_parts m). opaque_call p = None" by (auto simp: part_ok_def opaque_call_def)
  then show ?thesis by (auto simp: opaque_calls_def List.map_filter_def filter_empty_conv)
qed

lemma addModelMessage_Inr:
  "(\<exists>en'. addModelMessage i m en = Inr en') \<longleftrightarrow>
    (\<forall>p \<in> set (cm_parts m). part_ok (cm_role m) p) \<and> calls_ok (set (en_seen en)) (cm_tool_calls m) (opaque_calls m)"
proof -
  let ?ct = "if cm_role m = RoleAssistant then ''output_text'' else ''input_text''"
  let ?run = "\<lparr>ru_role = cm_role m, ru_content = [], ru_calls = []\<rparr>"
  let ?calls = "\<lambda>s. case run_flush s of (run1, en1) \<Rightarrow> addToolCalls i (cm_tool_calls m) (ru_calls run1) en1"
  let ?ok = "calls_ok (set (en_seen en)) (cm_tool_calls m) (opaque_calls m)"
  have calls: "(\<exists>en'. ?calls s = Inr en') \<longleftrightarrow> ?ok"
    if s: "add_parts i 0 (cm_role m) ?ct (cm_parts m) (?run, en) = Inr s" for s
  proof -
    obtain run en0 where p: "s = (run, en0)" by force
    obtain run1 en1 where f: "run_flush (run, en0) = (run1, en1)" by force
    have "ru_calls run1 = opaque_calls m" "en_seen en1 = en_seen en"
      using add_parts_frame [OF s [unfolded p]] run_flush_frame [OF f] by (simp_all add: opaque_calls_def sets_of_def)
    with p f addToolCalls_Inr show ?thesis by simp
  qed
  have "(\<exists>en'. addModelMessage i m en = Inr en') \<longleftrightarrow>
      (\<exists>s. add_parts i 0 (cm_role m) ?ct (cm_parts m) (?run, en) = Inr s \<and> (\<exists>en'. ?calls s = Inr en'))"
    unfolding addModelMessage_def Let_def rbind_Inr_iff by blast
  also have "\<dots> \<longleftrightarrow> (\<exists>s. add_parts i 0 (cm_role m) ?ct (cm_parts m) (?run, en) = Inr s) \<and> ?ok"
    using calls by blast
  finally show ?thesis by (simp only: add_parts_Inr)
qed

lemma addModelMessage_frame:
  assumes "addModelMessage i m en = Inr en'"
  shows "set (en_pending en') = set (en_pending en) \<union> set (call_ids m) \<and>
    (distinct (en_pending en) \<longrightarrow> distinct (en_pending en')) \<and>
    set (en_seen en') = set (en_seen en) \<union> set (call_ids m) \<and>
    en_completed en' = en_completed en \<and> en_instructions en' = en_instructions en \<and>
    item_outputs (en_input en') = item_outputs (en_input en) \<and>
    mset (item_calls (en_input en')) = mset (item_calls (en_input en)) + mset (call_ids m)"
proof -
  let ?ct = "if cm_role m = RoleAssistant then ''output_text'' else ''input_text''"
  let ?run = "\<lparr>ru_role = cm_role m, ru_content = [], ru_calls = []\<rparr>"
  from assms obtain run en0 where p: "add_parts i 0 (cm_role m) ?ct (cm_parts m) (?run, en) = Inr (run, en0)"
    and k: "(case run_flush (run, en0) of (run1, en1) \<Rightarrow> addToolCalls i (cm_tool_calls m) (ru_calls run1) en1) = Inr en'"
    by (auto simp: addModelMessage_def rbind_Inr_iff Let_def)
  obtain run1 en1 where f: "run_flush (run, en0) = (run1, en1)" by force
  with k have c: "addToolCalls i (cm_tool_calls m) (ru_calls run1) en1 = Inr en'" by simp
  from add_parts_frame [OF p] run_flush_frame [OF f] addToolCalls_frame [OF c]
  show ?thesis by (auto simp: sets_of_def call_ids_def)
qed

definition good :: "encoder \<Rightarrow> bool" where
  "good en \<longleftrightarrow> distinct (en_pending en) \<and> set (en_pending en) \<inter> set (en_completed en) = {} \<and>
    set (en_pending en) \<union> set (en_completed en) \<subseteq> set (en_seen en) \<and> '''' \<notin> set (en_seen en)"

lemma addToolOutput_Inr:
  assumes "good en"
  shows "(\<exists>en'. addToolOutput i m en = Inr en') \<longleftrightarrow> plain m \<and> cm_tool_call_id m \<in> set (en_pending en)"
proof -
  have "cm_tool_call_id m \<in> set (en_pending en) \<Longrightarrow> cm_tool_call_id m \<noteq> '''' \<and> cm_tool_call_id m \<notin> set (en_completed en)"
    using assms by (auto simp: good_def)
  then show ?thesis using plain_Inr [of m] by (auto simp: addToolOutput_def rbind_Inr_iff Let_def)
qed

lemma addMessage_Inr:
  assumes "good en"
  shows "(\<exists>en'. addMessage i m en = Inr en') \<longleftrightarrow>
    (if en_pending en = [] then message_ok (set (en_seen en)) m
     else answer_ok m \<and> cm_tool_call_id m \<in> set (en_pending en))"
proof (cases "cm_role m")
  case RoleSystem
  then have "(\<exists>en'. addMessage i m en = Inr en') \<longleftrightarrow>
      cm_tool_calls m = [] \<and> cm_tool_call_id m = '''' \<and> en_pending en = [] \<and> plain m"
    using plain_Inr [of m] by (auto simp: addMessage_def validateMessageRole_def addInstruction_def rbind_Inr_iff)
  with RoleSystem show ?thesis by (auto simp: message_ok_def answer_ok_def)
next
  case RoleTool
  then have "(\<exists>en'. addMessage i m en = Inr en') \<longleftrightarrow> cm_tool_calls m = [] \<and> (\<exists>en'. addToolOutput i m en = Inr en')"
    by (auto simp: addMessage_def validateMessageRole_def rbind_Inr_iff)
  with RoleTool addToolOutput_Inr [OF assms] show ?thesis by (auto simp: message_ok_def answer_ok_def)
next
  case RoleUnset
  then show ?thesis by (simp add: addMessage_def validateMessageRole_def rbind_Inr_iff message_ok_def answer_ok_def)
next
  case RoleUser
  then have "(\<exists>en'. addMessage i m en = Inr en') \<longleftrightarrow>
      cm_tool_calls m = [] \<and> cm_tool_call_id m = '''' \<and> en_pending en = [] \<and> (\<exists>en'. addModelMessage i m en = Inr en')"
    by (auto simp: addMessage_def validateMessageRole_def rbind_Inr_iff)
  with RoleUser addModelMessage_Inr [of i m en] show ?thesis by (auto simp: message_ok_def answer_ok_def)
next
  case RoleAssistant
  then have "(\<exists>en'. addMessage i m en = Inr en') \<longleftrightarrow>
      cm_tool_call_id m = '''' \<and> en_pending en = [] \<and> (\<exists>en'. addModelMessage i m en = Inr en')"
    by (auto simp: addMessage_def validateMessageRole_def rbind_Inr_iff)
  with RoleAssistant addModelMessage_Inr [of i m en] show ?thesis by (auto simp: message_ok_def answer_ok_def)
next
  case (RoleOther name)
  then have "(\<exists>en'. addMessage i m en = Inr en') \<longleftrightarrow> cm_role m = developer \<and>
      cm_tool_calls m = [] \<and> cm_tool_call_id m = '''' \<and> en_pending en = [] \<and> (\<exists>en'. addModelMessage i m en = Inr en')"
    by (auto simp: addMessage_def validateMessageRole_def rbind_Inr_iff)
  with RoleOther addModelMessage_Inr [of i m en] show ?thesis by (auto simp: message_ok_def answer_ok_def)
qed

text \<open>What a message does to the sets and the accounts of the encoder.\<close>

lemma addMessage_answer:
  assumes "good en" and "en_pending en \<noteq> []" and "addMessage i m en = Inr en'"
  shows "good en' \<and> en_pending en' = remove1 (cm_tool_call_id m) (en_pending en) \<and> en_seen en' = en_seen en \<and>
    item_calls (en_input en') = item_calls (en_input en) \<and>
    item_outputs (en_input en') = item_outputs (en_input en) @ [cm_tool_call_id m]"
proof -
  from assms addMessage_Inr [OF assms(1), of i m] have a: "answer_ok m" "cm_tool_call_id m \<in> set (en_pending en)" by auto
  with assms(3) have "addToolOutput i m en = Inr en'"
    by (auto simp: addMessage_def answer_ok_def rbind_Inr_iff split: if_split_asm)
  with assms(1) a(2) show ?thesis
    by (auto simp: addToolOutput_def rbind_Inr_iff Let_def good_def no_item_def split: if_split_asm)
qed

lemma addMessage_model:
  assumes "good en" and "en_pending en = []" and "addMessage i m en = Inr en'"
  shows "good en' \<and> mset (en_pending en') = mset (call_ids m) \<and> set (en_seen en') = set (en_seen en) \<union> set (call_ids m) \<and>
    mset (item_calls (en_input en')) = mset (item_calls (en_input en)) + mset (call_ids m) \<and>
    item_outputs (en_input en') = item_outputs (en_input en)"
proof -
  from assms addMessage_Inr [OF assms(1), of i m] have ok: "message_ok (set (en_seen en)) m" by auto
  show ?thesis
  proof (cases "cm_role m = RoleSystem")
    case True
    with assms ok show ?thesis
      by (auto simp: addMessage_def addInstruction_def message_ok_def call_ids_def good_def rbind_Inr_iff split: if_split_asm)
  next
    case False
    with assms(3) ok have a: "addModelMessage i m en = Inr en'"
      by (auto simp: addMessage_def message_ok_def rbind_Inr_iff split: if_split_asm)
    from ok False have calls: "calls_ok (set (en_seen en)) (cm_tool_calls m) (opaque_calls m)" by (auto simp: message_ok_def)
    then have new: "set (call_ids m) \<inter> set (en_seen en) = {}" "'''' \<notin> set (call_ids m)" "distinct (call_ids m)"
      by (auto simp: calls_ok_def call_ok_def call_ids_def)
    from addModelMessage_frame [OF a] assms(1,2) have p: "set (en_pending en') = set (call_ids m)" "distinct (en_pending en')"
      by (auto simp: good_def)
    then have "mset (en_pending en') = mset (call_ids m)" using new(3) by (metis set_eq_iff_mset_eq_distinct)
    with addModelMessage_frame [OF a] assms(1,2) new p show ?thesis by (auto simp: good_def)
  qed
qed

section \<open>The encoder and the conversations\<close>

lemma answered_mset: "mset P = mset Q \<Longrightarrow> answered P seen ms = answered Q seen ms"
  using answered_answers [of P seen ms] answered_answers [of Q seen ms] mset_eq_length [of P Q] by (simp add: Let_def)

lemma add_messages_Inr:
  "good en \<Longrightarrow> (\<exists>en'. add_messages i ms en = Inr en' \<and> en_pending en' = []) \<longleftrightarrow> answered (en_pending en) (set (en_seen en)) ms"
proof (induction ms arbitrary: i en)
  case (Cons m ms)
  have "(\<exists>en'. add_messages i (m # ms) en = Inr en' \<and> en_pending en' = []) \<longleftrightarrow>
      (\<exists>en1. addMessage i m en = Inr en1 \<and> (\<exists>en'. add_messages (Suc i) ms en1 = Inr en' \<and> en_pending en' = []))"
    by (auto simp: rbind_Inr_iff)
  also have "\<dots> \<longleftrightarrow> answered (en_pending en) (set (en_seen en)) (m # ms)"
  proof (cases "en_pending en = []")
    case True
    have "(\<exists>en'. add_messages (Suc i) ms en1 = Inr en' \<and> en_pending en' = []) \<longleftrightarrow>
        answered (call_ids m) (set (en_seen en) \<union> set (call_ids m)) ms" if "addMessage i m en = Inr en1" for en1
      using Cons.IH [of en1] addMessage_model [OF Cons.prems True that] answered_mset [of "en_pending en1" "call_ids m"] by simp
    with True addMessage_Inr [OF Cons.prems, of i m] show ?thesis by auto
  next
    case False
    have "(\<exists>en'. add_messages (Suc i) ms en1 = Inr en' \<and> en_pending en' = []) \<longleftrightarrow>
        answered (remove1 (cm_tool_call_id m) (en_pending en)) (set (en_seen en)) ms" if "addMessage i m en = Inr en1" for en1
      using Cons.IH [of en1] addMessage_answer [OF Cons.prems False that] by simp
    with False addMessage_Inr [OF Cons.prems, of i m] show ?thesis by auto
  qed
  finally show ?case .
qed simp

lemma good_new: "good new_encoder"
  by (simp add: good_def new_encoder_def)

lemma encodes_iff: "(\<exists>r. encodeMessages ms = Inr r) \<longleftrightarrow> conversation {} ms"
proof -
  have "(\<exists>r. encodeMessages ms = Inr r) \<longleftrightarrow> (\<exists>en'. add_messages 0 ms new_encoder = Inr en' \<and> en_pending en' = [])"
    by (auto simp: encodeMessages_def rbind_Inr_iff)
  also have "\<dots> \<longleftrightarrow> answered [] {} ms"
    using add_messages_Inr [OF good_new, of 0 ms] by (simp add: new_encoder_def)
  finally show ?thesis by (simp add: conversation_answered)
qed

lemma add_messages_items:
  "good en \<Longrightarrow> add_messages i ms en = Inr en' \<Longrightarrow> good en' \<and>
    mset (item_calls (en_input en')) = mset (item_calls (en_input en)) + mset (concat (map call_ids ms)) \<and>
    item_outputs (en_input en') = item_outputs (en_input en) @
      map cm_tool_call_id (filter (\<lambda>m. cm_role m = RoleTool) ms)"
proof (induction ms arbitrary: i en)
  case (Cons m ms)
  then obtain en1 where a: "addMessage i m en = Inr en1" and r: "add_messages (Suc i) ms en1 = Inr en'"
    by (auto simp: rbind_Inr_iff)
  show ?case
  proof (cases "en_pending en = []")
    case True
    with addMessage_Inr [OF Cons.prems(1), of i m] a have "cm_role m \<noteq> RoleTool" by (auto simp: message_ok_def)
    with Cons.IH [OF _ r] addMessage_model [OF Cons.prems(1) True a] show ?thesis by simp
  next
    case False
    with addMessage_Inr [OF Cons.prems(1), of i m] a have "cm_role m = RoleTool" "call_ids m = []"
      by (auto simp: answer_ok_def call_ids_def)
    with Cons.IH [OF _ r] addMessage_answer [OF Cons.prems(1) False a] show ?thesis by simp
  qed
qed simp

end
