(* ===== verification/Codex_Replay.thy ===== *)
theory Codex_Replay
  imports Codex_Stream_Proofs Codex_Transcript
begin

text \<open>
  What a stream gives can be sent again: the assistant's message of a completed response, followed
  by one answer for each of its calls, extends an accepted conversation to an accepted one. The
  opaque parts of the message hold the calls of the message, and nothing else.
\<close>

section \<open>The opaque parts\<close>

text \<open>An item that reads the same after its members are sorted, and fits a frame again.\<close>

definition clear_item :: "bytes \<Rightarrow> bool" where
  "clear_item t \<longleftrightarrow> length (canonical_of t) \<le> maxStreamFrameBytes \<and>
    (case parse_json t of Some (JObject kvs) \<Rightarrow> unambiguous kvs | _ \<Rightarrow> True)"

lemma state_decoded:
  assumes "item_ok t" and "clear_item t"
  shows "\<exists>item. decodeResponseState (canonical_of t) = Inr (item, state_of (item_of t))"
proof -
  from assms(1) have c: "canonicalResponseState t = Inr (canonical_of t)"
    and u: "unmarshal output_item_fields t no_output_item = Some (item_of t)" by (simp_all add: item_ok_def)
  from canonical_Inr [OF c] obtain kvs where p: "parse_json t = Some (JObject kvs)" by blast
  with assms(2) have un: "unambiguous kvs" and len: "\<not> length (canonical_of t) > maxStreamFrameBytes"
    by (simp_all add: clear_item_def)
  from canonical_state [OF p un u c] have s: "unmarshal state_fields (canonical_of t) no_state = Some (state_of (item_of t))"
    "json_valid (canonical_of t)" "canonical_of t \<noteq> []"
    "canonicalResponseState (canonical_of t) = Inr (print_json (JObject (canonical_members (canonical_members kvs))))"
    by simp_all
  have "check_state (state_of (item_of t)) = Inr ()"
    using assms(1) by (auto simp: item_ok_def check_state_def state_of_def guard_r_def)
  with s len show ?thesis by (simp add: decodeResponseState_def)
qed

definition opaque_form :: "call \<Rightarrow> call" where
  "opaque_form c = c\<lparr>cl_source_ref := ''''\<rparr>"

lemma opaque_state_part:
  assumes "item_ok t" and "clear_item t"
  shows "opaque_call (state_part t) = map_option opaque_form (item_call t) \<and> part_ok RoleAssistant (state_part t)"
  using state_decoded [OF assms]
  by (auto simp: opaque_call_def state_part_def item_call_def state_of_def opaque_form_def part_ok_def)

lemma map_filter_cong': "(\<And>x. x \<in> set xs \<Longrightarrow> f x = g x) \<Longrightarrow> List.map_filter f xs = List.map_filter g xs"
  by (induction xs) (simp_all add: List.map_filter_simps split: option.split)

lemma map_filter_map_option: "List.map_filter (\<lambda>x. map_option f (g x)) xs = map f (List.map_filter g xs)"
  by (induction xs) (simp_all add: List.map_filter_simps split: option.split)

lemma map_filter_append: "List.map_filter f (xs @ ys) = List.map_filter f xs @ List.map_filter f ys"
  by (simp add: List.map_filter_def)

lemma opaque_text [simp]: "opaque_call (text_part s) = None" "part_ok r (text_part s)"
  by (simp_all add: opaque_call_def text_part_def part_ok_def)

lemma messageParts_set: "set (messageParts r) \<subseteq> set (sr_state_parts r) \<union> {text_part (sr_text r)}"
  by (auto simp: messageParts_def Let_def dest: in_set_takeD in_set_dropD)

lemma messageParts_opaque: "List.map_filter opaque_call (messageParts r) = List.map_filter opaque_call (sr_state_parts r)"
proof -
  have "List.map_filter opaque_call (take n xs @ [text_part s] @ drop n xs) = List.map_filter opaque_call xs" for n xs s
  proof -
    have "List.map_filter opaque_call (take n xs) @ List.map_filter opaque_call (drop n xs) = List.map_filter opaque_call xs"
      by (metis append_take_drop_id map_filter_append)
    then show ?thesis by (simp add: map_filter_append List.map_filter_simps)
  qed
  then show ?thesis by (simp add: messageParts_def Let_def)
qed

lemma inv_parts:
  assumes "stream_inv items r" and "\<forall>t \<in> set items. clear_item t"
  shows "List.map_filter opaque_call (messageParts r) = map opaque_form (sr_calls r) \<and>
    (\<forall>p \<in> set (messageParts r). part_ok RoleAssistant p)"
proof -
  from assms have parts: "sr_state_parts r = map state_part items" and calls: "sr_calls r = List.map_filter item_call items"
    and ok: "\<forall>t \<in> set items. opaque_call (state_part t) = map_option opaque_form (item_call t) \<and> part_ok RoleAssistant (state_part t)"
    using opaque_state_part by (auto simp: stream_inv_def)
  have "List.map_filter opaque_call (map state_part items) = List.map_filter (\<lambda>t. map_option opaque_form (item_call t)) items"
    using ok by (induction items) (simp_all add: List.map_filter_simps split: option.split)
  with parts calls show ?thesis
    using ok messageParts_set [of r] by (auto simp: messageParts_opaque map_filter_map_option)
qed

lemma equalJSON_refl: "json_valid a \<Longrightarrow> equalJSON a a"
  by (auto simp: equalJSON_def compact_print json_valid_def)

lemma inv_call:
  assumes "stream_inv items r" and "c \<in> set (sr_calls r)"
  shows "cl_id c \<noteq> '''' \<and> cl_name c \<noteq> '''' \<and> cl_arguments_ref c = '''' \<and> json_valid (cl_arguments c) \<and> cl_arguments c \<noteq> []"
proof -
  from assms obtain t where t: "t \<in> set items" "item_call t = Some c"
    by (auto simp: stream_inv_def List.map_filter_def)
  with assms(1) have "item_ok t" by (simp add: stream_inv_def)
  with t(2) have "json_valid (cl_arguments c)" "cl_id c \<noteq> ''''" "cl_name c \<noteq> ''''" "cl_arguments_ref c = ''''"
    by (auto simp: item_ok_def item_call_def split: if_split_asm)
  moreover from this(1) have "cl_arguments c \<noteq> []" by (auto simp: json_valid_def parse_json_def parse_tokens_def)
  ultimately show ?thesis by simp
qed

lemma inv_calls_ok:
  assumes "stream_inv items r" and "cl_id ` set (sr_calls r) \<inter> seen = {}"
  shows "calls_ok seen (sr_calls r) (map opaque_form (sr_calls r))"
  using assms inv_call [OF assms(1)]
  by (force simp: calls_ok_def call_ok_def same_call_def opaque_form_def call_arguments_def equalJSON_refl stream_inv_def o_def)

section \<open>The response\<close>

lemma response_cases:
  assumes "stream_response r = Inr a"
  obtains (tools) "sr_calls r \<noteq> []" "sr_refusal r = ''''" "ma_intent a = ToolCallIntent"
      "ma_message a = (assistant_message (messageParts r))\<lparr>cm_tool_calls := sr_calls r\<rparr>"
  | (refusal) "sr_calls r = []" "sr_refusal r \<noteq> ''''"
      "ma_intent a = RefusalIntent ''provider_refusal'' (assistant_message [text_part (sr_refusal r)]) (sr_response_id r)"
      "ma_message a = (if messageParts r = [] then assistant_message [text_part (sr_refusal r)] else assistant_message (messageParts r))"
  | (final) "sr_calls r = []" "sr_refusal r = ''''" "ma_intent a = FinalIntent"
      "ma_message a = assistant_message (messageParts r)"
  using assms
  by (auto simp: stream_response_def responseIntent_def refusalIntent_def rbind_Inr_iff Let_def assistant_message_def split: if_split_asm)

lemma response_calls: "stream_response r = Inr a \<Longrightarrow> cm_tool_calls (ma_message a) = sr_calls r"
  by (erule response_cases) (auto simp: assistant_message_def)

lemma response_message_ok:
  assumes inv: "stream_inv items r" and clear: "\<forall>t \<in> set items. clear_item t" and a: "stream_response r = Inr a"
    and fresh: "cl_id ` set (sr_calls r) \<inter> seen = {}"
  shows "message_ok seen (ma_message a)"
proof -
  note parts = inv_parts [OF inv clear]
  note calls = inv_calls_ok [OF inv fresh]
  have none: "calls_ok seen [] []" by (simp add: calls_ok_def)
  from a show ?thesis
  proof (cases rule: response_cases)
    case tools
    with parts calls show ?thesis by (simp add: message_ok_def assistant_message_def opaque_calls_def)
  next
    case refusal
    with parts none show ?thesis
      by (auto simp: message_ok_def assistant_message_def opaque_calls_def List.map_filter_simps)
  next
    case final
    with parts none show ?thesis by (simp add: message_ok_def assistant_message_def opaque_calls_def)
  qed
qed

section \<open>Extending a conversation\<close>

lemma answered_append:
  "answered pending seen ms \<Longrightarrow> answered pending seen (ms @ rest) \<longleftrightarrow> answered [] (seen \<union> set (concat (map call_ids ms))) rest"
proof (induction ms arbitrary: pending seen)
  case (Cons m ms)
  show ?case
  proof (cases "pending = []")
    case True
    with Cons show ?thesis by (simp add: Un_assoc)
  next
    case False
    with Cons have "call_ids m = []" by (auto simp: answer_ok_def call_ids_def)
    with False Cons show ?thesis by simp
  qed
qed simp

lemma conversation_extends:
  assumes "conversation {} ms" and "message_ok (set (concat (map call_ids ms))) m"
    and "\<forall>a \<in> set answers. answer_ok a" and "mset (map cm_tool_call_id answers) = mset (call_ids m)"
  shows "conversation {} (ms @ m # answers)"
proof -
  from assms(1) have "answered [] {} ms" by (simp add: conversation_answered)
  moreover have "length answers = length (call_ids m)" using assms(4) by (metis length_map mset_eq_length)
  then have "answered (call_ids m) (set (concat (map call_ids ms)) \<union> set (call_ids m)) answers"
    using assms(3,4) answered_answers [of "call_ids m" _ answers] by (simp add: Let_def)
  ultimately show ?thesis
    using assms(2) answered_append [of "[]" "{}" ms "m # answers"] by (simp add: conversation_answered)
qed

section \<open>The text of a message\<close>

definition message_text :: "part list \<Rightarrow> string" where
  "message_text ps = concat (map pt_text (filter (\<lambda>p. pt_type p = PartText) ps))"

lemma state_parts_text: "sr_state_parts r = map state_part items \<Longrightarrow> message_text (messageParts r) = sr_text r"
proof -
  have none: "filter (\<lambda>p. pt_type p = PartText) (map state_part ts) = []" for ts
    by (simp add: filter_empty_conv state_part_def)
  assume "sr_state_parts r = map state_part items"
  moreover have "pt_type (text_part v) = PartText" "pt_text (text_part v) = v" for v by (simp_all add: text_part_def)
  ultimately show ?thesis by (auto simp: messageParts_def message_text_def Let_def take_map drop_map none)
qed

end
