(* ===== verification/Codex_Model.thy ===== *)
theory Codex_Model
  imports Codex_Stream
begin

text \<open>
  \<open>src/models/openai/codex/codex.go\<close>: the validation of a model, the attempts of a call with the
  refresh of its tokens and the delays between them, the errors of the backend, and a call from
  the request to the response. The token source, the HTTP client, the clock and the context
  answer as functions of the effects so far; a URL is what \<open>url.Parse\<close> makes of a text.
\<close>

section \<open>Header values, statuses and delays\<close>

text \<open>\<open>strings.TrimSpace\<close> changes a value only when it starts or ends with a space.\<close>

definition validHeaderValue :: "string \<Rightarrow> bool" where
  "validHeaderValue value \<longleftrightarrow> value \<noteq> '''' \<and> (\<forall>c \<in> set value. 0x21 \<le> (of_char c :: nat) \<and> (of_char c :: nat) \<le> 0x7e)"

definition successfulStatus :: "int \<Rightarrow> bool" where
  "successfulStatus status \<longleftrightarrow> 200 \<le> status \<and> status < 300"

definition retryableStatus :: "int \<Rightarrow> bool" where
  "retryableStatus status \<longleftrightarrow> status = 429 \<or> 500 \<le> status"

definition second :: duration where "second = 1000000000"
definition defaultRetryDelay :: duration where "defaultRetryDelay = 200000000"
definition maximumRetryAfter :: duration where "maximumRetryAfter = 30 * second"

text \<open>\<open>strconv.Atoi\<close>.\<close>

definition atoi :: "string \<Rightarrow> int option" where
  "atoi s =
    (let neg = has_prefix s ''-''; ds = (if neg \<or> has_prefix s ''+'' then drop 1 s else s);
         n = (if neg then - int (digits_value ds) else int (digits_value ds))
     in if ds \<noteq> [] \<and> (\<forall>c \<in> set ds. is_digit c) \<and> - (2 ^ 63) \<le> n \<and> n < 2 ^ 63 then Some n else None)"

text \<open>\<open>date\<close> is what \<open>http.ParseTime\<close> makes of the value.\<close>

definition parseRetryAfter :: "string \<Rightarrow> instant option \<Rightarrow> instant \<Rightarrow> duration option" where
  "parseRetryAfter value date now =
    (if value = '''' then None
     else case (case atoi value of Some seconds \<Rightarrow> if 0 \<le> seconds then Some seconds else None | None \<Rightarrow> None) of
         Some seconds \<Rightarrow> Some (if seconds > maximumRetryAfter div second then maximumRetryAfter else seconds * second)
       | None \<Rightarrow>
           (case date of
              None \<Rightarrow> None
            | Some when \<Rightarrow> if when < now then None else Some (when - now)))"

record http_response =
  hr_status :: int
  hr_request_id :: string
  hr_retry_after :: string
  hr_retry_date :: "instant option"
  hr_model :: string
  hr_x_model :: string
  hr_etag :: string
  hr_body :: bytes
  hr_body_err :: "agent_error option"

fun backoff :: "nat \<Rightarrow> duration \<Rightarrow> duration" where
  "backoff 0 delay = delay"
| "backoff (Suc steps) delay =
    (let doubled = delay * 2 in if doubled \<ge> maximumRetryAfter then maximumRetryAfter else backoff steps doubled)"

definition retryDelay :: "http_response option \<Rightarrow> int \<Rightarrow> instant \<Rightarrow> duration" where
  "retryDelay resp attempt now =
    (case (case resp of None \<Rightarrow> None | Some r \<Rightarrow> parseRetryAfter (hr_retry_after r) (hr_retry_date r) now) of
       Some delay \<Rightarrow> min delay maximumRetryAfter
     | None \<Rightarrow> backoff (nat (attempt - 1)) defaultRetryDelay)"

section \<open>Errors of the backend\<close>

record http_error =
  he_status :: int
  he_request_id :: string
  he_code :: string
  he_message :: string
  he_retryable :: bool

text \<open>\<open>http.StatusText\<close> of the status is the argument \<open>text\<close>; a nil error is \<open>None\<close>.\<close>

definition http_error_text :: "string \<Rightarrow> http_error option \<Rightarrow> agent_error" where
  "http_error_text status_text err = (case err of
     None \<Rightarrow> Errorf ''codex: http error'' []
   | Some e \<Rightarrow>
       (let detail = (if he_code e \<noteq> '''' then (if he_message e = '''' then he_code e else he_code e @ '': '' @ he_message e)
              else he_message e)
        in Errorf ''codex: status %d: %s'' [Num (he_status e), Str (if detail = '''' then status_text else detail)]))"

record error_body =
  eb_detail :: string
  eb_error :: failure_error

definition error_body_fields :: "error_body fields" where
  "error_body_fields = [(''detail'', string_field eb_detail_update),
     (''error'', struct_field eb_error eb_error_update
        [(''code'', string_field fe_code_update), (''message'', string_field fe_message_update)])]"

text \<open>\<open>strings.TrimSpace\<close>: the white space of Unicode in UTF-8.\<close>

definition space_runes :: "string list" where
  "space_runes = [[CHR 0x09], [CHR 0x0A], [CHR 0x0B], [CHR 0x0C], [CHR 0x0D], [CHR 0x20], [CHR 0xC2, CHR 0x85], [CHR 0xC2, CHR 0xA0],
     [CHR 0xE1, CHR 0x9A, CHR 0x80], [CHR 0xE2, CHR 0x80, CHR 0xA8], [CHR 0xE2, CHR 0x80, CHR 0xA9], [CHR 0xE2, CHR 0x80, CHR 0xAF],
     [CHR 0xE2, CHR 0x81, CHR 0x9F], [CHR 0xE3, CHR 0x80, CHR 0x80]] @
     map (\<lambda>k. [CHR 0xE2, CHR 0x80, byte_at (0x80 + k)]) [0..<11]"

lemma prefix_shrinks: "w \<noteq> [] \<Longrightarrow> has_prefix s w \<Longrightarrow> length s - length w < length s"
  by (cases s) (auto simp: has_prefix_def)

function trim_words :: "string list \<Rightarrow> string \<Rightarrow> string" where
  "trim_words ws s = (case find (\<lambda>w. w \<noteq> [] \<and> has_prefix s w) ws of
     None \<Rightarrow> s | Some w \<Rightarrow> trim_words ws (drop (length w) s))"
  by pat_completeness auto

termination
  by (relation "measure (\<lambda>(ws, s). length s)") (auto simp: find_Some_iff prefix_shrinks)

declare trim_words.simps [simp del]

definition trim_space :: "string \<Rightarrow> string" where
  "trim_space s = rev (trim_words (map rev space_runes) (rev (trim_words space_runes s)))"

definition parseErrorBody :: "bytes \<Rightarrow> string \<times> string" where
  "parseErrorBody encoded =
    (case unmarshal error_body_fields encoded \<lparr>eb_detail = '''', eb_error = \<lparr>fe_code = '''', fe_message = ''''\<rparr>\<rparr> of
       Some body \<Rightarrow>
         if fe_code (eb_error body) \<noteq> '''' \<or> fe_message (eb_error body) \<noteq> ''''
         then (fe_code (eb_error body), fe_message (eb_error body))
         else if eb_detail body \<noteq> '''' then ('''', eb_detail body)
         else ('''', trim_space encoded)
     | None \<Rightarrow> ('''', trim_space encoded))"

definition maxHTTPErrorBytes :: nat where "maxHTTPErrorBytes = 65536"

text \<open>A read that fails within the limit is an error of the read.\<close>

definition httpError :: "http_response \<Rightarrow> tokens \<Rightarrow> http_error" where
  "httpError resp t =
    (let base = \<lparr>he_status = hr_status resp, he_request_id = hr_request_id resp, he_code = '''', he_message = '''',
           he_retryable = retryableStatus (hr_status resp)\<rparr>
     in if hr_body_err resp \<noteq> None \<and> length (hr_body resp) \<le> maxHTTPErrorBytes
        then base\<lparr>he_message := ''failed to read error response''\<rparr>
        else
          (let (code, message) = parseErrorBody (take maxHTTPErrorBytes (hr_body resp))
           in base\<lparr>he_code := code, he_message := redactTokens message t\<rparr>))"

section \<open>Tokens\<close>

definition validateTokens :: "tokens \<Rightarrow> agent_error + unit" where
  "validateTokens t =
    (if tk_access t = '''' then Inl (Errorf ''codex: access token is empty'' [])
     else if \<not> validHeaderValue (tk_access t) then Inl (Errorf ''codex: access token is invalid'' [])
     else if tk_account t \<noteq> '''' \<and> \<not> validHeaderValue (tk_account t) then Inl (Errorf ''codex: account id is invalid'' [])
     else Inr ())"

section \<open>Attempts\<close>

text \<open>
  The effects of a call. \<open>Sent\<close> is a request with its headers for the access token and the
  account and its payload, \<open>Fetched\<close> a request of an account call with its URL; the answers of
  the outside are functions of the effects before.
\<close>

datatype call_effect =
    TokenAsked | TokenRefreshed
  | Sent "(string \<times> string) list" bytes
  | Fetched string "(string \<times> string) list"
  | Waited duration

type_synonym call_log = "call_effect list"

record call_env =
  ce_token :: "call_log \<Rightarrow> agent_error + tokens"
  ce_refresh :: "(call_log \<Rightarrow> agent_error + tokens) option"
  ce_send :: "call_log \<Rightarrow> http_response option \<times> agent_error option"
  ce_ctx_err :: "call_log \<Rightarrow> bool"
  ce_wait :: "call_log \<Rightarrow> agent_error option"
  ce_now :: "call_log \<Rightarrow> instant"

text \<open>Of the token source and of the HTTP client the model keeps whether they are set.\<close>

record codex_model =
  md_base_url :: string
  md_source :: bool
  md_http_client :: bool
  md_default :: model_request
  md_timeout :: duration
  md_max_attempts :: int
  md_originator :: string
  md_client_version :: string
  md_allow_http :: bool
  md_config_err :: "agent_error list"

record attempt =
  at_response :: "http_response option"
  at_tokens :: tokens
  at_err :: "agent_error option"

definition defaultUserAgent :: string where "defaultUserAgent = ''gopact-ext/openai-codex''"

definition request_headers :: "string \<Rightarrow> tokens \<Rightarrow> (string \<times> string) list" where
  "request_headers originator t =
    [(''Authorization'', ''Bearer '' @ tk_access t)] @
    (if tk_account t \<noteq> '''' then [(''ChatGPT-Account-ID'', tk_account t)] else []) @
    [(''Accept'', ''text/event-stream''), (''Content-Type'', ''application/json''), (''Originator'', originator),
     (''User-Agent'', defaultUserAgent)]"

type_synonym 'a call_step = "call_log \<Rightarrow> call_log \<times> (agent_error + 'a)"

definition send_request :: "call_env \<Rightarrow> string \<Rightarrow> bytes \<Rightarrow> tokens \<Rightarrow> attempt call_step" where
  "send_request env originator payload t log =
    (let log1 = log @ [Sent (request_headers originator t) payload]; (resp, err) = ce_send env log1
     in (log1, Inr \<lparr>at_response = resp, at_tokens = t, at_err = err\<rparr>))"

definition requestAttempt :: "call_env \<Rightarrow> string \<Rightarrow> bytes \<Rightarrow> attempt call_step" where
  "requestAttempt env originator payload log =
    (let log1 = log @ [TokenAsked] in
     case ce_token env log1 of
       Inl e \<Rightarrow> (log1, Inl (Wrapped ''codex: resolve tokens: %w'' [] e))
     | Inr t \<Rightarrow> (case validateTokens t of Inl e \<Rightarrow> (log1, Inl e) | Inr _ \<Rightarrow> send_request env originator payload t log1))"

definition refreshAttempt :: "call_env \<Rightarrow> string \<Rightarrow> bytes \<Rightarrow> attempt \<Rightarrow> (attempt \<times> bool) call_step" where
  "refreshAttempt env originator payload prior log =
    (case ce_refresh env of
       None \<Rightarrow> (log, Inr (prior, False))
     | Some refresh \<Rightarrow>
         (let log1 = log @ [TokenRefreshed] in
          case refresh log1 of
            Inl e \<Rightarrow> (log1, Inl (Wrapped ''codex: refresh after unauthorized: %w'' [] e))
          | Inr t \<Rightarrow>
              (case validateTokens t of
                 Inl e \<Rightarrow> (log1, Inl e)
               | Inr _ \<Rightarrow>
                   (case send_request env originator payload t log1 of
                      (log2, Inl e) \<Rightarrow> (log2, Inl e) | (log2, Inr a) \<Rightarrow> (log2, Inr (a, True))))))"

definition needsRefresh :: "attempt \<Rightarrow> bool \<Rightarrow> bool" where
  "needsRefresh a refreshed \<longleftrightarrow> at_err a = None \<and>
    (case at_response a of None \<Rightarrow> False | Some r \<Rightarrow> hr_status r = 401) \<and> \<not> refreshed"

definition attempt_successful :: "attempt \<Rightarrow> bool" where
  "attempt_successful a \<longleftrightarrow> at_err a = None \<and>
    (case at_response a of None \<Rightarrow> False | Some r \<Rightarrow> successfulStatus (hr_status r))"

definition attempt_retryable :: "attempt \<Rightarrow> bool" where
  "attempt_retryable a \<longleftrightarrow> at_err a \<noteq> None \<or>
    (case at_response a of None \<Rightarrow> False | Some r \<Rightarrow> retryableStatus (hr_status r))"

datatype call_failure = Failed agent_error | Refused http_error

definition attemptError :: "attempt \<Rightarrow> call_failure" where
  "attemptError a = (case at_err a of
     Some e \<Rightarrow> Failed (Wrapped ''codex: send request: %w'' [] e)
   | None \<Rightarrow> (case at_response a of
       None \<Rightarrow> Failed (Errorf ''codex: send request returned no response'' [])
     | Some r \<Rightarrow> Refused (httpError r (at_tokens a))))"

definition refreshIfNeeded :: "call_env \<Rightarrow> string \<Rightarrow> bytes \<Rightarrow> attempt \<Rightarrow> bool \<Rightarrow> (attempt \<times> bool) call_step" where
  "refreshIfNeeded env originator payload prior refreshed log =
    (if \<not> needsRefresh prior refreshed then (log, Inr (prior, refreshed))
     else case refreshAttempt env originator payload prior log of
         (log1, Inl e) \<Rightarrow> (log1, Inl e)
       | (log1, Inr (current, didRefresh)) \<Rightarrow> (log1, Inr (current, refreshed \<or> didRefresh)))"

text \<open>The loop over the attempts from \<open>attempt\<close> on; \<open>left\<close> attempts are left.\<close>

fun open_attempts :: "call_env \<Rightarrow> string \<Rightarrow> bytes \<Rightarrow> nat \<Rightarrow> int \<Rightarrow> bool \<Rightarrow> call_log \<Rightarrow>
    call_log \<times> (call_failure + http_response \<times> tokens)" where
  "open_attempts env originator payload 0 attempt refreshed log =
    (log, Inl (Failed (Errorf ''codex: request attempts exhausted'' [])))"
| "open_attempts env originator payload (Suc left) attempt refreshed log =
    (case requestAttempt env originator payload log of
       (log1, Inl e) \<Rightarrow> (log1, Inl (Failed e))
     | (log1, Inr first) \<Rightarrow>
         (case refreshIfNeeded env originator payload first refreshed log1 of
            (log2, Inl e) \<Rightarrow> (log2, Inl (Failed e))
          | (log2, Inr (current, refreshed')) \<Rightarrow>
              (case (attempt_successful current, at_response current) of
                 (True, Some r) \<Rightarrow> (log2, Inr (r, at_tokens current))
               | _ \<Rightarrow>
                   if \<not> attempt_retryable current \<or> left = 0 \<or> ce_ctx_err env log2 then (log2, Inl (attemptError current))
                   else
                     (let delay = retryDelay (at_response current) attempt (ce_now env log2); log3 = log2 @ [Waited delay]
                      in case ce_wait env log3 of
                           Some e \<Rightarrow> (log3, Inl (Failed e))
                         | None \<Rightarrow> open_attempts env originator payload left (attempt + 1) refreshed' log3))))"

definition openStream :: "call_env \<Rightarrow> codex_model \<Rightarrow> bytes \<Rightarrow> call_log \<times> (call_failure + http_response \<times> tokens)" where
  "openStream env md payload = open_attempts env (md_originator md) payload (nat (md_max_attempts md)) 1 False []"

section \<open>A call\<close>

definition responseModel :: "http_response \<Rightarrow> string" where
  "responseModel r = (if hr_model r \<noteq> '''' then hr_model r else hr_x_model r)"

datatype 'a call_result = CallFailed call_failure | CallDone 'a

text \<open>\<open>execute\<close>: the effects of the call, what was delivered, and the state of the response.\<close>

definition execute :: "call_env \<Rightarrow> codex_model \<Rightarrow> bytes \<Rightarrow> sink option list \<Rightarrow>
    (delivery list \<Rightarrow> string \<Rightarrow> agent_error option) option \<Rightarrow> call_log \<times> delivery list \<times> stream_result call_result" where
  "execute env md payload sinks yield =
    (case openStream env md payload of
       (log, Inl f) \<Rightarrow> (log, [], CallFailed f)
     | (log, Inr (resp, t)) \<Rightarrow>
         (case consumeStream \<lparr>cs_tokens = t, cs_sinks = sinks, cs_yield = yield\<rparr>
             (newSSEDecoder (hr_body resp) (hr_body_err resp)) (new_result (responseModel resp)) [] of
            (out, Inl e) \<Rightarrow> (log, out, CallFailed (Failed e))
          | (out, Inr r) \<Rightarrow> (log, out, CallDone r)))"

record call_config =
  cc_sinks :: "sink option list"
  cc_extensions :: "string list"

definition resolveCallOptions :: "call_config \<Rightarrow> agent_error + call_config" where
  "resolveCallOptions config = (case cc_extensions config of
     [] \<Rightarrow> Inr config | key # _ \<Rightarrow> Inl (Errorf ''codex: unknown call extension %q'' [Str key]))"

definition Invoke :: "call_env \<Rightarrow> codex_model option \<Rightarrow> model_request \<Rightarrow> call_config \<Rightarrow> call_log \<times> delivery list \<times> model_answer call_result" where
  "Invoke env md rq config = (case md of
     None \<Rightarrow> ([], [], CallFailed (Failed (Errorf ''codex: model is nil'' [])))
   | Some model \<Rightarrow>
       (case rbind (resolveCallOptions config) (\<lambda>c. rbind (responsesPayload rq) (\<lambda>payload. Inr (c, payload))) of
          Inl e \<Rightarrow> ([], [], CallFailed (Failed e))
        | Inr (c, payload) \<Rightarrow>
            (case execute env model payload (cc_sinks c) None of
               (log, out, CallFailed f) \<Rightarrow> (log, out, CallFailed f)
             | (log, out, CallDone r) \<Rightarrow>
                 (log, out, case stream_response r of Inl e \<Rightarrow> CallFailed (Failed e) | Inr a \<Rightarrow> CallDone a))))"

text \<open>
  \<open>InvokeStream\<close>: the consumer's answer to a chunk is \<open>wants\<close>; the last component is the error that
  is yielded at the end, when there is one.
\<close>

definition errStopIteration :: agent_error where
  "errStopIteration = Errorf ''codex: stream consumer stopped'' []"

fun is_stop :: "agent_error \<Rightarrow> bool" where
  "is_stop (Wrapped f args e) = is_stop e"
| "is_stop (Joined es) = (\<exists>e \<in> set es. is_stop e)"
| "is_stop e = (e = errStopIteration)"

definition failure_is_stop :: "call_failure \<Rightarrow> bool" where
  "failure_is_stop f = (case f of Failed e \<Rightarrow> is_stop e | Refused _ \<Rightarrow> False)"

definition InvokeStream :: "call_env \<Rightarrow> codex_model option \<Rightarrow> model_request \<Rightarrow> call_config \<Rightarrow>
    (delivery list \<Rightarrow> string \<Rightarrow> bool) \<Rightarrow> call_log \<times> delivery list \<times> call_failure option" where
  "InvokeStream env md rq config wants = (case md of
     None \<Rightarrow> ([], [], Some (Failed (Errorf ''codex: model is nil'' [])))
   | Some model \<Rightarrow>
       (case rbind (resolveCallOptions config) (\<lambda>c. rbind (responsesPayload rq) (\<lambda>payload. Inr (c, payload))) of
          Inl e \<Rightarrow> ([], [], Some (Failed e))
        | Inr (c, payload) \<Rightarrow>
            (case execute env model payload (cc_sinks c)
                (Some (\<lambda>out text. if wants out text then None else Some errStopIteration)) of
               (log, out, CallFailed f) \<Rightarrow> (log, out, if failure_is_stop f then None else Some f)
             | (log, out, CallDone _) \<Rightarrow> (log, out, None))))"

section \<open>The construction of a model\<close>

record url =
  url_scheme :: string
  url_host :: string
  url_user :: "string option"
  url_query :: string
  url_fragment :: string
  url_opaque :: string

definition validateBaseURL :: "url option \<Rightarrow> bool \<Rightarrow> agent_error + url" where
  "validateBaseURL parsed allowHTTP = (case parsed of
     None \<Rightarrow> Inl (Errorf ''codex: base url is invalid'' [])
   | Some u \<Rightarrow>
       if url_host u = '''' \<or> (url_scheme u \<noteq> ''http'' \<and> url_scheme u \<noteq> ''https'')
       then Inl (Errorf ''codex: base url is invalid'' [])
       else if url_scheme u = ''http'' \<and> \<not> allowHTTP
       then Inl (Errorf ''codex: HTTP base url requires WithInsecureHTTP'' [])
       else if url_user u \<noteq> None \<or> url_query u \<noteq> '''' \<or> url_fragment u \<noteq> '''' \<or> url_opaque u \<noteq> ''''
       then Inl (Errorf ''codex: base url must not contain credentials, query, or fragment'' [])
       else Inr u)"


definition validate_model :: "(string \<Rightarrow> url option) \<Rightarrow> codex_model \<Rightarrow> agent_error + url" where
  "validate_model parse md =
    rbind (if md_config_err md = [] then Inr () else Inl (Joined (md_config_err md))) (\<lambda>_.
    rbind (guard_r (md_source md) (Errorf ''codex: token source is required'' [])) (\<lambda>_.
    rbind (guard_r (md_http_client md) (Errorf ''codex: http client is nil'' [])) (\<lambda>_.
    rbind (guard_r (0 < md_timeout md) (Errorf ''codex: timeout must be positive'' [])) (\<lambda>_.
    rbind (guard_r (0 < md_max_attempts md) (Errorf ''codex: max attempts must be positive'' [])) (\<lambda>_.
    rbind (guard_r (validHeaderValue (md_originator md)) (Errorf ''codex: originator is invalid'' [])) (\<lambda>_.
    rbind (guard_r (validHeaderValue (md_client_version md)) (Errorf ''codex: client version is invalid'' [])) (\<lambda>_.
    rbind (validateBaseURL (parse (md_base_url md)) (md_allow_http md)) (\<lambda>base.
    rbind (validateModelRequest (md_default md) False) (\<lambda>_. Inr base)))))))))"

type_synonym model_option = "codex_model \<Rightarrow> codex_model"

definition trim_right_slash :: "string \<Rightarrow> string" where
  "trim_right_slash s = rev (dropWhile (\<lambda>c. c = CHR ''/'') (rev s))"

definition WithBaseURL :: "string \<Rightarrow> model_option" where
  "WithBaseURL baseURL md = md\<lparr>md_base_url := trim_right_slash baseURL\<rparr>"

text \<open>The argument says whether the client is set.\<close>

definition WithHTTPClient :: "bool \<Rightarrow> model_option" where
  "WithHTTPClient client md =
    (if client then md\<lparr>md_http_client := True\<rparr>
     else md\<lparr>md_config_err := md_config_err md @ [Errorf ''codex: http client is nil'' []]\<rparr>)"

definition WithDefaultRequest :: "model_request \<Rightarrow> model_option" where
  "WithDefaultRequest rq md = md\<lparr>md_default := rq\<rparr>"

definition WithTimeout :: "duration \<Rightarrow> model_option" where
  "WithTimeout timeout md = md\<lparr>md_timeout := timeout\<rparr>"

definition WithMaxAttempts :: "int \<Rightarrow> model_option" where
  "WithMaxAttempts attempts md = md\<lparr>md_max_attempts := attempts\<rparr>"

definition WithOriginator :: "string \<Rightarrow> model_option" where
  "WithOriginator originator md = md\<lparr>md_originator := originator\<rparr>"

definition WithClientVersion :: "string \<Rightarrow> model_option" where
  "WithClientVersion version md = md\<lparr>md_client_version := version\<rparr>"

definition WithInsecureHTTP :: model_option where
  "WithInsecureHTTP md = md\<lparr>md_allow_http := True\<rparr>"

definition empty_request :: model_request where
  "empty_request = \<lparr>mr_model = '''', mr_messages = [], mr_tools = [], mr_tool_choice = \<lparr>ch_mode = ChoiceUnset, ch_name = ''''\<rparr>,
    mr_max_output_tokens = 0, mr_temperature = None, mr_top_p = None, mr_stop = [], mr_seed = None, mr_modalities = [],
    mr_output_protocols = [], mr_schema_uri = '''', mr_schema_value = [], mr_effort = '''', mr_metadata = [], mr_extensions = []\<rparr>"

definition default_model :: "string \<Rightarrow> bool \<Rightarrow> codex_model" where
  "default_model name source =
    \<lparr>md_base_url = ''https://chatgpt.com/backend-api/codex'', md_source = source, md_http_client = True,
      md_default = empty_request\<lparr>mr_model := name\<rparr>, md_timeout = 300 * second, md_max_attempts = 3,
      md_originator = ''gopact-ext'', md_client_version = ''0.144.0'', md_allow_http = False, md_config_err = []\<rparr>"

text \<open>\<open>New\<close>: an option that is nil is \<open>None\<close>.\<close>

definition new_model :: "(string \<Rightarrow> url option) \<Rightarrow> string \<Rightarrow> bool \<Rightarrow> model_option option list \<Rightarrow> agent_error + codex_model" where
  "new_model parse name source opts =
    (let md = fold (\<lambda>opt md. case opt of None \<Rightarrow> md | Some f \<Rightarrow> f md) opts (default_model name source);
         md1 = (if mr_model (md_default md) = '''' then md\<lparr>md_default := (md_default md)\<lparr>mr_model := name\<rparr>\<rparr> else md)
     in rbind (validate_model parse md1) (\<lambda>_. Inr md1))"

definition NewRequest :: "codex_model option \<Rightarrow> chat_message list \<Rightarrow> model_request" where
  "NewRequest md messages = (case md of
     None \<Rightarrow> empty_request | Some model \<Rightarrow> (md_default model)\<lparr>mr_messages := messages\<rparr>)"

section \<open>Redirects\<close>

text \<open>
  An origin is the scheme, the host name and the port of a URL; \<open>strings.EqualFold\<close> compares
  schemes and host names, which are ASCII. The policy of the caller is its answer, when it has one.
\<close>

record origin =
  og_scheme :: string
  og_hostname :: string
  og_port :: string

definition effectivePort :: "origin \<Rightarrow> string" where
  "effectivePort u = (if og_port u \<noteq> '''' then og_port u
     else if og_scheme u = ''https'' then ''443'' else if og_scheme u = ''http'' then ''80'' else '''')"

definition sameOrigin :: "origin \<Rightarrow> origin \<Rightarrow> bool" where
  "sameOrigin left right \<longleftrightarrow> to_lower (og_scheme left) = to_lower (og_scheme right) \<and>
    to_lower (og_hostname left) = to_lower (og_hostname right) \<and> effectivePort left = effectivePort right"

definition check_redirect :: "origin \<Rightarrow> agent_error option option \<Rightarrow> origin \<Rightarrow> nat \<Rightarrow> agent_error option" where
  "check_redirect base callerPolicy target via =
    (if via \<ge> 10 then Some (Errorf ''codex: stopped after too many redirects'' [])
     else if \<not> sameOrigin base target then Some (Errorf ''codex: refusing cross-origin redirect'' [])
     else case callerPolicy of None \<Rightarrow> None | Some answer \<Rightarrow> answer)"

end
