(* ===== verification/Codex_Examples.thy ===== *)
theory Codex_Examples
  imports Codex_Replay Codex_Model
begin

text \<open>
  A conversation of two turns at concrete values: a response with a piece of text and a function
  call, as the stream of its three events, and the answer to the call. The texts are printed from
  values, so that parsing them is the round trip of \<open>Json\<close>.
\<close>

section \<open>Plain texts\<close>

definition plain_text :: "string \<Rightarrow> bool" where
  "plain_text s \<longleftrightarrow> list_all (\<lambda>c. 32 \<le> (of_char c :: nat) \<and> (of_char c :: nat) < 128 \<and> c \<noteq> CHR 0x22 \<and>
    c \<noteq> CHR 0x5C \<and> \<not> html_char c) s"

lemma plain_string_text: "plain_text s \<Longrightarrow> string_text s"
  by (induction s) (auto simp: plain_text_def less_char_def intro: string_text.intros)

lemma plain_unquote: "plain_text s \<Longrightarrow> unquote s = s"
  by (induction s) (simp_all add: plain_text_def unquote_ascii)

lemma plain_quote: "plain_text s \<Longrightarrow> quote_text s = s"
  by (induction s) (auto simp: plain_text_def quote_ascii_def less_char_def)

lemma plain_html: "plain_text s \<Longrightarrow> html_escape s = s"
proof (induction s)
  case (Cons c s)
  then have "\<not> html_char c" "c \<noteq> CHR 0xE2" by (auto simp: plain_text_def)
  with Cons show ?case by (simp add: plain_text_def)
qed simp

section \<open>The stream\<close>

definition call_item :: json where
  "call_item = JObject [(''type'', JString ''function_call''), (''call_id'', JString ''c1''),
     (''name'', JString ''f''), (''arguments'', JString ''{}''), (''id'', JString ''fc_1'')]"

definition delta_event :: json where
  "delta_event = JObject [(''type'', JString ''response.output_text.delta''), (''delta'', JString ''Hi'')]"

definition item_event :: json where
  "item_event = JObject [(''type'', JString ''response.output_item.done''), (''item'', call_item)]"

definition done_event :: json where
  "done_event = JObject [(''type'', JString ''response.completed''), (''response'', JObject [(''id'', JString ''r1'')])]"

definition turn_events :: "string list" where
  "turn_events = map print_json [delta_event, item_event, done_event]"

definition turn_body :: bytes where
  "turn_body = concat (map sse_event turn_events)"

lemma plain_words:
  "plain_text ''type''" "plain_text ''function_call''" "plain_text ''call_id''" "plain_text ''c1''" "plain_text ''name''"
  "plain_text ''f''" "plain_text ''arguments''" "plain_text ''{}''" "plain_text ''id''" "plain_text ''fc_1''"
  "plain_text ''delta''" "plain_text ''Hi''" "plain_text ''item''" "plain_text ''response''" "plain_text ''r1''"
  "plain_text ''response.output_text.delta''" "plain_text ''response.output_item.done''" "plain_text ''response.completed''"
  by code_simp+

lemmas word_texts = plain_words [THEN plain_string_text]
lemmas word_unquotes = plain_words [THEN plain_unquote]
lemmas word_quotes = plain_words [THEN plain_quote]
lemmas word_htmls = plain_words [THEN plain_html]

lemma events_ok: "json_ok delta_event" "json_ok item_event" "json_ok done_event" "json_ok call_item"
  by (simp_all add: json_ok_iff delta_event_def item_event_def done_event_def call_item_def word_texts maxNestingDepth_def)

lemma events_sendable: "\<forall>v \<in> set turn_events. sendable v"
  by (simp add: turn_events_def sendable_def delta_event_def item_event_def done_event_def call_item_def print_json_def
    tokens_text_def newline_def maxStreamFrameBytes_def)

lemma event_names:
  "fold_name ''delta'' = ''DELTA''" "fold_name ''text'' = ''TEXT''" "fold_name ''item_id'' = ''ITEM_ID''"
  "fold_name ''code'' = ''CODE''" "fold_name ''message'' = ''MESSAGE''" "fold_name ''item'' = ''ITEM''"
  "fold_name ''response'' = ''RESPONSE''" "fold_name ''model'' = ''MODEL''" "fold_name ''usage'' = ''USAGE''"
  "fold_name ''end_turn'' = ''END_TURN''"
  by code_simp+

lemmas decoding = decodeStreamEvent_def unmarshal_def parse_print decode_struct_def field_of_def event_fields_def
  string_field_def event_names word_unquotes no_event_def

lemma decode_delta:
  "decodeStreamEvent (print_json delta_event) = Inr (no_event\<lparr>se_type := ''response.output_text.delta'', se_delta := ''Hi''\<rparr>)"
  using events_ok(1) raw_printed [of _ "''item''"] raw_printed [of _ "''response''"]
  by (simp add: decoding) (simp add: delta_event_def decoding)

lemma decode_item:
  "decodeStreamEvent (print_json item_event) =
    Inr (no_event\<lparr>se_type := ''response.output_item.done'', se_item := print_json call_item\<rparr>)"
  using events_ok(2) raw_printed [of _ "''item''"] raw_printed [of _ "''response''"]
  by (simp add: decoding) (simp add: item_event_def decoding)

lemma decode_done:
  "decodeStreamEvent (print_json done_event) =
    Inr (no_event\<lparr>se_type := ''response.completed'', se_response := print_json (JObject [(''id'', JString ''r1'')])\<rparr>)"
  using events_ok(3) raw_printed [of _ "''item''"] raw_printed [of _ "''response''"]
  by (simp add: decoding) (simp add: done_event_def decoding)

text \<open>A consumer that takes the text, and one sink.\<close>

definition turn_consumer :: consumer where
  "turn_consumer = \<lparr>cs_tokens = \<lparr>tk_access = ''secret'', tk_id = '''', tk_refresh = '''', tk_account = ''''\<rparr>,
    cs_sinks = [Some (\<lambda>_ _. None)], cs_yield = Some (\<lambda>_ _. None)\<rparr>"

definition the_call :: call where
  "the_call = \<lparr>cl_id = ''c1'', cl_name = ''f'', cl_arguments = ''{}'', cl_arguments_ref = '''', cl_source_ref = providerName\<rparr>"

definition canonical_item :: bytes where
  "canonical_item = print_json (JObject [(''arguments'', JString ''{}''), (''call_id'', JString ''c1''),
     (''name'', JString ''f''), (''type'', JString ''function_call'')])"

lemma call_members:
  "canonical_members [(''type'', JString ''function_call''), (''call_id'', JString ''c1''),
     (''name'', JString ''f''), (''arguments'', JString ''{}''), (''id'', JString ''fc_1'')] =
   [(''arguments'', JString ''{}''), (''call_id'', JString ''c1''), (''name'', JString ''f''), (''type'', JString ''function_call'')]"
  by (simp add: canonical_members_def object_map_def word_unquotes word_quotes word_htmls del: quote_text.simps)

lemma call_parsed: "parse_json (print_json call_item) = Some call_item"
  by (rule parse_print) (rule events_ok)

lemma call_canonical: "canonicalResponseState (print_json call_item) = Inr canonical_item"
  using canonical_text [OF call_parsed [unfolded call_item_def]]
  by (simp add: call_item_def [symmetric] call_members canonical_item_def)

lemma call_decoded: "unmarshal output_item_fields (print_json call_item) no_output_item =
    Some \<lparr>oi_id = ''fc_1'', oi_type = ''function_call'', oi_name = ''f'', oi_arguments = ''{}'', oi_call_id = ''c1'', oi_content = []\<rparr>"
  by (simp add: unmarshal_def call_parsed) (simp add: call_item_def decode_struct_def item_field_of string_field_def word_unquotes no_output_item_def)

lemma call_clear: "clear_item (print_json call_item)"
proof -
  have "length canonical_item \<le> maxStreamFrameBytes"
    by (simp add: canonical_item_def print_json_def tokens_text_def maxStreamFrameBytes_def)
  moreover have "unambiguous [(''type'', JString ''function_call''), (''call_id'', JString ''c1''),
     (''name'', JString ''f''), (''arguments'', JString ''{}''), (''id'', JString ''fc_1'')]"
    by (simp add: unambiguous_def folded_def word_unquotes)
  ultimately show ?thesis by (simp add: clear_item_def call_parsed canonical_of_def call_canonical) (simp add: call_item_def)
qed

definition turn_state :: stream_result where
  "turn_state = (new_result ''m'')\<lparr>sr_text := ''Hi'', sr_saw_text_delta := True, sr_text_started := True,
    sr_state_parts := [\<lparr>pt_type = response_item, pt_text = canonical_item, pt_ref = None\<rparr>],
    sr_state_bytes := length canonical_item, sr_calls := [the_call], sr_seen_call_ids := [''c1''],
    sr_response_id := ''r1'', sr_completed := True\<rparr>"

definition turn_log :: "delivery list" where
  "turn_log = [Emitted 0 (model_event_of MessageDelta [] ''Hi'' []), Yielded ''Hi'',
    Emitted 0 (model_event_of ToolCallDelta ''{}'' ''c1'' []), Emitted 0 (model_event_of FinishEvent [] ''tool_calls'' [])]"

lemmas running = eff_bind_def pure_r_def emitEvent_def yield_text_def bounded_def maxEventSummary_def maxOutputBytes_def
  maxStreamFrameBytes_def turn_consumer_def

lemma handle_delta:
  "handleEvent turn_consumer (no_event\<lparr>se_type := ''response.output_text.delta'', se_delta := ''Hi''\<rparr>) (new_result ''m'') [] =
    ([Emitted 0 (model_event_of MessageDelta [] ''Hi'' []), Yielded ''Hi''],
     Inr (False, (new_result ''m'')\<lparr>sr_text := ''Hi'', sr_saw_text_delta := True, sr_text_started := True\<rparr>))"
  by (simp add: handleEvent_def handleTextDelta_def deliver_text_def appendText_def running new_result_def Let_def no_event_def)

lemma item_length: "0 < length (print_json call_item) \<and> length (print_json call_item) < 200 \<and> length canonical_item < 200"
  by (simp add: canonical_item_def call_item_def print_json_def tokens_text_def)

lemma handle_item:
  "handleEvent turn_consumer (no_event\<lparr>se_type := ''response.output_item.done'', se_item := print_json call_item\<rparr>)
      ((new_result ''m'')\<lparr>sr_text := ''Hi'', sr_saw_text_delta := True, sr_text_started := True\<rparr>) log =
    (log @ [Emitted 0 (model_event_of ToolCallDelta ''{}'' ''c1'' [])],
     Inr (False, turn_state\<lparr>sr_response_id := '''', sr_completed := False\<rparr>))"
proof -
  have "json_valid ''{}''"
    using events_ok(4) parse_print [of "JObject []"]
    by (simp add: json_valid_def json_ok_iff maxNestingDepth_def print_json_def tokens_text_def)
  moreover have "print_json call_item \<noteq> []" "length (print_json call_item) \<le> maxStreamFrameBytes" "length canonical_item \<le> maxOutputBytes"
    using item_length by (auto simp: maxStreamFrameBytes_def maxOutputBytes_def)
  ultimately show ?thesis
    by (simp add: handleEvent_def addOutputItem_def addFunctionCall_def addStatePart_def call_canonical call_decoded hasToolDelta_def
      eff_bind_def pure_r_def emitEvent_def bounded_def maxEventSummary_def turn_consumer_def new_result_def Let_def no_event_def
      turn_state_def the_call_def)
qed

lemma handle_done:
  "handleEvent turn_consumer (no_event\<lparr>se_type := ''response.completed'', se_response := print_json (JObject [(''id'', JString ''r1'')])\<rparr>)
      (turn_state\<lparr>sr_response_id := '''', sr_completed := False\<rparr>) log =
    (log @ [Emitted 0 (model_event_of FinishEvent [] ''tool_calls'' [])], Inr (True, turn_state))"
proof -
  have ok: "json_ok (JObject [(''id'', JString ''r1'')])" by (simp add: json_ok_iff word_texts maxNestingDepth_def)
  have "print_json (JObject [(''id'', JString ''r1'')]) \<noteq> []" by (simp add: print_json_def tokens_text_def)
  then show ?thesis
    by (simp add: handleEvent_def complete_def unmarshal_def parse_print [OF ok] decode_struct_def field_of_def completed_fields_def
      string_field_def event_names word_unquotes eff_bind_def pure_r_def emitEvent_def turn_consumer_def new_result_def Let_def
      no_event_def turn_state_def finishReason_def)
qed

lemma turn_size: "length turn_body \<le> maxStreamBytes"
  by (simp add: turn_body_def turn_events_def delta_event_def item_event_def done_event_def call_item_def print_json_def
    tokens_text_def sse_event_def data_line_def newline_def maxStreamBytes_def)

lemma turn_decoded: "sse_events (newSSEDecoder turn_body None) = (turn_events, ErrEOF)"
  using sse_events_written [OF events_sendable] turn_size by (simp add: turn_body_def)

lemma not_done: "print_json delta_event \<noteq> ''[DONE]''" "print_json item_event \<noteq> ''[DONE]''" "print_json done_event \<noteq> ''[DONE]''"
  by (simp_all add: delta_event_def item_event_def done_event_def print_json_def tokens_text_def)

lemma turn_consumed: "consumeStream turn_consumer (newSSEDecoder turn_body None) (new_result ''m'') [] = (turn_log, Inr turn_state)"
  unfolding consumeStream_events turn_decoded turn_events_def
  by (simp add: not_done decode_delta decode_item decode_done handle_delta handle_item handle_done turn_log_def
    eff_bind_def pure_r_def)

section \<open>The call\<close>

text \<open>The same response without a consumer, in a call whose first request succeeds.\<close>

definition turn_tokens :: tokens where
  "turn_tokens = \<lparr>tk_access = ''secret'', tk_id = '''', tk_refresh = '''', tk_account = ''''\<rparr>"

definition quiet :: consumer where
  "quiet = \<lparr>cs_tokens = turn_tokens, cs_sinks = [], cs_yield = None\<rparr>"

lemma quiet_delta:
  "handleEvent quiet (no_event\<lparr>se_type := ''response.output_text.delta'', se_delta := ''Hi''\<rparr>) (new_result ''m'') log =
    (log, Inr (False, (new_result ''m'')\<lparr>sr_text := ''Hi'', sr_saw_text_delta := True, sr_text_started := True\<rparr>))"
  by (simp add: handleEvent_def handleTextDelta_def deliver_text_def appendText_def running quiet_def new_result_def Let_def no_event_def)

lemma quiet_item:
  "handleEvent quiet (no_event\<lparr>se_type := ''response.output_item.done'', se_item := print_json call_item\<rparr>)
      ((new_result ''m'')\<lparr>sr_text := ''Hi'', sr_saw_text_delta := True, sr_text_started := True\<rparr>) log =
    (log, Inr (False, turn_state\<lparr>sr_response_id := '''', sr_completed := False\<rparr>))"
proof -
  have "json_valid ''{}''"
    using events_ok(4) parse_print [of "JObject []"]
    by (simp add: json_valid_def json_ok_iff maxNestingDepth_def print_json_def tokens_text_def)
  moreover have "print_json call_item \<noteq> []" "length (print_json call_item) \<le> maxStreamFrameBytes" "length canonical_item \<le> maxOutputBytes"
    using item_length by (auto simp: maxStreamFrameBytes_def maxOutputBytes_def)
  ultimately show ?thesis
    by (simp add: handleEvent_def addOutputItem_def addFunctionCall_def addStatePart_def call_canonical call_decoded hasToolDelta_def
      eff_bind_def pure_r_def emitEvent_def bounded_def maxEventSummary_def quiet_def new_result_def Let_def no_event_def
      turn_state_def the_call_def)
qed

lemma quiet_done:
  "handleEvent quiet (no_event\<lparr>se_type := ''response.completed'', se_response := print_json (JObject [(''id'', JString ''r1'')])\<rparr>)
      (turn_state\<lparr>sr_response_id := '''', sr_completed := False\<rparr>) log = (log, Inr (True, turn_state))"
proof -
  have ok: "json_ok (JObject [(''id'', JString ''r1'')])" by (simp add: json_ok_iff word_texts maxNestingDepth_def)
  have "print_json (JObject [(''id'', JString ''r1'')]) \<noteq> []" by (simp add: print_json_def tokens_text_def)
  then show ?thesis
    by (simp add: handleEvent_def complete_def unmarshal_def parse_print [OF ok] decode_struct_def field_of_def completed_fields_def
      string_field_def event_names word_unquotes eff_bind_def pure_r_def emitEvent_def quiet_def new_result_def Let_def
      no_event_def turn_state_def finishReason_def)
qed

lemma quiet_consumed: "consumeStream quiet (newSSEDecoder turn_body None) (new_result ''m'') [] = ([], Inr turn_state)"
  unfolding consumeStream_events turn_decoded turn_events_def
  by (simp add: not_done decode_delta decode_item decode_done quiet_delta quiet_item quiet_done eff_bind_def pure_r_def)

definition turn_http :: http_response where
  "turn_http = \<lparr>hr_status = 200, hr_request_id = '''', hr_retry_after = '''', hr_retry_date = None, hr_model = ''m'',
    hr_x_model = '''', hr_etag = '''', hr_body = turn_body, hr_body_err = None\<rparr>"

definition turn_env :: call_env where
  "turn_env = \<lparr>ce_token = (\<lambda>_. Inr turn_tokens), ce_refresh = None, ce_send = (\<lambda>_. (Some turn_http, None)),
    ce_ctx_err = (\<lambda>_. False), ce_wait = (\<lambda>_. None), ce_now = (\<lambda>_. 0)\<rparr>"

definition turn_question :: chat_message where
  "turn_question = \<lparr>cm_role = RoleUser, cm_parts = [text_part ''Hi''], cm_tool_calls = [], cm_tool_call_id = ''''\<rparr>"

definition turn_request :: model_request where
  "turn_request = empty_request\<lparr>mr_model := ''m'', mr_messages := [turn_question]\<rparr>"

definition turn_config :: call_config where
  "turn_config = \<lparr>cc_sinks = [], cc_extensions = []\<rparr>"

definition turn_reply :: chat_message where
  "turn_reply = \<lparr>cm_role = RoleTool, cm_parts = [text_part ''Hi''], cm_tool_calls = [], cm_tool_call_id = ''c1''\<rparr>"

definition turn_answer :: model_answer where
  "turn_answer = (case stream_response turn_state of Inr a \<Rightarrow> a)"

lemma turn_answered: "stream_response turn_state = Inr turn_answer"
  by (simp add: turn_answer_def stream_response_def turn_state_def new_result_def responseIntent_def)

lemma turn_encoded: "encodeMessages [turn_question] =
    Inr ('''', [no_item\<lparr>in_type := ''message'', in_role := ''user'', in_content := [\<lparr>co_type = ''input_text'', co_text = ''Hi''\<rparr>]\<rparr>])"
  by (simp add: encodeMessages_def addMessage_def validateMessageRole_def guard_r_def addModelMessage_def encodePart_def textPart_def
    run_add_def run_flush_def addToolCalls_def indexOpaqueCalls_def new_encoder_def turn_question_def text_part_def Let_def)

lemma turn_sent: "\<exists>payload. responsesPayload turn_request = Inr payload"
proof -
  have p: "plain_text ''m''" "plain_text ''user''" "plain_text ''message''" "plain_text ''input_text''" "plain_text ''auto''"
    "plain_text ''reasoning.encrypted_content''"
    by code_simp+
  note quotes = p [THEN plain_quote]
  show ?thesis
    by (simp add: responsesPayload_def newResponsesRequest_def validateModelRequest_def guard_r_def validateResponseSchema_def
      validateTools_def validateToolChoice_def turn_request_def empty_request_def turn_encoded encodeToolChoice_def request_json_def
      item_json_def no_item_def content_json_def choice_json_def jfield_def jopt_def omitempty_def json_of_string_def quotes word_quotes
      print_json_def tokens_text_def maxRequestBytes_def del: quote_text.simps)
qed

lemma turn_opened: "openStream turn_env (default_model ''m'' True) payload =
    ([TokenAsked, Sent (request_headers ''gopact-ext'' turn_tokens) payload], Inr (turn_http, turn_tokens))"
proof -
  have "validateTokens turn_tokens = Inr ()" by (simp add: validateTokens_def turn_tokens_def validHeaderValue_def)
  then have "open_attempts turn_env og payload (Suc left) 1 False [] =
      ([TokenAsked, Sent (request_headers og turn_tokens) payload], Inr (turn_http, turn_tokens))" for og left
    by (simp add: requestAttempt_def turn_env_def send_request_def refreshIfNeeded_def needsRefresh_def
      attempt_successful_def turn_http_def successfulStatus_def Let_def)
  moreover have "nat (md_max_attempts (default_model ''m'' True)) = Suc 2" "md_originator (default_model ''m'' True) = ''gopact-ext''"
    by (simp_all add: default_model_def)
  ultimately show ?thesis by (simp only: openStream_def)
qed

lemma turn_invoked:
  "Invoke turn_env (Some (default_model ''m'' True)) turn_request turn_config =
    ([TokenAsked, Sent (request_headers ''gopact-ext'' turn_tokens) (projr (responsesPayload turn_request))], [], CallDone turn_answer)"
proof -
  obtain payload where "responsesPayload turn_request = Inr payload" using turn_sent by blast
  then show ?thesis
    using quiet_consumed
    by (simp add: Invoke_def resolveCallOptions_def turn_config_def execute_def turn_opened quiet_def turn_answered
      turn_http_def responseModel_def)
qed

lemma turn_items: "fst (sse_events (newSSEDecoder turn_body None)) = turn_events"
  by (simp add: turn_decoded)

lemma turn_clear: "\<forall>v \<in> set turn_events. clear_item (event_item v)"
proof -
  have "clear_item []" by (simp add: clear_item_def canonical_of_def canonicalResponseState_def parse_json_def parse_tokens_def maxStreamFrameBytes_def)
  then show ?thesis
    using decoded_item [OF decode_delta] decoded_item [OF decode_item] decoded_item [OF decode_done] call_clear
    by (simp add: turn_events_def no_event_def)
qed

end
