(* ===== verification/Codex_Model_Proofs.thy ===== *)
theory Codex_Model_Proofs
  imports Codex_Model Codex_Stream_Proofs
begin

text \<open>
  What holds of a call: a redacted message has no secret, the attempts of a call and the delays
  between them are bounded, what is sent has valid tokens, and a consumer that stops the iteration
  is not called again.
\<close>

section \<open>Redaction\<close>

definition unbracketed :: "string \<Rightarrow> bool" where
  "unbracketed t \<longleftrightarrow> CHR ''['' \<notin> set t \<and> CHR '']'' \<notin> set t"

text \<open>A secret that the replacement text cannot help to spell.\<close>

definition redactable :: "string \<Rightarrow> bool" where
  "redactable t \<longleftrightarrow> t \<noteq> '''' \<and> unbracketed t \<and> \<not> sublist t ''redacted''"

lemma contains_sublist: "contains_sub s t \<longleftrightarrow> sublist t s"
proof (induction s)
  case Nil
  then show ?case by auto
next
  case (Cons c s)
  have "has_prefix (c # s) t \<longleftrightarrow> prefix t (c # s)" unfolding has_prefix_def prefix_def by (metis append_eq_conv_conj)
  with Cons show ?case by (simp add: sublist_Cons_right)
qed

lemma has_prefix_prefix: "has_prefix s t \<longleftrightarrow> prefix t s"
  unfolding has_prefix_def prefix_def by (metis append_eq_conv_conj)

lemma sublist_around: "d \<notin> set t \<Longrightarrow> sublist t (a @ d # b) \<Longrightarrow> sublist t a \<or> sublist t b"
proof -
  assume d: "d \<notin> set t" and s: "sublist t (a @ d # b)"
  from s consider "sublist t a" | "sublist t (d # b)"
    | u v where "t = u @ v" "suffix u a" "prefix v (d # b)" by (auto simp: sublist_append)
  then show ?thesis
  proof cases
    case 2
    with d show ?thesis by (cases t) (auto simp: sublist_Cons_right)
  next
    case 3
    with d have "v = []" by (cases v) auto
    with 3 show ?thesis by (simp add: suffix_imp_sublist)
  qed simp
qed

lemma sublist_replacement:
  assumes "redactable t" and "sublist t (''[redacted]'' @ s)"
  shows "sublist t s"
proof -
  have "sublist t (''[redacted'' @ CHR '']'' # s)" using assms(2) by simp
  with assms(1) have "sublist t ''[redacted'' \<or> sublist t s"
    by (intro sublist_around) (auto simp: redactable_def unbracketed_def)
  moreover have "\<not> sublist t ''[redacted''"
  proof
    assume "sublist t ''[redacted''"
    then have "sublist t ([] @ CHR ''['' # ''redacted'')" by simp
    with assms(1) have "sublist t [] \<or> sublist t ''redacted''"
      by (intro sublist_around) (auto simp: redactable_def unbracketed_def)
    with assms(1) show False by (auto simp: redactable_def)
  qed
  ultimately show ?thesis by blast
qed

abbreviation redact :: "string \<Rightarrow> string \<Rightarrow> string" where
  "redact s secret \<equiv> replace_all s secret ''[redacted]''"

lemma replace_all_steps:
  "old \<noteq> [] \<and> has_prefix (c # s) old \<Longrightarrow> replace_all (c # s) old new = new @ replace_all (drop (length old) (c # s)) old new"
  "\<not> (old \<noteq> [] \<and> has_prefix (c # s) old) \<Longrightarrow> replace_all (c # s) old new = c # replace_all s old new"
  by (simp_all only: replace_all.simps if_True if_False simp_thms)

declare replace_all.simps(2) [simp del]

lemma prefix_redact: "unbracketed u \<Longrightarrow> prefix u (replace_all s old ''[redacted]'') \<Longrightarrow> prefix u s"
proof (induction s old "''[redacted]''" arbitrary: u rule: replace_all.induct)
  case (2 c s old)
  show ?case
  proof (cases "old \<noteq> [] \<and> has_prefix (c # s) old")
    case True
    with 2(3,4) show ?thesis by (cases u) (auto simp: unbracketed_def replace_all_steps(1))
  next
    case False
    with 2(4) have "prefix u (c # redact s old)" unfolding replace_all_steps(2) [OF False] by blast
    with 2(2) [OF False] 2(3) show ?thesis by (cases u) (auto simp: unbracketed_def)
  qed
qed simp

lemma redact_removes: "redactable t \<Longrightarrow> \<not> sublist t (redact s t)"
proof (induction s t "''[redacted]''" rule: replace_all.induct)
  case (1 t)
  then show ?case by (auto simp: redactable_def)
next
  case (2 c s t)
  show ?case
  proof (cases "t \<noteq> [] \<and> has_prefix (c # s) t")
    case True
    with 2(1) [OF True 2(3)] sublist_replacement [OF 2(3)] show ?thesis
      unfolding replace_all_steps(1) [OF True] by blast
  next
    case False
    with 2(3) have np: "\<not> prefix t (c # s)" by (simp add: has_prefix_prefix redactable_def)
    have "\<not> prefix t (c # redact s t)"
    proof
      assume p: "prefix t (c # redact s t)"
      then obtain u where u: "t = c # u" "prefix u (redact s t)" using 2(3) by (cases t) (auto simp: redactable_def)
      moreover have "unbracketed u" using u(1) 2(3) by (auto simp: redactable_def unbracketed_def)
      ultimately have "prefix u s" using prefix_redact by blast
      with np u(1) show False by simp
    qed
    with 2(2) [OF False] 2(3) show ?thesis unfolding replace_all_steps(2) [OF False] by (simp add: sublist_Cons_right)
  qed
qed

lemma redact_keeps: "redactable t \<Longrightarrow> \<not> sublist t s \<Longrightarrow> \<not> sublist t (redact s old)"
proof (induction s old "''[redacted]''" rule: replace_all.induct)
  case (2 c s old)
  show ?case
  proof (cases "old \<noteq> [] \<and> has_prefix (c # s) old")
    case True
    have "sublist (drop (length old) (c # s)) (c # s)" by simp
    with 2(4) have "\<not> sublist t (drop (length old) (c # s))" using sublist_order.order_trans by blast
    with 2(1) [OF True 2(3)] sublist_replacement [OF 2(3)] show ?thesis
      unfolding replace_all_steps(1) [OF True] by blast
  next
    case False
    from 2(4) have n: "\<not> prefix t (c # s)" "\<not> sublist t s" by (auto simp: sublist_Cons_right)
    have "\<not> prefix t (c # redact s old)"
    proof
      assume p: "prefix t (c # redact s old)"
      then obtain u where u: "t = c # u" "prefix u (redact s old)" using 2(3) by (cases t) (auto simp: redactable_def)
      moreover have "unbracketed u" using u(1) 2(3) by (auto simp: redactable_def unbracketed_def)
      ultimately have "prefix u s" using prefix_redact by blast
      with n(1) u(1) show False by simp
    qed
    with 2(2) [OF False 2(3) n(2)] show ?thesis unfolding replace_all_steps(2) [OF False] by (simp add: sublist_Cons_right)
  qed
qed simp

lemma redactTokens_safe:
  assumes "t \<in> {tk_access tk, tk_id tk, tk_refresh tk}" and "redactable t"
  shows "\<not> contains_sub (redactTokens v tk) t"
proof -
  let ?step = "\<lambda>secret v. if secret \<noteq> '''' then redact v secret else v"
  have keep: "\<not> sublist t (?step old v)" if "\<not> sublist t v" for old v
    using redact_keeps [OF assms(2) that] that by simp
  have gone: "\<not> sublist t (?step t v)" for v
    using redact_removes [OF assms(2)] assms(2) by (simp add: redactable_def)
  have "redactTokens v tk = ?step (tk_refresh tk) (?step (tk_id tk) (?step (tk_access tk) v))"
    by (simp add: redactTokens_def)
  with assms(1) keep gone show ?thesis unfolding contains_sublist by (elim insertE emptyE) (simp_all only:, metis+)
qed

section \<open>The attempts of a call\<close>

lemma backoff_bounds: "0 \<le> delay \<Longrightarrow> delay \<le> maximumRetryAfter \<Longrightarrow> 0 \<le> backoff n delay \<and> backoff n delay \<le> maximumRetryAfter"
  by (induction n arbitrary: delay) (auto simp: Let_def maximumRetryAfter_def second_def)

lemma parseRetryAfter_nonneg: "parseRetryAfter value date now = Some d \<Longrightarrow> 0 \<le> d"
  by (auto simp: parseRetryAfter_def maximumRetryAfter_def second_def split: if_split_asm option.split_asm)

lemma retryDelay_bounds: "0 \<le> retryDelay resp attempt now \<and> retryDelay resp attempt now \<le> maximumRetryAfter"
proof -
  have "0 \<le> defaultRetryDelay" "defaultRetryDelay \<le> maximumRetryAfter" "0 \<le> maximumRetryAfter"
    by (simp_all add: defaultRetryDelay_def maximumRetryAfter_def second_def)
  then show ?thesis
    using backoff_bounds parseRetryAfter_nonneg by (auto simp: retryDelay_def split: option.split)
qed

definition is_sent :: "call_effect \<Rightarrow> bool" where
  "is_sent e = (case e of Sent _ _ \<Rightarrow> True | _ \<Rightarrow> False)"

definition is_wait :: "call_effect \<Rightarrow> bool" where
  "is_wait e = (case e of Waited _ \<Rightarrow> True | _ \<Rightarrow> False)"

definition effect_ok :: "string \<Rightarrow> bytes \<Rightarrow> call_effect \<Rightarrow> bool" where
  "effect_ok originator payload e = (case e of
     Sent headers p \<Rightarrow> p = payload \<and> (\<exists>t. validateTokens t = Inr () \<and> headers = request_headers originator t)
   | Waited d \<Rightarrow> 0 \<le> d \<and> d \<le> maximumRetryAfter
   | _ \<Rightarrow> True)"

text \<open>What a step adds to the log: at most so many requests, refreshes and waits.\<close>

definition adds :: "string \<Rightarrow> bytes \<Rightarrow> nat \<Rightarrow> nat \<Rightarrow> nat \<Rightarrow> call_log \<Rightarrow> call_log \<Rightarrow> bool" where
  "adds originator payload sends refreshes waits log log' \<longleftrightarrow> (\<exists>new. log' = log @ new \<and> list_all (effect_ok originator payload) new \<and>
    length (filter is_sent new) \<le> sends \<and> length (filter ((=) TokenRefreshed) new) \<le> refreshes \<and>
    length (filter is_wait new) \<le> waits)"

lemma adds_trans:
  "adds og pl a b c l l1 \<Longrightarrow> adds og pl a' b' c' l1 l2 \<Longrightarrow> adds og pl (a + a') (b + b') (c + c') l l2"
  unfolding adds_def by (elim exE) (fastforce intro: exI [of _ "_ @ _"])

lemma adds_mono: "adds og pl a b c l l' \<Longrightarrow> a \<le> a' \<Longrightarrow> b \<le> b' \<Longrightarrow> c \<le> c' \<Longrightarrow> adds og pl a' b' c' l l'"
  unfolding adds_def by (elim exE conjE) (intro exI conjI, assumption+, simp_all)

lemma adds_one:
  "effect_ok og pl e \<Longrightarrow> adds og pl (if is_sent e then 1 else 0) (if e = TokenRefreshed then 1 else 0) (if is_wait e then 1 else 0) l (l @ [e])"
  unfolding adds_def by (intro exI [of _ "[e]"]) auto

lemma adds_refl: "adds og pl 0 0 0 l l"
  by (simp add: adds_def)

lemma send_adds:
  assumes "validateTokens t = Inr u" and "send_request env originator payload t log = (log', r)"
  shows "adds originator payload 1 0 0 log log'"
  using assms adds_one [of originator payload "Sent (request_headers originator t) payload" log]
  by (auto simp: send_request_def effect_ok_def is_sent_def is_wait_def Let_def split: prod.split_asm)

lemma asked_adds: "adds originator payload 0 0 0 log (log @ [TokenAsked])"
  using adds_one [of originator payload TokenAsked log] by (simp add: effect_ok_def is_sent_def is_wait_def)

lemma refreshed_adds: "adds originator payload 0 1 0 log (log @ [TokenRefreshed])"
  using adds_one [of originator payload TokenRefreshed log] by (simp add: effect_ok_def is_sent_def is_wait_def)

lemma requestAttempt_adds:
  assumes "requestAttempt env originator payload log = (log', r)"
  shows "adds originator payload 1 0 0 log log'"
proof -
  note ask = asked_adds [of originator payload log]
  show ?thesis
  proof (cases "ce_token env (log @ [TokenAsked])")
    case (Inl e)
    with assms adds_mono [OF ask, of 1 0 0] show ?thesis by (simp add: requestAttempt_def Let_def)
  next
    case (Inr t)
    show ?thesis
    proof (cases "validateTokens t")
      case (Inl e)
      with assms Inr adds_mono [OF ask, of 1 0 0] show ?thesis by (simp add: requestAttempt_def Let_def)
    next
      case ok: (Inr u)
      with assms Inr have "send_request env originator payload t (log @ [TokenAsked]) = (log', r)"
        by (simp add: requestAttempt_def Let_def)
      from adds_trans [OF ask send_adds [OF ok this]] show ?thesis by simp
    qed
  qed
qed

lemma refreshIfNeeded_adds:
  assumes "refreshIfNeeded env originator payload prior refreshed log = (log', r)"
  shows "adds originator payload (if refreshed then 0 else 1) (if refreshed then 0 else 1) 0 log log' \<and>
    (case r of Inl _ \<Rightarrow> True | Inr (a, refreshed') \<Rightarrow> (refreshed \<longrightarrow> refreshed') \<and> (\<not> refreshed' \<longrightarrow> log' = log))"
proof (cases "needsRefresh prior refreshed \<and> ce_refresh env \<noteq> None")
  case False
  with assms adds_mono [OF adds_refl] show ?thesis
    by (auto simp: refreshIfNeeded_def refreshAttempt_def split: if_split_asm)
next
  case True
  then obtain refresh where rf: "ce_refresh env = Some refresh" and nr: "needsRefresh prior refreshed" and f: "\<not> refreshed"
    by (auto simp: needsRefresh_def)
  let ?log1 = "log @ [TokenRefreshed]"
  note one = refreshed_adds [of originator payload log]
  note full = adds_mono [OF one, of 1 1 0]
  show ?thesis
  proof (cases "refresh ?log1")
    case (Inl e)
    with assms rf nr f full show ?thesis by (auto simp: refreshIfNeeded_def refreshAttempt_def Let_def)
  next
    case (Inr t)
    show ?thesis
    proof (cases "validateTokens t")
      case (Inl e)
      with assms rf nr f Inr full show ?thesis by (auto simp: refreshIfNeeded_def refreshAttempt_def Let_def)
    next
      case ok: (Inr u)
      obtain log2 s where s: "send_request env originator payload t ?log1 = (log2, s)" by force
      with ok have "adds originator payload 1 1 0 log log2" using adds_trans [OF one send_adds [OF ok s]] by simp
      moreover from s obtain a where "s = Inr a" by (auto simp: send_request_def Let_def split: prod.split_asm)
      ultimately show ?thesis
        using assms rf nr f Inr ok s by (auto simp: refreshIfNeeded_def refreshAttempt_def Let_def)
    qed
  qed
qed

lemma open_attempts_adds:
  "open_attempts env originator payload left attempt refreshed log = (log', r) \<Longrightarrow>
    adds originator payload (left + (if refreshed then 0 else 1)) (if refreshed then 0 else 1) (left - 1) log log' \<and>
    (case r of Inl _ \<Rightarrow> True | Inr (resp, _) \<Rightarrow> successfulStatus (hr_status resp))"
proof (induction left arbitrary: attempt refreshed log)
  case 0
  with adds_mono [OF adds_refl] show ?case by auto
next
  case (Suc left)
  let ?n = "if refreshed then 0 else 1 :: nat"
  obtain log1 a where one: "requestAttempt env originator payload log = (log1, a)" by force
  note sent = requestAttempt_adds [OF one]
  show ?case
  proof (cases a)
    case (Inl e)
    with Suc.prems one adds_mono [OF sent] show ?thesis by auto
  next
    case (Inr first)
    obtain log2 b where two: "refreshIfNeeded env originator payload first refreshed log1 = (log2, b)" by force
    from refreshIfNeeded_adds [OF two] have more: "adds originator payload ?n ?n 0 log1 log2" by simp
    have both: "adds originator payload (1 + ?n) ?n 0 log log2" using adds_trans [OF sent more] by simp
    then have enough: "adds originator payload (Suc left + ?n) ?n left log log2" by (rule adds_mono) simp_all
    show ?thesis
    proof (cases b)
      case (Inl e)
      with Suc.prems one Inr two enough show ?thesis by auto
    next
      case current: (Inr p)
      obtain cur refreshed' where p: "p = (cur, refreshed')" by force
      from refreshIfNeeded_adds [OF two] current p have mono: "refreshed \<longrightarrow> refreshed'" and same: "\<not> refreshed' \<longrightarrow> log2 = log1" by auto
      let ?go = "\<not> (\<not> attempt_retryable cur \<or> left = 0 \<or> ce_ctx_err env log2)"
      let ?delay = "retryDelay (at_response cur) attempt (ce_now env log2)"
      let ?log3 = "log2 @ [Waited ?delay]"
      show ?thesis
      proof (cases "attempt_successful cur")
        case True
        then obtain resp where "at_response cur = Some resp" "successfulStatus (hr_status resp)"
          by (auto simp: attempt_successful_def split: option.split_asm)
        with True Suc.prems one Inr two current p enough show ?thesis by auto
      next
        case fail: False
        show ?thesis
        proof (cases "?go \<and> ce_wait env ?log3 = None")
          case False
          have w: "adds originator payload 0 0 1 log2 ?log3"
            using adds_one [of originator payload "Waited ?delay" log2] retryDelay_bounds by (simp add: effect_ok_def is_sent_def is_wait_def)
          have "?go \<Longrightarrow> adds originator payload (Suc left + ?n) ?n left log ?log3"
            by (rule adds_mono [OF adds_trans [OF both w]]) simp_all
          with False fail Suc.prems one Inr two current p enough show ?thesis
            by (auto simp: Let_def split: if_split_asm option.split_asm)
        next
          case True
          then have rec: "open_attempts env originator payload left (attempt + 1) refreshed' ?log3 = (log', r)"
            using fail Suc.prems one Inr two current p by (auto simp: Let_def)
          have w: "adds originator payload 0 0 1 log2 ?log3"
            using adds_one [of originator payload "Waited ?delay" log2] retryDelay_bounds by (simp add: effect_ok_def is_sent_def is_wait_def)
          let ?m = "if refreshed' then 0 else 1 :: nat"
          have first: "adds originator payload (1 + (?n - ?m)) (?n - ?m) 1 log ?log3"
          proof (cases refreshed')
            case True
            with adds_trans [OF both w] show ?thesis by simp
          next
            case False
            with same mono have "log2 = log1" by simp
            with False mono adds_trans [OF sent w [unfolded \<open>log2 = log1\<close>]] show ?thesis by simp
          qed
          from Suc.IH [OF rec] have rest: "adds originator payload (left + ?m) ?m (left - 1) ?log3 log'"
            and res: "case r of Inl _ \<Rightarrow> True | Inr (resp, _) \<Rightarrow> successfulStatus (hr_status resp)" by auto
          have "?m \<le> ?n" using mono by simp
          with True have "adds originator payload (Suc left + ?n) ?n (Suc left - 1) log log'"
            by (intro adds_mono [OF adds_trans [OF first rest]]) auto
          with res show ?thesis by simp
        qed
      qed
    qed
  qed
qed

section \<open>A consumer that stops\<close>

text \<open>
  No chunk was refused, and: the last chunk is the first that was refused.
\<close>

definition wanted :: "(delivery list \<Rightarrow> string \<Rightarrow> bool) \<Rightarrow> delivery list \<Rightarrow> bool" where
  "wanted wants out \<longleftrightarrow> (\<forall>pre s post. out = pre @ Yielded s # post \<longrightarrow> wants pre s)"

definition refused :: "(delivery list \<Rightarrow> string \<Rightarrow> bool) \<Rightarrow> delivery list \<Rightarrow> bool" where
  "refused wants out \<longleftrightarrow> (\<exists>pre s. out = pre @ [Yielded s] \<and> wanted wants pre \<and> \<not> wants pre s)"

definition polite :: "(delivery list \<Rightarrow> string \<Rightarrow> bool) \<Rightarrow> 'a effect \<Rightarrow> bool" where
  "polite wants m \<longleftrightarrow> (\<forall>out. wanted wants out \<longrightarrow> (case m out of
     (out', Inr _) \<Rightarrow> wanted wants out'
   | (out', Inl e) \<Rightarrow> wanted wants out' \<or> (refused wants out' \<and> e = errStopIteration)))"

definition stopping :: "(delivery list \<Rightarrow> string \<Rightarrow> bool) \<Rightarrow> consumer \<Rightarrow> bool" where
  "stopping wants cs \<longleftrightarrow> cs_yield cs = Some (\<lambda>out text. if wants out text then None else Some errStopIteration)"

lemma wanted_snoc: "wanted wants (out @ [d]) \<longleftrightarrow> wanted wants out \<and> (\<forall>s. d = Yielded s \<longrightarrow> wants out s)"
proof (intro iffI conjI allI impI)
  assume w: "wanted wants (out @ [d])"
  show "wanted wants out"
    unfolding wanted_def
  proof (intro allI impI)
    fix pre s post assume "out = pre @ Yielded s # post"
    then have "out @ [d] = pre @ Yielded s # (post @ [d])" by simp
    with w show "wants pre s" unfolding wanted_def by blast
  qed
  show "wants out s" if "d = Yielded s" for s
    using w [unfolded wanted_def, rule_format, of out s "[]"] that by simp
next
  assume a: "wanted wants out \<and> (\<forall>s. d = Yielded s \<longrightarrow> wants out s)"
  show "wanted wants (out @ [d])"
    unfolding wanted_def
  proof (intro allI impI)
    fix pre s post assume e: "out @ [d] = pre @ Yielded s # post"
    show "wants pre s"
    proof (cases post rule: rev_cases)
      case Nil
      with e a show ?thesis by simp
    next
      case (snoc q x)
      with e have "out = pre @ Yielded s # q" by simp
      with a show ?thesis unfolding wanted_def by blast
    qed
  qed
qed

lemma polite_pure: "polite wants (pure_r r)"
  by (auto simp: polite_def pure_r_def split: sum.split)

lemma polite_bind: "polite wants m \<Longrightarrow> (\<And>x. polite wants (f x)) \<Longrightarrow> polite wants (eff_bind m f)"
proof -
  assume m: "polite wants m" and f: "\<And>x. polite wants (f x)"
  show ?thesis
    unfolding polite_def
  proof (intro allI impI)
    fix out assume w: "wanted wants out"
    obtain out1 r where e: "m out = (out1, r)" by force
    show "case eff_bind m f out of (out', Inl e) \<Rightarrow> wanted wants out' \<or> (refused wants out' \<and> e = errStopIteration)
        | (out', Inr _) \<Rightarrow> wanted wants out'"
    proof (cases r)
      case (Inl e)
      with m w \<open>m out = (out1, r)\<close> show ?thesis by (auto simp: polite_def eff_bind_def)
    next
      case (Inr x)
      with m w e have "wanted wants out1" by (auto simp: polite_def)
      with f [of x] have "case f x out1 of (out', Inl e) \<Rightarrow> wanted wants out' \<or> (refused wants out' \<and> e = errStopIteration)
        | (out', Inr _) \<Rightarrow> wanted wants out'" by (simp add: polite_def)
      with Inr e show ?thesis by (simp add: eff_bind_def)
    qed
  qed
qed

lemma polite_emit: "polite wants (emitEvent sinks ev)"
proof -
  have "polite wants (emit_from i sinks ev)" for i
    unfolding polite_def
  proof (intro allI impI)
    fix out assume "wanted wants out"
    then show "case emit_from i sinks ev out of (out', Inl e) \<Rightarrow> wanted wants out' \<or> (refused wants out' \<and> e = errStopIteration)
        | (out', Inr _) \<Rightarrow> wanted wants out'"
    proof (induction i sinks ev out rule: emit_from.induct)
      case (3 i sink sinks ev out)
      from 3(2) have w: "wanted wants (out @ [Emitted i ev])" by (simp add: wanted_snoc)
      show ?case
      proof (cases "sink out ev")
        case None
        from 3(1) [OF None w] show ?thesis by (simp only: emit_from.simps None option.case)
      next
        case (Some e)
        with w show ?thesis by simp
      qed
    qed simp_all
  qed
  then show ?thesis by (simp add: emitEvent_def [abs_def])
qed

lemma polite_yield: "stopping wants cs \<Longrightarrow> polite wants (yield_text cs value)"
  by (auto simp: polite_def yield_text_def stopping_def wanted_snoc refused_def)

lemmas polite_steps = polite_pure polite_bind polite_emit polite_yield

lemma polite_if: "(b \<Longrightarrow> polite wants m) \<Longrightarrow> (\<not> b \<Longrightarrow> polite wants m') \<Longrightarrow> polite wants (if b then m else m')"
  by simp

lemma polite_text: "stopping wants cs \<Longrightarrow> polite wants (deliver_text cs value r)"
  by (simp add: deliver_text_def polite_steps)

lemma polite_message: "stopping wants cs \<Longrightarrow> polite wants (addMessageItem cs contents r)"
proof (induction contents arbitrary: r)
  case (Cons c contents)
  then have "polite wants (addMessageContent cs c r)"
    by (simp add: addMessageContent_def addCompletedText_def addCompletedRefusal_def deliver_refusal_def polite_text polite_steps)
  moreover have "addMessageItem cs (c # contents) r = eff_bind (addMessageContent cs c r) (addMessageItem cs contents)"
    by (rule ext) simp
  ultimately show ?case using Cons by (simp add: polite_bind)
next
  case Nil
  have "addMessageItem cs [] r = pure_r (Inr r)" by (rule ext) simp
  then show ?case by (simp add: polite_pure)
qed

lemma polite_item: "stopping wants cs \<Longrightarrow> polite wants (addOutputItem cs t r)"
  by (simp add: addOutputItem_def addFunctionCall_def polite_message polite_steps Let_def split: option.split)

lemma polite_complete: "polite wants (complete sinks t r)"
proof -
  have opt: "polite wants (case u of None \<Rightarrow> pure_r x | Some v \<Rightarrow> f v)" if "\<And>v. polite wants (f v)" for u x and f :: "usage \<Rightarrow> 'a effect"
    using that by (simp add: polite_pure split: option.split)
  show ?thesis
    by (simp add: complete_def polite_steps opt Let_def split: option.split)
qed

lemma polite_event: "stopping wants cs \<Longrightarrow> polite wants (handleEvent cs ev r)"
  by (simp add: handleEvent_def handleTextDelta_def handleReasoningDelta_def handleToolDelta_def handleRefusalDelta_def
    deliver_refusal_def polite_text polite_item polite_complete polite_steps Let_def)

lemma polite_consume: "stopping wants cs \<Longrightarrow> polite wants (consumeStream cs d r)"
proof -
  assume s: "stopping wants cs"
  have "polite wants (consume_events cs vs e r)" for vs e
  proof (induction vs arbitrary: r)
    case Nil
    have "consume_events cs [] e r = pure_r (Inl (streamReadError e))" by (rule ext) (simp add: pure_r_def)
    then show ?case by (simp add: polite_pure)
  next
    case (Cons data vs)
    have "consume_events cs (data # vs) e r =
        (if data = ''[DONE]'' then pure_r (streamDoneError r)
         else eff_bind (pure_r (decodeStreamEvent data)) (\<lambda>ev. eff_bind (handleEvent cs ev r) (\<lambda>(terminal, r1).
           if terminal then pure_r (Inr r1) else consume_events cs vs e r1)))"
      by (rule ext) (simp add: pure_r_def)
    with Cons show ?case by (auto simp: polite_event [OF s] polite_pure intro!: polite_bind split: prod.split)
  qed
  moreover have "consumeStream cs d r = consume_events cs (fst (sse_events d)) (snd (sse_events d)) r"
    by (rule ext) (rule consumeStream_events)
  ultimately show ?thesis by simp
qed

lemma InvokeStream_polite:
  assumes "InvokeStream env md rq config wants = (log, out, err)"
  shows "wanted wants out \<or> (refused wants out \<and> err = None)"
proof -
  let ?yield = "Some (\<lambda>out text. if wants out text then None else Some errStopIteration)"
  have start: "wanted wants []" by (simp add: wanted_def)
  have exec: "wanted wants out1 \<or> (refused wants out1 \<and> (\<exists>f. res = CallFailed f \<and> failure_is_stop f))"
    if "execute env model payload sinks ?yield = (log1, out1, res)" for model payload sinks log1 out1 res
  proof -
    have p: "polite wants (consumeStream \<lparr>cs_tokens = t, cs_sinks = sinks, cs_yield = ?yield\<rparr> d r)" for t d r
      by (rule polite_consume) (simp add: stopping_def)
    have stop: "failure_is_stop (Failed errStopIteration)" by (simp add: failure_is_stop_def errStopIteration_def)
    show ?thesis
      using that start p [unfolded polite_def] stop
      by (fastforce simp: execute_def split: prod.split_asm sum.split_asm)
  qed
  show ?thesis
    using assms start exec
    by (fastforce simp: InvokeStream_def split: option.split_asm sum.split_asm prod.split_asm call_result.split_asm if_split_asm)
qed

end
