(* ===== verification/Codex_Claims.thy ===== *)
theory Codex_Claims
  imports Codex_Examples Codex_Model_Proofs
begin

text \<open>The properties of the Codex model, with their witnesses.\<close>

section \<open>From the call to the stream\<close>

lemma send_origin: "send_request env originator payload t log = (log', Inr a) \<Longrightarrow>
    \<exists>log1. at_response a = fst (ce_send env log1)"
  by (auto simp: send_request_def Let_def split: prod.split_asm) (metis fst_conv)

lemma requestAttempt_origin: "requestAttempt env originator payload log = (log', Inr a) \<Longrightarrow>
    \<exists>log1. at_response a = fst (ce_send env log1)"
  by (auto simp: requestAttempt_def Let_def send_origin split: sum.split_asm)

lemma refreshIfNeeded_origin:
  "refreshIfNeeded env originator payload prior refreshed log = (log', Inr (a, b)) \<Longrightarrow>
    \<exists>log1. at_response prior = fst (ce_send env log1) \<Longrightarrow> \<exists>log1. at_response a = fst (ce_send env log1)"
  by (auto simp: refreshIfNeeded_def refreshAttempt_def Let_def dest: send_origin
      split: if_split_asm option.split_asm sum.split_asm prod.split_asm)

lemma open_attempts_origin:
  "open_attempts env originator payload left attempt refreshed log = (log', Inr (r, t)) \<Longrightarrow>
    \<exists>log1. fst (ce_send env log1) = Some r"
proof (induction left arbitrary: attempt refreshed log)
  case (Suc left)
  then obtain log1 first log2 current refreshed' where
    one: "requestAttempt env originator payload log = (log1, Inr first)"
    and two: "refreshIfNeeded env originator payload first refreshed log1 = (log2, Inr (current, refreshed'))"
    by (auto split: prod.split_asm sum.split_asm)
  from refreshIfNeeded_origin [OF two requestAttempt_origin [OF one]] obtain log3
    where o: "at_response current = fst (ce_send env log3)" by blast
  show ?case
    using Suc.prems Suc.IH one two o
    by (auto simp: Let_def split: prod.split_asm sum.split_asm option.split_asm bool.split_asm if_split_asm)
qed simp

text \<open>The events of the bodies that the backend may send.\<close>

definition clear_backend :: "call_env \<Rightarrow> bool" where
  "clear_backend env \<longleftrightarrow> (\<forall>log resp. fst (ce_send env log) = Some resp \<longrightarrow>
    (\<forall>v \<in> set (fst (sse_events (newSSEDecoder (hr_body resp) (hr_body_err resp)))). clear_item (event_item v)))"

lemma Invoke_done:
  assumes "Invoke env md rq config = (log, out, CallDone a)"
  obtains model payload t resp r where "md = Some model" "responsesPayload rq = Inr payload"
    "openStream env model payload = (log, Inr (resp, t))" "\<exists>log1. fst (ce_send env log1) = Some resp"
    "consumeStream \<lparr>cs_tokens = t, cs_sinks = cc_sinks config, cs_yield = None\<rparr>
       (newSSEDecoder (hr_body resp) (hr_body_err resp)) (new_result (responseModel resp)) [] = (out, Inr r)"
    "stream_response r = Inr a"
proof -
  from assms obtain model c payload r where m: "md = Some model" "resolveCallOptions config = Inr c" "responsesPayload rq = Inr payload"
    and e: "execute env model payload (cc_sinks c) None = (log, out, CallDone r)" and a: "stream_response r = Inr a"
    by (auto simp: Invoke_def rbind_Inr_iff split: option.split_asm sum.split_asm prod.split_asm call_result.split_asm)
  from m(2) have c: "c = config" by (auto simp: resolveCallOptions_def split: list.split_asm)
  from e obtain resp t where s: "openStream env model payload = (log, Inr (resp, t))"
    "consumeStream \<lparr>cs_tokens = t, cs_sinks = cc_sinks c, cs_yield = None\<rparr>
       (newSSEDecoder (hr_body resp) (hr_body_err resp)) (new_result (responseModel resp)) [] = (out, Inr r)"
    by (auto simp: execute_def split: prod.split_asm sum.split_asm)
  from open_attempts_origin [OF s(1) [unfolded openStream_def]]
  have o: "\<exists>log1. fst (ce_send env log1) = Some resp" .
  show thesis by (rule that [OF m(1,3) s(1) o s(2) [unfolded c] a])
qed

lemma payload_encodes: "responsesPayload rq = Inr payload \<Longrightarrow> \<exists>x. encodeMessages (mr_messages rq) = Inr x"
  by (auto simp: responsesPayload_def newResponsesRequest_def rbind_Inr_iff)

lemma replay:
  assumes m: "encodeMessages ms = Inr x"
    and s: "consumeStream cs d (new_result model) [] = (out, Inr r)" "stream_response r = Inr a"
    and clear: "\<forall>v \<in> set (fst (sse_events d)). clear_item (event_item v)"
    and fresh: "set (call_ids (ma_message a)) \<inter> set (concat (map call_ids ms)) = {}"
    and answers: "\<forall>b \<in> set answers. answer_ok b" "mset (map cm_tool_call_id answers) = mset (call_ids (ma_message a))"
  shows "\<exists>y. encodeMessages (ms @ ma_message a # answers) = Inr y"
proof -
  obtain items where inv: "stream_inv items r" "set items \<subseteq> event_item ` set (fst (sse_events d))"
    by (rule consumeStream_inv [OF s(1)])
  from inv(2) clear have c: "\<forall>t \<in> set items. clear_item t" by blast
  have ids: "call_ids (ma_message a) = map cl_id (sr_calls r)" by (simp add: call_ids_def response_calls [OF s(2)])
  then have f: "cl_id ` set (sr_calls r) \<inter> set (concat (map call_ids ms)) = {}" using fresh by simp
  have "conversation {} ms" using m encodes_iff by blast
  from conversation_extends [OF this response_message_ok [OF inv(1) c s(2) f] answers] encodes_iff
  show ?thesis by blast
qed

lemma well_formed:
  assumes s: "consumeStream cs d (new_result model) [] = (out, Inr r)" "stream_response r = Inr a"
  shows "distinct (call_ids (ma_message a))"
    and "\<forall>c \<in> set (cm_tool_calls (ma_message a)). cl_id c \<noteq> '''' \<and> cl_name c \<noteq> '''' \<and> json_valid (cl_arguments c)"
    and "ma_intent a = ToolCallIntent \<longleftrightarrow> cm_tool_calls (ma_message a) \<noteq> []"
    and "cs_yield cs \<noteq> None \<Longrightarrow> (\<forall>why m k. ma_intent a \<noteq> RefusalIntent why m k) \<Longrightarrow>
      yielded out = message_text (cm_parts (ma_message a))"
    and "length (sr_text r) \<le> maxOutputBytes"
proof -
  obtain items where inv: "stream_inv items r" by (rule consumeStream_inv [OF s(1)])
  have y: "cs_yield cs \<noteq> None \<Longrightarrow> yielded out = sr_text r" by (rule consumeStream_inv [OF s(1)])
  note calls = response_calls [OF s(2)]
  show "distinct (call_ids (ma_message a))" "length (sr_text r) \<le> maxOutputBytes"
    using inv unfolding call_ids_def calls stream_inv_def by blast+
  show "\<forall>c \<in> set (cm_tool_calls (ma_message a)). cl_id c \<noteq> '''' \<and> cl_name c \<noteq> '''' \<and> json_valid (cl_arguments c)"
    using inv_call [OF inv] by (simp add: calls)
  show "ma_intent a = ToolCallIntent \<longleftrightarrow> cm_tool_calls (ma_message a) \<noteq> []"
    using s(2) by (cases rule: response_cases) (simp_all add: assistant_message_def)
  from inv have mt: "message_text (messageParts r) = sr_text r" by (auto simp: stream_inv_def intro: state_parts_text)
  show "yielded out = message_text (cm_parts (ma_message a))"
    if "cs_yield cs \<noteq> None" "\<forall>why m k. ma_intent a \<noteq> RefusalIntent why m k"
    by (rule response_cases [OF s(2)]) (use that y mt in \<open>simp_all add: assistant_message_def\<close>)
qed

lemma answered_accounts:
  "answered pending seen ms \<Longrightarrow>
    mset (map cm_tool_call_id (filter (\<lambda>m. cm_role m = RoleTool) ms)) = mset pending + mset (concat (map call_ids ms)) \<and>
    distinct (concat (map call_ids ms)) \<and> set (concat (map call_ids ms)) \<inter> seen = {}"
proof (induction ms arbitrary: pending seen)
  case (Cons m ms)
  show ?case
  proof (cases "pending = []")
    case True
    with Cons.prems have ok: "message_ok seen m" and rest: "answered (call_ids m) (seen \<union> set (call_ids m)) ms" by simp_all
    from ok have "cm_role m \<noteq> RoleTool" "distinct (call_ids m)" "set (call_ids m) \<inter> seen = {}"
      by (auto simp: message_ok_def calls_ok_def call_ok_def call_ids_def split: if_split_asm)
    with Cons.IH [OF rest] True show ?thesis by (auto simp: Int_Un_distrib)
  next
    case False
    with Cons.prems have ok: "answer_ok m" "cm_tool_call_id m \<in> set pending"
      and rest: "answered (remove1 (cm_tool_call_id m) pending) seen ms" by simp_all
    from ok(1) have "cm_role m = RoleTool" "call_ids m = []" by (simp_all add: answer_ok_def call_ids_def)
    with Cons.IH [OF rest] ok(2) show ?thesis by simp
  qed
qed simp

lemma turn_facts:
  "clear_backend turn_env" "call_ids (ma_message turn_answer) = [''c1'']" "call_ids turn_question = []"
  "answer_ok turn_reply" "cm_tool_call_id turn_reply = ''c1''"
proof -
  show "clear_backend turn_env"
    using turn_clear by (simp add: clear_backend_def turn_env_def turn_http_def turn_items)
  show "call_ids (ma_message turn_answer) = [''c1'']"
    by (simp add: call_ids_def response_calls [OF turn_answered]) (simp add: turn_state_def the_call_def)
  show "call_ids turn_question = []" by (simp add: turn_question_def call_ids_def)
  show "answer_ok turn_reply" "cm_tool_call_id turn_reply = ''c1''"
    by (simp_all add: answer_ok_def turn_reply_def plain_def text_part_def)
qed

lemma turn_conversation: "conversation {} [turn_question, ma_message turn_answer, turn_reply]"
proof -
  have "\<exists>y. encodeMessages ([turn_question] @ ma_message turn_answer # [turn_reply]) = Inr y"
    using replay [OF turn_encoded quiet_consumed turn_answered, of "[turn_reply]"] turn_facts turn_clear by (simp add: turn_items)
  then show ?thesis using encodes_iff by simp
qed

text \<open>A consumer that stops at the first chunk.\<close>

definition impatient :: consumer where
  "impatient = \<lparr>cs_tokens = turn_tokens, cs_sinks = [], cs_yield = Some (\<lambda>_ _. Some errStopIteration)\<rparr>"

lemma impatient_consumed:
  "consumeStream impatient (newSSEDecoder turn_body None) (new_result ''m'') [] = ([Yielded ''Hi''], Inl errStopIteration)"
proof -
  have "handleEvent impatient (no_event\<lparr>se_type := ''response.output_text.delta'', se_delta := ''Hi''\<rparr>) (new_result ''m'') [] =
      ([Yielded ''Hi''], Inl errStopIteration)"
    by (simp add: handleEvent_def handleTextDelta_def deliver_text_def appendText_def running impatient_def new_result_def Let_def no_event_def)
  then show ?thesis
    unfolding consumeStream_events turn_decoded turn_events_def
    by (simp add: not_done decode_delta eff_bind_def pure_r_def)
qed

section \<open>The properties\<close>

text \<open>
  C18. A response can be replayed. When a call succeeds, its message followed by one tool message for
  each of its tool calls, in any order, extends the conversation of the request to one that the
  encoder of requests accepts again: the opaque items in the message agree with its tool calls.
  The calls must be new to the conversation, and the items of the backend must be objects without
  two members of one name, which still fit a frame after their members are sorted.
\<close>
theorem responses_can_be_replayed:
  assumes "Invoke env md rq config = (log, out, CallDone a)"
    and "clear_backend env"
    and "set (call_ids (ma_message a)) \<inter> set (concat (map call_ids (mr_messages rq))) = {}"
    and "\<forall>b \<in> set answers. answer_ok b"
    and "mset (map cm_tool_call_id answers) = mset (call_ids (ma_message a))"
  shows "\<exists>y. encodeMessages (mr_messages rq @ ma_message a # answers) = Inr y"
proof -
  obtain model payload t resp r log1 where p: "responsesPayload rq = Inr payload" and o: "fst (ce_send env log1) = Some resp"
    and s: "consumeStream \<lparr>cs_tokens = t, cs_sinks = cc_sinks config, cs_yield = None\<rparr>
      (newSSEDecoder (hr_body resp) (hr_body_err resp)) (new_result (responseModel resp)) [] = (out, Inr r)"
    and a: "stream_response r = Inr a"
    using Invoke_done [OF assms(1)] by metis
  obtain x where x: "encodeMessages (mr_messages rq) = Inr x" using payload_encodes [OF p] by blast
  have "\<forall>v \<in> set (fst (sse_events (newSSEDecoder (hr_body resp) (hr_body_err resp)))). clear_item (event_item v)"
    using assms(2) o by (simp add: clear_backend_def)
  from replay [OF x s a this assms(3-5)] show ?thesis .
qed

theorem responses_can_be_replayed_witness:
  "\<exists>y. encodeMessages ([turn_question] @ ma_message turn_answer # [turn_reply]) = Inr y"
proof -
  have m: "mr_messages turn_request = [turn_question]" by (simp add: turn_request_def)
  from turn_facts show ?thesis
    using responses_can_be_replayed [OF turn_invoked, of "[turn_reply]"] by (simp add: m)
qed

text \<open>
  C19. The encoder accepts exactly the conversations of the abstract specification: messages of a
  system, developer, user or assistant with parts that fit their role and calls that are new,
  complete and consistent with the opaque items, each followed by exactly one plain answer for each
  of its calls.
\<close>
theorem accepted_conversations: "(\<exists>x. encodeMessages ms = Inr x) \<longleftrightarrow> conversation {} ms"
  by (rule encodes_iff)

text \<open>
  C20. The items of an accepted conversation have one function call for each tool call of its messages,
  whether it comes from an opaque item or from the call itself, and one output for each call, in
  the order of the tool messages; no call occurs twice.
\<close>
theorem calls_are_accounted:
  assumes "encodeMessages ms = Inr (instructions, items)"
  shows "mset (item_calls items) = mset (concat (map call_ids ms)) \<and> distinct (item_calls items) \<and>
    item_outputs items = map cm_tool_call_id (filter (\<lambda>m. cm_role m = RoleTool) ms) \<and>
    mset (item_outputs items) = mset (item_calls items)"
proof -
  from assms obtain en where en: "add_messages 0 ms new_encoder = Inr en" "en_pending en = []" "items = en_input en"
    by (auto simp: encodeMessages_def rbind_Inr_iff split: if_split_asm)
  from add_messages_items [OF good_new en(1)] en(3)
  have i: "mset (item_calls items) = mset (concat (map call_ids ms))"
    "item_outputs items = map cm_tool_call_id (filter (\<lambda>m. cm_role m = RoleTool) ms)" by (simp_all add: new_encoder_def)
  from assms encodes_iff have "answered [] {} ms" unfolding conversation_answered [symmetric] by blast
  from answered_accounts [OF this] have o: "mset (item_outputs items) = mset (item_calls items)" "distinct (concat (map call_ids ms))"
    by (simp_all add: i)
  from mset_eq_imp_distinct_iff [OF i(1)] o(2) have "distinct (item_calls items)" by blast
  with i o(1) show ?thesis by blast
qed

theorem calls_are_accounted_witness:
  "\<exists>x items. encodeMessages ([turn_question] @ ma_message turn_answer # [turn_reply]) = Inr (x, items) \<and> item_outputs items = [''c1'']"
proof -
  have "conversation {} ([turn_question] @ ma_message turn_answer # [turn_reply])"
    using turn_conversation by simp
  then obtain x items where e: "encodeMessages ([turn_question] @ ma_message turn_answer # [turn_reply]) = Inr (x, items)"
    using encodes_iff by fastforce
  have "cm_role (ma_message turn_answer) = RoleAssistant"
    by (rule response_cases [OF turn_answered]) (simp_all add: assistant_message_def)
  with calls_are_accounted [OF e] have "item_outputs items = [''c1'']" by (simp add: turn_question_def turn_reply_def)
  with e show ?thesis by blast
qed

text \<open>
  C21. A response that is returned is well formed: its tool calls have distinct ids, names and JSON
  arguments, its intent is a tool call exactly when there are calls, and unless it is a refusal a
  consumer was given exactly the text of the message, chunk by chunk.
\<close>
theorem response_is_well_formed:
  assumes "consumeStream cs (newSSEDecoder body err) (new_result model) [] = (out, Inr r)"
    and "stream_response r = Inr a"
  shows "distinct (call_ids (ma_message a)) \<and>
    (\<forall>c \<in> set (cm_tool_calls (ma_message a)). cl_id c \<noteq> '''' \<and> cl_name c \<noteq> '''' \<and> json_valid (cl_arguments c)) \<and>
    (ma_intent a = ToolCallIntent \<longleftrightarrow> cm_tool_calls (ma_message a) \<noteq> []) \<and>
    (cs_yield cs \<noteq> None \<and> (\<forall>why m k. ma_intent a \<noteq> RefusalIntent why m k) \<longrightarrow>
      yielded out = message_text (cm_parts (ma_message a)))"
  using well_formed [OF assms] by blast

theorem response_is_well_formed_witness:
  "yielded turn_log = message_text (cm_parts (ma_message turn_answer)) \<and> cm_tool_calls (ma_message turn_answer) \<noteq> []"
proof -
  note w = response_is_well_formed [OF turn_consumed turn_answered]
  have c: "cm_tool_calls (ma_message turn_answer) \<noteq> []"
    by (simp add: response_calls [OF turn_answered]) (simp add: turn_state_def)
  with w have "ma_intent turn_answer = ToolCallIntent" by blast
  with w c show ?thesis by (simp add: turn_consumer_def)
qed

text \<open>
  The decoder of server-sent events gives back the data that a server wrote, event by event and in
  order, for data within the limits that are not empty, do not start with a blank line and hold no
  carriage return.
\<close>
theorem sse_round_trip:
  assumes "\<forall>v \<in> set vs. sendable v" and "length (concat (map sse_event vs)) \<le> maxStreamBytes"
  shows "sse_events (newSSEDecoder (concat (map sse_event vs)) None) = (vs, ErrEOF)"
  using assms by (rule sse_events_written)

theorem sse_round_trip_witness: "sse_events (newSSEDecoder turn_body None) = (turn_events, ErrEOF)"
  using sse_round_trip [OF events_sendable] turn_size by (simp add: turn_body_def)

text \<open>
  C24. The message of an error of the backend holds none of the tokens of the call, for tokens that are
  no part of the fixed texts and have no brackets; the code of the error is what the backend sent.
\<close>
theorem secrets_are_redacted:
  assumes "t \<in> {tk_access tk, tk_id tk, tk_refresh tk}" and "redactable t"
    and "\<not> contains_sub ''failed to read error response'' t"
  shows "\<not> contains_sub (he_message (httpError resp tk)) t \<and>
    (hr_body_err resp = None \<longrightarrow> he_code (httpError resp tk) = fst (parseErrorBody (take maxHTTPErrorBytes (hr_body resp))))"
  using redactTokens_safe [OF assms(1,2)] assms(3) by (simp add: httpError_def Let_def split: prod.split)

theorem secrets_are_redacted_witness:
  "\<not> contains_sub (he_message (httpError (turn_http\<lparr>hr_status := 500, hr_body := ''bad secret''\<rparr>) turn_tokens)) ''secret''"
proof -
  have "redactable ''secret''" by code_simp
  moreover have "\<not> contains_sub ''failed to read error response'' ''secret''" by code_simp
  ultimately show ?thesis
    using secrets_are_redacted [of "''secret''" turn_tokens] by (simp add: turn_tokens_def)
qed

text \<open>
  C22. A call is bounded: it sends at most one request more than its attempts, refreshes its tokens at
  most once, and waits fewer times than it has attempts, each time for at most thirty seconds;
  every request has the payload, and headers made from tokens that were validated. A stream that
  is opened has a status of success.
\<close>
theorem calls_are_bounded:
  assumes "openStream env md payload = (log, result)"
  shows "length (filter is_sent log) \<le> nat (md_max_attempts md) + 1 \<and>
    length (filter ((=) TokenRefreshed) log) \<le> 1 \<and>
    length (filter is_wait log) \<le> nat (md_max_attempts md) - 1 \<and>
    list_all (effect_ok (md_originator md) payload) log \<and>
    (case result of Inl _ \<Rightarrow> True | Inr (resp, _) \<Rightarrow> successfulStatus (hr_status resp))"
  using open_attempts_adds [OF assms [unfolded openStream_def]] by (simp add: adds_def)

theorem calls_are_bounded_witness:
  "list_all (effect_ok ''gopact-ext'' []) [TokenAsked, Sent (request_headers ''gopact-ext'' turn_tokens) []]"
  using calls_are_bounded [OF turn_opened [of "[]"]] by (simp add: default_model_def)

text \<open>
  C23. A consumer that stops the iteration is not called again: either it wanted every chunk it was
  given, or the last chunk that was given is the one it refused, and no error is reported.
\<close>
theorem stream_stops_when_told:
  assumes "InvokeStream env md rq config wants = (log, out, err)"
  shows "wanted wants out \<or> (refused wants out \<and> err = None)"
  using assms by (rule InvokeStream_polite)

theorem stream_stops_when_told_witness:
  "InvokeStream turn_env (Some (default_model ''m'' True)) turn_request turn_config (\<lambda>_ _. False) =
     ([TokenAsked, Sent (request_headers ''gopact-ext'' turn_tokens) (projr (responsesPayload turn_request))], [Yielded ''Hi''], None) \<and>
   refused (\<lambda>_ _. False) [Yielded ''Hi'']"
proof -
  obtain payload where p: "responsesPayload turn_request = Inr payload" using turn_sent by blast
  have i: "InvokeStream turn_env (Some (default_model ''m'' True)) turn_request turn_config (\<lambda>_ _. False) =
     ([TokenAsked, Sent (request_headers ''gopact-ext'' turn_tokens) (projr (responsesPayload turn_request))], [Yielded ''Hi''], None)"
    using impatient_consumed
    by (simp add: InvokeStream_def resolveCallOptions_def turn_config_def execute_def turn_opened p impatient_def
      turn_http_def responseModel_def failure_is_stop_def errStopIteration_def)
  have "\<not> wanted (\<lambda>_ _. False) [Yielded ''Hi'']" using wanted_snoc [of _ "[]"] by simp
  with stream_stops_when_told [OF i] i show ?thesis by simp
qed

end
