(* ===== verification/Codex_Auth.thy ===== *)
theory Codex_Auth
  imports Codex_Model
begin

text \<open>
  \<open>src/models/openai/codexauth\<close>: the device-code login and the refresh of tokens
  (\<open>codexauth.go\<close>), and the source that loads tokens from a store and persists their
  replacements (\<open>source.go\<close>). The HTTP client, the clock, the context and the store answer as
  functions of the effects so far; the mutex of a source makes each call one step.
\<close>

section \<open>Encodings\<close>

text \<open>\<open>url.QueryEscape\<close>, and \<open>url.Values.Encode\<close> of values in the order of their keys.\<close>

definition upper_hex :: "nat \<Rightarrow> char" where
  "upper_hex n = byte_at (if n < 10 then 48 + n else 55 + n)"

definition query_safe :: "char \<Rightarrow> bool" where
  "query_safe c \<longleftrightarrow> (CHR ''a'' \<le> c \<and> c \<le> CHR ''z'') \<or> (CHR ''A'' \<le> c \<and> c \<le> CHR ''Z'') \<or> is_digit c \<or>
    c \<in> {CHR ''-'', CHR ''_'', CHR ''.'', CHR ''~''}"

definition query_escape :: "string \<Rightarrow> string" where
  "query_escape s = concat (map (\<lambda>c. if query_safe c then [c] else if c = CHR '' '' then ''+''
     else [CHR ''%'', upper_hex (of_char c div 16), upper_hex (of_char c mod 16)]) s)"

definition query_encode :: "(string \<times> string) list \<Rightarrow> string" where
  "query_encode kvs = join_strings ''&'' (map (\<lambda>(k, v). query_escape k @ ''='' @ query_escape v) (sort_key fst kvs))"

text \<open>
  \<open>base64.RawURLEncoding.DecodeString\<close>: line breaks are skipped, and the bits that are left over
  are not checked.
\<close>

definition base64_value :: "char \<Rightarrow> nat option" where
  "base64_value c =
    (if CHR ''A'' \<le> c \<and> c \<le> CHR ''Z'' then Some (of_char c - 65)
     else if CHR ''a'' \<le> c \<and> c \<le> CHR ''z'' then Some (of_char c - 71)
     else if is_digit c then Some (of_char c + 4)
     else if c = CHR ''-'' then Some 62 else if c = CHR ''_'' then Some 63 else None)"

fun base64_bytes :: "nat list \<Rightarrow> bytes option" where
  "base64_bytes [] = Some []"
| "base64_bytes [a] = None"
| "base64_bytes [a, b] = Some [byte_at (a * 4 + b div 16)]"
| "base64_bytes [a, b, c] = Some [byte_at (a * 4 + b div 16), byte_at (b mod 16 * 16 + c div 4)]"
| "base64_bytes (a # b # c # d # ns) = map_option
     (\<lambda>s. byte_at (a * 4 + b div 16) # byte_at (b mod 16 * 16 + c div 4) # byte_at (c mod 4 * 64 + d) # s) (base64_bytes ns)"

definition base64_decode :: "string \<Rightarrow> bytes option" where
  "base64_decode s =
    (let vs = map base64_value (filter (\<lambda>c. c \<noteq> CHR 0x0A \<and> c \<noteq> CHR 0x0D) s)
     in if None \<in> set vs then None else base64_bytes (map the vs))"

text \<open>\<open>EncodedLen\<close> of \<open>n\<close> bytes without padding.\<close>

definition base64_length :: "nat \<Rightarrow> nat" where
  "base64_length n = n div 3 * 4 + (n mod 3 * 8 + 5) div 6"

text \<open>\<open>strings.Split\<close> at a character.\<close>

fun split_at :: "char \<Rightarrow> string \<Rightarrow> string list" where
  "split_at d [] = [[]]"
| "split_at d (c # s) = (if c = d then [] # split_at d s
     else (case split_at d s of [] \<Rightarrow> [[c]] | w # ws \<Rightarrow> (c # w) # ws))"

section \<open>Tokens\<close>

text \<open>The zero time, that is no expiry, is the instant 0.\<close>

record auth_tokens = tokens +
  tk_expires :: instant

definition no_tokens :: auth_tokens where
  "no_tokens = \<lparr>tk_access = '''', tk_id = '''', tk_refresh = '''', tk_account = '''', tk_expires = 0\<rparr>"

record token_response =
  tr_id :: string
  tr_access :: string
  tr_refresh :: string
  tr_expires_in :: int

definition token_response_fields :: "token_response fields" where
  "token_response_fields = [(''id_token'', string_field tr_id_update), (''access_token'', string_field tr_access_update),
     (''refresh_token'', string_field tr_refresh_update), (''expires_in'', int64_field tr_expires_in_update)]"

definition no_token_response :: token_response where
  "no_token_response = \<lparr>tr_id = '''', tr_access = '''', tr_refresh = '''', tr_expires_in = 0\<rparr>"

definition maxJWTClaimsBytes :: nat where "maxJWTClaimsBytes = 65536"

text \<open>
  The claims of a token: an object and nothing after it, with its last member of each name. The
  errors of the two calls of the JSON decoder are one error here.
\<close>

definition decodeJWTClaims :: "string \<Rightarrow> agent_error + (string \<times> json) list" where
  "decodeJWTClaims token =
    (let parts = split_at (CHR ''.'') token in
     if length parts \<noteq> 3 \<or> parts ! 0 = '''' \<or> parts ! 1 = '''' \<or> parts ! 2 = '''' then Inl (Errorf ''token is not a jwt'' [])
     else if length (parts ! 1) > base64_length maxJWTClaimsBytes then Inl (Errorf ''jwt claims are too large'' [])
     else case base64_decode (parts ! 1) of
         None \<Rightarrow> Inl (Wrapped ''decode jwt claims: %w'' [] (Errorf ''encoding/base64'' []))
       | Some payload \<Rightarrow>
           if length payload > maxJWTClaimsBytes then Inl (Errorf ''jwt claims are too large'' [])
           else (case parse_json payload of
               Some (JObject kvs) \<Rightarrow> Inr (object_map kvs)
             | Some JNull \<Rightarrow> Inl (Errorf ''decode jwt claims: claims are not an object'' [])
             | _ \<Rightarrow> Inl (Wrapped ''decode jwt claims: %w'' [] json_error)))"

text \<open>A member of a map that is a string and not empty.\<close>

definition claim_string :: "(string \<times> json) list \<Rightarrow> string \<Rightarrow> string option" where
  "claim_string claims name = (case map_of claims name of
     Some (JString r) \<Rightarrow> if unquote r \<noteq> '''' then Some (unquote r) else None | _ \<Rightarrow> None)"

definition accountIDFromJWT :: "string \<Rightarrow> agent_error + string" where
  "accountIDFromJWT token = rbind (decodeJWTClaims token) (\<lambda>claims.
    Inr (case claim_string claims ''chatgpt_account_id'' of
       Some accountID \<Rightarrow> accountID
     | None \<Rightarrow>
         (case map_of claims ''https://api.openai.com/auth'' of
            Some (JObject kvs) \<Rightarrow>
              (case claim_string (object_map kvs) ''chatgpt_account_id'' of Some accountID \<Rightarrow> accountID | None \<Rightarrow> '''')
          | _ \<Rightarrow> '''')))"

text \<open>\<open>time.Unix\<close>: the seconds since the year one are kept in 64 bits.\<close>

definition unix_second :: "int \<Rightarrow> instant" where
  "unix_second seconds = wrap64 (seconds + unix_epoch div second) * second"

definition expirationFromJWT :: "string \<Rightarrow> instant option" where
  "expirationFromJWT token = (case decodeJWTClaims token of
     Inl _ \<Rightarrow> None
   | Inr claims \<Rightarrow>
       (case map_of claims ''exp'' of
          Some (JNumber r) \<Rightarrow>
            (case parse_int64 r of
               Some seconds \<Rightarrow> if seconds \<le> 0 then None else Some (unix_second seconds)
             | None \<Rightarrow> None)
        | _ \<Rightarrow> None))"

definition mergeTokens :: "auth_tokens \<Rightarrow> token_response \<Rightarrow> instant \<Rightarrow> agent_error + auth_tokens" where
  "mergeTokens current payload now =
    rbind (if tr_id payload \<noteq> '''' then
        rbind (wrap_error (Wrapped ''codexauth: decode id token: %w'' []) (accountIDFromJWT (tr_id payload))) (\<lambda>accountID.
        let merged = current\<lparr>tk_id := tr_id payload\<rparr>
        in Inr (if accountID \<noteq> '''' then merged\<lparr>tk_account := accountID\<rparr> else merged))
      else Inr current) (\<lambda>merged1.
    let merged2 = (if tr_access payload \<noteq> '''' then
          merged1\<lparr>tk_access := tr_access payload,
            tk_expires := (case expirationFromJWT (tr_access payload) of
               Some expiresAt \<Rightarrow> expiresAt
             | None \<Rightarrow> if tr_expires_in payload > 0 then now + wrap64 (tr_expires_in payload * second) else 0)\<rparr>
        else merged1);
      merged3 = (if tr_refresh payload \<noteq> '''' then merged2\<lparr>tk_refresh := tr_refresh payload\<rparr> else merged2)
    in if tk_id merged3 = '''' then Inl (Errorf ''codexauth: token response has no id token'' [])
       else if tk_access merged3 = '''' then Inl (Errorf ''codexauth: token response has no access token'' [])
       else if tk_refresh merged3 = '''' then Inl (Errorf ''codexauth: token response has no refresh token'' [])
       else if tk_account merged3 = '''' then
         rbind (wrap_error (Wrapped ''codexauth: decode id token: %w'' []) (accountIDFromJWT (tk_id merged3))) (\<lambda>accountID.
         Inr (merged3\<lparr>tk_account := accountID\<rparr>))
       else Inr merged3)"

section \<open>The client\<close>

text \<open>Of the HTTP client the model keeps whether it is set.\<close>

record auth_client =
  au_issuer :: string
  au_client_id :: string
  au_http_client :: bool
  au_request_timeout :: duration
  au_login_timeout :: duration
  au_allow_http :: bool
  au_config_err :: "agent_error list"

definition DefaultIssuer :: string where "DefaultIssuer = ''https://auth.openai.com''"
definition DefaultClientID :: string where "DefaultClientID = ''app_EMoamEEZ73f0CkXaXp7hrann''"
definition defaultRequestTimeout :: duration where "defaultRequestTimeout = 30 * second"
definition defaultLoginTimeout :: duration where "defaultLoginTimeout = 900 * second"
definition defaultPollInterval :: duration where "defaultPollInterval = 5 * second"
definition maxPollInterval :: duration where "maxPollInterval = 86400 * second"
definition maxResponseBytes :: nat where "maxResponseBytes = 1048576"

definition ErrDeviceLoginUnavailable :: agent_error where
  "ErrDeviceLoginUnavailable = Errorf ''codexauth: device login unavailable'' []"

definition ErrDeviceCodeExpired :: agent_error where
  "ErrDeviceCodeExpired = Errorf ''codexauth: device code expired'' []"

definition auth_http_error :: "string \<Rightarrow> int \<Rightarrow> agent_error" where
  "auth_http_error operation status = Errorf ''codexauth: %s: status %d'' [Str operation, Num status]"

definition validate_client :: "(string \<Rightarrow> url option) \<Rightarrow> auth_client \<Rightarrow> agent_error + url" where
  "validate_client parse c =
    rbind (if au_config_err c = [] then Inr () else Inl (Joined (au_config_err c))) (\<lambda>_.
    rbind (guard_r (au_client_id c \<noteq> '''') (Errorf ''codexauth: client id is required'' [])) (\<lambda>_.
    rbind (guard_r (au_http_client c) (Errorf ''codexauth: http client is nil'' [])) (\<lambda>_.
    rbind (guard_r (0 < au_request_timeout c) (Errorf ''codexauth: request timeout must be positive'' [])) (\<lambda>_.
    rbind (guard_r (0 < au_login_timeout c) (Errorf ''codexauth: login timeout must be positive'' [])) (\<lambda>_.
    case parse (au_issuer c) of
      None \<Rightarrow> Inl (Errorf ''codexauth: issuer is invalid'' [])
    | Some issuer \<Rightarrow>
        if url_host issuer = '''' \<or> (url_scheme issuer \<noteq> ''http'' \<and> url_scheme issuer \<noteq> ''https'')
        then Inl (Errorf ''codexauth: issuer is invalid'' [])
        else if url_scheme issuer = ''http'' \<and> \<not> au_allow_http c
        then Inl (Errorf ''codexauth: http issuer requires WithInsecureHTTP'' [])
        else if url_user issuer \<noteq> None \<or> url_query issuer \<noteq> '''' \<or> url_fragment issuer \<noteq> '''' \<or> url_opaque issuer \<noteq> ''''
        then Inl (Errorf ''codexauth: issuer must not contain credentials, query, or fragment'' [])
        else Inr issuer)))))"

type_synonym client_option = "auth_client \<Rightarrow> auth_client"

definition WithIssuer :: "string \<Rightarrow> client_option" where
  "WithIssuer issuer c = c\<lparr>au_issuer := trim_right_slash issuer\<rparr>"

definition WithClientID :: "string \<Rightarrow> client_option" where
  "WithClientID clientID c = c\<lparr>au_client_id := clientID\<rparr>"

definition WithAuthHTTPClient :: "bool \<Rightarrow> client_option" where
  "WithAuthHTTPClient client c =
    (if client then c\<lparr>au_http_client := True\<rparr>
     else c\<lparr>au_config_err := au_config_err c @ [Errorf ''codexauth: http client is nil'' []]\<rparr>)"

definition WithRequestTimeout :: "duration \<Rightarrow> client_option" where
  "WithRequestTimeout timeout c = c\<lparr>au_request_timeout := timeout\<rparr>"

definition WithLoginTimeout :: "duration \<Rightarrow> client_option" where
  "WithLoginTimeout timeout c = c\<lparr>au_login_timeout := timeout\<rparr>"

definition WithInsecureIssuer :: client_option where
  "WithInsecureIssuer c = c\<lparr>au_allow_http := True\<rparr>"

definition default_client :: auth_client where
  "default_client = \<lparr>au_issuer = DefaultIssuer, au_client_id = DefaultClientID, au_http_client = True,
     au_request_timeout = defaultRequestTimeout, au_login_timeout = defaultLoginTimeout, au_allow_http = False, au_config_err = []\<rparr>"

definition new_client :: "(string \<Rightarrow> url option) \<Rightarrow> client_option option list \<Rightarrow> agent_error + auth_client" where
  "new_client parse opts =
    (let c = fold (\<lambda>opt c. case opt of None \<Rightarrow> c | Some f \<Rightarrow> f c) opts default_client
     in rbind (validate_client parse c) (\<lambda>_. Inr c))"

definition endpoint :: "auth_client \<Rightarrow> string \<Rightarrow> string" where
  "endpoint c path = au_issuer c @ path"

text \<open>Origins are compared as in \<open>codex.go\<close>, with the port of a scheme in any case.\<close>

definition auth_port :: "origin \<Rightarrow> string" where
  "auth_port u = (if og_port u \<noteq> '''' then og_port u
     else if to_lower (og_scheme u) = ''http'' then ''80'' else if to_lower (og_scheme u) = ''https'' then ''443'' else '''')"

definition auth_same_origin :: "origin \<Rightarrow> origin \<Rightarrow> bool" where
  "auth_same_origin left right \<longleftrightarrow> to_lower (og_scheme left) = to_lower (og_scheme right) \<and>
    to_lower (og_hostname left) = to_lower (og_hostname right) \<and> auth_port left = auth_port right"

text \<open>The policy of redirects, as in \<open>codex.go\<close> with its own errors.\<close>

definition check_auth_redirect :: "origin \<Rightarrow> agent_error option option \<Rightarrow> origin \<Rightarrow> nat \<Rightarrow> agent_error option" where
  "check_auth_redirect issuer callerPolicy target via =
    (if via \<ge> 10 then Some (Errorf ''codexauth: stopped after too many redirects'' [])
     else if \<not> auth_same_origin issuer target then Some (Errorf ''codexauth: refusing cross-origin redirect'' [])
     else case callerPolicy of None \<Rightarrow> None | Some answer \<Rightarrow> answer)"

section \<open>Requests\<close>

datatype auth_effect =
    Posted string string bytes
  | Slept duration
  | Loaded
  | Saved auth_tokens

type_synonym auth_log = "auth_effect list"

text \<open>\<open>ae_wait\<close> is \<open>None\<close> when the timer fires, else the cause of the end of the context.\<close>

record auth_env =
  ae_post :: "auth_log \<Rightarrow> agent_error + http_response"
  ae_now :: "auth_log \<Rightarrow> instant"
  ae_wait :: "auth_log \<Rightarrow> agent_error option"
  ae_load :: "auth_log \<Rightarrow> agent_error + auth_tokens"
  ae_save :: "auth_log \<Rightarrow> agent_error option"

type_synonym 'a auth_step = "auth_log \<Rightarrow> auth_log \<times> (agent_error + 'a)"

definition post :: "auth_env \<Rightarrow> string \<Rightarrow> string \<Rightarrow> bytes \<Rightarrow> http_response auth_step" where
  "post env url contentType body log = (let log1 = log @ [Posted url contentType body] in (log1, ae_post env log1))"

definition decodeResponse :: "'s fields \<Rightarrow> 's \<Rightarrow> http_response \<Rightarrow> agent_error + 's" where
  "decodeResponse fs zero resp =
    (if length (hr_body resp) > maxResponseBytes
     then Inl (Errorf ''response body exceeds %d bytes'' [Num (int maxResponseBytes)])
     else case hr_body_err resp of
         Some e \<Rightarrow> Inl e
       | None \<Rightarrow> (case unmarshal fs (hr_body resp) zero of None \<Rightarrow> Inl json_error | Some v \<Rightarrow> Inr v))"

text \<open>The body of a request: an object of strings, in the order of the fields.\<close>

definition json_body :: "(string \<times> string) list \<Rightarrow> bytes" where
  "json_body kvs = print_json (JObject (map (\<lambda>(k, v). (k, jstr v)) kvs))"

subsection \<open>The device code\<close>

record device_code =
  dc_verification_url :: string
  dc_user_code :: string
  dc_expires :: instant
  dc_auth_id :: string
  dc_interval :: duration
  dc_issuer :: string
  dc_client_id :: string

record user_code_response =
  uc_auth_id :: string
  uc_user_code :: string
  uc_legacy :: string
  uc_interval :: duration

text \<open>
  \<open>seconds.UnmarshalJSON\<close>: a number or a quoted number. A string that \<open>strconv.Unquote\<close> reads
  otherwise than JSON does has a character that is no digit, so that it fails as well.
\<close>

definition seconds_field :: "((duration \<Rightarrow> duration) \<Rightarrow> 's \<Rightarrow> 's) \<Rightarrow> 's setter" where
  "seconds_field upd v z =
    (case (case v of JString r \<Rightarrow> atoi (unquote r) | JNumber r \<Rightarrow> atoi r | _ \<Rightarrow> None) of
       None \<Rightarrow> None
     | Some amount \<Rightarrow>
         if amount < 0 \<or> amount > maxPollInterval div second then None else Some (upd (\<lambda>_. amount * second) z))"

definition user_code_fields :: "user_code_response fields" where
  "user_code_fields = [(''device_auth_id'', string_field uc_auth_id_update), (''user_code'', string_field uc_user_code_update),
     (''usercode'', string_field uc_legacy_update), (''interval'', seconds_field uc_interval_update)]"

definition no_user_code :: user_code_response where
  "no_user_code = \<lparr>uc_auth_id = '''', uc_user_code = '''', uc_legacy = '''', uc_interval = 0\<rparr>"

definition device_code_of :: "auth_client \<Rightarrow> instant \<Rightarrow> user_code_response \<Rightarrow> agent_error + device_code" where
  "device_code_of c now payload =
    (let user = (if uc_user_code payload = '''' then uc_legacy payload else uc_user_code payload) in
     if uc_auth_id payload = '''' \<or> user = '''' then Inl (Errorf ''codexauth: user-code response is incomplete'' [])
     else Inr \<lparr>dc_verification_url = endpoint c ''/codex/device'', dc_user_code = user, dc_expires = now + au_login_timeout c,
       dc_auth_id = uc_auth_id payload, dc_interval = (if uc_interval payload \<le> 0 then defaultPollInterval else uc_interval payload),
       dc_issuer = au_issuer c, dc_client_id = au_client_id c\<rparr>)"

definition Start :: "auth_env \<Rightarrow> auth_client option \<Rightarrow> device_code auth_step" where
  "Start env client log = (case client of
     None \<Rightarrow> (log, Inl (Errorf ''codexauth: client is nil'' []))
   | Some c \<Rightarrow>
       (case post env (endpoint c ''/api/accounts/deviceauth/usercode'') ''application/json''
           (json_body [(''client_id'', au_client_id c)]) log of
          (log1, Inl e) \<Rightarrow> (log1, Inl (Wrapped ''codexauth: request device code: %w'' [] e))
        | (log1, Inr resp) \<Rightarrow> (log1,
            if hr_status resp = 404 then Inl (Wrapped ''codexauth: start device login: %w'' [] ErrDeviceLoginUnavailable)
            else if \<not> successfulStatus (hr_status resp) then Inl (auth_http_error ''start device login'' (hr_status resp))
            else rbind (wrap_error (Wrapped ''codexauth: decode user-code response: %w'' [])
                (decodeResponse user_code_fields no_user_code resp)) (device_code_of c (ae_now env log1)))))"

record code_response =
  cd_authorization :: string
  cd_challenge :: string
  cd_verifier :: string

definition code_response_fields :: "code_response fields" where
  "code_response_fields = [(''authorization_code'', string_field cd_authorization_update),
     (''code_challenge'', string_field cd_challenge_update), (''code_verifier'', string_field cd_verifier_update)]"

definition no_code :: code_response where
  "no_code = \<lparr>cd_authorization = '''', cd_challenge = '''', cd_verifier = ''''\<rparr>"

text \<open>\<open>None\<close> is a login that is pending.\<close>

definition poll :: "auth_env \<Rightarrow> auth_client \<Rightarrow> device_code \<Rightarrow> code_response option auth_step" where
  "poll env c code log =
    (case post env (endpoint c ''/api/accounts/deviceauth/token'') ''application/json''
        (json_body [(''device_auth_id'', dc_auth_id code), (''user_code'', dc_user_code code)]) log of
       (log1, Inl e) \<Rightarrow> (log1, Inl (Wrapped ''codexauth: poll device login: %w'' [] e))
     | (log1, Inr resp) \<Rightarrow> (log1,
         if hr_status resp = 403 \<or> hr_status resp = 404 then Inr None
         else if \<not> successfulStatus (hr_status resp) then Inl (auth_http_error ''poll device login'' (hr_status resp))
         else rbind (wrap_error (Wrapped ''codexauth: decode device login response: %w'' [])
             (decodeResponse code_response_fields no_code resp)) (\<lambda>payload.
           if cd_authorization payload = '''' \<or> cd_challenge payload = '''' \<or> cd_verifier payload = ''''
           then Inl (Errorf ''codexauth: device login response is incomplete'' [])
           else Inr (Some payload))))"

definition exchange :: "auth_env \<Rightarrow> auth_client \<Rightarrow> code_response \<Rightarrow> auth_tokens auth_step" where
  "exchange env c code log =
    (case post env (endpoint c ''/oauth/token'') ''application/x-www-form-urlencoded''
        (query_encode [(''grant_type'', ''authorization_code''), (''code'', cd_authorization code),
           (''redirect_uri'', endpoint c ''/deviceauth/callback''), (''client_id'', au_client_id c),
           (''code_verifier'', cd_verifier code)]) log of
       (log1, Inl e) \<Rightarrow> (log1, Inl (Wrapped ''codexauth: exchange authorization code: %w'' [] e))
     | (log1, Inr resp) \<Rightarrow> (log1,
         if \<not> successfulStatus (hr_status resp) then Inl (auth_http_error ''exchange authorization code'' (hr_status resp))
         else rbind (wrap_error (Wrapped ''codexauth: decode token response: %w'' [])
             (decodeResponse token_response_fields no_token_response resp)) (\<lambda>payload.
           mergeTokens no_tokens payload (ae_now env log1))))"

text \<open>The loop of \<open>Wait\<close>, which ends when the environment ends it: \<open>None\<close> is a loop that goes on for ever.\<close>

partial_function (option) poll_loop :: "auth_env \<Rightarrow> auth_client \<Rightarrow> device_code \<Rightarrow> auth_log \<Rightarrow>
    (auth_log \<times> (agent_error + auth_tokens)) option" where
  "poll_loop env c code log =
    (case poll env c code log of
       (log1, Inl e) \<Rightarrow> Some (log1, Inl e)
     | (log1, Inr (Some payload)) \<Rightarrow> Some (exchange env c payload log1)
     | (log1, Inr None) \<Rightarrow>
         (let log2 = log1 @ [Slept (dc_interval code)] in
          case ae_wait env log2 of Some e \<Rightarrow> Some (log2, Inl e) | None \<Rightarrow> poll_loop env c code log2))"

definition Wait :: "auth_env \<Rightarrow> auth_client option \<Rightarrow> device_code \<Rightarrow> auth_log \<Rightarrow> (auth_log \<times> (agent_error + auth_tokens)) option" where
  "Wait env client code log = (case client of
     None \<Rightarrow> Some (log, Inl (Errorf ''codexauth: client is nil'' []))
   | Some c \<Rightarrow>
       if dc_auth_id code = '''' \<or> dc_user_code code = '''' \<or> dc_interval code \<le> 0 \<or> dc_expires code = 0 \<or>
         dc_issuer code = '''' \<or> dc_client_id code = ''''
       then Some (log, Inl (Errorf ''codexauth: device code is invalid'' []))
       else if dc_issuer code \<noteq> au_issuer c \<or> dc_client_id code \<noteq> au_client_id c
       then Some (log, Inl (Errorf ''codexauth: device code was issued for another client'' []))
       else if \<not> ae_now env log < dc_expires code then Some (log, Inl ErrDeviceCodeExpired)
       else poll_loop env c code log)"

section \<open>The refresh of tokens\<close>

definition Refresh :: "auth_env \<Rightarrow> auth_client option \<Rightarrow> auth_tokens \<Rightarrow> auth_tokens auth_step" where
  "Refresh env client current log = (case client of
     None \<Rightarrow> (log, Inl (Errorf ''codexauth: client is nil'' []))
   | Some c \<Rightarrow>
       if tk_refresh current = '''' then (log, Inl (Errorf ''codexauth: refresh token is required'' []))
       else
         (case post env (endpoint c ''/oauth/token'') ''application/json''
             (json_body [(''client_id'', au_client_id c), (''grant_type'', ''refresh_token''),
                (''refresh_token'', tk_refresh current)]) log of
            (log1, Inl e) \<Rightarrow> (log1, Inl (Wrapped ''codexauth: refresh tokens: %w'' [] e))
          | (log1, Inr resp) \<Rightarrow> (log1,
              if \<not> successfulStatus (hr_status resp) then Inl (auth_http_error ''refresh tokens'' (hr_status resp))
              else rbind (wrap_error (Wrapped ''codexauth: decode refresh response: %w'' [])
                  (decodeResponse token_response_fields no_token_response resp)) (\<lambda>payload.
                if tr_id payload = '''' \<and> tr_access payload = '''' \<and> tr_refresh payload = ''''
                then Inl (Errorf ''codexauth: refresh response has no tokens'' [])
                else mergeTokens current payload (ae_now env log1)))))"

section \<open>The source\<close>

record token_source =
  so_client :: "auth_client option"
  so_store :: bool
  so_window :: duration
  so_config_err :: "agent_error list"

definition defaultRefreshWindow :: duration where "defaultRefreshWindow = 300 * second"

type_synonym source_option = "token_source \<Rightarrow> token_source"

definition WithRefreshWindow :: "duration \<Rightarrow> source_option" where
  "WithRefreshWindow window s =
    (if window < 0 then s\<lparr>so_config_err := so_config_err s @ [Errorf ''codexauth: refresh window must not be negative'' []]\<rparr>
     else s\<lparr>so_window := window\<rparr>)"

definition NewSource :: "auth_client option \<Rightarrow> bool \<Rightarrow> source_option option list \<Rightarrow> agent_error + token_source" where
  "NewSource client store opts =
    (let s = fold (\<lambda>opt s. case opt of None \<Rightarrow> s | Some f \<Rightarrow> f s) opts
           \<lparr>so_client = client, so_store = store, so_window = defaultRefreshWindow, so_config_err = []\<rparr>
     in if so_config_err s \<noteq> [] then Inl (Joined (so_config_err s))
        else if so_client s = None then Inl (Errorf ''codexauth: source client is nil'' [])
        else if \<not> so_store s then Inl (Errorf ''codexauth: token store is nil'' [])
        else Inr s)"

definition source_load :: "auth_env \<Rightarrow> auth_tokens auth_step" where
  "source_load env log =
    (let log1 = log @ [Loaded] in
     (log1, case ae_load env log1 of
        Inl e \<Rightarrow> Inl (Wrapped ''codexauth: load tokens: %w'' [] e)
      | Inr t \<Rightarrow> if tk_access t = '''' then Inl (Errorf ''codexauth: stored access token is empty'' []) else Inr t))"

definition source_refresh :: "auth_env \<Rightarrow> token_source \<Rightarrow> auth_tokens \<Rightarrow> auth_tokens auth_step" where
  "source_refresh env s current log = (case Refresh env (so_client s) current log of
     (log1, Inl e) \<Rightarrow> (log1, Inl e)
   | (log1, Inr rotated) \<Rightarrow>
       (let log2 = log1 @ [Saved rotated] in
        (log2, case ae_save env log2 of
           Some e \<Rightarrow> Inl (Wrapped ''codexauth: save refreshed tokens: %w'' [] e) | None \<Rightarrow> Inr rotated)))"

text \<open>\<open>time.Until\<close> saturates in 64 bits.\<close>

definition time_until :: "instant \<Rightarrow> instant \<Rightarrow> duration" where
  "time_until t now = max (- (2 ^ 63)) (min (2 ^ 63 - 1) (t - now))"

definition source_Token :: "auth_env \<Rightarrow> token_source option \<Rightarrow> auth_tokens auth_step" where
  "source_Token env source log = (case source of
     None \<Rightarrow> (log, Inl (Errorf ''codexauth: source is nil'' []))
   | Some s \<Rightarrow>
       (case source_load env log of
          (log1, Inl e) \<Rightarrow> (log1, Inl e)
        | (log1, Inr t) \<Rightarrow>
            if tk_expires t = 0 \<or> time_until (tk_expires t) (ae_now env log1) > so_window s then (log1, Inr t)
            else source_refresh env s t log1))"

definition source_Refresh :: "auth_env \<Rightarrow> token_source option \<Rightarrow> auth_tokens auth_step" where
  "source_Refresh env source log = (case source of
     None \<Rightarrow> (log, Inl (Errorf ''codexauth: source is nil'' []))
   | Some s \<Rightarrow> (case source_load env log of
        (log1, Inl e) \<Rightarrow> (log1, Inl e) | (log1, Inr t) \<Rightarrow> source_refresh env s t log1))"

end
