(* ===== verification/Codex_Account.thy ===== *)
theory Codex_Account
  imports Codex_Auth
begin

text \<open>
  \<open>src/models/openai/codex/account.go\<close>: the list of the models and the usage of the subscription,
  fetched with attempts of their own. A \<open>json.RawMessage\<close> in a slice is kept as the value that its
  text denotes.
\<close>

section \<open>Fields of responses\<close>

definition bool_field :: "((bool \<Rightarrow> bool) \<Rightarrow> 's \<Rightarrow> 's) \<Rightarrow> 's setter" where
  "bool_field upd v z = (case v of JNull \<Rightarrow> Some z | JBool b \<Rightarrow> Some (upd (\<lambda>_. b) z) | _ \<Rightarrow> None)"

fun decode_strings :: "json list \<Rightarrow> string list option" where
  "decode_strings [] = Some []"
| "decode_strings (JString r # vs) = map_option ((#) (unquote r)) (decode_strings vs)"
| "decode_strings (JNull # vs) = map_option ((#) '''') (decode_strings vs)"
| "decode_strings (v # vs) = None"

definition strings_field :: "((string list \<Rightarrow> string list) \<Rightarrow> 's \<Rightarrow> 's) \<Rightarrow> 's setter" where
  "strings_field upd v z = (case v of
     JNull \<Rightarrow> Some (upd (\<lambda>_. []) z) | JArray vs \<Rightarrow> map_option (\<lambda>ss. upd (\<lambda>_. ss) z) (decode_strings vs) | _ \<Rightarrow> None)"

definition values_field :: "((json list \<Rightarrow> json list) \<Rightarrow> 's \<Rightarrow> 's) \<Rightarrow> 's setter" where
  "values_field upd v z = (case v of
     JNull \<Rightarrow> Some (upd (\<lambda>_. []) z) | JArray vs \<Rightarrow> Some (upd (\<lambda>_. vs) z) | _ \<Rightarrow> None)"

section \<open>The usage of a subscription\<close>

record limit_window =
  lw_used_percent :: int
  lw_seconds :: int
  lw_reset_after :: int
  lw_reset_at :: int

definition window_fields :: "limit_window fields" where
  "window_fields = [(''used_percent'', int64_field lw_used_percent_update), (''limit_window_seconds'', int64_field lw_seconds_update),
     (''reset_after_seconds'', int64_field lw_reset_after_update), (''reset_at'', int64_field lw_reset_at_update)]"

definition no_window :: limit_window where
  "no_window = \<lparr>lw_used_percent = 0, lw_seconds = 0, lw_reset_after = 0, lw_reset_at = 0\<rparr>"

record rate_limit =
  rl_allowed :: bool
  rl_reached :: bool
  rl_primary :: "limit_window option"
  rl_secondary :: "limit_window option"

definition rate_limit_fields :: "rate_limit fields" where
  "rate_limit_fields = [(''allowed'', bool_field rl_allowed_update), (''limit_reached'', bool_field rl_reached_update),
     (''primary_window'', pointer_field rl_primary rl_primary_update no_window window_fields),
     (''secondary_window'', pointer_field rl_secondary rl_secondary_update no_window window_fields)]"

definition no_rate_limit :: rate_limit where
  "no_rate_limit = \<lparr>rl_allowed = False, rl_reached = False, rl_primary = None, rl_secondary = None\<rparr>"

record credit_status =
  kr_has_credits :: bool
  kr_unlimited :: bool
  kr_balance :: string
  kr_local_messages :: "json list"
  kr_cloud_messages :: "json list"

definition credit_fields :: "credit_status fields" where
  "credit_fields = [(''has_credits'', bool_field kr_has_credits_update), (''unlimited'', bool_field kr_unlimited_update),
     (''balance'', string_field kr_balance_update), (''approx_local_messages'', values_field kr_local_messages_update),
     (''approx_cloud_messages'', values_field kr_cloud_messages_update)]"

definition no_credits :: credit_status where
  "no_credits = \<lparr>kr_has_credits = False, kr_unlimited = False, kr_balance = '''', kr_local_messages = [], kr_cloud_messages = []\<rparr>"

record spend_limit =
  sl_source :: string
  sl_limit :: string
  sl_used :: string
  sl_remaining :: string
  sl_used_percent :: int
  sl_remaining_percent :: int
  sl_reset_after :: int
  sl_reset_at :: int

definition spend_limit_fields :: "spend_limit fields" where
  "spend_limit_fields = [(''source'', string_field sl_source_update), (''limit'', string_field sl_limit_update),
     (''used'', string_field sl_used_update), (''remaining'', string_field sl_remaining_update),
     (''used_percent'', int64_field sl_used_percent_update), (''remaining_percent'', int64_field sl_remaining_percent_update),
     (''reset_after_seconds'', int64_field sl_reset_after_update), (''reset_at'', int64_field sl_reset_at_update)]"

definition no_spend_limit :: spend_limit where
  "no_spend_limit = \<lparr>sl_source = '''', sl_limit = '''', sl_used = '''', sl_remaining = '''', sl_used_percent = 0,
     sl_remaining_percent = 0, sl_reset_after = 0, sl_reset_at = 0\<rparr>"

record spend_control =
  sp_reached :: bool
  sp_individual :: "spend_limit option"

definition spend_control_fields :: "spend_control fields" where
  "spend_control_fields = [(''reached'', bool_field sp_reached_update),
     (''individual_limit'', pointer_field sp_individual sp_individual_update no_spend_limit spend_limit_fields)]"

record additional_limit =
  xl_name :: string
  xl_feature :: string
  xl_rate_limit :: "rate_limit option"

definition additional_limit_fields :: "additional_limit fields" where
  "additional_limit_fields = [(''limit_name'', string_field xl_name_update), (''metered_feature'', string_field xl_feature_update),
     (''rate_limit'', pointer_field xl_rate_limit xl_rate_limit_update no_rate_limit rate_limit_fields)]"

record limit_reached =
  lr_type :: string

record reset_credits =
  rs_available :: int

record subscription_usage =
  su_plan :: string
  su_rate_limit :: "rate_limit option"
  su_credits :: "credit_status option"
  su_spend_control :: "spend_control option"
  su_additional :: "additional_limit list"
  su_reached :: "limit_reached option"
  su_reset_credits :: "reset_credits option"

definition usage_report_fields :: "subscription_usage fields" where
  "usage_report_fields = [(''plan_type'', string_field su_plan_update),
     (''rate_limit'', pointer_field su_rate_limit su_rate_limit_update no_rate_limit rate_limit_fields),
     (''credits'', pointer_field su_credits su_credits_update no_credits credit_fields),
     (''spend_control'', pointer_field su_spend_control su_spend_control_update \<lparr>sp_reached = False, sp_individual = None\<rparr> spend_control_fields),
     (''additional_rate_limits'', slice_field su_additional_update \<lparr>xl_name = '''', xl_feature = '''', xl_rate_limit = None\<rparr> additional_limit_fields),
     (''rate_limit_reached_type'', pointer_field su_reached su_reached_update \<lparr>lr_type = ''''\<rparr> [(''type'', string_field lr_type_update)]),
     (''rate_limit_reset_credits'', pointer_field su_reset_credits su_reset_credits_update \<lparr>rs_available = 0\<rparr>
        [(''available_count'', int64_field rs_available_update)])]"

definition no_usage_report :: subscription_usage where
  "no_usage_report = \<lparr>su_plan = '''', su_rate_limit = None, su_credits = None, su_spend_control = None, su_additional = [],
     su_reached = None, su_reset_credits = None\<rparr>"

section \<open>The models\<close>

record model_resource =
  ml_slug :: string
  ml_display_name :: string
  ml_description :: string
  ml_priority :: int
  ml_modalities :: "string list"
  ml_metadata :: "(string \<times> json) list"

definition resource_fields :: "model_resource fields" where
  "resource_fields = [(''slug'', string_field ml_slug_update), (''display_name'', string_field ml_display_name_update),
     (''description'', string_field ml_description_update), (''priority'', int64_field ml_priority_update),
     (''input_modalities'', strings_field ml_modalities_update)]"

definition no_resource :: model_resource where
  "no_resource = \<lparr>ml_slug = '''', ml_display_name = '''', ml_description = '''', ml_priority = 0, ml_modalities = [], ml_metadata = []\<rparr>"

text \<open>A resource is decoded twice: into its fields, and into the map of its metadata.\<close>

definition decode_resource :: "json \<Rightarrow> model_resource option" where
  "decode_resource v = (case decode_struct resource_fields v no_resource of
     None \<Rightarrow> None
   | Some r \<Rightarrow> (case v of
       JObject kvs \<Rightarrow> if fits_any v then Some (r\<lparr>ml_metadata := object_map kvs\<rparr>) else None
     | _ \<Rightarrow> Some r))"

fun decode_resources :: "json list \<Rightarrow> model_resource list option" where
  "decode_resources [] = Some []"
| "decode_resources (v # vs) = (case decode_resource v of None \<Rightarrow> None | Some r \<Rightarrow> map_option ((#) r) (decode_resources vs))"

record models_response =
  mo_models :: "model_resource list"

definition models_fields :: "models_response fields" where
  "models_fields = [(''models'', \<lambda>v z. case v of
      JNull \<Rightarrow> Some (mo_models_update (\<lambda>_. []) z)
    | JArray vs \<Rightarrow> map_option (\<lambda>rs. mo_models_update (\<lambda>_. rs) z) (decode_resources vs)
    | _ \<Rightarrow> None)]"

record model_info =
  mi_id :: string
  mi_display_name :: string
  mi_description :: string
  mi_input :: "string list"
  mi_output :: "string list"
  mi_metadata :: "(string \<times> json) list"

definition model_info_of :: "model_resource \<Rightarrow> model_info" where
  "model_info_of r = \<lparr>mi_id = ml_slug r, mi_display_name = ml_display_name r, mi_description = ml_description r,
     mi_input = ml_modalities r, mi_output = [''text''],
     mi_metadata = fold AList.delete [''slug'', ''display_name'', ''description'', ''input_modalities''] (ml_metadata r)\<rparr>"

text \<open>\<open>sort.SliceStable\<close> by priority, then by slug.\<close>

definition sorted_models :: "model_resource list \<Rightarrow> model_resource list" where
  "sorted_models rs = sort_key (\<lambda>r. (ml_priority r, ml_slug r)) rs"

section \<open>Requests\<close>

definition get_headers :: "string \<Rightarrow> tokens \<Rightarrow> (string \<times> string) list" where
  "get_headers originator t =
    [(''Authorization'', ''Bearer '' @ tk_access t)] @
    (if tk_account t \<noteq> '''' then [(''ChatGPT-Account-ID'', tk_account t)] else []) @
    [(''Accept'', ''application/json''), (''Originator'', originator), (''User-Agent'', defaultUserAgent)]"

definition sendGET :: "call_env \<Rightarrow> string \<Rightarrow> string \<Rightarrow> tokens \<Rightarrow> call_log \<Rightarrow>
    call_log \<times> http_response option \<times> agent_error option" where
  "sendGET env originator url t log =
    (let log1 = log @ [Fetched url (get_headers originator t)] in (log1, ce_send env log1))"

definition refreshUnauthorized :: "call_env \<Rightarrow> http_response option \<Rightarrow> agent_error option \<Rightarrow> tokens \<Rightarrow> bool \<Rightarrow> (tokens \<times> bool) call_step" where
  "refreshUnauthorized env resp sendErr t refreshed log =
    (case (if sendErr \<noteq> None \<or> refreshed then None else resp) of
       None \<Rightarrow> (log, Inr (t, False))
     | Some r \<Rightarrow>
         if hr_status r \<noteq> 401 then (log, Inr (t, False))
         else case ce_refresh env of
             None \<Rightarrow> (log, Inr (t, False))
           | Some refresh \<Rightarrow>
               (let log1 = log @ [TokenRefreshed] in
                case refresh log1 of
                  Inl e \<Rightarrow> (log1, Inl (Wrapped ''codex: refresh after unauthorized: %w'' [] e))
                | Inr t' \<Rightarrow> (case validateTokens t' of Inl e \<Rightarrow> (log1, Inl e) | Inr _ \<Rightarrow> (log1, Inr (t', True)))))"

lemma refreshUnauthorized_once: "refreshUnauthorized env resp sendErr t refreshed log = (log', Inr (t', True)) \<Longrightarrow> \<not> refreshed"
  by (auto simp: refreshUnauthorized_def split: option.split_asm if_split_asm)

text \<open>The loop over the attempts; a refresh of the tokens takes none.\<close>

function get_attempts :: "call_env \<Rightarrow> string \<Rightarrow> string \<Rightarrow> nat \<Rightarrow> int \<Rightarrow> tokens \<Rightarrow> bool \<Rightarrow> call_log \<Rightarrow>
    call_log \<times> (call_failure + http_response)" where
  "get_attempts env originator url left attempt t refreshed log =
    (if left = 0 then (log, Inl (Failed (Errorf ''codex: request attempts exhausted'' [])))
     else case sendGET env originator url t log of
         (log1, resp, sendErr) \<Rightarrow>
           (case refreshUnauthorized env resp sendErr t refreshed log1 of
              (log2, Inl e) \<Rightarrow> (log2, Inl (Failed e))
            | (log2, Inr (next, True)) \<Rightarrow> get_attempts env originator url left attempt next True log2
            | (log2, Inr (_, False)) \<Rightarrow>
                (let again = (let delay = retryDelay resp attempt (ce_now env log2); log3 = log2 @ [Waited delay]
                     in case ce_wait env log3 of
                          Some e \<Rightarrow> (log3, Inl (Failed e))
                        | None \<Rightarrow> get_attempts env originator url (left - 1) (attempt + 1) t refreshed log3)
                 in case (sendErr, resp) of
                      (None, Some r) \<Rightarrow>
                        if successfulStatus (hr_status r) then (log2, Inr r)
                        else if \<not> retryableStatus (hr_status r) \<or> left = 1 then (log2, Inl (Refused (httpError r t)))
                        else again
                    | (Some e, _) \<Rightarrow>
                        if left = 1 then (log2, Inl (Failed (Wrapped ''codex: send request: %w'' [] e))) else again
                    | (None, None) \<Rightarrow> again)))"
  by pat_completeness auto

termination
  by (relation "measure (\<lambda>(env, originator, url, left, attempt, t, refreshed, log). 2 * left + (if refreshed then 0 else 1))")
    (auto dest!: refreshUnauthorized_once [OF sym])

declare get_attempts.simps [simp del]

definition decodeJSONResponse :: "'s fields \<Rightarrow> 's \<Rightarrow> http_response \<Rightarrow> agent_error + 's" where
  "decodeJSONResponse fs zero resp =
    (if hr_body_err resp \<noteq> None \<and> length (hr_body resp) \<le> maxRequestBytes
     then Inl (Wrapped ''codex: read JSON response: %w'' [] (the (hr_body_err resp)))
     else if length (hr_body resp) > maxRequestBytes then Inl (Errorf ''codex: JSON response exceeds size limit'' [])
     else case unmarshal fs (hr_body resp) zero of
         None \<Rightarrow> Inl (Wrapped ''codex: decode JSON response: %w'' [] json_error) | Some v \<Rightarrow> Inr v)"

definition getJSON :: "call_env \<Rightarrow> codex_model \<Rightarrow> string \<Rightarrow> 's fields \<Rightarrow> 's \<Rightarrow> call_log \<times> (call_failure + 's \<times> http_response)" where
  "getJSON env md url fs zero =
    (case ce_token env [TokenAsked] of
       Inl e \<Rightarrow> ([TokenAsked], Inl (Failed (Wrapped ''codex: resolve tokens: %w'' [] e)))
     | Inr t \<Rightarrow>
         (case validateTokens t of
            Inl e \<Rightarrow> ([TokenAsked], Inl (Failed e))
          | Inr _ \<Rightarrow>
              (case get_attempts env (md_originator md) url (nat (md_max_attempts md)) 1 t False [TokenAsked] of
                 (log, Inl f) \<Rightarrow> (log, Inl f)
               | (log, Inr resp) \<Rightarrow> (log, case decodeJSONResponse fs zero resp of
                   Inl e \<Rightarrow> Inl (Failed e) | Inr v \<Rightarrow> Inr (v, resp)))))"

section \<open>The calls\<close>

text \<open>\<open>render\<close> is a URL parsed and printed again.\<close>

definition ListModels :: "(string \<Rightarrow> string option) \<Rightarrow> call_env \<Rightarrow> codex_model option \<Rightarrow>
    call_log \<times> (call_failure + model_info list \<times> string)" where
  "ListModels render env md = (case md of
     None \<Rightarrow> ([], Inl (Failed (Errorf ''codex: model is nil'' [])))
   | Some model \<Rightarrow>
       (case render (md_base_url model @ ''/models'') of
          None \<Rightarrow> ([], Inl (Failed (Wrapped ''codex: create models URL: %w'' [] (Errorf ''net/url'' []))))
        | Some u \<Rightarrow>
            (case getJSON env model (u @ ''?'' @ query_encode [(''client_version'', md_client_version model)]) models_fields \<lparr>mo_models = []\<rparr> of
               (log, Inl f) \<Rightarrow> (log, Inl f)
             | (log, Inr (response, resp)) \<Rightarrow> (log, Inr (map model_info_of (sorted_models (mo_models response)), hr_etag resp)))))"

definition subscriptionUsageURL :: "codex_model \<Rightarrow> string" where
  "subscriptionUsageURL md =
    (if has_suffix (md_base_url md) ''/codex''
     then take (length (md_base_url md) - length ''/codex'') (md_base_url md) @ ''/wham/usage''
     else md_base_url md @ ''/usage'')"

definition SubscriptionUsage :: "call_env \<Rightarrow> codex_model option \<Rightarrow> call_log \<times> (call_failure + subscription_usage)" where
  "SubscriptionUsage env md = (case md of
     None \<Rightarrow> ([], Inl (Failed (Errorf ''codex: model is nil'' [])))
   | Some model \<Rightarrow>
       (case getJSON env model (subscriptionUsageURL model) usage_report_fields no_usage_report of
          (log, Inl f) \<Rightarrow> (log, Inl f) | (log, Inr (v, _)) \<Rightarrow> (log, Inr v)))"

end
