(* ===== verification/Codex_Auth_Proofs.thy ===== *)
theory Codex_Auth_Proofs
  imports Codex_Auth Codex_Examples
begin

text \<open>
  What holds of the login and of the source: a token's claims are read back, a merge keeps the
  credentials complete, what a source returns is what its store holds, and the wait for a login
  ends when the clock moves and the context ends at its deadline.
\<close>

section \<open>Tokens\<close>

definition base64_char :: "nat \<Rightarrow> char" where
  "base64_char n = (if n < 26 then byte_at (65 + n) else if n < 52 then byte_at (71 + n)
     else if n < 62 then byte_at (n - 4) else if n = 62 then CHR ''-'' else CHR ''_'')"

fun base64_values :: "nat list \<Rightarrow> nat list" where
  "base64_values [] = []"
| "base64_values [a] = [a div 4, a mod 4 * 16]"
| "base64_values [a, b] = [a div 4, a mod 4 * 16 + b div 16, b mod 16 * 4]"
| "base64_values (a # b # c # ns) =
    a div 4 # (a mod 4 * 16 + b div 16) # (b mod 16 * 4 + c div 64) # c mod 64 # base64_values ns"

definition base64_encode :: "bytes \<Rightarrow> string" where
  "base64_encode s = map base64_char (base64_values (map of_char s))"

definition base64_ok :: "char \<Rightarrow> bool" where
  "base64_ok c \<longleftrightarrow> c \<noteq> CHR ''.'' \<and> c \<noteq> CHR 0x0A \<and> c \<noteq> CHR 0x0D"

lemma base64_char_facts: "n < 64 \<Longrightarrow> base64_value (base64_char n) = Some n \<and> base64_ok (base64_char n)"
proof -
  have "\<forall>n \<in> set [0..<64]. base64_value (base64_char n) = Some n \<and> base64_ok (base64_char n)" by code_simp
  then show "n < 64 \<Longrightarrow> base64_value (base64_char n) = Some n \<and> base64_ok (base64_char n)" by simp
qed

lemma base64_values_bound: "\<forall>a \<in> set ns. a < 256 \<Longrightarrow> \<forall>v \<in> set (base64_values ns). v < 64"
  by (induction ns rule: base64_values.induct) auto

lemma base64_values_bytes: "\<forall>a \<in> set ns. a < 256 \<Longrightarrow> base64_bytes (base64_values ns) = Some (map byte_at ns)"
proof (induction ns rule: base64_values.induct)
  case (2 a)
  have "a div 4 * 4 + a mod 4 * 16 div 16 = a" by simp
  then show ?case by simp
next
  case (3 a b)
  then have "b div 16 < 16" by auto
  then have "a div 4 * 4 + (a mod 4 * 16 + b div 16) div 16 = a" "(a mod 4 * 16 + b div 16) mod 16 * 16 + b mod 16 * 4 div 4 = b"
    by simp_all
  then show ?case by simp
next
  case (4 a b c ns)
  then have "b div 16 < 16" "c div 64 < 4" by auto
  then have "a div 4 * 4 + (a mod 4 * 16 + b div 16) div 16 = a"
    "(a mod 4 * 16 + b div 16) mod 16 * 16 + (b mod 16 * 4 + c div 64) div 4 = b"
    "(b mod 16 * 4 + c div 64) mod 4 * 64 + c mod 64 = c"
    by simp_all
  with 4 show ?case by simp
qed simp

lemma base64_encode_char: "c \<in> set (base64_encode s) \<Longrightarrow> base64_ok c"
  using base64_values_bound [of "map of_char s"] base64_char_facts by (auto simp: base64_encode_def)

lemma base64_round_trip: "base64_decode (base64_encode s) = Some s"
proof -
  let ?vs = "base64_values (map of_char s)"
  have b: "\<forall>v \<in> set ?vs. v < 64" by (rule base64_values_bound) auto
  have "filter (\<lambda>c. c \<noteq> CHR 0x0A \<and> c \<noteq> CHR 0x0D) (base64_encode s) = base64_encode s"
    using base64_encode_char by (auto simp: base64_ok_def intro!: filter_True)
  moreover have "map base64_value (base64_encode s) = map Some ?vs"
    using b base64_char_facts by (simp add: base64_encode_def)
  moreover have "base64_bytes ?vs = Some (map byte_at (map of_char s))" by (rule base64_values_bytes) auto
  moreover have "map byte_at (map of_char s) = s" by (simp add: byte_at_def o_def)
  moreover have "None \<notin> set (map Some ?vs)" "map the (map Some ?vs) = ?vs" by (auto simp: o_def)
  ultimately show ?thesis by (simp add: base64_decode_def)
qed

lemma base64_values_length: "length (base64_values ns) = base64_length (length ns)"
  proof (induction ns rule: base64_values.induct)
  case (4 a b c ns)
  have "(3 + n) div 3 = Suc (n div 3)" "(3 + n) mod 3 = n mod 3" for n :: nat by presburger+
  then have "base64_length (3 + length ns) = 4 + base64_length (length ns)" by (simp add: base64_length_def)
  moreover have "length (a # b # c # ns) = 3 + length ns" by simp
  ultimately show ?case using 4 by (simp only: base64_values.simps list.size)
qed (simp_all add: base64_length_def)

lemma base64_length_mono: "m \<le> n \<Longrightarrow> base64_length m \<le> base64_length n"
proof -
  have "base64_length k = (k * 8 + 5) div 6" for k
  proof -
    have "k * 8 + 5 = k div 3 * 4 * 6 + (k mod 3 * 8 + 5)" using div_mult_mod_eq [of k 3] by linarith
    then show ?thesis by (metis base64_length_def div_mult_self3 add.commute zero_neq_numeral)
  qed
  then show "m \<le> n \<Longrightarrow> base64_length m \<le> base64_length n" by (simp add: div_le_mono)
qed

lemma split_at_word: "d \<notin> set s \<Longrightarrow> split_at d s = [s]"
  by (induction s) auto

lemma split_at_append: "d \<notin> set s \<Longrightarrow> split_at d (s @ d # t) = s # split_at d t"
  by (induction s) auto

text \<open>A signed token with the claims \<open>kvs\<close>.\<close>

definition jwt :: "string \<Rightarrow> (bytes \<times> json) list \<Rightarrow> string \<Rightarrow> string" where
  "jwt header kvs signature = header @ ''.'' @ base64_encode (print_json (JObject kvs)) @ ''.'' @ signature"

definition jwt_part :: "string \<Rightarrow> bool" where
  "jwt_part s \<longleftrightarrow> s \<noteq> '''' \<and> CHR ''.'' \<notin> set s"

lemma decode_jwt:
  assumes "jwt_part header" "jwt_part signature" and ok: "json_ok (JObject kvs)"
    and len: "length (print_json (JObject kvs)) \<le> maxJWTClaimsBytes"
  shows "decodeJWTClaims (jwt header kvs signature) = Inr (object_map kvs)"
proof -
  let ?p = "print_json (JObject kvs)"
  have "?p \<noteq> []" by (simp add: print_json_def tokens_text_def)
  then have ne: "base64_encode ?p \<noteq> []" using base64_round_trip [of ?p] by (auto simp: base64_decode_def)
  have "CHR ''.'' \<notin> set (base64_encode ?p)" using base64_encode_char by (auto simp: base64_ok_def)
  with assms(1,2) have s: "split_at (CHR ''.'') (jwt header kvs signature) = [header, base64_encode ?p, signature]"
    by (simp add: jwt_def jwt_part_def split_at_append split_at_word)
  have "length (base64_encode ?p) \<le> base64_length maxJWTClaimsBytes"
    using base64_length_mono [OF len] by (simp add: base64_encode_def base64_values_length)
  then have l: "\<not> length (base64_encode ?p) > base64_length maxJWTClaimsBytes" by simp
  from len have l2: "\<not> length ?p > maxJWTClaimsBytes" by simp
  from assms(1,2) ne s l l2 show ?thesis
    by (simp add: decodeJWTClaims_def jwt_part_def base64_round_trip parse_print [OF ok])
qed

lemma merge_complete:
  assumes "mergeTokens current payload now = Inr t"
  shows "tk_access t \<noteq> '''' \<and> tk_id t \<noteq> '''' \<and> tk_refresh t \<noteq> '''' \<and>
    tk_access t = (if tr_access payload \<noteq> '''' then tr_access payload else tk_access current) \<and>
    tk_id t = (if tr_id payload \<noteq> '''' then tr_id payload else tk_id current) \<and>
    tk_refresh t = (if tr_refresh payload \<noteq> '''' then tr_refresh payload else tk_refresh current) \<and>
    (tr_access payload = '''' \<longrightarrow> tk_expires t = tk_expires current)"
  using assms by (auto simp: mergeTokens_def rbind_Inr_iff Let_def split: if_split_asm)

section \<open>The wait for a login\<close>

text \<open>
  What the clock and the context of a wait promise: the clock does not go back, a timer that fires
  has waited its interval, and a request that starts at the deadline or later fails.
\<close>

definition poll_url :: "auth_client \<Rightarrow> string" where
  "poll_url c = endpoint c ''/api/accounts/deviceauth/token''"

definition honest_clock :: "auth_env \<Rightarrow> auth_client \<Rightarrow> device_code \<Rightarrow> bool" where
  "honest_clock env c code \<longleftrightarrow>
    (\<forall>log u k b. ae_now env log \<le> ae_now env (log @ [Posted u k b])) \<and>
    (\<forall>log d. ae_wait env (log @ [Slept d]) = None \<longrightarrow> ae_now env log + d \<le> ae_now env (log @ [Slept d])) \<and>
    (\<forall>log k b. dc_expires code \<le> ae_now env log \<longrightarrow> (\<exists>e. ae_post env (log @ [Posted (poll_url c) k b]) = Inl e))"

definition is_poll :: "auth_client \<Rightarrow> auth_effect \<Rightarrow> bool" where
  "is_poll c e = (case e of Posted u _ _ \<Rightarrow> u = poll_url c | _ \<Rightarrow> False)"

lemma poll_log: "poll env c code log = (log1, r) \<Longrightarrow> \<exists>k b. log1 = log @ [Posted (poll_url c) k b]"
  by (auto simp: poll_def post_def poll_url_def Let_def split: sum.split_asm)

lemma poll_fails: "poll env c code log = (log1, r) \<Longrightarrow> ae_post env log1 = Inl e \<Longrightarrow> \<exists>e'. r = Inl e'"
  by (auto simp: poll_def post_def Let_def split: sum.split_asm)

lemma exchange_log: "exchange env c payload log = (log1, r) \<Longrightarrow>
    \<exists>k b. log1 = log @ [Posted (endpoint c ''/oauth/token'') k b]"
  by (auto simp: exchange_def post_def Let_def split: sum.split_asm)

lemma poll_loop_ends:
  assumes clock: "honest_clock env c code" and d: "0 < dc_interval code"
  shows "dc_expires code - ae_now env log \<le> int n * dc_interval code \<Longrightarrow>
    \<exists>log' r. poll_loop env c code log = Some (log', r) \<and>
      length (filter (is_poll c) log') \<le> length (filter (is_poll c) log) + n + 1"
proof (induction n arbitrary: log)
  case 0
  obtain log1 r where p: "poll env c code log = (log1, r)" by force
  obtain k b where l: "log1 = log @ [Posted (poll_url c) k b]" using poll_log [OF p] by blast
  from 0 have "dc_expires code \<le> ae_now env log" by simp
  with clock l obtain e where "ae_post env log1 = Inl e" unfolding honest_clock_def by blast
  with poll_fails [OF p] obtain e' where "r = Inl e'" by blast
  with p l show ?case by (subst poll_loop.simps) (simp add: is_poll_def)
next
  case (Suc n)
  obtain log1 r where p: "poll env c code log = (log1, r)" by force
  obtain k b where l: "log1 = log @ [Posted (poll_url c) k b]" using poll_log [OF p] by blast
  then have one: "length (filter (is_poll c) log1) = length (filter (is_poll c) log) + 1" by (simp add: is_poll_def)
  show ?case
  proof (cases r)
    case (Inl e)
    with p one show ?thesis by (subst poll_loop.simps) simp
  next
    case (Inr payload)
    show ?thesis
    proof (cases payload)
      case (Some code')
      obtain log2 r2 where x: "exchange env c code' log1 = (log2, r2)" by force
      then obtain k b where "log2 = log1 @ [Posted (endpoint c ''/oauth/token'') k b]" using exchange_log by blast
      with p Inr Some x one show ?thesis
        by (subst poll_loop.simps) (simp add: is_poll_def poll_url_def endpoint_def)
    next
      case None
      let ?log2 = "log1 @ [Slept (dc_interval code)]"
      have two: "length (filter (is_poll c) ?log2) = length (filter (is_poll c) log) + 1" using one by (simp add: is_poll_def)
      show ?thesis
      proof (cases "ae_wait env ?log2")
        case (Some e)
        with p Inr None two show ?thesis by (subst poll_loop.simps) simp
      next
        case go: None
        from clock go have "ae_now env log \<le> ae_now env log1" "ae_now env log1 + dc_interval code \<le> ae_now env ?log2"
          unfolding honest_clock_def l by blast+
        with Suc.prems have "dc_expires code - ae_now env ?log2 \<le> int n * dc_interval code" by (simp add: algebra_simps)
        from Suc.IH [OF this] two p Inr None go show ?thesis by (subst poll_loop.simps) (auto simp: Let_def)
      qed
    qed
  qed
qed

section \<open>The source\<close>

lemma refresh_complete:
  assumes "Refresh env client current log = (log', Inr t)"
  shows "tk_access t \<noteq> '''' \<and> tk_id t \<noteq> '''' \<and> tk_refresh t \<noteq> ''''"
proof -
  from assms obtain payload now where "mergeTokens current payload now = Inr t"
    by (auto simp: Refresh_def rbind_Inr_iff split: option.split_asm if_split_asm prod.split_asm sum.split_asm)
  from merge_complete [OF this] show ?thesis by blast
qed

lemma source_refresh_saved:
  assumes "source_refresh env s current log = (log', Inr t)"
  shows "(\<exists>log1. log' = log1 @ [Saved t]) \<and> ae_save env log' = None \<and> tk_access t \<noteq> '''' \<and> tk_id t \<noteq> '''' \<and> tk_refresh t \<noteq> ''''"
proof -
  from assms obtain log1 where r: "Refresh env (so_client s) current log = (log1, Inr t)" and l: "log' = log1 @ [Saved t]" "ae_save env log' = None"
    by (auto simp: source_refresh_def Let_def split: prod.split_asm sum.split_asm option.split_asm)
  from refresh_complete [OF r] l show ?thesis by blast
qed

lemma load_logged: "source_load env log = (log', r) \<Longrightarrow> log' = log @ [Loaded] \<and>
    (\<forall>t. r = Inr t \<longrightarrow> ae_load env log' = Inr t \<and> tk_access t \<noteq> '''')"
  by (auto simp: source_load_def Let_def split: sum.split_asm if_split_asm)

end
