(* ===== verification/Codex_Account_Proofs.thy ===== *)
theory Codex_Account_Proofs
  imports Codex_Account Codex_Auth_Proofs Codex_Model_Proofs
begin

text \<open>
  The account calls: the attempts are bounded, every request has its URL and validated tokens, and
  the models are listed in the order of their priority.
\<close>

definition is_fetched :: "call_effect \<Rightarrow> bool" where
  "is_fetched e = (case e of Fetched _ _ \<Rightarrow> True | _ \<Rightarrow> False)"

definition fetch_ok :: "string \<Rightarrow> string \<Rightarrow> call_effect \<Rightarrow> bool" where
  "fetch_ok originator url e = (case e of
     Fetched u headers \<Rightarrow> u = url \<and> (\<exists>t. validateTokens t = Inr () \<and> headers = get_headers originator t)
   | Waited d \<Rightarrow> 0 \<le> d \<and> d \<le> maximumRetryAfter
   | Sent _ _ \<Rightarrow> False
   | _ \<Rightarrow> True)"

text \<open>What the attempts add to the log: so many requests and refreshes at most.\<close>

definition fetches :: "string \<Rightarrow> string \<Rightarrow> nat \<Rightarrow> nat \<Rightarrow> call_log \<Rightarrow> call_log \<Rightarrow> bool" where
  "fetches originator url gets refreshes log log' \<longleftrightarrow> (\<exists>new. log' = log @ new \<and> list_all (fetch_ok originator url) new \<and>
    length (filter is_fetched new) \<le> gets \<and> length (filter ((=) TokenRefreshed) new) \<le> refreshes)"

lemma fetches_trans:
  "fetches og url a b l l1 \<Longrightarrow> fetches og url a' b' l1 l2 \<Longrightarrow> fetches og url (a + a') (b + b') l l2"
  unfolding fetches_def by (elim exE) (fastforce intro: exI [of _ "_ @ _"])

lemma fetches_mono: "fetches og url a b l l' \<Longrightarrow> a \<le> a' \<Longrightarrow> b \<le> b' \<Longrightarrow> fetches og url a' b' l l'"
  unfolding fetches_def by (elim exE conjE) (intro exI conjI, assumption+, simp_all)

lemma fetches_one:
  "fetch_ok og url e \<Longrightarrow> fetches og url (if is_fetched e then 1 else 0) (if e = TokenRefreshed then 1 else 0) l (l @ [e])"
  unfolding fetches_def by (intro exI [of _ "[e]"]) auto

lemma fetches_refl: "fetches og url a b l l"
  by (simp add: fetches_def)

lemma sendGET_fetches:
  assumes "sendGET env og url t log = (log1, resp, err)" and "validateTokens t = Inr u"
  shows "fetches og url 1 0 log log1"
  using assms fetches_one [of og url "Fetched url (get_headers og t)" log]
  by (auto simp: sendGET_def fetch_ok_def is_fetched_def Let_def)

lemma refreshUnauthorized_fetches:
  assumes "refreshUnauthorized env resp err t refreshed log = (log1, r)"
  shows "fetches og url 0 (if refreshed then 0 else 1) log log1 \<and>
    (\<forall>t' b. r = Inr (t', b) \<longrightarrow> (if b then \<not> refreshed \<and> validateTokens t' = Inr () else log1 = log))"
proof -
  have one: "fetches og url 0 1 log (log @ [TokenRefreshed])"
    using fetches_one [of og url TokenRefreshed log] by (simp add: fetch_ok_def is_fetched_def)
  from assms show ?thesis
    using one by (auto simp: refreshUnauthorized_def fetches_refl Let_def split: option.split_asm if_split_asm sum.split_asm)
qed

lemma get_attempts_fetches:
  "get_attempts env og url left attempt t refreshed log = (log', r) \<Longrightarrow> validateTokens t = Inr () \<Longrightarrow>
    fetches og url (left + (if refreshed then 0 else 1)) (if refreshed then 0 else 1) log log' \<and>
    (case r of Inl _ \<Rightarrow> True | Inr resp \<Rightarrow> successfulStatus (hr_status resp))"
proof (induction env og url left attempt t refreshed log rule: get_attempts.induct)
  case (1 env og url left attempt t refreshed log)
  let ?n = "if refreshed then 0 else 1 :: nat"
  show ?case
  proof (cases "left = 0")
    case True
    with 1(3) show ?thesis by (auto simp: get_attempts.simps [of env og url 0] fetches_refl)
  next
    case left: False
    obtain log1 resp err where s: "sendGET env og url t log = (log1, resp, err)" by (metis prod_cases3)
    note sent = sendGET_fetches [OF s 1(4)]
    obtain log2 q where f: "refreshUnauthorized env resp err t refreshed log1 = (log2, q)" by force
    note re = refreshUnauthorized_fetches [OF f, of og url]
    from fetches_trans [OF sent conjunct1 [OF re]] have both: "fetches og url 1 ?n log log2" by simp
    then have enough: "fetches og url (left + ?n) ?n log log2" using left by (auto intro: fetches_mono)
    show ?thesis
    proof (cases q)
      case (Inl e)
      with 1(3) left s f enough show ?thesis by (auto simp: get_attempts.simps [of env og url left attempt t refreshed log])
    next
      case (Inr p)
      obtain t' b where p: "p = (t', b)" by force
      show ?thesis
      proof (cases b)
        case True
        with 1(3) left s f Inr p have rec: "get_attempts env og url left attempt t' True log2 = (log', r)"
          by (simp add: get_attempts.simps [of env og url left attempt t refreshed log])
        from re Inr p True have no: "\<not> refreshed" "validateTokens t' = Inr ()" by auto
        from True have bT: "b = True" by simp
        from 1(1) [OF left s [symmetric] refl f [symmetric] Inr p [symmetric] bT rec no(2)]
        have "fetches og url left 0 log2 log' \<and> (case r of Inl _ \<Rightarrow> True | Inr resp \<Rightarrow> successfulStatus (hr_status resp))" by simp
        with both no(1) fetches_trans [of og url 1 1 log log2 left 0 log'] show ?thesis by simp
      next
        case same: False
        with conjunct2 [OF re, rule_format, of t' b] Inr p have l2: "log2 = log1" by simp
        let ?delay = "retryDelay resp attempt (ce_now env log2)"
        let ?log3 = "log2 @ [Waited ?delay]"
        have "fetches og url 0 0 log2 ?log3"
          using fetches_one [of og url "Waited ?delay" log2] retryDelay_bounds by (simp add: fetch_ok_def is_fetched_def)
        from fetches_trans [OF sent [folded l2] this] have three: "fetches og url 1 0 log ?log3" by simp
        let ?again = "case ce_wait env ?log3 of Some e \<Rightarrow> (?log3, Inl (Failed e))
            | None \<Rightarrow> get_attempts env og url (left - 1) (attempt + 1) t refreshed ?log3"
        have again: "fetches og url (left + ?n) ?n log log' \<and> (case r of Inl _ \<Rightarrow> True | Inr resp \<Rightarrow> successfulStatus (hr_status resp))"
          if a: "?again = (log', r)"
        proof (cases "ce_wait env ?log3")
          case (Some e)
          from three left have "fetches og url (left + ?n) ?n log ?log3" by (auto intro: fetches_mono)
          with a Some show ?thesis by auto
        next
          case None
          with a have rec: "get_attempts env og url (left - 1) (attempt + 1) t refreshed ?log3 = (log', r)" by simp
          from same have bF: "b = False" by simp
          from 1(2) [OF left s [symmetric] refl f [symmetric] Inr p [symmetric] bF refl refl None rec 1(4)]
          have "fetches og url (left - 1 + ?n) ?n ?log3 log' \<and> (case r of Inl _ \<Rightarrow> True | Inr resp \<Rightarrow> successfulStatus (hr_status resp))" .
          with fetches_trans [OF three] left show ?thesis by (metis (no_types, lifting) One_nat_def Suc_pred add.assoc add_0 neq0_conv plus_1_eq_Suc)
        qed
        have "(case (err, resp) of
            (None, Some x) \<Rightarrow> if successfulStatus (hr_status x) then (log2, Inr x)
              else if \<not> retryableStatus (hr_status x) \<or> left = 1 then (log2, Inl (Refused (httpError x t))) else ?again
          | (Some e, _) \<Rightarrow> if left = 1 then (log2, Inl (Failed (Wrapped ''codex: send request: %w'' [] e))) else ?again
          | (None, None) \<Rightarrow> ?again) = (log', r)"
          using 1(3) left s f Inr p same by (simp add: get_attempts.simps [of env og url left attempt t refreshed log] Let_def)
        then show ?thesis
          using again enough by (auto split: option.split_asm if_split_asm)
      qed
    qed
  qed
qed

lemma sorted_models_order:
  "sorted (map (\<lambda>r. (ml_priority r, ml_slug r)) (sorted_models rs)) \<and> mset (sorted_models rs) = mset rs"
  by (simp add: sorted_models_def)

end
