(* ===== verification/Codex_Auth_Claims.thy ===== *)
theory Codex_Auth_Claims
  imports Codex_Account_Proofs
begin

text \<open>The properties of the login, of the token source and of the account calls.\<close>

text \<open>
  C26. A login ends. When the clock moves on with every interval that is waited, and a poll that
  starts after the device code has expired fails, as the deadline of its context demands, then
  \<open>Wait\<close> returns, after no more polls than there are intervals until the expiry, and two.
\<close>
theorem device_login_ends:
  assumes "honest_clock env c code"
  shows "\<exists>log' r. Wait env (Some c) code log = Some (log', r) \<and>
    length (filter (is_poll c) log') \<le>
      length (filter (is_poll c) log) + nat ((dc_expires code - ae_now env log) div dc_interval code) + 2"
proof (cases "dc_auth_id code = '''' \<or> dc_user_code code = '''' \<or> dc_interval code \<le> 0 \<or> dc_expires code = 0 \<or>
    dc_issuer code = '''' \<or> dc_client_id code = '''' \<or> dc_issuer code \<noteq> au_issuer c \<or> dc_client_id code \<noteq> au_client_id c \<or>
    \<not> ae_now env log < dc_expires code")
  case True
  then show ?thesis by (auto simp: Wait_def)
next
  case False
  let ?left = "dc_expires code - ae_now env log" and ?d = "dc_interval code"
  from False have d: "0 < ?d" and left: "0 < ?left" by auto
  then have "0 \<le> ?left div ?d" by (simp add: pos_imp_zdiv_nonneg_iff)
  moreover have "?left \<le> (?left div ?d + 1) * ?d"
    using div_mult_mod_eq [of ?left ?d] pos_mod_bound [OF d, of ?left] by (simp only: distrib_right mult_1 add_mono order_less_imp_le)
  ultimately have "?left \<le> int (nat (?left div ?d) + 1) * ?d" by (simp add: add.commute)
  from poll_loop_ends [OF assms d this] False show ?thesis by (auto simp: Wait_def)
qed

text \<open>A login that is never authorized.\<close>

definition slept :: "auth_log \<Rightarrow> duration" where
  "slept log = sum_list (map (\<lambda>e. case e of Slept d \<Rightarrow> d | _ \<Rightarrow> 0) log)"

definition idle_env :: auth_env where
  "idle_env = \<lparr>ae_post = (\<lambda>log. if 15 \<le> slept log then Inl (Errorf ''context deadline exceeded'' [])
       else Inr \<lparr>hr_status = 403, hr_request_id = '''', hr_retry_after = '''', hr_retry_date = None, hr_model = '''',
         hr_x_model = '''', hr_etag = '''', hr_body = '''', hr_body_err = None\<rparr>),
     ae_now = slept, ae_wait = (\<lambda>_. None), ae_load = (\<lambda>_. Inr no_tokens), ae_save = (\<lambda>_. None)\<rparr>"

definition idle_code :: device_code where
  "idle_code = \<lparr>dc_verification_url = '''', dc_user_code = ''u'', dc_expires = 15, dc_auth_id = ''a'', dc_interval = 5,
     dc_issuer = DefaultIssuer, dc_client_id = DefaultClientID\<rparr>"

theorem device_login_ends_witness:
  "\<exists>log' r. Wait idle_env (Some default_client) idle_code [] = Some (log', r) \<and>
    length (filter (is_poll default_client) log') \<le> 5"
proof -
  have "honest_clock idle_env default_client idle_code"
    by (auto simp: honest_clock_def idle_env_def idle_code_def slept_def)
  from device_login_ends [OF this, of "[]"] show ?thesis by (simp add: idle_env_def idle_code_def slept_def)
qed

text \<open>
  C25. The tokens that a source returns are those that its store holds: either they were loaded and
  are not about to expire, or they replace the loaded ones and were saved before they are returned;
  a replacement is complete.
\<close>
theorem tokens_are_persisted:
  assumes "source_Token env (Some s) log = (log', Inr t)"
  shows "tk_access t \<noteq> '''' \<and>
    ((log' = log @ [Loaded] \<and> ae_load env log' = Inr t \<and>
       (tk_expires t = 0 \<or> so_window s < time_until (tk_expires t) (ae_now env log'))) \<or>
     ((\<exists>log1. log' = log1 @ [Saved t]) \<and> ae_save env log' = None \<and> tk_id t \<noteq> '''' \<and> tk_refresh t \<noteq> ''''))"
proof -
  obtain log1 r where l: "source_load env log = (log1, r)" by force
  with assms obtain t0 where r: "r = Inr t0" by (cases r) (simp_all add: source_Token_def)
  note load = load_logged [OF l]
  show ?thesis
  proof (cases "tk_expires t0 = 0 \<or> time_until (tk_expires t0) (ae_now env log1) > so_window s")
    case True
    with assms l r have "log' = log1" "t = t0" by (auto simp: source_Token_def)
    with load r True show ?thesis by auto
  next
    case False
    with assms l r have "source_refresh env s t0 log1 = (log', Inr t)" by (simp add: source_Token_def)
    from source_refresh_saved [OF this] show ?thesis by blast
  qed
qed

theorem tokens_are_persisted_witness:
  "ae_load (idle_env\<lparr>ae_load := \<lambda>_. Inr (no_tokens\<lparr>tk_access := ''a''\<rparr>)\<rparr>) [Loaded] = Inr (no_tokens\<lparr>tk_access := ''a''\<rparr>)"
proof -
  let ?env = "idle_env\<lparr>ae_load := \<lambda>_. Inr (no_tokens\<lparr>tk_access := ''a''\<rparr>)\<rparr>"
  let ?s = "\<lparr>so_client = Some default_client, so_store = True, so_window = defaultRefreshWindow, so_config_err = []\<rparr>"
  have "source_Token ?env (Some ?s) [] = ([Loaded], Inr (no_tokens\<lparr>tk_access := ''a''\<rparr>))"
    by (simp add: source_Token_def source_load_def no_tokens_def)
  from tokens_are_persisted [OF this] show ?thesis by auto
qed

text \<open>
  The claims of a token are read back: a token with the claims of an object, encoded in base64
  between a header and a signature, has exactly these claims, and the account id among them is the
  account of the tokens.
\<close>
theorem jwt_round_trip:
  assumes "jwt_part header" and "jwt_part signature" and "json_ok (JObject kvs)"
    and "length (print_json (JObject kvs)) \<le> maxJWTClaimsBytes"
  shows "decodeJWTClaims (jwt header kvs signature) = Inr (object_map kvs) \<and>
    (\<forall>account. account \<noteq> '''' \<and> utf8_valid account \<and> map_of (object_map kvs) ''chatgpt_account_id'' = Some (jstr account) \<longrightarrow>
      accountIDFromJWT (jwt header kvs signature) = Inr account)"
  using decode_jwt [OF assms]
  by (auto simp: accountIDFromJWT_def claim_string_def json_of_string_def unquote_quote)

definition jwt_claims :: "(bytes \<times> json) list" where
  "jwt_claims = [(''id'', JString ''r1'')]"

theorem jwt_round_trip_witness:
  "decodeJWTClaims (jwt ''h'' jwt_claims ''s'') = Inr (object_map jwt_claims)"
proof -
  have "json_ok (JObject jwt_claims)" by (simp add: jwt_claims_def json_ok_iff word_texts maxNestingDepth_def)
  moreover have "length (print_json (JObject jwt_claims)) \<le> maxJWTClaimsBytes"
    by (simp add: jwt_claims_def print_json_def tokens_text_def maxJWTClaimsBytes_def)
  ultimately show ?thesis using jwt_round_trip [of "''h''" "''s''" jwt_claims] by (simp add: jwt_part_def)
qed

text \<open>
  An account call is bounded as well: it sends at most one request more than its attempts, all
  of them to its URL with headers made from validated tokens, refreshes its tokens at most once,
  and returns a response of success only.
\<close>
theorem account_calls_are_bounded:
  assumes "getJSON env md url fs zero = (log, result)"
  shows "length (filter is_fetched log) \<le> nat (md_max_attempts md) + 1 \<and> length (filter ((=) TokenRefreshed) log) \<le> 1 \<and>
    list_all (fetch_ok (md_originator md) url) log \<and>
    (case result of Inl _ \<Rightarrow> True | Inr (_, resp) \<Rightarrow> successfulStatus (hr_status resp))"
proof -
  have asked: "fetches (md_originator md) url 0 0 [] [TokenAsked]"
    using fetches_one [of "md_originator md" url TokenAsked "[]"] by (simp add: fetch_ok_def is_fetched_def)
  have "fetches (md_originator md) url (nat (md_max_attempts md) + 1) 1 [] log \<and>
      (case result of Inl _ \<Rightarrow> True | Inr (_, resp) \<Rightarrow> successfulStatus (hr_status resp))"
  proof (cases "\<exists>t. ce_token env [TokenAsked] = Inr t \<and> validateTokens t = Inr ()")
    case False
    with assms have "log = [TokenAsked] \<and> (\<exists>f. result = Inl f)" by (auto simp: getJSON_def split: sum.split_asm)
    with fetches_mono [OF asked] show ?thesis by auto
  next
    case True
    then obtain t where t: "ce_token env [TokenAsked] = Inr t" "validateTokens t = Inr ()" by blast
    obtain log1 r where g: "get_attempts env (md_originator md) url (nat (md_max_attempts md)) 1 t False [TokenAsked] = (log1, r)"
      by force
    with assms t have "log = log1" and res: "\<And>v resp. result = Inr (v, resp) \<Longrightarrow> r = Inr resp"
      by (auto simp: getJSON_def split: sum.split_asm)
    with get_attempts_fetches [OF g t(2)] fetches_trans [OF asked] show ?thesis by (auto split: sum.split_asm sum.split)
  qed
  then show ?thesis by (simp add: fetches_def)
qed

theorem account_calls_are_bounded_witness:
  "list_all (fetch_ok ''gopact-ext'' ''u'') [TokenAsked, Fetched ''u'' (get_headers ''gopact-ext'' turn_tokens)]"
proof -
  have v: "validateTokens turn_tokens = Inr ()" by (simp add: validateTokens_def turn_tokens_def validHeaderValue_def)
  have g: "get_attempts turn_env og u (Suc left) 1 turn_tokens False log = (log @ [Fetched u (get_headers og turn_tokens)], Inr turn_http)"
    for og u left log
    by (subst get_attempts.simps)
      (simp add: sendGET_def turn_env_def refreshUnauthorized_def turn_http_def successfulStatus_def Let_def)
  have m: "nat (md_max_attempts (default_model ''m'' True)) = Suc 2" "md_originator (default_model ''m'' True) = ''gopact-ext''"
    by (simp_all add: default_model_def)
  have k: "ce_token turn_env log = Inr turn_tokens" for log by (simp add: turn_env_def)
  have "fst (getJSON turn_env (default_model ''m'' True) ''u'' models_fields \<lparr>mo_models = []\<rparr>) =
      [TokenAsked, Fetched ''u'' (get_headers ''gopact-ext'' turn_tokens)]"
    by (simp only: getJSON_def v k m g sum.case prod.case fst_conv append_Cons append_Nil)
  then obtain res where "getJSON turn_env (default_model ''m'' True) ''u'' models_fields \<lparr>mo_models = []\<rparr> =
      ([TokenAsked, Fetched ''u'' (get_headers ''gopact-ext'' turn_tokens)], res)"
    by (metis prod.collapse)
  from account_calls_are_bounded [OF this] show ?thesis by (simp add: default_model_def)
qed

end
