(* ===== verification/Chat_Model.thy ===== *)
theory Chat_Model
  imports Codex_Auth
begin

text \<open>
  \<open>src/models/openai/openai.go\<close>: the delays between the attempts of a call, the policy of
  redirects, the encoding of a conversation for the chat completions endpoint, the request with
  its text, and the message of a response. A sampling parameter is the JSON text of its float.
\<close>

section \<open>Retries\<close>

record retry_policy =
  rp_max_attempts :: int
  rp_initial :: duration
  rp_max :: duration

definition maxTextBytes :: nat where "maxTextBytes = 4096"
definition maxChatBytes :: nat where "maxChatBytes = 4194304"
definition maxChatFrameBytes :: nat where "maxChatFrameBytes = 1048576"

definition validate_policy :: "retry_policy \<Rightarrow> agent_error + unit" where
  "validate_policy p =
    (if rp_max_attempts p \<le> 0 then Inl (Errorf ''openai: retry max attempts must be positive'' [])
     else guard_r (\<not> (rp_initial p < 0 \<or> rp_max p < 0 \<or> rp_initial p > rp_max p)) (Errorf ''openai: retry backoff is invalid'' []))"

fun policy_steps :: "nat \<Rightarrow> duration \<Rightarrow> duration \<Rightarrow> duration" where
  "policy_steps 0 limit delay = min delay limit"
| "policy_steps (Suc steps) limit delay = (if delay \<ge> limit div 2 then limit else policy_steps steps limit (delay * 2))"

definition policy_backoff :: "retry_policy \<Rightarrow> int \<Rightarrow> duration" where
  "policy_backoff p attempt = policy_steps (nat (attempt - 1)) (rp_max p) (rp_initial p)"

text \<open>The seconds of the header are multiplied in 64 bits; \<open>date\<close> is what \<open>http.ParseTime\<close> makes of it.\<close>

definition chat_retry_after :: "string \<Rightarrow> instant option \<Rightarrow> instant \<Rightarrow> duration option" where
  "chat_retry_after value date now =
    (if value = '''' then None
     else case (case atoi value of Some seconds \<Rightarrow> if 0 \<le> seconds then Some seconds else None | None \<Rightarrow> None) of
         Some seconds \<Rightarrow> Some (wrap64 (seconds * second))
       | None \<Rightarrow> (case date of None \<Rightarrow> None | Some when \<Rightarrow> if when < now then None else Some (time_until when now)))"

definition chat_retry_delay :: "retry_policy \<Rightarrow> 'a http_response_scheme option \<Rightarrow> int \<Rightarrow> instant \<Rightarrow> duration" where
  "chat_retry_delay p resp attempt now =
    (case (case resp of None \<Rightarrow> None | Some r \<Rightarrow> chat_retry_after (hr_retry_after r) (hr_retry_date r) now) of
       Some delay \<Rightarrow> min delay maximumRetryAfter
     | None \<Rightarrow> policy_backoff p attempt)"

text \<open>
  The policy of redirects: the answer of the caller's policy, when it has one, comes first.
\<close>

definition chat_same_origin :: "url \<Rightarrow> url \<Rightarrow> bool" where
  "chat_same_origin left right \<longleftrightarrow> to_lower (url_scheme left) = to_lower (url_scheme right) \<and>
    to_lower (url_host left) = to_lower (url_host right)"

definition chat_check_redirect :: "string \<Rightarrow> bool \<Rightarrow> agent_error option option \<Rightarrow> url list \<Rightarrow> url \<Rightarrow> agent_error option" where
  "chat_check_redirect key allowHTTP callerPolicy via next =
    (case (case callerPolicy of
        Some answer \<Rightarrow> answer
      | None \<Rightarrow> if length via \<ge> 10 then Some (Errorf ''stopped after %d redirects'' [Num 10]) else None) of
       Some e \<Rightarrow> Some e
     | None \<Rightarrow>
         if key \<noteq> '''' \<and> via \<noteq> [] then
           (if \<not> chat_same_origin (last via) next then Some (Errorf ''openai: refusing cross-origin redirect'' [])
            else if \<not> allowHTTP \<and> url_scheme (last via) = ''https'' \<and> url_scheme next = ''http''
            then Some (Errorf ''openai: refusing HTTPS to HTTP redirect'' []) else None)
         else None)"

section \<open>The encoding of a conversation\<close>

record chat_function =
  cf_name :: string
  cf_description :: string
  cf_parameters :: "json option"
  cf_arguments :: string

record chat_call =
  cc_id :: string
  cc_type :: string
  cc_function :: chat_function

record chat_item =
  xm_role :: string
  xm_content :: string
  xm_calls :: "chat_call list"
  xm_call_id :: string

record chat_encoder =
  xe_pending :: "string list"
  xe_completed :: "string list"
  xe_seen :: "string list"

fun chat_parts :: "part list \<Rightarrow> agent_error + string" where
  "chat_parts [] = Inr ''''"
| "chat_parts (p # ps) =
    (if pt_type p \<noteq> PartText \<or> pt_ref p \<noteq> None
     then Inl (Errorf ''openai: unsupported message part %q'' [Str (part_type_text (pt_type p))])
     else rbind (chat_parts ps) (\<lambda>rest. Inr (pt_text p @ rest)))"

definition chat_text :: "chat_message \<Rightarrow> agent_error + string" where
  "chat_text m = chat_parts (cm_parts m)"

definition chat_arguments :: "nat \<Rightarrow> call \<Rightarrow> chat_encoder \<Rightarrow> agent_error + string" where
  "chat_arguments index c en =
    (if cl_id c = '''' \<or> cl_name c = ''''
     then Inl (Errorf ''openai: assistant message %d tool call id and name are required'' [Num (int index)])
     else if cl_id c \<in> set (xe_seen en) then Inl (Errorf ''openai: duplicate tool call id %q'' [Str (cl_id c)])
     else if cl_arguments_ref c \<noteq> '''' then Inl (Errorf ''openai: tool call %q arguments ref is not supported'' [Str (cl_id c)])
     else if cl_arguments c = [] then Inr ''{}''
     else if \<not> json_valid (cl_arguments c) then Inl (Errorf ''openai: tool call %q has invalid arguments'' [Str (cl_id c)])
     else Inr (cl_arguments c))"

fun chat_calls :: "nat \<Rightarrow> call list \<Rightarrow> chat_encoder \<Rightarrow> agent_error + (chat_call list \<times> chat_encoder)" where
  "chat_calls index [] en = Inr ([], en)"
| "chat_calls index (c # cs) en =
    rbind (chat_arguments index c en) (\<lambda>arguments.
    rbind (chat_calls index cs (en\<lparr>xe_seen := List.insert (cl_id c) (xe_seen en),
        xe_pending := List.insert (cl_id c) (xe_pending en)\<rparr>)) (\<lambda>(encoded, en1).
    Inr (\<lparr>cc_id = cl_id c, cc_type = ''function'', cc_function = \<lparr>cf_name = cl_name c, cf_description = '''',
        cf_parameters = None, cf_arguments = arguments\<rparr>\<rparr> # encoded, en1)))"

definition encode_model_message :: "nat \<Rightarrow> chat_message \<Rightarrow> chat_encoder \<Rightarrow> agent_error + (chat_item \<times> chat_encoder)" where
  "encode_model_message index m en =
    (if cm_tool_call_id m \<noteq> ''''
     then Inl (Errorf ''openai: message %d tool call id is only valid on tool messages'' [Num (int index)])
     else if cm_tool_calls m \<noteq> [] \<and> cm_role m \<noteq> RoleAssistant
     then Inl (Errorf ''openai: message %d tool calls are only valid on assistant messages'' [Num (int index)])
     else
       rbind (chat_text m) (\<lambda>content.
       rbind (chat_calls index (cm_tool_calls m) en) (\<lambda>(calls, en1).
       Inr (\<lparr>xm_role = role_text (cm_role m), xm_content = content, xm_calls = calls, xm_call_id = ''''\<rparr>, en1))))"

definition encode_tool_message :: "nat \<Rightarrow> chat_message \<Rightarrow> chat_encoder \<Rightarrow> agent_error + (chat_item \<times> chat_encoder)" where
  "encode_tool_message index m en =
    (let id = cm_tool_call_id m in
     if cm_tool_calls m \<noteq> [] then Inl (Errorf ''openai: tool message %d must not contain tool calls'' [Num (int index)])
     else if id = '''' then Inl (Errorf ''openai: tool message %d requires a tool call id'' [Num (int index)])
     else if id \<in> set (xe_completed en)
     then Inl (Errorf ''openai: tool message %d has duplicate tool output for %q'' [Num (int index), Str id])
     else if id \<notin> set (xe_pending en)
     then Inl (Errorf ''openai: tool message %d references unknown tool call %q'' [Num (int index), Str id])
     else
       rbind (chat_text m) (\<lambda>content.
       Inr (\<lparr>xm_role = role_text (cm_role m), xm_content = content, xm_calls = [], xm_call_id = id\<rparr>,
         en\<lparr>xe_pending := remove1 id (xe_pending en), xe_completed := List.insert id (xe_completed en)\<rparr>)))"

definition chat_encode :: "nat \<Rightarrow> chat_message \<Rightarrow> chat_encoder \<Rightarrow> agent_error + (chat_item \<times> chat_encoder)" where
  "chat_encode index m en =
    (if role_text (cm_role m) = '''' then Inl (Errorf ''openai: message %d role is required'' [Num (int index)])
     else if cm_role m = RoleTool then encode_tool_message index m en
     else if xe_pending en \<noteq> []
     then Inl (Errorf ''openai: %d tool call(s) before message %d have no tool output'' [Num (int (length (xe_pending en))), Num (int index)])
     else encode_model_message index m en)"

fun chat_items :: "nat \<Rightarrow> chat_message list \<Rightarrow> chat_encoder \<Rightarrow> agent_error + (chat_item list \<times> chat_encoder)" where
  "chat_items index [] en = Inr ([], en)"
| "chat_items index (m # ms) en =
    rbind (chat_encode index m en) (\<lambda>(item, en1).
    rbind (chat_items (Suc index) ms en1) (\<lambda>(items, en2). Inr (item # items, en2)))"

definition new_chat_encoder :: chat_encoder where
  "new_chat_encoder = \<lparr>xe_pending = [], xe_completed = [], xe_seen = []\<rparr>"

definition encodeChatMessages :: "chat_message list \<Rightarrow> agent_error + chat_item list" where
  "encodeChatMessages ms =
    rbind (chat_items 0 ms new_chat_encoder) (\<lambda>(items, en).
    if xe_pending en \<noteq> [] then Inl (Errorf ''openai: %d tool call(s) have no tool output'' [Num (int (length (xe_pending en)))])
    else Inr items)"

section \<open>The request\<close>

fun chat_tools :: "chat_tool list \<Rightarrow> string list \<Rightarrow> agent_error + unit" where
  "chat_tools [] seen = Inr ()"
| "chat_tools (t # ts) seen =
    (if ct_name t = '''' \<or> ct_schema t = [] \<or> \<not> json_valid (ct_schema t)
     then Inl (Errorf ''openai: tool %q has an invalid schema'' [Str (ct_name t)])
     else if ct_name t \<in> set seen then Inl (Errorf ''openai: duplicate tool %q'' [Str (ct_name t)])
     else chat_tools ts (ct_name t # seen))"

fun choice_mode_text :: "choice_mode \<Rightarrow> string" where
  "choice_mode_text ChoiceUnset = ''''" | "choice_mode_text ChoiceAuto = ''auto''" | "choice_mode_text ChoiceNone = ''none''"
| "choice_mode_text ChoiceRequired = ''required''" | "choice_mode_text ChoiceNamed = ''named''" | "choice_mode_text (ChoiceOther s) = s"

definition chat_tool_choice :: "tool_choice \<Rightarrow> agent_error + unit" where
  "chat_tool_choice choice = (case ch_mode choice of
     ChoiceNamed \<Rightarrow> guard_r (ch_name choice \<noteq> '''') (Errorf ''openai: named tool choice requires a name'' [])
   | ChoiceOther mode \<Rightarrow> Inl (Errorf ''openai: unknown tool choice mode %q'' [Str mode])
   | _ \<Rightarrow> Inr ())"

definition chat_validate :: "model_request \<Rightarrow> bool \<Rightarrow> agent_error + unit" where
  "chat_validate rq required =
    rbind (guard_r (\<not> (required \<and> mr_model rq = '''')) (Errorf ''openai: request model is required'' [])) (\<lambda>_.
    rbind (guard_r (\<not> (required \<and> mr_messages rq = [])) (Errorf ''openai: request has no messages'' [])) (\<lambda>_.
    rbind (guard_r (\<not> mr_max_output_tokens rq < 0) (Errorf ''openai: max output tokens must not be negative'' [])) (\<lambda>_.
    rbind (guard_r (mr_output_protocols rq = []) (Errorf ''openai: output protocols are not implemented'' [])) (\<lambda>_.
    rbind (guard_r (mr_modalities rq = []) (Errorf ''openai: modalities are not implemented'' [])) (\<lambda>_.
    rbind (guard_r (mr_schema_uri rq = '''') (Errorf ''openai: response schema URI is not implemented'' [])) (\<lambda>_.
    rbind (guard_r (mr_schema_value rq = [] \<or> json_valid (mr_schema_value rq)) (Errorf ''openai: response schema is invalid JSON'' [])) (\<lambda>_.
    rbind (chat_tool_choice (mr_tool_choice rq)) (\<lambda>_.
    rbind (encodeChatMessages (mr_messages rq)) (\<lambda>_.
    rbind (chat_tools (mr_tools rq) []) (\<lambda>_.
    case mr_extensions rq of [] \<Rightarrow> Inr ()
      | key # _ \<Rightarrow> Inl (Errorf ''openai: unknown request extension %q'' [Str key])))))))))))"

record chat_request =
  xr_model :: string
  xr_messages :: "chat_item list"
  xr_temperature :: "bytes option"
  xr_top_p :: "bytes option"
  xr_max_tokens :: int
  xr_seed :: "int option"
  xr_stop :: "string list"
  xr_tools :: "chat_function list"
  xr_tool_choice :: "json option"
  xr_schema :: "json option"
  xr_effort :: string
  xr_stream :: bool

definition chat_choice :: "tool_choice \<Rightarrow> json option" where
  "chat_choice choice = (case ch_mode choice of
     ChoiceUnset \<Rightarrow> None
   | ChoiceAuto \<Rightarrow> Some (jstr ''auto'') | ChoiceNone \<Rightarrow> Some (jstr ''none'') | ChoiceRequired \<Rightarrow> Some (jstr ''required'')
   | _ \<Rightarrow> if ch_name choice = '''' then None
       else Some (JObject (jfield ''type'' (jstr ''function'') @ jfield ''function'' (JObject (jfield ''name'' (jstr (ch_name choice)))))))"

definition new_chat_request :: "model_request \<Rightarrow> bool \<Rightarrow> agent_error + chat_request" where
  "new_chat_request rq stream =
    rbind (chat_validate rq True) (\<lambda>_.
    rbind (encodeChatMessages (mr_messages rq)) (\<lambda>messages.
    Inr \<lparr>xr_model = mr_model rq, xr_messages = messages, xr_temperature = mr_temperature rq, xr_top_p = mr_top_p rq,
      xr_max_tokens = mr_max_output_tokens rq, xr_seed = mr_seed rq, xr_stop = mr_stop rq,
      xr_tools = map (\<lambda>t. \<lparr>cf_name = ct_name t, cf_description = ct_description t, cf_parameters = parse_json (ct_schema t), cf_arguments = ''''\<rparr>) (mr_tools rq),
      xr_tool_choice = (if mr_tools rq = [] then None else chat_choice (mr_tool_choice rq)),
      xr_schema = (if mr_schema_value rq = [] then None else parse_json (mr_schema_value rq)),
      xr_effort = mr_effort rq, xr_stream = stream\<rparr>))"

subsection \<open>Its text\<close>

definition jsome :: "string \<Rightarrow> json option \<Rightarrow> (bytes \<times> json) list" where
  "jsome name v = (case v of None \<Rightarrow> [] | Some x \<Rightarrow> jfield name x)"

definition chat_function_json :: "chat_function \<Rightarrow> json" where
  "chat_function_json f = JObject (jfield ''name'' (jstr (cf_name f)) @ jopt ''description'' (cf_description f) @
     jsome ''parameters'' (map_option html_json (cf_parameters f)) @ jopt ''arguments'' (cf_arguments f))"

definition chat_call_json :: "chat_call \<Rightarrow> json" where
  "chat_call_json c = JObject (jfield ''id'' (jstr (cc_id c)) @ jfield ''type'' (jstr (cc_type c)) @
     jfield ''function'' (chat_function_json (cc_function c)))"

definition chat_item_json :: "chat_item \<Rightarrow> json" where
  "chat_item_json m = JObject (jfield ''role'' (jstr (xm_role m)) @ jfield ''content'' (jstr (xm_content m)) @
     omitempty (xm_calls m = []) ''tool_calls'' (JArray (map chat_call_json (xm_calls m))) @ jopt ''tool_call_id'' (xm_call_id m))"

text \<open>A float that is no number (an infinity) has no JSON text.\<close>

definition chat_float :: "bytes option \<Rightarrow> json option option" where
  "chat_float v = (case v of None \<Rightarrow> Some None
     | Some s \<Rightarrow> (case parse_json s of Some (JNumber r) \<Rightarrow> Some (Some (JNumber r)) | _ \<Rightarrow> None))"

definition chat_request_json :: "chat_request \<Rightarrow> json option" where
  "chat_request_json r = (case (chat_float (xr_temperature r), chat_float (xr_top_p r)) of
     (Some temperature, Some top_p) \<Rightarrow>
       Some (JObject (jfield ''model'' (jstr (xr_model r)) @ jfield ''messages'' (JArray (map chat_item_json (xr_messages r))) @
         jsome ''temperature'' temperature @ jsome ''top_p'' top_p @
         omitempty (xr_max_tokens r = 0) ''max_tokens'' (jnum (xr_max_tokens r)) @
         jsome ''seed'' (map_option jnum (xr_seed r)) @
         omitempty (xr_stop r = []) ''stop'' (JArray (map jstr (xr_stop r))) @
         omitempty (xr_tools r = []) ''tools'' (JArray (map (\<lambda>f. JObject (jfield ''type'' (jstr ''function'') @
           jfield ''function'' (chat_function_json f))) (xr_tools r))) @
         jsome ''tool_choice'' (xr_tool_choice r) @
         jsome ''response_format'' (map_option (\<lambda>s. JObject (jfield ''type'' (jstr ''json_schema'') @
           jfield ''json_schema'' (JObject (jfield ''name'' (jstr ''response'') @ jfield ''schema'' (html_json s))))) (xr_schema r)) @
         jopt ''reasoning_effort'' (xr_effort r) @ omitempty (\<not> xr_stream r) ''stream'' (JBool True) @
         omitempty (\<not> xr_stream r) ''stream_options'' (JObject (jfield ''include_usage'' (JBool True)))))
   | _ \<Rightarrow> None)"

definition chat_payload :: "model_request \<Rightarrow> bool \<Rightarrow> agent_error + bytes" where
  "chat_payload rq stream =
    rbind (new_chat_request rq stream) (\<lambda>body.
    case chat_request_json body of
      None \<Rightarrow> Inl (Wrapped ''openai: encode request: %w'' [] json_error) | Some v \<Rightarrow> Inr (print_json v))"

section \<open>The response\<close>

definition no_chat_function :: chat_function where
  "no_chat_function = \<lparr>cf_name = '''', cf_description = '''', cf_parameters = None, cf_arguments = ''''\<rparr>"

definition chat_function_fields :: "chat_function fields" where
  "chat_function_fields = [(''name'', string_field cf_name_update), (''description'', string_field cf_description_update),
     (''parameters'', \<lambda>v z. Some (z\<lparr>cf_parameters := Some v\<rparr>)), (''arguments'', string_field cf_arguments_update)]"

definition no_chat_call :: chat_call where
  "no_chat_call = \<lparr>cc_id = '''', cc_type = '''', cc_function = no_chat_function\<rparr>"

definition chat_call_fields :: "chat_call fields" where
  "chat_call_fields = [(''id'', string_field cc_id_update), (''type'', string_field cc_type_update),
     (''function'', struct_field cc_function cc_function_update chat_function_fields)]"

definition no_chat_item :: chat_item where
  "no_chat_item = \<lparr>xm_role = '''', xm_content = '''', xm_calls = [], xm_call_id = ''''\<rparr>"

definition chat_item_fields :: "chat_item fields" where
  "chat_item_fields = [(''role'', string_field xm_role_update), (''content'', string_field xm_content_update),
     (''tool_calls'', slice_field xm_calls_update no_chat_call chat_call_fields), (''tool_call_id'', string_field xm_call_id_update)]"

record chat_choice_item =
  xc_message :: chat_item
  xc_finish_reason :: string

definition chat_usage_fields :: "usage fields" where
  "chat_usage_fields = [(''prompt_tokens'', int64_field us_input_update), (''completion_tokens'', int64_field us_output_update),
     (''total_tokens'', int64_field us_total_update)]"

definition zero_usage :: usage where
  "zero_usage = \<lparr>us_input = 0, us_output = 0, us_total = 0\<rparr>"

record chat_response =
  xs_id :: string
  xs_model :: string
  xs_choices :: "chat_choice_item list"
  xs_usage :: usage

definition chat_response_fields :: "chat_response fields" where
  "chat_response_fields = [(''id'', string_field xs_id_update), (''model'', string_field xs_model_update),
     (''choices'', slice_field xs_choices_update \<lparr>xc_message = no_chat_item, xc_finish_reason = ''''\<rparr>
        [(''message'', struct_field xc_message xc_message_update chat_item_fields), (''finish_reason'', string_field xc_finish_reason_update)]),
     (''usage'', struct_field xs_usage xs_usage_update chat_usage_fields)]"

definition no_chat_response :: chat_response where
  "no_chat_response = \<lparr>xs_id = '''', xs_model = '''', xs_choices = [], xs_usage = zero_usage\<rparr>"

text \<open>The calls of a message, each new among those before it.\<close>

fun response_call_list :: "string \<Rightarrow> chat_call list \<Rightarrow> string list \<Rightarrow> agent_error + call list" where
  "response_call_list provider [] seen = Inr []"
| "response_call_list provider (c # cs) seen =
    (if cc_id c = '''' \<or> cf_name (cc_function c) = '''' then Inl (Errorf ''openai: tool call id and name are required'' [])
     else if cc_id c \<in> set seen then Inl (Errorf ''openai: duplicate tool call id %q'' [Str (cc_id c)])
     else if \<not> json_valid (cf_arguments (cc_function c))
     then Inl (Errorf ''openai: tool arguments for %q are invalid JSON'' [Str (cf_name (cc_function c))])
     else rbind (response_call_list provider cs (cc_id c # seen)) (\<lambda>calls.
       Inr (\<lparr>cl_id = cc_id c, cl_name = cf_name (cc_function c), cl_arguments = cf_arguments (cc_function c),
         cl_arguments_ref = '''', cl_source_ref = provider\<rparr> # calls)))"

definition responseMessage :: "string \<Rightarrow> chat_item \<Rightarrow> agent_error + (chat_message \<times> model_intent)" where
  "responseMessage provider m =
    (let response = assistant_message [text_part (xm_content m)] in
     if xm_calls m = [] then Inr (response, FinalIntent)
     else rbind (response_call_list provider (xm_calls m) []) (\<lambda>calls. Inr (response\<lparr>cm_tool_calls := calls\<rparr>, ToolCallIntent)))"

end
