(* ===== verification/Chat_Calls.thy ===== *)
theory Chat_Calls
  imports Chat_Model
begin

text \<open>
  \<open>src/models/openai/openai.go\<close>: the construction of a model, the attempts of a call,
  \<open>Invoke\<close>, and \<open>InvokeStream\<close> with its events. The HTTP client, the context and the clock answer
  as functions of the effects so far, the sinks and the consumer of the text as functions of what
  was delivered. Sinks are not nil.
\<close>

section \<open>The construction of a model\<close>

text \<open>Of the HTTP client the model keeps whether it is set.\<close>

record chat_model =
  hm_provider :: string
  hm_base_url :: string
  hm_api_key :: string
  hm_http_client :: bool
  hm_default :: model_request
  hm_retry :: retry_policy
  hm_timeout :: duration
  hm_allow_http :: bool
  hm_config_err :: "agent_error list"

definition millisecond :: duration where "millisecond = 1000000"
definition chatMaxAttempts :: int where "chatMaxAttempts = 3"
definition chatRequestTimeout :: duration where "chatRequestTimeout = 120 * second"
definition chatInitialBackoff :: duration where "chatInitialBackoff = 100 * millisecond"
definition chatMaxBackoff :: duration where "chatMaxBackoff = 2 * second"

type_synonym chat_option = "chat_model \<Rightarrow> chat_model"

definition WithChatHTTPClient :: "bool \<Rightarrow> chat_option" where
  "WithChatHTTPClient client md =
    (if client then md\<lparr>hm_http_client := True\<rparr>
     else md\<lparr>hm_config_err := hm_config_err md @ [Errorf ''openai: http client is nil'' []]\<rparr>)"

definition WithChatDefaultRequest :: "model_request \<Rightarrow> chat_option" where
  "WithChatDefaultRequest rq md = md\<lparr>hm_default := rq\<rparr>"

definition WithChatMaxAttempts :: "int \<Rightarrow> chat_option" where
  "WithChatMaxAttempts n md = md\<lparr>hm_retry := (hm_retry md)\<lparr>rp_max_attempts := n\<rparr>\<rparr>"

definition WithRetryPolicy :: "retry_policy \<Rightarrow> chat_option" where
  "WithRetryPolicy policy md = md\<lparr>hm_retry := policy\<rparr>"

definition WithChatTimeout :: "duration \<Rightarrow> chat_option" where
  "WithChatTimeout timeout md = md\<lparr>hm_timeout := timeout\<rparr>"

definition WithChatInsecureHTTP :: chat_option where
  "WithChatInsecureHTTP md = md\<lparr>hm_allow_http := True\<rparr>"

definition validate_chat_url :: "url option \<Rightarrow> bool \<Rightarrow> agent_error + unit" where
  "validate_chat_url parsed allowHTTP = (case parsed of
     None \<Rightarrow> Inl (Errorf ''openai: base url is invalid'' [])
   | Some u \<Rightarrow>
       if (url_scheme u \<noteq> ''http'' \<and> url_scheme u \<noteq> ''https'') \<or> url_host u = ''''
       then Inl (Errorf ''openai: base url is invalid'' [])
       else if url_scheme u = ''http'' \<and> \<not> allowHTTP
       then Inl (Errorf ''openai: HTTP base url requires WithInsecureHTTP'' [])
       else guard_r (url_user u = None \<and> url_query u = '''' \<and> url_fragment u = '''')
         (Errorf ''openai: base url must not contain credentials, query, or fragment'' []))"

definition validate_chat_model :: "(string \<Rightarrow> url option) \<Rightarrow> chat_model \<Rightarrow> agent_error + unit" where
  "validate_chat_model parse md =
    rbind (if hm_config_err md = [] then Inr () else Inl (Joined (hm_config_err md))) (\<lambda>_.
    rbind (guard_r (hm_http_client md) (Errorf ''openai: http client is nil'' [])) (\<lambda>_.
    rbind (guard_r (0 < hm_timeout md) (Errorf ''openai: timeout must be positive'' [])) (\<lambda>_.
    rbind (validate_policy (hm_retry md)) (\<lambda>_.
    rbind (validate_chat_url (parse (hm_base_url md)) (hm_allow_http md)) (\<lambda>_.
    chat_validate (hm_default md) False)))))"

definition default_chat_model :: "string \<Rightarrow> string \<Rightarrow> string \<Rightarrow> string \<Rightarrow> chat_model" where
  "default_chat_model provider baseURL apiKey name =
    \<lparr>hm_provider = provider, hm_base_url = trim_right_slash (if contains_sub baseURL ''://'' then baseURL else ''https://'' @ baseURL),
      hm_api_key = apiKey, hm_http_client = True, hm_default = empty_request\<lparr>mr_model := name\<rparr>,
      hm_retry = \<lparr>rp_max_attempts = chatMaxAttempts, rp_initial = chatInitialBackoff, rp_max = chatMaxBackoff\<rparr>,
      hm_timeout = chatRequestTimeout, hm_allow_http = False, hm_config_err = []\<rparr>"

text \<open>\<open>New\<close>: an option that is nil is \<open>None\<close>.\<close>

definition new_chat_model :: "(string \<Rightarrow> url option) \<Rightarrow> string \<Rightarrow> string \<Rightarrow> string \<Rightarrow> string \<Rightarrow> chat_option option list \<Rightarrow>
    agent_error + chat_model" where
  "new_chat_model parse provider baseURL apiKey name opts =
    rbind (guard_r (provider \<noteq> '''') (Errorf ''openai: provider is required'' [])) (\<lambda>_.
    rbind (guard_r (baseURL \<noteq> '''') (Errorf ''openai: base url is required'' [])) (\<lambda>_.
    rbind (guard_r (apiKey \<noteq> '''') (Errorf ''openai: api key is required'' [])) (\<lambda>_.
    let md = fold (\<lambda>opt md. case opt of None \<Rightarrow> md | Some f \<Rightarrow> f md) opts (default_chat_model provider baseURL apiKey name);
        md1 = (if mr_model (hm_default md) = '''' then md\<lparr>hm_default := (hm_default md)\<lparr>mr_model := name\<rparr>\<rparr> else md)
    in rbind (validate_chat_model parse md1) (\<lambda>_. Inr md1))))"

definition chat_NewRequest :: "chat_model option \<Rightarrow> chat_message list \<Rightarrow> model_request" where
  "chat_NewRequest md messages = (case md of
     None \<Rightarrow> empty_request | Some model \<Rightarrow> (hm_default model)\<lparr>mr_messages := messages\<rparr>)"

section \<open>Attempts\<close>

text \<open>A request, the effects of a call, and the response with the headers that are passed on.\<close>

record http_request =
  rq_method :: string
  rq_url :: string
  rq_headers :: "(string \<times> string) list"
  rq_body :: "bytes option"

datatype chat_effect = Requested http_request | Delayed duration

type_synonym chat_log = "chat_effect list"

record chat_http = http_response +
  hr_content_type :: string
  hr_content_length :: int
  hr_header :: "(string \<times> string list) list"

text \<open>
  \<open>oe_request_err\<close> is the error of \<open>http.NewRequestWithContext\<close> for a method and a URL, \<open>oe_text\<close>
  the text of an error, and \<open>oe_usage\<close> what \<open>json.Marshal\<close> makes of a \<open>gopact.Usage\<close>, a type
  outside the repository. A body that is read again for a further attempt does not fail.
\<close>

record chat_env =
  oe_request_err :: "string \<Rightarrow> string \<Rightarrow> agent_error option"
  oe_send :: "chat_log \<Rightarrow> chat_http option \<times> agent_error option"
  oe_ctx_err :: "chat_log \<Rightarrow> bool"
  oe_wait :: "chat_log \<Rightarrow> agent_error option"
  oe_now :: "chat_log \<Rightarrow> instant"
  oe_text :: "agent_error \<Rightarrow> string"
  oe_usage :: "usage \<Rightarrow> agent_error + bytes"

definition redact_key :: "string \<Rightarrow> string \<Rightarrow> string" where
  "redact_key key s = (if key = '''' then s else replace_all s key ''[redacted]'')"

text \<open>An error with the redacted text of its cause.\<close>

definition safe_error :: "chat_env \<Rightarrow> string \<Rightarrow> agent_error \<Rightarrow> agent_error" where
  "safe_error env key e = Wrapped (redact_key key (oe_text env e)) [] e"

text \<open>\<open>left\<close> attempts are left after the one that was made.\<close>

definition should_retry :: "nat \<Rightarrow> bool \<Rightarrow> chat_http option \<Rightarrow> agent_error option \<Rightarrow> bool" where
  "should_retry left done resp err \<longleftrightarrow> left \<noteq> 0 \<and> \<not> done \<and>
    (err \<noteq> None \<or> (case resp of None \<Rightarrow> False | Some r \<Rightarrow> retryableStatus (hr_status r)))"

text \<open>The attempts from \<open>attempt\<close> on; the result is the pair of the source.\<close>

fun chat_attempts :: "chat_env \<Rightarrow> retry_policy \<Rightarrow> string \<Rightarrow> http_request \<Rightarrow> nat \<Rightarrow> int \<Rightarrow> agent_error option \<Rightarrow> chat_log \<Rightarrow>
    chat_log \<times> chat_http option \<times> agent_error option" where
  "chat_attempts env p key request 0 attempt prior log = (log, None, map_option (safe_error env key) prior)"
| "chat_attempts env p key request (Suc left) attempt prior log =
    (let log1 = log @ [Requested request]; (resp, err) = oe_send env log1 in
     if \<not> should_retry left (oe_ctx_err env log1) resp err then (log1, resp, map_option (safe_error env key) err)
     else
       (let delay = chat_retry_delay p resp attempt (oe_now env log1); log2 = log1 @ [Delayed delay]
        in case oe_wait env log2 of
             Some e \<Rightarrow> (log2, None, Some e)
           | None \<Rightarrow> chat_attempts env p key request left (attempt + 1) err log2))"

definition chat_do :: "chat_env \<Rightarrow> chat_model \<Rightarrow> http_request \<Rightarrow> chat_log \<times> chat_http option \<times> agent_error option" where
  "chat_do env md request =
    chat_attempts env (hm_retry md) (hm_api_key md) request (nat (rp_max_attempts (hm_retry md))) 1 None []"

section \<open>A call\<close>

record chat_error =
  er_status :: int
  er_body :: string
  er_retryable :: bool

text \<open>A response that is nil with no error is dereferenced.\<close>

datatype chat_failure = ChatFailed agent_error | ChatRefused chat_error | ChatPanic

definition chat_bounded :: "string \<Rightarrow> string" where
  "chat_bounded s = (if length s \<le> maxTextBytes then s else take maxTextBytes s)"

definition chat_refusal :: "string \<Rightarrow> chat_http \<Rightarrow> chat_error" where
  "chat_refusal key resp = \<lparr>er_status = hr_status resp,
     er_body = chat_bounded (redact_key key (trim_space (take maxTextBytes (hr_body resp)))),
     er_retryable = retryableStatus (hr_status resp)\<rparr>"

definition chat_request_of :: "chat_model \<Rightarrow> bytes \<Rightarrow> http_request" where
  "chat_request_of md payload = \<lparr>rq_method = ''POST'', rq_url = hm_base_url md @ ''/chat/completions'',
     rq_headers = [(''Authorization'', ''Bearer '' @ hm_api_key md), (''Content-Type'', ''application/json'')],
     rq_body = Some payload\<rparr>"

text \<open>A request that is made and sent, with the error format of the caller.\<close>

definition chat_send :: "chat_env \<Rightarrow> chat_model \<Rightarrow> http_request \<Rightarrow> string \<Rightarrow> chat_log \<times> (chat_failure + chat_http)" where
  "chat_send env md request format = (case oe_request_err env (rq_method request) (rq_url request) of
     Some e \<Rightarrow> ([], Inl (ChatFailed (Wrapped ''openai: create request: %w'' [] e)))
   | None \<Rightarrow>
       (case chat_do env md request of
          (log, resp, Some e) \<Rightarrow> (log, Inl (ChatFailed (Wrapped format [] e)))
        | (log, None, None) \<Rightarrow> (log, Inl ChatPanic)
        | (log, Some r, None) \<Rightarrow> (log, Inr r)))"

definition chat_open :: "chat_env \<Rightarrow> chat_model \<Rightarrow> bytes \<Rightarrow> string \<Rightarrow> chat_log \<times> (chat_failure + chat_http)" where
  "chat_open env md payload format = (case chat_send env md (chat_request_of md payload) format of
     (log, Inl f) \<Rightarrow> (log, Inl f)
   | (log, Inr r) \<Rightarrow>
       (log, if successfulStatus (hr_status r) then Inr r else Inl (ChatRefused (chat_refusal (hm_api_key md) r))))"

definition chat_event :: "string \<Rightarrow> event_type \<Rightarrow> bytes \<Rightarrow> string \<Rightarrow> bytes \<Rightarrow> model_event" where
  "chat_event provider t b summary payload =
    \<lparr>me_type = t, me_source = provider, me_bytes = b, me_summary = summary, me_payload = payload\<rparr>"

definition chat_emit :: "sink list \<Rightarrow> model_event \<Rightarrow> unit effect" where
  "chat_emit sinks ev = emitEvent (map Some sinks) ev"

definition emitDelta :: "string \<Rightarrow> sink list \<Rightarrow> string \<Rightarrow> unit effect" where
  "emitDelta provider sinks value = chat_emit sinks (chat_event provider MessageDelta [] (chat_bounded value) [])"

definition read_chat_response :: "chat_http \<Rightarrow> agent_error + chat_response" where
  "read_chat_response resp =
    (if hr_body_err resp \<noteq> None \<and> length (hr_body resp) \<le> maxChatBytes
     then Inl (Wrapped ''openai: decode response: %w'' [] (the (hr_body_err resp)))
     else if length (hr_body resp) > maxChatBytes
     then Inl (Errorf ''openai: decode response: body exceeds %d bytes'' [Num (int maxChatBytes)])
     else case unmarshal chat_response_fields (hr_body resp) no_chat_response of
         None \<Rightarrow> Inl (Wrapped ''openai: decode response: %w'' [] json_error)
       | Some v \<Rightarrow> if xs_choices v = [] then Inl (Errorf ''openai: response has no choices'' []) else Inr v)"

text \<open>The text goes to the sinks before the calls of the message are checked.\<close>

definition chat_answer :: "string \<Rightarrow> sink list \<Rightarrow> chat_http \<Rightarrow> model_answer effect" where
  "chat_answer provider sinks resp =
    eff_bind (pure_r (read_chat_response resp)) (\<lambda>v.
    let choice = hd (xs_choices v) in
    eff_bind (emitDelta provider sinks (xm_content (xc_message choice))) (\<lambda>_.
    eff_bind (pure_r (responseMessage provider (xc_message choice))) (\<lambda>(message, intent).
    pure_r (Inr \<lparr>ma_message = message, ma_intent = intent, ma_usage = xs_usage v, ma_finish_reason = xc_finish_reason choice,
      ma_metadata = [(''id'', chat_bounded (xs_id v)), (''model'', chat_bounded (xs_model v)), (''provider'', provider)]\<rparr>))))"

record chat_config =
  hc_sinks :: "sink list"
  hc_extensions :: "string list"

text \<open>The checks before a call, and its payload.\<close>

definition chat_prepare :: "model_request \<Rightarrow> chat_config \<Rightarrow> bool \<Rightarrow> agent_error + bytes" where
  "chat_prepare rq config stream = (case hc_extensions config of
     key # _ \<Rightarrow> Inl (Errorf ''openai: unknown call extension %q'' [Str key])
   | [] \<Rightarrow> chat_payload rq stream)"

definition chat_Invoke :: "chat_env \<Rightarrow> chat_model option \<Rightarrow> model_request \<Rightarrow> chat_config \<Rightarrow>
    chat_log \<times> delivery list \<times> (chat_failure + model_answer)" where
  "chat_Invoke env md rq config = (case md of
     None \<Rightarrow> ([], [], Inl (ChatFailed (Errorf ''openai: model is nil'' [])))
   | Some model \<Rightarrow>
       (case chat_prepare rq config False of
          Inl e \<Rightarrow> ([], [], Inl (ChatFailed e))
        | Inr payload \<Rightarrow>
            (case chat_open env model payload ''openai: invoke: %w'' of
               (log, Inl f) \<Rightarrow> (log, [], Inl f)
             | (log, Inr resp) \<Rightarrow>
                 (case chat_answer (hm_provider model) (hc_sinks config) resp [] of
                    (out, Inl e) \<Rightarrow> (log, out, Inl (ChatFailed e))
                  | (out, Inr a) \<Rightarrow> (log, out, Inr a)))))"

section \<open>The stream\<close>

record chat_stream_call =
  sl_index :: int
  sl_id :: string
  sl_type :: string
  sl_function :: chat_function

record chat_delta =
  xd_content :: string
  xd_calls :: "chat_stream_call list"

record chat_stream_choice =
  xt_delta :: chat_delta
  xt_finish_reason :: string

record chat_chunk =
  xk_choices :: "chat_stream_choice list"
  xk_usage :: usage

definition chat_stream_call_fields :: "chat_stream_call fields" where
  "chat_stream_call_fields = [(''index'', int64_field sl_index_update), (''id'', string_field sl_id_update),
     (''type'', string_field sl_type_update), (''function'', struct_field sl_function sl_function_update chat_function_fields)]"

definition no_stream_call :: chat_stream_call where
  "no_stream_call = \<lparr>sl_index = 0, sl_id = '''', sl_type = '''', sl_function = no_chat_function\<rparr>"

definition chat_delta_fields :: "chat_delta fields" where
  "chat_delta_fields = [(''content'', string_field xd_content_update),
     (''tool_calls'', slice_field xd_calls_update no_stream_call chat_stream_call_fields)]"

definition chat_chunk_fields :: "chat_chunk fields" where
  "chat_chunk_fields = [(''choices'', slice_field xk_choices_update
       \<lparr>xt_delta = \<lparr>xd_content = '''', xd_calls = []\<rparr>, xt_finish_reason = ''''\<rparr>
       [(''delta'', struct_field xt_delta xt_delta_update chat_delta_fields), (''finish_reason'', string_field xt_finish_reason_update)]),
     (''usage'', struct_field xk_usage xk_usage_update chat_usage_fields)]"

definition no_chat_chunk :: chat_chunk where
  "no_chat_chunk = \<lparr>xk_choices = [], xk_usage = zero_usage\<rparr>"

text \<open>The text of a \<open>chatStreamToolCall\<close>.\<close>

definition stream_call_payload :: "chat_stream_call \<Rightarrow> bytes" where
  "stream_call_payload c = print_json (JObject (jfield ''index'' (jnum (sl_index c)) @ jopt ''id'' (sl_id c) @
     jopt ''type'' (sl_type c) @ jfield ''function'' (chat_function_json (sl_function c))))"

type_synonym tool_ids = "(int \<times> string) list"

definition emitToolCallDelta :: "string \<Rightarrow> sink list \<Rightarrow> chat_stream_call \<Rightarrow> tool_ids \<Rightarrow> tool_ids effect" where
  "emitToolCallDelta provider sinks c toolIDs =
    (let ids = (if sl_id c \<noteq> '''' then AList.update (sl_index c) (sl_id c) toolIDs else toolIDs);
         known = (case map_of ids (sl_index c) of None \<Rightarrow> '''' | Some v \<Rightarrow> v);
         identifier = (if known = '''' then itoa (sl_index c) else known)
     in eff_bind (chat_emit sinks (chat_event provider ToolCallDelta (cf_arguments (sl_function c))
          (chat_bounded identifier) (stream_call_payload c))) (\<lambda>_. pure_r (Inr ids)))"

fun emit_call_deltas :: "string \<Rightarrow> sink list \<Rightarrow> chat_stream_call list \<Rightarrow> tool_ids \<Rightarrow> tool_ids effect" where
  "emit_call_deltas provider sinks [] toolIDs = pure_r (Inr toolIDs)"
| "emit_call_deltas provider sinks (c # cs) toolIDs =
    eff_bind (emitToolCallDelta provider sinks c toolIDs) (emit_call_deltas provider sinks cs)"

text \<open>The text of the chunk, whether it is the last, and the identifiers of the calls.\<close>

definition emitStreamChunk :: "chat_env \<Rightarrow> string \<Rightarrow> sink list \<Rightarrow> chat_chunk \<Rightarrow> tool_ids \<Rightarrow> (string \<times> bool \<times> tool_ids) effect" where
  "emitStreamChunk env provider sinks chunk toolIDs =
    eff_bind (if xk_usage chunk = zero_usage then pure_r (Inr ())
      else eff_bind (pure_r (wrap_error (Wrapped ''openai: encode usage event: %w'' []) (oe_usage env (xk_usage chunk))))
        (\<lambda>payload. chat_emit sinks (chat_event provider UsageEvent [] '''' payload))) (\<lambda>_.
    case xk_choices chunk of
      [] \<Rightarrow> pure_r (Inr ('''', False, toolIDs))
    | choice # _ \<Rightarrow>
        eff_bind (if xt_finish_reason choice = '''' then pure_r (Inr ())
          else chat_emit sinks (chat_event provider FinishEvent [] (xt_finish_reason choice) [])) (\<lambda>_.
        eff_bind (emit_call_deltas provider sinks (xd_calls (xt_delta choice)) toolIDs) (\<lambda>ids.
        pure_r (Inr (xd_content (xt_delta choice), xt_finish_reason choice \<noteq> '''', ids)))))"

text \<open>
  The lines of a \<open>bufio.Scanner\<close> with a buffer of \<open>limit\<close> bytes over a body that ends with the
  error \<open>err\<close>, and the error of the scanner. One carriage return at the end of a line is dropped.
\<close>

function scan_lines :: "nat \<Rightarrow> agent_error option \<Rightarrow> bytes \<Rightarrow> string list \<times> agent_error option" where
  "scan_lines limit err body =
    (let line = takeWhile (\<lambda>c. c \<noteq> newline) body in
     if length line \<ge> limit then ([], Some ErrTooLong)
     else if length line < length body
     then (let (lines, e) = scan_lines limit err (drop (Suc (length line)) body) in (drop_cr line # lines, e))
     else if body = [] then ([], err) else ([drop_cr line], err))"
  by pat_completeness auto

termination
  by (relation "measure (\<lambda>(_, _, body). length body)") auto

declare scan_lines.simps [simp del]

text \<open>The data of a line, when it has data.\<close>

definition line_data :: "string \<Rightarrow> string option" where
  "line_data raw =
    (let line = trim_space raw in
     if line = '''' \<or> has_prefix line '':'' then None
     else if \<not> has_prefix line ''data:'' then None
     else Some (trim_space (drop 5 line)))"

definition decode_chunk :: "string \<Rightarrow> agent_error + chat_chunk" where
  "decode_chunk data = (case unmarshal chat_chunk_fields data no_chat_chunk of
     None \<Rightarrow> Inl (Wrapped ''openai: decode stream chunk: %w'' [] json_error) | Some chunk \<Rightarrow> Inr chunk)"

text \<open>The loop over the lines: what was delivered, and the error that is yielded at the end, if any.\<close>

type_synonym stream_outcome = "delivery list \<times> agent_error option"

definition stream_end :: "agent_error option \<Rightarrow> bool \<Rightarrow> agent_error option" where
  "stream_end err terminal = (case err of
     Some e \<Rightarrow> Some (Wrapped ''openai: read stream: %w'' [] e)
   | None \<Rightarrow> if terminal then None else Some (Wrapped ''openai: read stream: %w'' [] ErrUnexpectedEOF))"

fun stream_lines :: "chat_env \<Rightarrow> string \<Rightarrow> sink list \<Rightarrow> (delivery list \<Rightarrow> string \<Rightarrow> bool) \<Rightarrow> string list \<Rightarrow> agent_error option \<Rightarrow>
    bool \<Rightarrow> tool_ids \<Rightarrow> delivery list \<Rightarrow> stream_outcome" where
  "stream_lines env provider sinks wants [] err terminal toolIDs out = (out, stream_end err terminal)"
| "stream_lines env provider sinks wants (line # lines) err terminal toolIDs out = (case line_data line of
     None \<Rightarrow> stream_lines env provider sinks wants lines err terminal toolIDs out
   | Some data \<Rightarrow>
       if data = ''[DONE]'' then (out, None)
       else case decode_chunk data of
           Inl e \<Rightarrow> (out, Some e)
         | Inr chunk \<Rightarrow>
             (case emitStreamChunk env provider sinks chunk toolIDs out of
                (out1, Inl e) \<Rightarrow> (out1, Some e)
              | (out1, Inr (value, finished, ids)) \<Rightarrow>
                  if value = '''' then stream_lines env provider sinks wants lines err (terminal \<or> finished) ids out1
                  else (case emitDelta provider sinks value out1 of
                      (out2, Inl e) \<Rightarrow> (out2, Some e)
                    | (out2, Inr _) \<Rightarrow>
                        if wants out2 value
                        then stream_lines env provider sinks wants lines err (terminal \<or> finished) ids (out2 @ [Yielded value])
                        else (out2 @ [Yielded value], None))))"

definition chat_InvokeStream :: "chat_env \<Rightarrow> chat_model option \<Rightarrow> model_request \<Rightarrow> chat_config \<Rightarrow>
    (delivery list \<Rightarrow> string \<Rightarrow> bool) \<Rightarrow> chat_log \<times> delivery list \<times> chat_failure option" where
  "chat_InvokeStream env md rq config wants = (case md of
     None \<Rightarrow> ([], [], Some (ChatFailed (Errorf ''openai: model is nil'' [])))
   | Some model \<Rightarrow>
       (case chat_prepare rq config True of
          Inl e \<Rightarrow> ([], [], Some (ChatFailed e))
        | Inr payload \<Rightarrow>
            (case chat_open env model payload ''openai: invoke stream: %w'' of
               (log, Inl f) \<Rightarrow> (log, [], Some f)
             | (log, Inr resp) \<Rightarrow>
                 (let (lines, err) = scan_lines maxChatFrameBytes (hr_body_err resp) (hr_body resp);
                      (out, e) = stream_lines env (hm_provider model) (hc_sinks config) wants lines err False [] []
                  in (log, out, map_option ChatFailed e)))))"

end
