(* ===== verification/Chat_Runtime.thy ===== *)
theory Chat_Runtime
  imports Chat_Calls
begin

text \<open>
  \<open>src/models/openai/runtime_transport.go\<close>: the calls of the other endpoints, that is JSON,
  multipart and media requests and the stream of server-sent events. The result of a JSON call is
  what a decoder makes of the body; a multipart body is a list of parts, which \<open>mime/multipart\<close>
  writes with a random boundary (the argument \<open>format\<close>).
\<close>

definition maxRuntimeJSONResponseBytes :: nat where "maxRuntimeJSONResponseBytes = 134217728"

record runtime_call =
  rc_method :: string
  rc_path :: string
  rc_body :: "bytes option"
  rc_content_type :: string
  rc_accept :: string

record runtime_event =
  re_type :: string
  re_data :: bytes

definition newRuntimeRequest :: "chat_model \<Rightarrow> runtime_call \<Rightarrow> http_request" where
  "newRuntimeRequest md call = \<lparr>rq_method = rc_method call, rq_url = hm_base_url md @ rc_path call,
     rq_headers = [(''Authorization'', ''Bearer '' @ hm_api_key md)] @
       (if rc_accept call \<noteq> '''' then [(''Accept'', rc_accept call)] else []) @
       (if rc_body call \<noteq> None \<and> rc_content_type call \<noteq> '''' then [(''Content-Type'', rc_content_type call)] else []),
     rq_body = rc_body call\<rparr>"

section \<open>JSON and text\<close>

text \<open>A body that was read to its end, or to the first byte beyond the limit.\<close>

definition read_runtime_body :: "chat_http \<Rightarrow> agent_error + bytes" where
  "read_runtime_body resp =
    (if hr_body_err resp \<noteq> None \<and> length (hr_body resp) \<le> maxRuntimeJSONResponseBytes
     then Inl (Wrapped ''openai: read response: %w'' [] (the (hr_body_err resp)))
     else if length (hr_body resp) > maxRuntimeJSONResponseBytes then Inl (Errorf ''openai: response exceeds size limit'' [])
     else Inr (hr_body resp))"

text \<open>The error of a status: the text is cut before the key is replaced in it.\<close>

definition runtime_refusal :: "string \<Rightarrow> int \<Rightarrow> bytes \<Rightarrow> chat_error" where
  "runtime_refusal key status encoded = \<lparr>er_status = status,
     er_body = redact_key key (chat_bounded (trim_space encoded)), er_retryable = retryableStatus status\<rparr>"

text \<open>The body of a call whose status is a success.\<close>

definition runtime_body :: "chat_env \<Rightarrow> chat_model \<Rightarrow> runtime_call \<Rightarrow> chat_log \<times> (chat_failure + bytes)" where
  "runtime_body env md call = (case chat_send env md (newRuntimeRequest md call) ''openai: request: %w'' of
     (log, Inl f) \<Rightarrow> (log, Inl f)
   | (log, Inr r) \<Rightarrow>
       (log, case read_runtime_body r of
          Inl e \<Rightarrow> Inl (ChatFailed e)
        | Inr encoded \<Rightarrow>
            if successfulStatus (hr_status r) then Inr encoded
            else Inl (ChatRefused (runtime_refusal (hm_api_key md) (hr_status r) encoded))))"

text \<open>
  \<open>decode\<close> is \<open>json.Unmarshal\<close> into a pointer to the zero value \<open>zero\<close>; it is \<open>None\<close> for the output
  nil, which leaves the body unread.
\<close>

definition requestEncodedJSON :: "chat_env \<Rightarrow> chat_model option \<Rightarrow> runtime_call \<Rightarrow> (bytes \<Rightarrow> 'o option) option \<Rightarrow> 'o \<Rightarrow>
    chat_log \<times> (chat_failure + 'o)" where
  "requestEncodedJSON env md call decode zero = (case md of
     None \<Rightarrow> ([], Inl (ChatFailed (Errorf ''openai: model is nil'' [])))
   | Some model \<Rightarrow>
       (case runtime_body env model (call\<lparr>rc_accept := ''application/json''\<rparr>) of
          (log, Inl f) \<Rightarrow> (log, Inl f)
        | (log, Inr encoded) \<Rightarrow>
            (log, case decode of
               None \<Rightarrow> Inr zero
             | Some d \<Rightarrow>
                 if trim_space encoded = '''' then Inr zero
                 else (case d encoded of
                     None \<Rightarrow> Inl (ChatFailed (Wrapped ''openai: decode response: %w'' [] json_error)) | Some v \<Rightarrow> Inr v))))"

text \<open>\<open>input\<close> is the value that is marshalled: \<open>None\<close> is nil, and a value without a JSON text is an error.\<close>

definition requestJSON :: "chat_env \<Rightarrow> chat_model option \<Rightarrow> string \<Rightarrow> string \<Rightarrow> json option option \<Rightarrow> (bytes \<Rightarrow> 'o option) option \<Rightarrow> 'o \<Rightarrow>
    chat_log \<times> (chat_failure + 'o)" where
  "requestJSON env md verb path input decode zero = (case md of
     None \<Rightarrow> ([], Inl (ChatFailed (Errorf ''openai: model is nil'' [])))
   | Some _ \<Rightarrow>
       (case input of
          Some None \<Rightarrow> ([], Inl (ChatFailed (Wrapped ''openai: encode request: %w'' [] json_error)))
        | _ \<Rightarrow> requestEncodedJSON env md \<lparr>rc_method = verb, rc_path = path,
            rc_body = (case input of Some (Some v) \<Rightarrow> Some (print_json v) | _ \<Rightarrow> None),
            rc_content_type = ''application/json'', rc_accept = ''''\<rparr> decode zero))"

section \<open>Multipart requests\<close>

record file_content =
  fc_filename :: string
  fc_content_type :: string
  fc_data :: bytes

datatype form_part = FormField string string | FormFile string file_content

definition writeMultipartFile :: "string \<Rightarrow> file_content \<Rightarrow> agent_error + form_part" where
  "writeMultipartFile name f =
    (if trim_space (fc_filename f) = '''' then Inl (Errorf ''file name is required'' [])
     else if fc_data f = [] then Inl (Errorf ''file data is required'' [])
     else Inr (FormFile name (if fc_content_type f = '''' then f\<lparr>fc_content_type := ''application/octet-stream''\<rparr> else f)))"

text \<open>\<open>written\<close> is what the caller's function writes; the result is a body with its content type.\<close>

definition encodeMultipart :: "(form_part list \<Rightarrow> bytes \<times> string) \<Rightarrow> agent_error + form_part list \<Rightarrow> agent_error + (bytes \<times> string)" where
  "encodeMultipart format written = (case written of
     Inl e \<Rightarrow> Inl (Wrapped ''openai: encode multipart request: %w'' [] e) | Inr parts \<Rightarrow> Inr (format parts))"

definition requestMultipartJSON :: "chat_env \<Rightarrow> chat_model option \<Rightarrow> (form_part list \<Rightarrow> bytes \<times> string) \<Rightarrow> string \<Rightarrow> string \<Rightarrow>
    agent_error + form_part list \<Rightarrow> (bytes \<Rightarrow> 'o option) option \<Rightarrow> 'o \<Rightarrow> chat_log \<times> (chat_failure + 'o)" where
  "requestMultipartJSON env md format verb path written decode zero = (case encodeMultipart format written of
     Inl e \<Rightarrow> ([], Inl (ChatFailed e))
   | Inr (body, contentType) \<Rightarrow> requestEncodedJSON env md \<lparr>rc_method = verb, rc_path = path, rc_body = Some body,
       rc_content_type = contentType, rc_accept = ''''\<rparr> decode zero)"

definition requestMultipartText :: "chat_env \<Rightarrow> chat_model option \<Rightarrow> (form_part list \<Rightarrow> bytes \<times> string) \<Rightarrow> string \<Rightarrow>
    agent_error + form_part list \<Rightarrow> chat_log \<times> (chat_failure + bytes)" where
  "requestMultipartText env md format path written = (case md of
     None \<Rightarrow> ([], Inl (ChatFailed (Errorf ''openai: model is nil'' [])))
   | Some model \<Rightarrow>
       (case encodeMultipart format written of
          Inl e \<Rightarrow> ([], Inl (ChatFailed e))
        | Inr (body, contentType) \<Rightarrow> runtime_body env model \<lparr>rc_method = ''POST'', rc_path = path, rc_body = Some body,
            rc_content_type = contentType, rc_accept = ''text/plain''\<rparr>))"

section \<open>Media\<close>

text \<open>The body is passed on unread, with the error that its reader gives at the end.\<close>

record media =
  mi_body :: bytes
  mi_body_err :: "agent_error option"
  mi_content_type :: string
  mi_content_length :: int
  mi_header :: "(string \<times> string list) list"

definition requestMedia :: "chat_env \<Rightarrow> chat_model option \<Rightarrow> runtime_call \<Rightarrow> chat_log \<times> (chat_failure + media)" where
  "requestMedia env md call = (case md of
     None \<Rightarrow> ([], Inl (ChatFailed (Errorf ''openai: model is nil'' [])))
   | Some model \<Rightarrow>
       (case chat_send env model (newRuntimeRequest model call) ''openai: request: %w'' of
          (log, Inl f) \<Rightarrow> (log, Inl f)
        | (log, Inr r) \<Rightarrow>
            (log, if successfulStatus (hr_status r)
               then Inr \<lparr>mi_body = hr_body r, mi_body_err = hr_body_err r, mi_content_type = hr_content_type r,
                 mi_content_length = hr_content_length r, mi_header = hr_header r\<rparr>
               else Inl (ChatRefused (runtime_refusal (hm_api_key model) (hr_status r) (take maxTextBytes (hr_body r)))))))"

section \<open>Server-sent events\<close>

text \<open>The type of an event that was read, and its data so far.\<close>

record event_state =
  ev_type :: string
  ev_data :: string

definition no_event_state :: event_state where
  "no_event_state = \<lparr>ev_type = '''', ev_data = ''''\<rparr>"

text \<open>
  The header of an event, whose errors are ignored: a member that does not fit leaves the field as
  it is.
\<close>

definition header_type :: "bytes \<Rightarrow> string" where
  "header_type raw = (case parse_json raw of
     Some (JObject kvs) \<Rightarrow>
       fold (\<lambda>(k, v) old. if fold_name (unquote k) = fold_name ''type''
         then (case v of JString r \<Rightarrow> unquote r | _ \<Rightarrow> old) else old) kvs ''''
   | _ \<Rightarrow> '''')"

text \<open>
  The closure \<open>emit\<close>: \<open>Inl\<close> ends the stream, with what was yielded and the error that is yielded
  last, if any; \<open>wants\<close> is the answer of the consumer to the last event.
\<close>

type_synonym event_outcome = "runtime_event list \<times> agent_error option"

definition emit_runtime :: "(runtime_event list \<Rightarrow> bool) \<Rightarrow> event_state \<Rightarrow> runtime_event list \<Rightarrow>
    event_outcome + (event_state \<times> runtime_event list)" where
  "emit_runtime wants st out =
    (let payload = trim_space (ev_data st) in
     if payload = '''' then Inr (no_event_state, out)
     else if payload = ''[DONE]'' then Inl (out, None)
     else if \<not> json_valid payload then Inl (out, Some (Errorf ''openai: stream event is invalid JSON'' []))
     else
       (let kind = (if header_type payload = '''' then ev_type st else header_type payload);
            out1 = out @ [\<lparr>re_type = kind, re_data = payload\<rparr>]
        in if wants out1 then Inr (no_event_state, out1) else Inl (out1, None)))"

definition consumeRuntimeEventLine :: "(runtime_event list \<Rightarrow> bool) \<Rightarrow> string \<Rightarrow> event_state \<Rightarrow> runtime_event list \<Rightarrow>
    event_outcome + (event_state \<times> runtime_event list)" where
  "consumeRuntimeEventLine wants line st out =
    (if line = '''' then emit_runtime wants st out
     else if has_prefix line ''event:'' then Inr (st\<lparr>ev_type := trim_space (drop 6 line)\<rparr>, out)
     else if \<not> has_prefix line ''data:'' then Inr (st, out)
     else Inr (st\<lparr>ev_data := (if ev_data st \<noteq> '''' then ev_data st @ [newline] else ev_data st) @ trim_space (drop 5 line)\<rparr>, out))"

fun runtime_lines :: "(runtime_event list \<Rightarrow> bool) \<Rightarrow> string list \<Rightarrow> agent_error option \<Rightarrow> event_state \<Rightarrow> runtime_event list \<Rightarrow> event_outcome" where
  "runtime_lines wants [] err st out = (case err of
     Some e \<Rightarrow> (out, Some (Wrapped ''openai: read stream: %w'' [] e))
   | None \<Rightarrow>
       if ev_data st = '''' then (out, None)
       else (case emit_runtime wants st out of Inl result \<Rightarrow> result | Inr (_, out1) \<Rightarrow> (out1, None)))"
| "runtime_lines wants (line # lines) err st out = (case consumeRuntimeEventLine wants line st out of
     Inl result \<Rightarrow> result | Inr (st1, out1) \<Rightarrow> runtime_lines wants lines err st1 out1)"

definition streamEncodedJSON :: "chat_env \<Rightarrow> chat_model option \<Rightarrow> runtime_call \<Rightarrow> (runtime_event list \<Rightarrow> bool) \<Rightarrow>
    chat_log \<times> runtime_event list \<times> chat_failure option" where
  "streamEncodedJSON env md call wants = (case md of
     None \<Rightarrow> ([], [], Some (ChatFailed (Errorf ''openai: model is nil'' [])))
   | Some model \<Rightarrow>
       (case chat_send env model (newRuntimeRequest model (call\<lparr>rc_accept := ''text/event-stream''\<rparr>)) ''openai: stream request: %w'' of
          (log, Inl f) \<Rightarrow> (log, [], Some f)
        | (log, Inr r) \<Rightarrow>
            if \<not> successfulStatus (hr_status r)
            then (log, [], Some (ChatRefused (runtime_refusal (hm_api_key model) (hr_status r) (take maxTextBytes (hr_body r)))))
            else
              (let (lines, err) = scan_lines maxChatFrameBytes (hr_body_err r) (hr_body r);
                   (out, e) = runtime_lines wants lines err no_event_state []
               in (log, out, map_option ChatFailed e))))"

definition streamJSON :: "chat_env \<Rightarrow> chat_model option \<Rightarrow> string \<Rightarrow> bytes \<Rightarrow> string \<Rightarrow> (runtime_event list \<Rightarrow> bool) \<Rightarrow>
    chat_log \<times> runtime_event list \<times> chat_failure option" where
  "streamJSON env md path body contentType wants = streamEncodedJSON env md
     \<lparr>rc_method = ''POST'', rc_path = path, rc_body = Some body, rc_content_type = contentType, rc_accept = ''''\<rparr> wants"

end
