(* ===== verification/Chat_Transcript.thy ===== *)
theory Chat_Transcript
  imports Chat_Calls Codex_Replay
begin

text \<open>
  Which conversations the encoder of the chat completions endpoint accepts and what it makes of
  them: \<open>encodes_chat_iff\<close> states it without the sets of the encoder, over the turns of a
  conversation, of which those of \<open>Codex_Transcript\<close> are an instance.
\<close>

section \<open>Turns\<close>

text \<open>
  A conversation one message at a time, for any contract of a message that asks: \<open>pending\<close> are the
  calls that wait for an answer, \<open>seen\<close> the identifiers of all calls so far.
\<close>

fun turns :: "(string set \<Rightarrow> chat_message \<Rightarrow> bool) \<Rightarrow> string list \<Rightarrow> string set \<Rightarrow> chat_message list \<Rightarrow> bool" where
  "turns ok pending seen [] = (pending = [])"
| "turns ok pending seen (m # ms) =
    (if pending = [] then ok seen m \<and> turns ok (call_ids m) (seen \<union> set (call_ids m)) ms
     else answer_ok m \<and> cm_tool_call_id m \<in> set pending \<and> turns ok (remove1 (cm_tool_call_id m) pending) seen ms)"

lemma answered_turns: "answered pending seen ms = turns message_ok pending seen ms"
  by (induction ms arbitrary: pending seen) auto

lemma turns_mono:
  assumes "\<And>seen m. m \<in> set ms \<Longrightarrow> ok seen m \<Longrightarrow> ok' seen m" and "turns ok pending seen ms"
  shows "turns ok' pending seen ms"
  using assms by (induction ms arbitrary: pending seen) (auto split: if_split_asm)

lemma turns_append:
  "turns ok pending seen ms \<Longrightarrow>
    turns ok pending seen (ms @ rest) \<longleftrightarrow> turns ok [] (seen \<union> set (concat (map call_ids ms))) rest"
proof (induction ms arbitrary: pending seen)
  case (Cons m ms)
  show ?case
  proof (cases "pending = []")
    case True
    with Cons show ?thesis by (simp add: Un_assoc)
  next
    case False
    with Cons have "call_ids m = []" by (auto simp: answer_ok_def call_ids_def)
    with False Cons show ?thesis by simp
  qed
qed simp

lemma turns_answers:
  assumes "mset (map cm_tool_call_id answers) = mset pending" and "\<forall>a \<in> set answers. answer_ok a"
  shows "turns ok pending seen answers"
  using assms
proof (induction answers arbitrary: pending)
  case (Cons a answers)
  from Cons.prems(1) have a: "cm_tool_call_id a \<in> set pending" by (metis list.set_intros(1) list.simps(9) mset_eq_setD)
  moreover have "mset (map cm_tool_call_id answers) = mset (remove1 (cm_tool_call_id a) pending)"
    using Cons.prems(1) by (metis add_mset_remove_trivial list.simps(9) mset.simps(2) mset_remove1)
  ultimately show ?case using Cons by auto
qed simp

section \<open>Messages\<close>

definition chat_ok :: "string set \<Rightarrow> chat_message \<Rightarrow> bool" where
  "chat_ok seen m \<longleftrightarrow> role_text (cm_role m) \<noteq> '''' \<and> cm_role m \<noteq> RoleTool \<and> cm_tool_call_id m = '''' \<and>
    (cm_tool_calls m \<noteq> [] \<longrightarrow> cm_role m = RoleAssistant) \<and> plain m \<and>
    (\<forall>c \<in> set (cm_tool_calls m). call_ok seen c) \<and> distinct (call_ids m)"

definition chat_conversation :: "chat_message list \<Rightarrow> bool" where
  "chat_conversation ms = turns chat_ok [] {} ms"

text \<open>What is sent for a message: its role, its text, its calls and the call that it answers.\<close>

definition chat_call_of :: "call \<Rightarrow> chat_call" where
  "chat_call_of c = \<lparr>cc_id = cl_id c, cc_type = ''function'', cc_function = \<lparr>cf_name = cl_name c, cf_description = '''',
     cf_parameters = None, cf_arguments = call_arguments c\<rparr>\<rparr>"

definition chat_item_of :: "chat_message \<Rightarrow> chat_item" where
  "chat_item_of m = \<lparr>xm_role = role_text (cm_role m), xm_content = concat (map pt_text (cm_parts m)),
     xm_calls = map chat_call_of (cm_tool_calls m), xm_call_id = cm_tool_call_id m\<rparr>"

section \<open>The encoder\<close>

lemma chat_parts_Inr: "chat_parts ps = Inr v \<longleftrightarrow>
    (\<forall>p \<in> set ps. pt_type p = PartText \<and> pt_ref p = None) \<and> v = concat (map pt_text ps)"
  by (induction ps arbitrary: v) (auto simp: rbind_Inr_iff)

lemma chat_text_Inr: "chat_text m = Inr v \<longleftrightarrow> plain m \<and> v = concat (map pt_text (cm_parts m))"
  by (simp add: chat_text_def plain_def chat_parts_Inr)

lemma chat_arguments_Inr: "chat_arguments i c en = Inr a \<longleftrightarrow> call_ok (set (xe_seen en)) c \<and> a = call_arguments c"
  by (auto simp: chat_arguments_def call_ok_def call_arguments_def)

lemma call_ok_insert: "call_ok (insert k seen) c \<longleftrightarrow> cl_id c \<noteq> k \<and> call_ok seen c"
  by (auto simp: call_ok_def)

lemma chat_calls_Inr:
  "set (xe_pending en) \<subseteq> set (xe_seen en) \<Longrightarrow>
    chat_calls i cs en = Inr (items, en1) \<longleftrightarrow>
    (\<forall>c \<in> set cs. call_ok (set (xe_seen en)) c) \<and> distinct (map cl_id cs) \<and> items = map chat_call_of cs \<and>
    en1 = en\<lparr>xe_seen := rev (map cl_id cs) @ xe_seen en, xe_pending := rev (map cl_id cs) @ xe_pending en\<rparr>"
proof (induction cs arbitrary: en items en1)
  case (Cons c cs)
  let ?en = "en\<lparr>xe_seen := List.insert (cl_id c) (xe_seen en), xe_pending := List.insert (cl_id c) (xe_pending en)\<rparr>"
  have sub: "set (xe_pending ?en) \<subseteq> set (xe_seen ?en)" using Cons.prems by auto
  show ?case
  proof (cases "call_ok (set (xe_seen en)) c")
    case True
    then have new: "cl_id c \<notin> set (xe_seen en)" "cl_id c \<notin> set (xe_pending en)" using Cons.prems by (auto simp: call_ok_def)
    with Cons.IH [OF sub] True show ?thesis
      by (auto simp: rbind_Inr_iff chat_arguments_Inr call_ok_insert chat_call_of_def) (metis imageI)+
  next
    case False
    then show ?thesis by (auto simp: rbind_Inr_iff chat_arguments_Inr)
  qed
next
  case Nil
  show ?case by (cases en) auto
qed

text \<open>The encoder holds the calls that wait, those that were answered, and all of them.\<close>

definition tracks :: "chat_encoder \<Rightarrow> string list \<Rightarrow> string set \<Rightarrow> bool" where
  "tracks en pending seen \<longleftrightarrow> set (xe_pending en) = set pending \<and> distinct (xe_pending en) \<and> distinct pending \<and>
    set (xe_seen en) = seen \<and> set pending \<subseteq> seen \<and> set (xe_completed en) \<inter> set pending = {} \<and>
    set (xe_completed en) \<subseteq> seen \<and> '''' \<notin> seen"

lemma tracks_pending: "tracks en pending seen \<Longrightarrow> xe_pending en = [] \<longleftrightarrow> pending = []"
  by (auto simp: tracks_def)

lemma asks:
  assumes "tracks en [] seen"
  shows "(\<exists>en1. chat_encode i m en = Inr (item, en1)) \<longleftrightarrow> chat_ok seen m \<and> item = chat_item_of m"
    and "chat_encode i m en = Inr (item, en1) \<Longrightarrow> tracks en1 (call_ids m) (seen \<union> set (call_ids m))"
proof -
  from assms have p: "xe_pending en = []" "set (xe_seen en) = seen" by (auto simp: tracks_def)
  then have calls: "chat_calls i (cm_tool_calls m) en = Inr (cs, en1) \<longleftrightarrow>
      (\<forall>c \<in> set (cm_tool_calls m). call_ok seen c) \<and> distinct (call_ids m) \<and> cs = map chat_call_of (cm_tool_calls m) \<and>
      en1 = en\<lparr>xe_seen := rev (call_ids m) @ xe_seen en, xe_pending := rev (call_ids m) @ xe_pending en\<rparr>" for cs en1
    using chat_calls_Inr [of en i "cm_tool_calls m"] by (simp add: call_ids_def)
  have no_tool: "\<not> (\<exists>x. encode_tool_message i m en = Inr x)" by (auto simp: encode_tool_message_def p rbind_Inr_iff Let_def)
  show "(\<exists>en1. chat_encode i m en = Inr (item, en1)) \<longleftrightarrow> chat_ok seen m \<and> item = chat_item_of m"
    using no_tool
    by (auto simp: chat_encode_def p encode_model_message_def rbind_Inr_iff calls chat_text_Inr chat_ok_def chat_item_of_def)
  assume e: "chat_encode i m en = Inr (item, en1)"
  with no_tool have en1: "en1 = en\<lparr>xe_seen := rev (call_ids m) @ xe_seen en, xe_pending := rev (call_ids m) @ xe_pending en\<rparr>"
    and ok: "\<forall>c \<in> set (cm_tool_calls m). call_ok seen c" "distinct (call_ids m)"
    by (auto simp: chat_encode_def p encode_model_message_def rbind_Inr_iff calls split: if_split_asm)
  have "set (call_ids m) \<inter> seen = {}" "'''' \<notin> set (call_ids m)" using ok(1) by (auto simp: call_ids_def call_ok_def)
  with assms ok(2) show "tracks en1 (call_ids m) (seen \<union> set (call_ids m))" by (auto simp: tracks_def en1)
qed

lemma answers:
  assumes t: "tracks en pending seen" and "pending \<noteq> []"
  shows "(\<exists>en1. chat_encode i m en = Inr (item, en1)) \<longleftrightarrow>
      answer_ok m \<and> cm_tool_call_id m \<in> set pending \<and> item = chat_item_of m"
    and "chat_encode i m en = Inr (item, en1) \<Longrightarrow> tracks en1 (remove1 (cm_tool_call_id m) pending) seen"
proof -
  have p: "xe_pending en \<noteq> []" using assms tracks_pending by blast
  have "cm_tool_call_id m \<in> set pending \<Longrightarrow> cm_tool_call_id m \<noteq> '''' \<and> cm_tool_call_id m \<notin> set (xe_completed en)"
    using t by (auto simp: tracks_def)
  moreover have "set (xe_pending en) = set pending" using t by (simp add: tracks_def)
  ultimately have e: "chat_encode i m en = Inr (it, en1) \<longleftrightarrow>
      answer_ok m \<and> cm_tool_call_id m \<in> set pending \<and> it = chat_item_of m \<and>
      en1 = en\<lparr>xe_pending := remove1 (cm_tool_call_id m) (xe_pending en),
        xe_completed := List.insert (cm_tool_call_id m) (xe_completed en)\<rparr>" for it en1
    using p by (auto simp: chat_encode_def encode_tool_message_def Let_def rbind_Inr_iff chat_text_Inr answer_ok_def chat_item_of_def)
  then show "(\<exists>en1. chat_encode i m en = Inr (item, en1)) \<longleftrightarrow>
      answer_ok m \<and> cm_tool_call_id m \<in> set pending \<and> item = chat_item_of m" by auto
  assume "chat_encode i m en = Inr (item, en1)"
  with e [of item en1] t show "tracks en1 (remove1 (cm_tool_call_id m) pending) seen"
    by (auto simp: tracks_def)
qed

lemma chained: "(\<And>e. R e \<Longrightarrow> S e \<longleftrightarrow> Q) \<Longrightarrow> (\<exists>e. R e) \<longleftrightarrow> P \<Longrightarrow> (\<exists>e. R e \<and> S e) \<longleftrightarrow> P \<and> Q"
  by blast

lemma chat_items_Inr:
  "tracks en pending seen \<Longrightarrow>
    (\<exists>en1. chat_items i ms en = Inr (items, en1) \<and> xe_pending en1 = []) \<longleftrightarrow>
    turns chat_ok pending seen ms \<and> items = map chat_item_of ms"
proof (induction ms arbitrary: i en pending seen items)
  case Nil
  then show ?case using tracks_pending by auto
next
  case (Cons m ms)
  have step: "chat_items i (m # ms) en = Inr (items, en1) \<longleftrightarrow> (\<exists>item rest en2. items = item # rest \<and>
      chat_encode i m en = Inr (item, en2) \<and> chat_items (Suc i) ms en2 = Inr (rest, en1))" for en1
    by (auto simp: rbind_Inr_iff split_def)
  have split: "(\<exists>en1. chat_items i (m # ms) en = Inr (items, en1) \<and> xe_pending en1 = []) \<longleftrightarrow>
      (\<exists>item rest. items = item # rest \<and> (\<exists>en2. chat_encode i m en = Inr (item, en2) \<and>
        (\<exists>en1. chat_items (Suc i) ms en2 = Inr (rest, en1) \<and> xe_pending en1 = [])))"
    unfolding step by blast
  show ?case
  proof (cases "pending = []")
    case True
    with Cons.prems have t: "tracks en [] seen" by simp
    have "(\<exists>en2. chat_encode i m en = Inr (item, en2) \<and> (\<exists>en1. chat_items (Suc i) ms en2 = Inr (rest, en1) \<and> xe_pending en1 = [])) \<longleftrightarrow>
        (chat_ok seen m \<and> item = chat_item_of m) \<and> turns chat_ok (call_ids m) (seen \<union> set (call_ids m)) ms \<and> rest = map chat_item_of ms"
      for item rest
      by (rule chained [OF _ asks(1) [OF t]]) (rule Cons.IH [OF asks(2) [OF t]])
    with split True show ?thesis by auto
  next
    case False
    have "(\<exists>en2. chat_encode i m en = Inr (item, en2) \<and> (\<exists>en1. chat_items (Suc i) ms en2 = Inr (rest, en1) \<and> xe_pending en1 = [])) \<longleftrightarrow>
        (answer_ok m \<and> cm_tool_call_id m \<in> set pending \<and> item = chat_item_of m) \<and>
        turns chat_ok (remove1 (cm_tool_call_id m) pending) seen ms \<and> rest = map chat_item_of ms"
      for item rest
      by (rule chained [OF _ answers(1) [OF Cons.prems False]]) (rule Cons.IH [OF answers(2) [OF Cons.prems False]])
    with split False show ?thesis by auto
  qed
qed

lemma encodes_chat_iff: "encodeChatMessages ms = Inr items \<longleftrightarrow> chat_conversation ms \<and> items = map chat_item_of ms"
proof -
  have "tracks new_chat_encoder [] {}" by (simp add: tracks_def new_chat_encoder_def)
  from chat_items_Inr [OF this, of 0 ms items] show ?thesis
    by (auto simp: encodeChatMessages_def rbind_Inr_iff chat_conversation_def split: if_split_asm)
qed

section \<open>Conversations of the two providers\<close>

text \<open>A message that the Codex encoder accepts and that holds no opaque item is accepted here as well.\<close>

lemma message_ok_chat: "plain m \<Longrightarrow> message_ok seen m \<Longrightarrow> chat_ok seen m"
  by (auto simp: message_ok_def chat_ok_def calls_ok_def call_ids_def split: if_split_asm)

lemma conversation_portable:
  assumes "conversation {} ms" and "\<forall>m \<in> set ms. plain m"
  shows "chat_conversation ms"
proof -
  from assms(1) have "turns message_ok [] {} ms" by (simp add: conversation_answered answered_turns)
  then show ?thesis unfolding chat_conversation_def by (rule turns_mono [rotated]) (use assms(2) message_ok_chat in blast)
qed

section \<open>The message of a response\<close>

lemma response_calls_of:
  "response_call_list provider cs seen = Inr calls \<Longrightarrow>
    map cl_id calls = map cc_id cs \<and> distinct (map cl_id calls) \<and> set (map cl_id calls) \<inter> set seen = {} \<and>
    (\<forall>c \<in> set calls. cl_id c \<noteq> '''' \<and> cl_name c \<noteq> '''' \<and> cl_arguments_ref c = '''' \<and> cl_source_ref c = provider \<and>
      json_valid (cl_arguments c)) \<and>
    map (\<lambda>c. (cl_name c, cl_arguments c)) calls = map (\<lambda>c. (cf_name (cc_function c), cf_arguments (cc_function c))) cs"
proof (induction provider cs seen arbitrary: calls rule: response_call_list.induct)
  case (2 provider c cs seen)
  then obtain rest where r: "response_call_list provider cs (cc_id c # seen) = Inr rest"
    "calls = \<lparr>cl_id = cc_id c, cl_name = cf_name (cc_function c), cl_arguments = cf_arguments (cc_function c),
       cl_arguments_ref = '''', cl_source_ref = provider\<rparr> # rest"
    "cc_id c \<noteq> ''''" "cf_name (cc_function c) \<noteq> ''''" "cc_id c \<notin> set seen" "json_valid (cf_arguments (cc_function c))"
    by (auto simp: rbind_Inr_iff split: if_split_asm)
  note rest = 2(1) [OF _ _ _ r(1)]
  from rest r(3-) have "map cl_id rest = map cc_id cs" by simp
  then have "cc_id ` set cs = cl_id ` set rest" by (metis set_map)
  with rest r(2-) show ?case by auto
qed simp

end
