(* ===== verification/Chat_Proofs.thy ===== *)
theory Chat_Proofs
  imports Chat_Transcript Codex_Model_Proofs
begin

text \<open>
  What holds of a call of the chat completions endpoint: its attempts and delays, the redaction of
  the key, the message it returns, and what a stream delivers, against the chunks of its body.
\<close>

section \<open>The attempts of a call\<close>

lemma policy_steps_limit: "policy_steps n limit d \<le> limit"
  by (induction n arbitrary: d) auto

lemma chat_retry_delay_limit: "chat_retry_delay p resp attempt now \<le> max maximumRetryAfter (rp_max p)"
  using policy_steps_limit [of _ "rp_max p"] by (auto simp: chat_retry_delay_def policy_backoff_def le_max_iff_disj split: option.split)


definition is_request :: "chat_effect \<Rightarrow> bool" where
  "is_request e = (case e of Requested _ \<Rightarrow> True | Delayed _ \<Rightarrow> False)"

definition chat_effect_ok :: "retry_policy \<Rightarrow> http_request \<Rightarrow> chat_effect \<Rightarrow> bool" where
  "chat_effect_ok p request e = (case e of Requested r \<Rightarrow> r = request | Delayed d \<Rightarrow> d \<le> max maximumRetryAfter (rp_max p))"

text \<open>How the attempts end: with the context, or with the answer to the last request.\<close>

definition attempts_end :: "chat_env \<Rightarrow> string \<Rightarrow> bool \<Rightarrow> chat_log \<Rightarrow> chat_http option \<Rightarrow> agent_error option \<Rightarrow> bool" where
  "attempts_end env key exhausted log resp err \<longleftrightarrow>
    (resp = None \<and> err \<noteq> None \<and> oe_wait env log = err) \<or>
    (is_request (last log) \<and> resp = fst (oe_send env log) \<and> err = map_option (safe_error env key) (snd (oe_send env log)) \<and>
      (exhausted \<or> oe_ctx_err env log \<or>
       (err = None \<and> (case resp of None \<Rightarrow> True | Some r \<Rightarrow> \<not> retryableStatus (hr_status r)))))"

text \<open>The requests of a log; every effect between two of them is a delay.\<close>

definition requests :: "chat_log \<Rightarrow> nat" where
  "requests log = length (filter is_request log)"

lemma requests_simps [simp]:
  "requests [] = 0" "requests (Requested r # log) = Suc (requests log)" "requests (Delayed d # log) = requests log"
  "requests (log @ log') = requests log + requests log'"
  by (simp_all add: requests_def is_request_def)

lemma chat_attempts_bounds:
  "chat_attempts env p key request (Suc left) attempt prior log = (log', resp, err) \<Longrightarrow>
    \<exists>new. log' = log @ new \<and> list_all (chat_effect_ok p request) new \<and> requests new \<le> Suc left \<and>
      length new \<le> 2 * requests new \<and> length new \<le> Suc (2 * left) \<and> attempts_end env key (requests new = Suc left) log' resp err"
proof (induction left arbitrary: attempt prior log)
  case 0
  obtain r e where s: "oe_send env (log @ [Requested request]) = (r, e)" by force
  with 0 show ?case
    by (intro exI [of _ "[Requested request]"])
      (auto simp: should_retry_def Let_def attempts_end_def chat_effect_ok_def is_request_def)
next
  case (Suc left)
  let ?log1 = "log @ [Requested request]"
  obtain r e where s: "oe_send env ?log1 = (r, e)" by force
  let ?d = "chat_retry_delay p r attempt (oe_now env ?log1)"
  let ?log2 = "?log1 @ [Delayed ?d]"
  have ok: "list_all (chat_effect_ok p request) [Requested request, Delayed ?d]"
    using chat_retry_delay_limit by (simp add: chat_effect_ok_def)
  note step = Suc.prems [unfolded chat_attempts.simps(2) [of _ _ _ _ "Suc left"] Let_def s, simplified]
  consider "\<not> should_retry (Suc left) (oe_ctx_err env ?log1) r e"
    | x where "should_retry (Suc left) (oe_ctx_err env ?log1) r e" "oe_wait env ?log2 = Some x"
    | "should_retry (Suc left) (oe_ctx_err env ?log1) r e" "oe_wait env ?log2 = None" by fastforce
  then show ?case
  proof cases
    case 1
    with step s ok show ?thesis
      by (intro exI [of _ "[Requested request]"])
        (auto simp: should_retry_def attempts_end_def is_request_def split: option.split)
  next
    case (2 x)
    with step s ok show ?thesis
      by (intro exI [of _ "[Requested request, Delayed ?d]"]) (auto simp: attempts_end_def)
  next
    case 3
    with step have "chat_attempts env p key request (Suc left) (attempt + 1) e ?log2 = (log', resp, err)" by simp
    from Suc.IH [OF this] obtain new where new: "log' = ?log2 @ new" "list_all (chat_effect_ok p request) new"
      "requests new \<le> Suc left" "length new \<le> 2 * requests new" "length new \<le> Suc (2 * left)"
      "attempts_end env key (requests new = Suc left) log' resp err" by blast
    with ok show ?thesis by (intro exI [of _ "[Requested request, Delayed ?d] @ new"]) auto
  qed
qed

section \<open>The key\<close>

lemma take_keeps: "\<not> sublist t s \<Longrightarrow> \<not> sublist t (take n s)"
  using sublist_order.order_trans sublist_take by blast

lemma redact_key_safe: "redactable key \<Longrightarrow> \<not> contains_sub (redact_key key s) key"
  using redact_removes [of key s] by (simp add: redact_key_def contains_sublist redactable_def)

lemma chat_refusal_safe: "redactable key \<Longrightarrow> \<not> contains_sub (er_body (chat_refusal key resp)) key"
  using redact_key_safe [of key] take_keeps [of key]
  by (simp add: chat_refusal_def chat_bounded_def contains_sublist)

section \<open>A call\<close>

text \<open>A client that gives an answer or an error, as \<open>http.Client\<close> does.\<close>

definition client_answers :: "chat_env \<Rightarrow> bool" where
  "client_answers env \<longleftrightarrow> (\<forall>log. fst (oe_send env log) \<noteq> None \<or> snd (oe_send env log) \<noteq> None)"

lemma chat_do_answers:
  assumes "0 < rp_max_attempts (hm_retry md)" and "client_answers env" and "chat_do env md request = (log, resp, err)"
  shows "resp \<noteq> None \<or> err \<noteq> None"
proof -
  obtain n where n: "nat (rp_max_attempts (hm_retry md)) = Suc n" using assms(1) by (metis gr0_conv_Suc zero_less_nat_eq)
  from chat_attempts_bounds [OF assms(3) [unfolded chat_do_def n]] assms(2) show ?thesis
    by (auto simp: attempts_end_def client_answers_def)
qed

lemma chat_send_safe:
  assumes "0 < rp_max_attempts (hm_retry md)" and "client_answers env" and "chat_send env md request format = (log, Inl f)"
  shows "f \<noteq> ChatPanic"
  using assms chat_do_answers [OF assms(1,2)]
  by (fastforce simp: chat_send_def split: option.split_asm prod.split_asm)

lemma chat_open_safe:
  assumes "0 < rp_max_attempts (hm_retry md)" and "client_answers env" and "chat_open env md payload format = (log, Inl f)"
  shows "f \<noteq> ChatPanic"
  using assms chat_send_safe [OF assms(1,2)]
  by (fastforce simp: chat_open_def split: sum.split_asm prod.split_asm if_split_asm)

lemma chat_open_Inr:
  assumes "chat_open env md payload format = (log, Inr resp)"
  shows "chat_do env md (chat_request_of md payload) = (log, Some resp, None) \<and> successfulStatus (hr_status resp)"
  using assms by (auto simp: chat_open_def chat_send_def split: option.split_asm prod.split_asm sum.split_asm if_split_asm)

lemma chat_Invoke_done:
  assumes "chat_Invoke env md rq config = (log, out, Inr a)"
  obtains model payload resp where "md = Some model" "chat_payload rq False = Inr payload"
    "chat_open env model payload ''openai: invoke: %w'' = (log, Inr resp)"
    "chat_answer (hm_provider model) (hc_sinks config) resp [] = (out, Inr a)"
  using assms
  by (auto simp: chat_Invoke_def chat_prepare_def split: option.split_asm sum.split_asm prod.split_asm list.split_asm)

lemma chat_payload_encodes: "chat_payload rq stream = Inr payload \<Longrightarrow> \<exists>items. encodeChatMessages (mr_messages rq) = Inr items"
  by (auto simp: chat_payload_def new_chat_request_def rbind_Inr_iff)

lemma chat_answer_Inr:
  assumes "chat_answer provider sinks resp out = (out', Inr a)"
  obtains v choice where "read_chat_response resp = Inr v" "xs_choices v \<noteq> []" "choice = hd (xs_choices v)"
    "responseMessage provider (xc_message choice) = Inr (ma_message a, ma_intent a)"
    "ma_finish_reason a = xc_finish_reason choice" "ma_usage a = xs_usage v"
proof -
  from assms obtain v where v: "read_chat_response resp = Inr v"
    by (auto simp: chat_answer_def eff_bind_def pure_r_def split: sum.split_asm)
  moreover have "xs_choices v \<noteq> []" using v by (auto simp: read_chat_response_def split: if_split_asm option.split_asm)
  ultimately show thesis
    using assms
    by (intro that [of v "hd (xs_choices v)"])
      (auto simp: chat_answer_def eff_bind_def pure_r_def Let_def split: sum.split_asm prod.split_asm)
qed

text \<open>What the encoder sends again for the message of a response.\<close>

definition normal_call :: "chat_call \<Rightarrow> chat_call" where
  "normal_call c = c\<lparr>cc_type := ''function'', cc_function := (cc_function c)\<lparr>cf_description := '''', cf_parameters := None\<rparr>\<rparr>"

definition normal_item :: "chat_item \<Rightarrow> chat_item" where
  "normal_item m = m\<lparr>xm_role := ''assistant'', xm_call_id := '''', xm_calls := map normal_call (xm_calls m)\<rparr>"

lemma json_valid_nonempty: "json_valid a \<Longrightarrow> a \<noteq> []"
  by (auto simp: json_valid_def parse_json_def parse_tokens_def)

lemma response_call_items:
  "response_call_list provider cs seen = Inr calls \<Longrightarrow> map chat_call_of calls = map normal_call cs"
proof (induction provider cs seen arbitrary: calls rule: response_call_list.induct)
  case (2 provider c cs seen)
  then show ?case
    by (cases c, cases "cc_function c")
      (auto simp: rbind_Inr_iff chat_call_of_def normal_call_def call_arguments_def dest: json_valid_nonempty split: if_split_asm)
qed simp

lemma response_round_trip: "responseMessage provider item = Inr (m, intent) \<Longrightarrow> chat_item_of m = normal_item item"
  by (cases item) (auto simp: responseMessage_def Let_def rbind_Inr_iff chat_item_of_def normal_item_def assistant_message_def
    text_part_def response_call_items split: if_split_asm)

lemma response_chat_ok:
  assumes "responseMessage provider item = Inr (m, intent)" and "set (call_ids m) \<inter> seen = {}"
  shows "chat_ok seen m"
proof (cases "xm_calls item = []")
  case True
  with assms show ?thesis
    by (auto simp: responseMessage_def Let_def chat_ok_def assistant_message_def text_part_def plain_def call_ids_def)
next
  case False
  with assms(1) obtain calls where c: "response_call_list provider (xm_calls item) [] = Inr calls"
    "m = (assistant_message [text_part (xm_content item)])\<lparr>cm_tool_calls := calls\<rparr>"
    by (auto simp: responseMessage_def Let_def rbind_Inr_iff)
  from response_calls_of [OF c(1)] have "distinct (map cl_id calls)"
    "\<forall>c \<in> set calls. cl_id c \<noteq> '''' \<and> cl_name c \<noteq> '''' \<and> cl_arguments_ref c = '''' \<and> json_valid (cl_arguments c)" by blast+
  with assms(2) c(2) show ?thesis
    by (auto simp: chat_ok_def assistant_message_def text_part_def plain_def call_ids_def call_ok_def)
qed

lemma response_intent: "responseMessage provider item = Inr (m, intent) \<Longrightarrow>
    (intent = ToolCallIntent \<longleftrightarrow> cm_tool_calls m \<noteq> []) \<and> (intent = FinalIntent \<longleftrightarrow> cm_tool_calls m = [])"
proof (cases "xm_calls item = []")
  case False
  assume "responseMessage provider item = Inr (m, intent)"
  with False obtain calls where c: "response_call_list provider (xm_calls item) [] = Inr calls"
    "m = (assistant_message [text_part (xm_content item)])\<lparr>cm_tool_calls := calls\<rparr>" "intent = ToolCallIntent"
    by (auto simp: responseMessage_def Let_def rbind_Inr_iff)
  from response_calls_of [OF c(1)] False have "calls \<noteq> []" by (metis map_is_Nil_conv)
  with c show ?thesis by simp
qed (auto simp: responseMessage_def Let_def assistant_message_def)

lemma chat_conversation_extends:
  assumes "chat_conversation ms" and "chat_ok (set (concat (map call_ids ms))) m"
    and "mset (map cm_tool_call_id replies) = mset (call_ids m)" and "\<forall>a \<in> set replies. answer_ok a"
  shows "chat_conversation (ms @ m # replies)"
proof -
  have "turns chat_ok (call_ids m) (set (concat (map call_ids ms)) \<union> set (call_ids m)) replies"
    using assms(3,4) by (rule turns_answers)
  with assms(1,2) turns_append [of chat_ok "[]" "{}" ms "m # replies"] show ?thesis
    by (simp add: chat_conversation_def)
qed

end
