(* ===== verification/Chat_Streaming.thy ===== *)
theory Chat_Streaming
  imports Chat_Proofs
begin

text \<open>
  What \<open>InvokeStream\<close> delivers, against the chunks of the body: \<open>stream_accepted\<close> for sinks and a
  consumer that take everything, \<open>stream_ends\<close> for any, and \<open>stream_written\<close> for a body as a server
  writes it.
\<close>

section \<open>The chunks of the lines\<close>

definition chunk_finished :: "chat_chunk \<Rightarrow> bool" where
  "chunk_finished chunk = (case xk_choices chunk of [] \<Rightarrow> False | choice # _ \<Rightarrow> xt_finish_reason choice \<noteq> '''')"

definition chunk_text :: "chat_chunk \<Rightarrow> string" where
  "chunk_text chunk = (case xk_choices chunk of [] \<Rightarrow> '''' | choice # _ \<Rightarrow> xd_content (xt_delta choice))"

fun lines_chunks :: "string list \<Rightarrow> agent_error option \<Rightarrow> bool \<Rightarrow> chat_chunk list \<times> agent_error option" where
  "lines_chunks [] err terminal = ([], stream_end err terminal)"
| "lines_chunks (line # lines) err terminal = (case line_data line of
     None \<Rightarrow> lines_chunks lines err terminal
   | Some data \<Rightarrow>
       if data = ''[DONE]'' then ([], None)
       else case decode_chunk data of
           Inl e \<Rightarrow> ([], Some e)
         | Inr chunk \<Rightarrow> (let (chunks, e) = lines_chunks lines err (terminal \<or> chunk_finished chunk) in (chunk # chunks, e)))"

text \<open>A stream that ended as it should: with its marker, or after a chunk that is the last.\<close>

definition ends_properly :: "string list \<Rightarrow> agent_error option \<Rightarrow> bool" where
  "ends_properly lines err \<longleftrightarrow> Some ''[DONE]'' \<in> set (map line_data lines) \<or>
    (err = None \<and> (\<exists>data chunk. Some data \<in> set (map line_data lines) \<and> decode_chunk data = Inr chunk \<and> chunk_finished chunk))"

lemma lines_chunks_end: "snd (lines_chunks lines err terminal) = None \<Longrightarrow> ends_properly lines err \<or> (err = None \<and> terminal)"
proof (induction lines arbitrary: terminal)
  case Nil
  then show ?case by (auto simp: stream_end_def split: option.split_asm if_split_asm)
next
  case (Cons line lines)
  show ?case
  proof (cases "line_data line")
    case None
    with Cons show ?thesis by (auto simp: ends_properly_def)
  next
    case (Some data)
    show ?thesis
    proof (cases "data = ''[DONE]''")
      case True
      with Some show ?thesis by (simp add: ends_properly_def)
    next
      case False
      with Cons.prems Some obtain chunk where c: "decode_chunk data = Inr chunk"
        "snd (lines_chunks lines err (terminal \<or> chunk_finished chunk)) = None"
        by (auto split: sum.split_asm prod.split_asm)
      from Cons.IH [OF c(2)] c(1) Some show ?thesis by (auto simp: ends_properly_def)
    qed
  qed
qed

section \<open>Effects without a chunk of text\<close>

text \<open>The events of an effect leave what the consumer was given as it was.\<close>

definition unyielding :: "'a effect \<Rightarrow> bool" where
  "unyielding m \<longleftrightarrow> (\<forall>out. \<exists>new. fst (m out) = out @ new \<and> (\<forall>d \<in> set new. \<exists>i ev. d = Emitted i ev))"

lemma unyielding_pure: "unyielding (pure_r r)"
  by (simp add: unyielding_def pure_r_def)

lemma unyielding_bind: "unyielding m \<Longrightarrow> (\<And>x. unyielding (f x)) \<Longrightarrow> unyielding (eff_bind m f)"
proof -
  assume m: "unyielding m" and f: "\<And>x. unyielding (f x)"
  show ?thesis
    unfolding unyielding_def
  proof
    fix out
    obtain out1 r where e: "m out = (out1, r)" by force
    from m e obtain new where new: "out1 = out @ new" "\<forall>d \<in> set new. \<exists>i ev. d = Emitted i ev"
      unfolding unyielding_def by (metis fst_conv)
    show "\<exists>new. fst (eff_bind m f out) = out @ new \<and> (\<forall>d \<in> set new. \<exists>i ev. d = Emitted i ev)"
    proof (cases r)
      case (Inr x)
      from f [of x] obtain new' where "fst (f x out1) = out1 @ new'" "\<forall>d \<in> set new'. \<exists>i ev. d = Emitted i ev"
        unfolding unyielding_def by blast
      with e Inr new show ?thesis by (intro exI [of _ "new @ new'"]) (auto simp: eff_bind_def)
    qed (use e new in \<open>auto simp: eff_bind_def\<close>)
  qed
qed

lemma unyielding_emit: "unyielding (chat_emit sinks ev)"
proof -
  have "\<exists>new. fst (emit_from i ss ev out) = out @ new \<and> (\<forall>d \<in> set new. \<exists>i ev. d = Emitted i ev)" for i ss out
  proof (induction i ss ev out rule: emit_from.induct)
    case (3 i sink sinks ev out)
    show ?case
    proof (cases "sink out ev")
      case None
      from 3 [OF None] obtain new where "fst (emit_from (Suc i) sinks ev (out @ [Emitted i ev])) = (out @ [Emitted i ev]) @ new"
        "\<forall>d \<in> set new. \<exists>i ev. d = Emitted i ev" by blast
      with None show ?thesis by (intro exI [of _ "Emitted i ev # new"]) auto
    qed auto
  qed simp_all
  then show ?thesis by (simp add: unyielding_def chat_emit_def emitEvent_def)
qed

lemmas unyielding_steps = unyielding_pure unyielding_bind unyielding_emit

lemma unyielding_calls: "unyielding (emit_call_deltas provider sinks cs ids)"
  by (induction cs arbitrary: ids) (auto simp: emitToolCallDelta_def Let_def intro!: unyielding_steps)

lemma unyielding_chunk: "unyielding (emitStreamChunk env provider sinks chunk ids)"
  by (auto simp: emitStreamChunk_def intro!: unyielding_steps unyielding_calls split: list.split)

lemma unyielding_delta: "unyielding (emitDelta provider sinks value)"
  by (simp add: emitDelta_def unyielding_emit)

lemma unyielding_wanted:
  assumes "unyielding m" and "wanted wants out"
  shows "wanted wants (fst (m out))"
proof -
  from assms(1) obtain new where new: "fst (m out) = out @ new" "\<forall>d \<in> set new. \<exists>i ev. d = Emitted i ev"
    unfolding unyielding_def by blast
  have "wanted wants (out @ new)" using new(2) assms(2)
  proof (induction new rule: rev_induct)
    case (snoc d new)
    then show ?case using wanted_snoc [of wants "out @ new" d] by auto
  qed simp
  with new(1) show ?thesis by simp
qed

lemma emitStreamChunk_result:
  "emitStreamChunk env provider sinks chunk ids out = (out1, Inr (value, finished, ids1)) \<Longrightarrow>
    value = chunk_text chunk \<and> finished = chunk_finished chunk"
  by (auto simp: emitStreamChunk_def eff_bind_def pure_r_def chunk_text_def chunk_finished_def
      split: prod.split_asm sum.split_asm list.split_asm if_split_asm)

text \<open>
  Any consumer and any sinks: the consumer that refuses a chunk gets no further one, and a stream
  that ends without an error was refused or ended as it should.
\<close>

lemma stream_ends:
  "wanted wants out \<Longrightarrow> stream_lines env provider sinks wants lines err terminal ids out = (out', e) \<Longrightarrow>
    (wanted wants out' \<and> (e = None \<longrightarrow> snd (lines_chunks lines err terminal) = None)) \<or> (refused wants out' \<and> e = None)"
proof (induction lines arbitrary: terminal ids out)
  case (Cons line lines)
  show ?case
  proof (cases "line_data line")
    case None
    with Cons show ?thesis by auto
  next
    case (Some data)
    show ?thesis
    proof (cases "data = ''[DONE]'' \<or> (\<exists>x. decode_chunk data = Inl x)")
      case True
      with Cons.prems Some show ?thesis by auto
    next
      case False
      then obtain chunk where chunk: "data \<noteq> ''[DONE]''" "decode_chunk data = Inr chunk" by (cases "decode_chunk data") auto
      obtain out1 r where em: "emitStreamChunk env provider sinks chunk ids out = (out1, r)" by force
      have w1: "wanted wants out1" using unyielding_wanted [OF unyielding_chunk Cons.prems(1)] em by (metis fst_conv)
      note step = Cons.prems(2) [unfolded stream_lines.simps(2)]
      show ?thesis
      proof (cases r)
        case (Inl x)
        with Some chunk em step w1 show ?thesis by auto
      next
        case (Inr v)
        obtain piece finished ids1 where v: "v = (piece, finished, ids1)" by (cases v) auto
        with emitStreamChunk_result em Inr have fin: "finished = chunk_finished chunk" by blast
        have rest: "snd (lines_chunks (line # lines) err terminal) = snd (lines_chunks lines err (terminal \<or> finished))"
          using Some chunk fin by (simp add: split_def Let_def)
        show ?thesis
        proof (cases "piece = ''''")
          case True
          with Some chunk em step Inr v
          have "stream_lines env provider sinks wants lines err (terminal \<or> finished) ids1 out1 = (out', e)" by simp
          from Cons.IH [OF w1 this] rest show ?thesis by simp
        next
          case False
          obtain out2 r2 where d: "emitDelta provider sinks piece out1 = (out2, r2)" by force
          have w2: "wanted wants out2" using unyielding_wanted [OF unyielding_delta w1] d by (metis fst_conv)
          show ?thesis
          proof (cases r2)
            case (Inl x)
            with Some chunk em step Inr v False d w2 show ?thesis by auto
          next
            case r2: (Inr u)
            show ?thesis
            proof (cases "wants out2 piece")
              case True
              with w2 have w3: "wanted wants (out2 @ [Yielded piece])" by (simp add: wanted_snoc)
              from Some chunk em step Inr v False d r2 True
              have "stream_lines env provider sinks wants lines err (terminal \<or> finished) ids1 (out2 @ [Yielded piece]) = (out', e)"
                by simp
              from Cons.IH [OF w3 this] rest show ?thesis by simp
            next
              case no: False
              with Some chunk em step Inr v False d r2 have "out' = out2 @ [Yielded piece]" "e = None" by auto
              with w2 no show ?thesis by (auto simp: refused_def)
            qed
          qed
        qed
      qed
    qed
  qed
qed auto

section \<open>Sinks and a consumer that take everything\<close>

definition accepting :: "sink list \<Rightarrow> bool" where
  "accepting sinks \<longleftrightarrow> (\<forall>s \<in> set sinks. \<forall>out ev. s out ev = None)"

text \<open>Each event goes to each of \<open>n\<close> sinks in their order.\<close>

definition told :: "nat \<Rightarrow> model_event list \<Rightarrow> delivery list" where
  "told n evs = concat (map (\<lambda>ev. map (\<lambda>i. Emitted i ev) [0..<n]) evs)"

lemma told_simps [simp]: "told n [] = []" "told n (xs @ ys) = told n xs @ told n ys"
  by (simp_all add: told_def)

lemma emit_accepted: "accepting sinks \<Longrightarrow> chat_emit sinks ev out = (out @ told (length sinks) [ev], Inr ())"
proof -
  have "\<forall>s \<in> set ss. \<forall>out ev. s out ev = None \<Longrightarrow>
      emit_from i (map Some ss) ev out = (out @ map (\<lambda>k. Emitted k ev) [i..<i + length ss], Inr ())" for i ss out
  proof (induction ss arbitrary: i out)
    case (Cons a ss)
    then show ?case by (simp add: upt_conv_Cons del: upt_Suc)
  qed simp
  then show "accepting sinks \<Longrightarrow> ?thesis" by (simp add: accepting_def chat_emit_def emitEvent_def told_def)
qed

definition learn_id :: "chat_stream_call \<Rightarrow> tool_ids \<Rightarrow> tool_ids" where
  "learn_id c ids = (if sl_id c \<noteq> '''' then AList.update (sl_index c) (sl_id c) ids else ids)"

text \<open>The identifier of a delta is the last one that its index was given, or else its index.\<close>

definition delta_id :: "tool_ids \<Rightarrow> int \<Rightarrow> string" where
  "delta_id ids index = (case map_of ids index of Some v \<Rightarrow> if v = '''' then itoa index else v | None \<Rightarrow> itoa index)"

definition call_event :: "string \<Rightarrow> tool_ids \<Rightarrow> chat_stream_call \<Rightarrow> model_event" where
  "call_event provider ids c = chat_event provider ToolCallDelta (cf_arguments (sl_function c))
     (chat_bounded (delta_id ids (sl_index c))) (stream_call_payload c)"

fun call_events :: "string \<Rightarrow> chat_stream_call list \<Rightarrow> tool_ids \<Rightarrow> model_event list" where
  "call_events provider [] ids = []"
| "call_events provider (c # cs) ids = call_event provider (learn_id c ids) c # call_events provider cs (learn_id c ids)"

definition learn_ids :: "chat_stream_call list \<Rightarrow> tool_ids \<Rightarrow> tool_ids" where
  "learn_ids cs ids = fold learn_id cs ids"

lemma call_deltas_accepted:
  "accepting sinks \<Longrightarrow> emit_call_deltas provider sinks cs ids out =
    (out @ told (length sinks) (call_events provider cs ids), Inr (learn_ids cs ids))"
proof (induction cs arbitrary: ids out)
  case (Cons c cs)
  have "emitToolCallDelta provider sinks c ids out =
      (out @ told (length sinks) [call_event provider (learn_id c ids) c], Inr (learn_id c ids))"
    using Cons.prems
    by (simp add: emitToolCallDelta_def Let_def eff_bind_def pure_r_def emit_accepted learn_id_def call_event_def delta_id_def split: option.split)
  with Cons show ?case by (simp add: eff_bind_def learn_ids_def told_def)
qed (simp add: pure_r_def learn_ids_def)

definition chunk_calls :: "chat_chunk \<Rightarrow> chat_stream_call list" where
  "chunk_calls chunk = (case xk_choices chunk of [] \<Rightarrow> [] | choice # _ \<Rightarrow> xd_calls (xt_delta choice))"

text \<open>The events of a chunk in their order, with the usage as \<open>encode\<close> writes it.\<close>

definition chunk_events :: "(usage \<Rightarrow> bytes) \<Rightarrow> string \<Rightarrow> chat_chunk \<Rightarrow> tool_ids \<Rightarrow> model_event list" where
  "chunk_events encode provider chunk ids =
    (if xk_usage chunk = zero_usage then [] else [chat_event provider UsageEvent [] '''' (encode (xk_usage chunk))]) @
    (if chunk_finished chunk then [chat_event provider FinishEvent [] (xt_finish_reason (hd (xk_choices chunk))) []] else []) @
    call_events provider (chunk_calls chunk) ids @
    (if chunk_text chunk = '''' then [] else [chat_event provider MessageDelta [] (chat_bounded (chunk_text chunk)) []])"

fun delivered :: "(usage \<Rightarrow> bytes) \<Rightarrow> string \<Rightarrow> nat \<Rightarrow> chat_chunk list \<Rightarrow> tool_ids \<Rightarrow> delivery list" where
  "delivered encode provider n [] ids = []"
| "delivered encode provider n (chunk # chunks) ids =
    told n (chunk_events encode provider chunk ids) @ (if chunk_text chunk = '''' then [] else [Yielded (chunk_text chunk)]) @
    delivered encode provider n chunks (learn_ids (chunk_calls chunk) ids)"

lemma chunk_accepted:
  assumes "accepting sinks" and "oe_usage env (xk_usage chunk) = Inr (encode (xk_usage chunk))"
  shows "emitStreamChunk env provider sinks chunk ids out =
    (out @ told (length sinks) (if chunk_text chunk = '''' then chunk_events encode provider chunk ids
       else butlast (chunk_events encode provider chunk ids)),
     Inr (chunk_text chunk, chunk_finished chunk, learn_ids (chunk_calls chunk) ids))"
proof -
  have empty: "pure_r (Inr ()) out = (out, Inr ())" for out by (simp add: pure_r_def)
  show ?thesis
    using assms
    by (cases "xk_choices chunk")
      (auto simp: emitStreamChunk_def eff_bind_def pure_r_def wrap_error_def emit_accepted call_deltas_accepted chunk_events_def
        chunk_finished_def chunk_calls_def chunk_text_def learn_ids_def butlast_append told_def)
qed

lemma stream_accepted:
  assumes "accepting sinks" and "\<And>u. oe_usage env u = Inr (encode u)"
  shows "stream_lines env provider sinks (\<lambda>_ _. True) lines err terminal ids out =
    (let (chunks, e) = lines_chunks lines err terminal in (out @ delivered encode provider (length sinks) chunks ids, e))"
proof (induction lines arbitrary: terminal ids out)
  case (Cons line lines)
  show ?case
  proof (cases "line_data line")
    case None
    with Cons show ?thesis by simp
  next
    case (Some data)
    show ?thesis
    proof (cases "data = ''[DONE]'' \<or> (\<exists>x. decode_chunk data = Inl x)")
      case True
      with Some show ?thesis by auto
    next
      case False
      then obtain chunk where chunk: "data \<noteq> ''[DONE]''" "decode_chunk data = Inr chunk" by (cases "decode_chunk data") auto
      have ne: "chunk_text chunk \<noteq> '''' \<Longrightarrow> chunk_events encode provider chunk ids =
          butlast (chunk_events encode provider chunk ids) @ [chat_event provider MessageDelta [] (chat_bounded (chunk_text chunk)) []]"
        by (simp add: chunk_events_def butlast_append)
      have tl: "chunk_text chunk \<noteq> '''' \<Longrightarrow> told n (chunk_events encode provider chunk ids) =
          told n (butlast (chunk_events encode provider chunk ids)) @ told n [chat_event provider MessageDelta [] (chat_bounded (chunk_text chunk)) []]" for n
        by (subst ne) simp_all
      show ?thesis
        using Some chunk assms Cons
        by (simp add: chunk_accepted [where encode = encode] emitDelta_def emit_accepted tl split: prod.split)
    qed
  qed
qed simp

lemma delivered_texts: "yielded (delivered encode provider n chunks ids) = concat (map chunk_text chunks)"
proof -
  have "yielded (told n evs) = ''''" for evs
    by (induction evs) (auto simp: told_def yielded_def)
  then show ?thesis by (induction chunks arbitrary: ids) auto
qed

text \<open>What the sink at an index was given.\<close>

definition sink_events :: "nat \<Rightarrow> delivery list \<Rightarrow> model_event list" where
  "sink_events i out = List.map_filter (\<lambda>d. case d of Emitted k ev \<Rightarrow> if k = i then Some ev else None | Yielded _ \<Rightarrow> None) out"

fun events_of :: "(usage \<Rightarrow> bytes) \<Rightarrow> string \<Rightarrow> chat_chunk list \<Rightarrow> tool_ids \<Rightarrow> model_event list" where
  "events_of encode provider [] ids = []"
| "events_of encode provider (chunk # chunks) ids =
    chunk_events encode provider chunk ids @ events_of encode provider chunks (learn_ids (chunk_calls chunk) ids)"

lemma sink_events_append [simp]: "sink_events i (xs @ ys) = sink_events i xs @ sink_events i ys"
  by (simp add: sink_events_def List.map_filter_def)

lemma sink_events_told: "i < n \<Longrightarrow> sink_events i (told n evs) = evs"
proof (induction evs)
  case (Cons ev evs)
  have "sink_events i (map (\<lambda>k. Emitted k ev) [0..<m]) = (if i < m then [ev] else [])" for m
    by (induction m) (auto simp: sink_events_def List.map_filter_def)
  moreover have "told n (ev # evs) = map (\<lambda>k. Emitted k ev) [0..<n] @ told n evs" by (simp add: told_def)
  ultimately show ?case using Cons by simp
qed (simp add: sink_events_def List.map_filter_def)

lemma delivered_events: "i < n \<Longrightarrow> sink_events i (delivered encode provider n chunks ids) = events_of encode provider chunks ids"
proof -
  have "sink_events i [Yielded s] = []" "sink_events i [] = []" for s by (simp_all add: sink_events_def List.map_filter_def)
  then show "i < n \<Longrightarrow> ?thesis" by (induction chunks arbitrary: ids) (auto simp: sink_events_told)
qed

section \<open>A body as a server writes it\<close>

lemma prefix_hd: "w \<noteq> [] \<Longrightarrow> has_prefix s w \<Longrightarrow> s \<noteq> [] \<and> hd s = hd w"
  by (cases s; cases w) (auto simp: has_prefix_def)

lemma trim_words_id: "\<forall>w \<in> set ws. w \<noteq> [] \<longrightarrow> hd w \<noteq> hd s \<Longrightarrow> trim_words ws s = s"
proof -
  assume a: "\<forall>w \<in> set ws. w \<noteq> [] \<longrightarrow> hd w \<noteq> hd s"
  have "find (\<lambda>w. w \<noteq> [] \<and> has_prefix s w) ws = None"
    using a prefix_hd [of _ s] by (fastforce simp: find_None_iff)
  then show ?thesis by (simp add: trim_words.simps)
qed

text \<open>The text of an object: it starts and ends with a brace.\<close>

definition braced :: "string \<Rightarrow> bool" where
  "braced d \<longleftrightarrow> has_prefix d ''{'' \<and> has_suffix d ''}''"

lemma space_heads:
  "\<forall>w \<in> set space_runes. w \<noteq> [] \<longrightarrow> hd w \<noteq> CHR ''{'' \<and> hd w \<noteq> CHR ''d''"
  "\<forall>w \<in> set (map rev space_runes). w \<noteq> [] \<longrightarrow> hd w \<noteq> CHR ''}'' \<and> hd w \<noteq> CHR '']''"
  by code_simp+

lemma braced_ends: "braced d \<Longrightarrow> hd d = CHR ''{'' \<and> d \<noteq> [] \<and> hd (rev d) = CHR ''}''"
proof -
  assume b: "braced d"
  then have d: "d \<noteq> []" "hd d = CHR ''{''" using prefix_hd [of "''{''" d] by (auto simp: braced_def)
  from d(1) obtain x c where "d = x @ [c]" by (meson rev_exhaust)
  with b d show ?thesis by (auto simp: braced_def has_suffix_def)
qed

lemma trim_front: "trim_words space_runes (CHR '' '' # s) = trim_words space_runes s"
  by (subst trim_words.simps) (simp add: space_runes_def has_prefix_def)

lemma trim_back: "hd (rev d) = CHR ''}'' \<or> hd (rev d) = CHR '']'' \<Longrightarrow> trim_words (map rev space_runes) (rev d) = rev d"
  by (rule trim_words_id) (use space_heads(2) in fastforce)

lemma trim_back_append: "d \<noteq> [] \<Longrightarrow> hd (rev (p @ d)) = hd (rev d)"
  by simp

lemma line_data_braced:
  assumes "hd d = CHR ''{'' \<and> hd (rev d) = CHR ''}'' \<or> hd d = CHR ''['' \<and> hd (rev d) = CHR '']''" and "d \<noteq> []"
  shows "line_data (''data: '' @ d) = Some d"
proof -
  have rear: "trim_words (map rev space_runes) (rev (p @ d)) = rev (p @ d)" for p
    by (rule trim_back) (use assms trim_back_append [OF assms(2), of p] in argo)
  have "trim_words space_runes (''data: '' @ d) = ''data: '' @ d"
    by (rule trim_words_id) (use space_heads(1) in fastforce)
  with rear [of "''data: ''"] have whole: "trim_space (''data: '' @ d) = ''data: '' @ d" by (simp add: trim_space_def)
  have "\<forall>w \<in> set space_runes. w \<noteq> [] \<longrightarrow> hd w \<noteq> CHR ''[''" by code_simp
  with assms space_heads(1) have "trim_words space_runes d = d" by (intro trim_words_id) auto
  with rear [of "[]"] have part: "trim_space (CHR '' '' # d) = d" by (simp add: trim_space_def trim_front)
  from whole part show ?thesis by (simp add: line_data_def Let_def has_prefix_def)
qed

lemma line_data_empty: "line_data '''' = None"
  by code_simp

definition chat_frame :: "string \<Rightarrow> bytes" where
  "chat_frame d = ''data: '' @ d @ [newline, newline]"

definition frame_ok :: "string \<Rightarrow> bool" where
  "frame_ok d \<longleftrightarrow> braced d \<and> newline \<notin> set d \<and> length d + 6 < maxChatFrameBytes"

lemma scan_first:
  assumes "newline \<notin> set l" and "length l < limit"
  shows "scan_lines limit err (l @ newline # s) = (drop_cr l # fst (scan_lines limit err s), snd (scan_lines limit err s))"
  by (subst scan_lines.simps) (use assms(2) in \<open>simp add: takeWhile_line [OF assms(1)] Let_def split_def not_le\<close>)

lemma scan_frame:
  assumes "d \<noteq> []" and "hd (rev d) \<noteq> CHR 0x0D" and "newline \<notin> set d" and "length d + 6 < maxChatFrameBytes"
  shows "scan_lines maxChatFrameBytes err (chat_frame d @ s) =
    (map drop_cr [''data: '' @ d, ''''] @ fst (scan_lines maxChatFrameBytes err s), snd (scan_lines maxChatFrameBytes err s))"
proof -
  have one: "newline \<notin> set (''data: '' @ d)" "length (''data: '' @ d) < maxChatFrameBytes" using assms by (auto simp: newline_def)
  have two: "newline \<notin> set ''''" "length '''' < maxChatFrameBytes" by (simp_all add: maxChatFrameBytes_def)
  show ?thesis
    using scan_first [OF one, of err "newline # s"] scan_first [OF two, of err s] by (simp add: chat_frame_def)
qed

lemma drop_cr_end: "d \<noteq> [] \<Longrightarrow> hd (rev d) \<noteq> CHR 0x0D \<Longrightarrow> drop_cr (p @ d) = p @ d"
  by (cases d rule: rev_cases) (auto simp: drop_cr_def has_suffix_def)

lemma lines_of_frames:
  assumes "list_all2 (\<lambda>d chunk. frame_ok d \<and> decode_chunk d = Inr chunk) ds chunks"
  shows "lines_chunks (fst (scan_lines maxChatFrameBytes err (concat (map chat_frame ds) @ chat_frame ''[DONE]'' @ rest))) e t = (chunks, None)"
  using assms
proof (induction ds chunks arbitrary: t rule: list_all2_induct)
  case Nil
  have d: "line_data (''data: '' @ ''[DONE]'') = Some ''[DONE]''" by (rule line_data_braced) simp_all
  have "drop_cr (''data: '' @ ''[DONE]'') = ''data: '' @ ''[DONE]''" by (rule drop_cr_end) simp_all
  with d scan_frame [of "''[DONE]''" err rest] show ?case by (simp add: newline_def maxChatFrameBytes_def)
next
  case (Cons d ds chunk chunks)
  then have f: "braced d" "newline \<notin> set d" "length d + 6 < maxChatFrameBytes" "decode_chunk d = Inr chunk" by (auto simp: frame_ok_def)
  note ends = braced_ends [OF f(1)]
  have d: "line_data (''data: '' @ d) = Some d" by (rule line_data_braced) (use ends in auto)
  have cr: "drop_cr (''data: '' @ d) = ''data: '' @ d" "drop_cr '''' = ''''" by (rule drop_cr_end) (use ends in \<open>auto simp: drop_cr_def has_suffix_def\<close>)
  have nd: "d \<noteq> ''[DONE]''" using ends by auto
  have s: "scan_lines maxChatFrameBytes err (chat_frame d @ s) =
    (map drop_cr [''data: '' @ d, ''''] @ fst (scan_lines maxChatFrameBytes err s), snd (scan_lines maxChatFrameBytes err s))" for s
    by (rule scan_frame) (use ends f in auto)
  show ?case
    using d cr nd f(4) Cons.IH [of "t \<or> chunk_finished chunk"] by (simp add: s line_data_empty)
qed

end
