(* ===== verification/Chat_Runtime_Proofs.thy ===== *)
theory Chat_Runtime_Proofs
  imports Chat_Runtime Chat_Streaming
begin

text \<open>
  What holds of the transport of the other endpoints: a stream gives back the events that a server
  wrote, a call is made only with the headers of its kind, and the text of a refusal may hold a part
  of the key, because it is cut before the key is replaced.
\<close>

section \<open>The events of a stream\<close>

definition event_frame :: "string \<times> string \<Rightarrow> bytes" where
  "event_frame e = ''event: '' @ fst e @ [newline] @ chat_frame (snd e)"

definition event_ok :: "string \<times> string \<Rightarrow> bool" where
  "event_ok e \<longleftrightarrow> newline \<notin> set (fst e) \<and> CHR 0x0D \<notin> set (fst e) \<and> length (fst e) + 7 < maxChatFrameBytes \<and>
    trim_space (CHR '' '' # fst e) = fst e \<and> frame_ok (snd e) \<and> json_valid (snd e)"

definition event_value :: "string \<times> string \<Rightarrow> runtime_event" where
  "event_value e = \<lparr>re_type = (if header_type (snd e) = '''' then fst e else header_type (snd e)), re_data = snd e\<rparr>"

lemma braced_trim:
  assumes "braced d"
  shows "trim_space d = d" "trim_space (CHR '' '' # d) = d"
proof -
  note ends = braced_ends [OF assms]
  have rear: "trim_words (map rev space_runes) (rev d) = rev d" by (rule trim_back) (use ends in blast)
  have front: "trim_words space_runes d = d" by (rule trim_words_id) (use ends space_heads(1) in auto)
  from rear front show "trim_space d = d" "trim_space (CHR '' '' # d) = d" by (simp_all add: trim_space_def trim_front)
qed

lemma scan_event:
  assumes "event_ok (t, d)"
  shows "fst (scan_lines maxChatFrameBytes err (event_frame (t, d) @ s)) =
    [''event: '' @ t, ''data: '' @ d, ''''] @ fst (scan_lines maxChatFrameBytes err s)"
proof -
  from assms have d: "braced d" "newline \<notin> set d" "length d + 6 < maxChatFrameBytes" by (auto simp: event_ok_def frame_ok_def)
  note ends = braced_ends [OF d(1)]
  have one: "newline \<notin> set (''event: '' @ t)" "length (''event: '' @ t) < maxChatFrameBytes"
    using assms by (auto simp: event_ok_def newline_def)
  have "CHR 0x0D \<notin> set (''event: '' @ t)" using assms by (auto simp: event_ok_def)
  then have cr: "drop_cr (''event: '' @ t) = ''event: '' @ t" by (rule drop_cr_id)
  have crd: "drop_cr (''data: '' @ d) = ''data: '' @ d" "drop_cr '''' = ''''" by (rule drop_cr_end) (use ends in \<open>auto simp: drop_cr_def has_suffix_def\<close>)
  have "event_frame (t, d) @ s = (''event: '' @ t) @ newline # (chat_frame d @ s)" by (simp add: event_frame_def)
  then have "fst (scan_lines maxChatFrameBytes err (event_frame (t, d) @ s)) =
      drop_cr (''event: '' @ t) # fst (scan_lines maxChatFrameBytes err (chat_frame d @ s))"
    using scan_first [OF one, of err "chat_frame d @ s"] by (simp only: fst_conv)
  moreover have "fst (scan_lines maxChatFrameBytes err (chat_frame d @ s)) = [''data: '' @ d, ''''] @ fst (scan_lines maxChatFrameBytes err s)"
    by (subst scan_frame) (use ends d crd in auto)
  ultimately show ?thesis unfolding cr by simp
qed

lemma event_read:
  assumes "event_ok (t, d)"
  shows "runtime_lines (\<lambda>_. True) ([''event: '' @ t, ''data: '' @ d, ''''] @ lines) err no_event_state out =
    runtime_lines (\<lambda>_. True) lines err no_event_state (out @ [event_value (t, d)])"
proof -
  from assms have d: "braced d" "json_valid d" "trim_space (CHR '' '' # t) = t" by (auto simp: event_ok_def frame_ok_def)
  note ends = braced_ends [OF d(1)]
  have "d \<noteq> ''[DONE]''" using ends by auto
  with d ends braced_trim [OF d(1)] show ?thesis
    by (simp add: consumeRuntimeEventLine_def has_prefix_def no_event_state_def emit_runtime_def Let_def event_value_def)
qed

lemma events_read:
  assumes "\<forall>e \<in> set evs. event_ok e"
  shows "runtime_lines (\<lambda>_. True) (fst (scan_lines maxChatFrameBytes err (concat (map event_frame evs) @ chat_frame ''[DONE]'' @ rest)))
    e no_event_state out = (out @ map event_value evs, None)"
  using assms
proof (induction evs arbitrary: out)
  case Nil
  have "drop_cr (''data: '' @ ''[DONE]'') = ''data: '' @ ''[DONE]''" by (rule drop_cr_end) simp_all
  moreover have "fst (scan_lines maxChatFrameBytes err (chat_frame ''[DONE]'' @ rest)) =
      map drop_cr [''data: '' @ ''[DONE]'', ''''] @ fst (scan_lines maxChatFrameBytes err rest)"
    by (subst scan_frame) (simp_all add: newline_def maxChatFrameBytes_def)
  ultimately have lines: "fst (scan_lines maxChatFrameBytes err (chat_frame ''[DONE]'' @ rest)) =
      [''data: '' @ ''[DONE]'', ''''] @ fst (scan_lines maxChatFrameBytes err rest)"
    by (simp add: drop_cr_def has_suffix_def)
  have "trim_space '' [DONE]'' = ''[DONE]''" "trim_space ''[DONE]'' = ''[DONE]''" by code_simp+
  then show ?case
    by (simp add: lines consumeRuntimeEventLine_def has_prefix_def no_event_state_def emit_runtime_def Let_def)
next
  case (Cons ev evs)
  obtain t d where ev: "ev = (t, d)" by force
  with Cons have ok: "event_ok (t, d)" by simp
  have "concat (map event_frame (ev # evs)) @ chat_frame ''[DONE]'' @ rest =
      event_frame (t, d) @ (concat (map event_frame evs) @ chat_frame ''[DONE]'' @ rest)" by (simp add: ev)
  then show ?case
    using Cons ev by (simp only: scan_event [OF ok] event_read [OF ok]) simp
qed

section \<open>A part of the key in a refusal\<close>

lemma replace_absent: "\<not> sublist old s \<Longrightarrow> replace_all s old new = s"
proof (induction s old new rule: replace_all.induct)
  case (2 c s old new)
  then have "\<not> (old \<noteq> [] \<and> has_prefix (c # s) old)" "\<not> sublist old s"
    by (auto simp: has_prefix_prefix sublist_Cons_right)
  with 2(2) show ?case by (simp only: replace_all_steps(2) simp_thms)
qed simp

lemma sublist_apart: "sublist t (u @ v) \<Longrightarrow> set t \<inter> set u = {} \<Longrightarrow> sublist t v"
proof (induction u)
  case (Cons c u)
  then have "prefix t (c # u @ v) \<Longrightarrow> t = []" by (cases t) auto
  with Cons show ?case by (auto simp: sublist_Cons_right)
qed simp

text \<open>A text whose cut at the limit falls into the key: what is left of the key stays.\<close>

definition cut_in_key :: "string \<Rightarrow> string \<Rightarrow> string" where
  "cut_in_key a b = replicate (maxTextBytes - length a) (CHR ''x'') @ a @ b"

lemma cut_text:
  assumes "length a \<le> maxTextBytes"
  shows "take maxTextBytes (cut_in_key a b) = replicate (maxTextBytes - length a) (CHR ''x'') @ a"
  using assms by (simp add: cut_in_key_def)

lemma cut_redacted:
  assumes "length a \<le> maxTextBytes" and "b \<noteq> []" and "CHR ''x'' \<notin> set (a @ b)"
  shows "redact_key (a @ b) (take maxTextBytes (cut_in_key a b)) = replicate (maxTextBytes - length a) (CHR ''x'') @ a"
proof -
  have "\<not> sublist (a @ b) (replicate (maxTextBytes - length a) (CHR ''x'') @ a)"
  proof
    assume "sublist (a @ b) (replicate (maxTextBytes - length a) (CHR ''x'') @ a)"
    moreover have "set (a @ b) \<inter> set (replicate (maxTextBytes - length a) (CHR ''x'')) = {}" using assms(3) by auto
    ultimately have "sublist (a @ b) a" by (rule sublist_apart)
    then have "length (a @ b) \<le> length a" by (rule sublist_length_le)
    with assms(2) show False by simp
  qed
  then show ?thesis using assms(2) by (simp add: redact_key_def cut_text [OF assms(1)] replace_absent)
qed

lemma refusals_cut_the_key:
  assumes "length a < maxTextBytes" and "b \<noteq> []" and "CHR ''x'' \<notin> set (a @ b)"
    and "trim_space (cut_in_key a b) = cut_in_key a b" and "trim_space (take maxTextBytes (cut_in_key a b)) = take maxTextBytes (cut_in_key a b)"
    and "hr_body resp = cut_in_key a b"
  shows "has_suffix (er_body (runtime_refusal (a @ b) status (cut_in_key a b))) a"
    and "has_suffix (er_body (chat_refusal (a @ b) resp)) a"
proof -
  let ?left = "replicate (maxTextBytes - length a) (CHR ''x'') @ a"
  have len: "length (cut_in_key a b) > maxTextBytes" using assms(1,2) by (simp add: cut_in_key_def)
  have suffix: "has_suffix ?left a" by (simp add: has_suffix_def)
  note red = cut_redacted [OF less_imp_le [OF assms(1)] assms(2,3)]
  have "er_body (runtime_refusal (a @ b) status (cut_in_key a b)) = ?left"
    using len assms(4) red by (simp add: runtime_refusal_def chat_bounded_def)
  with suffix show "has_suffix (er_body (runtime_refusal (a @ b) status (cut_in_key a b))) a" by simp
  have "er_body (chat_refusal (a @ b) resp) = ?left"
    using assms(1,5,6) red by (simp add: chat_refusal_def chat_bounded_def)
  with suffix show "has_suffix (er_body (chat_refusal (a @ b) resp)) a" by simp
qed

end
