(* ===== verification/Chat_Claims.thy ===== *)
theory Chat_Claims
  imports Chat_Runtime_Proofs Codex_Examples
begin

text \<open>The properties of the chat completions model and of its transport, with their witnesses.\<close>

section \<open>A turn\<close>

text \<open>A response with a text and a call, as JSON, and the environment that answers with it.\<close>

definition chat_turn_function :: json where
  "chat_turn_function = JObject [(''name'', JString ''f''), (''arguments'', JString ''{}'')]"

definition chat_turn_message :: json where
  "chat_turn_message = JObject [(''content'', JString ''Hi''),
     (''tool_calls'', JArray [JObject [(''id'', JString ''c1''), (''function'', chat_turn_function)]])]"

definition chat_turn_json :: json where
  "chat_turn_json = JObject [(''choices'', JArray [JObject [(''message'', chat_turn_message)]])]"

definition chat_http_of :: "int \<Rightarrow> bytes \<Rightarrow> chat_http" where
  "chat_http_of status body = \<lparr>hr_status = status, hr_request_id = '''', hr_retry_after = '''', hr_retry_date = None, hr_model = '''',
     hr_x_model = '''', hr_etag = '''', hr_body = body, hr_body_err = None, hr_content_type = '''', hr_content_length = 0, hr_header = []\<rparr>"

definition chat_turn_env :: "chat_http option \<times> agent_error option \<Rightarrow> chat_env" where
  "chat_turn_env answer = \<lparr>oe_request_err = (\<lambda>_ _. None), oe_send = (\<lambda>_. answer), oe_ctx_err = (\<lambda>_. False), oe_wait = (\<lambda>_. None),
     oe_now = (\<lambda>_. 0), oe_text = (\<lambda>_. ''''), oe_usage = (\<lambda>_. Inr [])\<rparr>"

definition chat_turn_model :: chat_model where
  "chat_turn_model = default_chat_model ''openai'' ''https://a'' ''secret'' ''m''"

definition chat_turn_config :: chat_config where
  "chat_turn_config = \<lparr>hc_sinks = [], hc_extensions = []\<rparr>"

definition chat_turn_call :: call where
  "chat_turn_call = \<lparr>cl_id = ''c1'', cl_name = ''f'', cl_arguments = ''{}'', cl_arguments_ref = '''', cl_source_ref = ''openai''\<rparr>"

definition chat_turn_answer :: model_answer where
  "chat_turn_answer = \<lparr>ma_message = (assistant_message [text_part ''Hi''])\<lparr>cm_tool_calls := [chat_turn_call]\<rparr>, ma_intent = ToolCallIntent,
     ma_usage = zero_usage, ma_finish_reason = '''', ma_metadata = [(''id'', ''''), (''model'', ''''), (''provider'', ''openai'')]\<rparr>"

lemma chat_words:
  "plain_text ''content''" "plain_text ''tool_calls''" "plain_text ''function''" "plain_text ''choices''" "plain_text ''message''"
  "plain_text ''model''" "plain_text ''messages''" "plain_text ''role''" "plain_text ''user''" "plain_text ''m''" "plain_text ''finish_reason''"
  "plain_text ''stop''"
  by code_simp+

lemmas chat_texts = chat_words [THEN plain_string_text] word_texts
lemmas chat_unquotes = chat_words [THEN plain_unquote] word_unquotes
lemmas chat_quotes = chat_words [THEN plain_quote] word_quotes

lemma chat_names:
  "fold_name ''choices'' = ''CHOICES''" "fold_name ''message'' = ''MESSAGE''" "fold_name ''tool_calls'' = ''TOOL_CALLS''"
  "fold_name ''function'' = ''FUNCTION''" "fold_name ''finish_reason'' = ''FINISH_REASON''" "fold_name ''usage'' = ''USAGE''"
  "fold_name ''model'' = ''MODEL''" "fold_name ''role'' = ''ROLE''" "fold_name ''tool_call_id'' = ''TOOL_CALL_ID''"
  "fold_name ''description'' = ''DESCRIPTION''" "fold_name ''parameters'' = ''PARAMETERS''" "fold_name ''delta'' = ''DELTA''"
  "fold_name ''index'' = ''INDEX''"
  by code_simp+

lemma chat_turn_ok: "json_ok chat_turn_json"
  by (simp add: json_ok_iff chat_turn_json_def chat_turn_message_def chat_turn_function_def chat_texts maxNestingDepth_def)

lemmas chat_decoding = unmarshal_def decode_struct_def field_of_def string_field_def struct_field_def slice_field_def chat_names chat_unquotes

lemma chat_turn_read:
  "unmarshal chat_response_fields (print_json chat_turn_json) no_chat_response =
    Some (no_chat_response\<lparr>xs_choices := [\<lparr>xc_message = no_chat_item\<lparr>xm_content := ''Hi'',
      xm_calls := [no_chat_call\<lparr>cc_id := ''c1'', cc_function := no_chat_function\<lparr>cf_name := ''f'', cf_arguments := ''{}''\<rparr>\<rparr>]\<rparr>,
      xc_finish_reason = ''''\<rparr>]\<rparr>)"
proof -
  have f: "decode_struct chat_function_fields chat_turn_function no_chat_function = Some (no_chat_function\<lparr>cf_name := ''f'', cf_arguments := ''{}''\<rparr>)"
    by (simp add: chat_turn_function_def chat_decoding chat_function_fields_def)
  have m: "decode_struct chat_item_fields chat_turn_message no_chat_item = Some (no_chat_item\<lparr>xm_content := ''Hi'',
      xm_calls := [no_chat_call\<lparr>cc_id := ''c1'', cc_function := no_chat_function\<lparr>cf_name := ''f'', cf_arguments := ''{}''\<rparr>\<rparr>]\<rparr>)"
    by (simp add: chat_turn_message_def chat_decoding chat_item_fields_def chat_call_fields_def no_chat_call_def
      f [unfolded decode_struct_def])
  show ?thesis
    by (simp add: unmarshal_def parse_print [OF chat_turn_ok])
      (simp add: chat_turn_json_def chat_decoding chat_response_fields_def m [unfolded decode_struct_def] no_chat_response_def)
qed

lemma braces_valid: "json_valid ''{}''"
  using parse_print [of "JObject []"]
  by (simp add: json_valid_def json_ok_iff maxNestingDepth_def print_json_def tokens_text_def)

lemma chat_turn_answered:
  "chat_answer ''openai'' [] (chat_http_of 200 (print_json chat_turn_json)) [] = ([], Inr chat_turn_answer)"
proof -
  have "length (print_json chat_turn_json) \<le> maxChatBytes"
    by (simp add: chat_turn_json_def chat_turn_message_def chat_turn_function_def print_json_def tokens_text_def maxChatBytes_def)
  then have r: "read_chat_response (chat_http_of 200 (print_json chat_turn_json)) =
      Inr (no_chat_response\<lparr>xs_choices := [\<lparr>xc_message = no_chat_item\<lparr>xm_content := ''Hi'',
        xm_calls := [no_chat_call\<lparr>cc_id := ''c1'', cc_function := no_chat_function\<lparr>cf_name := ''f'', cf_arguments := ''{}''\<rparr>\<rparr>]\<rparr>,
        xc_finish_reason = ''''\<rparr>]\<rparr>)"
    by (simp add: read_chat_response_def chat_http_of_def chat_turn_read)
  show ?thesis
    by (simp add: chat_answer_def r eff_bind_def pure_r_def emitDelta_def chat_emit_def emitEvent_def Let_def responseMessage_def
      no_chat_item_def no_chat_call_def no_chat_function_def braces_valid chat_turn_answer_def chat_turn_call_def no_chat_response_def
      chat_bounded_def)
qed

lemma chat_question_encoded: "encodeChatMessages [turn_question] = Inr [chat_item_of turn_question]"
  by (simp add: encodes_chat_iff chat_conversation_def chat_ok_def turn_question_def text_part_def plain_def call_ids_def)

lemma chat_payload_made: "\<exists>payload. chat_payload turn_request stream = Inr payload"
  by (simp add: chat_payload_def new_chat_request_def chat_validate_def guard_r_def chat_tool_choice_def turn_request_def empty_request_def
    chat_question_encoded chat_request_json_def chat_float_def)

lemma chat_turn_opened:
  "successfulStatus (hr_status r) \<Longrightarrow> chat_open (chat_turn_env (Some r, None)) chat_turn_model payload format =
    ([Requested (chat_request_of chat_turn_model payload)], Inr r)"
proof -
  assume s: "successfulStatus (hr_status r)"
  have "\<not> retryableStatus (hr_status r)" using s by (simp add: successfulStatus_def retryableStatus_def)
  then have "chat_attempts (chat_turn_env (Some r, None)) p key request (Suc left) 1 None [] = ([Requested request], Some r, None)"
    for p key request left by (simp add: chat_turn_env_def should_retry_def)
  moreover have "nat (rp_max_attempts (hm_retry chat_turn_model)) = Suc 2"
    by (simp add: chat_turn_model_def default_chat_model_def chatMaxAttempts_def)
  ultimately have "chat_do (chat_turn_env (Some r, None)) chat_turn_model request = ([Requested request], Some r, None)" for request
    by (simp only: chat_do_def)
  then show ?thesis using s by (simp add: chat_open_def chat_send_def) (simp add: chat_turn_env_def)
qed

lemma chat_turn_invoked:
  "\<exists>log. chat_Invoke (chat_turn_env (Some (chat_http_of 200 (print_json chat_turn_json)), None)) (Some chat_turn_model) turn_request
    chat_turn_config = (log, [], Inr chat_turn_answer)"
proof -
  obtain payload where p: "chat_payload turn_request False = Inr payload" using chat_payload_made by blast
  have "successfulStatus (hr_status (chat_http_of 200 (print_json chat_turn_json)))" by (simp add: chat_http_of_def successfulStatus_def)
  from chat_turn_opened [OF this] p show ?thesis
    by (simp add: chat_Invoke_def chat_prepare_def chat_turn_config_def chat_turn_answered)
      (simp add: chat_turn_model_def default_chat_model_def chat_turn_answered)
qed

section \<open>Conversations\<close>

text \<open>
  C27. The encoder of the chat completions endpoint accepts exactly the conversations in which every
  message has a role and plain text parts, tool calls are complete, new and made by assistants, and
  each message with calls is followed by one plain answer for each of them before the next message;
  what is sent is each message with its role, its text, its calls and the call that it answers.
\<close>
theorem chat_conversations:
  "encodeChatMessages ms = Inr items \<longleftrightarrow> chat_conversation ms \<and> items = map chat_item_of ms"
  by (rule encodes_chat_iff)

text \<open>
  C28. The message of a response can be sent again: with an answer for each of its calls, in any order,
  it extends the conversation of the request to one that is accepted, its calls having new
  identifiers; its items are those of the request, then the assistant's text and calls, then the
  answers. Its intent is a tool call exactly when it has calls.
\<close>
theorem chat_responses_replay:
  assumes "chat_Invoke env md rq config = (log, out, Inr a)"
    and "set (call_ids (ma_message a)) \<inter> set (concat (map call_ids (mr_messages rq))) = {}"
    and "mset (map cm_tool_call_id replies) = mset (call_ids (ma_message a))" and "\<forall>r \<in> set replies. answer_ok r"
  shows "encodeChatMessages (mr_messages rq @ ma_message a # replies) =
      Inr (map chat_item_of (mr_messages rq) @ chat_item_of (ma_message a) # map chat_item_of replies) \<and>
    (ma_intent a = ToolCallIntent \<longleftrightarrow> cm_tool_calls (ma_message a) \<noteq> [])"
proof -
  obtain model :: chat_model and payload resp where c: "chat_payload rq False = Inr payload"
    "chat_answer (hm_provider model) (hc_sinks config) resp [] = (out, Inr a)"
    by (rule chat_Invoke_done [OF assms(1)]) blast
  obtain v and choice :: chat_choice_item where m: "responseMessage (hm_provider model) (xc_message choice) = Inr (ma_message a, ma_intent a)"
    by (rule chat_answer_Inr [OF c(2)]) blast
  obtain items where "encodeChatMessages (mr_messages rq) = Inr items" using chat_payload_encodes [OF c(1)] by blast
  then have "chat_conversation (mr_messages rq)" by (simp add: encodes_chat_iff)
  from chat_conversation_extends [OF this response_chat_ok [OF m assms(2)] assms(3,4)] response_intent [OF m] show ?thesis
    by (simp add: encodes_chat_iff)
qed

theorem chat_responses_replay_witness:
  "encodeChatMessages [turn_question, ma_message chat_turn_answer, turn_reply] =
    Inr [chat_item_of turn_question, chat_item_of (ma_message chat_turn_answer), chat_item_of turn_reply]"
proof -
  obtain log where i: "chat_Invoke (chat_turn_env (Some (chat_http_of 200 (print_json chat_turn_json)), None)) (Some chat_turn_model)
      turn_request chat_turn_config = (log, [], Inr chat_turn_answer)" using chat_turn_invoked by blast
  have "mr_messages turn_request = [turn_question]" by (simp add: turn_request_def)
  then show ?thesis
    using chat_responses_replay [OF i, of "[turn_reply]"]
    by (simp add: call_ids_def turn_question_def chat_turn_answer_def chat_turn_call_def turn_reply_def answer_ok_def plain_def text_part_def)
qed

section \<open>Calls\<close>

text \<open>
  C29. The attempts of a call are bounded: a valid policy sends its number of attempts at most, all the
  same request, with one delay at most between two of them and none longer than thirty seconds or
  the back-off of the policy; the call ends with the context, or with the answer to its last
  request, which is then not to be retried, the last that is allowed, or at the end of the context.
\<close>
theorem chat_attempts_are_bounded:
  assumes "validate_policy (hm_retry md) = Inr ()" and "chat_do env md request = (log, resp, err)"
  shows "requests log \<le> nat (rp_max_attempts (hm_retry md)) \<and> length log \<le> 2 * requests log \<and>
    length log < 2 * nat (rp_max_attempts (hm_retry md)) \<and> list_all (chat_effect_ok (hm_retry md) request) log \<and>
    attempts_end env (hm_api_key md) (requests log = nat (rp_max_attempts (hm_retry md))) log resp err"
proof -
  have "0 < rp_max_attempts (hm_retry md)" using assms(1) by (auto simp: validate_policy_def split: if_split_asm)
  then obtain n where n: "nat (rp_max_attempts (hm_retry md)) = Suc n" by (metis gr0_conv_Suc zero_less_nat_eq)
  from chat_attempts_bounds [OF assms(2) [unfolded chat_do_def n]] show ?thesis by (auto simp: n)
qed

lemma unavailable:
  "chat_do (chat_turn_env (Some (chat_http_of 503 []), None)) chat_turn_model request =
    ([Requested request, Delayed (100 * millisecond), Requested request, Delayed (200 * millisecond), Requested request],
     Some (chat_http_of 503 []), None)"
proof -
  have "nat (rp_max_attempts (hm_retry chat_turn_model)) = Suc (Suc (Suc 0))" by (simp add: chat_turn_model_def default_chat_model_def chatMaxAttempts_def)
  then show ?thesis
    by (simp add: chat_do_def chat_turn_env_def should_retry_def retryableStatus_def chat_http_of_def chat_retry_delay_def chat_retry_after_def
      policy_backoff_def chat_turn_model_def default_chat_model_def chatInitialBackoff_def chatMaxBackoff_def millisecond_def second_def
      numeral_2_eq_2)
qed

theorem chat_attempts_are_bounded_witness:
  "\<forall>request. list_all (chat_effect_ok (hm_retry chat_turn_model) request)
    [Requested request, Delayed (100 * millisecond), Requested request, Delayed (200 * millisecond), Requested request]"
proof -
  have "validate_policy (hm_retry chat_turn_model) = Inr ()"
    by (simp add: validate_policy_def guard_r_def chat_turn_model_def default_chat_model_def chatMaxAttempts_def chatInitialBackoff_def chatMaxBackoff_def
      millisecond_def second_def)
  from chat_attempts_are_bounded [OF this unavailable] show ?thesis by blast
qed

text \<open>The header may ask for a delay that overflows the 64 bits of a duration: the retry then does not wait.\<close>

lemma retry_after_wraps: "chat_retry_after ''9223372037'' None now = Some (- 9223372036709551616)"
  by (simp add: chat_retry_after_def atoi_def has_prefix_def digits_value_def is_digit_def wrap64_def second_def)

lemma clamped_retry_after: "parseRetryAfter ''9223372037'' None now = Some maximumRetryAfter"
  by (simp add: parseRetryAfter_def atoi_def has_prefix_def digits_value_def is_digit_def maximumRetryAfter_def second_def)

section \<open>Streams\<close>

text \<open>
  C30. A stream that ends without an error either was stopped by its consumer, which gets nothing after
  the chunk that it refused, or ended as it should: the body of the last response has the end marker,
  or it was read to its end and a chunk in it has a reason to finish. A connection that is cut is an
  error.
\<close>
theorem streams_end_properly:
  assumes "chat_InvokeStream env (Some md) rq config wants = (log, out, None)"
  shows "refused wants out \<or>
    (wanted wants out \<and> (\<exists>resp. fst (oe_send env log) = Some resp \<and> successfulStatus (hr_status resp) \<and>
      (case scan_lines maxChatFrameBytes (hr_body_err resp) (hr_body resp) of (lines, err) \<Rightarrow> ends_properly lines err)))"
proof -
  from assms obtain payload resp where o: "chat_open env md payload ''openai: invoke stream: %w'' = (log, Inr resp)"
    and s: "(let (lines, err) = scan_lines maxChatFrameBytes (hr_body_err resp) (hr_body resp);
        (out, e) = stream_lines env (hm_provider md) (hc_sinks config) wants lines err False [] []
      in (out, e)) = (out, None)"
    by (auto simp: chat_InvokeStream_def split: sum.split_asm prod.split_asm)
  obtain lines err where l: "scan_lines maxChatFrameBytes (hr_body_err resp) (hr_body resp) = (lines, err)" by force
  with s have run: "stream_lines env (hm_provider md) (hc_sinks config) wants lines err False [] [] = (out, None)" by simp
  from chat_open_Inr [OF o] have d: "chat_do env md (chat_request_of md payload) = (log, Some resp, None)"
    and ok: "successfulStatus (hr_status resp)" by blast+
  obtain n where n: "nat (rp_max_attempts (hm_retry md)) = Suc n"
    using d by (cases "nat (rp_max_attempts (hm_retry md))") (auto simp: chat_do_def)
  from chat_attempts_bounds [OF d [unfolded chat_do_def n]] have "fst (oe_send env log) = Some resp" by (auto simp: attempts_end_def)
  moreover have "wanted wants []" by (simp add: wanted_def)
  ultimately show ?thesis
    using stream_ends [OF _ run] lines_chunks_end [of lines err False] ok l by auto
qed

definition chat_turn_chunk :: json where
  "chat_turn_chunk = JObject [(''choices'', JArray [JObject [(''delta'', JObject [(''content'', JString ''Hi'')]),
     (''finish_reason'', JString ''stop'')]])]"

definition turn_chunk :: chat_chunk where
  "turn_chunk = \<lparr>xk_choices = [\<lparr>xt_delta = \<lparr>xd_content = ''Hi'', xd_calls = []\<rparr>, xt_finish_reason = ''stop''\<rparr>], xk_usage = zero_usage\<rparr>"

lemma chunk_ok: "json_ok chat_turn_chunk"
  by (simp add: json_ok_iff chat_turn_chunk_def chat_texts maxNestingDepth_def)

lemma chunk_decoded: "decode_chunk (print_json chat_turn_chunk) = Inr turn_chunk"
  by (simp add: decode_chunk_def unmarshal_def parse_print [OF chunk_ok])
    (simp add: chat_turn_chunk_def chat_decoding chat_chunk_fields_def chat_delta_fields_def no_chat_chunk_def turn_chunk_def
      fold_names(6) chat_words)

lemma chunk_framed: "frame_ok (print_json chat_turn_chunk)"
  by (simp add: frame_ok_def braced_def chat_turn_chunk_def print_json_def tokens_text_def has_prefix_def has_suffix_def newline_def
    maxChatFrameBytes_def)

text \<open>
  C31. What a server writes is what is delivered: for the frames of JSON objects within the limit of a
  frame, then the end marker, the consumer gets the texts of the chunks, and each sink the usage, the
  finish reason, the call deltas with the identifiers that their indices were given, and the text
  of each chunk, in order; what follows the marker is not read.
\<close>
theorem chat_stream_round_trip:
  assumes "list_all2 (\<lambda>d chunk. frame_ok d \<and> decode_chunk d = Inr chunk) ds chunks"
    and "accepting sinks" and "\<And>u. oe_usage env u = Inr (encode u)"
    and "scan_lines maxChatFrameBytes read_err (concat (map chat_frame ds) @ chat_frame ''[DONE]'' @ rest) = (lines, err)"
    and "stream_lines env provider sinks (\<lambda>_ _. True) lines err False [] [] = (out, e)"
  shows "e = None \<and> yielded out = concat (map chunk_text chunks) \<and>
    (\<forall>i < length sinks. sink_events i out = events_of encode provider chunks [])"
proof -
  have "lines = fst (scan_lines maxChatFrameBytes read_err (concat (map chat_frame ds) @ chat_frame ''[DONE]'' @ rest))"
    by (simp add: assms(4))
  with lines_of_frames [OF assms(1)] have "lines_chunks lines err False = (chunks, None)" by simp
  with stream_accepted [where encode = encode, OF assms(2,3)] assms(5)
  have "out = delivered encode provider (length sinks) chunks []" "e = None" by simp_all
  then show ?thesis by (simp add: delivered_texts delivered_events)
qed

theorem chat_stream_round_trip_witness:
  "\<exists>lines err out. scan_lines maxChatFrameBytes None (chat_frame (print_json chat_turn_chunk) @ chat_frame ''[DONE]'' @ []) = (lines, err) \<and>
    stream_lines (chat_turn_env (None, None)) ''openai'' [\<lambda>_ _. None] (\<lambda>_ _. True) lines err False [] [] = (out, None) \<and>
    yielded out = ''Hi'' \<and> sink_events 0 out =
      [chat_event ''openai'' FinishEvent [] ''stop'' [], chat_event ''openai'' MessageDelta [] ''Hi'' []]"
proof -
  obtain lines err where l: "scan_lines maxChatFrameBytes None (concat (map chat_frame [print_json chat_turn_chunk]) @ chat_frame ''[DONE]'' @ []) = (lines, err)"
    by force
  obtain out e where o: "stream_lines (chat_turn_env (None, None)) ''openai'' [\<lambda>_ _. None] (\<lambda>_ _. True) lines err False [] [] = (out, e)" by force
  have f: "list_all2 (\<lambda>d chunk. frame_ok d \<and> decode_chunk d = Inr chunk) [print_json chat_turn_chunk] [turn_chunk]"
    by (simp add: chunk_decoded chunk_framed)
  have a: "accepting [\<lambda>_ _. None]" by (simp add: accepting_def)
  have u: "\<And>u. oe_usage (chat_turn_env (None, None)) u = Inr ((\<lambda>_. []) u)" by (simp add: chat_turn_env_def)
  from chat_stream_round_trip [OF f a u l o] l o show ?thesis
    by (simp add: turn_chunk_def chunk_text_def chunk_events_def chunk_finished_def chunk_calls_def chat_bounded_def maxTextBytes_def)
qed

theorem streams_end_properly_witness:
  "\<exists>lines err. scan_lines maxChatFrameBytes None (chat_frame (print_json chat_turn_chunk) @ chat_frame ''[DONE]'' @ []) = (lines, err) \<and>
    ends_properly lines err"
proof -
  let ?body = "chat_frame (print_json chat_turn_chunk) @ chat_frame ''[DONE]'' @ []"
  let ?env = "chat_turn_env (Some (chat_http_of 200 ?body), None)"
  have f: "list_all2 (\<lambda>d chunk. frame_ok d \<and> decode_chunk d = Inr chunk) [print_json chat_turn_chunk] [turn_chunk]"
    by (simp add: chunk_decoded chunk_framed)
  obtain lines err where l: "scan_lines maxChatFrameBytes None ?body = (lines, err)" by force
  then have "lines_chunks lines err False = ([turn_chunk], None)" using lines_of_frames [OF f, of None "[]" err False] by simp
  moreover have "accepting []" "\<And>u. oe_usage ?env u = Inr ((\<lambda>_. []) u)" by (simp_all add: accepting_def chat_turn_env_def)
  ultimately have run: "stream_lines ?env ''openai'' [] (\<lambda>_ _. True) lines err False [] [] = ([Yielded ''Hi''], None)"
    by (subst stream_accepted) (simp_all add: turn_chunk_def chunk_text_def told_def)
  obtain payload where p: "chat_payload turn_request True = Inr payload" using chat_payload_made by blast
  have st: "successfulStatus (hr_status (chat_http_of 200 ?body))" by (simp add: chat_http_of_def successfulStatus_def)
  have "hm_provider chat_turn_model = ''openai''" by (simp add: chat_turn_model_def default_chat_model_def)
  then have "chat_InvokeStream ?env (Some chat_turn_model) turn_request chat_turn_config (\<lambda>_ _. True) =
      ([Requested (chat_request_of chat_turn_model payload)], [Yielded ''Hi''], None)"
    using chat_turn_opened [OF st] p run l
    by (simp add: chat_InvokeStream_def chat_prepare_def chat_turn_config_def chat_http_of_def)
  from streams_end_properly [OF this]
  have "refused (\<lambda>_ _. True) [Yielded ''Hi''] \<or> (case scan_lines maxChatFrameBytes None ?body of (lines, err) \<Rightarrow> ends_properly lines err)"
    by (auto simp: chat_turn_env_def chat_http_of_def)
  with l show ?thesis by (auto simp: refused_def)
qed

section \<open>The transport of the other endpoints\<close>

text \<open>
  C32. The events that a server writes on a stream of another endpoint are the events that the caller
  gets, in order, until the end marker: the data of each, with the type in its JSON, or else the
  name of the event.
\<close>
theorem runtime_events_round_trip:
  assumes "\<forall>e \<in> set evs. event_ok e"
    and "scan_lines maxChatFrameBytes read_err (concat (map event_frame evs) @ chat_frame ''[DONE]'' @ rest) = (lines, err)"
  shows "runtime_lines (\<lambda>_. True) lines err no_event_state [] = (map event_value evs, None)"
  using events_read [OF assms(1), of read_err rest err "[]"] assms(2) by simp

theorem runtime_events_round_trip_witness:
  "\<exists>lines err. scan_lines maxChatFrameBytes None (event_frame (''created'', ''{}'') @ chat_frame ''[DONE]'') = (lines, err) \<and>
    runtime_lines (\<lambda>_. True) lines err no_event_state [] = ([\<lparr>re_type = ''created'', re_data = ''{}''\<rparr>], None)"
proof -
  obtain lines err where l: "scan_lines maxChatFrameBytes None (concat (map event_frame [(''created'', ''{}'')]) @ chat_frame ''[DONE]'' @ []) = (lines, err)"
    by force
  have "trim_space '' created'' = ''created''" by code_simp
  then have ok: "\<forall>e \<in> set [(''created'', ''{}'')]. event_ok e"
    by (simp add: event_ok_def frame_ok_def braced_def has_prefix_def has_suffix_def newline_def maxChatFrameBytes_def braces_valid)
  have "header_type ''{}'' = ''''"
    using parse_print [of "JObject []"]
    by (simp add: header_type_def json_ok_iff maxNestingDepth_def print_json_def tokens_text_def)
  with runtime_events_round_trip [OF ok l] l show ?thesis by (simp add: event_value_def)
qed

text \<open>
  What a request that got no answer is reported as: an error of the client, in a wrapper whose own
  text does not hold the key; the error of the context while waiting for a retry; the error of
  \<open>http.NewRequestWithContext\<close>, before anything was sent; or a client that answered nothing at all.
\<close>

definition reported :: "chat_env \<Rightarrow> string \<Rightarrow> string \<Rightarrow> chat_failure \<Rightarrow> bool" where
  "reported env key format f \<longleftrightarrow>
    (\<exists>log cause message. snd (oe_send env log) = Some cause \<and> \<not> contains_sub message key \<and>
       f = ChatFailed (Wrapped format [] (Wrapped message [] cause))) \<or>
    (\<exists>log cause. oe_wait env log = Some cause \<and> f = ChatFailed (Wrapped format [] cause)) \<or>
    (\<exists>verb url cause. oe_request_err env verb url = Some cause \<and>
       f = ChatFailed (Wrapped ''openai: create request: %w'' [] cause)) \<or>
    ((\<exists>log. oe_send env log = (None, None)) \<and> f = ChatPanic)"

lemma attempts_error:
  assumes "chat_attempts env p key request n attempt prior log = (log', resp, Some e)"
    and "\<And>c. prior = Some c \<Longrightarrow> \<exists>l. snd (oe_send env l) = Some c"
  shows "(\<exists>l cause. snd (oe_send env l) = Some cause \<and> e = safe_error env key cause) \<or> (\<exists>l. oe_wait env l = Some e)"
  using assms
proof (induction n arbitrary: attempt prior log)
  case (Suc n)
  obtain r err where sent: "oe_send env (log @ [Requested request]) = (r, err)" by force
  then have cl: "\<And>c. err = Some c \<Longrightarrow> \<exists>l. snd (oe_send env l) = Some c" by (metis snd_conv)
  show ?case
  proof (cases "should_retry n (oe_ctx_err env (log @ [Requested request])) r err")
    case True
    from Suc.prems(1) sent True Suc.IH [OF _ cl] show ?thesis by (auto simp: Let_def split: option.split_asm)
  next
    case False
    with Suc.prems(1) sent obtain cause where "err = Some cause" "e = safe_error env key cause" by auto
    with cl show ?thesis by blast
  qed
next
  case 0
  then obtain c where "prior = Some c" "e = safe_error env key c" by auto
  with 0(2) show ?case by blast
qed

lemma attempts_nothing:
  assumes "chat_attempts env p key request n attempt prior log = (log', None, None)" and "n \<noteq> 0"
  shows "\<exists>l. oe_send env l = (None, None)"
  using assms
proof (induction n arbitrary: attempt prior log)
  case (Suc n)
  obtain r err where sent: "oe_send env (log @ [Requested request]) = (r, err)" by force
  show ?case
  proof (cases "should_retry n (oe_ctx_err env (log @ [Requested request])) r err")
    case True
    then have "n \<noteq> 0" by (simp add: should_retry_def)
    with Suc sent True show ?thesis by (auto simp: Let_def split: option.split_asm)
  next
    case False
    with Suc.prems(1) sent show ?thesis by auto
  qed
qed simp

lemma send_reported:
  assumes "redactable (hm_api_key md)" and "0 < rp_max_attempts (hm_retry md)"
    and "chat_send env md request format = (log, Inl f)"
  shows "reported env (hm_api_key md) format f"
proof (cases "oe_request_err env (rq_method request) (rq_url request)")
  case (Some e)
  with assms(3) show ?thesis by (auto simp: chat_send_def reported_def)
next
  case None
  obtain l resp err where d: "chat_do env md request = (l, resp, err)" by (metis prod_cases3)
  show ?thesis
  proof (cases err)
    case (Some e)
    from attempts_error [OF d [unfolded chat_do_def Some]]
    have "(\<exists>l cause. snd (oe_send env l) = Some cause \<and> e = safe_error env (hm_api_key md) cause) \<or> (\<exists>l. oe_wait env l = Some e)"
      by simp
    moreover have "f = ChatFailed (Wrapped format [] e)" using None d Some assms(3) by (cases resp) (auto simp: chat_send_def)
    moreover note redact_key_safe [OF assms(1)]
    ultimately show ?thesis unfolding reported_def safe_error_def by blast
  next
    case none: None
    with None d assms(3) have "resp = None" "f = ChatPanic" by (auto simp: chat_send_def split: option.split_asm)
    with attempts_nothing [of env "hm_retry md" "hm_api_key md" request _ 1 None "[]" l] d assms(2) none
    show ?thesis by (auto simp: chat_do_def reported_def)
  qed
qed

lemma reported_not_refused: "\<not> reported env key format (ChatRefused r)"
  by (simp add: reported_def)

lemma send_not_refused: "chat_send env md request format \<noteq> (log, Inl (ChatRefused r))"
  by (auto simp: chat_send_def split: option.split prod.split)

lemma runtime_refusal_safe: "redactable key \<Longrightarrow> \<not> contains_sub (er_body (runtime_refusal key status body)) key"
  using redact_key_safe by (simp add: runtime_refusal_def)

lemma open_refusal:
  assumes "redactable (hm_api_key md)" and "chat_open env md payload format = (log, Inl (ChatRefused r))"
  shows "\<not> contains_sub (er_body r) (hm_api_key md)"
  using assms(2) chat_refusal_safe [OF assms(1)] send_not_refused
  by (auto simp: chat_open_def split: prod.split_asm sum.split_asm if_split_asm)

lemma body_refusal:
  assumes "redactable (hm_api_key md)" and "snd (runtime_body env md call) = Inl (ChatRefused r)"
  shows "\<not> contains_sub (er_body r) (hm_api_key md)"
  using assms(2) runtime_refusal_safe [OF assms(1)] send_not_refused
  by (auto simp: runtime_body_def split: prod.split_asm sum.split_asm if_split_asm)

text \<open>
  C33. The key is not in the text of a refusal, nor in the report of a failed client, for a key that is
  no part of the text that replaces it and has no brackets. When \<open>Invoke\<close>, \<open>InvokeStream\<close> or a JSON,
  multipart, media or streaming call of the other endpoints returns the error of a status, its body
  does not hold the whole key; and when a request gets no answer, the error is reported under a
  message that does not hold it, or is the error of the context or of making the request. Nothing is
  said of a part of the key that the limit on the text cuts off (\<open>key_is_cut\<close>), nor of the errors
  about the contents of an answer that was accepted (\<open>answers_are_quoted\<close>).
\<close>
theorem key_is_redacted:
  assumes "redactable (hm_api_key md)" and "0 < rp_max_attempts (hm_retry md)"
  shows "(snd (snd (chat_Invoke env (Some md) rq config)) = Inl (ChatRefused r) \<or>
      snd (snd (chat_InvokeStream env (Some md) rq config wants)) = Some (ChatRefused r) \<or>
      snd (requestEncodedJSON env (Some md) call decode zero) = Inl (ChatRefused r) \<or>
      snd (requestMultipartText env (Some md) written_as path written) = Inl (ChatRefused r) \<or>
      snd (requestMedia env (Some md) call) = Inl (ChatRefused r) \<or>
      snd (snd (streamEncodedJSON env (Some md) call wanted_events)) = Some (ChatRefused r) \<longrightarrow>
      \<not> contains_sub (er_body r) (hm_api_key md)) \<and>
    (snd (chat_send env md request format) = Inl f \<longrightarrow> reported env (hm_api_key md) format f)"
proof (intro conjI impI)
  note opened = open_refusal [OF assms(1)] and body = body_refusal [OF assms(1)]
  have body': "runtime_body env md call = (log, Inl (ChatRefused r)) \<Longrightarrow> \<not> contains_sub (er_body r) (hm_api_key md)"
    for call log using body_refusal [OF assms(1), of env call r] by simp
  note refusal = runtime_refusal_safe [OF assms(1)]
  assume "snd (snd (chat_Invoke env (Some md) rq config)) = Inl (ChatRefused r) \<or>
      snd (snd (chat_InvokeStream env (Some md) rq config wants)) = Some (ChatRefused r) \<or>
      snd (requestEncodedJSON env (Some md) call decode zero) = Inl (ChatRefused r) \<or>
      snd (requestMultipartText env (Some md) written_as path written) = Inl (ChatRefused r) \<or>
      snd (requestMedia env (Some md) call) = Inl (ChatRefused r) \<or>
      snd (snd (streamEncodedJSON env (Some md) call wanted_events)) = Some (ChatRefused r)"
  then show "\<not> contains_sub (er_body r) (hm_api_key md)"
  proof (elim disjE)
    assume "snd (snd (chat_Invoke env (Some md) rq config)) = Inl (ChatRefused r)"
    then show ?thesis by (auto simp: chat_Invoke_def dest: opened split: sum.split_asm prod.split_asm)
  next
    assume "snd (snd (chat_InvokeStream env (Some md) rq config wants)) = Some (ChatRefused r)"
    then show ?thesis by (auto simp: chat_InvokeStream_def Let_def dest: opened split: sum.split_asm prod.split_asm)
  next
    assume "snd (requestEncodedJSON env (Some md) call decode zero) = Inl (ChatRefused r)"
    then show ?thesis
      by (auto simp: requestEncodedJSON_def dest: body' split: sum.split_asm prod.split_asm option.split_asm if_split_asm)
  next
    assume "snd (requestMultipartText env (Some md) written_as path written) = Inl (ChatRefused r)"
    then show ?thesis
      by (auto simp: requestMultipartText_def dest: body split: sum.split_asm prod.split_asm)
  next
    assume "snd (requestMedia env (Some md) call) = Inl (ChatRefused r)"
    then show ?thesis using send_not_refused refusal
      by (auto simp: requestMedia_def split: sum.split_asm prod.split_asm if_split_asm)
  next
    assume "snd (snd (streamEncodedJSON env (Some md) call wanted_events)) = Some (ChatRefused r)"
    then show ?thesis using send_not_refused refusal
      by (auto simp: streamEncodedJSON_def Let_def split: sum.split_asm prod.split_asm if_split_asm)
  qed
next
  assume "snd (chat_send env md request format) = Inl f"
  then show "reported env (hm_api_key md) format f"
    using send_reported [OF assms] by (metis prod.collapse)
qed

theorem key_is_redacted_witness:
  "\<exists>r. snd (requestMedia (chat_turn_env (Some (chat_http_of 401 ''bad secret''), None)) (Some chat_turn_model)
      \<lparr>rc_method = ''GET'', rc_path = ''/files'', rc_body = None, rc_content_type = '''', rc_accept = ''''\<rparr>) = Inl (ChatRefused r) \<and>
    \<not> contains_sub (er_body r) ''secret''"
proof -
  let ?env = "chat_turn_env (Some (chat_http_of 401 ''bad secret''), None)"
  have key: "hm_api_key chat_turn_model = ''secret''" and tries: "rp_max_attempts (hm_retry chat_turn_model) = 3"
    by (simp_all add: chat_turn_model_def default_chat_model_def chatMaxAttempts_def)
  have "\<not> should_retry n False (Some (chat_http_of 401 ''bad secret'')) None" for n
    by (simp add: should_retry_def retryableStatus_def chat_http_of_def)
  then have "chat_attempts ?env p k request (Suc n) 1 None [] =
      ([Requested request], Some (chat_http_of 401 ''bad secret''), None)" for p k request n
    by (simp add: chat_turn_env_def)
  moreover have "nat (rp_max_attempts (hm_retry chat_turn_model)) = Suc 2" by (simp add: tries)
  ultimately have "chat_do ?env chat_turn_model request = ([Requested request], Some (chat_http_of 401 ''bad secret''), None)" for request
    by (simp only: chat_do_def)
  then obtain r where r: "snd (requestMedia ?env (Some chat_turn_model)
      \<lparr>rc_method = ''GET'', rc_path = ''/files'', rc_body = None, rc_content_type = '''', rc_accept = ''''\<rparr>) = Inl (ChatRefused r)"
    by (simp add: requestMedia_def chat_send_def successfulStatus_def) (simp add: chat_turn_env_def chat_http_of_def)
  have "redactable (hm_api_key chat_turn_model)" "0 < rp_max_attempts (hm_retry chat_turn_model)"
    unfolding key tries by code_simp+
  from key_is_redacted [OF this, of ?env] r have "\<not> contains_sub (er_body r) ''secret''" unfolding key by metis
  with r show ?thesis by blast
qed

text \<open>
  The errors about an answer that was accepted quote it as it is: the identifier of a call that comes
  twice, whatever it is, the key included.
\<close>

lemma answers_are_quoted:
  assumes "xm_calls item = [c, c]" and "cc_id c \<noteq> ''''" and "cf_name (cc_function c) \<noteq> ''''"
    and "json_valid (cf_arguments (cc_function c))"
  shows "responseMessage provider item = Inl (Errorf ''openai: duplicate tool call id %q'' [Str (cc_id c)])"
  using assms by (simp add: responseMessage_def rbind_def)

text \<open>A part of the key is not: when the text is cut inside the key, what is left of it stays.\<close>

lemma key_is_cut:
  assumes "hr_body resp = cut_in_key ''secre'' ''t''"
  shows "has_suffix (er_body (chat_refusal ''secret'' resp)) ''secre''"
    and "has_suffix (er_body (runtime_refusal ''secret'' 500 (cut_in_key ''secre'' ''t''))) ''secre''"
proof -
  let ?text = "cut_in_key ''secre'' ''t''"
  have x: "\<forall>w \<in> set space_runes. w \<noteq> [] \<longrightarrow> hd w \<noteq> CHR ''x''" by code_simp
  have ends: "\<forall>w \<in> set (map rev space_runes). w \<noteq> [] \<longrightarrow> hd w \<noteq> CHR ''t'' \<and> hd w \<noteq> CHR ''e''" by code_simp
  have len: "maxTextBytes - length ''secre'' = Suc 4090" by (simp add: maxTextBytes_def)
  have "trim_words space_runes ?text = ?text" "trim_words space_runes (take maxTextBytes ?text) = take maxTextBytes ?text"
    by (rule trim_words_id; use x in \<open>simp add: cut_in_key_def len cut_text maxTextBytes_def\<close>)+
  moreover have "trim_words (map rev space_runes) (rev ?text) = rev ?text"
    by (rule trim_words_id) (use ends in \<open>simp add: cut_in_key_def\<close>)
  moreover have "take maxTextBytes ?text = replicate (maxTextBytes - length ''secre'') (CHR ''x'') @ ''secre''"
    by (rule cut_text) (simp add: maxTextBytes_def)
  then have "trim_words (map rev space_runes) (rev (take maxTextBytes ?text)) = rev (take maxTextBytes ?text)"
    by (intro trim_words_id) (use ends in simp)
  ultimately have t: "trim_space ?text = ?text" "trim_space (take maxTextBytes ?text) = take maxTextBytes ?text" by (simp_all add: trim_space_def)
  have "has_suffix (er_body (runtime_refusal (''secre'' @ ''t'') 500 ?text)) ''secre''"
    by (rule refusals_cut_the_key [OF _ _ _ t assms]) (simp_all add: maxTextBytes_def)
  then show "has_suffix (er_body (runtime_refusal ''secret'' 500 ?text)) ''secre''" by simp
  have "has_suffix (er_body (chat_refusal (''secre'' @ ''t'') resp)) ''secre''"
    by (rule refusals_cut_the_key [OF _ _ _ t assms]) (simp_all add: maxTextBytes_def)
  then show "has_suffix (er_body (chat_refusal ''secret'' resp)) ''secre''" by simp
qed

end
