(* ===== verification/Fornax_Payload.thy ===== *)
theory Fornax_Payload
  imports Codex_Model
begin

text \<open>
  \<open>src/middleware/byted/fornax/fornax.go\<close>: the texts and the JSON payloads of a trace, and its
  tags. A value of a type outside the repository that is traced as it is (the preview of a tool's
  result, an outcome) stands for its JSON value, \<open>None\<close> when \<open>json.Marshal\<close> fails on it.
\<close>

section \<open>Attributes\<close>

datatype attr = TextAttr string | IntAttr int | BoolAttr bool | FloatAttr bytes | OtherAttr

type_synonym attrs = "(string \<times> attr) list"

definition spanTypeAttribute :: string where "spanTypeAttribute = ''cozeloop.span_type''"
definition inputAttribute :: string where "inputAttribute = ''cozeloop.input''"
definition outputAttribute :: string where "outputAttribute = ''cozeloop.output''"
definition statusAttribute :: string where "statusAttribute = ''cozeloop.status_code''"
definition cutOffAttribute :: string where "cutOffAttribute = ''cut_off''"
definition messageIDAttribute :: string where "messageIDAttribute = ''message_id''"
definition threadIDAttribute :: string where "threadIDAttribute = ''thread_id''"
definition agentNameAttribute :: string where "agentNameAttribute = ''agent_name''"
definition modelNameAttribute :: string where "modelNameAttribute = ''model_name''"
definition inputTokensAttribute :: string where "inputTokensAttribute = ''input_tokens''"
definition outputTokensAttribute :: string where "outputTokensAttribute = ''output_tokens''"
definition totalTokensAttribute :: string where "totalTokensAttribute = ''tokens''"
definition finishReasonAttribute :: string where "finishReasonAttribute = ''finish_reason''"
definition toolNameAttribute :: string where "toolNameAttribute = ''tool_name''"
definition toolCallIDAttribute :: string where "toolCallIDAttribute = ''tool_call_id''"
definition userIDAttribute :: string where "userIDAttribute = ''user_id''"
definition deviceIDAttribute :: string where "deviceIDAttribute = ''device_id''"
definition psmAttribute :: string where "psmAttribute = ''psm''"
definition runIDAttribute :: string where "runIDAttribute = ''gopact.run_id''"
definition parentRunIDAttribute :: string where "parentRunIDAttribute = ''gopact.parent_run_id''"
definition nodeIDAttribute :: string where "nodeIDAttribute = ''gopact.node_id''"
definition activationIDAttribute :: string where "activationIDAttribute = ''gopact.activation_id''"
definition attemptIDAttribute :: string where "attemptIDAttribute = ''gopact.attempt_id''"
definition errorAttribute :: string where "errorAttribute = ''error''"
definition errorKindAttribute :: string where "errorKindAttribute = ''error.kind''"
definition durationTag :: string where "durationTag = ''duration''"
definition languageSystemTag :: string where "languageSystemTag = ''language''"
definition maxTraceFieldBytes :: nat where "maxTraceFieldBytes = 4194304"
definition maxMetadataTagCount :: nat where "maxMetadataTagCount = 64"

section \<open>Tags\<close>

definition reservedMetadataKey :: "string \<Rightarrow> bool" where
  "reservedMetadataKey key \<longleftrightarrow>
    has_prefix key ''cozeloop.'' \<or> has_prefix key ''gopact.'' \<or> has_prefix key ''fornax_'' \<or>
    key \<in> set [agentNameAttribute, cutOffAttribute, deviceIDAttribute, durationTag, errorAttribute, errorKindAttribute,
      finishReasonAttribute, inputTokensAttribute, languageSystemTag, messageIDAttribute, modelNameAttribute,
      outputTokensAttribute, psmAttribute, threadIDAttribute, totalTokensAttribute, toolCallIDAttribute, toolNameAttribute,
      userIDAttribute]"

text \<open>The metadata of the caller, in the order of its keys; \<open>trim_space\<close> is \<open>strings.TrimSpace\<close>.\<close>

definition custom_tags :: "(string \<times> string) list \<Rightarrow> (string \<times> string) list" where
  "custom_tags metadata = filter (\<lambda>(k, v). k \<noteq> '''' \<and> \<not> reservedMetadataKey k)
     (map (\<lambda>(k, v). (trim_space k, v)) (sort_key fst metadata))"

definition optional_tag :: "string \<Rightarrow> string \<Rightarrow> (string \<times> string) list" where
  "optional_tag key v = (if trim_space v = '''' then [] else [(key, trim_space v)])"

definition tagAttributes :: "string \<Rightarrow> string \<Rightarrow> string \<Rightarrow> (string \<times> string) list \<Rightarrow> (string \<times> string) list" where
  "tagAttributes psm userID deviceID metadata =
    custom_tags metadata @ optional_tag psmAttribute psm @ optional_tag userIDAttribute userID @ optional_tag deviceIDAttribute deviceID"

record context_config =
  xc_user_id :: string
  xc_device_id :: string
  xc_metadata :: "(string \<times> string) list"

definition no_context :: context_config where
  "no_context = \<lparr>xc_user_id = '''', xc_device_id = '''', xc_metadata = []\<rparr>"

definition WithUserID :: "string \<Rightarrow> context_config \<Rightarrow> context_config" where
  "WithUserID userID config = config\<lparr>xc_user_id := userID\<rparr>"

definition WithDeviceID :: "string \<Rightarrow> context_config \<Rightarrow> context_config" where
  "WithDeviceID deviceID config = config\<lparr>xc_device_id := deviceID\<rparr>"

definition WithMetadata :: "(string \<times> string) list \<Rightarrow> context_config \<Rightarrow> context_config" where
  "WithMetadata metadata config = config\<lparr>xc_metadata := metadata\<rparr>"

record run_config =
  rf_run_id :: string
  rf_session_id :: string

text \<open>
  The two maps of \<open>requestTags\<close> while the sources are added in the order of their priorities, and the
  tags that come out of them: a later source replaces an earlier one under the same key.
\<close>

definition add_tags :: "(string \<times> string) list \<Rightarrow> nat \<Rightarrow> (string \<times> string) list \<times> (string \<times> (string \<times> nat)) list \<Rightarrow>
    (string \<times> string) list \<times> (string \<times> (string \<times> nat)) list" where
  "add_tags tags priority maps = fold (\<lambda>(key, v) (protocol, custom).
     if reservedMetadataKey key then (AList.update key v protocol, custom)
     else (case map_of custom key of
         Some (_, current) \<Rightarrow> (protocol, if priority \<ge> current then AList.update key (v, priority) custom else custom)
       | None \<Rightarrow> (protocol, AList.update key (v, priority) custom))) tags maps"

definition request_sources :: "context_config \<Rightarrow> (string \<times> string) list \<Rightarrow> (string \<times> string) list \<Rightarrow> run_config \<Rightarrow>
    (string \<times> string) list list" where
  "request_sources config defaults metadata run =
    [defaults, tagAttributes '''' '''' '''' metadata,
     tagAttributes '''' (xc_user_id config) (xc_device_id config) (xc_metadata config),
     (if rf_session_id run \<noteq> '''' then [(threadIDAttribute, rf_session_id run)] else []) @
     (if rf_run_id run \<noteq> '''' then [(messageIDAttribute, rf_run_id run)] else [])]"

text \<open>The reserved tags by name, then those of the others with the highest priorities, by name.\<close>

definition tag_order :: "string \<times> (string \<times> nat) \<Rightarrow> int \<times> string" where
  "tag_order = (\<lambda>(key, (_, priority)). (- int priority, key))"

definition select_tags :: "(string \<times> string) list \<Rightarrow> (string \<times> (string \<times> nat)) list \<Rightarrow> (string \<times> string) list" where
  "select_tags protocol custom =
    sort_key fst protocol @ map (\<lambda>(key, (v, _)). (key, v)) (take maxMetadataTagCount (sort_key tag_order custom))"

definition requestTags :: "context_config \<Rightarrow> (string \<times> string) list \<Rightarrow> (string \<times> string) list \<Rightarrow> run_config \<Rightarrow> (string \<times> string) list" where
  "requestTags config defaults metadata run =
    (let (protocol, custom) = fold (\<lambda>(priority, tags). add_tags tags priority)
           (enumerate 0 (request_sources config defaults metadata run)) ([], [])
     in select_tags protocol custom)"

definition tag_attrs :: "(string \<times> string) list \<Rightarrow> attrs" where
  "tag_attrs tags = map (\<lambda>(k, v). (k, TextAttr v)) tags"

definition containsAttribute :: "attrs \<Rightarrow> string \<Rightarrow> bool" where
  "containsAttribute attributes key \<longleftrightarrow> key \<in> fst ` set attributes"

section \<open>Texts\<close>

fun joined_lines :: "string list \<Rightarrow> string" where
  "joined_lines [] = ''''"
| "joined_lines [x] = x"
| "joined_lines (x # xs) = x @ newline # joined_lines xs"

definition parts_text :: "part list \<Rightarrow> string" where
  "parts_text ps = joined_lines (filter (\<lambda>s. s \<noteq> '''') (map pt_text ps))"

definition messagesText :: "(role \<times> part list) list \<Rightarrow> string" where
  "messagesText ms = joined_lines (map (\<lambda>(r, ps). (if role_text r \<noteq> '''' then role_text r @ '': '' else '''') @ parts_text ps)
     (filter (\<lambda>(r, ps). parts_text ps \<noteq> '''') ms))"

definition request_texts :: "request \<Rightarrow> (role \<times> part list) list" where
  "request_texts rq = map (\<lambda>m. (msg_role m, msg_parts m)) (rq_messages rq)"

definition agentInput :: "request \<Rightarrow> string" where
  "agentInput rq = messagesText (request_texts rq)"

definition agentOutput :: "response \<Rightarrow> string" where
  "agentOutput rs = parts_text (msg_parts (rs_message rs))"

definition query_json :: "string \<Rightarrow> json" where
  "query_json s = JObject (omitempty (s = '''') ''contents''
     (JArray [JObject (jopt ''content_type'' ''text'' @ jopt ''text'' s)]))"

definition fornaxQueryInput :: "request \<Rightarrow> json" where
  "fornaxQueryInput rq = query_json (agentInput rq)"

definition fornaxQueryOutput :: "response \<Rightarrow> json" where
  "fornaxQueryOutput rs = query_json (agentOutput rs)"

section \<open>Model and tool payloads\<close>

definition messagePartsAreTextOnly :: "part list \<Rightarrow> bool" where
  "messagePartsAreTextOnly ps \<longleftrightarrow> (\<forall>p \<in> set ps. part_type_text (pt_type p) = '''' \<or> pt_type p = PartText)"

definition modelParts :: "part list \<Rightarrow> json list" where
  "modelParts ps = map (\<lambda>p. JObject (jfield ''type''
       (jstr (if part_type_text (pt_type p) = '''' then ''text'' else part_type_text (pt_type p))) @ jopt ''text'' (pt_text p)))
     (filter (\<lambda>p. pt_text p \<noteq> '''') ps)"

text \<open>A \<open>modelMessagePayload\<close>: the identifier of the call and the name are never set.\<close>

definition modelMessage :: "chat_message \<Rightarrow> json list \<Rightarrow> json" where
  "modelMessage m calls =
    (let parts = (if messagePartsAreTextOnly (cm_parts m) then [] else modelParts (cm_parts m)) in
     JObject (jfield ''role'' (jstr (role_text (cm_role m))) @ jopt ''content'' (parts_text (cm_parts m)) @
       omitempty (parts = []) ''parts'' (JArray parts) @ omitempty (calls = []) ''tool_calls'' (JArray calls)))"

definition modelToolCall :: "call \<Rightarrow> json" where
  "modelToolCall c = JObject (jopt ''id'' (cl_id c) @ jfield ''type'' (jstr ''function'') @
     jfield ''function'' (JObject (jfield ''name'' (jstr (cl_name c)) @ jopt ''arguments'' (cl_arguments c))))"

definition modelTool :: "chat_tool \<Rightarrow> json option" where
  "modelTool t = map_option (\<lambda>parameters. JObject (jfield ''type'' (jstr ''function'') @
     jfield ''function'' (JObject (jfield ''name'' (jstr (ct_name t)) @ jopt ''description'' (ct_description t) @ parameters))))
     (if ct_schema t = [] then Some [] else map_option (jfield ''parameters'') (raw_json (ct_schema t)))"

fun choice_mode_name :: "choice_mode \<Rightarrow> string" where
  "choice_mode_name ChoiceUnset = ''''" | "choice_mode_name ChoiceAuto = ''auto''" | "choice_mode_name ChoiceNone = ''none''"
| "choice_mode_name ChoiceRequired = ''required''" | "choice_mode_name ChoiceNamed = ''named''" | "choice_mode_name (ChoiceOther s) = s"

definition modelChoice :: "tool_choice \<Rightarrow> (bytes \<times> json) list" where
  "modelChoice choice =
    (if choice_mode_name (ch_mode choice) = '''' then []
     else jfield ''tool_choice'' (JObject (
       jfield ''type'' (jstr (if ch_mode choice = ChoiceNamed then ''function'' else choice_mode_name (ch_mode choice))) @
       (if ch_name choice = '''' then [] else jfield ''function'' (JObject (jfield ''name'' (jstr (ch_name choice))))))))"

definition modelInput :: "model_request \<Rightarrow> json option" where
  "modelInput rq = map_option (\<lambda>tools.
     JObject (omitempty (mr_messages rq = []) ''messages'' (JArray (map (\<lambda>m. modelMessage m []) (mr_messages rq))) @
       omitempty (tools = []) ''tools'' (JArray tools) @ modelChoice (mr_tool_choice rq)))
     (all_some (map modelTool (mr_tools rq)))"

record traced_response =
  tp_message :: chat_message
  tp_usage :: usage
  tp_finish_reason :: string

definition modelOutput :: "traced_response \<Rightarrow> json" where
  "modelOutput rs = JObject (jfield ''choices'' (JArray [JObject (jfield ''finish_reason'' (jstr (tp_finish_reason rs)) @
     jfield ''index'' (jnum 0) @
     jfield ''message'' (modelMessage (tp_message rs) (map modelToolCall (cm_tool_calls (tp_message rs)))))]))"

text \<open>
  A value of any type, decoded and written again: the members of an object are sorted, numbers are
  written as \<open>encoding/json\<close> writes a float (the argument \<open>number\<close>, \<open>None\<close> out of range).
\<close>

fun any_json :: "(bytes \<Rightarrow> bytes option) \<Rightarrow> json \<Rightarrow> json option" where
  "any_json number (JNumber r) = map_option JNumber (number r)"
| "any_json number (JString r) = Some (jstr (unquote r))"
| "any_json number (JArray vs) = map_option JArray (all_some (map (any_json number) vs))"
| "any_json number (JObject kvs) =
    map_option (\<lambda>ms. JObject (map (\<lambda>(k, v). (quote_text k, v)) (sort_key fst (object_map ms))))
      (all_some (map (\<lambda>(k, v). map_option (Pair k) (any_json number v)) kvs))"
| "any_json number v = Some v"

definition toolInput :: "(bytes \<Rightarrow> bytes option) \<Rightarrow> call \<Rightarrow> json" where
  "toolInput number c =
    (if cl_arguments c = [] then JObject (jfield ''tool_call_id'' (jstr (cl_id c)) @ jfield ''tool_name'' (jstr (cl_name c)))
     else case (case parse_json (cl_arguments c) of None \<Rightarrow> None | Some v \<Rightarrow> any_json number v) of
         Some v \<Rightarrow> v | None \<Rightarrow> jstr (cl_arguments c))"

datatype tool_outcome = ResultOutcome "json option" | ErrorOutcome "json option" | NilErrorOutcome | OtherOutcome "json option"

definition toolOutput :: "tool_outcome \<Rightarrow> json option" where
  "toolOutput outcome = (case outcome of ResultOutcome preview \<Rightarrow> preview | ErrorOutcome v \<Rightarrow> v
     | NilErrorOutcome \<Rightarrow> Some JNull | OtherOutcome v \<Rightarrow> v)"

section \<open>The field of a trace\<close>

definition traceJSON :: "json option \<Rightarrow> string \<times> bool" where
  "traceJSON v = (case v of
     None \<Rightarrow> ('''', False)
   | Some j \<Rightarrow> (let encoded = print_json j in if length encoded > maxTraceFieldBytes then ('''', True) else (encoded, False)))"

end
