(* ===== verification/Fornax_Sink.thy ===== *)
theory Fornax_Sink
  imports Fornax_Payload
begin

text \<open>
  \<open>src/middleware/byted/fornax/fornax.go\<close>: the sink that turns the events of workflows, models and
  tools into spans. A span is a number, which also stands for the context that carries it; the
  calls of the tracer are a log, since OpenTelemetry is not part of the repository. A time that is
  \<open>None\<close> is the time of the call. The order of a list stands for that of the iteration of a map.
\<close>

section \<open>Spans\<close>

datatype span_op =
    Started nat string "nat option" attrs "instant option"
  | SetAttributes nat attrs
  | SetStatus nat string
  | Ended nat "instant option"

definition markError :: "nat \<Rightarrow> string option \<Rightarrow> string \<Rightarrow> bool \<Rightarrow> span_op list" where
  "markError span err kind detail =
    [SetStatus span kind, SetAttributes span [(statusAttribute, IntAttr (-1))]] @
    (if kind \<noteq> '''' then [SetAttributes span [(errorKindAttribute, TextAttr kind)]] else []) @
    (if detail then (case err of None \<Rightarrow> [] | Some e \<Rightarrow> [SetAttributes span [(errorAttribute, TextAttr e)]]) else [])"

definition setCutOff :: "nat \<Rightarrow> bool \<Rightarrow> bool \<Rightarrow> span_op list" where
  "setCutOff span input output =
    (let text = (\<lambda>names. ''['' @ join_strings '','' (map (\<lambda>n. [CHR 0x22] @ n @ [CHR 0x22]) names) @ '']'') in
     if input \<and> output then [SetAttributes span [(cutOffAttribute, TextAttr (text [''input'', ''output'']))]]
     else if input then [SetAttributes span [(cutOffAttribute, TextAttr (text [''input'']))]]
     else if output then [SetAttributes span [(cutOffAttribute, TextAttr (text [''output'']))]]
     else [])"

text \<open>The attribute of a traced value, and whether it was cut off, with the flag as it was.\<close>

definition setTraceJSON :: "nat \<Rightarrow> string \<Rightarrow> json option \<Rightarrow> bool \<Rightarrow> span_op list \<times> bool" where
  "setTraceJSON span key v cutOff =
    (let (encoded, truncated) = traceJSON v
     in (if encoded \<noteq> '''' then [SetAttributes span [(key, TextAttr encoded)]] else [], cutOff \<or> truncated))"

definition ok_status :: "nat \<Rightarrow> span_op list" where
  "ok_status span = [SetAttributes span [(statusAttribute, IntAttr 0)]]"

section \<open>Events\<close>

datatype event_kind =
    WorkflowStarted | WorkflowResumed | WorkflowRetryStarted | WorkflowJumpStarted
  | WorkflowCompleted | WorkflowFailed | WorkflowCanceled | WorkflowTerminated | WorkflowInterrupted
  | NodeStarted | NodeRetrying | NodeCompleted | NodeCanceled | NodeSuperseded | NodeSkipped | NodeFailed
  | OtherEvent string

record run_event =
  vt_type :: event_kind
  vt_run :: string
  vt_parent_run :: string
  vt_definition :: string
  vt_session :: string
  vt_node :: string
  vt_activation :: string
  vt_attempt :: string
  vt_time :: "instant option"

text \<open>A timestamp that is zero is \<open>None\<close>.\<close>

definition eventTime :: "run_event \<Rightarrow> instant option" where
  "eventTime ev = vt_time ev"

definition nul :: string where "nul = [CHR 0x00]"

definition nodeKey :: "run_event \<Rightarrow> string" where
  "nodeKey ev = (if vt_attempt ev \<noteq> '''' then vt_run ev @ nul @ vt_attempt ev
     else if vt_activation ev \<noteq> '''' then vt_run ev @ nul @ vt_activation ev else '''')"

definition runAttributes :: "run_event \<Rightarrow> string \<Rightarrow> attrs" where
  "runAttributes ev spanType = [(spanTypeAttribute, TextAttr spanType), (runIDAttribute, TextAttr (vt_run ev))] @
     (if vt_definition ev \<noteq> '''' then [(agentNameAttribute, TextAttr (vt_definition ev))] else []) @
     (if vt_parent_run ev \<noteq> '''' then [(parentRunIDAttribute, TextAttr (vt_parent_run ev))] else [])"

definition nodeAttributes :: "run_event \<Rightarrow> attrs" where
  "nodeAttributes ev = [(spanTypeAttribute, TextAttr ''graph''), (runIDAttribute, TextAttr (vt_run ev)),
     (nodeIDAttribute, TextAttr (vt_node ev)), (activationIDAttribute, TextAttr (vt_activation ev)),
     (attemptIDAttribute, TextAttr (vt_attempt ev))]"

text \<open>What \<open>workflow.RunInfoFromContext\<close> gives for the context of an event of a model or a tool.\<close>

record run_info =
  ri_run :: string
  ri_activation :: string
  ri_attempt :: int

definition activeNodeKeys :: "run_info \<Rightarrow> string list" where
  "activeNodeKeys info =
    (if ri_run info = '''' \<or> ri_activation info = '''' then []
     else
       (let id = (if ri_attempt info > 0 then ri_activation info @ ''/attempt-'' @ itoa (ri_attempt info) else ri_activation info)
        in [ri_run info @ nul @ id] @
           (if has_prefix id (ri_run info @ ''/'') then [] else [ri_run info @ nul @ ri_run info @ ''/'' @ id])))"

datatype model_event_kind = ModelCallStarted | ModelCallFinished | ModelUsage | ModelFinish | ModelOther string

record traced_model_event =
  vm_type :: model_event_kind
  vm_request :: "model_request option"
  vm_response :: "traced_response option"
  vm_err :: "string option"
  vm_summary :: string
  vm_payload :: bytes

datatype tool_event_kind = ToolCallStarted | ToolCallFinished | ToolOther string

record tool_event =
  vl_type :: tool_event_kind
  vl_call :: call
  vl_outcome :: tool_outcome
  vl_err :: "string option"

section \<open>The state of the sink\<close>

record component =
  cp_span :: nat
  cp_input_cut :: bool
  cp_output_cut :: bool
  cp_failed :: bool

record run_span =
  rn_span :: nat
  rn_root :: bool

record node_span =
  nd_span :: nat
  nd_model :: "component option"
  nd_model_ctx :: "nat option"
  nd_tools :: "(string \<times> component) list"
  nd_failed :: bool

record sink_state =
  ks_root_run :: string
  ks_direct :: "component option"
  ks_runs :: "(string \<times> run_span) list"
  ks_nodes :: "(string \<times> node_span) list"
  ks_has_run :: bool
  ks_has_session :: bool
  ks_tags :: attrs
  ks_next :: nat
  ks_ops :: "span_op list"

text \<open>
  The root span is 0, the span of the agent, whose context is \<open>rootCtx\<close>, is 1. \<open>kc_number\<close> is the
  text of a decoded number, \<open>kc_text\<close> the text of an error.
\<close>

record sink_config =
  kc_capture :: bool
  kc_number :: "bytes \<Rightarrow> bytes option"
  kc_text :: "agent_error \<Rightarrow> string"

definition root_span :: nat where "root_span = 0"
definition agent_span :: nat where "agent_span = 1"

definition record_ops :: "span_op list \<Rightarrow> sink_state \<Rightarrow> sink_state" where
  "record_ops ops s = s\<lparr>ks_ops := ks_ops s @ ops\<rparr>"

text \<open>\<open>tracer.Start\<close>: a new span under a parent.\<close>

definition start_span :: "nat \<Rightarrow> string \<Rightarrow> attrs \<Rightarrow> instant option \<Rightarrow> sink_state \<Rightarrow> nat \<times> sink_state" where
  "start_span parent name attributes time s =
    (ks_next s, record_ops [Started (ks_next s) name (Some parent) attributes time] (s\<lparr>ks_next := ks_next s + 1\<rparr>))"

definition newEventSink :: "attrs \<Rightarrow> span_op list \<Rightarrow> sink_state" where
  "newEventSink tags ops = \<lparr>ks_root_run = '''', ks_direct = None, ks_runs = [], ks_nodes = [],
     ks_has_run = containsAttribute tags messageIDAttribute, ks_has_session = containsAttribute tags threadIDAttribute,
     ks_tags = tags, ks_next = 2, ks_ops = ops\<rparr>"

section \<open>Runs and nodes\<close>

definition backfillInvocationIDs :: "run_event \<Rightarrow> sink_state \<Rightarrow> sink_state" where
  "backfillInvocationIDs ev s =
    (let session = (\<not> ks_has_session s \<and> vt_session ev \<noteq> '''');
         attributes = (if ks_has_run s then [] else [(messageIDAttribute, TextAttr (vt_run ev))]) @
           (if session then [(threadIDAttribute, TextAttr (vt_session ev))] else []);
         s1 = s\<lparr>ks_has_run := True, ks_has_session := ks_has_session s \<or> session\<rparr>
     in if attributes = [] then s1
        else record_ops [SetAttributes root_span attributes, SetAttributes agent_span attributes]
          (s1\<lparr>ks_tags := ks_tags s1 @ attributes\<rparr>))"

definition startRun :: "run_event \<Rightarrow> sink_state \<Rightarrow> sink_state" where
  "startRun ev s =
    (if vt_run ev = '''' \<or> map_of (ks_runs s) (vt_run ev) \<noteq> None then s
     else if ks_root_run s = '''' \<and> vt_parent_run ev = '''' then
       (let s1 = record_ops [SetAttributes root_span (runAttributes ev ''fornax_query'')]
              (backfillInvocationIDs ev (s\<lparr>ks_root_run := vt_run ev\<rparr>))
        in s1\<lparr>ks_runs := AList.update (vt_run ev) \<lparr>rn_span = root_span, rn_root = True\<rparr> (ks_runs s1)\<rparr>)
     else
       (let parent = (case map_of (ks_runs s) (vt_parent_run ev) of
              Some r \<Rightarrow> if rn_root r then agent_span else rn_span r | None \<Rightarrow> agent_span);
            (span, s1) = start_span parent (if vt_definition ev = '''' then ''agent'' else vt_definition ev)
              (runAttributes ev ''agent'' @ ks_tags s) (eventTime ev) s
        in s1\<lparr>ks_runs := AList.update (vt_run ev) \<lparr>rn_span = span, rn_root = False\<rparr> (ks_runs s1)\<rparr>))"

definition finishRun :: "sink_config \<Rightarrow> run_event \<Rightarrow> sink_state \<Rightarrow> sink_state" where
  "finishRun k ev s = (case map_of (ks_runs s) (vt_run ev) of
     None \<Rightarrow> s
   | Some r \<Rightarrow>
       (let s1 = record_ops (if vt_type ev = WorkflowCompleted then ok_status (rn_span r)
              else markError (rn_span r) None ''run_error'' (kc_capture k)) s
        in if rn_root r then s1
           else (record_ops [Ended (rn_span r) (eventTime ev)] s1)\<lparr>ks_runs := AList.delete (vt_run ev) (ks_runs s)\<rparr>))"

definition startNode :: "run_event \<Rightarrow> sink_state \<Rightarrow> sink_state" where
  "startNode ev s =
    (let key = nodeKey ev in
     if key = '''' \<or> map_of (ks_nodes s) key \<noteq> None then s
     else
       (let parent = (case map_of (ks_runs s) (vt_run ev) of
              Some r \<Rightarrow> if rn_root r then agent_span else rn_span r | None \<Rightarrow> agent_span);
            (span, s1) = start_span parent (if vt_node ev = '''' then ''node'' else vt_node ev)
              (nodeAttributes ev @ ks_tags s) (eventTime ev) s
        in s1\<lparr>ks_nodes := AList.update key \<lparr>nd_span = span, nd_model = None, nd_model_ctx = None, nd_tools = [], nd_failed = False\<rparr> (ks_nodes s1)\<rparr>))"

definition component_ends :: "node_span \<Rightarrow> span_op list" where
  "component_ends n = (case nd_model n of None \<Rightarrow> [] | Some c \<Rightarrow> [Ended (cp_span c) None]) @
     map (\<lambda>(_, c). Ended (cp_span c) None) (nd_tools n)"

definition finishNode :: "sink_config \<Rightarrow> run_event \<Rightarrow> sink_state \<Rightarrow> sink_state" where
  "finishNode k ev s = (case map_of (ks_nodes s) (nodeKey ev) of
     None \<Rightarrow> s
   | Some n \<Rightarrow>
       (record_ops (component_ends n @
          (if (vt_type ev = NodeCompleted \<or> vt_type ev = NodeSkipped) \<and> \<not> nd_failed n then ok_status (nd_span n)
           else markError (nd_span n) None ''node_error'' (kc_capture k)) @
          [Ended (nd_span n) (eventTime ev)]) s)\<lparr>ks_nodes := AList.delete (nodeKey ev) (ks_nodes s)\<rparr>)"

definition Emit :: "sink_config \<Rightarrow> run_event \<Rightarrow> sink_state \<Rightarrow> sink_state" where
  "Emit k ev s =
    (if vt_type ev \<in> set [WorkflowStarted, WorkflowResumed, WorkflowRetryStarted, WorkflowJumpStarted] then startRun ev s
     else if vt_type ev \<in> set [WorkflowCompleted, WorkflowFailed, WorkflowCanceled, WorkflowTerminated, WorkflowInterrupted]
     then finishRun k ev s
     else if vt_type ev = NodeStarted then startNode ev s
     else if vt_type ev \<in> set [NodeRetrying, NodeCompleted, NodeCanceled, NodeSuperseded, NodeSkipped, NodeFailed]
     then finishNode k ev s
     else s)"

section \<open>Model calls\<close>

definition setUsageAttributes :: "nat \<Rightarrow> usage \<Rightarrow> span_op list" where
  "setUsageAttributes span u =
    (if us_input u \<noteq> 0 then [SetAttributes span [(inputTokensAttribute, IntAttr (us_input u))]] else []) @
    (if us_output u \<noteq> 0 then [SetAttributes span [(outputTokensAttribute, IntAttr (us_output u))]] else []) @
    (if us_total u \<noteq> 0 then [SetAttributes span [(totalTokensAttribute, IntAttr (us_total u))]] else [])"

definition setModelEventUsage :: "nat \<Rightarrow> traced_model_event \<Rightarrow> span_op list" where
  "setModelEventUsage span ev =
    (case vm_response ev of None \<Rightarrow> [] | Some r \<Rightarrow> setUsageAttributes span (tp_usage r)) @
    (if vm_payload ev = [] then []
     else case unmarshal usage_fields (vm_payload ev) no_usage of None \<Rightarrow> [] | Some u \<Rightarrow> setUsageAttributes span u)"

definition setModelResponseAttributes :: "sink_config \<Rightarrow> nat \<Rightarrow> traced_response \<Rightarrow> bool \<Rightarrow> span_op list \<times> bool" where
  "setModelResponseAttributes k span r cutOff =
    (let (ops, cut) = (if kc_capture k then setTraceJSON span outputAttribute (Some (modelOutput r)) cutOff else ([], cutOff))
     in (ops @ setUsageAttributes span (tp_usage r) @
         (if tp_finish_reason r \<noteq> '''' then [SetAttributes span [(finishReasonAttribute, TextAttr (tp_finish_reason r))]] else []), cut))"

definition startModelSpan :: "sink_config \<Rightarrow> nat \<Rightarrow> model_request option \<Rightarrow> bool \<Rightarrow> span_op list \<times> bool" where
  "startModelSpan k span rq cutOff =
    (let first = [SetAttributes span [(spanTypeAttribute, TextAttr ''model'')]] in
     case rq of
       None \<Rightarrow> (first, cutOff)
     | Some r \<Rightarrow>
         (let (ops, cut) = (if kc_capture k then setTraceJSON span inputAttribute (modelInput r) cutOff else ([], cutOff))
          in (first @ ops @
              (if mr_model r \<noteq> '''' then [SetAttributes span [(modelNameAttribute, TextAttr (mr_model r))]] else []), cut)))"

text \<open>The new state of the component with the operations on its span.\<close>

definition updateModelSpan :: "sink_config \<Rightarrow> traced_model_event \<Rightarrow> component \<Rightarrow> span_op list \<times> component" where
  "updateModelSpan k ev c = (case vm_type ev of
     ModelCallStarted \<Rightarrow>
       (let (ops, cut) = startModelSpan k (cp_span c) (vm_request ev) (cp_input_cut c) in (ops, c\<lparr>cp_input_cut := cut\<rparr>))
   | ModelCallFinished \<Rightarrow>
       (let (ops, cut) = (case vm_response ev of None \<Rightarrow> ([], cp_output_cut c)
              | Some r \<Rightarrow> setModelResponseAttributes k (cp_span c) r (cp_output_cut c));
            c1 = c\<lparr>cp_output_cut := cut\<rparr>
        in if vm_err ev = None then (ops, c1)
           else (ops @ markError (cp_span c) (vm_err ev) ''model_error'' (kc_capture k), c1\<lparr>cp_failed := True\<rparr>))
   | ModelUsage \<Rightarrow> (setModelEventUsage (cp_span c) ev, c)
   | ModelFinish \<Rightarrow>
       (if vm_summary ev \<noteq> '''' then [SetAttributes (cp_span c) [(finishReasonAttribute, TextAttr (vm_summary ev))]] else [], c)
   | ModelOther _ \<Rightarrow> ([], c))"

definition new_component :: "nat \<Rightarrow> component" where
  "new_component span = \<lparr>cp_span = span, cp_input_cut = False, cp_output_cut = False, cp_failed = False\<rparr>"

text \<open>The span of a model call that starts.\<close>

definition start_model :: "sink_config \<Rightarrow> nat \<Rightarrow> traced_model_event \<Rightarrow> sink_state \<Rightarrow> component \<times> sink_state" where
  "start_model k parent ev s =
    (let (span, s1) = start_span parent ''model'' ([(spanTypeAttribute, TextAttr ''model'')] @ ks_tags s) None s;
         (ops, c) = updateModelSpan k ev (new_component span)
     in (c, record_ops ops s1))"

text \<open>A further event of a model call; the component is gone when the call is finished.\<close>

definition update_model :: "sink_config \<Rightarrow> traced_model_event \<Rightarrow> component \<Rightarrow> span_op list \<times> component \<times> bool" where
  "update_model k ev c =
    (let (ops, c1) = updateModelSpan k ev c;
         ops1 = ops @ setCutOff (cp_span c1) (cp_input_cut c1) (cp_output_cut c1)
     in if vm_type ev = ModelCallFinished
        then (ops1 @ (if cp_failed c1 then [] else ok_status (cp_span c1)) @ [Ended (cp_span c1) None], c1, True)
        else (ops1, c1, False))"

definition emitDirectModelEvent :: "sink_config \<Rightarrow> traced_model_event \<Rightarrow> sink_state \<Rightarrow> sink_state" where
  "emitDirectModelEvent k ev s =
    (if vm_type ev = ModelCallStarted then
       (if ks_direct s \<noteq> None then s else (let (c, s1) = start_model k agent_span ev s in s1\<lparr>ks_direct := Some c\<rparr>))
     else case ks_direct s of
         None \<Rightarrow> s
       | Some c \<Rightarrow>
           (let (ops, c1, finished) = update_model k ev c
            in (record_ops ops s)\<lparr>ks_direct := if finished then None else Some c1\<rparr>))"

definition activeNode :: "run_info \<Rightarrow> sink_state \<Rightarrow> (string \<times> node_span) option" where
  "activeNode info s = (case find (\<lambda>key. map_of (ks_nodes s) key \<noteq> None) (activeNodeKeys info) of
     None \<Rightarrow> None | Some key \<Rightarrow> Some (key, the (map_of (ks_nodes s) key)))"

definition startNodeModel :: "sink_config \<Rightarrow> traced_model_event \<Rightarrow> node_span \<Rightarrow> sink_state \<Rightarrow> node_span \<times> sink_state" where
  "startNodeModel k ev n s =
    (let s0 = record_ops (case nd_model n of None \<Rightarrow> [] | Some c \<Rightarrow> [Ended (cp_span c) None]) s;
         (c, s1) = start_model k (nd_span n) ev s0
     in (n\<lparr>nd_model := Some c, nd_model_ctx := Some (cp_span c)\<rparr>, s1))"

definition EmitModelEvent :: "sink_config \<Rightarrow> run_info \<Rightarrow> traced_model_event \<Rightarrow> sink_state \<Rightarrow> sink_state" where
  "EmitModelEvent k info ev s = (case activeNode info s of
     None \<Rightarrow> emitDirectModelEvent k ev s
   | Some (key, n) \<Rightarrow>
       if vm_type ev = ModelCallStarted then
         (let (n1, s1) = startNodeModel k ev n s in s1\<lparr>ks_nodes := AList.update key n1 (ks_nodes s1)\<rparr>)
       else (case nd_model n of
           None \<Rightarrow> s
         | Some c \<Rightarrow>
             (let (ops, c1, finished) = update_model k ev c;
                  n1 = (if finished then n\<lparr>nd_model := None, nd_failed := nd_failed n \<or> cp_failed c1\<rparr> else n\<lparr>nd_model := Some c1\<rparr>)
              in (record_ops ops s)\<lparr>ks_nodes := AList.update key n1 (ks_nodes s)\<rparr>)))"

section \<open>Tool calls\<close>

definition toolEventKey :: "call \<Rightarrow> string" where
  "toolEventKey c = (if cl_id c \<noteq> '''' then cl_id c else cl_name c)"

definition startNodeTool :: "sink_config \<Rightarrow> call \<Rightarrow> node_span \<Rightarrow> sink_state \<Rightarrow> node_span \<times> sink_state" where
  "startNodeTool k c n s =
    (let parent = (case nd_model_ctx n of Some ctx \<Rightarrow> ctx | None \<Rightarrow> nd_span n);
         (span, s1) = start_span parent (if cl_name c = '''' then ''tool'' else cl_name c)
           ([(spanTypeAttribute, TextAttr ''tool'')] @ ks_tags s) None s;
         (ops, cut) = (if kc_capture k then setTraceJSON span inputAttribute (Some (toolInput (kc_number k) c)) False else ([], False));
         tool = (new_component span)\<lparr>cp_input_cut := cut\<rparr>
     in (n\<lparr>nd_tools := AList.update (toolEventKey c) tool (nd_tools n)\<rparr>,
         record_ops (SetAttributes span [(toolNameAttribute, TextAttr (cl_name c)), (toolCallIDAttribute, TextAttr (cl_id c))] # ops) s1))"

definition outcome_failed :: "tool_outcome \<Rightarrow> bool" where
  "outcome_failed outcome = (case outcome of ErrorOutcome _ \<Rightarrow> True | _ \<Rightarrow> False)"

definition finishNodeTool :: "sink_config \<Rightarrow> tool_event \<Rightarrow> node_span \<Rightarrow> sink_state \<Rightarrow> node_span \<times> sink_state" where
  "finishNodeTool k ev n s = (case map_of (nd_tools n) (toolEventKey (vl_call ev)) of
     None \<Rightarrow> (n, s)
   | Some tool \<Rightarrow>
       (let span = cp_span tool;
            (ops, cut) = (if kc_capture k then setTraceJSON span outputAttribute (toolOutput (vl_outcome ev)) (cp_output_cut tool)
              else ([], cp_output_cut tool));
            failing = (if vl_err ev \<noteq> None then markError span (vl_err ev) ''tool_error'' (kc_capture k)
              else if outcome_failed (vl_outcome ev) then markError span None ''tool_error_outcome'' (kc_capture k) else []);
            failed = (cp_failed tool \<or> vl_err ev \<noteq> None \<or> outcome_failed (vl_outcome ev))
        in (n\<lparr>nd_tools := AList.delete (toolEventKey (vl_call ev)) (nd_tools n), nd_failed := nd_failed n \<or> failed\<rparr>,
            record_ops (ops @ failing @ setCutOff span (cp_input_cut tool) cut @ (if failed then [] else ok_status span) @
              [Ended span None]) s)))"

definition EmitToolEvent :: "sink_config \<Rightarrow> run_info \<Rightarrow> tool_event \<Rightarrow> sink_state \<Rightarrow> sink_state" where
  "EmitToolEvent k info ev s = (case activeNode info s of
     None \<Rightarrow> s
   | Some (key, n) \<Rightarrow>
       (let (n1, s1) = (case vl_type ev of
              ToolCallStarted \<Rightarrow> startNodeTool k (vl_call ev) n s
            | ToolCallFinished \<Rightarrow> finishNodeTool k ev n s
            | ToolOther _ \<Rightarrow> (n, s))
        in s1\<lparr>ks_nodes := AList.update key n1 (ks_nodes s1)\<rparr>))"

section \<open>The end\<close>

definition finish_sink :: "sink_config \<Rightarrow> string option \<Rightarrow> sink_state \<Rightarrow> sink_state" where
  "finish_sink k err s =
    (let mark = (\<lambda>span kind. if err = None then [] else markError span err kind (kc_capture k));
         nodes = concat (map (\<lambda>(_, n). mark (nd_span n) ''node_error'' @ component_ends n @ [Ended (nd_span n) None]) (ks_nodes s));
         runs = concat (map (\<lambda>(_, r). if rn_root r then [] else mark (rn_span r) ''run_error'' @ [Ended (rn_span r) None]) (ks_runs s));
         direct = (case ks_direct s of None \<Rightarrow> [] | Some c \<Rightarrow> mark (cp_span c) ''model_error'' @ [Ended (cp_span c) None])
     in (record_ops (nodes @ runs @ direct) s)\<lparr>ks_nodes := [], ks_runs := filter (\<lambda>(_, r). rn_root r) (ks_runs s), ks_direct := None\<rparr>)"

datatype sink_event = RunEvent run_event | OfModel run_info traced_model_event | OfTool run_info tool_event

definition sink_step :: "sink_config \<Rightarrow> sink_event \<Rightarrow> sink_state \<Rightarrow> sink_state" where
  "sink_step k e s = (case e of
     RunEvent ev \<Rightarrow> Emit k ev s | OfModel info ev \<Rightarrow> EmitModelEvent k info ev s | OfTool info ev \<Rightarrow> EmitToolEvent k info ev s)"

definition sink_run :: "sink_config \<Rightarrow> sink_event list \<Rightarrow> sink_state \<Rightarrow> sink_state" where
  "sink_run k events s = fold (sink_step k) events s"

end
