(* ===== verification/Fornax_Agent.thy ===== *)
theory Fornax_Agent
  imports Fornax_Sink
begin

text \<open>
  \<open>src/middleware/byted/fornax/fornax.go\<close>: the wrapper of an agent, which opens the spans of the
  root and of the agent, gives the agent a sink, and ends what is open. What the target does is an
  argument: the events that it sends to the sink, in the order in which the mutex of the sink
  takes them, and its result.
\<close>

section \<open>The start of a trace\<close>

record middleware =
  mw_tags :: "(string \<times> string) list"

definition startTrace :: "sink_config \<Rightarrow> middleware \<Rightarrow> context_config \<Rightarrow> run_config \<Rightarrow> identity \<Rightarrow> request \<Rightarrow> sink_state \<times> bool" where
  "startTrace k m ctx run identity rq =
    (let tags = tag_attrs (requestTags ctx (mw_tags m) (rq_metadata rq) run);
         name = (if id_name identity = '''' then ''agent'' else id_name identity);
         (input, cutOff) = (if kc_capture k then traceJSON (Some (fornaxQueryInput rq)) else ('''', False));
         attributes = [(spanTypeAttribute, TextAttr ''fornax_query''), (agentNameAttribute, TextAttr name)] @ tags @
           (if input \<noteq> '''' then [(inputAttribute, TextAttr input)] else []) @
           (if cutOff then [(cutOffAttribute, TextAttr (''['' @ [CHR 0x22] @ ''input'' @ [CHR 0x22] @ '']''))] else []);
         ops = [Started root_span name None attributes None,
           Started agent_span name (Some root_span) ([(spanTypeAttribute, TextAttr ''agent''), (agentNameAttribute, TextAttr name)] @ tags) None] @
           (if kc_capture k then fst (setTraceJSON agent_span inputAttribute (Some (jstr (agentInput rq))) False) else [])
     in (newEventSink tags ops, cutOff))"

section \<open>The end of a trace\<close>

definition finishAgent :: "sink_config \<Rightarrow> agent_error + response \<Rightarrow> span_op list" where
  "finishAgent k result = (case result of
     Inl e \<Rightarrow> markError agent_span (Some (kc_text k e)) ''agent_error'' (kc_capture k)
   | Inr rs \<Rightarrow> ok_status agent_span @
       (if kc_capture k then fst (setTraceJSON agent_span outputAttribute (Some (jstr (agentOutput rs))) False) else []))"

definition finishRoot :: "sink_config \<Rightarrow> agent_error + response \<Rightarrow> bool \<Rightarrow> span_op list" where
  "finishRoot k result inputCutOff = (case result of
     Inl e \<Rightarrow> markError root_span (Some (kc_text k e)) ''agent_error'' (kc_capture k)
   | Inr rs \<Rightarrow> ok_status root_span @
       (if kc_capture k then
          (let (encoded, cut) = traceJSON (Some (fornaxQueryOutput rs))
           in (if encoded \<noteq> '''' then [SetAttributes root_span [(outputAttribute, TextAttr encoded)]] else []) @
              (if cut then setCutOff root_span inputCutOff True else []))
        else []))"

definition end_trace :: "sink_config \<Rightarrow> agent_error option \<Rightarrow> sink_state \<Rightarrow> span_op list" where
  "end_trace k err s = ks_ops (finish_sink k (map_option (kc_text k) err) s) @ [Ended agent_span None, Ended root_span None]"

definition result_error :: "agent_error + 'a \<Rightarrow> agent_error option" where
  "result_error r = (case r of Inl e \<Rightarrow> Some e | Inr _ \<Rightarrow> None)"

section \<open>Calls\<close>

text \<open>A middleware or a target that is nil is \<open>None\<close>; the operations are those on the spans.\<close>

definition traced_Invoke :: "sink_config \<Rightarrow> middleware option \<Rightarrow> identity option \<Rightarrow> context_config \<Rightarrow> run_config \<Rightarrow>
    (request \<Rightarrow> sink_event list \<times> (agent_error + response)) \<Rightarrow> request \<Rightarrow> span_op list \<times> (agent_error + response)" where
  "traced_Invoke k m identity ctx run target rq = (case (m, identity) of
     (None, _) \<Rightarrow> ([], Inl (Errorf ''fornax: middleware is nil'' []))
   | (_, None) \<Rightarrow> ([], Inl (Errorf ''fornax: target agent is nil'' []))
   | (Some mw, Some i) \<Rightarrow>
       (let (sink, cutOff) = startTrace k mw ctx run i rq; (events, result) = target rq;
            s = sink_run k events sink
        in (end_trace k (result_error result) (record_ops (finishAgent k result @ finishRoot k result cutOff) s), result)))"

subsection \<open>Streams\<close>

record traced_chunk =
  ck_text :: string
  ck_parts :: "part list"

definition streamChunkText :: "traced_chunk \<Rightarrow> string" where
  "streamChunkText c = (if ck_text c \<noteq> '''' then ck_text c else concat (map pt_text (ck_parts c)))"

record stream_output =
  so_text :: string
  so_truncated :: bool

definition add_chunk :: "sink_config \<Rightarrow> traced_chunk \<Rightarrow> stream_output \<Rightarrow> stream_output" where
  "add_chunk k c o' =
    (if \<not> kc_capture k \<or> so_truncated o' then o'
     else if int (length (streamChunkText c)) > int maxTraceFieldBytes - int (length (so_text o'))
     then o'\<lparr>so_truncated := True\<rparr>
     else o'\<lparr>so_text := so_text o' @ streamChunkText c\<rparr>)"

definition stream_response_of :: "stream_output \<Rightarrow> response" where
  "stream_response_of o' = \<lparr>rs_message = \<lparr>msg_role = RoleAssistant,
     msg_parts = [\<lparr>pt_type = PartText, pt_text = so_text o', pt_ref = None\<rparr>], msg_tool_calls = [], msg_tool_call_id = ''''\<rparr>,
     rs_artifacts = [], rs_metadata = []\<rparr>"

text \<open>
  An item of the target's stream: the events before it, a chunk, or an error with a chunk, and the
  events that follow when the stream is stopped there. The loop ends with the state of the sink,
  the output, what was forwarded, and how it ended.
\<close>

type_synonym stream_item = "sink_event list \<times> (agent_error + traced_chunk) \<times> sink_event list"


datatype stream_stop = StoppedByConsumer | StoppedByError agent_error | StreamCompleted

fun stream_loop :: "sink_config \<Rightarrow> (traced_chunk list \<Rightarrow> bool) \<Rightarrow> stream_item list \<Rightarrow> sink_event list \<Rightarrow>
    sink_state \<Rightarrow> stream_output \<Rightarrow> traced_chunk list \<Rightarrow> sink_state \<times> stream_output \<times> traced_chunk list \<times> stream_stop" where
  "stream_loop k wants [] rest s o' out = (sink_run k rest s, o', out, StreamCompleted)"
| "stream_loop k wants ((events, item, stopped) # items) rest s o' out =
    (let s1 = sink_run k events s in
     case item of
       Inl e \<Rightarrow> (sink_run k stopped s1, o', out, StoppedByError e)
     | Inr c \<Rightarrow>
         (let o1 = add_chunk k c o'; out1 = out @ [c]
          in if wants out1 then stream_loop k wants items rest s1 o1 out1 else (sink_run k stopped s1, o1, out1, StoppedByConsumer)))"

definition Canceled :: agent_error where "Canceled = Errorf ''context canceled'' []"

text \<open>
  \<open>ctxErr\<close> is the error of the context when the consumer stops. The result is the operations, the
  chunks that were forwarded, and the error that the consumer is given last, if any.
\<close>

definition traced_InvokeStream :: "sink_config \<Rightarrow> middleware option \<Rightarrow> identity option \<Rightarrow> context_config \<Rightarrow> run_config \<Rightarrow> agent_error option \<Rightarrow>
    (request \<Rightarrow> stream_item list \<times> sink_event list) \<Rightarrow> request \<Rightarrow> (traced_chunk list \<Rightarrow> bool) \<Rightarrow>
    span_op list \<times> traced_chunk list \<times> agent_error option" where
  "traced_InvokeStream k m identity ctx run ctxErr target rq wants = (case (identity, m) of
     (None, _) \<Rightarrow> ([], [], Some (Errorf ''fornax: target streaming agent is nil'' []))
   | (_, None) \<Rightarrow> ([], [], Some (Errorf ''fornax: middleware is nil'' []))
   | (Some i, Some mw) \<Rightarrow>
       (let (sink, cutOff) = startTrace k mw ctx run i rq; (items, rest) = target rq;
            (s, o', out, stop) = stream_loop k wants items rest sink \<lparr>so_text = '''', so_truncated = False\<rparr> [];
            err = (case stop of StreamCompleted \<Rightarrow> None | StoppedByError e \<Rightarrow> Some e
              | StoppedByConsumer \<Rightarrow> (case ctxErr of Some e \<Rightarrow> Some e | None \<Rightarrow> Some Canceled));
            result = (case err of Some e \<Rightarrow> Inl e | None \<Rightarrow> Inr (stream_response_of o'));
            ops = finishAgent k result @ finishRoot k result cutOff @ (if so_truncated o' then setCutOff root_span cutOff True else [])
        in (end_trace k err (record_ops ops s), out, case stop of StoppedByError e \<Rightarrow> Some e | _ \<Rightarrow> None)))"

end
