(* ===== verification/Fornax_Spans.thy ===== *)
theory Fornax_Spans
  imports Fornax_Agent "HOL-Library.Multiset"
begin

text \<open>
  The accounting of spans: a log of operations is in order when every span is new, is used and ended
  only while it is open, and has a parent that was started before it. What the sink keeps open is
  counted in its state, and each event changes log and count together.
\<close>

section \<open>Logs in order\<close>

text \<open>The spans that are open, and the number of the next one.\<close>

type_synonym open_spans = "nat multiset \<times> nat"

definition span_step :: "span_op \<Rightarrow> open_spans \<Rightarrow> open_spans option" where
  "span_step p st = (case (p, st) of (p, (open', next')) \<Rightarrow> (case p of
     Started n _ parent _ _ \<Rightarrow>
       if n = next' \<and> (case parent of None \<Rightarrow> True | Some q \<Rightarrow> q < n) then Some (add_mset n open', Suc n) else None
   | SetAttributes n _ \<Rightarrow> if n \<in># open' then Some st else None
   | SetStatus n _ \<Rightarrow> if n \<in># open' then Some st else None
   | Ended n _ \<Rightarrow> if n \<in># open' then Some (open' - {#n#}, next') else None))"

fun span_run :: "span_op list \<Rightarrow> open_spans \<Rightarrow> open_spans option" where
  "span_run [] st = Some st"
| "span_run (p # ps) st = (case span_step p st of None \<Rightarrow> None | Some st1 \<Rightarrow> span_run ps st1)"

lemma span_run_append:
  "span_run (ps @ qs) st = (case span_run ps st of None \<Rightarrow> None | Some st1 \<Rightarrow> span_run qs st1)"
  by (induction ps arbitrary: st) (auto split: option.split)

lemma span_run_appendI [intro]:
  "span_run ps st = Some st1 \<Longrightarrow> span_run qs st1 = r \<Longrightarrow> span_run (ps @ qs) st = r"
  by (simp add: span_run_append)

text \<open>Operations that only write to a span.\<close>

definition edits :: "nat \<Rightarrow> span_op list \<Rightarrow> bool" where
  "edits n ps \<longleftrightarrow> (\<forall>p \<in> set ps. (\<exists>a. p = SetAttributes n a) \<or> (\<exists>k. p = SetStatus n k))"

lemma edits_simps [simp]:
  "edits n []" "edits n (ps @ qs) \<longleftrightarrow> edits n ps \<and> edits n qs" "edits n (SetAttributes m a # ps) \<longleftrightarrow> m = n \<and> edits n ps"
  "edits n (SetStatus m k # ps) \<longleftrightarrow> m = n \<and> edits n ps" "\<not> edits n (Ended m t # ps)" "\<not> edits n (Started m nm q a t # ps)"
  by (auto simp: edits_def)

lemma edits_run: "edits n ps \<Longrightarrow> n \<in># fst st \<Longrightarrow> span_run ps st = Some st"
  by (induction ps) (auto simp: edits_def span_step_def split: prod.split)

lemma markError_edits [simp]: "edits n (markError n e kind d)"
  by (simp add: markError_def split: option.split)

lemma setCutOff_edits [simp]: "edits n (setCutOff n i o')"
  by (simp add: setCutOff_def Let_def)

lemma setTraceJSON_edits: "setTraceJSON n key v c = (ops, cut1) \<Longrightarrow> edits n ops"
  by (cases "traceJSON v") (auto simp: setTraceJSON_def edits_def split: if_split_asm)

lemma ok_status_edits [simp]: "edits n (ok_status n)"
  by (simp add: ok_status_def)

lemma usage_edits [simp]: "edits n (setUsageAttributes n u)" "edits n (setModelEventUsage n ev)"
  by (simp_all add: setUsageAttributes_def setModelEventUsage_def split: option.split)

lemma response_edits: "setModelResponseAttributes k n r c = (ops, cut1) \<Longrightarrow> edits n ops"
  by (auto simp: setModelResponseAttributes_def Let_def setTraceJSON_edits split: prod.split_asm if_split_asm)

lemma startModel_edits: "startModelSpan k n rq c = (ops, cut1) \<Longrightarrow> edits n ops"
  by (auto simp: startModelSpan_def Let_def setTraceJSON_edits split: prod.split_asm option.split_asm if_split_asm)

lemma updateModelSpan_edits:
  assumes "updateModelSpan k ev c = (ops, c1)"
  shows "edits (cp_span c) ops \<and> cp_span c1 = cp_span c"
  using assms
  by (cases "vm_type ev")
    (auto simp: updateModelSpan_def Let_def startModel_edits response_edits split: prod.split_asm option.split_asm if_split_asm)

section \<open>What the sink keeps open\<close>

definition al_sum :: "('v \<Rightarrow> nat multiset) \<Rightarrow> ('k \<times> 'v) list \<Rightarrow> nat multiset" where
  "al_sum f al = sum_list (map (f \<circ> snd) al)"

lemma al_sum_simps [simp]: "al_sum f [] = {#}" "al_sum f (x # xs) = f (snd x) + al_sum f xs"
  by (simp_all add: al_sum_def)

lemma al_sum_update_new: "map_of al k = None \<Longrightarrow> al_sum f (AList.update k v al) = al_sum f al + f v"
  by (induction al) (auto split: if_split_asm)

lemma al_sum_update_old: "map_of al k = Some w \<Longrightarrow> al_sum f (AList.update k v al) + f w = al_sum f al + f v"
  by (induction al) (auto split: if_split_asm)

lemma al_sum_delete: "distinct (map fst al) \<Longrightarrow> map_of al k = Some w \<Longrightarrow> al_sum f (AList.delete k al) + f w = al_sum f al"
  by (induction al) (auto simp: AList.delete_eq filter_id_conv rev_image_eqI split: if_split_asm intro!: arg_cong [where f = "al_sum f"])

lemma al_sum_replace:
  assumes "distinct (map fst al)" "map_of al k = Some w"
  shows "al_sum f (AList.update k v al) = al_sum f (AList.delete k al) + f v"
proof -
  have "al_sum f (AList.update k v al) + f w = al_sum f (AList.delete k al) + f v + f w"
    using al_sum_update_old [OF assms(2), of f v] al_sum_delete [OF assms, of f] by (simp add: ac_simps)
  then show ?thesis by simp
qed

lemma al_sum_member: "map_of al k = Some w \<Longrightarrow> f w \<subseteq># al_sum f al"
  by (induction al) (auto split: if_split_asm intro: subset_mset.add_increasing2 subset_mset.add_increasing)

definition component_spans :: "component option \<Rightarrow> nat multiset" where
  "component_spans c = (case c of None \<Rightarrow> {#} | Some x \<Rightarrow> {#cp_span x#})"

definition tool_spans :: "(string \<times> component) list \<Rightarrow> nat multiset" where
  "tool_spans = al_sum (\<lambda>c. {#cp_span c#})"

definition node_spans :: "node_span \<Rightarrow> nat multiset" where
  "node_spans n = {#nd_span n#} + component_spans (nd_model n) + tool_spans (nd_tools n)"

definition run_spans :: "run_span \<Rightarrow> nat multiset" where
  "run_spans r = (if rn_root r then {#} else {#rn_span r#})"

definition sink_spans :: "sink_state \<Rightarrow> nat multiset" where
  "sink_spans s = al_sum run_spans (ks_runs s) + al_sum node_spans (ks_nodes s) + component_spans (ks_direct s)"

text \<open>
  The keys of the maps are distinct; the log is in order, and what is open is the root, the agent, what
  the sink keeps, and \<open>lost\<close>, spans that it has forgotten.
\<close>

definition al_all :: "('v \<Rightarrow> bool) \<Rightarrow> ('k \<times> 'v) list \<Rightarrow> bool" where
  "al_all P al \<longleftrightarrow> distinct (map fst al) \<and> (\<forall>x \<in> set al. P (snd x))"

lemma al_all_Nil [simp]: "al_all P []"
  by (simp add: al_all_def)

lemma al_all_get: "al_all P al \<Longrightarrow> map_of al k = Some v \<Longrightarrow> P v"
  by (auto simp: al_all_def dest: map_of_SomeD)

lemma al_all_update [intro]: "al_all P al \<Longrightarrow> P v \<Longrightarrow> al_all P (AList.update k v al)"
  by (auto simp: al_all_def distinct_update) (induction al, auto split: if_split_asm)

lemma al_all_delete [intro]: "al_all P al \<Longrightarrow> al_all P (AList.delete k al)"
  using distinct_delete [of al k] by (auto simp: al_all_def AList.delete_eq)

lemma al_all_mono: "al_all P al \<Longrightarrow> (\<And>v. P v \<Longrightarrow> Q v) \<Longrightarrow> al_all Q al"
  by (auto simp: al_all_def)

definition run_ok :: "nat \<Rightarrow> run_span \<Rightarrow> bool" where
  "run_ok bound r \<longleftrightarrow> rn_span r < bound \<and> (rn_root r \<longrightarrow> rn_span r = root_span)"

definition node_ok :: "nat \<Rightarrow> node_span \<Rightarrow> bool" where
  "node_ok bound n \<longleftrightarrow> distinct (map fst (nd_tools n)) \<and> nd_span n < bound \<and> (\<forall>c \<in> set_option (nd_model_ctx n). c < bound)"

definition maps_ok :: "sink_state \<Rightarrow> bool" where
  "maps_ok s \<longleftrightarrow> al_all (run_ok (ks_next s)) (ks_runs s) \<and> al_all (node_ok (ks_next s)) (ks_nodes s) \<and> 1 < ks_next s"

lemma run_ok_Suc: "al_all (run_ok n) al \<Longrightarrow> al_all (run_ok (Suc n)) al"
  by (erule al_all_mono) (simp add: run_ok_def)

lemma node_ok_Suc: "al_all (node_ok n) al \<Longrightarrow> al_all (node_ok (Suc n)) al"
  by (erule al_all_mono) (auto simp: node_ok_def)

lemmas maps_okI = maps_ok_def [THEN iffD2]
lemmas ok_Suc = run_ok_Suc node_ok_Suc

definition accounted :: "nat multiset \<Rightarrow> sink_state \<Rightarrow> bool" where
  "accounted lost s \<longleftrightarrow> maps_ok s \<and>
    span_run (ks_ops s) ({#}, 0) = Some ({#root_span, agent_span#} + sink_spans s + lost, ks_next s)"


abbreviation opens :: "sink_state \<Rightarrow> nat multiset" where
  "opens s \<equiv> {#root_span, agent_span#} + sink_spans s"

lemma accountedI:
  assumes "accounted lost s" "ks_ops s1 = ks_ops s @ ps" "maps_ok s1"
    and "span_run ps (opens s + lost, ks_next s) = Some (opens s1 + lost1, ks_next s1)"
  shows "accounted lost1 s1"
  using assms by (auto simp: accounted_def)

lemma accounted_maps [dest]: "accounted lost s \<Longrightarrow> maps_ok s"
  by (simp add: accounted_def)

section \<open>Runs\<close>

lemma start_span_simps [simp]:
  "start_span parent nm a t s = (ks_next s, s\<lparr>ks_next := ks_next s + 1, ks_ops := ks_ops s @ [Started (ks_next s) nm (Some parent) a t]\<rparr>)"
  by (simp add: start_span_def record_ops_def)

text \<open>The span of the run of an event, or of the agent.\<close>

lemma parent_known:
  assumes "maps_ok s"
  shows "(case map_of (ks_runs s) k of Some r \<Rightarrow> if rn_root r then agent_span else rn_span r | None \<Rightarrow> agent_span) < ks_next s"
  using assms by (auto simp: maps_ok_def agent_span_def run_ok_def dest: al_all_get split: option.split)

lemma accounted_next:
  "accounted lost s \<Longrightarrow> maps_ok s1 \<Longrightarrow> ks_ops s1 = ks_ops s @ [Started (ks_next s) nm (Some parent) a t] \<Longrightarrow> parent < ks_next s \<Longrightarrow>
    ks_next s1 = Suc (ks_next s) \<Longrightarrow> sink_spans s1 = add_mset (ks_next s) (sink_spans s) \<Longrightarrow> accounted lost s1"
  by (erule accountedI, assumption+) (simp add: span_step_def)

lemma accounted_edits:
  "accounted lost s \<Longrightarrow> maps_ok s1 \<Longrightarrow> ks_ops s1 = ks_ops s @ ps \<Longrightarrow> edits n ps \<Longrightarrow> n \<in># opens s + lost \<Longrightarrow>
    ks_next s1 = ks_next s \<Longrightarrow> sink_spans s1 = sink_spans s \<Longrightarrow> accounted lost s1"
  by (erule accountedI, assumption+) (simp add: edits_run)

lemma backfill_fields [simp]:
  "ks_next (backfillInvocationIDs ev s) = ks_next s" "ks_runs (backfillInvocationIDs ev s) = ks_runs s"
  "ks_nodes (backfillInvocationIDs ev s) = ks_nodes s" "ks_direct (backfillInvocationIDs ev s) = ks_direct s"
  by (simp_all add: backfillInvocationIDs_def record_ops_def Let_def)

lemma backfill_ops:
  obtains ps where "ks_ops (backfillInvocationIDs ev s) = ks_ops s @ ps"
    "\<And>st. {root_span, agent_span} \<subseteq> set_mset (fst st) \<Longrightarrow> span_run ps st = Some st"
proof -
  have two: "span_run [SetAttributes root_span a, SetAttributes agent_span a] st = Some st"
    if "{root_span, agent_span} \<subseteq> set_mset (fst st)" for a st
    using that by (cases st) (simp add: span_step_def)
  show ?thesis
  proof (cases "ks_ops (backfillInvocationIDs ev s) = ks_ops s")
    case True then show ?thesis by (intro that [of "[]"]) simp_all
  next
    case False
    then obtain a where "ks_ops (backfillInvocationIDs ev s) = ks_ops s @ [SetAttributes root_span a, SetAttributes agent_span a]"
      by (simp add: backfillInvocationIDs_def record_ops_def Let_def split: if_split_asm)
    then show ?thesis using two that by blast
  qed
qed

lemma startRun_accounted:
  assumes "accounted lost s"
  shows "accounted lost (startRun ev s)"
proof -
  have m: "maps_ok s" using assms by blast
  show ?thesis
  proof (cases "vt_run ev = '''' \<or> map_of (ks_runs s) (vt_run ev) \<noteq> None")
    case True then show ?thesis using assms by (simp add: startRun_def)
  next
    case new: False
    show ?thesis
    proof (cases "ks_root_run s = '''' \<and> vt_parent_run ev = ''''")
      case True
      obtain ps where ps: "ks_ops (backfillInvocationIDs ev (s\<lparr>ks_root_run := vt_run ev\<rparr>)) = ks_ops s @ ps"
        "\<And>st. {root_span, agent_span} \<subseteq> set_mset (fst st) \<Longrightarrow> span_run ps st = Some st"
        by (rule backfill_ops [of ev "s\<lparr>ks_root_run := vt_run ev\<rparr>"]) auto
      let ?p = "SetAttributes root_span (runAttributes ev ''fornax_query'')"
      show ?thesis
      proof (rule accountedI [OF assms])
        show "ks_ops (startRun ev s) = ks_ops s @ ps @ [?p]" using True new ps(1) by (simp add: startRun_def record_ops_def)
        show "maps_ok (startRun ev s)"
          using True new m by (auto simp: startRun_def record_ops_def maps_ok_def run_ok_def root_span_def)
        have "sink_spans (startRun ev s) = sink_spans s" "ks_next (startRun ev s) = ks_next s"
          using True new al_sum_update_new [of "ks_runs s" "vt_run ev" run_spans "\<lparr>rn_span = root_span, rn_root = True\<rparr>"]
          by (simp_all add: startRun_def record_ops_def sink_spans_def run_spans_def)
        then show "span_run (ps @ [?p]) (opens s + lost, ks_next s) = Some (opens (startRun ev s) + lost, ks_next (startRun ev s))"
          by (simp add: span_run_append ps(2) span_step_def)
      qed
    next
      case False
      let ?r = "\<lparr>rn_span = ks_next s, rn_root = False\<rparr>"
      have "maps_ok (startRun ev s)"
        using False new m by (auto simp: startRun_def Let_def maps_ok_def run_ok_def ok_Suc)
      then show ?thesis
        using new False al_sum_update_new [of "ks_runs s" "vt_run ev" run_spans ?r]
        by (intro accounted_next [OF assms _ _ parent_known [OF m, of "vt_parent_run ev"],
            where nm = "if vt_definition ev = '''' then ''agent'' else vt_definition ev"])
          (auto simp: startRun_def Let_def sink_spans_def run_spans_def)
    qed
  qed
qed

lemma finishRun_accounted:
  assumes "accounted lost s"
  shows "accounted lost (finishRun k ev s)"
proof (cases "map_of (ks_runs s) (vt_run ev)")
  case None then show ?thesis using assms by (simp add: finishRun_def)
next
  case (Some r)
  have m: "maps_ok s" using assms by blast
  let ?ps = "if vt_type ev = WorkflowCompleted then ok_status (rn_span r) else markError (rn_span r) None ''run_error'' (kc_capture k)"
  have ed: "edits (rn_span r) ?ps" by simp
  show ?thesis
  proof (cases "rn_root r")
    case True
    then have "rn_span r = root_span" using m Some by (auto simp: maps_ok_def run_ok_def dest: al_all_get)
    then show ?thesis using True Some ed m
      by (intro accounted_edits [OF assms _ _ ed]) (simp_all add: finishRun_def record_ops_def sink_spans_def maps_ok_def)
  next
    case False
    let ?al = "ks_runs s"
    have d: "al_sum run_spans (AList.delete (vt_run ev) ?al) + {#rn_span r#} = al_sum run_spans ?al"
      using al_sum_delete [OF _ Some, of run_spans] False m by (simp add: maps_ok_def al_all_def run_spans_def)
    then have o': "opens s + lost = add_mset (rn_span r) (opens (finishRun k ev s) + lost)"
      using Some False by (simp add: finishRun_def record_ops_def sink_spans_def flip: d)
    show ?thesis
    proof (rule accountedI [OF assms])
      show "ks_ops (finishRun k ev s) = ks_ops s @ ?ps @ [Ended (rn_span r) (eventTime ev)]"
        using Some False by (simp add: finishRun_def record_ops_def)
      show "maps_ok (finishRun k ev s)"
        using Some False m by (auto simp: finishRun_def record_ops_def maps_ok_def)
      show "span_run (?ps @ [Ended (rn_span r) (eventTime ev)]) (opens s + lost, ks_next s) =
          Some (opens (finishRun k ev s) + lost, ks_next (finishRun k ev s))"
        using Some False unfolding o' by (subst span_run_append) (simp add: edits_run [OF ed] span_step_def finishRun_def record_ops_def)
    qed
  qed
qed

end
