(* ===== verification/Fornax_Sink_Proofs.thy ===== *)
theory Fornax_Sink_Proofs
  imports Fornax_Spans
begin

text \<open>
  The accounting of spans over the events of nodes, models and tools, over a run of the sink, and over
  its end.
\<close>

section \<open>Nodes\<close>

lemma startNode_accounted:
  assumes "accounted lost s"
  shows "accounted lost (startNode ev s)"
proof (cases "nodeKey ev = '''' \<or> map_of (ks_nodes s) (nodeKey ev) \<noteq> None")
  case True then show ?thesis using assms by (auto simp: startNode_def Let_def)
next
  case new: False
  have m: "maps_ok s" using assms by blast
  let ?n = "\<lparr>nd_span = ks_next s, nd_model = None, nd_model_ctx = None, nd_tools = [], nd_failed = False\<rparr>"
  have "maps_ok (startNode ev s)"
    using new m by (auto simp: startNode_def Let_def maps_ok_def node_ok_def ok_Suc)
  then show ?thesis
    using new al_sum_update_new [of "ks_nodes s" "nodeKey ev" node_spans ?n]
    by (intro accounted_next [OF assms _ _ parent_known [OF m, of "vt_run ev"],
            where nm = "if vt_node ev = '''' then ''node'' else vt_node ev"])
      (auto simp: startNode_def Let_def sink_spans_def node_spans_def component_spans_def tool_spans_def)
qed

lemma ends_run:
  "span_run (map (\<lambda>(_, c). Ended (cp_span c) None) al) (al_sum (\<lambda>c. {#cp_span c#}) al + rest, nx) = Some (rest, nx)"
  by (induction al arbitrary: rest) (auto simp: span_step_def)

lemma component_ends_run:
  "span_run (component_ends n) (component_spans (nd_model n) + tool_spans (nd_tools n) + rest, nx) = Some (rest, nx)"
  using ends_run [of "nd_tools n" rest nx]
  by (simp add: component_ends_def component_spans_def tool_spans_def span_step_def add.assoc split: option.split)

text \<open>A node that is taken out of the map: what is open besides its spans.\<close>

lemma node_taken:
  assumes "maps_ok s" "map_of (ks_nodes s) key = Some n"
  shows "sink_spans s = node_spans n + sink_spans (s\<lparr>ks_nodes := AList.delete key (ks_nodes s)\<rparr>)"
  using assms al_sum_delete [of "ks_nodes s" key n node_spans]
  by (simp add: maps_ok_def al_all_def sink_spans_def ac_simps)

lemma finishNode_accounted:
  assumes "accounted lost s"
  shows "accounted lost (finishNode k ev s)"
proof (cases "map_of (ks_nodes s) (nodeKey ev)")
  case None then show ?thesis using assms by (simp add: finishNode_def)
next
  case (Some n)
  have m: "maps_ok s" using assms by blast
  let ?mark = "if (vt_type ev = NodeCompleted \<or> vt_type ev = NodeSkipped) \<and> \<not> nd_failed n then ok_status (nd_span n)
      else markError (nd_span n) None ''node_error'' (kc_capture k)"
  let ?rest = "opens (finishNode k ev s) + lost"
  have ed: "edits (nd_span n) ?mark" by simp
  have o': "opens s + lost = component_spans (nd_model n) + tool_spans (nd_tools n) + add_mset (nd_span n) ?rest"
    using node_taken [OF m Some] Some by (simp add: finishNode_def record_ops_def sink_spans_def node_spans_def ac_simps)
  show ?thesis
  proof (rule accountedI [OF assms])
    show "ks_ops (finishNode k ev s) = ks_ops s @ component_ends n @ ?mark @ [Ended (nd_span n) (eventTime ev)]"
      using Some by (simp add: finishNode_def record_ops_def)
    show "maps_ok (finishNode k ev s)" using Some m by (auto simp: finishNode_def record_ops_def maps_ok_def)
    have "ks_next (finishNode k ev s) = ks_next s" using Some by (simp add: finishNode_def record_ops_def)
    then show "span_run (component_ends n @ ?mark @ [Ended (nd_span n) (eventTime ev)]) (opens s + lost, ks_next s) =
        Some (?rest, ks_next (finishNode k ev s))"
      unfolding o' by (intro span_run_appendI [OF component_ends_run] span_run_appendI [OF edits_run [OF ed]]) (simp_all add: span_step_def)
  qed
qed

lemma Emit_accounted: "accounted lost s \<Longrightarrow> accounted lost (Emit k ev s)"
  by (simp add: Emit_def startRun_accounted finishRun_accounted startNode_accounted finishNode_accounted)

section \<open>Components\<close>

text \<open>What an event of a model or a tool does to the node \<open>n\<close> that it is for.\<close>

lemma node_changed:
  assumes "accounted lost s" "map_of (ks_nodes s) key = Some n"
    and "ks_ops s1 = ks_ops s @ ps" "ks_next s \<le> ks_next s1" "ks_runs s1 = ks_runs s" "ks_nodes s1 = AList.update key n1 (ks_nodes s)"
    "ks_direct s1 = ks_direct s" "node_ok (ks_next s1) n1"
    and "\<And>rest. span_run ps (node_spans n + rest, ks_next s) = Some (node_spans n1 + rest + gone, ks_next s1)"
  shows "accounted (lost + gone) s1"
proof (rule accountedI [OF assms(1,3)])
  have m: "maps_ok s" using assms(1) by blast
  have "al_all (run_ok (ks_next s1)) (ks_runs s1)" "al_all (node_ok (ks_next s1)) (ks_nodes s)"
    using m assms(4,5) by (auto simp: maps_ok_def run_ok_def node_ok_def elim!: al_all_mono)
  then show "maps_ok s1" using m assms(4,6,8) by (auto simp: maps_ok_def)
  let ?r = "{#root_span, agent_span#} + sink_spans (s\<lparr>ks_nodes := AList.delete key (ks_nodes s)\<rparr>) + lost"
  have s0: "opens s + lost = node_spans n + ?r" using node_taken [OF m assms(2)] by (simp add: ac_simps)
  have "al_sum node_spans (ks_nodes s1) = al_sum node_spans (AList.delete key (ks_nodes s)) + node_spans n1"
    using m unfolding assms(6) by (intro al_sum_replace [OF _ assms(2)]) (simp add: maps_ok_def al_all_def)
  then have s1: "opens s1 + (lost + gone) = node_spans n1 + ?r + gone" using assms(5,7) by (simp add: sink_spans_def ac_simps)
  show "span_run ps (opens s + lost, ks_next s) = Some (opens s1 + (lost + gone), ks_next s1)"
    by (simp only: s0 s1 assms(9))
qed

lemma activeNode_known: "activeNode info s = Some (key, n) \<Longrightarrow> map_of (ks_nodes s) key = Some n"
  by (auto simp: activeNode_def find_Some_iff split: option.split_asm)

text \<open>A model call that starts, and a further event of it.\<close>

lemma start_model_ops:
  assumes "start_model k parent ev s = (c, s1)"
  obtains ops t where "cp_span c = ks_next s" "edits (ks_next s) ops"
    "s1 = s\<lparr>ks_next := Suc (ks_next s), ks_ops := ks_ops s @ Started (ks_next s) ''model'' (Some parent) t None # ops\<rparr>"
proof -
  obtain ops where u: "updateModelSpan k ev (new_component (ks_next s)) = (ops, c)"
    using assms by (auto simp: start_model_def split: prod.split_asm)
  from updateModelSpan_edits [OF u] have "cp_span c = ks_next s" "edits (ks_next s) ops" by (simp_all add: new_component_def)
  then show ?thesis using assms u by (intro that) (auto simp: start_model_def record_ops_def)
qed

lemma update_model_run:
  assumes "update_model k ev c = (ops, c1, finished)"
  shows "cp_span c1 = cp_span c \<and>
    span_run ops (add_mset (cp_span c) rest, nx) = Some (if finished then rest else add_mset (cp_span c) rest, nx)"
proof -
  obtain ops0 where u: "updateModelSpan k ev c = (ops0, c1)" using assms by (auto simp: update_model_def Let_def split: prod.split_asm if_split_asm)
  note e = updateModelSpan_edits [OF u]
  then have x: "edits (cp_span c) (ops0 @ setCutOff (cp_span c) (cp_input_cut c1) (cp_output_cut c1))" by simp
  have y: "edits (cp_span c) (if cp_failed c1 then [] else ok_status (cp_span c))" by simp
  show ?thesis
  proof (cases "vm_type ev = ModelCallFinished")
    case True
    let ?ops = "(ops0 @ setCutOff (cp_span c) (cp_input_cut c1) (cp_output_cut c1)) @
        (if cp_failed c1 then [] else ok_status (cp_span c)) @ [Ended (cp_span c) None]"
    from True assms u e have o': "ops = ?ops" "finished" by (auto simp: update_model_def Let_def)
    have "span_run ?ops (add_mset (cp_span c) rest, nx) = Some (rest, nx)"
      by (intro span_run_appendI [OF edits_run [OF x]] span_run_appendI [OF edits_run [OF y]]) (simp_all add: span_step_def)
    then show ?thesis using e by (simp only: o' if_True)
  next
    case False
    with assms u e have "ops = ops0 @ setCutOff (cp_span c) (cp_input_cut c1) (cp_output_cut c1)" "\<not> finished"
      by (auto simp: update_model_def Let_def)
    then show ?thesis using e edits_run [OF x] by simp
  qed
qed


lemma direct_accounted:
  assumes "accounted lost s"
  shows "accounted lost (emitDirectModelEvent k ev s)"
proof -
  have m: "maps_ok s" using assms by blast
  show ?thesis
  proof (cases "vm_type ev = ModelCallStarted")
    case started: True
    show ?thesis
    proof (cases "ks_direct s")
      case (Some c) then show ?thesis using started assms by (simp add: emitDirectModelEvent_def)
    next
      case None
      obtain c s1 where c: "start_model k agent_span ev s = (c, s1)" by force
      obtain ops t where o': "cp_span c = ks_next s" "edits (ks_next s) ops"
        "s1 = s\<lparr>ks_next := Suc (ks_next s), ks_ops := ks_ops s @ Started (ks_next s) ''model'' (Some agent_span) t None # ops\<rparr>"
        by (rule start_model_ops [OF c])
      have e: "emitDirectModelEvent k ev s = s1\<lparr>ks_direct := Some c\<rparr>" using started None c by (simp add: emitDirectModelEvent_def)
      have a: "agent_span < ks_next s" using m by (simp add: maps_ok_def agent_span_def)
      show ?thesis unfolding e
      proof (rule accountedI [OF assms])
        show "ks_ops (s1\<lparr>ks_direct := Some c\<rparr>) = ks_ops s @ Started (ks_next s) ''model'' (Some agent_span) t None # ops" by (simp add: o'(3))
        show "maps_ok (s1\<lparr>ks_direct := Some c\<rparr>)" using m by (auto simp: o'(3) maps_ok_def ok_Suc)
      qed (use None a in \<open>simp add: o' span_step_def edits_run [OF o'(2)] sink_spans_def component_spans_def\<close>)
    qed
  next
    case further: False
    show ?thesis
    proof (cases "ks_direct s")
      case None then show ?thesis using further assms by (simp add: emitDirectModelEvent_def)
    next
      case (Some c)
      obtain ops c1 finished where u: "update_model k ev c = (ops, c1, finished)" by (metis prod_cases3)
      let ?s1 = "(record_ops ops s)\<lparr>ks_direct := if finished then None else Some c1\<rparr>"
      have e: "emitDirectModelEvent k ev s = ?s1" using further Some u by (simp add: emitDirectModelEvent_def)
      show ?thesis unfolding e
      proof (rule accountedI [OF assms])
        show "ks_ops ?s1 = ks_ops s @ ops" by (simp add: record_ops_def)
        show "maps_ok ?s1" using m by (simp add: record_ops_def maps_ok_def)
        let ?r = "{#root_span, agent_span#} + al_sum run_spans (ks_runs s) + al_sum node_spans (ks_nodes s) + lost"
        have x: "opens s + lost = add_mset (cp_span c) ?r" "opens ?s1 + lost = (if finished then ?r else add_mset (cp_span c) ?r)"
          using Some update_model_run [OF u] by (auto simp: sink_spans_def component_spans_def record_ops_def)
        have "ks_next ?s1 = ks_next s" by (simp add: record_ops_def)
        then show "span_run ops (opens s + lost, ks_next s) = Some (opens ?s1 + lost, ks_next ?s1)"
          using update_model_run [OF u, of ?r "ks_next s"] unfolding x by simp
      qed
    qed
  qed
qed

lemma EmitModelEvent_accounted:
  assumes "accounted lost s"
  shows "accounted lost (EmitModelEvent k info ev s)"
proof (cases "activeNode info s")
  case None then show ?thesis using direct_accounted [OF assms] by (simp add: EmitModelEvent_def)
next
  case (Some p)
  obtain key n where p: "p = (key, n)" by force
  have n: "map_of (ks_nodes s) key = Some n" using Some p by (simp add: activeNode_known)
  have m: "maps_ok s" using assms by blast
  then have ok: "node_ok (ks_next s) n" using n by (auto simp: maps_ok_def dest: al_all_get)
  have "accounted (lost + {#}) (EmitModelEvent k info ev s)"
  proof (cases "vm_type ev = ModelCallStarted")
    case True
    let ?ends = "case nd_model n of None \<Rightarrow> [] | Some c \<Rightarrow> [Ended (cp_span c) None]"
    obtain c s1 where c: "start_model k (nd_span n) ev (record_ops ?ends s) = (c, s1)" by force
    let ?nx = "ks_next s"
    obtain ops t where o': "cp_span c = ?nx" "edits ?nx ops" "s1 = (record_ops ?ends s)\<lparr>ks_next := Suc ?nx,
        ks_ops := (ks_ops s @ ?ends) @ Started ?nx ''model'' (Some (nd_span n)) t None # ops\<rparr>"
      by (rule start_model_ops [OF c]) (simp add: record_ops_def)
    let ?n1 = "n\<lparr>nd_model := Some c, nd_model_ctx := Some (cp_span c)\<rparr>"
    have e: "EmitModelEvent k info ev s = s1\<lparr>ks_nodes := AList.update key ?n1 (ks_nodes s1)\<rparr>"
      using Some p True c by (simp add: EmitModelEvent_def startNodeModel_def Let_def)
    show ?thesis unfolding e
    proof (rule node_changed [OF assms n])
      show "node_ok (ks_next (s1\<lparr>ks_nodes := AList.update key ?n1 (ks_nodes s1)\<rparr>)) ?n1"
        using ok by (auto simp: node_ok_def o')
      show "ks_ops (s1\<lparr>ks_nodes := AList.update key ?n1 (ks_nodes s1)\<rparr>) = ks_ops s @ ?ends @ Started ?nx ''model'' (Some (nd_span n)) t None # ops"
        by (simp add: o'(3))
      show "span_run (?ends @ Started ?nx ''model'' (Some (nd_span n)) t None # ops) (node_spans n + rest, ks_next s) =
          Some (node_spans ?n1 + rest + {#}, ks_next (s1\<lparr>ks_nodes := AList.update key ?n1 (ks_nodes s1)\<rparr>))" for rest
      proof (rule span_run_appendI)
        let ?r = "{#nd_span n#} + tool_spans (nd_tools n) + rest"
        show "span_run ?ends (node_spans n + rest, ks_next s) = Some (?r, ?nx)"
          by (auto simp: node_spans_def component_spans_def span_step_def split: option.split)
        show "span_run (Started ?nx ''model'' (Some (nd_span n)) t None # ops) (?r, ?nx) =
            Some (node_spans ?n1 + rest + {#}, ks_next (s1\<lparr>ks_nodes := AList.update key ?n1 (ks_nodes s1)\<rparr>))"
          using ok by (simp add: span_step_def edits_run [OF o'(2)] node_ok_def node_spans_def component_spans_def o'(1,3))
      qed
    qed (simp_all add: o'(3) record_ops_def)
  next
    case further: False
    show ?thesis
    proof (cases "nd_model n")
      case None then show ?thesis using assms Some p further by (simp add: EmitModelEvent_def)
    next
      case (Some c)
      obtain ops c1 finished where u: "update_model k ev c = (ops, c1, finished)" by (metis prod_cases3)
      let ?n1 = "if finished then n\<lparr>nd_model := None, nd_failed := nd_failed n \<or> cp_failed c1\<rparr> else n\<lparr>nd_model := Some c1\<rparr>"
      have e: "EmitModelEvent k info ev s = (record_ops ops s)\<lparr>ks_nodes := AList.update key ?n1 (ks_nodes s)\<rparr>"
        using \<open>activeNode info s = Some p\<close> p Some further u by (simp add: EmitModelEvent_def Let_def)
      show ?thesis unfolding e
      proof (rule node_changed [OF assms n])
        show "node_ok (ks_next ((record_ops ops s)\<lparr>ks_nodes := AList.update key ?n1 (ks_nodes s)\<rparr>)) ?n1"
          using ok by (simp add: node_ok_def record_ops_def)
        show "span_run ops (node_spans n + rest, ks_next s) =
            Some (node_spans ?n1 + rest + {#}, ks_next ((record_ops ops s)\<lparr>ks_nodes := AList.update key ?n1 (ks_nodes s)\<rparr>))" for rest
          using update_model_run [OF u, of "{#nd_span n#} + tool_spans (nd_tools n) + rest" "ks_next s"] Some
          by (simp add: node_spans_def component_spans_def record_ops_def)
      qed (simp_all add: record_ops_def)
    qed
  qed
  then show ?thesis by simp
qed

section \<open>Tools\<close>

text \<open>The span that an event displaces: a tool call starts while a call with its key is running.\<close>

definition displaced :: "sink_event \<Rightarrow> sink_state \<Rightarrow> nat multiset" where
  "displaced e s = (case e of
     OfTool info ev \<Rightarrow> (case activeNode info s of
         None \<Rightarrow> {#}
       | Some (_, n) \<Rightarrow>
           if vl_type ev = ToolCallStarted then component_spans (map_of (nd_tools n) (toolEventKey (vl_call ev))) else {#})
   | _ \<Rightarrow> {#})"

lemma start_tool_changed:
  assumes "startNodeTool k c n s = (n1, s1)" "node_ok (ks_next s) n"
  obtains ps where "s1 = s\<lparr>ks_next := Suc (ks_next s), ks_ops := ks_ops s @ ps\<rparr>" "node_ok (Suc (ks_next s)) n1"
    "\<And>rest. span_run ps (node_spans n + rest, ks_next s) =
      Some (node_spans n1 + rest + component_spans (map_of (nd_tools n) (toolEventKey c)), Suc (ks_next s))"
proof -
  let ?nx = "ks_next s" and ?key = "toolEventKey c"
  obtain ops cut1 where t: "(if kc_capture k then setTraceJSON ?nx inputAttribute (Some (toolInput (kc_number k) c)) False else ([], False)) = (ops, cut1)"
    by force
  then have ed: "edits ?nx ops" by (auto simp: setTraceJSON_edits split: if_split_asm)
  let ?tool = "(new_component ?nx)\<lparr>cp_input_cut := cut1\<rparr>"
  let ?parent = "case nd_model_ctx n of Some ctx \<Rightarrow> ctx | None \<Rightarrow> nd_span n"
  let ?name = "if cl_name c = '''' then ''tool'' else cl_name c"
  let ?ps = "Started ?nx ?name (Some ?parent) ([(spanTypeAttribute, TextAttr ''tool'')] @ ks_tags s) None #
      SetAttributes ?nx [(toolNameAttribute, TextAttr (cl_name c)), (toolCallIDAttribute, TextAttr (cl_id c))] # ops"
  have n1: "n1 = n\<lparr>nd_tools := AList.update ?key ?tool (nd_tools n)\<rparr>"
    and s1: "s1 = s\<lparr>ks_next := Suc ?nx, ks_ops := ks_ops s @ ?ps\<rparr>"
    using assms(1) t by (auto simp: startNodeTool_def Let_def record_ops_def split: prod.split_asm)
  have "al_sum (\<lambda>c. {#cp_span c#}) (AList.update ?key ?tool (nd_tools n)) + component_spans (map_of (nd_tools n) ?key) =
      add_mset ?nx (al_sum (\<lambda>c. {#cp_span c#}) (nd_tools n))"
    using al_sum_update_new [of "nd_tools n" ?key "\<lambda>c. {#cp_span c#}" ?tool] al_sum_update_old [of "nd_tools n" ?key _ "\<lambda>c. {#cp_span c#}" ?tool]
    by (cases "map_of (nd_tools n) ?key") (auto simp: component_spans_def new_component_def)
  then have x: "node_spans n1 + rest + component_spans (map_of (nd_tools n) ?key) = add_mset ?nx (node_spans n + rest)" for rest
    by (simp add: node_spans_def tool_spans_def n1 ac_simps)
  have "?parent < ?nx" using assms(2) by (auto simp: node_ok_def split: option.split)
  then have "span_run ?ps (node_spans n + rest, ?nx) = Some (add_mset ?nx (node_spans n + rest), Suc ?nx)" for rest
    by (simp add: span_step_def edits_run [OF ed])
  then show ?thesis
    using assms(2) by (intro that [OF s1]) (auto simp: n1 [symmetric] x, auto simp: n1 node_ok_def distinct_update)
qed

lemma finish_tool_changed:
  assumes "finishNodeTool k ev n s = (n1, s1)" "node_ok (ks_next s) n"
  obtains ps where "s1 = s\<lparr>ks_ops := ks_ops s @ ps\<rparr>" "node_ok (ks_next s) n1"
    "\<And>rest. span_run ps (node_spans n + rest, ks_next s) = Some (node_spans n1 + rest, ks_next s)"
proof (cases "map_of (nd_tools n) (toolEventKey (vl_call ev))")
  case None then show ?thesis using assms by (intro that [of "[]"]) (auto simp: finishNodeTool_def)
next
  case (Some tool)
  let ?key = "toolEventKey (vl_call ev)"
  let ?span = "cp_span tool"
  obtain ops cut1 where t: "(if kc_capture k then setTraceJSON ?span outputAttribute (toolOutput (vl_outcome ev)) (cp_output_cut tool)
      else ([], cp_output_cut tool)) = (ops, cut1)" by force
  then have ed: "edits ?span ops" by (auto simp: setTraceJSON_edits split: if_split_asm)
  let ?failing = "if vl_err ev \<noteq> None then markError ?span (vl_err ev) ''tool_error'' (kc_capture k)
      else if outcome_failed (vl_outcome ev) then markError ?span None ''tool_error_outcome'' (kc_capture k) else []"
  let ?failed = "cp_failed tool \<or> vl_err ev \<noteq> None \<or> outcome_failed (vl_outcome ev)"
  let ?ps = "ops @ ?failing @ setCutOff ?span (cp_input_cut tool) cut1 @ (if ?failed then [] else ok_status ?span)"
  have e: "edits ?span ?ps" using ed by simp
  have n1: "n1 = n\<lparr>nd_tools := AList.delete ?key (nd_tools n), nd_failed := nd_failed n \<or> ?failed\<rparr>"
    and s1: "s1 = s\<lparr>ks_ops := ks_ops s @ ?ps @ [Ended ?span None]\<rparr>"
    using assms(1) t Some by (simp_all add: finishNodeTool_def Let_def record_ops_def)
  have "tool_spans (nd_tools n) = add_mset ?span (tool_spans (AList.delete ?key (nd_tools n)))"
    using al_sum_delete [OF _ Some, of "\<lambda>c. {#cp_span c#}"] assms(2) by (simp add: node_ok_def tool_spans_def)
  then have "node_spans n + rest = add_mset ?span (node_spans n1 + rest)" for rest by (simp add: node_spans_def n1)
  then have "span_run (?ps @ [Ended ?span None]) (node_spans n + rest, ks_next s) = Some (node_spans n1 + rest, ks_next s)" for rest
    by (intro span_run_appendI [OF edits_run [OF e]]) (simp_all add: span_step_def)
  then show ?thesis using assms(2) by (intro that [OF s1]) (auto simp: n1 node_ok_def distinct_delete)
qed

lemma EmitToolEvent_accounted:
  assumes "accounted lost s"
  shows "accounted (lost + displaced (OfTool info ev) s) (EmitToolEvent k info ev s)"
proof (cases "activeNode info s")
  case None then show ?thesis using assms by (simp add: EmitToolEvent_def displaced_def)
next
  case (Some p)
  obtain key n where p: "p = (key, n)" by force
  have n: "map_of (ks_nodes s) key = Some n" using Some p by (simp add: activeNode_known)
  then have ok: "node_ok (ks_next s) n" using assms by (auto simp: maps_ok_def dest: al_all_get dest!: accounted_maps)
  show ?thesis
  proof (cases "vl_type ev")
    case ToolCallStarted
    obtain n1 s1 where c: "startNodeTool k (vl_call ev) n s = (n1, s1)" by force
    obtain ps where ps: "s1 = s\<lparr>ks_next := Suc (ks_next s), ks_ops := ks_ops s @ ps\<rparr>" "node_ok (Suc (ks_next s)) n1"
      "\<And>rest. span_run ps (node_spans n + rest, ks_next s) =
        Some (node_spans n1 + rest + component_spans (map_of (nd_tools n) (toolEventKey (vl_call ev))), Suc (ks_next s))"
      by (rule start_tool_changed [OF c ok]) blast
    have e: "EmitToolEvent k info ev s = s1\<lparr>ks_nodes := AList.update key n1 (ks_nodes s1)\<rparr>"
      "displaced (OfTool info ev) s = component_spans (map_of (nd_tools n) (toolEventKey (vl_call ev)))"
      using Some p c ToolCallStarted by (simp_all add: EmitToolEvent_def displaced_def)
    show ?thesis unfolding e by (rule node_changed [OF assms n, of _ ps n1]) (use ps in simp_all)
  next
    case ToolCallFinished
    obtain n1 s1 where c: "finishNodeTool k ev n s = (n1, s1)" by force
    obtain ps where ps: "s1 = s\<lparr>ks_ops := ks_ops s @ ps\<rparr>" "node_ok (ks_next s) n1"
      "\<And>rest. span_run ps (node_spans n + rest, ks_next s) = Some (node_spans n1 + rest, ks_next s)"
      by (rule finish_tool_changed [OF c ok]) blast
    have e: "EmitToolEvent k info ev s = s1\<lparr>ks_nodes := AList.update key n1 (ks_nodes s1)\<rparr>" "displaced (OfTool info ev) s = {#}"
      using Some p c ToolCallFinished by (simp_all add: EmitToolEvent_def displaced_def)
    show ?thesis unfolding e by (rule node_changed [OF assms n, of _ ps n1]) (use ps in simp_all)
  next
    case (ToolOther x)
    have e: "EmitToolEvent k info ev s = s\<lparr>ks_nodes := AList.update key n (ks_nodes s)\<rparr>" "displaced (OfTool info ev) s = {#}"
      using Some p ToolOther by (simp_all add: EmitToolEvent_def displaced_def)
    show ?thesis unfolding e by (rule node_changed [OF assms n, of _ "[]" n]) (use ok in simp_all)
  qed
qed

section \<open>A run of the sink\<close>

text \<open>All that the events displace.\<close>

fun all_displaced :: "sink_config \<Rightarrow> sink_event list \<Rightarrow> sink_state \<Rightarrow> nat multiset" where
  "all_displaced k [] s = {#}"
| "all_displaced k (e # es) s = displaced e s + all_displaced k es (sink_step k e s)"

lemma sink_step_accounted: "accounted lost s \<Longrightarrow> accounted (lost + displaced e s) (sink_step k e s)"
  by (cases e) (auto simp: sink_step_def displaced_def Emit_accounted EmitModelEvent_accounted,
    auto dest: EmitToolEvent_accounted simp: displaced_def)

lemma sink_run_accounted: "accounted lost s \<Longrightarrow> accounted (lost + all_displaced k es s) (sink_run k es s)"
  by (induction es arbitrary: lost s) (force simp: sink_run_def add.assoc dest: sink_step_accounted)+

lemma sink_run_append: "sink_run k (es @ es') s = sink_run k es' (sink_run k es s)"
  by (simp add: sink_run_def)

end
