(* ===== verification/Fornax_Tags.thy ===== *)
theory Fornax_Tags
  imports Fornax_Payload "HOL-Library.Multiset"
begin

text \<open>
  The tags of a call: the two maps of \<open>requestTags\<close> hold the last tag of each key, and what is
  selected from them.
\<close>

section \<open>The maps\<close>

text \<open>The tags of the sources in order, with the index of the source of each.\<close>

definition ranked_tags :: "(string \<times> string) list list \<Rightarrow> (string \<times> (string \<times> nat)) list" where
  "ranked_tags sources = concat (map (\<lambda>(rank, tags). map (\<lambda>(k, v). (k, (v, rank))) tags) (enumerate 0 sources))"

text \<open>The last tag under a key, with the index of its source.\<close>

definition last_tag :: "(string \<times> string) list list \<Rightarrow> string \<Rightarrow> (string \<times> nat) option" where
  "last_tag sources key = map_of (rev (ranked_tags sources)) key"

definition add_tag :: "string \<times> (string \<times> nat) \<Rightarrow> (string \<times> string) list \<times> (string \<times> (string \<times> nat)) list \<Rightarrow>
    (string \<times> string) list \<times> (string \<times> (string \<times> nat)) list" where
  "add_tag = (\<lambda>(key, (v, priority)) (protocol, custom).
     if reservedMetadataKey key then (AList.update key v protocol, custom)
     else (case map_of custom key of
         Some (_, current) \<Rightarrow> (protocol, if priority \<ge> current then AList.update key (v, priority) custom else custom)
       | None \<Rightarrow> (protocol, AList.update key (v, priority) custom)))"

lemma add_tags_fold: "add_tags tags priority maps = fold add_tag (map (\<lambda>(k, v). (k, (v, priority))) tags) maps"
  unfolding add_tags_def fold_map by (rule fold_cong) (auto simp: add_tag_def fun_eq_iff)

lemma source_fold:
  "fold (\<lambda>(priority, tags). add_tags tags priority) (enumerate n sources) maps =
    fold add_tag (concat (map (\<lambda>(rank, tags). map (\<lambda>(k, v). (k, (v, rank))) tags) (enumerate n sources))) maps"
  by (induction sources arbitrary: n maps) (simp_all add: add_tags_fold)

lemma add_tag_fields:
  "add_tag (key, (v, priority)) (protocol, custom) = (protocol', custom') \<Longrightarrow>
    distinct (map fst protocol) \<Longrightarrow> distinct (map fst custom) \<Longrightarrow> (\<forall>w r. map_of custom key = Some (w, r) \<longrightarrow> r \<le> priority) \<Longrightarrow>
    distinct (map fst protocol') \<and> distinct (map fst custom') \<and>
    map_of protocol' = (if reservedMetadataKey key then (map_of protocol)(key \<mapsto> v) else map_of protocol) \<and>
    map_of custom' = (if reservedMetadataKey key then map_of custom else (map_of custom)(key \<mapsto> (v, priority)))"
  by (auto simp: add_tag_def distinct_update update_conv' split: if_split_asm option.split_asm)

text \<open>The maps hold the last tags, since the priorities of the sources rise.\<close>

lemma tags_folded:
  assumes "fold add_tag xs ([], []) = (protocol, custom)" "sorted (map (\<lambda>x. snd (snd x)) xs)"
  shows "distinct (map fst protocol) \<and> distinct (map fst custom) \<and>
    (\<forall>key. map_of protocol key = (if reservedMetadataKey key then map_option fst (map_of (rev xs) key) else None) \<and>
      map_of custom key = (if reservedMetadataKey key then None else map_of (rev xs) key))"
  using assms
proof (induction xs arbitrary: protocol custom rule: rev_induct)
  case (snoc x xs)
  obtain key v priority where x: "x = (key, (v, priority))" by (metis prod_cases3)
  obtain p0 c0 where p: "fold add_tag xs ([], []) = (p0, c0)" by force
  have "sorted (map (\<lambda>x. snd (snd x)) xs)" and le: "\<forall>y \<in> set xs. snd (snd y) \<le> priority"
    using snoc.prems(2) by (auto simp: sorted_append x)
  note IH = snoc.IH [OF p this(1)]
  have "\<forall>w r. map_of c0 key = Some (w, r) \<longrightarrow> r \<le> priority"
  proof (intro allI impI)
    fix w r assume "map_of c0 key = Some (w, r)"
    with IH have "map_of (rev xs) key = Some (w, r)" by (auto split: if_split_asm)
    then have "(key, (w, r)) \<in> set xs" by (auto dest: map_of_SomeD)
    with le show "r \<le> priority" by fastforce
  qed
  from add_tag_fields [OF _ _ _ this, of v p0 protocol custom] IH snoc.prems(1) p show ?case by (auto simp: x)
qed simp

lemma constant_sorted: "sorted (map (\<lambda>_. c :: nat) xs)"
  by (induction xs) simp_all

lemma ranked_sorted: "sorted (map (\<lambda>x. snd (snd x)) (concat (map (\<lambda>(rank, tags). map (\<lambda>(k, v). (k, (v, rank))) tags) (enumerate n sources))))"
proof (induction sources arbitrary: n)
  case (Cons tags sources)
  have "\<forall>y \<in> set (concat (map (\<lambda>(rank, tags). map (\<lambda>(k, v). (k, (v, rank))) tags) (enumerate (Suc n) sources))). n \<le> snd (snd y)"
    by (auto simp: in_set_enumerate_eq)
  then show ?case using Cons by (auto simp: sorted_append comp_def split_beta constant_sorted)
qed simp

text \<open>What the maps hold, and that they hold it.\<close>

definition tags_known :: "(string \<Rightarrow> (string \<times> nat) option) \<Rightarrow> (string \<times> string) list \<Rightarrow> (string \<times> (string \<times> nat)) list \<Rightarrow> bool" where
  "tags_known known protocol custom \<longleftrightarrow> distinct (map fst protocol) \<and> distinct (map fst custom) \<and>
    (\<forall>key. map_of protocol key = (if reservedMetadataKey key then map_option fst (known key) else None) \<and>
      map_of custom key = (if reservedMetadataKey key then None else known key))"

lemma requestTags_selects:
  obtains protocol custom where "requestTags config defaults metadata run = select_tags protocol custom"
    "tags_known (last_tag (request_sources config defaults metadata run)) protocol custom"
proof -
  let ?sources = "request_sources config defaults metadata run"
  obtain protocol custom where f: "fold (\<lambda>(priority, tags). add_tags tags priority) (enumerate 0 ?sources) ([], []) = (protocol, custom)" by force
  then have "fold add_tag (ranked_tags ?sources) ([], []) = (protocol, custom)" by (simp add: source_fold ranked_tags_def)
  from tags_folded [OF this] ranked_sorted [of 0 ?sources] have "tags_known (last_tag ?sources) protocol custom"
    by (simp add: ranked_tags_def last_tag_def tags_known_def)
  then show ?thesis using f by (intro that [of protocol custom]) (simp_all add: requestTags_def)
qed

section \<open>The selection\<close>

lemma option_eqI: "(\<And>v. a = Some v \<longleftrightarrow> b = Some v) \<Longrightarrow> a = b"
  by (cases a; cases b) auto

lemma distinct_sort_keys: "distinct (map fst al) \<Longrightarrow> distinct (map fst (sort_key f al))"
  using mset_eq_imp_distinct_iff [of "map fst (sort_key f al)" "map fst al"] by simp

text \<open>Of a list sorted by a key, what is taken is before what is not.\<close>

lemma taken_before:
  assumes "sorted (map f xs)" "x \<in> set (take n xs)" "y \<in> set xs" "y \<notin> set (take n xs)"
  shows "f x \<le> f y"
proof -
  have "y \<in> set (drop n xs)" using assms(3,4) by (metis Un_iff append_take_drop_id set_append)
  moreover have "sorted (map f (take n xs) @ map f (drop n xs))" using assms(1) by (simp flip: map_append)
  ultimately show ?thesis using assms(2) by (auto simp: sorted_append)
qed

abbreviation reserved_part :: "(string \<times> string) list \<Rightarrow> (string \<times> string) list" where
  "reserved_part protocol \<equiv> sort_key fst protocol"

abbreviation taken_part :: "(string \<times> (string \<times> nat)) list \<Rightarrow> (string \<times> (string \<times> nat)) list" where
  "taken_part custom \<equiv> take maxMetadataTagCount (sort_key tag_order custom)"

lemma reserved_member:
  assumes "tags_known known protocol custom"
  shows "(key, v) \<in> set (reserved_part protocol) \<longleftrightarrow> reservedMetadataKey key \<and> map_option fst (known key) = Some v"
  using assms map_of_eq_Some_iff [of protocol key v] by (auto simp: tags_known_def split: if_split_asm)

lemma custom_member:
  assumes "tags_known known protocol custom"
  shows "(key, x) \<in> set (sort_key tag_order custom) \<longleftrightarrow> \<not> reservedMetadataKey key \<and> known key = Some x"
  using assms map_of_eq_Some_iff [of custom key x] by (auto simp: tags_known_def split: if_split_asm)

lemma taken_member:
  assumes "tags_known known protocol custom" "(key, x) \<in> set (taken_part custom)"
  shows "\<not> reservedMetadataKey key \<and> known key = Some x"
  using subsetD [OF set_take_subset assms(2)] custom_member [OF assms(1), of key x] by blast

lemma selected_keys: "map fst (select_tags protocol custom) = map fst (reserved_part protocol) @ map fst (taken_part custom)"
  by (simp add: select_tags_def split_beta)

lemma selected_member:
  assumes "tags_known known protocol custom" "(key, v) \<in> set (select_tags protocol custom)"
  shows "map_option fst (known key) = Some v"
  using assms(2) reserved_member [OF assms(1)] by (fastforce simp: select_tags_def dest: taken_member [OF assms(1)])

lemma selected_distinct:
  assumes k: "tags_known known protocol custom"
  shows "distinct (map fst (select_tags protocol custom))"
proof -
  have "distinct (map fst (reserved_part protocol))" "distinct (map fst (sort_key tag_order custom))"
    using k by (simp_all only: tags_known_def distinct_sort_keys)
  moreover have "map fst (taken_part custom) = take maxMetadataTagCount (map fst (sort_key tag_order custom))" by (rule take_map [symmetric])
  moreover have "set (map fst (reserved_part protocol)) \<inter> set (map fst (taken_part custom)) = {}"
    using reserved_member [OF k] taken_member [OF k] by fastforce
  ultimately show ?thesis unfolding selected_keys distinct_append by (metis distinct_take)
qed

lemma selected_reserved:
  assumes k: "tags_known known protocol custom" and r: "reservedMetadataKey key"
  shows "map_of (select_tags protocol custom) key = map_option fst (known key)"
proof (rule option_eqI)
  fix v
  have "map_of (select_tags protocol custom) key = Some v \<longleftrightarrow> (key, v) \<in> set (select_tags protocol custom)"
    by (rule map_of_eq_Some_iff [OF selected_distinct [OF k]])
  also have "\<dots> \<longleftrightarrow> map_option fst (known key) = Some v"
  proof
    assume "map_option fst (known key) = Some v"
    with reserved_member [OF k, of key v] r have "(key, v) \<in> set (reserved_part protocol)" by blast
    then show "(key, v) \<in> set (select_tags protocol custom)" by (simp add: select_tags_def)
  qed (rule selected_member [OF k])
  finally show "map_of (select_tags protocol custom) key = Some v \<longleftrightarrow> map_option fst (known key) = Some v" .
qed

lemma selected_count:
  assumes k: "tags_known known protocol custom"
  shows "length (filter (\<lambda>(key, _). \<not> reservedMetadataKey key) (select_tags protocol custom)) =
    min maxMetadataTagCount (card {key. \<not> reservedMetadataKey key \<and> known key \<noteq> None})"
proof -
  let ?C = "sort_key tag_order custom" and ?tag = "\<lambda>(key, (v, _ :: nat)). (key, v)"
  have "filter (\<lambda>(key, _). \<not> reservedMetadataKey key) (reserved_part protocol) = []"
    using reserved_member [OF k] by (auto simp: filter_empty_conv)
  moreover have "filter (\<lambda>(key, _). \<not> reservedMetadataKey key) (map ?tag (taken_part custom)) = map ?tag (taken_part custom)"
    using taken_member [OF k] by (fastforce simp: filter_id_conv)
  moreover have "{key. \<not> reservedMetadataKey key \<and> known key \<noteq> None} = set (map fst ?C)"
  proof (rule set_eqI)
    fix key
    have "key \<in> set (map fst ?C) \<longleftrightarrow> (\<exists>x. (key, x) \<in> set ?C)" by (simp only: set_map image_iff) (metis fst_conv surj_pair)
    also have "\<dots> \<longleftrightarrow> \<not> reservedMetadataKey key \<and> known key \<noteq> None" by (simp only: custom_member [OF k]) blast
    finally show "key \<in> {key. \<not> reservedMetadataKey key \<and> known key \<noteq> None} \<longleftrightarrow> key \<in> set (map fst ?C)" by simp
  qed
  moreover have "distinct (map fst ?C)" using k by (simp only: tags_known_def distinct_sort_keys)
  from distinct_card [OF this] have "card (set (map fst ?C)) = length custom" by simp
  ultimately show ?thesis by (simp only: select_tags_def filter_append append_Nil length_map length_take length_sort min.commute)
qed

lemma selected_order:
  assumes k: "tags_known known protocol custom"
    and "map_of (select_tags protocol custom) key \<noteq> None" "map_of (select_tags protocol custom) key' = None"
    and "\<not> reservedMetadataKey key" "\<not> reservedMetadataKey key'" "known key = Some (v, rank)" "known key' = Some (v', rank')"
  shows "rank' < rank \<or> rank' = rank \<and> key \<le> key'"
proof -
  have "(key', (v', rank')) \<in> set (sort_key tag_order custom)" using custom_member [OF k] assms by blast
  moreover have "key' \<notin> set (map fst (select_tags protocol custom))" using assms(3) by (simp add: map_of_eq_None_iff)
  then have "(key', (v', rank')) \<notin> set (taken_part custom)" unfolding selected_keys by force
  moreover have "key \<in> set (map fst (select_tags protocol custom))" using assms(2) by (metis map_of_eq_None_iff list.set_map)
  moreover have "key \<notin> set (map fst (reserved_part protocol))" using reserved_member [OF k] assms(4) by force
  ultimately have "key \<in> set (map fst (taken_part custom))" unfolding selected_keys by simp
  then obtain x where x: "(key, x) \<in> set (taken_part custom)" by force
  with taken_member [OF k this] assms(6) have "(key, (v, rank)) \<in> set (taken_part custom)" by simp
  from taken_before [OF sorted_sort_key this \<open>(key', (v', rank')) \<in> set (sort_key tag_order custom)\<close> \<open>(key', (v', rank')) \<notin> set (taken_part custom)\<close>]
  show ?thesis by (auto simp: tag_order_def)
qed

end
