(* ===== verification/Fornax_Claims.thy ===== *)
theory Fornax_Claims
  imports Fornax_Sink_Proofs Fornax_Tags
begin

text \<open>
  Whole calls: every span is ended, the contents of a call stay out of a log that is not to hold
  them, and the tags of a call are those of its sources by priority.
\<close>

section \<open>The end of a trace\<close>

lemma mark_edits: "edits n (if err = None then [] else markError n err kind d)"
  by simp

lemma nodes_end_run:
  "span_run (concat (map (\<lambda>(_, n). (if err = None then [] else markError (nd_span n) err kind d) @ component_ends n @ [Ended (nd_span n) None]) al))
    (al_sum node_spans al + rest, nx) = Some (rest, nx)"
proof (induction al)
  case (Cons x al)
  obtain key n where x: "x = (key, n)" by force
  have o': "al_sum node_spans ((key, n) # al) + rest = component_spans (nd_model n) + tool_spans (nd_tools n) + add_mset (nd_span n) (al_sum node_spans al + rest)"
    by (simp add: node_spans_def ac_simps)
  show ?case
    unfolding x o' list.map concat.simps case_prod_conv append_assoc
    by (intro span_run_appendI [OF edits_run [OF mark_edits]] span_run_appendI [OF component_ends_run])
      (simp_all add: x span_step_def Cons.IH)
qed simp

lemma runs_end_run:
  "span_run (concat (map (\<lambda>(_, r). if rn_root r then [] else (if err = None then [] else markError (rn_span r) err kind d) @ [Ended (rn_span r) None]) al))
    (al_sum run_spans al + rest, nx) = Some (rest, nx)"
proof (induction al)
  case (Cons x al)
  obtain key r where x: "x = (key, r)" by force
  show ?case
  proof (cases "rn_root r")
    case True then show ?thesis using Cons.IH by (simp add: x run_spans_def)
  next
    case False
    have "al_sum run_spans (x # al) + rest = add_mset (rn_span r) (al_sum run_spans al + rest)" using False by (simp add: x run_spans_def)
    then show ?thesis
      using False unfolding x list.map concat.simps case_prod_conv if_not_P [OF False] append_assoc
      by (intro span_run_appendI [OF edits_run [OF mark_edits]]) (simp_all add: x span_step_def Cons.IH)
  qed
qed simp

lemma direct_end_run:
  "span_run (case c of None \<Rightarrow> [] | Some c \<Rightarrow> (if err = None then [] else markError (cp_span c) err kind d) @ [Ended (cp_span c) None])
    (component_spans c + rest, nx) = Some (rest, nx)"
proof (cases c)
  case (Some x)
  have "span_run ((if err = None then [] else markError (cp_span x) err kind d) @ [Ended (cp_span x) None]) (add_mset (cp_span x) rest, nx) = Some (rest, nx)"
    by (intro span_run_appendI [OF edits_run [OF mark_edits]]) (simp_all add: span_step_def)
  then show ?thesis using Some by (simp add: component_spans_def)
qed (simp add: component_spans_def)

lemma finishAgent_edits: "edits agent_span (finishAgent k result)"
  by (cases "setTraceJSON agent_span outputAttribute (Some (jstr (agentOutput (projr result)))) False")
    (auto simp: finishAgent_def setTraceJSON_edits split: sum.split)

lemma finishRoot_edits: "edits root_span (finishRoot k result c)"
  by (auto simp: finishRoot_def Let_def split: sum.split prod.split)

lemma record_fields:
  "ks_ops (record_ops ops s) = ks_ops s @ ops" "ks_nodes (record_ops ops s) = ks_nodes s" "ks_runs (record_ops ops s) = ks_runs s"
  "ks_direct (record_ops ops s) = ks_direct s"
  by (simp_all add: record_ops_def)

lemma finish_sink_ops:
  "ks_ops (finish_sink k err s) = ks_ops s @
    concat (map (\<lambda>(_, n). (if err = None then [] else markError (nd_span n) err ''node_error'' (kc_capture k)) @ component_ends n @
      [Ended (nd_span n) None]) (ks_nodes s)) @
    concat (map (\<lambda>(_, r). if rn_root r then [] else (if err = None then [] else markError (rn_span r) err ''run_error'' (kc_capture k)) @
      [Ended (rn_span r) None]) (ks_runs s)) @
    (case ks_direct s of None \<Rightarrow> [] | Some c \<Rightarrow> (if err = None then [] else markError (cp_span c) err ''model_error'' (kc_capture k)) @
      [Ended (cp_span c) None])"
  by (simp add: finish_sink_def Let_def record_ops_def)

lemma end_trace_run:
  assumes "accounted lost s" "edits agent_span agentOps" "edits root_span rootOps"
  shows "span_run (end_trace k err (record_ops (agentOps @ rootOps) s)) ({#}, 0) = Some (lost, ks_next s)"
proof -
  let ?e = "map_option (kc_text k) err"
  let ?nodes = "concat (map (\<lambda>(_, n). (if ?e = None then [] else markError (nd_span n) ?e ''node_error'' (kc_capture k)) @ component_ends n @
      [Ended (nd_span n) None]) (ks_nodes s))"
  let ?runs = "concat (map (\<lambda>(_, r). if rn_root r then [] else (if ?e = None then [] else markError (rn_span r) ?e ''run_error'' (kc_capture k)) @
      [Ended (rn_span r) None]) (ks_runs s))"
  let ?direct = "case ks_direct s of None \<Rightarrow> [] | Some c \<Rightarrow> (if ?e = None then [] else markError (cp_span c) ?e ''model_error'' (kc_capture k)) @
      [Ended (cp_span c) None]"
  have ops: "end_trace k err (record_ops (agentOps @ rootOps) s) =
      ks_ops s @ agentOps @ rootOps @ ?nodes @ ?runs @ ?direct @ [Ended agent_span None, Ended root_span None]"
    unfolding end_trace_def finish_sink_ops by (simp only: record_fields append_assoc)
  let ?b = "{#root_span, agent_span#} + lost"
  have o': "opens s + lost = al_sum node_spans (ks_nodes s) + (al_sum run_spans (ks_runs s) + (component_spans (ks_direct s) + ?b))"
    by (simp add: sink_spans_def ac_simps)
  have s: "span_run (ks_ops s) ({#}, 0) = Some (opens s + lost, ks_next s)" using assms(1) by (simp add: accounted_def)
  have e: "span_run [Ended agent_span None, Ended root_span None] (?b, ks_next s) = Some (lost, ks_next s)"
    by (simp add: span_step_def root_span_def agent_span_def)
  have a: "span_run agentOps (opens s + lost, ks_next s) = Some (opens s + lost, ks_next s)"
    "span_run rootOps (opens s + lost, ks_next s) = Some (opens s + lost, ks_next s)"
    by (rule edits_run [OF assms(2)] edits_run [OF assms(3)]; simp)+
  show ?thesis
    unfolding ops
    by (intro span_run_appendI [OF s] span_run_appendI [OF a(1)] span_run_appendI [OF a(2)],
      unfold o', intro span_run_appendI [OF nodes_end_run] span_run_appendI [OF runs_end_run] span_run_appendI [OF direct_end_run])
      (rule e)
qed

lemma startTrace_accounted: "accounted {#} (fst (startTrace k m ctx run i rq))"
proof -
  obtain ops cut1 where t: "setTraceJSON agent_span inputAttribute (Some (jstr (agentInput rq))) False = (ops, cut1)" by force
  have "edits agent_span (if kc_capture k then ops else [])" using setTraceJSON_edits [OF t] by simp
  then have "span_run (if kc_capture k then ops else []) ({#agent_span, root_span#}, 2) = Some ({#agent_span, root_span#}, 2)"
    by (rule edits_run) simp
  then show ?thesis
    by (simp add: startTrace_def Let_def newEventSink_def t split: prod.split)
      (auto simp: accounted_def maps_ok_def sink_spans_def component_spans_def span_step_def
        root_span_def agent_span_def numeral_2_eq_2 add_mset_commute)
qed

section \<open>Spans\<close>

text \<open>The events of a stream until it is stopped.\<close>

fun stream_events :: "(traced_chunk list \<Rightarrow> bool) \<Rightarrow> stream_item list \<Rightarrow> sink_event list \<Rightarrow> traced_chunk list \<Rightarrow> sink_event list" where
  "stream_events wants [] rest out = rest"
| "stream_events wants ((events, item, stopped) # items) rest out = events @ (case item of
     Inl _ \<Rightarrow> stopped
   | Inr c \<Rightarrow> if wants (out @ [c]) then stream_events wants items rest (out @ [c]) else stopped)"

lemma stream_loop_sink: "fst (stream_loop k wants items rest s o' out) = sink_run k (stream_events wants items rest out) s"
  by (induction wants items rest out arbitrary: s o' rule: stream_events.induct)
    (auto simp: Let_def sink_run_append split: sum.split)

text \<open>
  The spans of a call are in order: each is new when it starts, has a parent that started before, is
  used and ended only while it is open, and is ended when the call returns, whether the target
  returned, failed or was stopped; left open are only the spans of tool calls that were displaced
  by another with the same key. The result of the target is passed on.
\<close>
theorem spans_are_ended:
  "(\<exists>n. span_run (fst (traced_Invoke k (Some m) (Some i) ctx run target rq)) ({#}, 0) =
      Some (all_displaced k (fst (target rq)) (fst (startTrace k m ctx run i rq)), n)) \<and>
    snd (traced_Invoke k (Some m) (Some i) ctx run target rq) = snd (target rq) \<and>
    (\<exists>n. span_run (fst (traced_InvokeStream k (Some m) (Some i) ctx run ctxErr source rq wants)) ({#}, 0) =
      Some (all_displaced k (stream_events wants (fst (source rq)) (snd (source rq)) []) (fst (startTrace k m ctx run i rq)), n))"
proof (intro conjI)
  obtain sink c where st: "startTrace k m ctx run i rq = (sink, c)" by force
  have acc: "accounted {#} sink" using startTrace_accounted [of k m ctx run i rq] st by simp
  have run: "accounted (all_displaced k es sink) (sink_run k es sink)" for es using sink_run_accounted [OF acc, of k es] by simp
  show "\<exists>n. span_run (fst (traced_Invoke k (Some m) (Some i) ctx run target rq)) ({#}, 0) =
      Some (all_displaced k (fst (target rq)) (fst (startTrace k m ctx run i rq)), n)"
    using end_trace_run [OF run finishAgent_edits finishRoot_edits]
    by (auto simp: traced_Invoke_def st Let_def split: prod.split)
  show "snd (traced_Invoke k (Some m) (Some i) ctx run target rq) = snd (target rq)"
    by (simp add: traced_Invoke_def st Let_def split: prod.split)
  obtain items rest where src: "source rq = (items, rest)" by force
  obtain s o' out stop where lp: "stream_loop k wants items rest sink \<lparr>so_text = '''', so_truncated = False\<rparr> [] = (s, o', out, stop)"
    by (metis prod_cases4)
  have s: "s = sink_run k (stream_events wants items rest []) sink"
    using stream_loop_sink [of k wants items rest sink "\<lparr>so_text = '''', so_truncated = False\<rparr>" "[]"] lp by simp
  have ed: "edits root_span (finishRoot k result c @ (if so_truncated o' then setCutOff root_span c True else []))" for result
    by (simp add: finishRoot_edits)
  show "\<exists>n. span_run (fst (traced_InvokeStream k (Some m) (Some i) ctx run ctxErr source rq wants)) ({#}, 0) =
      Some (all_displaced k (stream_events wants (fst (source rq)) (snd (source rq)) []) (fst (startTrace k m ctx run i rq)), n)"
    using end_trace_run [OF run finishAgent_edits ed]
    by (auto simp: traced_InvokeStream_def st src lp Let_def s simp del: append_assoc)
qed

text \<open>Two calls with one key: the span of the first is never ended.\<close>

definition lost_events :: "sink_event list" where
  "lost_events = (let info = \<lparr>ri_run = ''r'', ri_activation = ''a'', ri_attempt = 0\<rparr>;
     c = \<lparr>cl_id = ''c1'', cl_name = ''f'', cl_arguments = ''{}'', cl_arguments_ref = '''', cl_source_ref = ''''\<rparr>;
     started = \<lparr>vl_type = ToolCallStarted, vl_call = c, vl_outcome = OtherOutcome None, vl_err = None\<rparr>
   in [RunEvent \<lparr>vt_type = NodeStarted, vt_run = ''r'', vt_parent_run = '''', vt_definition = '''', vt_session = '''', vt_node = ''n'',
         vt_activation = ''a'', vt_attempt = '''', vt_time = None\<rparr>,
       OfTool info started, OfTool info started])"

lemma tool_span_is_lost:
  "\<not> kc_capture k \<Longrightarrow> all_displaced k lost_events (newEventSink [] []) = {#3#}"
  by (simp add: lost_events_def Let_def newEventSink_def sink_step_def Emit_def startNode_def nodeKey_def nul_def containsAttribute_def
    displaced_def activeNode_def activeNodeKeys_def has_prefix_def EmitToolEvent_def startNodeTool_def toolEventKey_def record_ops_def
    new_component_def component_spans_def agent_span_def)

section \<open>Contents\<close>

text \<open>An event, a result and a request without their contents.\<close>

definition erase_response :: "traced_response \<Rightarrow> traced_response" where
  "erase_response r = r\<lparr>tp_message := assistant_message []\<rparr>"

definition erase_outcome :: "tool_outcome \<Rightarrow> tool_outcome" where
  "erase_outcome outcome = (if outcome_failed outcome then ErrorOutcome None else OtherOutcome None)"

definition erase_event :: "sink_event \<Rightarrow> sink_event" where
  "erase_event e = (case e of
     RunEvent ev \<Rightarrow> RunEvent ev
   | OfModel info ev \<Rightarrow> OfModel info (ev\<lparr>vm_request := map_option (\<lambda>r. empty_request\<lparr>mr_model := mr_model r\<rparr>) (vm_request ev),
       vm_response := map_option erase_response (vm_response ev), vm_err := map_option (\<lambda>_. '''') (vm_err ev)\<rparr>)
   | OfTool info ev \<Rightarrow> OfTool info (ev\<lparr>vl_call := (vl_call ev)\<lparr>cl_arguments := []\<rparr>, vl_outcome := erase_outcome (vl_outcome ev),
       vl_err := map_option (\<lambda>_. '''') (vl_err ev)\<rparr>))"

definition some_error :: agent_error where "some_error = Errorf '''' []"

definition no_response :: response where
  "no_response = \<lparr>rs_message = \<lparr>msg_role = RoleAssistant, msg_parts = [], msg_tool_calls = [], msg_tool_call_id = ''''\<rparr>,
     rs_artifacts = [], rs_metadata = []\<rparr>"

definition erase_result :: "agent_error + response \<Rightarrow> agent_error + response" where
  "erase_result r = (case r of Inl _ \<Rightarrow> Inl some_error | Inr _ \<Rightarrow> Inr no_response)"

definition erase_request :: "request \<Rightarrow> request" where
  "erase_request rq = rq\<lparr>rq_messages := []\<rparr>"

lemma mark_private: "markError span err kind False = markError span err' kind False"
  by (simp add: markError_def)

lemma erased_failed [simp]: "outcome_failed (erase_outcome o') = outcome_failed o'"
  by (simp add: erase_outcome_def outcome_failed_def split: tool_outcome.split)

lemma updateModelSpan_private:
  assumes "\<not> kc_capture k" "OfModel info ev' = erase_event (OfModel info ev)"
  shows "updateModelSpan k ev' c = updateModelSpan k ev c"
  using assms mark_private [of "cp_span c" "vm_err ev" "''model_error''" "Some ''''"]
  by (cases "vm_type ev"; cases "vm_request ev"; cases "vm_response ev"; cases "vm_err ev")
    (simp_all add: erase_event_def updateModelSpan_def startModelSpan_def setModelResponseAttributes_def setModelEventUsage_def
      erase_response_def empty_request_def)

lemma model_type_erased: "OfModel info ev' = erase_event (OfModel info ev) \<Longrightarrow> vm_type ev' = vm_type ev"
  by (simp add: erase_event_def)

lemma EmitModelEvent_private:
  assumes "\<not> kc_capture k" "OfModel info ev' = erase_event (OfModel info ev)"
  shows "EmitModelEvent k info ev' s = EmitModelEvent k info ev s"
proof -
  have u: "updateModelSpan k ev' = updateModelSpan k ev" by (rule ext) (rule updateModelSpan_private [OF assms])
  note t = model_type_erased [OF assms(2)]
  show ?thesis
    unfolding EmitModelEvent_def emitDirectModelEvent_def startNodeModel_def start_model_def update_model_def u t ..
qed

lemma EmitToolEvent_private:
  assumes "\<not> kc_capture k" "OfTool info ev' = erase_event (OfTool info ev)"
  shows "EmitToolEvent k info ev' s = EmitToolEvent k info ev s"
  using assms
  by (auto simp: erase_event_def EmitToolEvent_def startNodeTool_def finishNodeTool_def toolEventKey_def Let_def markError_def
    split: option.split tool_event_kind.split)

lemma sink_run_private:
  assumes "\<not> kc_capture k"
  shows "sink_run k (map erase_event es) s = sink_run k es s"
proof -
  have "sink_step k (erase_event e) s = sink_step k e s" for e s
  proof (cases e)
    case (OfModel info ev)
    obtain ev' where e: "erase_event (OfModel info ev) = OfModel info ev'" by (simp add: erase_event_def)
    show ?thesis using EmitModelEvent_private [OF assms e [symmetric]] by (simp add: OfModel e sink_step_def)
  next
    case (OfTool info ev)
    obtain ev' where e: "erase_event (OfTool info ev) = OfTool info ev'" by (simp add: erase_event_def)
    show ?thesis using EmitToolEvent_private [OF assms e [symmetric]] by (simp add: OfTool e sink_step_def)
  qed (simp add: erase_event_def)
  then show ?thesis by (induction es arbitrary: s) (simp_all add: sink_run_def)
qed

text \<open>Whether a stream is forwarded to its end.\<close>

fun stream_completes :: "(traced_chunk list \<Rightarrow> bool) \<Rightarrow> stream_item list \<Rightarrow> traced_chunk list \<Rightarrow> bool" where
  "stream_completes wants [] out \<longleftrightarrow> True"
| "stream_completes wants ((events, item, stopped) # items) out \<longleftrightarrow> (case item of
     Inl _ \<Rightarrow> False | Inr c \<Rightarrow> wants (out @ [c]) \<and> stream_completes wants items (out @ [c]))"

lemma stream_loop_stop:
  "stream_loop k wants items rest s o' out = (s1, o1, out1, stop) \<Longrightarrow> stop = StreamCompleted \<longleftrightarrow> stream_completes wants items out"
  by (induction k wants items rest s o' out rule: stream_loop.induct) (auto simp: Let_def split: sum.split_asm if_split_asm)

lemma stream_output_private:
  "\<not> kc_capture k \<Longrightarrow> stream_loop k wants items rest s o' out = (s1, o1, out1, stop) \<Longrightarrow> o1 = o'"
  by (induction k wants items rest s o' out rule: stream_loop.induct) (auto simp: Let_def add_chunk_def split: sum.split_asm if_split_asm)

lemma startTrace_private: "\<not> kc_capture k \<Longrightarrow> startTrace k m ctx run i (erase_request rq) = startTrace k m ctx run i rq"
  by (simp add: startTrace_def erase_request_def)

text \<open>What ends the spans of the agent and of the root depends on whether there was an error.\<close>

lemma finish_sink_private:
  assumes "\<not> kc_capture k" and n: "err = None \<longleftrightarrow> err' = None"
  shows "ks_ops (finish_sink k err s) = ks_ops (finish_sink k err' s)"
proof -
  have m: "markError span err kind (kc_capture k) = markError span err' kind (kc_capture k)" for span kind
    using assms(1) by (simp add: markError_def)
  show ?thesis unfolding finish_sink_ops m n ..
qed

lemma finish_private:
  assumes "\<not> kc_capture k" "isl r \<longleftrightarrow> isl r'"
  shows "finishAgent k r = finishAgent k r'" "finishRoot k r c = finishRoot k r' c"
    "end_trace k (result_error r) s = end_trace k (result_error r') s"
proof -
  show "finishAgent k r = finishAgent k r'" "finishRoot k r c = finishRoot k r' c"
    using assms by (cases r; cases r'; simp add: finishAgent_def finishRoot_def markError_def)+
  have "map_option (kc_text k) (result_error r) = None \<longleftrightarrow> map_option (kc_text k) (result_error r') = None"
    using assms(2) by (cases r; cases r') (simp_all add: result_error_def)
  from finish_sink_private [OF assms(1) this] show "end_trace k (result_error r) s = end_trace k (result_error r') s"
    by (simp add: end_trace_def)
qed

lemma traced_Invoke_ops:
  "fst (traced_Invoke k (Some m) (Some i) ctx run target rq) =
    (let (sink, c) = startTrace k m ctx run i rq; r = snd (target rq)
     in end_trace k (result_error r) (record_ops (finishAgent k r @ finishRoot k r c) (sink_run k (fst (target rq)) sink)))"
  by (simp add: traced_Invoke_def Let_def split: prod.split)

text \<open>
  C40. Without the capture of contents the log of a call does not depend on them: it is the log of the
  call without messages, arguments, results, error texts and the texts of a stream. What is left are
  the names and identifiers of runs, nodes, models, tools and calls, the usages with the payloads that
  report them, the finish reasons, the tags, and whether something failed.
\<close>
theorem contents_stay_private:
  assumes "\<not> kc_capture k"
  shows "fst (traced_Invoke k m i ctx run target rq) =
      fst (traced_Invoke k m i ctx run (\<lambda>_. (map erase_event (fst (target rq)), erase_result (snd (target rq)))) (erase_request rq)) \<and>
    fst (traced_InvokeStream k m i ctx run ctxErr source rq wants) =
      fst (traced_Invoke k m i ctx run (\<lambda>_. (map erase_event (stream_events wants (fst (source rq)) (snd (source rq)) []),
        if stream_completes wants (fst (source rq)) [] then Inr no_response else Inl some_error)) (erase_request rq))"
proof (intro conjI)
  note p = sink_run_private [OF assms] startTrace_private [OF assms]
  have e: "isl (snd (target rq)) \<longleftrightarrow> isl (erase_result (snd (target rq)))" by (cases "snd (target rq)") (simp_all add: erase_result_def)
  note f = finish_private [OF assms e]
  show "fst (traced_Invoke k m i ctx run target rq) =
      fst (traced_Invoke k m i ctx run (\<lambda>_. (map erase_event (fst (target rq)), erase_result (snd (target rq)))) (erase_request rq))"
  proof (cases m; cases i)
    fix m' i' assume "m = Some m'" "i = Some i'"
    then show ?thesis unfolding traced_Invoke_ops \<open>m = _\<close> \<open>i = _\<close> by (simp add: traced_Invoke_ops p Let_def f split: prod.split)
  qed (simp_all add: traced_Invoke_def)
  show "fst (traced_InvokeStream k m i ctx run ctxErr source rq wants) =
      fst (traced_Invoke k m i ctx run (\<lambda>_. (map erase_event (stream_events wants (fst (source rq)) (snd (source rq)) []),
        if stream_completes wants (fst (source rq)) [] then Inr no_response else Inl some_error)) (erase_request rq))"
  proof (cases m; cases i)
    fix m' i' assume mi: "m = Some m'" "i = Some i'"
    obtain sink c where st: "startTrace k m' ctx run i' rq = (sink, c)" by force
    obtain items rest where src: "source rq = (items, rest)" by force
    let ?o = "\<lparr>so_text = '''', so_truncated = False\<rparr>"
    obtain s o' out stop where lp: "stream_loop k wants items rest sink ?o [] = (s, o', out, stop)" by (metis prod_cases4)
    have s: "s = sink_run k (stream_events wants items rest []) sink" using stream_loop_sink [of k wants items rest sink ?o "[]"] lp by simp
    have o': "\<not> so_truncated o'" using stream_output_private [OF assms lp] by simp
    let ?err = "case stop of StreamCompleted \<Rightarrow> None | StoppedByError e \<Rightarrow> Some e
      | StoppedByConsumer \<Rightarrow> (case ctxErr of Some e \<Rightarrow> Some e | None \<Rightarrow> Some Canceled)"
    let ?r = "case ?err of Some e \<Rightarrow> Inl e | None \<Rightarrow> Inr (stream_response_of o')"
    let ?r1 = "if stream_completes wants items [] then Inr no_response else Inl some_error"
    have "isl ?r \<longleftrightarrow> isl ?r1" using stream_loop_stop [OF lp] by (auto split: stream_stop.split option.split)
    note f = finish_private [OF assms this]
    have "result_error ?r = ?err" by (auto simp: result_error_def split: option.split)
    then have "fst (traced_InvokeStream k m i ctx run ctxErr source rq wants) =
        end_trace k (result_error ?r) (record_ops (finishAgent k ?r @ finishRoot k ?r c) s)"
      by (simp add: traced_InvokeStream_def mi st src lp Let_def o')
    also have "\<dots> = end_trace k (result_error ?r1) (record_ops (finishAgent k ?r1 @ finishRoot k ?r1 c) s)"
      by (simp only: f)
    finally show ?thesis by (simp add: mi traced_Invoke_ops p st src s Let_def)
  qed (simp_all add: traced_Invoke_def traced_InvokeStream_def)
qed

definition quiet_sink :: sink_config where
  "quiet_sink = \<lparr>kc_capture = False, kc_number = (\<lambda>_. None), kc_text = (\<lambda>_. ''secret'')\<rparr>"

definition plain_request :: request where
  "plain_request = \<lparr>rq_messages = [\<lparr>msg_role = RoleUser, msg_parts = [\<lparr>pt_type = PartText, pt_text = ''secret'', pt_ref = None\<rparr>],
     msg_tool_calls = [], msg_tool_call_id = ''''\<rparr>], rq_artifacts = [], rq_metadata = []\<rparr>"

definition plain_run :: run_config where
  "plain_run = \<lparr>rf_run_id = ''r'', rf_session_id = ''''\<rparr>"

definition plain_identity :: identity where
  "plain_identity = \<lparr>id_name = ''a'', id_description = '''', id_version = ''''\<rparr>"

text \<open>A model call that fails, with a text in its error.\<close>

definition failed_call :: "string \<Rightarrow> sink_event list" where
  "failed_call err = (let info = \<lparr>ri_run = '''', ri_activation = '''', ri_attempt = 0\<rparr>;
     ev = (\<lambda>t e. \<lparr>vm_type = t, vm_request = None, vm_response = None, vm_err = e, vm_summary = '''', vm_payload = []\<rparr>)
   in [OfModel info (ev ModelCallStarted None), OfModel info (ev ModelCallFinished (Some err))])"

theorem contents_stay_private_witness:
  "fst (traced_Invoke quiet_sink (Some \<lparr>mw_tags = []\<rparr>) (Some plain_identity) no_context plain_run
      (\<lambda>_. (failed_call ''secret'', Inl (Errorf ''secret'' []))) plain_request) =
    fst (traced_Invoke quiet_sink (Some \<lparr>mw_tags = []\<rparr>) (Some plain_identity) no_context plain_run
      (\<lambda>_. (failed_call '''', Inl some_error)) (plain_request\<lparr>rq_messages := []\<rparr>))"
proof -
  have "\<not> kc_capture quiet_sink" by (simp add: quiet_sink_def)
  from contents_stay_private [OF this, of "Some \<lparr>mw_tags = []\<rparr>" "Some plain_identity" no_context plain_run
      "\<lambda>_. (failed_call ''secret'', Inl (Errorf ''secret'' []))" plain_request]
  show ?thesis by (simp add: failed_call_def erase_event_def erase_result_def erase_request_def Let_def)
qed

section \<open>Tags\<close>

text \<open>
  A call has one tag for a key, which is the last tag of the key in the sources: the defaults of the
  middleware, the metadata of the request, the context, and the options of the run. Every reserved
  key of a source is among the tags. Of the other keys at most 64 are selected, by the priority of
  the source of their last tag and then by name.
\<close>
theorem tags_by_priority:
  assumes "sources = request_sources config defaults metadata run" and "tags = requestTags config defaults metadata run"
  shows "distinct (map fst tags) \<and>
    (\<forall>(key, v) \<in> set tags. map_option fst (last_tag sources key) = Some v) \<and>
    (\<forall>key. reservedMetadataKey key \<longrightarrow> map_of tags key = map_option fst (last_tag sources key)) \<and>
    length (filter (\<lambda>(key, _). \<not> reservedMetadataKey key) tags) =
      min maxMetadataTagCount (card {key. \<not> reservedMetadataKey key \<and> last_tag sources key \<noteq> None}) \<and>
    (\<forall>key key' v v' rank rank'. \<not> reservedMetadataKey key \<and> \<not> reservedMetadataKey key' \<and>
      map_of tags key \<noteq> None \<and> map_of tags key' = None \<and> last_tag sources key = Some (v, rank) \<and> last_tag sources key' = Some (v', rank') \<longrightarrow>
      rank' < rank \<or> rank' = rank \<and> key \<le> key')"
proof -
  obtain protocol custom where t: "tags = select_tags protocol custom" and k: "tags_known (last_tag sources) protocol custom"
    unfolding assms by (rule requestTags_selects)
  have "\<forall>(key, v) \<in> set tags. map_option fst (last_tag sources key) = Some v" using selected_member [OF k] by (auto simp: t)
  moreover have "\<forall>key. reservedMetadataKey key \<longrightarrow> map_of tags key = map_option fst (last_tag sources key)"
    using selected_reserved [OF k] by (simp add: t)
  moreover note selected_distinct [OF k, folded t] selected_count [OF k, folded t] selected_order [OF k, folded t]
  ultimately show ?thesis by blast
qed

theorem tags_by_priority_witness:
  "map_of (requestTags no_context [] [] plain_run) ''message_id'' = Some ''r''"
proof -
  have "reservedMetadataKey ''message_id''" by code_simp
  moreover have "last_tag (request_sources no_context [] [] plain_run) ''message_id'' = Some (''r'', 3)" by code_simp
  ultimately show ?thesis using tags_by_priority [OF refl refl, of no_context "[]" "[]" plain_run] by simp
qed

end
