(* ===== verification/Fornax_Export.thy ===== *)
theory Fornax_Export
  imports Fornax_Agent Codex_Account
begin

text \<open>
  \<open>src/middleware/byted/fornax/fornax.go\<close>: the authentication of the middleware and the exporter,
  which uploads the spans that the tracer gives it and renews its token once when it is refused.
  The HTTP client answers as a function of the effects so far; \<open>crypto/hmac\<close> over SHA-256 is an
  argument, as are the environment variables and what \<open>url.Parse\<close> makes of a text. A response is
  read to the end of its first value without an error.
\<close>

section \<open>Spaces and tokens\<close>

definition authVersion :: string where "authVersion = ''auth-v1''"
definition authTTLSeconds :: int where "authTTLSeconds = 3600"
definition authPath :: string where "authPath = ''/open-apis/auth/v1/service_accounts/authenticate''"
definition defaultTracePath :: string where "defaultTracePath = ''/open-api/observability/traces/ingest''"

definition effectivePSM :: "string \<Rightarrow> string" where
  "effectivePSM psm = (if trim_space psm = '''' then ''unknown_psm'' else trim_space psm)"

definition hostForRegion :: "string \<Rightarrow> string" where
  "hostForRegion region =
    (let r = trim_space region in
     if r \<in> set ['''', ''CN'', ''BOE''] then ''https://fornax.bytedance.net''
     else if r \<in> set [''SG'', ''BOEI18N''] then ''https://fornax.byteintl.net''
     else if r = ''US'' then ''https://fornax-va.byteintl.net''
     else if r = ''Asia-SouthEastBD'' then ''https://fornax-i18nbd.byteintl.net''
     else if r = ''I18N-DEV'' then ''https://fornax-i18n.byteintl.net''
     else ''https://fornax.bytedance.net'')"

definition validateSpaceID :: "string \<Rightarrow> agent_error + unit" where
  "validateSpaceID spaceID = guard_r (spaceID \<noteq> '''' \<and> list_all is_digit spaceID \<and> digits_value spaceID < 2 ^ 64 \<and> spaceID \<noteq> ''0'')
     (Errorf ''fornax: space ID must be a positive integer'' [])"

definition space_claim_fields :: "int fields" where
  "space_claim_fields = [(''space_id'', int64_field id)]"

definition spaceIDFromJWT :: "string \<Rightarrow> agent_error + int" where
  "spaceIDFromJWT token =
    (let parts = split_at (CHR ''.'') token in
     if length parts < 2 then Inl (Errorf ''fornax: authentication returned a malformed JWT'' [])
     else case base64_decode (parts ! 1) of
         None \<Rightarrow> Inl (Wrapped ''fornax: decode JWT payload: %w'' [] (Errorf ''encoding/base64'' []))
       | Some payload \<Rightarrow> (case unmarshal space_claim_fields payload 0 of
             None \<Rightarrow> Inl (Wrapped ''fornax: parse JWT payload: %w'' [] json_error)
           | Some space \<Rightarrow>
               if space \<le> 0 then Inl (Errorf ''fornax: JWT payload does not contain a valid space_id'' []) else Inr space))"

text \<open>\<open>mac key data\<close> is the hexadecimal text of the HMAC.\<close>

definition genAuthSignature :: "(bytes \<Rightarrow> bytes \<Rightarrow> string) \<Rightarrow> string \<Rightarrow> string \<Rightarrow> bytes \<Rightarrow> instant \<Rightarrow> string" where
  "genAuthSignature mac ak sk payload now =
    (let signKeyInfo = authVersion @ ''/'' @ ak @ ''/'' @ itoa (now div second) @ ''/'' @ itoa authTTLSeconds;
         signKey = mac sk signKeyInfo
     in signKeyInfo @ ''/'' @ mac signKey payload)"

section \<open>Effects\<close>

text \<open>A request for a token with its URL, signature and body, and an upload with its URL, authorization and body.\<close>

datatype trace_effect = TokenRequested string string bytes | Uploaded string string bytes

type_synonym trace_log = "trace_effect list"

record trace_env =
  xn_request_err :: "string \<Rightarrow> agent_error option"
  xn_send :: "trace_log \<Rightarrow> agent_error + (int \<times> bytes)"
  xn_getenv :: "string \<Rightarrow> string"
  xn_now :: "trace_log \<Rightarrow> instant"
  xn_mac :: "bytes \<Rightarrow> bytes \<Rightarrow> string"

text \<open>\<open>Decode\<close> of a decoder over a body: the shortest text from its start that is a value.\<close>

definition decode_first :: "'s fields \<Rightarrow> bytes \<Rightarrow> 's \<Rightarrow> 's option" where
  "decode_first fs body z = (case find (\<lambda>n. parse_json (take n body) \<noteq> None) [0..<Suc (length body)] of
     None \<Rightarrow> None | Some n \<Rightarrow> unmarshal fs (take n body) z)"

section \<open>The token\<close>

definition int32_field :: "((int \<Rightarrow> int) \<Rightarrow> 's \<Rightarrow> 's) \<Rightarrow> 's setter" where
  "int32_field upd v z = (case v of
     JNull \<Rightarrow> Some z
   | JNumber r \<Rightarrow> (case parse_int64 r of
         Some i \<Rightarrow> if - (2 ^ 31) \<le> i \<and> i < 2 ^ 31 then Some (upd (\<lambda>_. i) z) else None | None \<Rightarrow> None)
   | _ \<Rightarrow> None)"

definition int32_pointer_field :: "((int option \<Rightarrow> int option) \<Rightarrow> 's \<Rightarrow> 's) \<Rightarrow> 's setter" where
  "int32_pointer_field upd v z = (case v of
     JNull \<Rightarrow> Some (upd (\<lambda>_. None) z) | _ \<Rightarrow> int32_field (\<lambda>f. upd (\<lambda>_. Some (f 0))) v z)"

definition string_pointer_field :: "((string option \<Rightarrow> string option) \<Rightarrow> 's \<Rightarrow> 's) \<Rightarrow> 's setter" where
  "string_pointer_field upd v z = (case v of
     JNull \<Rightarrow> Some (upd (\<lambda>_. None) z) | _ \<Rightarrow> string_field (\<lambda>f. upd (\<lambda>_. Some (f ''''))) v z)"

record base_resp =
  br_status_code :: int
  br_status_message :: string

record auth_response =
  ar_jwt :: string
  ar_code :: "int option"
  ar_msg :: "string option"
  ar_base :: "base_resp option"

definition auth_response_fields :: "auth_response fields" where
  "auth_response_fields = [(''jwtToken'', string_field ar_jwt_update), (''code'', int32_pointer_field ar_code_update),
     (''msg'', string_pointer_field ar_msg_update),
     (''baseResp'', pointer_field ar_base ar_base_update \<lparr>br_status_code = 0, br_status_message = ''''\<rparr>
        [(''statusCode'', int32_field br_status_code_update), (''statusMessage'', string_field br_status_message_update)])]"

definition auth_message :: "auth_response \<Rightarrow> string" where
  "auth_message r = (case ar_msg r of Some m \<Rightarrow> m | None \<Rightarrow> (case ar_base r of Some b \<Rightarrow> br_status_message b | None \<Rightarrow> ''''))"

record token_request =
  tq_host :: string
  tq_ak :: string
  tq_sk :: string
  tq_region :: string
  tq_psm :: string

definition auth_body :: "trace_env \<Rightarrow> token_request \<Rightarrow> bytes" where
  "auth_body env tq = print_json (JObject (jfield ''psm'' (jstr (tq_psm tq)) @ jfield ''cluster'' (jstr '''') @
     jfield ''env'' (jstr (xn_getenv env ''ENV'')) @ jfield ''isBOE'' (JBool (to_lower (trim_space (tq_region tq)) = ''boe'')) @
     jfield ''isTCE'' (JBool True) @ jfield ''payload'' (jstr '''') @ jfield ''ztiToken'' (jstr '''') @
     jfield ''stage'' (jstr (xn_getenv env ''TCE_STAGE''))))"

text \<open>The token with its space.\<close>

definition read_token :: "int \<Rightarrow> bytes \<Rightarrow> agent_error + (string \<times> int)" where
  "read_token status body =
    (case decode_first auth_response_fields body \<lparr>ar_jwt = '''', ar_code = None, ar_msg = None, ar_base = None\<rparr> of
       None \<Rightarrow> Inl json_error
     | Some r \<Rightarrow>
         if \<not> successfulStatus status then Inl (Errorf ''authenticate HTTP %d: %s'' [Num status, Str (auth_message r)])
         else if ar_code r \<noteq> None \<and> ar_code r \<noteq> Some 0
         then Inl (Errorf ''authenticate code %d: %s'' [Num (the (ar_code r)), Str (auth_message r)])
         else if (case ar_base r of None \<Rightarrow> False | Some b \<Rightarrow> br_status_code b \<noteq> 0)
         then Inl (Errorf ''authenticate base response code %d: %s''
           [Num (br_status_code (the (ar_base r))), Str (br_status_message (the (ar_base r)))])
         else rbind (spaceIDFromJWT (ar_jwt r)) (\<lambda>space. Inr (ar_jwt r, space)))"

definition fetchJWTToken :: "trace_env \<Rightarrow> token_request \<Rightarrow> trace_log \<Rightarrow> trace_log \<times> (agent_error + (string \<times> int))" where
  "fetchJWTToken env tq log =
    (let body = auth_body env tq; url = trim_right_slash (tq_host tq) @ authPath in
     case xn_request_err env url of
       Some e \<Rightarrow> (log, Inl e)
     | None \<Rightarrow>
         (let log1 = log @ [TokenRequested url (genAuthSignature (xn_mac env) (tq_ak tq) (tq_sk tq) body (xn_now env log)) body]
          in (log1, case xn_send env log1 of Inl e \<Rightarrow> Inl e | Inr (status, answer) \<Rightarrow> read_token status answer)))"

section \<open>The configuration\<close>

record trace_config =
  tc_ak :: string
  tc_sk :: string
  tc_region :: string
  tc_space :: string
  tc_endpoint :: string
  tc_psm :: string
  tc_user :: string
  tc_device :: string
  tc_metadata :: "(string \<times> string) list"
  tc_capture :: bool

record auth_config =
  ac_space :: string
  ac_endpoint :: string
  ac_authorization :: string
  ac_refresh :: "token_request option"
  ac_psm :: string
  ac_user :: string
  ac_device :: string
  ac_metadata :: "(string \<times> string) list"
  ac_capture :: bool

definition line_breaks :: "string \<Rightarrow> bool" where
  "line_breaks s \<longleftrightarrow> CHR 0x0D \<in> set s \<or> CHR 0x0A \<in> set s"

definition authenticateWithHost :: "trace_env \<Rightarrow> trace_config \<Rightarrow> string \<Rightarrow> trace_log \<times> (agent_error + auth_config)" where
  "authenticateWithHost env config host =
    (let ak = trim_space (tc_ak config); sk = trim_space (tc_sk config); psm = trim_space (tc_psm config) in
     if ak = '''' then ([], Inl (Errorf ''fornax: AK is required'' []))
     else if sk = '''' then ([], Inl (Errorf ''fornax: SK is required'' []))
     else if line_breaks ak \<or> line_breaks sk then ([], Inl (Errorf ''fornax: AK/SK is invalid'' []))
     else if line_breaks psm then ([], Inl (Errorf ''fornax: PSM is invalid'' []))
     else
       (let tq = \<lparr>tq_host = host, tq_ak = ak, tq_sk = sk, tq_region = tc_region config, tq_psm = effectivePSM psm\<rparr>;
            (log, token) = fetchJWTToken env tq [];
            expected = trim_space (tc_space config); endpoint = trim_space (tc_endpoint config)
        in (log, case token of
             Inl e \<Rightarrow> Inl (Wrapped ''fornax: get token: %w'' [] e)
           | Inr (jwt, space) \<Rightarrow>
               if jwt = '''' \<or> space \<le> 0 then Inl (Errorf ''fornax: authentication returned an invalid token'' [])
               else if expected \<noteq> '''' \<and> expected \<noteq> itoa space
               then Inl (Errorf ''fornax: space ID mismatch: configured %s, authenticated %s'' [Str expected, Str (itoa space)])
               else Inr \<lparr>ac_space = itoa space,
                 ac_endpoint = (if endpoint = '''' then trim_right_slash host @ defaultTracePath else endpoint),
                 ac_authorization = jwt, ac_refresh = Some tq, ac_psm = effectivePSM psm, ac_user = tc_user config,
                 ac_device = tc_device config, ac_metadata = tc_metadata config, ac_capture = tc_capture config\<rparr>)))"

record exporter =
  ex_endpoint :: string
  ex_authorization :: string
  ex_refresh :: "token_request option"
  ex_space :: string
  ex_service :: string

definition traceTags :: "auth_config \<Rightarrow> (string \<times> string) list" where
  "traceTags config = tagAttributes (ac_psm config) (ac_user config) (ac_device config) (ac_metadata config)"

text \<open>The exporter, the middleware, and whether contents are captured.\<close>

definition newWithAuth :: "(string \<Rightarrow> url option) \<Rightarrow> auth_config \<Rightarrow> agent_error + (exporter \<times> middleware \<times> bool)" where
  "newWithAuth parse config =
    (let spaceID = trim_space (ac_space config); endpoint = trim_space (ac_endpoint config) in
     rbind (validateSpaceID spaceID) (\<lambda>_.
     rbind (guard_r (case parse endpoint of
         None \<Rightarrow> False | Some u \<Rightarrow> (url_scheme u = ''http'' \<or> url_scheme u = ''https'') \<and> url_host u \<noteq> '''')
       (Errorf ''fornax: endpoint must be an absolute HTTP URL'' [])) (\<lambda>_.
     rbind (guard_r (\<not> (trim_space (ac_authorization config) = '''' \<or> line_breaks (ac_authorization config)))
       (Errorf ''fornax: authorization is invalid'' [])) (\<lambda>_.
     Inr (\<lparr>ex_endpoint = endpoint, ex_authorization = ac_authorization config, ex_refresh = ac_refresh config, ex_space = spaceID,
         ex_service = effectivePSM (ac_psm config)\<rparr>, \<lparr>mw_tags = traceTags config\<rparr>, ac_capture config)))))"

definition new_trace :: "trace_env \<Rightarrow> (string \<Rightarrow> url option) \<Rightarrow> trace_config \<Rightarrow> trace_log \<times> (agent_error + (exporter \<times> middleware \<times> bool))" where
  "new_trace env parse config =
    (let (log, auth) = authenticateWithHost env config (hostForRegion (tc_region config)) in (log, rbind auth (newWithAuth parse)))"

section \<open>Uploads\<close>

text \<open>
  A span that the tracer has ended. Of an attribute, \<open>as_text\<close> and \<open>as_int\<close> are \<open>AsString\<close> and
  \<open>AsInt64\<close> of the library on values of other types.
\<close>

record ended_span =
  es_start :: instant
  es_end :: instant
  es_id :: string
  es_parent :: "string option"
  es_trace :: string
  es_name :: string
  es_attributes :: attrs
  es_error :: bool

record attr_reader =
  as_text :: "attr \<Rightarrow> string"
  as_int :: "attr \<Rightarrow> int"

definition attr_text :: "attr_reader \<Rightarrow> attr \<Rightarrow> string" where
  "attr_text rd a = (case a of TextAttr s \<Rightarrow> s | _ \<Rightarrow> as_text rd a)"

definition attr_int :: "attr_reader \<Rightarrow> attr \<Rightarrow> int" where
  "attr_int rd a = (case a of IntAttr i \<Rightarrow> i | _ \<Rightarrow> as_int rd a)"

text \<open>The tags are the members of a map; a map that is nil has none.\<close>

record upload_span =
  us_started :: int
  us_span_id :: string
  us_parent_id :: string
  us_trace_id :: string
  us_duration :: int
  us_service :: string
  us_workspace :: string
  us_name :: string
  us_type :: string
  us_status :: int
  us_in :: string
  us_out :: string
  us_system :: "(string \<times> string) list"
  us_strings :: "(string \<times> string) list"
  us_longs :: "(string \<times> int) list"
  us_doubles :: "(string \<times> bytes) list"
  us_bools :: "(string \<times> bool) list"

definition wrap32 :: "int \<Rightarrow> int" where
  "wrap32 i = (i + 2 ^ 31) mod 2 ^ 32 - 2 ^ 31"

definition addTag :: "attr_reader \<Rightarrow> string \<Rightarrow> attr \<Rightarrow> upload_span \<Rightarrow> upload_span" where
  "addTag rd key a span = (case a of
     BoolAttr b \<Rightarrow> span\<lparr>us_bools := AList.update key b (us_bools span)\<rparr>
   | IntAttr i \<Rightarrow> span\<lparr>us_longs := AList.update key i (us_longs span)\<rparr>
   | FloatAttr f \<Rightarrow> span\<lparr>us_doubles := AList.update key f (us_doubles span)\<rparr>
   | _ \<Rightarrow> span\<lparr>us_strings := AList.update key (attr_text rd a) (us_strings span)\<rparr>)"

definition applySpanAttribute :: "attr_reader \<Rightarrow> string \<times> attr \<Rightarrow> upload_span \<Rightarrow> upload_span" where
  "applySpanAttribute rd = (\<lambda>(key, a) span.
     if key = spanTypeAttribute then span\<lparr>us_type := attr_text rd a\<rparr>
     else if key = inputAttribute then span\<lparr>us_in := attr_text rd a\<rparr>
     else if key = outputAttribute then span\<lparr>us_out := attr_text rd a\<rparr>
     else if key = statusAttribute then span\<lparr>us_status := wrap32 (attr_int rd a)\<rparr>
     else addTag rd key a span)"

definition applyDefaultSpanTags :: "upload_span \<Rightarrow> upload_span" where
  "applyDefaultSpanTags span =
    (let s = span\<lparr>us_system := AList.update languageSystemTag ''go'' (us_system span),
         us_strings := AList.update ''fornax_space_id'' (us_workspace span) (us_strings span),
         us_longs := AList.update durationTag (us_duration span) (us_longs span)\<rparr>
     in if us_type s = ''fornax_query'' then s\<lparr>us_bools := AList.update ''fornax_psm_first_span'' True (us_bools s)\<rparr> else s)"

definition parentID :: "ended_span \<Rightarrow> string" where
  "parentID span = (case es_parent span of None \<Rightarrow> ''0'' | Some p \<Rightarrow> p)"

text \<open>\<open>Microseconds\<close> of a duration is rounded to zero.\<close>

definition uploadSpanFrom :: "attr_reader \<Rightarrow> ended_span \<Rightarrow> string \<Rightarrow> string \<Rightarrow> upload_span" where
  "uploadSpanFrom rd span spaceID serviceName =
    (let d = time_until (es_end span) (es_start span);
         out = \<lparr>us_started = es_start span div 1000, us_span_id = es_id span, us_parent_id = parentID span, us_trace_id = es_trace span,
           us_duration = sgn d * (\<bar>d\<bar> div 1000), us_service = effectivePSM serviceName, us_workspace = spaceID, us_name = es_name span,
           us_type = ''graph'', us_status = 0, us_in = '''', us_out = '''', us_system = [], us_strings = [], us_longs = [], us_doubles = [],
           us_bools = []\<rparr>;
         tagged = applyDefaultSpanTags (fold (applySpanAttribute rd) (es_attributes span) out)
     in if es_error span \<and> us_status tagged = 0 then tagged\<lparr>us_status := - 1\<rparr> else tagged)"

text \<open>A map by its keys, \<open>null\<close> when it is nil; a float that is no number has no text.\<close>

definition map_json :: "('v \<Rightarrow> json) \<Rightarrow> (string \<times> 'v) list \<Rightarrow> json" where
  "map_json f m = (if m = [] then JNull else JObject (concat (map (\<lambda>(k, v). jfield k (f v)) (sort_key fst m))))"

definition float_json :: "bytes \<Rightarrow> json" where
  "float_json s = (case parse_json s of Some (JNumber r) \<Rightarrow> JNumber r | _ \<Rightarrow> JNull)"

definition is_float :: "bytes \<Rightarrow> bool" where
  "is_float s \<longleftrightarrow> (case parse_json s of Some (JNumber r) \<Rightarrow> True | _ \<Rightarrow> False)"

definition upload_json :: "upload_span \<Rightarrow> json option" where
  "upload_json s =
    (if \<not> list_all is_float (map snd (us_doubles s)) then None
     else Some (JObject (jfield ''started_at_micros'' (jnum (us_started s)) @ jfield ''log_id'' (jstr '''') @
       jfield ''span_id'' (jstr (us_span_id s)) @ jfield ''parent_id'' (jstr (us_parent_id s)) @ jfield ''trace_id'' (jstr (us_trace_id s)) @
       jfield ''duration_micros'' (jnum (us_duration s)) @ jfield ''service_name'' (jstr (us_service s)) @
       jfield ''workspace_id'' (jstr (us_workspace s)) @ jfield ''span_name'' (jstr (us_name s)) @ jfield ''span_type'' (jstr (us_type s)) @
       jfield ''status_code'' (jnum (us_status s)) @ jfield ''input'' (jstr (us_in s)) @ jfield ''output'' (jstr (us_out s)) @
       jfield ''object_storage'' (jstr '''') @ jfield ''system_tags_string'' (map_json jstr (us_system s)) @
       jfield ''system_tags_long'' JNull @ jfield ''system_tags_double'' JNull @
       jfield ''tags_string'' (map_json jstr (us_strings s)) @ jfield ''tags_long'' (map_json jnum (us_longs s)) @
       jfield ''tags_double'' (map_json float_json (us_doubles s)) @ jfield ''tags_bool'' (map_json JBool (us_bools s)))))"

record base_response =
  bs_code :: int
  bs_msg :: string

definition base_response_fields :: "base_response fields" where
  "base_response_fields = [(''code'', int64_field bs_code_update), (''msg'', string_field bs_msg_update)]"

text \<open>The status is 0 when there was no response.\<close>

definition export :: "trace_env \<Rightarrow> exporter \<Rightarrow> bytes \<Rightarrow> trace_log \<Rightarrow> trace_log \<times> int \<times> agent_error option" where
  "export env e body log = (case xn_request_err env (ex_endpoint e) of
     Some err \<Rightarrow> (log, 0, Some err)
   | None \<Rightarrow>
       (let log1 = log @ [Uploaded (ex_endpoint e) (ex_authorization e) body] in
        case xn_send env log1 of
          Inl err \<Rightarrow> (log1, 0, Some err)
        | Inr (status, answer) \<Rightarrow>
            (log1, status,
             if \<not> successfulStatus status then Some (Errorf ''fornax: export traces HTTP %d'' [Num status])
             else (case decode_first base_response_fields answer \<lparr>bs_code = 0, bs_msg = ''''\<rparr> of
                 None \<Rightarrow> Some (Wrapped ''fornax: decode trace export response: %w'' [] json_error)
               | Some r \<Rightarrow> if bs_code r \<noteq> 0 then Some (Errorf ''fornax: export traces code %d: %s'' [Num (bs_code r), Str (bs_msg r)]) else None))))"

definition export_body :: "attr_reader \<Rightarrow> exporter \<Rightarrow> ended_span list \<Rightarrow> bytes option" where
  "export_body rd e spans = map_option (\<lambda>uploads. print_json (JObject (jfield ''spans'' (JArray uploads))))
     (all_some (map (\<lambda>s. upload_json (uploadSpanFrom rd s (ex_space e) (ex_service e))) spans))"

definition ExportSpans :: "trace_env \<Rightarrow> attr_reader \<Rightarrow> exporter \<Rightarrow> ended_span list \<Rightarrow> trace_log \<times> exporter \<times> agent_error option" where
  "ExportSpans env rd e spans =
    (if spans = [] then ([], e, None)
     else case export_body rd e spans of
         None \<Rightarrow> ([], e, Some json_error)
       | Some body \<Rightarrow>
           (case export env e body [] of (log, status, err) \<Rightarrow>
            case (if status = 401 then ex_refresh e else None) of
              None \<Rightarrow> (log, e, err)
            | Some tq \<Rightarrow>
                (case fetchJWTToken env tq log of
                   (log1, Inl failure) \<Rightarrow> (log1, e, Some (Wrapped ''fornax: refresh token: %w'' [] failure))
                 | (log1, Inr (jwt, space)) \<Rightarrow>
                     if itoa space \<noteq> ex_space e
                     then (log1, e, Some (Errorf ''fornax: refreshed token space ID changed from %s to %s'' [Str (ex_space e), Str (itoa space)]))
                     else
                       (let e1 = e\<lparr>ex_authorization := jwt\<rparr>; (log2, _, err2) = export env e1 body log1 in (log2, e1, err2)))))"

section \<open>What an export does\<close>

lemma read_token_space: "read_token status body = Inr (jwt, space) \<Longrightarrow> spaceIDFromJWT jwt = Inr space"
  by (auto simp: read_token_def rbind_Inr_iff split: option.split_asm if_split_asm)

lemma fetch_effects:
  assumes "fetchJWTToken env tq log = (log1, r)"
  shows "\<exists>new. log1 = log @ new \<and> length new \<le> 1 \<and> (\<forall>x \<in> set new. \<exists>url sig body. x = TokenRequested url sig body)"
    and "r = Inr (jwt, space) \<Longrightarrow> spaceIDFromJWT jwt = Inr space"
  using assms by (auto simp: fetchJWTToken_def Let_def read_token_space split: option.split_asm sum.split_asm)

lemma export_effects:
  assumes "export env e body log = (log1, status, err)"
  shows "log1 = log \<and> status = 0 \<or> log1 = log @ [Uploaded (ex_endpoint e) (ex_authorization e) body]"
    and "err = None \<Longrightarrow> \<exists>answer. xn_send env log1 = Inr (status, answer) \<and> successfulStatus status"
    and "status \<noteq> 0 \<Longrightarrow> \<exists>answer. xn_send env log1 = Inr (status, answer)"
  using assms by (auto simp: export_def Let_def split: option.split_asm sum.split_asm if_split_asm)

text \<open>
  An export uploads its spans at most twice, with the same body, the second time only after a status
  401 and with a token that names the space of the exporter; nothing else of the exporter changes. It
  succeeds only when the last answer has a status of success, or when there is nothing to upload.
\<close>
theorem export_renews_once:
  assumes "ExportSpans env rd e spans = (log, e1, err)"
  shows "\<exists>body renewal. (\<forall>x \<in> set renewal. \<exists>url sig b. x = TokenRequested url sig b) \<and> length renewal \<le> 1 \<and>
      (log = [] \<or> log = [Uploaded (ex_endpoint e) (ex_authorization e) body] @ renewal \<or>
        log = [Uploaded (ex_endpoint e) (ex_authorization e) body] @ renewal @ [Uploaded (ex_endpoint e) (ex_authorization e1) body])"
    and "e1 = e\<lparr>ex_authorization := ex_authorization e1\<rparr>"
    and "1 < length log \<or> e1 \<noteq> e \<Longrightarrow> ex_refresh e \<noteq> None \<and> (\<exists>answer. xn_send env [hd log] = Inr (401, answer))"
    and "e1 \<noteq> e \<Longrightarrow> \<exists>space. spaceIDFromJWT (ex_authorization e1) = Inr space \<and> itoa space = ex_space e"
    and "err = None \<Longrightarrow> spans = [] \<or> (\<exists>status answer. xn_send env log = Inr (status, answer) \<and> successfulStatus status)"
proof -
  have "(\<exists>body renewal. (\<forall>x \<in> set renewal. \<exists>url sig b. x = TokenRequested url sig b) \<and> length renewal \<le> 1 \<and>
      (log = [] \<or> log = [Uploaded (ex_endpoint e) (ex_authorization e) body] @ renewal \<or>
        log = [Uploaded (ex_endpoint e) (ex_authorization e) body] @ renewal @ [Uploaded (ex_endpoint e) (ex_authorization e1) body])) \<and>
    e1 = e\<lparr>ex_authorization := ex_authorization e1\<rparr> \<and>
    (1 < length log \<or> e1 \<noteq> e \<longrightarrow> ex_refresh e \<noteq> None \<and> (\<exists>answer. xn_send env [hd log] = Inr (401, answer))) \<and>
    (e1 \<noteq> e \<longrightarrow> (\<exists>space. spaceIDFromJWT (ex_authorization e1) = Inr space \<and> itoa space = ex_space e)) \<and>
    (err = None \<longrightarrow> spans = [] \<or> (\<exists>status answer. xn_send env log = Inr (status, answer) \<and> successfulStatus status))"
  proof (cases "spans = [] \<or> export_body rd e spans = None")
    case True
    with assms have "log = []" "e1 = e" "err = None \<longrightarrow> spans = []"
      by (auto simp: ExportSpans_def split: if_split_asm)
    then show ?thesis by (intro conjI exI [of _ "[]"]) auto
  next
    case False
    then obtain body where b: "export_body rd e spans = Some body" by auto
    let ?u = "Uploaded (ex_endpoint e) (ex_authorization e) body"
    obtain l status err0 where x: "export env e body [] = (l, status, err0)" by (metis prod_cases3)
    note fx = export_effects [OF x]
    show ?thesis
    proof (cases "if status = 401 then ex_refresh e else None")
      case None
      with assms False b x have r: "log = l" "e1 = e" "err = err0"
        by (auto simp: ExportSpans_def split: if_split_asm)
      have "l = [] \<or> l = [?u]" using fx(1) by auto
      with fx(2) r show ?thesis by (intro conjI exI [of _ body] exI [of _ "[]"]) auto
    next
      case (Some tq)
      then have s: "status = 401" "ex_refresh e = Some tq" by (auto split: if_split_asm)
      then have l: "l = [?u]" using fx(1) by auto
      with fx(3) s have sent: "\<exists>answer. xn_send env [?u] = Inr (401, answer)" by simp
      obtain l1 token where t: "fetchJWTToken env tq l = (l1, token)" by force
      note ft = fetch_effects [OF t]
      from ft(1) obtain new where new: "l1 = [?u] @ new" "length new \<le> 1" "\<forall>x \<in> set new. \<exists>url sig b. x = TokenRequested url sig b"
        unfolding l by blast
      show ?thesis
      proof (cases "\<exists>jwt space. token = Inr (jwt, space) \<and> itoa space = ex_space e")
        case True
        then obtain jwt space where tk: "token = Inr (jwt, space)" "itoa space = ex_space e" by blast
        let ?e = "e\<lparr>ex_authorization := jwt\<rparr>"
        obtain l2 status2 err2 where y: "export env ?e body l1 = (l2, status2, err2)" by (metis prod_cases3)
        note fy = export_effects [OF y]
        have r: "log = l2" "e1 = ?e" "err = err2" using assms False b x Some t tk y by (auto simp: ExportSpans_def Let_def)
        have "l2 = [?u] @ new \<or> l2 = [?u] @ new @ [Uploaded (ex_endpoint e) jwt body]" using fy(1) new(1) by auto
        with r fy(2) ft(2) [OF tk(1)] tk(2) new(2,3) s(2) sent show ?thesis
          by (intro conjI exI [of _ body] exI [of _ new]) auto
      next
        case False
        with assms \<open>\<not> (spans = [] \<or> export_body rd e spans = None)\<close> b x Some t have r: "log = l1" "e1 = e" "err \<noteq> None"
          by (auto simp: ExportSpans_def split: sum.split_asm if_split_asm)
        with new s(2) sent show ?thesis by (intro conjI exI [of _ body] exI [of _ new]) auto
      qed
    qed
  qed
  then show "\<exists>body renewal. (\<forall>x \<in> set renewal. \<exists>url sig b. x = TokenRequested url sig b) \<and> length renewal \<le> 1 \<and>
      (log = [] \<or> log = [Uploaded (ex_endpoint e) (ex_authorization e) body] @ renewal \<or>
        log = [Uploaded (ex_endpoint e) (ex_authorization e) body] @ renewal @ [Uploaded (ex_endpoint e) (ex_authorization e1) body])"
    and "e1 = e\<lparr>ex_authorization := ex_authorization e1\<rparr>"
    and "1 < length log \<or> e1 \<noteq> e \<Longrightarrow> ex_refresh e \<noteq> None \<and> (\<exists>answer. xn_send env [hd log] = Inr (401, answer))"
    and "e1 \<noteq> e \<Longrightarrow> \<exists>space. spaceIDFromJWT (ex_authorization e1) = Inr space \<and> itoa space = ex_space e"
    and "err = None \<Longrightarrow> spans = [] \<or> (\<exists>status answer. xn_send env log = Inr (status, answer) \<and> successfulStatus status)"
    by blast+
qed

end
