(* ===== verification/Spec2Isabelle.thy ===== *)
theory Spec2Isabelle
  imports Dbstore_Claims Dbstore_Journal_Claims Dbstore_Retention_Claims Migration_Claims React_Claims Agent_Claims
    Codex_Claims Codex_Auth_Claims Chat_Claims Fornax_Claims Fornax_Export
begin

text \<open>
  A model of the checkpoint and journal store, of the agents, of the chat completions and Codex
  models, with the login of the latter, and of the tracing middleware, of \<open>gopact-ext\<close>.

  \<^bold>\<open>The program.\<close> The repository extends the workflow runtime \<open>gopact\<close>, which is not part of
  it. \<open>src/stores/dbstore\<close> keeps the runtime's checkpoints and journal in a relational
  database: runs are created, claimed with a lease, saved by compare-and-swap, finished,
  journaled, compacted and purged. \<open>src/agents\<close> builds agents as workflows: a ReAct loop over
  a model and tools, a loop over a child, a supervisor that delegates, a planner with an
  executor, compositions in sequence, in parallel and by selection, an agent wrapped as a
  tool, and a client of the agent client protocol. The agents do not call the store: the
  runtime drives both. \<open>src/models/openai\<close> has two models that the agents can call.
  \<open>openai.go\<close> encodes a conversation for the chat completions endpoint, sends it with an API
  key, and reads a JSON response or a stream of chunks; \<open>runtime_transport.go\<close> carries the calls
  of the other endpoints in the same way. \<open>src/models/openai/codex\<close> sends a conversation with
  tokens that \<open>src/models/openai/codexauth\<close> obtains and refreshes, and reads the response as a
  stream of events. \<open>src/middleware/byted/fornax\<close> wraps an agent and turns the events of its run
  into spans, which it uploads to a tracing service.

  \<^bold>\<open>Conventions.\<close> A Go struct is a record, an enumeration a datatype, a result
  \<open>(value, error)\<close> a sum with the error on the left, an \<open>int64\<close> an \<open>int\<close> with \<open>wrap64\<close>
  where it can overflow, a string a list of bytes, an instant a number of nanoseconds. What
  the code asks of the outside at a step (database faults, clocks, contexts, answers of
  models, tools and children) is in the environment record of that step, and every theorem
  holds for all environments. Code outside the repository is a parameter: the JSON codec of
  a checkpoint or event (\<open>codec\<close>, with \<open>codec_ok\<close>: what was encoded decodes again), the JSON
  validity check, encoders, children.

  \<^bold>\<open>Shared theories.\<close> \<open>Prelude\<close>: bytes, UTF-8, instants, integers, results. \<open>Tables\<close>: SQL
  statements on lists of rows, the contract of a table with a unique key as the locale
  \<open>keyed_table\<close>, interpreted for the five tables. \<open>Budget\<close>: the row and byte budget of the
  purges. \<open>Transitions\<close>: reachability, the locales of systems with a counter and of systems
  whose state evolves. \<open>Agent_Types\<close>: the values of the agents, the validator of
  \<open>contract.go\<close>, and the locale \<open>bounded_system\<close> of step functions with a measure: every run
  is bounded and ends.

  \<^bold>\<open>The store.\<close> \<open>Dbstore_Types\<close> (rows, records, validation, encoding), \<open>Dbstore_Core\<close>
  (transactions, clock, registry, triggers, the version step, the journal insert),
  \<open>Dbstore_Ops\<close> (Create, Load, Claim, RenewLease, Save, Finish, ListCheckpoints, Append,
  AppendFenced, List) and \<open>Dbstore_Retention\<close> (the three purges, with every transaction and
  loop) model \<open>dbstore.go\<close>, \<open>operations.go\<close>, \<open>registry.go\<close>, \<open>clock.go\<close>, \<open>retention.go\<close> and
  the triggers of \<open>migrations.go\<close>. A transaction either commits or leaves the database alone;
  transactions are serialized, and a purge runs many of them, each with its own environment.
  \<open>Dbstore_Inv\<close> states the invariant \<open>store_inv\<close>; \<open>Dbstore_Preserve\<close>, \<open>Dbstore_Purge\<close>,
  \<open>Dbstore_Compact\<close> and \<open>Dbstore_Confirm\<close> prove that each operation keeps it;
  \<open>Dbstore_Safety\<close> and \<open>Dbstore_Floor\<close> hold the facts of single operations.
  \<open>Dbstore_Abstract\<close> is the abstract specification, the changes that may happen to runs,
  checkpoints and events; \<open>Dbstore_System\<close> shows that every transaction is a sequence of such
  changes and interprets the locale of evolving systems twice, for what the past promises
  (\<open>evolves\<close>) and for runs that are finished (\<open>settled\<close>). \<open>Dbstore_Examples\<close> has the concrete
  databases of the witnesses; the properties are in \<open>Dbstore_Claims\<close> (reachability,
  refinement, failures), \<open>Dbstore_Checkpoint_Claims\<close>, \<open>Dbstore_Journal_Claims\<close> and
  \<open>Dbstore_Retention_Claims\<close>.

  \<^bold>\<open>Opening and migrating.\<close> \<open>Schema\<close> is the check of a schema over what the catalog of the
  database reports (the record \<open>report\<close>); \<open>Migrations\<close> the backfills of heads, registries and
  retention floors in batches, with the repair loop over their gaps; \<open>Opening\<close> the steps
  between the versions, the triggers, the migration lock, and Open, Connect and Migrate. The
  DDL and gorm's AutoMigrate are the parameter \<open>schema_engine\<close>, of which the theorems assume
  that it keeps the rows of the tables (\<open>keeps_tables\<close>). \<open>Migration_Proofs\<close>,
  \<open>Migration_Steps\<close> and \<open>Migration_Heads\<close> show that every step keeps the data and that
  together they establish the store invariant; \<open>Migration_Examples\<close> and
  \<open>Migration_Claims\<close> hold the databases of the witnesses and the properties.

  \<^bold>\<open>The agents.\<close> \<open>React\<close> (nodes, routes and dispatcher of \<open>react.go\<close>) with \<open>React_Proofs\<close> (the
  transcript invariant, the measure) and \<open>React_Claims\<close>; \<open>Agent_Tool\<close>; \<open>Loop_Agent\<close>, related to
  a recursive reference function; \<open>Supervisor\<close>; \<open>Planexec\<close> with \<open>Planexec_Proofs\<close>;
  \<open>Compose\<close> (\<open>sequential.go\<close>, \<open>parallel.go\<close>, \<open>router.go\<close>); \<open>Acp\<close> with \<open>Acp_Proofs\<close>. The
  workflow of an agent is a step function on a state of node and data, composed as the
  routes of the code compose the nodes. The properties are in \<open>React_Claims\<close> and
  \<open>Agent_Claims\<close>.

  \<^bold>\<open>The Codex model.\<close> \<open>Json\<close> is the grammar of JSON as \<open>encoding/json\<close> reads and writes it:
  a scanner, an automaton for values, \<open>Compact\<close>, a printer, and their round trips;
  \<open>Json_Text\<close> has strings with their escapes, numbers, the decoding into structs (members in
  order, names compared without regard to case) and raw messages; \<open>Json_Strings\<close> the facts
  about them. \<open>Codex_Request\<close> is \<open>request.go\<close>, \<open>Codex_Stream\<close> is \<open>stream.go\<close>, and
  \<open>Codex_Model\<close> is \<open>codex.go\<close>. \<open>Codex_Transcript\<close> states which conversations the encoder
  accepts, without its sets, and proves that it accepts exactly these; \<open>Codex_Decode\<close> shows
  that an item reads the same after its members are sorted, with the locale
  \<open>string_member\<close> for the fields of a struct, interpreted for each of them;
  \<open>Codex_Stream_Proofs\<close> has the invariant of the state of a response, the round trip of
  server-sent events and the stream as a function of the list of its events;
  \<open>Codex_Replay\<close> composes both: what a stream gives can be sent again.
  \<open>Codex_Model_Proofs\<close> has the redaction of tokens, the bounds of the attempts and the
  consumer that stops. \<open>Codex_Auth\<close> (\<open>codexauth.go\<close>, \<open>source.go\<close>) and \<open>Codex_Account\<close>
  (\<open>account.go\<close>) with their proofs follow the same lines. The effects of a call are a log,
  and the outside answers as functions of the log so far. \<open>Codex_Examples\<close> is a call at
  concrete values; the properties are in \<open>Codex_Claims\<close> and \<open>Codex_Auth_Claims\<close>. A map of Go is
  a list of its members, so an error that names the first key that an iteration meets names
  the first of the list; \<open>strings.EqualFold\<close> compares names in ASCII; what \<open>url.Parse\<close>,
  \<open>http.ParseTime\<close> and \<open>http.StatusText\<close> make of a text is an argument.

  \<^bold>\<open>The chat completions model.\<close> \<open>Chat_Model\<close> (the encoder of conversations, the request with
  its text, the message of a response, the policy of retries and of redirects) and \<open>Chat_Calls\<close>
  (construction, attempts, Invoke, InvokeStream) are \<open>openai.go\<close>; \<open>Chat_Runtime\<close> is
  \<open>runtime_transport.go\<close>. They use the grammar of JSON, the values of requests and the results
  of the Codex theories. A multipart body is a list of parts, whose format is a parameter, and
  the text of a \<open>gopact.Usage\<close>, a type of the runtime, an answer of the environment.
  \<open>Chat_Transcript\<close> states which conversations the encoder accepts, by counting calls and
  answers instead of keeping sets, and proves that it accepts exactly these; \<open>Chat_Proofs\<close>
  has the bounds of the attempts and the redaction of the key, of which a key that was cut
  and the errors about accepted answers are not a part; \<open>Chat_Streaming\<close> splits the loop over a stream into its lines, the chunks in them and
  what a chunk delivers; \<open>Chat_Runtime_Proofs\<close> does the same for the events of the transport.
  The properties are in \<open>Chat_Claims\<close>.

  \<^bold>\<open>The tracing middleware.\<close> Of \<open>fornax.go\<close>, \<open>Fornax_Payload\<close> has the tags and the payloads,
  \<open>Fornax_Sink\<close> the sink of events, whose calls of the tracer are a log over numbered spans,
  \<open>Fornax_Agent\<close> the wrapped calls, and \<open>Fornax_Export\<close> the authentication and the exporter, with
  what an export sends. \<open>Fornax_Spans\<close> reads a log as a machine whose state is the multiset of
  open spans, and with \<open>Fornax_Sink_Proofs\<close> accounts for every span of the sink; \<open>Fornax_Tags\<close>
  has the selection of tags by priority. \<open>Fornax_Claims\<close> puts them together: the spans of a call
  are ended, the contents of a call stay out of the log unless they are captured, and the tags
  are those of the sources by priority. The events that the target of a call sends are an
  argument; a target that panics is not considered. The HMAC over SHA-256 is a parameter.

  \<^bold>\<open>Bounds and fuel.\<close> Nothing runs on fuel. The loops of the store recurse on the lists the
  code iterates over, and the loops over attempts on what is left of them; the decoder of a
  stream ends because every event takes a part of the body. Two loops wait for the outside,
  for the migration lock of PostgreSQL and for the authorization of a login: they are partial
  functions whose value \<open>None\<close> is a wait for ever, and theorems show that they end when the
  clock moves on. The step functions of the agents are total; that their runs end is a
  theorem from a measure (limits minus what was used, times the longest path between two
  uses, plus the rank of the node), for every environment.

  \<^bold>\<open>Not modelled.\<close> The single endpoints of
  \<open>src/models/openai\<close> besides chat completions (\<open>responses.go\<close>,
  \<open>files.go\<close> and their siblings, records with one call of the transport each),
  the other clients of model services (\<open>glm\<close>, \<open>agnes\<close>,
  \<open>fake\<close>), the construction of the wrappers and the batching of spans in
  \<open>fornax.go\<close>, the facades of single drivers (\<open>src/stores/sqlite\<close>
  and its siblings), and documentation packages. The clone functions of
  \<open>request.go\<close> and \<open>openai.go\<close> are the identity on values. The
  workflow engine, the SQL engine, HTTP and the protocol library are outside the repository
  and appear as parameters or as the semantics of single statements.
\<close>

end
